(* ===== verification/Prelude.thy ===== *)
theory Prelude
  imports Main "HOL-Library.Word" "HOL-Library.List_Lexorder" "HOL-Library.Char_ord"
begin

text \<open>
  Shared vocabulary of the development: the fixed-width integers and byte strings of Go, the
  functions of the packages \<^verbatim>\<open>strings\<close>, \<^verbatim>\<open>strconv\<close> and \<^verbatim>\<open>encoding/binary\<close> the sources
  call, the enumeration of a Go map by \<^verbatim>\<open>range\<close>, and the two generic interfaces
  (a step system with an invariant, a bounded channel) that the components instantiate.

  A Go string is a sequence of bytes, as an Isabelle \<^typ>\<open>string\<close> is. The case and white-space
  functions are those of Go on ASCII bytes; a byte above 127 is left alone, which is what Go
  does on the host names and header tokens the sources feed them.
\<close>

unbundle bit_operations_syntax

type_synonym u8 = "8 word"
type_synonym u16 = "16 word"
type_synonym u32 = "32 word"
type_synonym u64 = "64 word"
type_synonym bytes = "8 word list"

section \<open>Strings\<close>

definition ascii_lower :: "char \<Rightarrow> char" where
  "ascii_lower c = (let n = (of_char c :: nat) in if 65 \<le> n \<and> n \<le> 90 then char_of (n + 32) else c)"

definition ascii_upper :: "char \<Rightarrow> char" where
  "ascii_upper c = (let n = (of_char c :: nat) in if 97 \<le> n \<and> n \<le> 122 then char_of (n - 32) else c)"

definition ToLower :: "string \<Rightarrow> string" where
  "ToLower s = map ascii_lower s"

definition ToUpper :: "string \<Rightarrow> string" where
  "ToUpper s = map ascii_upper s"

definition EqualFold :: "string \<Rightarrow> string \<Rightarrow> bool" where
  "EqualFold s t = (ToLower s = ToLower t)"

definition is_space :: "char \<Rightarrow> bool" where
  "is_space c = (let n = (of_char c :: nat) in n = 32 \<or> (9 \<le> n \<and> n \<le> 13))"

definition TrimSpace :: "string \<Rightarrow> string" where
  "TrimSpace s = rev (dropWhile is_space (rev (dropWhile is_space s)))"

definition HasPrefix :: "string \<Rightarrow> string \<Rightarrow> bool" where
  "HasPrefix s p = (take (length p) s = p)"

definition HasSuffix :: "string \<Rightarrow> string \<Rightarrow> bool" where
  "HasSuffix s p = (length p \<le> length s \<and> drop (length s - length p) s = p)"

definition TrimSuffix :: "string \<Rightarrow> string \<Rightarrow> string" where
  "TrimSuffix s p = (if HasSuffix s p then take (length s - length p) s else s)"

fun Contains :: "string \<Rightarrow> string \<Rightarrow> bool" where
  "Contains [] p = (p = [])"
| "Contains (c # s) p = (HasPrefix (c # s) p \<or> Contains s p)"

fun Split :: "char \<Rightarrow> string \<Rightarrow> string list" where
  "Split sep [] = [[]]"
| "Split sep (c # s) =
     (if c = sep then [] # Split sep s
      else (case Split sep s of [] \<Rightarrow> [[c]] | w # ws \<Rightarrow> (c # w) # ws))"

definition RemoveAll :: "char \<Rightarrow> string \<Rightarrow> string" where
  "RemoveAll d s = filter (\<lambda>c. c \<noteq> d) s"

definition ReplaceChar :: "char \<Rightarrow> char \<Rightarrow> string \<Rightarrow> string" where
  "ReplaceChar a b s = map (\<lambda>c. if c = a then b else c) s"

lemma Split_ne [simp]: "Split sep s \<noteq> []"
  by (cases s) (auto split: list.splits)

lemma ascii_lower_idem [simp]: "ascii_lower (ascii_lower c) = ascii_lower c"
  by (auto simp: ascii_lower_def Let_def)

lemma ToLower_idem [simp]: "ToLower (ToLower s) = ToLower s"
  by (simp add: ToLower_def)

lemma length_ToLower [simp]: "length (ToLower s) = length s"
  by (simp add: ToLower_def)

lemma HasSuffix_iff: "HasSuffix s p \<longleftrightarrow> (\<exists>r. s = r @ p)"
proof
  assume "HasSuffix s p"
  then have "s = take (length s - length p) s @ p"
    by (metis HasSuffix_def append_take_drop_id)
  then show "\<exists>r. s = r @ p" ..
next
  assume "\<exists>r. s = r @ p"
  then show "HasSuffix s p" by (auto simp: HasSuffix_def)
qed

lemma TrimSuffix_append [simp]: "TrimSuffix (s @ p) p = s"
  by (simp add: TrimSuffix_def HasSuffix_def)

lemma Contains_append: "Contains (a @ p @ b) p"
proof (induction a)
  case Nil
  show ?case
  proof (cases "p @ b")
    case Nil then show ?thesis by simp
  next
    case (Cons c s)
    then have "HasPrefix (c # s) p" by (metis HasPrefix_def append_eq_conv_conj)
    with Cons show ?thesis by simp
  qed
next
  case (Cons c a)
  then show ?case by simp
qed

section \<open>Decimal and hexadecimal numerals\<close>

definition digit_char :: "nat \<Rightarrow> char" where
  "digit_char n = char_of (48 + n)"

definition is_digit :: "char \<Rightarrow> bool" where
  "is_digit c = (let n = (of_char c :: nat) in 48 \<le> n \<and> n \<le> 57)"

definition digit_val :: "char \<Rightarrow> nat" where
  "digit_val c = of_char c - 48"

fun show_nat :: "nat \<Rightarrow> string" where
  "show_nat n = (if n < 10 then [digit_char n] else show_nat (n div 10) @ [digit_char (n mod 10)])"

declare show_nat.simps [simp del]

definition show_int :: "int \<Rightarrow> string" where
  "show_int i = (if i < 0 then CHR ''-'' # show_nat (nat (- i)) else show_nat (nat i))"

definition dec_val :: "string \<Rightarrow> nat" where
  "dec_val ds = foldl (\<lambda>a d. a * 10 + digit_val d) 0 ds"

text \<open>\<^verbatim>\<open>strconv.Atoi\<close>: an optional sign, at least one digit, and a result in the range of a
  64-bit \<^verbatim>\<open>int\<close>.\<close>

definition Atoi :: "string \<Rightarrow> int option" where
  "Atoi s =
     (let (neg, ds) = (case s of
          [] \<Rightarrow> (False, [])
        | c # cs \<Rightarrow> if c = CHR ''-'' then (True, cs) else if c = CHR ''+'' then (False, cs) else (False, s))
      in if ds = [] \<or> \<not> list_all is_digit ds then None
         else (let v = (if neg then - int (dec_val ds) else int (dec_val ds))
               in if - (2 ^ 63) \<le> v \<and> v < 2 ^ 63 then Some v else None))"

lemma digit_char_props:
  assumes "n < 10"
  shows "is_digit (digit_char n)" "digit_val (digit_char n) = n"
  using assms by (auto simp: is_digit_def digit_val_def digit_char_def)

lemma show_nat_digits: "list_all is_digit (show_nat n) \<and> show_nat n \<noteq> []"
proof (induction n rule: show_nat.induct)
  case (1 n)
  then show ?case
    by (cases "n < 10") (auto simp: show_nat.simps [of n] digit_char_props)
qed

lemma dec_val_snoc: "dec_val (xs @ [d]) = dec_val xs * 10 + digit_val d"
  by (simp add: dec_val_def)

lemma dec_val_show [simp]: "dec_val (show_nat n) = n"
proof (induction n rule: show_nat.induct)
  case (1 n)
  show ?case
  proof (cases "n < 10")
    case True
    then show ?thesis by (simp add: show_nat.simps [of n] dec_val_def digit_char_props)
  next
    case False
    then have "dec_val (show_nat n) = n div 10 * 10 + n mod 10"
      using 1 by (simp add: show_nat.simps [of n] dec_val_snoc digit_char_props)
    then show ?thesis by simp
  qed
qed

lemma show_nat_inj [simp]: "show_nat m = show_nat n \<longleftrightarrow> m = n"
  by (metis dec_val_show)

lemma show_nat_no: "\<not> is_digit c \<Longrightarrow> c \<notin> set (show_nat n)"
  using show_nat_digits [of n] by (auto simp: list_all_iff)

lemma not_digit [simp]:
  "\<not> is_digit CHR ''.''" "\<not> is_digit CHR '':''" "\<not> is_digit CHR ''-''" "\<not> is_digit CHR ''+''"
  "\<not> is_digit CHR ''[''" "\<not> is_digit CHR '']''"
  by (simp_all add: is_digit_def)

lemma Atoi_show_nat: "n < 2 ^ 63 \<Longrightarrow> Atoi (show_nat n) = Some (int n)"
proof -
  assume n: "n < 2 ^ 63"
  obtain c cs where s: "show_nat n = c # cs"
    using show_nat_digits [of n] by (cases "show_nat n") auto
  have "is_digit c" using show_nat_digits [of n] s by auto
  then have "c \<noteq> CHR ''-''" "c \<noteq> CHR ''+''" by auto
  moreover have "list_all is_digit (c # cs)" using show_nat_digits [of n] s by simp
  moreover have "dec_val (c # cs) = n" using dec_val_show [of n] s by simp
  moreover have "int n < 2 ^ 63" using n by simp
  ultimately show ?thesis by (simp add: Atoi_def s)
qed

definition hex_digit_char :: "nat \<Rightarrow> char" where
  "hex_digit_char n = (if n < 10 then char_of (48 + n) else char_of (87 + n))"

definition hex_val :: "char \<Rightarrow> nat option" where
  "hex_val c = (let n = (of_char c :: nat) in
     if 48 \<le> n \<and> n \<le> 57 then Some (n - 48)
     else if 97 \<le> n \<and> n \<le> 102 then Some (n - 87)
     else if 65 \<le> n \<and> n \<le> 70 then Some (n - 55)
     else None)"

fun show_hex :: "nat \<Rightarrow> string" where
  "show_hex n = (if n < 16 then [hex_digit_char n] else show_hex (n div 16) @ [hex_digit_char (n mod 16)])"

declare show_hex.simps [simp del]

text \<open>\<^verbatim>\<open>fmt.Sprintf("%q")\<close> on printable ASCII.\<close>

definition quote :: "string \<Rightarrow> string" where
  "quote s = CHR 0x22 # concat (map (\<lambda>c. if c = CHR 0x22 \<or> c = CHR 0x5C then [CHR 0x5C, c] else [c]) s) @ [CHR 0x22]"

section \<open>Big-endian integers\<close>

definition be16 :: "u8 \<Rightarrow> u8 \<Rightarrow> nat" where
  "be16 a b = unat a * 256 + unat b"

definition PutUint16 :: "nat \<Rightarrow> bytes" where
  "PutUint16 n = [word_of_nat (n div 256), word_of_nat n]"

lemma length_PutUint16 [simp]: "length (PutUint16 n) = 2"
  by (simp add: PutUint16_def)

lemma unat_u8: "unat (word_of_nat n :: u8) = n mod 256"
  by (simp add: unat_of_nat take_bit_eq_mod)

lemma be16_zero [simp]: "be16 0 0 = 0"
  by (simp add: be16_def)

lemma be16_lt: "be16 a b < 65536"
proof -
  have "unat a < 2 ^ LENGTH(8)" "unat b < 2 ^ LENGTH(8)" by (rule unsigned_less)+
  then show ?thesis by (simp add: be16_def)
qed

lemma be16_Put: "be16 (word_of_nat (n div 256)) (word_of_nat n) = n mod 65536"
proof -
  have "n div 256 mod 256 * 256 + n mod 256 = n mod (256 * 256)"
    by (metis add.commute mod_mult2_eq mult.commute)
  then show ?thesis by (simp add: be16_def unat_u8)
qed

lemma be16_Put_small [simp]: "n < 65536 \<Longrightarrow> be16 (word_of_nat (n div 256)) (word_of_nat n) = n"
  by (simp add: be16_Put)

section \<open>First match\<close>

fun first_some :: "('a \<Rightarrow> 'b option) \<Rightarrow> 'a list \<Rightarrow> 'b option" where
  "first_some f [] = None"
| "first_some f (x # xs) = (case f x of None \<Rightarrow> first_some f xs | Some y \<Rightarrow> Some y)"

lemma first_some_cong [fundef_cong]:
  "xs = ys \<Longrightarrow> (\<And>x. x \<in> set ys \<Longrightarrow> f x = g x) \<Longrightarrow> first_some f xs = first_some g ys"
  by (induction ys arbitrary: xs) (auto split: option.splits)

lemma first_some_SomeD: "first_some f xs = Some y \<Longrightarrow> \<exists>x \<in> set xs. f x = Some y"
  by (induction xs) (auto split: option.splits)

lemma first_some_None: "first_some f xs = None \<longleftrightarrow> (\<forall>x \<in> set xs. f x = None)"
  by (induction xs) (auto split: option.splits)

lemma first_some_append:
  "first_some f (xs @ ys) = (case first_some f xs of None \<Rightarrow> first_some f ys | Some y \<Rightarrow> Some y)"
  by (induction xs) (auto split: option.splits)

lemma foldl_inv: "P s \<Longrightarrow> (\<And>s x. P s \<Longrightarrow> P (f s x)) \<Longrightarrow> P (foldl f s xs)"
  by (induction xs arbitrary: s) auto

text \<open>One turn of a loop that keeps the candidate of least weight seen so far, the first of equal
  ones, and skips what is no candidate.\<close>

definition argmin_step :: "('a \<Rightarrow> bool) \<Rightarrow> ('a \<Rightarrow> int) \<Rightarrow> 'a option \<Rightarrow> 'a \<Rightarrow> 'a option" where
  "argmin_step ok w best x =
     (if \<not> ok x \<or> (case best of None \<Rightarrow> False | Some b \<Rightarrow> w x \<ge> w b) then best else Some x)"

lemma argmin_step_simps [simp]:
  "\<not> ok x \<Longrightarrow> argmin_step ok w b x = b" "ok x \<Longrightarrow> argmin_step ok w None x = Some x"
  "ok x \<Longrightarrow> w y \<le> w x \<Longrightarrow> argmin_step ok w (Some y) x = Some y" "ok x \<Longrightarrow> w x < w y \<Longrightarrow> argmin_step ok w (Some y) x = Some x"
  by (simp_all add: argmin_step_def)

lemma argmin_fold:
  "foldl (argmin_step ok w) (Some b) xs = Some y \<Longrightarrow>
     (y = b \<or> y \<in> set xs \<and> ok y) \<and> w y \<le> w b \<and> (\<forall>x \<in> set xs. ok x \<longrightarrow> w y \<le> w x)"
  "foldl (argmin_step ok w) (Some b) xs \<noteq> None"
proof (induction xs arbitrary: b)
  case (Cons x xs)
  { case 1 then show ?case using Cons.IH(1) [of b] Cons.IH(1) [of x]
      by (cases "ok x"; cases "w x \<ge> w b") (auto simp: not_le)
  next
    case 2 show ?case using Cons.IH(2) [of b] Cons.IH(2) [of x]
      by (cases "ok x"; cases "w x \<ge> w b") (auto simp: not_le) }
qed auto

lemma argmin_Some:
  "foldl (argmin_step ok w) None xs = Some y \<Longrightarrow> y \<in> set xs \<and> ok y \<and> (\<forall>x \<in> set xs. ok x \<longrightarrow> w y \<le> w x)"
proof (induction xs)
  case (Cons x xs)
  show ?case
  proof (cases "ok x")
    case True
    then have "foldl (argmin_step ok w) (Some x) xs = Some y" using Cons.prems by simp
    from argmin_fold(1) [OF this] True show ?thesis by auto
  next
    case False
    then have "foldl (argmin_step ok w) None xs = Some y" using Cons.prems by simp
    from Cons.IH [OF this] False show ?thesis by auto
  qed
qed simp

lemma argmin_None: "foldl (argmin_step ok w) None xs = None \<longleftrightarrow> (\<forall>x \<in> set xs. \<not> ok x)"
proof (induction xs)
  case (Cons x xs)
  show ?case using Cons argmin_fold(2) [of ok w x xs] by (cases "ok x") simp_all
qed simp

section \<open>Ranging over a Go map\<close>

text \<open>
  \<^verbatim>\<open>range\<close> over a map visits every key once, in an order the runtime chooses. A function that
  ranges over a map takes that order as an argument; its theorems hold for every order that
  enumerates the map.
\<close>

definition enumerates :: "'k list \<Rightarrow> ('k \<rightharpoonup> 'v) \<Rightarrow> bool" where
  "enumerates ks m \<longleftrightarrow> distinct ks \<and> set ks = dom m"

lemma enumerates_finite: "enumerates ks m \<Longrightarrow> finite (dom m)"
  by (metis enumerates_def List.finite_set)

lemma enumerates_card: "enumerates ks m \<Longrightarrow> card (dom m) = length ks"
  by (metis enumerates_def distinct_card)

lemma card_dom_delete: "finite (dom m) \<Longrightarrow> m k = Some v \<Longrightarrow> card (dom (m(k := None))) = card (dom m) - 1"
  by (metis card_Diff_singleton domI dom_fun_upd)

text \<open>An order the runtime may choose for every map, and one such choice: by key.\<close>

definition ranges :: "(('k \<rightharpoonup> 'v) \<Rightarrow> 'k list) \<Rightarrow> bool" where
  "ranges ord \<longleftrightarrow> (\<forall>m. finite (dom m) \<longrightarrow> enumerates (ord m) m)"

definition by_key :: "('k :: linorder \<rightharpoonup> 'v) \<Rightarrow> 'k list" where
  "by_key m = sorted_list_of_set (dom m)"

lemma ranges_by_key: "ranges by_key"
  by (simp add: ranges_def by_key_def enumerates_def)

text \<open>Likewise for a set of numbered objects.\<close>

definition visits_all :: "(nat set \<Rightarrow> nat list) \<Rightarrow> bool" where
  "visits_all ord \<longleftrightarrow> (\<forall>A. finite A \<longrightarrow> distinct (ord A) \<and> set (ord A) = A)"

lemma visits_allD: "visits_all ord \<Longrightarrow> finite A \<Longrightarrow> set (ord A) = A" "visits_all ord \<Longrightarrow> finite A \<Longrightarrow> distinct (ord A)"
  by (simp_all add: visits_all_def)

lemma visits_sorted: "visits_all sorted_list_of_set"
  by (simp add: visits_all_def)

lemma rangesD: "ranges ord \<Longrightarrow> finite (dom m) \<Longrightarrow> distinct (ord m) \<and> set (ord m) = dom m"
  by (simp add: ranges_def enumerates_def)

section \<open>Interfaces\<close>

text \<open>
  A component with state is a step system; an invariant of its steps holds in every state that
  a run reaches. The components interpret this interface with their own operations.
\<close>

locale step_system =
  fixes init :: "'s \<Rightarrow> bool"
    and step :: "'s \<Rightarrow> 'op \<Rightarrow> 's"
    and inv :: "'s \<Rightarrow> bool"
  assumes init_inv: "init s \<Longrightarrow> inv s"
    and step_inv: "inv s \<Longrightarrow> inv (step s x)"
begin

lemma run_keeps: "inv s \<Longrightarrow> inv (foldl step s xs)"
  by (induction xs arbitrary: s) (auto intro: step_inv)

lemma run_inv: "init s \<Longrightarrow> inv (foldl step s xs)"
  by (rule run_keeps) (rule init_inv)

lemma run_mono_rel:
  assumes refl: "\<And>s. R s s" and trans: "\<And>a b c. R a b \<Longrightarrow> R b c \<Longrightarrow> R a c"
    and mono: "\<And>s x. inv s \<Longrightarrow> R s (step s x)"
  shows "inv s \<Longrightarrow> R s (foldl step s xs)"
proof (induction xs arbitrary: s)
  case Nil
  show ?case by (simp add: refl)
next
  case (Cons x xs)
  have "R s (step s x)" using Cons.prems by (rule mono)
  moreover have "R (step s x) (foldl step (step s x) xs)"
    using step_inv [OF Cons.prems] by (rule Cons.IH)
  ultimately have "R s (foldl step (step s x) xs)" by (rule trans)
  then show ?case by simp
qed

end

text \<open>
  A buffered Go channel whose producers never block: what it holds stays within its capacity,
  and what is in it is what some producer sent, in the order it was sent.
\<close>

locale bounded_chan =
  fixes cap :: nat
    and send :: "'a list \<Rightarrow> 'a \<Rightarrow> 'a list"
  assumes send_bounded: "length q \<le> cap \<Longrightarrow> length (send q x) \<le> cap"
    and send_keeps: "set (send q x) \<subseteq> insert x (set q)"
begin

lemma sends_bounded: "length q \<le> cap \<Longrightarrow> length (foldl send q xs) \<le> cap"
  by (induction xs arbitrary: q) (auto intro: send_bounded)

lemma sends_keep: "set (foldl send q xs) \<subseteq> set q \<union> set xs"
proof (induction xs arbitrary: q)
  case Nil
  show ?case by simp
next
  case (Cons x xs)
  have "set (foldl send (send q x) xs) \<subseteq> set (send q x) \<union> set xs" by (rule Cons.IH)
  also have "\<dots> \<subseteq> set q \<union> set (x # xs)" using send_keeps [of q x] by auto
  finally show ?case by simp
qed

end

end
