(* ===== verification/CoreError.thy ===== *)
theory CoreError
  imports Prelude
begin

text \<open>
  Errors: the record \<^verbatim>\<open>core.Error\<close> and its codes (\<^verbatim>\<open>src/core/error.go\<close>), the sentinel errors
  the packages export, and the chains that \<^verbatim>\<open>fmt.Errorf\<close> and \<^verbatim>\<open>errors.Join\<close> build from them,
  with \<^verbatim>\<open>errors.Is\<close> and \<^verbatim>\<open>errors.As\<close> as walks over the chain.
\<close>

datatype ErrorCode =
    ErrorCodeUnknown | ErrorCodeResourceDataReadFailed | ErrorCodeClientDataWriteFailed
  | ErrorCodeATrustSetupFailed | ErrorCodeInvalidStateTransition | ErrorCodeAuthChallengeInvalid
  | ErrorCodeAuthResponseInvalid | ErrorCodeAuthHandlerUnavailable | ErrorCodeSessionStartFailed
  | ErrorCodeSessionAlreadyRunning | ErrorCodeSessionReconnectFailed | ErrorCodeSessionCloseFailed
  | ErrorCodeInvalidRequest | ErrorCodeMethodNotFound | ErrorCodeProtocolUnsupported
  | ErrorCodeSessionNotFound | ErrorCodeSessionNotReady | ErrorCodeResourcesUnavailable
  | ErrorCodeNetworkSetupFailed | ErrorCodeOutboundUnavailable | ErrorCodeAuthChallengeNotFound
  | ErrorCodeConnectionNotFound | ErrorCodeResumeStateInvalid | ErrorCodeResumeStateScope
  | ErrorCodeResumeStateUnavailable | ErrorCodeConfigInvalid | ErrorCodeConfigUnavailable
  | ErrorCodeRestartRequired | ErrorCodeAddressInUse | ErrorCodePermissionDenied
  | ErrorCodeTUNUnavailable | ErrorCodeInterfaceUnavailable | ErrorCodeRouteSetupFailed
  | ErrorCodeDNSStartFailed

text \<open>Sentinels are compared by identity; \<open>Syscall n\<close> is an errno.\<close>

datatype sentinel =
    ErrResourceNotFound | ErrNetworkUnreachable | ErrHostUnreachable | ErrConnectionRefused
  | ErrSessionInvalid | ErrNotInResources | ErrUnsupportedNetwork | ErrRejected
  | ErrSOCKS5UDPUnsupported | ErrL3TunnelAuthTimeout | ErrL3HeartbeatTimeout
  | ContextCanceled | ContextDeadlineExceeded | IoEOF | IoUnexpectedEOF | IoShortWrite | NetErrClosed
  | OsErrPermission | OsErrDeadlineExceeded | Syscall string

fun sentinel_string :: "sentinel \<Rightarrow> string" where
  "sentinel_string ErrResourceNotFound = ''resource not found''"
| "sentinel_string ErrNetworkUnreachable = ''network is unreachable''"
| "sentinel_string ErrHostUnreachable = ''host is unreachable''"
| "sentinel_string ErrConnectionRefused = ''connection refused''"
| "sentinel_string ErrSessionInvalid = ''session is invalid''"
| "sentinel_string ErrNotInResources = ''destination is not in VPN resources''"
| "sentinel_string ErrUnsupportedNetwork = ''VPN outbound only supports TCP and UDP''"
| "sentinel_string ErrRejected = ''connection rejected by routing policy''"
| "sentinel_string ErrSOCKS5UDPUnsupported = ''SOCKS5 internet outbound only supports TCP''"
| "sentinel_string ErrL3TunnelAuthTimeout = ''l3-tunnel auth timeout''"
| "sentinel_string ErrL3HeartbeatTimeout = ''l3-tunnel heartbeat timeout''"
| "sentinel_string ContextCanceled = ''context canceled''"
| "sentinel_string ContextDeadlineExceeded = ''context deadline exceeded''"
| "sentinel_string IoEOF = ''EOF''"
| "sentinel_string IoUnexpectedEOF = ''unexpected EOF''"
| "sentinel_string IoShortWrite = ''short write''"
| "sentinel_string NetErrClosed = ''use of closed network connection''"
| "sentinel_string OsErrPermission = ''permission denied''"
| "sentinel_string OsErrDeadlineExceeded = ''i/o timeout''"
| "sentinel_string (Syscall s) = s"

text \<open>
  \<open>Wrap m e\<close> is \<^verbatim>\<open>fmt.Errorf\<close> with a \<^verbatim>\<open>%w\<close> verb for \<open>e\<close> and the formatted text \<open>m\<close>;
  \<open>NetError timeout temporary m\<close> is a \<^verbatim>\<open>net.Error\<close>, \<open>DNSError not_found m\<close> a \<^verbatim>\<open>*net.DNSError\<close>
  that is not a time-out (one that is, is a \<open>NetError\<close>),
  \<open>CoreErr code message detail retryable cause\<close> a \<^verbatim>\<open>*core.Error\<close>.
\<close>

datatype gerror =
    Sentinel sentinel
  | Opaque string
  | Wrap string gerror
  | Joined "gerror list"
  | NetError bool bool string
  | DNSError bool string
  | CoreErr (cerr_code: ErrorCode) (cerr_message: string) (cerr_detail: string)
      (cerr_retryable: bool) (cerr_cause: "gerror option")

type_synonym 'a result = "gerror + 'a"

text \<open>Sequencing of calls that may fail: the first error is returned.\<close>

definition rbind :: "'a result \<Rightarrow> ('a \<Rightarrow> 'b result) \<Rightarrow> 'b result" where
  "rbind r f = (case r of Inl e \<Rightarrow> Inl e | Inr x \<Rightarrow> f x)"

fun errors_Is :: "gerror \<Rightarrow> sentinel \<Rightarrow> bool" where
  "errors_Is (Sentinel s) t = (s = t)"
| "errors_Is (Opaque _) t = False"
| "errors_Is (Wrap _ e) t = errors_Is e t"
| "errors_Is (Joined es) t = list_ex (\<lambda>e. errors_Is e t) es"
| "errors_Is (NetError _ _ _) t = False"
| "errors_Is (DNSError _ _) t = False"
| "errors_Is (CoreErr _ _ _ _ c) t = (case c of None \<Rightarrow> False | Some e \<Rightarrow> errors_Is e t)"

text \<open>The first \<^verbatim>\<open>*core.Error\<close> of the chain, as \<^verbatim>\<open>errors.As\<close> finds it.\<close>

fun errors_As_core :: "gerror \<Rightarrow> gerror option" where
  "errors_As_core (Wrap _ e) = errors_As_core e"
| "errors_As_core (Joined es) = first_some errors_As_core es"
| "errors_As_core (CoreErr a b c d e) = Some (CoreErr a b c d e)"
| "errors_As_core _ = None"

text \<open>The text of an error; for \<^verbatim>\<open>*core.Error\<close> this is the method \<^verbatim>\<open>Error\<close>.\<close>

fun error_string :: "gerror \<Rightarrow> string" where
  "error_string (Sentinel s) = sentinel_string s"
| "error_string (Opaque m) = m"
| "error_string (Wrap m _) = m"
| "error_string (Joined es) = concat (map (\<lambda>m. m @ ''\<newline>'') (butlast (map error_string es))) @
     (case es of [] \<Rightarrow> [] | _ \<Rightarrow> last (map error_string es))"
| "error_string (NetError _ _ m) = m"
| "error_string (DNSError _ m) = m"
| "error_string (CoreErr _ m d _ c) =
     (case c of None \<Rightarrow> m
      | Some e \<Rightarrow> if m = [] then error_string e else if d = [] then m else m @ '': '' @ d)"

definition WrapError :: "ErrorCode \<Rightarrow> string \<Rightarrow> bool \<Rightarrow> gerror option \<Rightarrow> gerror" where
  "WrapError code message retryable err =
     CoreErr code message (case err of None \<Rightarrow> [] | Some e \<Rightarrow> error_string e) retryable err"

definition ErrorCodeOf :: "gerror \<Rightarrow> ErrorCode" where
  "ErrorCodeOf err = (case errors_As_core err of Some c \<Rightarrow> cerr_code c | None \<Rightarrow> ErrorCodeUnknown)"

definition IsRetryable :: "gerror \<Rightarrow> bool" where
  "IsRetryable err = (case errors_As_core err of Some c \<Rightarrow> cerr_retryable c | None \<Rightarrow> False)"

text \<open>\<^verbatim>\<open>asCoreError\<close> of the session runtime: keep a core error of the chain, else wrap.\<close>

definition asCoreError :: "ErrorCode \<Rightarrow> string \<Rightarrow> gerror \<Rightarrow> gerror" where
  "asCoreError code message err =
     (case errors_As_core err of Some c \<Rightarrow> c | None \<Rightarrow> WrapError code message False (Some err))"

text \<open>\<^verbatim>\<open>errors.Join\<close> drops nil errors and is nil when nothing is left.\<close>

definition errors_Join :: "gerror option list \<Rightarrow> gerror option" where
  "errors_Join es = (let l = List.map_filter id es in if l = [] then None else Some (Joined l))"

text \<open>\<^verbatim>\<open>fmt.Errorf("prefix: %w", err)\<close>.\<close>

definition errorf :: "string \<Rightarrow> gerror \<Rightarrow> gerror" where
  "errorf prefix e = Wrap (prefix @ '': '' @ error_string e) e"

lemma rbind_simps [simp]: "rbind (Inl e) f = Inl e" "rbind (Inr x) f = f x"
  by (simp_all add: rbind_def)

lemma rbind_Inr: "rbind r f = Inr y \<longleftrightarrow> (\<exists>x. r = Inr x \<and> f x = Inr y)"
  by (simp add: rbind_def split: sum.split)

lemma errors_Join_None: "errors_Join es = None \<longleftrightarrow> (\<forall>e \<in> set es. e = None)"
  by (auto simp: errors_Join_def Let_def List.map_filter_def filter_empty_conv)

lemma errors_As_core_is_core: "errors_As_core e = Some c \<Longrightarrow> \<exists>k m d r x. c = CoreErr k m d r x"
proof (induction e)
  case (Joined es)
  then obtain x where "x \<in> set es" "errors_As_core x = Some c"
    using first_some_SomeD by fastforce
  then show ?case using Joined.IH by blast
qed auto

lemma WrapError_simps [simp]:
  "errors_As_core (WrapError k m r e) = Some (WrapError k m r e)"
  "cerr_code (WrapError k m r e) = k" "cerr_retryable (WrapError k m r e) = r"
  "cerr_message (WrapError k m r e) = m" "cerr_cause (WrapError k m r e) = e"
  "ErrorCodeOf (WrapError k m r e) = k" "IsRetryable (WrapError k m r e) = r"
  "errors_Is (WrapError k m r e) s = (case e of None \<Rightarrow> False | Some x \<Rightarrow> errors_Is x s)"
  by (simp_all add: WrapError_def ErrorCodeOf_def IsRetryable_def)

lemma errorf_simps [simp]:
  "errors_Is (errorf p e) s = errors_Is e s" "ErrorCodeOf (errorf p e) = ErrorCodeOf e"
  "IsRetryable (errorf p e) = IsRetryable e" "errors_As_core (errorf p e) = errors_As_core e"
  by (simp_all add: errorf_def ErrorCodeOf_def IsRetryable_def)

lemma asCoreError_code:
  "ErrorCodeOf (asCoreError code msg e) = (if errors_As_core e = None then code else ErrorCodeOf e)"
proof (cases "errors_As_core e")
  case None
  then show ?thesis by (simp add: asCoreError_def)
next
  case (Some c)
  then obtain k m d r x where "c = CoreErr k m d r x" using errors_As_core_is_core by blast
  with Some show ?thesis by (simp add: asCoreError_def ErrorCodeOf_def)
qed

end
