(* ===== verification/GoNet.thy ===== *)
theory GoNet
  imports Prelude
begin

text \<open>
  The part of Go's \<^verbatim>\<open>net\<close> and \<^verbatim>\<open>net/netip\<close> the sources use: addresses as byte slices
  (\<^verbatim>\<open>net.IP\<close>, with nil the empty slice), their text form in both directions, host and port
  joining and splitting, and prefixes. The text parsers follow the library's own loops.
\<close>

section \<open>net.IP\<close>

type_synonym ip = bytes

definition v4_prefix :: bytes where
  "v4_prefix = replicate 10 0 @ [0xFF, 0xFF]"

definition IPv4 :: "u8 \<Rightarrow> u8 \<Rightarrow> u8 \<Rightarrow> u8 \<Rightarrow> ip" where
  "IPv4 a b c d = v4_prefix @ [a, b, c, d]"

text \<open>\<^verbatim>\<open>To4\<close> and \<^verbatim>\<open>To16\<close> answer nil (None) for a slice they cannot convert.\<close>

definition To4 :: "ip \<Rightarrow> ip option" where
  "To4 p = (if length p = 4 then Some p
            else if length p = 16 \<and> take 12 p = v4_prefix then Some (drop 12 p)
            else None)"

definition To16 :: "ip \<Rightarrow> ip option" where
  "To16 p = (if length p = 4 then Some (v4_prefix @ p)
             else if length p = 16 then Some p else None)"

definition IsLoopback :: "ip \<Rightarrow> bool" where
  "IsLoopback p = (case To4 p of
       Some q \<Rightarrow> hd q = 127
     | None \<Rightarrow> p = replicate 15 0 @ [1])"

text \<open>\<^verbatim>\<open>bytes.Compare\<close>: lexicographic, a proper prefix being smaller.\<close>

fun Compare :: "bytes \<Rightarrow> bytes \<Rightarrow> int" where
  "Compare [] [] = 0"
| "Compare [] (_ # _) = -1"
| "Compare (_ # _) [] = 1"
| "Compare (a # as) (b # bs) = (if a < b then -1 else if b < a then 1 else Compare as bs)"

lemma length_v4_prefix [simp]: "length v4_prefix = 12"
  by (simp add: v4_prefix_def)

lemma v4_prefix_ne [simp]: "v4_prefix \<noteq> []"
  by (simp add: v4_prefix_def)

lemma IPv4_props [simp]:
  "length (IPv4 a b c d) = 16" "To4 (IPv4 a b c d) = Some [a, b, c, d]"
  by (simp_all add: IPv4_def To4_def)

lemma To4_length: "To4 p = Some q \<Longrightarrow> length q = 4"
  by (auto simp: To4_def split: if_splits)

lemma To4_v4_prefix [simp]: "length q = 4 \<Longrightarrow> To4 (v4_prefix @ q) = Some q"
  by (simp add: To4_def)

lemma To4_of4 [simp]: "length q = 4 \<Longrightarrow> To4 q = Some q"
  by (simp add: To4_def)

lemma Compare_prefix [simp]: "Compare (p @ a) (p @ b) = Compare a b"
  by (induction p) simp_all

lemma Compare_self [simp]: "Compare a a = 0"
  by (induction a) simp_all

lemma Compare_cases: "Compare a b \<in> {-1, 0, 1}"
  by (induction a b rule: Compare.induct) auto

text \<open>The address of four bytes as a number, and that \<open>Compare\<close> orders addresses by it.\<close>

definition ip4_val :: "ip \<Rightarrow> nat" where
  "ip4_val q = foldl (\<lambda>v b. v * 256 + unat b) 0 q"

definition be_val :: "nat \<Rightarrow> bytes \<Rightarrow> nat" where
  "be_val v q = foldl (\<lambda>v b. v * 256 + unat b) v q"

lemma be_val_bounds: "v * 256 ^ length q \<le> be_val v q \<and> be_val v q < (v + 1) * 256 ^ length q"
proof (induction q arbitrary: v)
  case Nil
  show ?case by (simp add: be_val_def)
next
  case (Cons b q)
  have b: "unat b < 2 ^ LENGTH(8)" by (rule unsigned_less)
  have IH: "(v * 256 + unat b) * 256 ^ length q \<le> be_val v (b # q)"
    "be_val v (b # q) < (v * 256 + unat b + 1) * 256 ^ length q"
    using Cons [of "v * 256 + unat b"] by (simp_all add: be_val_def)
  have "v * 256 * 256 ^ length q \<le> (v * 256 + unat b) * 256 ^ length q" by simp
  moreover have "(v * 256 + unat b + 1) * 256 ^ length q \<le> (v + 1) * 256 * 256 ^ length q"
    by (rule mult_le_mono1) (use b in simp)
  ultimately have "v * 256 * 256 ^ length q \<le> be_val v (b # q)"
    "be_val v (b # q) < (v + 1) * 256 * 256 ^ length q"
    using IH by linarith+
  then show ?case by (simp add: algebra_simps)
qed

lemma Compare_be_val:
  "length a = length b \<Longrightarrow> Compare a b = (if be_val v a < be_val v b then -1 else if be_val v b < be_val v a then 1 else 0)"
proof (induction a b arbitrary: v rule: Compare.induct)
  case (4 a as b bs)
  let ?n = "256 ^ length bs"
  have step: "be_val v (x # xs) = be_val (v * 256 + unat x) xs" for x xs
    by (simp add: be_val_def)
  have lt: "be_val (v * 256 + unat x) xs < be_val (v * 256 + unat y) ys"
    if "x < y" "length xs = length ys" for x y :: u8 and xs ys :: bytes
  proof -
    have "be_val (v * 256 + unat x) xs < (v * 256 + unat x + 1) * 256 ^ length xs"
      using be_val_bounds by blast
    also have "\<dots> \<le> (v * 256 + unat y) * 256 ^ length ys"
    proof -
      have "unat x < unat y" using that(1) by (simp add: word_less_nat_alt)
      then have "v * 256 + unat x + 1 \<le> v * 256 + unat y" by simp
      then show ?thesis using that(2) mult_le_mono1 by metis
    qed
    also have "\<dots> \<le> be_val (v * 256 + unat y) ys" using be_val_bounds by blast
    finally show ?thesis .
  qed
  consider "a < b" | "b < a" | "a = b" by fastforce
  then show ?case
  proof cases
    case 1
    then show ?thesis using lt [of a b as bs] 4(2) by (simp add: step)
  next
    case 2
    then show ?thesis using lt [of b a bs as] 4(2) by (simp add: step)
  next
    case 3
    then show ?thesis using 4(1) [of "v * 256 + unat b"] 4(2) by (simp add: step)
  qed
qed simp_all

lemma Compare_ip4:
  "length a = 4 \<Longrightarrow> length b = 4 \<Longrightarrow>
     (0 \<le> Compare a b \<longleftrightarrow> ip4_val b \<le> ip4_val a) \<and> (Compare a b \<le> 0 \<longleftrightarrow> ip4_val a \<le> ip4_val b)"
  using Compare_be_val [of a b 0] by (auto simp: ip4_val_def be_val_def)

section \<open>Text form\<close>

text \<open>\<^verbatim>\<open>netip.parseIPv4Fields\<close>: the loop over the characters, its state being the digits of the
  current octet and the octets already read.\<close>

fun parse4_loop :: "string \<Rightarrow> string option \<Rightarrow> bytes \<Rightarrow> bytes option" where
  "parse4_loop [] cur acc =
     (case cur of None \<Rightarrow> None
      | Some ds \<Rightarrow> if length acc = 3 then Some (acc @ [word_of_nat (dec_val ds)]) else None)"
| "parse4_loop (c # s) cur acc =
     (if is_digit c then
        (case cur of
           None \<Rightarrow> parse4_loop s (Some [c]) acc
         | Some ds \<Rightarrow> if ds = ''0'' \<or> 255 < dec_val (ds @ [c]) then None
                      else parse4_loop s (Some (ds @ [c])) acc)
      else if c = CHR ''.'' then
        (case cur of
           None \<Rightarrow> None
         | Some ds \<Rightarrow> if s = [] \<or> length acc = 3 then None
                      else parse4_loop s None (acc @ [word_of_nat (dec_val ds)]))
      else None)"

definition parseIPv4 :: "string \<Rightarrow> bytes option" where
  "parseIPv4 s = parse4_loop s None []"

text \<open>\<^verbatim>\<open>netip.parseIPv6\<close>: groups of up to four hexadecimal digits, one \<^verbatim>\<open>::\<close>, an optional
  dotted tail; the fuel is the number of groups that fit.\<close>

fun hex_group :: "string \<Rightarrow> nat \<Rightarrow> nat \<Rightarrow> (nat \<times> nat \<times> string) option" where
  "hex_group [] acc off = Some (acc, off, [])"
| "hex_group (c # s) acc off =
     (case hex_val c of
        None \<Rightarrow> Some (acc, off, c # s)
      | Some v \<Rightarrow> if off > 3 then None else hex_group s (acc * 16 + v) (off + 1))"

fun parse6_loop :: "nat \<Rightarrow> string \<Rightarrow> bytes \<Rightarrow> nat option \<Rightarrow> (bytes \<times> nat option) option" where
  "parse6_loop 0 s acc ell = (if s = [] then Some (acc, ell) else None)"
| "parse6_loop (Suc fuel) s acc ell =
     (case hex_group s 0 0 of
        None \<Rightarrow> None
      | Some (v, off, rest) \<Rightarrow>
          if off = 0 then None
          else if rest \<noteq> [] \<and> hd rest = CHR ''.'' then
            (if ell = None \<and> length acc \<noteq> 12 then None
             else if 16 < length acc + 4 then None
             else (case parseIPv4 s of None \<Rightarrow> None | Some q \<Rightarrow> Some (acc @ q, ell)))
          else
            (let acc' = acc @ PutUint16 v in
             case rest of
               [] \<Rightarrow> Some (acc', ell)
             | c # rest1 \<Rightarrow>
                 if c \<noteq> CHR '':'' then None
                 else (case rest1 of
                     [] \<Rightarrow> None
                   | d # rest2 \<Rightarrow>
                       if d = CHR '':'' then
                         (if ell \<noteq> None then None
                          else if rest2 = [] then Some (acc', Some (length acc'))
                          else parse6_loop fuel rest2 acc' (Some (length acc')))
                       else parse6_loop fuel rest1 acc' ell)))"

definition finish6 :: "bytes \<times> nat option \<Rightarrow> bytes option" where
  "finish6 r = (case r of (acc, ell) \<Rightarrow>
     if length acc < 16 then
       (case ell of None \<Rightarrow> None
        | Some k \<Rightarrow> Some (take k acc @ replicate (16 - length acc) 0 @ drop k acc))
     else if ell \<noteq> None then None else Some acc)"

definition parseIPv6 :: "string \<Rightarrow> bytes option" where
  "parseIPv6 s =
     (if take 2 s = ''::'' then
        (if drop 2 s = [] then Some (replicate 16 0)
         else Option.bind (parse6_loop 8 (drop 2 s) [] (Some 0)) finish6)
      else Option.bind (parse6_loop 8 s [] None) finish6)"

text \<open>\<^verbatim>\<open>netip.ParseAddr\<close> without a zone, as \<^verbatim>\<open>net.ParseIP\<close> uses it: the first of the characters
  dot, colon and percent decides.\<close>

fun addr_kind :: "string \<Rightarrow> char option" where
  "addr_kind [] = None"
| "addr_kind (c # s) = (if c = CHR ''.'' \<or> c = CHR '':'' \<or> c = CHR ''%'' then Some c else addr_kind s)"

definition ParseAddr :: "string \<Rightarrow> bytes option" where
  "ParseAddr s = (if addr_kind s = Some CHR ''.'' then parseIPv4 s
     else if addr_kind s = Some CHR '':'' \<and> CHR ''%'' \<notin> set s then parseIPv6 s
     else None)"

definition ParseIP :: "string \<Rightarrow> ip option" where
  "ParseIP s = Option.bind (ParseAddr s) To16"

text \<open>Printing: \<^verbatim>\<open>net.IP.String\<close>.\<close>

definition show_ip4 :: "bytes \<Rightarrow> string" where
  "show_ip4 q = (case map (\<lambda>b. show_nat (unat b)) q of
      [a, b, c, d] \<Rightarrow> a @ ''.'' @ b @ ''.'' @ c @ ''.'' @ d
    | _ \<Rightarrow> [])"

fun groups16 :: "bytes \<Rightarrow> nat list" where
  "groups16 (a # b # r) = be16 a b # groups16 r"
| "groups16 _ = []"

definition zero_run :: "nat list \<Rightarrow> nat \<Rightarrow> nat" where
  "zero_run gs i = length (takeWhile (\<lambda>g. g = 0) (drop i gs))"

definition best_run :: "nat list \<Rightarrow> nat \<times> nat" where
  "best_run gs = foldl (\<lambda>(st, l) i. if 2 \<le> zero_run gs i \<and> l < zero_run gs i then (i, zero_run gs i) else (st, l))
     (8, 0) [0..<8]"

fun show6_loop :: "nat list \<Rightarrow> bool \<Rightarrow> string" where
  "show6_loop [] first = []"
| "show6_loop (g # gs) first = (if first then [] else '':'') @ show_hex g @ show6_loop gs False"

definition show_ip6 :: "bytes \<Rightarrow> string" where
  "show_ip6 p = (let gs = groups16 p; (st, l) = best_run gs in
     if l = 0 then show6_loop gs True
     else show6_loop (take st gs) True @ ''::'' @ show6_loop (drop (st + l) gs) True)"

definition IP_String :: "ip \<Rightarrow> string" where
  "IP_String p =
     (if p = [] then ''<nil>''
      else if length p \<noteq> 4 \<and> length p \<noteq> 16 then CHR ''?'' # concat (map (\<lambda>b. [hex_digit_char (unat b div 16), hex_digit_char (unat b mod 16)]) p)
      else case To4 p of Some q \<Rightarrow> show_ip4 q | None \<Rightarrow> show_ip6 p)"

lemma length4E:
  assumes "length q = 4"
  obtains a b c d where "q = [a, b, c, d]"
  using assms by (auto simp: numeral_eq_Suc length_Suc_conv)

lemma show_ip4_alt: "show_ip4 [a, b, c, d] =
   show_nat (unat a) @ CHR ''.'' # show_nat (unat b) @ CHR ''.'' # show_nat (unat c) @ CHR ''.'' # show_nat (unat d)"
  by (simp add: show_ip4_def)

text \<open>A separator that occurs in neither prefix cuts a string in one way.\<close>

lemma sep_unique:
  assumes "x @ c # y = x' @ c # y'" "c \<notin> set x" "c \<notin> set x'"
  shows "x = x' \<and> y = y'"
  using assms
proof (induction x arbitrary: x')
  case Nil
  then show ?case by (cases x') auto
next
  case (Cons a x)
  then show ?case by (cases x') auto
qed

lemma show_ip4_inj:
  assumes "length p = 4" "length q = 4" "show_ip4 p = show_ip4 q"
  shows "p = q"
proof -
  obtain a b c d where p: "p = [a, b, c, d]" using assms(1) by (rule length4E)
  obtain a' b' c' d' where q: "q = [a', b', c', d']" using assms(2) by (rule length4E)
  have eq: "show_nat (unat a) @ CHR ''.'' # show_nat (unat b) @ CHR ''.'' # show_nat (unat c) @ CHR ''.'' # show_nat (unat d)
      = show_nat (unat a') @ CHR ''.'' # show_nat (unat b') @ CHR ''.'' # show_nat (unat c') @ CHR ''.'' # show_nat (unat d')"
    using assms(3) by (simp add: p q show_ip4_alt)
  have no: "CHR ''.'' \<notin> set (show_nat n)" for n by (simp add: show_nat_no)
  note s1 = sep_unique [OF eq no no]
  note s2 = sep_unique [OF conjunct2 [OF s1] no no]
  note s3 = sep_unique [OF conjunct2 [OF s2] no no]
  have "unat a = unat a'" using conjunct1 [OF s1] by (simp only: show_nat_inj)
  moreover have "unat b = unat b'" using conjunct1 [OF s2] by (simp only: show_nat_inj)
  moreover have "unat c = unat c'" using conjunct1 [OF s3] by (simp only: show_nat_inj)
  moreover have "unat d = unat d'" using conjunct2 [OF s3] by (simp only: show_nat_inj)
  ultimately show ?thesis by (simp add: p q word_unat_eq_iff)
qed

lemma is_digit_zero: "is_digit CHR ''0''"
  by (simp add: is_digit_def)

section \<open>Host and port\<close>

definition index_of :: "char \<Rightarrow> string \<Rightarrow> nat option" where
  "index_of c s = (let n = length (takeWhile (\<lambda>x. x \<noteq> c) s) in if n < length s then Some n else None)"

definition last_index_of :: "char \<Rightarrow> string \<Rightarrow> nat option" where
  "last_index_of c s = map_option (\<lambda>i. length s - 1 - i) (index_of c (rev s))"

definition SplitHostPort :: "string \<Rightarrow> (string \<times> string) option" where
  "SplitHostPort hp =
     (case last_index_of CHR '':'' hp of
        None \<Rightarrow> None
      | Some i \<Rightarrow>
          (case (if hd hp = CHR ''['' then
                   (case index_of CHR '']'' hp of
                      None \<Rightarrow> None
                    | Some e \<Rightarrow> if e + 1 = i then Some (take (e - 1) (drop 1 hp), 1, e + 1) else None)
                 else if CHR '':'' \<in> set (take i hp) then None
                 else Some (take i hp, 0, 0)) of
             None \<Rightarrow> None
           | Some (host, j, k) \<Rightarrow>
               if CHR ''['' \<in> set (drop j hp) \<or> CHR '']'' \<in> set (drop k hp) then None
               else Some (host, drop (i + 1) hp)))"

definition JoinHostPort :: "string \<Rightarrow> string \<Rightarrow> string" where
  "JoinHostPort host port =
     (if CHR '':'' \<in> set host then ''['' @ host @ '']:'' @ port else host @ '':'' @ port)"

lemma last_index_snoc: "c \<notin> set p \<Longrightarrow> last_index_of c (h @ c # p) = Some (length h)"
  by (simp add: last_index_of_def index_of_def Let_def takeWhile_append)

lemma SplitHostPort_Join:
  assumes "CHR '':'' \<notin> set port" "CHR ''['' \<notin> set port" "CHR '']'' \<notin> set port"
    and "CHR '':'' \<notin> set host" "CHR ''['' \<notin> set host" "CHR '']'' \<notin> set host"
  shows "SplitHostPort (JoinHostPort host port) = Some (host, port)"
proof -
  have l: "last_index_of CHR '':'' (host @ CHR '':'' # port) = Some (length host)"
    using assms(1) by (rule last_index_snoc)
  have "hd (host @ CHR '':'' # port) \<noteq> CHR ''[''"
    using assms(5) by (cases host) auto
  then show ?thesis using assms l by (simp add: SplitHostPort_def JoinHostPort_def)
qed

section \<open>Prefixes\<close>

definition CIDRMask :: "nat \<Rightarrow> nat \<Rightarrow> bytes" where
  "CIDRMask ones bits =
     map (\<lambda>i. if 8 * (i + 1) \<le> ones then 0xFF
              else if 8 * i < ones then word_of_nat (256 - 2 ^ (8 * (i + 1) - ones))
              else 0) [0..<bits div 8]"

definition mask_ip :: "bytes \<Rightarrow> bytes \<Rightarrow> bytes" where
  "mask_ip p m = map2 (\<lambda>a b. a AND b) p m"

text \<open>\<^verbatim>\<open>netip.ParsePrefix\<close>: an address without a zone, a slash and a decimal length with no sign and
  no leading zero.\<close>

definition ParsePrefix :: "string \<Rightarrow> (ip \<times> nat) option" where
  "ParsePrefix s =
     (case last_index_of CHR ''/'' s of
        None \<Rightarrow> None
      | Some i \<Rightarrow>
          (let bitsStr = drop (i + 1) s in
           case ParseAddr (take i s) of
             None \<Rightarrow> None
           | Some a \<Rightarrow>
               if bitsStr = [] \<or> \<not> list_all is_digit bitsStr \<or> (1 < length bitsStr \<and> hd bitsStr = CHR ''0'')
                  \<or> 8 * length a < dec_val bitsStr
               then None else Some (a, dec_val bitsStr)))"

definition Masked :: "ip \<times> nat \<Rightarrow> ip \<times> nat" where
  "Masked p = (case p of (a, n) \<Rightarrow> (mask_ip a (CIDRMask n (8 * length a)), n))"

definition Unmap :: "ip \<Rightarrow> ip" where
  "Unmap a = (if length a = 16 \<and> take 12 a = v4_prefix then drop 12 a else a)"

lemma length_CIDRMask [simp]: "length (CIDRMask n b) = b div 8"
  by (simp add: CIDRMask_def)

lemma ip4_val_bound: "ip4_val q < 256 ^ length q"
  using be_val_bounds [of 0 q] by (simp add: be_val_def ip4_val_def)

lemma ip4_val_alt: "ip4_val [a, b, c, d] = unat a * 16777216 + unat b * 65536 + unat c * 256 + unat d"
  by (simp add: ip4_val_def)

lemma Compare_zero: "Compare a b = 0 \<Longrightarrow> a = b"
  by (induction a b rule: Compare.induct) (auto split: if_splits)

lemma ip4_val_inj: "length p = length q \<Longrightarrow> ip4_val p = ip4_val q \<Longrightarrow> p = q"
  using Compare_be_val [of p q 0] by (simp add: ip4_val_def be_val_def Compare_zero)

end
