(* ===== verification/Zctcpip.thy ===== *)
theory Zctcpip
  imports GoNet "HOL-Library.Monad_Syntax"
begin

text \<open>
  The packet accessors of \<^verbatim>\<open>src/internal/zctcpip\<close>. A packet is a byte slice whose capacity is
  its length; an index or a slice expression out of range is a panic, which is the value None.
\<close>

definition idx :: "bytes \<Rightarrow> nat \<Rightarrow> u8 option" where
  "idx p i = (if i < length p then Some (p ! i) else None)"

definition slice :: "bytes \<Rightarrow> nat \<Rightarrow> nat \<Rightarrow> bytes option" where
  "slice p a b = (if a \<le> b \<and> b \<le> length p then Some (take (b - a) (drop a p)) else None)"

definition Uint16 :: "bytes \<Rightarrow> nat option" where
  "Uint16 p = (if 2 \<le> length p then Some (be16 (p ! 0) (p ! 1)) else None)"

definition ICMP :: u8 where "ICMP = 0x01"
definition TCP :: u8 where "TCP = 0x06"
definition UDP :: u8 where "UDP = 0x11"

definition IPv4HeaderSize :: nat where "IPv4HeaderSize = 20"
definition IPv4Version :: u8 where "IPv4Version = 4"
definition TCPHeaderSize :: nat where "TCPHeaderSize = 20"
definition UDPHeaderSize :: nat where "UDPHeaderSize = 8"

section \<open>IPv4\<close>

definition TotalLen :: "bytes \<Rightarrow> nat option" where
  "TotalLen p = do { q \<leftarrow> slice p 2 (length p); Uint16 q }"

definition HeaderLen :: "bytes \<Rightarrow> nat option" where
  "HeaderLen p = do { b \<leftarrow> idx p 0; Some (unat (b AND 0xF) * 4) }"

definition Payload :: "bytes \<Rightarrow> bytes option" where
  "Payload p = do { h \<leftarrow> HeaderLen p; t \<leftarrow> TotalLen p; slice p h t }"

definition Protocol :: "bytes \<Rightarrow> u8 option" where
  "Protocol p = idx p 9"

definition SourceIP :: "bytes \<Rightarrow> ip option" where
  "SourceIP p = do { a \<leftarrow> idx p 12; b \<leftarrow> idx p 13; c \<leftarrow> idx p 14; d \<leftarrow> idx p 15; Some (IPv4 a b c d) }"

definition DestinationIP :: "bytes \<Rightarrow> ip option" where
  "DestinationIP p = do { a \<leftarrow> idx p 16; b \<leftarrow> idx p 17; c \<leftarrow> idx p 18; d \<leftarrow> idx p 19; Some (IPv4 a b c d) }"

text \<open>The conversion \<^verbatim>\<open>uint16(len(p))\<close> keeps the length modulo $2^{16}$.\<close>

definition IPv4_Valid :: "bytes \<Rightarrow> bool option" where
  "IPv4_Valid p =
     (if length p < IPv4HeaderSize then Some False
      else do {
        b \<leftarrow> idx p 0;
        if drop_bit 4 b \<noteq> IPv4Version then Some False
        else do {
          headerLength \<leftarrow> HeaderLen p;
          totalLength \<leftarrow> TotalLen p;
          Some (headerLength \<ge> IPv4HeaderSize \<and> totalLength \<ge> headerLength
                \<and> length p mod 65536 \<ge> totalLength) } })"

section \<open>TCP and UDP\<close>

definition TCP_SourcePort :: "bytes \<Rightarrow> nat option" where
  "TCP_SourcePort p = Uint16 p"

definition TCP_DestinationPort :: "bytes \<Rightarrow> nat option" where
  "TCP_DestinationPort p = do { q \<leftarrow> slice p 2 (length p); Uint16 q }"

definition TCP_Valid :: "bytes \<Rightarrow> bool" where
  "TCP_Valid p = (length p \<ge> TCPHeaderSize)"

definition UDP_Length :: "bytes \<Rightarrow> nat option" where
  "UDP_Length p = do { q \<leftarrow> slice p 4 (length p); Uint16 q }"

definition UDP_SourcePort :: "bytes \<Rightarrow> nat option" where
  "UDP_SourcePort p = Uint16 p"

definition UDP_DestinationPort :: "bytes \<Rightarrow> nat option" where
  "UDP_DestinationPort p = do { q \<leftarrow> slice p 2 (length p); Uint16 q }"

definition UDP_Valid :: "bytes \<Rightarrow> bool option" where
  "UDP_Valid p =
     (if length p \<ge> UDPHeaderSize then do { l \<leftarrow> UDP_Length p; Some (length p mod 65536 \<ge> l) }
      else Some False)"

section \<open>Accessors in range\<close>

lemmas zct_defs = TotalLen_def HeaderLen_def Payload_def Protocol_def SourceIP_def DestinationIP_def
  TCP_SourcePort_def TCP_DestinationPort_def UDP_Length_def UDP_SourcePort_def UDP_DestinationPort_def
  IPv4HeaderSize_def TCPHeaderSize_def UDPHeaderSize_def

lemma idx_in [simp]: "i < length p \<Longrightarrow> idx p i = Some (p ! i)"
  by (simp add: idx_def)

lemma TotalLen_in [simp]: "20 \<le> length p \<Longrightarrow> TotalLen p = Some (be16 (p ! 2) (p ! 3))"
  by (simp add: TotalLen_def slice_def Uint16_def)

lemma HeaderLen_in [simp]: "20 \<le> length p \<Longrightarrow> HeaderLen p = Some (unat (p ! 0 AND 0xF) * 4)"
  by (cases p) (simp_all add: HeaderLen_def)

lemma nibble_le: "unat (b AND 0xF :: u8) \<le> 15"
proof -
  have "b AND 0xF \<le> (0xF :: u8)" by (rule word_and_le1)
  then show ?thesis by (simp add: word_le_nat_alt)
qed

lemma IPv4_Valid_in:
  "IPv4_Valid p = Some (20 \<le> length p \<and> drop_bit 4 (p ! 0) = IPv4Version
     \<and> 20 \<le> unat (p ! 0 AND 0xF) * 4 \<and> unat (p ! 0 AND 0xF) * 4 \<le> be16 (p ! 2) (p ! 3)
     \<and> be16 (p ! 2) (p ! 3) \<le> length p mod 65536)"
proof (cases "20 \<le> length p")
  case True
  then have "p \<noteq> []" by auto
  with True show ?thesis by (simp add: IPv4_Valid_def IPv4HeaderSize_def)
next
  case False
  then show ?thesis by (simp add: IPv4_Valid_def IPv4HeaderSize_def)
qed

lemma Payload_Valid:
  assumes "IPv4_Valid p = Some True"
  shows "\<exists>q. Payload p = Some q \<and> length q = be16 (p ! 2) (p ! 3) - unat (p ! 0 AND 0xF) * 4"
proof -
  have l: "20 \<le> length p" and a: "unat (p ! 0 AND 0xF) * 4 \<le> be16 (p ! 2) (p ! 3)"
    and b: "be16 (p ! 2) (p ! 3) \<le> length p mod 65536"
    using assms by (simp_all add: IPv4_Valid_in)
  have "be16 (p ! 2) (p ! 3) \<le> length p"
    using b mod_less_eq_dividend [of "length p" 65536] by linarith
  with l a show ?thesis by (simp add: Payload_def slice_def)
qed

lemma Valid_accessors:
  assumes "IPv4_Valid p = Some True"
  shows "Protocol p = Some (p ! 9)"
    "SourceIP p = Some (IPv4 (p ! 12) (p ! 13) (p ! 14) (p ! 15))"
    "DestinationIP p = Some (IPv4 (p ! 16) (p ! 17) (p ! 18) (p ! 19))"
proof -
  have l: "20 \<le> length p" using assms by (simp add: IPv4_Valid_in)
  show "Protocol p = Some (p ! 9)"
    "SourceIP p = Some (IPv4 (p ! 12) (p ! 13) (p ! 14) (p ! 15))"
    "DestinationIP p = Some (IPv4 (p ! 16) (p ! 17) (p ! 18) (p ! 19))"
    using l by (simp_all add: Protocol_def SourceIP_def DestinationIP_def)
qed

lemma TCP_ports_in:
  "4 \<le> length q \<Longrightarrow> TCP_SourcePort q = Some (be16 (q ! 0) (q ! 1))"
  "4 \<le> length q \<Longrightarrow> TCP_DestinationPort q = Some (be16 (q ! 2) (q ! 3))"
  "4 \<le> length q \<Longrightarrow> UDP_SourcePort q = Some (be16 (q ! 0) (q ! 1))"
  "4 \<le> length q \<Longrightarrow> UDP_DestinationPort q = Some (be16 (q ! 2) (q ! 3))"
  by (simp_all add: TCP_SourcePort_def TCP_DestinationPort_def UDP_SourcePort_def UDP_DestinationPort_def
      slice_def Uint16_def)

lemma UDP_Valid_in:
  "UDP_Valid q = Some (8 \<le> length q \<and> be16 (q ! 4) (q ! 5) \<le> length q mod 65536)"
  by (auto simp: UDP_Valid_def UDP_Length_def UDPHeaderSize_def slice_def Uint16_def)

section \<open>Theorems\<close>

text \<open>C14. The IPv4 check never panics, whatever bytes it is given. A packet it accepts has a header
  of 20 to 60 bytes and a total length between that and the slice's own length, so that the
  payload slice and every header field are in range; and below 65536 bytes it accepts exactly the
  version-4 packets with such lengths.\<close>

theorem IPv4_Valid_safe:
  "IPv4_Valid p \<noteq> None
   \<and> (IPv4_Valid p = Some True \<longrightarrow>
        (\<exists>h t q. HeaderLen p = Some h \<and> TotalLen p = Some t \<and> Payload p = Some q
           \<and> 20 \<le> h \<and> h \<le> 60 \<and> h \<le> t \<and> t \<le> length p \<and> length q = t - h
           \<and> Protocol p \<noteq> None \<and> SourceIP p \<noteq> None \<and> DestinationIP p \<noteq> None))
   \<and> (length p < 65536 \<longrightarrow> 20 \<le> length p \<longrightarrow>
        (IPv4_Valid p = Some True \<longleftrightarrow> drop_bit 4 (p ! 0) = IPv4Version
           \<and> (\<exists>h t. HeaderLen p = Some h \<and> TotalLen p = Some t \<and> 20 \<le> h \<and> h \<le> t \<and> t \<le> length p)))"
proof (intro conjI impI)
  show "IPv4_Valid p \<noteq> None" by (simp add: IPv4_Valid_in)
next
  assume v: "IPv4_Valid p = Some True"
  then have l: "20 \<le> length p" and h: "20 \<le> unat (p ! 0 AND 0xF) * 4"
    and ht: "unat (p ! 0 AND 0xF) * 4 \<le> be16 (p ! 2) (p ! 3)"
    and t: "be16 (p ! 2) (p ! 3) \<le> length p mod 65536"
    by (simp_all add: IPv4_Valid_in)
  have "be16 (p ! 2) (p ! 3) \<le> length p"
    using t mod_less_eq_dividend [of "length p" 65536] by linarith
  moreover obtain q where "Payload p = Some q"
      "length q = be16 (p ! 2) (p ! 3) - unat (p ! 0 AND 0xF) * 4"
    using Payload_Valid [OF v] by blast
  moreover have "unat (p ! 0 AND 0xF) * 4 \<le> 60" using nibble_le [of "p ! 0"] by simp
  ultimately show "\<exists>h t q. HeaderLen p = Some h \<and> TotalLen p = Some t \<and> Payload p = Some q
      \<and> 20 \<le> h \<and> h \<le> 60 \<and> h \<le> t \<and> t \<le> length p \<and> length q = t - h
      \<and> Protocol p \<noteq> None \<and> SourceIP p \<noteq> None \<and> DestinationIP p \<noteq> None"
    using l h ht by (simp add: Valid_accessors [OF v])
next
  assume "length p < 65536" "20 \<le> length p"
  then show "IPv4_Valid p = Some True \<longleftrightarrow> drop_bit 4 (p ! 0) = IPv4Version
      \<and> (\<exists>h t. HeaderLen p = Some h \<and> TotalLen p = Some t \<and> 20 \<le> h \<and> h \<le> t \<and> t \<le> length p)"
    by (simp add: IPv4_Valid_in)
qed

text \<open>A 40-byte TCP packet from 10.0.0.1:1234 to 10.0.0.2:80.\<close>

definition demo_tcp :: bytes where
  "demo_tcp = [0x45, 0, 0, 40, 0, 0, 0, 0, 64, 6, 0, 0, 10, 0, 0, 1, 10, 0, 0, 2,
               0x04, 0xD2, 0, 80, 0, 0, 0, 0, 0, 0, 0, 0, 0x50, 0, 0, 0, 0, 0, 0, 0]"

lemma demo_tcp_valid: "IPv4_Valid demo_tcp = Some True"
  by (simp add: IPv4_Valid_in demo_tcp_def be16_def IPv4Version_def drop_bit_eq_div)

theorem IPv4_Valid_safe_witness:
  "\<exists>q. Payload demo_tcp = Some q \<and> length q = 20"
proof -
  have "length demo_tcp = 40" by (simp add: demo_tcp_def)
  moreover have "HeaderLen demo_tcp = Some 20" by (simp add: HeaderLen_def demo_tcp_def)
  moreover have "TotalLen demo_tcp = Some 40" by (simp add: TotalLen_def demo_tcp_def be16_def slice_def Uint16_def)
  ultimately show ?thesis using IPv4_Valid_safe [of demo_tcp] demo_tcp_valid by auto
qed

end
