(* ===== verification/L3Frame.thy ===== *)
theory L3Frame
  imports CoreError Zctcpip
begin

text \<open>
  The wire format of the layer-3 tunnel, \<^verbatim>\<open>src/client/atrust/l3tunnelconn.go\<close>: the frame reader,
  the data frames in both directions, the tunnel authentication exchange and the connection
  tracking key. The buffered reader is the list of the bytes the peer still sends before it
  closes the connection; a read that runs out of them is an end-of-file error.
\<close>

definition byte_string :: "string \<Rightarrow> bytes" where
  "byte_string s = map of_char s"

lemma length_byte_string [simp]: "length (byte_string s) = length s"
  by (simp add: byte_string_def)

section \<open>Constants\<close>

definition l3Version :: u8 where "l3Version = 0x05"
definition cmdAuthReq :: u8 where "cmdAuthReq = 0x13"
definition cmdAuthResp :: u8 where "cmdAuthResp = 0x93"
definition cmdDataReq :: u8 where "cmdDataReq = 0x14"
definition cmdDataResp :: u8 where "cmdDataResp = 0x94"
definition cmdHeartbeatReq :: u8 where "cmdHeartbeatReq = 0x15"
definition cmdHeartbeatResp :: u8 where "cmdHeartbeatResp = 0x95"
definition cmdSecondVipResp :: u8 where "cmdSecondVipResp = 0x96"
definition maxDataPayload :: nat where "maxDataPayload = 4096"
definition heartbeatInterval :: int where "heartbeatInterval = 25 * 1000000000"
definition heartbeatTimeout :: int where "heartbeatTimeout = 75 * 1000000000"

lemmas l3_consts = l3Version_def cmdAuthReq_def cmdAuthResp_def cmdDataReq_def cmdDataResp_def
  cmdHeartbeatReq_def cmdHeartbeatResp_def cmdSecondVipResp_def

section \<open>The buffered reader\<close>

definition ReadFull :: "nat \<Rightarrow> bytes \<Rightarrow> (bytes \<times> bytes) result" where
  "ReadFull n r =
     (if n \<le> length r then Inr (take n r, drop n r)
      else if r = [] then Inl (Sentinel IoEOF) else Inl (Sentinel IoUnexpectedEOF))"

definition Peek2 :: "bytes \<Rightarrow> nat result" where
  "Peek2 r = (if 2 \<le> length r then Inr (be16 (r ! 0) (r ! 1)) else Inl (Sentinel IoEOF))"

definition ReadByte :: "bytes \<Rightarrow> (u8 \<times> bytes) result" where
  "ReadByte r = (case r of [] \<Rightarrow> Inl (Sentinel IoEOF) | b # r' \<Rightarrow> Inr (b, r'))"

section \<open>Data frames\<close>

definition put_packet :: "bytes \<Rightarrow> bytes" where
  "put_packet pkt = PutUint16 (length pkt) @ pkt"

definition buildDataPayload :: "string \<Rightarrow> bytes list \<Rightarrow> bytes" where
  "buildDataPayload token packets =
     [l3Version, cmdDataReq] @ [word_of_nat (length token)] @ byte_string token @ [0x00, 0x00]
     @ [word_of_nat (length packets)] @ concat (map put_packet packets)"

text \<open>The packet loop of \<^verbatim>\<open>parseDataPayload\<close>; the second argument is what follows \<^verbatim>\<open>idx\<close>.\<close>

fun parse_packets :: "nat \<Rightarrow> bytes \<Rightarrow> bytes list result" where
  "parse_packets 0 r = Inr []"
| "parse_packets (Suc n) r =
     (if length r < 2 then Inl (Opaque ''packet length overflow'')
      else let plen = be16 (r ! 0) (r ! 1); r' = drop 2 r in
        if length r' < plen then Inl (Opaque ''packet data overflow'')
        else rbind (parse_packets n (drop plen r')) (\<lambda>ps. Inr (take plen r' # ps)))"

definition parseDataPayload :: "bytes \<Rightarrow> bytes list result" where
  "parseDataPayload payload =
     (if length payload < 4 then Inl (Opaque ''payload too short'')
      else let tokenLen = unat (payload ! 0); i = 1 + tokenLen in
        if length payload < i + 3 then Inl (Opaque ''payload token overflow'')
        else let i' = i + 2; count = unat (payload ! i') in
          parse_packets count (drop (i' + 1) payload))"

text \<open>The packet loop of \<^verbatim>\<open>readDataRespPayload\<close> with the payload read so far.\<close>

fun read_packets :: "nat \<Rightarrow> bytes \<Rightarrow> bytes \<Rightarrow> (bytes \<times> bytes) result" where
  "read_packets 0 payload r = Inr (payload, r)"
| "read_packets (Suc n) payload r =
     rbind (ReadFull 2 r) (\<lambda>(lenBytes, r1).
       let payload1 = payload @ lenBytes; plen = be16 (lenBytes ! 0) (lenBytes ! 1) in
       if plen = 0 then read_packets n payload1 r1
       else rbind (ReadFull plen r1) (\<lambda>(pkt, r2). read_packets n (payload1 @ pkt) r2))"

text \<open>The second half of \<^verbatim>\<open>readDataRespPayload\<close>, from the read of the token's length on.\<close>

definition readTokenPayload :: "bytes \<Rightarrow> ((bytes \<times> string) \<times> bytes) result" where
  "readTokenPayload r =
     rbind (ReadByte r) (\<lambda>(tokenLen, r1).
     rbind (if tokenLen > 0
            then rbind (ReadFull (unat tokenLen) r1) (\<lambda>(token, r2). Inr ([tokenLen] @ token, r2))
            else Inr ([tokenLen], r1)) (\<lambda>(payload, r2).
     rbind (ReadFull 2 r2) (\<lambda>(reserved, r3).
     rbind (ReadByte r3) (\<lambda>(count, r4).
     rbind (read_packets (unat count) (payload @ reserved @ [count]) r4) (\<lambda>(payload', r5).
       Inr ((payload', ''token''), r5))))))"

definition readDataRespPayload :: "bytes \<Rightarrow> ((bytes \<times> string) \<times> bytes) result" where
  "readDataRespPayload r =
     rbind (Peek2 r) (\<lambda>payloadLen.
       if 0 < payloadLen \<and> payloadLen \<le> maxDataPayload
       then rbind (ReadFull payloadLen (drop 2 r)) (\<lambda>(payload, r'). Inr ((payload, ''len''), r'))
       else readTokenPayload r)"

section \<open>Frames\<close>

record frame =
  fr_cmd :: u8
  fr_status :: u8
  fr_payload :: bytes
  fr_dataMode :: string

definition hex02 :: "u8 \<Rightarrow> string" where
  "hex02 b = [hex_digit_char (unat b div 16), hex_digit_char (unat b mod 16)]"

definition unexpected_header :: "u8 \<Rightarrow> u8 \<Rightarrow> gerror" where
  "unexpected_header a b = Opaque (''unexpected header: 0x'' @ hex02 a @ '' 0x'' @ hex02 b)"

text \<open>The payload of a frame, which the reader reads only when its length is positive.\<close>

definition read_body :: "nat \<Rightarrow> bytes \<Rightarrow> (bytes \<times> bytes) result" where
  "read_body payloadLen r = (if payloadLen > 0 then ReadFull payloadLen r else Inr ([], r))"

definition read_sized :: "bytes \<Rightarrow> (bytes \<times> bytes) result" where
  "read_sized r = rbind (ReadFull 2 r) (\<lambda>(lenBytes, r1). read_body (be16 (lenBytes ! 0) (lenBytes ! 1)) r1)"

lemma ReadFull_Inr: "ReadFull n r = Inr (a, r') \<longleftrightarrow> length a = n \<and> r = a @ r'"
  by (auto simp: ReadFull_def)

lemma ReadByte_Inr: "ReadByte r = Inr (b, r') \<longleftrightarrow> r = b # r'"
  by (auto simp: ReadByte_def split: list.splits)

lemma read_body_Inr: "read_body n r = Inr (a, r') \<longleftrightarrow> length a = n \<and> r = a @ r'"
  by (auto simp: read_body_def ReadFull_Inr)

lemma read_sized_length: "read_sized r = Inr (a, r') \<Longrightarrow> length r = 2 + length a + length r'"
  by (auto simp: read_sized_def rbind_Inr ReadFull_Inr read_body_Inr)

text \<open>The loop of \<^verbatim>\<open>readFrame\<close>: a protocol frame \<^verbatim>\<open>53 00\<close> is read and skipped. Every turn consumes
  at least four bytes, so the loop ends.\<close>

function readFrame :: "bytes \<Rightarrow> (frame \<times> bytes) result" where
  "readFrame r =
     (case ReadFull 2 r of
        Inl e \<Rightarrow> Inl e
      | Inr (header, r1) \<Rightarrow>
          if header ! 0 = l3Version then
            (let cmd = header ! 1 in
             if cmd = cmdAuthResp \<or> cmd = cmdSecondVipResp then
               rbind (ReadFull 3 r1) (\<lambda>(statusLen, r2).
               rbind (read_body (be16 (statusLen ! 1) (statusLen ! 2)) r2) (\<lambda>(payload, r3).
                 Inr (\<lparr>fr_cmd = cmd, fr_status = statusLen ! 0, fr_payload = payload, fr_dataMode = []\<rparr>, r3)))
             else if cmd = cmdDataResp then
               rbind (readDataRespPayload r1) (\<lambda>((payload, mode), r2).
                 Inr (\<lparr>fr_cmd = cmd, fr_status = 0, fr_payload = payload, fr_dataMode = mode\<rparr>, r2))
             else
               rbind (read_sized r1) (\<lambda>(payload, r2).
                 Inr (\<lparr>fr_cmd = cmd, fr_status = 0, fr_payload = payload, fr_dataMode = []\<rparr>, r2)))
          else if header ! 0 = 0x53 \<and> header ! 1 = 0x00 then
            (case read_sized r1 of Inl e \<Rightarrow> Inl e | Inr (payload, r2) \<Rightarrow> readFrame r2)
          else Inl (unexpected_header (header ! 0) (header ! 1)))"
  by pat_completeness auto

termination
proof (relation "measure length")
  show "wf (measure (length :: bytes \<Rightarrow> nat))" by simp
  fix r x header r1 xa payload r2
  assume "ReadFull 2 r = Inr x" "(header, r1) = x" "read_sized r1 = Inr xa" "(payload, r2) = xa"
  then show "(r2, r) \<in> measure length"
    using read_sized_length [of r1 payload r2] by (auto simp: ReadFull_Inr)
qed

declare readFrame.simps [simp del]

section \<open>The tunnel authentication exchange\<close>

definition authReqFrame :: "bytes \<Rightarrow> bytes" where
  "authReqFrame req = [l3Version, cmdAuthReq] @ PutUint16 (length req) @ req"

definition wrapAuthReqData :: "bytes \<Rightarrow> u8 \<Rightarrow> bytes" where
  "wrapAuthReqData payload addrType =
     [l3Version, 0x01, 0xD0] @ ([0x53, 0x00] @ PutUint16 (length payload) @ payload)
     @ [0x05, 0x04, 0x00, addrType, 0x00, 0x00, 0x00, 0x00, 0x00, 0x00]"

definition vipPayloadLength :: "u8 \<Rightarrow> nat" where
  "vipPayloadLength addrType = (if addrType = 1 then 6 else if addrType = 4 then 18 else if addrType = 5 then 22 else 4)"

definition parseVirtualIPData :: "bytes \<Rightarrow> ip list" where
  "parseVirtualIPData d =
     (if length d = 6 then [IPv4 (d ! 0) (d ! 1) (d ! 2) (d ! 3)]
      else if length d = 18 then [take 16 d]
      else if length d = 22 then [IPv4 (d ! 0) (d ! 1) (d ! 2) (d ! 3), take 16 (drop 4 d)]
      else [])"

definition classifyL3SessionError :: "gerror \<Rightarrow> string \<Rightarrow> gerror" where
  "classifyL3SessionError err message =
     (if Contains (ToLower message) ''invalid sid''
      then Wrap (error_string err @ '': '' @ sentinel_string ErrSessionInvalid) (Sentinel ErrSessionInvalid)
      else err)"

text \<open>\<^verbatim>\<open>authTunnel\<close> after its request is written. The decoder of the JSON answer is a parameter
  (code and message, or a decoding error). The result is the error, the virtual addresses handed
  to \<^verbatim>\<open>onVIP\<close> and the health error reported, if any, and what is left to read.\<close>

record auth_outcome =
  ao_err :: "gerror option"
  ao_vips :: "ip list"
  ao_health :: "gerror option"
  ao_rest :: bytes

definition auth_fails :: "gerror \<Rightarrow> bytes \<Rightarrow> auth_outcome" where
  "auth_fails e r = \<lparr> ao_err = Some e, ao_vips = [], ao_health = None, ao_rest = r \<rparr>"

definition auth_rejects :: "gerror \<Rightarrow> bytes \<Rightarrow> auth_outcome" where
  "auth_rejects e r = \<lparr> ao_err = Some e, ao_vips = [],
     ao_health = (if errors_Is e ErrSessionInvalid then Some e else None), ao_rest = r \<rparr>"

definition authTunnel_vip :: "bytes \<Rightarrow> auth_outcome" where
  "authTunnel_vip r =
     (case ReadFull 4 r of
        Inl e \<Rightarrow> auth_fails e r
      | Inr (vipHeader, r1) \<Rightarrow>
          if vipHeader ! 0 \<noteq> l3Version then \<lparr> ao_err = None, ao_vips = [], ao_health = None, ao_rest = r1 \<rparr>
          else let dataLen = vipPayloadLength (vipHeader ! 3) in
            if dataLen = 0 then \<lparr> ao_err = None, ao_vips = [], ao_health = None, ao_rest = r1 \<rparr>
            else (case ReadFull dataLen r1 of
                Inl e \<Rightarrow> auth_fails e r1
              | Inr (vipData, r2) \<Rightarrow>
                  \<lparr> ao_err = None, ao_vips = parseVirtualIPData vipData, ao_health = None, ao_rest = r2 \<rparr>))"

definition authTunnel :: "(bytes \<Rightarrow> (int \<times> string) result) \<Rightarrow> bytes \<Rightarrow> auth_outcome" where
  "authTunnel unmarshal r =
     (case ReadFull 2 r of
        Inl e \<Rightarrow> auth_fails e r
      | Inr (method, r1) \<Rightarrow>
          if method ! 0 \<noteq> l3Version \<or> method ! 1 \<noteq> 0xD0 then auth_fails (Opaque (''l3-tunnel unexpected auth method resp: '' @ hex02 (method ! 0) @ '' '' @ hex02 (method ! 1))) r1
          else (case ReadFull 4 r1 of
            Inl e \<Rightarrow> auth_fails e r1
          | Inr (header, r2) \<Rightarrow>
              if header ! 0 \<noteq> 0x53 then auth_fails (Opaque (''l3-tunnel unexpected auth resp version: 0x'' @ hex02 (header ! 0))) r2
              else (case read_body (be16 (header ! 2) (header ! 3)) r2 of
                Inl e \<Rightarrow> auth_fails e r2
              | Inr (payload, r3) \<Rightarrow>
                  (case (if payload \<noteq> [] then unmarshal payload else Inr (0, [])) of
                     Inl e \<Rightarrow> auth_fails e r3
                   | Inr (code, message) \<Rightarrow>
                       if header ! 1 \<noteq> 0
                       then auth_rejects (classifyL3SessionError
                              (Opaque (''l3-tunnel tunnel auth status '' @ show_nat (unat (header ! 1)))) message) r3
                       else if payload \<noteq> [] \<and> code \<noteq> 0
                       then auth_rejects (classifyL3SessionError
                              (Opaque (''l3-tunnel tunnel auth failed: '' @ show_int code @ '' '' @ message)) message) r3
                       else authTunnel_vip r3))))"

section \<open>Request fields\<close>

definition protoName :: "int \<Rightarrow> string" where
  "protoName proto = (if proto = 6 then ''tcp'' else if proto = 17 then ''udp'' else if proto = 1 then ''icmp''
     else if proto = 58 then ''icmp6'' else ''ip'')"

definition authIPType :: "int \<Rightarrow> int" where
  "authIPType atype = (if atype = 6 then 0x86DD else 0x0800)"

fun firstNonEmpty :: "string list \<Rightarrow> string" where
  "firstNonEmpty [] = []"
| "firstNonEmpty (v # vs) = (if v \<noteq> [] then v else firstNonEmpty vs)"

text \<open>The environment is a parameter: the value of each variable, empty when it is not set.\<close>

definition langFromEnv :: "(string \<Rightarrow> string) \<Rightarrow> string" where
  "langFromEnv getenv =
     (let lang = firstNonEmpty [getenv ''ZJU_CONNECT_LANG'', getenv ''LC_ALL'', getenv ''LC_MESSAGES'', getenv ''LANG''] in
      if lang = [] then ''en-US''
      else let lang1 = ReplaceChar CHR ''_'' CHR ''-'' (hd (Split CHR ''.'' lang)) in
        if length lang1 = 2 then ToLower lang1 @ ''-'' @ ToUpper (ToLower lang1)
        else case Split CHR ''-'' lang1 of
            [a, b] \<Rightarrow> ToLower a @ ''-'' @ ToUpper b
          | _ \<Rightarrow> lang1)"

record packetMeta =
  pm_atype :: int
  pm_proto :: int
  pm_srcIP :: ip
  pm_dstIP :: ip
  pm_srcPort :: nat
  pm_dstPort :: nat
  pm_key :: string

definition connTrackKey :: "packetMeta \<Rightarrow> string" where
  "connTrackKey meta = show_int (pm_atype meta) @ '':'' @ IP_String (pm_srcIP meta) @ '':'' @ show_nat (pm_srcPort meta)
     @ ''-'' @ IP_String (pm_dstIP meta) @ '':'' @ show_nat (pm_dstPort meta)"

section \<open>Authentication requests and virtual addresses\<close>

record authIP =
  aip_Atype :: int
  aip_Protocol :: int
  aip_DestAddr :: string
  aip_DestPort :: nat
  aip_SrcAddr :: string
  aip_SrcPort :: nat

record trustEnv =
  env_Name :: string
  env_DigitalSignature :: string
  env_Platform :: string
  env_Fingerprint :: string
  env_Description :: string
  env_Path :: string
  env_Version :: string
  env_SecurityEnv :: string
  env_ProcessTrusted :: string

record clientInfo =
  info_sid :: string
  info_deviceID :: string
  info_connectionID :: string
  info_username :: string

record authRequestIP =
  req_Sid :: string
  req_AppID :: string
  req_URL :: string
  req_DeviceID :: string
  req_ConnectionID :: string
  req_Env :: trustEnv
  req_ConntrackHash :: u64
  req_Lang :: string
  req_IP :: authIP
  req_ProcHash :: string
  req_XRequestSig :: string

text \<open>The upper-case hexadecimal SHA-256 digest of a string and the operating system's name are
  parameters.\<close>

definition defaultEnv :: "(string \<Rightarrow> string) \<Rightarrow> string \<Rightarrow> trustEnv" where
  "defaultEnv sha256hex goos =
     (let procPath = ''/usr/bin/zju-portal-core'' in
      \<lparr> env_Name = ''zju-portal-core'', env_DigitalSignature = ''TrustAppClosed'',
        env_Platform = (if goos = ''darwin'' then ''macOS'' else if goos = ''windows'' then ''Windows''
                        else if goos = ''linux'' then ''Linux'' else goos),
        env_Fingerprint = sha256hex procPath, env_Description = ''TrustAppClosed'', env_Path = procPath,
        env_Version = ''TrustAppClosed'', env_SecurityEnv = ''normal'', env_ProcessTrusted = ''TRUSTED'' \<rparr>)"

text \<open>The signature: the upper-case hexadecimal HMAC-SHA-256, which is a parameter.\<close>

definition calcXRequestSig :: "(bytes \<Rightarrow> bytes \<Rightarrow> bytes) \<Rightarrow> bytes \<Rightarrow> bytes \<Rightarrow> string" where
  "calcXRequestSig hmac key data = ToUpper (concat (map hex02 (hmac key data)))"

text \<open>The request is marshalled without its signature, signed, and marshalled again.\<close>

definition buildAuthRequest ::
  "(authRequestIP \<Rightarrow> bytes result) \<Rightarrow> (bytes \<Rightarrow> bytes \<Rightarrow> bytes) \<Rightarrow> trustEnv \<Rightarrow> string \<Rightarrow>
   clientInfo \<Rightarrow> bytes \<Rightarrow> packetMeta \<Rightarrow> string \<Rightarrow> u64 \<Rightarrow> bytes result" where
  "buildAuthRequest marshal hmac env lang info signKey meta appID authID =
     (let req = \<lparr> req_Sid = info_sid info, req_AppID = appID,
            req_URL = protoName (pm_proto meta) @ '':'' @ IP_String (pm_dstIP meta) @ '':'' @ show_nat (pm_dstPort meta),
            req_DeviceID = info_deviceID info, req_ConnectionID = info_connectionID info, req_Env = env,
            req_ConntrackHash = authID, req_Lang = lang,
            req_IP = \<lparr> aip_Atype = authIPType (pm_atype meta), aip_Protocol = pm_proto meta,
              aip_DestAddr = IP_String (pm_dstIP meta), aip_DestPort = pm_dstPort meta,
              aip_SrcAddr = IP_String (pm_srcIP meta), aip_SrcPort = pm_srcPort meta \<rparr>,
            req_ProcHash = env_Fingerprint env, req_XRequestSig = [] \<rparr> in
      rbind (marshal req) (\<lambda>unsigned.
        marshal (req\<lparr>req_XRequestSig := calcXRequestSig hmac signKey unsigned\<rparr>)))"

datatype json = JNull | JBool bool | JNum int | JStr string | JArr "json list" | JObj "(string \<times> json) list"

fun visitJSONValues :: "json \<Rightarrow> string list" where
  "visitJSONValues (JObj kvs) = concat (map (\<lambda>kv. visitJSONValues (snd kv)) kvs)"
| "visitJSONValues (JArr vs) = concat (map visitJSONValues vs)"
| "visitJSONValues (JStr s) = [s]"
| "visitJSONValues _ = []"

definition extractVIPs :: "json option \<Rightarrow> ip list" where
  "extractVIPs data = (case data of None \<Rightarrow> [] | Some v \<Rightarrow> List.map_filter ParseIP (visitJSONValues v))"

section \<open>Reading what was written\<close>

lemma ReadFull_append [simp]: "length a = n \<Longrightarrow> ReadFull n (a @ r) = Inr (a, r)"
  by (simp add: ReadFull_Inr)

lemma read_body_append [simp]: "length a = n \<Longrightarrow> read_body n (a @ r) = Inr (a, r)"
  by (simp add: read_body_Inr)

lemma ReadFull_two [simp]: "ReadFull 2 (a # b # r) = Inr ([a, b], r)"
  using ReadFull_append [of "[a, b]" 2 r] by simp

lemma ReadFull_three [simp]: "ReadFull 3 (a # b # c # r) = Inr ([a, b, c], r)"
  using ReadFull_append [of "[a, b, c]" 3 r] by simp

lemma read_sized_put [simp]: "length p < 65536 \<Longrightarrow> read_sized (put_packet p @ r) = Inr (p, r)"
  by (simp add: read_sized_def put_packet_def PutUint16_def)

lemma parse_packets_put:
  "\<forall>p \<in> set ps. length p < 65536 \<Longrightarrow> parse_packets (length ps) (concat (map put_packet ps) @ r) = Inr ps"
proof (induction ps)
  case (Cons p ps)
  then show ?case by (simp add: put_packet_def PutUint16_def)
qed simp

lemma read_packets_put:
  "\<forall>p \<in> set ps. length p < 65536 \<Longrightarrow>
     read_packets (length ps) acc (concat (map put_packet ps) @ r) = Inr (acc @ concat (map put_packet ps), r)"
proof (induction ps arbitrary: acc)
  case (Cons p ps)
  then have "length p < 65536" by simp
  with Cons show ?case by (cases "length p = 0") (simp_all add: put_packet_def PutUint16_def Let_def)
qed simp

text \<open>What a data frame carries after its two header bytes.\<close>

definition data_body :: "string \<Rightarrow> bytes list \<Rightarrow> bytes" where
  "data_body token packets = word_of_nat (length token) # byte_string token @ [0, 0]
     @ word_of_nat (length packets) # concat (map put_packet packets)"

lemma build_data_body: "buildDataPayload token packets = [l3Version, cmdDataReq] @ data_body token packets"
  by (simp add: buildDataPayload_def data_body_def)

lemma byte_of_length [simp]: "n \<le> 255 \<Longrightarrow> unat (word_of_nat n :: u8) = n"
  by (simp add: unat_u8)

lemma parse_data_body:
  assumes "length token \<le> 255" "length ps \<le> 255" "\<forall>p \<in> set ps. length p < 65536"
  shows "parseDataPayload (data_body token ps) = Inr ps"
proof -
  let ?t = "byte_string token" and ?n = "word_of_nat (length ps) :: u8" and ?b = "concat (map put_packet ps)"
  have d: "data_body token ps = (word_of_nat (length token) # ?t @ [0, 0]) @ ?n # ?b"
    by (simp add: data_body_def)
  have n: "data_body token ps ! (1 + length token + 2) = ?n"
    unfolding d by (subst nth_append) simp
  have r: "drop (1 + length token + 2 + 1) (data_body token ps) = ?b"
    unfolding d by (subst drop_append) simp
  have l: "length (data_body token ps) = 4 + length token + length ?b" by (simp add: d)
  have h: "data_body token ps ! 0 = word_of_nat (length token)" by (simp add: d)
  show ?thesis
    using assms parse_packets_put [OF assms(3), of "[]"] n r l h
    by (simp add: parseDataPayload_def Let_def)
qed

lemma read_data_body:
  assumes "length token = 0 \<or> 17 \<le> length token" "length token \<le> 255" "length ps \<le> 255"
    and "\<forall>p \<in> set ps. length p < 65536"
  shows "readDataRespPayload (data_body token ps @ r) = Inr ((data_body token ps, ''token''), r)"
proof -
  let ?s = "data_body token ps @ r" and ?n = "word_of_nat (length ps) :: u8" and ?b = "concat (map put_packet ps)"
  have mode: "\<not> (0 < be16 (?s ! 0) (?s ! 1) \<and> be16 (?s ! 0) (?s ! 1) \<le> maxDataPayload)"
  proof (cases "length token = 0")
    case True
    then show ?thesis by (simp add: data_body_def byte_string_def)
  next
    case False
    then have "17 \<le> unat (?s ! 0)" using assms by (simp add: data_body_def)
    then show ?thesis by (simp add: be16_def maxDataPayload_def)
  qed
  have len: "2 \<le> length ?s" by (simp add: data_body_def)
  have tok: "(if (word_of_nat (length token) :: u8) > 0
        then rbind (ReadFull (unat (word_of_nat (length token) :: u8)) (byte_string token @ x))
               (\<lambda>(t, r2). Inr ([word_of_nat (length token)] @ t, r2))
        else Inr ([word_of_nat (length token)], byte_string token @ x))
      = (Inr ([word_of_nat (length token)] @ byte_string token, x) :: (bytes \<times> bytes) result)" for x
  proof (cases "length token = 0")
    case False
    then have "(word_of_nat (length token) :: u8) > 0"
      using assms(2) by (simp add: word_less_nat_alt)
    then show ?thesis using assms(2) by simp
  qed (simp add: byte_string_def)
  have "ReadByte ?s = Inr (word_of_nat (length token), byte_string token @ 0 # 0 # ?n # ?b @ r)"
    by (simp add: ReadByte_def data_body_def)
  then have "readTokenPayload ?s = Inr ((data_body token ps, ''token''), r)"
    using assms(3) tok [of "0 # 0 # ?n # ?b @ r"] read_packets_put [OF assms(4)]
    by (simp add: readTokenPayload_def ReadByte_def data_body_def)
  moreover have "readDataRespPayload ?s = readTokenPayload ?s"
    using mode len by (auto simp: readDataRespPayload_def Peek2_def)
  ultimately show ?thesis by simp
qed

text \<open>The frames a gateway may send, and their bytes on the wire. A data frame is in one of two
  formats: a length and one packet, or a token and a list of packets. A protocol frame is skipped
  by the reader.\<close>

datatype wire_frame =
    WStatus u8 u8 bytes
  | WLen bytes
  | WToken string "bytes list"
  | WOther u8 bytes

fun wire_ok :: "wire_frame \<Rightarrow> bool" where
  "wire_ok (WStatus cmd st p) = ((cmd = cmdAuthResp \<or> cmd = cmdSecondVipResp) \<and> length p < 65536)"
| "wire_ok (WLen p) = (0 < length p \<and> length p \<le> maxDataPayload)"
| "wire_ok (WToken t ps) = ((length t = 0 \<or> 17 \<le> length t) \<and> length t \<le> 255 \<and> length ps \<le> 255
     \<and> list_all (\<lambda>p. length p < 65536) ps)"
| "wire_ok (WOther cmd p) = (cmd \<noteq> cmdAuthResp \<and> cmd \<noteq> cmdSecondVipResp \<and> cmd \<noteq> cmdDataResp \<and> length p < 65536)"

fun wire :: "wire_frame \<Rightarrow> bytes" where
  "wire (WStatus cmd st p) = [l3Version, cmd, st] @ put_packet p"
| "wire (WLen p) = [l3Version, cmdDataResp] @ put_packet p"
| "wire (WToken t ps) = [l3Version, cmdDataResp] @ data_body t ps"
| "wire (WOther cmd p) = [l3Version, cmd] @ put_packet p"

fun frame_of :: "wire_frame \<Rightarrow> frame" where
  "frame_of (WStatus cmd st p) = \<lparr>fr_cmd = cmd, fr_status = st, fr_payload = p, fr_dataMode = []\<rparr>"
| "frame_of (WLen p) = \<lparr>fr_cmd = cmdDataResp, fr_status = 0, fr_payload = p, fr_dataMode = ''len''\<rparr>"
| "frame_of (WToken t ps) = \<lparr>fr_cmd = cmdDataResp, fr_status = 0, fr_payload = data_body t ps, fr_dataMode = ''token''\<rparr>"
| "frame_of (WOther cmd p) = \<lparr>fr_cmd = cmd, fr_status = 0, fr_payload = p, fr_dataMode = []\<rparr>"

definition proto_frame :: "bytes \<Rightarrow> bytes" where
  "proto_frame p = [0x53, 0x00] @ put_packet p"

lemma readFrame_wire: "wire_ok f \<Longrightarrow> readFrame (wire f @ r) = Inr (frame_of f, r)"
proof (cases f)
  case (WStatus cmd st p)
  assume "wire_ok f"
  with WStatus show ?thesis
    by (subst readFrame.simps) (auto simp: put_packet_def PutUint16_def)
next
  case (WLen p)
  assume "wire_ok f"
  with WLen have p: "0 < length p" "length p \<le> 4096" by (simp_all add: maxDataPayload_def)
  then have "readDataRespPayload (put_packet p @ r) = Inr ((p, ''len''), r)"
    by (simp add: readDataRespPayload_def Peek2_def put_packet_def PutUint16_def maxDataPayload_def)
  with WLen show ?thesis
    by (subst readFrame.simps) (simp add: cmdDataResp_def cmdAuthResp_def cmdSecondVipResp_def)
next
  case (WToken t ps)
  assume "wire_ok f"
  with WToken have "readDataRespPayload (data_body t ps @ r) = Inr ((data_body t ps, ''token''), r)"
    by (intro read_data_body) (auto simp: list_all_iff)
  with WToken show ?thesis
    by (subst readFrame.simps) (simp add: cmdDataResp_def cmdAuthResp_def cmdSecondVipResp_def)
next
  case (WOther cmd p)
  assume "wire_ok f"
  with WOther show ?thesis by (subst readFrame.simps) simp
qed

lemma readFrame_skip: "length p < 65536 \<Longrightarrow> readFrame (proto_frame p @ r) = readFrame r"
  by (subst readFrame.simps) (simp add: proto_frame_def l3Version_def)

lemma readFrame_skips:
  "\<forall>p \<in> set ps. length p < 65536 \<Longrightarrow> readFrame (concat (map proto_frame ps) @ r) = readFrame r"
  by (induction ps) (simp_all add: readFrame_skip)

lemma read_packets_suffix:
  "read_packets n acc r = Inr (p, r') \<Longrightarrow> \<exists>c. r = c @ r' \<and> p = acc @ c"
proof (induction n arbitrary: acc r)
  case (Suc n)
  from Suc.prems obtain l r1 where 1: "ReadFull 2 r = Inr (l, r1)"
    and 2: "(if be16 (l ! 0) (l ! 1) = 0 then read_packets n (acc @ l) r1
       else rbind (ReadFull (be16 (l ! 0) (l ! 1)) r1) (\<lambda>(pkt, r2). read_packets n ((acc @ l) @ pkt) r2)) = Inr (p, r')"
    unfolding read_packets.simps rbind_Inr Let_def by (auto simp del: append_assoc)
  show ?case
  proof (cases "be16 (l ! 0) (l ! 1) = 0")
    case True
    then have "read_packets n (acc @ l) r1 = Inr (p, r')" using 2 by simp
    then obtain c where "r1 = c @ r'" "p = (acc @ l) @ c" using Suc.IH by blast
    then show ?thesis using 1 by (auto simp: ReadFull_Inr)
  next
    case False
    then obtain pkt r2 where 3: "ReadFull (be16 (l ! 0) (l ! 1)) r1 = Inr (pkt, r2)"
      and "read_packets n ((acc @ l) @ pkt) r2 = Inr (p, r')"
      using 2 by (auto simp: rbind_Inr simp del: append_assoc)
    then obtain c where "r2 = c @ r'" "p = ((acc @ l) @ pkt) @ c" using Suc.IH by blast
    then show ?thesis using 1 3 by (auto simp: ReadFull_Inr)
  qed
qed simp

lemma readTokenPayload_suffix:
  assumes "readTokenPayload r = Inr ((p, m), r')"
  shows "r = p @ r' \<and> 4 \<le> length p"
proof -
  obtain t r1 where 1: "r = t # r1" using assms by (auto simp: readTokenPayload_def rbind_Inr ReadByte_Inr)
  obtain h r2 where 2: "(if t > 0 then rbind (ReadFull (unat t) r1) (\<lambda>(token, r2). Inr ([t] @ token, r2)) else Inr ([t], r1))
        = (Inr (h, r2) :: (bytes \<times> bytes) result)"
    and 3: "rbind (ReadFull 2 r2) (\<lambda>(reserved, r3). rbind (ReadByte r3) (\<lambda>(count, r4).
       rbind (read_packets (unat count) (h @ reserved @ [count]) r4) (\<lambda>(payload', r5). Inr ((payload', ''token''), r5))))
        = Inr ((p, m), r')"
    using assms 1 by (auto simp: readTokenPayload_def rbind_Inr ReadByte_def simp del: append_Cons append_Nil)
  have h: "r = h @ r2" "1 \<le> length h"
    using 2 1 by (auto simp: rbind_Inr ReadFull_Inr split: if_splits)
  obtain res count r4 where r2: "r2 = res @ count # r4" "length res = 2"
    and 4: "read_packets (unat count) (h @ res @ [count]) r4 = Inr (p, r')"
    using 3 by (auto simp: rbind_Inr ReadFull_Inr ReadByte_Inr)
  obtain c where "r4 = c @ r'" "p = (h @ res @ [count]) @ c" using read_packets_suffix [OF 4] by blast
  with h r2 show ?thesis by auto
qed

lemma readDataRespPayload_suffix:
  assumes "readDataRespPayload r = Inr ((p, m), r')"
  shows "\<exists>c. r = c @ r' \<and> 3 \<le> length c"
proof -
  have l: "2 \<le> length r" using assms by (auto simp: readDataRespPayload_def rbind_Inr Peek2_def split: if_splits)
  let ?n = "be16 (r ! 0) (r ! 1)"
  show ?thesis
  proof (cases "0 < ?n \<and> ?n \<le> maxDataPayload")
    case True
    then have "ReadFull ?n (drop 2 r) = Inr (p, r')"
      using assms l by (auto simp: readDataRespPayload_def rbind_Inr Peek2_def)
    then have "drop 2 r = p @ r'" "length p = ?n" by (simp_all add: ReadFull_Inr)
    then have "r = (take 2 r @ p) @ r'" "3 \<le> length (take 2 r @ p)"
      using True l by (simp_all flip: append_assoc) (metis append_assoc append_take_drop_id)
    then show ?thesis by blast
  next
    case False
    then have "readTokenPayload r = Inr ((p, m), r')"
      using assms l by (auto simp: readDataRespPayload_def Peek2_def)
    from readTokenPayload_suffix [OF this] show ?thesis by (intro exI [of _ p]) auto
  qed
qed

lemma read_sized_suffix: "read_sized r = Inr (a, r') \<Longrightarrow> \<exists>c. r = c @ r' \<and> 2 \<le> length c"
  by (auto simp: read_sized_def rbind_Inr ReadFull_Inr read_body_Inr)

lemma readFrame_suffix: "readFrame r = Inr (f, r') \<Longrightarrow> \<exists>c. r = c @ r' \<and> 4 \<le> length c"
proof (induction r rule: readFrame.induct)
  case (1 r)
  obtain h r1 where h: "ReadFull 2 r = Inr (h, r1)"
    using "1.prems" by (subst (asm) readFrame.simps) (auto split: sum.splits)
  have suffix: "\<exists>c. r = c @ r' \<and> 4 \<le> length c" if "\<exists>c. r1 = c @ r' \<and> 2 \<le> length c"
  proof -
    from that obtain c where "r1 = c @ r'" "2 \<le> length c" by blast
    then show ?thesis using h by (intro exI [of _ "h @ c"]) (auto simp: ReadFull_Inr)
  qed
  note F = "1.prems" [unfolded readFrame.simps [of r], simplified h, simplified]
  consider (status) "h ! 0 = l3Version" "h ! 1 = cmdAuthResp \<or> h ! 1 = cmdSecondVipResp"
    | (data) "h ! 0 = l3Version" "h ! 1 \<noteq> cmdAuthResp" "h ! 1 \<noteq> cmdSecondVipResp" "h ! 1 = cmdDataResp"
    | (other) "h ! 0 = l3Version" "h ! 1 \<noteq> cmdAuthResp" "h ! 1 \<noteq> cmdSecondVipResp" "h ! 1 \<noteq> cmdDataResp"
    | (proto) "h ! 0 \<noteq> l3Version" "h ! 0 = 0x53 \<and> h ! 1 = 0x00"
    | (bad) "h ! 0 \<noteq> l3Version" "\<not> (h ! 0 = 0x53 \<and> h ! 1 = 0x00)"
    by blast
  then show ?case
  proof cases
    case status
    then obtain s b r2 where "ReadFull 3 r1 = Inr (s, r2)" "read_body (be16 (s ! 1) (s ! 2)) r2 = Inr (b, r')"
      using F by (auto simp: rbind_Inr Let_def)
    then have "r1 = (s @ b) @ r'" "2 \<le> length (s @ b)" by (auto simp: ReadFull_Inr read_body_Inr)
    then show ?thesis using suffix by blast
  next
    case data
    then obtain p m where "readDataRespPayload r1 = Inr ((p, m), r')"
      using F by (auto simp: rbind_Inr Let_def)
    from readDataRespPayload_suffix [OF this] have "\<exists>c. r1 = c @ r' \<and> 2 \<le> length c" by auto
    then show ?thesis by (rule suffix)
  next
    case other
    then obtain p where "read_sized r1 = Inr (p, r')" using F by (auto simp: rbind_Inr Let_def)
    then show ?thesis using read_sized_suffix suffix by blast
  next
    case proto
    then obtain p r2 where p: "read_sized r1 = Inr (p, r2)" and "readFrame r2 = Inr (f, r')"
      using F by (auto simp: l3Version_def split: sum.splits)
    then obtain c where "r2 = c @ r'" using "1.IH" [OF h refl _ _ p refl] proto by blast
    moreover obtain d where "r1 = d @ r2" "2 \<le> length d" using read_sized_suffix [OF p] by blast
    ultimately have "r1 = (d @ c) @ r'" "2 \<le> length (d @ c)" by auto
    then show ?thesis using suffix by blast
  next
    case bad
    then show ?thesis using F by auto
  qed
qed

lemma show_int_no_colon: "CHR '':'' \<notin> set (show_int i)"
  by (auto simp: show_int_def show_nat_no)

lemma show_ip4_no_colon: "length q = 4 \<Longrightarrow> CHR '':'' \<notin> set (show_ip4 q)"
  by (erule length4E) (simp add: show_ip4_alt show_nat_no)

lemma IP_String_IPv4: "length q = 4 \<Longrightarrow> IP_String (v4_prefix @ q) = show_ip4 q"
  by (simp add: IP_String_def)

lemma show_int_inj [simp]: "show_int i = show_int j \<longleftrightarrow> i = j"
proof
  assume eq: "show_int i = show_int j"
  have "CHR ''-'' \<notin> set (show_nat n)" for n by (simp add: show_nat_no)
  then have "show_nat n \<noteq> CHR ''-'' # s" for n s by (metis list.set_intros(1))
  with eq show "i = j" by (auto simp: show_int_def split: if_splits) metis
qed simp

text \<open>The metadata of an IPv4 packet: both addresses in the 16-byte form that \<^verbatim>\<open>net.IPv4\<close> gives.\<close>

definition v4_meta :: "packetMeta \<Rightarrow> bool" where
  "v4_meta m \<longleftrightarrow> take 12 (pm_srcIP m) = v4_prefix \<and> length (pm_srcIP m) = 16
     \<and> take 12 (pm_dstIP m) = v4_prefix \<and> length (pm_dstIP m) = 16"

lemma v4_split: "take 12 p = v4_prefix \<Longrightarrow> length p = 16 \<Longrightarrow> \<exists>q. p = v4_prefix @ q \<and> length q = 4"
proof -
  assume p: "take 12 p = v4_prefix" "length p = 16"
  have "p = take 12 p @ drop 12 p" by (rule append_take_drop_id [symmetric])
  then show ?thesis unfolding p(1) using p(2) by (intro exI [of _ "drop 12 p"]) simp
qed

section \<open>Theorems\<close>

text \<open>C1. The frame reader decodes the tunnel's wire format: after any number of protocol frames
  (which it skips), a well-formed status, length-mode data, token-mode data or other frame is read
  back as exactly that frame, and the bytes after it are left for the next read. Token-mode data
  frames are those whose token is empty or at least 17 bytes long.\<close>

theorem readFrame_decodes:
  assumes "wire_ok f" and "\<forall>p \<in> set ps. length p < 65536"
  shows "readFrame (concat (map proto_frame ps) @ wire f @ r) = Inr (frame_of f, r)"
  using assms by (simp add: readFrame_skips readFrame_wire)

theorem readFrame_decodes_witness:
  "readFrame (proto_frame [1, 2] @ wire (WToken ''0123456789abcdefg'' [[0x45, 0], []]) @ [0x05])
     = Inr (frame_of (WToken ''0123456789abcdefg'' [[0x45, 0], []]), [0x05])"
  using readFrame_decodes [of "WToken ''0123456789abcdefg'' [[0x45, 0], []]" "[[1, 2]]" "[0x05]"] by simp

text \<open>A frame that is read was there: the reader consumes a prefix of at least four bytes of
  what the peer sent and hands over the rest unchanged, so the read loop advances on every frame
  whatever the peer sends.\<close>

theorem readFrame_progress:
  "readFrame r = Inr (f, r') \<Longrightarrow> \<exists>consumed. r = consumed @ r' \<and> 4 \<le> length consumed"
  by (rule readFrame_suffix)

theorem readFrame_progress_witness:
  "\<exists>consumed. [0x05, 0x95, 0, 0, 0x05 :: u8] = consumed @ [0x05] \<and> 4 \<le> length consumed"
proof -
  have "readFrame ([] @ wire (WOther 0x95 []) @ [0x05]) = Inr (frame_of (WOther 0x95 []), [0x05])"
    using readFrame_wire [of "WOther 0x95 []"] by (simp add: cmdAuthResp_def cmdSecondVipResp_def cmdDataResp_def)
  from readFrame_progress [OF this] show ?thesis by (simp add: put_packet_def PutUint16_def l3Version_def)
qed

text \<open>Round trip of data frames: what \<open>buildDataPayload\<close> writes for a token of at most 255
  bytes and at most 255 packets, each below 65536 bytes, \<open>parseDataPayload\<close> reads back as the
  same packets.\<close>

theorem parse_buildDataPayload:
  assumes "length token \<le> 255" "length packets \<le> 255" "\<forall>p \<in> set packets. length p < 65536"
  shows "parseDataPayload (drop 2 (buildDataPayload token packets)) = Inr packets"
  using parse_data_body [OF assms] by (simp add: build_data_body)

theorem parse_buildDataPayload_witness:
  "parseDataPayload (drop 2 (buildDataPayload ''tok'' [[1, 2, 3], []])) = Inr [[1, 2, 3], []]"
  using parse_buildDataPayload [of "''tok''" "[[1, 2, 3], []]"] by simp

text \<open>C13. A data frame whose token has 1 to 15 bytes is never read as a token frame: its first two
  bytes, the token's length and first byte, are a number between 256 and 4095, which the reader
  takes for the length of a length-mode frame.\<close>

theorem short_token_misread:
  assumes "1 \<le> length token" "length token \<le> 15"
  shows "readDataRespPayload (drop 2 (buildDataPayload token packets) @ r) \<noteq> Inr ((p, ''token''), r')"
proof -
  let ?s = "data_body token packets @ r"
  have "unat (?s ! 0) = length token" using assms by (simp add: data_body_def)
  moreover have "unat (?s ! 1) < 2 ^ LENGTH(8)" by (rule unsigned_less)
  ultimately have "be16 (?s ! 0) (?s ! 1) = length token * 256 + unat (?s ! 1)" "unat (?s ! 1) < 256"
    by (simp_all only: be16_def) simp
  then have "0 < be16 (?s ! 0) (?s ! 1)" "be16 (?s ! 0) (?s ! 1) \<le> maxDataPayload"
    unfolding maxDataPayload_def using assms by linarith+
  moreover have "Peek2 ?s = Inr (be16 (?s ! 0) (?s ! 1))" by (simp add: Peek2_def data_body_def)
  ultimately have "readDataRespPayload ?s =
      rbind (ReadFull (be16 (?s ! 0) (?s ! 1)) (drop 2 ?s)) (\<lambda>(payload, r'). Inr ((payload, ''len''), r'))"
    unfolding readDataRespPayload_def by (simp only: rbind_simps if_True conj_absorb simp_thms)
  then have "readDataRespPayload ?s \<noteq> Inr ((p, ''token''), r')" by (auto simp: rbind_Inr)
  then show ?thesis by (simp add: build_data_body)
qed

theorem short_token_misread_witness:
  "\<forall>p r'. readDataRespPayload (drop 2 (buildDataPayload ''shorttoken'' [[0x45]]) @ []) \<noteq> Inr ((p, ''token''), r')"
  by (intro allI short_token_misread) simp_all

text \<open>The connection tracking key of IPv4 packets identifies the address type and both endpoints
  (addresses and ports), and nothing else: two packets have the same key exactly when these agree,
  whatever their protocols are.\<close>

theorem connTrackKey_iff:
  assumes "v4_meta m" "v4_meta n"
  shows "connTrackKey m = connTrackKey n \<longleftrightarrow>
     pm_atype m = pm_atype n \<and> pm_srcIP m = pm_srcIP n \<and> pm_dstIP m = pm_dstIP n
     \<and> pm_srcPort m = pm_srcPort n \<and> pm_dstPort m = pm_dstPort n"
proof
  assume eq: "connTrackKey m = connTrackKey n"
  obtain s d where s: "pm_srcIP m = v4_prefix @ s" "length s = 4" and d: "pm_dstIP m = v4_prefix @ d" "length d = 4"
    using assms(1) v4_split unfolding v4_meta_def by blast
  obtain s' d' where s': "pm_srcIP n = v4_prefix @ s'" "length s' = 4" and d': "pm_dstIP n = v4_prefix @ d'" "length d' = 4"
    using assms(2) v4_split unfolding v4_meta_def by blast
  have dash: "CHR ''-'' \<notin> set (show_nat k)" for k by (simp add: show_nat_no)
  have e: "show_int (pm_atype m) @ CHR '':'' # show_ip4 s @ CHR '':'' # show_nat (pm_srcPort m)
        @ CHR ''-'' # show_ip4 d @ CHR '':'' # show_nat (pm_dstPort m)
      = show_int (pm_atype n) @ CHR '':'' # show_ip4 s' @ CHR '':'' # show_nat (pm_srcPort n)
        @ CHR ''-'' # show_ip4 d' @ CHR '':'' # show_nat (pm_dstPort n)"
    using eq s d s' d' by (simp add: connTrackKey_def IP_String_IPv4)
  note e1 = sep_unique [OF e show_int_no_colon show_int_no_colon]
  note e2 = sep_unique [OF conjunct2 [OF e1] show_ip4_no_colon [OF s(2)] show_ip4_no_colon [OF s'(2)]]
  note e3 = sep_unique [OF conjunct2 [OF e2] dash dash]
  note e4 = sep_unique [OF conjunct2 [OF e3] show_ip4_no_colon [OF d(2)] show_ip4_no_colon [OF d'(2)]]
  have "s = s'" "d = d'"
    using show_ip4_inj s d s' d' conjunct1 [OF e2] conjunct1 [OF e4] by blast+
  moreover have "pm_atype m = pm_atype n" "pm_srcPort m = pm_srcPort n" "pm_dstPort m = pm_dstPort n"
    using conjunct1 [OF e1] conjunct1 [OF e3] conjunct2 [OF e4] by simp_all
  ultimately show "pm_atype m = pm_atype n \<and> pm_srcIP m = pm_srcIP n \<and> pm_dstIP m = pm_dstIP n
     \<and> pm_srcPort m = pm_srcPort n \<and> pm_dstPort m = pm_dstPort n"
    by (simp add: s d s' d')
qed (simp add: connTrackKey_def)

definition demo_meta :: "int \<Rightarrow> packetMeta" where
  "demo_meta proto = \<lparr> pm_atype = 4, pm_proto = proto, pm_srcIP = IPv4 10 0 0 1, pm_dstIP = IPv4 10 0 0 2,
     pm_srcPort = 1234, pm_dstPort = 53, pm_key = [] \<rparr>"

theorem connTrackKey_iff_witness: "connTrackKey (demo_meta 6) = connTrackKey (demo_meta 17)"
proof -
  have "v4_meta (demo_meta 6)" "v4_meta (demo_meta 17)"
    by (simp_all add: v4_meta_def demo_meta_def IPv4_def)
  from connTrackKey_iff [OF this] show ?thesis by (simp add: demo_meta_def)
qed

end
