(* ===== verification/Conntrack.thy ===== *)
theory Conntrack
  imports L3Frame
begin

text \<open>
  Connection tracking of the layer-3 tunnel: \<^verbatim>\<open>src/client/atrust/l3tunnelconntrack.go\<close>, and the
  authentication and packet writing of \<^verbatim>\<open>l3tunnelconn.go\<close> that use it. The two Go maps hold pointers
  to shared structs, so the model has a heap: the maps hold references into it. A channel that is
  only ever closed is the flag \<open>ct_authDone\<close>; closing it twice would panic, which is None.
\<close>

section \<open>State\<close>

definition defaultConntrackLimit :: nat where "defaultConntrackLimit = 4096"
definition defaultConntrackIdleAfter :: int where "defaultConntrackIdleAfter = 30 * 60 * 1000000000"

record conntrack =
  ct_key :: string
  ct_authID :: u64
  ct_connectToken :: string
  ct_appID :: string
  ct_nodeGroupID :: string
  ct_authDone :: bool
  ct_authErr :: "gerror option"
  ct_authStarted :: bool
  ct_lastUsed :: int

record conntrackMgr =
  cm_nextAuthID :: u64
  cm_byKey :: "string \<rightharpoonup> nat"
  cm_byID :: "u64 \<rightharpoonup> nat"
  cm_limit :: nat
  cm_idleAfter :: int
  cm_heap :: "nat \<rightharpoonup> conntrack"
  cm_fresh :: nat

definition newConntrackMgr :: conntrackMgr where
  "newConntrackMgr = \<lparr> cm_nextAuthID = 0, cm_byKey = Map.empty, cm_byID = Map.empty,
     cm_limit = defaultConntrackLimit, cm_idleAfter = defaultConntrackIdleAfter, cm_heap = Map.empty, cm_fresh = 0 \<rparr>"

definition conntrackCompleted :: "conntrackMgr \<Rightarrow> nat \<Rightarrow> bool" where
  "conntrackCompleted m r = (case cm_heap m r of None \<Rightarrow> False | Some ct \<Rightarrow> ct_authDone ct)"

definition lastUsedOf :: "conntrackMgr \<Rightarrow> nat \<Rightarrow> int" where
  "lastUsedOf m r = (case cm_heap m r of None \<Rightarrow> 0 | Some ct \<Rightarrow> ct_lastUsed ct)"

definition authIDOf :: "conntrackMgr \<Rightarrow> nat \<Rightarrow> u64" where
  "authIDOf m r = (case cm_heap m r of None \<Rightarrow> 0 | Some ct \<Rightarrow> ct_authID ct)"

section \<open>Cleanup\<close>

definition drop_entry :: "conntrackMgr \<Rightarrow> string \<Rightarrow> nat \<Rightarrow> conntrackMgr" where
  "drop_entry m key r = m\<lparr>cm_byKey := (cm_byKey m)(key := None), cm_byID := (cm_byID m)(authIDOf m r := None)\<rparr>"

text \<open>One turn of the first loop of \<^verbatim>\<open>cleanup\<close>.\<close>

definition drop_idle :: "int \<Rightarrow> conntrackMgr \<Rightarrow> string \<Rightarrow> conntrackMgr" where
  "drop_idle cutoff m key =
     (case cm_byKey m key of
        None \<Rightarrow> m
      | Some r \<Rightarrow> if conntrackCompleted m r \<and> lastUsedOf m r \<le> cutoff then drop_entry m key r else m)"

text \<open>The search for the least recently used completed entry.\<close>

definition pick_oldest :: "conntrackMgr \<Rightarrow> string option \<Rightarrow> string \<Rightarrow> string option" where
  "pick_oldest m = argmin_step
     (\<lambda>key. case cm_byKey m key of None \<Rightarrow> False | Some r \<Rightarrow> conntrackCompleted m r)
     (\<lambda>key. case cm_byKey m key of None \<Rightarrow> 0 | Some r \<Rightarrow> lastUsedOf m r)"

text \<open>The second loop; each turn removes an entry, so as many turns as there are entries suffice.\<close>

fun evict_loop :: "((string \<rightharpoonup> nat) \<Rightarrow> string list) \<Rightarrow> nat \<Rightarrow> conntrackMgr \<Rightarrow> conntrackMgr" where
  "evict_loop ord 0 m = m"
| "evict_loop ord (Suc n) m =
     (if card (dom (cm_byKey m)) \<ge> cm_limit m then
        (case foldl (pick_oldest m) None (ord (cm_byKey m)) of
           None \<Rightarrow> m
         | Some key \<Rightarrow> (case cm_byKey m key of None \<Rightarrow> m | Some r \<Rightarrow> evict_loop ord n (drop_entry m key r)))
      else m)"

definition cleanup :: "((string \<rightharpoonup> nat) \<Rightarrow> string list) \<Rightarrow> int \<Rightarrow> conntrackMgr \<Rightarrow> conntrackMgr" where
  "cleanup ord now m =
     (let m1 = foldl (drop_idle (now - cm_idleAfter m)) m (ord (cm_byKey m))
      in evict_loop ord (card (dom (cm_byKey m1))) m1)"

section \<open>Operations\<close>

definition getOrCreate ::
  "((string \<rightharpoonup> nat) \<Rightarrow> string list) \<Rightarrow> int \<Rightarrow> string \<Rightarrow> string \<Rightarrow> string \<Rightarrow> conntrackMgr \<Rightarrow> nat \<times> conntrackMgr" where
  "getOrCreate ord now key appID nodeGroupID m =
     (case cm_byKey m key of
        Some r \<Rightarrow> (r, m\<lparr>cm_heap := (cm_heap m)(r := map_option (\<lambda>ct. ct\<lparr>ct_lastUsed := now\<rparr>) (cm_heap m r))\<rparr>)
      | None \<Rightarrow>
          (let m1 = (if card (dom (cm_byKey m)) \<ge> cm_limit m then cleanup ord now m else m);
               authID = cm_nextAuthID m1 + 1;
               r = cm_fresh m1;
               ct = \<lparr> ct_key = key, ct_authID = authID, ct_connectToken = [], ct_appID = appID,
                      ct_nodeGroupID = nodeGroupID, ct_authDone = False, ct_authErr = None,
                      ct_authStarted = False, ct_lastUsed = now \<rparr>
           in (r, m1\<lparr>cm_nextAuthID := authID, cm_byKey := (cm_byKey m1)(key \<mapsto> r), cm_byID := (cm_byID m1)(authID \<mapsto> r),
                     cm_heap := (cm_heap m1)(r \<mapsto> ct), cm_fresh := Suc r\<rparr>)))"

definition close_auth :: "conntrackMgr \<Rightarrow> nat \<Rightarrow> (conntrack \<Rightarrow> conntrack) \<Rightarrow> conntrackMgr option" where
  "close_auth m r f =
     (case cm_heap m r of
        None \<Rightarrow> None
      | Some ct \<Rightarrow> if ct_authDone ct then None
                   else Some (m\<lparr>cm_heap := (cm_heap m)(r \<mapsto> (f ct)\<lparr>ct_authDone := True\<rparr>)\<rparr>))"

text \<open>The source releases the mutex just before it closes the channel; the entry has left the identifier map by then, so that only this goroutine
  can close it. The model takes the two together.\<close>

definition markAuth :: "u64 \<Rightarrow> string \<Rightarrow> gerror option \<Rightarrow> conntrackMgr \<Rightarrow> conntrackMgr option" where
  "markAuth authID token err m =
     (case cm_byID m authID of
        None \<Rightarrow> Some m
      | Some r \<Rightarrow>
          close_auth (m\<lparr>cm_byID := (cm_byID m)(authID := None)\<rparr>) r
            (\<lambda>ct. (if token \<noteq> [] then ct\<lparr>ct_connectToken := token\<rparr> else ct)\<lparr>ct_authErr := err\<rparr>))"

definition timeoutAuth :: "nat \<Rightarrow> gerror \<Rightarrow> conntrackMgr \<Rightarrow> (bool \<times> conntrackMgr) option" where
  "timeoutAuth r err m =
     (case cm_heap m r of
        None \<Rightarrow> None
      | Some ct \<Rightarrow>
          if cm_byID m (ct_authID ct) \<noteq> Some r then Some (False, m)
          else map_option (Pair True)
            (close_auth
              (m\<lparr>cm_byID := (cm_byID m)(ct_authID ct := None),
                 cm_byKey := (if cm_byKey m (ct_key ct) = Some r then (cm_byKey m)(ct_key ct := None) else cm_byKey m)\<rparr>)
              r (\<lambda>ct. ct\<lparr>ct_authErr := Some err\<rparr>)))"

section \<open>Invariant\<close>

text \<open>
  Both maps point to entries of the heap under their own key and identifier; an entry the
  identifier map still holds is not completed; and, as long as the 64-bit counter has not wrapped
  around, every entry that is not completed is in the identifier map.
\<close>

definition cm_inv :: "conntrackMgr \<Rightarrow> bool" where
  "cm_inv m \<longleftrightarrow>
     finite (dom (cm_byKey m))
   \<and> cm_nextAuthID m = word_of_nat (cm_fresh m)
   \<and> (\<forall>r ct. cm_heap m r = Some ct \<longrightarrow> r < cm_fresh m \<and> ct_authID ct = word_of_nat (Suc r))
   \<and> (\<forall>k r. cm_byKey m k = Some r \<longrightarrow> (\<exists>ct. cm_heap m r = Some ct \<and> ct_key ct = k))
   \<and> (\<forall>i r. cm_byID m i = Some r \<longrightarrow> (\<exists>ct. cm_heap m r = Some ct \<and> ct_authID ct = i \<and> \<not> ct_authDone ct))
   \<and> (cm_fresh m < 2 ^ 64 \<longrightarrow>
        (\<forall>r ct. cm_heap m r = Some ct \<longrightarrow> \<not> ct_authDone ct \<longrightarrow> cm_byID m (ct_authID ct) = Some r))"

lemma cm_invI:
  assumes "finite (dom (cm_byKey m))" "cm_nextAuthID m = word_of_nat (cm_fresh m)"
    and "\<And>r ct. cm_heap m r = Some ct \<Longrightarrow> r < cm_fresh m \<and> ct_authID ct = word_of_nat (Suc r)"
    and "\<And>k r. cm_byKey m k = Some r \<Longrightarrow> \<exists>ct. cm_heap m r = Some ct \<and> ct_key ct = k"
    and "\<And>i r. cm_byID m i = Some r \<Longrightarrow> \<exists>ct. cm_heap m r = Some ct \<and> ct_authID ct = i \<and> \<not> ct_authDone ct"
    and "\<And>r ct. cm_fresh m < 2 ^ 64 \<Longrightarrow> cm_heap m r = Some ct \<Longrightarrow> \<not> ct_authDone ct \<Longrightarrow> cm_byID m (ct_authID ct) = Some r"
  shows "cm_inv m"
  unfolding cm_inv_def using assms by blast

lemma cm_invD:
  assumes "cm_inv m"
  shows "finite (dom (cm_byKey m))" "cm_nextAuthID m = word_of_nat (cm_fresh m)"
    and "cm_heap m r = Some ct \<Longrightarrow> r < cm_fresh m" "cm_heap m r = Some ct \<Longrightarrow> ct_authID ct = word_of_nat (Suc r)"
    and "cm_byKey m k = Some r \<Longrightarrow> \<exists>ct. cm_heap m r = Some ct \<and> ct_key ct = k"
    and "cm_byID m i = Some r \<Longrightarrow> \<exists>ct. cm_heap m r = Some ct \<and> ct_authID ct = i \<and> \<not> ct_authDone ct"
    and "cm_fresh m < 2 ^ 64 \<Longrightarrow> cm_heap m r = Some ct \<Longrightarrow> \<not> ct_authDone ct \<Longrightarrow> cm_byID m (ct_authID ct) = Some r"
  using assms unfolding cm_inv_def by blast+

lemma cm_inv_new: "cm_inv newConntrackMgr"
  by (rule cm_invI) (simp_all add: newConntrackMgr_def)

lemma id_inj:
  assumes "cm_inv m" "cm_fresh m < 2 ^ 64" "cm_heap m r = Some a" "cm_heap m s = Some b" "ct_authID a = ct_authID b"
  shows "r = s"
proof -
  have "(word_of_nat (Suc r) :: u64) = word_of_nat (Suc s)" "r < cm_fresh m" "s < cm_fresh m"
    using assms cm_invD(3,4) by metis+
  then have "unat (word_of_nat (Suc r) :: u64) = unat (word_of_nat (Suc s) :: u64)" by simp
  moreover have "Suc r < 2 ^ 64" "Suc s < 2 ^ 64" using \<open>r < cm_fresh m\<close> \<open>s < cm_fresh m\<close> assms(2) by simp_all
  ultimately show ?thesis by (simp add: unat_of_nat take_bit_eq_mod del: of_nat_Suc)
qed

text \<open>Removing a completed entry keeps the invariant.\<close>

lemma drop_entry_inv:
  assumes inv: "cm_inv m" and r: "cm_byKey m key = Some r" and c: "conntrackCompleted m r"
  shows "cm_inv (drop_entry m key r)"
proof -
  note I = cm_invD [OF inv]
  obtain ct where ct: "cm_heap m r = Some ct" "ct_authDone ct"
    using c by (auto simp: conntrackCompleted_def split: option.splits)
  have aid: "authIDOf m r = ct_authID ct" by (simp add: authIDOf_def ct)
  have keep: "cm_byID (drop_entry m key r) (ct_authID x) = Some s"
    if "cm_fresh m < 2 ^ 64" "cm_heap m s = Some x" "\<not> ct_authDone x" for s x
  proof -
    have "ct_authID x \<noteq> ct_authID ct" using id_inj [OF inv] that ct by force
    then show ?thesis using I(7) [OF that] by (simp add: drop_entry_def aid)
  qed
  show ?thesis
  proof (rule cm_invI)
    show "finite (dom (cm_byKey (drop_entry m key r)))" using I(1) by (simp add: drop_entry_def)
  next
    fix k s assume "cm_byKey (drop_entry m key r) k = Some s"
    then show "\<exists>ct. cm_heap (drop_entry m key r) s = Some ct \<and> ct_key ct = k"
      using I(5) by (auto simp: drop_entry_def split: if_splits)
  next
    fix i s assume "cm_byID (drop_entry m key r) i = Some s"
    then show "\<exists>ct. cm_heap (drop_entry m key r) s = Some ct \<and> ct_authID ct = i \<and> \<not> ct_authDone ct"
      using I(6) by (auto simp: drop_entry_def split: if_splits)
  next
    fix s x assume "cm_fresh (drop_entry m key r) < 2 ^ 64" "cm_heap (drop_entry m key r) s = Some x" "\<not> ct_authDone x"
    then show "cm_byID (drop_entry m key r) (ct_authID x) = Some s"
      using keep by (simp add: drop_entry_def)
  qed (use I(2,3,4) in \<open>auto simp: drop_entry_def\<close>)
qed

lemma drop_entry_frame [simp]:
  "cm_heap (drop_entry m k r) = cm_heap m" "cm_limit (drop_entry m k r) = cm_limit m"
  "cm_idleAfter (drop_entry m k r) = cm_idleAfter m" "cm_fresh (drop_entry m k r) = cm_fresh m"
  "cm_byKey (drop_entry m k r) = (cm_byKey m)(k := None)" "cm_nextAuthID (drop_entry m k r) = cm_nextAuthID m"
  by (simp_all add: drop_entry_def)

text \<open>What every part of \<^verbatim>\<open>cleanup\<close> keeps of the table it starts from.\<close>

definition shrinks :: "conntrackMgr \<Rightarrow> conntrackMgr \<Rightarrow> bool" where
  "shrinks m m' \<longleftrightarrow> cm_inv m' \<and> cm_heap m' = cm_heap m \<and> cm_limit m' = cm_limit m \<and> cm_fresh m' = cm_fresh m
     \<and> cm_byKey m' \<subseteq>\<^sub>m cm_byKey m
     \<and> (\<forall>k r. cm_byKey m k = Some r \<longrightarrow> \<not> conntrackCompleted m r \<longrightarrow> cm_byKey m' k = Some r)"

lemma shrinks_refl: "cm_inv m \<Longrightarrow> shrinks m m"
  by (simp add: shrinks_def)

lemma completed_heap: "cm_heap m' = cm_heap m \<Longrightarrow> conntrackCompleted m' r = conntrackCompleted m r"
  by (simp add: conntrackCompleted_def)

lemma shrinks_trans: "shrinks a b \<Longrightarrow> shrinks b c \<Longrightarrow> shrinks a c"
proof -
  assume ab: "shrinks a b" and bc: "shrinks b c"
  have "conntrackCompleted b r = conntrackCompleted a r" for r
    by (rule completed_heap) (use ab in \<open>simp add: shrinks_def\<close>)
  then show ?thesis using ab bc unfolding shrinks_def by (simp add: map_le_trans [of "cm_byKey c" "cm_byKey b"])
qed

lemma shrinks_drop:
  assumes "cm_inv m" "cm_byKey m k = Some r" "conntrackCompleted m r"
  shows "shrinks m (drop_entry m k r)"
  unfolding shrinks_def using drop_entry_inv [OF assms] assms by (auto simp: map_le_def)

lemma drop_idle_shrinks: "cm_inv m \<Longrightarrow> shrinks m (drop_idle cutoff m k)"
  by (auto simp: drop_idle_def intro: shrinks_refl shrinks_drop split: option.split)

lemma drop_idles_shrink: "cm_inv m \<Longrightarrow> shrinks m (foldl (drop_idle cutoff) m ks)"
proof (induction ks arbitrary: m)
  case (Cons k ks)
  have "shrinks m (drop_idle cutoff m k)" using Cons.prems by (rule drop_idle_shrinks)
  moreover from this have "shrinks (drop_idle cutoff m k) (foldl (drop_idle cutoff) (drop_idle cutoff m k) ks)"
    by (intro Cons.IH) (simp add: shrinks_def)
  ultimately show ?case by (simp add: shrinks_trans)
qed (simp add: shrinks_refl)

lemma pick_oldest_Some:
  assumes "foldl (pick_oldest m) None ks = Some k"
  obtains r where "cm_byKey m k = Some r" "conntrackCompleted m r"
  using argmin_Some [OF assms [unfolded pick_oldest_def]] by (auto split: option.splits)

lemma pick_oldest_None:
  assumes "foldl (pick_oldest m) None ks = None" "k \<in> set ks" "cm_byKey m k = Some r"
  shows "\<not> conntrackCompleted m r"
  using assms(1) [unfolded pick_oldest_def argmin_None] assms(2,3) by force

lemma evict_shrinks: "cm_inv m \<Longrightarrow> shrinks m (evict_loop ord n m)"
proof (induction n arbitrary: m)
  case (Suc n)
  show ?case
  proof (cases "foldl (pick_oldest m) None (ord (cm_byKey m))")
    case (Some k)
    then obtain r where kr: "cm_byKey m k = Some r" "conntrackCompleted m r" by (rule pick_oldest_Some)
    then have d: "shrinks m (drop_entry m k r)" using Suc.prems by (intro shrinks_drop)
    then have "shrinks (drop_entry m k r) (evict_loop ord n (drop_entry m k r))"
      by (intro Suc.IH) (simp add: shrinks_def)
    with d show ?thesis using Some kr Suc.prems by (auto intro: shrinks_refl shrinks_trans)
  qed (use Suc.prems in \<open>simp add: shrinks_refl\<close>)
qed (simp add: shrinks_refl)

lemma evict_enough:
  assumes "ranges ord" "cm_inv m" "card (dom (cm_byKey m)) \<le> n"
  shows "card (dom (cm_byKey (evict_loop ord n m))) < cm_limit m
    \<or> (\<forall>k r. cm_byKey (evict_loop ord n m) k = Some r \<longrightarrow> \<not> conntrackCompleted m r)"
  using assms(2,3)
proof (induction n arbitrary: m)
  case 0
  then have "dom (cm_byKey m) = {}" using cm_invD(1) by force
  then show ?case by auto
next
  case (Suc n)
  have fin: "finite (dom (cm_byKey m))" by (rule cm_invD(1) [OF Suc.prems(1)])
  show ?case
  proof (cases "card (dom (cm_byKey m)) < cm_limit m")
    case False
    show ?thesis
    proof (cases "foldl (pick_oldest m) None (ord (cm_byKey m))")
      case None
      have "\<not> conntrackCompleted m r" if "cm_byKey m k = Some r" for k r
        using pick_oldest_None [OF None _ that] rangesD [OF assms(1) fin] that by auto
      with None False show ?thesis by simp
    next
      case (Some k)
      then obtain r where p: "cm_byKey m k = Some r" "conntrackCompleted m r" by (rule pick_oldest_Some)
      have "card (dom (cm_byKey (drop_entry m k r))) \<le> n"
        using card_dom_delete [OF fin p(1)] Suc.prems(2) by simp
      from Suc.IH [OF drop_entry_inv [OF Suc.prems(1) p] this] show ?thesis
        using Some p(1) False by (simp add: completed_heap [of "drop_entry m k r" m])
    qed
  qed simp
qed

lemma cleanup_shrinks: "cm_inv m \<Longrightarrow> shrinks m (cleanup ord now m)"
proof -
  assume inv: "cm_inv m"
  let ?m1 = "foldl (drop_idle (now - cm_idleAfter m)) m (ord (cm_byKey m))"
  have "shrinks m ?m1" using inv by (rule drop_idles_shrink)
  moreover from this have "shrinks ?m1 (cleanup ord now m)"
    unfolding cleanup_def Let_def by (intro evict_shrinks) (simp add: shrinks_def)
  ultimately show ?thesis by (rule shrinks_trans)
qed

lemma cleanup_enough:
  assumes "ranges ord" "cm_inv m"
  shows "card (dom (cm_byKey (cleanup ord now m))) < cm_limit m
    \<or> (\<forall>k r. cm_byKey (cleanup ord now m) k = Some r \<longrightarrow> \<not> conntrackCompleted m r)"
proof -
  let ?m1 = "foldl (drop_idle (now - cm_idleAfter m)) m (ord (cm_byKey m))"
  have s: "shrinks m ?m1" using assms(2) by (rule drop_idles_shrink)
  have h: "cm_heap ?m1 = cm_heap m" and l: "cm_limit ?m1 = cm_limit m" and i: "cm_inv ?m1"
    using s by (simp_all add: shrinks_def)
  from evict_enough [OF assms(1) i order_refl] show ?thesis
    by (simp add: cleanup_def Let_def l completed_heap [OF h])
qed

section \<open>The operations keep the invariant\<close>

lemma touch_inv:
  assumes inv: "cm_inv m" and ct: "cm_heap m r = Some ct" and f: "\<And>ct. ct_key (f ct) = ct_key ct \<and> ct_authID (f ct) = ct_authID ct
      \<and> ct_authDone (f ct) = ct_authDone ct"
  shows "cm_inv (m\<lparr>cm_heap := (cm_heap m)(r := map_option f (cm_heap m r))\<rparr>)"
proof (rule cm_invI)
  fix k s assume "cm_byKey (m\<lparr>cm_heap := (cm_heap m)(r := map_option f (cm_heap m r))\<rparr>) k = Some s"
  then show "\<exists>ct. cm_heap (m\<lparr>cm_heap := (cm_heap m)(r := map_option f (cm_heap m r))\<rparr>) s = Some ct \<and> ct_key ct = k"
    using cm_invD(5) [OF inv] f by force
next
  fix i s assume "cm_byID (m\<lparr>cm_heap := (cm_heap m)(r := map_option f (cm_heap m r))\<rparr>) i = Some s"
  then show "\<exists>ct. cm_heap (m\<lparr>cm_heap := (cm_heap m)(r := map_option f (cm_heap m r))\<rparr>) s = Some ct
      \<and> ct_authID ct = i \<and> \<not> ct_authDone ct"
    using cm_invD(6) [OF inv] f by force
next
  fix s x assume "cm_fresh (m\<lparr>cm_heap := (cm_heap m)(r := map_option f (cm_heap m r))\<rparr>) < 2 ^ 64"
    "cm_heap (m\<lparr>cm_heap := (cm_heap m)(r := map_option f (cm_heap m r))\<rparr>) s = Some x" "\<not> ct_authDone x"
  then show "cm_byID (m\<lparr>cm_heap := (cm_heap m)(r := map_option f (cm_heap m r))\<rparr>) (ct_authID x) = Some s"
    using cm_invD(7) [OF inv] f by (auto split: if_splits)
qed (use cm_invD(1-4) [OF inv] f in \<open>auto split: if_splits\<close>)

lemma create_inv:
  assumes inv: "cm_inv m" and id: "aid = cm_nextAuthID m + 1" and r: "r = cm_fresh m"
    and ct: "ct_key ct = key" "ct_authID ct = aid" "\<not> ct_authDone ct"
  shows "cm_inv (m\<lparr>cm_nextAuthID := aid, cm_byKey := (cm_byKey m)(key \<mapsto> r), cm_byID := (cm_byID m)(aid \<mapsto> r),
      cm_heap := (cm_heap m)(r \<mapsto> ct), cm_fresh := Suc r\<rparr>)" (is "cm_inv ?m")
proof -
  note I = cm_invD [OF inv]
  have aid: "aid = word_of_nat (Suc r)" using I(2) id r by simp
  have old: "x < r" if "cm_heap m x = Some c" for x c using I(3) [OF that] r by simp
  have idm: "ct_authID c \<noteq> aid" if "cm_heap m x = Some c" "Suc r < 2 ^ 64" for x c
  proof
    assume "ct_authID c = aid"
    then have "unat (word_of_nat (Suc x) :: u64) = unat (word_of_nat (Suc r) :: u64)"
      using I(4) [OF that(1)] aid by simp
    then show False using old [OF that(1)] that(2) by (simp add: unat_of_nat take_bit_eq_mod del: of_nat_Suc)
  qed
  show ?thesis
  proof (rule cm_invI)
    fix k s assume "cm_byKey ?m k = Some s"
    then show "\<exists>ct. cm_heap ?m s = Some ct \<and> ct_key ct = k"
      using I(5) ct(1) old by (auto split: if_splits)
  next
    fix i s assume "cm_byID ?m i = Some s"
    then show "\<exists>ct. cm_heap ?m s = Some ct \<and> ct_authID ct = i \<and> \<not> ct_authDone ct"
      using I(6) ct(2,3) old by (auto split: if_splits)
  next
    fix s x assume h: "cm_fresh ?m < 2 ^ 64" "cm_heap ?m s = Some x" "\<not> ct_authDone x"
    show "cm_byID ?m (ct_authID x) = Some s"
    proof (cases "s = r")
      case True
      then show ?thesis using h ct(2) by simp
    next
      case False
      then have s: "cm_heap m s = Some x" using h(2) by simp
      moreover have "cm_fresh m < 2 ^ 64" "Suc r < 2 ^ 64" using h(1) r by simp_all
      ultimately show ?thesis using idm I(7) [of s x] h(3) by simp
    qed
  qed (use I(1,3,4) ct aid r in \<open>auto split: if_splits simp: less_Suc_eq simp del: of_nat_Suc\<close>)
qed

lemma getOrCreate_inv:
  assumes "cm_inv m" and "getOrCreate ord now key a g m = (r, m')"
  shows "cm_inv m' \<and> (\<exists>ct. cm_heap m' r = Some ct \<and> ct_key ct = key) \<and> cm_byKey m' key = Some r"
proof (cases "cm_byKey m key")
  case (Some s)
  then obtain ct where ct: "cm_heap m s = Some ct" "ct_key ct = key" using cm_invD(5) [OF assms(1)] by blast
  have "cm_inv (m\<lparr>cm_heap := (cm_heap m)(s := map_option (\<lambda>ct. ct\<lparr>ct_lastUsed := now\<rparr>) (cm_heap m s))\<rparr>)"
    using assms(1) ct(1) by (rule touch_inv) simp
  then show ?thesis using assms(2) Some ct by (auto simp: getOrCreate_def)
next
  case None
  define m1 where "m1 = (if card (dom (cm_byKey m)) \<ge> cm_limit m then cleanup ord now m else m)"
  have "cm_inv m1"
    using assms(1) cleanup_shrinks [OF assms(1), of ord now] by (simp add: m1_def shrinks_def)
  define ct where "ct = \<lparr> ct_key = key, ct_authID = cm_nextAuthID m1 + 1, ct_connectToken = [], ct_appID = a,
     ct_nodeGroupID = g, ct_authDone = False, ct_authErr = None, ct_authStarted = False, ct_lastUsed = now \<rparr>"
  have "cm_inv (m1\<lparr>cm_nextAuthID := cm_nextAuthID m1 + 1, cm_byKey := (cm_byKey m1)(key \<mapsto> cm_fresh m1),
      cm_byID := (cm_byID m1)(cm_nextAuthID m1 + 1 \<mapsto> cm_fresh m1),
      cm_heap := (cm_heap m1)(cm_fresh m1 \<mapsto> ct), cm_fresh := Suc (cm_fresh m1)\<rparr>)"
    by (rule create_inv [OF \<open>cm_inv m1\<close> refl refl]) (simp_all add: ct_def)
  then show ?thesis
    using assms(2) None by (auto simp: getOrCreate_def Let_def m1_def [symmetric] ct_def)
qed

text \<open>Completing the entry an identifier stands for: it leaves the identifier map.\<close>

lemma complete_inv:
  assumes inv: "cm_inv m" and i: "cm_byID m i = Some r" and ct: "cm_heap m r = Some ct"
    and f: "ct_key (f ct) = ct_key ct" "ct_authID (f ct) = ct_authID ct" "ct_authDone (f ct)"
    and bk: "bk = cm_byKey m \<or> bk = (cm_byKey m)(kd := None)"
  shows "cm_inv (m\<lparr>cm_byID := (cm_byID m)(i := None), cm_byKey := bk, cm_heap := (cm_heap m)(r \<mapsto> f ct)\<rparr>)" (is "cm_inv ?m")
proof -
  note I = cm_invD [OF inv]
  have aid: "ct_authID ct = i" using I(6) [OF i] ct by auto
  have sub: "cm_byKey m k = Some s" if "bk k = Some s" for k s using bk that by (auto split: if_splits)
  have other: "s \<noteq> r" if "cm_byID m j = Some s" "j \<noteq> i" for j s using I(6) [OF that(1)] aid ct that(2) by auto
  show ?thesis
  proof (rule cm_invI)
    show "finite (dom (cm_byKey ?m))" using bk I(1) by auto
  next
    fix k s assume "cm_byKey ?m k = Some s"
    then have "cm_byKey m k = Some s" using sub by simp
    then show "\<exists>ct. cm_heap ?m s = Some ct \<and> ct_key ct = k" using I(5) ct f(1) by fastforce
  next
    fix j s assume "cm_byID ?m j = Some s"
    then show "\<exists>ct. cm_heap ?m s = Some ct \<and> ct_authID ct = j \<and> \<not> ct_authDone ct"
      using I(6) other by (auto split: if_splits)
  next
    fix s x assume h: "cm_fresh ?m < 2 ^ 64" "cm_heap ?m s = Some x" "\<not> ct_authDone x"
    then have s: "s \<noteq> r" "cm_heap m s = Some x" using f(3) by (auto split: if_splits)
    moreover have "ct_authID x \<noteq> i" using id_inj [OF inv _ s(2) ct] h(1) aid s(1) by auto
    ultimately show "cm_byID ?m (ct_authID x) = Some s" using I(7) h by simp
  qed (use I(2-4) ct f in \<open>auto split: if_splits\<close>)
qed

lemma markAuth_inv:
  assumes inv: "cm_inv m"
  shows "\<exists>m'. markAuth i token err m = Some m' \<and> cm_inv m' \<and> cm_fresh m' = cm_fresh m \<and> dom (cm_heap m') = dom (cm_heap m)"
proof (cases "cm_byID m i")
  case (Some r)
  then obtain ct where ct: "cm_heap m r = Some ct" "\<not> ct_authDone ct" using cm_invD(6) [OF inv] by blast
  define f :: "conntrack \<Rightarrow> conntrack" where "f = (\<lambda>ct. ((if token \<noteq> [] then ct\<lparr>ct_connectToken := token\<rparr> else ct)\<lparr>ct_authErr := err\<rparr>)\<lparr>ct_authDone := True\<rparr>)"
  have "cm_inv (m\<lparr>cm_byID := (cm_byID m)(i := None), cm_byKey := cm_byKey m, cm_heap := (cm_heap m)(r \<mapsto> f ct)\<rparr>)"
    by (rule complete_inv [OF inv Some ct(1)]) (simp_all add: f_def)
  then show ?thesis using Some ct by (auto simp: markAuth_def close_auth_def f_def)
qed (use inv in \<open>simp add: markAuth_def\<close>)

lemma timeoutAuth_inv:
  assumes inv: "cm_inv m" and ct: "cm_heap m r = Some ct"
  shows "\<exists>b m'. timeoutAuth r err m = Some (b, m') \<and> cm_inv m' \<and> cm_fresh m' = cm_fresh m \<and> dom (cm_heap m') = dom (cm_heap m)
    \<and> (b \<longrightarrow> \<not> ct_authDone ct) \<and> (\<not> b \<longrightarrow> m' = m \<and> cm_byID m (ct_authID ct) \<noteq> Some r)"
proof (cases "cm_byID m (ct_authID ct) = Some r")
  case True
  then have nd: "\<not> ct_authDone ct" using cm_invD(6) [OF inv] ct by fastforce
  define f :: "conntrack \<Rightarrow> conntrack" where "f = (\<lambda>ct. ct\<lparr>ct_authErr := Some err\<rparr>\<lparr>ct_authDone := True\<rparr>)"
  define bk where "bk = (if cm_byKey m (ct_key ct) = Some r then (cm_byKey m)(ct_key ct := None) else cm_byKey m)"
  have "cm_inv (m\<lparr>cm_byID := (cm_byID m)(ct_authID ct := None), cm_byKey := bk, cm_heap := (cm_heap m)(r \<mapsto> f ct)\<rparr>)"
    by (rule complete_inv [OF inv True ct, where kd = "ct_key ct"]) (simp_all add: f_def bk_def)
  then show ?thesis using True ct nd by (auto simp: timeoutAuth_def close_auth_def f_def bk_def)
next
  case False
  then have "timeoutAuth r err m = Some (False, m)" using ct by (simp add: timeoutAuth_def)
  then show ?thesis using inv False by blast
qed

section \<open>Authentication of a flow\<close>

text \<open>The operations other goroutines may run on the table; None is a panic, and stays one.
  A reference that no call returned is not an argument of any call.\<close>

datatype cm_op =
    GetOrCreate int string string string
  | MarkAuth u64 string "gerror option"
  | TimeoutAuth nat gerror
  | StartAuth nat

definition start_auth :: "nat \<Rightarrow> conntrackMgr \<Rightarrow> conntrackMgr" where
  "start_auth r m = m\<lparr>cm_heap := (cm_heap m)(r := map_option (\<lambda>ct. ct\<lparr>ct_authStarted := True\<rparr>) (cm_heap m r))\<rparr>"

definition cm_step :: "((string \<rightharpoonup> nat) \<Rightarrow> string list) \<Rightarrow> conntrackMgr option \<Rightarrow> cm_op \<Rightarrow> conntrackMgr option" where
  "cm_step ord st x = Option.bind st (\<lambda>m.
     case x of
       GetOrCreate now key a g \<Rightarrow> Some (snd (getOrCreate ord now key a g m))
     | MarkAuth i token err \<Rightarrow> markAuth i token err m
     | TimeoutAuth r err \<Rightarrow> (case cm_heap m r of None \<Rightarrow> Some m | Some _ \<Rightarrow> map_option snd (timeoutAuth r err m))
     | StartAuth r \<Rightarrow> (case cm_heap m r of None \<Rightarrow> Some m | Some _ \<Rightarrow> Some (start_auth r m)))"

text \<open>What the table promises: it is there (no panic) and well formed.\<close>

definition cm_ok :: "conntrackMgr option \<Rightarrow> bool" where
  "cm_ok st = (case st of None \<Rightarrow> False | Some m \<Rightarrow> cm_inv m)"

lemma start_auth_inv: "cm_inv m \<Longrightarrow> cm_heap m r = Some ct \<Longrightarrow> cm_inv (start_auth r m)"
  unfolding start_auth_def by (rule touch_inv) simp_all

lemma cm_step_ok:
  assumes "cm_ok st"
  shows "cm_ok (cm_step ord st x)"
proof -
  obtain m where m: "st = Some m" "cm_inv m" using assms by (auto simp: cm_ok_def split: option.splits)
  show ?thesis
  proof (cases x)
    case (GetOrCreate now key a g)
    then show ?thesis using m getOrCreate_inv [OF m(2), of ord now key a g]
      by (cases "getOrCreate ord now key a g m") (simp add: cm_step_def cm_ok_def)
  next
    case (MarkAuth i token err)
    then show ?thesis using m markAuth_inv [OF m(2), of i token err] by (auto simp: cm_step_def cm_ok_def)
  next
    case (TimeoutAuth r err)
    show ?thesis
    proof (cases "cm_heap m r")
      case (Some ct)
      then obtain b m' where "timeoutAuth r err m = Some (b, m')" "cm_inv m'" using timeoutAuth_inv [OF m(2)] by blast
      then show ?thesis using m TimeoutAuth Some by (simp add: cm_step_def cm_ok_def)
    qed (use m TimeoutAuth in \<open>simp add: cm_step_def cm_ok_def\<close>)
  next
    case (StartAuth r)
    then show ?thesis using m start_auth_inv [OF m(2), of r]
      by (auto simp: cm_step_def cm_ok_def split: option.splits)
  qed
qed

interpretation cm: step_system "\<lambda>st. st = Some newConntrackMgr" "cm_step ord" cm_ok
  by unfold_locales (simp_all add: cm_step_ok, simp add: cm_ok_def cm_inv_new)

text \<open>References stay valid: no operation frees a heap cell.\<close>

lemma cleanup_heap: "cm_inv m \<Longrightarrow> cm_heap (cleanup ord now m) = cm_heap m \<and> cm_fresh (cleanup ord now m) = cm_fresh m"
  using cleanup_shrinks [of m ord now] by (simp add: shrinks_def)

definition grows :: "nat \<Rightarrow> conntrackMgr \<Rightarrow> conntrackMgr \<Rightarrow> bool" where
  "grows n m m' \<longleftrightarrow> dom (cm_heap m) \<subseteq> dom (cm_heap m') \<and> cm_fresh m' \<le> cm_fresh m + n"

lemma cm_step_grows:
  assumes "cm_inv m" "cm_step ord (Some m) x = Some m'"
  shows "grows 1 m m'"
proof (cases x)
  case (GetOrCreate now key a g)
  then show ?thesis using assms cleanup_heap [OF assms(1), of ord now]
    by (auto simp: grows_def cm_step_def getOrCreate_def Let_def split: option.splits if_splits)
next
  case (MarkAuth i token err)
  then show ?thesis using assms markAuth_inv [OF assms(1), of i token err] by (auto simp: grows_def cm_step_def)
next
  case (TimeoutAuth r err)
  then show ?thesis using assms timeoutAuth_inv [OF assms(1), of r _ err]
    by (fastforce simp: grows_def cm_step_def split: option.splits)
next
  case (StartAuth r)
  then show ?thesis using assms by (auto simp: grows_def cm_step_def start_auth_def split: option.splits)
qed

lemma cm_steps_grow:
  assumes "cm_inv m"
  shows "\<exists>m'. foldl (cm_step ord) (Some m) xs = Some m' \<and> cm_inv m' \<and> grows (length xs) m m'"
  using assms
proof (induction xs arbitrary: m)
  case (Cons x xs)
  obtain m1 where m1: "cm_step ord (Some m) x = Some m1" "cm_inv m1"
    using cm_step_ok [of "Some m" ord x] Cons.prems by (auto simp: cm_ok_def split: option.splits)
  have "grows 1 m m1" by (rule cm_step_grows [OF Cons.prems m1(1)])
  with Cons.IH [OF m1(2)] m1(1) show ?case by (auto simp: grows_def)
qed (simp add: grows_def)

text \<open>
  \<^verbatim>\<open>ensureAuth\<close> of an entry. \<open>send\<close> is the outcome of \<^verbatim>\<open>sendAuthRequest\<close>, \<open>others\<close> what other
  goroutines do to the table while the call waits, \<open>fires\<close> whether its timer fires before the
  entry is completed. None is a panic or a call that does not return.
\<close>

definition auth_timeout_error :: "string \<Rightarrow> gerror" where
  "auth_timeout_error key = Wrap (sentinel_string ErrL3TunnelAuthTimeout @ '' for '' @ key) (Sentinel ErrL3TunnelAuthTimeout)"

definition wait_auth :: "bool \<Rightarrow> nat \<Rightarrow> conntrackMgr \<Rightarrow> (gerror option \<times> conntrackMgr) option" where
  "wait_auth fires r m =
     Option.bind (cm_heap m r) (\<lambda>ct.
       if \<not> fires then (if ct_authDone ct then Some (ct_authErr ct, m) else None)
       else Option.bind (timeoutAuth r (auth_timeout_error (ct_key ct)) m) (\<lambda>(timedOut, m').
         if timedOut then Some (Some (auth_timeout_error (ct_key ct)), m')
         else if ct_authDone ct then Some (ct_authErr ct, m') else None))"

definition ensureAuth ::
  "((string \<rightharpoonup> nat) \<Rightarrow> string list) \<Rightarrow> gerror option \<Rightarrow> cm_op list \<Rightarrow> bool \<Rightarrow> nat \<Rightarrow> conntrackMgr \<Rightarrow>
   (gerror option \<times> conntrackMgr) option" where
  "ensureAuth ord send others fires r m =
     Option.bind (cm_heap m r) (\<lambda>ct.
       if ct_authDone ct then Some (ct_authErr ct, m)
       else
         let first = \<not> ct_authStarted ct; m1 = (if first then start_auth r m else m) in
         case (if first then send else None) of
           Some e \<Rightarrow> Option.bind (markAuth (ct_authID ct) [] (Some e) m1) (\<lambda>m2. Some (Some e, m2))
         | None \<Rightarrow> Option.bind (foldl (cm_step ord) (Some m1) others) (wait_auth fires r))"

definition WritePacket ::
  "((string \<rightharpoonup> nat) \<Rightarrow> string list) \<Rightarrow> int \<Rightarrow> gerror option \<Rightarrow> cm_op list \<Rightarrow> bool \<Rightarrow>
   packetMeta \<Rightarrow> string \<Rightarrow> string \<Rightarrow> bytes \<Rightarrow> conntrackMgr \<Rightarrow> (bytes result \<times> conntrackMgr) option" where
  "WritePacket ord now send others fires meta appID nodeGroupID pkt m =
     (let (r, m1) = getOrCreate ord now (pm_key meta) appID nodeGroupID m in
      Option.bind (ensureAuth ord send others fires r m1) (\<lambda>(err, m2).
        case err of
          Some e \<Rightarrow> Some (Inl e, m2)
        | None \<Rightarrow> Option.bind (cm_heap m2 r) (\<lambda>ct.
            let token = ct_connectToken ct in
            if token = [] then Some (Inl (Opaque (''l3-tunnel missing connect token for '' @ ct_key ct)), m2)
            else if length token > 0xFF
            then Some (Inl (Opaque (''l3-tunnel connect token too long: '' @ show_nat (length token))), m2)
            else Some (Inr (buildDataPayload token [pkt]), m2))))"

record authResponseIP =
  resp_Code :: int
  resp_Message :: string
  resp_ConntrackHash :: u64
  resp_ConnectToken :: string
  resp_Token :: string

text \<open>\<^verbatim>\<open>handleAuthResp\<close> with the decoded answer (or the decoder's error); the second result is the
  error reported as a health problem.\<close>

definition report_health :: "gerror option \<Rightarrow> gerror option" where
  "report_health err = (case err of None \<Rightarrow> None | Some e \<Rightarrow> if errors_Is e ErrSessionInvalid then Some e else None)"

definition markAuthErrorFromPayload ::
  "authResponseIP result \<Rightarrow> gerror \<Rightarrow> conntrackMgr \<Rightarrow> (conntrackMgr \<times> gerror option) option" where
  "markAuthErrorFromPayload decoded err m =
     (case decoded of
        Inl _ \<Rightarrow> Some (m, report_health (Some err))
      | Inr resp \<Rightarrow>
          (let err' = classifyL3SessionError err (resp_Message resp) in
           Option.bind (if resp_ConntrackHash resp \<noteq> 0 then markAuth (resp_ConntrackHash resp) [] (Some err') m else Some m)
             (\<lambda>m'. Some (m', report_health (Some err')))))"

definition handleAuthResp ::
  "u8 \<Rightarrow> authResponseIP result \<Rightarrow> conntrackMgr \<Rightarrow> (conntrackMgr \<times> gerror option) option" where
  "handleAuthResp status decoded m =
     (if status \<noteq> 0 then markAuthErrorFromPayload decoded (Opaque (''auth status '' @ show_nat (unat status))) m
      else case decoded of
          Inl e \<Rightarrow> markAuthErrorFromPayload decoded e m
        | Inr resp \<Rightarrow>
            if resp_ConntrackHash resp = 0 then markAuthErrorFromPayload decoded (Opaque ''missing conntrack hash'') m
            else
              let err0 = (if resp_Code resp \<noteq> 0
                    then Some (classifyL3SessionError (Opaque (''auth failed: '' @ show_int (resp_Code resp) @ '' '' @ resp_Message resp))
                           (resp_Message resp)) else None);
                  t0 = TrimSpace (resp_ConnectToken resp);
                  token = (if t0 = [] then TrimSpace (resp_Token resp) else t0);
                  err = (if err0 = None \<and> token = [] then Some (Opaque ''missing connect token'') else err0)
              in Option.bind (markAuth (resp_ConntrackHash resp) token err m) (\<lambda>m'. Some (m', report_health err)))"

lemma wait_auth_returns:
  assumes inv: "cm_inv m" and ct: "cm_heap m r = Some ct" and "cm_fresh m < 2 ^ 64"
  shows "\<exists>err m'. wait_auth True r m = Some (err, m') \<and> cm_inv m'"
proof -
  obtain b m' where t: "timeoutAuth r (auth_timeout_error (ct_key ct)) m = Some (b, m')" "cm_inv m'"
    "\<not> b \<longrightarrow> cm_byID m (ct_authID ct) \<noteq> Some r"
    using timeoutAuth_inv [OF inv ct] by blast
  have "ct_authDone ct" if "\<not> b" using cm_invD(7) [OF inv assms(3) ct] t(3) that by auto
  then show ?thesis using t ct by (auto simp: wait_auth_def)
qed

lemma getOrCreate_table:
  assumes "ranges ord" "cm_inv m" "cm_byKey m key = None" "getOrCreate ord now key a g m = (r, m')"
  shows "card (dom (cm_byKey m')) \<le> cm_limit m
      \<or> (\<forall>k s. k \<noteq> key \<longrightarrow> cm_byKey m' k = Some s \<longrightarrow> \<not> conntrackCompleted m s)"
    and "cm_byKey m k = Some s \<Longrightarrow> \<not> conntrackCompleted m s \<Longrightarrow> cm_byKey m' k = Some s"
proof -
  define m1 where "m1 = (if card (dom (cm_byKey m)) \<ge> cm_limit m then cleanup ord now m else m)"
  have bk: "cm_byKey m' = (cm_byKey m1)(key \<mapsto> cm_fresh m1)"
    using assms(3,4) by (auto simp: getOrCreate_def Let_def m1_def [symmetric])
  have s: "shrinks m m1" using cleanup_shrinks [OF assms(2)] shrinks_refl [OF assms(2)] by (simp add: m1_def)
  have fin: "finite (dom (cm_byKey m1))" using s cm_invD(1) by (auto simp: shrinks_def)
  have k: "key \<notin> dom (cm_byKey m1)" using s assms(3) by (force simp: shrinks_def map_le_def)
  have c: "card (dom (cm_byKey m')) = Suc (card (dom (cm_byKey m1)))" using fin k by (simp add: bk)
  show "card (dom (cm_byKey m')) \<le> cm_limit m
      \<or> (\<forall>k s. k \<noteq> key \<longrightarrow> cm_byKey m' k = Some s \<longrightarrow> \<not> conntrackCompleted m s)"
    using cleanup_enough [OF assms(1,2), of now] c by (auto simp: bk m1_def split: if_splits)
  show "cm_byKey m' k = Some s" if "cm_byKey m k = Some s" "\<not> conntrackCompleted m s"
    using s that assms(3) by (auto simp: shrinks_def bk)
qed

section \<open>Theorems\<close>

text \<open>C2. Whatever the goroutines of a tunnel do to its connection table, in whatever order and
  however the runtime ranges over the maps, no step panics (in particular no completion channel is
  closed twice), and the two indexes stay consistent: the key map holds entries with that key, the
  identifier map exactly identifiers of entries still waiting for their answer, and, before the
  64-bit counter wraps around, every waiting entry can still be reached by its identifier.\<close>

theorem conntrack_consistent:
  "\<exists>m. foldl (cm_step ord) (Some newConntrackMgr) ops = Some m \<and> cm_inv m"
proof -
  have "cm_ok (foldl (cm_step ord) (Some newConntrackMgr) ops)" by (rule cm.run_inv) simp
  then show ?thesis by (simp add: cm_ok_def split: option.splits)
qed

text \<open>C3. The wait for a flow's authentication ends: once its eight-second timer fires,
  \<^verbatim>\<open>ensureAuth\<close> returns, whatever other goroutines did to the table meanwhile; in particular when
  the timeout finds that the answer won the race, the channel it then reads is the one that the goroutine of the answer closes as
  it leaves \<^verbatim>\<open>markAuth\<close> (in the model, in the same step).\<close>

theorem ensureAuth_returns:
  assumes "cm_inv m" "cm_heap m r = Some ct" "cm_fresh m + length others < 2 ^ 64"
  shows "\<exists>err m'. ensureAuth ord send others True r m = Some (err, m') \<and> cm_inv m'"
proof (cases "ct_authDone ct")
  case True
  then show ?thesis using assms by (simp add: ensureAuth_def)
next
  case False
  define m1 where "m1 = (if \<not> ct_authStarted ct then start_auth r m else m)"
  have m1: "cm_inv m1" using start_auth_inv [OF assms(1,2)] assms(1) by (simp add: m1_def)
  have h1: "r \<in> dom (cm_heap m1)" "cm_fresh m1 = cm_fresh m" using assms(2) by (auto simp: m1_def start_auth_def)
  show ?thesis
  proof (cases "if \<not> ct_authStarted ct then send else None")
    case (Some e)
    moreover obtain m2 where "markAuth (ct_authID ct) [] (Some e) m1 = Some m2" "cm_inv m2"
      using markAuth_inv [OF m1] by blast
    ultimately show ?thesis using False assms(2) by (auto simp: ensureAuth_def Let_def m1_def split: if_splits)
  next
    case None
    obtain m2 where m2: "foldl (cm_step ord) (Some m1) others = Some m2" "cm_inv m2" "grows (length others) m1 m2"
      using cm_steps_grow [OF m1] by blast
    obtain ct2 where "cm_heap m2 r = Some ct2" using h1(1) m2(3) by (auto simp: grows_def)
    moreover have "cm_fresh m2 < 2 ^ 64" using assms(3) m2(3) h1(2) by (simp add: grows_def)
    ultimately have "\<exists>err m'. wait_auth True r m2 = Some (err, m') \<and> cm_inv m'" by (rule wait_auth_returns [OF m2(2)])
    then show ?thesis using None False assms(2) m2(1) by (auto simp: ensureAuth_def Let_def m1_def split: if_splits)
  qed
qed

theorem ensureAuth_returns_witness:
  "\<exists>err m'. ensureAuth by_key None [MarkAuth 1 ''tok'' None] True 0
       (snd (getOrCreate by_key 0 ''k'' ''app'' ''grp'' newConntrackMgr)) = Some (err, m') \<and> cm_inv m'"
proof -
  let ?m = "snd (getOrCreate by_key 0 ''k'' ''app'' ''grp'' newConntrackMgr)"
  have inv: "cm_inv ?m"
    using getOrCreate_inv [OF cm_inv_new, of by_key 0 "''k''" "''app''" "''grp''"] by (metis prod.collapse)
  obtain ct where ct: "cm_heap ?m 0 = Some ct" and "cm_fresh ?m = 1"
    by (simp add: getOrCreate_def newConntrackMgr_def defaultConntrackLimit_def)
  then have "cm_fresh ?m + length [MarkAuth 1 ''tok'' None] < 2 ^ 64" by simp
  from ensureAuth_returns [OF inv ct this] show ?thesis .
qed

text \<open>C11. The table of flows is bounded: after a new flow is added, it holds at most its limit of
  entries unless every other entry is still waiting for its authentication; and making room never
  drops such a waiting flow.\<close>

theorem getOrCreate_bounded:
  assumes "ranges ord" "cm_inv m" "cm_byKey m key = None" "getOrCreate ord now key appID grp m = (r, m')"
  shows "(card (dom (cm_byKey m')) \<le> cm_limit m
       \<or> (\<forall>k s. k \<noteq> key \<longrightarrow> cm_byKey m' k = Some s \<longrightarrow> \<not> conntrackCompleted m s))
     \<and> (\<forall>k s. cm_byKey m k = Some s \<longrightarrow> \<not> conntrackCompleted m s \<longrightarrow> cm_byKey m' k = Some s)"
  using getOrCreate_table [OF assms] by blast

theorem getOrCreate_bounded_witness:
  "card (dom (cm_byKey (snd (getOrCreate by_key 0 ''k'' ''app'' ''grp'' newConntrackMgr)))) \<le> 4096"
proof -
  have "cm_byKey newConntrackMgr ''k'' = None" by (simp add: newConntrackMgr_def)
  from getOrCreate_bounded [OF ranges_by_key cm_inv_new this surjective_pairing] show ?thesis
    by (auto simp: newConntrackMgr_def getOrCreate_def defaultConntrackLimit_def)
qed

text \<open>C12. A packet that is written is written as it is: the frame \<^verbatim>\<open>WritePacket\<close> sends carries the
  connect token of the flow's own entry, of 1 to 255 bytes, and decodes to exactly that packet.\<close>

theorem WritePacket_frame:
  assumes "cm_inv m" "length pkt < 65536"
    and "WritePacket ord now send others fires meta appID grp pkt m = Some (Inr frame, m')"
  shows "\<exists>r ct. cm_heap m' r = Some ct \<and> 1 \<le> length (ct_connectToken ct) \<and> length (ct_connectToken ct) \<le> 255
     \<and> frame = buildDataPayload (ct_connectToken ct) [pkt] \<and> parseDataPayload (drop 2 frame) = Inr [pkt]
     \<and> r = fst (getOrCreate ord now (pm_key meta) appID grp m)"
proof -
  obtain r m1 where g: "getOrCreate ord now (pm_key meta) appID grp m = (r, m1)" by (cases "getOrCreate ord now (pm_key meta) appID grp m")
  obtain ct where "cm_heap m' r = Some ct" "ct_connectToken ct \<noteq> []" "length (ct_connectToken ct) \<le> 255"
    "frame = buildDataPayload (ct_connectToken ct) [pkt]"
    using assms(3) g by (auto simp: WritePacket_def Let_def bind_eq_Some_conv split: option.splits if_splits)
  moreover from this have "parseDataPayload (drop 2 frame) = Inr [pkt]"
    using parse_data_body [of "ct_connectToken ct" "[pkt]"] assms(2) by (simp add: build_data_body)
  ultimately show ?thesis using g by (intro exI [of _ r] exI [of _ ct]) (auto simp: Suc_le_eq)
qed

theorem WritePacket_frame_witness:
  "\<exists>r ct m'. cm_heap m' r = Some ct \<and> parseDataPayload (drop 2 (buildDataPayload ''tok'' [[0x45]])) = Inr [[0x45]]
     \<and> WritePacket by_key 0 None [MarkAuth 1 ''tok'' None] False (demo_meta 6) ''app'' ''grp'' [0x45] newConntrackMgr
         = Some (Inr (buildDataPayload ''tok'' [[0x45]]), m')"
proof -
  have "\<exists>m'. WritePacket by_key 0 None [MarkAuth 1 ''tok'' None] False (demo_meta 6) ''app'' ''grp'' [0x45] newConntrackMgr
         = Some (Inr (buildDataPayload ''tok'' [[0x45]]), m')"
    by (simp add: WritePacket_def getOrCreate_def newConntrackMgr_def defaultConntrackLimit_def ensureAuth_def
        start_auth_def cm_step_def markAuth_def close_auth_def wait_auth_def Let_def)
  then obtain m' where w: "WritePacket by_key 0 None [MarkAuth 1 ''tok'' None] False (demo_meta 6) ''app'' ''grp'' [0x45] newConntrackMgr
         = Some (Inr (buildDataPayload ''tok'' [[0x45]]), m')" by blast
  from WritePacket_frame [OF cm_inv_new _ w] show ?thesis using w by auto
qed

end
