(* ===== verification/Resources.thy ===== *)
theory Resources
  imports CoreError GoNet
begin

text \<open>
  The resources a gateway publishes: the records of \<^verbatim>\<open>src/client/client.go\<close> and the translation of
  the decoded resource document in \<^verbatim>\<open>src/client/atrust/parse.go\<close>. The document is what the JSON
  decoder produced; a null address list is None.
\<close>

section \<open>Records\<close>

record IPResource =
  ipr_IPMin :: ip
  ipr_IPMax :: ip
  ipr_PortMin :: int
  ipr_PortMax :: int
  ipr_Protocol :: string
  ipr_AppID :: string
  ipr_NodeGroupID :: string

record DomainResource =
  dom_PortMin :: int
  dom_PortMax :: int
  dom_Protocol :: string
  dom_AppID :: string
  dom_NodeGroupID :: string

record AddressEntry =
  ae_Protocol :: string
  ae_Port :: string
  ae_Host :: string
  ae_IP :: "string list option"

record AppItem =
  app_ID :: string
  app_NodeGroupID :: string
  app_AddressList :: "AddressEntry list"

record NodeGroup =
  ng_AddressInfo :: "string list"
  ng_ID :: string

record ClientResource =
  cr_AppInfo :: "AppItem list list"
  cr_MajorNodeGroup :: string
  cr_NodeGroupList :: "NodeGroup list"
  cr_DNSOption_FirstDNS :: string
  cr_DNSOptionV2_FirstDNS :: string

text \<open>The fields of the client that \<^verbatim>\<open>parseResource\<close> sets.\<close>

record ParsedResources =
  pr_ipResources :: "IPResource list"
  pr_domainResources :: "string \<rightharpoonup> DomainResource"
  pr_dnsResource :: "string \<rightharpoonup> ip"
  pr_dnsServer :: string
  pr_MajorNodeGroup :: string
  pr_NodeGroups :: "string \<rightharpoonup> string list"

section \<open>net.ParseCIDR\<close>

text \<open>The network address and the mask; an address written in dotted form has a 4-byte mask.\<close>

definition ParseCIDR :: "string \<Rightarrow> (ip \<times> bytes) option" where
  "ParseCIDR s =
     (case index_of CHR ''/'' s of
        None \<Rightarrow> None
      | Some i \<Rightarrow>
          (let addr = take i s; maskStr = drop (i + 1) s in
           case ParseAddr addr of
             None \<Rightarrow> None
           | Some a \<Rightarrow>
               if maskStr = [] \<or> \<not> list_all is_digit maskStr \<or> 8 * length a < dec_val maskStr then None
               else let m = CIDRMask (dec_val maskStr) (8 * length a) in Some (mask_ip a m, m)))"

section \<open>The translation\<close>

definition parse_port :: "string \<Rightarrow> (int \<times> int) option" where
  "parse_port portStr =
     (if Contains portStr ''-'' then
        (case Split CHR ''-'' portStr of
           [a, b] \<Rightarrow> (case Atoi a of None \<Rightarrow> None
                      | Some lo \<Rightarrow> (case Atoi b of None \<Rightarrow> None | Some hi \<Rightarrow> Some (lo, hi)))
         | _ \<Rightarrow> None)
      else (case Atoi portStr of None \<Rightarrow> None | Some p \<Rightarrow> Some (p, p)))"

definition range_resource :: "ip \<Rightarrow> ip \<Rightarrow> int \<times> int \<Rightarrow> string \<Rightarrow> AppItem \<Rightarrow> IPResource" where
  "range_resource lo hi ports proto app =
     \<lparr> ipr_IPMin = lo, ipr_IPMax = hi, ipr_PortMin = fst ports, ipr_PortMax = snd ports,
       ipr_Protocol = proto, ipr_AppID = app_ID app, ipr_NodeGroupID = app_NodeGroupID app \<rparr>"

text \<open>The host of an entry: an address range to add, a host to skip, or a domain.\<close>

datatype host_class = HostRange ip ip | HostSkip | HostDomain

definition classify_host :: "string \<Rightarrow> host_class" where
  "classify_host host =
     (case ParseIP host of
        Some p \<Rightarrow> if To4 p \<noteq> None then HostRange p p else HostSkip
      | None \<Rightarrow>
          (case ParseCIDR host of
             Some (net, msk) \<Rightarrow>
               (case To4 net of
                  Some ip4 \<Rightarrow> HostRange (v4_prefix @ ip4) (v4_prefix @ map2 (\<lambda>b m. b OR NOT m) ip4 (take 4 msk))
                | None \<Rightarrow> HostSkip)
           | None \<Rightarrow>
               (case Split CHR ''-'' host of
                  [a, b] \<Rightarrow>
                    (case (ParseIP a, ParseIP b) of
                       (Some lo, Some hi) \<Rightarrow> if To4 lo \<noteq> None then HostRange lo hi else HostSkip
                     | _ \<Rightarrow> HostDomain)
                | _ \<Rightarrow> HostDomain)))"

text \<open>The first IPv4 address of the entry's list becomes the static DNS record.\<close>

definition first_ipv4 :: "string list \<Rightarrow> ip option" where
  "first_ipv4 ips = first_some (\<lambda>s. case ParseIP s of Some p \<Rightarrow> if To4 p \<noteq> None then Some p else None | None \<Rightarrow> None) ips"

definition add_address :: "AppItem \<Rightarrow> ParsedResources \<Rightarrow> AddressEntry \<Rightarrow> ParsedResources" where
  "add_address app st addr =
     (if ae_Protocol addr \<notin> {''tcp'', ''udp'', ''all''} then st
      else case parse_port (ae_Port addr) of
        None \<Rightarrow> st
      | Some ports \<Rightarrow>
          (case classify_host (ae_Host addr) of
             HostRange lo hi \<Rightarrow>
               st\<lparr>pr_ipResources := pr_ipResources st @ [range_resource lo hi ports (ae_Protocol addr) app]\<rparr>
           | HostSkip \<Rightarrow> st
           | HostDomain \<Rightarrow>
               (let st1 = st\<lparr>pr_domainResources := (pr_domainResources st)(RemoveAll CHR ''*'' (ae_Host addr) \<mapsto>
                      \<lparr> dom_PortMin = fst ports, dom_PortMax = snd ports, dom_Protocol = ae_Protocol addr,
                        dom_AppID = app_ID app, dom_NodeGroupID = app_NodeGroupID app \<rparr>)\<rparr> in
                case ae_IP addr of
                  None \<Rightarrow> st1
                | Some ips \<Rightarrow>
                    (case first_ipv4 ips of
                       None \<Rightarrow> st1
                     | Some p \<Rightarrow> st1\<lparr>pr_dnsResource := (pr_dnsResource st1)(ae_Host addr \<mapsto> p)\<rparr>))))"

definition node_address :: "string \<Rightarrow> string \<Rightarrow> string" where
  "node_address serverAddress a0 =
     (let a = (if a0 = ''{{sdpcHost}}'' then serverAddress else a0) in
      if Contains a '':'' then a else a @ '':441'')"

definition add_apps :: "ParsedResources \<Rightarrow> AppItem list list \<Rightarrow> ParsedResources" where
  "add_apps st infos = foldl (\<lambda>s app. foldl (add_address app) s (app_AddressList app)) st (concat infos)"

definition parseResource :: "string \<Rightarrow> ParsedResources \<Rightarrow> ClientResource \<Rightarrow> ParsedResources" where
  "parseResource serverAddress st doc =
     (let st0 = st\<lparr>pr_ipResources := [], pr_domainResources := Map.empty, pr_dnsResource := Map.empty\<rparr>;
          st1 = add_apps st0 (cr_AppInfo doc);
          st2 = (if cr_DNSOption_FirstDNS doc \<noteq> [] then st1\<lparr>pr_dnsServer := cr_DNSOption_FirstDNS doc\<rparr>
                 else if cr_DNSOptionV2_FirstDNS doc \<noteq> [] then st1\<lparr>pr_dnsServer := cr_DNSOptionV2_FirstDNS doc\<rparr>
                 else st1)
      in st2\<lparr>pr_MajorNodeGroup := cr_MajorNodeGroup doc,
             pr_NodeGroups := foldl (\<lambda>m g. m(ng_ID g \<mapsto> map (node_address serverAddress) (ng_AddressInfo g)))
               Map.empty (cr_NodeGroupList doc)\<rparr>)"

section \<open>Well-formed resources\<close>

definition ip_resource_ok :: "IPResource \<Rightarrow> bool" where
  "ip_resource_ok r \<longleftrightarrow> length (ipr_IPMin r) = 16 \<and> To4 (ipr_IPMin r) \<noteq> None \<and> length (ipr_IPMax r) = 16
     \<and> ipr_Protocol r \<in> {''tcp'', ''udp'', ''all''}"

definition resources_ok :: "ParsedResources \<Rightarrow> bool" where
  "resources_ok st \<longleftrightarrow> (\<forall>r \<in> set (pr_ipResources st). ip_resource_ok r)
     \<and> (\<forall>p \<in> ran (pr_dnsResource st). length p = 16 \<and> To4 p \<noteq> None)
     \<and> (\<forall>d \<in> dom (pr_domainResources st). CHR ''*'' \<notin> set d)"

lemma ParseIP_16: "ParseIP s = Some p \<Longrightarrow> length p = 16"
  by (cases "ParseAddr s") (auto simp: ParseIP_def To16_def split: if_splits)

lemma ParseAddr_length: "ParseAddr s = Some a \<Longrightarrow> To16 a = None \<or> length a = 4 \<or> length a = 16"
  by (auto simp: To16_def)

lemma To4_16: "To4 p \<noteq> None \<Longrightarrow> length p = 4 \<or> length p = 16"
  by (auto simp: To4_def split: if_splits)

lemma ParseCIDR_lengths: "ParseCIDR s = Some (net, m) \<Longrightarrow> length net = length m"
  by (auto simp: ParseCIDR_def mask_ip_def Let_def split: option.splits if_splits)

lemma classify_range:
  assumes "classify_host h = HostRange lo hi"
  shows "length lo = 16 \<and> To4 lo \<noteq> None \<and> length hi = 16"
proof (cases "ParseIP h")
  case (Some p)
  then show ?thesis using assms ParseIP_16 [OF Some] by (auto simp: classify_host_def split: if_splits)
next
  case None
  show ?thesis
  proof (cases "ParseCIDR h")
    case (Some nm)
    obtain net m where nm: "nm = (net, m)" by (cases nm)
    obtain q where q: "To4 net = Some q" "lo = v4_prefix @ q" "hi = v4_prefix @ map2 (\<lambda>b m. b OR NOT m) q (take 4 m)"
      using assms None Some nm by (auto simp: classify_host_def split: option.splits)
    have "length m = length net" using ParseCIDR_lengths Some nm by simp
    then have "4 \<le> length m" using q(1) To4_16 [of net] by auto
    with q show ?thesis using To4_length [OF q(1)] by simp
  next
    case None': None
    have "\<exists>a b. ParseIP a = Some lo \<and> ParseIP b = Some hi \<and> To4 lo \<noteq> None"
      using assms None None'
      by (auto simp: classify_host_def split: list.splits option.splits if_splits prod.splits)
    then show ?thesis using ParseIP_16 by blast
  qed
qed

lemma first_ipv4_ok: "first_ipv4 ips = Some p \<Longrightarrow> length p = 16 \<and> To4 p \<noteq> None"
  by (auto simp: first_ipv4_def dest!: first_some_SomeD ParseIP_16 split: option.splits if_splits)

lemma add_address_ok:
  assumes "resources_ok st"
  shows "resources_ok (add_address app st addr)"
proof (cases "ae_Protocol addr \<in> {''tcp'', ''udp'', ''all''}")
  case True
  show ?thesis
  proof (cases "parse_port (ae_Port addr)")
    case (Some ports)
    show ?thesis
    proof (cases "classify_host (ae_Host addr)")
      case (HostRange lo hi)
      have "ip_resource_ok (range_resource lo hi ports (ae_Protocol addr) app)"
        using classify_range [OF HostRange] True by (simp add: ip_resource_ok_def range_resource_def)
      then show ?thesis using assms True Some HostRange by (auto simp: add_address_def resources_ok_def)
    next
      case HostSkip
      then show ?thesis using assms True Some by (simp add: add_address_def)
    next
      case HostDomain
      have "CHR ''*'' \<notin> set (RemoveAll CHR ''*'' (ae_Host addr))" by (simp add: RemoveAll_def)
      then show ?thesis using assms True Some HostDomain first_ipv4_ok
        by (auto simp: add_address_def resources_ok_def Let_def ran_def split: option.splits)
    qed
  qed (use assms in \<open>simp add: add_address_def\<close>)
qed (use assms in \<open>simp add: add_address_def\<close>)

lemma add_apps_ok: "resources_ok st \<Longrightarrow> resources_ok (add_apps st infos)"
  unfolding add_apps_def
  by (erule foldl_inv [where P = resources_ok]) (erule foldl_inv [where P = resources_ok], rule add_address_ok)

section \<open>Theorems\<close>

text \<open>C15. Whatever document a gateway publishes, the resources taken from it are well formed: every
  address range has 16-byte ends with an IPv4 lower end and one of the three known protocols, every
  static DNS record is an IPv4 address in 16-byte form, no domain pattern keeps a star, and every
  node address has a port separator.\<close>

theorem parseResource_ok:
  "resources_ok (parseResource server st doc)
   \<and> (\<forall>addrs \<in> ran (pr_NodeGroups (parseResource server st doc)). \<forall>a \<in> set addrs. Contains a '':'')"
proof
  show "resources_ok (parseResource server st doc)"
    using add_apps_ok [of "st\<lparr>pr_ipResources := [], pr_domainResources := Map.empty, pr_dnsResource := Map.empty\<rparr>"]
    by (simp add: parseResource_def Let_def resources_ok_def)
  have na: "Contains (node_address server a) '':''" for a
    using Contains_append [of "_" "'':''" "''441''"] by (auto simp: node_address_def Let_def)
  define P where "P = (\<lambda>m :: string \<rightharpoonup> string list. \<forall>addrs \<in> ran m. \<forall>a \<in> set addrs. Contains a '':'')"
  have "P (foldl (\<lambda>m g. m(ng_ID g \<mapsto> map (node_address server) (ng_AddressInfo g))) Map.empty (cr_NodeGroupList doc))"
    by (rule foldl_inv [where P = P]) (auto simp: P_def ran_def na)
  then show "\<forall>addrs \<in> ran (pr_NodeGroups (parseResource server st doc)). \<forall>a \<in> set addrs. Contains a '':''"
    by (simp add: parseResource_def Let_def P_def)
qed

definition demo_doc :: ClientResource where
  "demo_doc = \<lparr> cr_AppInfo = [[\<lparr> app_ID = ''a'', app_NodeGroupID = ''g'', app_AddressList =
       [\<lparr> ae_Protocol = ''tcp'', ae_Port = ''80-443'', ae_Host = ''*.zju.edu.cn'', ae_IP = Some [''10.0.0.9''] \<rparr>] \<rparr>]],
     cr_MajorNodeGroup = ''g'', cr_NodeGroupList = [\<lparr> ng_AddressInfo = [''{{sdpcHost}}''], ng_ID = ''g'' \<rparr>],
     cr_DNSOption_FirstDNS = [], cr_DNSOptionV2_FirstDNS = ''10.10.0.21'' \<rparr>"

definition no_resources :: ParsedResources where
  "no_resources = \<lparr> pr_ipResources = [], pr_domainResources = Map.empty, pr_dnsResource = Map.empty,
     pr_dnsServer = [], pr_MajorNodeGroup = [], pr_NodeGroups = Map.empty \<rparr>"

theorem parseResource_ok_witness:
  "pr_NodeGroups (parseResource ''vpn'' no_resources demo_doc) ''g'' = Some [''vpn:441'']
   \<and> Contains ''vpn:441'' '':''"
proof -
  have g: "pr_NodeGroups (parseResource ''vpn'' no_resources demo_doc) ''g'' = Some [''vpn:441'']"
    by (simp add: parseResource_def demo_doc_def node_address_def HasPrefix_def Let_def)
  then have "[''vpn:441''] \<in> ran (pr_NodeGroups (parseResource ''vpn'' no_resources demo_doc))" by (rule ranI)
  with parseResource_ok [of "''vpn''" no_resources demo_doc] have "Contains ''vpn:441'' '':''"
    by (simp del: Contains.simps)
  with g show ?thesis ..
qed

end
