(* ===== verification/L3Tunnel.thy ===== *)
theory L3Tunnel
  imports Conntrack Resources
begin

text \<open>
  The layer-3 tunnel of a session: the connection to one gateway node (\<^verbatim>\<open>l3tunnelconn.go\<close>: close,
  failure, heartbeats, the dispatch of frames), the routing of IPv4 packets to resources
  (\<^verbatim>\<open>l3tunnelpacket.go\<close>), and the table of node connections (\<^verbatim>\<open>l3tunnel.go\<close>).
\<close>

section \<open>One node connection\<close>

record l3TunnelConn =
  lc_incoming :: "bytes list"
  lc_closed :: bool
  lc_terminalErr :: "gerror option"
  lc_lastHeartbeat :: int
  lc_mgr :: conntrackMgr
  lc_vips :: "ip list"
  lc_health :: "gerror list"

definition incoming_cap :: nat where "incoming_cap = 128"

definition lc_Close :: "l3TunnelConn \<Rightarrow> l3TunnelConn" where
  "lc_Close c = c\<lparr>lc_closed := True\<rparr>"

definition lc_fail :: "gerror option \<Rightarrow> l3TunnelConn \<Rightarrow> l3TunnelConn" where
  "lc_fail err c = lc_Close (if err \<noteq> None \<and> lc_terminalErr c = None then c\<lparr>lc_terminalErr := err\<rparr> else c)"

definition heartbeatExpired :: "int \<Rightarrow> l3TunnelConn \<Rightarrow> bool" where
  "heartbeatExpired now c = (now - lc_lastHeartbeat c \<ge> heartbeatTimeout)"

definition watch_tick :: "int \<Rightarrow> l3TunnelConn \<Rightarrow> l3TunnelConn" where
  "watch_tick now c =
     (if lc_closed c then c
      else if heartbeatExpired now c then lc_fail (Some (Sentinel ErrL3HeartbeatTimeout)) c else c)"

text \<open>A send on \<^verbatim>\<open>incoming\<close> or on a closed connection; None while it blocks.\<close>

definition deliver :: "bytes \<Rightarrow> l3TunnelConn \<Rightarrow> (bool \<times> l3TunnelConn) option" where
  "deliver pkt c =
     (if length (lc_incoming c) < incoming_cap then Some (True, c\<lparr>lc_incoming := lc_incoming c @ [pkt]\<rparr>)
      else if lc_closed c then Some (False, c) else None)"

fun deliver_all :: "bytes list \<Rightarrow> l3TunnelConn \<Rightarrow> (bool \<times> l3TunnelConn) option" where
  "deliver_all [] c = Some (True, c)"
| "deliver_all (p # ps) c =
     (case deliver p c of None \<Rightarrow> None | Some (True, c') \<Rightarrow> deliver_all ps c' | Some (False, c') \<Rightarrow> Some (False, c'))"

text \<open>One frame of the read loop; the flag says whether the loop goes on. The JSON decoders are
  parameters.\<close>

definition handleFrame ::
  "(bytes \<Rightarrow> authResponseIP result) \<Rightarrow> (bytes \<Rightarrow> json option) \<Rightarrow> int \<Rightarrow> frame \<Rightarrow> l3TunnelConn \<Rightarrow>
   (bool \<times> l3TunnelConn) option" where
  "handleFrame decodeAuth decodeJSON now fr c =
     (if fr_cmd fr = cmdDataResp then
        (if fr_dataMode fr = ''len'' then map_option (\<lambda>(_, c'). (True, c')) (deliver (fr_payload fr) c)
         else case parseDataPayload (fr_payload fr) of
             Inl _ \<Rightarrow> Some (True, c)
           | Inr packets \<Rightarrow> deliver_all packets c)
      else if fr_cmd fr = cmdAuthResp then
        map_option (\<lambda>(m, h). (True, c\<lparr>lc_mgr := m, lc_health := lc_health c @ (case h of None \<Rightarrow> [] | Some e \<Rightarrow> [e])\<rparr>))
          (handleAuthResp (fr_status fr) (decodeAuth (fr_payload fr)) (lc_mgr c))
      else if fr_cmd fr = cmdSecondVipResp then
        (if fr_status fr \<noteq> 0 then Some (True, c)
         else let ips = extractVIPs (decodeJSON (fr_payload fr)) in
           Some (True, if ips = [] then c else c\<lparr>lc_vips := ips\<rparr>))
      else if fr_cmd fr = cmdHeartbeatResp then Some (True, c\<lparr>lc_lastHeartbeat := now\<rparr>)
      else Some (True, c))"

text \<open>The read loop over the bytes of a peer that then closes: it ends because every frame takes
  bytes away. None is a send that blocks (nobody reads the packets).\<close>

function readLoop ::
  "(bytes \<Rightarrow> authResponseIP result) \<Rightarrow> (bytes \<Rightarrow> json option) \<Rightarrow> int \<Rightarrow> bytes \<Rightarrow> l3TunnelConn \<Rightarrow> l3TunnelConn option" where
  "readLoop decodeAuth decodeJSON now r c =
     (case readFrame r of
        Inl e \<Rightarrow> Some (lc_fail (Some e) c)
      | Inr (fr, r') \<Rightarrow>
          (case handleFrame decodeAuth decodeJSON now fr c of
             None \<Rightarrow> None
           | Some (go, c') \<Rightarrow> if go then readLoop decodeAuth decodeJSON now r' c' else Some c'))"
  by pat_completeness auto

termination
proof (relation "measure (\<lambda>(_, _, _, r, _). length r)", goal_cases)
  case 1
  show ?case by simp
next
  case (2 da dj now r c x fr r' y go c')
  then show ?case using readFrame_suffix [of r fr r'] by auto
qed

declare readLoop.simps [simp del]

definition ReadPacket :: "l3TunnelConn \<Rightarrow> (bytes result \<times> l3TunnelConn) option" where
  "ReadPacket c =
     (case lc_incoming c of
        pkt # rest \<Rightarrow> Some (Inr pkt, c\<lparr>lc_incoming := rest\<rparr>)
      | [] \<Rightarrow> if lc_closed c then Some (Inl (case lc_terminalErr c of Some e \<Rightarrow> e | None \<Rightarrow> Sentinel IoEOF), c) else None)"

section \<open>Packets and resources\<close>

definition v4_packet_meta :: "bytes \<Rightarrow> u8 \<Rightarrow> nat \<Rightarrow> nat \<Rightarrow> packetMeta result option" where
  "v4_packet_meta packet proto sp dp = do {
     src \<leftarrow> SourceIP packet;
     dst \<leftarrow> DestinationIP packet;
     Some (Inr \<lparr> pm_atype = 4, pm_proto = int (unat proto), pm_srcIP = src, pm_dstIP = dst,
                 pm_srcPort = sp, pm_dstPort = dp, pm_key = [] \<rparr>) }"

definition buildPacketMeta :: "bytes \<Rightarrow> packetMeta result option" where
  "buildPacketMeta packet = do {
     proto \<leftarrow> Protocol packet;
     if proto = ICMP then v4_packet_meta packet proto 0 0
     else if proto = TCP then do {
       q \<leftarrow> Payload packet; sp \<leftarrow> TCP_SourcePort q; dp \<leftarrow> TCP_DestinationPort q; v4_packet_meta packet proto sp dp }
     else if proto = UDP then do {
       q \<leftarrow> Payload packet; sp \<leftarrow> UDP_SourcePort q; dp \<leftarrow> UDP_DestinationPort q; v4_packet_meta packet proto sp dp }
     else Some (Inl (Opaque (''unsupported protocol '' @ show_nat (unat proto)))) }"

text \<open>What \<^verbatim>\<open>processIPV4\<close> reads from a packet before it looks for a resource: the protocol's name
  and the destination port, -1 for ICMP.\<close>

definition classify_packet :: "bytes \<Rightarrow> (string \<times> int) result option" where
  "classify_packet packet = do {
     ok \<leftarrow> IPv4_Valid packet;
     if \<not> ok then Some (Inl (Opaque (''invalid IPv4 packet length '' @ show_nat (length packet))))
     else do {
       proto \<leftarrow> Protocol packet;
       if proto = TCP then do {
         q \<leftarrow> Payload packet;
         if \<not> TCP_Valid q then Some (Inl (Opaque (''invalid TCP packet length '' @ show_nat (length q))))
         else do { p \<leftarrow> TCP_DestinationPort q; Some (Inr (''tcp'', int p)) } }
       else if proto = UDP then do {
         q \<leftarrow> Payload packet;
         v \<leftarrow> UDP_Valid q;
         if \<not> v then Some (Inl (Opaque (''invalid UDP packet length '' @ show_nat (length q))))
         else do { p \<leftarrow> UDP_DestinationPort q; Some (Inr (''udp'', int p)) } }
       else if proto = ICMP then Some (Inr (''icmp'', -1))
       else Some (Inl (Wrap (''protocol '' @ show_nat (unat proto) @ '': '' @ sentinel_string ErrResourceNotFound)
                   (Sentinel ErrResourceNotFound))) } }"

definition resource_matches :: "ip \<Rightarrow> string \<Rightarrow> int \<Rightarrow> IPResource \<Rightarrow> bool" where
  "resource_matches dst protocol port r \<longleftrightarrow>
     Compare dst (ipr_IPMin r) \<ge> 0 \<and> Compare dst (ipr_IPMax r) \<le> 0
     \<and> (ipr_Protocol r = protocol \<or> ipr_Protocol r = ''all'')
     \<and> (protocol = ''icmp'' \<or> (ipr_PortMin r \<le> port \<and> port \<le> ipr_PortMax r))"

text \<open>The resource a packet is sent for, or why it is refused.\<close>

definition routeIPV4 :: "IPResource list \<Rightarrow> bytes \<Rightarrow> (string \<times> string) result option" where
  "routeIPV4 ipResources packet = do {
     cls \<leftarrow> classify_packet packet;
     case cls of
       Inl e \<Rightarrow> Some (Inl e)
     | Inr (protocol, port) \<Rightarrow> do {
         dst \<leftarrow> DestinationIP packet;
         case find (resource_matches dst protocol port) ipResources of
           Some r \<Rightarrow> Some (Inr (ipr_AppID r, ipr_NodeGroupID r))
         | None \<Rightarrow> Some (Inl (Wrap
             ((if port \<noteq> -1 then IP_String dst @ '':'' @ show_int port @ '', ['' @ protocol @ '']: ''
               else IP_String dst @ '', ['' @ protocol @ '']: '') @ sentinel_string ErrResourceNotFound)
             (Sentinel ErrResourceNotFound))) } }"

section \<open>The table of node connections\<close>

text \<open>
  Node connections are pointers: numbers in the order they are made. \<open>lt_shut\<close> is the set of those
  whose \<^verbatim>\<open>Close\<close> was called, \<open>lt_cause\<close> the cause the tunnel's context was cancelled with.
\<close>

record L3Tunnel =
  lt_conns :: "string \<rightharpoonup> nat"
  lt_shut :: "nat set"
  lt_made :: nat
  lt_cause :: "gerror option"
  lt_bestNodes :: "string \<rightharpoonup> string"
  lt_majorNodeGroup :: string

definition best_node :: "L3Tunnel \<Rightarrow> string \<Rightarrow> string" where
  "best_node t grp =
     (let addr = (case lt_bestNodes t grp of None \<Rightarrow> [] | Some a \<Rightarrow> a) in
      if addr = [] then (case lt_bestNodes t (lt_majorNodeGroup t) of None \<Rightarrow> [] | Some a \<Rightarrow> a) else addr)"

definition evictConn :: "string \<Rightarrow> nat \<Rightarrow> L3Tunnel \<Rightarrow> bool \<times> L3Tunnel" where
  "evictConn grp c t =
     (if lt_conns t grp = Some c then (True, t\<lparr>lt_conns := (lt_conns t)(grp := None)\<rparr>) else (False, t))"

definition evict_close :: "string \<Rightarrow> nat \<Rightarrow> L3Tunnel \<Rightarrow> L3Tunnel" where
  "evict_close grp c t =
     (case evictConn grp c t of (True, t') \<Rightarrow> t'\<lparr>lt_shut := insert c (lt_shut t')\<rparr> | (False, t') \<Rightarrow> t')"

text \<open>\<^verbatim>\<open>terminate\<close>; the flag of its \<^verbatim>\<open>sync.Once\<close> is that a cause is set.\<close>

definition terminate :: "gerror option \<Rightarrow> L3Tunnel \<Rightarrow> L3Tunnel" where
  "terminate err t =
     (if lt_cause t \<noteq> None then t
      else t\<lparr>lt_cause := Some (case err of None \<Rightarrow> Sentinel IoEOF | Some e \<Rightarrow> e),
             lt_shut := lt_shut t \<union> ran (lt_conns t), lt_conns := Map.empty\<rparr>)"

text \<open>What other goroutines do to the tunnel: a forwarder or a writer drops a connection (which is
  closed then), the tunnel ends, or another call connects to a node.\<close>

datatype lt_op = OpEvict string nat | OpTerminate "gerror option" | OpConnect string

definition lt_step :: "L3Tunnel \<Rightarrow> lt_op \<Rightarrow> L3Tunnel" where
  "lt_step t x = (case x of
      OpEvict grp c \<Rightarrow> evict_close grp c t
    | OpTerminate err \<Rightarrow> terminate err t
    | OpConnect grp \<Rightarrow>
        (let c = lt_made t in
         if lt_cause t = None \<and> lt_conns t grp = None
         then t\<lparr>lt_made := Suc c, lt_conns := (lt_conns t)(grp \<mapsto> c)\<rparr>
         else t\<lparr>lt_made := Suc c, lt_shut := insert c (lt_shut t)\<rparr>))"

text \<open>
  \<^verbatim>\<open>getConn\<close> dials without the lock. \<open>dial\<close> is the error of \<^verbatim>\<open>newL3TunnelConn\<close>, if any, and
  \<open>meanwhile\<close> what other goroutines do to the tunnel while it dials.
\<close>

definition getConn :: "gerror option \<Rightarrow> lt_op list \<Rightarrow> string \<Rightarrow> L3Tunnel \<Rightarrow> nat result \<times> L3Tunnel" where
  "getConn dial meanwhile grp t =
     (case lt_cause t of
        Some e \<Rightarrow> (Inl e, t)
      | None \<Rightarrow>
          (case lt_conns t grp of
             Some c \<Rightarrow> (Inr c, t)
           | None \<Rightarrow>
               if best_node t grp = [] then (Inl (Opaque (''no available node for group '' @ grp)), t)
               else (case dial of
                   Some e \<Rightarrow> (Inl e, foldl lt_step t meanwhile)
                 | None \<Rightarrow>
                     (let c = lt_made t; t1 = foldl lt_step (t\<lparr>lt_made := Suc c\<rparr>) meanwhile in
                      case lt_cause t1 of
                        Some e \<Rightarrow> (Inl e, t1\<lparr>lt_shut := insert c (lt_shut t1)\<rparr>)
                      | None \<Rightarrow>
                          (case lt_conns t1 grp of
                             Some other \<Rightarrow> (Inr other, t1\<lparr>lt_shut := insert c (lt_shut t1)\<rparr>)
                           | None \<Rightarrow> (Inr c, t1\<lparr>lt_conns := (lt_conns t1)(grp \<mapsto> c)\<rparr>))))))"

text \<open>
  \<^verbatim>\<open>writePacket\<close>: \<open>dial\<close> and \<open>meanwhile\<close> for its first and second \<^verbatim>\<open>getConn\<close>, and \<open>write\<close> the error of
  \<^verbatim>\<open>WritePacket\<close> on the given connection, for the first and the second attempt. The list is the
  connections a write was tried on.
\<close>

record l3_env =
  le_dial :: "gerror option"
  le_meanwhile :: "lt_op list"
  le_write :: "nat \<Rightarrow> gerror option"

definition isAuthTimeoutErr :: "gerror option \<Rightarrow> bool" where
  "isAuthTimeoutErr err = (case err of None \<Rightarrow> False | Some e \<Rightarrow> errors_Is e ErrL3TunnelAuthTimeout)"

definition finish_write :: "string \<Rightarrow> nat \<Rightarrow> gerror option \<Rightarrow> L3Tunnel \<Rightarrow> gerror option \<times> L3Tunnel" where
  "finish_write grp c err t = (if isAuthTimeoutErr err then (None, evict_close grp c t) else (err, t))"

definition tunnel_write :: "l3_env \<Rightarrow> l3_env \<Rightarrow> string \<Rightarrow> L3Tunnel \<Rightarrow> (gerror option \<times> L3Tunnel) \<times> nat list" where
  "tunnel_write e1 e2 grp t =
     (case getConn (le_dial e1) (le_meanwhile e1) grp t of
        (Inl e, t1) \<Rightarrow> ((Some e, t1), [])
      | (Inr c, t1) \<Rightarrow>
          (let err = le_write e1 c in
           if isAuthTimeoutErr err then
             (case getConn (le_dial e2) (le_meanwhile e2) grp (evict_close grp c t1) of
                (Inl e, t2) \<Rightarrow> ((Some e, t2), [c])
              | (Inr c2, t2) \<Rightarrow> (finish_write grp c2 (le_write e2 c2) t2, [c, c2]))
           else (finish_write grp c err t1, [c])))"

definition writePacket ::
  "l3_env \<Rightarrow> l3_env \<Rightarrow> bytes \<Rightarrow> string \<Rightarrow> L3Tunnel \<Rightarrow> ((gerror option \<times> L3Tunnel) \<times> nat list) option" where
  "writePacket e1 e2 packet grp t = do {
     meta \<leftarrow> buildPacketMeta packet;
     case meta of Inl e \<Rightarrow> Some ((Some e, t), []) | Inr _ \<Rightarrow> Some (tunnel_write e1 e2 grp t) }"

definition processIPV4 ::
  "IPResource list \<Rightarrow> l3_env \<Rightarrow> l3_env \<Rightarrow> bytes \<Rightarrow> L3Tunnel \<Rightarrow> ((gerror option \<times> L3Tunnel) \<times> nat list) option" where
  "processIPV4 ipResources e1 e2 packet t = do {
     route \<leftarrow> routeIPV4 ipResources packet;
     case route of Inl e \<Rightarrow> Some ((Some e, t), []) | Inr (appID, grp) \<Rightarrow> writePacket e1 e2 packet grp t }"

section \<open>No connection is leaked\<close>

text \<open>Every connection ever made is in the table or was closed, and after the tunnel ended none
  is in the table.\<close>

definition lt_inv :: "L3Tunnel \<Rightarrow> bool" where
  "lt_inv t \<longleftrightarrow> (\<forall>c < lt_made t. c \<in> ran (lt_conns t) \<or> c \<in> lt_shut t)
     \<and> (\<forall>c \<in> ran (lt_conns t). c < lt_made t)
     \<and> (lt_cause t \<noteq> None \<longrightarrow> lt_conns t = Map.empty)"

text \<open>The same while a call holds a connection of its own that is not in the table yet.\<close>

definition lt_inv_except :: "nat \<Rightarrow> L3Tunnel \<Rightarrow> bool" where
  "lt_inv_except own t \<longleftrightarrow> (\<forall>c < lt_made t. c = own \<or> c \<in> ran (lt_conns t) \<or> c \<in> lt_shut t)
     \<and> (\<forall>c \<in> ran (lt_conns t). c < lt_made t) \<and> own < lt_made t
     \<and> (lt_cause t \<noteq> None \<longrightarrow> lt_conns t = Map.empty)"

lemma ran_upd_None: "ran (m(k := None)) \<subseteq> ran m" "m k = Some v \<Longrightarrow> ran m \<subseteq> insert v (ran (m(k := None)))"
  by (auto simp: ran_def) (metis option.inject)

lemma ran_upd_new: "m k = None \<Longrightarrow> ran (m(k \<mapsto> v)) = insert v (ran m)"
  by simp

lemma evict_close_inv:
  "lt_inv t \<Longrightarrow> lt_inv (evict_close grp c t)"
  "lt_inv_except own t \<Longrightarrow> lt_inv_except own (evict_close grp c t)"
proof -
  have sub: "ran ((lt_conns t)(grp := None)) \<subseteq> ran (lt_conns t)" by (rule ran_upd_None)
  have sup: "ran (lt_conns t) \<subseteq> insert c (ran ((lt_conns t)(grp := None)))" if "lt_conns t grp = Some c"
    using that by (rule ran_upd_None)
  show "lt_inv t \<Longrightarrow> lt_inv (evict_close grp c t)"
    using sub sup by (auto simp: evict_close_def evictConn_def lt_inv_def)
  show "lt_inv_except own t \<Longrightarrow> lt_inv_except own (evict_close grp c t)"
    using sub sup by (auto simp: evict_close_def evictConn_def lt_inv_except_def)
qed

lemma terminate_inv:
  "lt_inv t \<Longrightarrow> lt_inv (terminate err t)" "lt_inv_except own t \<Longrightarrow> lt_inv_except own (terminate err t)"
  by (auto simp: terminate_def lt_inv_def lt_inv_except_def)

lemma lt_step_inv:
  "lt_inv t \<Longrightarrow> lt_inv (lt_step t x)" "lt_inv_except own t \<Longrightarrow> lt_inv_except own (lt_step t x)"
  using evict_close_inv terminate_inv
  by (auto simp: lt_step_def Let_def lt_inv_def lt_inv_except_def less_Suc_eq split: lt_op.splits)

interpretation lt: step_system "\<lambda>t. t = lt0 \<and> lt_inv lt0" lt_step lt_inv
  by unfold_locales (auto intro: lt_step_inv)

interpretation lt_own: step_system "\<lambda>t. False" lt_step "lt_inv_except own"
  by unfold_locales (auto intro: lt_step_inv)

lemma getConn_inv:
  assumes "lt_inv t"
  shows "lt_inv (snd (getConn dial f grp t))"
proof -
  let ?c = "lt_made t"
  have e: "lt_inv_except ?c (t\<lparr>lt_made := Suc ?c\<rparr>)"
    using assms(1) by (auto simp: lt_inv_def lt_inv_except_def less_Suc_eq)
  define t1 where "t1 = foldl lt_step (t\<lparr>lt_made := Suc ?c\<rparr>) f"
  have t1: "lt_inv_except ?c t1" unfolding t1_def using e by (rule lt_own.run_keeps)
  have shut: "lt_inv (t1\<lparr>lt_shut := insert ?c (lt_shut t1)\<rparr>)"
    using t1 by (auto simp: lt_inv_def lt_inv_except_def)
  have add: "lt_inv (t1\<lparr>lt_conns := (lt_conns t1)(grp \<mapsto> ?c)\<rparr>)" if "lt_conns t1 grp = None" "lt_cause t1 = None"
    using t1 that by (auto simp: lt_inv_def lt_inv_except_def)
  have ft: "lt_inv (foldl lt_step t f)" using assms by (rule lt.run_keeps)
  show ?thesis
    using assms(1) ft shut add
    by (auto simp: getConn_def Let_def t1_def [symmetric] split: option.splits)
qed

lemma tunnel_write_inv:
  assumes "lt_inv t"
  shows "lt_inv (snd (fst (tunnel_write e1 e2 grp t)))"
proof -
  obtain x t1 where g: "getConn (le_dial e1) (le_meanwhile e1) grp t = (x, t1)" by fastforce
  have t1: "lt_inv t1" using getConn_inv [OF assms(1), of "le_dial e1" "le_meanwhile e1" grp] g by simp
  have fin: "lt_inv (snd (finish_write grp c err s))" if "lt_inv s" for c err s
    using that evict_close_inv by (simp add: finish_write_def)
  have "lt_inv s" if "getConn (le_dial e2) (le_meanwhile e2) grp (evict_close grp c t1) = (y, s)" for c y s
    using getConn_inv [OF evict_close_inv(1) [OF t1], of "le_dial e2" "le_meanwhile e2" grp grp c] that by simp
  then show ?thesis using t1 fin g
    by (auto simp: tunnel_write_def Let_def split: sum.splits prod.splits)
qed

lemma processIPV4_inv:
  assumes "lt_inv t" "processIPV4 rs e1 e2 packet t = Some ((err, t'), tried)"
  shows "lt_inv t' \<and> length tried \<le> 2"
proof -
  have "lt_inv (snd (fst (tunnel_write e1 e2 grp t))) \<and> length (snd (tunnel_write e1 e2 grp t)) \<le> 2" for grp
    using tunnel_write_inv [OF assms(1), of e1 e2 grp]
    by (auto simp: tunnel_write_def Let_def split: sum.splits prod.splits)
  then have "lt_inv t' \<and> length tried \<le> 2" if "tunnel_write e1 e2 grp t = ((err, t'), tried)" for grp
    by (metis fst_conv snd_conv that)
  note tw = this
  have wp: "lt_inv t' \<and> length tried \<le> 2" if "writePacket e1 e2 packet grp t = Some ((err, t'), tried)" for grp
  proof (cases "buildPacketMeta packet")
    case (Some meta)
    then show ?thesis using that tw assms(1) by (cases meta) (auto simp: writePacket_def)
  qed (use that in \<open>simp add: writePacket_def\<close>)
  show ?thesis
  proof (cases "routeIPV4 rs packet")
    case (Some route)
    then show ?thesis using assms wp by (cases route) (auto simp: processIPV4_def)
  qed (use assms(2) in \<open>simp add: processIPV4_def\<close>)
qed

section \<open>No packet makes the tunnel panic\<close>

lemma Some_False_True: "x \<noteq> None \<Longrightarrow> x \<noteq> Some True \<Longrightarrow> x = Some False"
  by (cases x) auto

text \<open>What a successful classification says of the packet.\<close>

lemma classify_total:
  "\<exists>c. classify_packet p = Some c \<and> (\<forall>protocol port. c = Inr (protocol, port) \<longrightarrow>
     IPv4_Valid p = Some True
     \<and> (\<exists>proto. Protocol p = Some proto \<and>
          (proto = TCP \<and> protocol = ''tcp'' \<and> (\<exists>q. Payload p = Some q \<and> 4 \<le> length q)
         \<or> proto = UDP \<and> protocol = ''udp'' \<and> (\<exists>q. Payload p = Some q \<and> 4 \<le> length q)
         \<or> proto = ICMP \<and> protocol = ''icmp'')))"
proof (cases "IPv4_Valid p = Some True")
  case False
  then have "IPv4_Valid p = Some False" by (simp add: IPv4_Valid_in)
  then show ?thesis by (simp add: classify_packet_def)
next
  case True
  obtain q where q: "Payload p = Some q" using Payload_Valid [OF True] by blast
  have pr: "Protocol p = Some (p ! 9)" using Valid_accessors(1) [OF True] .
  have ne: "TCP \<noteq> UDP" "TCP \<noteq> ICMP" "UDP \<noteq> ICMP" by (simp_all add: TCP_def UDP_def ICMP_def)
  obtain u where u: "UDP_Valid q = Some u" "u \<Longrightarrow> 8 \<le> length q" by (simp add: UDP_Valid_in)
  have d: "4 \<le> length q \<Longrightarrow> \<exists>d. TCP_DestinationPort q = Some d \<and> UDP_DestinationPort q = Some d"
    by (simp add: TCP_ports_in)
  consider "p ! 9 = TCP" | "p ! 9 = UDP" | "p ! 9 = ICMP" | "p ! 9 \<noteq> TCP" "p ! 9 \<noteq> UDP" "p ! 9 \<noteq> ICMP" by blast
  then show ?thesis
  proof cases
    case 1
    show ?thesis
    proof (cases "TCP_Valid q")
      case T: True
      then have "4 \<le> length q" by (simp add: TCP_Valid_def TCPHeaderSize_def)
      with d T show ?thesis using 1 True q pr by (auto simp: classify_packet_def)
    qed (use 1 True q pr in \<open>auto simp: classify_packet_def\<close>)
  next
    case 2
    show ?thesis
    proof (cases u)
      case T: True
      then have "4 \<le> length q" using u by simp
      with d T show ?thesis using 2 True q pr u ne by (auto simp: classify_packet_def)
    qed (use 2 True q pr u ne in \<open>auto simp: classify_packet_def\<close>)
  next
    case 3
    then show ?thesis using True pr ne by (auto simp: classify_packet_def)
  next
    case 4
    then show ?thesis using True pr by (auto simp: classify_packet_def)
  qed
qed

lemma buildPacketMeta_total:
  assumes "classify_packet p = Some (Inr (protocol, port))"
  shows "\<exists>m. buildPacketMeta p = Some (Inr m) \<and> v4_meta m"
proof -
  have v: "IPv4_Valid p = Some True" using classify_total [of p] assms by auto
  obtain proto where proto: "Protocol p = Some proto"
    "proto = ICMP \<or> (proto = TCP \<or> proto = UDP) \<and> (\<exists>q. Payload p = Some q \<and> 4 \<le> length q)"
    using classify_total [of p] assms by auto
  have m: "\<exists>m. v4_packet_meta p proto sp dp = Some (Inr m) \<and> v4_meta m" for sp dp
    by (simp add: v4_packet_meta_def Valid_accessors [OF v] v4_meta_def IPv4_def)
  show ?thesis
  proof (cases "proto = ICMP")
    case True
    then show ?thesis using proto(1) m [of 0 0] by (simp add: buildPacketMeta_def)
  next
    case False
    then obtain q where q: "Payload p = Some q" "4 \<le> length q" and tu: "proto = TCP \<or> proto = UDP" using proto(2) by blast
    show ?thesis using False tu proto(1) q(1) m by (auto simp: buildPacketMeta_def TCP_ports_in [OF q(2)])
  qed
qed

lemma routeIPV4_total:
  "\<exists>x. routeIPV4 rs p = Some x \<and> (\<forall>y. x = Inr y \<longrightarrow> (\<exists>pr po. classify_packet p = Some (Inr (pr, po))))"
proof -
  obtain c where c: "classify_packet p = Some c" using classify_total [of p] by blast
  show ?thesis
  proof (cases c)
    case (Inr pp)
    then have "IPv4_Valid p = Some True" using classify_total [of p] c by (cases pp) auto
    then show ?thesis using c Inr Valid_accessors(3) [of p]
      by (cases pp) (auto simp: routeIPV4_def split: option.split)
  qed (use c in \<open>simp add: routeIPV4_def\<close>)
qed

lemma processIPV4_total: "processIPV4 rs e1 e2 p t \<noteq> None"
proof -
  obtain x where x: "routeIPV4 rs p = Some x" "\<forall>y. x = Inr y \<longrightarrow> (\<exists>pr po. classify_packet p = Some (Inr (pr, po)))"
    using routeIPV4_total by blast
  show ?thesis
  proof (cases x)
    case (Inr y)
    then obtain m where "buildPacketMeta p = Some (Inr m)" using x(2) buildPacketMeta_total by blast
    with x Inr show ?thesis by (cases y) (simp add: processIPV4_def writePacket_def)
  qed (use x in \<open>simp add: processIPV4_def\<close>)
qed

section \<open>Routing by numeric ranges\<close>

text \<open>The specification of a match: the destination as a number lies in the resource's range, the
  protocol is the resource's or the resource is for all, and so is the port, for ICMP any.\<close>

definition covers :: "ip \<Rightarrow> string \<Rightarrow> int \<Rightarrow> IPResource \<Rightarrow> bool" where
  "covers dst4 protocol port r \<longleftrightarrow>
     ip4_val (drop 12 (ipr_IPMin r)) \<le> ip4_val dst4 \<and> ip4_val dst4 \<le> ip4_val (drop 12 (ipr_IPMax r))
     \<and> ipr_Protocol r \<in> {protocol, ''all''} \<and> (protocol \<noteq> ''icmp'' \<longrightarrow> port \<in> {ipr_PortMin r..ipr_PortMax r})"

definition v4_range :: "IPResource \<Rightarrow> bool" where
  "v4_range r \<longleftrightarrow> length (ipr_IPMin r) = 16 \<and> take 12 (ipr_IPMin r) = v4_prefix
     \<and> length (ipr_IPMax r) = 16 \<and> take 12 (ipr_IPMax r) = v4_prefix"

lemma matches_covers:
  assumes "v4_range r" "length q = 4"
  shows "resource_matches (v4_prefix @ q) protocol port r \<longleftrightarrow> covers q protocol port r"
proof -
  obtain lo hi where lo: "ipr_IPMin r = v4_prefix @ lo" "length lo = 4" and hi: "ipr_IPMax r = v4_prefix @ hi" "length hi = 4"
    using assms(1) v4_split unfolding v4_range_def by metis
  show ?thesis
    using Compare_ip4 [OF assms(2) lo(2)] Compare_ip4 [OF assms(2) hi(2)]
    by (auto simp: resource_matches_def covers_def lo hi)
qed

section \<open>Theorems\<close>

text \<open>C4. No packet the network stack hands to the tunnel makes it panic: for any bytes, any resources
  and any behaviour of the node connections, processing ends with a result; it tries to write on at
  most two connections; and it keeps the accounting of connections: each one ever made is in the
  table or closed, and a terminated tunnel has none in the table.\<close>

theorem processIPV4_safe:
  assumes "lt_inv t"
  shows "\<exists>err t' tried. processIPV4 rs e1 e2 packet t = Some ((err, t'), tried) \<and> lt_inv t' \<and> length tried \<le> 2"
proof -
  obtain x where "processIPV4 rs e1 e2 packet t = Some x" using processIPV4_total by blast
  moreover obtain err t' tried where "x = ((err, t'), tried)" by (metis prod.exhaust)
  ultimately show ?thesis using processIPV4_inv [OF assms] by blast
qed

definition demo_tunnel :: L3Tunnel where
  "demo_tunnel = \<lparr> lt_conns = Map.empty, lt_shut = {}, lt_made = 0, lt_cause = None,
     lt_bestNodes = [''g'' \<mapsto> ''vpn:441''], lt_majorNodeGroup = ''g'' \<rparr>"

definition timeouts_env :: l3_env where
  "timeouts_env = \<lparr> le_dial = None, le_meanwhile = [OpConnect ''g''],
     le_write = (\<lambda>c. Some (auth_timeout_error ''k'')) \<rparr>"

theorem processIPV4_safe_witness:
  "\<exists>err t' tried. processIPV4 [] timeouts_env timeouts_env demo_tcp demo_tunnel = Some ((err, t'), tried)
     \<and> lt_inv t' \<and> length tried \<le> 2"
proof -
  have "lt_inv demo_tunnel" by (simp add: lt_inv_def demo_tunnel_def)
  then show ?thesis by (rule processIPV4_safe)
qed

text \<open>C5. Packets are routed by the first resource that covers them: when every published range is
  an IPv4 range, a classified packet goes to the application and node group of the resource with the
  smallest index whose numeric address range, protocol and port range contain it, and is refused as
  having no resource exactly when none does.\<close>

theorem routeIPV4_first_match:
  assumes "classify_packet p = Some (Inr (protocol, port))" "list_all v4_range rs"
    and "DestinationIP p = Some (v4_prefix @ dst4)" "length dst4 = 4"
  shows "(routeIPV4 rs p = Some (Inr (app, grp)) \<longleftrightarrow>
            (\<exists>i < length rs. covers dst4 protocol port (rs ! i) \<and> (\<forall>j < i. \<not> covers dst4 protocol port (rs ! j))
               \<and> app = ipr_AppID (rs ! i) \<and> grp = ipr_NodeGroupID (rs ! i)))
       \<and> ((\<exists>e. routeIPV4 rs p = Some (Inl e) \<and> errors_Is e ErrResourceNotFound)
            \<longleftrightarrow> (\<forall>r \<in> set rs. \<not> covers dst4 protocol port r))"
proof -
  have "find (resource_matches (v4_prefix @ dst4) protocol port) rs = find (covers dst4 protocol port) rs"
    by (rule find_cong) (use assms(2,4) matches_covers in \<open>auto simp: list_all_iff\<close>)
  then have route: "routeIPV4 rs p = (case find (covers dst4 protocol port) rs of
        Some r \<Rightarrow> Some (Inr (ipr_AppID r, ipr_NodeGroupID r))
      | None \<Rightarrow> Some (Inl (Wrap
          ((if port \<noteq> -1 then IP_String (v4_prefix @ dst4) @ '':'' @ show_int port @ '', ['' @ protocol @ '']: ''
            else IP_String (v4_prefix @ dst4) @ '', ['' @ protocol @ '']: '') @ sentinel_string ErrResourceNotFound)
          (Sentinel ErrResourceNotFound))))"
    using assms(1,3) by (simp add: routeIPV4_def)
  show ?thesis
  proof (cases "find (covers dst4 protocol port) rs")
    case None
    then have "\<forall>r \<in> set rs. \<not> covers dst4 protocol port r" by (simp add: find_None_iff)
    then show ?thesis using None route by (auto dest: nth_mem)
  next
    case (Some a)
    then obtain i where i: "i < length rs" "covers dst4 protocol port (rs ! i)" "a = rs ! i"
      "\<forall>j < i. \<not> covers dst4 protocol port (rs ! j)" by (auto simp: find_Some_iff)
    have uniq: "k = i" if "covers dst4 protocol port (rs ! k)" "\<forall>j < k. \<not> covers dst4 protocol port (rs ! j)" for k
      using i that by (meson linorder_neqE_nat)
    have r: "routeIPV4 rs p = Some (Inr (ipr_AppID (rs ! i), ipr_NodeGroupID (rs ! i)))" using route Some i(3) by simp
    have "\<not> (\<forall>r \<in> set rs. \<not> covers dst4 protocol port r)" using i(1,2) nth_mem by blast
    moreover have "(ipr_AppID (rs ! i) = app \<and> ipr_NodeGroupID (rs ! i) = grp) \<longleftrightarrow>
        (\<exists>i < length rs. covers dst4 protocol port (rs ! i) \<and> (\<forall>j < i. \<not> covers dst4 protocol port (rs ! j))
           \<and> app = ipr_AppID (rs ! i) \<and> grp = ipr_NodeGroupID (rs ! i))"
      using i uniq by blast
    ultimately show ?thesis unfolding r by simp
  qed
qed

definition demo_resource :: "string \<Rightarrow> IPResource" where
  "demo_resource grp = \<lparr> ipr_IPMin = IPv4 10 0 0 0, ipr_IPMax = IPv4 10 255 255 255, ipr_PortMin = 1, ipr_PortMax = 1024,
     ipr_Protocol = ''tcp'', ipr_AppID = ''app'', ipr_NodeGroupID = grp \<rparr>"

theorem routeIPV4_first_match_witness:
  "routeIPV4 [demo_resource ''a'', demo_resource ''b''] demo_tcp = Some (Inr (''app'', ''a''))"
proof -
  have p: "Payload demo_tcp = Some (drop 20 demo_tcp)"
    by (simp add: Payload_def demo_tcp_def be16_def slice_def HeaderLen_def TotalLen_def Uint16_def)
  have "Protocol demo_tcp = Some TCP" by (simp add: Protocol_def demo_tcp_def TCP_def)
  moreover have "TCP_DestinationPort (drop 20 demo_tcp) = Some 80"
    by (simp add: TCP_DestinationPort_def demo_tcp_def slice_def Uint16_def be16_def)
  moreover have "TCP_Valid (drop 20 demo_tcp)" by (simp add: TCP_Valid_def demo_tcp_def TCPHeaderSize_def)
  ultimately have c: "classify_packet demo_tcp = Some (Inr (''tcp'', 80))"
    using demo_tcp_valid p by (simp add: classify_packet_def)
  have d: "DestinationIP demo_tcp = Some (v4_prefix @ [10, 0, 0, 2])"
    by (simp add: DestinationIP_def demo_tcp_def IPv4_def)
  have r: "list_all v4_range [demo_resource ''a'', demo_resource ''b'']"
    by (simp add: v4_range_def demo_resource_def IPv4_def)
  have "covers [10, 0, 0, 2] ''tcp'' 80 (demo_resource ''a'')"
    by (simp add: covers_def demo_resource_def ip4_val_def IPv4_def)
  then show ?thesis
    using routeIPV4_first_match [OF c r d, of "''app''" "''a''"] by (auto simp: demo_resource_def)
qed

text \<open>The watchdog gives a connection up exactly when no heartbeat answer came for 75 seconds: a
  tick on an open connection closes it with the heartbeat error then and otherwise leaves it as it
  is, and an error it failed with before is kept.\<close>

theorem watchdog_correct:
  assumes "\<not> lc_closed c"
  shows "(lc_closed (watch_tick now c) \<longleftrightarrow> lc_lastHeartbeat c + 75 * 1000000000 \<le> now)
     \<and> (lc_closed (watch_tick now c) \<longrightarrow>
          lc_terminalErr (watch_tick now c) = (case lc_terminalErr c of None \<Rightarrow> Some (Sentinel ErrL3HeartbeatTimeout) | Some e \<Rightarrow> Some e))
     \<and> (\<not> lc_closed (watch_tick now c) \<longrightarrow> watch_tick now c = c)"
  using assms
  by (auto simp: watch_tick_def heartbeatExpired_def heartbeatTimeout_def lc_fail_def lc_Close_def split: option.split)

definition demo_conn :: l3TunnelConn where
  "demo_conn = \<lparr> lc_incoming = [], lc_closed = False, lc_terminalErr = None, lc_lastHeartbeat = 0,
     lc_mgr = newConntrackMgr, lc_vips = [], lc_health = [] \<rparr>"

theorem watchdog_correct_witness:
  "lc_terminalErr (watch_tick (76 * 1000000000) demo_conn) = Some (Sentinel ErrL3HeartbeatTimeout)"
  using watchdog_correct [of demo_conn "76 * 1000000000"] by (simp add: demo_conn_def)

end
