(* ===== verification/CoreTypes.thy ===== *)
theory CoreTypes
  imports CoreError
begin

text \<open>
  The package \<^verbatim>\<open>src/core\<close>: the session state machine of \<^verbatim>\<open>state.go\<close>, the authentication
  challenges and responses of \<^verbatim>\<open>auth.go\<close> with their validation, the events of \<^verbatim>\<open>event.go\<close>, and
  the records of \<^verbatim>\<open>session.go\<close>, \<^verbatim>\<open>stats.go\<close> and \<^verbatim>\<open>config.go\<close>. The string-valued enumerations of
  the source are datatypes with one more constructor for any other string.
\<close>

section \<open>Session states (state.go)\<close>

type_synonym SessionID = string

datatype SessionState =
    SessionStateIdle | SessionStateDiscoveringAuth | SessionStateAuthenticating
  | SessionStateFetchingResources | SessionStateSelectingNodes | SessionStateEstablishingTunnel
  | SessionStateReady | SessionStateReconnecting | SessionStateFailed | SessionStateStopping
  | SessionStateStopped | SessionStateOther string

fun state_string :: "SessionState \<Rightarrow> string" where
  "state_string SessionStateIdle = ''idle''"
| "state_string SessionStateDiscoveringAuth = ''discovering_auth''"
| "state_string SessionStateAuthenticating = ''authenticating''"
| "state_string SessionStateFetchingResources = ''fetching_resources''"
| "state_string SessionStateSelectingNodes = ''selecting_nodes''"
| "state_string SessionStateEstablishingTunnel = ''establishing_tunnel''"
| "state_string SessionStateReady = ''ready''"
| "state_string SessionStateReconnecting = ''reconnecting''"
| "state_string SessionStateFailed = ''failed''"
| "state_string SessionStateStopping = ''stopping''"
| "state_string SessionStateStopped = ''stopped''"
| "state_string (SessionStateOther s) = s"

fun sessionStateTransitions :: "SessionState \<Rightarrow> SessionState list option" where
  "sessionStateTransitions SessionStateIdle =
     Some [SessionStateDiscoveringAuth, SessionStateFailed, SessionStateStopping]"
| "sessionStateTransitions SessionStateDiscoveringAuth =
     Some [SessionStateAuthenticating, SessionStateFailed, SessionStateStopping]"
| "sessionStateTransitions SessionStateAuthenticating =
     Some [SessionStateFetchingResources, SessionStateFailed, SessionStateStopping]"
| "sessionStateTransitions SessionStateFetchingResources =
     Some [SessionStateSelectingNodes, SessionStateFailed, SessionStateStopping]"
| "sessionStateTransitions SessionStateSelectingNodes =
     Some [SessionStateEstablishingTunnel, SessionStateFailed, SessionStateStopping]"
| "sessionStateTransitions SessionStateEstablishingTunnel =
     Some [SessionStateReady, SessionStateFailed, SessionStateStopping]"
| "sessionStateTransitions SessionStateReady =
     Some [SessionStateReconnecting, SessionStateFailed, SessionStateStopping]"
| "sessionStateTransitions SessionStateReconnecting =
     Some [SessionStateReady, SessionStateFailed, SessionStateStopping]"
| "sessionStateTransitions SessionStateFailed = Some [SessionStateStopping]"
| "sessionStateTransitions SessionStateStopping = Some [SessionStateStopped]"
| "sessionStateTransitions SessionStateStopped = Some []"
| "sessionStateTransitions (SessionStateOther s) = None"

definition state_Valid :: "SessionState \<Rightarrow> bool" where
  "state_Valid s = (sessionStateTransitions s \<noteq> None)"

definition state_Terminal :: "SessionState \<Rightarrow> bool" where
  "state_Terminal s = (s = SessionStateStopped)"

definition CanTransitionSessionState :: "SessionState \<Rightarrow> SessionState \<Rightarrow> bool" where
  "CanTransitionSessionState from to =
     (case sessionStateTransitions from of None \<Rightarrow> False | Some ts \<Rightarrow> to \<in> set ts)"

definition ValidateSessionStateTransition :: "SessionState \<Rightarrow> SessionState \<Rightarrow> gerror option" where
  "ValidateSessionStateTransition from to =
     (if CanTransitionSessionState from to then None
      else Some (WrapError ErrorCodeInvalidStateTransition
             (''cannot transition session state from '' @ quote (state_string from) @ '' to '' @ quote (state_string to))
             False None))"

section \<open>Authentication (auth.go)\<close>

definition MaxAuthChallengeImageSize :: nat where
  "MaxAuthChallengeImageSize = 4 * 1024 * 1024"

datatype AuthChallengeKind =
    AuthChallengePassword | AuthChallengeSMS | AuthChallengeSecondarySMS | AuthChallengeTOTP
  | AuthChallengeCASCallback | AuthChallengeOAuthCallback | AuthChallengeGraphText
  | AuthChallengeGraphClick | AuthChallengeSelectAuthenticationMethod | AuthChallengeOther string

record AuthChoice =
  choice_ID :: string
  choice_Label :: string
  choice_Description :: string

record AuthChallenge =
  challenge_ID :: string
  challenge_Kind :: AuthChallengeKind
  challenge_Prompt :: string
  challenge_URL :: string
  challenge_Image :: bytes
  challenge_AllowSkip :: bool
  challenge_Choices :: "AuthChoice list"

record AuthResponse =
  response_ChallengeID :: string
  response_Value :: string
  response_Skip :: bool
  response_ChoiceID :: string

definition kind_Valid :: "AuthChallengeKind \<Rightarrow> bool" where
  "kind_Valid k = (case k of AuthChallengeOther _ \<Rightarrow> False | _ \<Rightarrow> True)"

definition kind_string :: "AuthChallengeKind \<Rightarrow> string" where
  "kind_string k = (case k of
      AuthChallengePassword \<Rightarrow> ''password'' | AuthChallengeSMS \<Rightarrow> ''sms''
    | AuthChallengeSecondarySMS \<Rightarrow> ''secondary_sms'' | AuthChallengeTOTP \<Rightarrow> ''totp''
    | AuthChallengeCASCallback \<Rightarrow> ''cas_callback'' | AuthChallengeOAuthCallback \<Rightarrow> ''oauth_callback''
    | AuthChallengeGraphText \<Rightarrow> ''graph_text'' | AuthChallengeGraphClick \<Rightarrow> ''graph_click''
    | AuthChallengeSelectAuthenticationMethod \<Rightarrow> ''select_authentication_method''
    | AuthChallengeOther s \<Rightarrow> s)"

definition invalidAuthChallenge :: "string \<Rightarrow> gerror" where
  "invalidAuthChallenge m = WrapError ErrorCodeAuthChallengeInvalid m False None"

definition invalidAuthResponse :: "string \<Rightarrow> gerror" where
  "invalidAuthResponse m = WrapError ErrorCodeAuthResponseInvalid m False None"

text \<open>The loop over the choices, with the set of identifiers already seen.\<close>

fun check_choices :: "string set \<Rightarrow> AuthChoice list \<Rightarrow> gerror option" where
  "check_choices seen [] = None"
| "check_choices seen (c # cs) =
     (if choice_ID c = [] then Some (invalidAuthChallenge ''authentication choice ID is empty'')
      else if choice_ID c \<in> seen
        then Some (invalidAuthChallenge (''authentication choice ID '' @ quote (choice_ID c) @ '' is duplicated''))
      else check_choices (insert (choice_ID c) seen) cs)"

definition challenge_Validate :: "AuthChallenge \<Rightarrow> gerror option" where
  "challenge_Validate ch =
     (if challenge_ID ch = [] then Some (invalidAuthChallenge ''authentication challenge ID is empty'')
      else if \<not> kind_Valid (challenge_Kind ch)
        then Some (invalidAuthChallenge (''authentication challenge kind '' @ quote (kind_string (challenge_Kind ch)) @ '' is invalid''))
      else if length (challenge_Image ch) > MaxAuthChallengeImageSize
        then Some (invalidAuthChallenge (''authentication challenge image exceeds '' @ show_nat MaxAuthChallengeImageSize @ '' bytes''))
      else case check_choices {} (challenge_Choices ch) of
          Some e \<Rightarrow> Some e
        | None \<Rightarrow>
            if challenge_Kind ch = AuthChallengeSelectAuthenticationMethod \<and> challenge_Choices ch = []
            then Some (invalidAuthChallenge ''authentication method challenge has no choices'')
            else None)"

definition response_Validate :: "AuthResponse \<Rightarrow> AuthChallenge \<Rightarrow> gerror option" where
  "response_Validate r ch =
     (case challenge_Validate ch of
        Some e \<Rightarrow> Some e
      | None \<Rightarrow>
          if response_ChallengeID r \<noteq> challenge_ID ch
          then Some (invalidAuthResponse (''authentication response challenge ID '' @ quote (response_ChallengeID r) @ '' does not match '' @ quote (challenge_ID ch)))
          else if response_Skip r \<and> \<not> challenge_AllowSkip ch
          then Some (invalidAuthResponse ''authentication challenge cannot be skipped'')
          else if challenge_Kind ch = AuthChallengeSelectAuthenticationMethod then
            (if response_ChoiceID r = [] then Some (invalidAuthResponse ''authentication method choice is empty'')
             else if list_ex (\<lambda>c. choice_ID c = response_ChoiceID r) (challenge_Choices ch) then None
             else Some (invalidAuthResponse (''authentication method choice '' @ quote (response_ChoiceID r) @ '' is invalid'')))
          else if response_Value r = [] then Some (invalidAuthResponse ''authentication response value is empty'')
          else None)"

section \<open>Sessions, services, statistics and configuration (session.go, stats.go, config.go)\<close>

record ResumeStateScope =
  scope_ServerAddress :: string
  scope_ServerPort :: int
  scope_Username :: string

record ResumeState =
  rs_Format :: string
  rs_Version :: int
  rs_Revision :: u64
  rs_Scope :: ResumeStateScope
  rs_UpdatedAt :: int
  rs_Data :: string
  rs_Reused :: bool

datatype ResumePolicy = ResumePolicyAuto | ResumePolicyNone | ResumePolicyProvided | ResumePolicyOther string

record SessionStartOptions =
  opt_SessionID :: SessionID
  opt_Resume :: ResumePolicy
  opt_ResumeState :: "ResumeState option"

datatype ServiceType = ServiceTypeSOCKS5 | ServiceTypeHTTP | ServiceTypeTUN | ServiceTypeDNS | ServiceTypeOther string

record ServiceStatus =
  svc_Type :: ServiceType
  svc_Address :: string
  svc_Running :: bool
  svc_LastError :: string

record SessionStatus =
  status_ID :: SessionID
  status_State :: SessionState
  status_LastError :: "gerror option"

record CleanupResult =
  cleanup_Component :: string
  cleanup_Error :: string

definition HasErrors :: "CleanupResult list \<Rightarrow> bool" where
  "HasErrors results = list_ex (\<lambda>r. cleanup_Error r \<noteq> []) results"

record RouteInfo =
  route_Outbound :: string
  route_Reason :: string

datatype ConnectionState = ConnectionStateActive | ConnectionStateIdle

datatype RoutingMode = RoutingModeGlobal | RoutingModeRule | RoutingModeDirect | RoutingModeOther string

definition mode_Valid :: "RoutingMode \<Rightarrow> bool" where
  "mode_Valid m = (case m of RoutingModeOther _ \<Rightarrow> False | _ \<Rightarrow> True)"

definition mode_string :: "RoutingMode \<Rightarrow> string" where
  "mode_string m = (case m of RoutingModeGlobal \<Rightarrow> ''global'' | RoutingModeRule \<Rightarrow> ''rule''
     | RoutingModeDirect \<Rightarrow> ''direct'' | RoutingModeOther s \<Rightarrow> s)"

datatype InternetOutboundType = InternetOutboundDirect | InternetOutboundSOCKS5 | InternetOutboundReject
  | InternetOutboundOther string

definition outboundType_Valid :: "InternetOutboundType \<Rightarrow> bool" where
  "outboundType_Valid t = (t = InternetOutboundDirect \<or> t = InternetOutboundSOCKS5 \<or> t = InternetOutboundReject)"

definition outboundType_string :: "InternetOutboundType \<Rightarrow> string" where
  "outboundType_string t = (case t of InternetOutboundDirect \<Rightarrow> ''direct'' | InternetOutboundSOCKS5 \<Rightarrow> ''socks5''
     | InternetOutboundReject \<Rightarrow> ''reject'' | InternetOutboundOther s \<Rightarrow> s)"

record InternetOutboundConfig =
  io_Type :: InternetOutboundType
  io_Address :: string
  io_Username :: string
  io_Password :: string

section \<open>Properties of the state machine\<close>

lemma CanTransition_simps [simp]:
  "\<not> CanTransitionSessionState SessionStateStopped t"
  "CanTransitionSessionState SessionStateStopping t \<longleftrightarrow> t = SessionStateStopped"
  "CanTransitionSessionState SessionStateFailed t \<longleftrightarrow> t = SessionStateStopping"
  by (simp_all add: CanTransitionSessionState_def)

lemma Validate_None_iff [simp]:
  "ValidateSessionStateTransition f t = None \<longleftrightarrow> CanTransitionSessionState f t"
  by (simp add: ValidateSessionStateTransition_def)

lemma transition_targets_valid: "CanTransitionSessionState f t \<Longrightarrow> state_Valid f \<and> state_Valid t"
  by (cases f) (auto simp: CanTransitionSessionState_def state_Valid_def)

text \<open>Reachability in the table: one transition after another.\<close>

inductive session_path :: "SessionState \<Rightarrow> SessionState \<Rightarrow> bool" where
  path_refl: "session_path s s"
| path_step: "session_path s t \<Longrightarrow> CanTransitionSessionState t u \<Longrightarrow> session_path s u"

inductive_simps session_path_simps: "session_path s t"

lemma session_path_trans: "session_path t u \<Longrightarrow> session_path s t \<Longrightarrow> session_path s u"
  by (induction rule: session_path.induct) (auto intro: session_path.path_step)

lemma session_path_one: "CanTransitionSessionState s t \<Longrightarrow> session_path s t"
  by (rule path_step [OF path_refl])

text \<open>Progress towards the end of a session never goes back past these sets.\<close>

lemma stopped_final: "session_path SessionStateStopped t \<Longrightarrow> t = SessionStateStopped"
proof (induction SessionStateStopped t rule: session_path.induct)
  case (path_step t u)
  then show ?case by simp
qed simp

lemma failed_path: "session_path s t \<Longrightarrow> s = SessionStateFailed \<Longrightarrow>
    t \<in> {SessionStateFailed, SessionStateStopping, SessionStateStopped}"
  by (induction rule: session_path.induct) auto

lemma stopping_path: "session_path s t \<Longrightarrow> s = SessionStateStopping \<Longrightarrow>
    t \<in> {SessionStateStopping, SessionStateStopped}"
  by (induction rule: session_path.induct) auto

section \<open>Properties of authentication\<close>

lemma check_choices_None:
  "check_choices seen cs = None \<longleftrightarrow>
     (\<forall>c \<in> set cs. choice_ID c \<noteq> [] \<and> choice_ID c \<notin> seen) \<and> distinct (map choice_ID cs)"
proof (induction cs arbitrary: seen)
  case (Cons c cs)
  show ?case by (simp add: Cons.IH) (auto simp: rev_image_eqI)
qed simp

lemma challenge_Validate_None:
  "challenge_Validate ch = None \<longleftrightarrow>
     challenge_ID ch \<noteq> [] \<and> kind_Valid (challenge_Kind ch)
     \<and> length (challenge_Image ch) \<le> MaxAuthChallengeImageSize
     \<and> (\<forall>c \<in> set (challenge_Choices ch). choice_ID c \<noteq> []) \<and> distinct (map choice_ID (challenge_Choices ch))
     \<and> (challenge_Kind ch = AuthChallengeSelectAuthenticationMethod \<longrightarrow> challenge_Choices ch \<noteq> [])"
  using check_choices_None [of "{}" "challenge_Choices ch"]
  by (auto simp: challenge_Validate_def split: option.splits)

section \<open>Theorems\<close>

lemma path_to_stopped: "state_Valid s \<Longrightarrow> session_path s SessionStateStopped"
proof -
  assume v: "state_Valid s"
  have stop: "session_path SessionStateStopping SessionStateStopped" by (simp add: session_path_one)
  show ?thesis
  proof (cases "s = SessionStateStopped \<or> s = SessionStateStopping")
    case True
    then show ?thesis using stop path_refl by blast
  next
    case False
    then have "CanTransitionSessionState s SessionStateStopping"
      using v by (cases s) (auto simp: CanTransitionSessionState_def state_Valid_def)
    then show ?thesis by (rule session_path_trans [OF stop session_path_one])
  qed
qed

lemma path_valid: "session_path s t \<Longrightarrow> state_Valid s \<Longrightarrow> state_Valid t"
  by (induction rule: session_path.induct) (auto dest: transition_targets_valid)

text \<open>C16. The transition table of a session: from every state the table knows, the stopped state
  can be reached, every reachable state is in the table, a failed session can only go on to
  stopping and stopped (in particular it never becomes ready again), and the states with no way
  out are exactly the terminal ones.\<close>

theorem session_table_sound:
  assumes "state_Valid s"
  shows "session_path s SessionStateStopped
    \<and> (session_path s t \<longrightarrow> state_Valid t)
    \<and> ((\<forall>u. ValidateSessionStateTransition s u \<noteq> None) \<longleftrightarrow> state_Terminal s)
    \<and> (session_path SessionStateFailed t \<longrightarrow>
         t \<in> {SessionStateFailed, SessionStateStopping, SessionStateStopped})"
proof (intro conjI impI)
  show "session_path s SessionStateStopped" by (rule path_to_stopped [OF assms])
  show "state_Valid t" if "session_path s t" using that assms by (rule path_valid)
  show "(\<forall>u. ValidateSessionStateTransition s u \<noteq> None) \<longleftrightarrow> state_Terminal s"
    using assms by (cases s) (auto simp: state_Terminal_def CanTransitionSessionState_def state_Valid_def)
  show "t \<in> {SessionStateFailed, SessionStateStopping, SessionStateStopped}"
    if "session_path SessionStateFailed t" using failed_path [OF that] by simp
qed

theorem session_table_sound_witness:
  "session_path SessionStateReconnecting SessionStateStopped
   \<and> (\<exists>u. ValidateSessionStateTransition SessionStateReconnecting u = None)"
proof -
  have v: "state_Valid SessionStateReconnecting" by (simp add: state_Valid_def)
  show ?thesis
    using session_table_sound [OF v] by (simp add: state_Terminal_def)
qed

text \<open>What an accepted answer to an authentication challenge is: the challenge is well formed,
  the answer names it, it skips only where skipping is allowed, and it carries one of the offered
  choices (method selection) or a non-empty value (every other kind, a skipped one included).\<close>

theorem response_Validate_None:
  "response_Validate r ch = None \<longleftrightarrow>
     challenge_Validate ch = None \<and> response_ChallengeID r = challenge_ID ch
     \<and> (response_Skip r \<longrightarrow> challenge_AllowSkip ch)
     \<and> (if challenge_Kind ch = AuthChallengeSelectAuthenticationMethod
        then response_ChoiceID r \<in> choice_ID ` set (challenge_Choices ch)
        else response_Value r \<noteq> [])"
proof (cases "challenge_Validate ch")
  case None
  then have ne: "\<forall>c \<in> set (challenge_Choices ch). choice_ID c \<noteq> []"
    by (simp add: challenge_Validate_None)
  have ex: "list_ex (\<lambda>c. choice_ID c = x) cs \<longleftrightarrow> x \<in> choice_ID ` set cs" for x and cs :: "AuthChoice list"
    by (auto simp: list_ex_iff)
  from ne have "response_ChoiceID r \<in> choice_ID ` set (challenge_Choices ch) \<Longrightarrow> response_ChoiceID r \<noteq> []"
    by auto
  with None show ?thesis by (auto simp: response_Validate_def ex)
next
  case (Some e)
  then show ?thesis by (simp add: response_Validate_def)
qed

definition demo_choice :: AuthChallenge where
  "demo_choice = \<lparr> challenge_ID = ''c1'', challenge_Kind = AuthChallengeSelectAuthenticationMethod,
     challenge_Prompt = [], challenge_URL = [], challenge_Image = [], challenge_AllowSkip = False,
     challenge_Choices = [\<lparr> choice_ID = ''pwd'', choice_Label = [], choice_Description = [] \<rparr>] \<rparr>"

theorem response_Validate_None_witness:
  "response_Validate \<lparr> response_ChallengeID = ''c1'', response_Value = [], response_Skip = False,
       response_ChoiceID = ''pwd'' \<rparr> demo_choice = None
   \<and> response_Validate \<lparr> response_ChallengeID = ''c1'', response_Value = [], response_Skip = False,
       response_ChoiceID = ''sms'' \<rparr> demo_choice \<noteq> None"
  by (simp add: response_Validate_None challenge_Validate_None demo_choice_def kind_Valid_def)

end
