(* ===== verification/CoreEvents.thy ===== *)
theory CoreEvents
  imports CoreTypes
begin

text \<open>
  The remaining records of \<^verbatim>\<open>src/core\<close>: the resources a session exposes (\<^verbatim>\<open>session.go\<close>), the
  events it emits and their constructors (\<^verbatim>\<open>event.go\<close>), the traffic and connection records of
  \<^verbatim>\<open>stats.go\<close> and the runtime configuration of \<^verbatim>\<open>config.go\<close>. Times are nanoseconds.
\<close>

section \<open>Resources\<close>

record CoreIPResource =
  cipr_IPMin :: string
  cipr_IPMax :: string
  cipr_PortMin :: int
  cipr_PortMax :: int
  cipr_Protocol :: string
  cipr_AppID :: string
  cipr_NodeGroupID :: string

record CoreDomainResource =
  cdom_PortMin :: int
  cdom_PortMax :: int
  cdom_Protocol :: string
  cdom_AppID :: string
  cdom_NodeGroupID :: string

record CoreResources =
  cres_Stale :: bool
  cres_ClientIP :: string
  cres_IPResources :: "CoreIPResource list"
  cres_DomainResources :: "string \<rightharpoonup> CoreDomainResource"
  cres_DNSRecords :: "string \<rightharpoonup> string"
  cres_DNSServer :: string

section \<open>Statistics\<close>

record ConnectionMetadata =
  meta_Inbound :: string
  meta_Outbound :: string
  meta_RouteReason :: string
  meta_Source :: string
  meta_Network :: string
  meta_Destination :: string
  meta_TransportConnectionID :: string

record TrafficStats =
  ts_SessionID :: SessionID
  ts_UploadedBytes :: u64
  ts_DownloadedBytes :: u64
  ts_ActiveConnections :: int
  ts_TotalConnections :: u64
  ts_OpenTransportConnections :: int
  ts_TotalTransportConnections :: u64
  ts_StartedAt :: int
  ts_Timestamp :: int

record ConnectionInfo =
  ci_ID :: string
  ci_SessionID :: SessionID
  ci_Inbound :: string
  ci_Outbound :: string
  ci_RouteReason :: string
  ci_Source :: string
  ci_Network :: string
  ci_Destination :: string
  ci_UploadedBytes :: u64
  ci_DownloadedBytes :: u64
  ci_OpenedAt :: int
  ci_LastActivityAt :: int
  ci_State :: ConnectionState
  ci_TransportConnectionID :: string

record TransportConnectionInfo =
  ti_ID :: string
  ti_SessionID :: SessionID
  ti_Outbound :: string
  ti_RouteReason :: string
  ti_Network :: string
  ti_Destination :: string
  ti_UploadedBytes :: u64
  ti_DownloadedBytes :: u64
  ti_OpenedAt :: int
  ti_LastActivityAt :: int
  ti_State :: ConnectionState

section \<open>Events\<close>

datatype EventType =
    EventTypeSessionStateChanged | EventTypeAuthRequired | EventTypeAuthBrowserRequired
  | EventTypeAuthCompleted | EventTypeResourcesUpdated | EventTypeNodeSelected
  | EventTypeServiceStarted | EventTypeServiceStopped | EventTypeSessionError
  | EventTypeReconnectScheduled | EventTypeReconnectFailed | EventTypeReconnected
  | EventTypeRoutingModeChanged | EventTypeShutdownCompleted | EventTypeResumeStateUpdated
  | EventTypeResumeStateInvalidated | EventTypeLog | EventTypeOther string

record CleanupReport =
  report_StartedAt :: int
  report_CompletedAt :: int
  report_Results :: "CleanupResult list"

record ResourceSummary =
  sum_ClientIP :: string
  sum_IPResourceCount :: nat
  sum_DomainResourceCount :: nat
  sum_DNSRecordCount :: nat
  sum_Stale :: bool

record ReconnectInfo =
  ri_Attempt :: nat
  ri_DelayMillis :: int

record Event =
  ev_SessionID :: SessionID
  ev_Type :: EventType
  ev_Timestamp :: int
  ev_PreviousState :: SessionState
  ev_State :: SessionState
  ev_Error :: "gerror option"
  ev_Cleanup :: "CleanupReport option"
  ev_Auth :: "AuthChallenge option"
  ev_Reconnect :: "ReconnectInfo option"
  ev_PreviousRoutingMode :: RoutingMode
  ev_RoutingMode :: RoutingMode
  ev_ResumeStateRevision :: u64
  ev_ResumeStateReused :: bool
  ev_Resources :: "ResourceSummary option"
  ev_SelectedNodes :: "(string \<rightharpoonup> string) option"
  ev_Service :: "ServiceStatus option"

text \<open>The zero value of the struct with its first three fields set.\<close>

definition event_of :: "SessionID \<Rightarrow> EventType \<Rightarrow> int \<Rightarrow> Event" where
  "event_of sid ty ts = \<lparr> ev_SessionID = sid, ev_Type = ty, ev_Timestamp = ts,
     ev_PreviousState = SessionStateOther [], ev_State = SessionStateOther [], ev_Error = None, ev_Cleanup = None,
     ev_Auth = None, ev_Reconnect = None, ev_PreviousRoutingMode = RoutingModeOther [],
     ev_RoutingMode = RoutingModeOther [], ev_ResumeStateRevision = 0, ev_ResumeStateReused = False,
     ev_Resources = None, ev_SelectedNodes = None, ev_Service = None \<rparr>"

definition NewStateChangedEvent :: "SessionID \<Rightarrow> SessionState \<Rightarrow> SessionState \<Rightarrow> int \<Rightarrow> Event" where
  "NewStateChangedEvent sid previous current ts =
     (event_of sid EventTypeSessionStateChanged ts)\<lparr>ev_PreviousState := previous, ev_State := current\<rparr>"

definition NewResumeStateUpdatedEvent :: "SessionID \<Rightarrow> u64 \<Rightarrow> bool \<Rightarrow> int \<Rightarrow> Event" where
  "NewResumeStateUpdatedEvent sid revision reused ts =
     (event_of sid EventTypeResumeStateUpdated ts)\<lparr>ev_ResumeStateRevision := revision, ev_ResumeStateReused := reused\<rparr>"

definition NewResumeStateInvalidatedEvent :: "SessionID \<Rightarrow> u64 \<Rightarrow> int \<Rightarrow> Event" where
  "NewResumeStateInvalidatedEvent sid revision ts =
     (event_of sid EventTypeResumeStateInvalidated ts)\<lparr>ev_ResumeStateRevision := revision\<rparr>"

definition NewResourcesUpdatedEvent :: "SessionID \<Rightarrow> CoreResources \<Rightarrow> int \<Rightarrow> Event" where
  "NewResourcesUpdatedEvent sid r ts =
     (event_of sid EventTypeResourcesUpdated ts)\<lparr>ev_Resources := Some \<lparr> sum_ClientIP = cres_ClientIP r,
        sum_IPResourceCount = length (cres_IPResources r),
        sum_DomainResourceCount = card (dom (cres_DomainResources r)),
        sum_DNSRecordCount = card (dom (cres_DNSRecords r)), sum_Stale = cres_Stale r \<rparr>\<rparr>"

definition NewNodeSelectedEvent :: "SessionID \<Rightarrow> (string \<rightharpoonup> string) \<Rightarrow> int \<Rightarrow> Event" where
  "NewNodeSelectedEvent sid nodes ts =
     (event_of sid EventTypeNodeSelected ts)\<lparr>ev_SelectedNodes := Some nodes\<rparr>"

definition NewServiceEvent :: "SessionID \<Rightarrow> EventType \<Rightarrow> ServiceStatus \<Rightarrow> int \<Rightarrow> Event" where
  "NewServiceEvent sid ty status ts =
     (event_of sid ty ts)\<lparr>ev_Service := Some (status\<lparr>svc_Running := (ty = EventTypeServiceStarted)\<rparr>)\<rparr>"

section \<open>Configuration\<close>

record Config =
  cfg_Protocol :: string
  cfg_ResumeState :: "ResumeState option"
  cfg_SessionID :: SessionID
  cfg_ServerAddress :: string
  cfg_ServerPort :: int
  cfg_Username :: string
  cfg_Password :: string
  cfg_Phone :: string
  cfg_LoginDomain :: string
  cfg_AuthType :: string
  cfg_GraphCodeFile :: string
  cfg_CASTicket :: string
  cfg_OAuth2Code :: string
  cfg_SID :: string
  cfg_DeviceID :: string
  cfg_SignKey :: string
  cfg_ClientDataFile :: string
  cfg_UpdateBestNodesSeconds :: int
  cfg_BindInterface :: string
  cfg_AutoDetectInterface :: bool
  cfg_DisableAutoReconnect :: bool
  cfg_DisableRemoteDNS :: bool
  cfg_RemoteDNSServer :: string
  cfg_SecondaryDNSServer :: string
  cfg_DNSTTL :: u64
  cfg_DNSBind :: string
  cfg_Hosts :: "string \<rightharpoonup> string"
  cfg_SOCKSBind :: string
  cfg_SOCKSUsername :: string
  cfg_SOCKSPassword :: string
  cfg_HTTPBind :: string
  cfg_TUNEnabled :: bool
  cfg_TUNName :: string
  cfg_TUNAddress :: string
  cfg_TUNMTU :: u32
  cfg_TUNAutoRoute :: bool
  cfg_TUNRouteAll :: bool
  cfg_TUNOutboundInterface :: string
  cfg_TUNUDPTimeoutSeconds :: int
  cfg_TUNUDPMaxFlows :: int
  cfg_TUNDNSHijack :: bool
  cfg_TUNFakeIP :: bool
  cfg_TUNFakeIPRange :: string
  cfg_RoutingMode :: RoutingMode
  cfg_InternetOutbound :: InternetOutboundConfig

lemma event_of_simps [simp]:
  "ev_Type (event_of s t n) = t" "ev_SessionID (event_of s t n) = s" "ev_Service (event_of s t n) = None"
  "ev_Auth (event_of s t n) = None" "ev_State (event_of s t n) = SessionStateOther []"
  "ev_PreviousState (event_of s t n) = SessionStateOther []"
  by (simp_all add: event_of_def)

end
