(* ===== verification/Dial.thy ===== *)
theory Dial
  imports CoreEvents Resources
begin

text \<open>
  The outbounds of \<^verbatim>\<open>src/dial\<close>: the VPN outbound that admits only published resources, the internet
  outbounds, and the router that chooses among them by the routing mode. An outbound is a function
  from a network and an address to a connection or an error; the stack and the library dialers are
  parameters.
\<close>

type_synonym 'c outbound = "string \<Rightarrow> string \<Rightarrow> 'c result"

section \<open>The VPN outbound\<close>

definition resourceMatches :: "int \<Rightarrow> int \<Rightarrow> string \<Rightarrow> int \<Rightarrow> string \<Rightarrow> bool" where
  "resourceMatches portMin portMax protocol port network \<longleftrightarrow>
     portMin \<le> port \<and> port \<le> portMax \<and> (protocol = network \<or> protocol = ''all'')"

definition resource_network :: "string \<Rightarrow> string" where
  "resource_network network = (if network = ''tcp4'' then ''tcp'' else if network = ''udp4'' then ''udp'' else network)"

definition in_range :: "ip \<Rightarrow> IPResource \<Rightarrow> bool" where
  "in_range p r = (case (To4 (ipr_IPMin r), To4 (ipr_IPMax r)) of
      (Some lo, Some hi) \<Rightarrow> Compare p lo \<ge> 0 \<and> Compare p hi \<le> 0
    | _ \<Rightarrow> False)"

definition matchesResources :: "IPResource list \<Rightarrow> DomainResource option \<Rightarrow> ip \<Rightarrow> int \<Rightarrow> string \<Rightarrow> bool" where
  "matchesResources ipResources domainResource p port network \<longleftrightarrow>
     (case domainResource of
        Some d \<Rightarrow> resourceMatches (dom_PortMin d) (dom_PortMax d) (dom_Protocol d) port (resource_network network)
      | None \<Rightarrow> False)
   \<or> list_ex (\<lambda>r. in_range p r
        \<and> resourceMatches (ipr_PortMin r) (ipr_PortMax r) (ipr_Protocol r) port (resource_network network)) ipResources"

text \<open>The resolver answers the address and the domain resource it left in the context.\<close>

record 'c VPNOutbound =
  vo_dialTCP :: "ip \<Rightarrow> int \<Rightarrow> 'c result"
  vo_dialUDP :: "ip \<Rightarrow> int \<Rightarrow> 'c result"
  vo_resolve :: "(string \<Rightarrow> (ip \<times> DomainResource option) result) option"
  vo_ipResources :: "IPResource list"

text \<open>The destination after parsing and resolution: an IPv4 address, a port and the context's resource, which is the one resolution has found: no
  caller passes a context that has one already.\<close>

definition vpn_target :: "'c VPNOutbound \<Rightarrow> string \<Rightarrow> ((ip \<times> int) \<times> DomainResource option) result" where
  "vpn_target o1 address =
     (case SplitHostPort address of
        None \<Rightarrow> Inl (Opaque (''invalid VPN destination '' @ quote address))
      | Some (host, portText) \<Rightarrow>
          (case Atoi portText of
             None \<Rightarrow> Inl (Opaque (''invalid VPN destination port '' @ quote portText))
           | Some port \<Rightarrow>
               rbind (case ParseIP host of
                   Some p \<Rightarrow> Inr (p, None)
                 | None \<Rightarrow>
                     (case vo_resolve o1 of
                        None \<Rightarrow> Inl (Opaque (''resolve VPN destination '' @ quote host @ '': resolver unavailable''))
                      | Some f \<Rightarrow>
                          (case f host of
                             Inl e \<Rightarrow> Inl (errorf (''resolve VPN destination '' @ quote host) e)
                           | Inr pd \<Rightarrow> Inr pd)))
                 (\<lambda>(p, d). case To4 p of
                     None \<Rightarrow> Inl (Wrap (sentinel_string ErrNotInResources @ '': '' @ address) (Sentinel ErrNotInResources))
                   | Some q \<Rightarrow> Inr ((q, port), d))))"

definition VPN_DialContext :: "'c VPNOutbound \<Rightarrow> 'c outbound" where
  "VPN_DialContext o1 network address =
     rbind (vpn_target o1 address) (\<lambda>((p, port), d).
       if \<not> matchesResources (vo_ipResources o1) d p port network
       then Inl (Wrap (sentinel_string ErrNotInResources @ '': '' @ address @ ''/'' @ network) (Sentinel ErrNotInResources))
       else if network = ''tcp'' \<or> network = ''tcp4'' then vo_dialTCP o1 p port
       else if network = ''udp'' \<or> network = ''udp4'' then vo_dialUDP o1 p port
       else Inl (Wrap (sentinel_string ErrUnsupportedNetwork @ '': '' @ network) (Sentinel ErrUnsupportedNetwork)))"

section \<open>Internet outbounds\<close>

definition direct_DialContext :: "'c outbound \<Rightarrow> 'c outbound" where
  "direct_DialContext dialer network address = dialer network address"

definition socks5_DialContext :: "'c outbound \<Rightarrow> 'c outbound" where
  "socks5_DialContext dialer network address =
     (if network \<noteq> ''tcp'' \<and> network \<noteq> ''tcp4''
      then Inl (WrapError ErrorCodeOutboundUnavailable ''SOCKS5 internet outbound only supports TCP'' False
             (Some (Wrap (sentinel_string ErrSOCKS5UDPUnsupported @ '': '' @ network) (Sentinel ErrSOCKS5UDPUnsupported))))
      else dialer ''tcp'' address)"

definition reject_DialContext :: "'c outbound" where
  "reject_DialContext network address =
     Inl (Wrap (sentinel_string ErrRejected @ '': '' @ address @ ''/'' @ network) (Sentinel ErrRejected))"

text \<open>The SOCKS5 client of the proxy package is a parameter: from the server's address, the optional
  credentials and the base dialer to a dialer or an error.\<close>

definition NewInternetOutboundWithDialer ::
  "(string \<Rightarrow> (string \<times> string) option \<Rightarrow> 'c outbound \<Rightarrow> 'c outbound result) \<Rightarrow> InternetOutboundConfig \<Rightarrow>
   'c outbound \<Rightarrow> 'c outbound result" where
  "NewInternetOutboundWithDialer proxySOCKS5 config baseDialer =
     (case io_Type config of
        InternetOutboundDirect \<Rightarrow> Inr (direct_DialContext baseDialer)
      | InternetOutboundSOCKS5 \<Rightarrow>
          if io_Address config = []
          then Inl (WrapError ErrorCodeConfigInvalid ''SOCKS5 internet outbound address is required'' False None)
          else (case proxySOCKS5 (io_Address config)
                  (if io_Username config \<noteq> [] \<or> io_Password config \<noteq> []
                   then Some (io_Username config, io_Password config) else None) baseDialer of
              Inl e \<Rightarrow> Inl (errorf ''create SOCKS5 internet outbound'' e)
            | Inr d \<Rightarrow> Inr (socks5_DialContext d))
      | InternetOutboundReject \<Rightarrow> Inr reject_DialContext
      | InternetOutboundOther s \<Rightarrow>
          if s = [] then Inr (direct_DialContext baseDialer)
          else Inl (WrapError ErrorCodeConfigInvalid (''unsupported internet outbound type '' @ quote s) False None))"

section \<open>The router\<close>

definition OutboundATrust :: string where "OutboundATrust = ''atrust''"
definition OutboundInternet :: string where "OutboundInternet = ''internet''"
definition OutboundDirect :: string where "OutboundDirect = ''direct''"
definition RouteReasonVPNResource :: string where "RouteReasonVPNResource = ''vpn_resource''"
definition RouteReasonResourceNotMatched :: string where "RouteReasonResourceNotMatched = ''resource_not_matched''"
definition RouteReasonGlobalMode :: string where "RouteReasonGlobalMode = ''global_mode''"
definition RouteReasonDirectMode :: string where "RouteReasonDirectMode = ''direct_mode''"

lemmas outbound_names = OutboundATrust_def OutboundInternet_def OutboundDirect_def

record 'c Router =
  ro_vpn :: "'c outbound"
  ro_internet :: "'c outbound"
  ro_direct :: "'c outbound"
  ro_mode :: RoutingMode

definition NewRouterWithDirect :: "'c outbound \<Rightarrow> 'c outbound \<Rightarrow> 'c outbound \<Rightarrow> RoutingMode \<Rightarrow> 'c Router result" where
  "NewRouterWithDirect vpn internet direct mode0 =
     (let mode = (if mode0 = RoutingModeOther [] then RoutingModeRule else mode0) in
      if \<not> mode_Valid mode
      then Inl (WrapError ErrorCodeConfigInvalid (''invalid routing mode '' @ quote (mode_string mode)) False None)
      else Inr \<lparr> ro_vpn = vpn, ro_internet = internet, ro_direct = direct, ro_mode = mode \<rparr>)"

text \<open>A dial answers the connection with its route, and the outbounds that were asked, in order.\<close>

definition routed :: "string \<Rightarrow> string \<Rightarrow> 'c result \<Rightarrow> ('c \<times> RouteInfo) result" where
  "routed name reason x = rbind x (\<lambda>c. Inr (c, \<lparr> route_Outbound = name, route_Reason = reason \<rparr>))"

definition dialRule :: "'c Router \<Rightarrow> string \<Rightarrow> string \<Rightarrow> ('c \<times> RouteInfo) result \<times> string list" where
  "dialRule r network address =
     (case ro_vpn r network address of
        Inr c \<Rightarrow> (routed OutboundATrust RouteReasonVPNResource (Inr c), [OutboundATrust])
      | Inl e \<Rightarrow>
          if \<not> errors_Is e ErrNotInResources then (Inl e, [OutboundATrust])
          else (routed OutboundInternet RouteReasonResourceNotMatched (ro_internet r network address),
                [OutboundATrust, OutboundInternet]))"

definition Router_DialContext :: "'c Router \<Rightarrow> string \<Rightarrow> string \<Rightarrow> ('c \<times> RouteInfo) result \<times> string list" where
  "Router_DialContext r network address =
     (case ro_mode r of
        RoutingModeGlobal \<Rightarrow> (routed OutboundATrust RouteReasonGlobalMode (ro_vpn r network address), [OutboundATrust])
      | RoutingModeDirect \<Rightarrow> (routed OutboundDirect RouteReasonDirectMode (ro_direct r network address), [OutboundDirect])
      | _ \<Rightarrow> dialRule r network address)"

definition SetMode :: "RoutingMode \<Rightarrow> 'c Router \<Rightarrow> RoutingMode result \<times> 'c Router" where
  "SetMode mode r =
     (if \<not> mode_Valid mode
      then (Inl (WrapError ErrorCodeInvalidRequest (''invalid routing mode '' @ quote (mode_string mode)) False None), r)
      else (Inr (ro_mode r), r\<lparr>ro_mode := mode\<rparr>))"

section \<open>The contract of a refusing outbound\<close>

text \<open>
  The router relies on its first outbound to refuse what it does not cover with the sentinel
  \<open>ErrNotInResources\<close>; in rule mode such a destination is then the internet outbound's.
\<close>

locale refusing_outbound =
  fixes dial :: "'c outbound"
    and covered :: "string \<Rightarrow> string \<Rightarrow> bool"
  assumes refuses: "\<not> covered n a \<Longrightarrow> \<exists>e. dial n a = Inl e \<and> errors_Is e ErrNotInResources"
begin

lemma rule_uncovered:
  assumes "ro_vpn r = dial" "ro_mode r = RoutingModeRule" "\<not> covered n a"
  shows "Router_DialContext r n a = (routed OutboundInternet RouteReasonResourceNotMatched (ro_internet r n a),
     [OutboundATrust, OutboundInternet])"
  using refuses [OF assms(3)] assms(1,2) by (auto simp: Router_DialContext_def dialRule_def)

lemma rule_traffic:
  assumes "ro_vpn r = dial" "ro_mode r = RoutingModeRule" "\<not> covered n a" "Router_DialContext r n a = (Inr (c, route), tried)"
  shows "ro_internet r n a = Inr c \<and> route_Outbound route = OutboundInternet"
  using rule_uncovered [OF assms(1-3)] assms(4) by (cases "ro_internet r n a") (auto simp: routed_def)

end

text \<open>What the VPN outbound covers: it does not answer \<open>ErrNotInResources\<close> for the target.\<close>

definition vpn_covers :: "'c VPNOutbound \<Rightarrow> string \<Rightarrow> string \<Rightarrow> bool" where
  "vpn_covers o1 network address =
     (case vpn_target o1 address of
        Inl e \<Rightarrow> \<not> errors_Is e ErrNotInResources
      | Inr ((p, port), d) \<Rightarrow> matchesResources (vo_ipResources o1) d p port network)"

text \<open>A stack whose own errors are not the sentinel.\<close>

definition sane_stack :: "'c VPNOutbound \<Rightarrow> bool" where
  "sane_stack o1 \<longleftrightarrow> (\<forall>p port e. vo_dialTCP o1 p port = Inl e \<or> vo_dialUDP o1 p port = Inl e \<longrightarrow> \<not> errors_Is e ErrNotInResources)"

lemma VPN_refuses: "\<not> vpn_covers o1 n a \<Longrightarrow> \<exists>e. VPN_DialContext o1 n a = Inl e \<and> errors_Is e ErrNotInResources"
  by (cases "vpn_target o1 a") (auto simp: vpn_covers_def VPN_DialContext_def split: prod.splits)

lemma VPN_admits:
  assumes "sane_stack o1" "vpn_covers o1 n a" "VPN_DialContext o1 n a = Inl e"
  shows "\<not> errors_Is e ErrNotInResources"
  using assms
  by (cases "vpn_target o1 a")
    (auto simp: vpn_covers_def VPN_DialContext_def sane_stack_def split: prod.splits if_splits)

interpretation vpn: refusing_outbound "VPN_DialContext o1" "vpn_covers o1"
  by unfold_locales (rule VPN_refuses)

lemma rule_covered:
  assumes "sane_stack o1" "ro_vpn r = VPN_DialContext o1" "ro_mode r = RoutingModeRule" "vpn_covers o1 n a"
  shows "Router_DialContext r n a = (routed OutboundATrust RouteReasonVPNResource (VPN_DialContext o1 n a), [OutboundATrust])"
  using VPN_admits [OF assms(1,4)] assms(2,3)
  by (auto simp: Router_DialContext_def dialRule_def routed_def split: sum.split)

lemma in_range_numeric:
  assumes "length p = 4" "in_range p r"
  shows "\<exists>lo hi. To4 (ipr_IPMin r) = Some lo \<and> To4 (ipr_IPMax r) = Some hi \<and> ip4_val lo \<le> ip4_val p \<and> ip4_val p \<le> ip4_val hi"
proof -
  obtain lo hi where lh: "To4 (ipr_IPMin r) = Some lo" "To4 (ipr_IPMax r) = Some hi" "Compare p lo \<ge> 0" "Compare p hi \<le> 0"
    using assms(2) by (auto simp: in_range_def split: option.splits)
  then show ?thesis
    using Compare_ip4 [OF assms(1) To4_length [OF lh(1)]] Compare_ip4 [OF assms(1) To4_length [OF lh(2)]] by simp
qed

section \<open>Theorems\<close>

text \<open>C23. Routing modes decide which outbound carries a connection. In direct mode only the direct
  outbound is asked and in global mode only the VPN. In rule mode the VPN is asked first; a
  destination it covers is its own to serve or fail, and exactly the destinations it does not cover
  go to the internet outbound. The route reported with a connection names the outbound that made it.\<close>

theorem Router_modes:
  assumes "sane_stack o1" "ro_vpn r = VPN_DialContext o1"
  shows "(ro_mode r = RoutingModeDirect \<longrightarrow> Router_DialContext r n a
            = (routed OutboundDirect RouteReasonDirectMode (ro_direct r n a), [OutboundDirect]))
     \<and> (ro_mode r = RoutingModeGlobal \<longrightarrow> Router_DialContext r n a
            = (routed OutboundATrust RouteReasonGlobalMode (VPN_DialContext o1 n a), [OutboundATrust]))
     \<and> (ro_mode r = RoutingModeRule \<longrightarrow> Router_DialContext r n a
            = (if vpn_covers o1 n a
               then (routed OutboundATrust RouteReasonVPNResource (VPN_DialContext o1 n a), [OutboundATrust])
               else (routed OutboundInternet RouteReasonResourceNotMatched (ro_internet r n a), [OutboundATrust, OutboundInternet])))
     \<and> (\<forall>c route tried. Router_DialContext r n a = (Inr (c, route), tried) \<longrightarrow> last tried = route_Outbound route)"
proof (intro conjI impI allI)
  fix c route tried assume "Router_DialContext r n a = (Inr (c, route), tried)"
  then show "last tried = route_Outbound route"
    by (auto simp: Router_DialContext_def dialRule_def routed_def rbind_Inr split: RoutingMode.splits sum.splits if_splits)
qed (use assms vpn.rule_uncovered [of r o1 n a] rule_covered [OF assms, of n a] in \<open>auto simp: Router_DialContext_def\<close>)

definition demo_vpn :: "string VPNOutbound" where
  "demo_vpn = \<lparr> vo_dialTCP = (\<lambda>p port. Inr ''vpn''), vo_dialUDP = (\<lambda>p port. Inr ''vpn''), vo_resolve = None,
     vo_ipResources = [\<lparr> ipr_IPMin = IPv4 10 0 0 0, ipr_IPMax = IPv4 10 255 255 255, ipr_PortMin = 1, ipr_PortMax = 1024,
        ipr_Protocol = ''tcp'', ipr_AppID = [], ipr_NodeGroupID = [] \<rparr>] \<rparr>"

definition demo_router :: "RoutingMode \<Rightarrow> string Router" where
  "demo_router m = \<lparr> ro_vpn = VPN_DialContext demo_vpn, ro_internet = (\<lambda>n a. Inr ''net''), ro_direct = (\<lambda>n a. Inr ''dir''), ro_mode = m \<rparr>"

lemma demo_target:
  "vpn_target demo_vpn ''10.0.0.2:80'' = Inr (([10, 0, 0, 2], 80), None)"
  "vpn_target demo_vpn ''8.8.8.8:80'' = Inr (([8, 8, 8, 8], 80), None)"
  by code_simp+

theorem Router_modes_witness:
  "Router_DialContext (demo_router RoutingModeRule) ''tcp'' ''8.8.8.8:80''
     = (Inr (''net'', \<lparr> route_Outbound = ''internet'', route_Reason = ''resource_not_matched'' \<rparr>), [''atrust'', ''internet''])"
proof -
  have sane: "sane_stack demo_vpn" by (simp add: sane_stack_def demo_vpn_def)
  have "\<not> in_range [8, 8, 8, 8] (hd (vo_ipResources demo_vpn))" by (simp add: in_range_def demo_vpn_def)
  then have "\<not> vpn_covers demo_vpn ''tcp'' ''8.8.8.8:80''"
    unfolding vpn_covers_def demo_target by (simp add: matchesResources_def demo_vpn_def)
  then show ?thesis
    using Router_modes [OF sane, of "demo_router RoutingModeRule" "''tcp''" "''8.8.8.8:80''"]
    by (simp add: demo_router_def routed_def outbound_names RouteReasonResourceNotMatched_def)
qed

text \<open>C24. The VPN outbound connects only to published resources: a connection it makes goes to an IPv4
  address and port that lie in a published numeric range for that protocol, or belong to a domain
  resource the resolver matched for the host.\<close>

theorem VPN_only_resources:
  assumes "VPN_DialContext o1 network address = Inr c"
  shows "\<exists>p port d. vpn_target o1 address = Inr ((p, port), d) \<and> length p = 4 \<and> network \<in> {''tcp'', ''tcp4'', ''udp'', ''udp4''}
     \<and> ((\<exists>res. d = Some res \<and> dom_PortMin res \<le> port \<and> port \<le> dom_PortMax res
            \<and> dom_Protocol res \<in> {resource_network network, ''all''})
       \<or> (\<exists>r \<in> set (vo_ipResources o1). \<exists>lo hi. To4 (ipr_IPMin r) = Some lo \<and> To4 (ipr_IPMax r) = Some hi
            \<and> ip4_val lo \<le> ip4_val p \<and> ip4_val p \<le> ip4_val hi \<and> ipr_PortMin r \<le> port \<and> port \<le> ipr_PortMax r
            \<and> ipr_Protocol r \<in> {resource_network network, ''all''}))"
proof -
  obtain p port d where t: "vpn_target o1 address = Inr ((p, port), d)"
    and m: "matchesResources (vo_ipResources o1) d p port network" and n: "network \<in> {''tcp'', ''tcp4'', ''udp'', ''udp4''}"
    using assms by (auto simp: VPN_DialContext_def rbind_Inr split: if_splits)
  have "\<exists>p0. To4 p0 = Some p"
    using t by (auto simp: vpn_target_def rbind_Inr split: option.splits prod.splits)
  then have l: "length p = 4" using To4_length by blast
  show ?thesis
  proof (cases "\<exists>r \<in> set (vo_ipResources o1). in_range p r
      \<and> resourceMatches (ipr_PortMin r) (ipr_PortMax r) (ipr_Protocol r) port (resource_network network)")
    case True
    then obtain r where r: "r \<in> set (vo_ipResources o1)" "in_range p r"
      "resourceMatches (ipr_PortMin r) (ipr_PortMax r) (ipr_Protocol r) port (resource_network network)" by blast
    obtain lo hi where "To4 (ipr_IPMin r) = Some lo" "To4 (ipr_IPMax r) = Some hi" "ip4_val lo \<le> ip4_val p" "ip4_val p \<le> ip4_val hi"
      using in_range_numeric [OF l r(2)] by blast
    then have "\<exists>r \<in> set (vo_ipResources o1). \<exists>lo hi. To4 (ipr_IPMin r) = Some lo \<and> To4 (ipr_IPMax r) = Some hi
        \<and> ip4_val lo \<le> ip4_val p \<and> ip4_val p \<le> ip4_val hi \<and> ipr_PortMin r \<le> port \<and> port \<le> ipr_PortMax r
        \<and> ipr_Protocol r \<in> {resource_network network, ''all''}"
      using r(1,3) by (intro bexI [of _ r]) (auto simp: resourceMatches_def)
    then show ?thesis using t l n by blast
  next
    case False
    then obtain res where "d = Some res"
      "resourceMatches (dom_PortMin res) (dom_PortMax res) (dom_Protocol res) port (resource_network network)"
      using m by (auto simp: matchesResources_def list_ex_iff split: option.splits)
    then have "\<exists>res. d = Some res \<and> dom_PortMin res \<le> port \<and> port \<le> dom_PortMax res
        \<and> dom_Protocol res \<in> {resource_network network, ''all''}" by (auto simp: resourceMatches_def)
    then show ?thesis using t l n by blast
  qed
qed

theorem VPN_only_resources_witness:
  "\<exists>p port d. vpn_target demo_vpn ''10.0.0.2:80'' = Inr ((p, port), d) \<and> length p = 4"
proof -
  have "in_range [10, 0, 0, 2] (hd (vo_ipResources demo_vpn))" by (simp add: in_range_def demo_vpn_def)
  then have "VPN_DialContext demo_vpn ''tcp'' ''10.0.0.2:80'' = Inr ''vpn''"
    unfolding VPN_DialContext_def demo_target
    by (simp add: matchesResources_def demo_vpn_def resourceMatches_def resource_network_def)
  from VPN_only_resources [OF this] show ?thesis by blast
qed

end
