(* ===== verification/SessionRuntime.thy ===== *)
theory SessionRuntime
  imports CoreEvents Resources
begin

text \<open>
  The aTrust runtime behind a session, \<^verbatim>\<open>src/internal/atrustruntime\<close>: its configuration and the
  dependencies it is built from (\<^verbatim>\<open>runtime.go\<close>), the resume state with the base-64 coding of
  \<^verbatim>\<open>encoding/base64\<close> (\<^verbatim>\<open>resume.go\<close>), the wrapper of the network runtime (\<^verbatim>\<open>network.go\<close>), the
  resource snapshot (\<^verbatim>\<open>resources.go\<close>) and the construction and closing of a runtime.

  Runtimes, clients and network runtimes are shared by pointer, so they live in a heap; a
  reference is a number. JSON decoding is a parameter.
\<close>

section \<open>Base 64\<close>

definition b64_char :: "nat \<Rightarrow> char" where
  "b64_char n = (if n < 26 then char_of (65 + n) else if n < 52 then char_of (71 + n)
     else if n < 62 then char_of (n - 4) else if n = 62 then CHR ''+'' else CHR ''/'')"

definition b64_val :: "char \<Rightarrow> nat option" where
  "b64_val c = (let n = (of_char c :: nat) in
     if 65 \<le> n \<and> n \<le> 90 then Some (n - 65) else if 97 \<le> n \<and> n \<le> 122 then Some (n - 71)
     else if 48 \<le> n \<and> n \<le> 57 then Some (n + 4) else if n = 43 then Some 62 else if n = 47 then Some 63 else None)"

fun EncodeToString :: "bytes \<Rightarrow> string" where
  "EncodeToString [] = []"
| "EncodeToString [a] = [b64_char (unat a div 4), b64_char (unat a mod 4 * 16), CHR ''='', CHR ''='']"
| "EncodeToString [a, b] =
     [b64_char (unat a div 4), b64_char (unat a mod 4 * 16 + unat b div 16), b64_char (unat b mod 16 * 4), CHR ''='']"
| "EncodeToString (a # b # c # xs) =
     b64_char (unat a div 4) # b64_char (unat a mod 4 * 16 + unat b div 16)
     # b64_char (unat b mod 16 * 4 + unat c div 64) # b64_char (unat c mod 64) # EncodeToString xs"

text \<open>Decoding drops line breaks, takes four characters at a time, and accepts padding only at the
  end. The unused low bits of a padded group are not checked, as in the non-strict decoder.\<close>

definition b64_group2 :: "char \<Rightarrow> char \<Rightarrow> bytes option" where
  "b64_group2 p q = (case (b64_val p, b64_val q) of
     (Some x, Some y) \<Rightarrow> Some [word_of_nat (x * 4 + y div 16)] | _ \<Rightarrow> None)"

definition b64_group3 :: "char \<Rightarrow> char \<Rightarrow> char \<Rightarrow> bytes option" where
  "b64_group3 p q r = (case (b64_val p, b64_val q, b64_val r) of
     (Some x, Some y, Some z) \<Rightarrow> Some [word_of_nat (x * 4 + y div 16), word_of_nat (y mod 16 * 16 + z div 4)] | _ \<Rightarrow> None)"

definition b64_group4 :: "char \<Rightarrow> char \<Rightarrow> char \<Rightarrow> char \<Rightarrow> bytes option" where
  "b64_group4 p q r s = (case (b64_val p, b64_val q, b64_val r, b64_val s) of
     (Some x, Some y, Some z, Some w) \<Rightarrow>
       Some [word_of_nat (x * 4 + y div 16), word_of_nat (y mod 16 * 16 + z div 4), word_of_nat (z mod 4 * 64 + w)]
   | _ \<Rightarrow> None)"

fun b64_decode :: "string \<Rightarrow> bytes option" where
  "b64_decode [] = Some []"
| "b64_decode (p # q # r # s # cs) =
     (if s = CHR ''='' then
        (if cs \<noteq> [] then None else if r = CHR ''='' then b64_group2 p q else b64_group3 p q r)
      else case b64_group4 p q r s of None \<Rightarrow> None | Some g \<Rightarrow>
             (case b64_decode cs of None \<Rightarrow> None | Some bs \<Rightarrow> Some (g @ bs)))"
| "b64_decode _ = None"

definition DecodeString :: "string \<Rightarrow> bytes option" where
  "DecodeString s = b64_decode (filter (\<lambda>c. c \<noteq> CHR 0x0A \<and> c \<noteq> CHR 0x0D) s)"

lemma b64_char_props:
  assumes "n < 64"
  shows "b64_val (b64_char n) = Some n" "b64_char n \<noteq> CHR ''=''" "b64_char n \<noteq> CHR 0x0A" "b64_char n \<noteq> CHR 0x0D"
proof -
  consider "n < 26" | "26 \<le> n" "n < 52" | "52 \<le> n" "n < 62" | "n = 62" | "n = 63" using assms by linarith
  then have c: "of_char (b64_char n) = (if n < 26 then 65 + n else if n < 52 then 71 + n else if n < 62 then n - 4
      else if n = 62 then 43 else 47 :: nat)"
    by cases (simp_all add: b64_char_def)
  show "b64_val (b64_char n) = Some n" using assms unfolding b64_val_def Let_def c by auto
  have ne: "of_char (b64_char n) \<noteq> (61 :: nat) \<and> of_char (b64_char n) \<noteq> (10 :: nat) \<and> of_char (b64_char n) \<noteq> (13 :: nat)"
    unfolding c by auto
  show "b64_char n \<noteq> CHR ''=''" "b64_char n \<noteq> CHR 0x0A" "b64_char n \<noteq> CHR 0x0D"
    using ne by auto
qed

text \<open>The 6-bit pieces of up to three bytes, and the bytes back from them.\<close>

lemma sextets:
  fixes a b c :: u8
  shows "unat a div 4 < 64" "unat a mod 4 * 16 < 64" "unat a mod 4 * 16 + unat b div 16 < 64" "unat b mod 16 * 4 < 64"
    "unat b mod 16 * 4 + unat c div 64 < 64" "unat c mod 64 < 64"
proof -
  have l: "unat a < 256" "unat b < 256" "unat c < 256" using unsigned_less [of a] unsigned_less [of b] unsigned_less [of c] by simp_all
  then have d: "unat a div 4 < 64" "unat b div 16 < 16" "unat c div 64 < 4" by (simp_all add: less_mult_imp_div_less)
  have m: "unat a mod 4 < 4" "unat b mod 16 < 16" "unat c mod 64 < 64" by simp_all
  show "unat a div 4 < 64" "unat a mod 4 * 16 < 64" "unat a mod 4 * 16 + unat b div 16 < 64" "unat b mod 16 * 4 < 64"
    "unat b mod 16 * 4 + unat c div 64 < 64" "unat c mod 64 < 64" using d m by linarith+
qed

lemma octets:
  fixes a b c :: u8
  shows "unat a div 4 * 4 + (unat a mod 4 * 16 + unat b div 16) div 16 = unat a"
    "unat a div 4 * 4 + unat a mod 4 * 16 div 16 = unat a"
    "(unat a mod 4 * 16 + unat b div 16) mod 16 * 16 + (unat b mod 16 * 4 + unat c div 64) div 4 = unat b"
    "(unat a mod 4 * 16 + unat b div 16) mod 16 * 16 + unat b mod 16 * 4 div 4 = unat b"
    "(unat b mod 16 * 4 + unat c div 64) mod 4 * 64 + unat c mod 64 = unat c"
proof -
  have l: "unat b < 256" "unat c < 256" using unsigned_less [of b] unsigned_less [of c] by simp_all
  then have d: "unat b div 16 < 16" "unat c div 64 < 4" by (simp_all add: less_mult_imp_div_less)
  show "unat a div 4 * 4 + (unat a mod 4 * 16 + unat b div 16) div 16 = unat a"
    "unat a div 4 * 4 + unat a mod 4 * 16 div 16 = unat a"
    "(unat a mod 4 * 16 + unat b div 16) mod 16 * 16 + (unat b mod 16 * 4 + unat c div 64) div 4 = unat b"
    "(unat a mod 4 * 16 + unat b div 16) mod 16 * 16 + unat b mod 16 * 4 div 4 = unat b"
    "(unat b mod 16 * 4 + unat c div 64) mod 4 * 64 + unat c mod 64 = unat c"
    using d by simp_all
qed

lemma word_of_nat_unat_id: "word_of_nat (unat a) = (a :: u8)"
  by simp

lemma encode_no_breaks: "filter (\<lambda>c. c \<noteq> CHR 0x0A \<and> c \<noteq> CHR 0x0D) (EncodeToString bs) = EncodeToString bs"
  by (induction bs rule: EncodeToString.induct) (simp_all add: b64_char_props sextets)

lemma b64_decode_encode: "b64_decode (EncodeToString bs) = Some bs"
proof (induction bs rule: EncodeToString.induct)
  case (2 a)
  show ?case by (simp add: b64_char_props sextets b64_group2_def octets(2))
next
  case (3 a b)
  have "b64_group3 (b64_char (unat a div 4)) (b64_char (unat a mod 4 * 16 + unat b div 16)) (b64_char (unat b mod 16 * 4)) = Some [a, b]"
    by (simp only: b64_group3_def b64_char_props sextets octets prod.case option.case word_of_nat_unat_id)
  then show ?case by (simp add: b64_char_props sextets)
next
  case (4 a b c xs)
  have "b64_group4 (b64_char (unat a div 4)) (b64_char (unat a mod 4 * 16 + unat b div 16))
      (b64_char (unat b mod 16 * 4 + unat c div 64)) (b64_char (unat c mod 64)) = Some [a, b, c]"
    by (simp only: b64_group4_def b64_char_props sextets octets prod.case option.case word_of_nat_unat_id)
  with 4 show ?case by (simp add: b64_char_props sextets)
qed simp

lemma DecodeString_EncodeToString [simp]: "DecodeString (EncodeToString bs) = Some bs"
  by (simp add: DecodeString_def encode_no_breaks b64_decode_encode)

lemma EncodeToString_Nil [simp]: "EncodeToString bs = [] \<longleftrightarrow> bs = []"
  by (cases bs rule: EncodeToString.cases) simp_all

section \<open>Configuration\<close>

datatype NodeSelectionHandler = NoHandler | SessionHandler | RefreshHandler

record RuntimeConfig =
  rc_ResumeState :: "ResumeState option"
  rc_ServerAddress :: string
  rc_ServerPort :: int
  rc_Username :: string
  rc_Password :: string
  rc_Phone :: string
  rc_LoginDomain :: string
  rc_AuthType :: string
  rc_GraphCodeFile :: string
  rc_CASTicket :: string
  rc_OAuth2Code :: string
  rc_SID :: string
  rc_DeviceID :: string
  rc_SignKey :: string
  rc_ClientDataFile :: string
  rc_ResourceFile :: string
  rc_UpdateBestNodesInterval :: int
  rc_BindInterface :: string
  rc_AutoDetectInterface :: bool
  rc_SkipTCPTunnelWait :: bool
  rc_DisableAutoReconnect :: bool
  rc_SetupNetwork :: bool
  rc_TCPTunnelMode :: bool
  rc_DisableRemoteDNS :: bool
  rc_RemoteDNSServer :: string
  rc_SecondaryDNSServer :: string
  rc_DNSTTL :: u64
  rc_DNSBind :: string
  rc_Hosts :: "string \<rightharpoonup> string"
  rc_SOCKSBind :: string
  rc_SOCKSUsername :: string
  rc_SOCKSPassword :: string
  rc_HTTPBind :: string
  rc_TUNEnabled :: bool
  rc_TUNName :: string
  rc_TUNAddress :: string
  rc_TUNMTU :: u32
  rc_TUNAutoRoute :: bool
  rc_TUNRouteAll :: bool
  rc_TUNStrictRoute :: bool
  rc_TUNStack :: string
  rc_TUNOutboundInterface :: string
  rc_TUNUDPTimeoutSeconds :: int
  rc_TUNUDPMaxFlows :: int
  rc_TUNDNSHijack :: bool
  rc_TUNFakeIP :: bool
  rc_TUNFakeIPRange :: string
  rc_RoutingMode :: RoutingMode
  rc_InternetOutbound :: InternetOutboundConfig
  rc_NetworkRuntime :: "nat option"
  rc_NodeSelectionHandler :: NodeSelectionHandler

section \<open>Resume state\<close>

definition ResumeStateFormatATrustClientData :: string where
  "ResumeStateFormatATrustClientData = ''atrust-client-data''"

definition ResumeStateVersion1 :: int where "ResumeStateVersion1 = 1"

definition no_resume :: ResumeState where
  "no_resume = \<lparr> rs_Format = [], rs_Version = 0, rs_Revision = 0,
     rs_Scope = \<lparr> scope_ServerAddress = [], scope_ServerPort = 0, scope_Username = [] \<rparr>, rs_UpdatedAt = 0, rs_Data = [], rs_Reused = False \<rparr>"

text \<open>\<open>parse\<close> is \<^verbatim>\<open>json.Unmarshal\<close> into \<^verbatim>\<open>auth.ClientAuthData\<close>; its result is the device identifier.\<close>

definition decodeResumeState :: "(bytes \<Rightarrow> string result) \<Rightarrow> RuntimeConfig \<Rightarrow> ResumeState \<Rightarrow> (bytes \<times> u64) result" where
  "decodeResumeState parse config state =
     (if rs_Format state \<noteq> ResumeStateFormatATrustClientData \<or> rs_Version state \<noteq> ResumeStateVersion1 then
        Inl (WrapError ErrorCodeResumeStateInvalid
          (''unsupported resume state format '' @ quote (rs_Format state) @ '' version '' @ show_int (rs_Version state)) False None)
      else if \<not> EqualFold (scope_ServerAddress (rs_Scope state)) (rc_ServerAddress config)
           \<or> scope_ServerPort (rs_Scope state) \<noteq> rc_ServerPort config then
        Inl (WrapError ErrorCodeResumeStateScope ''resume state server does not match session config'' False None)
      else if scope_Username (rs_Scope state) \<noteq> [] \<and> rc_Username config \<noteq> []
           \<and> scope_Username (rs_Scope state) \<noteq> rc_Username config then
        Inl (WrapError ErrorCodeResumeStateScope ''resume state username does not match session config'' False None)
      else case DecodeString (rs_Data state) of
          None \<Rightarrow> Inl (WrapError ErrorCodeResumeStateInvalid ''decode resume state data'' False (Some (Opaque ''illegal base64 data'')))
        | Some data \<Rightarrow>
            (case parse data of
               Inl err \<Rightarrow> Inl (WrapError ErrorCodeResumeStateInvalid ''parse resume state client data'' False (Some err))
             | Inr deviceID \<Rightarrow>
                 if deviceID = [] then Inl (WrapError ErrorCodeResumeStateInvalid ''resume state device ID is empty'' False None)
                 else Inr (data, rs_Revision state)))"

text \<open>The client contributes its user name and whether its login was reused.\<close>

definition encodeResumeState :: "int \<Rightarrow> RuntimeConfig \<Rightarrow> string \<Rightarrow> bool \<Rightarrow> bytes \<Rightarrow> u64 \<Rightarrow> ResumeState" where
  "encodeResumeState now config clientUsername reused data revision =
     (if length data = 0 then no_resume
      else \<lparr> rs_Format = ResumeStateFormatATrustClientData, rs_Version = ResumeStateVersion1, rs_Revision = revision,
             rs_Scope = \<lparr> scope_ServerAddress = rc_ServerAddress config, scope_ServerPort = rc_ServerPort config,
               scope_Username = (if clientUsername = [] then rc_Username config else clientUsername) \<rparr>,
             rs_UpdatedAt = now, rs_Data = EncodeToString data, rs_Reused = reused \<rparr>)"

section \<open>Errors of the set-up\<close>

text \<open>The first \<^verbatim>\<open>net.Error\<close> of the chain: its time-out and temporary flags. The context deadline,
  the closed-connection error and every errno are \<^verbatim>\<open>net.Error\<close>s too.\<close>

definition errno_timeout :: "string \<Rightarrow> bool" where
  "errno_timeout e = (e \<in> {''EAGAIN'', ''EWOULDBLOCK'', ''ETIMEDOUT''})"

fun sentinel_net :: "sentinel \<Rightarrow> (bool \<times> bool) option" where
  "sentinel_net ContextDeadlineExceeded = Some (True, True)"
| "sentinel_net OsErrDeadlineExceeded = Some (True, True)"
| "sentinel_net NetErrClosed = Some (False, False)"
| "sentinel_net (Syscall e) = Some (errno_timeout e, errno_timeout e \<or> e \<in> {''EINTR'', ''EMFILE'', ''ENFILE''})"
| "sentinel_net _ = None"

fun errors_As_net :: "gerror \<Rightarrow> (bool \<times> bool) option" where
  "errors_As_net (NetError timeout temporary _) = Some (timeout, temporary)"
| "errors_As_net (DNSError _ _) = Some (False, False)"
| "errors_As_net (Sentinel s) = sentinel_net s"
| "errors_As_net (Wrap _ e) = errors_As_net e"
| "errors_As_net (Joined es) = first_some errors_As_net es"
| "errors_As_net (CoreErr _ _ _ _ c) = (case c of None \<Rightarrow> None | Some e \<Rightarrow> errors_As_net e)"
| "errors_As_net (Opaque _) = None"

definition retryable_errnos :: "sentinel list" where
  "retryable_errnos = map Syscall [''ECONNABORTED'', ''ECONNREFUSED'', ''ECONNRESET'', ''EHOSTUNREACH'', ''ENETDOWN'',
     ''ENETRESET'', ''ENETUNREACH'', ''ETIMEDOUT'']"

definition isRetryableATrustSetupError :: "gerror \<Rightarrow> bool" where
  "isRetryableATrustSetupError err =
     (if ErrorCodeOf err \<noteq> ErrorCodeUnknown then IsRetryable err
      else if errors_Is err ContextCanceled then False
      else if errors_Is err ContextDeadlineExceeded \<or> errors_Is err IoEOF \<or> errors_Is err IoUnexpectedEOF then True
      else if (case errors_As_net err of None \<Rightarrow> False | Some (timeout, temporary) \<Rightarrow> timeout \<or> temporary) then True
      else list_ex (errors_Is err) retryable_errnos)"

definition wrapATrustSetupError :: "gerror \<Rightarrow> gerror" where
  "wrapATrustSetupError err =
     (let code = ErrorCodeOf err in
      WrapError (if code = ErrorCodeUnknown then ErrorCodeATrustSetupFailed else code) ''setup aTrust client''
        (isRetryableATrustSetupError err) (Some err))"

section \<open>The network runtime as the session sees it\<close>

text \<open>
  \<^verbatim>\<open>networkSession\<close> wraps a \<^verbatim>\<open>core.Outbound\<close> and asks it for optional interfaces by type assertion;
  an interface that is not implemented is \<^const>\<open>None\<close>. \<open>ob_health\<close> is what \<^verbatim>\<open>Err\<close> returns,
  \<open>ob_closeErr\<close> what \<^verbatim>\<open>Close\<close> returns.
\<close>

record statistics =
  st_traffic :: TrafficStats
  st_connections :: "ConnectionInfo list"
  st_transports :: "TransportConnectionInfo list"
  st_closeConnection :: "string \<Rightarrow> gerror option"

record Outbound =
  ob_closed :: bool
  ob_closeErr :: "gerror option"
  ob_health :: "gerror option option"
  ob_services :: "ServiceStatus list option"
  ob_statistics :: "statistics option"
  ob_routing :: "RoutingMode option"
  ob_replaceable :: bool

record Runtime =
  rt_client :: "nat option"
  rt_outbound :: "nat option"
  rt_resumeState :: ResumeState
  rt_closeClient :: "nat option"
  rt_ownsOutbound :: bool
  rt_closeOnce :: bool
  rt_closeErr :: "gerror option"

record world =
  w_outs :: "nat \<Rightarrow> Outbound"
  w_rts :: "nat \<Rightarrow> Runtime"
  w_nrts :: nat
  w_nclients :: nat
  w_closedClients :: "nat set"
  w_now :: int

definition unavailable :: "string \<Rightarrow> gerror" where
  "unavailable m = WrapError ErrorCodeOutboundUnavailable m True None"

definition net_Close :: "nat \<Rightarrow> 'z world_scheme \<Rightarrow> gerror option \<times> 'z world_scheme" where
  "net_Close o' w = (ob_closeErr (w_outs w o'), w\<lparr>w_outs := (w_outs w)(o' := (w_outs w o')\<lparr>ob_closed := True\<rparr>)\<rparr>)"

text \<open>\<^verbatim>\<open>Done\<close> is nil unless the outbound reports its health.\<close>

definition net_has_Done :: "nat \<Rightarrow> 'z world_scheme \<Rightarrow> bool" where
  "net_has_Done o' w = (ob_health (w_outs w o') \<noteq> None)"

definition net_Err :: "nat \<Rightarrow> 'z world_scheme \<Rightarrow> gerror option" where
  "net_Err o' w = (case ob_health (w_outs w o') of None \<Rightarrow> None | Some e \<Rightarrow> e)"

definition net_Services :: "nat \<Rightarrow> 'z world_scheme \<Rightarrow> ServiceStatus list result" where
  "net_Services o' w = (case ob_services (w_outs w o') of None \<Rightarrow> Inl (unavailable ''session runtime is unavailable'') | Some l \<Rightarrow> Inr l)"

definition net_TrafficStats :: "nat \<Rightarrow> 'z world_scheme \<Rightarrow> TrafficStats result" where
  "net_TrafficStats o' w = (case ob_statistics (w_outs w o') of
     None \<Rightarrow> Inl (unavailable ''traffic statistics are unavailable'') | Some p \<Rightarrow> Inr (st_traffic p))"

definition net_Connections :: "nat \<Rightarrow> 'z world_scheme \<Rightarrow> ConnectionInfo list result" where
  "net_Connections o' w = (case ob_statistics (w_outs w o') of
     None \<Rightarrow> Inl (unavailable ''connection statistics are unavailable'') | Some p \<Rightarrow> Inr (st_connections p))"

definition net_CloseConnection :: "nat \<Rightarrow> string \<Rightarrow> 'z world_scheme \<Rightarrow> gerror option" where
  "net_CloseConnection o' conn w = (case ob_statistics (w_outs w o') of
     None \<Rightarrow> Some (unavailable ''connection control is unavailable'') | Some p \<Rightarrow> st_closeConnection p conn)"

definition net_TransportConnections :: "nat \<Rightarrow> 'z world_scheme \<Rightarrow> TransportConnectionInfo list result" where
  "net_TransportConnections o' w = (case ob_statistics (w_outs w o') of
     None \<Rightarrow> Inl (unavailable ''transport connection statistics are unavailable'') | Some p \<Rightarrow> Inr (st_transports p))"

definition net_RoutingMode :: "nat \<Rightarrow> 'z world_scheme \<Rightarrow> RoutingMode result" where
  "net_RoutingMode o' w = (case ob_routing (w_outs w o') of
     None \<Rightarrow> Inl (unavailable ''routing mode is unavailable'') | Some m \<Rightarrow> Inr m)"

text \<open>The provider is the network runtime, whose router rejects an invalid mode.\<close>

definition net_SetRoutingMode :: "nat \<Rightarrow> RoutingMode \<Rightarrow> 'z world_scheme \<Rightarrow> RoutingMode result \<times> 'z world_scheme" where
  "net_SetRoutingMode o' mode w =
     (case ob_routing (w_outs w o') of
        None \<Rightarrow> (Inl (unavailable ''routing mode is unavailable''), w)
      | Some previous \<Rightarrow>
          if \<not> mode_Valid mode
          then (Inl (WrapError ErrorCodeInvalidRequest (''invalid routing mode '' @ quote (mode_string mode)) False None), w)
          else (Inr previous, w\<lparr>w_outs := (w_outs w)(o' := (w_outs w o')\<lparr>ob_routing := Some mode\<rparr>)\<rparr>))"

definition net_same :: "nat option \<Rightarrow> nat option \<Rightarrow> bool" where
  "net_same network other = (network \<noteq> None \<and> other \<noteq> None \<and> network = other)"

section \<open>Closing a runtime\<close>

definition close_client :: "nat option \<Rightarrow> 'z world_scheme \<Rightarrow> 'z world_scheme" where
  "close_client c w = (case c of None \<Rightarrow> w | Some i \<Rightarrow> w\<lparr>w_closedClients := insert i (w_closedClients w)\<rparr>)"

definition put_rt :: "nat \<Rightarrow> Runtime \<Rightarrow> 'z world_scheme \<Rightarrow> 'z world_scheme" where
  "put_rt r rt w = w\<lparr>w_rts := (w_rts w)(r := rt)\<rparr>"

definition DetachOutbound :: "nat \<Rightarrow> 'z world_scheme \<Rightarrow> nat option \<times> 'z world_scheme" where
  "DetachOutbound r w = (rt_outbound (w_rts w r), put_rt r ((w_rts w r)\<lparr>rt_ownsOutbound := False\<rparr>) w)"

definition rt_has_Done :: "nat \<Rightarrow> 'z world_scheme \<Rightarrow> bool" where
  "rt_has_Done r w = (case rt_outbound (w_rts w r) of None \<Rightarrow> False | Some o' \<Rightarrow> net_has_Done o' w)"

definition rt_Err :: "nat \<Rightarrow> 'z world_scheme \<Rightarrow> gerror option" where
  "rt_Err r w = (case rt_outbound (w_rts w r) of None \<Rightarrow> None | Some o' \<Rightarrow> net_Err o' w)"

definition rt_ResumeState :: "nat \<Rightarrow> 'z world_scheme \<Rightarrow> ResumeState result" where
  "rt_ResumeState r w =
     (if rs_Data (rt_resumeState (w_rts w r)) = []
      then Inl (WrapError ErrorCodeResumeStateUnavailable ''resume state is unavailable'' True None)
      else Inr (rt_resumeState (w_rts w r)))"

text \<open>\<^verbatim>\<open>resumeState, _ := runtime.ResumeState()\<close>\<close>

definition resume_or_zero :: "ResumeState result \<Rightarrow> ResumeState" where
  "resume_or_zero r = (case r of Inl _ \<Rightarrow> no_resume | Inr s \<Rightarrow> s)"

text \<open>The candidate's client moves to the runtime; the client it replaces is returned to be closed.\<close>

definition adoptClient :: "nat \<Rightarrow> nat \<Rightarrow> 'z world_scheme \<Rightarrow> nat option \<times> 'z world_scheme" where
  "adoptClient r candidate w =
     (let c = w_rts w candidate;
          w1 = put_rt candidate (c\<lparr>rt_client := None, rt_closeClient := None\<rparr>) w;
          old = w_rts w1 r;
          w2 = put_rt r (old\<lparr>rt_client := rt_client c, rt_resumeState := rt_resumeState c, rt_closeClient := rt_closeClient c\<rparr>) w1
      in (if rt_closeClient old \<noteq> None then rt_closeClient old else rt_client old, w2))"

definition rt_close_body :: "nat \<Rightarrow> 'z world_scheme \<Rightarrow> 'z world_scheme" where
  "rt_close_body r w =
     (let rt = w_rts w r;
          (err, w1) = (if rt_ownsOutbound rt then
             (case rt_outbound rt of None \<Rightarrow> (rt_closeErr rt, w) | Some o' \<Rightarrow> net_Close o' w) else (rt_closeErr rt, w));
          rt1 = w_rts w1 r;
          w2 = put_rt r (rt1\<lparr>rt_client := None, rt_closeClient := None, rt_closeOnce := True, rt_closeErr := err\<rparr>) w1
      in close_client (if rt_closeClient rt1 \<noteq> None then rt_closeClient rt1 else rt_client rt1) w2)"

text \<open>\<open>expired\<close> is the error of a context that ends before the closing does; the closing goes on.\<close>

definition CloseContext :: "gerror option \<Rightarrow> nat \<Rightarrow> 'z world_scheme \<Rightarrow> gerror option \<times> 'z world_scheme" where
  "CloseContext expired r w =
     (let w' = (if rt_closeOnce (w_rts w r) then w else rt_close_body r w)
      in (if expired \<noteq> None then expired else rt_closeErr (w_rts w' r), w'))"

definition rt_Close :: "nat \<Rightarrow> 'z world_scheme \<Rightarrow> 'z world_scheme" where
  "rt_Close r w = snd (CloseContext None r w)"

section \<open>Resource snapshot\<close>

definition optional :: "'a result \<Rightarrow> 'b \<Rightarrow> ('a \<Rightarrow> 'b) \<Rightarrow> 'b result" where
  "optional r zero f = (case r of Inr x \<Rightarrow> Inr (f x)
     | Inl e \<Rightarrow> if errors_Is e ErrResourceNotFound then Inr zero else Inl e)"

definition ip_entry :: "IPResource \<Rightarrow> CoreIPResource" where
  "ip_entry e = \<lparr> cipr_IPMin = IP_String (ipr_IPMin e), cipr_IPMax = IP_String (ipr_IPMax e), cipr_PortMin = ipr_PortMin e,
     cipr_PortMax = ipr_PortMax e, cipr_Protocol = ipr_Protocol e, cipr_AppID = ipr_AppID e, cipr_NodeGroupID = ipr_NodeGroupID e \<rparr>"

definition domain_entry :: "DomainResource \<Rightarrow> CoreDomainResource" where
  "domain_entry e = \<lparr> cdom_PortMin = dom_PortMin e, cdom_PortMax = dom_PortMax e, cdom_Protocol = dom_Protocol e,
     cdom_AppID = dom_AppID e, cdom_NodeGroupID = dom_NodeGroupID e \<rparr>"

definition snapshotResources ::
  "ip result \<Rightarrow> IPResource list result \<Rightarrow> (string \<rightharpoonup> DomainResource) result \<Rightarrow> (string \<rightharpoonup> ip) result \<Rightarrow> string result
   \<Rightarrow> CoreResources result" where
  "snapshotResources clientIP ipResources domainResources dnsResource dnsServer =
     rbind (optional clientIP [] IP_String) (\<lambda>cip.
     rbind (optional ipResources [] (map ip_entry)) (\<lambda>ips.
     rbind (optional domainResources Map.empty (\<lambda>m. map_option domain_entry \<circ> m)) (\<lambda>doms.
     rbind (optional dnsResource Map.empty (\<lambda>m. map_option IP_String \<circ> m)) (\<lambda>dns.
     rbind (optional dnsServer [] id) (\<lambda>server.
       Inr \<lparr> cres_Stale = False, cres_ClientIP = cip, cres_IPResources = ips, cres_DomainResources = doms,
             cres_DNSRecords = dns, cres_DNSServer = server \<rparr>)))))"

section \<open>Starting a runtime\<close>

datatype SetupStage = SetupStageDiscoveringAuth | SetupStageAuthenticating | SetupStageFetchingResources
  | SetupStageSelectingNodes | SetupStageEstablishingTunnel | SetupStageOther string

text \<open>What \<^verbatim>\<open>setup\<close> does to its caller: the callbacks it makes, in order, then its result.\<close>

datatype setup_call = NotifyStage SetupStage | NotifyNodes "string \<rightharpoonup> string"

record setup_result =
  su_data :: bytes
  su_username :: string
  su_reused :: bool

text \<open>
  The struct \<^verbatim>\<open>dependencies\<close>: the functions the runtime is given. They stand for one attempt to
  start; a nil byte slice is \<^const>\<open>None\<close>, and \<open>d_readResources\<close> and \<open>d_parse\<close> are the snapshot of the new
  client and the JSON decoder.
\<close>

record dependencies =
  d_readFile :: "string \<Rightarrow> bytes option \<times> gerror option"
  d_writeFile :: "string \<Rightarrow> bytes \<Rightarrow> gerror option"
  d_setup :: "RuntimeConfig \<Rightarrow> bytes option \<Rightarrow> bytes option \<Rightarrow> setup_call list \<times> setup_result result"
  d_setupNetwork :: "RuntimeConfig \<Rightarrow> nat option result"
  d_readResources :: "CoreResources option result"
  d_parse :: "bytes \<Rightarrow> string result"
  d_wait :: "int \<Rightarrow> gerror option"

definition read_resource_data :: "dependencies \<Rightarrow> RuntimeConfig \<Rightarrow> bytes option result" where
  "read_resource_data deps config =
     (if rc_ResourceFile config = [] then Inr None
      else case d_readFile deps (rc_ResourceFile config) of
          (data, None) \<Rightarrow> Inr data
        | (_, Some err) \<Rightarrow> Inl (WrapError ErrorCodeResourceDataReadFailed
            (''read resource file '' @ quote (rc_ResourceFile config)) False (Some err)))"

definition read_client_data :: "dependencies \<Rightarrow> RuntimeConfig \<Rightarrow> (bytes option \<times> u64) result" where
  "read_client_data deps config =
     (if rc_ResumeState config \<noteq> None \<and> rc_ClientDataFile config \<noteq> [] then
        Inl (WrapError ErrorCodeInvalidRequest ''resume_state and client_data_file cannot be used together'' False None)
      else case rc_ResumeState config of
          Some state \<Rightarrow> rbind (decodeResumeState (d_parse deps) config state) (\<lambda>(data, revision). Inr (Some data, revision))
        | None \<Rightarrow> if rc_ClientDataFile config \<noteq> [] then Inr (fst (d_readFile deps (rc_ClientDataFile config)), 0)
                  else Inr (None, 0))"

definition network_setup_error :: "gerror \<Rightarrow> gerror" where
  "network_setup_error err =
     (if ErrorCodeOf err \<noteq> ErrorCodeUnknown
      then WrapError (ErrorCodeOf err) ''setup VPN network runtime'' (IsRetryable err) (Some err)
      else WrapError ErrorCodeNetworkSetupFailed ''setup VPN network runtime'' False (Some err))"

text \<open>The network part of the set-up, on the runtime \<open>r\<close>.\<close>

definition setup_network :: "dependencies \<Rightarrow> RuntimeConfig \<Rightarrow> nat \<Rightarrow> 'z world_scheme \<Rightarrow> gerror option \<times> 'z world_scheme" where
  "setup_network deps config r w =
     (if \<not> rc_SetupNetwork config then (None, w)
      else case d_setupNetwork deps config of
          Inl err \<Rightarrow> (Some (network_setup_error err), rt_Close r w)
        | Inr None \<Rightarrow> (Some (WrapError ErrorCodeNetworkSetupFailed ''setup VPN network runtime'' False
              (Some (Opaque ''network runtime returned no outbound''))), rt_Close r w)
        | Inr (Some o') \<Rightarrow> (None, put_rt r ((w_rts w r)\<lparr>rt_outbound := Some o', rt_ownsOutbound := True\<rparr>) w))"

definition save_client_data :: "dependencies \<Rightarrow> RuntimeConfig \<Rightarrow> bytes \<Rightarrow> nat \<Rightarrow> 'z world_scheme \<Rightarrow> gerror option \<times> 'z world_scheme" where
  "save_client_data deps config data r w =
     (if rc_ClientDataFile config = [] then (None, w)
      else case d_writeFile deps (rc_ClientDataFile config) data of
          None \<Rightarrow> (None, w)
        | Some err \<Rightarrow> (Some (WrapError ErrorCodeClientDataWriteFailed
              (''write client data file '' @ quote (rc_ClientDataFile config)) False (Some err)), rt_Close r w))"

definition new_runtime :: "'z world_scheme \<Rightarrow> nat \<times> 'z world_scheme" where
  "new_runtime w =
     (let r = w_nrts w; c = w_nclients w in
      (r, (put_rt r \<lparr> rt_client = Some c, rt_outbound = None, rt_resumeState = no_resume, rt_closeClient = Some c,
             rt_ownsOutbound = False, rt_closeOnce = False, rt_closeErr = None \<rparr> w)\<lparr>w_nrts := Suc r, w_nclients := Suc c\<rparr>))"

text \<open>The callbacks of the set-up, with what other goroutines do before each.\<close>

fun run_calls :: "(nat \<Rightarrow> 's \<Rightarrow> 's) \<Rightarrow> (setup_call \<Rightarrow> 's \<Rightarrow> 's) \<Rightarrow> nat \<Rightarrow> setup_call list \<Rightarrow> 's \<Rightarrow> 's" where
  "run_calls y h k [] s = y k s"
| "run_calls y h k (c # cs) s = run_calls y h (Suc k) cs (h c (y k s))"

definition finish_start ::
  "RuntimeConfig \<Rightarrow> dependencies \<Rightarrow> u64 \<Rightarrow> setup_result \<Rightarrow> nat \<Rightarrow> 'z world_scheme \<Rightarrow> nat result \<times> 'z world_scheme" where
  "finish_start config deps revision su r w =
     (let w1 = put_rt r ((w_rts w r)\<lparr>rt_resumeState := encodeResumeState (w_now w) config (su_username su) (su_reused su)
              (su_data su) (revision + 1)\<rparr>) w;
          (err, w2) = setup_network deps config r w1
      in case err of
           Some e \<Rightarrow> (Inl e, w2)
         | None \<Rightarrow>
             (let (err, w3) = save_client_data deps config (su_data su) r w2
              in case err of Some e \<Rightarrow> (Inl e, w3) | None \<Rightarrow> (Inr r, w3)))"

definition startWithStageHandler ::
  "(nat \<Rightarrow> 'z world_scheme \<Rightarrow> 'z world_scheme) \<Rightarrow> (setup_call \<Rightarrow> 'z world_scheme \<Rightarrow> 'z world_scheme) \<Rightarrow> gerror option
   \<Rightarrow> RuntimeConfig \<Rightarrow> dependencies \<Rightarrow> 'z world_scheme \<Rightarrow> nat result \<times> 'z world_scheme" where
  "startWithStageHandler y handler ctxErr config deps w =
     (case ctxErr of Some e \<Rightarrow> (Inl e, w) | None \<Rightarrow>
      case read_resource_data deps config of Inl e \<Rightarrow> (Inl e, w) | Inr resourceData \<Rightarrow>
      case read_client_data deps config of Inl e \<Rightarrow> (Inl e, w) | Inr (clientData, revision) \<Rightarrow>
        (let (r, w1) = new_runtime w;
             (calls, outcome) = d_setup deps config clientData resourceData;
             w2 = run_calls y handler 0 calls w1
         in case outcome of
              Inl e \<Rightarrow> (Inl (wrapATrustSetupError e), rt_Close r w2)
            | Inr su \<Rightarrow> finish_start config deps revision su r w2))"

text \<open>The three ways a start goes: it fails before there is a runtime, in the set-up, or gets past it.\<close>

lemma startWith_cases:
  obtains (early) e where "startWithStageHandler y h ctxErr config deps w = (Inl e, w)"
  | (failed) e cs d1 d2 where "d_setup deps config d1 d2 = (cs, Inl e)"
      "startWithStageHandler y h ctxErr config deps w
       = (Inl (wrapATrustSetupError e), rt_Close (w_nrts w) (run_calls y h 0 cs (snd (new_runtime w))))"
  | (finished) cs su revision d1 d2 where "d_setup deps config d1 d2 = (cs, Inr su)"
      "startWithStageHandler y h ctxErr config deps w
       = finish_start config deps revision su (w_nrts w) (run_calls y h 0 cs (snd (new_runtime w)))"
proof (cases ctxErr)
  case None
  note ctx = this
  show thesis
  proof (cases "read_resource_data deps config")
    case (Inr rd)
    note rd = this
    show thesis
    proof (cases "read_client_data deps config")
      case (Inr cd)
      obtain cdata revision where cd: "cd = (cdata, revision)" by fastforce
      obtain cs outcome where d: "d_setup deps config cdata rd = (cs, outcome)" by fastforce
      have n: "new_runtime w = (w_nrts w, snd (new_runtime w))" by (simp add: new_runtime_def Let_def)
      have eq: "startWithStageHandler y h ctxErr config deps w =
          (case outcome of Inl e \<Rightarrow> (Inl (wrapATrustSetupError e), rt_Close (w_nrts w) (run_calls y h 0 cs (snd (new_runtime w))))
           | Inr su \<Rightarrow> finish_start config deps revision su (w_nrts w) (run_calls y h 0 cs (snd (new_runtime w))))"
        unfolding startWithStageHandler_def ctx rd Inr cd option.case sum.case prod.case by (subst n) (simp add: d Let_def)
      show thesis using failed [of cdata rd cs] finished [of cdata rd cs] d eq by (cases outcome) auto
    qed (use early in \<open>simp add: startWithStageHandler_def ctx rd\<close>)
  qed (use early in \<open>simp add: startWithStageHandler_def ctx\<close>)
qed (use early in \<open>simp add: startWithStageHandler_def\<close>)

end
