(* ===== verification/Session.thy ===== *)
theory Session
  imports SessionRuntime
begin

text \<open>
  A session, \<^verbatim>\<open>src/internal/atrustruntime/session.go\<close> with \<^verbatim>\<open>resume.go\<close>, \<^verbatim>\<open>routing.go\<close> and
  \<^verbatim>\<open>stats.go\<close>: starting, watching and reconnecting the runtime, refreshing resources, closing, and
  the bounded channel of events.

  Goroutines interleave at the points where a handler does not hold the session's mutex. A handler
  takes the actions of all other goroutines at these points as an argument
  \<open>y\<close> (\<open>y i k\<close> acts at the \<open>k\<close>-th opportunity of the \<open>i\<close>-th point); its theorems hold for every such
  argument that keeps what the other handlers guarantee. The record extends the heap of
  runtimes; \<open>w_now\<close> is the clock, which \<open>y\<close> may advance.
\<close>

section \<open>State\<close>

definition sessionEventBuffer :: nat where "sessionEventBuffer = 32"
definition reconnectInitialDelay :: int where "reconnectInitialDelay = 1000000000"
definition reconnectMaxDelay :: int where "reconnectMaxDelay = 30 * 1000000000"

record Session = world +
  ss_id :: SessionID
  ss_config :: RuntimeConfig
  ss_state :: SessionState
  ss_lastError :: "gerror option"
  ss_runtime :: "nat option"
  ss_network :: "nat option"
  ss_cancel :: bool
  ss_cancelled :: bool
  ss_stageErr :: "gerror option"
  ss_resources :: "CoreResources option"
  ss_selectedNodes :: "string \<rightharpoonup> string"
  ss_resumeState :: ResumeState
  ss_events :: "Event list"
  ss_startErr :: "gerror option option"
  ss_closed :: "(CleanupReport \<times> gerror option) option"
  ss_refreshNodes :: "string \<rightharpoonup> string"
  ss_refreshActive :: bool

definition newSession :: "SessionID \<Rightarrow> RuntimeConfig \<Rightarrow> (nat \<Rightarrow> Outbound) \<Rightarrow> (nat \<Rightarrow> Runtime) \<Rightarrow> int \<Rightarrow> Session" where
  "newSession sid config outs rts now =
     \<lparr> w_outs = outs, w_rts = rts, w_nrts = 0, w_nclients = 0, w_closedClients = {}, w_now = now,
       ss_id = sid, ss_config = config, ss_state = SessionStateIdle, ss_lastError = None, ss_runtime = None, ss_network = None,
       ss_cancel = False, ss_cancelled = False, ss_stageErr = None, ss_resources = None, ss_selectedNodes = Map.empty, ss_resumeState = no_resume,
       ss_events = [], ss_startErr = None, ss_closed = None, ss_refreshNodes = Map.empty, ss_refreshActive = False \<rparr>"

section \<open>Events and state changes\<close>

text \<open>A send on the full channel drops the oldest event first.\<close>

definition chan_emit :: "Event list \<Rightarrow> Event \<Rightarrow> Event list" where
  "chan_emit q e = (if length q < sessionEventBuffer then q @ [e] else tl q @ [e])"

definition emit :: "Event \<Rightarrow> Session \<Rightarrow> Session" where
  "emit e s = s\<lparr>ss_events := chan_emit (ss_events s) e\<rparr>"

definition transition :: "SessionState \<Rightarrow> Session \<Rightarrow> gerror option \<times> Session" where
  "transition next' s =
     (let previous = ss_state s in
      case ValidateSessionStateTransition previous next' of
        Some err \<Rightarrow> (Some err, s)
      | None \<Rightarrow> (let s1 = s\<lparr>ss_state := next'\<rparr> in (None, emit (NewStateChangedEvent (ss_id s) previous next' (w_now s1)) s1)))"

definition failWith :: "(Session \<Rightarrow> Session) \<Rightarrow> ErrorCode \<Rightarrow> string \<Rightarrow> gerror \<Rightarrow> Session \<Rightarrow> Session" where
  "failWith y code message err s =
     (let coreError = asCoreError code message err;
          s1 = s\<lparr>ss_lastError := Some coreError\<rparr>;
          state = ss_state s1;
          s2 = y s1;
          s3 = (if state \<noteq> SessionStateStopping \<and> state \<noteq> SessionStateStopped \<and> state \<noteq> SessionStateFailed
                then snd (transition SessionStateFailed s2) else s2)
      in emit ((event_of (ss_id s3) EventTypeSessionError (w_now s3))\<lparr>ev_Error := Some coreError\<rparr>) s3)"

definition fail :: "(Session \<Rightarrow> Session) \<Rightarrow> gerror \<Rightarrow> Session \<Rightarrow> Session" where
  "fail y err s = failWith y ErrorCodeSessionStartFailed ''start session'' err s"

fun setupStageState :: "SetupStage \<Rightarrow> SessionState option" where
  "setupStageState SetupStageDiscoveringAuth = Some SessionStateDiscoveringAuth"
| "setupStageState SetupStageAuthenticating = Some SessionStateAuthenticating"
| "setupStageState SetupStageFetchingResources = Some SessionStateFetchingResources"
| "setupStageState SetupStageSelectingNodes = Some SessionStateSelectingNodes"
| "setupStageState SetupStageEstablishingTunnel = Some SessionStateEstablishingTunnel"
| "setupStageState (SetupStageOther _) = None"

definition handleSetupStage :: "SetupStage \<Rightarrow> Session \<Rightarrow> Session" where
  "handleSetupStage stage s =
     (case setupStageState stage of
        None \<Rightarrow> s
      | Some state \<Rightarrow>
          (case transition state s of
             (None, s1) \<Rightarrow> s1
           | (Some err, s1) \<Rightarrow> if ss_stageErr s1 = None then s1\<lparr>ss_stageErr := Some err\<rparr> else s1))"

text \<open>A missing key reads as the empty string.\<close>

definition equalStringMaps :: "((string \<rightharpoonup> string) \<Rightarrow> string list) \<Rightarrow> (string \<rightharpoonup> string) \<Rightarrow> (string \<rightharpoonup> string) \<Rightarrow> bool" where
  "equalStringMaps ord left right =
     (length (ord left) = length (ord right)
      \<and> list_all (\<lambda>k. (case right k of None \<Rightarrow> [] | Some v \<Rightarrow> v) = (case left k of None \<Rightarrow> [] | Some v \<Rightarrow> v)) (ord left))"

definition handleNodeSelection :: "((string \<rightharpoonup> string) \<Rightarrow> string list) \<Rightarrow> (string \<rightharpoonup> string) \<Rightarrow> Session \<Rightarrow> Session" where
  "handleNodeSelection ord nodes s =
     (let changed = \<not> equalStringMaps ord (ss_selectedNodes s) nodes;
          s1 = s\<lparr>ss_selectedNodes := nodes\<rparr>
      in if changed \<and> ss_state s = SessionStateReady
         then emit (NewNodeSelectedEvent (ss_id s1) nodes (w_now s1)) s1 else s1)"

definition emitResourcesUpdated :: "CoreResources option \<Rightarrow> Session \<Rightarrow> Session" where
  "emitResourcesUpdated resources s =
     (case resources of None \<Rightarrow> s | Some r \<Rightarrow> emit (NewResourcesUpdatedEvent (ss_id s) r (w_now s)) s)"

definition emitNodes :: "(string \<rightharpoonup> string) \<Rightarrow> Session \<Rightarrow> Session" where
  "emitNodes nodes s = (if nodes = Map.empty then s else emit (NewNodeSelectedEvent (ss_id s) nodes (w_now s)) s)"

definition emitSelectedNodes :: "Session \<Rightarrow> Session" where
  "emitSelectedNodes s = emitNodes (ss_selectedNodes s) s"

definition serviceStatuses :: "nat option \<Rightarrow> Session \<Rightarrow> ServiceStatus list" where
  "serviceStatuses network s =
     (case network of None \<Rightarrow> [] | Some o' \<Rightarrow> (case net_Services o' s of Inl _ \<Rightarrow> [] | Inr l \<Rightarrow> l))"

definition emit_service :: "EventType \<Rightarrow> ServiceStatus \<Rightarrow> Session \<Rightarrow> Session" where
  "emit_service ty status s = emit (NewServiceEvent (ss_id s) ty status (w_now s)) s"

definition emitServiceEvents :: "nat option \<Rightarrow> EventType \<Rightarrow> Session \<Rightarrow> Session" where
  "emitServiceEvents network eventType s =
     foldl (\<lambda>s status. if eventType = EventTypeServiceStarted \<and> \<not> svc_Running status then s else emit_service eventType status s)
       s (serviceStatuses network s)"

definition mergeStoppedServiceStatuses :: "ServiceStatus list \<Rightarrow> ServiceStatus list \<Rightarrow> ServiceStatus list" where
  "mergeStoppedServiceStatuses before after =
     (let byType = foldl (\<lambda>m status. m(svc_Type status \<mapsto> status)) Map.empty after in
      map (\<lambda>b. case byType (svc_Type b) of
                 None \<Rightarrow> b
               | Some status \<Rightarrow> b\<lparr>svc_Running := svc_Running status, svc_LastError := svc_LastError status,
                   svc_Address := (if svc_Address b = [] then svc_Address status else svc_Address b)\<rparr>) before)"

definition emit_resume :: "ResumeState option \<Rightarrow> ResumeState \<Rightarrow> Session \<Rightarrow> Session" where
  "emit_resume given resumeState s =
     (let s1 = (case given of
            Some g \<Rightarrow> if \<not> rs_Reused resumeState then emit (NewResumeStateInvalidatedEvent (ss_id s) (rs_Revision g) (w_now s)) s else s
          | None \<Rightarrow> s)
      in emit (NewResumeStateUpdatedEvent (ss_id s1) (rs_Revision resumeState) (rs_Reused resumeState) (w_now s1)) s1)"

definition cancel :: "Session \<Rightarrow> Session" where
  "cancel s = s\<lparr>ss_cancelled := True\<rparr>"

definition ctx_Err :: "Session \<Rightarrow> gerror option" where
  "ctx_Err s = (if ss_cancelled s then Some (Sentinel ContextCanceled) else None)"

definition close_net :: "nat option \<Rightarrow> Session \<Rightarrow> Session" where
  "close_net network s = (case network of None \<Rightarrow> s | Some o' \<Rightarrow> snd (net_Close o' s))"

section \<open>Start\<close>

type_synonym env = "nat \<Rightarrow> nat \<Rightarrow> Session \<Rightarrow> Session"

definition session_call :: "((string \<rightharpoonup> string) \<Rightarrow> string list) \<Rightarrow> setup_call \<Rightarrow> Session \<Rightarrow> Session" where
  "session_call ord c s = (case c of NotifyStage st \<Rightarrow> handleSetupStage st s | NotifyNodes nodes \<Rightarrow> handleNodeSelection ord nodes s)"

definition stopping :: "SessionState \<Rightarrow> bool" where
  "stopping st = (st = SessionStateStopping \<or> st = SessionStateStopped)"

text \<open>Give up a start: close what was built, cancel, report.\<close>

definition abandon :: "(Session \<Rightarrow> Session) \<Rightarrow> nat option \<Rightarrow> nat \<Rightarrow> ErrorCode \<Rightarrow> string \<Rightarrow> gerror \<Rightarrow> Session \<Rightarrow> gerror option \<times> Session" where
  "abandon y network r code message err s = (Some err, failWith y code message err (cancel (rt_Close r (close_net network s))))"

definition start_install :: "env \<Rightarrow> dependencies \<Rightarrow> nat \<Rightarrow> Session \<Rightarrow> gerror option \<times> Session" where
  "start_install y deps r s =
     (let (network, s5) = DetachOutbound r s; s6 = y 4 0 s5 in
      case d_readResources deps of
        Inl e \<Rightarrow> abandon (y 5 0) network r ErrorCodeResourcesUnavailable ''read initial resource snapshot''
            (WrapError ErrorCodeResourcesUnavailable ''read initial resource snapshot'' False (Some e)) s6
      | Inr resources \<Rightarrow>
          (let resumeState = resume_or_zero (rt_ResumeState r s6);
               s7 = y 6 0 (s6\<lparr>ss_runtime := Some r, ss_network := network, ss_resources := resources, ss_resumeState := resumeState\<rparr>)
           in case transition SessionStateReady s7 of
                (Some err, s8) \<Rightarrow> abandon (y 7 0) network r ErrorCodeSessionStartFailed ''start session'' err s8
              | (None, s8) \<Rightarrow>
                  (let s9 = emitServiceEvents network EventTypeServiceStarted (y 8 0 (emitSelectedNodes (emitResourcesUpdated resources s8)))
                   in (None, if rs_Data resumeState \<noteq> [] then emit_resume (rc_ResumeState (ss_config s9)) resumeState s9 else s9))))"

definition session_start :: "((string \<rightharpoonup> string) \<Rightarrow> string list) \<Rightarrow> env \<Rightarrow> dependencies \<Rightarrow> Session \<Rightarrow> gerror option \<times> Session" where
  "session_start ord y deps s =
     (let s1 = s\<lparr>ss_cancel := True\<rparr>;
          (outcome, s2) = startWithStageHandler (y 0) (session_call ord) (ctx_Err s1)
            ((ss_config s1)\<lparr>rc_NodeSelectionHandler := SessionHandler\<rparr>) deps s1
      in case outcome of
           Inl err \<Rightarrow> (Some err, fail (y 1 0) err (cancel s2))
         | Inr r \<Rightarrow>
             (let s3 = y 2 0 s2; stop = stopping (ss_state s3); s4 = (if stop then rt_Close r s3 else s3);
                  err = (if stop \<and> ss_stageErr s3 = None then Some (Sentinel ContextCanceled) else ss_stageErr s3)
              in case err of
                   Some e \<Rightarrow> (Some e, fail (y 3 0) e (cancel s4))
                 | None \<Rightarrow> start_install y deps r s4))"

definition Start :: "((string \<rightharpoonup> string) \<Rightarrow> string list) \<Rightarrow> env \<Rightarrow> dependencies \<Rightarrow> Session \<Rightarrow> gerror option \<times> Session" where
  "Start ord y deps s =
     (case ss_startErr s of
        Some err \<Rightarrow> (err, s)
      | None \<Rightarrow> (let (err, s1) = session_start ord y deps s in (err, s1\<lparr>ss_startErr := Some err\<rparr>)))"

section \<open>Reconnecting\<close>

text \<open>\<open>delay\<close> doubles from attempt 3 on, up to the maximum.\<close>

fun delay_loop :: "nat \<Rightarrow> int \<Rightarrow> int" where
  "delay_loop 0 delay = delay"
| "delay_loop (Suc n) delay =
     (if delay < reconnectMaxDelay
      then delay_loop n (if delay * 2 > reconnectMaxDelay then reconnectMaxDelay else delay * 2) else delay)"

definition reconnectDelay :: "nat \<Rightarrow> int" where
  "reconnectDelay attempt = (if attempt \<le> 1 then 0 else delay_loop (attempt - 2) reconnectInitialDelay)"

text \<open>The method call on a nil network panics: \<^const>\<open>None\<close>.\<close>

definition reconnectConfig :: "nat \<Rightarrow> Session \<Rightarrow> RuntimeConfig option" where
  "reconnectConfig r s =
     (case ss_network s of None \<Rightarrow> None | Some o' \<Rightarrow>
       (let config = (ss_config s)\<lparr>rc_NodeSelectionHandler := SessionHandler\<rparr>;
            config1 = (if ob_replaceable (w_outs s o') then config\<lparr>rc_NetworkRuntime := Some o'\<rparr> else config)
        in if rc_ClientDataFile config1 \<noteq> [] then Some (config1\<lparr>rc_ResumeState := None\<rparr>)
           else let resumeState = (if rs_Data (ss_resumeState s) = [] then resume_or_zero (rt_ResumeState r s) else ss_resumeState s)
                in Some (if rs_Data resumeState \<noteq> [] then config1\<lparr>rc_ResumeState := Some resumeState\<rparr> else config1)))"

definition installReconnectedRuntime :: "env \<Rightarrow> dependencies \<Rightarrow> nat \<Rightarrow> Session \<Rightarrow> bool \<times> Session" where
  "installReconnectedRuntime y deps r s =
     (let (network, s0) = DetachOutbound r s;
          s1 = y 0 0 s0;
          resumeState = resume_or_zero (rt_ResumeState r s1)
      in if ss_cancelled s1 \<or> ss_state s1 \<noteq> SessionStateReconnecting
            \<or> ValidateSessionStateTransition (ss_state s1) SessionStateReady \<noteq> None
         then (False, close_net network (y 1 0 s1))
         else
           (let previous = ss_state s1; oldNetwork = ss_network s1;
                resources = (case d_readResources deps of Inr x \<Rightarrow> x | Inl _ \<Rightarrow> map_option (\<lambda>x. x\<lparr>cres_Stale := True\<rparr>) (ss_resources s1));
                s2 = s1\<lparr>ss_runtime := Some r, ss_network := network, ss_resources := resources,
                  ss_resumeState := (if rs_Data resumeState \<noteq> [] then resumeState else ss_resumeState s1),
                  ss_state := SessionStateReady, ss_lastError := None\<rparr>;
                s3 = y 2 0 s2;
                s4 = (if oldNetwork \<noteq> None \<and> \<not> net_same oldNetwork network then close_net oldNetwork s3 else s3);
                s5 = emit (NewStateChangedEvent (ss_id s4) previous SessionStateReady (w_now s4)) s4;
                s6 = (case d_readResources deps of Inr _ \<Rightarrow> emitResourcesUpdated resources s5 | Inl _ \<Rightarrow> s5)
            in (True, emitSelectedNodes (y 3 0 s6))))"

definition reconnect_event :: "EventType \<Rightarrow> gerror option \<Rightarrow> nat \<Rightarrow> int \<Rightarrow> Session \<Rightarrow> Session" where
  "reconnect_event ty err attempt delayMillis s =
     emit ((event_of (ss_id s) ty (w_now s))\<lparr>ev_Error := err, ev_Reconnect := Some \<lparr> ri_Attempt = attempt, ri_DelayMillis = delayMillis \<rparr>\<rparr>) s"

text \<open>The callbacks of a reconnection, which has no stage handler.\<close>

definition reconnect_call :: "((string \<rightharpoonup> string) \<Rightarrow> string list) \<Rightarrow> setup_call \<Rightarrow> Session \<Rightarrow> Session" where
  "reconnect_call ord c s = (case c of NotifyStage _ \<Rightarrow> s | NotifyNodes n \<Rightarrow> handleNodeSelection ord n s)"

text \<open>One attempt: \<open>Inl\<close> is another turn of the loop, \<open>Inr\<close> the returned runtime (nil is \<^const>\<open>None\<close>).\<close>

definition reconnect_attempt ::
  "((string \<rightharpoonup> string) \<Rightarrow> string list) \<Rightarrow> (nat \<Rightarrow> env) \<Rightarrow> dependencies \<Rightarrow> RuntimeConfig \<Rightarrow> gerror \<Rightarrow> nat \<Rightarrow> Session
   \<Rightarrow> (unit + nat option) \<times> Session" where
  "reconnect_attempt ord ys deps config runtimeErr attempt s =
     (let delay = reconnectDelay attempt;
          s1 = ys 0 0 0 (reconnect_event EventTypeReconnectScheduled
                 (Some (asCoreError ErrorCodeSessionReconnectFailed ''VPN network runtime stopped'' runtimeErr)) attempt (delay div 1000000) s)
      in if d_wait deps delay \<noteq> None then (Inr None, s1)
         else
           case startWithStageHandler (ys 1 0) (reconnect_call ord) (ctx_Err s1) config deps s1 of
             (Inl err, s2) \<Rightarrow>
               if ss_cancelled s2 then (Inr None, s2)
               else
                 (let coreError = asCoreError ErrorCodeSessionReconnectFailed ''reconnect session'' err;
                      s3 = reconnect_event EventTypeReconnectFailed (Some coreError) attempt 0 (ys 2 0 0 (s2\<lparr>ss_lastError := Some coreError\<rparr>))
                  in if \<not> IsRetryable err
                     then (Inr None, failWith (ys 3 0 0) (cerr_code coreError) (cerr_message coreError) coreError (close_net (ss_network s3) s3))
                     else (Inl (), s3))
           | (Inr candidate, s2) \<Rightarrow>
               (case installReconnectedRuntime (ys 4) deps candidate s2 of
                  (False, s3) \<Rightarrow> (Inr None, rt_Close candidate s3)
                | (True, s3) \<Rightarrow>
                    (let s4 = (case rt_ResumeState candidate s3 of Inl _ \<Rightarrow> s3 | Inr rs \<Rightarrow> emit_resume (rc_ResumeState config) rs s3)
                     in (Inr (Some candidate), reconnect_event EventTypeReconnected None attempt 0 s4))))"

text \<open>The loop has no bound of its own; fuel counts its turns, and \<^const>\<open>None\<close> means that it still runs.\<close>

fun reconnect_loop ::
  "((string \<rightharpoonup> string) \<Rightarrow> string list) \<Rightarrow> (nat \<Rightarrow> nat \<Rightarrow> env) \<Rightarrow> (nat \<Rightarrow> dependencies) \<Rightarrow> RuntimeConfig \<Rightarrow> gerror
   \<Rightarrow> nat \<Rightarrow> nat \<Rightarrow> Session \<Rightarrow> (nat option \<times> Session) option" where
  "reconnect_loop ord yss dps config runtimeErr 0 attempt s = None"
| "reconnect_loop ord yss dps config runtimeErr (Suc fuel) attempt s =
     (case reconnect_attempt ord (yss attempt) (dps attempt) config runtimeErr attempt s of
        (Inr r, s1) \<Rightarrow> Some (r, s1)
      | (Inl _, s1) \<Rightarrow> reconnect_loop ord yss dps config runtimeErr fuel (Suc attempt) s1)"

text \<open>\<^const>\<open>None\<close>: the call has not returned, because the loop still runs or because
  \<^const>\<open>reconnectConfig\<close> panicked.\<close>

definition reconnect ::
  "((string \<rightharpoonup> string) \<Rightarrow> string list) \<Rightarrow> (nat \<Rightarrow> nat \<Rightarrow> env) \<Rightarrow> (nat \<Rightarrow> dependencies) \<Rightarrow> nat \<Rightarrow> nat \<Rightarrow> gerror \<Rightarrow> Session
   \<Rightarrow> (nat option \<times> Session) option" where
  "reconnect ord yss dps fuel failedRuntime runtimeErr s =
     (case transition SessionStateReconnecting s of
        (Some _, s1) \<Rightarrow> Some (None, s1)
      | (None, s1) \<Rightarrow>
          (case reconnectConfig failedRuntime s1 of
             None \<Rightarrow> None
           | Some config \<Rightarrow>
               (let s2 = (if ss_runtime s1 = Some failedRuntime then s1\<lparr>ss_runtime := None\<rparr> else s1)
                in reconnect_loop ord yss dps config runtimeErr fuel 1 (rt_Close failedRuntime s2))))"

text \<open>
  One turn of the watching goroutine, after the channel \<^verbatim>\<open>done\<close> of the runtime was closed. \<open>replaced1\<close>
  and \<open>replaced2\<close> say whether the runtime had another channel at the two times it is asked again.
  The result is the runtime to watch next; nil ends the goroutine.
\<close>

definition monitor_turn ::
  "((string \<rightharpoonup> string) \<Rightarrow> string list) \<Rightarrow> env \<Rightarrow> (nat \<Rightarrow> nat \<Rightarrow> env) \<Rightarrow> (nat \<Rightarrow> dependencies) \<Rightarrow> nat \<Rightarrow> bool \<Rightarrow> bool \<Rightarrow> nat
   \<Rightarrow> Session \<Rightarrow> (nat option \<times> Session) option" where
  "monitor_turn ord y yss dps fuel replaced1 replaced2 r s =
     (if \<not> rt_has_Done r s \<or> ss_cancelled s then Some (None, s)
      else if replaced1 then Some (Some r, s)
      else case rt_Err r s of
          None \<Rightarrow> if replaced2 then Some (Some r, s) else Some (None, s)
        | Some runtimeErr \<Rightarrow>
            if ErrorCodeOf runtimeErr = ErrorCodeTUNUnavailable
            then Some (None, failWith (y 0 0) ErrorCodeTUNUnavailable ''TUN service stopped'' runtimeErr (rt_Close r (close_net (ss_network s) s)))
            else if rc_DisableAutoReconnect (ss_config s)
            then Some (None, failWith (y 1 0) ErrorCodeSessionReconnectFailed ''VPN network runtime stopped'' runtimeErr
                         (rt_Close r (close_net (ss_network s) s)))
            else reconnect ord yss dps fuel r runtimeErr s)"

section \<open>Closing\<close>

definition close_parts :: "env \<Rightarrow> gerror option \<Rightarrow> Session \<Rightarrow> (CleanupResult \<times> gerror option) \<times> Session" where
  "close_parts y expired s =
     (let runtime = ss_runtime s; network = ss_network s; services = serviceStatuses network s;
          (netErr, s1) = (case network of None \<Rightarrow> (None, s) | Some o' \<Rightarrow> net_Close o' s);
          s2 = y 2 0 s1;
          (rtErr, s3) = (case runtime of None \<Rightarrow> (None, s2) | Some r \<Rightarrow> CloseContext expired r s2);
          closeErr1 = map_option (\<lambda>e. WrapError ErrorCodeSessionCloseFailed ''close VPN network runtime'' False (Some e)) netErr;
          closeErr = (case (rtErr, closeErr1) of
              (Some e, None) \<Rightarrow> Some (WrapError ErrorCodeSessionCloseFailed ''close aTrust runtime'' False (Some e))
            | _ \<Rightarrow> closeErr1);
          text = (case rtErr of
              Some e \<Rightarrow> (case errors_Join [closeErr1, Some e] of None \<Rightarrow> [] | Some j \<Rightarrow> error_string j)
            | None \<Rightarrow> (case netErr of None \<Rightarrow> [] | Some e \<Rightarrow> error_string e));
          s4 = foldl (\<lambda>s status. emit_service EventTypeServiceStopped status s) s3
                 (mergeStoppedServiceStatuses services (serviceStatuses network s3))
      in ((\<lparr> cleanup_Component = ''atrust.runtime'', cleanup_Error = text \<rparr>, closeErr), s4))"

definition mark_stopping :: "SessionState \<Rightarrow> Session \<Rightarrow> CleanupResult list \<times> Session" where
  "mark_stopping state s =
     (if stopping state then ([], s)
      else case transition SessionStateStopping s of
          (None, s') \<Rightarrow> ([], s')
        | (Some err, s') \<Rightarrow> ([\<lparr> cleanup_Component = ''session.state'', cleanup_Error = error_string err \<rparr>], s'))"

definition mark_stopped :: "(Session \<Rightarrow> Session) \<Rightarrow> gerror option \<Rightarrow> Session \<Rightarrow> gerror option \<times> Session" where
  "mark_stopped y closeErr s =
     (if ss_state s = SessionStateStopped then (closeErr, s)
      else case transition SessionStateStopped (y s) of
          (None, s') \<Rightarrow> (closeErr, s')
        | (Some err, s') \<Rightarrow> (if closeErr = None
            then Some (WrapError ErrorCodeSessionCloseFailed ''mark session stopped'' False (Some err)) else closeErr, s'))"

definition session_close :: "env \<Rightarrow> gerror option \<Rightarrow> Session \<Rightarrow> (CleanupReport \<times> gerror option) \<times> Session" where
  "session_close y expired s =
     (let startedAt = w_now s; state = ss_state s;
          (results, s2) = mark_stopping state (y 0 0 (if ss_cancel s then cancel s else s));
          ((result, closeErr1), s3) = close_parts y expired (y 1 0 s2);
          (closeErr, s4) = mark_stopped (y 4 0) closeErr1 (y 3 0 s3);
          report = \<lparr> report_StartedAt = startedAt, report_CompletedAt = w_now s4, report_Results = results @ [result] \<rparr>
      in ((report, closeErr), emit ((event_of (ss_id s4) EventTypeShutdownCompleted (w_now s4))\<lparr>ev_Cleanup := Some report\<rparr>) s4))"

text \<open>
  \<open>late\<close> is the error of the caller's context when it ends before the cleanup; the cleanup, which has a
  goroutine of its own, is then among what the others do, as a call that stays.
\<close>

definition session_Close :: "env \<Rightarrow> gerror option \<Rightarrow> gerror option \<Rightarrow> Session \<Rightarrow> (CleanupReport \<times> gerror option) \<times> Session" where
  "session_Close y expired late s =
     (case late of
        Some e \<Rightarrow>
          ((\<lparr> report_StartedAt = 0, report_CompletedAt = 0, report_Results = [] \<rparr>,
            Some (WrapError ErrorCodeSessionCloseFailed ''wait for session cleanup'' False (Some e))), y 5 0 s)
      | None \<Rightarrow>
          (case ss_closed s of
             Some r \<Rightarrow> (r, s)
           | None \<Rightarrow> (let (r, s') = session_close y expired s in (r, s'\<lparr>ss_closed := Some r\<rparr>))))"

text \<open>Waiting until the parts are closed closes them again, which returns what the first closing did.\<close>

definition WaitClosed :: "gerror option \<Rightarrow> Session \<Rightarrow> gerror option \<times> Session" where
  "WaitClosed expired s =
     (let (netErr, s1) = (case ss_network s of None \<Rightarrow> (None, s) | Some o' \<Rightarrow> net_Close o' s);
          (rtErr, s2) = (case ss_runtime s of None \<Rightarrow> (None, s1) | Some r \<Rightarrow> CloseContext expired r s1)
      in (errors_Join [netErr, rtErr], s2))"

section \<open>Queries\<close>

definition Status :: "Session \<Rightarrow> SessionStatus" where
  "Status s = \<lparr> status_ID = ss_id s, status_State = ss_state s, status_LastError = ss_lastError s \<rparr>"

definition session_ResumeState :: "Session \<Rightarrow> ResumeState result" where
  "session_ResumeState s =
     (if rs_Data (ss_resumeState s) = []
      then Inl (WrapError ErrorCodeResumeStateUnavailable ''resume state is unavailable'' True None) else Inr (ss_resumeState s))"

definition session_Resources :: "Session \<Rightarrow> CoreResources result" where
  "session_Resources s =
     (let err = WrapError ErrorCodeResourcesUnavailable (''session '' @ quote (ss_id s) @ '' resources are unavailable'') True None in
      if stopping (ss_state s) then Inl err
      else case ss_resources s of
          None \<Rightarrow> Inl err
        | Some r \<Rightarrow> Inr (r\<lparr>cres_Stale := (cres_Stale r \<or> ss_state s \<noteq> SessionStateReady)\<rparr>))"

definition session_Outbound :: "Session \<Rightarrow> nat result" where
  "session_Outbound s =
     (if stopping (ss_state s) then Inl (unavailable ''session outbound is unavailable'')
      else case ss_network s of None \<Rightarrow> Inl (unavailable ''session outbound is unavailable'') | Some o' \<Rightarrow> Inr o')"

definition stableNetwork :: "Session \<Rightarrow> nat result" where
  "stableNetwork s =
     (case ss_network s of
        None \<Rightarrow> Inl (unavailable ''session runtime is unavailable'')
      | Some o' \<Rightarrow> if stopping (ss_state s) then Inl (unavailable ''session runtime is unavailable'') else Inr o')"

definition session_Services :: "Session \<Rightarrow> ServiceStatus list result" where
  "session_Services s = rbind (stableNetwork s) (\<lambda>o'. net_Services o' s)"

definition session_TrafficStats :: "Session \<Rightarrow> TrafficStats result" where
  "session_TrafficStats s =
     rbind (stableNetwork s) (\<lambda>o'. rbind (net_TrafficStats o' s) (\<lambda>st. Inr (st\<lparr>ts_SessionID := ss_id s\<rparr>)))"

definition session_Connections :: "Session \<Rightarrow> ConnectionInfo list result" where
  "session_Connections s =
     rbind (stableNetwork s) (\<lambda>o'. rbind (net_Connections o' s) (\<lambda>l. Inr (map (\<lambda>c. c\<lparr>ci_SessionID := ss_id s\<rparr>) l)))"

definition session_CloseConnection :: "string \<Rightarrow> Session \<Rightarrow> gerror option" where
  "session_CloseConnection conn s = (case stableNetwork s of Inl e \<Rightarrow> Some e | Inr o' \<Rightarrow> net_CloseConnection o' conn s)"

definition session_TransportConnections :: "Session \<Rightarrow> TransportConnectionInfo list result" where
  "session_TransportConnections s =
     rbind (stableNetwork s) (\<lambda>o'. rbind (net_TransportConnections o' s) (\<lambda>l. Inr (map (\<lambda>c. c\<lparr>ti_SessionID := ss_id s\<rparr>) l)))"

definition session_RoutingMode :: "Session \<Rightarrow> RoutingMode result" where
  "session_RoutingMode s =
     (case ss_network s of None \<Rightarrow> Inl (unavailable ''routing mode is unavailable'') | Some o' \<Rightarrow> net_RoutingMode o' s)"

text \<open>The event is sent on the channel itself, not through \<^const>\<open>emit\<close>: the call blocks, here
  \<^const>\<open>None\<close>, as long as the channel is full.\<close>

definition session_SetRoutingMode :: "RoutingMode \<Rightarrow> Session \<Rightarrow> (gerror option \<times> Session) option" where
  "session_SetRoutingMode mode s =
     (if \<not> mode_Valid mode then Some (Some (WrapError ErrorCodeInvalidRequest ''invalid routing mode'' False None), s)
      else case ss_network s of
          None \<Rightarrow> Some (Some (unavailable ''routing mode is unavailable''), s)
        | Some o' \<Rightarrow>
            (case net_SetRoutingMode o' mode s of
               (Inl err, s1) \<Rightarrow> Some (Some (WrapError ErrorCodeInvalidRequest ''set routing mode'' False (Some err)), s1)
             | (Inr previous, s1) \<Rightarrow>
                 if previous = mode then Some (None, s1)
                 else if length (ss_events s1) \<ge> sessionEventBuffer then None
                 else Some (None, s1\<lparr>ss_events := ss_events s1 @ [(event_of (ss_id s1) EventTypeRoutingModeChanged (w_now s1))
                     \<lparr>ev_PreviousRoutingMode := previous, ev_RoutingMode := mode\<rparr>]\<rparr>)))"

section \<open>Refreshing resources\<close>

definition refresh_call :: "((string \<rightharpoonup> string) \<Rightarrow> string list) \<Rightarrow> setup_call \<Rightarrow> Session \<Rightarrow> Session" where
  "refresh_call ord c s =
     (case c of NotifyStage _ \<Rightarrow> s
      | NotifyNodes nodes \<Rightarrow> if \<not> ss_refreshActive s then s\<lparr>ss_refreshNodes := nodes\<rparr> else handleNodeSelection ord nodes s)"

definition refresh_error :: "gerror \<Rightarrow> gerror" where
  "refresh_error err =
     WrapError (if ErrorCodeOf err = ErrorCodeUnknown then ErrorCodeResourcesUnavailable else ErrorCodeOf err)
       ''refresh aTrust resources'' (IsRetryable err) (Some err)"

text \<open>The new client takes over, under the mutex but for the events at the end.\<close>

definition refresh_adopt ::
  "env \<Rightarrow> RuntimeConfig \<Rightarrow> nat \<Rightarrow> nat \<Rightarrow> CoreResources option \<Rightarrow> ResumeState \<Rightarrow> Session \<Rightarrow> Session" where
  "refresh_adopt y config r candidate resources resumeState s =
     (let (old, s1) = adoptClient r candidate s;
          nodes = ss_refreshNodes s1;
          s2 = s1\<lparr>ss_resources := resources,
             ss_resumeState := (if rs_Data resumeState \<noteq> [] then resumeState else ss_resumeState s1),
             ss_refreshActive := True, ss_selectedNodes := (if nodes \<noteq> Map.empty then nodes else ss_selectedNodes s1)\<rparr>;
          s3 = emitNodes nodes (emitResourcesUpdated resources (y 3 0 (close_client old s2)))
      in if rs_Data resumeState \<noteq> [] then emit_resume (rc_ResumeState config) resumeState s3 else s3)"

text \<open>The candidate is closed on every way out once it exists.\<close>

definition refresh_candidate ::
  "env \<Rightarrow> dependencies \<Rightarrow> RuntimeConfig \<Rightarrow> nat \<Rightarrow> nat \<Rightarrow> nat \<Rightarrow> Session \<Rightarrow> gerror option \<times> Session" where
  "refresh_candidate y deps config r network candidate s =
     (case d_readResources deps of
        Inl err \<Rightarrow> (Some (WrapError ErrorCodeResourcesUnavailable ''read refreshed resources'' True (Some err)), s)
      | Inr resources \<Rightarrow>
          (let resumeState = resume_or_zero (rt_ResumeState candidate s); s1 = y 2 0 s in
           if ss_state s1 \<noteq> SessionStateReady \<or> ss_runtime s1 \<noteq> Some r
           then (Some (WrapError ErrorCodeSessionNotReady
                   (''session '' @ quote (ss_id s1) @ '' changed while refreshing resources'') True None), s1)
           else case d_setupNetwork deps config of
               Inl err \<Rightarrow> (Some err, s1)
             | Inr None \<Rightarrow> (Some (unavailable ''refreshed network runtime is unavailable''), s1)
             | Inr (Some refreshed) \<Rightarrow>
                 if \<not> net_same (Some refreshed) (Some network)
                 then (Some (WrapError ErrorCodeOutboundUnavailable ''resource refresh replaced the stable network runtime'' False None),
                       snd (net_Close refreshed s1))
                 else (None, refresh_adopt y config r candidate resources resumeState s1)))"

definition RefreshResources ::
  "((string \<rightharpoonup> string) \<Rightarrow> string list) \<Rightarrow> env \<Rightarrow> gerror option \<Rightarrow> dependencies \<Rightarrow> Session \<Rightarrow> (gerror option \<times> Session) option" where
  "RefreshResources ord y ctxErr deps s =
     (if ss_state s \<noteq> SessionStateReady \<or> ss_runtime s = None
      then Some (Some (WrapError ErrorCodeSessionNotReady (''session '' @ quote (ss_id s) @ '' is not ready'') True None), s)
      else case (ss_runtime s, ss_network s) of
        (Some r, Some network) \<Rightarrow>
          if \<not> ob_replaceable (w_outs s network)
          then Some (Some (WrapError ErrorCodeOutboundUnavailable ''session network runtime cannot refresh VPN resources'' False None), s)
          else
            (let s1 = y 0 0 s in
             case reconnectConfig r s1 of
               None \<Rightarrow> None
             | Some base \<Rightarrow>
                 (let config = base\<lparr>rc_SetupNetwork := False, rc_NetworkRuntime := Some network, rc_NodeSelectionHandler := RefreshHandler\<rparr>
                  in case startWithStageHandler (y 1) (refresh_call ord) ctxErr config deps
                            (s1\<lparr>ss_refreshNodes := Map.empty, ss_refreshActive := False\<rparr>) of
                       (Inl err, s2) \<Rightarrow> Some (Some (refresh_error err), s2)
                     | (Inr candidate, s2) \<Rightarrow>
                         (let (err, s3) = refresh_candidate y deps config r network candidate s2
                          in Some (err, rt_Close candidate s3))))
      | _ \<Rightarrow> None)"

section \<open>The channel of events\<close>

interpretation ev: bounded_chan sessionEventBuffer chan_emit
proof
  show "length q \<le> sessionEventBuffer \<Longrightarrow> length (chan_emit q x) \<le> sessionEventBuffer" for q x
    by (auto simp: chan_emit_def sessionEventBuffer_def)
  show "set (chan_emit q x) \<subseteq> insert x (set q)" for q x
    by (cases q) (auto simp: chan_emit_def)
qed

text \<open>With more events sent than fit, the last ones are kept, in order.\<close>

lemma chan_emits:
  assumes "length q \<le> sessionEventBuffer"
  shows "foldl chan_emit q es = drop (length q + length es - sessionEventBuffer) (q @ es)"
  using assms
proof (induction es arbitrary: q)
  case (Cons e es)
  show ?case
  proof (cases "length q < sessionEventBuffer")
    case True
    then show ?thesis using Cons.IH [of "q @ [e]"] by (simp add: chan_emit_def)
  next
    case False
    then obtain x xs where q: "q = x # xs" "length xs < sessionEventBuffer" "Suc (length xs) = sessionEventBuffer"
      using Cons.prems by (cases q) (auto simp: sessionEventBuffer_def)
    then show ?thesis using Cons.IH [of "xs @ [e]"] by (simp add: chan_emit_def)
  qed
qed simp

end
