(* ===== verification/SessionRuns.thy ===== *)
theory SessionRuns
  imports Session
begin

text \<open>
  What every handler of a session guarantees to the others, the handlers under such interference, and
  the runs they make up: an operation carries the operations that interrupt it.
\<close>

section \<open>What every handler guarantees\<close>

text \<open>
  A handler moves the session along the transition table, keeps its identity and configuration,
  never reopens what was closed, never takes a cancellation back, keeps the events within the
  capacity of the channel, and a session whose cleanup is done is stopped.
\<close>

definition closed_stopped :: "Session \<Rightarrow> bool" where
  "closed_stopped s \<longleftrightarrow> (ss_closed s \<noteq> None \<longrightarrow> ss_state s = SessionStateStopped)"

definition guar :: "Session \<Rightarrow> Session \<Rightarrow> bool" where
  "guar s t \<longleftrightarrow> session_path (ss_state s) (ss_state t) \<and> ss_id t = ss_id s \<and> ss_config t = ss_config s
     \<and> (ss_cancelled s \<longrightarrow> ss_cancelled t) \<and> w_nrts s \<le> w_nrts t
     \<and> (\<forall>x. ob_closed (w_outs s x) \<longrightarrow> ob_closed (w_outs t x))
     \<and> (\<forall>r < w_nrts s. rt_closeOnce (w_rts s r) \<longrightarrow> rt_closeOnce (w_rts t r))
     \<and> (length (ss_events s) \<le> sessionEventBuffer \<longrightarrow> length (ss_events t) \<le> sessionEventBuffer)
     \<and> (state_Valid (ss_state s) \<and> closed_stopped s \<longrightarrow> closed_stopped t)"

named_theorems guar_intros \<open>what may follow without breaking the guarantee\<close>

lemma guar_refl [guar_intros]: "guar s s"
  by (simp add: guar_def closed_stopped_def path_refl)

lemma guar_trans: "guar s t \<Longrightarrow> guar t u \<Longrightarrow> guar s u"
  unfolding guar_def by (auto intro: session_path_trans dest: path_valid)

lemma guar_closed: "guar s t \<Longrightarrow> r < w_nrts s \<Longrightarrow> rt_closeOnce (w_rts s r) \<Longrightarrow> r < w_nrts t \<and> rt_closeOnce (w_rts t r)"
  by (simp add: guar_def closed_stopped_def)

lemma guar_net_closed: "guar s t \<Longrightarrow> ob_closed (w_outs s x) \<Longrightarrow> ob_closed (w_outs t x)"
  by (simp add: guar_def closed_stopped_def)

lemma guar_simple [guar_intros]:
  "guar a s \<Longrightarrow> guar a (s\<lparr>ss_lastError := e\<rparr>)" "guar a s \<Longrightarrow> guar a (s\<lparr>ss_stageErr := e\<rparr>)"
  "guar a s \<Longrightarrow> guar a (s\<lparr>ss_cancel := b\<rparr>)" "guar a s \<Longrightarrow> guar a (s\<lparr>ss_runtime := v\<rparr>)"
  "guar a s \<Longrightarrow> guar a (s\<lparr>ss_network := v\<rparr>)" "guar a s \<Longrightarrow> guar a (s\<lparr>ss_resources := x\<rparr>)"
  "guar a s \<Longrightarrow> guar a (s\<lparr>ss_selectedNodes := n\<rparr>)" "guar a s \<Longrightarrow> guar a (s\<lparr>ss_resumeState := q\<rparr>)"
  "guar a s \<Longrightarrow> guar a (s\<lparr>ss_startErr := z\<rparr>)"
  "guar a s \<Longrightarrow> guar a (s\<lparr>ss_refreshNodes := n\<rparr>)" "guar a s \<Longrightarrow> guar a (s\<lparr>ss_refreshActive := b\<rparr>)"
  by (simp_all add: guar_def closed_stopped_def)

lemma guar_passive [guar_intros]:
  "guar a s \<Longrightarrow> guar a (s\<lparr>ss_events := tl (ss_events s)\<rparr>)" "guar a s \<Longrightarrow> guar a (s\<lparr>w_now := n\<rparr>)"
  by (auto simp: guar_def closed_stopped_def)

lemma guar_emit [guar_intros]: "guar a s \<Longrightarrow> guar a (emit e s)"
  using ev.send_bounded [of "ss_events s" e] by (simp add: guar_def closed_stopped_def emit_def)

lemma guar_cancel [guar_intros]: "guar a s \<Longrightarrow> guar a (cancel s)"
  by (simp add: guar_def closed_stopped_def cancel_def)

lemma transition_if:
  "transition n s =
     (if CanTransitionSessionState (ss_state s) n
      then (None, emit (NewStateChangedEvent (ss_id s) (ss_state s) n (w_now s)) (s\<lparr>ss_state := n\<rparr>))
      else (ValidateSessionStateTransition (ss_state s) n, s))"
  by (simp add: transition_def ValidateSessionStateTransition_def Let_def)

lemma guar_state: "guar a s \<Longrightarrow> CanTransitionSessionState (ss_state s) n \<Longrightarrow> guar a (s\<lparr>ss_state := n\<rparr>)"
  by (auto simp: guar_def closed_stopped_def intro: path_step)

lemma guar_transition [guar_intros]: "guar a s \<Longrightarrow> guar a (snd (transition n s))"
  by (simp add: transition_if guar_emit guar_state)

lemma guar_transition': "transition n s = (e, t) \<Longrightarrow> guar a s \<Longrightarrow> guar a t"
  using guar_transition [of a s n] by simp

lemma guar_put_rt [guar_intros]:
  "guar a s \<Longrightarrow> (rt_closeOnce (w_rts s r) \<longrightarrow> rt_closeOnce rt) \<Longrightarrow> guar a (put_rt r rt s)"
  by (auto simp: guar_def closed_stopped_def put_rt_def)

lemma guar_net_Close [guar_intros]: "guar a s \<Longrightarrow> guar a (snd (net_Close n s))"
  by (auto simp: guar_def closed_stopped_def net_Close_def)

lemma guar_close_net [guar_intros]: "guar a s \<Longrightarrow> guar a (close_net n s)"
  by (auto simp: close_net_def guar_net_Close split: option.split)

lemma guar_close_client [guar_intros]: "guar a s \<Longrightarrow> guar a (close_client c s)"
  by (auto simp: guar_def closed_stopped_def close_client_def split: option.split)

lemma rt_close_body_alt:
  "rt_close_body r w =
     (let rt = w_rts w r;
          w1 = (if rt_ownsOutbound rt then (case rt_outbound rt of None \<Rightarrow> w | Some x \<Rightarrow> snd (net_Close x w)) else w);
          err = (if rt_ownsOutbound rt then (case rt_outbound rt of None \<Rightarrow> rt_closeErr rt | Some x \<Rightarrow> ob_closeErr (w_outs w x)) else rt_closeErr rt)
      in close_client (if rt_closeClient rt \<noteq> None then rt_closeClient rt else rt_client rt)
           (put_rt r (rt\<lparr>rt_client := None, rt_closeClient := None, rt_closeOnce := True, rt_closeErr := err\<rparr>) w1))"
  by (simp add: rt_close_body_def net_Close_def Let_def split: option.split)

lemma guar_rt_close_body [guar_intros]: "guar a s \<Longrightarrow> guar a (rt_close_body r s)"
  unfolding rt_close_body_alt Let_def by (intro guar_intros) (auto intro: guar_intros split: option.split)

lemma guar_CloseContext [guar_intros]: "guar a s \<Longrightarrow> guar a (snd (CloseContext x r s))"
  by (simp add: CloseContext_def Let_def guar_rt_close_body)

lemma guar_rt_Close [guar_intros]: "guar a s \<Longrightarrow> guar a (rt_Close r s)"
  by (simp add: rt_Close_def guar_CloseContext)

lemma guar_DetachOutbound [guar_intros]: "guar a s \<Longrightarrow> guar a (snd (DetachOutbound r s))"
  by (simp add: DetachOutbound_def guar_put_rt)

lemma guar_adoptClient [guar_intros]: "guar a s \<Longrightarrow> guar a (snd (adoptClient r c s))"
  by (simp add: adoptClient_def Let_def) (intro guar_intros, auto simp: put_rt_def)

lemma guar_new_runtime [guar_intros]: "guar a s \<Longrightarrow> guar a (snd (new_runtime s))"
  by (auto simp: guar_def closed_stopped_def new_runtime_def put_rt_def Let_def)

lemma guar_setup_network [guar_intros]: "guar a s \<Longrightarrow> guar a (snd (setup_network d c r s))"
  by (auto simp: setup_network_def intro!: guar_intros split: sum.split option.split)

lemma guar_save [guar_intros]: "guar a s \<Longrightarrow> guar a (snd (save_client_data d c x r s))"
  by (auto simp: save_client_data_def intro!: guar_intros split: option.split)

lemma guar_finish_start: "guar a s \<Longrightarrow> guar a (snd (finish_start c d v su r s))"
proof -
  assume g: "guar a s"
  let ?w1 = "put_rt r ((w_rts s r)\<lparr>rt_resumeState := encodeResumeState (w_now s) c (su_username su) (su_reused su) (su_data su) (v + 1)\<rparr>) s"
  obtain e w2 where n: "setup_network d c r ?w1 = (e, w2)" by fastforce
  obtain e' w3 where v: "save_client_data d c (su_data su) r w2 = (e', w3)" by fastforce
  have "guar a ?w1" using g by (intro guar_intros) simp_all
  then have g2: "guar a w2" using guar_setup_network [of a ?w1 d c r] n by simp
  then have "guar a w3" using guar_save [of a w2 d c "su_data su" r] v by simp
  with g2 n v show ?thesis by (cases e; cases e') (simp_all add: finish_start_def Let_def)
qed

lemma guar_if [guar_intros]: "(b \<Longrightarrow> guar a s) \<Longrightarrow> (\<not> b \<Longrightarrow> guar a t) \<Longrightarrow> guar a (if b then s else t)"
  by simp

lemma guar_handleSetupStage [guar_intros]: "guar a s \<Longrightarrow> guar a (handleSetupStage st s)"
  by (auto simp: handleSetupStage_def intro!: guar_intros dest: guar_transition' split: option.split prod.split)

lemma guar_handleNodeSelection [guar_intros]: "guar a s \<Longrightarrow> guar a (handleNodeSelection ord n s)"
  by (simp add: handleNodeSelection_def Let_def guar_intros)

lemma guar_session_call [guar_intros]: "guar a s \<Longrightarrow> guar a (session_call ord c s)"
  by (auto simp: session_call_def intro: guar_intros split: setup_call.split)

lemma guar_reconnect_call [guar_intros]: "guar a s \<Longrightarrow> guar a (reconnect_call ord c s)"
  by (auto simp: reconnect_call_def intro: guar_intros split: setup_call.split)

lemma guar_refresh_call [guar_intros]: "guar a s \<Longrightarrow> guar a (refresh_call ord c s)"
  by (auto simp: refresh_call_def intro: guar_intros split: setup_call.split)

lemma guar_emits [guar_intros]:
  "guar a s \<Longrightarrow> guar a (emitResourcesUpdated x s)" "guar a s \<Longrightarrow> guar a (emitNodes n s)" "guar a s \<Longrightarrow> guar a (emitSelectedNodes s)"
  "guar a s \<Longrightarrow> guar a (emit_service ty st s)" "guar a s \<Longrightarrow> guar a (reconnect_event ty err k d s)" "guar a s \<Longrightarrow> guar a (emit_resume g q s)"
  by (auto simp: emitResourcesUpdated_def emitNodes_def emitSelectedNodes_def emit_service_def reconnect_event_def emit_resume_def Let_def
      intro!: guar_emit split: option.split)

lemma guar_foldl [guar_intros]: "guar a s \<Longrightarrow> (\<And>s x. guar a s \<Longrightarrow> guar a (f s x)) \<Longrightarrow> guar a (foldl f s xs)"
  by (rule foldl_inv)

lemma guar_emitServiceEvents [guar_intros]: "guar a s \<Longrightarrow> guar a (emitServiceEvents n ty s)"
  by (auto simp: emitServiceEvents_def intro!: guar_intros)

lemma emit_fields [simp]:
  "ss_state (emit e s) = ss_state s" "ss_runtime (emit e s) = ss_runtime s" "ss_network (emit e s) = ss_network s"
  "w_nrts (emit e s) = w_nrts s" "w_rts (emit e s) = w_rts s" "w_outs (emit e s) = w_outs s" "ss_stageErr (emit e s) = ss_stageErr s"
  "ss_events (emit e s) = chan_emit (ss_events s) e" "ss_closed (emit e s) = ss_closed s"
  by (simp_all add: emit_def)

text \<open>Closing a runtime ends the holding of it, and of the network runtime it owns.\<close>

lemma rt_Close_world:
  "w_nrts (rt_Close r s) = w_nrts s" "ss_runtime (rt_Close r s) = ss_runtime s" "ss_network (rt_Close r s) = ss_network s"
  "ss_state (rt_Close r s) = ss_state s"
  "rt_closeOnce (w_rts (rt_Close r s) r)" "q \<noteq> r \<Longrightarrow> w_rts (rt_Close r s) q = w_rts s q"
  "rt_outbound (w_rts (rt_Close r s) q) = rt_outbound (w_rts s q)"
  "ob_closed (w_outs s x) \<Longrightarrow> ob_closed (w_outs (rt_Close r s) x)"
  "\<not> rt_closeOnce (w_rts s r) \<Longrightarrow> rt_ownsOutbound (w_rts s r) \<Longrightarrow> rt_outbound (w_rts s r) = Some x \<Longrightarrow> ob_closed (w_outs (rt_Close r s) x)"
  by (auto simp: rt_Close_def CloseContext_def rt_close_body_alt Let_def put_rt_def close_client_def net_Close_def split: option.splits)

lemma CloseContext_snd: "snd (CloseContext x r s) = rt_Close r s"
  by (simp add: rt_Close_def CloseContext_def Let_def)

lemma can_stop: "state_Valid st \<Longrightarrow> \<not> stopping st \<Longrightarrow> CanTransitionSessionState st SessionStateStopping"
  by (cases st) (auto simp: state_Valid_def stopping_def CanTransitionSessionState_def)

lemma stopping_guar: "guar s t \<Longrightarrow> stopping (ss_state s) \<Longrightarrow> stopping (ss_state t)"
  using stopping_path [of "ss_state s" "ss_state t"] stopped_final [of "ss_state t"] by (auto simp: guar_def stopping_def)

lemma valid_guar: "guar s t \<Longrightarrow> state_Valid (ss_state s) \<Longrightarrow> state_Valid (ss_state t)"
  by (auto simp: guar_def dest: path_valid)

lemma mark_stopping_stops:
  "state_Valid (ss_state s) \<Longrightarrow> (stopping st \<Longrightarrow> stopping (ss_state s)) \<Longrightarrow> stopping (ss_state (snd (mark_stopping st s)))"
  using can_stop [of "ss_state s"] by (auto simp: mark_stopping_def transition_if stopping_def ValidateSessionStateTransition_def)

lemma last_chan_emit [simp]: "last (chan_emit q e) = e"
  by (simp add: chan_emit_def)

text \<open>The state in which a cleanup reads what is installed: after the cancellation and the stopping state, with what the others did until then.\<close>

definition close_looks :: "env \<Rightarrow> Session \<Rightarrow> Session" where
  "close_looks y s = y 1 0 (snd (mark_stopping (ss_state s) (y 0 0 (if ss_cancel s then cancel s else s))))"

text \<open>The other goroutines, as a handler meets them: they keep the same guarantee.\<close>

locale session_env =
  fixes y :: env
  assumes env_guar: "guar s (y i k s)"
begin

lemma env_after: "guar a s \<Longrightarrow> guar a (y i k s)"
  using env_guar by (rule guar_trans [rotated])

lemma run_calls_guar:
  assumes "\<And>c s. guar a s \<Longrightarrow> guar a (h c s)"
  shows "guar a s \<Longrightarrow> guar a (run_calls (y i) h k cs s)"
  by (induction cs arbitrary: k s) (auto intro: assms env_after)

lemma startWith_guar:
  assumes h: "\<And>c s. guar a s \<Longrightarrow> guar a (h c s)" and g: "guar a s"
  shows "guar a (snd (startWithStageHandler (y i) h ctxErr config deps s))"
proof -
  have r: "guar a (run_calls (y i) h 0 cs (snd (new_runtime s)))" for cs
    by (intro run_calls_guar guar_intros h g)
  show ?thesis
    by (cases rule: startWith_cases [of "y i" h ctxErr config deps s]) (simp_all add: g r guar_rt_Close guar_finish_start)
qed

lemmas env_intros = guar_intros env_after startWith_guar

lemma failWith_guar: "guar a s \<Longrightarrow> guar a (failWith (y i k) code m e s)"
  unfolding failWith_def Let_def by (intro env_intros)

lemma abandon_guar: "guar a s \<Longrightarrow> guar a (snd (abandon (y i k) n r code m e s))"
  unfolding abandon_def snd_conv by (intro failWith_guar guar_intros)

lemma start_install_guar:
  assumes "guar a s"
  shows "guar a (snd (start_install y deps r s))"
proof -
  obtain n s5 where d: "DetachOutbound r s = (n, s5)" by fastforce
  have g: "guar a (y 4 0 s5)" using guar_DetachOutbound [OF assms, of r] d by (simp add: env_after)
  show ?thesis
  proof (cases "d_readResources deps")
    case (Inl e)
    then show ?thesis using g by (simp add: start_install_def d Let_def abandon_guar)
  next
    case (Inr res)
    let ?s7 = "y 6 0 ((y 4 0 s5)\<lparr>ss_runtime := Some r, ss_network := n, ss_resources := res,
        ss_resumeState := resume_or_zero (rt_ResumeState r (y 4 0 s5))\<rparr>)"
    obtain e s8 where t: "transition SessionStateReady ?s7 = (e, s8)" by fastforce
    have "guar a ?s7" by (intro env_intros g)
    then have g8: "guar a s8" by (rule guar_transition' [OF t])
    show ?thesis
    proof (cases e)
      case None
      then show ?thesis using t g8 by (simp add: start_install_def d Let_def Inr) (intro conjI impI env_intros g8)
    next
      case (Some x)
      then show ?thesis using t g8 by (simp add: start_install_def d Let_def Inr abandon_guar)
    qed
  qed
qed

lemma session_start_guar: "guar s (snd (session_start ord y deps s))"
proof -
  let ?c = "(ss_config s)\<lparr>rc_NodeSelectionHandler := SessionHandler\<rparr>"
  obtain o' s2 where st: "startWithStageHandler (y 0) (session_call ord) (ctx_Err (s\<lparr>ss_cancel := True\<rparr>)) ?c deps (s\<lparr>ss_cancel := True\<rparr>) = (o', s2)"
    by fastforce
  have g2: "guar s s2"
    using startWith_guar [of s "session_call ord" "s\<lparr>ss_cancel := True\<rparr>" 0 "ctx_Err (s\<lparr>ss_cancel := True\<rparr>)" ?c deps] st
    by (simp add: guar_intros)
  show ?thesis
  proof (cases o')
    case (Inl e)
    then show ?thesis using st g2 by (simp add: session_start_def Let_def fail_def failWith_guar guar_intros)
  next
    case (Inr r)
    then show ?thesis using st g2
      by (auto simp: session_start_def Let_def Inr fail_def intro!: failWith_guar guar_intros start_install_guar env_after split: option.split)
  qed
qed

lemma installReconnected_guar:
  assumes "guar a s"
  shows "guar a (snd (installReconnectedRuntime y deps r s))"
proof -
  obtain n s0 where d: "DetachOutbound r s = (n, s0)" by fastforce
  let ?s1 = "y 0 0 s0"
  have g1: "guar a ?s1" using guar_DetachOutbound [OF assms, of r] d by (simp add: env_after)
  show ?thesis
  proof (cases "ss_cancelled ?s1 \<or> ss_state ?s1 \<noteq> SessionStateReconnecting")
    case True
    then show ?thesis using g1 by (auto simp: installReconnectedRuntime_def d Let_def intro!: guar_intros env_after)
  next
    case False
    then have "CanTransitionSessionState (ss_state ?s1) SessionStateReady" by (simp add: CanTransitionSessionState_def)
    with g1 have g2: "guar a (?s1\<lparr>ss_state := SessionStateReady\<rparr>)" by (rule guar_state)
    have "guar a (?s1\<lparr>ss_runtime := u, ss_network := v, ss_resources := x, ss_resumeState := q, ss_state := SessionStateReady\<rparr>)"
      "guar a (?s1\<lparr>ss_runtime := u, ss_network := v, ss_resources := x, ss_state := SessionStateReady\<rparr>)" for u v x q
      using g2 by (simp_all add: guar_def closed_stopped_def)
    then show ?thesis using False
      by (auto simp: installReconnectedRuntime_def d Let_def CanTransitionSessionState_def intro!: guar_intros env_after split: sum.split)
  qed
qed

lemma close_parts_guar:
  assumes "guar a s"
  shows "guar a (snd (close_parts y x s))"
proof -
  have n: "guar a (snd (case n of None \<Rightarrow> (None, t) | Some o' \<Rightarrow> net_Close o' t))" if "guar a t" for n t
    using that by (auto intro: guar_intros split: option.split)
  have r: "guar a (snd (case r of None \<Rightarrow> (None, t) | Some r \<Rightarrow> CloseContext x r t))" if "guar a t" for r t
    using that by (auto intro: guar_intros split: option.split)
  show ?thesis
    unfolding close_parts_def Let_def case_prod_unfold snd_conv by (intro env_intros n r assms)
qed

lemma mark_stopping_guar: "guar a s \<Longrightarrow> guar a (snd (mark_stopping st s))"
  by (auto simp: mark_stopping_def dest: guar_transition' split: prod.split option.split)

lemma mark_stopped_guar: "guar a s \<Longrightarrow> guar a (snd (mark_stopped (y i k) e s))"
  by (auto simp: mark_stopped_def dest!: guar_transition' intro: env_after split: prod.split option.split)

lemma session_close_guar: "guar s (snd (session_close y x s))"
  unfolding session_close_def Let_def case_prod_unfold snd_conv
  by (intro guar_emit mark_stopped_guar env_after close_parts_guar mark_stopping_guar guar_if guar_cancel guar_refl)

text \<open>Closing reaches the stopped state.\<close>

lemma mark_stopped_stops:
  assumes "stopping (ss_state s)"
  shows "ss_state (snd (mark_stopped (y i k) e s)) = SessionStateStopped"
proof (cases "ss_state s = SessionStateStopped")
  case False
  have "stopping (ss_state (y i k s))" using env_guar assms by (rule stopping_guar)
  then have "ss_state (y i k s) = SessionStateStopping \<or> ss_state (y i k s) = SessionStateStopped" by (simp add: stopping_def)
  then show ?thesis using False by (auto simp: mark_stopped_def transition_if ValidateSessionStateTransition_def split: option.split)
qed (simp add: mark_stopped_def)

text \<open>From the instant \<open>m\<close> at which the cleanup looks what is installed.\<close>

lemma session_close_stops:
  assumes v: "state_Valid (ss_state s)" and c: "session_close y x s = ((report, err), t)"
  obtains m where "m = close_looks y s" "guar s m" "guar m t" "stopping (ss_state m)" "ss_state t = SessionStateStopped"
    "\<And>n. ss_network m = Some n \<Longrightarrow> ob_closed (w_outs t n)"
    "\<And>r. ss_runtime m = Some r \<Longrightarrow> r < w_nrts m \<Longrightarrow> rt_closeOnce (w_rts t r)"
    "last (ss_events t) = (event_of (ss_id t) EventTypeShutdownCompleted (w_now t))\<lparr>ev_Cleanup := Some report\<rparr>"
    "cleanup_Component (last (report_Results report)) = ''atrust.runtime''"
proof -
  let ?s1 = "y 0 0 (if ss_cancel s then cancel s else s)"
  let ?ms = "mark_stopping (ss_state s) ?s1"
  let ?m = "y 1 0 (snd ?ms)"
  let ?p = "close_parts y x ?m"
  let ?ms2 = "mark_stopped (y 4 0) (snd (fst ?p)) (y 3 0 (snd ?p))"
  have g1: "guar s ?s1" by (intro env_intros)
  have st: "stopping (ss_state s) \<Longrightarrow> stopping (ss_state ?s1)" by (rule stopping_guar [OF g1])
  have gm: "guar s ?m" by (intro env_after mark_stopping_guar g1)
  have sm: "stopping (ss_state ?m)"
    by (rule stopping_guar [OF env_guar]) (rule mark_stopping_stops [OF valid_guar [OF g1 v] st])
  have gp: "guar ?m (snd ?p)" by (rule close_parts_guar [OF guar_refl])
  have s3: "stopping (ss_state (y 3 0 (snd ?p)))" by (rule stopping_guar [OF env_guar]) (rule stopping_guar [OF gp sm])
  have "guar (snd ?p) (snd ?ms2)" by (intro mark_stopped_guar env_after guar_refl)
  moreover have t: "t = emit ((event_of (ss_id (snd ?ms2)) EventTypeShutdownCompleted (w_now (snd ?ms2)))\<lparr>ev_Cleanup := Some report\<rparr>) (snd ?ms2)"
    and rep: "cleanup_Component (last (report_Results report)) = cleanup_Component (fst (fst ?p))"
    using c by (auto simp: session_close_def Let_def case_prod_unfold)
  ultimately have gt: "guar (snd ?p) t" by (simp add: guar_emit)
  have net: "ob_closed (w_outs t n)" if "ss_network ?m = Some n" for n
  proof -
    have n: "ob_closed (w_outs (snd (net_Close n ?m)) n)" by (simp add: net_Close_def)
    have "guar (snd (net_Close n ?m)) (snd ?p)"
    proof -
      have r: "guar a (snd (case r of None \<Rightarrow> (None, u) | Some r \<Rightarrow> CloseContext x r u))" if "guar a u" for r a and u :: Session
        using that by (auto intro: guar_intros split: option.split)
      show ?thesis unfolding close_parts_def Let_def case_prod_unfold snd_conv that option.case by (intro env_intros r)
    qed
    from guar_trans [OF this gt] n show ?thesis by (rule guar_net_closed)
  qed
  have rt: "rt_closeOnce (w_rts t r)" if r: "ss_runtime ?m = Some r" "r < w_nrts ?m" for r
  proof -
    let ?u = "y 2 0 (snd (case ss_network ?m of None \<Rightarrow> (None, ?m) | Some o' \<Rightarrow> net_Close o' ?m))"
    have "guar ?m ?u" by (rule env_after) (auto intro: guar_intros split: option.split)
    then have u: "r < w_nrts ?u" using r(2) by (simp add: guar_def)
    have c: "rt_closeOnce (w_rts (snd (CloseContext x r ?u)) r)" "w_nrts (snd (CloseContext x r ?u)) = w_nrts ?u"
      by (simp_all only: CloseContext_snd rt_Close_world)
    have "guar (snd (CloseContext x r ?u)) (snd ?p)"
      unfolding close_parts_def Let_def case_prod_unfold snd_conv r(1) option.case by (intro guar_intros)
    from guar_closed [OF guar_trans [OF this gt]] show ?thesis using u c by simp
  qed
  have "ss_state t = SessionStateStopped" unfolding t using mark_stopped_stops [OF s3] by simp
  moreover have "last (ss_events t) = (event_of (ss_id t) EventTypeShutdownCompleted (w_now t))\<lparr>ev_Cleanup := Some report\<rparr>"
    unfolding t by (simp add: emit_def)
  moreover have "cleanup_Component (last (report_Results report)) = ''atrust.runtime''"
    unfolding rep by (simp add: close_parts_def Let_def case_prod_unfold)
  ultimately show thesis using that [OF _ gm guar_trans [OF gp gt] sm] net rt by (simp add: close_looks_def)
qed

lemma session_Close_guar: "guar s (snd (session_Close y x l s))"
proof (cases "l = None \<and> ss_closed s = None")
  case True
  obtain report err t where c: "session_close y x s = ((report, err), t)" by (metis prod.collapse)
  have "state_Valid (ss_state s) \<Longrightarrow> ss_state t = SessionStateStopped" using session_close_stops [OF _ c] by metis
  then have "guar s (t\<lparr>ss_closed := Some (report, err)\<rparr>)"
    using session_close_guar [of s x] c by (simp add: guar_def closed_stopped_def)
  then show ?thesis using True c by (simp add: session_Close_def Let_def)
qed (auto simp: session_Close_def guar_refl env_guar split: option.split)

lemma refresh_adopt_guar: "guar a s \<Longrightarrow> guar a (refresh_adopt y c r cand res rs s)"
  unfolding refresh_adopt_def Let_def case_prod_unfold by (intro env_intros)

lemma refresh_candidate_guar: "guar a s \<Longrightarrow> guar a (snd (refresh_candidate y d c r n cand s))"
  by (auto simp: refresh_candidate_def Let_def intro!: refresh_adopt_guar guar_intros env_after split: sum.split option.split)

lemma RefreshResources_guar:
  assumes "RefreshResources ord y ctxErr deps s = Some (e, t)"
  shows "guar s t"
proof (cases "ss_state s \<noteq> SessionStateReady \<or> ss_runtime s = None")
  case True
  then show ?thesis using assms by (simp add: RefreshResources_def guar_refl)
next
  case False
  then obtain r where r: "ss_runtime s = Some r" "ss_state s = SessionStateReady" by auto
  obtain n where n: "ss_network s = Some n" using assms r by (cases "ss_network s") (simp_all add: RefreshResources_def)
  show ?thesis
  proof (cases "ob_replaceable (w_outs s n)")
    case rep: True
    obtain base where b: "reconnectConfig r (y 0 0 s) = Some base"
      using assms r n rep by (cases "reconnectConfig r (y 0 0 s)") (simp_all add: RefreshResources_def)
    let ?c = "base\<lparr>rc_SetupNetwork := False, rc_NetworkRuntime := Some n, rc_NodeSelectionHandler := RefreshHandler\<rparr>"
    let ?s1 = "(y 0 0 s)\<lparr>ss_refreshNodes := Map.empty, ss_refreshActive := False\<rparr>"
    obtain res s2 where st: "startWithStageHandler (y 1) (refresh_call ord) ctxErr ?c deps ?s1 = (res, s2)" by fastforce
    have "guar s ?s1" by (intro env_intros)
    then have g2: "guar s s2"
      using startWith_guar [of s "refresh_call ord" ?s1 1 ctxErr ?c deps] st by (simp add: guar_intros)
    show ?thesis
    proof (cases res)
      case (Inl x)
      then show ?thesis using assms r n rep b st g2 by (simp add: RefreshResources_def)
    next
      case (Inr cand)
      then have "t = rt_Close cand (snd (refresh_candidate y deps ?c r n cand s2))"
        using assms r n rep b st by (simp add: RefreshResources_def case_prod_unfold Let_def)
      then show ?thesis using g2 by (simp add: refresh_candidate_guar guar_intros)
    qed
  qed (use assms r n in \<open>simp add: RefreshResources_def guar_refl\<close>)
qed

end

lemma reconnect_attempt_guar:
  assumes env: "\<And>i. session_env (ys i)" and g: "guar a s"
  shows "guar a (snd (reconnect_attempt ord ys deps config err k s))"
proof -
  note ea = session_env.env_after [OF env]
  let ?ev = "reconnect_event EventTypeReconnectScheduled
    (Some (asCoreError ErrorCodeSessionReconnectFailed ''VPN network runtime stopped'' err)) k (reconnectDelay k div 1000000) s"
  let ?s1 = "ys 0 0 0 ?ev" and ?h = "reconnect_call ord"
  have g1: "guar a ?s1" by (intro ea guar_intros g)
  obtain o' s2 where st: "startWithStageHandler (ys 1 0) ?h (ctx_Err ?s1) config deps ?s1 = (o', s2)" by fastforce
  have g2: "guar a s2"
    using session_env.startWith_guar [OF env, of a ?h ?s1 1 0 "ctx_Err ?s1" config deps] st g1
    by (simp add: guar_reconnect_call)
  show ?thesis
  proof (cases "d_wait deps (reconnectDelay k) = None")
    case w: True
    show ?thesis
    proof (cases o')
      case (Inl e)
      then show ?thesis using st w g2
        by (auto simp: reconnect_attempt_def Let_def intro!: session_env.failWith_guar [OF env] ea guar_intros)
    next
      case (Inr cand)
      obtain b s3 where i: "installReconnectedRuntime (ys 4) deps cand s2 = (b, s3)" by fastforce
      then have "guar a s3" using session_env.installReconnected_guar [OF env, of a s2 4 deps cand] g2 by simp
      then show ?thesis using st w i Inr
        by (cases b) (auto simp: reconnect_attempt_def Let_def intro!: guar_intros split: sum.split)
    qed
  qed (use g1 in \<open>simp add: reconnect_attempt_def Let_def\<close>)
qed

lemma reconnect_loop_guar:
  assumes env: "\<And>n i. session_env (yss n i)"
  shows "guar a s \<Longrightarrow> reconnect_loop ord yss dps config err fuel k s = Some (r, t) \<Longrightarrow> guar a t"
proof (induction fuel arbitrary: k s)
  case (Suc fuel)
  obtain o' s1 where at: "reconnect_attempt ord (yss k) (dps k) config err k s = (o', s1)" by fastforce
  have "guar a (snd (reconnect_attempt ord (yss k) (dps k) config err k s))" by (rule reconnect_attempt_guar [OF env Suc.prems(1)])
  then have "guar a s1" by (simp add: at)
  then show ?case using Suc at by (cases o') auto
qed simp

lemma reconnect_guar:
  assumes env: "\<And>n i. session_env (yss n i)" and r: "reconnect ord yss dps fuel f err s = Some (r, t)"
  shows "guar s t"
proof -
  obtain e s1 where tr: "transition SessionStateReconnecting s = (e, s1)" by fastforce
  have g1: "guar s s1" using tr guar_refl by (rule guar_transition')
  show ?thesis
  proof (cases e)
    case None
    obtain c where c: "reconnectConfig f s1 = Some c" using r tr None by (cases "reconnectConfig f s1") (simp_all add: reconnect_def)
    let ?s2 = "if ss_runtime s1 = Some f then s1\<lparr>ss_runtime := None\<rparr> else s1"
    have "guar s (rt_Close f ?s2)" by (intro guar_intros g1)
    then show ?thesis using reconnect_loop_guar [OF env] r tr None c by (simp add: reconnect_def Let_def)
  qed (use r tr g1 in \<open>simp add: reconnect_def\<close>)
qed

lemma monitor_turn_guar:
  assumes env: "\<And>n i. session_env (yss n i)" and y: "session_env y"
    and m: "monitor_turn ord y yss dps fuel b1 b2 r s = Some (r', t)"
  shows "guar s t"
  using m by (auto simp: monitor_turn_def guar_refl intro: session_env.failWith_guar [OF y] guar_intros reconnect_guar [OF env]
      split: if_splits option.splits)

section \<open>Runs of a session\<close>

text \<open>
  The operations of a session with what happens meanwhile: an operation carries the operations that
  other goroutines run at each of its interruption points, and these carry theirs.
\<close>

datatype session_op =
    OpStart dependencies "nat \<Rightarrow> nat \<Rightarrow> session_op list"
  | OpMonitor "nat \<Rightarrow> dependencies" nat bool bool nat "nat \<Rightarrow> nat \<Rightarrow> session_op list" "nat \<Rightarrow> nat \<Rightarrow> nat \<Rightarrow> nat \<Rightarrow> session_op list"
  | OpClose "gerror option" "gerror option" "nat \<Rightarrow> nat \<Rightarrow> session_op list"
  | OpRefresh "gerror option" dependencies "nat \<Rightarrow> nat \<Rightarrow> session_op list"
  | OpSetRoutingMode RoutingMode
  | OpNodeSelection "string \<rightharpoonup> string"
  | OpServiceStopped ServiceStatus
  | OpReceive
  | OpContextDone
  | OpTime int

primrec run_all :: "('s \<Rightarrow> 's) list \<Rightarrow> 's \<Rightarrow> 's" where
  "run_all [] s = s"
| "run_all (g # gs) s = run_all gs (g s)"

text \<open>A call that panics or blocks does not return; the run goes on from the state before it, without what it may have done up to that point.\<close>

definition returned :: "Session \<Rightarrow> ('a \<times> Session) option \<Rightarrow> Session" where
  "returned s r = (case r of None \<Rightarrow> s | Some (_, t) \<Rightarrow> t)"

primrec session_step :: "((string \<rightharpoonup> string) \<Rightarrow> string list) \<Rightarrow> session_op \<Rightarrow> Session \<Rightarrow> Session" where
  "session_step ord (OpStart deps f) = (\<lambda>s. snd (Start ord (\<lambda>i k. run_all (map (session_step ord) (f i k))) deps s))"
| "session_step ord (OpMonitor dps fuel b1 b2 r f g) = (\<lambda>s. returned s (monitor_turn ord
     (\<lambda>i k. run_all (map (session_step ord) (f i k))) (\<lambda>a b i k. run_all (map (session_step ord) (g a b i k))) dps fuel b1 b2 r s))"
| "session_step ord (OpClose x l f) = (\<lambda>s. snd (session_Close (\<lambda>i k. run_all (map (session_step ord) (f i k))) x l s))"
| "session_step ord (OpRefresh x deps f) = (\<lambda>s. returned s (RefreshResources ord (\<lambda>i k. run_all (map (session_step ord) (f i k))) x deps s))"
| "session_step ord (OpSetRoutingMode m) = (\<lambda>s. returned s (session_SetRoutingMode m s))"
| "session_step ord (OpNodeSelection n) = handleNodeSelection ord n"
| "session_step ord (OpServiceStopped st) = emit_service EventTypeServiceStopped st"
| "session_step ord OpReceive = (\<lambda>s. s\<lparr>ss_events := tl (ss_events s)\<rparr>)"
| "session_step ord OpContextDone = cancel"
| "session_step ord (OpTime d) = (\<lambda>s. s\<lparr>w_now := w_now s + d\<rparr>)"

lemma run_all_guar: "(\<And>g. g \<in> set gs \<Longrightarrow> \<forall>s. guar s (g s)) \<Longrightarrow> guar s (run_all gs s)"
proof (induction gs arbitrary: s)
  case (Cons g gs)
  have "guar s (g s)" using Cons.prems by simp
  moreover have "guar (g s) (run_all gs (g s))" using Cons.prems by (intro Cons.IH) simp
  ultimately have "guar s (run_all gs (g s))" by (rule guar_trans)
  then show ?case by simp
qed (simp add: guar_refl)

lemma session_env_run_all:
  assumes "\<And>a b op. a \<in> range f \<Longrightarrow> b \<in> range a \<Longrightarrow> op \<in> set b \<Longrightarrow> \<forall>s. guar s (step op s)"
  shows "session_env (\<lambda>i k. run_all (map step (f i k)))"
proof
  show "guar s (run_all (map step (f i k)) s)" for s i k
  proof (rule run_all_guar)
    fix g
    assume "g \<in> set (map step (f i k))"
    then obtain op where "op \<in> set (f i k)" "g = step op" by auto
    then show "\<forall>s. guar s (g s)" using assms [OF rangeI rangeI] by blast
  qed
qed

lemma Start_guar: "session_env y \<Longrightarrow> guar s (snd (Start ord y deps s))"
  using session_env.session_start_guar [of y s ord deps]
  by (auto simp: Start_def Let_def case_prod_unfold guar_refl intro: guar_intros split: option.split)

lemma SetRoutingMode_guar:
  assumes "session_SetRoutingMode m s = Some (e, t)"
  shows "guar s t"
  using assms by (auto simp: session_SetRoutingMode_def net_SetRoutingMode_def guar_def closed_stopped_def path_refl not_le
      split: if_splits option.splits prod.splits sum.splits)

lemma session_step_guar: "\<forall>s. guar s (session_step ord op s)"
proof (induction op)
  case (OpStart d f)
  have "session_env (\<lambda>i k. run_all (map (session_step ord) (f i k)))"
    by (rule session_env_run_all) (rule OpStart)
  then show ?case by (simp add: Start_guar)
next
  case (OpMonitor dps fuel b1 b2 r f g)
  have y: "session_env (\<lambda>i k. run_all (map (session_step ord) (f i k)))"
    by (rule session_env_run_all) (rule OpMonitor(1))
  have z: "session_env (\<lambda>i k. run_all (map (session_step ord) (g a b i k)))" for a b
    by (rule session_env_run_all) (rule OpMonitor(2) [OF rangeI rangeI])
  show ?case using monitor_turn_guar [OF z y] by (auto simp: returned_def guar_refl split: option.split)
next
  case (OpClose x l f)
  have "session_env (\<lambda>i k. run_all (map (session_step ord) (f i k)))"
    by (rule session_env_run_all) (rule OpClose)
  then show ?case by (simp add: session_env.session_Close_guar)
next
  case (OpRefresh x d f)
  have "session_env (\<lambda>i k. run_all (map (session_step ord) (f i k)))"
    by (rule session_env_run_all) (rule OpRefresh)
  then show ?case using session_env.RefreshResources_guar by (auto simp: returned_def guar_refl split: option.split)
next
  case (OpSetRoutingMode m)
  then show ?case using SetRoutingMode_guar by (auto simp: returned_def guar_refl split: option.split)
qed (simp_all add: guar_intros)

interpretation others: session_env "\<lambda>i k. run_all (map (session_step ord) (ops i k))" for ord ops
  by (rule session_env_run_all) (rule session_step_guar)

definition fresh_session :: "Session \<Rightarrow> bool" where
  "fresh_session s \<longleftrightarrow> (\<exists>sid config outs rts now. s = newSession sid config outs rts now)"

interpretation sess: step_system fresh_session "\<lambda>s op. session_step ord op s"
  "\<lambda>s. session_path SessionStateIdle (ss_state s) \<and> length (ss_events s) \<le> sessionEventBuffer" for ord
proof
  show "session_path SessionStateIdle (ss_state s) \<and> length (ss_events s) \<le> sessionEventBuffer" if "fresh_session s" for s
    using that by (auto simp: fresh_session_def newSession_def path_refl)
  show "session_path SessionStateIdle (ss_state (session_step ord op s)) \<and> length (ss_events (session_step ord op s)) \<le> sessionEventBuffer"
    if "session_path SessionStateIdle (ss_state s) \<and> length (ss_events s) \<le> sessionEventBuffer" for s op
  proof -
    have "guar s (session_step ord op s)" using session_step_guar by blast
    then show ?thesis using that unfolding guar_def by (auto intro: session_path_trans)
  qed
qed

lemma session_run_guar: "guar s (foldl (\<lambda>s op. session_step ord op s) s ops)"
proof (induction ops arbitrary: s)
  case (Cons op ops)
  have "guar s (session_step ord op s)" using session_step_guar by blast
  with Cons [of "session_step ord op s"] have "guar s (foldl (\<lambda>s op. session_step ord op s) (session_step ord op s) ops)"
    by (rule guar_trans [rotated])
  then show ?case by simp
qed (simp add: guar_refl)

end
