(* ===== verification/SessionLife.thy ===== *)
theory SessionLife
  imports SessionRuns
begin

text \<open>
  Who holds the runtimes and network runtimes of a session at every moment, and the properties of
  starting, closing and reconnecting a session.
\<close>

section \<open>Who holds what\<close>

text \<open>
  Every runtime is closed, installed in the session, or in the hands \<open>L\<close> of a handler under way; every
  network runtime of a runtime is closed, installed, or in the hands \<open>N\<close>.
\<close>

definition held :: "nat set \<Rightarrow> nat set \<Rightarrow> Session \<Rightarrow> bool" where
  "held L N s \<longleftrightarrow> (\<forall>r < w_nrts s. (rt_closeOnce (w_rts s r) \<or> ss_runtime s = Some r \<or> r \<in> L)
     \<and> (\<forall>x. rt_outbound (w_rts s r) = Some x \<longrightarrow> ob_closed (w_outs s x) \<or> ss_network s = Some x \<or> x \<in> N))"

text \<open>
  What the handlers that run beside a start or a reconnection do: they leave the installed runtime and
  network in place, touch no other runtime, and lose nothing.
\<close>

definition steady :: "Session \<Rightarrow> Session \<Rightarrow> bool" where
  "steady s t \<longleftrightarrow> guar s t \<and> ss_runtime t = ss_runtime s \<and> ss_network t = ss_network s
     \<and> (\<forall>r < w_nrts s. rt_outbound (w_rts t r) = rt_outbound (w_rts s r) \<and> (ss_runtime s \<noteq> Some r \<longrightarrow> w_rts t r = w_rts s r))
     \<and> (\<forall>L N. held L N s \<longrightarrow> held L N t)"

definition calm :: "Session \<Rightarrow> Session \<Rightarrow> bool" where
  "calm s t \<longleftrightarrow> steady s t \<and> ss_stageErr t = ss_stageErr s \<and> (ss_state t = ss_state s \<or> stopping (ss_state t))"

named_theorems steady_intros \<open>what may follow without disturbing what is held\<close>

lemma steadyD:
  assumes "steady s t"
  shows "guar s t" "ss_runtime t = ss_runtime s" "ss_network t = ss_network s" "w_nrts s \<le> w_nrts t"
    "r < w_nrts s \<Longrightarrow> rt_outbound (w_rts t r) = rt_outbound (w_rts s r)"
    "r < w_nrts s \<Longrightarrow> ss_runtime s \<noteq> Some r \<Longrightarrow> w_rts t r = w_rts s r" "held L N s \<Longrightarrow> held L N t"
  using assms by (simp_all add: steady_def guar_def)

lemma steady_refl [steady_intros]: "steady s s"
  by (simp add: steady_def guar_refl)

lemma steady_trans:
  assumes "steady s t" "steady t u"
  shows "steady s u"
proof -
  have "w_nrts s \<le> w_nrts t" using assms(1) by (rule steadyD)
  moreover have "guar s u" using assms by (meson steadyD(1) guar_trans)
  ultimately show ?thesis using assms unfolding steady_def by auto
qed

lemma steady_world:
  assumes "steady a s" "guar s t" "w_outs t = w_outs s" "w_rts t = w_rts s" "w_nrts t = w_nrts s"
    "ss_runtime t = ss_runtime s" "ss_network t = ss_network s"
  shows "steady a t"
proof (rule steady_trans [OF assms(1)])
  show "steady s t" using assms(2-) unfolding steady_def held_def by simp
qed

lemma steady_simple [steady_intros]:
  "steady a s \<Longrightarrow> steady a (s\<lparr>ss_lastError := e\<rparr>)" "steady a s \<Longrightarrow> steady a (s\<lparr>ss_stageErr := e\<rparr>)"
  "steady a s \<Longrightarrow> steady a (s\<lparr>ss_cancel := b\<rparr>)" "steady a s \<Longrightarrow> steady a (s\<lparr>ss_resources := x\<rparr>)"
  "steady a s \<Longrightarrow> steady a (s\<lparr>ss_selectedNodes := n\<rparr>)" "steady a s \<Longrightarrow> steady a (s\<lparr>ss_resumeState := q\<rparr>)"
  "steady a s \<Longrightarrow> steady a (s\<lparr>ss_startErr := z\<rparr>)"
  "steady a s \<Longrightarrow> steady a (s\<lparr>ss_events := tl (ss_events s)\<rparr>)" "steady a s \<Longrightarrow> steady a (s\<lparr>w_now := t\<rparr>)"
  by (erule steady_world; simp add: guar_intros)+

lemma steady_emit [steady_intros]: "steady a s \<Longrightarrow> steady a (emit ev s)"
  by (erule steady_world) (simp_all add: guar_emit guar_refl)

lemma steady_cancel [steady_intros]: "steady a s \<Longrightarrow> steady a (cancel s)"
  by (erule steady_world) (simp_all add: guar_cancel guar_refl, simp_all add: cancel_def)

lemma steady_transition [steady_intros]: "steady a s \<Longrightarrow> steady a (snd (transition n s))"
  by (erule steady_world) (simp_all add: guar_transition guar_refl, simp_all add: transition_if emit_def)

lemma steady_if [steady_intros]: "(b \<Longrightarrow> steady a s) \<Longrightarrow> (\<not> b \<Longrightarrow> steady a t) \<Longrightarrow> steady a (if b then s else t)"
  by simp

lemma steady_foldl [steady_intros]: "steady a s \<Longrightarrow> (\<And>s x. steady a s \<Longrightarrow> steady a (f s x)) \<Longrightarrow> steady a (foldl f s xs)"
  by (rule foldl_inv)

lemma steady_emits [steady_intros]:
  "steady a s \<Longrightarrow> steady a (emitResourcesUpdated x s)" "steady a s \<Longrightarrow> steady a (emitNodes n s)" "steady a s \<Longrightarrow> steady a (emitSelectedNodes s)"
  "steady a s \<Longrightarrow> steady a (emit_service ty st s)" "steady a s \<Longrightarrow> steady a (reconnect_event ty err k d s)" "steady a s \<Longrightarrow> steady a (emit_resume g q s)"
  "steady a s \<Longrightarrow> steady a (emitServiceEvents net ty s)" "steady a s \<Longrightarrow> steady a (handleNodeSelection ord n s)"
  by (auto simp: emitResourcesUpdated_def emitNodes_def emitSelectedNodes_def emit_service_def reconnect_event_def emit_resume_def
      emitServiceEvents_def handleNodeSelection_def Let_def intro!: steady_intros split: option.split)

lemma steady_transition': "transition n s = (e, t) \<Longrightarrow> steady a s \<Longrightarrow> steady a t"
  using steady_transition [of a s n] by simp

lemma steady_handleSetupStage [steady_intros]: "steady a s \<Longrightarrow> steady a (handleSetupStage st s)"
  by (auto simp: handleSetupStage_def intro!: steady_intros dest: steady_transition' split: option.split prod.split)

lemma steady_calls [steady_intros]:
  "steady a s \<Longrightarrow> steady a (session_call ord c s)" "steady a s \<Longrightarrow> steady a (reconnect_call ord c s)"
  by (auto simp: session_call_def reconnect_call_def intro: steady_intros split: setup_call.split)

lemma steady_net_Close [steady_intros]: "steady a s \<Longrightarrow> steady a (snd (net_Close x s))"
proof (erule steady_trans)
  show "steady s (snd (net_Close x s))"
    using guar_net_Close [OF guar_refl, of s x] by (auto simp: steady_def held_def net_Close_def)
qed

lemma steady_close_net [steady_intros]: "steady a s \<Longrightarrow> steady a (close_net x s)"
  by (auto simp: close_net_def intro: steady_intros split: option.split)

lemma held_mono: "held L N s \<Longrightarrow> L \<subseteq> L' \<Longrightarrow> N \<subseteq> N' \<Longrightarrow> held L' N' s"
  unfolding held_def by blast

lemma held_rt_Close: "held (insert r L) N s \<Longrightarrow> held L N (rt_Close r s)"
  unfolding held_def using rt_Close_world [where s = s and r = r] by (metis insert_iff)

lemma held_rt_Close_owned:
  assumes "held (insert r L) (insert x N) s" "\<not> rt_closeOnce (w_rts s r)" "rt_ownsOutbound (w_rts s r)" "rt_outbound (w_rts s r) = Some x"
  shows "held L N (rt_Close r s)"
  using held_rt_Close [OF assms(1)] rt_Close_world(9) [OF assms(2-4)] unfolding held_def by blast

lemma steady_rt_Close: "steady a s \<Longrightarrow> ss_runtime s = Some r \<Longrightarrow> steady a (rt_Close r s)"
proof (erule steady_trans)
  assume r: "ss_runtime s = Some r"
  have "held L N s \<Longrightarrow> held L N (rt_Close r s)" for L N
    unfolding held_def using rt_Close_world [where s = s and r = r] by metis
  then show "steady s (rt_Close r s)"
    using r guar_rt_Close [OF guar_refl, of s r] rt_Close_world [where s = s and r = r] by (simp add: steady_def)
qed

lemma held_close_net:
  assumes "held L (set_option n \<union> N) s"
  shows "held L N (close_net n s)"
  using assms by (auto simp: held_def close_net_def net_Close_def split: option.splits)

lemma held_new_runtime: "held L N s \<Longrightarrow> held (insert (w_nrts s) L) N (snd (new_runtime s))"
  by (auto simp: held_def new_runtime_def put_rt_def Let_def less_Suc_eq)

locale calm_env =
  fixes y :: env
  assumes env_calm: "calm s (y i k s)"

sublocale calm_env \<subseteq> session_env
  by unfold_locales (use env_calm in \<open>simp add: calm_def steady_def\<close>)

context calm_env
begin

lemma steady_after [steady_intros]: "steady a s \<Longrightarrow> steady a (y i k s)"
  using env_calm [of s i k] by (auto simp: calm_def intro: steady_trans)

lemma held_after: "held L N s \<Longrightarrow> held L N (y i k s)"
  using env_calm [of s i k] by (auto simp: calm_def steady_def)

lemma stopping_after: "stopping (ss_state s) \<Longrightarrow> stopping (ss_state (y i k s))"
  using env_calm [of s i k] by (auto simp: calm_def)

lemma run_calls_steady:
  assumes "\<And>c s. steady a s \<Longrightarrow> steady a (h c s)"
  shows "steady a s \<Longrightarrow> steady a (run_calls (y i) h k cs s)"
  by (induction cs arbitrary: k s) (auto intro: assms steady_after)

lemma failWith_steady: "steady a s \<Longrightarrow> steady a (failWith (y i k) code m e s)"
  unfolding failWith_def Let_def by (intro steady_intros)

lemma close_parts_steady:
  assumes "steady a s"
  shows "steady a (snd (close_parts y x s))"
proof -
  have n: "steady s (snd (case n of None \<Rightarrow> (None, t) | Some o' \<Rightarrow> net_Close o' t))" if "steady s t" for n t
    using that by (auto intro: steady_intros split: option.split)
  have r: "steady s (snd (case ss_runtime s of None \<Rightarrow> (None, t) | Some r \<Rightarrow> CloseContext x r t))" if "steady s t" for t
    using that steadyD(2) [OF that] by (auto simp: CloseContext_snd intro: steady_rt_Close split: option.split)
  have "steady s (snd (close_parts y x s))"
    unfolding close_parts_def Let_def case_prod_unfold snd_conv by (intro steady_intros n r)
  with assms show ?thesis by (rule steady_trans)
qed

lemma session_close_steady: "steady s (snd (session_close y x s))"
proof -
  have m1: "steady s t \<Longrightarrow> steady s (snd (mark_stopping st t))" for st t
    by (auto simp: mark_stopping_def dest: steady_transition' split: prod.split option.split)
  have m2: "steady s t \<Longrightarrow> steady s (snd (mark_stopped (y i k) e t))" for i k e t
    by (auto simp: mark_stopped_def dest!: steady_transition' intro: steady_after split: prod.split option.split)
  show ?thesis unfolding session_close_def Let_def case_prod_unfold snd_conv
    by (intro steady_emit m1 m2 close_parts_steady steady_after steady_if steady_cancel steady_refl)
qed

end

lemma stageErr_foldl: "(\<And>s x. ss_stageErr (f s x) = ss_stageErr s) \<Longrightarrow> ss_stageErr (foldl f s xs) = ss_stageErr s"
  by (induction xs arbitrary: s) simp_all

lemma stageErr_simps [simp]:
  "ss_stageErr (snd (transition n s)) = ss_stageErr s" "ss_stageErr (rt_Close r s) = ss_stageErr s" "ss_stageErr (cancel s) = ss_stageErr s"
  "ss_stageErr (snd (net_Close x s)) = ss_stageErr s" "ss_stageErr (emit_service ty st s) = ss_stageErr s"
  by (auto simp: transition_if cancel_def net_Close_def emit_service_def rt_Close_def CloseContext_def rt_close_body_alt Let_def
      put_rt_def close_client_def split: option.splits)

lemma stageErr_transition: "transition n s = (e, t) \<Longrightarrow> ss_stageErr t = ss_stageErr s"
  using stageErr_simps(1) [of n s] by simp

lemma session_close_stageErr:
  assumes "\<And>i k s. ss_stageErr (y i k s) = ss_stageErr s"
  shows "ss_stageErr (snd (session_close y x s)) = ss_stageErr s"
proof -
  have "ss_stageErr (snd (mark_stopping st t)) = ss_stageErr t" for st t
    by (auto simp: mark_stopping_def dest: stageErr_transition split: prod.split option.split)
  moreover have "ss_stageErr (snd (mark_stopped (y i k) e t)) = ss_stageErr t" for i k e t
    by (auto simp: mark_stopped_def assms dest: stageErr_transition split: prod.split option.split)
  moreover have "ss_stageErr (snd (close_parts y x t)) = ss_stageErr t" for t
    by (simp add: close_parts_def Let_def case_prod_unfold stageErr_foldl CloseContext_snd assms split: option.split)
  ultimately show ?thesis by (simp add: session_close_def Let_def case_prod_unfold assms)
qed

lemma session_close_calm: "calm_env y \<Longrightarrow> state_Valid (ss_state s) \<Longrightarrow> calm s (snd (session_close y x s))"
proof -
  assume y: "calm_env y" and v: "state_Valid (ss_state s)"
  have e: "session_env y" using y by (simp add: calm_env_def session_env_def calm_def steady_def)
  obtain rep err t where c: "session_close y x s = ((rep, err), t)" by (metis prod.collapse)
  then have "ss_state t = SessionStateStopped" using session_env.session_close_stops [OF e v c] by metis
  moreover have "ss_stageErr t = ss_stageErr s"
    using session_close_stageErr [of y x s] y c by (simp add: calm_env_def calm_def)
  ultimately show ?thesis using calm_env.session_close_steady [OF y, of s x] c by (simp add: calm_def stopping_def)
qed

text \<open>
  After a runtime exists, a start either returns it, with what it holds in the caller's hands, or has
  closed it.
\<close>

lemma new_runtime_fields:
  "w_nrts (snd (new_runtime s)) = Suc (w_nrts s)" "rt_outbound (w_rts (snd (new_runtime s)) (w_nrts s)) = None"
  "\<not> rt_closeOnce (w_rts (snd (new_runtime s)) (w_nrts s))" "ss_runtime (snd (new_runtime s)) = ss_runtime s"
  "ss_network (snd (new_runtime s)) = ss_network s"
  by (simp_all add: new_runtime_def Let_def put_rt_def)

lemma finish_start_held:
  assumes h: "held (insert r L) N s" and r: "r < w_nrts s" and o: "rt_outbound (w_rts s r) = None"
    and c: "\<not> rt_closeOnce (w_rts s r)" and f: "finish_start config deps v su r s = (res, t)"
  shows "(\<forall>e. res = Inl e \<longrightarrow> held L N t)
    \<and> (\<forall>q. res = Inr q \<longrightarrow> q = r \<and> held (insert r L) (N \<union> set_option (rt_outbound (w_rts t r))) t \<and> \<not> rt_closeOnce (w_rts t r)
         \<and> (rt_outbound (w_rts t r) \<noteq> None \<longrightarrow> rt_ownsOutbound (w_rts t r)))
    \<and> ss_runtime t = ss_runtime s \<and> ss_network t = ss_network s \<and> w_nrts t = w_nrts s"
proof -
  define s1 where "s1 = put_rt r ((w_rts s r)\<lparr>rt_resumeState := encodeResumeState (w_now s) config (su_username su)
      (su_reused su) (su_data su) (v + 1)\<rparr>) s"
  have h1: "held (insert r L) N s1" using h by (auto simp: held_def s1_def put_rt_def)
  have f1: "rt_outbound (w_rts s1 r) = None" "\<not> rt_closeOnce (w_rts s1 r)" "w_nrts s1 = w_nrts s" "ss_runtime s1 = ss_runtime s"
    "ss_network s1 = ss_network s" using o c by (simp_all add: s1_def put_rt_def)
  have "(\<exists>e. setup_network deps config r s1 = (Some e, rt_Close r s1)) \<or> setup_network deps config r s1 = (None, s1)
      \<or> (\<exists>x. setup_network deps config r s1 = (None, put_rt r ((w_rts s1 r)\<lparr>rt_outbound := Some x, rt_ownsOutbound := True\<rparr>) s1))"
    by (auto simp: setup_network_def split: sum.split option.split)
  then consider (fail) e where "setup_network deps config r s1 = (Some e, rt_Close r s1)"
    | (none) "setup_network deps config r s1 = (None, s1)"
    | (net) x where "setup_network deps config r s1 = (None, put_rt r ((w_rts s1 r)\<lparr>rt_outbound := Some x, rt_ownsOutbound := True\<rparr>) s1)"
    by blast
  then show ?thesis
  proof cases
    case fail
    then show ?thesis using f held_rt_Close [OF h1] rt_Close_world [where s = s1 and r = r] f1
      by (auto simp: finish_start_def Let_def s1_def [symmetric])
  next
    case none
    then show ?thesis using f held_rt_Close [OF h1] h1 f1 rt_Close_world [where s = s1 and r = r]
      by (auto simp: finish_start_def Let_def s1_def [symmetric] save_client_data_def split: if_splits option.splits)
  next
    case (net x)
    define s2 where "s2 = put_rt r ((w_rts s1 r)\<lparr>rt_outbound := Some x, rt_ownsOutbound := True\<rparr>) s1"
    have h2: "held (insert r L) (insert x N) s2" using h1 by (auto simp: held_def s2_def put_rt_def)
    have f2: "rt_outbound (w_rts s2 r) = Some x" "\<not> rt_closeOnce (w_rts s2 r)" "rt_ownsOutbound (w_rts s2 r)" "w_nrts s2 = w_nrts s"
      "ss_runtime s2 = ss_runtime s" "ss_network s2 = ss_network s" using f1 by (simp_all add: s2_def put_rt_def)
    show ?thesis using net f held_rt_Close_owned [OF h2 f2(2,3,1)] h2 f2 rt_Close_world [where s = s2 and r = r]
      by (auto simp: finish_start_def Let_def s1_def [symmetric] s2_def [symmetric] save_client_data_def split: if_splits option.splits)
  qed
qed

context calm_env
begin

lemma startWith_held:
  assumes hs: "\<And>c a s. steady a s \<Longrightarrow> steady a (h c s)" and held: "held L N s"
    and st: "startWithStageHandler (y i) h ctxErr config deps s = (res, t)" and rt: "ss_runtime s \<noteq> Some (w_nrts s)"
  shows "(\<forall>e. res = Inl e \<longrightarrow> held L N t)
    \<and> (\<forall>r. res = Inr r \<longrightarrow> r = w_nrts s \<and> r < w_nrts t \<and> \<not> rt_closeOnce (w_rts t r)
         \<and> held (insert r L) (N \<union> set_option (rt_outbound (w_rts t r))) t
         \<and> (rt_outbound (w_rts t r) \<noteq> None \<longrightarrow> rt_ownsOutbound (w_rts t r)))
    \<and> ss_runtime t = ss_runtime s \<and> ss_network t = ss_network s \<and> w_nrts s \<le> w_nrts t"
proof -
  let ?r = "w_nrts s" and ?n = "snd (new_runtime s)"
  have s2: "steady ?n (run_calls (y i) h 0 cs ?n)" for cs by (rule run_calls_steady [OF hs steady_refl])
  have same: "w_rts (run_calls (y i) h 0 cs ?n) ?r = w_rts ?n ?r" for cs
    using steadyD(6) [OF s2] rt by (simp add: new_runtime_fields)
  have h2: "held (insert ?r L) N (run_calls (y i) h 0 cs ?n)" for cs
    using steadyD(7) [OF s2 held_new_runtime [OF held]] .
  have lt: "?r < w_nrts (run_calls (y i) h 0 cs ?n)" for cs using steadyD(4) [OF s2, of cs] by (simp add: new_runtime_fields)
  have fld: "ss_runtime (run_calls (y i) h 0 cs ?n) = ss_runtime s" "ss_network (run_calls (y i) h 0 cs ?n) = ss_network s" for cs
    using steadyD(2,3) [OF s2] by (simp_all add: new_runtime_fields)
  show ?thesis
  proof (cases rule: startWith_cases [of "y i" h ctxErr config deps s])
    case (early e)
    then show ?thesis using st held by simp
  next
    case (failed e cs d1 d2)
    then show ?thesis using st held_rt_Close [OF h2] fld lt [of cs] by (auto simp: rt_Close_world)
  next
    case (finished cs su revision d1 d2)
    have "finish_start config deps revision su ?r (run_calls (y i) h 0 cs ?n) = (res, t)" using finished st by simp
    from finish_start_held [OF h2 lt _ _ this] show ?thesis
      using lt [of cs] fld [of cs] by (auto simp: same new_runtime_fields)
  qed
qed

end

text \<open>The set-up reports its stages in the order of \<^verbatim>\<open>SetupContext\<close>, as far as it gets.\<close>

definition setup_stages :: "SetupStage list" where
  "setup_stages = [SetupStageDiscoveringAuth, SetupStageAuthenticating, SetupStageFetchingResources,
     SetupStageSelectingNodes, SetupStageEstablishingTunnel]"

fun stages_of :: "setup_call list \<Rightarrow> SetupStage list" where
  "stages_of [] = []"
| "stages_of (NotifyStage st # cs) = st # stages_of cs"
| "stages_of (NotifyNodes _ # cs) = stages_of cs"

definition stages_ordered :: "dependencies \<Rightarrow> bool" where
  "stages_ordered deps \<longleftrightarrow> (\<forall>c d1 d2. \<exists>n. stages_of (fst (d_setup deps c d1 d2)) = take n setup_stages)"

definition stage_at :: "nat \<Rightarrow> SessionState" where
  "stage_at k = (if k = 0 then SessionStateIdle else the (setupStageState (setup_stages ! (k - 1))))"

lemma stage_step:
  "k < 5 \<Longrightarrow> ss_state s = stage_at k \<Longrightarrow>
   ss_state (handleSetupStage (setup_stages ! k) s) = stage_at (Suc k) \<and> ss_stageErr (handleSetupStage (setup_stages ! k) s) = ss_stageErr s"
proof -
  assume k: "k < 5" "ss_state s = stage_at k"
  then have "k = 0 \<or> k = 1 \<or> k = 2 \<or> k = 3 \<or> k = 4" by auto
  then show ?thesis using k(2)
    by (auto simp: setup_stages_def stage_at_def handleSetupStage_def transition_if CanTransitionSessionState_def)
qed

definition on_track :: "nat \<Rightarrow> Session \<Rightarrow> bool" where
  "on_track k s \<longleftrightarrow> stopping (ss_state s) \<or> ss_state s = stage_at k \<and> ss_stageErr s = None"

lemma stopping_keeps_stage: "stopping (ss_state s) \<Longrightarrow> stopping (ss_state (session_call ord c s))"
  using stopping_guar [OF guar_session_call [OF guar_refl]] .

lemma on_track_call:
  assumes "on_track k s" "stages_of (c # cs) = drop k (take n setup_stages)"
  shows "\<exists>k'. on_track k' (session_call ord c s) \<and> stages_of cs = drop k' (take n setup_stages)"
proof (cases c)
  case (NotifyStage st)
  have k: "k < 5" "k < n" using assms(2) NotifyStage by (auto simp: setup_stages_def min_def not_less dest!: arg_cong [where f = length] split: if_splits)
  have "length setup_stages = 5" by (simp add: setup_stages_def)
  then have "drop k (take n setup_stages) = setup_stages ! k # drop (Suc k) (take n setup_stages)"
    using Cons_nth_drop_Suc [of k "take n setup_stages"] k by simp
  then have "st = setup_stages ! k" "stages_of cs = drop (Suc k) (take n setup_stages)"
    using assms(2) NotifyStage by simp_all
  moreover have "on_track (Suc k) (session_call ord c s)"
    using assms(1) stage_step [OF k(1), of s] stopping_keeps_stage [of s ord c] NotifyStage calculation(1)
    by (auto simp: on_track_def session_call_def)
  ultimately show ?thesis by blast
next
  case (NotifyNodes n)
  then show ?thesis using assms by (auto simp: on_track_def session_call_def handleNodeSelection_def Let_def)
qed

context calm_env
begin

lemma on_track_after: "on_track k s \<Longrightarrow> on_track k (y i j s)"
  using env_calm [of s i j] by (auto simp: on_track_def calm_def)

lemma run_calls_on_track:
  "on_track k s \<Longrightarrow> stages_of cs = drop k (take n setup_stages) \<Longrightarrow>
     \<exists>k'. on_track k' (run_calls (y i) (session_call ord) j cs s)"
proof (induction cs arbitrary: k s j)
  case Nil
  from on_track_after [OF Nil.prems(1)] show ?case by auto
next
  case (Cons c cs)
  have "on_track k (y i j s)" using Cons.prems(1) by (rule on_track_after)
  from on_track_call [OF this Cons.prems(2)] obtain k' where
    "on_track k' (session_call ord c (y i j s))" "stages_of cs = drop k' (take n setup_stages)" by blast
  from Cons.IH [OF this] show ?case by simp
qed

end

definition all_closed :: "Session \<Rightarrow> bool" where
  "all_closed s \<longleftrightarrow> (\<forall>r < w_nrts s. rt_closeOnce (w_rts s r) \<and> (\<forall>x. rt_outbound (w_rts s r) = Some x \<longrightarrow> ob_closed (w_outs s x)))"

definition settled :: "Session \<Rightarrow> bool" where
  "settled s \<longleftrightarrow> held {} {} s \<and> (\<forall>r. ss_runtime s = Some r \<longrightarrow> r < w_nrts s \<and> rt_closeOnce (w_rts s r))
     \<and> (\<forall>x. ss_network s = Some x \<longrightarrow> ob_closed (w_outs s x))"

lemma settled_all_closed: "settled s \<Longrightarrow> all_closed s"
  unfolding settled_def held_def all_closed_def by blast

lemma settled_steady: "settled s \<Longrightarrow> steady s t \<Longrightarrow> settled t"
  using steadyD(1,2,3) [of s t] steadyD(7) [of s t "{}" "{}"] guar_closed [of s t] guar_net_closed [of s t]
  unfolding settled_def by auto

lemma held_owned_Close:
  assumes "held (insert r L) (N \<union> set_option (rt_outbound (w_rts s r))) s" "\<not> rt_closeOnce (w_rts s r)"
    "rt_outbound (w_rts s r) \<noteq> None \<longrightarrow> rt_ownsOutbound (w_rts s r)"
  shows "held L N (rt_Close r s)"
  using assms held_rt_Close [of r L N s] held_rt_Close_owned [of r L _ N s] by (cases "rt_outbound (w_rts s r)") auto

lemma finish_start_state:
  fixes s :: Session
  assumes "finish_start config deps v su r s = (res, t)"
  shows "ss_state t = ss_state s \<and> ss_stageErr t = ss_stageErr s"
proof -
  have p: "ss_state (put_rt q rt u) = ss_state u" "ss_stageErr (put_rt q rt u) = ss_stageErr u" for q rt and u :: Session
    by (simp_all add: put_rt_def)
  show ?thesis using assms by (auto simp: finish_start_def setup_network_def save_client_data_def Let_def p rt_Close_world
      split: prod.splits if_splits option.splits sum.splits)
qed

context calm_env
begin

lemma startWith_on_track:
  assumes "on_track 0 s" "stages_ordered deps" "startWithStageHandler (y i) (session_call ord) ctxErr config deps s = (Inr r, t)"
  shows "\<exists>k. on_track k t"
proof (cases rule: startWith_cases [of "y i" "session_call ord" ctxErr config deps s])
  case (finished cs su revision d1 d2)
  obtain n where n: "stages_of cs = drop 0 (take n setup_stages)"
    using assms(2) finished(1) unfolding stages_ordered_def by (metis drop0 fst_conv)
  have "on_track 0 (snd (new_runtime s))" using assms(1) by (simp add: on_track_def new_runtime_def put_rt_def Let_def)
  from run_calls_on_track [OF this n] obtain k where "on_track k (run_calls (y i) (session_call ord) 0 cs (snd (new_runtime s)))" by blast
  moreover have "finish_start config deps revision su (w_nrts s) (run_calls (y i) (session_call ord) 0 cs (snd (new_runtime s))) = (Inr r, t)"
    using finished assms(3) by simp
  ultimately show ?thesis using finish_start_state by (metis on_track_def)
qed (use assms(3) in simp_all)

lemma abandon_settled:
  assumes h: "held (insert r {}) (set_option n) s" and r: "r < w_nrts s" "ss_runtime s = None \<or> ss_runtime s = Some r"
    and n: "ss_network s = None \<or> ss_network s = n" and a: "abandon (y i k) n r code m err s = (e, t)"
  shows "settled t"
proof -
  let ?c = "cancel (rt_Close r (close_net n s))"
  have "held (insert r {}) {} (close_net n s)" using held_close_net [of "insert r {}" n "{}" s] h by simp
  then have "held {} {} (rt_Close r (close_net n s))" by (rule held_rt_Close)
  then have "held {} {} ?c" by (simp add: held_def cancel_def)
  moreover have f: "ss_runtime (close_net n s) = ss_runtime s" "ss_network (close_net n s) = ss_network s" "w_nrts (close_net n s) = w_nrts s"
    "\<And>x. n = Some x \<Longrightarrow> ob_closed (w_outs (close_net n s) x)"
    by (auto simp: close_net_def net_Close_def split: option.split)
  ultimately have "settled ?c"
    using r n rt_Close_world(1-5,8) [where s = "close_net n s" and r = r] by (auto simp: settled_def cancel_def)
  moreover have "t = failWith (y i k) code m err ?c" using a by (simp add: abandon_def)
  ultimately show ?thesis using settled_steady failWith_steady [OF steady_refl] by blast
qed

lemma start_install_held:
  assumes h: "held {r} (set_option (rt_outbound (w_rts s r))) s" and r: "r < w_nrts s" "ss_runtime s = None" "ss_network s = None"
    and st: "start_install y deps r s = (e, t)"
  shows "(e \<noteq> None \<longrightarrow> settled t) \<and> (e = None \<longrightarrow> held {} {} t \<and> ss_runtime t = Some r)"
proof -
  define n where "n = rt_outbound (w_rts s r)"
  define s5 where "s5 = snd (DetachOutbound r s)"
  have d: "DetachOutbound r s = (n, s5)" by (simp add: n_def s5_def DetachOutbound_def)
  have h5: "held {r} (set_option n) s5" using h by (auto simp: held_def s5_def n_def DetachOutbound_def put_rt_def)
  have f5: "w_nrts s5 = w_nrts s" "ss_runtime s5 = None" "ss_network s5 = None" "rt_outbound (w_rts s5 r) = n"
    using r by (simp_all add: s5_def n_def DetachOutbound_def put_rt_def)
  let ?s6 = "y 4 0 s5"
  have y5: "steady s5 ?s6" by (rule steady_after [OF steady_refl])
  have h6: "held {r} (set_option n) ?s6" using steadyD(7) [OF y5 h5] .
  have f6: "r < w_nrts ?s6" "ss_runtime ?s6 = None" "ss_network ?s6 = None"
    using steadyD(2,3,4) [OF y5] f5 r(1) by simp_all
  show ?thesis
  proof (cases "d_readResources deps")
    case (Inl x)
    then show ?thesis using st abandon_settled [of r n ?s6] h6 f6 by (auto simp: start_install_def d Let_def abandon_def)
  next
    case (Inr res)
    define s7 where "s7 = ?s6\<lparr>ss_runtime := Some r, ss_network := n, ss_resources := res,
      ss_resumeState := resume_or_zero (rt_ResumeState r ?s6)\<rparr>"
    have h7: "held {} {} s7" using h6 f6 by (auto simp: held_def s7_def)
    have y7: "steady s7 (y 6 0 s7)" by (rule steady_after [OF steady_refl])
    obtain e' s8 where tr: "transition SessionStateReady (y 6 0 s7) = (e', s8)" by fastforce
    have s8: "steady s7 s8" by (rule steady_transition' [OF tr y7])
    have f8: "held {} {} s8" "ss_runtime s8 = Some r" "ss_network s8 = n" "r < w_nrts s8"
      using steadyD(7) [OF s8 h7] steadyD(2,3,4) [OF s8] f6(1) by (simp_all add: s7_def)
    show ?thesis
    proof (cases e')
      case None
      let ?s9 = "emitServiceEvents n EventTypeServiceStarted (y 8 0 (emitSelectedNodes (emitResourcesUpdated res s8)))"
      have "steady s8 ?s9" by (intro steady_intros)
      then have "steady s8 (emit_resume g q ?s9)" for g q by (rule steady_emits(6))
      moreover have "t = ?s9 \<or> (\<exists>g q. t = emit_resume g q ?s9)" "e = None"
        using st tr None Inr by (auto simp: start_install_def d Let_def s7_def split: if_splits)
      ultimately have "steady s8 t" using \<open>steady s8 ?s9\<close> by blast
      then show ?thesis using steadyD(7) f8(1) steadyD(2) f8(2) \<open>e = None\<close> by auto
    next
      case (Some x)
      have "held (insert r {}) (set_option n) s8" using f8(1) by (rule held_mono) simp_all
      moreover have "abandon (y 7 0) n r ErrorCodeSessionStartFailed ''start session'' x s8 = (e, t)"
        using st tr Some Inr by (simp add: start_install_def d Let_def s7_def)
      ultimately have "settled t" using abandon_settled f8 by blast
      then show ?thesis using \<open>abandon _ _ _ _ _ _ _ = (e, t)\<close> by (auto simp: abandon_def)
    qed
  qed
qed

lemma session_start_settles:
  assumes h: "held {} {} s" and r: "ss_runtime s = None" "ss_network s = None" and o: "on_track 0 s" and ord: "stages_ordered deps"
    and st: "session_start ord y deps s = (e, t)"
  shows "(e \<noteq> None \<longrightarrow> settled t) \<and> (e = None \<longrightarrow> held {} {} t \<and> ss_runtime t \<noteq> None)"
proof -
  let ?s1 = "s\<lparr>ss_cancel := True\<rparr>" and ?c = "(ss_config s)\<lparr>rc_NodeSelectionHandler := SessionHandler\<rparr>"
  obtain out s2 where sw: "startWithStageHandler (y 0) (session_call ord) (ctx_Err ?s1) ?c deps ?s1 = (out, s2)" by fastforce
  have h1: "held {} {} ?s1" using h by (simp add: held_def)
  have "ss_runtime ?s1 \<noteq> Some (w_nrts ?s1)" using r by simp
  from startWith_held [OF steady_calls(1) h1 sw this]
  have w: "out = Inl x \<Longrightarrow> held {} {} s2" "ss_runtime s2 = None" "ss_network s2 = None"
    "out = Inr q \<Longrightarrow> q < w_nrts s2 \<and> \<not> rt_closeOnce (w_rts s2 q) \<and> held {q} (set_option (rt_outbound (w_rts s2 q))) s2
       \<and> (rt_outbound (w_rts s2 q) \<noteq> None \<longrightarrow> rt_ownsOutbound (w_rts s2 q))" for x q
    using r by auto
  have fail: "settled (fail (y i k) err (cancel u))" if "held {} {} u" "ss_runtime u = None" "ss_network u = None" for u i k err
  proof -
    have "settled u" using that by (simp add: settled_def)
    moreover have "steady u (fail (y i k) err (cancel u))" unfolding fail_def by (intro failWith_steady steady_intros)
    ultimately show ?thesis by (rule settled_steady)
  qed
  show ?thesis
  proof (cases out)
    case (Inl x)
    then show ?thesis using st sw w fail by (auto simp: session_start_def Let_def)
  next
    case (Inr q)
    let ?s3 = "y 2 0 s2"
    have y2: "steady s2 ?s3" by (rule steady_after [OF steady_refl])
    have same: "w_rts ?s3 q = w_rts s2 q" using steadyD(6) [OF y2] w(2,4) Inr by simp
    have f3: "ss_runtime ?s3 = None" "ss_network ?s3 = None" "q < w_nrts ?s3" "held {q} (set_option (rt_outbound (w_rts ?s3 q))) ?s3"
      using steadyD(2,3,4,7) [OF y2] w(2,3,4) Inr by (auto simp: same)
    have "on_track 0 ?s1" using o by (simp add: on_track_def)
    from startWith_on_track [OF this ord] sw Inr obtain k where "on_track k s2" by blast
    then have k: "on_track k ?s3" by (rule on_track_after)
    show ?thesis
    proof (cases "stopping (ss_state ?s3)")
      case True
      have "held {} {} (rt_Close q ?s3)" using held_owned_Close [of q "{}" "{}" ?s3] f3 w(4) Inr by (simp add: same)
      then have "settled (fail (y 3 0) err (cancel (rt_Close q ?s3)))" for err
        using f3(1,2) by (intro fail) (simp_all only: rt_Close_world)
      moreover have "\<exists>err. e = Some err \<and> t = fail (y 3 0) err (cancel (rt_Close q ?s3))"
        using st sw Inr True by (cases "ss_stageErr ?s3") (force simp: session_start_def Let_def)+
      ultimately show ?thesis by auto
    next
      case False
      then have "ss_stageErr ?s3 = None" using k by (simp add: on_track_def)
      then have "start_install y deps q ?s3 = (e, t)" using st sw Inr False by (simp add: session_start_def Let_def)
      from start_install_held [OF f3(4,3,1,2) this] show ?thesis by auto
    qed
  qed
qed

end

text \<open>A goroutine that closes the session wherever it can is such an environment.\<close>

definition closing :: env where
  "closing i k s = (if state_Valid (ss_state s) then snd (session_close (\<lambda>_ _ s. s) None s) else s)"

lemma calm_refl: "calm s s"
  by (simp add: calm_def steady_refl)

interpretation idle: calm_env "\<lambda>_ _ s. s"
  by unfold_locales (rule calm_refl)

interpretation closing: calm_env closing
proof
  show "calm s (closing i k s)" for s i k
    using session_close_calm [OF idle.calm_env_axioms] calm_refl by (simp add: closing_def)
qed

section \<open>Properties\<close>

text \<open>C25. The life of a session. Whatever operations run, in whatever order and however they interrupt
  each other, a session made by \<^verbatim>\<open>newSession\<close> is in a state the transition table reaches from idle and
  holds at most 32 events; once it has failed it is never ready again, once it has stopped it stays
  stopped, a cancelled context stays cancelled, and what was closed stays closed.\<close>

theorem session_lifecycle:
  "let run = foldl (\<lambda>s op. session_step ord op s);
       s = run (newSession sid config outs rts now) ops; t = run s later
   in session_path SessionStateIdle (ss_state s) \<and> length (ss_events s) \<le> 32
    \<and> (ss_state s = SessionStateFailed \<longrightarrow> ss_state t \<in> {SessionStateFailed, SessionStateStopping, SessionStateStopped})
    \<and> (ss_state s = SessionStateStopped \<longrightarrow> ss_state t = SessionStateStopped)
    \<and> (ss_cancelled s \<longrightarrow> ss_cancelled t)
    \<and> (\<forall>x. ob_closed (w_outs s x) \<longrightarrow> ob_closed (w_outs t x))
    \<and> (\<forall>r < w_nrts s. rt_closeOnce (w_rts s r) \<longrightarrow> rt_closeOnce (w_rts t r))"
proof -
  define s where "s = foldl (\<lambda>s op. session_step ord op s) (newSession sid config outs rts now) ops"
  define t where "t = foldl (\<lambda>s op. session_step ord op s) s later"
  have "fresh_session (newSession sid config outs rts now)" unfolding fresh_session_def by blast
  from sess.run_inv [OF this] have "session_path SessionStateIdle (ss_state s) \<and> length (ss_events s) \<le> 32"
    by (simp add: s_def sessionEventBuffer_def)
  moreover have g: "guar s t" unfolding t_def by (rule session_run_guar)
  moreover from g have "session_path (ss_state s) (ss_state t)" by (simp add: guar_def)
  ultimately show ?thesis using failed_path [of "ss_state s" "ss_state t"] stopped_final [of "ss_state t"]
    unfolding Let_def s_def [symmetric] t_def [symmetric] by (auto simp: guar_def)
qed

definition demo_config :: RuntimeConfig where
  "demo_config = \<lparr> rc_ResumeState = None, rc_ServerAddress = ''vpn.example.org'', rc_ServerPort = 443, rc_Username = ''u'', rc_Password = [],
     rc_Phone = [], rc_LoginDomain = [], rc_AuthType = ''auth/psw'', rc_GraphCodeFile = [], rc_CASTicket = [], rc_OAuth2Code = [],
     rc_SID = [], rc_DeviceID = [], rc_SignKey = [], rc_ClientDataFile = [], rc_ResourceFile = [], rc_UpdateBestNodesInterval = 0,
     rc_BindInterface = [], rc_AutoDetectInterface = True, rc_SkipTCPTunnelWait = False, rc_DisableAutoReconnect = False,
     rc_SetupNetwork = True, rc_TCPTunnelMode = False, rc_DisableRemoteDNS = False, rc_RemoteDNSServer = [], rc_SecondaryDNSServer = [],
     rc_DNSTTL = 0, rc_DNSBind = [], rc_Hosts = Map.empty, rc_SOCKSBind = [], rc_SOCKSUsername = [], rc_SOCKSPassword = [],
     rc_HTTPBind = [], rc_TUNEnabled = False, rc_TUNName = [], rc_TUNAddress = [], rc_TUNMTU = 0, rc_TUNAutoRoute = False,
     rc_TUNRouteAll = False, rc_TUNStrictRoute = False, rc_TUNStack = [], rc_TUNOutboundInterface = [], rc_TUNUDPTimeoutSeconds = 0,
     rc_TUNUDPMaxFlows = 0, rc_TUNDNSHijack = False, rc_TUNFakeIP = False, rc_TUNFakeIPRange = [], rc_RoutingMode = RoutingModeRule,
     rc_InternetOutbound = \<lparr> io_Type = InternetOutboundDirect, io_Address = [], io_Username = [], io_Password = [] \<rparr>,
     rc_NetworkRuntime = None, rc_NodeSelectionHandler = NoHandler \<rparr>"

definition demo_out :: Outbound where
  "demo_out = \<lparr> ob_closed = False, ob_closeErr = None, ob_health = Some None, ob_services = Some [], ob_statistics = None,
     ob_routing = Some RoutingModeRule, ob_replaceable = True \<rparr>"

definition demo_rt :: Runtime where
  "demo_rt = \<lparr> rt_client = None, rt_outbound = None, rt_resumeState = no_resume, rt_closeClient = None, rt_ownsOutbound = False,
     rt_closeOnce = False, rt_closeErr = None \<rparr>"

definition demo_deps :: dependencies where
  "demo_deps = \<lparr> d_readFile = (\<lambda>_. (None, None)), d_writeFile = (\<lambda>_ _. None),
     d_setup = (\<lambda>_ _ _. (map NotifyStage setup_stages, Inr \<lparr> su_data = [123, 125], su_username = ''u'', su_reused = False \<rparr>)),
     d_setupNetwork = (\<lambda>_. Inr (Some 7)), d_readResources = Inr None, d_parse = (\<lambda>_. Inr ''device''), d_wait = (\<lambda>_. None) \<rparr>"

definition demo_session :: Session where
  "demo_session = newSession ''s1'' demo_config (\<lambda>_. demo_out) (\<lambda>_. demo_rt) 0"

lemma demo_stages: "stages_ordered demo_deps"
proof -
  have "stages_of (map NotifyStage xs) = xs" for xs by (induction xs) simp_all
  then have "stages_of (fst (d_setup demo_deps c d1 d2)) = take 5 setup_stages" for c d1 d2
    by (simp add: demo_deps_def setup_stages_def)
  then show ?thesis unfolding stages_ordered_def by blast
qed

theorem session_lifecycle_witness:
  "let run = foldl (\<lambda>s op. session_step by_key op s);
       s = run demo_session [OpClose None None (\<lambda>_ _. [OpReceive])]; t = run s [OpStart demo_deps (\<lambda>_ _. [])]
   in ss_state s = SessionStateStopped \<and> ss_state t = SessionStateStopped"
proof -
  let ?run = "foldl (\<lambda>s op. session_step by_key op s)"
  let ?s = "?run demo_session [OpClose None None (\<lambda>_ _. [OpReceive])]"
  have "ss_state ?s = SessionStateStopped"
    by (simp add: demo_session_def newSession_def session_Close_def session_close_def mark_stopping_def mark_stopped_def close_parts_def
        transition_if CanTransitionSessionState_def stopping_def Let_def serviceStatuses_def mergeStoppedServiceStatuses_def)
  then show ?thesis
    using session_lifecycle [of by_key "''s1''" demo_config "\<lambda>_. demo_out" "\<lambda>_. demo_rt" 0 "[OpClose None None (\<lambda>_ _. [OpReceive])]"
        "[OpStart demo_deps (\<lambda>_ _. [])]"]
    unfolding Let_def demo_session_def by simp
qed

text \<open>What a cleanup finds installed is what was installed when it was asked for, unless the others change it.\<close>

lemma close_looks_installed:
  assumes "\<And>i k u. ss_network (y i k u) = ss_network u \<and> ss_runtime (y i k u) = ss_runtime u \<and> w_nrts u \<le> w_nrts (y i k u)"
  shows "ss_network (close_looks y s) = ss_network s" "ss_runtime (close_looks y s) = ss_runtime s" "w_nrts s \<le> w_nrts (close_looks y s)"
proof -
  have t: "transition st u = (e, u') \<Longrightarrow> ss_network u' = ss_network u \<and> ss_runtime u' = ss_runtime u \<and> w_nrts u' = w_nrts u" for st u e u'
    by (auto simp: transition_if emit_def split: if_splits)
  have "ss_network (snd (mark_stopping st u)) = ss_network u \<and> ss_runtime (snd (mark_stopping st u)) = ss_runtime u
      \<and> w_nrts (snd (mark_stopping st u)) = w_nrts u" for st u
    using t by (auto simp: mark_stopping_def split: prod.split option.split)
  moreover have "ss_network (cancel u) = ss_network u \<and> ss_runtime (cancel u) = ss_runtime u \<and> w_nrts (cancel u) = w_nrts u" for u
    by (simp add: cancel_def)
  ultimately show "ss_network (close_looks y s) = ss_network s" "ss_runtime (close_looks y s) = ss_runtime s" "w_nrts s \<le> w_nrts (close_looks y s)"
    using assms by (simp_all add: close_looks_def) (metis assms order_trans)+
qed

text \<open>C27. Closing a session. In whatever valid state the session is and whatever other goroutines do meanwhile,
  the cleanup ends in the stopped state; the network runtime and the runtime that it finds installed after it has set the stopping state are closed at its
  end; so are those that were installed when it was asked for, when the others do not exchange them; its last event reports the completed shutdown with the
  report it returns; and a later call returns the same report and changes nothing.\<close>

theorem Close_stops:
  assumes "session_env y" "state_Valid (ss_state s)" "ss_closed s = None" "session_Close y x None s = ((report, err), t)"
  shows "ss_state t = SessionStateStopped
    \<and> stopping (ss_state (close_looks y s))
    \<and> (\<forall>n. ss_network (close_looks y s) = Some n \<longrightarrow> ob_closed (w_outs t n))
    \<and> (\<forall>r. ss_runtime (close_looks y s) = Some r \<and> r < w_nrts (close_looks y s) \<longrightarrow> rt_closeOnce (w_rts t r))
    \<and> ((\<forall>i k u. ss_network (y i k u) = ss_network u \<and> ss_runtime (y i k u) = ss_runtime u \<and> w_nrts u \<le> w_nrts (y i k u)) \<longrightarrow>
         (\<forall>n. ss_network s = Some n \<longrightarrow> ob_closed (w_outs t n)) \<and> (\<forall>r. ss_runtime s = Some r \<and> r < w_nrts s \<longrightarrow> rt_closeOnce (w_rts t r)))
    \<and> ev_Type (last (ss_events t)) = EventTypeShutdownCompleted \<and> ev_Cleanup (last (ss_events t)) = Some report
    \<and> session_Close y' x' None t = ((report, err), t)"
proof -
  obtain u where c: "session_close y x s = ((report, err), u)" and t: "t = u\<lparr>ss_closed := Some (report, err)\<rparr>"
    using assms(3,4) by (cases "session_close y x s") (auto simp: session_Close_def Let_def)
  have m: "stopping (ss_state (close_looks y s))" "ss_state u = SessionStateStopped"
      "\<And>n. ss_network (close_looks y s) = Some n \<Longrightarrow> ob_closed (w_outs u n)"
      "\<And>r. ss_runtime (close_looks y s) = Some r \<Longrightarrow> r < w_nrts (close_looks y s) \<Longrightarrow> rt_closeOnce (w_rts u r)"
      "last (ss_events u) = (event_of (ss_id u) EventTypeShutdownCompleted (w_now u))\<lparr>ev_Cleanup := Some report\<rparr>"
    using session_env.session_close_stops [OF assms(1,2) c] by metis+
  have "(\<forall>i k u. ss_network (y i k u) = ss_network u \<and> ss_runtime (y i k u) = ss_runtime u \<and> w_nrts u \<le> w_nrts (y i k u)) \<longrightarrow>
      (\<forall>n. ss_network s = Some n \<longrightarrow> ob_closed (w_outs u n)) \<and> (\<forall>r. ss_runtime s = Some r \<and> r < w_nrts s \<longrightarrow> rt_closeOnce (w_rts u r))"
    using m(3,4) close_looks_installed [of y s] by (metis order_less_le_trans)
  moreover have "session_Close y' x' None t = ((report, err), t)" by (simp add: session_Close_def t)
  ultimately show ?thesis using m by (simp add: t)
qed

text \<open>A session that has a runtime and a network runtime, with nobody else at work.\<close>

definition running_session :: Session where
  "running_session = demo_session\<lparr>ss_state := SessionStateReady, ss_runtime := Some 0, ss_network := Some 0, w_nrts := 1\<rparr>"

theorem Close_stops_witness:
  "\<exists>report err t. session_Close (\<lambda>_ _ s. s) None None running_session = ((report, err), t)
     \<and> ss_state t = SessionStateStopped \<and> ob_closed (w_outs t 0) \<and> rt_closeOnce (w_rts t 0)"
proof -
  obtain report err t where c: "session_Close (\<lambda>_ _ s. s) None None running_session = ((report, err), t)" by (metis prod.collapse)
  have "session_env (\<lambda>_ _ s. s)" by unfold_locales (rule guar_refl)
  moreover have "state_Valid (ss_state running_session)" "ss_closed running_session = None"
    by (simp_all add: running_session_def demo_session_def newSession_def state_Valid_def)
  ultimately show ?thesis using Close_stops [of "\<lambda>_ _ s. s" running_session None report err t] c by (simp add: running_session_def)
qed

text \<open>C26. A start loses nothing. Whatever closes the session, cancels it or reads from it while it
  starts: when the start returns an error, every runtime it made is closed, and so is every network
  runtime it set up; when it succeeds, the one runtime that is not closed is installed in the
  session, with its network runtime.\<close>

theorem Start_no_leak:
  assumes "calm_env y" "stages_ordered deps" "Start ord y deps (newSession sid config outs rts now) = (e, t)"
  shows "(e \<noteq> None \<longrightarrow> all_closed t) \<and> (e = None \<longrightarrow> ss_runtime t \<noteq> None \<and> held {} {} t)"
proof -
  let ?s = "newSession sid config outs rts now"
  obtain u where u: "session_start ord y deps ?s = (e, u)" and t: "t = u\<lparr>ss_startErr := Some e\<rparr>"
    using assms(3) by (cases "session_start ord y deps ?s") (auto simp: Start_def newSession_def)
  have "held {} {} ?s" "ss_runtime ?s = None" "ss_network ?s = None" "on_track 0 ?s"
    by (simp_all add: newSession_def held_def on_track_def stage_at_def)
  from calm_env.session_start_settles [OF assms(1) this assms(2) u] show ?thesis
    using settled_all_closed [of u] by (auto simp: t all_closed_def held_def)
qed

theorem Start_no_leak_witness:
  "(\<exists>e t. Start by_key closing demo_deps demo_session = (e, t) \<and> (e \<noteq> None \<longrightarrow> all_closed t))
   \<and> (\<exists>e t. Start by_key (\<lambda>_ _ s. s) demo_deps demo_session = (e, t) \<and> (e = None \<longrightarrow> ss_runtime t \<noteq> None))"
proof -
  obtain e t e' t' where "Start by_key closing demo_deps demo_session = (e, t)" "Start by_key (\<lambda>_ _ s. s) demo_deps demo_session = (e', t')"
    by fastforce
  moreover from this(1) have "e \<noteq> None \<longrightarrow> all_closed t"
    unfolding demo_session_def by (rule Start_no_leak [OF closing.calm_env_axioms demo_stages, THEN conjunct1])
  moreover from calculation(2) have "e' = None \<longrightarrow> ss_runtime t' \<noteq> None \<and> held {} {} t'"
    unfolding demo_session_def by (rule Start_no_leak [OF idle.calm_env_axioms demo_stages, THEN conjunct2])
  ultimately show ?thesis by simp
qed

lemma delay_loop_min: "0 < d \<Longrightarrow> d \<le> reconnectMaxDelay \<Longrightarrow> delay_loop n d = min reconnectMaxDelay (d * 2 ^ n)"
proof (induction n arbitrary: d)
  case (Suc n)
  have M: "0 < reconnectMaxDelay" by (simp add: reconnectMaxDelay_def)
  have up: "c \<le> c * 2 ^ n" if "0 < c" for c :: int using that mult_left_mono [of 1 "2 ^ n" c] by simp
  consider "d = reconnectMaxDelay" | "d < reconnectMaxDelay" "d * 2 > reconnectMaxDelay" | "d * 2 \<le> reconnectMaxDelay" using Suc.prems by linarith
  then show ?case
  proof cases
    case 1
    have "(1 :: int) \<le> 2 ^ n" by simp
    then have "(1 :: int) \<le> 2 * 2 ^ n" by linarith
    then have "reconnectMaxDelay \<le> d * 2 ^ Suc n" using 1 M by simp
    then show ?thesis using 1 by simp
  next
    case 2
    have "d * 2 \<le> d * 2 * 2 ^ n" by (rule up) (use Suc.prems in simp)
    with 2 have "reconnectMaxDelay \<le> d * 2 * 2 ^ n" by linarith
    then have "reconnectMaxDelay \<le> d * 2 ^ Suc n" by (simp only: power_Suc mult.assoc)
    then show ?thesis using 2 Suc.IH [OF M order_refl] up [OF M] by simp
  next
    case 3
    then show ?thesis using Suc.IH [of "d * 2"] Suc.prems by (simp add: mult.assoc)
  qed
qed (simp add: min_def)

lemma reconnectConfig_Some: "ss_network s1 \<noteq> None \<Longrightarrow> \<exists>c. reconnectConfig r s1 = Some c"
  unfolding reconnectConfig_def by (cases "ss_network s1") (simp_all add: Let_def)

lemma reconnect_loop_returns:
  assumes "d_wait (dps n) (reconnectDelay n) \<noteq> None"
  shows "k \<le> n \<Longrightarrow> n - k < fuel \<Longrightarrow> reconnect_loop ord yss dps config err fuel k s \<noteq> None"
proof (induction fuel arbitrary: k s)
  case (Suc fuel)
  obtain out s1 where at: "reconnect_attempt ord (yss k) (dps k) config err k s = (out, s1)" by fastforce
  show ?case
  proof (cases out)
    case (Inl u)
    then have "k \<noteq> n" using at assms by (auto simp: reconnect_attempt_def Let_def)
    then have "reconnect_loop ord yss dps config err fuel (Suc k) s1 \<noteq> None" using Suc by simp
    then show ?thesis using at Inl by simp
  qed (use at in simp)
qed simp

text \<open>C28. Reconnecting. Before the first attempt there is no delay; then it is one second, doubled from attempt to
  attempt and never more than thirty seconds; so the loop cannot spin. And it ends: when the wait
  before some attempt is cut short, because the session's context ended, the call returns by then.\<close>

theorem reconnect_paced:
  "reconnectDelay k = (if k \<le> 1 then 0 else min (30 * 1000000000) (1000000000 * 2 ^ (k - 2)))
   \<and> (ss_state s = SessionStateReady \<and> ss_network s \<noteq> None \<and> 1 \<le> n \<and> d_wait (dps n) (reconnectDelay n) \<noteq> None
      \<longrightarrow> reconnect ord yss dps n f err s \<noteq> None)"
proof (intro conjI impI)
  show "reconnectDelay k = (if k \<le> 1 then 0 else min (30 * 1000000000) (1000000000 * 2 ^ (k - 2)))"
    using delay_loop_min [of reconnectInitialDelay "k - 2"]
    by (simp add: reconnectDelay_def reconnectInitialDelay_def reconnectMaxDelay_def)
  assume a: "ss_state s = SessionStateReady \<and> ss_network s \<noteq> None \<and> 1 \<le> n \<and> d_wait (dps n) (reconnectDelay n) \<noteq> None"
  have l: "reconnect_loop ord yss dps c err n 1 u \<noteq> None" for c u by (rule reconnect_loop_returns) (use a in auto)
  obtain e s1 where tr: "transition SessionStateReconnecting s = (e, s1)" by fastforce
  then have s1: "e = None \<and> ss_network s1 = ss_network s"
    using a by (auto simp: transition_if CanTransitionSessionState_def)
  then have "ss_network s1 \<noteq> None" using a by simp
  then obtain c where "reconnectConfig f s1 = Some c" using reconnectConfig_Some by blast
  then show "reconnect ord yss dps n f err s \<noteq> None" using tr s1 l by (simp add: reconnect_def Let_def)
qed

theorem reconnect_paced_witness:
  "reconnectDelay 4 = 4000000000 \<and> reconnectDelay 20 = 30000000000
   \<and> reconnect by_key (\<lambda>_ _ _ _ s. s) (\<lambda>_. demo_deps\<lparr>d_wait := \<lambda>_. Some (Sentinel ContextCanceled)\<rparr>) 1 0 (Sentinel IoEOF)
       (demo_session\<lparr>ss_state := SessionStateReady, ss_network := Some 7\<rparr>) \<noteq> None"
  using reconnect_paced [of 4] reconnect_paced [of 20]
    reconnect_paced [of 1 "demo_session\<lparr>ss_state := SessionStateReady, ss_network := Some 7\<rparr>" 1
      "\<lambda>_. demo_deps\<lparr>d_wait := \<lambda>_. Some (Sentinel ContextCanceled)\<rparr>" by_key "\<lambda>_ _ _ _ s. s" 0 "Sentinel IoEOF"]
  by simp

text \<open>C29. Resume states round-trip. What is encoded after a login is accepted again by a session for the same server
  whose user name is empty or the one the state was made for, and yields the client data and the
  revision; a different port, a different server name or a different user is refused as out of scope.\<close>

theorem resume_state_roundtrip:
  assumes "data \<noteq> []" "parse data = Inr device" "device \<noteq> []"
  shows "decodeResumeState parse config' (encodeResumeState now config user reused data revision)
    = (if \<not> EqualFold (rc_ServerAddress config) (rc_ServerAddress config') \<or> rc_ServerPort config \<noteq> rc_ServerPort config'
       then Inl (WrapError ErrorCodeResumeStateScope ''resume state server does not match session config'' False None)
       else let owner = (if user = [] then rc_Username config else user)
            in if owner \<noteq> [] \<and> rc_Username config' \<noteq> [] \<and> owner \<noteq> rc_Username config'
               then Inl (WrapError ErrorCodeResumeStateScope ''resume state username does not match session config'' False None)
               else Inr (data, revision))"
  using assms by (auto simp: decodeResumeState_def encodeResumeState_def Let_def)

theorem resume_state_roundtrip_witness:
  "decodeResumeState (\<lambda>_. Inr ''device'') demo_config (encodeResumeState 5 demo_config ''u'' False [123, 125] 3) = Inr ([123, 125], 3)
   \<and> (\<exists>e. decodeResumeState (\<lambda>_. Inr ''device'') (demo_config\<lparr>rc_ServerPort := 444\<rparr>)
         (encodeResumeState 5 demo_config ''u'' False [123, 125] 3) = Inl e)"
  using resume_state_roundtrip [of "[123, 125]" "\<lambda>_. Inr ''device''" "''device''" demo_config 5 demo_config "''u''" False 3]
    resume_state_roundtrip [of "[123, 125]" "\<lambda>_. Inr ''device''" "''device''" "demo_config\<lparr>rc_ServerPort := 444\<rparr>" 5 demo_config "''u''" False 3]
  by (simp add: demo_config_def EqualFold_def)

end
