(* ===== verification/Manager.thy ===== *)
theory Manager
  imports SessionLife
begin

text \<open>
  The session manager, \<^verbatim>\<open>src/manager/manager.go\<close>: the coordinator of the process, which holds the one
  active session, the manager with its event channel, and the broker that hands authentication
  challenges to the user and their answers back.

  Sessions are shared by pointer, so the coordinator's record holds the heap of sessions. As in the session, the
  actions of other goroutines are an argument.
\<close>

section \<open>State\<close>

definition managerEventBuffer :: nat where "managerEventBuffer = 128"
definition managerAuthEventReserve :: nat where "managerAuthEventReserve = 8"
definition ProtocolATrust :: string where "ProtocolATrust = ''atrust''"

record pendingAuth =
  pa_sessionID :: SessionID
  pa_challenge :: AuthChallenge
  pa_response :: "AuthResponse option"
  pa_responded :: bool

type_synonym SessionFactory = "SessionID \<Rightarrow> Config \<Rightarrow> Session option result"

record sessionCoordinator =
  co_active :: "nat option"
  co_sessions :: "nat \<Rightarrow> Session"
  co_count :: nat

record Manager =
  mg_events :: "Event list"
  mg_nextID :: u64
  mg_factories :: "string \<rightharpoonup> SessionFactory"
  mg_current :: "nat option"
  mg_items :: "string \<rightharpoonup> nat"
  mg_pending :: "nat \<Rightarrow> pendingAuth"
  mg_npending :: nat

section \<open>Configuration of a session\<close>

definition toRuntimeConfig :: "Config \<Rightarrow> RuntimeConfig" where
  "toRuntimeConfig config =
     (let auto = cfg_TUNEnabled config \<and> cfg_TUNAutoRoute config;
          autoDetectInterface = (if auto \<and> cfg_TUNRouteAll config \<and> cfg_BindInterface config = [] then True else cfg_AutoDetectInterface config);
          tunOutboundInterface = (if auto \<and> cfg_TUNOutboundInterface config = [] then cfg_BindInterface config else cfg_TUNOutboundInterface config)
      in \<lparr> rc_ResumeState = cfg_ResumeState config, rc_ServerAddress = cfg_ServerAddress config, rc_ServerPort = cfg_ServerPort config,
           rc_Username = cfg_Username config, rc_Password = cfg_Password config, rc_Phone = cfg_Phone config,
           rc_LoginDomain = cfg_LoginDomain config, rc_AuthType = cfg_AuthType config, rc_GraphCodeFile = cfg_GraphCodeFile config,
           rc_CASTicket = cfg_CASTicket config, rc_OAuth2Code = cfg_OAuth2Code config, rc_SID = cfg_SID config,
           rc_DeviceID = cfg_DeviceID config, rc_SignKey = cfg_SignKey config, rc_ClientDataFile = cfg_ClientDataFile config,
           rc_ResourceFile = [], rc_UpdateBestNodesInterval = cfg_UpdateBestNodesSeconds config, rc_BindInterface = cfg_BindInterface config,
           rc_AutoDetectInterface = autoDetectInterface, rc_SkipTCPTunnelWait = False,
           rc_DisableAutoReconnect = cfg_DisableAutoReconnect config, rc_SetupNetwork = False, rc_TCPTunnelMode = False,
           rc_DisableRemoteDNS = cfg_DisableRemoteDNS config, rc_RemoteDNSServer = cfg_RemoteDNSServer config,
           rc_SecondaryDNSServer = cfg_SecondaryDNSServer config, rc_DNSTTL = cfg_DNSTTL config, rc_DNSBind = cfg_DNSBind config,
           rc_Hosts = cfg_Hosts config, rc_SOCKSBind = cfg_SOCKSBind config, rc_SOCKSUsername = cfg_SOCKSUsername config,
           rc_SOCKSPassword = cfg_SOCKSPassword config, rc_HTTPBind = cfg_HTTPBind config, rc_TUNEnabled = cfg_TUNEnabled config,
           rc_TUNName = cfg_TUNName config, rc_TUNAddress = cfg_TUNAddress config, rc_TUNMTU = cfg_TUNMTU config,
           rc_TUNAutoRoute = cfg_TUNAutoRoute config, rc_TUNRouteAll = cfg_TUNRouteAll config, rc_TUNStrictRoute = False,
           rc_TUNStack = [], rc_TUNOutboundInterface = tunOutboundInterface, rc_TUNUDPTimeoutSeconds = cfg_TUNUDPTimeoutSeconds config,
           rc_TUNUDPMaxFlows = cfg_TUNUDPMaxFlows config, rc_TUNDNSHijack = cfg_TUNDNSHijack config, rc_TUNFakeIP = cfg_TUNFakeIP config,
           rc_TUNFakeIPRange = cfg_TUNFakeIPRange config, rc_RoutingMode = cfg_RoutingMode config,
           rc_InternetOutbound = cfg_InternetOutbound config, rc_NetworkRuntime = None, rc_NodeSelectionHandler = NoHandler \<rparr>)"

text \<open>\<open>outs\<close>, \<open>rts\<close> and \<open>now\<close> are the heap and the clock the session starts from.\<close>

definition newATrustSession :: "(nat \<Rightarrow> Outbound) \<Rightarrow> (nat \<Rightarrow> Runtime) \<Rightarrow> int \<Rightarrow> SessionFactory" where
  "newATrustSession outs rts now sid config =
     Inr (Some (newSession sid ((toRuntimeConfig config)\<lparr>rc_SetupNetwork := True\<rparr>) outs rts now))"

definition WithProtocol :: "string \<Rightarrow> SessionFactory option \<Rightarrow> Manager \<Rightarrow> Manager" where
  "WithProtocol protocol factory m =
     (case factory of
        Some f \<Rightarrow> if protocol \<noteq> [] then m\<lparr>mg_factories := (mg_factories m)(protocol \<mapsto> f)\<rparr> else m
      | None \<Rightarrow> m)"

definition New :: "(string \<times> SessionFactory option) list \<Rightarrow> (nat \<Rightarrow> Outbound) \<Rightarrow> (nat \<Rightarrow> Runtime) \<Rightarrow> int \<Rightarrow> Manager" where
  "New options outs rts now =
     foldl (\<lambda>m (protocol, factory). WithProtocol protocol factory m)
       \<lparr> mg_events = [], mg_nextID = 0, mg_factories = [ProtocolATrust \<mapsto> newATrustSession outs rts now],
         mg_current = None, mg_items = Map.empty, mg_pending = (\<lambda>_. undefined), mg_npending = 0 \<rparr> options"

lemma New_fields [simp]:
  "mg_events (New options outs rts now) = []" "mg_items (New options outs rts now) = Map.empty"
  "mg_npending (New options outs rts now) = 0" "mg_current (New options outs rts now) = None"
proof -
  have "mg_events (foldl (\<lambda>m (p, f). WithProtocol p f m) m options) = mg_events m
      \<and> mg_items (foldl (\<lambda>m (p, f). WithProtocol p f m) m options) = mg_items m
      \<and> mg_npending (foldl (\<lambda>m (p, f). WithProtocol p f m) m options) = mg_npending m
      \<and> mg_current (foldl (\<lambda>m (p, f). WithProtocol p f m) m options) = mg_current m" for m
    by (induction options arbitrary: m) (auto simp: WithProtocol_def split: option.split)
  then show "mg_events (New options outs rts now) = []" "mg_items (New options outs rts now) = Map.empty"
    "mg_npending (New options outs rts now) = 0" "mg_current (New options outs rts now) = None"
    by (simp_all add: New_def)
qed

section \<open>The active session\<close>

definition setActive :: "nat \<Rightarrow> sessionCoordinator \<Rightarrow> sessionCoordinator" where
  "setActive i c = c\<lparr>co_active := Some i\<rparr>"

definition clearActive :: "nat \<Rightarrow> sessionCoordinator \<Rightarrow> sessionCoordinator" where
  "clearActive i c = (if co_active c = Some i then c\<lparr>co_active := None\<rparr> else c)"

definition put_session :: "nat \<Rightarrow> Session \<Rightarrow> sessionCoordinator \<Rightarrow> sessionCoordinator" where
  "put_session i s c = c\<lparr>co_sessions := (co_sessions c)(i := s)\<rparr>"

text \<open>How a call to \<^verbatim>\<open>Close\<close> of a session goes: the other goroutines, the time-out of its cleanup, the end
  of the caller's context before it, and the end of the context in \<^verbatim>\<open>WaitClosed\<close>.\<close>

record closing_call =
  cl_env :: env
  cl_expired :: "gerror option"
  cl_late :: "gerror option"
  cl_wait :: "gerror option"

text \<open>Close a session; if that fails, wait for its parts. The first component says whether it may be
  forgotten.\<close>

definition close_session :: "closing_call \<Rightarrow> nat \<Rightarrow> sessionCoordinator \<Rightarrow> (bool \<times> gerror option) \<times> sessionCoordinator" where
  "close_session cl i c =
     (let ((_, err), s1) = session_Close (cl_env cl) (cl_expired cl) (cl_late cl) (co_sessions c i) in
      case err of
        None \<Rightarrow> ((True, None), put_session i s1 c)
      | Some e \<Rightarrow>
          (let (waitErr, s2) = WaitClosed (cl_wait cl) s1 in ((waitErr = None, err), put_session i s2 c)))"

definition closeActive :: "closing_call \<Rightarrow> sessionCoordinator \<Rightarrow> gerror option \<times> sessionCoordinator" where
  "closeActive cl c =
     (case co_active c of
        None \<Rightarrow> (None, c)
      | Some i \<Rightarrow>
          (let ((gone, err), c1) = close_session cl i c in if gone then (None, clearActive i c1) else (err, c1)))"

definition new_session_id :: "u64 \<Rightarrow> SessionID" where
  "new_session_id n = ''session-'' @ show_nat (unat n)"

definition manager_Start ::
  "((string \<rightharpoonup> string) \<Rightarrow> string list) \<Rightarrow> closing_call \<Rightarrow> gerror option \<Rightarrow> env \<Rightarrow> dependencies \<Rightarrow> closing_call \<Rightarrow> Config
   \<Rightarrow> Manager \<times> sessionCoordinator \<Rightarrow> (SessionID \<times> gerror option) \<times> Manager \<times> sessionCoordinator" where
  "manager_Start ord cl ctxErr y deps cl' config st =
     (let (m, c) = st in
      case closeActive cl c of
        (Some err, c1) \<Rightarrow> (([], Some err), m, c1)
      | (None, c1) \<Rightarrow>
        (case ctxErr of Some e \<Rightarrow> (([], Some e), m, c1) | None \<Rightarrow>
          (let m1 = (if cfg_SessionID config = [] then m\<lparr>mg_nextID := mg_nextID m + 1\<rparr> else m);
               sid = (if cfg_SessionID config = [] then new_session_id (mg_nextID m1) else cfg_SessionID config);
               protocol = (if cfg_Protocol config = [] then ProtocolATrust else cfg_Protocol config)
           in case mg_factories m1 protocol of
                None \<Rightarrow> (([], Some (WrapError ErrorCodeConfigInvalid (''unsupported protocol '' @ quote protocol) False None)), m1, c1)
              | Some factory \<Rightarrow>
                  (case factory sid config of
                     Inl err \<Rightarrow> (([], Some err), m1, c1)
                   | Inr None \<Rightarrow> (([], Some (WrapError ErrorCodeSessionStartFailed
                         (''protocol '' @ quote protocol @ '' returned no session'') False None)), m1, c1)
                   | Inr (Some s) \<Rightarrow>
                       (let i = co_count c1;
                            c2 = setActive i (put_session i s (c1\<lparr>co_count := Suc i\<rparr>));
                            m2 = m1\<lparr>mg_current := Some i\<rparr>;
                            (err, s1) = Start ord y deps s;
                            c3 = put_session i s1 c2
                        in case err of
                             None \<Rightarrow> ((sid, None), m2, c3)
                           | Some e \<Rightarrow>
                               (let (_, s2) = session_Close (cl_env cl') (cl_expired cl') None s1
                                in ((sid, Some e), m2, clearActive i (put_session i s2 c3))))))))"

definition manager_Stop :: "closing_call \<Rightarrow> SessionID \<Rightarrow> sessionCoordinator \<Rightarrow> gerror option \<times> sessionCoordinator" where
  "manager_Stop cl sid c =
     (case co_active c of
        None \<Rightarrow> (None, c)
      | Some i \<Rightarrow>
          if ss_id (co_sessions c i) \<noteq> sid then (None, c)
          else (let ((gone, err), c1) = close_session cl i c in (err, if gone then clearActive i c1 else c1)))"

definition manager_Close :: "closing_call \<Rightarrow> sessionCoordinator \<Rightarrow> gerror option \<times> sessionCoordinator" where
  "manager_Close cl c = closeActive cl c"

section \<open>Queries\<close>

definition session_not_found :: gerror where
  "session_not_found = WrapError ErrorCodeSessionNotFound ''session not found'' False None"

definition manager_session :: "SessionID \<Rightarrow> Manager \<times> sessionCoordinator \<Rightarrow> nat result" where
  "manager_session sid st =
     (let (m, c) = st in
      case mg_current m of
        None \<Rightarrow> Inl session_not_found
      | Some i \<Rightarrow> if ss_id (co_sessions c i) \<noteq> sid then Inl session_not_found else Inr i)"

text \<open>Every query looks the session up and asks it.\<close>

definition manager_query :: "(Session \<Rightarrow> 'a result) \<Rightarrow> SessionID \<Rightarrow> Manager \<times> sessionCoordinator \<Rightarrow> 'a result" where
  "manager_query q sid st = rbind (manager_session sid st) (\<lambda>i. q (co_sessions (snd st) i))"

definition manager_Status :: "SessionID \<Rightarrow> Manager \<times> sessionCoordinator \<Rightarrow> SessionStatus" where
  "manager_Status sid st =
     (case manager_session sid st of
        Inl _ \<Rightarrow> \<lparr> status_ID = [], status_State = SessionStateOther [], status_LastError = None \<rparr>
      | Inr i \<Rightarrow> Status (co_sessions (snd st) i))"

definition manager_Resources :: "SessionID \<Rightarrow> Manager \<times> sessionCoordinator \<Rightarrow> CoreResources result" where
  "manager_Resources = manager_query session_Resources"

definition manager_Outbound :: "SessionID \<Rightarrow> Manager \<times> sessionCoordinator \<Rightarrow> nat result" where
  "manager_Outbound = manager_query session_Outbound"

definition manager_Services :: "SessionID \<Rightarrow> Manager \<times> sessionCoordinator \<Rightarrow> ServiceStatus list result" where
  "manager_Services = manager_query session_Services"

definition manager_TrafficStats :: "SessionID \<Rightarrow> Manager \<times> sessionCoordinator \<Rightarrow> TrafficStats result" where
  "manager_TrafficStats = manager_query session_TrafficStats"

definition manager_Connections :: "SessionID \<Rightarrow> Manager \<times> sessionCoordinator \<Rightarrow> ConnectionInfo list result" where
  "manager_Connections = manager_query session_Connections"

definition manager_TransportConnections :: "SessionID \<Rightarrow> Manager \<times> sessionCoordinator \<Rightarrow> TransportConnectionInfo list result" where
  "manager_TransportConnections = manager_query session_TransportConnections"

definition manager_RoutingMode :: "SessionID \<Rightarrow> Manager \<times> sessionCoordinator \<Rightarrow> RoutingMode result" where
  "manager_RoutingMode = manager_query session_RoutingMode"

definition manager_ResumeState :: "SessionID \<Rightarrow> Manager \<times> sessionCoordinator \<Rightarrow> ResumeState result" where
  "manager_ResumeState = manager_query session_ResumeState"

definition manager_CloseConnection :: "SessionID \<Rightarrow> string \<Rightarrow> Manager \<times> sessionCoordinator \<Rightarrow> gerror option" where
  "manager_CloseConnection sid conn st =
     (case manager_session sid st of Inl e \<Rightarrow> Some e | Inr i \<Rightarrow> session_CloseConnection conn (co_sessions (snd st) i))"

text \<open>The calls that change a session; \<^const>\<open>None\<close> is a call that has not returned.\<close>

definition manager_SetRoutingMode ::
  "SessionID \<Rightarrow> RoutingMode \<Rightarrow> Manager \<times> sessionCoordinator \<Rightarrow> (gerror option \<times> Manager \<times> sessionCoordinator) option" where
  "manager_SetRoutingMode sid mode st =
     (case manager_session sid st of
        Inl e \<Rightarrow> Some (Some e, st)
      | Inr i \<Rightarrow> map_option (\<lambda>(err, s). (err, fst st, put_session i s (snd st))) (session_SetRoutingMode mode (co_sessions (snd st) i)))"

definition manager_RefreshResources ::
  "((string \<rightharpoonup> string) \<Rightarrow> string list) \<Rightarrow> env \<Rightarrow> gerror option \<Rightarrow> dependencies \<Rightarrow> SessionID \<Rightarrow> Manager \<times> sessionCoordinator
   \<Rightarrow> (CoreResources result \<times> Manager \<times> sessionCoordinator) option" where
  "manager_RefreshResources ord y ctxErr deps sid st =
     (case manager_session sid st of
        Inl e \<Rightarrow> Some (Inl e, st)
      | Inr i \<Rightarrow>
          map_option (\<lambda>(err, s). (case err of Some e \<Rightarrow> Inl e | None \<Rightarrow> session_Resources s, fst st, put_session i s (snd st)))
            (RefreshResources ord y ctxErr deps (co_sessions (snd st) i)))"

section \<open>Events\<close>

text \<open>\<^verbatim>\<open>emitSessionEvent\<close> looks at the length of the channel and then sends without blocking; nothing keeps others from sending in between.\<close>

definition emit_room :: "Manager \<Rightarrow> bool" where
  "emit_room m \<longleftrightarrow> \<not> length (mg_events m) \<ge> managerEventBuffer - managerAuthEventReserve"

definition mg_send_session :: "Event list \<Rightarrow> Event \<Rightarrow> Event list" where
  "mg_send_session q e = (if length q < managerEventBuffer then q @ [e] else q)"

definition emitSessionEvent :: "Event \<Rightarrow> Manager \<Rightarrow> Manager" where
  "emitSessionEvent e m = (if emit_room m then m\<lparr>mg_events := mg_send_session (mg_events m) e\<rparr> else m)"

text \<open>One turn of \<^verbatim>\<open>forwardSessionEvents\<close> on the oldest event of a session; the first component says
  whether it goes on.\<close>

definition forward_turn :: "nat \<Rightarrow> Manager \<times> sessionCoordinator \<Rightarrow> bool \<times> Manager \<times> sessionCoordinator" where
  "forward_turn i st =
     (case ss_events (co_sessions (snd st) i) of
        [] \<Rightarrow> (True, st)
      | e # es \<Rightarrow>
          (ev_Type e \<noteq> EventTypeShutdownCompleted, emitSessionEvent e (fst st),
           put_session i ((co_sessions (snd st) i)\<lparr>ss_events := es\<rparr>) (snd st)))"

text \<open>\<^verbatim>\<open>authBroker.emit\<close>: the send blocks, here \<^const>\<open>None\<close>, on a full channel until the context ends.\<close>

definition broker_emit :: "gerror option \<Rightarrow> Event \<Rightarrow> Manager \<Rightarrow> (gerror option \<times> Manager) option" where
  "broker_emit ctxErr e m =
     (case ctxErr of
        Some err \<Rightarrow> Some (Some err, m)
      | None \<Rightarrow> if length (mg_events m) < managerEventBuffer then Some (None, m\<lparr>mg_events := mg_events m @ [e]\<rparr>) else None)"

section \<open>The authentication broker\<close>

text \<open>
  \<^verbatim>\<open>Handle\<close> and \<^verbatim>\<open>respond\<close> hold the broker's mutex only in parts; each part is a step. A pending
  challenge is shared by pointer; its channel for the answer has room for one.
\<close>

definition handle_register :: "SessionID \<Rightarrow> AuthChallenge \<Rightarrow> Manager \<Rightarrow> nat result \<times> Manager" where
  "handle_register sid challenge m =
     (case challenge_Validate challenge of
        Some err \<Rightarrow> (Inl err, m)
      | None \<Rightarrow>
          if mg_items m (challenge_ID challenge) \<noteq> None
          then (Inl (WrapError ErrorCodeAuthChallengeInvalid ''authentication challenge ID is already pending'' False None), m)
          else (let p = mg_npending m in
                (Inr p, m\<lparr>mg_npending := Suc p, mg_items := (mg_items m)(challenge_ID challenge \<mapsto> p),
                   mg_pending := (mg_pending m)(p := \<lparr> pa_sessionID = sid, pa_challenge = challenge, pa_response = None, pa_responded = False \<rparr>)\<rparr>)))"

text \<open>The deferred function of \<^verbatim>\<open>Handle\<close>.\<close>

definition handle_done :: "nat \<Rightarrow> Manager \<Rightarrow> Manager" where
  "handle_done p m = m\<lparr>mg_items := (mg_items m)(challenge_ID (pa_challenge (mg_pending m p)) := None)\<rparr>"

definition auth_event :: "nat \<Rightarrow> EventType \<Rightarrow> int \<Rightarrow> Manager \<Rightarrow> Event" where
  "auth_event p ty now m = (event_of (pa_sessionID (mg_pending m p)) ty now)\<lparr>ev_Auth := Some (pa_challenge (mg_pending m p))\<rparr>"

definition challenge_event_type :: "AuthChallenge \<Rightarrow> EventType" where
  "challenge_event_type challenge =
     (if challenge_Kind challenge = AuthChallengeCASCallback \<or> challenge_Kind challenge = AuthChallengeOAuthCallback
      then EventTypeAuthBrowserRequired else EventTypeAuthRequired)"

definition handle_announce :: "nat \<Rightarrow> gerror option \<Rightarrow> int \<Rightarrow> Manager \<Rightarrow> (gerror option \<times> Manager) option" where
  "handle_announce p ctxErr now m =
     (case broker_emit ctxErr (auth_event p (challenge_event_type (pa_challenge (mg_pending m p))) now m) m of
        None \<Rightarrow> None
      | Some (None, m1) \<Rightarrow> Some (None, m1)
      | Some (Some err, m1) \<Rightarrow> Some (Some err, handle_done p m1))"

definition handle_finish :: "nat \<Rightarrow> gerror option \<Rightarrow> gerror option \<Rightarrow> int \<Rightarrow> Manager \<Rightarrow> (AuthResponse result \<times> Manager) option" where
  "handle_finish p ctxErr emitErr now m =
     (case ctxErr of
        Some err \<Rightarrow> Some (Inl err, handle_done p m)
      | None \<Rightarrow>
          (case pa_response (mg_pending m p) of
             None \<Rightarrow> None
           | Some response \<Rightarrow>
               (let m1 = m\<lparr>mg_pending := (mg_pending m)(p := (mg_pending m p)\<lparr>pa_response := None\<rparr>)\<rparr> in
                case broker_emit emitErr (auth_event p EventTypeAuthCompleted now m1) m1 of
                  None \<Rightarrow> None
                | Some (Some err, m2) \<Rightarrow> Some (Inl err, handle_done p m2)
                | Some (None, m2) \<Rightarrow> Some (Inr response, handle_done p m2))))"

definition respond_begin :: "AuthResponse \<Rightarrow> Manager \<Rightarrow> nat result \<times> Manager" where
  "respond_begin response m =
     (case mg_items m (response_ChallengeID response) of
        None \<Rightarrow> (Inl (WrapError ErrorCodeAuthChallengeNotFound ''authentication challenge is not pending'' False None), m)
      | Some p \<Rightarrow>
          if pa_responded (mg_pending m p)
          then (Inl (WrapError ErrorCodeAuthResponseInvalid ''authentication challenge already has a response'' False None), m)
          else case response_Validate response (pa_challenge (mg_pending m p)) of
              Some err \<Rightarrow> (Inl err, m)
            | None \<Rightarrow> (Inr p, m\<lparr>mg_pending := (mg_pending m)(p := (mg_pending m p)\<lparr>pa_responded := True\<rparr>)\<rparr>))"

definition respond_deliver :: "nat \<Rightarrow> AuthResponse \<Rightarrow> gerror option \<Rightarrow> Manager \<Rightarrow> (gerror option \<times> Manager) option" where
  "respond_deliver p response ctxErr m =
     (case ctxErr of
        Some err \<Rightarrow> Some (Some err, if mg_items m (response_ChallengeID response) = Some p
            then m\<lparr>mg_pending := (mg_pending m)(p := (mg_pending m p)\<lparr>pa_responded := False\<rparr>)\<rparr> else m)
      | None \<Rightarrow>
          if pa_response (mg_pending m p) \<noteq> None then None
          else Some (None, m\<lparr>mg_pending := (mg_pending m)(p := (mg_pending m p)\<lparr>pa_response := Some response\<rparr>)\<rparr>))"

text \<open>The whole of \<^verbatim>\<open>respond\<close>, when nothing happens between its parts.\<close>

definition respond :: "gerror option \<Rightarrow> AuthResponse \<Rightarrow> Manager \<Rightarrow> (gerror option \<times> Manager) option" where
  "respond ctxErr response m =
     (case respond_begin response m of (Inl err, m1) \<Rightarrow> Some (Some err, m1) | (Inr p, m1) \<Rightarrow> respond_deliver p response ctxErr m1)"

section \<open>Runs of the broker\<close>

text \<open>Calls under way: the answers between their two parts; the goroutines that forward the events of sessions, each with the event that it has found room for and not sent yet; and, for the
  statement of the theorem, the answers returned to the handlers.\<close>

record broker_run =
  br_m :: Manager
  br_flight :: "(nat \<times> AuthResponse) list"
  br_returned :: "(nat \<times> AuthResponse) list"
  br_forward :: "Event option list"

datatype broker_op =
    BrRegister SessionID AuthChallenge
  | BrAnnounce nat "gerror option" int
  | BrFinish nat "gerror option" "gerror option" int
  | BrRespond AuthResponse
  | BrDeliver nat "gerror option"
  | BrSessionEvent nat Event
  | BrSessionSend nat
  | BrReceive

text \<open>A handler is at work exactly as long as its challenge is entered.\<close>

definition handling :: "nat \<Rightarrow> Manager \<Rightarrow> bool" where
  "handling p m \<longleftrightarrow> mg_items m (challenge_ID (pa_challenge (mg_pending m p))) = Some p"

fun broker_step :: "broker_run \<Rightarrow> broker_op \<Rightarrow> broker_run" where
  "broker_step b (BrRegister sid ch) = b\<lparr>br_m := snd (handle_register sid ch (br_m b))\<rparr>"
| "broker_step b (BrAnnounce p x now) =
     (if handling p (br_m b) then (case handle_announce p x now (br_m b) of None \<Rightarrow> b | Some (_, m) \<Rightarrow> b\<lparr>br_m := m\<rparr>) else b)"
| "broker_step b (BrFinish p x e now) =
     (if handling p (br_m b) then
        (case handle_finish p x e now (br_m b) of
           None \<Rightarrow> b
         | Some (Inl _, m) \<Rightarrow> b\<lparr>br_m := m\<rparr>
         | Some (Inr r, m) \<Rightarrow> b\<lparr>br_m := m, br_returned := (p, r) # br_returned b\<rparr>)
      else b)"
| "broker_step b (BrRespond r) =
     (case respond_begin r (br_m b) of
        (Inl _, m) \<Rightarrow> b\<lparr>br_m := m\<rparr>
      | (Inr p, m) \<Rightarrow> b\<lparr>br_m := m, br_flight := br_flight b @ [(p, r)]\<rparr>)"
| "broker_step b (BrDeliver k x) =
     (if k < length (br_flight b) then
        (case respond_deliver (fst (br_flight b ! k)) (snd (br_flight b ! k)) x (br_m b) of
           None \<Rightarrow> b
         | Some (_, m) \<Rightarrow> b\<lparr>br_m := m, br_flight := take k (br_flight b) @ drop (Suc k) (br_flight b)\<rparr>)
      else b)"
| "broker_step b (BrSessionEvent j e) =
     (if j < length (br_forward b) \<and> br_forward b ! j = None \<and> emit_room (br_m b) then b\<lparr>br_forward := (br_forward b)[j := Some e]\<rparr> else b)"
| "broker_step b (BrSessionSend j) =
     (if j < length (br_forward b) then
        (case br_forward b ! j of
           None \<Rightarrow> b
         | Some e \<Rightarrow> b\<lparr>br_forward := (br_forward b)[j := None], br_m := (br_m b)\<lparr>mg_events := mg_send_session (mg_events (br_m b)) e\<rparr>\<rparr>)
      else b)"
| "broker_step b BrReceive = b\<lparr>br_m := (br_m b)\<lparr>mg_events := tl (mg_events (br_m b))\<rparr>\<rparr>"

interpretation mgev: bounded_chan managerEventBuffer mg_send_session
proof
  show "length q \<le> managerEventBuffer \<Longrightarrow> length (mg_send_session q x) \<le> managerEventBuffer" for q x
    by (auto simp: mg_send_session_def)
  show "set (mg_send_session q x) \<subseteq> insert x (set q)" for q x
    by (auto simp: mg_send_session_def)
qed

definition is_auth_event :: "Event \<Rightarrow> bool" where
  "is_auth_event e \<longleftrightarrow> ev_Type e \<in> {EventTypeAuthRequired, EventTypeAuthBrowserRequired, EventTypeAuthCompleted}"

text \<open>
  A pending challenge is entered under its own identifier; an answer in its channel, under way, or
  returned passed validation against it; a challenge has at most one answer that is under way or in
  the channel, and while it has, it counts as answered; after one was returned, nothing of it is
  left; the events of sessions leave eight places, less one for every forwarding goroutine but one.
\<close>

definition answer_ok :: "Manager \<Rightarrow> nat \<Rightarrow> AuthResponse \<Rightarrow> bool" where
  "answer_ok m p r \<longleftrightarrow> p < mg_npending m \<and> response_Validate r (pa_challenge (mg_pending m p)) = None"

definition broker_inv :: "broker_run \<Rightarrow> bool" where
  "broker_inv b \<longleftrightarrow>
     (\<forall>i p. mg_items (br_m b) i = Some p \<longrightarrow> p < mg_npending (br_m b) \<and> challenge_ID (pa_challenge (mg_pending (br_m b) p)) = i)
   \<and> (\<forall>p < mg_npending (br_m b). \<forall>r. pa_response (mg_pending (br_m b) p) = Some r \<longrightarrow>
        pa_responded (mg_pending (br_m b) p) \<and> answer_ok (br_m b) p r \<and> p \<notin> fst ` set (br_flight b))
   \<and> (\<forall>p r. (p, r) \<in> set (br_flight b) \<longrightarrow> pa_responded (mg_pending (br_m b) p) \<and> answer_ok (br_m b) p r)
   \<and> distinct (map fst (br_flight b)) \<and> distinct (map fst (br_returned b))
   \<and> (\<forall>p r. (p, r) \<in> set (br_returned b) \<longrightarrow> answer_ok (br_m b) p r \<and> pa_response (mg_pending (br_m b) p) = None
        \<and> p \<notin> fst ` set (br_flight b) \<and> \<not> handling p (br_m b))"

definition forwarding :: "broker_run \<Rightarrow> nat set" where
  "forwarding b = {j. j < length (br_forward b) \<and> br_forward b ! j \<noteq> None}"

definition queue_inv :: "broker_run \<Rightarrow> bool" where
  "queue_inv b \<longleftrightarrow> length (mg_events (br_m b)) \<le> managerEventBuffer
   \<and> length (filter (\<lambda>e. \<not> is_auth_event e) (mg_events (br_m b))) + card (forwarding b)
       \<le> managerEventBuffer - managerAuthEventReserve - 1 + length (br_forward b)"

lemma is_auth_event_auth [simp]:
  "is_auth_event (auth_event p (challenge_event_type c) now m)" "is_auth_event (auth_event p EventTypeAuthCompleted now m)"
  by (simp_all add: is_auth_event_def auth_event_def challenge_event_type_def)

lemma forwarding_finite [simp]: "finite (forwarding b)"
  by (simp add: forwarding_def)

lemma forwarding_le: "card (forwarding b) \<le> length (br_forward b)"
  using card_mono [of "{..<length (br_forward b)}" "forwarding b"] by (auto simp: forwarding_def)

lemma forwarding_less: "j < length (br_forward b) \<Longrightarrow> j \<notin> forwarding b \<Longrightarrow> Suc (card (forwarding b)) \<le> length (br_forward b)"
  using card_mono [of "{..<length (br_forward b)}" "insert j (forwarding b)"] by (auto simp: forwarding_def)

lemma queue_inv_step:
  assumes q: "queue_inv b"
  shows "queue_inv (broker_step b op)"
proof (cases op)
  case (BrSessionEvent j e)
  show ?thesis
  proof (cases "j < length (br_forward b) \<and> br_forward b ! j = None \<and> emit_room (br_m b)")
    case True
    let ?b = "b\<lparr>br_forward := (br_forward b)[j := Some e]\<rparr>"
    have f: "forwarding ?b = insert j (forwarding b)" using True by (auto simp: forwarding_def nth_list_update)
    have j: "j \<notin> forwarding b" using True by (simp add: forwarding_def)
    have "length (mg_events (br_m b)) \<le> managerEventBuffer - managerAuthEventReserve - 1"
      using True by (simp add: emit_room_def managerEventBuffer_def managerAuthEventReserve_def)
    then have "length (filter (\<lambda>e. \<not> is_auth_event e) (mg_events (br_m b))) \<le> managerEventBuffer - managerAuthEventReserve - 1"
      using length_filter_le [of "\<lambda>e. \<not> is_auth_event e" "mg_events (br_m b)"] by (rule le_trans [rotated])
    then have "queue_inv ?b" using q forwarding_less [of j b] True j f by (simp add: queue_inv_def)
    then show ?thesis using True by (simp add: BrSessionEvent)
  next
    case False
    then show ?thesis using q by (simp only: BrSessionEvent broker_step.simps if_False)
  qed
next
  case (BrSessionSend j)
  show ?thesis
  proof (cases "j < length (br_forward b) \<and> br_forward b ! j \<noteq> None")
    case True
    then obtain e where e: "br_forward b ! j = Some e" by blast
    let ?b = "b\<lparr>br_forward := (br_forward b)[j := None], br_m := (br_m b)\<lparr>mg_events := mg_send_session (mg_events (br_m b)) e\<rparr>\<rparr>"
    have f: "forwarding ?b = forwarding b - {j}" using True by (auto simp: forwarding_def nth_list_update)
    have "j \<in> forwarding b" using True by (simp add: forwarding_def)
    then have "Suc (card (forwarding ?b)) = card (forwarding b)" unfolding f by (rule card_Suc_Diff1 [OF forwarding_finite])
    then have "queue_inv ?b" using q by (auto simp: queue_inv_def mg_send_session_def)
    then show ?thesis using True e by (simp add: BrSessionSend)
  next
    case False
    then show ?thesis using q by (auto simp: BrSessionSend)
  qed
next
  case BrReceive
  then show ?thesis using q by (cases "mg_events (br_m b)") (auto simp: queue_inv_def forwarding_def split: if_splits)
qed (use q in \<open>auto simp: queue_inv_def forwarding_def handle_register_def handle_announce_def handle_finish_def handle_done_def broker_emit_def
      respond_begin_def respond_deliver_def Let_def split: option.splits if_splits sum.splits prod.splits\<close>)

lemma broker_invD:
  assumes "broker_inv b"
  shows "mg_items (br_m b) i = Some p \<Longrightarrow> p < mg_npending (br_m b) \<and> challenge_ID (pa_challenge (mg_pending (br_m b) p)) = i"
    and "p < mg_npending (br_m b) \<Longrightarrow> pa_response (mg_pending (br_m b) p) = Some r \<Longrightarrow>
       pa_responded (mg_pending (br_m b) p) \<and> answer_ok (br_m b) p r \<and> p \<notin> fst ` set (br_flight b)"
    and "(p, r) \<in> set (br_flight b) \<Longrightarrow> pa_responded (mg_pending (br_m b) p) \<and> answer_ok (br_m b) p r"
    and "distinct (map fst (br_flight b))" and "distinct (map fst (br_returned b))"
    and "(p, r) \<in> set (br_returned b) \<Longrightarrow> answer_ok (br_m b) p r \<and> pa_response (mg_pending (br_m b) p) = None
       \<and> p \<notin> fst ` set (br_flight b) \<and> \<not> handling p (br_m b)"
proof -
  note C = assms [unfolded broker_inv_def]
  note C1 = C [THEN conjunct1] and D1 = C [THEN conjunct2]
  note C2 = D1 [THEN conjunct1] and D2 = D1 [THEN conjunct2]
  note C3 = D2 [THEN conjunct1] and D3 = D2 [THEN conjunct2]
  show "mg_items (br_m b) i = Some p \<Longrightarrow> p < mg_npending (br_m b) \<and> challenge_ID (pa_challenge (mg_pending (br_m b) p)) = i"
    using C1 by simp
  show "p < mg_npending (br_m b) \<Longrightarrow> pa_response (mg_pending (br_m b) p) = Some r \<Longrightarrow>
       pa_responded (mg_pending (br_m b) p) \<and> answer_ok (br_m b) p r \<and> p \<notin> fst ` set (br_flight b)"
    using C2 [rule_format, of p r] by simp
  show "(p, r) \<in> set (br_flight b) \<Longrightarrow> pa_responded (mg_pending (br_m b) p) \<and> answer_ok (br_m b) p r"
    using C3 by simp
  show "distinct (map fst (br_flight b))" "distinct (map fst (br_returned b))" using D3 by simp_all
  show "(p, r) \<in> set (br_returned b) \<Longrightarrow> answer_ok (br_m b) p r \<and> pa_response (mg_pending (br_m b) p) = None
       \<and> p \<notin> fst ` set (br_flight b) \<and> \<not> handling p (br_m b)"
    using D3 [THEN conjunct2, THEN conjunct2, rule_format, of p r] by simp
qed

lemma broker_invI:
  assumes "\<And>i p. mg_items (br_m b) i = Some p \<Longrightarrow> p < mg_npending (br_m b) \<and> challenge_ID (pa_challenge (mg_pending (br_m b) p)) = i"
    and "\<And>p r. p < mg_npending (br_m b) \<Longrightarrow> pa_response (mg_pending (br_m b) p) = Some r \<Longrightarrow>
       pa_responded (mg_pending (br_m b) p) \<and> answer_ok (br_m b) p r \<and> p \<notin> fst ` set (br_flight b)"
    and "\<And>p r. (p, r) \<in> set (br_flight b) \<Longrightarrow> pa_responded (mg_pending (br_m b) p) \<and> answer_ok (br_m b) p r"
    and "distinct (map fst (br_flight b))" and "distinct (map fst (br_returned b))"
    and "\<And>p r. (p, r) \<in> set (br_returned b) \<Longrightarrow> answer_ok (br_m b) p r \<and> pa_response (mg_pending (br_m b) p) = None
       \<and> p \<notin> fst ` set (br_flight b) \<and> \<not> handling p (br_m b)"
  shows "broker_inv b"
  unfolding broker_inv_def using assms by simp

text \<open>What does not touch the broker's part of the state.\<close>

lemma broker_inv_cong:
  assumes "broker_inv b" "mg_items m = mg_items (br_m b)" "mg_pending m = mg_pending (br_m b)" "mg_npending m = mg_npending (br_m b)"
  shows "broker_inv (b\<lparr>br_m := m\<rparr>)"
  using assms(1) unfolding broker_inv_def answer_ok_def handling_def by (simp add: assms(2-4))

lemma broker_inv_forward: "broker_inv (b\<lparr>br_forward := fw\<rparr>) = broker_inv b"
  by (simp add: broker_inv_def)

lemma broker_inv_done:
  assumes "broker_inv b" "handling p (br_m b)"
  shows "broker_inv (b\<lparr>br_m := handle_done p (br_m b)\<rparr>)"
proof -
  note I = broker_invD [OF assms(1)]
  show ?thesis
  proof (rule broker_invI, goal_cases)
    case (1 i q)
    then show ?case using I(1) [of i q] by (simp add: handle_done_def split: if_splits)
  next
    case (2 q r)
    then show ?case using I(2) [of q r] by (simp add: handle_done_def answer_ok_def)
  next
    case (3 q r)
    then show ?case using I(3) [of q r] by (simp add: handle_done_def answer_ok_def)
  next
    case (6 q r)
    then show ?case using I(6) [of q r] by (simp add: handle_done_def answer_ok_def handling_def)
  qed (use I(4,5) in simp_all)
qed

lemma broker_emit_frame:
  "broker_emit x e m = Some (y, m') \<Longrightarrow> mg_items m' = mg_items m \<and> mg_pending m' = mg_pending m \<and> mg_npending m' = mg_npending m"
  by (auto simp: broker_emit_def split: option.splits if_splits)

lemma broker_inv_register:
  assumes "broker_inv b"
  shows "broker_inv (b\<lparr>br_m := snd (handle_register sid ch (br_m b))\<rparr>)"
proof (cases "challenge_Validate ch = None \<and> mg_items (br_m b) (challenge_ID ch) = None")
  case False
  then have "snd (handle_register sid ch (br_m b)) = br_m b" by (auto simp: handle_register_def split: option.split)
  then show ?thesis using assms by simp
next
  case True
  note I = broker_invD [OF assms]
  let ?n = "mg_npending (br_m b)"
  have f: "p < ?n" if "(p, r) \<in> set (br_flight b) \<or> (p, r) \<in> set (br_returned b)" for p r
    using that I(3,6) by (auto simp: answer_ok_def)
  then have "?n \<notin> fst ` set (br_flight b)" by force
  moreover have "mg_items (br_m b) i = Some p \<Longrightarrow> p \<noteq> ?n" for i p using I(1) by fastforce
  moreover have nr: "(?n, r) \<notin> set (br_returned b)" for r using f by blast
  ultimately show ?thesis using True f
  proof (intro broker_invI, goal_cases)
    case (1 i q)
    then show ?case using I(1) [of i q] by (auto simp: handle_register_def Let_def split: if_splits)
  next
    case (2 q r)
    then show ?case using I(2) [of q r] by (auto simp: handle_register_def Let_def answer_ok_def split: if_splits)
  next
    case (3 q r)
    then show ?case using I(3) [of q r] by (auto simp: handle_register_def Let_def answer_ok_def)
  next
    case (6 q r)
    then show ?case using I(6) [of q r] f [of q r] by (auto simp: handle_register_def Let_def answer_ok_def handling_def split: if_splits)
  qed (use I(4,5) in simp_all)
qed

lemma broker_inv_respond:
  assumes "broker_inv b" "respond_begin r (br_m b) = (Inr p, m)"
  shows "broker_inv (b\<lparr>br_m := m, br_flight := br_flight b @ [(p, r)]\<rparr>)"
proof -
  note I = broker_invD [OF assms(1)]
  have p: "mg_items (br_m b) (response_ChallengeID r) = Some p" "\<not> pa_responded (mg_pending (br_m b) p)"
    "response_Validate r (pa_challenge (mg_pending (br_m b) p)) = None"
    "m = (br_m b)\<lparr>mg_pending := (mg_pending (br_m b))(p := (mg_pending (br_m b) p)\<lparr>pa_responded := True\<rparr>)\<rparr>"
    using assms(2) by (auto simp: respond_begin_def split: option.splits if_splits)
  have lt: "p < mg_npending (br_m b)" using I(1) [OF p(1)] by simp
  have h: "handling p (br_m b)" using I(1) [OF p(1)] p(1) by (simp add: handling_def)
  have nf: "p \<notin> fst ` set (br_flight b)" using I(3) p(2) by force
  have nr: "pa_response (mg_pending (br_m b) p) = None" using I(2) [OF lt] p(2) by force
  have np: "(p, q) \<notin> set (br_returned b)" for q using I(6) h by blast
  show ?thesis
  proof (rule broker_invI, goal_cases)
    case (1 i q)
    then show ?case using I(1) [of i q] by (auto simp: p(4))
  next
    case (2 q s)
    then show ?case using I(2) [of q s] nr by (auto simp: p(4) answer_ok_def split: if_splits)
  next
    case (3 q s)
    then show ?case using I(3) [of q s] lt p(3) by (auto simp: p(4) answer_ok_def)
  next
    case (6 q s)
    then show ?case using I(6) [of q s] np by (auto simp: p(4) answer_ok_def handling_def split: if_splits)
  qed (use I(4,5) nf in simp_all)
qed

lemma flight_remove:
  assumes "k < length xs" "distinct (map fst xs)"
  shows "set (take k xs @ drop (Suc k) xs) = set xs - {xs ! k}" "distinct (map fst (take k xs @ drop (Suc k) xs))"
    "fst (xs ! k) \<notin> fst ` set (take k xs @ drop (Suc k) xs)" "fst ` set (take k xs @ drop (Suc k) xs) \<subseteq> fst ` set xs"
proof -
  have xs: "xs = take k xs @ xs ! k # drop (Suc k) xs" using assms(1) by (simp add: id_take_nth_drop)
  then have d: "distinct (map fst (take k xs @ xs ! k # drop (Suc k) xs))" using assms(2) by simp
  then show "distinct (map fst (take k xs @ drop (Suc k) xs))" by auto
  show n: "fst (xs ! k) \<notin> fst ` set (take k xs @ drop (Suc k) xs)" using d by auto
  have "set xs = insert (xs ! k) (set (take k xs @ drop (Suc k) xs))" by (subst xs) simp
  then show "set (take k xs @ drop (Suc k) xs) = set xs - {xs ! k}" "fst ` set (take k xs @ drop (Suc k) xs) \<subseteq> fst ` set xs"
    using n by auto
qed

lemma broker_inv_deliver:
  assumes "broker_inv b" "k < length (br_flight b)"
    "respond_deliver (fst (br_flight b ! k)) (snd (br_flight b ! k)) x (br_m b) = Some (y, m)"
  shows "broker_inv (b\<lparr>br_m := m, br_flight := take k (br_flight b) @ drop (Suc k) (br_flight b)\<rparr>)"
proof -
  note I = broker_invD [OF assms(1)]
  obtain p r where pr: "br_flight b ! k = (p, r)" by fastforce
  note R = flight_remove [OF assms(2) I(4)]
  have mem: "(p, r) \<in> set (br_flight b)" using assms(2) pr by (metis nth_mem)
  have np: "(p, s) \<notin> set (br_returned b)" for s using I(6) mem by force
  have m: "mg_items m = mg_items (br_m b)" "mg_npending m = mg_npending (br_m b)"
    "\<And>q. pa_challenge (mg_pending m q) = pa_challenge (mg_pending (br_m b) q)"
    "\<And>q. q \<noteq> p \<Longrightarrow> mg_pending m q = mg_pending (br_m b) q"
    "pa_response (mg_pending m p) = pa_response (mg_pending (br_m b) p)
     \<or> pa_response (mg_pending m p) = Some r \<and> pa_responded (mg_pending m p) = pa_responded (mg_pending (br_m b) p)"
    using assms(3) by (auto simp: respond_deliver_def pr split: option.splits if_splits)
  have p0: "pa_response (mg_pending (br_m b) p) = None"
  proof (cases "pa_response (mg_pending (br_m b) p)")
    case (Some q)
    have "p < mg_npending (br_m b)" using I(3) [OF mem] by (simp add: answer_ok_def)
    then have "p \<notin> fst ` set (br_flight b)" using I(2) Some by blast
    then show ?thesis using mem by (simp add: rev_image_eqI)
  qed simp
  show ?thesis
  proof (rule broker_invI, goal_cases)
    case (1 i q)
    then show ?case using I(1) [of i q] by (simp add: m)
  next
    case (2 q s)
    then show ?case using I(2) [of q s] I(3) [OF mem] m(4) [of q] m(5) p0 R(3,4) pr
      by (cases "q = p") (auto simp: m(2,3) answer_ok_def)
  next
    case (3 q s)
    then have q1: "(q, s) \<in> set (take k (br_flight b) @ drop (Suc k) (br_flight b))" by simp
    then have q: "(q, s) \<in> set (br_flight b)" using R(1) by blast
    have "q \<noteq> p" using imageI [OF q1, of fst] R(3) pr by auto
    note q = q this
    show ?case using I(3) [OF q(1)] m(4) [OF q(2)] by (simp add: m(2,3) answer_ok_def)
  next
    case 4
    then show ?case using R(2) by simp
  next
    case (6 q s)
    then have q: "(q, s) \<in> set (br_returned b)" "q \<noteq> p" using np by auto
    then show ?case using I(6) [OF q(1)] m(4) [OF q(2)] R(4) by (auto simp: m(1,2,3) answer_ok_def handling_def)
  qed (use I(5) in simp_all)
qed

lemma broker_run_swap: "b\<lparr>br_returned := xs, br_m := m\<rparr> = b\<lparr>br_m := m, br_returned := xs\<rparr>"
  by simp

lemma broker_inv_take:
  assumes "broker_inv b" "handling p (br_m b)" "pa_response (mg_pending (br_m b) p) = Some r"
  defines "m \<equiv> (br_m b)\<lparr>mg_pending := (mg_pending (br_m b))(p := (mg_pending (br_m b) p)\<lparr>pa_response := None\<rparr>)\<rparr>"
  shows "broker_inv (b\<lparr>br_m := m\<rparr>)" "handling p m"
    "broker_inv (b\<lparr>br_m := handle_done p m, br_returned := (p, r) # br_returned b\<rparr>)"
proof -
  note I = broker_invD [OF assms(1)]
  have lt: "p < mg_npending (br_m b)" using I(1) assms(2) by (auto simp: handling_def)
  note A = I(2) [OF lt assms(3)]
  have np: "(p, s) \<notin> set (br_returned b)" for s using I(6) assms(2) by blast
  have M: "mg_items m = mg_items (br_m b)" "mg_npending m = mg_npending (br_m b)"
    "\<And>q. pa_challenge (mg_pending m q) = pa_challenge (mg_pending (br_m b) q)"
    "\<And>q. pa_responded (mg_pending m q) = pa_responded (mg_pending (br_m b) q)"
    "\<And>q. pa_response (mg_pending m q) = (if q = p then None else pa_response (mg_pending (br_m b) q))"
    by (simp_all add: m_def)
  show B: "broker_inv (b\<lparr>br_m := m\<rparr>)"
  proof (rule broker_invI, goal_cases)
    case (2 q s)
    then show ?case using I(2) [of q s] by (simp add: M answer_ok_def split: if_splits)
  qed (use I in \<open>simp_all add: M answer_ok_def handling_def\<close>)
  show h: "handling p m" using assms(2) by (simp add: M handling_def)
  have D: "broker_inv (b\<lparr>br_m := handle_done p m\<rparr>)" using broker_inv_done [OF B] h by simp
  note J = broker_invD [OF D]
  show "broker_inv (b\<lparr>br_m := handle_done p m, br_returned := (p, r) # br_returned b\<rparr>)"
  proof (rule broker_invI, goal_cases)
    case (6 q s)
    then show ?case using J(6) [of q s] A by (auto simp: M handle_done_def answer_ok_def handling_def)
  next
    case 5
    then show ?case using I(5) np by (auto simp: image_iff)
  qed (use J(1-4) in simp_all)
qed

lemma broker_inv_step: "broker_inv b \<Longrightarrow> broker_inv (broker_step b op)"
proof (cases op)
  case (BrRegister sid ch)
  assume "broker_inv b"
  then show ?thesis by (simp add: BrRegister broker_inv_register)
next
  case (BrAnnounce p x now)
  assume b: "broker_inv b"
  show ?thesis
  proof (cases "handling p (br_m b)")
    case True
    let ?e = "auth_event p (challenge_event_type (pa_challenge (mg_pending (br_m b) p))) now (br_m b)"
    show ?thesis
    proof (cases "broker_emit x ?e (br_m b)")
      case (Some em)
      obtain y m where em: "em = (y, m)" by fastforce
      note F = broker_emit_frame [OF Some [unfolded em]]
      have i: "broker_inv (b\<lparr>br_m := m\<rparr>)" using b F by (simp add: broker_inv_cong)
      moreover have "handling p m" using True F by (simp add: handling_def)
      ultimately show ?thesis using broker_inv_done [OF i] True Some em
        by (cases y) (simp_all add: BrAnnounce handle_announce_def)
    qed (use b True in \<open>simp add: BrAnnounce handle_announce_def\<close>)
  qed (use b in \<open>simp add: BrAnnounce\<close>)
next
  case (BrFinish p x e now)
  assume b: "broker_inv b"
  show ?thesis
  proof (cases "handling p (br_m b) \<and> x = None \<and> pa_response (mg_pending (br_m b) p) \<noteq> None")
    case True
    then obtain r where r: "pa_response (mg_pending (br_m b) p) = Some r" and h: "handling p (br_m b)" and x: "x = None" by auto
    note T = broker_inv_take [OF b h r]
    let ?m = "(br_m b)\<lparr>mg_pending := (mg_pending (br_m b))(p := (mg_pending (br_m b) p)\<lparr>pa_response := None\<rparr>)\<rparr>"
    show ?thesis
    proof (cases "broker_emit e (auth_event p EventTypeAuthCompleted now ?m) ?m")
      case (Some em)
      obtain y m where em: "em = (y, m)" by fastforce
      note F = broker_emit_frame [OF Some [unfolded em]]
      have d: "mg_items (handle_done p m) = mg_items (handle_done p ?m)" "mg_pending (handle_done p m) = mg_pending (handle_done p ?m)"
        "mg_npending (handle_done p m) = mg_npending (handle_done p ?m)"
        using F by (simp_all add: handle_done_def)
      have i: "broker_inv (b\<lparr>br_m := handle_done p m\<rparr>)"
        using broker_inv_cong [OF broker_inv_done [OF T(1)], of p "handle_done p m"] T(2) d by simp
      have j: "broker_inv (b\<lparr>br_m := handle_done p m, br_returned := (p, r) # br_returned b\<rparr>)"
        using broker_inv_cong [OF T(3), of "handle_done p m"] d by (simp add: broker_run_swap)
      show ?thesis using i j Some em r h x by (cases y) (simp_all add: BrFinish handle_finish_def Let_def)
    qed (use b r h x in \<open>simp add: BrFinish handle_finish_def Let_def\<close>)
  next
    case False
    then show ?thesis using b broker_inv_done [OF b, of p] by (cases x) (auto simp: BrFinish handle_finish_def)
  qed
next
  case (BrRespond r)
  assume b: "broker_inv b"
  obtain out m where rb: "respond_begin r (br_m b) = (out, m)" by fastforce
  show ?thesis
  proof (cases out)
    case (Inl e)
    then have "m = br_m b" using rb by (auto simp: respond_begin_def split: option.splits if_splits)
    then show ?thesis using b rb Inl by (simp add: BrRespond)
  qed (use broker_inv_respond [OF b] rb in \<open>simp add: BrRespond\<close>)
next
  case (BrDeliver k x)
  assume b: "broker_inv b"
  then show ?thesis using broker_inv_deliver [OF b]
    by (auto simp: BrDeliver split: option.splits)
next
  case (BrSessionEvent j e)
  assume b: "broker_inv b"
  then show ?thesis by (simp add: BrSessionEvent broker_inv_forward)
next
  case (BrSessionSend j)
  assume b: "broker_inv b"
  have "broker_inv (b\<lparr>br_forward := fw, br_m := (br_m b)\<lparr>mg_events := q\<rparr>\<rparr>)" for fw q
    using broker_inv_cong [of "b\<lparr>br_forward := fw\<rparr>" "(br_m b)\<lparr>mg_events := q\<rparr>"] b broker_inv_forward by simp
  then show ?thesis using b by (simp add: BrSessionSend split: option.split)
next
  case BrReceive
  assume b: "broker_inv b"
  then show ?thesis by (simp add: BrReceive broker_inv_cong)
qed

text \<open>With so many goroutines that forward events.\<close>

definition broker_init :: "nat \<Rightarrow> Manager \<Rightarrow> broker_run" where
  "broker_init n m = \<lparr> br_m = m, br_flight = [], br_returned = [], br_forward = replicate n None \<rparr>"

lemma broker_init_forwarding [simp]: "forwarding (broker_init n m) = {}"
  by (auto simp: forwarding_def broker_init_def)

lemma broker_step_forward: "length (br_forward (broker_step b op)) = length (br_forward b)"
  by (cases op) (auto split: option.split sum.split prod.split)

interpretation broker: step_system "\<lambda>b. \<exists>o' outs rts now. b = broker_init n (New o' outs rts now)" broker_step
  "\<lambda>b. broker_inv b \<and> queue_inv b \<and> length (br_forward b) = n" for n
proof
  show "broker_inv b \<and> queue_inv b \<and> length (br_forward b) = n" if i: "\<exists>o' outs rts now. b = broker_init n (New o' outs rts now)" for b
  proof -
    obtain m where b: "b = broker_init n m" "mg_events m = []" "mg_items m = Map.empty" "mg_npending m = 0" using i by auto
    have "queue_inv b" unfolding queue_inv_def b(1) broker_init_forwarding using b(2) by (simp add: broker_init_def)
    then show ?thesis using b by (simp add: broker_inv_def broker_init_def)
  qed
  show "broker_inv (broker_step b op) \<and> queue_inv (broker_step b op) \<and> length (br_forward (broker_step b op)) = n"
    if "broker_inv b \<and> queue_inv b \<and> length (br_forward b) = n" for b op
    using that broker_inv_step queue_inv_step broker_step_forward by metis
qed

section \<open>Runs of the manager\<close>

text \<open>
  The operations of the manager hold one mutex throughout, so they follow each other; between and
  during them the goroutines of the sessions run. A plan of closing a session gives what the others
  do meanwhile.
\<close>

record closing_plan =
  cp_others :: "nat \<Rightarrow> nat \<Rightarrow> session_op list"
  cp_expired :: "gerror option"
  cp_late :: "gerror option"
  cp_wait :: "gerror option"

definition planned :: "((string \<rightharpoonup> string) \<Rightarrow> string list) \<Rightarrow> closing_plan \<Rightarrow> closing_call" where
  "planned ord p = \<lparr> cl_env = (\<lambda>i k. run_all (map (session_step ord) (cp_others p i k))), cl_expired = cp_expired p,
     cl_late = cp_late p, cl_wait = cp_wait p \<rparr>"

datatype manager_op =
    MgStart closing_plan "gerror option" "nat \<Rightarrow> nat \<Rightarrow> session_op list" dependencies closing_plan Config
  | MgStop closing_plan SessionID
  | MgClose closing_plan
  | MgSession nat session_op
  | MgForward nat

fun manager_step :: "((string \<rightharpoonup> string) \<Rightarrow> string list) \<Rightarrow> Manager \<times> sessionCoordinator \<Rightarrow> manager_op \<Rightarrow> Manager \<times> sessionCoordinator" where
  "manager_step ord st (MgStart p x f deps p' config) =
     snd (manager_Start ord (planned ord p) x (\<lambda>i k. run_all (map (session_step ord) (f i k))) deps (planned ord p') config st)"
| "manager_step ord st (MgStop p sid) = (fst st, snd (manager_Stop (planned ord p) sid (snd st)))"
| "manager_step ord st (MgClose p) = (fst st, snd (manager_Close (planned ord p) (snd st)))"
| "manager_step ord st (MgSession i op) =
     (if i < co_count (snd st) then (fst st, put_session i (session_step ord op (co_sessions (snd st) i)) (snd st)) else st)"
| "manager_step ord st (MgForward i) = (if i < co_count (snd st) then snd (forward_turn i st) else st)"

text \<open>The caller's context does not end before the cleanup of a session.\<close>

fun patient :: "manager_op \<Rightarrow> bool" where
  "patient (MgStart p x f deps p' config) = (cp_late p = None)"
| "patient (MgStop p sid) = (cp_late p = None)"
| "patient (MgClose p) = (cp_late p = None)"
| "patient (MgSession i op) = True"
| "patient (MgForward i) = True"

definition session_ok :: "Session \<Rightarrow> bool" where
  "session_ok s \<longleftrightarrow> state_Valid (ss_state s) \<and> closed_stopped s"

definition one_session :: "bool \<Rightarrow> Manager \<times> sessionCoordinator \<Rightarrow> bool" where
  "one_session b st \<longleftrightarrow>
     (\<forall>i < co_count (snd st). session_ok (co_sessions (snd st) i)
        \<and> (b \<and> co_active (snd st) \<noteq> Some i \<longrightarrow> ss_state (co_sessions (snd st) i) = SessionStateStopped))
   \<and> (\<forall>i. co_active (snd st) = Some i \<longrightarrow> i < co_count (snd st) \<and> mg_current (fst st) = Some i)
   \<and> (\<forall>p f sid config s. mg_factories (fst st) p = Some f \<longrightarrow> f sid config = Inr (Some s) \<longrightarrow> session_ok s)"

lemma session_ok_guar: "guar s t \<Longrightarrow> session_ok s \<Longrightarrow> session_ok t"
  using valid_guar [of s t] by (auto simp: session_ok_def guar_def)

lemma stopped_guar: "guar s t \<Longrightarrow> ss_state s = SessionStateStopped \<Longrightarrow> ss_state t = SessionStateStopped"
  using stopped_final [of "ss_state t"] by (auto simp: guar_def)

lemma WaitClosed_guar: "guar s (snd (WaitClosed x s))"
  by (auto simp: WaitClosed_def Let_def case_prod_unfold intro!: guar_intros split: option.split)

lemma planned_env: "session_env (cl_env (planned ord p))"
  by (simp add: planned_def others.session_env_axioms)

lemma Close_ok_stopped:
  assumes "session_env y" "session_ok s"
  shows "ss_state (snd (session_Close y x None s)) = SessionStateStopped"
proof (cases "ss_closed s")
  case None
  obtain report err t where c: "session_close y x s = ((report, err), t)" by (metis prod.collapse)
  then have "ss_state t = SessionStateStopped"
    using session_env.session_close_stops [OF assms(1) _ c] assms(2) by (metis session_ok_def)
  then show ?thesis using None c by (simp add: session_Close_def)
next
  case (Some r)
  then show ?thesis using assms(2) by (simp add: session_Close_def session_ok_def closed_stopped_def)
qed

lemma close_session_cases:
  assumes "session_env (cl_env cl)"
  obtains s g e where "close_session cl i c = ((g, e), put_session i s c)" "guar (co_sessions c i) s"
    "session_ok (co_sessions c i) \<Longrightarrow> cl_late cl = None \<Longrightarrow> ss_state s = SessionStateStopped"
proof -
  obtain r e s1 where c: "session_Close (cl_env cl) (cl_expired cl) (cl_late cl) (co_sessions c i) = ((r, e), s1)" by (metis prod.collapse)
  obtain w s2 where v: "WaitClosed (cl_wait cl) s1 = (w, s2)" by fastforce
  have g1: "guar (co_sessions c i) s1" using session_env.session_Close_guar [OF assms] c by (metis snd_conv)
  have g2: "guar s1 s2" using WaitClosed_guar [of s1 "cl_wait cl"] v by simp
  have st: "ss_state s1 = SessionStateStopped" if "session_ok (co_sessions c i)" "cl_late cl = None"
    using Close_ok_stopped [OF assms that(1)] c that(2) by (metis snd_conv)
  show ?thesis
  proof (cases e)
    case None
    then show ?thesis using that [of True None s1] c g1 st by (simp add: close_session_def)
  next
    case (Some e')
    then show ?thesis using that [of "w = None" e s2] c v guar_trans [OF g1 g2] st stopped_guar [OF g2] by (simp add: close_session_def)
  qed
qed

lemma one_session_put:
  assumes "one_session b st" "guar (co_sessions (snd st) i) s"
  shows "one_session b (fst st, put_session i s (snd st))"
  using assms session_ok_guar [OF assms(2)] stopped_guar [OF assms(2)] by (auto simp: one_session_def put_session_def)

lemma one_session_clear:
  assumes "one_session b (m, put_session i s c)" "b \<longrightarrow> ss_state s = SessionStateStopped"
  shows "one_session b (m, clearActive i (put_session i s c))"
  using assms by (auto simp: one_session_def put_session_def clearActive_def)

lemma one_session_close:
  assumes "one_session b (m, c)" "b \<longrightarrow> cl_late (planned ord p) = None" "co_active c = Some i"
    "close_session (planned ord p) i c = ((g, e), c1)"
  shows "one_session b (m, c1)" "one_session b (m, clearActive i c1)"
proof -
  obtain s where s: "c1 = put_session i s c" "guar (co_sessions c i) s"
    "b \<Longrightarrow> session_ok (co_sessions c i) \<Longrightarrow> ss_state s = SessionStateStopped"
    using close_session_cases [OF planned_env [of ord p], of i c] assms(2,4) by (metis prod.inject)
  have ok: "session_ok (co_sessions c i)" using assms(1,3) by (simp add: one_session_def)
  show o: "one_session b (m, c1)" using one_session_put [OF assms(1)] s(1,2) by simp
  show "one_session b (m, clearActive i c1)" using one_session_clear o s ok by blast
qed

lemma one_session_closeActive:
  assumes "one_session b (m, c)" "b \<longrightarrow> cl_late (planned ord p) = None" "closeActive (planned ord p) c = (e, c1)"
  shows "one_session b (m, c1)" "e = None \<Longrightarrow> co_active c1 = None" "co_count c1 = co_count c"
proof -
  have "one_session b (m, c1) \<and> (e = None \<longrightarrow> co_active c1 = None) \<and> co_count c1 = co_count c"
  proof (cases "co_active c")
    case (Some i)
    obtain g err c2 where c2: "close_session (planned ord p) i c = ((g, err), c2)" by (metis prod.collapse)
    obtain s where s: "c2 = put_session i s c"
      using close_session_cases [OF planned_env [of ord p], of i c] c2 by (metis prod.inject)
    have "g \<or> err \<noteq> None" using c2 by (auto simp: close_session_def split: option.splits prod.splits)
    then show ?thesis using one_session_close [OF assms(1,2) Some c2] assms(3) Some c2 s
      by (auto simp: closeActive_def clearActive_def put_session_def split: if_splits)
  qed (use assms in \<open>simp add: closeActive_def\<close>)
  then show "one_session b (m, c1)" "e = None \<Longrightarrow> co_active c1 = None" "co_count c1 = co_count c" by simp_all
qed

lemma one_session_next:
  assumes "one_session b (m, c)" "m' = m\<lparr>mg_nextID := n\<rparr>"
  shows "one_session b (m', c)"
  using assms by (simp add: one_session_def)

lemma one_session_enter:
  assumes "one_session b (m, c)" "co_active c = None" "mg_factories m protocol = Some f" "f sid config = Inr (Some s)"
  defines "i \<equiv> co_count c"
  shows "one_session b (m\<lparr>mg_current := Some i\<rparr>, setActive i (put_session i s (c\<lparr>co_count := Suc i\<rparr>)))"
proof -
  have "session_ok s" using assms(1,3,4) unfolding one_session_def by auto
  then show ?thesis using assms(1,2) by (auto simp: one_session_def i_def setActive_def put_session_def less_Suc_eq)
qed

lemma one_session_Start:
  assumes "one_session b (m, c)" "b \<longrightarrow> cl_late (planned ord p) = None" "session_env y"
  shows "one_session b (snd (manager_Start ord (planned ord p) x y deps (planned ord p') config (m, c)))"
proof -
  obtain e c1 where ca: "closeActive (planned ord p) c = (e, c1)" by fastforce
  note C = one_session_closeActive [OF assms(1,2) ca]
  define m1 where "m1 = (if cfg_SessionID config = [] then m\<lparr>mg_nextID := mg_nextID m + 1\<rparr> else m)"
  define sid where "sid = (if cfg_SessionID config = [] then new_session_id (mg_nextID m1) else cfg_SessionID config)"
  define pr where "pr = (if cfg_Protocol config = [] then ProtocolATrust else cfg_Protocol config)"
  have m: "one_session b (m1, c1)" using C(1) one_session_next [OF C(1)] by (simp add: m1_def)
  note U = manager_Start_def Let_def prod.case ca m1_def [symmetric] sid_def [symmetric] pr_def [symmetric]
  show ?thesis
  proof (cases "e = None \<and> x = None \<and> (\<exists>f s. mg_factories m1 pr = Some f \<and> f sid config = Inr (Some s))")
    case True
    then obtain f s where f: "mg_factories m1 pr = Some f" "f sid config = Inr (Some s)" and e: "e = None" "x = None" by blast
    let ?i = "co_count c1"
    let ?c2 = "setActive ?i (put_session ?i s (c1\<lparr>co_count := Suc ?i\<rparr>))"
    obtain err s1 where s1: "Start ord y deps s = (err, s1)" by fastforce
    let ?s2 = "snd (session_Close (cl_env (planned ord p')) (cl_expired (planned ord p')) None s1)"
    have o: "one_session b (m1\<lparr>mg_current := Some ?i\<rparr>, ?c2)" using one_session_enter [OF m _ f] C(2) e by simp
    have at: "co_sessions ?c2 ?i = s" by (simp add: setActive_def put_session_def)
    have g: "guar s s1" using Start_guar [OF assms(3), of s ord deps] s1 by simp
    have o1: "one_session b (m1\<lparr>mg_current := Some ?i\<rparr>, put_session ?i s1 ?c2)" using one_session_put [OF o] g at by simp
    have at1: "co_sessions (put_session ?i s1 ?c2) ?i = s1" by (simp add: put_session_def)
    have o2: "one_session b (m1\<lparr>mg_current := Some ?i\<rparr>, put_session ?i ?s2 (put_session ?i s1 ?c2))"
      using one_session_put [OF o1] session_env.session_Close_guar [OF planned_env] at1 by simp
    have "session_ok s1" using o1 at1 by (auto simp: one_session_def put_session_def setActive_def)
    then have "b \<longrightarrow> ss_state ?s2 = SessionStateStopped" using Close_ok_stopped [OF planned_env] by blast
    from one_session_clear [OF o2 this] o1 show ?thesis
      unfolding U by (simp add: e f s1 case_prod_unfold split: option.split)
  next
    case False
    then show ?thesis unfolding U using C(1) m by (auto split: option.split sum.split)
  qed
qed

lemma one_session_step:
  assumes "one_session b st" "b \<longrightarrow> patient op"
  shows "one_session b (manager_step ord st op)"
proof (cases op)
  case (MgStart p x f deps p' config)
  then have "b \<longrightarrow> cl_late (planned ord p) = None" using assms(2) by (simp add: planned_def)
  then show ?thesis using one_session_Start [of b "fst st" "snd st" ord p] assms(1) others.session_env_axioms MgStart by simp
next
  case (MgStop p sid)
  then have l: "b \<longrightarrow> cl_late (planned ord p) = None" using assms(2) by (simp add: planned_def)
  show ?thesis
  proof (cases "co_active (snd st)")
    case (Some i)
    obtain g err c2 where c2: "close_session (planned ord p) i (snd st) = ((g, err), c2)" by (metis prod.collapse)
    show ?thesis using one_session_close [OF _ l Some c2, of "fst st"] assms(1) c2 Some
      by (simp add: MgStop manager_Stop_def)
  qed (use assms(1) in \<open>simp add: MgStop manager_Stop_def\<close>)
next
  case (MgClose p)
  then have l: "b \<longrightarrow> cl_late (planned ord p) = None" using assms(2) by (simp add: planned_def)
  obtain e c1 where "closeActive (planned ord p) (snd st) = (e, c1)" by fastforce
  moreover have "one_session b (fst st, snd st)" using assms(1) by simp
  ultimately show ?thesis using one_session_closeActive(1) [OF _ l] MgClose by (metis manager_Close_def manager_step.simps(3) snd_conv)
next
  case (MgSession i op)
  show ?thesis using one_session_put [OF assms(1)] session_step_guar assms(1) MgSession by simp
next
  case (MgForward i)
  have "guar s (s\<lparr>ss_events := es\<rparr>)" if "ss_events s = e # es" for s :: Session and e es
    using guar_passive(1) [OF guar_refl, of s] that by simp
  then have "one_session b (fst st, snd (snd (forward_turn i st)))"
    using one_session_put [OF assms(1)] assms(1) by (auto simp: forward_turn_def split: list.split)
  moreover have "mg_current (fst (snd (forward_turn i st))) = mg_current (fst st)"
    "mg_factories (fst (snd (forward_turn i st))) = mg_factories (fst st)"
    by (auto simp: forward_turn_def emitSessionEvent_def split: list.split)
  ultimately show ?thesis using assms(1) MgForward by (simp add: one_session_def)
qed

text \<open>What a session that a closing gives up has left: it is stopped, or what is installed in it is closed.\<close>

definition parts_gone :: "Session \<Rightarrow> bool" where
  "parts_gone s \<longleftrightarrow> (\<forall>n. ss_network s = Some n \<longrightarrow> ob_closed (w_outs s n)) \<and> (\<forall>r. ss_runtime s = Some r \<longrightarrow> rt_closeOnce (w_rts s r))"

lemma WaitClosed_gone: "parts_gone (snd (WaitClosed x s))"
  by (auto simp: parts_gone_def WaitClosed_def net_Close_def CloseContext_snd rt_Close_world Let_def case_prod_unfold split: option.splits)

lemma close_session_gone:
  assumes "session_env (cl_env cl)" "session_ok (co_sessions c i)"
  shows "ss_state (co_sessions (snd (close_session cl i c)) i) = SessionStateStopped
    \<or> \<not> fst (fst (close_session cl i c)) \<or> parts_gone (co_sessions (snd (close_session cl i c)) i)"
proof (cases "cl_late cl")
  case None
  obtain s g e where "close_session cl i c = ((g, e), put_session i s c)"
    "session_ok (co_sessions c i) \<Longrightarrow> cl_late cl = None \<Longrightarrow> ss_state s = SessionStateStopped"
    using close_session_cases [OF assms(1), of i c] by metis
  then show ?thesis using assms(2) None by (simp add: put_session_def)
next
  case (Some e)
  then show ?thesis using WaitClosed_gone by (simp add: close_session_def session_Close_def put_session_def case_prod_unfold Let_def)
qed

section \<open>Properties\<close>

text \<open>C30. There is one session at a time. After any sequence of starts, stops, closings and turns of the
  sessions' own goroutines, each closing with whatever runs beside it: the active session, if any, is the one that queries are answered from; and a
  closing lets the manager forget a session only when it is stopped, or, when the caller's context ended before the cleanup did, when the network runtime and the runtime installed in it are
  closed. If no caller gives up waiting for a cleanup, every session but the active one is stopped; otherwise one that was forgotten need not have reached the stopped state yet.\<close>

theorem manager_one_session:
  assumes "foldl (manager_step ord) (New [] outs rts now, \<lparr> co_active = None, co_sessions = f, co_count = 0 \<rparr>) ops = (m, c)"
  shows "(list_all patient ops \<longrightarrow> (\<forall>i < co_count c. co_active c \<noteq> Some i \<longrightarrow> ss_state (co_sessions c i) = SessionStateStopped))
    \<and> (\<forall>i. co_active c = Some i \<longrightarrow> i < co_count c \<and> mg_current m = Some i)
    \<and> (\<forall>p i gone err c'. i < co_count c \<and> close_session (planned ord p) i c = ((gone, err), c') \<longrightarrow>
         (gone \<longrightarrow> ss_state (co_sessions c' i) = SessionStateStopped \<or> parts_gone (co_sessions c' i)))"
proof -
  have "session_ok (newSession sid config outs rts now)" for sid config
    by (simp add: session_ok_def newSession_def state_Valid_def closed_stopped_def)
  then have "one_session b (New [] outs rts now, \<lparr> co_active = None, co_sessions = f, co_count = 0 \<rparr>)" for b
    by (auto simp: one_session_def New_def newATrustSession_def split: if_splits)
  then have "one_session b (foldl (manager_step ord) (New [] outs rts now, \<lparr> co_active = None, co_sessions = f, co_count = 0 \<rparr>) ops)"
    if "b \<longrightarrow> list_all patient ops" for b
    using that by (induction ops rule: rev_induct) (auto simp: one_session_step)
  then have o: "one_session b (m, c)" if "b \<longrightarrow> list_all patient ops" for b using that assms by metis
  have ok: "session_ok (co_sessions c i)" if "i < co_count c" for i using o [of False] that by (simp add: one_session_def)
  show ?thesis using o [of True] o [of False] close_session_gone [OF planned_env ok] by (auto simp: one_session_def) (metis fst_conv snd_conv)
qed

definition demo_core_config :: Config where
  "demo_core_config = \<lparr> cfg_Protocol = [], cfg_ResumeState = None, cfg_SessionID = [], cfg_ServerAddress = ''vpn.example.org'', cfg_ServerPort = 443,
     cfg_Username = ''u'', cfg_Password = [], cfg_Phone = [], cfg_LoginDomain = [], cfg_AuthType = ''auth/psw'', cfg_GraphCodeFile = [],
     cfg_CASTicket = [], cfg_OAuth2Code = [], cfg_SID = [], cfg_DeviceID = [], cfg_SignKey = [], cfg_ClientDataFile = [],
     cfg_UpdateBestNodesSeconds = 0, cfg_BindInterface = [], cfg_AutoDetectInterface = True, cfg_DisableAutoReconnect = False,
     cfg_DisableRemoteDNS = False, cfg_RemoteDNSServer = [], cfg_SecondaryDNSServer = [], cfg_DNSTTL = 0, cfg_DNSBind = [],
     cfg_Hosts = Map.empty, cfg_SOCKSBind = [], cfg_SOCKSUsername = [], cfg_SOCKSPassword = [], cfg_HTTPBind = [], cfg_TUNEnabled = False,
     cfg_TUNName = [], cfg_TUNAddress = [], cfg_TUNMTU = 0, cfg_TUNAutoRoute = False, cfg_TUNRouteAll = False, cfg_TUNOutboundInterface = [],
     cfg_TUNUDPTimeoutSeconds = 0, cfg_TUNUDPMaxFlows = 0, cfg_TUNDNSHijack = False, cfg_TUNFakeIP = False, cfg_TUNFakeIPRange = [],
     cfg_RoutingMode = RoutingModeRule,
     cfg_InternetOutbound = \<lparr> io_Type = InternetOutboundDirect, io_Address = [], io_Username = [], io_Password = [] \<rparr> \<rparr>"

definition quiet_plan :: closing_plan where
  "quiet_plan = \<lparr> cp_others = (\<lambda>_ _. [OpReceive]), cp_expired = None, cp_late = None, cp_wait = None \<rparr>"

theorem manager_one_session_witness:
  "\<exists>m c. foldl (manager_step by_key) (New [] (\<lambda>_. demo_out) (\<lambda>_. demo_rt) 0, \<lparr> co_active = None, co_sessions = (\<lambda>_. demo_session), co_count = 0 \<rparr>)
       [MgStart quiet_plan None (\<lambda>_ _. []) demo_deps quiet_plan demo_core_config, MgSession 0 OpContextDone,
        MgStart quiet_plan None (\<lambda>_ _. []) demo_deps quiet_plan demo_core_config] = (m, c)
     \<and> (\<forall>i < co_count c. co_active c \<noteq> Some i \<longrightarrow> ss_state (co_sessions c i) = SessionStateStopped)"
proof -
  let ?ops = "[MgStart quiet_plan None (\<lambda>_ _. []) demo_deps quiet_plan demo_core_config, MgSession 0 OpContextDone,
        MgStart quiet_plan None (\<lambda>_ _. []) demo_deps quiet_plan demo_core_config]"
  obtain m c where r: "foldl (manager_step by_key) (New [] (\<lambda>_. demo_out) (\<lambda>_. demo_rt) 0,
      \<lparr> co_active = None, co_sessions = (\<lambda>_. demo_session), co_count = 0 \<rparr>) ?ops = (m, c)" by fastforce
  have "list_all patient ?ops" by (simp add: quiet_plan_def)
  from manager_one_session [OF r] this r show ?thesis by blast
qed

text \<open>C31. The authentication broker. After any interleaving of handlers that enter, announce and wait for challenges,
  answers in their two parts, receipts, and \<open>n\<close> goroutines that forward session events, each in its two parts, the look at the channel and the sending: a challenge has been answered to its handler at most
  once, each answer passed the validation against its challenge, an accepted answer is delivered without
  blocking; and announcing an authentication event does not block as long as those that wait, counted together with the forwarding goroutines, are at most eight, however many
  session events were forwarded. With one such goroutine these are the eight places that are kept free for them; each further one may take one away.\<close>

theorem auth_broker_answers:
  assumes "b = foldl broker_step (broker_init n (New options outs rts now)) ops"
  shows "distinct (map fst (br_returned b))
    \<and> (\<forall>p r. (p, r) \<in> set (br_returned b) \<longrightarrow> response_Validate r (pa_challenge (mg_pending (br_m b) p)) = None)
    \<and> (\<forall>k < length (br_flight b). \<exists>m. respond_deliver (fst (br_flight b ! k)) (snd (br_flight b ! k)) None (br_m b) = Some (None, m))
    \<and> (length (filter is_auth_event (mg_events (br_m b))) + n \<le> managerAuthEventReserve \<longrightarrow> (\<exists>m. broker_emit None e (br_m b) = Some (None, m)))"
proof -
  have inv: "broker_inv b" "queue_inv b" "length (br_forward b) = n"
    using broker.run_inv [of "broker_init n (New options outs rts now)" n ops] assms by blast+
  note I = broker_invD [OF inv(1)]
  have "pa_response (mg_pending (br_m b) (fst (br_flight b ! k))) = None" if "k < length (br_flight b)" for k
  proof (cases "pa_response (mg_pending (br_m b) (fst (br_flight b ! k)))")
    case (Some q)
    have mem: "br_flight b ! k \<in> set (br_flight b)" using that by simp
    have "fst (br_flight b ! k) < mg_npending (br_m b)" using I(3) [of "fst (br_flight b ! k)" "snd (br_flight b ! k)"] mem by (simp add: answer_ok_def)
    then show ?thesis using I(2) [OF _ Some] imageI [OF mem, of fst] by blast
  qed simp
  moreover have "length (mg_events (br_m b)) < managerEventBuffer" if "length (filter is_auth_event (mg_events (br_m b))) + n \<le> managerAuthEventReserve"
    using that inv(2,3) sum_length_filter_compl [of is_auth_event "mg_events (br_m b)"]
    by (simp add: queue_inv_def managerEventBuffer_def managerAuthEventReserve_def)
  ultimately show ?thesis using I(5,6) by (auto simp: respond_deliver_def broker_emit_def answer_ok_def)
qed

theorem auth_broker_answers_witness:
  "let ch = \<lparr> challenge_ID = ''c1'', challenge_Kind = AuthChallengeSMS, challenge_Prompt = [], challenge_URL = [], challenge_Image = [],
             challenge_AllowSkip = False, challenge_Choices = [] \<rparr>;
       r = \<lparr> response_ChallengeID = ''c1'', response_Value = ''123456'', response_Skip = False, response_ChoiceID = [] \<rparr>;
       b = foldl broker_step (broker_init 1 (New [] (\<lambda>_. demo_out) (\<lambda>_. demo_rt) 0))
         [BrRegister ''s'' ch, BrAnnounce 0 None 1, BrRespond r, BrRespond r, BrDeliver 0 None, BrFinish 0 None None 2]
   in map fst (br_returned b) = [0] \<and> response_Validate r (pa_challenge (mg_pending (br_m b) 0)) = None"
proof -
  let ?ch = "\<lparr> challenge_ID = ''c1'', challenge_Kind = AuthChallengeSMS, challenge_Prompt = [], challenge_URL = [], challenge_Image = [],
             challenge_AllowSkip = False, challenge_Choices = [] \<rparr>"
  let ?r = "\<lparr> response_ChallengeID = ''c1'', response_Value = ''123456'', response_Skip = False, response_ChoiceID = [] \<rparr>"
  define b where "b = foldl broker_step (broker_init 1 (New [] (\<lambda>_. demo_out) (\<lambda>_. demo_rt) 0))
         [BrRegister ''s'' ?ch, BrAnnounce 0 None 1, BrRespond ?r, BrRespond ?r, BrDeliver 0 None, BrFinish 0 None None 2]"
  have v: "challenge_Validate ?ch = None" "response_Validate ?r ?ch = None"
    by (simp_all add: challenge_Validate_def response_Validate_def kind_Valid_def MaxAuthChallengeImageSize_def)
  have ret: "br_returned b = [(0, ?r)]"
    by (simp add: b_def broker_init_def New_def handle_register_def handling_def handle_announce_def handle_finish_def handle_done_def
        broker_emit_def respond_begin_def respond_deliver_def v Let_def managerEventBuffer_def)
  then have "response_Validate ?r (pa_challenge (mg_pending (br_m b) 0)) = None"
    using auth_broker_answers [OF b_def] by simp
  with ret show ?thesis unfolding Let_def b_def [symmetric] by simp
qed

end
