(* ===== verification/FakeIP.thy ===== *)
theory FakeIP
  imports CoreError GoNet
begin

text \<open>
  The fake-IP store of the TUN inbound, \<^verbatim>\<open>src/internal/networkruntime/tun_fakeip.go\<close>. Its two maps
  share pointers to entries, so the model has a heap of entries; the maps hold references. An
  invalid \<^verbatim>\<open>netip.Addr\<close> is the empty byte list.
\<close>

section \<open>State\<close>

definition defaultTUNFakeIPRange :: string where "defaultTUNFakeIPRange = ''198.18.0.0/16''"
definition fakeIPReuseAfter :: int where "fakeIPReuseAfter = 30 * 60 * 1000000000"

record fakeIPEntry =
  fe_domain :: string
  fe_address :: ip
  fe_resolved :: ip
  fe_lastUsed :: int

record fakeIPStore =
  fs_prefix :: "ip \<times> nat"
  fs_domainToIP :: "string \<rightharpoonup> nat"
  fs_ipToDomain :: "ip \<rightharpoonup> nat"
  fs_next :: u32
  fs_last :: u32
  fs_heap :: "nat \<Rightarrow> fakeIPEntry"
  fs_count :: nat

definition addrToUint32 :: "ip \<Rightarrow> u32" where
  "addrToUint32 q = word_of_nat (ip4_val q)"

definition uint32ToAddr :: "u32 \<Rightarrow> ip" where
  "uint32ToAddr v = (let n = unat v in
     [word_of_nat (n div 16777216), word_of_nat (n div 65536), word_of_nat (n div 256), word_of_nat n])"

definition normalizeDomain :: "string \<Rightarrow> string" where
  "normalizeDomain domain = TrimSuffix (ToLower (TrimSpace domain)) ''.''"

definition no_entry :: fakeIPEntry where
  "no_entry = \<lparr> fe_domain = [], fe_address = [], fe_resolved = [], fe_lastUsed = 0 \<rparr>"

text \<open>The upper end is computed in 64 bits, where \<open>base + count - 2\<close> does not overflow, and then
  converted to 32 bits.\<close>

definition newFakeIPStore :: "string \<Rightarrow> fakeIPStore result" where
  "newFakeIPStore prefixText =
     (case ParsePrefix prefixText of
        None \<Rightarrow> Inl (Opaque (''parse TUN fake IP range '' @ quote prefixText))
      | Some p \<Rightarrow>
          (let prefix = Masked p in
           if length (fst prefix) \<noteq> 4 \<or> snd prefix < 8 \<or> snd prefix > 30
           then Inl (Opaque ''TUN fake IP range must be an IPv4 prefix between /8 and /30'')
           else
             let base = addrToUint32 (fst prefix); count = 2 ^ (32 - snd prefix) :: nat in
             Inr \<lparr> fs_prefix = prefix, fs_domainToIP = Map.empty, fs_ipToDomain = Map.empty, fs_next = base + 2,
                   fs_last = word_of_nat (unat base + count - 2), fs_heap = (\<lambda>_. no_entry), fs_count = 0 \<rparr>))"

section \<open>Operations\<close>

definition entry_of :: "fakeIPStore \<Rightarrow> string \<Rightarrow> fakeIPEntry" where
  "entry_of s d = (case fs_domainToIP s d of None \<Rightarrow> no_entry | Some r \<Rightarrow> fs_heap s r)"

definition oldestReusable :: "((string \<rightharpoonup> nat) \<Rightarrow> string list) \<Rightarrow> int \<Rightarrow> fakeIPStore \<Rightarrow> nat option" where
  "oldestReusable ord now s =
     Option.bind
       (foldl (argmin_step (\<lambda>d. \<not> fe_lastUsed (entry_of s d) > now - fakeIPReuseAfter) (\<lambda>d. fe_lastUsed (entry_of s d)))
          None (ord (fs_domainToIP s)))
       (fs_domainToIP s)"

definition touch :: "nat \<Rightarrow> (fakeIPEntry \<Rightarrow> fakeIPEntry) \<Rightarrow> fakeIPStore \<Rightarrow> fakeIPStore" where
  "touch r f s = s\<lparr>fs_heap := (fs_heap s)(r := f (fs_heap s r))\<rparr>"

definition prefix_string :: "ip \<times> nat \<Rightarrow> string" where
  "prefix_string p = show_ip4 (fst p) @ ''/'' @ show_nat (snd p)"

definition assign ::
  "((string \<rightharpoonup> nat) \<Rightarrow> string list) \<Rightarrow> int \<Rightarrow> string \<Rightarrow> ip \<Rightarrow> fakeIPStore \<Rightarrow> ip result \<times> fakeIPStore" where
  "assign ord now domain0 resolved s =
     (let domain = normalizeDomain domain0 in
      case fs_domainToIP s domain of
        Some r \<Rightarrow> (Inr (fe_address (fs_heap s r)), touch r (\<lambda>e. e\<lparr>fe_resolved := resolved, fe_lastUsed := now\<rparr>) s)
      | None \<Rightarrow>
          if fs_next s > fs_last s then
            (case oldestReusable ord now s of
               None \<Rightarrow> (Inl (Opaque (''TUN fake IP range '' @ prefix_string (fs_prefix s) @ '' is exhausted'')), s)
             | Some r \<Rightarrow>
                 (let s1 = s\<lparr>fs_domainToIP := (fs_domainToIP s)(fe_domain (fs_heap s r) := None)\<rparr>;
                      s2 = touch r (\<lambda>e. e\<lparr>fe_domain := domain, fe_resolved := resolved, fe_lastUsed := now\<rparr>) s1
                  in (Inr (fe_address (fs_heap s r)), s2\<lparr>fs_domainToIP := (fs_domainToIP s2)(domain \<mapsto> r)\<rparr>)))
          else
            let address = uint32ToAddr (fs_next s); r = fs_count s;
                e = \<lparr> fe_domain = domain, fe_address = address, fe_resolved = resolved, fe_lastUsed = now \<rparr>
            in (Inr address, s\<lparr>fs_next := fs_next s + 1, fs_domainToIP := (fs_domainToIP s)(domain \<mapsto> r),
                  fs_ipToDomain := (fs_ipToDomain s)(address \<mapsto> r), fs_heap := (fs_heap s)(r := e), fs_count := Suc r\<rparr>))"

definition Assign :: "((string \<rightharpoonup> nat) \<Rightarrow> string list) \<Rightarrow> int \<Rightarrow> string \<Rightarrow> fakeIPStore \<Rightarrow> ip result \<times> fakeIPStore" where
  "Assign ord now domain s = assign ord now domain [] s"

definition AssignResolved ::
  "((string \<rightharpoonup> nat) \<Rightarrow> string list) \<Rightarrow> int \<Rightarrow> string \<Rightarrow> ip \<Rightarrow> fakeIPStore \<Rightarrow> ip result \<times> fakeIPStore" where
  "AssignResolved ord now domain resolved s =
     (let r = Unmap resolved in
      if length r \<noteq> 4 then (Inl (Opaque ''resolved TUN fake IP destination must be IPv4''), s)
      else assign ord now domain r s)"

definition LookupDestination :: "int \<Rightarrow> ip \<Rightarrow> fakeIPStore \<Rightarrow> (string \<times> ip) option \<times> fakeIPStore" where
  "LookupDestination now address s =
     (if address = [] then (None, s)
      else case fs_ipToDomain s (Unmap address) of
          None \<Rightarrow> (None, s)
        | Some r \<Rightarrow>
            (Some (fe_domain (fs_heap s r), fe_resolved (fs_heap s r)), touch r (\<lambda>e. e\<lparr>fe_lastUsed := now\<rparr>) s))"

definition Lookup :: "int \<Rightarrow> ip \<Rightarrow> fakeIPStore \<Rightarrow> string option" where
  "Lookup now address s = map_option fst (fst (LookupDestination now address s))"

section \<open>Addresses as numbers\<close>

lemma unat_u32: "n < 2 ^ 32 \<Longrightarrow> unat (word_of_nat n :: u32) = n"
  by (simp add: unat_of_nat take_bit_eq_mod)

lemma length_uint32ToAddr [simp]: "length (uint32ToAddr v) = 4"
  by (simp add: uint32ToAddr_def Let_def)

lemma ip4_val_uint32: "ip4_val (uint32ToAddr v) = unat v"
proof -
  let ?n = "unat v"
  have n: "?n < 4294967296" using unsigned_less [of v] by simp
  define a b c where "a = ?n div 256" and "b = a div 256" and "c = b div 256"
  have d: "?n div 65536 = b" "?n div 16777216 = c" by (simp_all add: a_def b_def c_def flip: div_mult2_eq)
  have "c < 256" using n by (simp flip: d(2))
  moreover have "?n = a * 256 + ?n mod 256" "a = b * 256 + a mod 256" "b = c * 256 + b mod 256"
    by (simp_all add: a_def b_def c_def)
  ultimately have "?n div 16777216 mod 256 * 16777216 + ?n div 65536 mod 256 * 65536 + ?n div 256 mod 256 * 256 + ?n mod 256 = ?n"
    unfolding d a_def [symmetric] by simp
  then show ?thesis by (simp only: uint32ToAddr_def Let_def ip4_val_alt unat_u8)
qed

lemma uint32ToAddr_inj [simp]: "uint32ToAddr v = uint32ToAddr w \<longleftrightarrow> v = w"
  by (metis ip4_val_uint32 word_unat_eq_iff)

lemma addrToUint32_inverse: "length q = 4 \<Longrightarrow> uint32ToAddr (addrToUint32 q) = q"
proof -
  assume l: "length q = 4"
  have "ip4_val q < 4294967296" using ip4_val_bound [of q] l by simp
  then have "unat (addrToUint32 q) = ip4_val q" by (simp add: addrToUint32_def unat_of_nat take_bit_eq_mod)
  then show ?thesis using ip4_val_inj [of "uint32ToAddr (addrToUint32 q)" q] l by (simp add: ip4_val_uint32)
qed

lemma Unmap_4 [simp]: "length q = 4 \<Longrightarrow> Unmap q = q"
  by (simp add: Unmap_def)

text \<open>A masked network address is a multiple of the size of its network.\<close>

lemma take_bit_dvd: "take_bit k w = 0 \<Longrightarrow> 2 ^ k dvd unat (w :: u8)"
proof -
  assume "take_bit k w = 0"
  then have "unat (take_bit k w) = 0" by simp
  then show ?thesis by (simp add: unsigned_take_bit_eq take_bit_eq_0_iff)
qed

lemma and_mask_dvd:
  assumes "k \<le> 8" "m = word_of_nat (256 - 2 ^ k)"
  shows "2 ^ k dvd unat (x AND m :: u8)"
proof -
  have "(2 :: nat) ^ k \<le> 2 ^ 8" using assms(1) by (intro power_increasing) simp_all
  then have "m = word_of_nat 256 - word_of_nat (2 ^ k)" unfolding assms(2) by (intro of_nat_diff) simp
  moreover have "(word_of_nat 256 :: u8) = 0" by simp
  ultimately have "m = - (2 ^ k)" by simp
  then have "m = NOT (mask k)" by (simp add: minus_exp_eq_not_mask)
  then have "take_bit k (x AND m) = 0" by (simp add: take_bit_eq_mask ac_simps)
  then show ?thesis by (rule take_bit_dvd)
qed

lemma masked_dvd:
  assumes "length q = 4" "8 \<le> n" "n \<le> 32"
  shows "2 ^ (32 - n) dvd ip4_val (mask_ip q (CIDRMask n 32))"
proof -
  obtain a b c d where q: "q = [a, b, c, d]" using assms(1) by (rule length4E)
  have up: "[0..<4] = [0, 1, 2, 3 :: nat]" by (simp add: upt_rec)
  let ?m = "\<lambda>i :: nat. (if 8 * (i + 1) \<le> n then 0xFF else if 8 * i < n then word_of_nat (256 - 2 ^ (8 * (i + 1) - n)) else 0) :: u8"
  have v: "mask_ip q (CIDRMask n 32) = [a AND ?m 0, b AND ?m 1, c AND ?m 2, d AND ?m 3]"
    by (simp add: mask_ip_def CIDRMask_def up q)
  consider "n \<le> 16" | "16 < n" "n \<le> 24" | "24 < n" by linarith
  then show ?thesis
  proof cases
    case 1
    have b: "2 ^ (16 - n) dvd unat (b AND ?m 1)"
      using assms(2) 1 and_mask_dvd [of "16 - n" _ b] by (cases "n = 8") (auto simp: not_le)
    have "32 - n = (16 - n) + 16" using 1 by simp
    then have p: "(2 :: nat) ^ (32 - n) = 2 ^ (16 - n) * 65536" by (simp only: power_add) simp
    have "2 ^ (16 - n) * 65536 dvd unat (b AND ?m 1) * 65536" using b by (rule mult_dvd_mono) simp
    moreover have "2 ^ (16 - n) * 65536 dvd unat (a AND ?m 0) * (256 * 65536)"
    proof (rule dvd_mult, rule mult_dvd_mono)
      show "(2 :: nat) ^ (16 - n) dvd 256" using le_imp_power_dvd [of "16 - n" 8 "2 :: nat"] assms(2) by simp
    qed simp
    moreover have "?m 2 = 0" "?m 3 = 0" using 1 by simp_all
    ultimately show ?thesis unfolding v p ip4_val_alt by (simp add: dvd_add)
  next
    case 2
    have c: "2 ^ (24 - n) dvd unat (c AND ?m 2)"
      using 2 and_mask_dvd [of "24 - n" _ c] by (cases "n = 24") (auto simp: not_le)
    have "32 - n = (24 - n) + 8" using 2 by simp
    then have p: "(2 :: nat) ^ (32 - n) = 2 ^ (24 - n) * 256" by (simp only: power_add) simp
    have k: "(2 :: nat) ^ (24 - n) dvd 256" using le_imp_power_dvd [of "24 - n" 8 "2 :: nat"] 2 by simp
    have "2 ^ (24 - n) * 256 dvd unat (c AND ?m 2) * 256" using c by (rule mult_dvd_mono) simp
    moreover have "2 ^ (24 - n) * 256 dvd unat (a AND ?m 0) * (65536 * 256)" "2 ^ (24 - n) * 256 dvd unat (b AND ?m 1) * (256 * 256)"
      by (rule dvd_mult, rule mult_dvd_mono, use k dvd_trans [OF k, of 65536] in simp_all)+
    moreover have "?m 3 = 0" using 2 by simp
    ultimately show ?thesis unfolding v p ip4_val_alt by (simp add: dvd_add)
  next
    case 3
    have d: "2 ^ (32 - n) dvd unat (d AND ?m 3)"
      using 3 assms(3) and_mask_dvd [of "32 - n" _ d] by (cases "n = 32") (auto simp: not_le)
    have k: "(2 :: nat) ^ (32 - n) dvd 256" using le_imp_power_dvd [of "32 - n" 8 "2 :: nat"] 3 by simp
    have "(2 :: nat) ^ (32 - n) dvd 65536" "(2 :: nat) ^ (32 - n) dvd 16777216"
      using dvd_trans [OF k, of 65536] dvd_trans [OF k, of 16777216] by simp_all
    then have "2 ^ (32 - n) dvd unat (a AND ?m 0) * 16777216" "2 ^ (32 - n) dvd unat (b AND ?m 1) * 65536"
      "2 ^ (32 - n) dvd unat (c AND ?m 2) * 256"
      using k by (simp_all only: dvd_mult)
    with d show ?thesis unfolding v ip4_val_alt by (intro dvd_add)
  qed
qed

lemma dvd_room: "d dvd b \<Longrightarrow> d dvd m \<Longrightarrow> b < m \<Longrightarrow> b + d \<le> (m :: nat)"
  by (metis add.commute dvd_diffD1 dvd_imp_le le_diff_conv2 less_imp_le zero_less_diff dvd_diff_nat)

section \<open>Invariant\<close>

definition fs_base :: "fakeIPStore \<Rightarrow> nat" where
  "fs_base s = ip4_val (fst (fs_prefix s))"

text \<open>
  The entries are the addresses from the third of the range on, in order; the address map holds
  exactly them; and the domain map is a bijection between the domains of the entries and the
  entries. The cursor never runs past the end of the range by more than one.
\<close>

definition fs_inv :: "fakeIPStore \<Rightarrow> bool" where
  "fs_inv s \<longleftrightarrow>
     finite (dom (fs_domainToIP s))
   \<and> unat (fs_next s) = fs_base s + 2 + fs_count s
   \<and> unat (fs_last s) = fs_base s + 2 ^ (32 - snd (fs_prefix s)) - 2
   \<and> fs_base s + 2 ^ (32 - snd (fs_prefix s)) \<le> 2 ^ 32 \<and> snd (fs_prefix s) \<le> 30
   \<and> unat (fs_next s) \<le> unat (fs_last s) + 1
   \<and> (\<forall>r < fs_count s. fe_address (fs_heap s r) = uint32ToAddr (word_of_nat (fs_base s + 2 + r)))
   \<and> (\<forall>a r. fs_ipToDomain s a = Some r \<longleftrightarrow> r < fs_count s \<and> a = fe_address (fs_heap s r))
   \<and> (\<forall>d r. fs_domainToIP s d = Some r \<longleftrightarrow> r < fs_count s \<and> d = fe_domain (fs_heap s r))"

lemma fs_invD:
  assumes "fs_inv s"
  shows "finite (dom (fs_domainToIP s))" "unat (fs_next s) = fs_base s + 2 + fs_count s"
    "unat (fs_last s) = fs_base s + 2 ^ (32 - snd (fs_prefix s)) - 2"
    "fs_base s + 2 ^ (32 - snd (fs_prefix s)) \<le> 2 ^ 32" "snd (fs_prefix s) \<le> 30"
    "unat (fs_next s) \<le> unat (fs_last s) + 1"
    "r < fs_count s \<Longrightarrow> fe_address (fs_heap s r) = uint32ToAddr (word_of_nat (fs_base s + 2 + r))"
    "fs_ipToDomain s a = Some r \<longleftrightarrow> r < fs_count s \<and> a = fe_address (fs_heap s r)"
    "fs_domainToIP s d = Some r \<longleftrightarrow> r < fs_count s \<and> d = fe_domain (fs_heap s r)"
  using assms unfolding fs_inv_def by blast+

lemma four_le: "n \<le> 30 \<Longrightarrow> (4 :: nat) \<le> 2 ^ (32 - n)"
  using power_increasing [of 2 "32 - n" "2 :: nat"] by simp

lemma newFakeIPStore_inv:
  assumes "newFakeIPStore txt = Inr s"
  shows "fs_inv s \<and> fs_count s = 0"
proof -
  obtain p where p: "ParsePrefix txt = Some p"
    using assms by (auto simp: newFakeIPStore_def split: option.splits)
  define pre where "pre = Masked p"
  have b: "length (fst pre) = 4" "8 \<le> snd pre" "snd pre \<le> 30"
    using assms p by (auto simp: newFakeIPStore_def pre_def Let_def split: if_splits)
  let ?base = "addrToUint32 (fst pre)" and ?c = "2 ^ (32 - snd pre) :: nat"
  have s: "s = \<lparr> fs_prefix = pre, fs_domainToIP = Map.empty, fs_ipToDomain = Map.empty, fs_next = ?base + 2,
      fs_last = word_of_nat (unat ?base + ?c - 2), fs_heap = (\<lambda>_. no_entry), fs_count = 0 \<rparr>"
    using assms p b by (simp add: newFakeIPStore_def Let_def pre_def)
  have lt: "ip4_val (fst pre) < 2 ^ 32" using ip4_val_bound [of "fst pre"] b(1) by simp
  have base: "unat ?base = ip4_val (fst pre)" using lt by (simp add: addrToUint32_def unat_of_nat take_bit_eq_mod)
  obtain q n where qn: "p = (q, n)" by (cases p)
  have pre': "fst pre = mask_ip q (CIDRMask n 32)" "snd pre = n" "length q = 4"
    using b(1) qn by (auto simp: pre_def Masked_def mask_ip_def)
  have "?c dvd ip4_val (fst pre)" using masked_dvd [of q n] pre' b by simp
  moreover have "?c dvd 2 ^ 32" by (rule le_imp_power_dvd) simp
  ultimately have room: "ip4_val (fst pre) + ?c \<le> 2 ^ 32" using lt by (rule dvd_room)
  have "unat (?base + 2) = unat ?base + 2" using room four_le [OF b(3)] base by (simp add: unat_word_ariths)
  moreover have "unat (word_of_nat (unat ?base + ?c - 2) :: u32) = unat ?base + ?c - 2"
    by (rule unat_u32) (use room four_le [OF b(3)] base in linarith)
  ultimately show ?thesis using room four_le [OF b(3)] base b(3) by (simp add: fs_inv_def s fs_base_def)
qed

lemma fs_addresses:
  assumes "fs_inv s" "r < fs_count s"
  shows "ip4_val (fe_address (fs_heap s r)) = fs_base s + 2 + r"
    and "fs_base s + 2 + r \<le> fs_base s + 2 ^ (32 - snd (fs_prefix s)) - 2"
proof -
  show le: "fs_base s + 2 + r \<le> fs_base s + 2 ^ (32 - snd (fs_prefix s)) - 2"
    using fs_invD(2,3,6) [OF assms(1)] assms(2) by linarith
  have "fs_base s + 2 + r < 2 ^ 32"
    using le fs_invD(4) [OF assms(1)] four_le [OF fs_invD(5) [OF assms(1)]] by linarith
  then have "unat (word_of_nat (fs_base s + 2 + r) :: u32) = fs_base s + 2 + r" by (rule unat_u32)
  then show "ip4_val (fe_address (fs_heap s r)) = fs_base s + 2 + r"
    unfolding fs_invD(7) [OF assms] ip4_val_uint32 .
qed

lemma touch_entry_inv:
  assumes "fs_inv s" "\<And>e. fe_domain (f e) = fe_domain e \<and> fe_address (f e) = fe_address e"
  shows "fs_inv (touch r f s)"
proof -
  have h: "fe_domain (fs_heap (touch r f s) x) = fe_domain (fs_heap s x)"
    "fe_address (fs_heap (touch r f s) x) = fe_address (fs_heap s x)" for x
    using assms(2) by (simp_all add: touch_def)
  show ?thesis using assms(1) unfolding fs_inv_def h by (simp add: touch_def fs_base_def)
qed

lemma heap_inj:
  assumes "fs_inv s" "a < fs_count s" "b < fs_count s" "fe_address (fs_heap s a) = fe_address (fs_heap s b)"
  shows "a = b"
  using fs_addresses(1) [OF assms(1,2)] fs_addresses(1) [OF assms(1,3)] unfolding assms(4) by linarith

lemma reuse_inv:
  assumes inv: "fs_inv s" and r: "r < fs_count s" and d: "fs_domainToIP s d = None"
    and f: "\<And>e. fe_domain (f e) = d \<and> fe_address (f e) = fe_address e"
  shows "fs_inv (touch r f s\<lparr>fs_domainToIP := ((fs_domainToIP s)(fe_domain (fs_heap s r) := None))(d \<mapsto> r)\<rparr>)" (is "fs_inv ?s")
proof -
  note I = fs_invD [OF inv]
  have uniq: "x = r" if "x < fs_count s" "fe_domain (fs_heap s x) = fe_domain (fs_heap s r)" for x
    using I(9) that r by (metis option.inject)
  have nd: "fe_domain (fs_heap s x) \<noteq> d" if "x < fs_count s" for x using I(9) d that by (metis option.distinct(1))
  have "fs_domainToIP ?s e = Some x \<longleftrightarrow> x < fs_count s \<and> e = fe_domain (fs_heap ?s x)" for e x
    using I(9) [of e x] uniq nd r f by (auto simp: touch_def split: if_splits)
  then show ?thesis using I(1-8) f unfolding fs_inv_def by (simp add: touch_def fs_base_def)
qed

lemma oldestReusable_Some:
  assumes "ranges ord" "fs_inv s" "oldestReusable ord now s = Some r"
  shows "r < fs_count s \<and> fe_lastUsed (fs_heap s r) \<le> now - fakeIPReuseAfter
     \<and> (\<forall>q < fs_count s. fe_lastUsed (fs_heap s r) \<le> fe_lastUsed (fs_heap s q))"
proof -
  let ?ok = "\<lambda>d. \<not> fe_lastUsed (entry_of s d) > now - fakeIPReuseAfter" and ?w = "\<lambda>d. fe_lastUsed (entry_of s d)"
  obtain d where d: "foldl (argmin_step ?ok ?w) None (ord (fs_domainToIP s)) = Some d" "fs_domainToIP s d = Some r"
    using assms(3) unfolding oldestReusable_def bind_eq_Some_conv by blast
  have r: "r < fs_count s" using fs_invD(9) [OF assms(2)] d(2) by blast
  have e: "entry_of s d = fs_heap s r" using d(2) by (simp add: entry_of_def)
  have "fe_lastUsed (fs_heap s r) \<le> fe_lastUsed (fs_heap s q)" if "q < fs_count s" for q
  proof -
    let ?d = "fe_domain (fs_heap s q)"
    have q: "fs_domainToIP s ?d = Some q" using fs_invD(9) [OF assms(2)] that by blast
    then have "?d \<in> set (ord (fs_domainToIP s))" using rangesD [OF assms(1) fs_invD(1) [OF assms(2)]] by auto
    moreover have "entry_of s ?d = fs_heap s q" using q by (simp add: entry_of_def)
    ultimately show ?thesis using argmin_Some [OF d(1)] e by (cases "?ok ?d") force+
  qed
  then show ?thesis using argmin_Some [OF d(1)] r e by auto
qed

lemma oldestReusable_None:
  assumes "ranges ord" "fs_inv s" "oldestReusable ord now s = None" "q < fs_count s"
  shows "now - fakeIPReuseAfter < fe_lastUsed (fs_heap s q)"
proof -
  let ?ok = "\<lambda>d. \<not> fe_lastUsed (entry_of s d) > now - fakeIPReuseAfter" and ?w = "\<lambda>d. fe_lastUsed (entry_of s d)"
  let ?d = "fe_domain (fs_heap s q)"
  have dom: "set (ord (fs_domainToIP s)) = dom (fs_domainToIP s)"
    using rangesD [OF assms(1) fs_invD(1) [OF assms(2)]] by blast
  have "foldl (argmin_step ?ok ?w) None (ord (fs_domainToIP s)) = None"
  proof (rule ccontr)
    assume "foldl (argmin_step ?ok ?w) None (ord (fs_domainToIP s)) \<noteq> None"
    then obtain d where "foldl (argmin_step ?ok ?w) None (ord (fs_domainToIP s)) = Some d" by blast
    moreover from argmin_Some [OF this] obtain r where "fs_domainToIP s d = Some r" using dom by blast
    ultimately show False using assms(3) by (simp add: oldestReusable_def)
  qed
  then have "\<forall>d \<in> dom (fs_domainToIP s). \<not> ?ok d" unfolding argmin_None dom .
  moreover have "fs_domainToIP s ?d = Some q" using fs_invD(9) [OF assms(2)] assms(4) by blast
  ultimately show ?thesis by (force simp: entry_of_def)
qed

lemma fresh_inv:
  assumes inv: "fs_inv s" and le: "\<not> fs_next s > fs_last s" and d: "fs_domainToIP s d = None"
  shows "fs_inv (s\<lparr>fs_next := fs_next s + 1, fs_domainToIP := (fs_domainToIP s)(d \<mapsto> fs_count s),
      fs_ipToDomain := (fs_ipToDomain s)(uint32ToAddr (fs_next s) \<mapsto> fs_count s),
      fs_heap := (fs_heap s)(fs_count s := \<lparr>fe_domain = d, fe_address = uint32ToAddr (fs_next s),
        fe_resolved = res, fe_lastUsed = now\<rparr>), fs_count := Suc (fs_count s)\<rparr>)" (is "fs_inv ?s")
proof -
  note I = fs_invD [OF inv]
  have le': "unat (fs_next s) \<le> unat (fs_last s)" using le by (simp add: word_less_nat_alt)
  have lt: "unat (fs_last s) + 1 < 2 ^ 32" using I(3,4) four_le [OF I(5)] by linarith
  have nx: "unat (fs_next s + 1) = unat (fs_next s) + 1"
    using le' lt by (simp add: unat_word_ariths)
  have addr: "uint32ToAddr (fs_next s) = uint32ToAddr (word_of_nat (fs_base s + 2 + fs_count s))"
    unfolding I(2) [symmetric] by simp
  have new: "fe_address (fs_heap s r) \<noteq> uint32ToAddr (fs_next s)" if "r < fs_count s" for r
    using fs_addresses(1) [OF inv that] that I(2) ip4_val_uint32 [of "fs_next s"] by force
  have nd: "fe_domain (fs_heap s x) \<noteq> d" if "x < fs_count s" for x using I(9) d that by (metis option.distinct(1))
  have "fs_ipToDomain ?s a = Some r \<longleftrightarrow> r < fs_count ?s \<and> a = fe_address (fs_heap ?s r)" for a r
    using I(8) [of a r] new [of r] by (auto simp: less_Suc_eq)
  moreover have "fs_domainToIP ?s e = Some r \<longleftrightarrow> r < fs_count ?s \<and> e = fe_domain (fs_heap ?s r)" for e r
    using I(9) [of e r] nd [of r] by (auto simp: less_Suc_eq)
  moreover have "\<forall>r < fs_count ?s. fe_address (fs_heap ?s r) = uint32ToAddr (word_of_nat (fs_base s + 2 + r))"
    using I(7) addr by (simp add: less_Suc_eq)
  ultimately show ?thesis using I(1-6) le' nx unfolding fs_inv_def by (simp add: fs_base_def)
qed

text \<open>The outcomes of \<open>assign\<close>: the address of an entry that now has the domain, or exhaustion.\<close>

lemma assign_cases:
  assumes ord: "ranges ord" and inv: "fs_inv s"
  shows "fs_inv (snd (assign ord now d res s))
    \<and> (\<forall>a. fst (assign ord now d res s) = Inr a \<longrightarrow>
          (\<exists>r. fs_ipToDomain (snd (assign ord now d res s)) a = Some r
             \<and> fe_domain (fs_heap (snd (assign ord now d res s)) r) = normalizeDomain d
             \<and> fe_resolved (fs_heap (snd (assign ord now d res s)) r) = res
             \<and> fe_lastUsed (fs_heap (snd (assign ord now d res s)) r) = now))
    \<and> (\<forall>e. fst (assign ord now d res s) = Inl e \<longrightarrow> snd (assign ord now d res s) = s
          \<and> fs_next s > fs_last s \<and> (\<forall>r < fs_count s. now - fakeIPReuseAfter < fe_lastUsed (fs_heap s r)))
    \<and> fs_prefix (snd (assign ord now d res s)) = fs_prefix s"
proof -
  note I = fs_invD [OF inv]
  let ?d = "normalizeDomain d"
  show ?thesis
  proof (cases "fs_domainToIP s ?d")
    case (Some r)
    then have "r < fs_count s" "?d = fe_domain (fs_heap s r)" using I(9) by blast+
    then have "fs_ipToDomain s (fe_address (fs_heap s r)) = Some r" using I(8) by blast
    moreover have "fs_inv (touch r (\<lambda>e. e\<lparr>fe_resolved := res, fe_lastUsed := now\<rparr>) s)" using inv by (rule touch_entry_inv) simp
    ultimately show ?thesis using Some \<open>?d = fe_domain (fs_heap s r)\<close> by (simp add: assign_def touch_def Let_def)
  next
    case None
    show ?thesis
    proof (cases "fs_next s > fs_last s")
      case True
      show ?thesis
      proof (cases "oldestReusable ord now s")
        case (Some r)
        have r: "r < fs_count s" using oldestReusable_Some [OF ord inv Some] by blast
        then have "fs_ipToDomain s (fe_address (fs_heap s r)) = Some r" using I(8) by blast
        with reuse_inv [OF inv r None, of "\<lambda>e. e\<lparr>fe_domain := ?d, fe_resolved := res, fe_lastUsed := now\<rparr>"]
        show ?thesis using Some None True by (simp add: assign_def touch_def Let_def)
      next
        case no: None
        then show ?thesis using oldestReusable_None [OF ord inv no] None True inv by (simp add: assign_def Let_def)
      qed
    next
      case False
      from fresh_inv [OF inv this None, of res now] show ?thesis using None False by (simp add: assign_def Let_def)
    qed
  qed
qed

datatype fs_op = OpAssign int string | OpAssignResolved int string ip | OpLookup int ip

definition fs_step :: "((string \<rightharpoonup> nat) \<Rightarrow> string list) \<Rightarrow> fakeIPStore \<Rightarrow> fs_op \<Rightarrow> fakeIPStore" where
  "fs_step ord s x = (case x of
      OpAssign now d \<Rightarrow> snd (Assign ord now d s)
    | OpAssignResolved now d res \<Rightarrow> snd (AssignResolved ord now d res s)
    | OpLookup now a \<Rightarrow> snd (LookupDestination now a s))"

lemma lookup_inv: "fs_inv s \<Longrightarrow> fs_inv (snd (LookupDestination now a s))"
  by (auto simp: LookupDestination_def intro: touch_entry_inv split: option.split)

lemma fs_step_inv: "ranges ord \<Longrightarrow> fs_inv s \<Longrightarrow> fs_inv (fs_step ord s x)"
  using assign_cases [of ord s] lookup_inv [of s]
  by (auto simp: fs_step_def Assign_def AssignResolved_def Let_def split: fs_op.split)

text \<open>The interface the DNS side relies on: a book of names that hands out addresses.\<close>

locale name_book =
  fixes enter :: "'s \<Rightarrow> string \<Rightarrow> ip result \<times> 's"
    and name_of :: "'s \<Rightarrow> ip \<Rightarrow> string option"
    and good :: "'s \<Rightarrow> bool"
  assumes enter_good: "good s \<Longrightarrow> good (snd (enter s d))"
    and enter_name: "good s \<Longrightarrow> enter s d = (Inr a, s') \<Longrightarrow> name_of s' a = Some (normalizeDomain d)"
begin

lemma enters_good: "good s \<Longrightarrow> good (foldl (\<lambda>s d. snd (enter s d)) s ds)"
  by (induction ds arbitrary: s) (auto intro: enter_good)

lemma last_entered:
  assumes "good s" "enter (foldl (\<lambda>s d. snd (enter s d)) s ds) d = (Inr a, s')"
  shows "name_of s' a = Some (normalizeDomain d)"
  using enters_good [OF assms(1)] assms(2) by (rule enter_name)

end

lemma lookup_entry:
  assumes "fs_inv s" "fs_ipToDomain s a = Some r"
  shows "a \<noteq> [] \<and> Unmap a = a"
proof -
  have r: "r < fs_count s" and a: "a = fe_address (fs_heap s r)" using fs_invD(8) [OF assms(1), of a r] assms(2) by simp_all
  have "length a = 4" unfolding a fs_invD(7) [OF assms(1) r] by simp
  then show ?thesis by auto
qed

lemma assign_lookup:
  assumes "ranges ord" "fs_inv s" "assign ord now d res s = (Inr a, s')"
  shows "fst (LookupDestination later a s') = Some (normalizeDomain d, res)"
proof -
  obtain r where r: "fs_ipToDomain s' a = Some r" "fe_domain (fs_heap s' r) = normalizeDomain d"
    "fe_resolved (fs_heap s' r) = res"
    using assign_cases [OF assms(1,2), of now d res] assms(3) by auto
  have "fs_inv s'" using assign_cases [OF assms(1,2), of now d res] assms(3) by simp
  then show ?thesis using lookup_entry [OF _ r(1)] r by (simp add: LookupDestination_def)
qed

interpretation fake: name_book "\<lambda>s d. Assign ord now d s" "\<lambda>s a. Lookup later a s" "\<lambda>s. ranges ord \<and> fs_inv s"
proof unfold_locales
  fix s d assume "ranges ord \<and> fs_inv s"
  then show "ranges ord \<and> fs_inv (snd (Assign ord now d s))" using assign_cases [of ord s] by (simp add: Assign_def)
next
  fix s d a s' assume "ranges ord \<and> fs_inv s" "Assign ord now d s = (Inr a, s')"
  then show "Lookup later a s' = Some (normalizeDomain d)"
    using assign_lookup [of ord s now d "[]" a s' later] by (simp add: Assign_def Lookup_def)
qed

interpretation fs: step_system "\<lambda>s. ranges ord \<and> newFakeIPStore txt = Inr s" "fs_step ord" "\<lambda>s. ranges ord \<and> fs_inv s"
  using newFakeIPStore_inv fs_step_inv by unfold_locales auto

section \<open>Theorems\<close>

text \<open>C17. The fake-IP store is a bijection between live domains and addresses of its range: whatever
  sequence of assignments and lookups it serves, every address it holds lies strictly inside the
  configured prefix (never the network, the gateway or the broadcast address), each address belongs
  to exactly one domain and each domain to exactly one address.\<close>

theorem fake_ip_bijection:
  assumes "newFakeIPStore txt = Inr s0" "ranges ord"
  shows "let s = foldl (fs_step ord) s0 ops; base = fs_base s0; size = 2 ^ (32 - snd (fs_prefix s0)) in
      fs_inv s
    \<and> (\<forall>d r. fs_domainToIP s d = Some r \<longleftrightarrow> (r < fs_count s \<and> fe_domain (fs_heap s r) = d))
    \<and> (\<forall>a r. fs_ipToDomain s a = Some r \<longrightarrow>
          base + 2 \<le> ip4_val a \<and> ip4_val a \<le> base + size - 2 \<and> fe_address (fs_heap s r) = a
          \<and> fs_domainToIP s (fe_domain (fs_heap s r)) = Some r)
    \<and> inj_on (\<lambda>r. fe_address (fs_heap s r)) {..<fs_count s}"
proof -
  let ?s = "foldl (fs_step ord) s0 ops"
  have p: "fs_prefix (fs_step ord s x) = fs_prefix s" if "fs_inv s" for s x
    using assign_cases [OF assms(2) that]
    by (auto simp: fs_step_def Assign_def AssignResolved_def LookupDestination_def touch_def Let_def
        split: fs_op.split option.split)
  have "fs_inv ?s \<and> fs_prefix ?s = fs_prefix s0"
    by (rule foldl_inv [where P = "\<lambda>s. fs_inv s \<and> fs_prefix s = fs_prefix s0"])
      (use newFakeIPStore_inv [OF assms(1)] fs_step_inv [OF assms(2)] p in auto)
  then have inv: "fs_inv ?s" and base: "fs_base ?s = fs_base s0" and pre: "fs_prefix ?s = fs_prefix s0"
    by (simp_all add: fs_base_def)
  note I = fs_invD [OF inv]
  have range: "fs_base s0 + 2 \<le> ip4_val a \<and> ip4_val a \<le> fs_base s0 + 2 ^ (32 - snd (fs_prefix s0)) - 2
      \<and> fe_address (fs_heap ?s r) = a \<and> fs_domainToIP ?s (fe_domain (fs_heap ?s r)) = Some r"
    if "fs_ipToDomain ?s a = Some r" for a r
  proof -
    have r: "r < fs_count ?s" and a: "a = fe_address (fs_heap ?s r)" using I(8) [of a r] that by simp_all
    show ?thesis using fs_addresses [OF inv r] I(9) [of "fe_domain (fs_heap ?s r)" r] r a base pre by simp
  qed
  have inj: "inj_on (\<lambda>r. fe_address (fs_heap ?s r)) {..<fs_count ?s}"
    using heap_inj [OF inv] by (auto intro: inj_onI)
  have dom: "\<forall>d r. fs_domainToIP ?s d = Some r \<longleftrightarrow> (r < fs_count ?s \<and> fe_domain (fs_heap ?s r) = d)"
    using I(9) by auto
  show ?thesis unfolding Let_def by (intro conjI inv inj dom allI impI range)
qed

definition demo_store :: fakeIPStore where
  "demo_store = \<lparr> fs_prefix = ([10, 0, 0, 0], 29), fs_domainToIP = Map.empty, fs_ipToDomain = Map.empty, fs_next = 0xA000002,
     fs_last = 0xA000006, fs_heap = (\<lambda>_. no_entry), fs_count = 0 \<rparr>"

lemma demo_store_new: "newFakeIPStore ''10.0.0.0/29'' = Inr demo_store"
proof -
  have p: "ParsePrefix ''10.0.0.0/29'' = Some ([10, 0, 0, 0], 29)" by code_simp
  have up: "[0..<4] = [0, 1, 2, 3 :: nat]" by (simp add: upt_rec)
  have m: "Masked ([10, 0, 0, 0], 29) = ([10, 0, 0, 0], 29)" by (simp add: Masked_def mask_ip_def CIDRMask_def up)
  have b: "addrToUint32 [10, 0, 0, 0] = 0xA000000" by (simp add: addrToUint32_def ip4_val_alt)
  show ?thesis by (simp add: newFakeIPStore_def p m b demo_store_def)
qed

theorem fake_ip_bijection_witness:
  "inj_on (\<lambda>r. fe_address (fs_heap (foldl (fs_step by_key) demo_store [OpAssign 0 ''a'', OpAssign 1 ''b'', OpLookup 2 [10, 0, 0, 2]]) r))
     {..<fs_count (foldl (fs_step by_key) demo_store [OpAssign 0 ''a'', OpAssign 1 ''b'', OpLookup 2 [10, 0, 0, 2]])}"
  using fake_ip_bijection [OF demo_store_new ranges_by_key, of "[OpAssign 0 ''a'', OpAssign 1 ''b'', OpLookup 2 [10, 0, 0, 2]]"]
  unfolding Let_def by blast

text \<open>Round trip through the store: after a domain was given an address, a lookup of that address
  answers the normalised domain and the resolved destination it was assigned with.\<close>

theorem fake_ip_roundtrip:
  assumes "ranges ord" "fs_inv s" "AssignResolved ord now domain resolved s = (Inr a, s')"
  shows "fst (LookupDestination later a s') = Some (normalizeDomain domain, Unmap resolved)"
  using assign_lookup [OF assms(1,2)] assms(3) by (auto simp: AssignResolved_def Let_def split: if_splits)

theorem fake_ip_roundtrip_witness:
  "\<exists>a s'. AssignResolved by_key 0 ''WWW.Zju.Edu.Cn.'' [10, 1, 2, 3] demo_store = (Inr a, s')
     \<and> fst (LookupDestination 5 a s') = Some (''www.zju.edu.cn'', [10, 1, 2, 3])"
proof -
  have inv: "fs_inv demo_store" using newFakeIPStore_inv [OF demo_store_new] by simp
  have n: "normalizeDomain ''WWW.Zju.Edu.Cn.'' = ''www.zju.edu.cn''" by code_simp
  obtain a s' where a: "AssignResolved by_key 0 ''WWW.Zju.Edu.Cn.'' [10, 1, 2, 3] demo_store = (Inr a, s')"
    by (simp add: AssignResolved_def assign_def demo_store_def Let_def)
  from fake_ip_roundtrip [OF ranges_by_key inv a, of 5] a n show ?thesis by auto
qed

text \<open>The store refuses a new domain only when its range is used up and every entry was used
  within the last thirty minutes; when it reuses an entry, that entry was idle for thirty minutes
  and is the least recently used one.\<close>

theorem fake_ip_exhaustion:
  assumes "ranges ord" "fs_inv s" "fs_domainToIP s (normalizeDomain d) = None"
  shows "(\<forall>e. fst (Assign ord now d s) = Inl e \<longrightarrow>
            fs_last s < fs_next s \<and> (\<forall>r < fs_count s. now - fe_lastUsed (fs_heap s r) < 30 * 60 * 1000000000))
       \<and> (\<forall>a. fst (Assign ord now d s) = Inr a \<longrightarrow> fs_last s < fs_next s \<longrightarrow>
            (\<exists>r < fs_count s. a = fe_address (fs_heap s r) \<and> 30 * 60 * 1000000000 \<le> now - fe_lastUsed (fs_heap s r)
               \<and> (\<forall>q < fs_count s. fe_lastUsed (fs_heap s r) \<le> fe_lastUsed (fs_heap s q))))"
proof (intro conjI allI impI)
  fix e assume "fst (Assign ord now d s) = Inl e"
  then have "fs_last s < fs_next s \<and> (\<forall>r < fs_count s. now - fakeIPReuseAfter < fe_lastUsed (fs_heap s r))"
    using assign_cases [OF assms(1,2), of now d "[]"] by (simp add: Assign_def)
  then show "fs_last s < fs_next s" "r < fs_count s \<Longrightarrow> now - fe_lastUsed (fs_heap s r) < 30 * 60 * 1000000000" for r
    by (auto simp: fakeIPReuseAfter_def)
next
  fix a assume a: "fst (Assign ord now d s) = Inr a" and full: "fs_last s < fs_next s"
  obtain r where r: "oldestReusable ord now s = Some r" "a = fe_address (fs_heap s r)"
    using a full assms(3) by (auto simp: Assign_def assign_def Let_def split: option.splits)
  show "\<exists>r < fs_count s. a = fe_address (fs_heap s r) \<and> 30 * 60 * 1000000000 \<le> now - fe_lastUsed (fs_heap s r)
      \<and> (\<forall>q < fs_count s. fe_lastUsed (fs_heap s r) \<le> fe_lastUsed (fs_heap s q))"
    using oldestReusable_Some [OF assms(1,2) r(1)] r(2) by (intro exI [of _ r]) (auto simp: fakeIPReuseAfter_def)
qed

theorem fake_ip_exhaustion_witness:
  "\<forall>e. fst (Assign by_key 7 ''a'' demo_store) \<noteq> Inl e"
proof -
  have inv: "fs_inv demo_store" using newFakeIPStore_inv [OF demo_store_new] by simp
  have "fs_domainToIP demo_store (normalizeDomain ''a'') = None" by (simp add: demo_store_def)
  from fake_ip_exhaustion [OF ranges_by_key inv this, of 7] show ?thesis by (auto simp: demo_store_def)
qed

end
