(* ===== verification/Resolver.thy ===== *)
theory Resolver
  imports FakeIP Resources
begin

text \<open>
  Name resolution: the resolver of \<^verbatim>\<open>src/resolve\<close>, the DNS message handler of
  \<^verbatim>\<open>src/internal/dnsmessage\<close> and the fake-IP resolver of \<^verbatim>\<open>src/internal/networkruntime/tun_dns.go\<close>.
  The library lookups and the cache of the go-cache package are parameters: \<open>get\<close> reads a cache,
  \<open>set\<close> adds an entry with the default expiration, \<open>set_forever\<close> one that does not expire.
\<close>

section \<open>The resolver\<close>

definition normalizeDNSName :: "string \<Rightarrow> string" where
  "normalizeDNSName host = TrimSuffix (ToLower (TrimSpace host)) ''.''"

record 'c cache_ops =
  co_get :: "'c \<Rightarrow> string \<Rightarrow> ip option"
  co_set :: "'c \<Rightarrow> string \<Rightarrow> ip \<Rightarrow> 'c"
  co_set_forever :: "'c \<Rightarrow> string \<Rightarrow> ip \<Rightarrow> 'c"

text \<open>What the sources rely on: an entry just set is read back and other entries are not affected.\<close>

definition cache_laws :: "'c cache_ops \<Rightarrow> bool" where
  "cache_laws ops \<longleftrightarrow>
     (\<forall>c k v. co_get ops (co_set_forever ops c k v) k = Some v) \<and> (\<forall>c k v. co_get ops (co_set ops c k v) k = Some v)
   \<and> (\<forall>c k v j. j \<noteq> k \<longrightarrow> co_get ops (co_set_forever ops c k v) j = co_get ops c j)
   \<and> (\<forall>c k v j. j \<noteq> k \<longrightarrow> co_get ops (co_set ops c k v) j = co_get ops c j)"

record 'c Resolver =
  rv_domainResources :: "string \<rightharpoonup> DomainResource"
  rv_dnsResource :: "string \<rightharpoonup> ip"
  rv_permanentDNS :: "string \<rightharpoonup> ip"
  rv_useRemoteDNS :: bool
  rv_dnsCache :: 'c
  rv_useTCP :: bool
  rv_timer :: "int option"

text \<open>The lookups: remote over UDP and TCP, secondary for IPv4 and IPv6.\<close>

record lookups =
  lk_udp :: "string \<Rightarrow> ip list result"
  lk_tcp :: "string \<Rightarrow> ip list result"
  lk_sec4 :: "string \<Rightarrow> ip list result"
  lk_sec6 :: "string \<Rightarrow> ip list result"

definition getDNSCache :: "'c cache_ops \<Rightarrow> 'c Resolver \<Rightarrow> string \<Rightarrow> ip option" where
  "getDNSCache ops r host = co_get ops (rv_dnsCache r) (normalizeDNSName host)"

definition setDNSCache :: "'c cache_ops \<Rightarrow> 'c Resolver \<Rightarrow> string \<Rightarrow> ip \<Rightarrow> 'c Resolver" where
  "setDNSCache ops r host a = r\<lparr>rv_dnsCache := co_set ops (rv_dnsCache r) (normalizeDNSName host) a\<rparr>"

definition SetPermanentDNS :: "'c cache_ops \<Rightarrow> string \<Rightarrow> ip \<Rightarrow> 'c Resolver \<Rightarrow> gerror option \<times> 'c Resolver" where
  "SetPermanentDNS ops host0 a r =
     (let host = normalizeDNSName host0 in
      if host = [] then (Some (Opaque ''static DNS host is empty''), r)
      else if a = [] then (Some (Opaque (''static DNS address for '' @ quote host @ '' is invalid'')), r)
      else (None, r\<lparr>rv_permanentDNS := (rv_permanentDNS r)(host \<mapsto> a),
                    rv_dnsCache := co_set_forever ops (rv_dnsCache r) host a\<rparr>))"

definition ResolveStatic :: "'c Resolver \<Rightarrow> string \<Rightarrow> ip option" where
  "ResolveStatic r host0 =
     (let host = normalizeDNSName host0 in
      case rv_permanentDNS r host of Some a \<Rightarrow> Some a | None \<Rightarrow> rv_dnsResource r host)"

definition normalizeDNSRecords :: "((string \<rightharpoonup> ip) \<Rightarrow> string list) \<Rightarrow> (string \<rightharpoonup> ip) \<Rightarrow> (string \<rightharpoonup> ip)" where
  "normalizeDNSRecords ord records =
     foldl (\<lambda>m host. case records host of None \<Rightarrow> m | Some a \<Rightarrow> m(normalizeDNSName host \<mapsto> a)) Map.empty (ord records)"

definition matchDomainResource :: "((string \<rightharpoonup> DomainResource) \<Rightarrow> string list) \<Rightarrow> 'c Resolver \<Rightarrow> string \<Rightarrow> DomainResource option" where
  "matchDomainResource ord r host =
     Option.bind (find (\<lambda>d. HasSuffix host d) (ord (rv_domainResources r))) (rv_domainResources r)"

definition IsVPNDomain :: "((string \<rightharpoonup> DomainResource) \<Rightarrow> string list) \<Rightarrow> 'c Resolver \<Rightarrow> string \<Rightarrow> bool" where
  "IsVPNDomain ord r host = (matchDomainResource ord r (normalizeDNSName host) \<noteq> None)"

text \<open>\<^verbatim>\<open>LookupIP\<close> never answers an empty list without an error, which the code relies on by taking
  the first element; the model answers an error then.\<close>

definition first_address :: "ip list \<Rightarrow> ip result" where
  "first_address targets = (case targets of [] \<Rightarrow> Inl (Opaque ''index out of range'') | a # _ \<Rightarrow> Inr a)"

definition ResolveWithSecondaryDNS ::
  "'c cache_ops \<Rightarrow> lookups \<Rightarrow> string \<Rightarrow> 'c Resolver \<Rightarrow> ip result \<times> 'c Resolver" where
  "ResolveWithSecondaryDNS ops lk host r =
     (case (case lk_sec4 lk host of Inr ts \<Rightarrow> Inr ts | Inl _ \<Rightarrow> lk_sec6 lk host) of
        Inl e \<Rightarrow> (Inl e, r)
      | Inr ts \<Rightarrow> (case first_address ts of Inl e \<Rightarrow> (Inl e, r) | Inr a \<Rightarrow> (Inr a, setDNSCache ops r host a)))"

definition cacheRemoteResult :: "'c cache_ops \<Rightarrow> string \<Rightarrow> ip list \<Rightarrow> 'c Resolver \<Rightarrow> ip result \<times> 'c Resolver" where
  "cacheRemoteResult ops host addresses r =
     (case addresses of
        [] \<Rightarrow> (Inl (Opaque ''remote DNS returned no IPv4 addresses''), r)
      | a # _ \<Rightarrow> (Inr a, setDNSCache ops r host a))"

definition resolveRemote ::
  "'c cache_ops \<Rightarrow> lookups \<Rightarrow> int \<Rightarrow> string \<Rightarrow> 'c Resolver \<Rightarrow> ip result \<times> 'c Resolver" where
  "resolveRemote ops lk now host r =
     (if rv_useTCP r then
        (case lk_tcp lk host of
           Inl _ \<Rightarrow> ResolveWithSecondaryDNS ops lk host r
         | Inr ips \<Rightarrow> cacheRemoteResult ops host ips r)
      else
        (case lk_udp lk host of
           Inr ips \<Rightarrow> cacheRemoteResult ops host ips r
         | Inl _ \<Rightarrow>
             (case lk_tcp lk host of
                Inl _ \<Rightarrow> ResolveWithSecondaryDNS ops lk host r
              | Inr ips \<Rightarrow>
                  cacheRemoteResult ops host ips
                    (r\<lparr>rv_useTCP := True,
                       rv_timer := (case rv_timer r of None \<Rightarrow> Some (now + 10 * 60 * 1000000000) | Some t \<Rightarrow> Some t)\<rparr>))))"

text \<open>The callback of the timer.\<close>

definition tcp_timer_fires :: "'c Resolver \<Rightarrow> 'c Resolver" where
  "tcp_timer_fires r = r\<lparr>rv_useTCP := False, rv_timer := None\<rparr>"

definition Close :: "'c Resolver \<Rightarrow> 'c Resolver" where
  "Close r = r\<lparr>rv_timer := None\<rparr>"

text \<open>The values a resolved context carries: the matched domain resource and the resolved host.\<close>

record resolve_ctx =
  rc_domainResource :: "DomainResource option"
  rc_resolveHost :: "string option"

text \<open>
  \<^verbatim>\<open>Resolve\<close>. \<open>shared\<close> are the results of flights led by other callers that this call joins before
  it leads one itself: a cancelled one is joined again, any other is the answer.
\<close>

definition cancelled :: "gerror \<Rightarrow> bool" where
  "cancelled e \<longleftrightarrow> errors_Is e ContextCanceled \<or> errors_Is e ContextDeadlineExceeded"

fun join_flights :: "ip result list \<Rightarrow> ip result option" where
  "join_flights [] = None"
| "join_flights (Inl e # fs) = (if cancelled e then join_flights fs else Some (Inl e))"
| "join_flights (Inr a # fs) = Some (Inr a)"

definition Resolve ::
  "((string \<rightharpoonup> DomainResource) \<Rightarrow> string list) \<Rightarrow> 'c cache_ops \<Rightarrow> lookups \<Rightarrow> int \<Rightarrow> ip result list \<Rightarrow>
   string \<Rightarrow> 'c Resolver \<Rightarrow> (resolve_ctx \<times> ip result) \<times> 'c Resolver" where
  "Resolve ord ops lk now shared host0 r =
     (let host = normalizeDNSName host0;
          ctx = \<lparr> rc_domainResource = matchDomainResource ord r host, rc_resolveHost = None \<rparr>;
          done = (\<lambda>(res, r'). ((case res of Inr _ \<Rightarrow> ctx\<lparr>rc_resolveHost := Some host\<rparr> | Inl _ \<Rightarrow> ctx, res), r'))
      in case getDNSCache ops r host of
           Some a \<Rightarrow> done (Inr a, r)
         | None \<Rightarrow>
             (case rv_dnsResource r host of
                Some a \<Rightarrow> done (Inr a, r)
              | None \<Rightarrow>
                  if rv_useRemoteDNS r then
                    (case join_flights shared of
                       Some res \<Rightarrow> done (res, r)
                     | None \<Rightarrow> done (resolveRemote ops lk now host r))
                  else done (ResolveWithSecondaryDNS ops lk host r)))"

section \<open>The DNS message handler\<close>

definition DefaultTTL :: nat where "DefaultTTL = 60"

datatype rcode = RcodeSuccess | RcodeServerFailure | RcodeNameError | RcodeNotImplemented

record question =
  q_name :: string
  q_type :: nat
  q_class :: nat

definition TypeA :: nat where "TypeA = 1"
definition TypeAAAA :: nat where "TypeAAAA = 28"
definition ClassINET :: nat where "ClassINET = 1"

record answer =
  an_name :: string
  an_type :: nat
  an_ttl :: nat
  an_addr :: ip

definition NormalizeDomain :: "string \<Rightarrow> string" where
  "NormalizeDomain domain = TrimSuffix (ToLower (TrimSpace domain)) ''.''"

text \<open>\<^verbatim>\<open>netip.AddrFromSlice\<close>: only slices of 4 or 16 bytes.\<close>

definition AddrFromSlice :: "ip \<Rightarrow> ip option" where
  "AddrFromSlice a = (if length a = 4 \<or> length a = 16 then Some a else None)"

text \<open>
  The handler's resolver: static records if it has any, and resolution, which may change the state
  \<open>'s\<close> behind it; likewise the fake-IP function.
\<close>

record 's Handler =
  h_static :: "(string \<Rightarrow> ip option) option"
  h_resolve :: "(string \<Rightarrow> 's \<Rightarrow> ip result \<times> 's) option"
  h_fakeIPv4 :: "(string \<Rightarrow> 's \<Rightarrow> ip result \<times> 's) option"
  h_TTL :: nat

definition ttl :: "'s Handler \<Rightarrow> nat" where
  "ttl h = (if h_TTL h = 0 then DefaultTTL else h_TTL h)"

fun errors_As_dns :: "gerror \<Rightarrow> bool option" where
  "errors_As_dns (DNSError notFound _) = Some notFound"
| "errors_As_dns (Wrap _ e) = errors_As_dns e"
| "errors_As_dns (Joined es) = first_some errors_As_dns es"
| "errors_As_dns (CoreErr _ _ _ _ c) = (case c of None \<Rightarrow> None | Some e \<Rightarrow> errors_As_dns e)"
| "errors_As_dns _ = None"

definition errorRCode :: "gerror \<Rightarrow> rcode" where
  "errorRCode err = (if errors_As_dns err = Some True then RcodeNameError else RcodeServerFailure)"

definition resolveStatic :: "'s Handler \<Rightarrow> string \<Rightarrow> ip option" where
  "resolveStatic h domain = (case h_static h of None \<Rightarrow> None | Some f \<Rightarrow> Option.bind (f domain) AddrFromSlice)"

definition handler_resolve :: "'s Handler \<Rightarrow> string \<Rightarrow> 's \<Rightarrow> ip result \<times> 's" where
  "handler_resolve h domain s =
     (case h_resolve h of
        None \<Rightarrow> (Inl (DNSError False (''lookup '' @ domain @ '': resolver unavailable'')), s)
      | Some f \<Rightarrow>
          (case f domain s of
             (Inl e, s') \<Rightarrow> (Inl e, s')
           | (Inr a, s') \<Rightarrow>
               (case AddrFromSlice a of
                  None \<Rightarrow> (Inl (DNSError False (''lookup '' @ domain @ '': invalid address'')), s')
                | Some p \<Rightarrow> (Inr p, s'))))"

text \<open>The address and whether it was found.\<close>

definition resolveIPv4 :: "'s Handler \<Rightarrow> string \<Rightarrow> 's \<Rightarrow> (ip \<times> bool) result \<times> 's" where
  "resolveIPv4 h domain s =
     (case resolveStatic h domain of
        Some a \<Rightarrow> (Inr (Unmap a, length (Unmap a) = 4), s)
      | None \<Rightarrow>
          (case h_fakeIPv4 h of
             Some f \<Rightarrow> (case f domain s of (Inl e, s') \<Rightarrow> (Inl e, s') | (Inr a, s') \<Rightarrow> (Inr (a, True), s'))
           | None \<Rightarrow>
               (case handler_resolve h domain s of
                  (Inl e, s') \<Rightarrow> (Inl e, s')
                | (Inr a, s') \<Rightarrow> (Inr (Unmap a, length (Unmap a) = 4), s'))))"

text \<open>\<^verbatim>\<open>Addr.Is6\<close> holds for IPv4-mapped addresses too: it is that the address has 16 bytes.\<close>

definition resolveIPv6 :: "'s Handler \<Rightarrow> string \<Rightarrow> 's \<Rightarrow> (ip \<times> bool) result \<times> 's" where
  "resolveIPv6 h domain s =
     (case resolveStatic h domain of
        Some a \<Rightarrow> (Inr (a, length a = 16), s)
      | None \<Rightarrow>
          if h_fakeIPv4 h \<noteq> None then (Inr ([], False), s)
          else (case handler_resolve h domain s of
              (Inl e, s') \<Rightarrow> (Inl e, s')
            | (Inr a, s') \<Rightarrow> (Inr (a, length a = 16), s')))"

fun answer_questions :: "'s Handler \<Rightarrow> question list \<Rightarrow> answer list \<Rightarrow> 's \<Rightarrow> (rcode \<times> answer list) \<times> 's" where
  "answer_questions h [] acc s = ((RcodeSuccess, acc), s)"
| "answer_questions h (q # qs) acc s =
     (if q_class q \<noteq> ClassINET then ((RcodeNotImplemented, []), s)
      else if q_type q = TypeA \<or> q_type q = TypeAAAA then
        (case (if q_type q = TypeA then resolveIPv4 else resolveIPv6) h (NormalizeDomain (q_name q)) s of
           (Inl e, s') \<Rightarrow> ((errorRCode e, []), s')
         | (Inr (a, found), s') \<Rightarrow>
             answer_questions h qs
               (if found then acc @ [\<lparr> an_name = q_name q, an_type = q_type q, an_ttl = ttl h, an_addr = a \<rparr>] else acc) s')
      else ((RcodeNotImplemented, []), s))"

definition Handle :: "'s Handler \<Rightarrow> bool \<Rightarrow> question list \<Rightarrow> 's \<Rightarrow> (rcode \<times> answer list) \<times> 's" where
  "Handle h opcode_query questions s =
     (if \<not> opcode_query then ((RcodeNotImplemented, []), s) else answer_questions h questions [] s)"

section \<open>Fake IPs for the TUN inbound\<close>

definition prefix_contains :: "ip \<times> nat \<Rightarrow> ip \<Rightarrow> bool" where
  "prefix_contains p a \<longleftrightarrow> length (fst p) = length a
     \<and> mask_ip a (CIDRMask (snd p) (8 * length a)) = mask_ip (fst p) (CIDRMask (snd p) (8 * length a))"

record 's tunFakeIPResolver =
  tf_resolve :: "string \<Rightarrow> 's \<Rightarrow> ip result \<times> 's"
  tf_matcher :: "(string \<Rightarrow> bool) option"
  tf_controlServerHost :: string
  tf_routeAll :: bool
  tf_routes :: "(ip \<times> nat) list"

definition tun_Resolve ::
  "((string \<rightharpoonup> nat) \<Rightarrow> string list) \<Rightarrow> int \<Rightarrow> 's tunFakeIPResolver \<Rightarrow> string \<Rightarrow> 's \<times> fakeIPStore \<Rightarrow>
   ip result \<times> ('s \<times> fakeIPStore)" where
  "tun_Resolve ord now t host st =
     (case st of (s, fs) \<Rightarrow>
      if tf_controlServerHost t \<noteq> [] \<and> normalizeDomain host = tf_controlServerHost t then
        (case tf_resolve t host s of (x, s') \<Rightarrow> (x, (s', fs)))
      else if (case tf_matcher t of None \<Rightarrow> False | Some f \<Rightarrow> f host) then
        (case Assign ord now host fs of (x, fs') \<Rightarrow> (x, (s, fs')))
      else
        (case tf_resolve t host s of
           (Inl e, s') \<Rightarrow> (Inl e, (s', fs))
         | (Inr address, s') \<Rightarrow>
             (case AddrFromSlice address of
                None \<Rightarrow> (Inr address, (s', fs))
              | Some parsed0 \<Rightarrow>
                  (let parsed = Unmap parsed0 in
                   if list_ex (\<lambda>r. prefix_contains r parsed) (tf_routes t) then
                     (case Assign ord now host fs of (x, fs') \<Rightarrow> (x, (s', fs')))
                   else if tf_routeAll t \<and> length parsed = 4 then
                     (case AssignResolved ord now host parsed fs of (x, fs') \<Rightarrow> (x, (s', fs')))
                   else (Inr address, (s', fs))))))"

text \<open>\<^verbatim>\<open>routeDestination\<close>: the address to dial and the one to display.\<close>

definition routeDestination :: "int \<Rightarrow> fakeIPStore option \<Rightarrow> ip \<Rightarrow> nat \<Rightarrow> (string \<times> string) \<times> fakeIPStore option" where
  "routeDestination now fakeIPs addr port =
     (let plain = JoinHostPort (IP_String addr) (show_nat port) in
      case fakeIPs of
        None \<Rightarrow> ((plain, plain), None)
      | Some fs \<Rightarrow>
          if addr = [] then ((plain, plain), Some fs)
          else (case LookupDestination now addr fs of
              (None, fs') \<Rightarrow> ((plain, plain), Some fs')
            | (Some (domain, resolved), fs') \<Rightarrow>
                (let display = JoinHostPort domain (show_nat port) in
                 ((if resolved \<noteq> [] then JoinHostPort (IP_String resolved) (show_nat port) else display, display), Some fs'))))"

section \<open>Properties of the handler\<close>

definition answers_ok :: "'s Handler \<Rightarrow> question list \<Rightarrow> answer list \<Rightarrow> bool" where
  "answers_ok h qs as \<longleftrightarrow> (\<forall>an \<in> set as. \<exists>q \<in> set qs. an_name an = q_name q \<and> an_type an = q_type q \<and> q_class q = ClassINET
     \<and> an_type an \<in> {TypeA, TypeAAAA} \<and> (an_type an = TypeAAAA \<longrightarrow> length (an_addr an) = 16)
     \<and> (an_type an = TypeA \<and> h_fakeIPv4 h = None \<longrightarrow> length (an_addr an) = 4) \<and> 0 < an_ttl an)"

lemma ttl_pos: "0 < ttl h"
  by (simp add: ttl_def DefaultTTL_def)

lemma resolveIPv4_length:
  "resolveIPv4 h d s = (Inr (a, True), s') \<Longrightarrow> h_fakeIPv4 h = None \<Longrightarrow> length a = 4"
  by (auto simp: resolveIPv4_def split: option.splits prod.splits sum.splits)

lemma resolveIPv6_length: "resolveIPv6 h d s = (Inr (a, True), s') \<Longrightarrow> length a = 16"
  by (auto simp: resolveIPv6_def split: option.splits prod.splits sum.splits if_splits)

lemma errorRCode_not_success [simp]: "errorRCode e \<noteq> RcodeSuccess"
  by (simp add: errorRCode_def)

lemma answer_questions_ok:
  assumes "answer_questions h qs acc s = ((rc, as), s')"
  shows "(rc \<noteq> RcodeSuccess \<longrightarrow> as = []) \<and> (rc = RcodeSuccess \<longrightarrow> (\<exists>new. as = acc @ new \<and> length new \<le> length qs \<and> answers_ok h qs new))"
  using assms
proof (induction qs arbitrary: acc s)
  case Nil
  then show ?case by (simp add: answers_ok_def)
next
  case (Cons q qs)
  let ?f = "if q_type q = TypeA then resolveIPv4 else resolveIPv6"
  show ?case
  proof (cases "q_class q = ClassINET \<and> (q_type q = TypeA \<or> q_type q = TypeAAAA)")
    case False
    then show ?thesis using Cons.prems by (auto split: if_splits)
  next
    case ok: True
    obtain x s1 where f: "?f h (NormalizeDomain (q_name q)) s = (x, s1)" by fastforce
    show ?thesis
    proof (cases x)
      case (Inl e)
      then show ?thesis using Cons.prems ok f by auto
    next
      case (Inr af)
      obtain a found where af: "af = (a, found)" by (cases af)
      let ?an = "\<lparr> an_name = q_name q, an_type = q_type q, an_ttl = ttl h, an_addr = a \<rparr>"
      let ?n = "if found then [?an] else []"
      have rest: "answer_questions h qs (acc @ ?n) s1 = ((rc, as), s')"
        using Cons.prems ok f Inr af by (cases found) auto
      have "length a = 16" if "found" "q_type q = TypeAAAA" 
        using f Inr af that resolveIPv6_length [of h "NormalizeDomain (q_name q)" s a s1] by (simp add: TypeA_def TypeAAAA_def)
      moreover have "length a = 4" if "found" "q_type q = TypeA" "h_fakeIPv4 h = None"
        using f Inr af that resolveIPv4_length [of h "NormalizeDomain (q_name q)" s a s1] by simp
      ultimately have n: "answers_ok h [q] ?n" using ok ttl_pos [of h] by (auto simp: answers_ok_def)
      have wk: "answers_ok h (q # qs) (?n @ new)" if "answers_ok h qs new" for new
        using n that unfolding answers_ok_def by (auto split: if_splits)
      show ?thesis
      proof (cases "rc = RcodeSuccess")
        case True
        then obtain new where new: "as = (acc @ ?n) @ new" "length new \<le> length qs" "answers_ok h qs new"
          using Cons.IH [OF rest] by blast
        then have "as = acc @ (?n @ new)" "length (?n @ new) \<le> length (q # qs)" by (simp_all split: if_splits)
        then show ?thesis using wk [OF new(3)] True by blast
      qed (use Cons.IH [OF rest] in blast)
    qed
  qed
qed

text \<open>A handler that answers from a name book: what it answers, the book knows by name.\<close>

context name_book
begin

lemma handle_fake:
  assumes "good s" "h_static h = None" "h_fakeIPv4 h = Some (\<lambda>d s. enter s d)" "q_type q = TypeA" "q_class q = ClassINET"
    and "Handle h True [q] s = ((RcodeSuccess, as), s')"
  shows "good s' \<and> (\<exists>an. as = [an] \<and> name_of s' (an_addr an) = Some (normalizeDomain (NormalizeDomain (q_name q))))"
proof -
  obtain x s1 where e: "enter s (NormalizeDomain (q_name q)) = (x, s1)" by fastforce
  then show ?thesis
    using assms enter_good [OF assms(1), of "NormalizeDomain (q_name q)"] enter_name [OF assms(1)]
    by (cases x) (auto simp: Handle_def resolveIPv4_def resolveStatic_def)
qed

end

section \<open>Theorems\<close>

text \<open>C18. A DNS response is never mixed: when its code is not success it carries no answers, and
  otherwise every answer belongs to an Internet-class A or AAAA question of the request, with that
  question's name and type, a positive lifetime, 16 address bytes for AAAA and 4 for A (with no
  fake-IP function); there are at most as many answers as questions.\<close>

theorem Handle_wellformed:
  "Handle h query qs s = ((rc, as), s') \<Longrightarrow>
     (rc \<noteq> RcodeSuccess \<longrightarrow> as = []) \<and> answers_ok h qs as \<and> length as \<le> length qs"
proof -
  assume H: "Handle h query qs s = ((rc, as), s')"
  show ?thesis
  proof (cases query)
    case True
    then have "answer_questions h qs [] s = ((rc, as), s')" using H by (simp add: Handle_def)
    from answer_questions_ok [OF this] show ?thesis by (cases "rc = RcodeSuccess") (auto simp: answers_ok_def)
  qed (use H in \<open>auto simp: Handle_def answers_ok_def\<close>)
qed

definition demo_handler :: "unit Handler" where
  "demo_handler = \<lparr> h_static = Some (\<lambda>d. if d = ''host'' then Some (IPv4 10 0 0 1) else None), h_resolve = None,
     h_fakeIPv4 = None, h_TTL = 0 \<rparr>"

definition demo_question :: "nat \<Rightarrow> question" where
  "demo_question t = \<lparr> q_name = ''Host.'', q_type = t, q_class = ClassINET \<rparr>"

lemma demo_domain: "NormalizeDomain ''Host.'' = ''host''"
  by code_simp

theorem Handle_wellformed_witness:
  "\<exists>rc as. Handle demo_handler True [demo_question TypeA] () = ((rc, as), ())
     \<and> answers_ok demo_handler [demo_question TypeA] as \<and> length as \<le> 1"
proof -
  obtain rc as where H: "Handle demo_handler True [demo_question TypeA] () = ((rc, as), ())" by (metis old.unit.exhaust prod.exhaust)
  from Handle_wellformed [OF this] H show ?thesis by simp
qed

text \<open>A static record that is kept in the 16-byte form (as \<^verbatim>\<open>net.ParseIP\<close> returns it) is answered
  to an AAAA question as an IPv4-mapped IPv6 address, although the host has only an IPv4 address.\<close>

theorem aaaa_answers_mapped:
  assumes "h_static h = Some f" "f (NormalizeDomain (q_name q)) = Some (v4_prefix @ a)" "length a = 4"
    and "q_type q = TypeAAAA" "q_class q = ClassINET"
  shows "Handle h True [q] s =
     ((RcodeSuccess, [\<lparr> an_name = q_name q, an_type = TypeAAAA, an_ttl = ttl h, an_addr = v4_prefix @ a \<rparr>]), s)"
  using assms by (simp add: Handle_def resolveIPv6_def resolveStatic_def AddrFromSlice_def TypeA_def TypeAAAA_def)

theorem aaaa_answers_mapped_witness:
  "\<exists>as. Handle demo_handler True [demo_question TypeAAAA] () = ((RcodeSuccess, as), ()) \<and> as \<noteq> []"
  using aaaa_answers_mapped [of demo_handler "\<lambda>d. if d = ''host'' then Some (IPv4 10 0 0 1) else None"
      "demo_question TypeAAAA" "[10, 0, 0, 1]" "()"]
  by (auto simp: demo_handler_def demo_question_def demo_domain IPv4_def)

text \<open>DNS over the fake-IP store round-trips: an A question that the handler answers from the
  store gets one address, under which the store then knows exactly the normalised name that was
  asked for, and the store stays consistent.\<close>

theorem fake_dns_roundtrip:
  assumes "ranges ord" "fs_inv s" "h_static h = None" "h_fakeIPv4 h = Some (\<lambda>d s. Assign ord now d s)"
    and "q_type q = TypeA" "q_class q = ClassINET" "Handle h True [q] s = ((RcodeSuccess, as), s')"
  shows "fs_inv s' \<and> (\<exists>an. as = [an] \<and> Lookup later (an_addr an) s' = Some (normalizeDomain (NormalizeDomain (q_name q))))"
  using fake.handle_fake [OF _ assms(3-)] assms(1,2) by blast

definition fake_handler :: "fakeIPStore Handler" where
  "fake_handler = \<lparr> h_static = None, h_resolve = None, h_fakeIPv4 = Some (\<lambda>d s. Assign by_key 0 d s), h_TTL = 0 \<rparr>"

theorem fake_dns_roundtrip_witness:
  "\<exists>as s'. Handle fake_handler True [demo_question TypeA] demo_store = ((RcodeSuccess, as), s') \<and> fs_inv s'"
proof -
  have inv: "fs_inv demo_store" using newFakeIPStore_inv [OF demo_store_new] by simp
  obtain as s' where H: "Handle fake_handler True [demo_question TypeA] demo_store = ((RcodeSuccess, as), s')"
    by (simp add: Handle_def fake_handler_def demo_question_def resolveIPv4_def resolveStatic_def Assign_def assign_def
        demo_store_def Let_def)
  have "fs_inv s'"
    using fake_dns_roundtrip [OF ranges_by_key inv _ _ _ _ H, of 0] by (simp add: fake_handler_def demo_question_def)
  with H show ?thesis by blast
qed

text \<open>Traffic to a fake address is routed back to the name: when the TUN resolver answers a VPN
  domain, a connection to the answered address is dialled and displayed under the normalised domain
  with the connection's port.\<close>

theorem tun_fake_route:
  assumes "ranges ord" "fs_inv fs" "normalizeDomain host \<noteq> tf_controlServerHost t" "tf_matcher t = Some f" "f host"
    and "tun_Resolve ord now t host (s, fs) = (Inr a, (s', fs'))"
  shows "fst (routeDestination later (Some fs') a port) =
     (JoinHostPort (normalizeDomain host) (show_nat port), JoinHostPort (normalizeDomain host) (show_nat port))"
proof -
  have A: "assign ord now host [] fs = (Inr a, fs')" using assms(3-6) by (auto simp: tun_Resolve_def Assign_def split: prod.splits)
  have inv: "fs_inv fs'" using assign_cases [OF assms(1,2), of now host "[]"] A by simp
  obtain r where "fs_ipToDomain fs' a = Some r" using assign_cases [OF assms(1,2), of now host "[]"] A by auto
  then have "a \<noteq> []" using lookup_entry [OF inv] by blast
  then show ?thesis using assign_lookup [OF assms(1,2) A, of later]
    by (cases "LookupDestination later a fs'") (auto simp: routeDestination_def Let_def)
qed

definition demo_tun_resolver :: "unit tunFakeIPResolver" where
  "demo_tun_resolver = \<lparr> tf_resolve = (\<lambda>_ s. (Inl (Sentinel IoEOF), s)), tf_matcher = Some (\<lambda>h. HasSuffix h ''.zju.edu.cn''),
     tf_controlServerHost = ''vpn.zju.edu.cn'', tf_routeAll = False, tf_routes = [] \<rparr>"

theorem tun_fake_route_witness:
  "\<exists>a s' fs'. tun_Resolve by_key 0 demo_tun_resolver ''www.zju.edu.cn'' ((), demo_store) = (Inr a, (s', fs'))
     \<and> fst (routeDestination 1 (Some fs') a 443) = (''www.zju.edu.cn:443'', ''www.zju.edu.cn:443'')"
proof -
  have inv: "fs_inv demo_store" using newFakeIPStore_inv [OF demo_store_new] by simp
  have n: "normalizeDomain ''www.zju.edu.cn'' = ''www.zju.edu.cn''" by code_simp
  have m: "HasSuffix ''www.zju.edu.cn'' ''.zju.edu.cn''" by code_simp
  have p: "JoinHostPort ''www.zju.edu.cn'' (show_nat 443) = ''www.zju.edu.cn:443''" by code_simp
  obtain a s' fs' where a: "tun_Resolve by_key 0 demo_tun_resolver ''www.zju.edu.cn'' ((), demo_store) = (Inr a, (s', fs'))"
    using n m by (simp add: tun_Resolve_def demo_tun_resolver_def Assign_def assign_def demo_store_def Let_def)
  have "fst (routeDestination 1 (Some fs') a 443) = (JoinHostPort (normalizeDomain ''www.zju.edu.cn'') (show_nat 443),
      JoinHostPort (normalizeDomain ''www.zju.edu.cn'') (show_nat 443))"
    by (rule tun_fake_route [OF ranges_by_key inv _ _ _ a, of "\<lambda>h. HasSuffix h ''.zju.edu.cn''"])
      (simp_all add: n m demo_tun_resolver_def)
  then show ?thesis using a n p by auto
qed

text \<open>A static record wins over every lookup: once \<^verbatim>\<open>SetPermanentDNS\<close> accepted an address for a
  host, resolving any spelling of that host answers this address, changes nothing and asks no
  server, and so does the static lookup, whatever the cache held before.\<close>

theorem permanent_dns_wins:
  assumes "cache_laws ops" "SetPermanentDNS ops host a r = (None, r')"
    and "normalizeDNSName spelling = normalizeDNSName host" "normalizeDNSName (normalizeDNSName host) = normalizeDNSName host"
  shows "ResolveStatic r' spelling = Some a
     \<and> snd (fst (Resolve ord ops lk now shared spelling r')) = Inr a
     \<and> rc_resolveHost (fst (fst (Resolve ord ops lk now shared spelling r'))) = Some (normalizeDNSName host)
     \<and> snd (Resolve ord ops lk now shared spelling r') = r'"
proof -
  have r': "r' = r\<lparr>rv_permanentDNS := (rv_permanentDNS r)(normalizeDNSName host \<mapsto> a),
      rv_dnsCache := co_set_forever ops (rv_dnsCache r) (normalizeDNSName host) a\<rparr>"
    using assms(2) by (auto simp: SetPermanentDNS_def Let_def split: if_splits)
  have "getDNSCache ops r' (normalizeDNSName host) = Some a"
    using assms(1,4) by (simp add: getDNSCache_def r' cache_laws_def)
  then show ?thesis using assms(3) by (simp add: Resolve_def Let_def ResolveStatic_def r')
qed

definition map_cache :: "(string \<rightharpoonup> ip) cache_ops" where
  "map_cache = \<lparr> co_get = (\<lambda>c k. c k), co_set = (\<lambda>c k v. c(k \<mapsto> v)), co_set_forever = (\<lambda>c k v. c(k \<mapsto> v)) \<rparr>"

definition demo_resolver :: "(string \<rightharpoonup> ip) Resolver" where
  "demo_resolver = \<lparr> rv_domainResources = Map.empty, rv_dnsResource = Map.empty, rv_permanentDNS = Map.empty,
     rv_useRemoteDNS = True, rv_dnsCache = Map.empty, rv_useTCP = False, rv_timer = None \<rparr>"

definition failing_lookups :: lookups where
  "failing_lookups = \<lparr> lk_udp = (\<lambda>_. Inl (Sentinel IoEOF)), lk_tcp = (\<lambda>_. Inl (Sentinel IoEOF)),
     lk_sec4 = (\<lambda>_. Inl (Sentinel IoEOF)), lk_sec6 = (\<lambda>_. Inl (Sentinel IoEOF)) \<rparr>"

theorem permanent_dns_wins_witness:
  "snd (fst (Resolve by_key map_cache failing_lookups 0 [] ''HOST'' (snd (SetPermanentDNS map_cache ''host'' [10, 0, 0, 1] demo_resolver))))
     = Inr [10, 0, 0, 1]"
proof -
  have laws: "cache_laws map_cache" by (simp add: cache_laws_def map_cache_def)
  have n: "normalizeDNSName ''host'' = ''host''" "normalizeDNSName ''HOST'' = ''host''" by code_simp+
  have "SetPermanentDNS map_cache ''host'' [10, 0, 0, 1] demo_resolver
      = (None, snd (SetPermanentDNS map_cache ''host'' [10, 0, 0, 1] demo_resolver))"
    by (simp add: SetPermanentDNS_def n Let_def)
  from permanent_dns_wins [OF laws this, of "''HOST''"] show ?thesis by (simp add: n)
qed

text \<open>The context of a resolution tells the truth: it names the resolved host exactly when an
  address was found, and it carries a domain resource exactly when some published domain is a suffix
  of the normalised host, in which case that resource belongs to such a domain.\<close>

theorem Resolve_context:
  assumes "ranges ord" "finite (dom (rv_domainResources r))"
  shows "let ctx = fst (fst (Resolve ord ops lk now shared host r)); res = snd (fst (Resolve ord ops lk now shared host r)) in
      (rc_resolveHost ctx = (case res of Inr _ \<Rightarrow> Some (normalizeDNSName host) | Inl _ \<Rightarrow> None))
    \<and> (rc_domainResource ctx \<noteq> None \<longleftrightarrow> (\<exists>d \<in> dom (rv_domainResources r). HasSuffix (normalizeDNSName host) d))
    \<and> (\<forall>res. rc_domainResource ctx = Some res \<longrightarrow>
          (\<exists>d. HasSuffix (normalizeDNSName host) d \<and> rv_domainResources r d = Some res))"
proof -
  let ?h = "normalizeDNSName host" and ?m = "matchDomainResource ord r (normalizeDNSName host)"
  have ctx: "rc_domainResource (fst (fst (Resolve ord ops lk now shared host r))) = ?m"
    by (auto simp: Resolve_def Let_def split: option.split prod.split sum.split)
  have host: "rc_resolveHost (fst (fst (Resolve ord ops lk now shared host r)))
      = (case snd (fst (Resolve ord ops lk now shared host r)) of Inr _ \<Rightarrow> Some ?h | Inl _ \<Rightarrow> None)"
    by (auto simp: Resolve_def Let_def split: option.split prod.split sum.split)
  have dom: "set (ord (rv_domainResources r)) = dom (rv_domainResources r)" using rangesD [OF assms] by blast
  have f: "find (HasSuffix ?h) (ord (rv_domainResources r)) = Some d \<Longrightarrow> HasSuffix ?h d \<and> d \<in> dom (rv_domainResources r)" for d
    using dom by (auto simp: find_Some_iff dest: nth_mem)
  have some: "\<exists>d. HasSuffix ?h d \<and> rv_domainResources r d = Some res" if "?m = Some res" for res
    using that f by (auto simp: matchDomainResource_def bind_eq_Some_conv)
  have "?m = None \<longleftrightarrow> (\<forall>d \<in> dom (rv_domainResources r). \<not> HasSuffix ?h d)"
  proof (cases "find (HasSuffix ?h) (ord (rv_domainResources r))")
    case None
    moreover from this have "\<forall>d \<in> dom (rv_domainResources r). \<not> HasSuffix ?h d"
      unfolding find_None_iff dom by blast
    ultimately show ?thesis by (simp add: matchDomainResource_def)
  next
    case (Some d)
    then show ?thesis using f [OF Some] by (auto simp: matchDomainResource_def)
  qed
  then show ?thesis unfolding Let_def ctx host using some by auto
qed

theorem Resolve_context_witness:
  "rc_resolveHost (fst (fst (Resolve by_key map_cache failing_lookups 0 [] ''x'' demo_resolver))) = None"
proof -
  have fin: "finite (dom (rv_domainResources demo_resolver))" by (simp add: demo_resolver_def)
  have "snd (fst (Resolve by_key map_cache failing_lookups 0 [] ''x'' demo_resolver)) = Inl (Sentinel IoEOF)"
    by (simp add: Resolve_def demo_resolver_def failing_lookups_def getDNSCache_def map_cache_def resolveRemote_def
        ResolveWithSecondaryDNS_def)
  with Resolve_context [OF ranges_by_key fin, of map_cache failing_lookups 0 "[]" "''x''"] show ?thesis
    unfolding Let_def by simp
qed

end
