(* ===== verification/Routes.thy ===== *)
theory Routes
  imports Dial Resolver
begin

text \<open>
  The routes the TUN device installs for the resources of the VPN, \<^verbatim>\<open>src/internal/networkruntime/routes.go\<close>.
  The sets of addresses are those of the package \<^verbatim>\<open>netaddr\<close>, whose operations are an argument; what the
  code relies on is \<open>ipset_laws\<close>.
\<close>

text \<open>An address of the package is its four or sixteen bytes; \<^verbatim>\<open>IPSet\<close> and \<^verbatim>\<open>Prefixes\<close> are one
  operation, which fails when the builder was given a malformed range.\<close>

record 'b ipset_ops =
  sb_empty :: 'b
  sb_FromStdIP :: "ip \<Rightarrow> ip option"
  sb_AddRange :: "ip \<Rightarrow> ip \<Rightarrow> 'b \<Rightarrow> 'b"
  sb_Add :: "ip \<Rightarrow> 'b \<Rightarrow> 'b"
  sb_ParseIPPrefix :: "string \<Rightarrow> (ip \<times> nat) option"
  sb_AddPrefix :: "ip \<times> nat \<Rightarrow> 'b \<Rightarrow> 'b"
  sb_Remove :: "ip \<Rightarrow> 'b \<Rightarrow> 'b"
  sb_Prefixes :: "'b \<Rightarrow> (ip \<times> nat) list result"

definition Is4 :: "ip \<Rightarrow> bool" where
  "Is4 p \<longleftrightarrow> length p = 4"

definition add_resource :: "'b ipset_ops \<Rightarrow> 'b \<Rightarrow> IPResource \<Rightarrow> 'b" where
  "add_resource ops b r =
     (case (sb_FromStdIP ops (ipr_IPMin r), sb_FromStdIP ops (ipr_IPMax r)) of
        (Some lo, Some hi) \<Rightarrow> if \<not> Is4 lo \<or> \<not> Is4 hi then b else sb_AddRange ops lo hi b
      | _ \<Rightarrow> b)"

definition each_ip4 :: "'b ipset_ops \<Rightarrow> (ip \<Rightarrow> 'b \<Rightarrow> 'b) \<Rightarrow> 'b \<Rightarrow> ip \<Rightarrow> 'b" where
  "each_ip4 ops f b address = (case sb_FromStdIP ops address of Some p \<Rightarrow> if Is4 p then f p b else b | None \<Rightarrow> b)"

definition buildResourceRoutePrefixes ::
  "((string \<rightharpoonup> ip) \<Rightarrow> string list) \<Rightarrow> 'b ipset_ops \<Rightarrow> IPResource list \<Rightarrow> (string \<rightharpoonup> ip) \<Rightarrow> ip list \<Rightarrow> string \<Rightarrow> (ip \<times> nat) list result" where
  "buildResourceRoutePrefixes ord ops ipResources dnsRecords excludedIPs fakeIPRange =
     (let b1 = foldl (add_resource ops) (sb_empty ops) ipResources;
          b2 = foldl (each_ip4 ops (sb_Add ops)) b1 (List.map_filter dnsRecords (ord dnsRecords));
          b3 = (if fakeIPRange = [] then Inr b2
                else case sb_ParseIPPrefix ops fakeIPRange of
                    Some p \<Rightarrow> if Is4 (fst p) then Inr (sb_AddPrefix ops p b2)
                               else Inl (Opaque (''parse TUN fake IP route '' @ quote fakeIPRange))
                  | None \<Rightarrow> Inl (Opaque (''parse TUN fake IP route '' @ quote fakeIPRange)))
      in rbind b3 (\<lambda>b.
           case sb_Prefixes ops (foldl (each_ip4 ops (sb_Remove ops)) b excludedIPs) of
             Inl err \<Rightarrow> Inl (errorf ''build TUN resource routes'' err)
           | Inr prefixes \<Rightarrow> Inr prefixes))"

definition addStaticDNSResources :: "((string \<rightharpoonup> ip) \<Rightarrow> string list) \<Rightarrow> IPResource list \<Rightarrow> (string \<rightharpoonup> ip) \<Rightarrow> IPResource list" where
  "addStaticDNSResources ord resources dnsRecords =
     resources @ map (\<lambda>q. \<lparr> ipr_IPMin = q, ipr_IPMax = q, ipr_PortMin = 0, ipr_PortMax = 65535, ipr_Protocol = ''all'',
                           ipr_AppID = [], ipr_NodeGroupID = [] \<rparr>)
       (List.map_filter To4 (List.map_filter dnsRecords (ord dnsRecords)))"

definition equalRoutePrefixes :: "(ip \<times> nat) list \<Rightarrow> (ip \<times> nat) list \<Rightarrow> bool" where
  "equalRoutePrefixes left right =
     (if length left \<noteq> length right then False else list_all (\<lambda>i. left ! i = right ! i) [0..<length left])"

section \<open>What the routes cover\<close>

definition addresses :: "ip \<times> nat \<Rightarrow> nat set" where
  "addresses p = {ip4_val a | a. length a = 4 \<and> prefix_contains p a}"

definition ipset_laws :: "'b ipset_ops \<Rightarrow> ('b \<Rightarrow> nat set) \<Rightarrow> bool" where
  "ipset_laws ops mem \<longleftrightarrow>
     mem (sb_empty ops) = {}
   \<and> (\<forall>p. sb_FromStdIP ops p = (case To4 p of Some q \<Rightarrow> Some q | None \<Rightarrow> if length p = 16 then Some p else None))
   \<and> (\<forall>a b s. length a = 4 \<longrightarrow> length b = 4 \<longrightarrow> ip4_val a \<le> ip4_val b \<longrightarrow> mem (sb_AddRange ops a b s) = mem s \<union> {ip4_val a..ip4_val b})
   \<and> (\<forall>a s. length a = 4 \<longrightarrow> mem (sb_Add ops a s) = insert (ip4_val a) (mem s))
   \<and> (\<forall>p s. length (fst p) = 4 \<longrightarrow> mem (sb_AddPrefix ops p s) = mem s \<union> addresses p)
   \<and> (\<forall>a s. length a = 4 \<longrightarrow> mem (sb_Remove ops a s) = mem s - {ip4_val a})
   \<and> (\<forall>s ps. sb_Prefixes ops s = Inr ps \<longrightarrow> (\<Union>p \<in> set ps. addresses p) = mem s)"

text \<open>The reference: the addresses of the resources, of the static records and of the fake range, but for the
  excluded ones.\<close>

definition resource_addresses :: "IPResource \<Rightarrow> nat set" where
  "resource_addresses r = (case (To4 (ipr_IPMin r), To4 (ipr_IPMax r)) of
     (Some a, Some b) \<Rightarrow> {ip4_val a..ip4_val b} | _ \<Rightarrow> {})"

definition ip4_values :: "ip set \<Rightarrow> nat set" where
  "ip4_values A = {ip4_val q | p q. p \<in> A \<and> To4 p = Some q}"

definition range_ok :: "IPResource \<Rightarrow> bool" where
  "range_ok r \<longleftrightarrow> (case (To4 (ipr_IPMin r), To4 (ipr_IPMax r)) of (Some a, Some b) \<Rightarrow> ip4_val a \<le> ip4_val b | _ \<Rightarrow> True)"

lemma ipset_lawsD:
  assumes "ipset_laws ops mem"
  shows "length (fst p) = 4 \<Longrightarrow> mem (sb_AddPrefix ops p s) = mem s \<union> addresses p"
    "sb_Prefixes ops s = Inr ps \<Longrightarrow> (\<Union>p \<in> set ps. addresses p) = mem s"
  using assms by - (cases p, simp_all add: ipset_laws_def)

lemma FromStdIP_Is4:
  "ipset_laws ops mem \<Longrightarrow> sb_FromStdIP ops p = Some q \<Longrightarrow> Is4 q \<longleftrightarrow> To4 p = Some q"
  "ipset_laws ops mem \<Longrightarrow> sb_FromStdIP ops p = None \<Longrightarrow> To4 p = None"
  "ipset_laws ops mem \<Longrightarrow> To4 p = Some q \<Longrightarrow> sb_FromStdIP ops p = Some q"
  by (auto simp: ipset_laws_def Is4_def split: option.splits if_splits dest: To4_length)

lemma add_resource_mem:
  assumes "ipset_laws ops mem" "range_ok r"
  shows "mem (add_resource ops b r) = mem b \<union> resource_addresses r"
proof (cases "\<exists>a c. To4 (ipr_IPMin r) = Some a \<and> To4 (ipr_IPMax r) = Some c")
  case True
  then obtain a c where ac: "To4 (ipr_IPMin r) = Some a" "To4 (ipr_IPMax r) = Some c" by blast
  then have "length a = 4" "length c = 4" "ip4_val a \<le> ip4_val c" using assms(2) by (auto simp: range_ok_def dest: To4_length)
  then show ?thesis using assms(1) ac FromStdIP_Is4(3) [OF assms(1)]
    by (simp add: add_resource_def resource_addresses_def Is4_def ipset_laws_def)
next
  case False
  then have "resource_addresses r = {}" by (auto simp: resource_addresses_def split: option.split)
  moreover have "add_resource ops b r = b"
    using False FromStdIP_Is4(1) [OF assms(1)] by (auto simp: add_resource_def split: option.split)
  ultimately show ?thesis by simp
qed

lemma add_resources_mem:
  assumes "ipset_laws ops mem" "list_all range_ok rs"
  shows "mem (foldl (add_resource ops) b rs) = mem b \<union> (\<Union>r \<in> set rs. resource_addresses r)"
  using assms(2) by (induction rs arbitrary: b) (auto simp: add_resource_mem [OF assms(1)])

lemma each_ip4_mem:
  assumes "ipset_laws ops mem"
  shows "mem (foldl (each_ip4 ops (sb_Add ops)) b ps) = mem b \<union> ip4_values (set ps)"
    and "mem (foldl (each_ip4 ops (sb_Remove ops)) b ps) = mem b - ip4_values (set ps)"
proof -
  have one: "mem (each_ip4 ops (sb_Add ops) b p) = mem b \<union> ip4_values {p}" "mem (each_ip4 ops (sb_Remove ops) b p) = mem b - ip4_values {p}" for b p
  proof -
    have "each_ip4 ops f b p = (case To4 p of Some q \<Rightarrow> f q b | None \<Rightarrow> b)" for f
    proof (cases "To4 p")
      case None
      then show ?thesis using FromStdIP_Is4(1) [OF assms, of p] by (cases "sb_FromStdIP ops p") (simp_all add: each_ip4_def)
    next
      case (Some q)
      then show ?thesis using FromStdIP_Is4(3) [OF assms Some] To4_length [OF Some] by (simp add: each_ip4_def Is4_def)
    qed
    then show "mem (each_ip4 ops (sb_Add ops) b p) = mem b \<union> ip4_values {p}" "mem (each_ip4 ops (sb_Remove ops) b p) = mem b - ip4_values {p}"
      using assms by (auto simp: ip4_values_def ipset_laws_def split: option.split dest: To4_length)
  qed
  have split: "ip4_values (set (p # ps)) = ip4_values {p} \<union> ip4_values (set ps)" for p ps by (auto simp: ip4_values_def)
  show "mem (foldl (each_ip4 ops (sb_Add ops)) b ps) = mem b \<union> ip4_values (set ps)"
    by (induction ps arbitrary: b) (simp_all only: foldl.simps one split Un_assoc, simp add: ip4_values_def)
  show "mem (foldl (each_ip4 ops (sb_Remove ops)) b ps) = mem b - ip4_values (set ps)"
    by (induction ps arbitrary: b) (simp_all only: foldl.simps one split, auto simp: ip4_values_def)
qed

lemma addStaticDNSResources_covers:
  assumes "ranges ord" "finite (dom dns)" "dns d = Some p" "To4 p = Some q"
  shows "\<exists>r \<in> set (addStaticDNSResources ord rs dns). in_range q r \<and> resourceMatches (ipr_PortMin r) (ipr_PortMax r) (ipr_Protocol r) 443 ''tcp''"
proof -
  have "d \<in> set (ord dns)" using rangesD [OF assms(1,2)] assms(3) by blast
  then have "p \<in> set (List.map_filter dns (ord dns))" using assms(3) by (force simp: List.map_filter_def)
  then have q: "q \<in> set (List.map_filter To4 (List.map_filter dns (ord dns)))" using assms(4) by (force simp: List.map_filter_def)
  let ?r = "\<lparr> ipr_IPMin = q, ipr_IPMax = q, ipr_PortMin = 0, ipr_PortMax = 65535, ipr_Protocol = ''all'', ipr_AppID = [], ipr_NodeGroupID = [] \<rparr>"
  have "?r \<in> set (addStaticDNSResources ord rs dns)" using q by (simp add: addStaticDNSResources_def)
  moreover have "in_range q ?r" using To4_length [OF assms(4)] by (simp add: in_range_def)
  moreover have "resourceMatches (ipr_PortMin ?r) (ipr_PortMax ?r) (ipr_Protocol ?r) 443 ''tcp''" by (simp add: resourceMatches_def)
  ultimately show ?thesis by blast
qed

lemma resource_addresses_in_range: "ip4_val q \<in> resource_addresses r \<Longrightarrow> length q = 4 \<Longrightarrow> in_range q r"
  using Compare_ip4 [of q] by (auto simp: resource_addresses_def in_range_def split: option.splits dest: To4_length)

lemma enumerated_values:
  assumes "ranges ord" "finite (dom dns)"
  shows "ip4_values (set (List.map_filter dns (ord dns))) = ip4_values (ran dns)"
proof -
  have "set (List.map_filter dns (ord dns)) = ran dns"
    using rangesD [OF assms] by (force simp: List.map_filter_def ran_def dom_def)
  then show ?thesis by simp
qed

lemma equalRoutePrefixes_eq: "equalRoutePrefixes l r \<longleftrightarrow> l = r"
  by (auto simp: equalRoutePrefixes_def list_all_iff intro: nth_equalityI)

section \<open>Properties\<close>

text \<open>C36. The routes of the TUN device are exact: whatever order the static records are visited in, the prefixes
  cover exactly the IPv4 addresses of the resources, of the static records and of the fake range, less the
  excluded ones; and every address that is routed, and is not a fake one, lies in the range of a resource that
  the VPN outbound then matches against.\<close>

theorem routes_exact:
  assumes "ipset_laws ops mem" "ranges ord" "finite (dom dns)" "list_all range_ok rs"
    and "buildResourceRoutePrefixes ord ops rs dns excluded fake = Inr routes"
  shows "(\<Union>p \<in> set routes. addresses p) =
      ((\<Union>r \<in> set rs. resource_addresses r) \<union> ip4_values (ran dns)
        \<union> (if fake = [] then {} else addresses (the (sb_ParseIPPrefix ops fake)))) - ip4_values (set excluded)
    \<and> (\<forall>q. length q = 4 \<longrightarrow> ip4_val q \<in> (\<Union>p \<in> set routes. addresses p) \<longrightarrow>
          (fake = [] \<or> ip4_val q \<notin> addresses (the (sb_ParseIPPrefix ops fake))) \<longrightarrow>
          (\<exists>r \<in> set (addStaticDNSResources ord rs dns). in_range q r))"
proof -
  let ?b2 = "foldl (each_ip4 ops (sb_Add ops)) (foldl (add_resource ops) (sb_empty ops) rs) (List.map_filter dns (ord dns))"
  let ?F = "if fake = [] then {} else addresses (the (sb_ParseIPPrefix ops fake))"
  have b2: "mem ?b2 = (\<Union>r \<in> set rs. resource_addresses r) \<union> ip4_values (ran dns)"
    using assms(1) by (simp add: each_ip4_mem [OF assms(1)] add_resources_mem [OF assms(1,4)] enumerated_values [OF assms(2,3)] ipset_laws_def)
  obtain b where p: "sb_Prefixes ops (foldl (each_ip4 ops (sb_Remove ops)) b excluded) = Inr routes" and b: "mem b = mem ?b2 \<union> ?F"
  proof (cases "fake = []")
    case True
    then show ?thesis using that [of ?b2] assms(5) by (auto simp: buildResourceRoutePrefixes_def Let_def split: sum.splits)
  next
    case False
    then obtain q where q: "sb_ParseIPPrefix ops fake = Some q" "Is4 (fst q)"
      using assms(5) by (auto simp: buildResourceRoutePrefixes_def Let_def split: option.splits if_splits)
    have "mem (sb_AddPrefix ops q ?b2) = mem ?b2 \<union> addresses q" using ipset_lawsD(1) [OF assms(1)] q(2) by (simp add: Is4_def)
    then have "mem (sb_AddPrefix ops q ?b2) = mem ?b2 \<union> ?F" using False q(1) by simp
    then show ?thesis using that [of "sb_AddPrefix ops q ?b2"] assms(5) False q
      by (auto simp: buildResourceRoutePrefixes_def Let_def split: sum.splits)
  qed
  have eq: "(\<Union>p \<in> set routes. addresses p) = (mem ?b2 \<union> ?F) - ip4_values (set excluded)"
    by (simp only: ipset_lawsD(2) [OF assms(1) p] each_ip4_mem(2) [OF assms(1)] b)
  moreover have "\<exists>r \<in> set (addStaticDNSResources ord rs dns). in_range q r"
    if q: "length q = 4" "ip4_val q \<in> (\<Union>p \<in> set routes. addresses p)" "fake = [] \<or> ip4_val q \<notin> addresses (the (sb_ParseIPPrefix ops fake))" for q
  proof -
    have "ip4_val q \<in> mem ?b2" using q(2,3) unfolding eq by (auto split: if_splits)
    then consider r where "r \<in> set rs" "ip4_val q \<in> resource_addresses r" | d p q' where "dns d = Some p" "To4 p = Some q'" "ip4_val q = ip4_val q'"
      unfolding b2 by (auto simp: ip4_values_def ran_def)
    then show ?thesis
    proof cases
      case 1
      then show ?thesis using resource_addresses_in_range q(1) by (auto simp: addStaticDNSResources_def)
    next
      case 2
      then have "q = q'" using q(1) To4_length ip4_val_inj by metis
      then show ?thesis using addStaticDNSResources_covers [OF assms(2,3) 2(1,2)] by blast
    qed
  qed
  ultimately show ?thesis unfolding b2 by blast
qed

text \<open>An instance: sets of addresses themselves, with one prefix per address.\<close>

definition host_prefixes :: "nat set \<Rightarrow> (ip \<times> nat) list" where
  "host_prefixes A = map (\<lambda>n. ([word_of_nat (n div 16777216), word_of_nat (n div 65536), word_of_nat (n div 256), word_of_nat n], 32)) (sorted_list_of_set A)"

definition set_ops :: "nat set ipset_ops" where
  "set_ops = \<lparr> sb_empty = {}, sb_FromStdIP = (\<lambda>p. case To4 p of Some q \<Rightarrow> Some q | None \<Rightarrow> if length p = 16 then Some p else None),
     sb_AddRange = (\<lambda>a b s. s \<union> {ip4_val a..ip4_val b}), sb_Add = (\<lambda>a s. insert (ip4_val a) s),
     sb_ParseIPPrefix = ParsePrefix, sb_AddPrefix = (\<lambda>p s. s \<union> addresses p), sb_Remove = (\<lambda>a s. s - {ip4_val a}),
     sb_Prefixes = (\<lambda>s. if finite s \<and> s \<subseteq> {..<2 ^ 32} then Inr (host_prefixes s) else Inl (Opaque ''range'')) \<rparr>"

lemma addresses_host: "length a = 4 \<Longrightarrow> addresses (a, 32) = {ip4_val a}"
proof -
  assume a: "length a = 4"
  have m: "mask_ip b (CIDRMask 32 32) = b" if "length b = 4" for b
  proof -
    obtain w x y z where "b = [w, x, y, z]" using \<open>length b = 4\<close> by (auto simp: length_Suc_conv numeral_eq_Suc)
    moreover have "v AND 255 = v" for v :: u8
    proof -
      have "(255 :: u8) = - 1" by simp
      then show ?thesis by (simp only: and.right_neutral)
    qed
    ultimately show ?thesis by (simp add: mask_ip_def CIDRMask_def upt_rec)
  qed
  have "prefix_contains (a, 32) b \<longleftrightarrow> b = a" if "length b = 4" for b
    using a that m [of a] m [of b] by (simp add: prefix_contains_def)
  then show ?thesis using a by (auto simp: addresses_def)
qed

lemma ip4_val_bytes: "n < 2 ^ 32 \<Longrightarrow> ip4_val [word_of_nat (n div 16777216), word_of_nat (n div 65536), word_of_nat (n div 256), word_of_nat n] = n"
proof -
  assume n: "n < 2 ^ 32"
  define a b c where "a = n div 256" and "b = a div 256" and "c = b div 256"
  have e: "n div 65536 = b" "n div 16777216 = c" by (simp_all add: a_def b_def c_def flip: div_mult2_eq)
  have "c < 256" using n by (simp add: c_def b_def a_def flip: div_mult2_eq)
  moreover have "n = a * 256 + n mod 256" "a = b * 256 + a mod 256" "b = c * 256 + b mod 256" by (simp_all add: a_def b_def c_def)
  ultimately have "c mod 256 * 16777216 + b mod 256 * 65536 + a mod 256 * 256 + n mod 256 = n" by simp
  then show ?thesis by (simp add: ip4_val_alt unat_u8 e flip: a_def)
qed

lemma set_ops_laws: "ipset_laws set_ops id"
proof -
  have "(\<Union>p \<in> set (host_prefixes s). addresses p) = s" if "finite s" "s \<subseteq> {..<2 ^ 32}" for s
  proof -
    have "(\<Union>p \<in> set (host_prefixes s). addresses p)
        = (\<Union>n \<in> s. {ip4_val [word_of_nat (n div 16777216), word_of_nat (n div 65536), word_of_nat (n div 256), word_of_nat n]})"
      using that by (simp add: host_prefixes_def addresses_host)
    also have "\<dots> = (\<Union>n \<in> s. {n})" using that by (intro SUP_cong) (auto simp: ip4_val_bytes)
    finally show ?thesis by simp
  qed
  then show ?thesis by (auto simp: ipset_laws_def set_ops_def split: if_splits)
qed

theorem routes_exact_witness:
  "\<exists>routes. buildResourceRoutePrefixes by_key set_ops
       [\<lparr> ipr_IPMin = IPv4 10 0 0 1, ipr_IPMax = IPv4 10 0 0 3, ipr_PortMin = 1, ipr_PortMax = 99, ipr_Protocol = ''tcp'', ipr_AppID = [], ipr_NodeGroupID = [] \<rparr>]
       [''h'' \<mapsto> IPv4 10 0 0 9] [IPv4 10 0 0 2] [] = Inr routes
     \<and> (\<Union>p \<in> set routes. addresses p) = {167772161, 167772163, 167772169}"
proof -
  let ?r = "\<lparr> ipr_IPMin = IPv4 10 0 0 1, ipr_IPMax = IPv4 10 0 0 3, ipr_PortMin = 1, ipr_PortMax = 99, ipr_Protocol = ''tcp'', ipr_AppID = [], ipr_NodeGroupID = [] \<rparr>"
  let ?dns = "[''h'' \<mapsto> IPv4 10 0 0 9]"
  have to4: "To4 (IPv4 a b c d) = Some [a, b, c, d]" for a b c d by simp
  have "\<exists>routes. buildResourceRoutePrefixes by_key set_ops [?r] ?dns [IPv4 10 0 0 2] [] = Inr routes"
    by (auto simp: buildResourceRoutePrefixes_def set_ops_def add_resource_def each_ip4_def Is4_def by_key_def List.map_filter_def ip4_val_alt Let_def)
  then obtain routes where r: "buildResourceRoutePrefixes by_key set_ops [?r] ?dns [IPv4 10 0 0 2] [] = Inr routes" ..
  have "(\<Union>p \<in> set routes. addresses p) = (resource_addresses ?r \<union> ip4_values {IPv4 10 0 0 9}) - ip4_values {IPv4 10 0 0 2}"
    using routes_exact [OF set_ops_laws ranges_by_key _ _ r] by (simp add: range_ok_def ip4_val_alt)
  also have "resource_addresses ?r = {167772161..167772163}" by (simp add: resource_addresses_def ip4_val_alt)
  also have "ip4_values {IPv4 10 0 0 9} = {167772169}" by (auto simp: ip4_values_def ip4_val_alt)
  also have "ip4_values {IPv4 10 0 0 2} = {167772162}" by (auto simp: ip4_values_def ip4_val_alt)
  also have "({167772161..167772163} \<union> {167772169}) - {167772162 :: nat} = {167772161, 167772163, 167772169}" by auto
  finally show ?thesis using r by blast
qed

end
