(* ===== verification/Tracker.thy ===== *)
theory Tracker
  imports CoreEvents
begin

text \<open>
  Connection statistics, \<^verbatim>\<open>src/internal/networkruntime/tracker.go\<close>: the outbound that counts the
  transport connections and their bytes, the tracker of logical connections that the inbound services and
  embedding programs open, and the wrapper that ties the two. Connections are shared by pointer, so each
  tracker holds the heap of its connections; what the network does is an argument.
\<close>

section \<open>State\<close>

text \<open>A connection below the tracker: the route it was given, what closing it returns, and what closing its write
  side returns, when it has that method.\<close>

record net_conn =
  nc_route :: RouteInfo
  nc_closeErr :: "gerror option"
  nc_closeWrite :: "gerror option option"

record trackedConn =
  tc_Conn :: net_conn
  tc_id :: string
  tc_network :: string
  tc_destination :: string
  tc_openedAt :: int
  tc_lastActivity :: int
  tc_uploaded :: u64
  tc_downloaded :: u64
  tc_closeOnce :: bool
  tc_closeErr :: "gerror option"

record trackedOutbound =
  to_started :: int
  to_nextID :: u64
  to_uploaded :: u64
  to_download :: u64
  to_total :: u64
  to_connections :: "string \<rightharpoonup> nat"
  to_heap :: "nat \<Rightarrow> trackedConn"
  to_count :: nat

text \<open>The function a logical connection is closed with: the \<^verbatim>\<open>Close\<close> of a tracked connection, or one
  of the caller's that returns an error or not.\<close>

datatype close_func = CloseTransport nat | CloseOther "gerror option"

record logicalConnection =
  lg_id :: string
  lg_metadata :: ConnectionMetadata
  lg_openedAt :: int
  lg_lastActivity :: int
  lg_uploaded :: u64
  lg_downloaded :: u64
  lg_closeFunc :: "close_func option"
  lg_closeOnce :: bool
  lg_closeErr :: "gerror option"

record connectionTracker =
  tk_started :: int
  tk_nextID :: u64
  tk_total :: u64
  tk_connections :: "string \<rightharpoonup> nat"
  tk_heap :: "nat \<Rightarrow> logicalConnection"
  tk_count :: nat

record logicalTrackedConn =
  lw_Conn :: nat
  lw_activity :: nat
  lw_closeOnce :: bool
  lw_closeErr :: "gerror option"

record trackers =
  tr_outbound :: trackedOutbound
  tr_connections :: connectionTracker
  tr_wrapped :: "logicalTrackedConn list"

definition transportIdleAfter :: int where "transportIdleAfter = 5 * 10 ^ 9"

definition newTrackedOutbound :: "(nat \<Rightarrow> trackedConn) \<Rightarrow> int \<Rightarrow> trackedOutbound" where
  "newTrackedOutbound heap now =
     \<lparr> to_started = now, to_nextID = 0, to_uploaded = 0, to_download = 0, to_total = 0, to_connections = Map.empty,
       to_heap = heap, to_count = 0 \<rparr>"

definition newConnectionTracker :: "(nat \<Rightarrow> logicalConnection) \<Rightarrow> int \<Rightarrow> connectionTracker" where
  "newConnectionTracker heap now =
     \<lparr> tk_started = now, tk_nextID = 0, tk_total = 0, tk_connections = Map.empty, tk_heap = heap, tk_count = 0 \<rparr>"

section \<open>Transport connections\<close>

definition put_conn :: "nat \<Rightarrow> trackedConn \<Rightarrow> trackedOutbound \<Rightarrow> trackedOutbound" where
  "put_conn k c o' = o'\<lparr>to_heap := (to_heap o')(k := c)\<rparr>"

definition connection_id :: "string \<Rightarrow> u64 \<Rightarrow> string" where
  "connection_id pre n = pre @ show_nat (unat n)"

definition tracked_DialContext ::
  "net_conn result \<Rightarrow> int \<Rightarrow> string \<Rightarrow> string \<Rightarrow> trackedOutbound \<Rightarrow> nat result \<times> trackedOutbound" where
  "tracked_DialContext dialled now network address o' =
     (case dialled of
        Inl err \<Rightarrow> (Inl err, o')
      | Inr conn \<Rightarrow>
          (let k = to_count o'; n = to_nextID o' + 1;
               c = \<lparr> tc_Conn = conn, tc_id = connection_id ''transport-'' n, tc_network = network, tc_destination = address,
                     tc_openedAt = now, tc_lastActivity = now, tc_uploaded = 0, tc_downloaded = 0, tc_closeOnce = False, tc_closeErr = None \<rparr>
           in (Inr k, (put_conn k c o')\<lparr>to_nextID := n, to_count := Suc k,
                 to_connections := (to_connections o')(tc_id c \<mapsto> k), to_total := to_total o' + 1\<rparr>)))"

definition tracked_remove :: "string \<Rightarrow> trackedOutbound \<Rightarrow> trackedOutbound" where
  "tracked_remove i o' = o'\<lparr>to_connections := (to_connections o')(i := None)\<rparr>"

text \<open>Whether a connection is at its end after the error \<open>err\<close>: not after a time-out.\<close>

fun errors_As_net :: "gerror \<Rightarrow> bool option" where
  "errors_As_net (Wrap _ e) = errors_As_net e"
| "errors_As_net (Joined es) = first_some errors_As_net es"
| "errors_As_net (NetError t _ _) = Some t"
| "errors_As_net (DNSError _ _) = Some False"
| "errors_As_net (CoreErr _ _ _ _ c) = (case c of None \<Rightarrow> None | Some e \<Rightarrow> errors_As_net e)"
| "errors_As_net (Sentinel s) =
     (case s of
        ContextDeadlineExceeded \<Rightarrow> Some True
      | OsErrDeadlineExceeded \<Rightarrow> Some True
      | Syscall m \<Rightarrow> Some (m = ''connection timed out'' \<or> m = ''resource temporarily unavailable'')
      | _ \<Rightarrow> None)"
| "errors_As_net (Opaque _) = None"

definition isTerminalConnectionError :: "gerror option \<Rightarrow> bool" where
  "isTerminalConnectionError err =
     (case err of
        None \<Rightarrow> False
      | Some e \<Rightarrow> if errors_Is e IoEOF \<or> errors_Is e NetErrClosed then True else errors_As_net e \<noteq> Some True)"

definition tracked_finish :: "nat \<Rightarrow> trackedOutbound \<Rightarrow> trackedOutbound" where
  "tracked_finish k o' = tracked_remove (tc_id (to_heap o' k)) o'"

definition tracked_touch :: "int \<Rightarrow> trackedConn \<Rightarrow> trackedConn" where
  "tracked_touch now c = c\<lparr>tc_lastActivity := now\<rparr>"

text \<open>The network's read or write gave \<open>n\<close> bytes and the error \<open>err\<close>; both are passed on.\<close>

definition tracked_Read :: "int \<Rightarrow> nat \<Rightarrow> nat \<times> gerror option \<Rightarrow> trackedOutbound \<Rightarrow> (nat \<times> gerror option) \<times> trackedOutbound" where
  "tracked_Read now k r o' =
     (let (n, err) = r; c = to_heap o' k;
          o1 = (if n > 0 then (put_conn k (tracked_touch now (c\<lparr>tc_downloaded := tc_downloaded c + of_nat n\<rparr>)) o')\<lparr>to_download := to_download o' + of_nat n\<rparr>
                else o')
      in (r, if isTerminalConnectionError err then tracked_finish k o1 else o1))"

definition tracked_Write :: "int \<Rightarrow> nat \<Rightarrow> nat \<times> gerror option \<Rightarrow> trackedOutbound \<Rightarrow> (nat \<times> gerror option) \<times> trackedOutbound" where
  "tracked_Write now k r o' =
     (let (n, err) = r; c = to_heap o' k;
          o1 = (if n > 0 then (put_conn k (tracked_touch now (c\<lparr>tc_uploaded := tc_uploaded c + of_nat n\<rparr>)) o')\<lparr>to_uploaded := to_uploaded o' + of_nat n\<rparr>
                else o')
      in (r, if isTerminalConnectionError err then tracked_finish k o1 else o1))"

definition tracked_Close :: "nat \<Rightarrow> trackedOutbound \<Rightarrow> gerror option \<times> trackedOutbound" where
  "tracked_Close k o' =
     (let c = to_heap o' k in
      if tc_closeOnce c then (tc_closeErr c, o')
      else (nc_closeErr (tc_Conn c),
            tracked_remove (tc_id c) (put_conn k (c\<lparr>tc_closeOnce := True, tc_closeErr := nc_closeErr (tc_Conn c)\<rparr>) o')))"

definition tracked_CloseWrite :: "nat \<Rightarrow> trackedOutbound \<Rightarrow> gerror option \<times> trackedOutbound" where
  "tracked_CloseWrite k o' =
     (case nc_closeWrite (tc_Conn (to_heap o' k)) of Some e \<Rightarrow> (e, o') | None \<Rightarrow> tracked_Close k o')"

definition close_each :: "('k \<Rightarrow> 's \<Rightarrow> gerror option \<times> 's) \<Rightarrow> 'k list \<Rightarrow> 's \<Rightarrow> gerror option list \<times> 's" where
  "close_each close ks s = foldl (\<lambda>(es, s) k. let (e, s') = close k s in (es @ [e], s')) ([], s) ks"

text \<open>\<open>delegateErr\<close> is what closing the delegate returns.\<close>

definition tracked_CloseAll ::
  "((string \<rightharpoonup> nat) \<Rightarrow> string list) \<Rightarrow> gerror option \<Rightarrow> trackedOutbound \<Rightarrow> gerror option \<times> trackedOutbound" where
  "tracked_CloseAll ord delegateErr o' =
     (let (es, o1) = close_each tracked_Close (List.map_filter (to_connections o') (ord (to_connections o'))) o'
      in (errors_Join (es @ [delegateErr]), o1))"

definition tracked_TrafficStats :: "int \<Rightarrow> trackedOutbound \<Rightarrow> TrafficStats" where
  "tracked_TrafficStats now o' =
     \<lparr> ts_SessionID = [], ts_UploadedBytes = to_uploaded o', ts_DownloadedBytes = to_download o', ts_ActiveConnections = 0,
       ts_TotalConnections = 0, ts_OpenTransportConnections = int (card (dom (to_connections o'))),
       ts_TotalTransportConnections = to_total o', ts_StartedAt = to_started o', ts_Timestamp = now \<rparr>"

definition tracked_info :: "int \<Rightarrow> trackedConn \<Rightarrow> TransportConnectionInfo" where
  "tracked_info now c =
     \<lparr> ti_ID = tc_id c, ti_SessionID = [], ti_Outbound = route_Outbound (nc_route (tc_Conn c)), ti_RouteReason = route_Reason (nc_route (tc_Conn c)),
       ti_Network = tc_network c, ti_Destination = tc_destination c, ti_UploadedBytes = tc_uploaded c, ti_DownloadedBytes = tc_downloaded c,
       ti_OpenedAt = tc_openedAt c, ti_LastActivityAt = tc_lastActivity c,
       ti_State = (if now - tc_lastActivity c \<ge> transportIdleAfter then ConnectionStateIdle else ConnectionStateActive) \<rparr>"

text \<open>\<^verbatim>\<open>sort.Slice\<close> may leave equal elements in any order, and so may the order of the map.\<close>

definition tracked_TransportConnections :: "((string \<rightharpoonup> nat) \<Rightarrow> string list) \<Rightarrow> int \<Rightarrow> trackedOutbound \<Rightarrow> TransportConnectionInfo list" where
  "tracked_TransportConnections ord now o' =
     sort_key ti_OpenedAt (map (\<lambda>k. tracked_info now (to_heap o' k)) (List.map_filter (to_connections o') (ord (to_connections o'))))"

section \<open>Logical connections\<close>

definition OpenConnection :: "int \<Rightarrow> ConnectionMetadata \<Rightarrow> close_func option \<Rightarrow> connectionTracker \<Rightarrow> nat \<times> connectionTracker" where
  "OpenConnection now metadata closeFunc t =
     (let i = tk_count t; n = tk_nextID t + 1;
          c = \<lparr> lg_id = connection_id ''connection-'' n, lg_metadata = metadata, lg_openedAt = now, lg_lastActivity = now, lg_uploaded = 0,
                lg_downloaded = 0, lg_closeFunc = closeFunc, lg_closeOnce = False, lg_closeErr = None \<rparr>
      in (i, t\<lparr>tk_nextID := n, tk_count := Suc i, tk_heap := (tk_heap t)(i := c), tk_connections := (tk_connections t)(lg_id c \<mapsto> i),
               tk_total := tk_total t + 1\<rparr>))"

definition tracker_TrafficStats :: "int \<Rightarrow> connectionTracker \<Rightarrow> TrafficStats" where
  "tracker_TrafficStats now t =
     \<lparr> ts_SessionID = [], ts_UploadedBytes = 0, ts_DownloadedBytes = 0, ts_ActiveConnections = int (card (dom (tk_connections t))),
       ts_TotalConnections = tk_total t, ts_OpenTransportConnections = 0, ts_TotalTransportConnections = 0,
       ts_StartedAt = tk_started t, ts_Timestamp = now \<rparr>"

definition logical_info :: "logicalConnection \<Rightarrow> ConnectionInfo" where
  "logical_info c =
     (let m = lg_metadata c in
      \<lparr> ci_ID = lg_id c, ci_SessionID = [], ci_Inbound = meta_Inbound m, ci_Outbound = meta_Outbound m, ci_RouteReason = meta_RouteReason m,
        ci_Source = meta_Source m, ci_Network = meta_Network m, ci_Destination = meta_Destination m, ci_UploadedBytes = lg_uploaded c,
        ci_DownloadedBytes = lg_downloaded c, ci_OpenedAt = lg_openedAt c, ci_LastActivityAt = lg_lastActivity c,
        ci_State = ConnectionStateActive, ci_TransportConnectionID = meta_TransportConnectionID m \<rparr>)"

definition tracker_Connections :: "((string \<rightharpoonup> nat) \<Rightarrow> string list) \<Rightarrow> connectionTracker \<Rightarrow> ConnectionInfo list" where
  "tracker_Connections ord t =
     sort_key ci_OpenedAt (map (\<lambda>i. logical_info (tk_heap t i)) (List.map_filter (tk_connections t) (ord (tk_connections t))))"

definition put_logical :: "nat \<Rightarrow> logicalConnection \<Rightarrow> connectionTracker \<Rightarrow> connectionTracker" where
  "put_logical i c t = t\<lparr>tk_heap := (tk_heap t)(i := c)\<rparr>"

definition RecordUploaded :: "int \<Rightarrow> nat \<Rightarrow> u64 \<Rightarrow> connectionTracker \<Rightarrow> connectionTracker" where
  "RecordUploaded now i count t =
     (if count = 0 then t
      else put_logical i ((tk_heap t i)\<lparr>lg_uploaded := lg_uploaded (tk_heap t i) + count, lg_lastActivity := now\<rparr>) t)"

definition RecordDownloaded :: "int \<Rightarrow> nat \<Rightarrow> u64 \<Rightarrow> connectionTracker \<Rightarrow> connectionTracker" where
  "RecordDownloaded now i count t =
     (if count = 0 then t
      else put_logical i ((tk_heap t i)\<lparr>lg_downloaded := lg_downloaded (tk_heap t i) + count, lg_lastActivity := now\<rparr>) t)"

definition tracker_remove :: "string \<Rightarrow> connectionTracker \<Rightarrow> connectionTracker" where
  "tracker_remove i t = t\<lparr>tk_connections := (tk_connections t)(i := None)\<rparr>"

definition logical_Close :: "nat \<Rightarrow> trackers \<Rightarrow> gerror option \<times> trackers" where
  "logical_Close i t =
     (let c = tk_heap (tr_connections t) i in
      if lg_closeOnce c then (lg_closeErr c, t)
      else
        let (err, o') = (case lg_closeFunc c of
              None \<Rightarrow> (lg_closeErr c, tr_outbound t)
            | Some (CloseTransport k) \<Rightarrow> tracked_Close k (tr_outbound t)
            | Some (CloseOther e) \<Rightarrow> (e, tr_outbound t))
        in (err, t\<lparr>tr_outbound := o',
              tr_connections := tracker_remove (lg_id c) (put_logical i (c\<lparr>lg_closeOnce := True, lg_closeErr := err\<rparr>) (tr_connections t))\<rparr>))"

definition tracker_CloseConnection :: "string \<Rightarrow> trackers \<Rightarrow> gerror option \<times> trackers" where
  "tracker_CloseConnection i t =
     (case tk_connections (tr_connections t) i of
        None \<Rightarrow> (Some (WrapError ErrorCodeConnectionNotFound (''connection '' @ quote i @ '' not found'') False None), t)
      | Some k \<Rightarrow> logical_Close k t)"

definition tracker_Close :: "((string \<rightharpoonup> nat) \<Rightarrow> string list) \<Rightarrow> trackers \<Rightarrow> gerror option \<times> trackers" where
  "tracker_Close ord t =
     (let (es, t1) = close_each logical_Close
            (List.map_filter (tk_connections (tr_connections t)) (ord (tk_connections (tr_connections t)))) t
      in (errors_Join es, t1))"

section \<open>Connections opened through the runtime\<close>

text \<open>\<^verbatim>\<open>Runtime.DialContext\<close>: dial, enter the connection with both trackers, and wrap it.\<close>

definition runtime_DialContext ::
  "net_conn result \<Rightarrow> int \<Rightarrow> string \<Rightarrow> string \<Rightarrow> trackers \<Rightarrow> nat result \<times> trackers" where
  "runtime_DialContext dialled now network address t =
     (case tracked_DialContext dialled now network address (tr_outbound t) of
        (Inl err, o') \<Rightarrow> (Inl err, t\<lparr>tr_outbound := o'\<rparr>)
      | (Inr k, o') \<Rightarrow>
          (let c = to_heap o' k; route = nc_route (tc_Conn c);
               (i, l) = OpenConnection now
                 \<lparr> meta_Inbound = ''embedded'', meta_Outbound = route_Outbound route, meta_RouteReason = route_Reason route, meta_Source = [],
                   meta_Network = network, meta_Destination = address, meta_TransportConnectionID = tc_id c \<rparr>
                 (Some (CloseTransport k)) (tr_connections t);
               w = \<lparr> lw_Conn = k, lw_activity = i, lw_closeOnce = False, lw_closeErr = None \<rparr>
           in (Inr (length (tr_wrapped t)), t\<lparr>tr_outbound := o', tr_connections := l, tr_wrapped := tr_wrapped t @ [w]\<rparr>)))"

definition logical_Read :: "int \<Rightarrow> logicalTrackedConn \<Rightarrow> nat \<times> gerror option \<Rightarrow> trackers \<Rightarrow> (nat \<times> gerror option) \<times> trackers" where
  "logical_Read now w r t =
     (let (r', o') = tracked_Read now (lw_Conn w) r (tr_outbound t)
      in (r', t\<lparr>tr_outbound := o', tr_connections := RecordDownloaded now (lw_activity w) (of_nat (fst r')) (tr_connections t)\<rparr>))"

definition logical_Write :: "int \<Rightarrow> logicalTrackedConn \<Rightarrow> nat \<times> gerror option \<Rightarrow> trackers \<Rightarrow> (nat \<times> gerror option) \<times> trackers" where
  "logical_Write now w r t =
     (let (r', o') = tracked_Write now (lw_Conn w) r (tr_outbound t)
      in (r', t\<lparr>tr_outbound := o', tr_connections := RecordUploaded now (lw_activity w) (of_nat (fst r')) (tr_connections t)\<rparr>))"

definition wrapped_Close :: "nat \<Rightarrow> trackers \<Rightarrow> gerror option \<times> trackers" where
  "wrapped_Close j t =
     (let w = tr_wrapped t ! j in
      if lw_closeOnce w then (lw_closeErr w, t)
      else let (err, t1) = logical_Close (lw_activity w) t
           in (err, t1\<lparr>tr_wrapped := (tr_wrapped t1)[j := w\<lparr>lw_closeOnce := True, lw_closeErr := err\<rparr>]\<rparr>))"

definition runtime_TrafficStats :: "int \<Rightarrow> trackers \<Rightarrow> TrafficStats" where
  "runtime_TrafficStats now t =
     (let connections = tracker_TrafficStats now (tr_connections t)
      in (tracked_TrafficStats now (tr_outbound t))
           \<lparr>ts_ActiveConnections := ts_ActiveConnections connections, ts_TotalConnections := ts_TotalConnections connections\<rparr>)"

section \<open>Runs\<close>

text \<open>
  The operations of an embedding program (dial, read, write, close through the wrapper), of the inbound
  services (transport connections they relay themselves, and logical connections they report), and of the runtime. Connections are pointers, so they exist.
\<close>

datatype tracker_op =
    TkDial "net_conn result" int string string
  | TkRead int nat "nat \<times> gerror option"
  | TkWrite int nat "nat \<times> gerror option"
  | TkClose nat
  | TkTransport "net_conn result" int string string
  | TkTransportRead int nat "nat \<times> gerror option"
  | TkTransportWrite int nat "nat \<times> gerror option"
  | TkTransportClose nat
  | TkTransportCloseWrite nat
  | TkOpen int ConnectionMetadata "close_func option"
  | TkUploaded int nat u64
  | TkDownloaded int nat u64
  | TkLogicalClose nat
  | TkCloseConnection string
  | TkCloseAll "gerror option"

definition own_transport :: "nat \<Rightarrow> trackers \<Rightarrow> bool" where
  "own_transport k t \<longleftrightarrow> k < to_count (tr_outbound t) \<and> k \<notin> lw_Conn ` set (tr_wrapped t)"

definition own_logical :: "nat \<Rightarrow> trackers \<Rightarrow> bool" where
  "own_logical i t \<longleftrightarrow> i < tk_count (tr_connections t) \<and> i \<notin> lw_activity ` set (tr_wrapped t)"

definition close_trackers :: "((string \<rightharpoonup> nat) \<Rightarrow> string list) \<Rightarrow> gerror option \<Rightarrow> trackers \<Rightarrow> (gerror option \<times> gerror option) \<times> trackers" where
  "close_trackers ord delegateErr t =
     (let (e1, t1) = tracker_Close ord t; (e2, o') = tracked_CloseAll ord delegateErr (tr_outbound t1)
      in ((e1, e2), t1\<lparr>tr_outbound := o'\<rparr>))"

fun tracker_step :: "((string \<rightharpoonup> nat) \<Rightarrow> string list) \<Rightarrow> trackers \<Rightarrow> tracker_op \<Rightarrow> trackers" where
  "tracker_step ord t (TkDial d now network address) = snd (runtime_DialContext d now network address t)"
| "tracker_step ord t (TkRead now j r) = (if j < length (tr_wrapped t) then snd (logical_Read now (tr_wrapped t ! j) r t) else t)"
| "tracker_step ord t (TkWrite now j r) = (if j < length (tr_wrapped t) then snd (logical_Write now (tr_wrapped t ! j) r t) else t)"
| "tracker_step ord t (TkClose j) = (if j < length (tr_wrapped t) then snd (wrapped_Close j t) else t)"
| "tracker_step ord t (TkTransport d now network address) =
     t\<lparr>tr_outbound := snd (tracked_DialContext d now network address (tr_outbound t))\<rparr>"
| "tracker_step ord t (TkTransportRead now k r) =
     (if own_transport k t then t\<lparr>tr_outbound := snd (tracked_Read now k r (tr_outbound t))\<rparr> else t)"
| "tracker_step ord t (TkTransportWrite now k r) =
     (if own_transport k t then t\<lparr>tr_outbound := snd (tracked_Write now k r (tr_outbound t))\<rparr> else t)"
| "tracker_step ord t (TkTransportClose k) =
     (if k < to_count (tr_outbound t) then t\<lparr>tr_outbound := snd (tracked_Close k (tr_outbound t))\<rparr> else t)"
| "tracker_step ord t (TkTransportCloseWrite k) =
     (if k < to_count (tr_outbound t) then t\<lparr>tr_outbound := snd (tracked_CloseWrite k (tr_outbound t))\<rparr> else t)"
| "tracker_step ord t (TkOpen now m f) =
     (if \<forall>k. f = Some (CloseTransport k) \<longrightarrow> k < to_count (tr_outbound t)
      then t\<lparr>tr_connections := snd (OpenConnection now m f (tr_connections t))\<rparr> else t)"
| "tracker_step ord t (TkUploaded now i n) =
     (if own_logical i t then t\<lparr>tr_connections := RecordUploaded now i n (tr_connections t)\<rparr> else t)"
| "tracker_step ord t (TkDownloaded now i n) =
     (if own_logical i t then t\<lparr>tr_connections := RecordDownloaded now i n (tr_connections t)\<rparr> else t)"
| "tracker_step ord t (TkLogicalClose i) = (if i < tk_count (tr_connections t) then snd (logical_Close i t) else t)"
| "tracker_step ord t (TkCloseConnection i) = snd (tracker_CloseConnection i t)"
| "tracker_step ord t (TkCloseAll e) = snd (close_trackers ord e t)"

definition new_trackers :: "(nat \<Rightarrow> trackedConn) \<Rightarrow> (nat \<Rightarrow> logicalConnection) \<Rightarrow> int \<Rightarrow> trackers" where
  "new_trackers h l now = \<lparr> tr_outbound = newTrackedOutbound h now, tr_connections = newConnectionTracker l now, tr_wrapped = [] \<rparr>"

section \<open>Invariants\<close>

text \<open>The table of a tracker with \<open>n\<close> connections: the identifiers are numbered, and an entry is under
  its connection's identifier.\<close>

definition table_ok :: "string \<Rightarrow> u64 \<Rightarrow> (string \<rightharpoonup> nat) \<Rightarrow> (nat \<Rightarrow> string) \<Rightarrow> nat \<Rightarrow> bool" where
  "table_ok pre nid tbl idof n \<longleftrightarrow> nid = of_nat n \<and> (\<forall>k < n. idof k = connection_id pre (of_nat (Suc k)))
     \<and> (\<forall>i k. tbl i = Some k \<longrightarrow> k < n \<and> idof k = i)"

lemma table_okD: "table_ok pre nid tbl idof n \<Longrightarrow> tbl i = Some k \<Longrightarrow> k < n \<and> idof k = i"
  unfolding table_ok_def by blast

lemma table_ok_remove: "table_ok pre nid tbl idof n \<Longrightarrow> table_ok pre nid (tbl(i := None)) idof n"
  unfolding table_ok_def by (metis fun_upd_apply option.distinct(1))

lemma table_ok_open:
  "table_ok pre nid tbl idof n \<Longrightarrow> x = connection_id pre (nid + 1) \<Longrightarrow>
   table_ok pre (nid + 1) (tbl(x \<mapsto> n)) (idof(n := x)) (Suc n)"
proof -
  assume t: "table_ok pre nid tbl idof n" and x: "x = connection_id pre (nid + 1)"
  have "k < Suc n \<and> (idof(n := x)) k = i" if "(tbl(x \<mapsto> n)) i = Some k" for i k
    using that table_okD [OF t, of i k] by (auto split: if_splits)
  then show ?thesis using t x unfolding table_ok_def by (auto simp: less_Suc_eq add.commute)
qed

lemma table_ok_dom: "table_ok pre nid tbl idof n \<Longrightarrow> finite (dom tbl)"
proof -
  assume t: "table_ok pre nid tbl idof n"
  have "dom tbl \<subseteq> idof ` {..<n}"
  proof
    fix i assume "i \<in> dom tbl"
    then obtain k where "tbl i = Some k" by auto
    then have "k < n" "idof k = i" using table_okD [OF t] by blast+
    then show "i \<in> idof ` {..<n}" by auto
  qed
  then show ?thesis by (rule finite_subset) simp
qed

lemma connection_id_inj: "connection_id p m = connection_id p n \<longleftrightarrow> m = n"
  by (simp add: connection_id_def word_unat_eq_iff)

text \<open>Below \<open>2 ^ 64\<close> connections no identifier is used twice.\<close>

lemma table_ok_fresh:
  assumes "table_ok pre nid tbl idof n" "Suc n < 2 ^ 64"
  shows "k < n \<Longrightarrow> idof k \<noteq> connection_id pre (nid + 1)"
proof
  assume k: "k < n" and e: "idof k = connection_id pre (nid + 1)"
  have "connection_id pre (of_nat (Suc k)) = connection_id pre (of_nat (Suc n))"
    using assms(1) k e by (simp add: table_ok_def add.commute)
  then have "(of_nat (Suc k) :: u64) = of_nat (Suc n)" by (simp only: connection_id_inj)
  then have "unat (of_nat (Suc k) :: u64) = unat (of_nat (Suc n) :: u64)" by simp
  moreover have "Suc k < 2 ^ 64" using k assms(2) by linarith
  ultimately have "Suc k = Suc n" using assms(2) by (simp only: unat_of_nat take_bit_eq_mod) simp
  then show False using k by simp
qed

lemma sum_bump:
  fixes f :: "nat \<Rightarrow> u64"
  assumes "k < n" "f' k = f k + d" "\<And>j. j \<noteq> k \<Longrightarrow> f' j = f j"
  shows "(\<Sum>j<n. f' j) = (\<Sum>j<n. f j) + d"
proof -
  have "(\<Sum>j<n. f' j) = f' k + (\<Sum>j\<in>{..<n} - {k}. f' j)" "(\<Sum>j<n. f j) = f k + (\<Sum>j\<in>{..<n} - {k}. f j)"
    using assms(1) by (simp_all add: sum.remove)
  moreover have "(\<Sum>j\<in>{..<n} - {k}. f' j) = (\<Sum>j\<in>{..<n} - {k}. f j)" using assms(3) by (intro sum.cong) auto
  ultimately show ?thesis using assms(2) by simp
qed

definition out_inv :: "trackedOutbound \<Rightarrow> bool" where
  "out_inv o' \<longleftrightarrow> table_ok ''transport-'' (to_nextID o') (to_connections o') (\<lambda>k. tc_id (to_heap o' k)) (to_count o')
     \<and> (\<forall>i k. to_connections o' i = Some k \<longrightarrow> \<not> tc_closeOnce (to_heap o' k))
     \<and> to_uploaded o' = (\<Sum>k<to_count o'. tc_uploaded (to_heap o' k)) \<and> to_download o' = (\<Sum>k<to_count o'. tc_downloaded (to_heap o' k))
     \<and> to_total o' = of_nat (to_count o')"

lemma out_inv_Dial: "out_inv o' \<Longrightarrow> out_inv (snd (tracked_DialContext d now network address o'))"
proof (cases d)
  case (Inr conn)
  assume i: "out_inv o'"
  let ?x = "connection_id ''transport-'' (to_nextID o' + 1)"
  have "table_ok ''transport-'' (to_nextID o' + 1) ((to_connections o')(?x \<mapsto> to_count o'))
      ((\<lambda>k. tc_id (to_heap o' k))(to_count o' := ?x)) (Suc (to_count o'))"
    by (rule table_ok_open) (use i in \<open>simp_all add: out_inv_def\<close>)
  moreover have "(\<lambda>k. tc_id (if k = to_count o' then c else to_heap o' k)) = (\<lambda>k. tc_id (to_heap o' k))(to_count o' := tc_id c)" for c
    by auto
  moreover have "k < to_count o'" if "to_connections o' i = Some k" for i k using i that table_okD by (fastforce simp: out_inv_def)
  ultimately show ?thesis using i Inr
    by (auto simp: out_inv_def tracked_DialContext_def put_conn_def Let_def add.commute)
qed (simp add: tracked_DialContext_def)

lemma out_inv_remove: "out_inv o' \<Longrightarrow> out_inv (tracked_remove i o')"
  by (auto simp: out_inv_def tracked_remove_def table_ok_remove)

text \<open>A connection changes but for its identifier, and the totals with it.\<close>

lemma out_inv_put:
  assumes "out_inv o'" "tc_id c = tc_id (to_heap o' k)" "tc_uploaded c = tc_uploaded (to_heap o' k) + du"
    "tc_downloaded c = tc_downloaded (to_heap o' k) + dd" "k < to_count o' \<or> du = 0 \<and> dd = 0"
    "\<And>i. to_connections o' i = Some k \<Longrightarrow> \<not> tc_closeOnce c"
  shows "out_inv ((put_conn k c o')\<lparr>to_uploaded := to_uploaded o' + du, to_download := to_download o' + dd\<rparr>)"
proof -
  define h where "h = (to_heap o')(k := c)"
  have h: "h k = c" "\<And>j. j \<noteq> k \<Longrightarrow> h j = to_heap o' j" by (simp_all add: h_def)
  have id: "(\<lambda>j. tc_id (h j)) = (\<lambda>j. tc_id (to_heap o' j))" using assms(2) by (auto simp: h_def)
  have sums: "(\<Sum>j<to_count o'. tc_uploaded (h j)) = (\<Sum>j<to_count o'. tc_uploaded (to_heap o' j)) + du
      \<and> (\<Sum>j<to_count o'. tc_downloaded (h j)) = (\<Sum>j<to_count o'. tc_downloaded (to_heap o' j)) + dd"
  proof (cases "k < to_count o'")
    case True
    then show ?thesis
      using sum_bump [of k "to_count o'" "\<lambda>j. tc_uploaded (h j)" "\<lambda>j. tc_uploaded (to_heap o' j)" du]
        sum_bump [of k "to_count o'" "\<lambda>j. tc_downloaded (h j)" "\<lambda>j. tc_downloaded (to_heap o' j)" dd] assms(3,4) h by simp
  next
    case False
    then have "\<forall>j < to_count o'. h j = to_heap o' j" using h(2) by auto
    then show ?thesis using False assms(5) by simp
  qed
  have "\<not> tc_closeOnce (h j)" if "to_connections o' i = Some j" for i j
    using that assms(1,6) h by (cases "j = k") (auto simp: out_inv_def)
  then show ?thesis using assms(1) id sums unfolding out_inv_def put_conn_def h_def [symmetric] by simp
qed

lemma out_inv_Close: "out_inv o' \<Longrightarrow> out_inv (snd (tracked_Close k o'))"
proof (cases "tc_closeOnce (to_heap o' k)")
  case False
  assume i: "out_inv o'"
  let ?o = "tracked_remove (tc_id (to_heap o' k)) o'"
  let ?c = "(to_heap o' k)\<lparr>tc_closeOnce := True, tc_closeErr := nc_closeErr (tc_Conn (to_heap o' k))\<rparr>"
  have "tc_id (to_heap o' k) = x" if "to_connections o' x = Some k" for x
    using i that table_okD by (fastforce simp: out_inv_def)
  then have "out_inv ((put_conn k ?c ?o)\<lparr>to_uploaded := to_uploaded ?o + 0, to_download := to_download ?o + 0\<rparr>)"
    by (intro out_inv_put out_inv_remove i) (auto simp: tracked_remove_def split: if_splits)
  moreover have "snd (tracked_Close k o') = (put_conn k ?c ?o)\<lparr>to_uploaded := to_uploaded ?o + 0, to_download := to_download ?o + 0\<rparr>"
    using False by (simp add: tracked_Close_def tracked_remove_def put_conn_def Let_def)
  ultimately show ?thesis by simp
qed (simp add: tracked_Close_def)

lemma out_inv_finish: "out_inv o' \<Longrightarrow> out_inv (tracked_finish k o')"
  by (simp add: tracked_finish_def out_inv_remove)

lemma out_inv_Read:
  assumes "out_inv o'" "k < to_count o'"
  shows "out_inv (snd (tracked_Read now k r o'))"
proof -
  obtain n e where r: "r = (n, e)" by fastforce
  let ?c = "tracked_touch now ((to_heap o' k)\<lparr>tc_downloaded := tc_downloaded (to_heap o' k) + of_nat n\<rparr>)"
  have "out_inv ((put_conn k ?c o')\<lparr>to_uploaded := to_uploaded o' + 0, to_download := to_download o' + of_nat n\<rparr>)"
    by (rule out_inv_put) (use assms in \<open>auto simp: tracked_touch_def out_inv_def\<close>)
  then have "out_inv ((put_conn k ?c o')\<lparr>to_download := to_download o' + of_nat n\<rparr>)" by (simp add: put_conn_def)
  then show ?thesis using assms(1) by (simp add: r tracked_Read_def Let_def out_inv_finish)
qed

lemma out_inv_Write:
  assumes "out_inv o'" "k < to_count o'"
  shows "out_inv (snd (tracked_Write now k r o'))"
proof -
  obtain n e where r: "r = (n, e)" by fastforce
  let ?c = "tracked_touch now ((to_heap o' k)\<lparr>tc_uploaded := tc_uploaded (to_heap o' k) + of_nat n\<rparr>)"
  have "out_inv ((put_conn k ?c o')\<lparr>to_uploaded := to_uploaded o' + of_nat n, to_download := to_download o' + 0\<rparr>)"
    by (rule out_inv_put) (use assms in \<open>auto simp: tracked_touch_def out_inv_def\<close>)
  then have "out_inv ((put_conn k ?c o')\<lparr>to_uploaded := to_uploaded o' + of_nat n\<rparr>)" by (simp add: put_conn_def)
  then show ?thesis using assms(1) by (simp add: r tracked_Write_def Let_def out_inv_finish)
qed

lemma close_each_inv:
  assumes "P s" "\<And>k s. P s \<Longrightarrow> P (snd (close k s))"
  shows "P (snd (close_each close ks s))"
proof -
  have "P (snd (foldl (\<lambda>(es, s) k. let (e, s') = close k s in (es @ [e], s')) (es, s) ks))" for es
    using assms(1)
  proof (induction ks arbitrary: es s)
    case (Cons k ks)
    then show ?case using assms(2) [of s k] by (simp add: case_prod_unfold Let_def)
  qed simp
  then show ?thesis by (simp add: close_each_def)
qed

lemma close_each_snoc: "snd (close_each close (ks @ [k]) s) = snd (close k (snd (close_each close ks s)))"
  by (simp add: close_each_def case_prod_unfold Let_def)

lemma table_ok_inj:
  assumes "table_ok pre nid tbl idof n" "n < 2 ^ 64" "j < n" "k < n" "idof j = idof k"
  shows "j = k"
proof -
  have "connection_id pre (of_nat (Suc j)) = connection_id pre (of_nat (Suc k))"
    using assms(1,3,4,5) by (simp add: table_ok_def)
  then have "unat (of_nat (Suc j) :: u64) = unat (of_nat (Suc k) :: u64)" by (simp only: connection_id_inj)
  moreover have "Suc j < 2 ^ 64" "Suc k < 2 ^ 64" using assms(2-4) by linarith+
  ultimately show ?thesis by (simp only: unat_of_nat take_bit_eq_mod) simp
qed

definition log_inv :: "connectionTracker \<Rightarrow> bool" where
  "log_inv l \<longleftrightarrow> table_ok ''connection-'' (tk_nextID l) (tk_connections l) (\<lambda>i. lg_id (tk_heap l i)) (tk_count l)
     \<and> (\<forall>x i. tk_connections l x = Some i \<longrightarrow> \<not> lg_closeOnce (tk_heap l i)) \<and> tk_total l = of_nat (tk_count l)
     \<and> (tk_count l < 2 ^ 64 \<longrightarrow> (\<forall>i < tk_count l. lg_closeOnce (tk_heap l i) \<or> tk_connections l (lg_id (tk_heap l i)) = Some i))"

lemma log_inv_Open: "log_inv l \<Longrightarrow> log_inv (snd (OpenConnection now m f l))"
proof -
  assume i: "log_inv l"
  define n where "n = tk_count l"
  define x where "x = connection_id ''connection-'' (tk_nextID l + 1)"
  define c where "c = \<lparr> lg_id = x, lg_metadata = m, lg_openedAt = now, lg_lastActivity = now, lg_uploaded = 0,
                lg_downloaded = 0, lg_closeFunc = f, lg_closeOnce = False, lg_closeErr = None \<rparr>"
  have T: "table_ok ''connection-'' (tk_nextID l) (tk_connections l) (\<lambda>i. lg_id (tk_heap l i)) n" using i by (simp add: log_inv_def n_def)
  have "table_ok ''connection-'' (tk_nextID l + 1) ((tk_connections l)(x \<mapsto> n)) ((\<lambda>i. lg_id (tk_heap l i))(n := x)) (Suc n)"
    by (rule table_ok_open [OF T]) (simp add: x_def)
  moreover have "(\<lambda>i. lg_id (((tk_heap l)(n := c)) i)) = (\<lambda>i. lg_id (tk_heap l i))(n := x)" by (auto simp: c_def)
  moreover have "lg_closeOnce (((tk_heap l)(n := c)) j) \<or> ((tk_connections l)(x \<mapsto> n)) (lg_id (((tk_heap l)(n := c)) j)) = Some j"
    if "Suc n < 2 ^ 64" "j < Suc n" for j
  proof (cases "j = n")
    case False
    then have "j < n" using that(2) by simp
    then have "lg_id (tk_heap l j) \<noteq> x" using table_ok_fresh [OF T that(1)] by (simp add: x_def)
    then show ?thesis using i \<open>j < n\<close> that(1) by (simp add: log_inv_def n_def)
  qed (simp add: c_def)
  moreover have "\<not> lg_closeOnce (((tk_heap l)(n := c)) j)" if "((tk_connections l)(x \<mapsto> n)) y = Some j" for y j
    using that i table_okD [OF T] by (cases "y = x") (auto simp: c_def log_inv_def)
  moreover have "snd (OpenConnection now m f l) = l\<lparr>tk_nextID := tk_nextID l + 1, tk_count := Suc n, tk_heap := (tk_heap l)(n := c),
      tk_connections := (tk_connections l)(x \<mapsto> n), tk_total := tk_total l + 1\<rparr>"
    by (simp add: OpenConnection_def Let_def n_def x_def c_def)
  ultimately show ?thesis using i unfolding log_inv_def by (simp add: n_def [symmetric] add.commute del: fun_upd_apply)
qed

lemma log_inv_put:
  assumes "log_inv l" "lg_id c = lg_id (tk_heap l i)" "lg_closeOnce c = lg_closeOnce (tk_heap l i)"
  shows "log_inv (put_logical i c l)"
proof -
  define h where "h = (tk_heap l)(i := c)"
  have "(\<lambda>j. lg_id (h j)) = (\<lambda>j. lg_id (tk_heap l j))" using assms(2) by (auto simp: h_def)
  moreover have "(\<lambda>j. lg_closeOnce (h j)) = (\<lambda>j. lg_closeOnce (tk_heap l j))" using assms(3) by (auto simp: h_def)
  ultimately show ?thesis using assms(1) unfolding log_inv_def put_logical_def h_def [symmetric] by (simp add: fun_eq_iff)
qed

lemma log_inv_Record: "log_inv l \<Longrightarrow> log_inv (RecordUploaded now i n l)" "log_inv l \<Longrightarrow> log_inv (RecordDownloaded now i n l)"
  by (auto simp: RecordUploaded_def RecordDownloaded_def intro!: log_inv_put)

lemma log_inv_close:
  assumes "log_inv l" "i < tk_count l" "lg_id c = lg_id (tk_heap l i)" "lg_closeOnce c"
  shows "log_inv (tracker_remove (lg_id (tk_heap l i)) (put_logical i c l))"
proof -
  define h where "h = (tk_heap l)(i := c)"
  have T: "table_ok ''connection-'' (tk_nextID l) (tk_connections l) (\<lambda>i. lg_id (tk_heap l i)) (tk_count l)" using assms(1) by (simp add: log_inv_def)
  have id: "(\<lambda>j. lg_id (h j)) = (\<lambda>j. lg_id (tk_heap l j))" using assms(3) by (auto simp: h_def)
  then have id': "lg_id (h j) = lg_id (tk_heap l j)" for j by (rule fun_cong)
  let ?t = "(tk_connections l)(lg_id (tk_heap l i) := None)"
  have "table_ok ''connection-'' (tk_nextID l) ?t (\<lambda>j. lg_id (h j)) (tk_count l)" unfolding id by (rule table_ok_remove [OF T])
  moreover have "\<not> lg_closeOnce (h j)" if "?t x = Some j" for x j
    using that assms(1) table_okD [OF T, of x j] by (cases "j = i") (auto simp: h_def log_inv_def split: if_splits)
  moreover have "lg_closeOnce (h j) \<or> ?t (lg_id (h j)) = Some j" if "tk_count l < 2 ^ 64" "j < tk_count l" for j
    using that assms(1,2,4) table_ok_inj [OF T that(1,2) assms(2)] by (cases "j = i") (auto simp: h_def log_inv_def)
  ultimately show ?thesis using assms(1) unfolding log_inv_def tracker_remove_def put_logical_def h_def [symmetric]
    by (simp del: fun_upd_apply)
qed

text \<open>What a wrapped connection's two trackers counted is the same.\<close>

definition tie_inv :: "trackers \<Rightarrow> bool" where
  "tie_inv t \<longleftrightarrow> distinct (map lw_Conn (tr_wrapped t)) \<and> distinct (map lw_activity (tr_wrapped t))
     \<and> (\<forall>w \<in> set (tr_wrapped t). lw_Conn w < to_count (tr_outbound t) \<and> lw_activity w < tk_count (tr_connections t)
          \<and> tc_uploaded (to_heap (tr_outbound t) (lw_Conn w)) = lg_uploaded (tk_heap (tr_connections t) (lw_activity w))
          \<and> tc_downloaded (to_heap (tr_outbound t) (lw_Conn w)) = lg_downloaded (tk_heap (tr_connections t) (lw_activity w)))"

definition tracker_inv :: "trackers \<Rightarrow> bool" where
  "tracker_inv t \<longleftrightarrow> out_inv (tr_outbound t) \<and> log_inv (tr_connections t) \<and> tie_inv t"

definition same_out :: "trackedOutbound \<Rightarrow> trackedOutbound \<Rightarrow> bool" where
  "same_out o1 o2 \<longleftrightarrow> to_count o1 \<le> to_count o2 \<and> (\<forall>k < to_count o1. tc_uploaded (to_heap o2 k) = tc_uploaded (to_heap o1 k)
     \<and> tc_downloaded (to_heap o2 k) = tc_downloaded (to_heap o1 k))"

definition same_log :: "connectionTracker \<Rightarrow> connectionTracker \<Rightarrow> bool" where
  "same_log l1 l2 \<longleftrightarrow> tk_count l1 \<le> tk_count l2 \<and> (\<forall>i < tk_count l1. lg_uploaded (tk_heap l2 i) = lg_uploaded (tk_heap l1 i)
     \<and> lg_downloaded (tk_heap l2 i) = lg_downloaded (tk_heap l1 i))"

lemma same_refl [simp]: "same_out o1 o1" "same_log l1 l1"
  by (simp_all add: same_out_def same_log_def)

lemma same_trans: "same_out o1 o2 \<Longrightarrow> same_out o2 o3 \<Longrightarrow> same_out o1 o3" "same_log l1 l2 \<Longrightarrow> same_log l2 l3 \<Longrightarrow> same_log l1 l3"
  by (auto simp: same_out_def same_log_def)

lemma tie_inv_same:
  assumes "tie_inv t" "same_out (tr_outbound t) (tr_outbound u)" "same_log (tr_connections t) (tr_connections u)"
    "map lw_Conn (tr_wrapped u) = map lw_Conn (tr_wrapped t)" "map lw_activity (tr_wrapped u) = map lw_activity (tr_wrapped t)"
  shows "tie_inv u"
proof -
  have "lw_Conn w < to_count (tr_outbound u) \<and> lw_activity w < tk_count (tr_connections u)
      \<and> tc_uploaded (to_heap (tr_outbound u) (lw_Conn w)) = lg_uploaded (tk_heap (tr_connections u) (lw_activity w))
      \<and> tc_downloaded (to_heap (tr_outbound u) (lw_Conn w)) = lg_downloaded (tk_heap (tr_connections u) (lw_activity w))"
    if mem: "w \<in> set (tr_wrapped u)" for w
  proof -
    obtain j where j: "j < length (tr_wrapped u)" "w = tr_wrapped u ! j" using mem unfolding in_set_conv_nth by blast
    have l: "length (tr_wrapped u) = length (tr_wrapped t)" using arg_cong [OF assms(4), of length] by simp
    have e: "lw_Conn w = lw_Conn (tr_wrapped t ! j)" "lw_activity w = lw_activity (tr_wrapped t ! j)"
      using arg_cong [OF assms(4), of "\<lambda>xs. xs ! j"] arg_cong [OF assms(5), of "\<lambda>xs. xs ! j"] j l by simp_all
    have "tr_wrapped t ! j \<in> set (tr_wrapped t)" using j l by simp
    then have w: "lw_Conn w < to_count (tr_outbound t) \<and> lw_activity w < tk_count (tr_connections t)
      \<and> tc_uploaded (to_heap (tr_outbound t) (lw_Conn w)) = lg_uploaded (tk_heap (tr_connections t) (lw_activity w))
      \<and> tc_downloaded (to_heap (tr_outbound t) (lw_Conn w)) = lg_downloaded (tk_heap (tr_connections t) (lw_activity w))"
      using assms(1) unfolding e tie_inv_def by blast
    then show ?thesis using assms(2,3) by (simp add: same_out_def same_log_def)
  qed
  then show ?thesis using assms(1,4,5) by (simp add: tie_inv_def)
qed

lemma same_out_ops:
  "same_out o' (snd (tracked_DialContext d now network address o'))" "same_out o' (snd (tracked_Close k o'))"
  "same_out o' (snd (tracked_CloseWrite k o'))"
  by (auto simp: same_out_def tracked_DialContext_def tracked_Close_def tracked_CloseWrite_def tracked_remove_def put_conn_def Let_def
      split: sum.split option.split)

lemma same_log_Open: "same_log l (snd (OpenConnection now m f l))"
  by (simp add: same_log_def OpenConnection_def Let_def)

lemma logical_Close_frame:
  "out_inv (tr_outbound t) \<Longrightarrow> out_inv (tr_outbound (snd (logical_Close i t)))"
  "same_out (tr_outbound t) (tr_outbound (snd (logical_Close i t)))"
  "same_log (tr_connections t) (tr_connections (snd (logical_Close i t)))"
  "tr_wrapped (snd (logical_Close i t)) = tr_wrapped t"
  "tk_count (tr_connections (snd (logical_Close i t))) = tk_count (tr_connections t)"
  using out_inv_Close same_out_ops(2)
  by (auto simp: logical_Close_def Let_def case_prod_unfold same_log_def tracker_remove_def put_logical_def split: option.split close_func.split)

lemma log_inv_logical_Close:
  assumes "log_inv (tr_connections t)" "i < tk_count (tr_connections t)"
  shows "log_inv (tr_connections (snd (logical_Close i t)))"
  using assms log_inv_close [OF assms] by (simp add: logical_Close_def Let_def case_prod_unfold)

lemma tracker_inv_logical_Close:
  assumes "tracker_inv t" "i < tk_count (tr_connections t)"
  shows "tracker_inv (snd (logical_Close i t))"
  using assms logical_Close_frame [where t = t and i = i] log_inv_logical_Close [of t i] tie_inv_same [of t "snd (logical_Close i t)"]
  by (simp add: tracker_inv_def)

lemma map_wrapped_update:
  "j < length ws \<Longrightarrow> w = ws ! j \<Longrightarrow> map lw_Conn (ws[j := w\<lparr>lw_closeOnce := b, lw_closeErr := e\<rparr>]) = map lw_Conn ws"
  "j < length ws \<Longrightarrow> w = ws ! j \<Longrightarrow> map lw_activity (ws[j := w\<lparr>lw_closeOnce := b, lw_closeErr := e\<rparr>]) = map lw_activity ws"
  by (simp_all add: map_update list_update_same_conv)

lemma tracker_inv_wrapped:
  assumes "tracker_inv t" "map lw_Conn ws = map lw_Conn (tr_wrapped t)" "map lw_activity ws = map lw_activity (tr_wrapped t)"
  shows "tracker_inv (t\<lparr>tr_wrapped := ws\<rparr>)"
  using assms tie_inv_same [of t "t\<lparr>tr_wrapped := ws\<rparr>"] by (simp add: tracker_inv_def)

lemma tracker_inv_out:
  assumes "tracker_inv t" "out_inv o'" "same_out (tr_outbound t) o'"
  shows "tracker_inv (t\<lparr>tr_outbound := o'\<rparr>)"
  using assms tie_inv_same [of t "t\<lparr>tr_outbound := o'\<rparr>"] by (simp add: tracker_inv_def)

lemma tracker_inv_log:
  assumes "tracker_inv t" "log_inv l" "same_log (tr_connections t) l"
  shows "tracker_inv (t\<lparr>tr_connections := l\<rparr>)"
  using assms tie_inv_same [of t "t\<lparr>tr_connections := l\<rparr>"] by (simp add: tracker_inv_def)

lemma tracker_inv_Dial: "tracker_inv t \<Longrightarrow> tracker_inv (snd (runtime_DialContext d now network address t))"
proof (cases d)
  case (Inr conn)
  assume t: "tracker_inv t"
  let ?o = "snd (tracked_DialContext d now network address (tr_outbound t))"
  obtain m l where l: "l = snd (OpenConnection now m (Some (CloseTransport (to_count (tr_outbound t)))) (tr_connections t))"
    and e: "snd (runtime_DialContext d now network address t) = t\<lparr>tr_outbound := ?o, tr_connections := l,
      tr_wrapped := tr_wrapped t @ [\<lparr> lw_Conn = to_count (tr_outbound t), lw_activity = tk_count (tr_connections t), lw_closeOnce = False, lw_closeErr = None \<rparr>]\<rparr>"
    using Inr by (simp add: runtime_DialContext_def tracked_DialContext_def OpenConnection_def Let_def)
  let ?t = "t\<lparr>tr_outbound := ?o, tr_connections := l\<rparr>"
  have i: "tracker_inv ?t"
    using tracker_inv_log [OF tracker_inv_out [OF t, of ?o], of l] t out_inv_Dial same_out_ops(1) log_inv_Open same_log_Open l
    by (simp add: tracker_inv_def)
  have new: "tc_uploaded (to_heap ?o (to_count (tr_outbound t))) = 0" "tc_downloaded (to_heap ?o (to_count (tr_outbound t))) = 0"
    "to_count ?o = Suc (to_count (tr_outbound t))" "tk_count l = Suc (tk_count (tr_connections t))"
    "lg_uploaded (tk_heap l (tk_count (tr_connections t))) = 0" "lg_downloaded (tk_heap l (tk_count (tr_connections t))) = 0"
    using Inr by (simp_all add: l tracked_DialContext_def OpenConnection_def put_conn_def Let_def)
  have "to_count (tr_outbound t) \<notin> lw_Conn ` set (tr_wrapped t)" "tk_count (tr_connections t) \<notin> lw_activity ` set (tr_wrapped t)"
    using t by (auto simp: tracker_inv_def tie_inv_def)
  then show ?thesis unfolding e using i new by (simp add: tracker_inv_def tie_inv_def)
qed (simp add: runtime_DialContext_def tracked_DialContext_def)

text \<open>How reading and writing change the counters.\<close>

lemma tracked_Read_counts:
  "to_count (snd (tracked_Read now k r o')) = to_count o'"
  "tc_uploaded (to_heap (snd (tracked_Read now k r o')) j) = tc_uploaded (to_heap o' j)"
  "tc_downloaded (to_heap (snd (tracked_Read now k r o')) j) = tc_downloaded (to_heap o' j) + (if j = k then of_nat (fst r) else 0)"
  by (auto simp: tracked_Read_def tracked_finish_def tracked_remove_def put_conn_def tracked_touch_def Let_def split: prod.split)

lemma tracked_Write_counts:
  "to_count (snd (tracked_Write now k r o')) = to_count o'"
  "tc_downloaded (to_heap (snd (tracked_Write now k r o')) j) = tc_downloaded (to_heap o' j)"
  "tc_uploaded (to_heap (snd (tracked_Write now k r o')) j) = tc_uploaded (to_heap o' j) + (if j = k then of_nat (fst r) else 0)"
  by (auto simp: tracked_Write_def tracked_finish_def tracked_remove_def put_conn_def tracked_touch_def Let_def split: prod.split)

lemma Record_counts:
  "tk_count (RecordUploaded now i n l) = tk_count l" "tk_count (RecordDownloaded now i n l) = tk_count l"
  "lg_uploaded (tk_heap (RecordUploaded now i n l) j) = lg_uploaded (tk_heap l j) + (if j = i then n else 0)"
  "lg_downloaded (tk_heap (RecordUploaded now i n l) j) = lg_downloaded (tk_heap l j)"
  "lg_downloaded (tk_heap (RecordDownloaded now i n l) j) = lg_downloaded (tk_heap l j) + (if j = i then n else 0)"
  "lg_uploaded (tk_heap (RecordDownloaded now i n l) j) = lg_uploaded (tk_heap l j)"
  by (auto simp: RecordUploaded_def RecordDownloaded_def put_logical_def)

lemma passed_on: "fst (tracked_Read now k r o') = r" "fst (tracked_Write now k r o') = r"
  by (simp_all add: tracked_Read_def tracked_Write_def Let_def case_prod_unfold)

lemma distinct_map_same: "distinct (map f xs) \<Longrightarrow> x \<in> set xs \<Longrightarrow> y \<in> set xs \<Longrightarrow> f x = f y \<longleftrightarrow> x = y"
  by (auto simp: distinct_map inj_on_def)

lemma tie_inv_traffic:
  assumes "tie_inv t" "w \<in> set (tr_wrapped t)"
    "to_count o' = to_count (tr_outbound t)" "tk_count l = tk_count (tr_connections t)"
    "\<And>j. tc_uploaded (to_heap o' j) = tc_uploaded (to_heap (tr_outbound t) j) + (if j = lw_Conn w then u else 0)"
    "\<And>j. tc_downloaded (to_heap o' j) = tc_downloaded (to_heap (tr_outbound t) j) + (if j = lw_Conn w then d else 0)"
    "\<And>j. lg_uploaded (tk_heap l j) = lg_uploaded (tk_heap (tr_connections t) j) + (if j = lw_activity w then u else 0)"
    "\<And>j. lg_downloaded (tk_heap l j) = lg_downloaded (tk_heap (tr_connections t) j) + (if j = lw_activity w then d else 0)"
  shows "tie_inv (t\<lparr>tr_outbound := o', tr_connections := l\<rparr>)"
proof -
  have "lw_Conn x = lw_Conn w \<longleftrightarrow> lw_activity x = lw_activity w" if "x \<in> set (tr_wrapped t)" for x
    using assms(1,2) that distinct_map_same [of lw_Conn "tr_wrapped t" x w] distinct_map_same [of lw_activity "tr_wrapped t" x w]
    by (simp add: tie_inv_def)
  then show ?thesis using assms(1) unfolding tie_inv_def by (simp add: assms(3-))
qed

lemma tracker_inv_wrapped_io:
  assumes "tracker_inv t" "j < length (tr_wrapped t)"
  shows "tracker_inv (snd (logical_Read now (tr_wrapped t ! j) r t))" "tracker_inv (snd (logical_Write now (tr_wrapped t ! j) r t))"
proof -
  let ?w = "tr_wrapped t ! j"
  have w: "?w \<in> set (tr_wrapped t)" using assms(2) by simp
  have k: "lw_Conn ?w < to_count (tr_outbound t)" "tie_inv t" "out_inv (tr_outbound t)" "log_inv (tr_connections t)"
    using assms(1) w by (auto simp: tracker_inv_def tie_inv_def)
  have "tie_inv (t\<lparr>tr_outbound := snd (tracked_Read now (lw_Conn ?w) r (tr_outbound t)),
      tr_connections := RecordDownloaded now (lw_activity ?w) (of_nat (fst r)) (tr_connections t)\<rparr>)"
    by (rule tie_inv_traffic [OF k(2) w, where u = 0 and d = "of_nat (fst r)"]) (simp_all add: tracked_Read_counts Record_counts)
  then show "tracker_inv (snd (logical_Read now ?w r t))"
    using out_inv_Read [OF k(3,1)] log_inv_Record(2) [OF k(4)] by (simp add: tracker_inv_def logical_Read_def case_prod_unfold Let_def passed_on)
  have "tie_inv (t\<lparr>tr_outbound := snd (tracked_Write now (lw_Conn ?w) r (tr_outbound t)),
      tr_connections := RecordUploaded now (lw_activity ?w) (of_nat (fst r)) (tr_connections t)\<rparr>)"
    by (rule tie_inv_traffic [OF k(2) w, where d = 0 and u = "of_nat (fst r)"]) (simp_all add: tracked_Write_counts Record_counts)
  then show "tracker_inv (snd (logical_Write now ?w r t))"
    using out_inv_Write [OF k(3,1)] log_inv_Record(1) [OF k(4)] by (simp add: tracker_inv_def logical_Write_def case_prod_unfold Let_def passed_on)
qed

lemma tie_inv_own:
  assumes "tie_inv t" "to_count (tr_outbound u) = to_count (tr_outbound t)" "tk_count (tr_connections u) = tk_count (tr_connections t)"
    "tr_wrapped u = tr_wrapped t"
    "\<And>j. j \<in> lw_Conn ` set (tr_wrapped t) \<Longrightarrow> tc_uploaded (to_heap (tr_outbound u) j) = tc_uploaded (to_heap (tr_outbound t) j)
       \<and> tc_downloaded (to_heap (tr_outbound u) j) = tc_downloaded (to_heap (tr_outbound t) j)"
    "\<And>j. j \<in> lw_activity ` set (tr_wrapped t) \<Longrightarrow> lg_uploaded (tk_heap (tr_connections u) j) = lg_uploaded (tk_heap (tr_connections t) j)
       \<and> lg_downloaded (tk_heap (tr_connections u) j) = lg_downloaded (tk_heap (tr_connections t) j)"
  shows "tie_inv u"
  using assms(1) unfolding tie_inv_def by (simp add: assms(2-))

lemma tracker_inv_own_transport:
  assumes "tracker_inv t" "own_transport k t"
  shows "tracker_inv (t\<lparr>tr_outbound := snd (tracked_Read now k r (tr_outbound t))\<rparr>)"
    "tracker_inv (t\<lparr>tr_outbound := snd (tracked_Write now k r (tr_outbound t))\<rparr>)"
proof -
  have k: "k < to_count (tr_outbound t)" "\<And>j. j \<in> lw_Conn ` set (tr_wrapped t) \<Longrightarrow> j \<noteq> k" "tie_inv t" "out_inv (tr_outbound t)" "log_inv (tr_connections t)"
    using assms by (auto simp: tracker_inv_def own_transport_def)
  have "tie_inv (t\<lparr>tr_outbound := snd (tracked_Read now k r (tr_outbound t))\<rparr>)"
    by (rule tie_inv_own [OF k(3)]) (simp_all add: tracked_Read_counts k(2))
  then show "tracker_inv (t\<lparr>tr_outbound := snd (tracked_Read now k r (tr_outbound t))\<rparr>)"
    using out_inv_Read [OF k(4,1)] k(5) by (simp add: tracker_inv_def)
  have "tie_inv (t\<lparr>tr_outbound := snd (tracked_Write now k r (tr_outbound t))\<rparr>)"
    by (rule tie_inv_own [OF k(3)]) (simp_all add: tracked_Write_counts k(2))
  then show "tracker_inv (t\<lparr>tr_outbound := snd (tracked_Write now k r (tr_outbound t))\<rparr>)"
    using out_inv_Write [OF k(4,1)] k(5) by (simp add: tracker_inv_def)
qed

lemma tracker_inv_own_logical:
  assumes "tracker_inv t" "own_logical i t"
  shows "tracker_inv (t\<lparr>tr_connections := RecordUploaded now i n (tr_connections t)\<rparr>)"
    "tracker_inv (t\<lparr>tr_connections := RecordDownloaded now i n (tr_connections t)\<rparr>)"
proof -
  have k: "\<And>j. j \<in> lw_activity ` set (tr_wrapped t) \<Longrightarrow> j \<noteq> i" "tie_inv t" "out_inv (tr_outbound t)" "log_inv (tr_connections t)"
    using assms by (auto simp: tracker_inv_def own_logical_def)
  have "tie_inv (t\<lparr>tr_connections := RecordUploaded now i n (tr_connections t)\<rparr>)"
    "tie_inv (t\<lparr>tr_connections := RecordDownloaded now i n (tr_connections t)\<rparr>)"
    by (rule tie_inv_own [OF k(2)]; simp add: Record_counts k(1))+
  then show "tracker_inv (t\<lparr>tr_connections := RecordUploaded now i n (tr_connections t)\<rparr>)"
    "tracker_inv (t\<lparr>tr_connections := RecordDownloaded now i n (tr_connections t)\<rparr>)"
    using log_inv_Record [OF k(4)] k(3) by (simp_all add: tracker_inv_def)
qed

lemma close_each_inv_on:
  assumes "P s" "\<And>k s. P s \<Longrightarrow> k \<in> set ks \<Longrightarrow> P (snd (close k s))"
  shows "P (snd (close_each close ks s))"
  using assms
proof (induction ks rule: rev_induct)
  case (snoc k ks)
  then show ?case by (simp add: close_each_snoc)
qed (simp add: close_each_def)

lemma set_map_filterD: "i \<in> set (List.map_filter f xs) \<Longrightarrow> \<exists>x \<in> set xs. f x = Some i"
  by (auto simp: List.map_filter_def)

lemma set_map_filterI: "x \<in> set xs \<Longrightarrow> f x = Some i \<Longrightarrow> i \<in> set (List.map_filter f xs)"
  by (force simp: List.map_filter_def)

lemma tracker_inv_Close: "tracker_inv t \<Longrightarrow> tracker_inv (snd (tracker_Close ord t))"
proof -
  assume t: "tracker_inv t"
  let ?P = "\<lambda>u. tracker_inv u \<and> tk_count (tr_connections u) = tk_count (tr_connections t)"
  let ?ks = "List.map_filter (tk_connections (tr_connections t)) (ord (tk_connections (tr_connections t)))"
  have T: "table_ok ''connection-'' (tk_nextID (tr_connections t)) (tk_connections (tr_connections t))
      (\<lambda>i. lg_id (tk_heap (tr_connections t) i)) (tk_count (tr_connections t))"
    using t by (simp add: tracker_inv_def log_inv_def)
  have "i < tk_count (tr_connections t)" if "i \<in> set ?ks" for i
    using set_map_filterD [OF that] table_okD [OF T] by blast
  then have "?P (snd (close_each logical_Close ?ks t))"
    by (intro close_each_inv_on [where P = ?P]) (auto simp: t tracker_inv_logical_Close logical_Close_frame(5))
  then show ?thesis by (simp add: tracker_Close_def case_prod_unfold Let_def)
qed

lemma tracked_CloseAll_frame:
  assumes "out_inv o'"
  shows "out_inv (snd (tracked_CloseAll ord e o'))" "same_out o' (snd (tracked_CloseAll ord e o'))"
proof -
  let ?P = "\<lambda>u. out_inv u \<and> same_out o' u"
  have "?P (snd (close_each tracked_Close ks o'))" for ks
    by (rule close_each_inv [where P = ?P]) (use assms in \<open>auto simp: out_inv_Close intro: same_trans(1) [OF _ same_out_ops(2)]\<close>)
  then show "out_inv (snd (tracked_CloseAll ord e o'))" "same_out o' (snd (tracked_CloseAll ord e o'))"
    by (simp_all add: tracked_CloseAll_def case_prod_unfold Let_def)
qed

lemma tracker_inv_CloseAll: "tracker_inv t \<Longrightarrow> tracker_inv (snd (close_trackers ord e t))"
proof -
  assume t: "tracker_inv t"
  let ?t1 = "snd (tracker_Close ord t)"
  have i: "tracker_inv ?t1" using t by (rule tracker_inv_Close)
  then have "out_inv (tr_outbound ?t1)" by (simp add: tracker_inv_def)
  then show ?thesis using tracker_inv_out [OF i] tracked_CloseAll_frame by (simp add: close_trackers_def case_prod_unfold Let_def)
qed

lemma tracker_inv_step: "tracker_inv t \<Longrightarrow> tracker_inv (tracker_step ord t op)"
proof (cases op)
  case (TkClose j)
  assume t: "tracker_inv t"
  show ?thesis
  proof (cases "j < length (tr_wrapped t) \<and> \<not> lw_closeOnce (tr_wrapped t ! j)")
    case True
    let ?u = "snd (logical_Close (lw_activity (tr_wrapped t ! j)) t)"
    have "lw_activity (tr_wrapped t ! j) < tk_count (tr_connections t)" using t True by (simp add: tracker_inv_def tie_inv_def)
    then have u: "tracker_inv ?u" by (rule tracker_inv_logical_Close [OF t])
    have "tracker_inv (?u\<lparr>tr_wrapped := (tr_wrapped ?u)[j := (tr_wrapped t ! j)\<lparr>lw_closeOnce := True, lw_closeErr := e\<rparr>]\<rparr>)" for e
      by (rule tracker_inv_wrapped [OF u]) (use True in \<open>simp_all add: logical_Close_frame(4) map_wrapped_update\<close>)
    then show ?thesis using True by (simp add: TkClose wrapped_Close_def Let_def case_prod_unfold)
  qed (use t in \<open>auto simp: TkClose wrapped_Close_def\<close>)
next
  case (TkTransport d now network address)
  assume t: "tracker_inv t"
  then have "out_inv (tr_outbound t)" by (simp add: tracker_inv_def)
  then show ?thesis using tracker_inv_out [OF t out_inv_Dial same_out_ops(1)] TkTransport by simp
next
  case (TkTransportClose k)
  assume t: "tracker_inv t"
  then have "out_inv (tr_outbound t)" by (simp add: tracker_inv_def)
  then show ?thesis using tracker_inv_out [OF t out_inv_Close same_out_ops(2)] TkTransportClose t by simp
next
  case (TkTransportCloseWrite k)
  assume t: "tracker_inv t"
  then have "out_inv (tr_outbound t)" by (simp add: tracker_inv_def)
  then have "out_inv (snd (tracked_CloseWrite k (tr_outbound t)))" by (simp add: tracked_CloseWrite_def out_inv_Close split: option.split)
  then show ?thesis using tracker_inv_out [OF t _ same_out_ops(3)] TkTransportCloseWrite t by simp
next
  case (TkOpen now m f)
  assume t: "tracker_inv t"
  then have "log_inv (tr_connections t)" by (simp add: tracker_inv_def)
  then show ?thesis using tracker_inv_log [OF t log_inv_Open same_log_Open] TkOpen t by simp
next
  case (TkCloseConnection i)
  assume t: "tracker_inv t"
  then have T: "table_ok ''connection-'' (tk_nextID (tr_connections t)) (tk_connections (tr_connections t))
      (\<lambda>i. lg_id (tk_heap (tr_connections t) i)) (tk_count (tr_connections t))"
    by (simp add: tracker_inv_def log_inv_def)
  show ?thesis using t table_okD [OF T, of i] tracker_inv_logical_Close
    by (auto simp: TkCloseConnection tracker_CloseConnection_def split: option.split)
qed (simp_all add: tracker_inv_Dial tracker_inv_wrapped_io tracker_inv_own_transport tracker_inv_own_logical
      tracker_inv_logical_Close tracker_inv_CloseAll)

text \<open>
  Closing a logical connection closes its transport: one that is closed has closed the transport it is to close, and that of a wrapped connection is its own.
\<close>

definition close_inv :: "trackers \<Rightarrow> bool" where
  "close_inv t \<longleftrightarrow>
     (\<forall>i < tk_count (tr_connections t). \<forall>k. lg_closeFunc (tk_heap (tr_connections t) i) = Some (CloseTransport k) \<longrightarrow>
        k < to_count (tr_outbound t) \<and> (lg_closeOnce (tk_heap (tr_connections t) i) \<longrightarrow> tc_closeOnce (to_heap (tr_outbound t) k)))
     \<and> (\<forall>w \<in> set (tr_wrapped t). lw_activity w < tk_count (tr_connections t)
          \<and> lg_closeFunc (tk_heap (tr_connections t) (lw_activity w)) = Some (CloseTransport (lw_Conn w)))"

definition closes_kept :: "trackedOutbound \<Rightarrow> trackedOutbound \<Rightarrow> bool" where
  "closes_kept o1 o2 \<longleftrightarrow> to_count o1 \<le> to_count o2 \<and> (\<forall>k < to_count o1. tc_closeOnce (to_heap o1 k) \<longrightarrow> tc_closeOnce (to_heap o2 k))"

lemma closes_kept_ops:
  "closes_kept o' o'" "closes_kept o1 o2 \<Longrightarrow> closes_kept o2 o3 \<Longrightarrow> closes_kept o1 o3"
  "closes_kept o' (snd (tracked_DialContext d now network address o'))" "closes_kept o' (snd (tracked_Close k o'))"
  "closes_kept o' (snd (tracked_CloseWrite k o'))" "closes_kept o' (snd (tracked_Read now k r o'))" "closes_kept o' (snd (tracked_Write now k r o'))"
  by (auto simp: closes_kept_def tracked_DialContext_def tracked_Close_def tracked_CloseWrite_def tracked_Read_def tracked_Write_def tracked_finish_def
      tracked_remove_def put_conn_def tracked_touch_def Let_def split: sum.split option.split prod.split)

lemma close_inv_out: "close_inv t \<Longrightarrow> closes_kept (tr_outbound t) o' \<Longrightarrow> close_inv (t\<lparr>tr_outbound := o'\<rparr>)"
  by (fastforce simp: close_inv_def closes_kept_def)

definition same_funcs :: "connectionTracker \<Rightarrow> connectionTracker \<Rightarrow> bool" where
  "same_funcs l l' \<longleftrightarrow> tk_count l' = tk_count l \<and> (\<forall>i. lg_closeFunc (tk_heap l' i) = lg_closeFunc (tk_heap l i) \<and> lg_closeOnce (tk_heap l' i) = lg_closeOnce (tk_heap l i))"

lemma same_funcs_Record: "same_funcs l (RecordUploaded now i n l)" "same_funcs l (RecordDownloaded now i n l)"
  by (auto simp: same_funcs_def RecordUploaded_def RecordDownloaded_def put_logical_def)

lemma close_inv_log: "close_inv t \<Longrightarrow> same_funcs (tr_connections t) l \<Longrightarrow> close_inv (t\<lparr>tr_connections := l\<rparr>)"
  by (simp add: close_inv_def same_funcs_def)

lemma close_inv_io:
  "close_inv t \<Longrightarrow> closes_kept (tr_outbound t) o' \<Longrightarrow> same_funcs (tr_connections t) l \<Longrightarrow> close_inv (t\<lparr>tr_outbound := o', tr_connections := l\<rparr>)"
  using close_inv_log [of "t\<lparr>tr_outbound := o'\<rparr>" l] close_inv_out [of t o'] by simp

lemma close_inv_Open:
  assumes "close_inv t" "\<forall>k. f = Some (CloseTransport k) \<longrightarrow> k < to_count (tr_outbound t)"
  shows "close_inv (t\<lparr>tr_connections := snd (OpenConnection now m f (tr_connections t))\<rparr>)"
  using assms by (auto simp: close_inv_def OpenConnection_def Let_def less_Suc_eq)

lemma tracked_Close_closes: "tc_closeOnce (to_heap (snd (tracked_Close k o')) k)" "to_count (snd (tracked_Close k o')) = to_count o'"
  by (simp_all add: tracked_Close_def tracked_remove_def put_conn_def Let_def)

lemma close_inv_logical_Close: "close_inv t \<Longrightarrow> close_inv (snd (logical_Close i t))"
proof (cases "lg_closeOnce (tk_heap (tr_connections t) i)")
  case False
  assume t: "close_inv t"
  let ?c = "tk_heap (tr_connections t) i"
  define p where "p = (case lg_closeFunc ?c of
      None \<Rightarrow> (lg_closeErr ?c, tr_outbound t)
    | Some (CloseTransport k) \<Rightarrow> tracked_Close k (tr_outbound t)
    | Some (CloseOther e) \<Rightarrow> (e, tr_outbound t))"
  have e: "snd (logical_Close i t) = t\<lparr>tr_outbound := snd p,
      tr_connections := tracker_remove (lg_id ?c) (put_logical i (?c\<lparr>lg_closeOnce := True, lg_closeErr := fst p\<rparr>) (tr_connections t))\<rparr>"
    using False by (simp add: logical_Close_def Let_def case_prod_unfold p_def)
  have c: "tc_closeOnce (to_heap (snd p) k)" if "lg_closeFunc ?c = Some (CloseTransport k)" for k
    using that tracked_Close_closes(1) by (simp add: p_def)
  have "closes_kept (tr_outbound t) (snd p)" unfolding p_def using closes_kept_ops(1,4) by (simp split: option.split close_func.split)
  then have "close_inv (t\<lparr>tr_outbound := snd p\<rparr>)" by (rule close_inv_out [OF t])
  then show ?thesis unfolding e using c by (auto simp: close_inv_def tracker_remove_def put_logical_def)
qed (simp add: logical_Close_def)

lemma close_inv_Dial: "close_inv t \<Longrightarrow> close_inv (snd (runtime_DialContext d now network address t))"
proof (cases d)
  case (Inr conn)
  assume t: "close_inv t"
  let ?o = "snd (tracked_DialContext d now network address (tr_outbound t))"
  obtain m where e: "snd (runtime_DialContext d now network address t) = t\<lparr>tr_outbound := ?o,
      tr_connections := snd (OpenConnection now m (Some (CloseTransport (to_count (tr_outbound t)))) (tr_connections t)),
      tr_wrapped := tr_wrapped t @ [\<lparr> lw_Conn = to_count (tr_outbound t), lw_activity = tk_count (tr_connections t), lw_closeOnce = False, lw_closeErr = None \<rparr>]\<rparr>"
    using Inr by (simp add: runtime_DialContext_def tracked_DialContext_def OpenConnection_def Let_def)
  have "close_inv (t\<lparr>tr_outbound := ?o\<rparr>)" using close_inv_out [OF t closes_kept_ops(3)] .
  moreover have "to_count (tr_outbound t) < to_count ?o" using Inr by (simp add: tracked_DialContext_def Let_def)
  ultimately have "close_inv ((t\<lparr>tr_outbound := ?o\<rparr>)\<lparr>tr_connections := snd (OpenConnection now m (Some (CloseTransport (to_count (tr_outbound t)))) (tr_connections t))\<rparr>)"
    using close_inv_Open [of "t\<lparr>tr_outbound := ?o\<rparr>" "Some (CloseTransport (to_count (tr_outbound t)))" now m] by simp
  then show ?thesis unfolding e by (auto simp: close_inv_def OpenConnection_def Let_def)
qed (simp add: runtime_DialContext_def tracked_DialContext_def)

lemma close_inv_CloseAll: "close_inv t \<Longrightarrow> close_inv (snd (close_trackers ord e t))"
proof -
  assume t: "close_inv t"
  have v: "close_inv (snd (tracker_Close ord t))"
    using close_each_inv [where P = close_inv, OF t close_inv_logical_Close] by (simp add: tracker_Close_def case_prod_unfold Let_def)
  have "closes_kept o' (snd (close_each tracked_Close ks o'))" for ks o'
    by (rule close_each_inv [where P = "closes_kept o'"]) (auto intro: closes_kept_ops)
  then have "closes_kept (tr_outbound (snd (tracker_Close ord t))) (snd (tracked_CloseAll ord e (tr_outbound (snd (tracker_Close ord t)))))"
    by (simp add: tracked_CloseAll_def case_prod_unfold Let_def)
  from close_inv_out [OF v this] show ?thesis by (simp add: close_trackers_def case_prod_unfold Let_def)
qed

lemma close_inv_wrapped: "close_inv t \<Longrightarrow> j < length (tr_wrapped t) \<Longrightarrow> close_inv (t\<lparr>tr_wrapped := (tr_wrapped t)[j := (tr_wrapped t ! j)\<lparr>lw_closeOnce := b, lw_closeErr := e\<rparr>]\<rparr>)"
proof -
  assume t: "close_inv t" and j: "j < length (tr_wrapped t)"
  let ?w = "(tr_wrapped t ! j)\<lparr>lw_closeOnce := b, lw_closeErr := e\<rparr>"
  have w: "lw_activity w < tk_count (tr_connections t) \<and> lg_closeFunc (tk_heap (tr_connections t) (lw_activity w)) = Some (CloseTransport (lw_Conn w))"
    if "w \<in> set (tr_wrapped t)" for w using t that by (simp add: close_inv_def)
  have "lw_activity w < tk_count (tr_connections t) \<and> lg_closeFunc (tk_heap (tr_connections t) (lw_activity w)) = Some (CloseTransport (lw_Conn w))"
    if "w \<in> set ((tr_wrapped t)[j := ?w])" for w
  proof -
    have "w = ?w \<or> w \<in> set (tr_wrapped t)" using that set_update_subset_insert [of "tr_wrapped t" j ?w] by blast
    then show ?thesis using w [of w] w [OF nth_mem [OF j]] by auto
  qed
  then show ?thesis using t by (simp add: close_inv_def)
qed

lemma close_inv_step: "close_inv t \<Longrightarrow> close_inv (tracker_step ord t op)"
proof (cases op)
  case (TkClose j)
  assume t: "close_inv t"
  show ?thesis
  proof (cases "j < length (tr_wrapped t) \<and> \<not> lw_closeOnce (tr_wrapped t ! j)")
    case True
    let ?u = "snd (logical_Close (lw_activity (tr_wrapped t ! j)) t)"
    have "close_inv ?u" "tr_wrapped ?u = tr_wrapped t" using close_inv_logical_Close [OF t] logical_Close_frame(4) by auto
    then show ?thesis using True close_inv_wrapped [of ?u j] by (simp add: TkClose wrapped_Close_def Let_def case_prod_unfold)
  qed (use t in \<open>auto simp: TkClose wrapped_Close_def\<close>)
next
  case (TkCloseConnection i)
  then show "close_inv t \<Longrightarrow> ?thesis" using close_inv_logical_Close by (auto simp: tracker_CloseConnection_def split: option.split)
next
  case (TkRead now j r)
  then show "close_inv t \<Longrightarrow> ?thesis" using close_inv_io [of t, OF _ closes_kept_ops(6) same_funcs_Record(2)]
    by (simp add: logical_Read_def case_prod_unfold Let_def passed_on)
next
  case (TkWrite now j r)
  then show "close_inv t \<Longrightarrow> ?thesis" using close_inv_io [of t, OF _ closes_kept_ops(7) same_funcs_Record(1)]
    by (simp add: logical_Write_def case_prod_unfold Let_def passed_on)
qed (simp_all add: close_inv_Dial close_inv_out close_inv_log close_inv_Open close_inv_logical_Close close_inv_CloseAll closes_kept_ops(3-) same_funcs_Record)

interpretation track: step_system "\<lambda>t. \<exists>h l now. t = new_trackers h l now" "tracker_step ord" "\<lambda>t. tracker_inv t \<and> close_inv t" for ord
proof
  show "tracker_inv t \<and> close_inv t" if "\<exists>h l now. t = new_trackers h l now" for t
    using that by (auto simp: new_trackers_def newTrackedOutbound_def newConnectionTracker_def tracker_inv_def out_inv_def log_inv_def
        tie_inv_def table_ok_def close_inv_def)
  show "tracker_inv (tracker_step ord t op) \<and> close_inv (tracker_step ord t op)" if "tracker_inv t \<and> close_inv t" for t op
    using that tracker_inv_step close_inv_step by blast
qed

text \<open>Closing everything empties both tables.\<close>

lemma close_each_empties:
  assumes I: "\<And>k s. I s \<Longrightarrow> k \<in> set ks \<Longrightarrow> I (snd (close k s))"
    and keep: "\<And>k s. tbl (snd (close k s)) x = None \<or> tbl (snd (close k s)) x = tbl s x"
    and gone: "\<And>s. I s \<Longrightarrow> tbl s x = Some k \<Longrightarrow> tbl (snd (close k s)) x = None"
    and s: "I s" "tbl s x = Some k \<or> tbl s x = None" "k \<in> set ks"
  shows "tbl (snd (close_each close ks s)) x = None"
proof -
  have "I (snd (close_each close ks s)) \<and> (tbl (snd (close_each close ks s)) x = None \<or> tbl (snd (close_each close ks s)) x = Some k \<and> k \<notin> set ks)"
    using I s(1,2)
  proof (induction ks rule: rev_induct)
    case (snoc j ks)
    let ?s = "snd (close_each close ks s)"
    have "I ?s \<and> (tbl ?s x = None \<or> tbl ?s x = Some k \<and> k \<notin> set ks)" using snoc by simp
    then show ?case using snoc.prems(1) [of ?s j] keep [of j ?s] gone [of ?s] by (cases "j = k") (auto simp: close_each_snoc)
  qed (auto simp: close_each_def)
  then show ?thesis using s(3) by blast
qed

lemma tracked_CloseAll_empty:
  assumes "ranges ord" "out_inv o'"
  shows "to_connections (snd (tracked_CloseAll ord e o')) = Map.empty"
proof
  fix x
  let ?ks = "List.map_filter (to_connections o') (ord (to_connections o'))"
  have T: "table_ok ''transport-'' (to_nextID o') (to_connections o') (\<lambda>k. tc_id (to_heap o' k)) (to_count o')" using assms(2) by (simp add: out_inv_def)
  have keep: "to_connections (snd (tracked_Close k s)) x = None \<or> to_connections (snd (tracked_Close k s)) x = to_connections s x" for k s
    by (simp add: tracked_Close_def tracked_remove_def put_conn_def Let_def)
  have gone: "to_connections (snd (tracked_Close k s)) x = None" if "out_inv s" "to_connections s x = Some k" for k s
  proof -
    have "tc_id (to_heap s k) = x" "\<not> tc_closeOnce (to_heap s k)" using that table_okD by (fastforce simp: out_inv_def)+
    then show ?thesis by (simp add: tracked_Close_def tracked_remove_def put_conn_def Let_def)
  qed
  have "to_connections (snd (close_each tracked_Close ?ks o')) x = None"
  proof (cases "to_connections o' x")
    case (Some k)
    then have "k \<in> set ?ks" using rangesD [OF assms(1) table_ok_dom [OF T]] by (intro set_map_filterI [of x]) auto
    then show ?thesis using close_each_empties [where I = out_inv and tbl = to_connections and close = tracked_Close, OF out_inv_Close keep gone assms(2)] Some by blast
  next
    case None
    then show ?thesis by (rule close_each_inv [where P = "\<lambda>s. to_connections s x = None"]) (metis keep)
  qed
  then show "to_connections (snd (tracked_CloseAll ord e o')) x = None" by (simp add: tracked_CloseAll_def case_prod_unfold Let_def)
qed

lemma tracker_Close_empty:
  assumes "ranges ord" "tracker_inv t"
  shows "tk_connections (tr_connections (snd (tracker_Close ord t))) = Map.empty"
proof
  fix x
  let ?tbl = "\<lambda>t. tk_connections (tr_connections t)"
  let ?ks = "List.map_filter (?tbl t) (ord (?tbl t))"
  let ?I = "\<lambda>u. tracker_inv u \<and> tk_count (tr_connections u) = tk_count (tr_connections t)"
  have T: "table_ok ''connection-'' (tk_nextID (tr_connections u)) (?tbl u) (\<lambda>i. lg_id (tk_heap (tr_connections u) i)) (tk_count (tr_connections u))"
    if "tracker_inv u" for u using that by (simp add: tracker_inv_def log_inv_def)
  have keep: "?tbl (snd (logical_Close k s)) x = None \<or> ?tbl (snd (logical_Close k s)) x = ?tbl s x" for k s
    by (simp add: logical_Close_def tracker_remove_def put_logical_def Let_def case_prod_unfold)
  have gone: "?tbl (snd (logical_Close k s)) x = None" if "?I s" "?tbl s x = Some k" for k s
  proof -
    have "lg_id (tk_heap (tr_connections s) k) = x" using that table_okD [OF T] by blast
    moreover have "\<not> lg_closeOnce (tk_heap (tr_connections s) k)" using that by (simp add: tracker_inv_def log_inv_def)
    ultimately show ?thesis by (simp add: logical_Close_def tracker_remove_def put_logical_def Let_def case_prod_unfold)
  qed
  have I: "?I (snd (logical_Close k u))" if "?I u" "k \<in> set ?ks" for k u
    using that set_map_filterD [OF that(2)] table_okD [OF T [OF assms(2)]] by (auto simp: tracker_inv_logical_Close logical_Close_frame(5))
  have "?tbl (snd (close_each logical_Close ?ks t)) x = None"
  proof (cases "?tbl t x")
    case (Some k)
    then have k: "k \<in> set ?ks" using rangesD [OF assms(1) table_ok_dom [OF T [OF assms(2)]]] by (intro set_map_filterI [of x]) auto
    show ?thesis by (rule close_each_empties [where I = ?I and tbl = ?tbl and close = logical_Close and k = k])
      (use I keep gone assms(2) Some k in \<open>auto\<close>)
  next
    case None
    then show ?thesis by (rule close_each_inv [where P = "\<lambda>s. ?tbl s x = None"]) (metis keep)
  qed
  then show "?tbl (snd (tracker_Close ord t)) x = None" by (simp add: tracker_Close_def case_prod_unfold Let_def)
qed

text \<open>What was in the table of transport connections is closed when it is not there any more; below \<open>2 ^ 64\<close> connections their identifiers differ.\<close>

definition kept_or_closed :: "nat set \<Rightarrow> trackedOutbound \<Rightarrow> bool" where
  "kept_or_closed R o' \<longleftrightarrow> (\<forall>k \<in> R. k < to_count o' \<and> (tc_closeOnce (to_heap o' k) \<or> to_connections o' (tc_id (to_heap o' k)) = Some k))"

lemma kept_or_closed_Close:
  assumes "out_inv o'" "to_count o' < 2 ^ 64" "kept_or_closed R o'" "j < to_count o'"
  shows "kept_or_closed R (snd (tracked_Close j o'))"
  unfolding kept_or_closed_def
proof
  fix k assume "k \<in> R"
  then have k: "k < to_count o'" "tc_closeOnce (to_heap o' k) \<or> to_connections o' (tc_id (to_heap o' k)) = Some k"
    using assms(3) by (auto simp: kept_or_closed_def)
  have T: "table_ok ''transport-'' (to_nextID o') (to_connections o') (\<lambda>k. tc_id (to_heap o' k)) (to_count o')" using assms(1) by (simp add: out_inv_def)
  show "k < to_count (snd (tracked_Close j o'))
      \<and> (tc_closeOnce (to_heap (snd (tracked_Close j o')) k) \<or> to_connections (snd (tracked_Close j o')) (tc_id (to_heap (snd (tracked_Close j o')) k)) = Some k)"
    using k table_ok_inj [OF T assms(2) k(1) assms(4)] by (auto simp: tracked_Close_def tracked_remove_def put_conn_def Let_def)
qed

lemma closing_closes:
  assumes r: "ranges ord" and t: "tracker_inv t" "close_inv t" and n: "to_count (tr_outbound t) < 2 ^ 64" and R: "kept_or_closed R (tr_outbound t)"
  shows "kept_or_closed R (tr_outbound (snd (close_trackers ord e t)))"
proof -
  let ?P = "\<lambda>u. tracker_inv u \<and> close_inv u \<and> to_count (tr_outbound u) = to_count (tr_outbound t) \<and> tk_count (tr_connections u) = tk_count (tr_connections t)
    \<and> kept_or_closed R (tr_outbound u)"
  let ?ks = "List.map_filter (tk_connections (tr_connections t)) (ord (tk_connections (tr_connections t)))"
  have T: "table_ok ''connection-'' (tk_nextID (tr_connections t)) (tk_connections (tr_connections t))
      (\<lambda>i. lg_id (tk_heap (tr_connections t) i)) (tk_count (tr_connections t))"
    using t by (simp add: tracker_inv_def log_inv_def)
  have ks: "i < tk_count (tr_connections t)" if "i \<in> set ?ks" for i
    using set_map_filterD [OF that] table_okD [OF T] by blast
  have one: "?P (snd (logical_Close i u))" if "?P u" "i < tk_count (tr_connections t)" for i u
  proof -
    have o: "out_inv (tr_outbound u)" "to_count (tr_outbound u) < 2 ^ 64" using that(1) n by (simp_all add: tracker_inv_def)
    have b: "k < to_count (tr_outbound u)" if "lg_closeFunc (tk_heap (tr_connections u) i) = Some (CloseTransport k)" for k
    proof -
      have "close_inv u" "i < tk_count (tr_connections u)" using \<open>?P u\<close> \<open>i < tk_count (tr_connections t)\<close> by simp_all
      then show ?thesis using that unfolding close_inv_def by blast
    qed
    have "tr_outbound (snd (logical_Close i u)) = tr_outbound u
        \<or> (\<exists>k < to_count (tr_outbound u). tr_outbound (snd (logical_Close i u)) = snd (tracked_Close k (tr_outbound u)))"
    proof (cases "lg_closeFunc (tk_heap (tr_connections u) i)")
      case (Some f)
      then show ?thesis using b by (cases f) (auto simp: logical_Close_def Let_def case_prod_unfold)
    qed (simp add: logical_Close_def Let_def)
    then have "kept_or_closed R (tr_outbound (snd (logical_Close i u))) \<and> to_count (tr_outbound (snd (logical_Close i u))) = to_count (tr_outbound u)"
      using kept_or_closed_Close [OF o] that(1) tracked_Close_closes(2) by auto
    then show ?thesis using that tracker_inv_logical_Close [of u i] close_inv_logical_Close [of u i] logical_Close_frame(5) [of i u] by simp
  qed
  have v: "?P (snd (tracker_Close ord t))"
    using close_each_inv_on [where P = ?P and ks = ?ks and close = logical_Close] one ks t R by (simp add: tracker_Close_def case_prod_unfold Let_def)
  let ?o = "tr_outbound (snd (tracker_Close ord t))"
  let ?Q = "\<lambda>u. out_inv u \<and> to_count u = to_count ?o \<and> kept_or_closed R u"
  have oo: "out_inv ?o" using v by (simp add: tracker_inv_def)
  then have To: "table_ok ''transport-'' (to_nextID ?o) (to_connections ?o) (\<lambda>k. tc_id (to_heap ?o k)) (to_count ?o)" by (simp only: out_inv_def)
  have "?Q (snd (close_each tracked_Close (List.map_filter (to_connections ?o) (ord (to_connections ?o))) ?o))"
  proof (rule close_each_inv_on [where P = ?Q])
    show "?Q ?o" using v oo by simp
    fix k u assume u: "?Q u" and k: "k \<in> set (List.map_filter (to_connections ?o) (ord (to_connections ?o)))"
    have "k < to_count ?o" using set_map_filterD [OF k] table_okD [OF To] by blast
    then show "?Q (snd (tracked_Close k u))" using u v n kept_or_closed_Close [of u R k] out_inv_Close [of u k] tracked_Close_closes(2) [of k u] by simp
  qed
  then show ?thesis by (simp add: close_trackers_def tracked_CloseAll_def case_prod_unfold Let_def)
qed

section \<open>Properties\<close>

text \<open>C35. The traffic statistics add up, and closing closes. After any run of dials, reads, writes, reports and closings: the bytes
  the runtime reports are, modulo \<open>2 ^ 64\<close>, the sums over all transport connections it ever opened, and the
  totals count these connections; the two trackers agree on every connection dialled through the runtime. A logical connection that is closed has
  closed the transport it was opened for. Closing the trackers empties both tables, and, below \<open>2 ^ 64\<close> connections, closes every logical
  connection, every transport connection that was in the table, and every transport connection dialled through the runtime, also one
  that had left the table after an error of its own.\<close>

theorem trackers_account:
  assumes "ranges ord" and "t = foldl (tracker_step ord) (new_trackers h l now) ops" and "u = tracker_step ord t (TkCloseAll e)"
  shows "ts_UploadedBytes (runtime_TrafficStats n t) = (\<Sum>k<to_count (tr_outbound t). tc_uploaded (to_heap (tr_outbound t) k))
    \<and> ts_DownloadedBytes (runtime_TrafficStats n t) = (\<Sum>k<to_count (tr_outbound t). tc_downloaded (to_heap (tr_outbound t) k))
    \<and> ts_TotalTransportConnections (runtime_TrafficStats n t) = of_nat (to_count (tr_outbound t))
    \<and> ts_TotalConnections (runtime_TrafficStats n t) = of_nat (tk_count (tr_connections t))
    \<and> (\<forall>w \<in> set (tr_wrapped t).
          tc_uploaded (to_heap (tr_outbound t) (lw_Conn w)) = lg_uploaded (tk_heap (tr_connections t) (lw_activity w))
        \<and> tc_downloaded (to_heap (tr_outbound t) (lw_Conn w)) = lg_downloaded (tk_heap (tr_connections t) (lw_activity w)))
    \<and> (\<forall>i < tk_count (tr_connections t). \<forall>k. lg_closeOnce (tk_heap (tr_connections t) i) \<and> lg_closeFunc (tk_heap (tr_connections t) i) = Some (CloseTransport k)
          \<longrightarrow> tc_closeOnce (to_heap (tr_outbound t) k))
    \<and> to_connections (tr_outbound u) = Map.empty \<and> tk_connections (tr_connections u) = Map.empty
    \<and> (tk_count (tr_connections u) < 2 ^ 64 \<longrightarrow>
         (\<forall>i < tk_count (tr_connections u). lg_closeOnce (tk_heap (tr_connections u) i))
         \<and> (\<forall>w \<in> set (tr_wrapped u). tc_closeOnce (to_heap (tr_outbound u) (lw_Conn w))))
    \<and> (to_count (tr_outbound t) < 2 ^ 64 \<longrightarrow> (\<forall>x k. to_connections (tr_outbound t) x = Some k \<longrightarrow> tc_closeOnce (to_heap (tr_outbound u) k)))"
proof -
  have t: "tracker_inv t" "close_inv t" unfolding assms(2) using track.run_inv [of _ ord ops] by blast+
  have v: "tracker_inv (snd (tracker_Close ord t))" using t(1) by (rule tracker_inv_Close)
  have u: "tracker_inv u" "close_inv u" unfolding assms(3) by (rule tracker_inv_step [OF t(1)], rule close_inv_step [OF t(2)])
  have e: "to_connections (tr_outbound u) = Map.empty" "tk_connections (tr_connections u) = Map.empty"
    using tracked_CloseAll_empty [OF assms(1)] v tracker_Close_empty [OF assms(1) t(1)]
    by (simp_all add: assms(3) close_trackers_def case_prod_unfold Let_def tracker_inv_def)
  have c: "lg_closeOnce (tk_heap (tr_connections u) i)" if "tk_count (tr_connections u) < 2 ^ 64" "i < tk_count (tr_connections u)" for i
    using u(1) that e(2) unfolding tracker_inv_def log_inv_def by fastforce
  then have w: "tc_closeOnce (to_heap (tr_outbound u) (lw_Conn w))" if "tk_count (tr_connections u) < 2 ^ 64" "w \<in> set (tr_wrapped u)" for w
    using u(2) that unfolding close_inv_def by blast
  have x: "tc_closeOnce (to_heap (tr_outbound u) k)" if n: "to_count (tr_outbound t) < 2 ^ 64" and k: "to_connections (tr_outbound t) x = Some k" for x k
  proof -
    have "k < to_count (tr_outbound t) \<and> tc_id (to_heap (tr_outbound t) k) = x" using t(1) k table_okD by (fastforce simp: tracker_inv_def out_inv_def)
    then have "kept_or_closed {k} (tr_outbound t)" using k by (simp add: kept_or_closed_def)
    from closing_closes [OF assms(1) t n this] have "kept_or_closed {k} (tr_outbound u)" by (simp add: assms(3))
    then show ?thesis using e(1) by (simp add: kept_or_closed_def)
  qed
  have f: "\<forall>i < tk_count (tr_connections t). \<forall>k. lg_closeOnce (tk_heap (tr_connections t) i) \<and> lg_closeFunc (tk_heap (tr_connections t) i) = Some (CloseTransport k)
      \<longrightarrow> tc_closeOnce (to_heap (tr_outbound t) k)" using t(2) by (simp add: close_inv_def)
  have "ts_UploadedBytes (runtime_TrafficStats n t) = (\<Sum>k<to_count (tr_outbound t). tc_uploaded (to_heap (tr_outbound t) k))
      \<and> ts_DownloadedBytes (runtime_TrafficStats n t) = (\<Sum>k<to_count (tr_outbound t). tc_downloaded (to_heap (tr_outbound t) k))
      \<and> ts_TotalTransportConnections (runtime_TrafficStats n t) = of_nat (to_count (tr_outbound t))
      \<and> ts_TotalConnections (runtime_TrafficStats n t) = of_nat (tk_count (tr_connections t))"
    using t(1) by (simp add: runtime_TrafficStats_def tracker_TrafficStats_def tracked_TrafficStats_def Let_def tracker_inv_def out_inv_def log_inv_def)
  moreover have "\<forall>w \<in> set (tr_wrapped t).
          tc_uploaded (to_heap (tr_outbound t) (lw_Conn w)) = lg_uploaded (tk_heap (tr_connections t) (lw_activity w))
        \<and> tc_downloaded (to_heap (tr_outbound t) (lw_Conn w)) = lg_downloaded (tk_heap (tr_connections t) (lw_activity w))"
    using t(1) by (simp add: tracker_inv_def tie_inv_def)
  ultimately show ?thesis using e c w x f by blast
qed

definition demo_conn :: net_conn where
  "demo_conn = \<lparr> nc_route = \<lparr> route_Outbound = ''vpn'', route_Reason = ''rule'' \<rparr>, nc_closeErr = None, nc_closeWrite = None \<rparr>"

definition demo_trackers :: trackers where
  "demo_trackers = new_trackers
     (\<lambda>_. \<lparr> tc_Conn = demo_conn, tc_id = [], tc_network = [], tc_destination = [], tc_openedAt = 0, tc_lastActivity = 0, tc_uploaded = 0,
           tc_downloaded = 0, tc_closeOnce = False, tc_closeErr = None \<rparr>)
     (\<lambda>_. \<lparr> lg_id = [], lg_metadata = \<lparr> meta_Inbound = [], meta_Outbound = [], meta_RouteReason = [], meta_Source = [], meta_Network = [],
           meta_Destination = [], meta_TransportConnectionID = [] \<rparr>, lg_openedAt = 0, lg_lastActivity = 0, lg_uploaded = 0,
           lg_downloaded = 0, lg_closeFunc = None, lg_closeOnce = False, lg_closeErr = None \<rparr>) 0"

theorem trackers_account_witness:
  "let t = foldl (tracker_step by_key) demo_trackers
         [TkDial (Inr demo_conn) 0 ''tcp'' ''a:80'', TkWrite 1 0 (5, None), TkDial (Inr demo_conn) 0 ''tcp'' ''b:80'',
          TkWrite 2 1 (7, None), TkRead 3 0 (2, Some (Sentinel IoEOF))];
       u = tracker_step by_key t (TkCloseAll None)
   in ts_UploadedBytes (runtime_TrafficStats 4 t) = 12 \<and> dom (to_connections (tr_outbound t)) = {''transport-2''}
     \<and> to_connections (tr_outbound u) = Map.empty \<and> tk_connections (tr_connections u) = Map.empty
     \<and> tc_closeOnce (to_heap (tr_outbound u) 1)"
proof -
  let ?ops = "[TkDial (Inr demo_conn) 0 ''tcp'' ''a:80'', TkWrite 1 0 (5, None), TkDial (Inr demo_conn) 0 ''tcp'' ''b:80'',
          TkWrite 2 1 (7, None), TkRead 3 0 (2, Some (Sentinel IoEOF))]"
  define t where "t = foldl (tracker_step by_key) demo_trackers ?ops"
  define u where "u = tracker_step by_key t (TkCloseAll None)"
  have t': "t = foldl (tracker_step by_key) (new_trackers (to_heap (tr_outbound demo_trackers)) (tk_heap (tr_connections demo_trackers)) 0) ?ops"
    by (simp add: t_def demo_trackers_def new_trackers_def newTrackedOutbound_def newConnectionTracker_def)
  note F = trackers_account [OF ranges_by_key t' u_def]
  have t1: "to_uploaded (tr_outbound t) = 12"
    by (simp add: t_def demo_trackers_def new_trackers_def newTrackedOutbound_def newConnectionTracker_def runtime_DialContext_def tracked_DialContext_def
        OpenConnection_def put_conn_def logical_Write_def logical_Read_def tracked_Write_def tracked_Read_def tracked_finish_def tracked_remove_def
        isTerminalConnectionError_def Let_def)
  have "connection_id ''transport-'' 1 = ''transport-1''" "connection_id ''transport-'' 2 = ''transport-2''"
    by (simp_all add: connection_id_def show_nat.simps digit_char_def char_of_def bit_Suc_0_iff)
  then have t2: "dom (to_connections (tr_outbound t)) = {''transport-2''}"
    by (auto simp: t_def demo_trackers_def new_trackers_def newTrackedOutbound_def newConnectionTracker_def runtime_DialContext_def tracked_DialContext_def
        OpenConnection_def put_conn_def logical_Write_def logical_Read_def tracked_Write_def tracked_Read_def tracked_finish_def tracked_remove_def
        tracked_touch_def isTerminalConnectionError_def Let_def split: if_splits)
  have t3: "to_count (tr_outbound t) = 2 \<and> to_connections (tr_outbound t) ''transport-2'' = Some 1"
    using \<open>connection_id ''transport-'' 2 = ''transport-2''\<close> \<open>connection_id ''transport-'' 1 = ''transport-1''\<close>
    by (simp add: t_def demo_trackers_def new_trackers_def newTrackedOutbound_def newConnectionTracker_def runtime_DialContext_def tracked_DialContext_def
        OpenConnection_def put_conn_def logical_Write_def logical_Read_def tracked_Write_def tracked_Read_def tracked_finish_def tracked_remove_def
        tracked_touch_def isTerminalConnectionError_def Let_def)
  have "to_count (tr_outbound t) < 2 ^ 64 \<longrightarrow> (\<forall>x k. to_connections (tr_outbound t) x = Some k \<longrightarrow> tc_closeOnce (to_heap (tr_outbound u) k))"
    using F [of 0] by (elim conjE)
  moreover have "to_count (tr_outbound t) < 2 ^ 64" using t3 by simp
  ultimately have "tc_closeOnce (to_heap (tr_outbound u) 1)" using t3 by blast
  then show ?thesis using F t1 t2 unfolding Let_def t_def [symmetric] u_def [symmetric]
    by (simp add: runtime_TrafficStats_def tracked_TrafficStats_def Let_def)
qed

end
