(* ===== verification/NetRuntime.thy ===== *)
theory NetRuntime
  imports Routes Tracker
begin

text \<open>
  The network runtime of a session, \<^verbatim>\<open>src/internal/networkruntime/runtime.go\<close> with \<^verbatim>\<open>inbound.go\<close> and
  \<^verbatim>\<open>errors.go\<close>: the VPN backend that a reconnection replaces, the switches that keep the outbound and the
  resolver of the inbound services pointed at it, the services, and the closing of them all.

  Backends are shared by pointer; the runtime's record holds the heap of those it was given. The network stack,
  the VPN client and the services themselves are arguments: what their calls return. Whether each was closed is part of
  the state, so that one that is forgotten shows.

  The code takes a mutex only around parts of its operations. Each such part, and each call between two of them, is a step of
  its own here; a replacement of the VPN, the end of a service and the closing of the runtime are sequences of steps that others run
  between.
\<close>

section \<open>Configuration and what the runtime is given\<close>

record NetConfig =
  nf_TCPTunnelMode :: bool
  nf_DisableRemoteDNS :: bool
  nf_RemoteDNSServer :: string
  nf_SecondaryDNSServer :: string
  nf_DNSTTL :: u64
  nf_DNSBind :: string
  nf_Hosts :: "string \<rightharpoonup> string"
  nf_SOCKSBind :: string
  nf_SOCKSUsername :: string
  nf_SOCKSPassword :: string
  nf_HTTPBind :: string
  nf_TUNEnabled :: bool
  nf_TUNName :: string
  nf_TUNAddress :: string
  nf_TUNMTU :: u32
  nf_TUNAutoRoute :: bool
  nf_TUNRouteAll :: bool
  nf_TUNStrictRoute :: bool
  nf_TUNStack :: string
  nf_TUNOutboundInterface :: string
  nf_TUNUDPTimeoutSeconds :: int
  nf_TUNUDPMaxFlows :: int
  nf_TUNDNSHijack :: bool
  nf_TUNFakeIP :: bool
  nf_TUNFakeIPRange :: string
  nf_ControlServerHost :: string
  nf_TUNRouteAddresses :: "(ip \<times> nat) list"
  nf_RoutingMode :: RoutingMode
  nf_InternetOutbound :: InternetOutboundConfig

record vpn_client =
  vc_IPResources :: "IPResource list result"
  vc_DomainResources :: "(string \<rightharpoonup> DomainResource) result"
  vc_DNSResource :: "(string \<rightharpoonup> ip) result"
  vc_DNSServer :: "string result"
  vc_RouteExcludedIPs :: "ip list option"

text \<open>A service an inbound factory makes: what its calls return, whether it tells when it stops, whether its routes can be
  changed, and which of the two calls it has got.\<close>

record managedService =
  ms_Start :: "gerror option"
  ms_Close :: "gerror option"
  ms_Addr :: "string option"
  ms_Done :: bool
  ms_UpdateRouteAddresses :: "((ip \<times> nat) list \<Rightarrow> gerror option) option"
  ms_started :: bool
  ms_closed :: bool

definition managed_Start :: "managedService \<Rightarrow> gerror option \<times> managedService" where
  "managed_Start s = (ms_Start s, s\<lparr>ms_started := True\<rparr>)"

definition managed_Close :: "managedService \<Rightarrow> gerror option \<times> managedService" where
  "managed_Close s = (ms_Close s, s\<lparr>ms_closed := True\<rparr>)"

text \<open>\<open>se_monitored\<close>: a goroutine waits for the service to end.\<close>

record serviceEntry =
  se_typeName :: ServiceType
  se_service :: managedService
  se_running :: bool
  se_lastError :: string
  se_monitored :: bool

text \<open>The stack and the resolver of a backend: whether they were made, and whether closed.\<close>

record backend_parts =
  bp_stack :: "bool option"
  bp_resolver :: "bool option"

definition no_parts :: backend_parts where
  "no_parts = \<lparr> bp_stack = None, bp_resolver = None \<rparr>"

definition stack_Close :: "backend_parts \<Rightarrow> backend_parts" where
  "stack_Close p = p\<lparr>bp_stack := map_option (\<lambda>_. True) (bp_stack p)\<rparr>"

definition resolver_CloseContext :: "backend_parts \<Rightarrow> backend_parts" where
  "resolver_CloseContext p = p\<lparr>bp_resolver := map_option (\<lambda>_. True) (bp_resolver p)\<rparr>"

definition parts_closed :: "backend_parts \<Rightarrow> bool" where
  "parts_closed p \<longleftrightarrow> bp_stack p \<noteq> Some False \<and> bp_resolver p \<noteq> Some False"

record 'c vpnBackend =
  bk_resources :: "IPResource list"
  bk_resolver :: "'c Resolver"
  bk_parts :: backend_parts
  bk_stackErr :: "gerror option"
  bk_routes :: "(ip \<times> nat) list"
  bk_cancelled :: bool
  bk_runErr :: "gerror option"
  bk_done :: bool
  bk_closeOnce :: bool
  bk_closeErr :: "gerror option"

record switchableOutbound =
  sw_delegate :: "nat option"
  sw_closed :: bool

text \<open>
  Where the goroutine that waits for a service is, once the service has ended, and where the call that closes the runtime is:
  before it, with so many services still to close, with a service closed and its entry still to mark, and so on to the end.
\<close>

datatype monitor_pc = MonitorClosed | MonitorFail | MonitorSignal nat | MonitorSend

datatype runtime_closing =
    CloseIdle
  | CloseServices nat
  | CloseMark nat "gerror option"
  | CloseConnections
  | CloseTransports
  | CloseRouter
  | CloseTake
  | CloseLast nat
  | CloseDone

text \<open>\<open>nr_made\<close> are the backends that replacements under way have made and not yet installed, \<open>nr_retired\<close> those that
  they have still to close, \<open>nr_dropped\<close> the parts of backends whose making failed, \<open>nr_closeErrors\<close> the errors collected by the closing.\<close>

record 'c netRuntime =
  nr_vpn :: switchableOutbound
  nr_resolver :: "nat option"
  nr_mode :: RoutingMode
  nr_trackers :: trackers
  nr_cancelled :: bool
  nr_services :: "serviceEntry list"
  nr_serviceEvents :: "ServiceStatus list"
  nr_backend :: "nat option"
  nr_runErr :: "gerror option"
  nr_resourceRoutes :: bool
  nr_routeAddresses :: "(ip \<times> nat) list"
  nr_internetClosed :: bool
  nr_closed :: bool
  nr_closing :: runtime_closing
  nr_closeErrors :: "gerror option list"
  nr_closeErr :: "gerror option"
  nr_monitors :: "(nat \<times> gerror option \<times> monitor_pc) list"
  nr_backends :: "nat \<Rightarrow> 'c vpnBackend"
  nr_count :: nat
  nr_made :: "nat list"
  nr_retired :: "nat list"
  nr_dropped :: "backend_parts list"

section \<open>Errors of starting services (errors.go)\<close>

definition service_string :: "ServiceType \<Rightarrow> string" where
  "service_string t = (case t of
      ServiceTypeSOCKS5 \<Rightarrow> ''socks5'' | ServiceTypeHTTP \<Rightarrow> ''http'' | ServiceTypeTUN \<Rightarrow> ''tun'' | ServiceTypeDNS \<Rightarrow> ''dns''
    | ServiceTypeOther s \<Rightarrow> s)"

definition isRouteSetupError :: "gerror \<Rightarrow> bool" where
  "isRouteSetupError err \<longleftrightarrow>
     list_ex (Contains (ToLower (error_string err))) [''add route '', ''add ipv4 route '', ''add ipv6 route '', ''add rule '', ''cleanup rules'']"

definition EADDRINUSE :: sentinel where "EADDRINUSE = Syscall ''address already in use''"
definition EPERM :: sentinel where "EPERM = Syscall ''operation not permitted''"
definition EACCES :: sentinel where "EACCES = Syscall ''permission denied''"

definition wrapServiceStartError :: "ServiceType \<Rightarrow> gerror \<Rightarrow> gerror" where
  "wrapServiceStartError serviceType err =
     (if errors_Is err EADDRINUSE
      then WrapError ErrorCodeAddressInUse (''start '' @ service_string serviceType @ '' service'') False (Some err)
      else if errors_Is err OsErrPermission \<or> errors_Is err EPERM \<or> errors_Is err EACCES
      then WrapError ErrorCodePermissionDenied (''start '' @ service_string serviceType @ '' service'') False (Some err)
      else if serviceType = ServiceTypeTUN \<and> isRouteSetupError err
      then WrapError ErrorCodeRouteSetupFailed ''install TUN routes'' False (Some err)
      else if serviceType = ServiceTypeDNS
      then WrapError ErrorCodeDNSStartFailed ''start DNS service'' False (Some err)
      else if serviceType = ServiceTypeTUN
      then WrapError ErrorCodeTUNUnavailable ''start TUN service'' False (Some err)
      else WrapError ErrorCodeNetworkSetupFailed (''start '' @ service_string serviceType @ '' service'') False (Some err))"

section \<open>The VPN backend\<close>

text \<open>Resources a client does not have are none.\<close>

definition optional_resources :: "'a \<Rightarrow> 'a result \<Rightarrow> 'a result" where
  "optional_resources none r = (case r of Inl e \<Rightarrow> if errors_Is e ErrResourceNotFound then Inr none else Inl e | Inr x \<Rightarrow> Inr x)"

definition optionalIPResources :: "vpn_client \<Rightarrow> IPResource list result" where
  "optionalIPResources c = optional_resources [] (vc_IPResources c)"

definition optionalDomainResources :: "vpn_client \<Rightarrow> (string \<rightharpoonup> DomainResource) result" where
  "optionalDomainResources c = optional_resources Map.empty (vc_DomainResources c)"

definition optionalDNSRecords :: "vpn_client \<Rightarrow> (string \<rightharpoonup> ip) result" where
  "optionalDNSRecords c = optional_resources Map.empty (vc_DNSResource c)"

definition routeExcludedIPs :: "vpn_client \<Rightarrow> ip list" where
  "routeExcludedIPs c = (case vc_RouteExcludedIPs c of None \<Rightarrow> [] | Some ps \<Rightarrow> ps)"

definition resource_routes :: "NetConfig \<Rightarrow> bool" where
  "resource_routes config \<longleftrightarrow> nf_TUNEnabled config \<and> nf_TUNAutoRoute config \<and> \<not> nf_TUNRouteAll config"

text \<open>The server for remote names and whether to use one; a client that names none turns it off.\<close>

definition remote_dns :: "vpn_client \<Rightarrow> NetConfig \<Rightarrow> (string \<times> bool) result" where
  "remote_dns c config =
     (let remote = nf_RemoteDNSServer config; use = \<not> nf_DisableRemoteDNS config in
      if use \<and> (remote = [] \<or> remote = ''auto'')
      then (case vc_DNSServer c of
              Inr server \<Rightarrow> Inr (server, True)
            | Inl err \<Rightarrow> if \<not> errors_Is err ErrResourceNotFound then Inl err else Inr ([], False))
      else Inr (remote, use))"

text \<open>A new resolver; \<open>cache\<close> is an empty cache with the time to live.\<close>

definition NewResolverWithSecondaryDialer ::
  "((string \<rightharpoonup> ip) \<Rightarrow> string list) \<Rightarrow> 'c \<Rightarrow> (string \<rightharpoonup> DomainResource) \<Rightarrow> (string \<rightharpoonup> ip) \<Rightarrow> bool \<Rightarrow> 'c Resolver" where
  "NewResolverWithSecondaryDialer ord cache domainResources dnsResource useRemoteDNS =
     \<lparr> rv_domainResources = domainResources, rv_dnsResource = normalizeDNSRecords ord dnsResource, rv_permanentDNS = Map.empty,
       rv_useRemoteDNS = useRemoteDNS, rv_dnsCache = cache, rv_useTCP = False, rv_timer = None \<rparr>"

fun add_hosts :: "'c cache_ops \<Rightarrow> (string \<rightharpoonup> string) \<Rightarrow> string list \<Rightarrow> 'c Resolver \<Rightarrow> 'c Resolver result" where
  "add_hosts cops hosts [] r = Inr r"
| "add_hosts cops hosts (host # rest) r =
     (case ParseIP (case hosts host of None \<Rightarrow> [] | Some a \<Rightarrow> a) of
        None \<Rightarrow> Inl (Opaque (''invalid static DNS address for '' @ quote host @ '': '' @ quote (case hosts host of None \<Rightarrow> [] | Some a \<Rightarrow> a)))
      | Some address \<Rightarrow>
          (case SetPermanentDNS cops host address r of
             (Some err, _) \<Rightarrow> Inl err
           | (None, r') \<Rightarrow> add_hosts cops hosts rest r'))"

text \<open>What outside code gives to a new backend: the error of the network stack, or that of closing it later, and an
  empty cache with its operations.\<close>

record ('b, 'c) backend_env =
  be_ordDNS :: "(string \<rightharpoonup> ip) \<Rightarrow> string list"
  be_ordHosts :: "(string \<rightharpoonup> string) \<Rightarrow> string list"
  be_ipset :: "'b ipset_ops"
  be_cacheOps :: "'c cache_ops"
  be_cache :: "u64 \<Rightarrow> 'c"
  be_newStack :: "bool \<Rightarrow> gerror option"
  be_stackClose :: "gerror option"

text \<open>The second component is what was made of the stack and the resolver. The making of a resolver never fails, so that
  the branch of the code for it is not taken.\<close>

definition newVPNBackend :: "('b, 'c) backend_env \<Rightarrow> vpn_client \<Rightarrow> NetConfig \<Rightarrow> 'c vpnBackend result \<times> backend_parts" where
  "newVPNBackend env c config =
     (case rbind (optionalIPResources c) (\<lambda>ips. rbind (optionalDomainResources c) (\<lambda>doms. rbind (optionalDNSRecords c) (\<lambda>dns.
             if resource_routes config
             then rbind (buildResourceRoutePrefixes (be_ordDNS env) (be_ipset env) ips dns (routeExcludedIPs c)
                          (if nf_TUNFakeIP config then nf_TUNFakeIPRange config else []))
                    (\<lambda>routes. Inr (addStaticDNSResources (be_ordDNS env) ips dns, doms, dns, routes))
             else Inr (ips, doms, dns, [])))) of
        Inl err \<Rightarrow> (Inl err, no_parts)
      | Inr (ips, doms, dns, routes) \<Rightarrow>
          (case be_newStack env (nf_TCPTunnelMode config) of
             Some err \<Rightarrow> (Inl err, no_parts)
           | None \<Rightarrow>
               (let p1 = no_parts\<lparr>bp_stack := Some False\<rparr> in
                case remote_dns c config of
                  Inl err \<Rightarrow> (Inl err, stack_Close p1)
                | Inr (_, useRemoteDNS) \<Rightarrow>
                    (let ttl = (if nf_DNSTTL config = 0 then 3600 else nf_DNSTTL config);
                         r = NewResolverWithSecondaryDialer (be_ordDNS env) (be_cache env ttl) doms dns useRemoteDNS;
                         p2 = p1\<lparr>bp_resolver := Some False\<rparr>
                     in case add_hosts (be_cacheOps env) (nf_Hosts config) (be_ordHosts env (nf_Hosts config)) r of
                          Inl err \<Rightarrow> (Inl err, stack_Close (resolver_CloseContext p2))
                        | Inr r' \<Rightarrow>
                            (Inr \<lparr> bk_resources = ips, bk_resolver = r', bk_parts = p2, bk_stackErr = be_stackClose env, bk_routes = routes,
                                   bk_cancelled = False, bk_runErr = None, bk_done = False, bk_closeOnce = False, bk_closeErr = None \<rparr>, p2)))))"

definition signalDone :: "'c vpnBackend \<Rightarrow> 'c vpnBackend" where
  "signalDone b = b\<lparr>bk_done := True\<rparr>"

definition backend_fail :: "gerror \<Rightarrow> 'c vpnBackend \<Rightarrow> 'c vpnBackend" where
  "backend_fail err b = signalDone (if bk_runErr b = None then b\<lparr>bk_runErr := Some err\<rparr> else b)"

text \<open>The end of the stack's run with the error \<open>err\<close>, and of the client with its own.\<close>

definition runStack :: "gerror option \<Rightarrow> 'c vpnBackend \<Rightarrow> 'c vpnBackend" where
  "runStack err b = (case err of
      Some e \<Rightarrow> if \<not> errors_Is e ContextCanceled then backend_fail e b else signalDone b
    | None \<Rightarrow> signalDone b)"

definition monitorClientHealth :: "gerror option \<Rightarrow> 'c vpnBackend \<Rightarrow> 'c vpnBackend" where
  "monitorClientHealth err b = (case err of Some e \<Rightarrow> backend_fail e b | None \<Rightarrow> b)"

definition backend_Close :: "'c vpnBackend \<Rightarrow> gerror option \<times> 'c vpnBackend" where
  "backend_Close b =
     (if bk_closeOnce b then (bk_closeErr b, b)
      else let err = errors_Join [None, bk_stackErr b]
           in (err, signalDone (b\<lparr>bk_cancelled := True, bk_resolver := Close (bk_resolver b),
                                     bk_parts := stack_Close (resolver_CloseContext (bk_parts b)), bk_closeOnce := True, bk_closeErr := err\<rparr>)))"

section \<open>The switches\<close>

definition switchable_DialContext :: "(nat \<Rightarrow> 'n outbound) \<Rightarrow> switchableOutbound \<Rightarrow> 'n outbound" where
  "switchable_DialContext dial sw network address =
     (case sw_delegate sw of
        Some d \<Rightarrow> if sw_closed sw then Inl (WrapError ErrorCodeOutboundUnavailable ''VPN outbound is unavailable'' True None)
                   else dial d network address
      | None \<Rightarrow> Inl (WrapError ErrorCodeOutboundUnavailable ''VPN outbound is unavailable'' True None))"

definition switchable_Replace :: "nat \<Rightarrow> switchableOutbound \<Rightarrow> switchableOutbound" where
  "switchable_Replace d sw = (if sw_closed sw then sw else sw\<lparr>sw_delegate := Some d\<rparr>)"

definition switchable_Close :: "switchableOutbound \<Rightarrow> switchableOutbound" where
  "switchable_Close sw = sw\<lparr>sw_closed := True, sw_delegate := None\<rparr>"

definition switchable_ResolveStatic :: "(nat \<Rightarrow> 'c Resolver) \<Rightarrow> nat option \<Rightarrow> string \<Rightarrow> ip option" where
  "switchable_ResolveStatic res d host = (case d of None \<Rightarrow> None | Some b \<Rightarrow> ResolveStatic (res b) host)"

definition switchable_IsVPNDomain ::
  "((string \<rightharpoonup> DomainResource) \<Rightarrow> string list) \<Rightarrow> (nat \<Rightarrow> 'c Resolver) \<Rightarrow> nat option \<Rightarrow> string \<Rightarrow> bool" where
  "switchable_IsVPNDomain ord res d host = (case d of None \<Rightarrow> False | Some b \<Rightarrow> IsVPNDomain ord (res b) host)"

section \<open>Services\<close>

definition markStarted :: "serviceEntry \<Rightarrow> serviceEntry" where
  "markStarted e = e\<lparr>se_running := True, se_lastError := []\<rparr>"

definition markStopped :: "gerror option \<Rightarrow> serviceEntry \<Rightarrow> serviceEntry" where
  "markStopped err e = (case err of None \<Rightarrow> e\<lparr>se_running := False\<rparr> | Some x \<Rightarrow> e\<lparr>se_running := False, se_lastError := error_string x\<rparr>)"

definition entry_status :: "serviceEntry \<Rightarrow> ServiceStatus" where
  "entry_status e =
     \<lparr> svc_Type = se_typeName e, svc_Address = (case ms_Addr (se_service e) of None \<Rightarrow> [] | Some a \<Rightarrow> a), svc_Running = se_running e,
       svc_LastError = se_lastError e \<rparr>"

record InboundFactory =
  fa_Type :: ServiceType
  fa_Enabled :: "(NetConfig \<Rightarrow> bool) option"
  fa_New :: "(NetConfig \<Rightarrow> managedService option result) option"

text \<open>The factories of the services this program has, in their order; \<open>mk\<close> makes a service of a type.\<close>

definition defaultInboundFactories :: "(ServiceType \<Rightarrow> NetConfig \<Rightarrow> managedService option result) \<Rightarrow> InboundFactory list" where
  "defaultInboundFactories mk =
     [\<lparr> fa_Type = ServiceTypeDNS, fa_Enabled = Some (\<lambda>config. nf_DNSBind config \<noteq> []), fa_New = Some (mk ServiceTypeDNS) \<rparr>,
      \<lparr> fa_Type = ServiceTypeTUN, fa_Enabled = Some nf_TUNEnabled, fa_New = Some (mk ServiceTypeTUN) \<rparr>,
      \<lparr> fa_Type = ServiceTypeSOCKS5, fa_Enabled = Some (\<lambda>config. nf_SOCKSBind config \<noteq> []), fa_New = Some (mk ServiceTypeSOCKS5) \<rparr>,
      \<lparr> fa_Type = ServiceTypeHTTP, fa_Enabled = Some (\<lambda>config. nf_HTTPBind config \<noteq> []), fa_New = Some (mk ServiceTypeHTTP) \<rparr>]"

definition addService :: "ServiceType \<Rightarrow> managedService \<Rightarrow> 'c netRuntime \<Rightarrow> 'c netRuntime" where
  "addService t s rt = rt\<lparr>nr_services := nr_services rt @ [\<lparr> se_typeName = t, se_service = s, se_running = False, se_lastError = [], se_monitored = False \<rparr>]\<rparr>"

text \<open>\<^verbatim>\<open>monitorService\<close> starts its goroutine only for a service that tells when it ends.\<close>

definition monitorService :: "serviceEntry \<Rightarrow> serviceEntry" where
  "monitorService e = e\<lparr>se_monitored := ms_Done (se_service e)\<rparr>"

definition on_last :: "(serviceEntry \<Rightarrow> serviceEntry) \<Rightarrow> 'c netRuntime \<Rightarrow> 'c netRuntime" where
  "on_last f rt = rt\<lparr>nr_services := butlast (nr_services rt) @ [f (last (nr_services rt))]\<rparr>"

fun startServices :: "NetConfig \<Rightarrow> InboundFactory list \<Rightarrow> 'c netRuntime \<Rightarrow> gerror option \<times> 'c netRuntime" where
  "startServices config [] rt = (None, rt)"
| "startServices config (f # fs) rt =
     (case (fa_Enabled f, fa_New f) of
        (Some enabled, Some mk) \<Rightarrow>
          if \<not> enabled config then startServices config fs rt
          else (case mk config of
              Inl err \<Rightarrow> (Some (wrapServiceStartError (fa_Type f) err), rt)
            | Inr None \<Rightarrow> (Some (wrapServiceStartError (fa_Type f) (Opaque ''inbound factory returned no service'')), rt)
            | Inr (Some server) \<Rightarrow>
                (let rt1 = addService (fa_Type f) server rt;
                     (startErr, server') = managed_Start server;
                     rt2 = on_last (\<lambda>e. e\<lparr>se_service := server'\<rparr>) rt1
                 in case startErr of
                      Some err \<Rightarrow> (Some (wrapServiceStartError (fa_Type f) err), on_last (markStopped (Some err)) rt2)
                    | None \<Rightarrow> startServices config fs (on_last monitorService (on_last markStarted rt2))))
      | _ \<Rightarrow> startServices config fs rt)"

section \<open>Replacing, failing and closing\<close>

definition put_backend :: "nat \<Rightarrow> 'c vpnBackend \<Rightarrow> 'c netRuntime \<Rightarrow> 'c netRuntime" where
  "put_backend i b rt = rt\<lparr>nr_backends := (nr_backends rt)(i := b)\<rparr>"

definition close_backend :: "nat \<Rightarrow> 'c netRuntime \<Rightarrow> gerror option \<times> 'c netRuntime" where
  "close_backend i rt = (let (err, b) = backend_Close (nr_backends rt i) in (err, put_backend i b rt))"

definition updateTUNRouteAddresses :: "(ip \<times> nat) list \<Rightarrow> serviceEntry list \<Rightarrow> gerror option" where
  "updateTUNRouteAddresses routes services =
     (case find (\<lambda>e. se_typeName e = ServiceTypeTUN) services of
        None \<Rightarrow> Some (WrapError ErrorCodeTUNUnavailable ''TUN service is unavailable while updating VPN resource routes'' False None)
      | Some e \<Rightarrow>
          (case ms_UpdateRouteAddresses (se_service e) of
             None \<Rightarrow> Some (WrapError ErrorCodeRestartRequired ''TUN service does not support updating VPN resource routes'' False None)
           | Some update \<Rightarrow> update routes))"

definition new_backend :: "'c vpnBackend \<Rightarrow> 'c netRuntime \<Rightarrow> nat \<times> 'c netRuntime" where
  "new_backend b rt = (nr_count rt, (put_backend (nr_count rt) b rt)\<lparr>nr_count := Suc (nr_count rt)\<rparr>)"

text \<open>The three parts of \<^verbatim>\<open>ReplaceVPN\<close>: the backend is made; it is installed, under the mutex, unless the runtime does not
  take it; and the one that is not needed, the old or the new, is closed.\<close>

definition replace_make :: "('b, 'c) backend_env \<Rightarrow> vpn_client \<Rightarrow> NetConfig \<Rightarrow> 'c netRuntime \<Rightarrow> nat result \<times> 'c netRuntime" where
  "replace_make env c config rt =
     (case newVPNBackend env c config of
        (Inl err, p) \<Rightarrow> (Inl err, rt\<lparr>nr_dropped := p # nr_dropped rt\<rparr>)
      | (Inr b, _) \<Rightarrow> (let (i, rt1) = new_backend b rt in (Inr i, rt1\<lparr>nr_made := i # nr_made rt1\<rparr>)))"

definition replace_install :: "nat \<Rightarrow> 'c netRuntime \<Rightarrow> gerror option \<times> 'c netRuntime" where
  "replace_install i rt0 =
     (if i \<notin> set (nr_made rt0) then (None, rt0)
      else
        let rt = rt0\<lparr>nr_made := removeAll i (nr_made rt0)\<rparr>;
            b = nr_backends rt i;
            refused = rt\<lparr>nr_retired := i # nr_retired rt\<rparr>
        in if nr_closed rt
           then (Some (WrapError ErrorCodeOutboundUnavailable ''network runtime is closed'' False None), refused)
           else case nr_runErr rt of
               Some runErr \<Rightarrow> (Some runErr, refused)
             | None \<Rightarrow>
                 (let changed = nr_resourceRoutes rt \<and> \<not> equalRoutePrefixes (nr_routeAddresses rt) (bk_routes b);
                      updateErr = (if changed then updateTUNRouteAddresses (bk_routes b) (nr_services rt) else None)
                  in case updateErr of
                       Some err \<Rightarrow> (Some err, refused)
                     | None \<Rightarrow>
                         (None, rt\<lparr>nr_routeAddresses := (if changed then bk_routes b else nr_routeAddresses rt),
                            nr_backend := Some i, nr_vpn := switchable_Replace i (nr_vpn rt), nr_resolver := Some i,
                            nr_retired := (case nr_backend rt of None \<Rightarrow> nr_retired rt | Some old \<Rightarrow> old # nr_retired rt)\<rparr>)))"

definition retire :: "nat \<Rightarrow> 'c netRuntime \<Rightarrow> 'c netRuntime" where
  "retire i rt = (if i \<in> set (nr_retired rt) then (snd (close_backend i rt))\<lparr>nr_retired := removeAll i (nr_retired rt)\<rparr> else rt)"

text \<open>The whole call, when nothing comes between its parts.\<close>

definition ReplaceVPN :: "('b, 'c) backend_env \<Rightarrow> vpn_client \<Rightarrow> NetConfig \<Rightarrow> 'c netRuntime \<Rightarrow> gerror option \<times> 'c netRuntime" where
  "ReplaceVPN env c config rt =
     (case replace_make env c config rt of
        (Inl err, rt1) \<Rightarrow> (Some err, rt1)
      | (Inr i, rt1) \<Rightarrow>
          (let (err, rt2) = replace_install i rt1
           in (err, case err of
                 Some _ \<Rightarrow> retire i rt2
               | None \<Rightarrow> (case nr_backend rt1 of None \<Rightarrow> rt2 | Some old \<Rightarrow> retire old rt2))))"

text \<open>\<^verbatim>\<open>failTUN\<close> under its mutex: the backend whose channel is to be closed next, if any.\<close>

definition failTUN :: "gerror option \<Rightarrow> 'c netRuntime \<Rightarrow> nat option \<times> 'c netRuntime" where
  "failTUN err rt =
     (if nr_closed rt \<or> nr_runErr rt \<noteq> None then (None, rt)
      else (nr_backend rt, rt\<lparr>nr_runErr := Some (WrapError ErrorCodeTUNUnavailable ''TUN service stopped'' False err)\<rparr>))"

definition serviceEventBuffer :: nat where "serviceEventBuffer = 16"

text \<open>The end of a service: its goroutine marks the entry, and goes on in steps of its own. A send to a full channel waits.\<close>

definition service_ended :: "nat \<Rightarrow> gerror option \<Rightarrow> 'c netRuntime \<Rightarrow> 'c netRuntime" where
  "service_ended k err rt =
     (if k < length (nr_services rt) \<and> se_monitored (nr_services rt ! k)
      then rt\<lparr>nr_services := (nr_services rt)[k := (markStopped err (nr_services rt ! k))\<lparr>se_monitored := False\<rparr>],
              nr_monitors := nr_monitors rt @ [(k, err, MonitorClosed)]\<rparr>
      else rt)"

definition monitor_gone :: "nat \<Rightarrow> 'c netRuntime \<Rightarrow> 'c netRuntime" where
  "monitor_gone j rt = rt\<lparr>nr_monitors := take j (nr_monitors rt) @ drop (Suc j) (nr_monitors rt)\<rparr>"

definition monitor_next :: "nat \<Rightarrow> 'c netRuntime \<Rightarrow> 'c netRuntime" where
  "monitor_next j rt =
     (if j \<ge> length (nr_monitors rt) then rt
      else
        let (k, err, pc) = nr_monitors rt ! j;
            goto = (\<lambda>pc rt. rt\<lparr>nr_monitors := (nr_monitors rt)[j := (k, err, pc)]\<rparr>)
        in case pc of
             MonitorClosed \<Rightarrow>
               if nr_closed rt then monitor_gone j rt
               else goto (if se_typeName (nr_services rt ! k) = ServiceTypeTUN then MonitorFail else MonitorSend) rt
           | MonitorFail \<Rightarrow>
               (let (signal, rt1) = failTUN err rt
                in goto (case signal of None \<Rightarrow> MonitorSend | Some i \<Rightarrow> MonitorSignal i) rt1)
           | MonitorSignal i \<Rightarrow> goto MonitorSend (put_backend i (signalDone (nr_backends rt i)) rt)
           | MonitorSend \<Rightarrow>
               if length (nr_serviceEvents rt) < serviceEventBuffer
               then monitor_gone j (rt\<lparr>nr_serviceEvents := nr_serviceEvents rt @ [entry_status (nr_services rt ! k)]\<rparr>)
               else rt)"

definition runtime_Err :: "'c netRuntime \<Rightarrow> gerror option" where
  "runtime_Err rt = (case nr_runErr rt of Some e \<Rightarrow> Some e
     | None \<Rightarrow> (case nr_backend rt of None \<Rightarrow> None | Some i \<Rightarrow> bk_runErr (nr_backends rt i)))"

text \<open>\<^verbatim>\<open>Done\<close>: nil, or whether the channel of the current backend is closed.\<close>

definition runtime_Done :: "'c netRuntime \<Rightarrow> bool option" where
  "runtime_Done rt = map_option (\<lambda>i. bk_done (nr_backends rt i)) (nr_backend rt)"

definition runtime_Services :: "'c netRuntime \<Rightarrow> ServiceStatus list" where
  "runtime_Services rt = map entry_status (nr_services rt)"

text \<open>Closing: the mark, under the mutex, and the steps that follow, one for each pass of the code between two moments
  that others can see; \<open>internetErr\<close> and \<open>directErr\<close> are what closing the other outbounds of the router returns.\<close>

definition close_begin :: "'c netRuntime \<Rightarrow> 'c netRuntime" where
  "close_begin rt =
     (if nr_closing rt = CloseIdle
      then rt\<lparr>nr_closed := True, nr_closing := CloseServices (length (nr_services rt)), nr_closeErrors := []\<rparr> else rt)"

definition on_service :: "nat \<Rightarrow> (serviceEntry \<Rightarrow> serviceEntry) \<Rightarrow> 'c netRuntime \<Rightarrow> 'c netRuntime" where
  "on_service k f rt = rt\<lparr>nr_services := (nr_services rt)[k := f (nr_services rt ! k)]\<rparr>"

definition close_next :: "((string \<rightharpoonup> nat) \<Rightarrow> string list) \<Rightarrow> gerror option \<Rightarrow> gerror option \<Rightarrow> 'c netRuntime \<Rightarrow> 'c netRuntime" where
  "close_next ord internetErr directErr rt =
     (let noted = (\<lambda>err rt. rt\<lparr>nr_closeErrors := nr_closeErrors rt @ [err]\<rparr>);
          finished = (\<lambda>rt. rt\<lparr>nr_closeErr := errors_Join (nr_closeErrors rt), nr_closing := CloseDone\<rparr>)
      in case nr_closing rt of
        CloseIdle \<Rightarrow> rt
      | CloseServices 0 \<Rightarrow> rt\<lparr>nr_cancelled := True, nr_closing := CloseConnections\<rparr>
      | CloseServices (Suc n) \<Rightarrow>
          (let (err, s) = managed_Close (se_service (nr_services rt ! n))
           in (on_service n (\<lambda>e. e\<lparr>se_service := s\<rparr>) rt)\<lparr>nr_closing := CloseMark n err\<rparr>)
      | CloseMark n err \<Rightarrow> noted err ((on_service n (markStopped err) rt)\<lparr>nr_closing := CloseServices n\<rparr>)
      | CloseConnections \<Rightarrow>
          (let (err, t) = tracker_Close ord (nr_trackers rt) in noted err (rt\<lparr>nr_trackers := t, nr_closing := CloseTransports\<rparr>))
      | CloseTransports \<Rightarrow>
          (let (err, o') = tracked_CloseAll ord (errors_Join [None, internetErr, directErr]) (tr_outbound (nr_trackers rt))
           in noted err (rt\<lparr>nr_trackers := (nr_trackers rt)\<lparr>tr_outbound := o'\<rparr>, nr_closing := CloseRouter\<rparr>))
      | CloseRouter \<Rightarrow> rt\<lparr>nr_vpn := switchable_Close (nr_vpn rt), nr_internetClosed := True, nr_closing := CloseTake\<rparr>
      | CloseTake \<Rightarrow>
          (case nr_backend rt of
             None \<Rightarrow> finished rt
           | Some i \<Rightarrow> rt\<lparr>nr_backend := None, nr_closing := CloseLast i\<rparr>)
      | CloseLast i \<Rightarrow> (let (err, rt1) = close_backend i rt in finished (noted err rt1))
      | CloseDone \<Rightarrow> rt)"

text \<open>The whole call, when nothing comes between its steps: two for a service and six more.\<close>

definition close_left :: "runtime_closing \<Rightarrow> nat" where
  "close_left pc = (case pc of CloseIdle \<Rightarrow> 0 | CloseServices n \<Rightarrow> 2 * n + 6 | CloseMark n _ \<Rightarrow> 2 * n + 7 | CloseConnections \<Rightarrow> 5
     | CloseTransports \<Rightarrow> 4 | CloseRouter \<Rightarrow> 3 | CloseTake \<Rightarrow> 2 | CloseLast _ \<Rightarrow> 1 | CloseDone \<Rightarrow> 0)"

definition net_runtime_Close :: "((string \<rightharpoonup> nat) \<Rightarrow> string list) \<Rightarrow> gerror option \<Rightarrow> gerror option \<Rightarrow> 'c netRuntime \<Rightarrow> gerror option \<times> 'c netRuntime" where
  "net_runtime_Close ord internetErr directErr rt =
     (let rt' = (close_next ord internetErr directErr ^^ (2 * length (nr_services rt) + 6)) (close_begin rt) in (nr_closeErr rt', rt'))"

section \<open>A new runtime\<close>

text \<open>\<open>detected\<close> is the interface that detection finds, if any.\<close>

record ('b, 'c, 'n) runtime_env =
  re_backend :: "('b, 'c) backend_env"
  re_detected :: string
  re_proxySOCKS5 :: "string \<Rightarrow> (string \<times> string) option \<Rightarrow> 'n outbound \<Rightarrow> 'n outbound result"
  re_dialer :: "string \<Rightarrow> 'n outbound"
  re_dialVPN :: "nat \<Rightarrow> 'n outbound"
  re_make :: "ServiceType \<Rightarrow> NetConfig \<Rightarrow> managedService option result"
  re_inbound :: "InboundFactory list"
  re_now :: int
  re_fresh :: "(nat \<Rightarrow> trackedConn) \<times> (nat \<Rightarrow> logicalConnection) \<times> (nat \<Rightarrow> 'c vpnBackend)"

definition initial_runtime :: "('b, 'c, 'n) runtime_env \<Rightarrow> bool \<Rightarrow> RoutingMode \<Rightarrow> 'c vpnBackend \<Rightarrow> 'c netRuntime" where
  "initial_runtime env resourceRoutes mode b =
     \<lparr> nr_vpn = \<lparr> sw_delegate = Some 0, sw_closed = False \<rparr>, nr_resolver = Some 0, nr_mode = mode,
       nr_trackers = new_trackers (fst (re_fresh env)) (fst (snd (re_fresh env))) (re_now env), nr_cancelled = False, nr_services = [],
       nr_serviceEvents = [], nr_backend = Some 0, nr_runErr = None, nr_resourceRoutes = resourceRoutes, nr_routeAddresses = bk_routes b,
       nr_internetClosed = False, nr_closed = False, nr_closing = CloseIdle, nr_closeErrors = [], nr_closeErr = None, nr_monitors = [],
       nr_backends = (snd (snd (re_fresh env)))(0 := b), nr_count = 1, nr_made = [], nr_retired = [], nr_dropped = [] \<rparr>"

text \<open>
  How a creation ends: with no backend, and what is left of its parts; with a backend that no runtime got, as it is
  left, and an Internet outbound, if one was made, closed or not; with a runtime one of whose services did not start; or with a runtime.
\<close>

datatype 'c new_result =
    NewFailed gerror backend_parts
  | NewRefused gerror "'c vpnBackend" "bool option"
  | NewStopped gerror "'c netRuntime"
  | NewStarted "'c netRuntime"

definition network_New ::
  "((string \<rightharpoonup> nat) \<Rightarrow> string list) \<Rightarrow> ('b, 'c, 'n) runtime_env \<Rightarrow> vpn_client \<Rightarrow> NetConfig \<Rightarrow> 'c new_result" where
  "network_New ord env c config0 =
     (case newVPNBackend (re_backend env) c config0 of
        (Inl err, p) \<Rightarrow> NewFailed err p
      | (Inr b, _) \<Rightarrow>
          (let auto = nf_TUNEnabled config0 \<and> nf_TUNAutoRoute config0;
               config1 = (if resource_routes config0 then config0\<lparr>nf_TUNRouteAddresses := bk_routes b\<rparr> else config0);
               config = (if auto \<and> nf_TUNOutboundInterface config1 = [] then config1\<lparr>nf_TUNOutboundInterface := re_detected env\<rparr> else config1);
               direct = re_dialer env (if auto then nf_TUNOutboundInterface config else [])
           in if auto \<and> nf_TUNOutboundInterface config = []
              then NewRefused (WrapError ErrorCodeInterfaceUnavailable ''TUN auto route requires a detectable outbound interface'' False None)
                     (snd (backend_Close b)) None
              else case NewInternetOutboundWithDialer (re_proxySOCKS5 env) (nf_InternetOutbound config) direct of
                  Inl err \<Rightarrow> NewRefused err (snd (backend_Close b)) None
                | Inr internet \<Rightarrow>
                    (case NewRouterWithDirect (switchable_DialContext (re_dialVPN env) \<lparr> sw_delegate = Some 0, sw_closed = False \<rparr>) internet direct
                           (nf_RoutingMode config) of
                       Inl err \<Rightarrow> NewRefused err (snd (backend_Close b)) (Some True)
                     | Inr router \<Rightarrow>
                         (let rt = initial_runtime env (resource_routes config0) (ro_mode router) b in
                          case startServices config (defaultInboundFactories (re_make env) @ re_inbound env) rt of
                            (Some err, rt1) \<Rightarrow> NewStopped err (snd (net_runtime_Close ord None None rt1))
                          | (None, rt1) \<Rightarrow> NewStarted rt1))))"

section \<open>Runs\<close>

datatype ('b, 'c) runtime_op =
    RnMake "('b, 'c) backend_env" vpn_client NetConfig
  | RnInstall nat
  | RnRetire nat
  | RnStack nat "gerror option"
  | RnHealth nat "gerror option"
  | RnService nat "gerror option"
  | RnMonitor nat
  | RnReceive
  | RnTraffic tracker_op
  | RnMode RoutingMode
  | RnClose
  | RnCloseNext "gerror option" "gerror option"

fun runtime_step :: "((string \<rightharpoonup> nat) \<Rightarrow> string list) \<Rightarrow> 'c netRuntime \<Rightarrow> ('b, 'c) runtime_op \<Rightarrow> 'c netRuntime" where
  "runtime_step ord rt (RnMake env c config) = snd (replace_make env c config rt)"
| "runtime_step ord rt (RnInstall i) = snd (replace_install i rt)"
| "runtime_step ord rt (RnRetire i) = retire i rt"
| "runtime_step ord rt (RnStack i err) = (if i < nr_count rt then put_backend i (runStack err (nr_backends rt i)) rt else rt)"
| "runtime_step ord rt (RnHealth i err) = (if i < nr_count rt then put_backend i (monitorClientHealth err (nr_backends rt i)) rt else rt)"
| "runtime_step ord rt (RnService k err) = service_ended k err rt"
| "runtime_step ord rt (RnMonitor j) = monitor_next j rt"
| "runtime_step ord rt RnReceive = rt\<lparr>nr_serviceEvents := tl (nr_serviceEvents rt)\<rparr>"
| "runtime_step ord rt (RnTraffic op) = rt\<lparr>nr_trackers := tracker_step ord (nr_trackers rt) op\<rparr>"
| "runtime_step ord rt (RnMode m) = (if mode_Valid m then rt\<lparr>nr_mode := m\<rparr> else rt)"
| "runtime_step ord rt RnClose = close_begin rt"
| "runtime_step ord rt (RnCloseNext e e') = close_next ord e e' rt"

text \<open>
  Every backend is closed, current, or in the hands of a call that installs or closes it; a closed one has its parts closed.
\<close>

definition backend_held :: "'c netRuntime \<Rightarrow> nat \<Rightarrow> bool" where
  "backend_held rt i \<longleftrightarrow> i \<in> set (nr_made rt) \<or> i \<in> set (nr_retired rt) \<or> nr_closing rt = CloseLast i"

definition well_closed :: "'c vpnBackend \<Rightarrow> bool" where
  "well_closed b \<longleftrightarrow> bk_closeOnce b \<and> bk_done b \<and> bk_cancelled b \<and> parts_closed (bk_parts b)"

definition own_inv :: "'c netRuntime \<Rightarrow> bool" where
  "own_inv rt \<longleftrightarrow>
     (\<forall>i < nr_count rt. well_closed (nr_backends rt i) \<or> nr_backend rt = Some i \<or> backend_held rt i)
   \<and> (\<forall>i < nr_count rt. bk_closeOnce (nr_backends rt i) \<longrightarrow> well_closed (nr_backends rt i))
   \<and> (\<forall>i. nr_backend rt = Some i \<longrightarrow> i < nr_count rt \<and> \<not> bk_closeOnce (nr_backends rt i) \<and> \<not> backend_held rt i)
   \<and> (\<forall>i. backend_held rt i \<longrightarrow> i < nr_count rt)
   \<and> (\<forall>i \<in> set (nr_made rt). \<not> bk_closeOnce (nr_backends rt i) \<and> i \<notin> set (nr_retired rt) \<and> nr_closing rt \<noteq> CloseLast i)"

text \<open>Where the closing is: whether it has closed the service \<open>k\<close>, all services, the router.\<close>

definition service_done :: "runtime_closing \<Rightarrow> nat \<Rightarrow> bool" where
  "service_done pc k \<longleftrightarrow> (case pc of CloseIdle \<Rightarrow> False | CloseServices n \<Rightarrow> n \<le> k | CloseMark n _ \<Rightarrow> n < k | _ \<Rightarrow> True)"

definition past_services :: "runtime_closing \<Rightarrow> bool" where
  "past_services pc \<longleftrightarrow> (case pc of CloseIdle \<Rightarrow> False | CloseServices n \<Rightarrow> False | CloseMark n _ \<Rightarrow> False | _ \<Rightarrow> True)"

definition past_router :: "runtime_closing \<Rightarrow> bool" where
  "past_router pc \<longleftrightarrow> (case pc of CloseTake \<Rightarrow> True | CloseLast _ \<Rightarrow> True | CloseDone \<Rightarrow> True | _ \<Rightarrow> False)"

definition past_take :: "runtime_closing \<Rightarrow> bool" where
  "past_take pc \<longleftrightarrow> (case pc of CloseLast _ \<Rightarrow> True | CloseDone \<Rightarrow> True | _ \<Rightarrow> False)"

lemmas past_defs = service_done_def past_services_def past_router_def past_take_def

definition service_inv :: "runtime_closing \<Rightarrow> serviceEntry list \<Rightarrow> bool" where
  "service_inv pc es \<longleftrightarrow>
     (\<forall>k < length es. service_done pc k \<longrightarrow> ms_closed (se_service (es ! k)) \<and> \<not> se_running (es ! k))
   \<and> (case pc of CloseServices n \<Rightarrow> n \<le> length es | CloseMark n _ \<Rightarrow> n < length es \<and> ms_closed (se_service (es ! n)) | _ \<Rightarrow> True)"

definition flow_inv :: "'c netRuntime \<Rightarrow> bool" where
  "flow_inv rt \<longleftrightarrow>
     (\<forall>i. nr_backend rt = Some i \<longrightarrow> nr_resolver rt = Some i \<and> (\<not> past_router (nr_closing rt) \<longrightarrow> sw_delegate (nr_vpn rt) = Some i))
   \<and> (nr_closed rt \<longleftrightarrow> nr_closing rt \<noteq> CloseIdle)
   \<and> (nr_backend rt = None \<longleftrightarrow> past_take (nr_closing rt))
   \<and> (sw_closed (nr_vpn rt) \<longleftrightarrow> past_router (nr_closing rt)) \<and> (past_router (nr_closing rt) \<longrightarrow> nr_internetClosed rt)
   \<and> (past_services (nr_closing rt) \<longrightarrow> nr_cancelled rt)
   \<and> service_inv (nr_closing rt) (nr_services rt)
   \<and> length (nr_serviceEvents rt) \<le> serviceEventBuffer \<and> tracker_inv (nr_trackers rt) \<and> list_all parts_closed (nr_dropped rt)"

text \<open>An error of the TUN service ends the channel of the current backend, or the goroutine that saw it is about to.\<close>

definition signal_inv :: "'c netRuntime \<Rightarrow> bool" where
  "signal_inv rt \<longleftrightarrow> (\<forall>i. nr_backend rt = Some i \<and> nr_runErr rt \<noteq> None \<longrightarrow>
     bk_done (nr_backends rt i) \<or> (\<exists>k e. (k, e, MonitorSignal i) \<in> set (nr_monitors rt)))"

definition net_inv :: "'c netRuntime \<Rightarrow> bool" where
  "net_inv rt \<longleftrightarrow> own_inv rt \<and> flow_inv rt \<and> signal_inv rt"

definition same_own :: "'c netRuntime \<Rightarrow> 'c netRuntime \<Rightarrow> bool" where
  "same_own rt u \<longleftrightarrow> nr_count u = nr_count rt \<and> nr_backends u = nr_backends rt \<and> nr_backend u = nr_backend rt \<and> nr_retired u = nr_retired rt
     \<and> nr_made u = nr_made rt \<and> (\<forall>i. nr_closing u = CloseLast i \<longleftrightarrow> nr_closing rt = CloseLast i)"

lemma own_inv_cong: "same_own rt u \<Longrightarrow> own_inv rt \<Longrightarrow> own_inv u"
  unfolding same_own_def own_inv_def backend_held_def by simp

definition same_flow :: "'c netRuntime \<Rightarrow> 'c netRuntime \<Rightarrow> bool" where
  "same_flow rt u \<longleftrightarrow> nr_vpn u = nr_vpn rt \<and> nr_resolver u = nr_resolver rt \<and> nr_backend u = nr_backend rt \<and> nr_closed u = nr_closed rt
     \<and> nr_closing u = nr_closing rt \<and> nr_cancelled u = nr_cancelled rt \<and> nr_services u = nr_services rt \<and> nr_serviceEvents u = nr_serviceEvents rt
     \<and> nr_trackers u = nr_trackers rt \<and> nr_internetClosed u = nr_internetClosed rt \<and> nr_dropped u = nr_dropped rt"

lemma flow_inv_cong: "same_flow rt u \<Longrightarrow> flow_inv rt \<Longrightarrow> flow_inv u"
  unfolding same_flow_def flow_inv_def by simp

definition same_signal :: "'c netRuntime \<Rightarrow> 'c netRuntime \<Rightarrow> bool" where
  "same_signal rt u \<longleftrightarrow> nr_backend u = nr_backend rt \<and> nr_runErr u = nr_runErr rt \<and> set (nr_monitors rt) \<subseteq> set (nr_monitors u)
     \<and> (\<forall>i. bk_done (nr_backends rt i) \<longrightarrow> bk_done (nr_backends u i))"

lemma signal_inv_cong: "same_signal rt u \<Longrightarrow> signal_inv rt \<Longrightarrow> signal_inv u"
  unfolding same_signal_def signal_inv_def by (metis subsetD)

text \<open>A backend goes on without being closed.\<close>

definition goes_on :: "'c vpnBackend \<Rightarrow> 'c vpnBackend \<Rightarrow> bool" where
  "goes_on b b' \<longleftrightarrow> bk_closeOnce b' = bk_closeOnce b \<and> (bk_done b \<longrightarrow> bk_done b') \<and> bk_cancelled b' = bk_cancelled b \<and> bk_parts b' = bk_parts b"

lemma goes_on_ops: "goes_on b (signalDone b)" "goes_on b (runStack e b)" "goes_on b (monitorClientHealth e b)"
  by (simp_all add: goes_on_def signalDone_def runStack_def monitorClientHealth_def backend_fail_def split: option.split)

lemma own_inv_put: "own_inv rt \<Longrightarrow> goes_on (nr_backends rt j) b \<Longrightarrow> own_inv (put_backend j b rt)"
  unfolding own_inv_def put_backend_def goes_on_def backend_held_def well_closed_def by auto

lemma flow_inv_put [simp]: "flow_inv (put_backend i b rt) \<longleftrightarrow> flow_inv rt"
  by (simp add: flow_inv_def put_backend_def)

lemma net_inv_put: "net_inv rt \<Longrightarrow> goes_on (nr_backends rt j) b \<Longrightarrow> net_inv (put_backend j b rt)"
proof -
  assume n: "net_inv rt" and g: "goes_on (nr_backends rt j) b"
  have "same_signal rt (put_backend j b rt)" using g by (simp add: same_signal_def put_backend_def goes_on_def)
  then show ?thesis using n signal_inv_cong [of rt "put_backend j b rt"] own_inv_put [OF _ g] by (simp add: net_inv_def)
qed

lemma backend_Close_closed:
  "(bk_closeOnce b \<Longrightarrow> well_closed b) \<Longrightarrow> well_closed (snd (backend_Close b))" "\<not> bk_closeOnce b \<Longrightarrow> well_closed (snd (backend_Close b))"
  by (simp_all add: backend_Close_def signalDone_def well_closed_def parts_closed_def stack_Close_def resolver_CloseContext_def Let_def)

lemma close_backend_fields: "snd (close_backend i rt) = put_backend i (snd (backend_Close (nr_backends rt i))) rt"
  by (simp add: close_backend_def case_prod_unfold Let_def)

lemma own_inv_done:
  assumes "own_inv rt" "nr_backend u = nr_backend rt" "nr_count u = nr_count rt" "nr_made u = nr_made rt"
    "nr_backends u = (nr_backends rt)(j := snd (backend_Close (nr_backends rt j)))" "j < nr_count rt" "nr_backend rt \<noteq> Some j" "j \<notin> set (nr_made rt)"
    "set (nr_retired u) \<subseteq> set (nr_retired rt)" "set (nr_retired rt) \<subseteq> insert j (set (nr_retired u))"
    "\<forall>i. nr_closing u = CloseLast i \<longrightarrow> nr_closing rt = CloseLast i" "\<forall>i. nr_closing rt = CloseLast i \<longrightarrow> i = j \<or> nr_closing u = CloseLast i"
  shows "own_inv u"
proof -
  have b: "well_closed (snd (backend_Close (nr_backends rt j)))" "bk_closeOnce (snd (backend_Close (nr_backends rt j)))"
    using backend_Close_closed(1) [of "nr_backends rt j"] assms(1,6) by (auto simp: own_inv_def well_closed_def)
  have h: "backend_held rt i" if "backend_held u i" for i using that assms(4,9,11) unfolding backend_held_def by auto
  have h': "i = j \<or> backend_held u i" if "backend_held rt i" for i using that assms(4,10,12) unfolding backend_held_def by auto
  have "well_closed (nr_backends u i) \<or> nr_backend u = Some i \<or> backend_held u i" if "i < nr_count rt" for i
    using assms(1) that b h' [of i] unfolding own_inv_def assms(2,5) by (cases "i = j") auto
  moreover have "bk_closeOnce (nr_backends u i) \<longrightarrow> well_closed (nr_backends u i)" if "i < nr_count rt" for i
    using assms(1) that b unfolding own_inv_def assms(5) by (cases "i = j") auto
  moreover have "i < nr_count rt \<and> \<not> bk_closeOnce (nr_backends u i) \<and> \<not> backend_held u i" if "nr_backend rt = Some i" for i
    using assms(1,7) that h [of i] unfolding own_inv_def assms(5) by (cases "i = j") auto
  moreover have "i < nr_count rt" if "backend_held u i" for i using assms(1) h [OF that] by (simp add: own_inv_def)
  moreover have "\<not> bk_closeOnce (nr_backends u i) \<and> i \<notin> set (nr_retired u) \<and> nr_closing u \<noteq> CloseLast i" if "i \<in> set (nr_made rt)" for i
    using assms(1,8,9,11) that unfolding own_inv_def assms(5) by (cases "i = j") auto
  ultimately show ?thesis unfolding own_inv_def assms(2-4) by blast
qed

lemma newVPNBackend_fresh:
  "newVPNBackend env c config = (Inr b, p) \<Longrightarrow> \<not> bk_closeOnce b \<and> \<not> bk_done b \<and> \<not> bk_cancelled b \<and> bk_runErr b = None
     \<and> bk_parts b = \<lparr> bp_stack = Some False, bp_resolver = Some False \<rparr>"
  by (auto simp: newVPNBackend_def Let_def no_parts_def split: sum.splits option.splits)

lemma newVPNBackend_dropped: "newVPNBackend env c config = (Inl err, p) \<Longrightarrow> parts_closed p"
  by (auto simp: newVPNBackend_def Let_def no_parts_def parts_closed_def stack_Close_def resolver_CloseContext_def split: sum.splits option.splits)

lemma net_inv_make:
  assumes n: "net_inv rt"
  shows "net_inv (snd (replace_make env c config rt))"
proof (cases "newVPNBackend env c config")
  case (Pair r p)
  show ?thesis
  proof (cases r)
    case (Inl err)
    then have "parts_closed p" using Pair newVPNBackend_dropped by blast
    then have "flow_inv (rt\<lparr>nr_dropped := p # nr_dropped rt\<rparr>)" using n by (simp add: net_inv_def flow_inv_def)
    then show ?thesis using n own_inv_cong [of rt "rt\<lparr>nr_dropped := p # nr_dropped rt\<rparr>"] signal_inv_cong [of rt "rt\<lparr>nr_dropped := p # nr_dropped rt\<rparr>"]
      by (simp add: net_inv_def replace_make_def Pair Inl same_own_def same_signal_def)
  next
    case (Inr b)
    let ?i = "nr_count rt"
    let ?u = "rt\<lparr>nr_backends := (nr_backends rt)(?i := b), nr_count := Suc ?i, nr_made := ?i # nr_made rt\<rparr>"
    have u: "snd (replace_make env c config rt) = ?u" by (simp add: replace_make_def Pair Inr new_backend_def put_backend_def)
    have b: "\<not> bk_closeOnce b" using newVPNBackend_fresh Pair Inr by blast
    have o: "own_inv rt" using n by (simp add: net_inv_def)
    then have f: "\<not> backend_held rt ?i" "nr_backend rt \<noteq> Some ?i" by (auto simp: own_inv_def)
    have h: "backend_held ?u j \<longleftrightarrow> j = ?i \<or> backend_held rt j" for j by (auto simp: backend_held_def)
    have "own_inv ?u" unfolding own_inv_def h using o b f unfolding own_inv_def by (auto simp: less_Suc_eq backend_held_def)
    moreover have "flow_inv ?u" by (rule flow_inv_cong [of rt]) (use n in \<open>simp_all add: same_flow_def net_inv_def\<close>)
    moreover have "signal_inv ?u" using n f(2) by (simp add: net_inv_def signal_inv_def)
    ultimately show ?thesis unfolding u by (simp add: net_inv_def)
  qed
qed

text \<open>The backend of a call that waits is installed, or set aside to be closed.\<close>

lemma replace_install_cases:
  assumes "i \<in> set (nr_made rt)"
  obtains (refused) "fst (replace_install i rt) \<noteq> None"
      "snd (replace_install i rt) = rt\<lparr>nr_made := removeAll i (nr_made rt), nr_retired := i # nr_retired rt\<rparr>"
  | (installed) routes where "fst (replace_install i rt) = None" "\<not> nr_closed rt" "nr_runErr rt = None"
      "snd (replace_install i rt) = rt\<lparr>nr_made := removeAll i (nr_made rt), nr_routeAddresses := routes, nr_backend := Some i,
         nr_vpn := switchable_Replace i (nr_vpn rt), nr_resolver := Some i,
         nr_retired := (case nr_backend rt of None \<Rightarrow> nr_retired rt | Some old \<Rightarrow> old # nr_retired rt)\<rparr>"
proof -
  define changed where "changed \<longleftrightarrow> nr_resourceRoutes rt \<and> \<not> equalRoutePrefixes (nr_routeAddresses rt) (bk_routes (nr_backends rt i))"
  show ?thesis
  proof (cases "\<not> nr_closed rt \<and> nr_runErr rt = None \<and> (changed \<longrightarrow> updateTUNRouteAddresses (bk_routes (nr_backends rt i)) (nr_services rt) = None)")
    case True
    then show ?thesis using installed [of "if changed then bk_routes (nr_backends rt i) else nr_routeAddresses rt"] assms
      by (simp add: replace_install_def changed_def Let_def split: option.splits)
  next
    case False
    then show ?thesis using refused assms by (auto simp: replace_install_def changed_def Let_def split: option.splits)
  qed
qed

lemma net_inv_install:
  assumes n: "net_inv rt"
  shows "net_inv (snd (replace_install i rt))"
proof (cases "i \<in> set (nr_made rt)")
  case True
  have o: "own_inv rt" "flow_inv rt" "signal_inv rt" using n by (simp_all add: net_inv_def)
  have m: "i < nr_count rt" "\<not> bk_closeOnce (nr_backends rt i)" "i \<notin> set (nr_retired rt)" "nr_closing rt \<noteq> CloseLast i" "nr_backend rt \<noteq> Some i"
    using o(1) True by (auto simp: own_inv_def backend_held_def)
  show ?thesis
  proof (cases rule: replace_install_cases [OF True])
    case 1
    let ?u = "rt\<lparr>nr_made := removeAll i (nr_made rt), nr_retired := i # nr_retired rt\<rparr>"
    have h: "backend_held ?u = backend_held rt" using True by (auto simp: backend_held_def fun_eq_iff)
    have "own_inv ?u" unfolding own_inv_def h using o(1) unfolding own_inv_def by auto
    moreover have "flow_inv ?u" by (rule flow_inv_cong [OF _ o(2)]) (simp add: same_flow_def)
    moreover have "signal_inv ?u" by (rule signal_inv_cong [OF _ o(3)]) (simp add: same_signal_def)
    ultimately show ?thesis using 1 by (simp add: net_inv_def)
  next
    case (2 routes)
    have once: "nr_closing rt = CloseIdle" using 2(2) o(2) by (simp add: flow_inv_def)
    then obtain old where old: "nr_backend rt = Some old" using o(2) by (auto simp: flow_inv_def past_take_def)
    have oo: "old < nr_count rt" "\<not> backend_held rt old" "old \<noteq> i" using o(1) old m by (auto simp: own_inv_def)
    let ?u = "rt\<lparr>nr_made := removeAll i (nr_made rt), nr_routeAddresses := routes, nr_backend := Some i,
         nr_vpn := switchable_Replace i (nr_vpn rt), nr_resolver := Some i, nr_retired := old # nr_retired rt\<rparr>"
    have h: "backend_held ?u j \<longleftrightarrow> j = old \<or> backend_held rt j \<and> j \<noteq> i" for j using oo m once by (auto simp: backend_held_def)
    have "own_inv ?u" unfolding own_inv_def h using o(1) old oo m once unfolding own_inv_def by (auto simp: backend_held_def)
    moreover have "flow_inv ?u" using o(2) once by (simp add: flow_inv_def past_defs switchable_Replace_def)
    moreover have "signal_inv ?u" using 2(3) by (simp add: signal_inv_def)
    ultimately show ?thesis using 2 old by (simp add: net_inv_def)
  qed
qed (use n in \<open>simp add: replace_install_def\<close>)

lemma net_inv_retire:
  assumes n: "net_inv rt"
  shows "net_inv (retire i rt)"
proof (cases "i \<in> set (nr_retired rt)")
  case True
  have o: "own_inv rt" "flow_inv rt" "signal_inv rt" using n by (simp_all add: net_inv_def)
  have i: "i < nr_count rt" "nr_backend rt \<noteq> Some i" "i \<notin> set (nr_made rt)" using o(1) True by (auto simp: own_inv_def backend_held_def)
  have "own_inv (retire i rt)"
    by (rule own_inv_done [OF o(1), where j = i]) (use True i in \<open>auto simp: retire_def close_backend_fields put_backend_def\<close>)
  moreover have "flow_inv (retire i rt)"
    by (rule flow_inv_cong [OF _ o(2)]) (simp add: same_flow_def retire_def close_backend_fields put_backend_def)
  moreover have "signal_inv (retire i rt)"
    by (rule signal_inv_cong [OF _ o(3)])
      (simp add: same_signal_def retire_def close_backend_fields put_backend_def backend_Close_def signalDone_def Let_def)
  ultimately show ?thesis by (simp add: net_inv_def)
qed (use n in \<open>simp add: retire_def\<close>)

lemma not_running_markStopped [simp]: "\<not> se_running (markStopped err e)" "se_service (markStopped err e) = se_service e"
  by (simp_all add: markStopped_def split: option.split)

lemma service_inv_update:
  assumes "service_inv pc es" "ms_closed (se_service (es ! k)) \<longrightarrow> ms_closed (se_service e)" "se_running e \<longrightarrow> se_running (es ! k)"
  shows "service_inv pc (es[k := e])"
proof -
  have "(ms_closed (se_service (es ! i)) \<longrightarrow> ms_closed (se_service (es[k := e] ! i))) \<and> (se_running (es[k := e] ! i) \<longrightarrow> se_running (es ! i))"
    if "i < length es" for i using assms(2,3) that by (cases "i = k") simp_all
  then show ?thesis using assms(1) unfolding service_inv_def by (cases pc) auto
qed

lemma net_inv_ended: "net_inv rt \<Longrightarrow> net_inv (service_ended k err rt)"
proof -
  assume n: "net_inv rt"
  let ?u = "rt\<lparr>nr_services := (nr_services rt)[k := (markStopped err (nr_services rt ! k))\<lparr>se_monitored := False\<rparr>],
    nr_monitors := nr_monitors rt @ [(k, err, MonitorClosed)]\<rparr>"
  have "service_inv (nr_closing rt) (nr_services ?u)"
    using n service_inv_update [of "nr_closing rt" "nr_services rt" k "(markStopped err (nr_services rt ! k))\<lparr>se_monitored := False\<rparr>"]
    by (simp add: net_inv_def flow_inv_def)
  then have "flow_inv ?u" using n by (simp add: net_inv_def flow_inv_def)
  moreover have "own_inv ?u" "signal_inv ?u" using n own_inv_cong [of rt ?u] signal_inv_cong [of rt ?u]
    by (auto simp: net_inv_def same_own_def same_signal_def)
  ultimately show ?thesis using n by (simp add: service_ended_def net_inv_def)
qed

text \<open>A goroutine that waits for a service goes on, and is replaced by itself further on, or gone.\<close>

lemma signal_inv_monitors:
  assumes "signal_inv rt" "nr_backend u = nr_backend rt" "nr_runErr u = nr_runErr rt" "\<forall>i. bk_done (nr_backends rt i) \<longrightarrow> bk_done (nr_backends u i)"
    "\<forall>m \<in> set (nr_monitors rt). m \<in> set (nr_monitors u) \<or> (\<forall>i. snd (snd m) = MonitorSignal i \<longrightarrow> bk_done (nr_backends u i))"
  shows "signal_inv u"
  using assms unfolding signal_inv_def by (metis snd_conv)

lemma in_set_but_one: "m \<in> set xs \<Longrightarrow> j < length xs \<Longrightarrow> m = xs ! j \<or> m \<in> set (take j xs @ drop (Suc j) xs)"
  using id_take_nth_drop [of j xs] by (metis Un_iff insert_iff list.simps(15) set_append)

lemma in_set_update: "m \<in> set xs \<Longrightarrow> j < length xs \<Longrightarrow> m = xs ! j \<or> m \<in> set (xs[j := y])"
  by (metis in_set_conv_nth length_list_update nth_list_update_neq)

lemma net_inv_monitor:
  assumes n: "net_inv rt"
  shows "net_inv (monitor_next j rt)"
proof (cases "j < length (nr_monitors rt)")
  case True
  have o: "own_inv rt" "flow_inv rt" "signal_inv rt" using n by (simp_all add: net_inv_def)
  obtain k err pc where m: "nr_monitors rt ! j = (k, err, pc)" by (cases "nr_monitors rt ! j")
  have moved: "net_inv (r\<lparr>nr_monitors := (nr_monitors rt)[j := (k, err, pc')]\<rparr>)"
    if "own_inv r" "flow_inv r" "nr_backend r = nr_backend rt" "nr_runErr r = nr_runErr rt" "\<forall>i. bk_done (nr_backends rt i) \<longrightarrow> bk_done (nr_backends r i)"
      "\<forall>i. pc = MonitorSignal i \<longrightarrow> bk_done (nr_backends r i)" for r pc'
  proof -
    let ?u = "r\<lparr>nr_monitors := (nr_monitors rt)[j := (k, err, pc')]\<rparr>"
    have "own_inv ?u" by (rule own_inv_cong [OF _ that(1)]) (simp add: same_own_def)
    moreover have "flow_inv ?u" by (rule flow_inv_cong [OF _ that(2)]) (simp add: same_flow_def)
    moreover have "signal_inv ?u"
    proof (rule signal_inv_monitors [OF o(3)])
      show "\<forall>m \<in> set (nr_monitors rt). m \<in> set (nr_monitors ?u) \<or> (\<forall>i. snd (snd m) = MonitorSignal i \<longrightarrow> bk_done (nr_backends ?u i))"
      proof
        fix x assume "x \<in> set (nr_monitors rt)"
        then have "x = (k, err, pc) \<or> x \<in> set ((nr_monitors rt)[j := (k, err, pc')])" using in_set_update True m by metis
        then show "x \<in> set (nr_monitors ?u) \<or> (\<forall>i. snd (snd x) = MonitorSignal i \<longrightarrow> bk_done (nr_backends ?u i))" using that(6) by auto
      qed
    qed (use that in simp_all)
    ultimately show ?thesis by (simp add: net_inv_def)
  qed
  have gone: "net_inv (monitor_gone j (rt\<lparr>nr_serviceEvents := q\<rparr>))" if "length q \<le> serviceEventBuffer" "\<forall>i. pc \<noteq> MonitorSignal i" for q
  proof -
    let ?u = "monitor_gone j (rt\<lparr>nr_serviceEvents := q\<rparr>)"
    have "own_inv ?u" by (rule own_inv_cong [OF _ o(1)]) (simp add: same_own_def monitor_gone_def)
    moreover have "flow_inv ?u" using o(2) that(1) by (simp add: flow_inv_def monitor_gone_def)
    moreover have "signal_inv ?u"
    proof (rule signal_inv_monitors [OF o(3)])
      show "\<forall>m \<in> set (nr_monitors rt). m \<in> set (nr_monitors ?u) \<or> (\<forall>i. snd (snd m) = MonitorSignal i \<longrightarrow> bk_done (nr_backends ?u i))"
      proof
        fix x assume "x \<in> set (nr_monitors rt)"
        then have "x = (k, err, pc) \<or> x \<in> set (nr_monitors ?u)" using in_set_but_one [of x "nr_monitors rt" j] True m by (simp add: monitor_gone_def)
        then show "x \<in> set (nr_monitors ?u) \<or> (\<forall>i. snd (snd x) = MonitorSignal i \<longrightarrow> bk_done (nr_backends ?u i))" using that(2) by auto
      qed
    qed (simp_all add: monitor_gone_def)
    ultimately show ?thesis by (simp add: net_inv_def)
  qed
  have q: "length (nr_serviceEvents rt) \<le> serviceEventBuffer" using o(2) by (simp add: flow_inv_def)
  show ?thesis
  proof (cases pc)
    case MonitorClosed
    then show ?thesis using moved [OF o(1,2)] gone [OF q] True m by (simp add: monitor_next_def)
  next
    case MonitorFail
    show ?thesis
    proof (cases "nr_closed rt \<or> nr_runErr rt \<noteq> None")
      case True
      then show ?thesis using moved [OF o(1,2)] MonitorFail \<open>j < _\<close> m by (simp add: monitor_next_def failTUN_def)
    next
      case False
      let ?r = "rt\<lparr>nr_runErr := Some (WrapError ErrorCodeTUNUnavailable ''TUN service stopped'' False err)\<rparr>"
      let ?pc = "case nr_backend rt of None \<Rightarrow> MonitorSend | Some i \<Rightarrow> MonitorSignal i"
      let ?u = "?r\<lparr>nr_monitors := (nr_monitors rt)[j := (k, err, ?pc)]\<rparr>"
      have "(k, err, ?pc) \<in> set ((nr_monitors rt)[j := (k, err, ?pc)])" using True by (rule set_update_memI)
      then have "signal_inv ?u" unfolding signal_inv_def by auto
      moreover have "own_inv ?u" by (rule own_inv_cong [OF _ o(1)]) (simp add: same_own_def)
      moreover have "flow_inv ?u" by (rule flow_inv_cong [OF _ o(2)]) (simp add: same_flow_def)
      ultimately show ?thesis using MonitorFail True m False by (simp add: monitor_next_def failTUN_def net_inv_def)
    qed
  next
    case (MonitorSignal i)
    let ?r = "put_backend i (signalDone (nr_backends rt i)) rt"
    have "net_inv ?r" by (rule net_inv_put [OF n goes_on_ops(1)])
    then show ?thesis using moved [of ?r MonitorSend] MonitorSignal True m by (simp add: monitor_next_def net_inv_def put_backend_def signalDone_def)
  next
    case MonitorSend
    then show ?thesis using gone [of "nr_serviceEvents rt @ [entry_status (nr_services rt ! k)]"] n True m by (simp add: monitor_next_def)
  qed
qed (use n in \<open>simp add: monitor_next_def\<close>)

lemma tracker_inv_tracked_CloseAll: "tracker_inv t \<Longrightarrow> tracker_inv (t\<lparr>tr_outbound := snd (tracked_CloseAll ord e (tr_outbound t))\<rparr>)"
  using tracker_inv_out [of t] tracked_CloseAll_frame [of "tr_outbound t" ord e] by (simp add: tracker_inv_def)

lemma service_inv_next:
  assumes "service_inv (CloseServices (Suc n)) es"
  shows "service_inv (CloseMark n err) (es[n := (es ! n)\<lparr>se_service := snd (managed_Close (se_service (es ! n)))\<rparr>])"
  using assms unfolding service_inv_def by (simp add: service_done_def managed_Close_def nth_list_update)

lemma service_inv_mark:
  assumes "service_inv (CloseMark n err) es"
  shows "service_inv (CloseServices n) (es[n := markStopped err (es ! n)])"
proof -
  have "ms_closed (se_service (es[n := markStopped err (es ! n)] ! k)) \<and> \<not> se_running (es[n := markStopped err (es ! n)] ! k)"
    if "k < length es" "n \<le> k" for k
    using assms that by (cases "k = n") (simp_all add: service_inv_def service_done_def)
  then show ?thesis using assms by (simp add: service_inv_def service_done_def)
qed

lemma net_inv_close_next:
  assumes n: "net_inv rt"
  shows "net_inv (close_next ord e e' rt)"
proof -
  have o: "own_inv rt" "flow_inv rt" "signal_inv rt" using n by (simp_all add: net_inv_def)
  have kept: "net_inv u" if "same_own rt u" "same_signal rt u" "flow_inv u" for u
    using that own_inv_cong [OF that(1) o(1)] signal_inv_cong [OF that(2) o(3)] by (simp add: net_inv_def)
  let ?u = "close_next ord e e' rt"
  show ?thesis
  proof (cases "nr_closing rt")
    case (CloseServices m)
    show ?thesis
    proof (cases m)
      case 0
      have "flow_inv ?u" using o(2) CloseServices 0 by (simp add: flow_inv_def close_next_def past_defs service_inv_def)
      then show ?thesis by (rule kept [rotated 2]) (simp_all add: close_next_def CloseServices 0 same_own_def same_signal_def)
    next
      case (Suc k)
      have "service_inv (CloseServices (Suc k)) (nr_services rt)" using o(2) CloseServices Suc by (simp add: flow_inv_def)
      from service_inv_next [OF this] have "flow_inv ?u" using o(2) CloseServices Suc
        by (simp add: flow_inv_def close_next_def past_router_def past_services_def past_take_def on_service_def case_prod_unfold Let_def)
      then show ?thesis
        by (rule kept [rotated 2]) (simp_all add: close_next_def CloseServices Suc same_own_def same_signal_def on_service_def case_prod_unfold Let_def)
    qed
  next
    case (CloseMark k err)
    have "service_inv (CloseMark k err) (nr_services rt)" using o(2) CloseMark by (simp add: flow_inv_def)
    from service_inv_mark [OF this] have "flow_inv ?u" using o(2) CloseMark
      by (simp add: flow_inv_def close_next_def past_router_def past_services_def past_take_def on_service_def)
    then show ?thesis by (rule kept [rotated 2]) (simp_all add: close_next_def CloseMark same_own_def same_signal_def on_service_def)
  next
    case CloseConnections
    have "flow_inv ?u" using o(2) CloseConnections tracker_inv_Close
      by (simp add: flow_inv_def close_next_def past_defs service_inv_def case_prod_unfold Let_def)
    then show ?thesis by (rule kept [rotated 2]) (simp_all add: close_next_def CloseConnections same_own_def same_signal_def case_prod_unfold Let_def)
  next
    case CloseTransports
    have "flow_inv ?u" using o(2) CloseTransports tracker_inv_tracked_CloseAll
      by (simp add: flow_inv_def close_next_def past_defs service_inv_def case_prod_unfold Let_def)
    then show ?thesis by (rule kept [rotated 2]) (simp_all add: close_next_def CloseTransports same_own_def same_signal_def case_prod_unfold Let_def)
  next
    case CloseRouter
    have "flow_inv ?u" using o(2) CloseRouter by (simp add: flow_inv_def close_next_def past_defs service_inv_def switchable_Close_def)
    then show ?thesis by (rule kept [rotated 2]) (simp_all add: close_next_def CloseRouter same_own_def same_signal_def)
  next
    case CloseTake
    then obtain i where i: "nr_backend rt = Some i" using o(2) by (auto simp: flow_inv_def past_take_def)
    have u: "?u = rt\<lparr>nr_backend := None, nr_closing := CloseLast i\<rparr>" by (simp add: close_next_def CloseTake i)
    have "i < nr_count rt" "\<not> backend_held rt i" using o(1) i by (auto simp: own_inv_def)
    moreover have h: "backend_held ?u j \<longleftrightarrow> j = i \<or> backend_held rt j" for j using CloseTake by (auto simp: u backend_held_def)
    ultimately have "own_inv ?u" unfolding own_inv_def h using o(1) i CloseTake unfolding own_inv_def by (auto simp: u backend_held_def)
    moreover have "flow_inv ?u" using o(2) CloseTake by (simp add: u flow_inv_def past_defs service_inv_def)
    moreover have "signal_inv ?u" by (simp add: u signal_inv_def)
    ultimately show ?thesis by (simp add: net_inv_def)
  next
    case (CloseLast i)
    have b: "nr_backend rt = None" using o(2) CloseLast by (simp add: flow_inv_def past_take_def)
    have i: "i < nr_count rt" "i \<notin> set (nr_made rt)" using o(1) CloseLast by (auto simp: own_inv_def backend_held_def)
    obtain es err where u: "?u = rt\<lparr>nr_backends := (nr_backends rt)(i := snd (backend_Close (nr_backends rt i))), nr_closeErrors := es,
        nr_closeErr := err, nr_closing := CloseDone\<rparr>"
      by (simp add: close_next_def CloseLast close_backend_def put_backend_def case_prod_unfold Let_def)
    have "own_inv ?u" by (rule own_inv_done [OF o(1), where j = i]) (use b i CloseLast in \<open>auto simp: u\<close>)
    moreover have "flow_inv ?u" using o(2) CloseLast by (simp add: u flow_inv_def past_defs service_inv_def)
    moreover have "signal_inv ?u" by (simp add: u signal_inv_def b)
    ultimately show ?thesis by (simp add: net_inv_def)
  qed (use n in \<open>simp_all add: close_next_def\<close>)
qed

lemma net_inv_step: "net_inv rt \<Longrightarrow> net_inv (runtime_step ord rt op)"
proof (cases op)
  case RnReceive
  assume n: "net_inv rt"
  let ?u = "rt\<lparr>nr_serviceEvents := tl (nr_serviceEvents rt)\<rparr>"
  have "flow_inv ?u" using n by (auto simp: net_inv_def flow_inv_def)
  then show ?thesis using n own_inv_cong [of rt ?u] signal_inv_cong [of rt ?u] by (simp add: RnReceive net_inv_def same_own_def same_signal_def)
next
  case (RnTraffic x)
  assume n: "net_inv rt"
  let ?u = "rt\<lparr>nr_trackers := tracker_step ord (nr_trackers rt) x\<rparr>"
  have "flow_inv ?u" using n tracker_inv_step by (simp add: net_inv_def flow_inv_def)
  then show ?thesis using n own_inv_cong [of rt ?u] signal_inv_cong [of rt ?u] by (simp add: RnTraffic net_inv_def same_own_def same_signal_def)
next
  case (RnMode m)
  assume n: "net_inv rt"
  let ?u = "rt\<lparr>nr_mode := m\<rparr>"
  show ?thesis using n own_inv_cong [of rt ?u] flow_inv_cong [of rt ?u] signal_inv_cong [of rt ?u]
    by (simp add: RnMode net_inv_def same_own_def same_flow_def same_signal_def)
next
  case RnClose
  assume n: "net_inv rt"
  have "flow_inv (close_begin rt)" using n by (auto simp: net_inv_def flow_inv_def close_begin_def past_defs service_inv_def)
  then show ?thesis using n own_inv_cong [of rt "close_begin rt"] signal_inv_cong [of rt "close_begin rt"]
    by (simp add: RnClose net_inv_def same_own_def same_signal_def close_begin_def)
qed (simp_all add: net_inv_make net_inv_install net_inv_retire net_inv_ended net_inv_monitor net_inv_close_next net_inv_put goes_on_ops)

interpretation netrt: step_system net_inv "runtime_step ord" net_inv for ord
  by unfold_locales (simp_all add: net_inv_step)

text \<open>The closing ends after so many steps of its own, whatever runs between.\<close>

lemma close_next_left:
  "nr_closing rt \<noteq> CloseIdle \<Longrightarrow> nr_backend rt = None \<longrightarrow> past_take (nr_closing rt) \<Longrightarrow>
     nr_closing (close_next ord e e' rt) \<noteq> CloseIdle \<and> close_left (nr_closing (close_next ord e e' rt)) = close_left (nr_closing rt) - 1"
  by (cases "nr_closing rt")
    (auto simp: close_next_def close_left_def past_take_def case_prod_unfold Let_def split: nat.split option.split)

lemma closing_kept:
  assumes "\<forall>e e'. op \<noteq> RnCloseNext e e'" "nr_closing rt \<noteq> CloseIdle"
  shows "nr_closing (runtime_step ord rt op) = nr_closing rt"
  using assms by (cases op)
    (auto simp: replace_make_def new_backend_def put_backend_def replace_install_def retire_def close_backend_fields service_ended_def monitor_next_def
      monitor_gone_def failTUN_def close_begin_def Let_def case_prod_unfold split: sum.split option.split monitor_pc.split)

definition is_CloseNext :: "('b, 'c) runtime_op \<Rightarrow> bool" where
  "is_CloseNext op \<longleftrightarrow> (case op of RnCloseNext _ _ \<Rightarrow> True | _ \<Rightarrow> False)"

lemma closing_ends:
  assumes "net_inv rt" "nr_closing rt \<noteq> CloseIdle" "close_left (nr_closing rt) \<le> length (filter is_CloseNext ops)"
  shows "nr_closing (foldl (runtime_step ord) rt ops) = CloseDone"
  using assms
proof (induction ops arbitrary: rt)
  case Nil
  then show ?case by (cases "nr_closing rt") (simp_all add: close_left_def)
next
  case (Cons op ops)
  have k: "net_inv (runtime_step ord rt op)" using net_inv_step Cons.prems(1) .
  show ?case
  proof (cases "is_CloseNext op")
    case True
    then obtain e e' where "op = RnCloseNext e e'" by (cases op) (simp_all add: is_CloseNext_def)
    then show ?thesis using Cons.IH [OF k] close_next_left [of rt ord e e'] Cons.prems True by (simp add: net_inv_def flow_inv_def)
  next
    case False
    then have "nr_closing (runtime_step ord rt op) = nr_closing rt" using closing_kept [of op rt ord] Cons.prems(2) by (cases op) (simp_all add: is_CloseNext_def)
    then show ?thesis using Cons.IH [OF k] Cons.prems False by simp
  qed
qed

lemma foldl_replicate: "foldl f s (replicate n x) = ((\<lambda>s. f s x) ^^ n) s"
  by (induction n arbitrary: s) (simp_all add: funpow_Suc_right del: funpow.simps(2))

lemma net_runtime_Close_done:
  fixes rt :: "'c netRuntime"
  assumes "net_inv rt" "nr_closing rt = CloseIdle"
  shows "net_inv (snd (net_runtime_Close ord e e' rt)) \<and> nr_closing (snd (net_runtime_Close ord e e' rt)) = CloseDone"
proof -
  let ?ops = "replicate (2 * length (nr_services rt) + 6) (RnCloseNext e e') :: (unit, 'c) runtime_op list"
  have u: "snd (net_runtime_Close ord e e' rt) = foldl (runtime_step ord) (close_begin rt) ?ops"
    by (simp add: net_runtime_Close_def Let_def foldl_replicate del: replicate.simps replicate_Suc funpow.simps)
  have b: "net_inv (close_begin rt)" using net_inv_step [OF assms(1), where op = RnClose] by simp
  have "length (filter is_CloseNext ?ops) = 2 * length (nr_services rt) + 6" by (simp add: is_CloseNext_def del: replicate.simps replicate_Suc)
  then show ?thesis unfolding u using closing_ends [OF b, of ?ops ord] netrt.run_keeps [OF b, of ord ?ops] assms(2)
    by (simp add: close_begin_def close_left_def)
qed

text \<open>What a creation leaves.\<close>

definition just_started :: "'c netRuntime \<Rightarrow> bool" where
  "just_started rt \<longleftrightarrow> net_inv rt \<and> nr_closing rt = CloseIdle \<and> nr_retired rt = [] \<and> nr_made rt = [] \<and> nr_backend rt = Some 0"

definition all_up :: "'c netRuntime \<Rightarrow> bool" where
  "all_up rt \<longleftrightarrow> list_all (\<lambda>e. ms_started (se_service e) \<and> se_running e) (nr_services rt)"

lemma just_started_services: "just_started rt \<Longrightarrow> just_started (rt\<lparr>nr_services := es\<rparr>)"
proof -
  assume j: "just_started rt"
  let ?u = "rt\<lparr>nr_services := es\<rparr>"
  have "flow_inv ?u" using j by (simp add: just_started_def net_inv_def flow_inv_def service_inv_def past_defs)
  then show ?thesis using j own_inv_cong [of rt ?u] signal_inv_cong [of rt ?u] by (simp add: just_started_def net_inv_def same_own_def same_signal_def)
qed

lemma startServices_started:
  "just_started rt \<Longrightarrow> just_started (snd (startServices config fs rt))"
  "all_up rt \<Longrightarrow> fst (startServices config fs rt) = None \<Longrightarrow> all_up (snd (startServices config fs rt))"
proof (induction fs arbitrary: rt)
  case (Cons f fs)
  { case 1
    have "just_started (addService t s rt)" "just_started (on_last g (addService t s rt))" "just_started (on_last g' (on_last g (addService t s rt)))"
      "just_started (on_last g'' (on_last g' (on_last g (addService t s rt))))" for t s g g' g''
      by (simp_all add: addService_def on_last_def just_started_services [OF 1])
    then show ?case using 1 Cons.IH(1) by (simp add: Let_def case_prod_unfold split: option.split sum.split)
  next
    case 2
    have "all_up (on_last monitorService (on_last markStarted (on_last (\<lambda>e. e\<lparr>se_service := snd (managed_Start s)\<rparr>) (addService t s rt))))" for t s
      using 2(1) by (simp add: all_up_def addService_def on_last_def monitorService_def markStarted_def managed_Start_def)
    then show ?case using 2 Cons.IH(2) by (auto simp: Let_def case_prod_unfold split: option.splits sum.splits if_splits) }
qed simp_all

lemma just_started_initial:
  assumes "newVPNBackend benv c config = (Inr b, p)"
  shows "just_started (initial_runtime env routes mode b)"
proof -
  have "tracker_inv (new_trackers h l now)" for h l now using track.init_inv by blast
  then show ?thesis using newVPNBackend_fresh [OF assms]
    by (simp add: just_started_def net_inv_def own_inv_def flow_inv_def signal_inv_def service_inv_def past_defs backend_held_def initial_runtime_def)
qed

definition runtime_closed :: "'c netRuntime \<Rightarrow> bool" where
  "runtime_closed rt \<longleftrightarrow> nr_backend rt = None \<and> sw_closed (nr_vpn rt) \<and> nr_internetClosed rt \<and> nr_cancelled rt
     \<and> list_all (\<lambda>e. ms_closed (se_service e) \<and> \<not> se_running e) (nr_services rt)"

lemma runtime_closed_done: "net_inv rt \<Longrightarrow> nr_closing rt = CloseDone \<Longrightarrow> runtime_closed rt"
  by (simp add: net_inv_def flow_inv_def runtime_closed_def past_defs service_inv_def list_all_length)

lemma network_New_started:
  assumes "network_New ord env c config = NewStarted rt"
  shows "just_started rt \<and> all_up rt"
proof -
  obtain r p where b: "newVPNBackend (re_backend env) c config = (r, p)" by (cases "newVPNBackend (re_backend env) c config")
  then obtain b config' fs mode where r: "r = Inr b" "startServices config' fs (initial_runtime env (resource_routes config) mode b) = (None, rt)"
    using assms by (auto simp: network_New_def Let_def split: if_splits sum.splits prod.splits option.splits)
  let ?rt = "initial_runtime env (resource_routes config) mode b"
  have "just_started ?rt" using just_started_initial r(1) b by blast
  moreover have "all_up ?rt" by (simp add: all_up_def initial_runtime_def)
  ultimately show ?thesis using startServices_started [of ?rt config' fs] r(2) by simp
qed

lemma net_runtime_Close_frame:
  fixes rt :: "'c netRuntime"
  shows "nr_made (snd (net_runtime_Close ord e e' rt)) = nr_made rt" "nr_retired (snd (net_runtime_Close ord e e' rt)) = nr_retired rt"
proof -
  have "nr_made (close_next ord e e' r) = nr_made r \<and> nr_retired (close_next ord e e' r) = nr_retired r" for r :: "'c netRuntime"
    by (auto simp: close_next_def on_service_def close_backend_fields put_backend_def Let_def case_prod_unfold
        split: runtime_closing.split nat.split option.split)
  note one = this
  have "nr_made ((close_next ord e e' ^^ n) r) = nr_made r \<and> nr_retired ((close_next ord e e' ^^ n) r) = nr_retired r" for n and r :: "'c netRuntime"
    by (induction n) (simp_all add: one)
  then show "nr_made (snd (net_runtime_Close ord e e' rt)) = nr_made rt" "nr_retired (snd (net_runtime_Close ord e e' rt)) = nr_retired rt"
    by (simp_all add: net_runtime_Close_def Let_def close_begin_def del: funpow.simps)
qed

lemma network_New_stopped:
  assumes "network_New ord env c config = NewStopped err rt"
  shows "net_inv rt \<and> nr_closing rt = CloseDone \<and> (\<forall>i < nr_count rt. well_closed (nr_backends rt i))"
proof -
  obtain r p where b: "newVPNBackend (re_backend env) c config = (r, p)" by (cases "newVPNBackend (re_backend env) c config")
  then obtain b config' fs mode rt1 where r: "r = Inr b" "startServices config' fs (initial_runtime env (resource_routes config) mode b) = (Some err, rt1)"
      "rt = snd (net_runtime_Close ord None None rt1)"
    using assms by (auto simp: network_New_def Let_def split: if_splits sum.splits prod.splits option.splits)
  have "just_started (initial_runtime env (resource_routes config) mode b)" using just_started_initial r(1) b by blast
  then have j: "just_started rt1" using startServices_started(1) [of "initial_runtime env (resource_routes config) mode b" config' fs] r(2) by simp
  then have "net_inv rt" "nr_closing rt = CloseDone" using net_runtime_Close_done r(3) by (auto simp: just_started_def)
  then show ?thesis using j net_runtime_Close_frame [of ord None None rt1] r(3)
    by (auto simp: net_inv_def own_inv_def flow_inv_def past_defs backend_held_def just_started_def)
qed

lemma runErr_stays: "nr_runErr rt = Some e \<Longrightarrow> nr_runErr (runtime_step ord rt op) = Some e"
  by (cases op) (auto simp: replace_make_def replace_install_def retire_def put_backend_def service_ended_def monitor_next_def monitor_gone_def failTUN_def
      close_begin_def close_next_def on_service_def new_backend_def close_backend_def Let_def case_prod_unfold
      split: sum.split option.split monitor_pc.split runtime_closing.split nat.split)

section \<open>Properties\<close>

text \<open>C38. Making a network runtime leaks nothing. Whatever fails on the way, the stack, the resolver, the backend and the Internet outbound
  that were made are closed when it returns an error; when a service does not start, every service that was made before it, and that one, has
  been told to close and counts as stopped, the switch of the VPN outbound is closed and the context is cancelled. A runtime
  that is returned has an open backend and all its services started.\<close>

theorem network_New_no_leak:
  "case network_New ord env c config of
     NewFailed err p \<Rightarrow> parts_closed p
   | NewRefused err b internet \<Rightarrow> well_closed b \<and> internet \<noteq> Some False
   | NewStopped err rt \<Rightarrow> list_all (\<lambda>i. well_closed (nr_backends rt i)) [0..<nr_count rt] \<and> nr_backend rt = None \<and> sw_closed (nr_vpn rt)
       \<and> nr_internetClosed rt \<and> nr_cancelled rt \<and> list_all (\<lambda>e. ms_closed (se_service e) \<and> \<not> se_running e) (nr_services rt)
   | NewStarted rt \<Rightarrow> nr_backend rt = Some 0 \<and> \<not> bk_closeOnce (nr_backends rt 0) \<and> \<not> nr_closed rt
       \<and> list_all (\<lambda>e. ms_started (se_service e) \<and> se_running e) (nr_services rt)"
proof (cases "network_New ord env c config")
  case (NewFailed err p)
  then show ?thesis using newVPNBackend_dropped [of "re_backend env" c config]
    by (auto simp: network_New_def Let_def split: prod.splits sum.splits option.splits if_splits)
next
  case (NewRefused err b internet)
  then obtain b' p where b: "newVPNBackend (re_backend env) c config = (Inr b', p)" "b = snd (backend_Close b')" "internet \<noteq> Some False"
    by (auto simp: network_New_def Let_def split: prod.splits sum.splits option.splits if_splits)
  have "well_closed b" unfolding b(2) using newVPNBackend_fresh [OF b(1)] backend_Close_closed(2) by blast
  then show ?thesis using NewRefused b(3) by simp
next
  case (NewStopped err rt)
  then show ?thesis using network_New_stopped [OF NewStopped] runtime_closed_done [of rt] by (simp add: runtime_closed_def list_all_iff)
next
  case (NewStarted rt)
  then show ?thesis using network_New_started [OF NewStarted]
    by (auto simp: just_started_def net_inv_def own_inv_def flow_inv_def all_up_def)
qed

text \<open>C37. The life of a network runtime. In every run after its creation, in which replacements of the VPN, ends of
  backends and services, traffic and a closing run in any order, with the steps of other calls between their own: each backend it was ever
  given is closed, with its stack and its resolver, or is the current one, or is in the hands of a call that is to install or close it, and
  a call that is to close one does; nothing is left of a replacement that could not make a backend. While the switch of the VPN outbound is open, which
  it is unless the runtime is being closed, it leads to the current backend, which is not closed, and so does the resolver; a closed switch refuses to dial.
  The first error of the TUN service stays the error of the runtime. Once it has begun, the closing is over after two steps for every service and six
  more, whatever runs between; then nothing is current, every service has been told to close and counts as stopped, and
  the outbounds are closed.\<close>

theorem net_runtime_lifecycle:
  fixes rt :: "'c netRuntime" and ops later :: "('b, 'c) runtime_op list"
  assumes "network_New ord env c config = NewStarted rt" and "u = foldl (runtime_step ord) rt ops"
  shows "(\<forall>i < nr_count u. well_closed (nr_backends u i) \<or> nr_backend u = Some i \<or> backend_held u i)
    \<and> (\<forall>i \<in> set (nr_retired u). well_closed (nr_backends (runtime_step ord u (RnRetire i :: ('b, 'c) runtime_op)) i))
    \<and> list_all parts_closed (nr_dropped u)
    \<and> (if sw_closed (nr_vpn u) then nr_closed u \<and> (\<exists>x. switchable_DialContext dial (nr_vpn u) network address = Inl x)
       else \<exists>i. nr_backend u = Some i \<and> sw_delegate (nr_vpn u) = Some i \<and> nr_resolver u = Some i \<and> \<not> bk_closeOnce (nr_backends u i))
    \<and> (\<forall>e. nr_runErr u = Some e \<longrightarrow> runtime_Err (foldl (runtime_step ord) u later) = Some e)
    \<and> (nr_closing u = CloseDone \<longrightarrow> nr_backend u = None \<and> sw_closed (nr_vpn u) \<and> nr_internetClosed u \<and> nr_cancelled u
         \<and> list_all (\<lambda>e. ms_closed (se_service e) \<and> \<not> se_running e) (nr_services u))
    \<and> (nr_closed u \<and> 2 * length (nr_services u) + 6 \<le> length (filter is_CloseNext later) \<longrightarrow> nr_closing (foldl (runtime_step ord) u later) = CloseDone)"
proof -
  have "net_inv rt" using network_New_started [OF assms(1)] by (simp add: just_started_def)
  then have u: "net_inv u" unfolding assms(2) by (rule netrt.run_keeps)
  then have o: "own_inv u" and f: "flow_inv u" by (simp_all add: net_inv_def)
  have r: "well_closed (nr_backends (runtime_step ord u (RnRetire i :: ('b, 'c) runtime_op)) i)" if "i \<in> set (nr_retired u)" for i
    using o that backend_Close_closed(1) [of "nr_backends u i"] by (auto simp: retire_def close_backend_fields put_backend_def own_inv_def backend_held_def)
  have stay: "nr_runErr (foldl (runtime_step ord) x later) = Some e" if "nr_runErr x = Some e" for x :: "'c netRuntime" and e
    using that by (induction later arbitrary: x) (simp_all add: runErr_stays)
  have sw: "if sw_closed (nr_vpn u) then nr_closed u \<and> (\<exists>x. switchable_DialContext dial (nr_vpn u) network address = Inl x)
       else \<exists>i. nr_backend u = Some i \<and> sw_delegate (nr_vpn u) = Some i \<and> nr_resolver u = Some i \<and> \<not> bk_closeOnce (nr_backends u i)"
  proof (cases "sw_closed (nr_vpn u)")
    case True
    then have "nr_closing u \<noteq> CloseIdle" using f by (auto simp: flow_inv_def past_router_def)
    then show ?thesis using True f by (simp add: flow_inv_def switchable_DialContext_def split: option.split)
  next
    case False
    then have "\<not> past_take (nr_closing u)" using f by (cases "nr_closing u") (simp_all add: flow_inv_def past_defs)
    then obtain i where i: "nr_backend u = Some i" using f by (auto simp: flow_inv_def)
    then show ?thesis using False f o by (auto simp: flow_inv_def own_inv_def)
  qed
  have len: "close_left (nr_closing u) \<le> 2 * length (nr_services u) + 6"
    using f by (cases "nr_closing u") (simp_all add: flow_inv_def service_inv_def close_left_def)
  have e: "nr_closing (foldl (runtime_step ord) u later) = CloseDone" if "nr_closed u" "2 * length (nr_services u) + 6 \<le> length (filter is_CloseNext later)"
    using closing_ends [OF u, of later ord] len that f by (simp add: flow_inv_def)
  have d: "nr_closing u = CloseDone \<longrightarrow> nr_backend u = None \<and> sw_closed (nr_vpn u) \<and> nr_internetClosed u \<and> nr_cancelled u
         \<and> list_all (\<lambda>e. ms_closed (se_service e) \<and> \<not> se_running e) (nr_services u)"
    using runtime_closed_done [OF u] by (simp add: runtime_closed_def)
  have "(\<forall>i < nr_count u. well_closed (nr_backends u i) \<or> nr_backend u = Some i \<or> backend_held u i) \<and> list_all parts_closed (nr_dropped u)"
    using o f by (simp add: own_inv_def flow_inv_def)
  then show ?thesis using r sw d e stay by (simp add: runtime_Err_def)
qed

definition demo_client :: vpn_client where
  "demo_client = \<lparr> vc_IPResources = Inl (Sentinel ErrResourceNotFound), vc_DomainResources = Inr Map.empty, vc_DNSResource = Inr Map.empty,
     vc_DNSServer = Inl (Sentinel ErrResourceNotFound), vc_RouteExcludedIPs = None \<rparr>"

definition demo_net_config :: NetConfig where
  "demo_net_config = \<lparr> nf_TCPTunnelMode = False, nf_DisableRemoteDNS = False, nf_RemoteDNSServer = [], nf_SecondaryDNSServer = [], nf_DNSTTL = 0,
     nf_DNSBind = [], nf_Hosts = Map.empty, nf_SOCKSBind = ''127.0.0.1:1080'', nf_SOCKSUsername = [], nf_SOCKSPassword = [], nf_HTTPBind = [],
     nf_TUNEnabled = False, nf_TUNName = [], nf_TUNAddress = [], nf_TUNMTU = 0, nf_TUNAutoRoute = False, nf_TUNRouteAll = False,
     nf_TUNStrictRoute = False, nf_TUNStack = [], nf_TUNOutboundInterface = [], nf_TUNUDPTimeoutSeconds = 0, nf_TUNUDPMaxFlows = 0,
     nf_TUNDNSHijack = False, nf_TUNFakeIP = False, nf_TUNFakeIPRange = [], nf_ControlServerHost = [], nf_TUNRouteAddresses = [],
     nf_RoutingMode = RoutingModeRule,
     nf_InternetOutbound = \<lparr> io_Type = InternetOutboundDirect, io_Address = [], io_Username = [], io_Password = [] \<rparr> \<rparr>"

definition demo_backend_env :: "(nat set, string \<rightharpoonup> ip) backend_env" where
  "demo_backend_env = \<lparr> be_ordDNS = by_key, be_ordHosts = by_key, be_ipset = set_ops, be_cacheOps = map_cache, be_cache = (\<lambda>_. Map.empty),
     be_newStack = (\<lambda>_. None), be_stackClose = None \<rparr>"

definition demo_backend :: "(string \<rightharpoonup> ip) vpnBackend" where
  "demo_backend = \<lparr> bk_resources = [], bk_resolver = NewResolverWithSecondaryDialer by_key Map.empty Map.empty Map.empty False, bk_parts = \<lparr> bp_stack = Some False, bp_resolver = Some False \<rparr>, bk_stackErr = None,
     bk_routes = [], bk_cancelled = False, bk_runErr = None, bk_done = False, bk_closeOnce = False, bk_closeErr = None \<rparr>"

definition demo_runtime_env :: "(nat set, string \<rightharpoonup> ip, string) runtime_env" where
  "demo_runtime_env = \<lparr> re_backend = demo_backend_env, re_detected = [], re_proxySOCKS5 = (\<lambda>_ _ d. Inr d), re_dialer = (\<lambda>_ _ a. Inr a),
     re_dialVPN = (\<lambda>_ _ a. Inr a),
     re_make = (\<lambda>t _. Inr (Some \<lparr> ms_Start = None, ms_Close = None, ms_Addr = Some ''127.0.0.1:1080'', ms_Done = True, ms_UpdateRouteAddresses = None, ms_started = False, ms_closed = False \<rparr>)),
     re_inbound = [], re_now = 0,
     re_fresh = (to_heap (tr_outbound demo_trackers), tk_heap (tr_connections demo_trackers), \<lambda>_. demo_backend) \<rparr>"

theorem net_runtime_lifecycle_witness:
  "\<exists>rt. network_New by_key demo_runtime_env demo_client demo_net_config = NewStarted rt
     \<and> (let u = foldl (runtime_step by_key) rt [RnMake demo_backend_env demo_client demo_net_config, RnInstall 1, RnClose, RnCloseNext None None];
            v = foldl (runtime_step by_key) u ((RnRetire 0 :: (nat set, string \<rightharpoonup> ip) runtime_op) # replicate 8 (RnCloseNext None None))
        in nr_count u = 2 \<and> nr_retired u = [0] \<and> nr_closing u = CloseMark 0 None \<and> sw_delegate (nr_vpn u) = Some 1 \<and> nr_closing v = CloseDone)"
proof -
  have b: "newVPNBackend demo_backend_env demo_client demo_net_config = (Inr demo_backend, \<lparr> bp_stack = Some False, bp_resolver = Some False \<rparr>)"
    by (simp add: newVPNBackend_def optionalIPResources_def optionalDomainResources_def optionalDNSRecords_def optional_resources_def demo_client_def
        demo_net_config_def demo_backend_env_def resource_routes_def remote_dns_def by_key_def demo_backend_def no_parts_def Let_def)
  have "\<exists>rt. network_New by_key demo_runtime_env demo_client demo_net_config = NewStarted rt \<and> nr_closing rt = CloseIdle \<and> nr_count rt = 1
      \<and> nr_retired rt = [] \<and> nr_made rt = [] \<and> nr_backend rt = Some 0 \<and> nr_closed rt = False \<and> nr_runErr rt = None \<and> nr_resourceRoutes rt = False
      \<and> sw_closed (nr_vpn rt) = False \<and> (\<exists>e. nr_services rt = [e] \<and> ms_Close (se_service e) = None)"
    using b by (simp add: network_New_def demo_runtime_env_def demo_net_config_def resource_routes_def NewInternetOutboundWithDialer_def
        NewRouterWithDirect_def mode_Valid_def defaultInboundFactories_def addService_def on_last_def initial_runtime_def managed_Start_def markStarted_def
        monitorService_def Let_def)
  then obtain rt e where rt: "network_New by_key demo_runtime_env demo_client demo_net_config = NewStarted rt" "nr_closing rt = CloseIdle" "nr_count rt = 1"
    "nr_retired rt = []" "nr_made rt = []" "nr_backend rt = Some 0" "nr_closed rt = False" "nr_runErr rt = None" "nr_resourceRoutes rt = False"
    "sw_closed (nr_vpn rt) = False" "nr_services rt = [e]" "ms_Close (se_service e) = None" by blast
  let ?ops = "[RnMake demo_backend_env demo_client demo_net_config, RnInstall 1, RnClose, RnCloseNext None None]"
  let ?later = "RnRetire 0 # replicate 8 (RnCloseNext None None) :: (nat set, string \<rightharpoonup> ip) runtime_op list"
  define u where "u = foldl (runtime_step by_key) rt ?ops"
  have u: "nr_count u = 2" "nr_retired u = [0]" "nr_closing u = CloseMark 0 None" "nr_closed u" "length (nr_services u) = 1"
    using rt by (simp_all add: u_def replace_make_def replace_install_def b new_backend_def put_backend_def close_begin_def close_next_def on_service_def
        managed_Close_def Let_def case_prod_unfold)
  have d: "sw_delegate (nr_vpn u) = Some 1"
    using rt by (simp add: u_def replace_make_def replace_install_def b new_backend_def put_backend_def close_begin_def close_next_def on_service_def
        managed_Close_def switchable_Replace_def Let_def case_prod_unfold)
  have "length (filter is_CloseNext ?later) = 8" by (simp add: is_CloseNext_def)
  then have "nr_closed u \<and> 2 * length (nr_services u) + 6 \<le> length (filter is_CloseNext ?later)" using u(4,5) by simp
  moreover have "nr_closed u \<and> 2 * length (nr_services u) + 6 \<le> length (filter is_CloseNext ?later) \<longrightarrow>
      nr_closing (foldl (runtime_step by_key) u ?later) = CloseDone"
    using net_runtime_lifecycle [OF rt(1) u_def, where later = ?later and dial = "\<lambda>_ _ a. Inr a" and network = "''tcp''" and address = "''a''"]
    by (elim conjE)
  ultimately have "nr_closing (foldl (runtime_step by_key) u ?later) = CloseDone" by (rule rev_mp)
  note fin = this
  show ?thesis unfolding Let_def
    by (rule exI [of _ rt]) (simp only: u_def [symmetric] rt(1) u(1-3) d fin simp_thms)
qed

end
