(* ===== verification/DaemonConfig.thy ===== *)
theory DaemonConfig
  imports CoreEvents GoNet "HOL-Library.Signed_Division" "HOL-Library.AList" "HOL-Library.Finite_Map"
begin

text \<open>
  The configuration of the daemon, \<^verbatim>\<open>src/daemonconfig\<close>: the nested structure of the configuration file, its
  defaults and validation, the session configuration made from it and the warnings (\<^verbatim>\<open>config.go\<close>), and the
  comparison of two configurations, the requirement of each changed field and the merging of a patch
  (\<^verbatim>\<open>lifecycle.go\<close>).

  A duration is its number of nanoseconds. A nil map of hosts is None: \<^verbatim>\<open>reflect.DeepEqual\<close> tells it from
  an empty one. What \<^verbatim>\<open>encoding/json\<close> does with the text and the fields is an argument.
\<close>

section \<open>The structure of a configuration\<close>

definition Version :: int where "Version = 1"
definition MaxHostEntries :: nat where "MaxHostEntries = 4096"
definition maxNameLength :: nat where "maxNameLength = 256"
definition maxValueLength :: nat where "maxValueLength = 4096"

type_synonym Duration = int

definition Second :: Duration where "Second = 1000000000"

record LogConfig =
  log_Level :: string
  log_Output :: string

record RESTConfig =
  rest_Enabled :: bool
  rest_Listen :: string
  rest_Secret :: string
  rest_SecretFile :: string

record ControlConfig =
  control_Stdio_Enabled :: bool
  control_REST :: RESTConfig

record SessionConfig =
  session_ID :: string
  session_AutoStart :: bool
  session_AutoReconnect :: bool

record ATrustConfig =
  at_Server :: string
  at_Port :: int
  at_Username :: string
  at_Password :: string
  at_Phone :: string
  at_AuthType :: string
  at_LoginDomain :: string
  at_UpdateBestNodesInterval :: Duration

record UnderlayConfig =
  ul_Interface :: string
  ul_AutoDetect :: bool

record RoutingConfig =
  routing_Mode :: RoutingMode
  routing_InternetOutbound :: InternetOutboundConfig

record DNSConfig =
  dns_Remote_Enabled :: bool
  dns_Remote_Server :: string
  dns_Secondary_Server :: string
  dns_CacheTTL :: Duration
  dns_Listen :: string
  dns_Hosts :: "(string, string) fmap option"

record SOCKS5Config =
  socks_Enabled :: bool
  socks_Listen :: string
  socks_Username :: string
  socks_Password :: string

record HTTPConfig =
  http_Enabled :: bool
  http_Listen :: string

record TUNConfig =
  tun_Enabled :: bool
  tun_Name :: string
  tun_Address :: string
  tun_MTU :: u32
  tun_AutoRoute :: bool
  tun_RouteAll :: bool
  tun_OutboundInterface :: string
  tun_UDP_IdleTimeout :: Duration
  tun_UDP_MaxFlows :: int
  tun_DNS_Hijack :: bool
  tun_DNS_FakeIP :: bool
  tun_DNS_FakeIPRange :: string

record InboundsConfig =
  in_SOCKS5 :: SOCKS5Config
  in_HTTP :: HTTPConfig
  in_TUN :: TUNConfig

text \<open>The state section holds the one field \<open>resume-file\<close>.\<close>

record daemonConfig =
  dc_Version :: int
  dc_Log :: LogConfig
  dc_Control :: ControlConfig
  dc_Session :: SessionConfig
  dc_State_ResumeFile :: string
  dc_ATrust :: ATrustConfig
  dc_Underlay :: UnderlayConfig
  dc_Routing :: RoutingConfig
  dc_DNS :: DNSConfig
  dc_Inbounds :: InboundsConfig

definition Default :: daemonConfig where
  "Default = \<lparr>
     dc_Version = Version, dc_Log = \<lparr> log_Level = ''info'', log_Output = ''stderr'' \<rparr>,
     dc_Control = \<lparr> control_Stdio_Enabled = False,
       control_REST = \<lparr> rest_Enabled = False, rest_Listen = ''127.0.0.1:9090'', rest_Secret = [], rest_SecretFile = [] \<rparr> \<rparr>,
     dc_Session = \<lparr> session_ID = ''default'', session_AutoStart = True, session_AutoReconnect = True \<rparr>,
     dc_State_ResumeFile = [],
     dc_ATrust = \<lparr> at_Server = [], at_Port = 443, at_Username = [], at_Password = [], at_Phone = [],
       at_AuthType = ''auth/psw'', at_LoginDomain = ''Radius'', at_UpdateBestNodesInterval = 30 * Second \<rparr>,
     dc_Underlay = \<lparr> ul_Interface = [], ul_AutoDetect = False \<rparr>,
     dc_Routing = \<lparr> routing_Mode = RoutingModeRule,
       routing_InternetOutbound = \<lparr> io_Type = InternetOutboundDirect, io_Address = [], io_Username = [], io_Password = [] \<rparr> \<rparr>,
     dc_DNS = \<lparr> dns_Remote_Enabled = True, dns_Remote_Server = ''auto'', dns_Secondary_Server = [],
       dns_CacheTTL = 3600 * Second, dns_Listen = [], dns_Hosts = Some fmempty \<rparr>,
     dc_Inbounds = \<lparr>
       in_SOCKS5 = \<lparr> socks_Enabled = False, socks_Listen = ''127.0.0.1:1080'', socks_Username = [], socks_Password = [] \<rparr>,
       in_HTTP = \<lparr> http_Enabled = False, http_Listen = ''127.0.0.1:1081'' \<rparr>,
       in_TUN = \<lparr> tun_Enabled = False, tun_Name = ''ZJU-Portal'', tun_Address = ''172.19.0.1/30'', tun_MTU = 1400,
         tun_AutoRoute = False, tun_RouteAll = False, tun_OutboundInterface = [], tun_UDP_IdleTimeout = 60 * Second,
         tun_UDP_MaxFlows = 512, tun_DNS_Hijack = False, tun_DNS_FakeIP = False, tun_DNS_FakeIPRange = ''198.18.0.0/16'' \<rparr> \<rparr> \<rparr>"

section \<open>Validation\<close>

text \<open>Both tables of lengths are maps, which the code ranges over in an order the runtime chooses.\<close>

definition long_fields :: "daemonConfig \<Rightarrow> (string \<times> string) list" where
  "long_fields c =
     [(''session.id'', session_ID (dc_Session c)),
      (''log.output'', log_Output (dc_Log c)),
      (''control.rest.listen'', rest_Listen (control_REST (dc_Control c))),
      (''control.rest.secret'', rest_Secret (control_REST (dc_Control c))),
      (''control.rest.secret-file'', rest_SecretFile (control_REST (dc_Control c))),
      (''atrust.username'', at_Username (dc_ATrust c)),
      (''atrust.password'', at_Password (dc_ATrust c)),
      (''atrust.phone'', at_Phone (dc_ATrust c)),
      (''atrust.auth-type'', at_AuthType (dc_ATrust c)),
      (''atrust.login-domain'', at_LoginDomain (dc_ATrust c)),
      (''routing.internet-outbound.address'', io_Address (routing_InternetOutbound (dc_Routing c))),
      (''routing.internet-outbound.username'', io_Username (routing_InternetOutbound (dc_Routing c))),
      (''routing.internet-outbound.password'', io_Password (routing_InternetOutbound (dc_Routing c))),
      (''dns.remote.server'', dns_Remote_Server (dc_DNS c)),
      (''dns.secondary.server'', dns_Secondary_Server (dc_DNS c)),
      (''dns.listen'', dns_Listen (dc_DNS c)),
      (''inbounds.socks5.listen'', socks_Listen (in_SOCKS5 (dc_Inbounds c))),
      (''inbounds.socks5.username'', socks_Username (in_SOCKS5 (dc_Inbounds c))),
      (''inbounds.socks5.password'', socks_Password (in_SOCKS5 (dc_Inbounds c))),
      (''inbounds.http.listen'', http_Listen (in_HTTP (dc_Inbounds c))),
      (''inbounds.tun.address'', tun_Address (in_TUN (dc_Inbounds c))),
      (''inbounds.tun.dns.fake-ip-range'', tun_DNS_FakeIPRange (in_TUN (dc_Inbounds c)))]"

definition name_fields :: "daemonConfig \<Rightarrow> (string \<times> string) list" where
  "name_fields c =
     [(''atrust.server'', at_Server (dc_ATrust c)),
      (''underlay.interface'', ul_Interface (dc_Underlay c)),
      (''inbounds.tun.name'', tun_Name (in_TUN (dc_Inbounds c))),
      (''inbounds.tun.outbound-interface'', tun_OutboundInterface (in_TUN (dc_Inbounds c)))]"

definition too_long :: "((string \<rightharpoonup> string) \<Rightarrow> string list) \<Rightarrow> nat \<Rightarrow> (string \<times> string) list \<Rightarrow> gerror option" where
  "too_long ord limit table =
     first_some (\<lambda>name. if length (the (map_of table name)) > limit
                   then Some (Opaque (name @ '' exceeds '' @ show_nat limit @ '' bytes'')) else None) (ord (map_of table))"

definition check_host :: "(string \<rightharpoonup> string) \<Rightarrow> string \<Rightarrow> gerror option" where
  "check_host hosts host =
     (let address = the (hosts host) in
      if length host > 253 \<or> length address > 64 then Some (Opaque ''dns.hosts contains oversized record'')
      else if host = [] \<or> ParseIP address = None
      then Some (Opaque (''dns.hosts contains invalid record '' @ quote host @ ''='' @ quote address)) else None)"

definition hosts_of :: "(string, string) fmap option \<Rightarrow> (string \<rightharpoonup> string)" where
  "hosts_of hosts = (case hosts of None \<Rightarrow> Map.empty | Some m \<Rightarrow> fmlookup m)"

definition check_hosts :: "((string \<rightharpoonup> string) \<Rightarrow> string list) \<Rightarrow> (string \<rightharpoonup> string) \<Rightarrow> gerror option" where
  "check_hosts ord hosts =
     (if length (ord hosts) > MaxHostEntries
      then Some (Opaque (''dns.hosts contains '' @ show_nat (length (ord hosts)) @ '' entries, maximum is '' @ show_nat MaxHostEntries))
      else first_some (check_host hosts) (ord hosts))"

text \<open>A sequence of guarded returns: the first guard that holds gives the error.\<close>

definition guards :: "(bool \<times> string) list \<Rightarrow> gerror option" where
  "guards gs = first_some (\<lambda>(failed, message). if failed then Some (Opaque message) else None) gs"

text \<open>The error of \<^verbatim>\<open>netip.ParsePrefix\<close> is in the chain of the first check; its text is an argument.\<close>

definition check_tun :: "(string \<Rightarrow> gerror) \<Rightarrow> TUNConfig \<Rightarrow> gerror option" where
  "check_tun prefixErr t =
     (if \<not> tun_Enabled t then None
      else if ParsePrefix (tun_Address t) = None then Some (errorf ''inbounds.tun.address'' (prefixErr (tun_Address t)))
      else guards
        [(tun_MTU t = 0, ''inbounds.tun.mtu must be positive''),
         (tun_UDP_IdleTimeout t \<le> 0, ''inbounds.tun.udp.idle-timeout must be positive''),
         (tun_UDP_MaxFlows t \<le> 0, ''inbounds.tun.udp.max-flows must be positive''),
         (tun_DNS_FakeIP t \<and> \<not> tun_AutoRoute t, ''inbounds.tun.dns.fake-ip requires auto-route''),
         (tun_DNS_Hijack t \<and> \<not> tun_AutoRoute t, ''inbounds.tun.dns.hijack requires auto-route''),
         (tun_DNS_FakeIP t \<and> (case ParsePrefix (tun_DNS_FakeIPRange t) of None \<Rightarrow> True | Some (a, _) \<Rightarrow> length a \<noteq> 4),
          ''inbounds.tun.dns.fake-ip-range must be a valid IPv4 prefix'')])"

definition auth_types :: "string list" where
  "auth_types = [[], ''auth/psw'', ''auth/cas'', ''auth/httpsOauth2'', ''auth/smsCheckCode'']"

definition check_fields :: "daemonConfig \<Rightarrow> gerror option" where
  "check_fields c =
     (let rest = control_REST (dc_Control c); at = dc_ATrust c; io = routing_InternetOutbound (dc_Routing c);
          socks = in_SOCKS5 (dc_Inbounds c); http = in_HTTP (dc_Inbounds c)
      in guards
        [(session_AutoStart (dc_Session c) \<and> at_Server at = [],
            ''atrust.server is required when session.auto-start is enabled''),
         (log_Level (dc_Log c) \<noteq> ''info'' \<and> log_Level (dc_Log c) \<noteq> ''debug'',
            ''log.level '' @ quote (log_Level (dc_Log c)) @ '' is invalid''),
         (at_Port at \<le> 0 \<or> at_Port at > 65535, ''atrust.port is invalid''),
         (at_UpdateBestNodesInterval at < 0, ''atrust.update-best-nodes-interval cannot be negative''),
         (at_AuthType at \<notin> set auth_types, ''atrust.auth-type '' @ quote (at_AuthType at) @ '' is invalid''),
         (at_AuthType at = ''auth/smsCheckCode'' \<and> at_Phone at = [], ''atrust.phone is required for auth/smsCheckCode''),
         (\<not> mode_Valid (routing_Mode (dc_Routing c)),
            ''routing.mode '' @ quote (mode_string (routing_Mode (dc_Routing c))) @ '' is invalid''),
         (\<not> outboundType_Valid (io_Type io),
            ''routing.internet-outbound.type '' @ quote (outboundType_string (io_Type io)) @ '' is invalid''),
         (io_Type io = InternetOutboundSOCKS5 \<and> io_Address io = [],
            ''routing.internet-outbound.address is required for socks5''),
         (dns_CacheTTL (dc_DNS c) \<le> 0, ''dns.cache-ttl must be positive''),
         (rest_Secret rest \<noteq> [] \<and> rest_SecretFile rest \<noteq> [], ''control.rest.secret and secret-file are mutually exclusive''),
         (rest_Enabled rest \<and> rest_Listen rest = [], ''control.rest.listen is required when enabled''),
         (socks_Enabled socks \<and> socks_Listen socks = [], ''inbounds.socks5.listen is required when enabled''),
         (socks_Enabled socks \<and> (socks_Username socks = []) \<noteq> (socks_Password socks = []),
            ''inbounds.socks5 username and password must be configured together''),
         (http_Enabled http \<and> http_Listen http = [], ''inbounds.http.listen is required when enabled'')])"

definition Validate :: "((string \<rightharpoonup> string) \<Rightarrow> string list) \<Rightarrow> (string \<Rightarrow> gerror) \<Rightarrow> daemonConfig \<Rightarrow> gerror option" where
  "Validate ord prefixErr c =
     (if dc_Version c \<noteq> Version then Some (Opaque (''unsupported config version '' @ show_int (dc_Version c)))
      else if session_ID (dc_Session c) = [] then Some (Opaque ''session.id is required'')
      else case too_long ord maxValueLength (long_fields c) of Some e \<Rightarrow> Some e | None \<Rightarrow>
        (case too_long ord maxNameLength (name_fields c) of Some e \<Rightarrow> Some e | None \<Rightarrow>
          (case check_fields c of Some e \<Rightarrow> Some e | None \<Rightarrow>
            (case check_hosts ord (hosts_of (dns_Hosts (dc_DNS c))) of Some e \<Rightarrow> Some e | None \<Rightarrow>
               check_tun prefixErr (in_TUN (dc_Inbounds c))))))"

text \<open>What \<^verbatim>\<open>os.ReadFile\<close> returns, and what the YAML decoder makes of a document over the defaults, are arguments.\<close>

definition DecodeYAML ::
  "(daemonConfig \<Rightarrow> bytes \<Rightarrow> daemonConfig result) \<Rightarrow> (daemonConfig \<Rightarrow> gerror option) \<Rightarrow> bytes \<Rightarrow> daemonConfig result" where
  "DecodeYAML decode validate data =
     (case decode Default data of
        Inl err \<Rightarrow> Inl (errorf ''decode config'' err)
      | Inr config \<Rightarrow> (case validate config of Some err \<Rightarrow> Inl err | None \<Rightarrow> Inr config))"

definition Load ::
  "(string \<Rightarrow> bytes result) \<Rightarrow> (daemonConfig \<Rightarrow> bytes \<Rightarrow> daemonConfig result) \<Rightarrow> (daemonConfig \<Rightarrow> gerror option)
   \<Rightarrow> string \<Rightarrow> daemonConfig result" where
  "Load readFile decode validate path =
     (case readFile path of Inl err \<Rightarrow> Inl (errorf ''read config'' err) | Inr data \<Rightarrow> DecodeYAML decode validate data)"

section \<open>The configuration of a session\<close>

definition cloneStringMap :: "(string, string) fmap option \<Rightarrow> (string, string) fmap option" where
  "cloneStringMap source = (case source of None \<Rightarrow> None | Some m \<Rightarrow> Some (fmfilter (\<lambda>key. True) m))"

definition CoreConfig :: "daemonConfig \<Rightarrow> Config" where
  "CoreConfig c =
     (let at = dc_ATrust c; dns = dc_DNS c; socks = in_SOCKS5 (dc_Inbounds c); http = in_HTTP (dc_Inbounds c);
          tun = in_TUN (dc_Inbounds c); io = routing_InternetOutbound (dc_Routing c);
          result = \<lparr> cfg_Protocol = ''atrust'', cfg_ResumeState = None, cfg_SessionID = session_ID (dc_Session c),
            cfg_ServerAddress = at_Server at, cfg_ServerPort = at_Port at, cfg_Username = at_Username at,
            cfg_Password = at_Password at, cfg_Phone = at_Phone at, cfg_LoginDomain = at_LoginDomain at,
            cfg_AuthType = at_AuthType at, cfg_GraphCodeFile = [], cfg_CASTicket = [], cfg_OAuth2Code = [],
            cfg_SID = [], cfg_DeviceID = [], cfg_SignKey = [], cfg_ClientDataFile = [],
            cfg_UpdateBestNodesSeconds = at_UpdateBestNodesInterval at sdiv Second,
            cfg_BindInterface = ul_Interface (dc_Underlay c), cfg_AutoDetectInterface = ul_AutoDetect (dc_Underlay c),
            cfg_DisableAutoReconnect = (\<not> session_AutoReconnect (dc_Session c)),
            cfg_DisableRemoteDNS = (\<not> dns_Remote_Enabled dns), cfg_RemoteDNSServer = dns_Remote_Server dns,
            cfg_SecondaryDNSServer = dns_Secondary_Server dns, cfg_DNSTTL = word_of_int (dns_CacheTTL dns sdiv Second),
            cfg_DNSBind = dns_Listen dns, cfg_Hosts = hosts_of (cloneStringMap (dns_Hosts dns)), cfg_SOCKSBind = [], cfg_SOCKSUsername = [],
            cfg_SOCKSPassword = [], cfg_HTTPBind = [], cfg_TUNEnabled = False, cfg_TUNName = [], cfg_TUNAddress = [],
            cfg_TUNMTU = 0, cfg_TUNAutoRoute = False, cfg_TUNRouteAll = False, cfg_TUNOutboundInterface = [],
            cfg_TUNUDPTimeoutSeconds = 0, cfg_TUNUDPMaxFlows = 0, cfg_TUNDNSHijack = False, cfg_TUNFakeIP = False,
            cfg_TUNFakeIPRange = [], cfg_RoutingMode = routing_Mode (dc_Routing c),
            cfg_InternetOutbound = \<lparr> io_Type = io_Type io, io_Address = io_Address io,
              io_Username = io_Username io, io_Password = io_Password io \<rparr> \<rparr>;
          result = (if socks_Enabled socks then result\<lparr>cfg_SOCKSBind := socks_Listen socks,
            cfg_SOCKSUsername := socks_Username socks, cfg_SOCKSPassword := socks_Password socks\<rparr> else result);
          result = (if http_Enabled http then result\<lparr>cfg_HTTPBind := http_Listen http\<rparr> else result)
      in if tun_Enabled tun then result\<lparr>cfg_TUNEnabled := True, cfg_TUNName := tun_Name tun, cfg_TUNAddress := tun_Address tun,
           cfg_TUNMTU := tun_MTU tun, cfg_TUNAutoRoute := tun_AutoRoute tun, cfg_TUNRouteAll := tun_RouteAll tun,
           cfg_TUNOutboundInterface := tun_OutboundInterface tun,
           cfg_TUNUDPTimeoutSeconds := tun_UDP_IdleTimeout tun sdiv Second, cfg_TUNUDPMaxFlows := tun_UDP_MaxFlows tun,
           cfg_TUNDNSHijack := tun_DNS_Hijack tun, cfg_TUNFakeIP := tun_DNS_FakeIP tun,
           cfg_TUNFakeIPRange := tun_DNS_FakeIPRange tun\<rparr>
         else result)"

definition Clone :: "daemonConfig \<Rightarrow> daemonConfig" where
  "Clone c = c\<lparr>dc_DNS := (dc_DNS c)\<lparr>dns_Hosts := cloneStringMap (dns_Hosts (dc_DNS c))\<rparr>\<rparr>"

definition isLoopbackListen :: "string \<Rightarrow> bool" where
  "isLoopbackListen address =
     (case SplitHostPort address of
        None \<Rightarrow> False
      | Some (host, _) \<Rightarrow> host = ''localhost'' \<or> (case ParseIP host of None \<Rightarrow> False | Some p \<Rightarrow> IsLoopback p))"

definition SecurityWarnings :: "daemonConfig \<Rightarrow> string list" where
  "SecurityWarnings c =
     (let rest = control_REST (dc_Control c); socks = in_SOCKS5 (dc_Inbounds c); http = in_HTTP (dc_Inbounds c); dns = dc_DNS c in
      (if rest_Enabled rest \<and> \<not> isLoopbackListen (rest_Listen rest)
       then [''REST control '' @ rest_Listen rest @ '' is exposed over plaintext HTTP outside loopback''] else [])
    @ (if socks_Enabled socks \<and> \<not> isLoopbackListen (socks_Listen socks)
       then [''SOCKS5 inbound '' @ socks_Listen socks @ '' is not limited to loopback''
             @ (if socks_Username socks = [] then '' and does not require authentication'' else [])] else [])
    @ (if http_Enabled http \<and> \<not> isLoopbackListen (http_Listen http)
       then [''HTTP inbound '' @ http_Listen http @ '' is not limited to loopback and does not require authentication''] else [])
    @ (if dns_Listen dns \<noteq> [] \<and> \<not> isLoopbackListen (dns_Listen dns)
       then [''DNS service '' @ dns_Listen dns @ '' is not limited to loopback''] else []))"

section \<open>Changes between configurations\<close>

datatype ApplyRequirement = ApplyRequirementLive | ApplyRequirementSessionRestart | ApplyRequirementCoreRestart

record Change =
  ch_Path :: string
  ch_Requires :: ApplyRequirement

record Snapshot =
  sn_Revision :: u64
  sn_Configured :: daemonConfig
  sn_Active :: daemonConfig
  sn_ActiveRevision :: u64
  sn_Pending :: "Change list"

definition requirementForPath :: "string \<Rightarrow> ApplyRequirement" where
  "requirementForPath path =
     (if path = ''routing.mode'' then ApplyRequirementLive
      else if HasPrefix path ''control.'' \<or> HasPrefix path ''log.'' \<or> path = ''session.auto-start''
        \<or> HasPrefix path ''state.'' \<or> HasPrefix path ''inbounds.tun.'' then ApplyRequirementCoreRestart
      else ApplyRequirementSessionRestart)"

text \<open>
  What \<^verbatim>\<open>reflect\<close> shows of a configuration: a structure with the name of its type and, for each field, the
  json tag and the value; any other value is a leaf of its type. The tags are those of the declarations.
\<close>

datatype leaf = VString string | VBool bool | VInt int | VUint32 u32 | VDuration int | VMode RoutingMode
  | VOutboundType InternetOutboundType | VHosts "(string, string) fmap option"

datatype reflect_value = Struct string "(string \<times> reflect_value) list" | Leaf leaf

fun leaf_type :: "leaf \<Rightarrow> nat" where
  "leaf_type (VString _) = 0" | "leaf_type (VBool _) = 1" | "leaf_type (VInt _) = 2" | "leaf_type (VUint32 _) = 3"
| "leaf_type (VDuration _) = 4" | "leaf_type (VMode _) = 5" | "leaf_type (VOutboundType _) = 6" | "leaf_type (VHosts _) = 7"

definition tag_name :: "string \<Rightarrow> string" where
  "tag_name tag = takeWhile (\<lambda>c. c \<noteq> CHR '','') tag"

definition field_path :: "string \<Rightarrow> string \<Rightarrow> string" where
  "field_path path name = (if path \<noteq> [] then path @ ''.'' @ name else name)"

fun collectChanges :: "reflect_value \<Rightarrow> reflect_value \<Rightarrow> string \<Rightarrow> string list"
  and collect_fields :: "(string \<times> reflect_value) list \<Rightarrow> (string \<times> reflect_value) list \<Rightarrow> string \<Rightarrow> string list" where
  "collectChanges (Struct m fs) (Struct n gs) path = (if m \<noteq> n then [path] else collect_fields fs gs path)"
| "collectChanges (Leaf a) (Leaf b) path = (if leaf_type a \<noteq> leaf_type b \<or> a \<noteq> b then [path] else [])"
| "collectChanges _ _ path = [path]"
| "collect_fields ((tag, a) # fs) ((_, b) # gs) path =
     (if tag_name tag = [] \<or> tag_name tag = ''-'' then [] else collectChanges a b (field_path path (tag_name tag)))
       @ collect_fields fs gs path"
| "collect_fields _ _ path = []"

definition reflect_inbounds :: "InboundsConfig \<Rightarrow> reflect_value" where
  "reflect_inbounds i = (let s = in_SOCKS5 i; h = in_HTTP i; t = in_TUN i in
     Struct ''InboundsConfig''
      [(''socks5'', Struct ''SOCKS5Config'' [(''enabled'', Leaf (VBool (socks_Enabled s))), (''listen'', Leaf (VString (socks_Listen s))),
          (''username'', Leaf (VString (socks_Username s))), (''password,omitempty'', Leaf (VString (socks_Password s)))]),
       (''http'', Struct ''HTTPConfig'' [(''enabled'', Leaf (VBool (http_Enabled h))), (''listen'', Leaf (VString (http_Listen h)))]),
       (''tun'', Struct ''TUNConfig'' [(''enabled'', Leaf (VBool (tun_Enabled t))), (''name'', Leaf (VString (tun_Name t))),
          (''address'', Leaf (VString (tun_Address t))), (''mtu'', Leaf (VUint32 (tun_MTU t))),
          (''auto-route'', Leaf (VBool (tun_AutoRoute t))), (''route-all'', Leaf (VBool (tun_RouteAll t))),
          (''outbound-interface'', Leaf (VString (tun_OutboundInterface t))),
          (''udp'', Struct ''TUNUDPConfig'' [(''idle-timeout'', Leaf (VDuration (tun_UDP_IdleTimeout t))),
             (''max-flows'', Leaf (VInt (tun_UDP_MaxFlows t)))]),
          (''dns'', Struct ''TUNDNSConfig'' [(''hijack'', Leaf (VBool (tun_DNS_Hijack t))), (''fake-ip'', Leaf (VBool (tun_DNS_FakeIP t))),
             (''fake-ip-range'', Leaf (VString (tun_DNS_FakeIPRange t)))])])])"

definition reflect_config :: "daemonConfig \<Rightarrow> reflect_value" where
  "reflect_config c =
     (let r = control_REST (dc_Control c); s = dc_Session c; at = dc_ATrust c; u = dc_Underlay c;
          io = routing_InternetOutbound (dc_Routing c); d = dc_DNS c in
     Struct ''Config''
      [(''version'', Leaf (VInt (dc_Version c))),
       (''log'', Struct ''LogConfig'' [(''level'', Leaf (VString (log_Level (dc_Log c)))), (''output'', Leaf (VString (log_Output (dc_Log c))))]),
       (''control'', Struct ''ControlConfig''
          [(''stdio'', Struct ''StdioConfig'' [(''enabled'', Leaf (VBool (control_Stdio_Enabled (dc_Control c))))]),
           (''rest'', Struct ''RESTConfig'' [(''enabled'', Leaf (VBool (rest_Enabled r))), (''listen'', Leaf (VString (rest_Listen r))),
              (''secret,omitempty'', Leaf (VString (rest_Secret r))), (''secret-file,omitempty'', Leaf (VString (rest_SecretFile r)))])]),
       (''session'', Struct ''SessionConfig'' [(''id'', Leaf (VString (session_ID s))), (''auto-start'', Leaf (VBool (session_AutoStart s))),
          (''auto-reconnect'', Leaf (VBool (session_AutoReconnect s)))]),
       (''state'', Struct ''StateConfig'' [(''resume-file'', Leaf (VString (dc_State_ResumeFile c)))]),
       (''atrust'', Struct ''ATrustConfig'' [(''server'', Leaf (VString (at_Server at))), (''port'', Leaf (VInt (at_Port at))),
          (''username'', Leaf (VString (at_Username at))), (''password,omitempty'', Leaf (VString (at_Password at))),
          (''phone,omitempty'', Leaf (VString (at_Phone at))), (''auth-type'', Leaf (VString (at_AuthType at))),
          (''login-domain'', Leaf (VString (at_LoginDomain at))),
          (''update-best-nodes-interval'', Leaf (VDuration (at_UpdateBestNodesInterval at)))]),
       (''underlay'', Struct ''UnderlayConfig'' [(''interface'', Leaf (VString (ul_Interface u))), (''auto-detect'', Leaf (VBool (ul_AutoDetect u)))]),
       (''routing'', Struct ''RoutingConfig'' [(''mode'', Leaf (VMode (routing_Mode (dc_Routing c)))),
          (''internet-outbound'', Struct ''InternetOutboundConfig'' [(''type'', Leaf (VOutboundType (io_Type io))),
             (''address'', Leaf (VString (io_Address io))), (''username'', Leaf (VString (io_Username io))),
             (''password,omitempty'', Leaf (VString (io_Password io)))])]),
       (''dns'', Struct ''DNSConfig''
          [(''remote'', Struct ''RemoteDNSConfig'' [(''enabled'', Leaf (VBool (dns_Remote_Enabled d))), (''server'', Leaf (VString (dns_Remote_Server d)))]),
           (''secondary'', Struct ''SecondaryDNSConfig'' [(''server'', Leaf (VString (dns_Secondary_Server d)))]),
           (''cache-ttl'', Leaf (VDuration (dns_CacheTTL d))), (''listen'', Leaf (VString (dns_Listen d))), (''hosts'', Leaf (VHosts (dns_Hosts d)))]),
       (''inbounds'', reflect_inbounds (dc_Inbounds c))])"

definition Changes :: "daemonConfig \<Rightarrow> daemonConfig \<Rightarrow> Change list" where
  "Changes active configured =
     sort_key ch_Path (map (\<lambda>path. \<lparr> ch_Path = path, ch_Requires = requirementForPath path \<rparr>)
       (collectChanges (reflect_config active) (reflect_config configured) []))"

section \<open>Patches\<close>

text \<open>JSON values as the decoder leaves them in an \<^verbatim>\<open>any\<close>; a number is its text. A map is an association list
  without repeated keys.\<close>

datatype json = JNull | JBool bool | JNumber string | JString string | JArray "json list" | JObject "(string \<times> json) list"

text \<open>\<open>values\<close> are the values a decoder yields before the end of its input, or the error it stops with.\<close>

definition decodeJSONObject :: "gerror \<Rightarrow> json result list \<Rightarrow> (string \<times> json) list result" where
  "decodeJSONObject typeErr values =
     (case values of
        [] \<Rightarrow> Inl (Opaque ''EOF'')
      | Inl e # _ \<Rightarrow> Inl e
      | Inr v # rest \<Rightarrow>
          (case v of
             JNull \<Rightarrow> Inl (Opaque ''expected JSON object'')
           | JObject object \<Rightarrow>
               (case rest of [] \<Rightarrow> Inr object | Inr _ # _ \<Rightarrow> Inl (Opaque ''multiple JSON values'') | Inl e # _ \<Rightarrow> Inl e)
           | _ \<Rightarrow> Inl typeErr))"

fun mergeObject :: "(string \<times> json) list \<Rightarrow> (string \<times> json) list \<Rightarrow> (string \<times> json) list" where
  "mergeObject base [] = base"
| "mergeObject base ((key, patchValue) # rest) =
     (case (patchValue, map_of base key) of
        (JObject patchObject, Some (JObject baseObject)) \<Rightarrow>
          mergeObject (AList.update key (JObject (mergeObject baseObject patchObject)) base) rest
      | _ \<Rightarrow> mergeObject (AList.update key patchValue base) rest)"

text \<open>What \<^verbatim>\<open>encoding/json\<close> does: the object of a configuration, the values in a text, the configuration of an
  object decoded over the defaults, and the error for a value that is no object.\<close>

record json_codec =
  jc_object :: "daemonConfig \<Rightarrow> (string \<times> json) list"
  jc_values :: "bytes \<Rightarrow> json result list"
  jc_config :: "(string \<times> json) list \<Rightarrow> daemonConfig result"
  jc_typeErr :: gerror

definition MergeJSON ::
  "json_codec \<Rightarrow> (daemonConfig \<Rightarrow> gerror option) \<Rightarrow> daemonConfig \<Rightarrow> bytes \<Rightarrow> daemonConfig result" where
  "MergeJSON codec validate config patch =
     (case decodeJSONObject (jc_typeErr codec) (jc_values codec patch) of
        Inl err \<Rightarrow> Inl (errorf ''decode config patch'' err)
      | Inr patchValue \<Rightarrow>
          (case jc_config codec (mergeObject (jc_object codec config) patchValue) of
             Inl err \<Rightarrow> Inl (errorf ''decode merged config'' err)
           | Inr merged \<Rightarrow> (case validate merged of Some err \<Rightarrow> Inl err | None \<Rightarrow> Inr merged)))"

section \<open>What validation accepts\<close>

lemma guards_None: "guards gs = None \<longleftrightarrow> (\<forall>g \<in> set gs. \<not> fst g)"
  by (auto simp: guards_def first_some_None split: prod.split)

lemma too_long_None:
  assumes "ranges ord" "distinct (map fst table)"
  shows "too_long ord limit table = None \<longleftrightarrow> list_all (\<lambda>f. length (snd f) \<le> limit) table"
proof -
  have "set (ord (map_of table)) = fst ` set table"
    using rangesD [OF assms(1) finite_dom_map_of] by (simp add: dom_map_of_conv_image_fst)
  moreover have "map_of table (fst f) = Some (snd f)" if "f \<in> set table" for f
    using that assms(2) by simp
  ultimately show ?thesis by (auto simp: too_long_def first_some_None list_all_iff not_less)
qed

definition hosts_ok :: "(string \<rightharpoonup> string) \<Rightarrow> bool" where
  "hosts_ok hosts \<longleftrightarrow> card (dom hosts) \<le> MaxHostEntries
     \<and> (\<forall>host address. hosts host = Some address \<longrightarrow>
          host \<noteq> [] \<and> length host \<le> 253 \<and> length address \<le> 64 \<and> ParseIP address \<noteq> None)"

lemma check_hosts_None:
  assumes "ranges ord" "finite (dom hosts)"
  shows "check_hosts ord hosts = None \<longleftrightarrow> hosts_ok hosts"
proof -
  have e: "distinct (ord hosts)" "set (ord hosts) = dom hosts" using rangesD [OF assms] by simp_all
  then have "length (ord hosts) = card (dom hosts)" by (metis distinct_card)
  moreover have "check_host hosts host = None \<longleftrightarrow> host \<noteq> [] \<and> length host \<le> 253
      \<and> length address \<le> 64 \<and> ParseIP address \<noteq> None" if "hosts host = Some address" for host address
    using that by (auto simp: check_host_def Let_def)
  ultimately show ?thesis using e(2)
    by (auto simp: check_hosts_def hosts_ok_def first_some_None not_less dom_def)
qed

definition tun_ok :: "TUNConfig \<Rightarrow> bool" where
  "tun_ok t \<longleftrightarrow> (tun_Enabled t \<longrightarrow> ParsePrefix (tun_Address t) \<noteq> None \<and> tun_MTU t \<noteq> 0 \<and> 0 < tun_UDP_IdleTimeout t
     \<and> 0 < tun_UDP_MaxFlows t \<and> (tun_DNS_FakeIP t \<or> tun_DNS_Hijack t \<longrightarrow> tun_AutoRoute t)
     \<and> (tun_DNS_FakeIP t \<longrightarrow> (\<exists>a n. ParsePrefix (tun_DNS_FakeIPRange t) = Some (a, n) \<and> length a = 4)))"

lemma check_tun_None: "check_tun p t = None \<longleftrightarrow> tun_ok t"
  by (auto simp: check_tun_def tun_ok_def guards_None not_le split: option.splits)

text \<open>The tables of \<^verbatim>\<open>Validate\<close> have a fixed set of names, so the order in which they are visited does not
  matter to whether a configuration is accepted.\<close>

definition lengths_ok :: "daemonConfig \<Rightarrow> bool" where
  "lengths_ok c \<longleftrightarrow> list_all (\<lambda>f. length (snd f) \<le> maxValueLength) (long_fields c)
     \<and> list_all (\<lambda>f. length (snd f) \<le> maxNameLength) (name_fields c)"

lemma distinct_tables: "distinct (map fst (long_fields c))" "distinct (map fst (name_fields c))"
  by (simp_all add: long_fields_def name_fields_def)

lemma finite_hosts: "finite (dom (hosts_of hosts))"
  by (simp add: hosts_of_def split: option.split)

definition config_ok :: "daemonConfig \<Rightarrow> bool" where
  "config_ok c \<longleftrightarrow> dc_Version c = Version \<and> session_ID (dc_Session c) \<noteq> [] \<and> lengths_ok c
     \<and> check_fields c = None \<and> hosts_ok (hosts_of (dns_Hosts (dc_DNS c))) \<and> tun_ok (in_TUN (dc_Inbounds c))"

lemma Validate_None:
  assumes "ranges ord"
  shows "Validate ord p c = None \<longleftrightarrow> config_ok c"
  by (simp add: Validate_def config_ok_def check_tun_None too_long_None [OF assms(1) distinct_tables(1), symmetric]
      too_long_None [OF assms(1) distinct_tables(2), symmetric] lengths_ok_def
      check_hosts_None [OF assms finite_hosts, symmetric] split: option.split)

lemma Clone_id [simp]: "Clone c = c" "cloneStringMap h = h"
  by (simp_all add: Clone_def cloneStringMap_def fmfilter_true split: option.split)

section \<open>What the changes say\<close>

text \<open>The leaves of a value with their paths, and the values that differ in their leaves only.\<close>

fun leaves :: "reflect_value \<Rightarrow> string \<Rightarrow> (string \<times> leaf) list"
  and leaves_of :: "(string \<times> reflect_value) list \<Rightarrow> string \<Rightarrow> (string \<times> leaf) list" where
  "leaves (Struct n fs) path = leaves_of fs path"
| "leaves (Leaf x) path = [(path, x)]"
| "leaves_of [] path = []"
| "leaves_of ((tag, v) # fs) path =
     (if tag_name tag = [] \<or> tag_name tag = ''-'' then [] else leaves v (field_path path (tag_name tag))) @ leaves_of fs path"

fun same_shape :: "reflect_value \<Rightarrow> reflect_value \<Rightarrow> bool"
  and same_shapes :: "(string \<times> reflect_value) list \<Rightarrow> (string \<times> reflect_value) list \<Rightarrow> bool" where
  "same_shape (Struct m fs) (Struct n gs) = (m = n \<and> same_shapes fs gs)"
| "same_shape (Leaf x) (Leaf y) = (leaf_type x = leaf_type y)"
| "same_shape _ _ = False"
| "same_shapes [] [] = True"
| "same_shapes ((s, v) # fs) ((t, w) # gs) = (s = t \<and> same_shape v w \<and> same_shapes fs gs)"
| "same_shapes _ _ = False"

definition differing :: "(string \<times> leaf) list \<Rightarrow> (string \<times> leaf) list \<Rightarrow> string list" where
  "differing xs ys = map (\<lambda>(x, y). fst x) (filter (\<lambda>(x, y). snd x \<noteq> snd y) (zip xs ys))"

lemma differing_simps [simp]:
  "differing [] ys = []" "differing (x # xs) (y # ys) = (if snd x \<noteq> snd y then [fst x] else []) @ differing xs ys"
  by (simp_all add: differing_def)

lemma differing_append:
  "length xs = length ys \<Longrightarrow> differing (xs @ xs') (ys @ ys') = differing xs ys @ differing xs' ys'"
  by (induction xs ys rule: list_induct2) auto

lemma collectChanges_leaves:
  "same_shape v w \<Longrightarrow> collectChanges v w p = differing (leaves v p) (leaves w p)
     \<and> length (leaves v p) = length (leaves w p)"
  "same_shapes fs gs \<Longrightarrow> collect_fields fs gs p = differing (leaves_of fs p) (leaves_of gs p)
     \<and> length (leaves_of fs p) = length (leaves_of gs p)"
  by (induction v w and fs gs arbitrary: p and p rule: same_shape_same_shapes.induct) (auto simp: differing_append)

lemmas reflect_defs = reflect_config_def reflect_inbounds_def Let_def

lemma same_shape_config: "same_shape (reflect_config a) (reflect_config b)"
  by (simp add: reflect_defs)

text \<open>All fields of a configuration, by their full paths.\<close>

definition config_leaves :: "daemonConfig \<Rightarrow> (string \<times> leaf) list" where
  "config_leaves c =
     [(''version'', VInt (dc_Version c)),
      (''log.level'', VString (log_Level (dc_Log c))),
      (''log.output'', VString (log_Output (dc_Log c))),
      (''control.stdio.enabled'', VBool (control_Stdio_Enabled (dc_Control c))),
      (''control.rest.enabled'', VBool (rest_Enabled (control_REST (dc_Control c)))),
      (''control.rest.listen'', VString (rest_Listen (control_REST (dc_Control c)))),
      (''control.rest.secret'', VString (rest_Secret (control_REST (dc_Control c)))),
      (''control.rest.secret-file'', VString (rest_SecretFile (control_REST (dc_Control c)))),
      (''session.id'', VString (session_ID (dc_Session c))),
      (''session.auto-start'', VBool (session_AutoStart (dc_Session c))),
      (''session.auto-reconnect'', VBool (session_AutoReconnect (dc_Session c))),
      (''state.resume-file'', VString (dc_State_ResumeFile c)),
      (''atrust.server'', VString (at_Server (dc_ATrust c))),
      (''atrust.port'', VInt (at_Port (dc_ATrust c))),
      (''atrust.username'', VString (at_Username (dc_ATrust c))),
      (''atrust.password'', VString (at_Password (dc_ATrust c))),
      (''atrust.phone'', VString (at_Phone (dc_ATrust c))),
      (''atrust.auth-type'', VString (at_AuthType (dc_ATrust c))),
      (''atrust.login-domain'', VString (at_LoginDomain (dc_ATrust c))),
      (''atrust.update-best-nodes-interval'', VDuration (at_UpdateBestNodesInterval (dc_ATrust c))),
      (''underlay.interface'', VString (ul_Interface (dc_Underlay c))),
      (''underlay.auto-detect'', VBool (ul_AutoDetect (dc_Underlay c))),
      (''routing.mode'', VMode (routing_Mode (dc_Routing c))),
      (''routing.internet-outbound.type'', VOutboundType (io_Type (routing_InternetOutbound (dc_Routing c)))),
      (''routing.internet-outbound.address'', VString (io_Address (routing_InternetOutbound (dc_Routing c)))),
      (''routing.internet-outbound.username'', VString (io_Username (routing_InternetOutbound (dc_Routing c)))),
      (''routing.internet-outbound.password'', VString (io_Password (routing_InternetOutbound (dc_Routing c)))),
      (''dns.remote.enabled'', VBool (dns_Remote_Enabled (dc_DNS c))),
      (''dns.remote.server'', VString (dns_Remote_Server (dc_DNS c))),
      (''dns.secondary.server'', VString (dns_Secondary_Server (dc_DNS c))),
      (''dns.cache-ttl'', VDuration (dns_CacheTTL (dc_DNS c))),
      (''dns.listen'', VString (dns_Listen (dc_DNS c))),
      (''dns.hosts'', VHosts (dns_Hosts (dc_DNS c))),
      (''inbounds.socks5.enabled'', VBool (socks_Enabled (in_SOCKS5 (dc_Inbounds c)))),
      (''inbounds.socks5.listen'', VString (socks_Listen (in_SOCKS5 (dc_Inbounds c)))),
      (''inbounds.socks5.username'', VString (socks_Username (in_SOCKS5 (dc_Inbounds c)))),
      (''inbounds.socks5.password'', VString (socks_Password (in_SOCKS5 (dc_Inbounds c)))),
      (''inbounds.http.enabled'', VBool (http_Enabled (in_HTTP (dc_Inbounds c)))),
      (''inbounds.http.listen'', VString (http_Listen (in_HTTP (dc_Inbounds c)))),
      (''inbounds.tun.enabled'', VBool (tun_Enabled (in_TUN (dc_Inbounds c)))),
      (''inbounds.tun.name'', VString (tun_Name (in_TUN (dc_Inbounds c)))),
      (''inbounds.tun.address'', VString (tun_Address (in_TUN (dc_Inbounds c)))),
      (''inbounds.tun.mtu'', VUint32 (tun_MTU (in_TUN (dc_Inbounds c)))),
      (''inbounds.tun.auto-route'', VBool (tun_AutoRoute (in_TUN (dc_Inbounds c)))),
      (''inbounds.tun.route-all'', VBool (tun_RouteAll (in_TUN (dc_Inbounds c)))),
      (''inbounds.tun.outbound-interface'', VString (tun_OutboundInterface (in_TUN (dc_Inbounds c)))),
      (''inbounds.tun.udp.idle-timeout'', VDuration (tun_UDP_IdleTimeout (in_TUN (dc_Inbounds c)))),
      (''inbounds.tun.udp.max-flows'', VInt (tun_UDP_MaxFlows (in_TUN (dc_Inbounds c)))),
      (''inbounds.tun.dns.hijack'', VBool (tun_DNS_Hijack (in_TUN (dc_Inbounds c)))),
      (''inbounds.tun.dns.fake-ip'', VBool (tun_DNS_FakeIP (in_TUN (dc_Inbounds c)))),
      (''inbounds.tun.dns.fake-ip-range'', VString (tun_DNS_FakeIPRange (in_TUN (dc_Inbounds c))))]"

lemma leaves_config: "leaves (reflect_config c) [] = config_leaves c"
  by (simp add: reflect_defs tag_name_def field_path_def config_leaves_def)

lemma LogConfig_eq: "(x :: LogConfig) = y \<longleftrightarrow> log_Level x = log_Level y \<and> log_Output x = log_Output y"
  by (cases x; cases y) simp

lemma RESTConfig_eq: "(x :: RESTConfig) = y \<longleftrightarrow> rest_Enabled x = rest_Enabled y \<and> rest_Listen x = rest_Listen y \<and> rest_Secret x = rest_Secret y
     \<and> rest_SecretFile x = rest_SecretFile y"
  by (cases x; cases y) simp

lemma ControlConfig_eq: "(x :: ControlConfig) = y \<longleftrightarrow> control_Stdio_Enabled x = control_Stdio_Enabled y \<and> control_REST x = control_REST y"
  by (cases x; cases y) simp

lemma SessionConfig_eq: "(x :: SessionConfig) = y \<longleftrightarrow> session_ID x = session_ID y \<and> session_AutoStart x = session_AutoStart y
     \<and> session_AutoReconnect x = session_AutoReconnect y"
  by (cases x; cases y) simp

lemma ATrustConfig_eq: "(x :: ATrustConfig) = y \<longleftrightarrow> at_Server x = at_Server y \<and> at_Port x = at_Port y \<and> at_Username x = at_Username y
     \<and> at_Password x = at_Password y \<and> at_Phone x = at_Phone y \<and> at_AuthType x = at_AuthType y
     \<and> at_LoginDomain x = at_LoginDomain y \<and> at_UpdateBestNodesInterval x = at_UpdateBestNodesInterval y"
  by (cases x; cases y) simp

lemma UnderlayConfig_eq: "(x :: UnderlayConfig) = y \<longleftrightarrow> ul_Interface x = ul_Interface y \<and> ul_AutoDetect x = ul_AutoDetect y"
  by (cases x; cases y) simp

lemma RoutingConfig_eq: "(x :: RoutingConfig) = y \<longleftrightarrow> routing_Mode x = routing_Mode y \<and> routing_InternetOutbound x = routing_InternetOutbound y"
  by (cases x; cases y) simp

lemma DNSConfig_eq: "(x :: DNSConfig) = y \<longleftrightarrow> dns_Remote_Enabled x = dns_Remote_Enabled y \<and> dns_Remote_Server x = dns_Remote_Server y
     \<and> dns_Secondary_Server x = dns_Secondary_Server y \<and> dns_CacheTTL x = dns_CacheTTL y
     \<and> dns_Listen x = dns_Listen y \<and> dns_Hosts x = dns_Hosts y"
  by (cases x; cases y) simp

lemma SOCKS5Config_eq: "(x :: SOCKS5Config) = y \<longleftrightarrow> socks_Enabled x = socks_Enabled y \<and> socks_Listen x = socks_Listen y
     \<and> socks_Username x = socks_Username y \<and> socks_Password x = socks_Password y"
  by (cases x; cases y) simp

lemma HTTPConfig_eq: "(x :: HTTPConfig) = y \<longleftrightarrow> http_Enabled x = http_Enabled y \<and> http_Listen x = http_Listen y"
  by (cases x; cases y) simp

lemma TUNConfig_eq: "(x :: TUNConfig) = y \<longleftrightarrow> tun_Enabled x = tun_Enabled y \<and> tun_Name x = tun_Name y \<and> tun_Address x = tun_Address y
     \<and> tun_MTU x = tun_MTU y \<and> tun_AutoRoute x = tun_AutoRoute y \<and> tun_RouteAll x = tun_RouteAll y
     \<and> tun_OutboundInterface x = tun_OutboundInterface y \<and> tun_UDP_IdleTimeout x = tun_UDP_IdleTimeout y
     \<and> tun_UDP_MaxFlows x = tun_UDP_MaxFlows y \<and> tun_DNS_Hijack x = tun_DNS_Hijack y
     \<and> tun_DNS_FakeIP x = tun_DNS_FakeIP y \<and> tun_DNS_FakeIPRange x = tun_DNS_FakeIPRange y"
  by (cases x; cases y) simp

lemma InboundsConfig_eq: "(x :: InboundsConfig) = y \<longleftrightarrow> in_SOCKS5 x = in_SOCKS5 y \<and> in_HTTP x = in_HTTP y \<and> in_TUN x = in_TUN y"
  by (cases x; cases y) simp

lemma daemonConfig_eq: "(x :: daemonConfig) = y \<longleftrightarrow> dc_Version x = dc_Version y \<and> dc_Log x = dc_Log y \<and> dc_Control x = dc_Control y
     \<and> dc_Session x = dc_Session y \<and> dc_State_ResumeFile x = dc_State_ResumeFile y \<and> dc_ATrust x = dc_ATrust y
     \<and> dc_Underlay x = dc_Underlay y \<and> dc_Routing x = dc_Routing y \<and> dc_DNS x = dc_DNS y
     \<and> dc_Inbounds x = dc_Inbounds y"
  by (cases x; cases y) simp

lemma InternetOutboundConfig_eq: "(x :: InternetOutboundConfig) = y \<longleftrightarrow> io_Type x = io_Type y \<and> io_Address x = io_Address y
     \<and> io_Username x = io_Username y \<and> io_Password x = io_Password y"
  by (cases x; cases y) simp

lemmas config_eqs = LogConfig_eq RESTConfig_eq ControlConfig_eq SessionConfig_eq ATrustConfig_eq UnderlayConfig_eq RoutingConfig_eq DNSConfig_eq SOCKS5Config_eq HTTPConfig_eq TUNConfig_eq InboundsConfig_eq daemonConfig_eq InternetOutboundConfig_eq

lemma config_paths: "map fst (config_leaves a) = map fst (config_leaves b)"
  by (simp add: config_leaves_def)

lemma config_leaves_inj: "config_leaves a = config_leaves b \<longleftrightarrow> a = b"
  unfolding config_eqs by (simp add: config_leaves_def)

lemma differing_iff:
  "map fst xs = map fst ys \<Longrightarrow> (\<forall>q \<in> set (differing xs ys). \<not> P q) \<longleftrightarrow> filter (P \<circ> fst) xs = filter (P \<circ> fst) ys"
proof (induction xs arbitrary: ys)
  case (Cons x xs)
  then obtain y ys' where "ys = y # ys'" "fst x = fst y" "map fst xs = map fst ys'" by auto
  with Cons.IH [of ys'] show ?case by (auto simp: prod_eq_iff)
qed simp

lemma Changes_paths: "set (map ch_Path (Changes a b)) = set (differing (config_leaves a) (config_leaves b))"
  by (simp add: Changes_def collectChanges_leaves(1) [OF same_shape_config] leaves_config image_image)

end
