(* ===== verification/Controller.thy ===== *)
theory Controller
  imports DaemonConfig Manager
begin

text \<open>
  The controller of the daemon, \<^verbatim>\<open>src/daemonruntime/controller.go\<close>: the configured and the active configuration
  with their revisions, the changes a control client may make to them, and the starting, replacing and
  stopping of the session.

  The controller holds any \<^verbatim>\<open>core.Manager\<close>; its calls are an argument, which the manager of this program
  provides below. A change of the routing mode may block in the manager; None is a call that has not returned.
  One mutex serialises the operations, so a run is a sequence of them.
\<close>

section \<open>State\<close>

record 'm manager_ops =
  mo_Start :: "Config \<Rightarrow> 'm \<Rightarrow> (SessionID \<times> gerror option) \<times> 'm"
  mo_Stop :: "SessionID \<Rightarrow> 'm \<Rightarrow> gerror option \<times> 'm"
  mo_SetRoutingMode :: "SessionID \<Rightarrow> RoutingMode \<Rightarrow> 'm \<Rightarrow> (gerror option \<times> 'm) option"
  mo_ResumeState :: "SessionID \<Rightarrow> 'm \<Rightarrow> ResumeState result"

text \<open>What an operation runs in: the calls of the manager, the order in which maps are visited, and what the
  decoders and the file system do.\<close>

record 'm ctl_env =
  ce_ops :: "'m manager_ops"
  ce_ord :: "(string \<rightharpoonup> string) \<Rightarrow> string list"
  ce_prefixErr :: "string \<Rightarrow> gerror"
  ce_codec :: json_codec
  ce_readFile :: "string \<Rightarrow> bytes result"
  ce_yaml :: "daemonConfig \<Rightarrow> bytes \<Rightarrow> daemonConfig result"

record 'm controller =
  ctl_Manager :: 'm
  ctl_configPath :: string
  ctl_configured :: daemonConfig
  ctl_active :: daemonConfig
  ctl_revision :: u64
  ctl_activeRevision :: u64
  ctl_initialized :: bool
  ctl_activeSessionID :: SessionID
  ctl_resumeState :: "ResumeState option"

definition zero_config :: daemonConfig where
  "zero_config = \<lparr>
     dc_Version = 0, dc_Log = \<lparr> log_Level = [], log_Output = [] \<rparr>,
     dc_Control = \<lparr> control_Stdio_Enabled = False,
       control_REST = \<lparr> rest_Enabled = False, rest_Listen = [], rest_Secret = [], rest_SecretFile = [] \<rparr> \<rparr>,
     dc_Session = \<lparr> session_ID = [], session_AutoStart = False, session_AutoReconnect = False \<rparr>,
     dc_State_ResumeFile = [],
     dc_ATrust = \<lparr> at_Server = [], at_Port = 0, at_Username = [], at_Password = [], at_Phone = [],
       at_AuthType = [], at_LoginDomain = [], at_UpdateBestNodesInterval = 0 \<rparr>,
     dc_Underlay = \<lparr> ul_Interface = [], ul_AutoDetect = False \<rparr>,
     dc_Routing = \<lparr> routing_Mode = RoutingModeOther [],
       routing_InternetOutbound = \<lparr> io_Type = InternetOutboundOther [], io_Address = [], io_Username = [], io_Password = [] \<rparr> \<rparr>,
     dc_DNS = \<lparr> dns_Remote_Enabled = False, dns_Remote_Server = [], dns_Secondary_Server = [],
       dns_CacheTTL = 0, dns_Listen = [], dns_Hosts = None \<rparr>,
     dc_Inbounds = \<lparr>
       in_SOCKS5 = \<lparr> socks_Enabled = False, socks_Listen = [], socks_Username = [], socks_Password = [] \<rparr>,
       in_HTTP = \<lparr> http_Enabled = False, http_Listen = [] \<rparr>,
       in_TUN = \<lparr> tun_Enabled = False, tun_Name = [], tun_Address = [], tun_MTU = 0,
         tun_AutoRoute = False, tun_RouteAll = False, tun_OutboundInterface = [], tun_UDP_IdleTimeout = 0,
         tun_UDP_MaxFlows = 0, tun_DNS_Hijack = False, tun_DNS_FakeIP = False, tun_DNS_FakeIPRange = [] \<rparr> \<rparr> \<rparr>"

definition controller_New :: "'m \<Rightarrow> string \<Rightarrow> 'm controller" where
  "controller_New manager configPath =
     \<lparr> ctl_Manager = manager, ctl_configPath = configPath, ctl_configured = zero_config, ctl_active = zero_config,
       ctl_revision = 0, ctl_activeRevision = 0, ctl_initialized = False, ctl_activeSessionID = [], ctl_resumeState = None \<rparr>"

section \<open>Resume states and the candidate\<close>

definition cloneResumeState :: "ResumeState option \<Rightarrow> ResumeState option" where
  "cloneResumeState state = (case state of None \<Rightarrow> None | Some s \<Rightarrow> Some s)"

definition storeResumeState :: "ResumeState option \<Rightarrow> 'm controller \<Rightarrow> 'm controller" where
  "storeResumeState state c = c\<lparr>ctl_resumeState := cloneResumeState state\<rparr>"

definition resumeStateSnapshot :: "'m controller \<Rightarrow> ResumeState option" where
  "resumeStateSnapshot c = cloneResumeState (ctl_resumeState c)"

definition SetInitialResumeState :: "ResumeState option \<Rightarrow> 'm controller \<Rightarrow> 'm controller" where
  "SetInitialResumeState state c = c\<lparr>ctl_resumeState := cloneResumeState state\<rparr>"

definition cacheResumeStateLocked :: "'m ctl_env \<Rightarrow> SessionID \<Rightarrow> 'm controller \<Rightarrow> 'm controller" where
  "cacheResumeStateLocked e sid c =
     (case mo_ResumeState (ce_ops e) sid (ctl_Manager c) of Inl _ \<Rightarrow> c | Inr state \<Rightarrow> storeResumeState (Some state) c)"

definition resumeStateMatchesConfig :: "ResumeState option \<Rightarrow> Config \<Rightarrow> bool" where
  "resumeStateMatchesConfig state config \<longleftrightarrow>
     (case state of
        None \<Rightarrow> False
      | Some s \<Rightarrow> scope_ServerAddress (rs_Scope s) = cfg_ServerAddress config \<and> scope_ServerPort (rs_Scope s) = cfg_ServerPort config
          \<and> (scope_Username (rs_Scope s) = [] \<or> scope_Username (rs_Scope s) = cfg_Username config))"

text \<open>The resume state a start is given when the cached one matches.\<close>

definition with_resume :: "ResumeState option \<Rightarrow> Config \<Rightarrow> Config" where
  "with_resume state config = (if resumeStateMatchesConfig state config then config\<lparr>cfg_ResumeState := state\<rparr> else config)"

definition policy_string :: "ResumePolicy \<Rightarrow> string" where
  "policy_string p = (case p of ResumePolicyAuto \<Rightarrow> ''auto'' | ResumePolicyNone \<Rightarrow> ''none''
     | ResumePolicyProvided \<Rightarrow> ''provided'' | ResumePolicyOther s \<Rightarrow> s)"

definition selectResumeState :: "SessionStartOptions \<Rightarrow> Config \<Rightarrow> 'm controller \<Rightarrow> ResumeState option result" where
  "selectResumeState options config c =
     (let policy = (if opt_Resume options = ResumePolicyOther [] then ResumePolicyAuto else opt_Resume options) in
      case policy of
        ResumePolicyAuto \<Rightarrow>
          (let state = resumeStateSnapshot c in Inr (if resumeStateMatchesConfig state config then state else None))
      | ResumePolicyNone \<Rightarrow> Inr None
      | ResumePolicyProvided \<Rightarrow>
          (if opt_ResumeState options = None
           then Inl (WrapError ErrorCodeResumeStateInvalid ''resume_state is required when resume is provided'' False None)
           else if \<not> resumeStateMatchesConfig (opt_ResumeState options) config
           then Inl (WrapError ErrorCodeResumeStateScope ''resume state does not match session configuration'' False None)
           else Inr (cloneResumeState (opt_ResumeState options)))
      | ResumePolicyOther s \<Rightarrow>
          Inl (WrapError ErrorCodeInvalidRequest (''unsupported resume policy '' @ quote (policy_string policy)) False None))"

definition sessionConfigCandidate :: "daemonConfig \<Rightarrow> daemonConfig \<Rightarrow> daemonConfig" where
  "sessionConfigCandidate active configured =
     (let candidate = Clone configured in
      candidate\<lparr>dc_Log := dc_Log active, dc_Control := dc_Control active,
        dc_Session := (dc_Session candidate)\<lparr>session_AutoStart := session_AutoStart (dc_Session active)\<rparr>,
        dc_State_ResumeFile := dc_State_ResumeFile active,
        dc_Inbounds := (dc_Inbounds candidate)\<lparr>in_TUN := in_TUN (dc_Inbounds active)\<rparr>\<rparr>)"

section \<open>Operations\<close>

definition setActiveConfig :: "daemonConfig \<Rightarrow> SessionID \<Rightarrow> 'm controller \<Rightarrow> 'm controller" where
  "setActiveConfig config sid c =
     c\<lparr>ctl_active := Clone config, ctl_activeRevision := ctl_activeRevision c + 1, ctl_activeSessionID := sid\<rparr>"

definition setActiveSessionID :: "SessionID \<Rightarrow> 'm controller \<Rightarrow> 'm controller" where
  "setActiveSessionID sid c = c\<lparr>ctl_activeSessionID := sid\<rparr>"

definition validate :: "'m ctl_env \<Rightarrow> daemonConfig \<Rightarrow> gerror option" where
  "validate e = Validate (ce_ord e) (ce_prefixErr e)"

definition Initialize :: "'m ctl_env \<Rightarrow> daemonConfig \<Rightarrow> 'm controller \<Rightarrow> gerror option \<times> 'm controller" where
  "Initialize e config c =
     (case validate e config of
        Some err \<Rightarrow> (Some (WrapError ErrorCodeConfigInvalid ''validate configuration'' False (Some err)), c)
      | None \<Rightarrow>
          if ctl_initialized c
          then (Some (WrapError ErrorCodeInvalidStateTransition ''configuration is already initialized'' False None), c)
          else (let finish = (\<lambda>sid c. (None, c\<lparr>ctl_configured := Clone config, ctl_active := Clone config, ctl_revision := 1,
                     ctl_activeRevision := 1, ctl_initialized := True, ctl_activeSessionID := sid\<rparr>))
                in if session_AutoStart (dc_Session config)
                   then (case mo_Start (ce_ops e) (with_resume (cloneResumeState (ctl_resumeState c)) (CoreConfig config)) (ctl_Manager c) of
                           ((sid, Some err), m) \<Rightarrow> (Some err, c\<lparr>ctl_Manager := m\<rparr>)
                         | ((sid, None), m) \<Rightarrow> finish sid (c\<lparr>ctl_Manager := m\<rparr>))
                   else finish [] c))"

definition ConfigSnapshot :: "'m controller \<Rightarrow> Snapshot" where
  "ConfigSnapshot c =
     \<lparr> sn_Revision = ctl_revision c, sn_Configured = Clone (ctl_configured c), sn_Active = Clone (ctl_active c),
       sn_ActiveRevision = ctl_activeRevision c, sn_Pending = Changes (Clone (ctl_active c)) (Clone (ctl_configured c)) \<rparr>"

definition zero_snapshot :: Snapshot where
  "zero_snapshot = \<lparr> sn_Revision = 0, sn_Configured = zero_config, sn_Active = zero_config, sn_ActiveRevision = 0, sn_Pending = [] \<rparr>"

definition not_initialized :: gerror where
  "not_initialized = WrapError ErrorCodeConfigUnavailable ''configuration is not initialized'' True None"

definition join_comma :: "string list \<Rightarrow> string" where
  "join_comma xs = (case xs of [] \<Rightarrow> [] | x # rest \<Rightarrow> x @ concat (map (\<lambda>y. '', '' @ y) rest))"

definition core_paths :: "daemonConfig \<Rightarrow> daemonConfig \<Rightarrow> string list" where
  "core_paths configured config =
     map ch_Path (filter (\<lambda>change. ch_Requires change = ApplyRequirementCoreRestart) (Changes configured config))"

definition restart_required :: "string list \<Rightarrow> gerror" where
  "restart_required paths =
     WrapError ErrorCodeRestartRequired ''Core configuration must be changed in the configuration file and Core restarted'' False
       (Some (Opaque (''core restart required for '' @ join_comma paths)))"

definition set_mode :: "RoutingMode \<Rightarrow> daemonConfig \<Rightarrow> daemonConfig" where
  "set_mode mode config = config\<lparr>dc_Routing := (dc_Routing config)\<lparr>routing_Mode := mode\<rparr>\<rparr>"

text \<open>The last part of \<^verbatim>\<open>setConfigLocked\<close>, once the routing mode is in place: \<open>active\<close> is the local copy and
  \<open>activeChanged\<close> the local flag.\<close>

definition commit_config :: "daemonConfig \<Rightarrow> daemonConfig \<Rightarrow> bool \<Rightarrow> 'm controller \<Rightarrow> 'm controller" where
  "commit_config config active activeChanged c =
     (let (active', changed) =
            (if ctl_activeSessionID c = []
             then (let candidate = sessionConfigCandidate active config in (candidate, activeChanged \<or> candidate \<noteq> active))
             else (active, activeChanged))
      in c\<lparr>ctl_configured := Clone config, ctl_active := active', ctl_revision := ctl_revision c + 1,
           ctl_activeRevision := (if changed then ctl_activeRevision c + 1 else ctl_activeRevision c)\<rparr>)"

definition setConfigLocked ::
  "'m ctl_env \<Rightarrow> daemonConfig \<Rightarrow> bool \<Rightarrow> 'm controller \<Rightarrow> ((Snapshot \<times> gerror option) \<times> 'm controller) option" where
  "setConfigLocked e config allowCoreChanges c =
     (case validate e config of
        Some err \<Rightarrow> Some ((zero_snapshot, Some (WrapError ErrorCodeConfigInvalid ''validate configuration'' False (Some err))), c)
      | None \<Rightarrow>
          if \<not> ctl_initialized c then Some ((zero_snapshot, Some not_initialized), c)
          else (let configured = Clone (ctl_configured c); active = Clone (ctl_active c); paths = core_paths configured config;
                    mode = routing_Mode (dc_Routing config) in
            if config = configured then Some ((ConfigSnapshot c, None), c)
            else if \<not> allowCoreChanges \<and> paths \<noteq> [] then Some ((ConfigSnapshot c, Some (restart_required paths)), c)
            else if mode \<noteq> routing_Mode (dc_Routing active)
            then (case (if ctl_activeSessionID c \<noteq> [] then mo_SetRoutingMode (ce_ops e) (ctl_activeSessionID c) mode (ctl_Manager c)
                        else Some (None, ctl_Manager c)) of
                    None \<Rightarrow> None
                  | Some (Some x, m) \<Rightarrow> (let c1 = c\<lparr>ctl_Manager := m\<rparr> in Some ((ConfigSnapshot c1, Some x), c1))
                  | Some (None, m) \<Rightarrow>
                      (let active1 = set_mode mode active;
                           c2 = commit_config config active1 True (c\<lparr>ctl_Manager := m\<rparr>)
                       in Some ((ConfigSnapshot c2, None), c2)))
            else (let c2 = commit_config config active False c in Some ((ConfigSnapshot c2, None), c2))))"

definition SetConfig :: "'m ctl_env \<Rightarrow> daemonConfig \<Rightarrow> 'm controller \<Rightarrow> ((Snapshot \<times> gerror option) \<times> 'm controller) option" where
  "SetConfig e config c = setConfigLocked e config False c"

definition PatchConfig :: "'m ctl_env \<Rightarrow> bytes \<Rightarrow> 'm controller \<Rightarrow> ((Snapshot \<times> gerror option) \<times> 'm controller) option" where
  "PatchConfig e patch c =
     (let configured = Clone (ctl_configured c) in
      if \<not> ctl_initialized c then Some ((zero_snapshot, Some not_initialized), c)
      else case MergeJSON (ce_codec e) (validate e) configured patch of
             Inl err \<Rightarrow> Some ((zero_snapshot, Some (WrapError ErrorCodeConfigInvalid ''merge configuration patch'' False (Some err))), c)
           | Inr config \<Rightarrow> setConfigLocked e config False c)"

definition ReloadConfig :: "'m ctl_env \<Rightarrow> 'm controller \<Rightarrow> ((Snapshot \<times> gerror option) \<times> 'm controller) option" where
  "ReloadConfig e c =
     (if ctl_configPath c = []
      then Some ((zero_snapshot, Some (WrapError ErrorCodeConfigUnavailable ''no configuration file was specified'' False None)), c)
      else case Load (ce_readFile e) (ce_yaml e) (validate e) (ctl_configPath c) of
             Inl err \<Rightarrow> Some ((zero_snapshot, Some (WrapError ErrorCodeConfigInvalid ''reload configuration'' False (Some err))), c)
           | Inr config \<Rightarrow> setConfigLocked e config True c)"

definition ApplyModeRestartSession :: string where "ApplyModeRestartSession = ''restart-session''"

definition ApplyConfig :: "'m ctl_env \<Rightarrow> string \<Rightarrow> 'm controller \<Rightarrow> (Snapshot \<times> gerror option) \<times> 'm controller" where
  "ApplyConfig e mode c =
     (if mode \<noteq> ApplyModeRestartSession
      then ((zero_snapshot, Some (WrapError ErrorCodeInvalidRequest (''unsupported config apply mode '' @ quote mode) False None)), c)
      else if \<not> ctl_initialized c then ((zero_snapshot, Some not_initialized), c)
      else (let configured = Clone (ctl_configured c); active = Clone (ctl_active c); candidate = sessionConfigCandidate active configured in
        if ctl_activeSessionID c = []
        then (let c1 = setActiveConfig candidate [] c in ((ConfigSnapshot c1, None), c1))
        else (let c1 = cacheResumeStateLocked e (ctl_activeSessionID c) c; oldResumeState = resumeStateSnapshot c1 in
          case mo_Start (ce_ops e) (with_resume oldResumeState (CoreConfig candidate)) (ctl_Manager c1) of
            ((newID, None), m) \<Rightarrow> (let c2 = setActiveConfig candidate newID (c1\<lparr>ctl_Manager := m\<rparr>) in ((ConfigSnapshot c2, None), c2))
          | ((_, Some err), m) \<Rightarrow>
              (case mo_Start (ce_ops e) (with_resume oldResumeState (CoreConfig active)) m of
                 ((_, Some rollbackErr), m') \<Rightarrow>
                   (let c2 = setActiveSessionID [] (c1\<lparr>ctl_Manager := m'\<rparr>)
                    in ((ConfigSnapshot c2, Some (WrapError ErrorCodeSessionStartFailed ''apply configuration and restore previous session'' True
                          (Some (Wrap (''apply: '' @ error_string err @ ''; rollback: '' @ error_string rollbackErr) err)))), c2))
               | ((rollbackID, None), m') \<Rightarrow>
                   (let c2 = setActiveSessionID rollbackID (c1\<lparr>ctl_Manager := m'\<rparr>) in ((ConfigSnapshot c2, Some err), c2))))))"

definition StartSession :: "'m ctl_env \<Rightarrow> SessionStartOptions \<Rightarrow> 'm controller \<Rightarrow> (SessionID \<times> gerror option) \<times> 'm controller" where
  "StartSession e options c =
     (if \<not> ctl_initialized c then (([], Some not_initialized), c)
      else if ctl_activeSessionID c \<noteq> []
      then (([], Some (WrapError ErrorCodeSessionAlreadyRunning ''session is already running'' False None)), c)
      else (let candidate = sessionConfigCandidate (ctl_active c) (ctl_configured c) in
        if opt_SessionID options \<noteq> [] \<and> opt_SessionID options \<noteq> session_ID (dc_Session candidate)
        then (([], Some (WrapError ErrorCodeInvalidRequest ''session_id does not match configured session'' False None)), c)
        else (let coreConfig = CoreConfig candidate in
          case selectResumeState options coreConfig c of
            Inl err \<Rightarrow> (([], Some err), c)
          | Inr resumeState \<Rightarrow>
              (case mo_Start (ce_ops e) (coreConfig\<lparr>cfg_ResumeState := resumeState\<rparr>) (ctl_Manager c) of
                 ((sid, Some err), m) \<Rightarrow> ((sid, Some err), c\<lparr>ctl_Manager := m\<rparr>)
               | ((sid, None), m) \<Rightarrow>
                   (let c1 = c\<lparr>ctl_Manager := m\<rparr>;
                        c2 = (if opt_Resume options = ResumePolicyProvided then storeResumeState (opt_ResumeState options) c1 else c1)
                    in ((sid, None), setActiveConfig candidate sid c2))))))"

definition controller_Stop :: "'m ctl_env \<Rightarrow> SessionID \<Rightarrow> 'm controller \<Rightarrow> gerror option \<times> 'm controller" where
  "controller_Stop e sid c =
     (let c1 = cacheResumeStateLocked e sid c; (err, m) = mo_Stop (ce_ops e) sid (ctl_Manager c1); c2 = c1\<lparr>ctl_Manager := m\<rparr> in
      case err of
        Some x \<Rightarrow> (Some x, c2)
      | None \<Rightarrow> (None, if ctl_activeSessionID c2 = sid then setActiveSessionID [] c2 else c2))"

definition controller_SetRoutingMode ::
  "'m ctl_env \<Rightarrow> SessionID \<Rightarrow> RoutingMode \<Rightarrow> 'm controller \<Rightarrow> (gerror option \<times> 'm controller) option" where
  "controller_SetRoutingMode e sid mode c =
     (if \<not> mode_Valid mode
      then Some (Some (WrapError ErrorCodeConfigInvalid (''routing.mode '' @ quote (mode_string mode) @ '' is invalid'') False None), c)
      else (case mo_SetRoutingMode (ce_ops e) sid mode (ctl_Manager c) of
          None \<Rightarrow> None
        | Some (Some x, m) \<Rightarrow> Some (Some x, c\<lparr>ctl_Manager := m\<rparr>)
        | Some (None, m) \<Rightarrow>
            Some (None, c\<lparr>ctl_Manager := m, ctl_configured := set_mode mode (ctl_configured c), ctl_active := set_mode mode (ctl_active c),
              ctl_revision := ctl_revision c + 1, ctl_activeRevision := ctl_activeRevision c + 1\<rparr>)))"

section \<open>The candidate and the changes\<close>

text \<open>The settings that take effect only when the daemon starts, as the candidate keeps them.\<close>

definition core_part :: "daemonConfig \<Rightarrow> LogConfig \<times> ControlConfig \<times> bool \<times> string \<times> TUNConfig" where
  "core_part c = (dc_Log c, dc_Control c, session_AutoStart (dc_Session c), dc_State_ResumeFile c, in_TUN (dc_Inbounds c))"

lemma candidate_simps [simp]:
  "core_part (sessionConfigCandidate a b) = core_part a"
  "dc_Routing (sessionConfigCandidate a b) = dc_Routing b"
  "session_ID (dc_Session (sessionConfigCandidate a b)) = session_ID (dc_Session b)"
  by (simp_all add: sessionConfigCandidate_def core_part_def Let_def)

lemma candidate_eq: "sessionConfigCandidate a b = b \<longleftrightarrow> core_part a = core_part b"
  by (auto simp: sessionConfigCandidate_def core_part_def Let_def daemonConfig_eq [of _ b] SessionConfig_eq InboundsConfig_eq)

lemma core_leaves_eq:
  "filter ((\<lambda>p. requirementForPath p = ApplyRequirementCoreRestart) \<circ> fst) (config_leaves a) =
   filter ((\<lambda>p. requirementForPath p = ApplyRequirementCoreRestart) \<circ> fst) (config_leaves b) \<longleftrightarrow> core_part a = core_part b"
  unfolding core_part_def prod.inject LogConfig_eq ControlConfig_eq RESTConfig_eq TUNConfig_eq
  by (simp add: config_leaves_def requirementForPath_def HasPrefix_def)

lemma live_leaves_eq:
  "filter ((\<lambda>p. requirementForPath p = ApplyRequirementLive) \<circ> fst) (config_leaves c) = [(''routing.mode'', VMode (routing_Mode (dc_Routing c)))]"
  by (simp add: config_leaves_def requirementForPath_def HasPrefix_def)

lemma Changes_map: "map ch_Path (Changes a b) = sort (differing (config_leaves a) (config_leaves b))"
proof -
  have ins: "map ch_Path (insort_key ch_Path ch ys) = insort (ch_Path ch) (map ch_Path ys)" for ch :: Change and ys
    by (induction ys) simp_all
  have "map ch_Path (sort_key ch_Path (map (\<lambda>path. \<lparr> ch_Path = path, ch_Requires = requirementForPath path \<rparr>) xs)) = sort xs" for xs
    by (induction xs) (simp_all add: ins)
  then show ?thesis by (simp add: Changes_def collectChanges_leaves(1) [OF same_shape_config] leaves_config)
qed

lemma sort_Nil: "sort xs = [] \<longleftrightarrow> xs = []"
  by (metis length_0_conv length_sort)

lemma differing_sub: "set (differing xs ys) \<subseteq> fst ` set xs"
  by (auto simp: differing_def dest!: set_zip_leftD)

lemma differing_distinct: "distinct (differing (config_leaves a) (config_leaves b))"
proof -
  have "distinct (map fst xs) \<Longrightarrow> distinct (differing xs ys)" for xs ys
  proof (induction xs arbitrary: ys)
    case (Cons x xs)
    then have "distinct (differing xs zs)" "fst x \<notin> set (differing xs zs)" for zs using differing_sub [of xs zs] by auto
    then show ?case by (cases ys) (simp_all, simp add: differing_def)
  qed simp
  moreover have "distinct (map fst (config_leaves a))" by (simp add: config_leaves_def)
  ultimately show ?thesis by blast
qed

lemma Changes_requires:
  "(\<forall>ch \<in> set (Changes a b). ch_Requires ch \<noteq> r) \<longleftrightarrow>
     filter ((\<lambda>p. requirementForPath p = r) \<circ> fst) (config_leaves a) = filter ((\<lambda>p. requirementForPath p = r) \<circ> fst) (config_leaves b)"
  using differing_iff [OF config_paths, of a b "\<lambda>p. requirementForPath p = r"]
  by (simp add: Changes_def collectChanges_leaves(1) [OF same_shape_config] leaves_config)

section \<open>What the controller asks of a manager, and keeps\<close>

text \<open>The configuration with the automatic start, which is what asks for a server, switched off. A configuration is valid up to its server when this one is valid: a missing
  server is then its only fault.\<close>

definition relax :: "daemonConfig \<Rightarrow> daemonConfig" where
  "relax c = c\<lparr>dc_Session := (dc_Session c)\<lparr>session_AutoStart := False\<rparr>\<rparr>"

text \<open>Every start the manager is asked for: the session configuration of a configuration that is valid up to its server (it need not be one that validation accepts, see
  \<open>candidate_without_server\<close>), and no resume state but one of the same server, port and user.\<close>

definition start_ok :: "Config \<Rightarrow> bool" where
  "start_ok config \<longleftrightarrow> (\<exists>d state. config_ok (relax d) \<and> config = (CoreConfig d)\<lparr>cfg_ResumeState := state\<rparr>
     \<and> (state \<noteq> None \<longrightarrow> resumeStateMatchesConfig state config))"

lemma relax_ok: "config_ok c \<Longrightarrow> config_ok (relax c)"
  by (simp add: relax_def config_ok_def check_fields_def guards_None lengths_ok_def long_fields_def name_fields_def Let_def)

lemma relaxed_ok: "config_ok (relax c) \<Longrightarrow> \<not> session_AutoStart (dc_Session c) \<or> at_Server (dc_ATrust c) \<noteq> [] \<Longrightarrow> config_ok c"
  by (auto simp: relax_def config_ok_def check_fields_def guards_None lengths_ok_def long_fields_def name_fields_def Let_def)

lemma relax_candidate_ok: "config_ok (relax a) \<Longrightarrow> config_ok b \<Longrightarrow> config_ok (relax (sessionConfigCandidate a b))"
  by (simp add: relax_def sessionConfigCandidate_def config_ok_def check_fields_def guards_None lengths_ok_def long_fields_def
      name_fields_def Let_def)

lemma set_mode_ok:
  "config_ok c \<Longrightarrow> mode_Valid m \<Longrightarrow> config_ok (set_mode m c)"
  "config_ok (relax c) \<Longrightarrow> mode_Valid m \<Longrightarrow> config_ok (relax (set_mode m c))"
  by (simp_all add: relax_def set_mode_def config_ok_def check_fields_def guards_None lengths_ok_def long_fields_def name_fields_def Let_def)

lemma config_ok_mode: "config_ok c \<Longrightarrow> mode_Valid (routing_Mode (dc_Routing c))"
  by (simp add: config_ok_def check_fields_def guards_None Let_def)

lemma CoreConfig_simps [simp]:
  "cfg_SessionID (CoreConfig c) = session_ID (dc_Session c)" "cfg_ResumeState (CoreConfig c) = None"
  by (simp_all add: CoreConfig_def Let_def)

lemma matches_resume_update [simp]:
  "resumeStateMatchesConfig state (config\<lparr>cfg_ResumeState := x\<rparr>) = resumeStateMatchesConfig state config"
  by (simp add: resumeStateMatchesConfig_def split: option.split)

lemma with_resume_ok:
  assumes "config_ok (relax d)"
  shows "start_ok (with_resume state (CoreConfig d))"
proof (cases "resumeStateMatchesConfig state (CoreConfig d)")
  case True
  then show ?thesis using assms unfolding start_ok_def by (intro exI [of _ d] exI [of _ state]) (simp add: with_resume_def)
next
  case False
  have "CoreConfig d = (CoreConfig d)\<lparr>cfg_ResumeState := None\<rparr>"
    using CoreConfig_simps(2) [of d] by (metis Config.surjective Config.update_convs(2) Config.select_convs(2))
  with False assms show ?thesis
    unfolding start_ok_def with_resume_def by (metis (full_types))
qed

lemma with_resume_id [simp]: "cfg_SessionID (with_resume state config) = cfg_SessionID config"
  by (simp add: with_resume_def)

lemma selectResumeState_ok:
  "selectResumeState options config c = Inr state \<Longrightarrow> state \<noteq> None \<Longrightarrow> resumeStateMatchesConfig state config"
  by (auto simp: selectResumeState_def Let_def cloneResumeState_def split: ResumePolicy.splits if_splits option.splits)

text \<open>
  The invariant: the routing mode is never pending, the configured settings are valid and the active ones are but for
  the server, and the running session is the one the active settings name.
\<close>

definition ctl_inv :: "'m controller \<Rightarrow> bool" where
  "ctl_inv c \<longleftrightarrow> routing_Mode (dc_Routing (ctl_configured c)) = routing_Mode (dc_Routing (ctl_active c))
     \<and> (if ctl_initialized c
        then config_ok (ctl_configured c) \<and> config_ok (relax (ctl_active c))
          \<and> (ctl_activeSessionID c \<noteq> [] \<longrightarrow> ctl_activeSessionID c = session_ID (dc_Session (ctl_active c)))
        else ctl_activeSessionID c = [])"

text \<open>What one operation may do: a failed one leaves both configurations alone; a configuration that changes gets the next
  revision; the core settings in force stay.\<close>

definition ctl_change :: "'m controller \<Rightarrow> gerror option \<Rightarrow> 'm controller \<Rightarrow> bool" where
  "ctl_change c err d \<longleftrightarrow>
     (err \<noteq> None \<longrightarrow> ctl_configured d = ctl_configured c \<and> ctl_active d = ctl_active c \<and> ctl_revision d = ctl_revision c
        \<and> ctl_activeRevision d = ctl_activeRevision c \<and> ctl_initialized d = ctl_initialized c)
   \<and> (ctl_initialized c \<longrightarrow> ctl_initialized d \<and> core_part (ctl_active d) = core_part (ctl_active c)
        \<and> (ctl_revision d = ctl_revision c \<and> ctl_configured d = ctl_configured c \<or> ctl_revision d = ctl_revision c + 1)
        \<and> (ctl_activeRevision d = ctl_activeRevision c \<and> ctl_active d = ctl_active c \<or> ctl_activeRevision d = ctl_activeRevision c + 1))"

lemma ctl_change_refl: "ctl_change c err (c\<lparr>ctl_Manager := m\<rparr>)" "ctl_change c err c"
  by (simp_all add: ctl_change_def)

lemma core_part_set_mode [simp]: "core_part (set_mode m c) = core_part c"
  by (simp add: core_part_def set_mode_def)

lemma set_mode_simps [simp]:
  "routing_Mode (dc_Routing (set_mode m c)) = m" "dc_Session (set_mode m c) = dc_Session c"
  by (simp_all add: set_mode_def)

text \<open>What a manager promises the controller, when it is only asked for starts that are \<open>start_ok\<close>: a session that started has the identity
  it was given, and \<open>Q\<close> stays true of the manager.\<close>

locale core_manager =
  fixes e :: "'m ctl_env"
    and Q :: "'m \<Rightarrow> bool"
  assumes order: "ranges (ce_ord e)"
    and Start_id: "start_ok config \<Longrightarrow> mo_Start (ce_ops e) config m = ((sid, None), m') \<Longrightarrow> sid = cfg_SessionID config"
    and Start_Q: "start_ok config \<Longrightarrow> Q m \<Longrightarrow> mo_Start (ce_ops e) config m = (r, m') \<Longrightarrow> Q m'"
    and Stop_Q: "Q m \<Longrightarrow> mo_Stop (ce_ops e) sid m = (err, m') \<Longrightarrow> Q m'"
    and Mode_Q: "Q m \<Longrightarrow> mo_SetRoutingMode (ce_ops e) sid mode m = Some (err, m') \<Longrightarrow> Q m'"
begin

definition good :: "'m controller \<Rightarrow> bool" where
  "good c \<longleftrightarrow> ctl_inv c \<and> Q (ctl_Manager c)"

lemma validate_ok: "validate e config = None \<longleftrightarrow> config_ok config"
  by (simp add: validate_def Validate_None [OF order])

lemma commit_keeps:
  assumes "good c" "ctl_initialized c" "config_ok config" "Q m"
    and "active = (if chg then set_mode (routing_Mode (dc_Routing config)) (ctl_active c) else ctl_active c)"
    and "\<not> chg \<Longrightarrow> routing_Mode (dc_Routing config) = routing_Mode (dc_Routing (ctl_active c))"
  shows "good (commit_config config active chg (c\<lparr>ctl_Manager := m\<rparr>))"
    and "ctl_change c None (commit_config config active chg (c\<lparr>ctl_Manager := m\<rparr>))"
proof -
  have a: "config_ok (relax active)" "core_part active = core_part (ctl_active c)" "dc_Session active = dc_Session (ctl_active c)"
    "routing_Mode (dc_Routing active) = routing_Mode (dc_Routing config)"
    using assms set_mode_ok(2) [of "ctl_active c"] config_ok_mode [OF assms(3)] by (auto simp: good_def ctl_inv_def)
  then show "good (commit_config config active chg (c\<lparr>ctl_Manager := m\<rparr>))"
    using assms(1-4) relax_candidate_ok [of active config] by (auto simp: good_def ctl_inv_def commit_config_def Let_def)
  show "ctl_change c None (commit_config config active chg (c\<lparr>ctl_Manager := m\<rparr>))"
    using assms(2,5) a(2) by (auto simp: ctl_change_def commit_config_def Let_def)
qed

lemma setConfigLocked_keeps:
  assumes g: "good c" and r: "setConfigLocked e config allow c = Some ((snap, err), d)"
  shows "good d \<and> ctl_change c err d"
proof (cases "config_ok config \<and> ctl_initialized c")
  case True
  have Q: "Q (ctl_Manager c)" using g by (simp add: good_def)
  have v: "validate e config = None" using True by (simp add: validate_ok)
  note K = commit_keeps [OF g, of config]
  have same: "good (c\<lparr>ctl_Manager := m\<rparr>) \<longleftrightarrow> Q m" for m using g by (simp add: good_def ctl_inv_def)
  show ?thesis
  proof (cases "routing_Mode (dc_Routing config) = routing_Mode (dc_Routing (ctl_active c))")
    case True
    then show ?thesis using r g v K [where m = "ctl_Manager c" and chg = False] \<open>config_ok config \<and> ctl_initialized c\<close> Q
      by (auto simp: setConfigLocked_def Let_def ctl_change_refl split: if_splits)
  next
    case False
    then show ?thesis using r g v Q K [where chg = True] K [where m = "ctl_Manager c" and chg = True] Mode_Q [OF Q] same \<open>config_ok config \<and> ctl_initialized c\<close>
      by (auto simp: setConfigLocked_def Let_def ctl_change_refl split: if_splits option.splits prod.splits)
  qed
next
  case False
  then show ?thesis using r g by (auto simp: setConfigLocked_def validate_ok ctl_change_refl split: option.splits if_splits)
qed

lemma start_change:
  assumes "good c" "ctl_initialized c" "config_ok (relax d)" "core_part d = core_part (ctl_active c)" "dc_Routing d = dc_Routing (ctl_configured c)"
    and "start_ok config" "cfg_SessionID config = session_ID (dc_Session d)"
    and "mo_Start (ce_ops e) config m0 = ((sid, None), m)" "Q m0"
  shows "good (setActiveConfig d sid (c\<lparr>ctl_Manager := m, ctl_resumeState := x\<rparr>))"
    and "ctl_change c None (setActiveConfig d sid (c\<lparr>ctl_Manager := m, ctl_resumeState := x\<rparr>))"
  using assms Start_id [OF assms(6,8)] Start_Q [OF assms(6) assms(9) assms(8)]
  by (auto simp: good_def ctl_inv_def setActiveConfig_def ctl_change_def)

lemma Initialize_keeps:
  assumes g: "good c" and r: "Initialize e config c = (err, d)"
  shows "good d \<and> ctl_change c err d"
proof (cases "config_ok config \<and> \<not> ctl_initialized c")
  case True
  then have ok: "start_ok (with_resume (cloneResumeState (ctl_resumeState c)) (CoreConfig config))" (is "start_ok ?s")
    using with_resume_ok relax_ok by blast
  obtain sid x m where s: "mo_Start (ce_ops e) ?s (ctl_Manager c) = ((sid, x), m)" by (metis prod.collapse)
  have "Q (ctl_Manager c)" using g by (simp add: good_def)
  note S = Start_Q [OF ok this s] Start_id [OF ok, of "ctl_Manager c" sid m]
  show ?thesis
  proof (cases "session_AutoStart (dc_Session config) \<and> x \<noteq> None")
    case False
    then show ?thesis using r g True S s validate_ok [of config] relax_ok [of config]
      by (auto simp: Initialize_def Let_def good_def ctl_inv_def ctl_change_def split: if_splits)
  next
    case fail: True
    then show ?thesis using r g True S s validate_ok [of config]
      by (auto simp: Initialize_def Let_def good_def ctl_inv_def ctl_change_def)
  qed
next
  case False
  then show ?thesis using r g by (auto simp: Initialize_def validate_ok ctl_change_refl split: option.splits if_splits)
qed

lemma cache_simps [simp]:
  "ctl_Manager (cacheResumeStateLocked e sid c) = ctl_Manager c" "ctl_configured (cacheResumeStateLocked e sid c) = ctl_configured c"
  "ctl_active (cacheResumeStateLocked e sid c) = ctl_active c" "ctl_initialized (cacheResumeStateLocked e sid c) = ctl_initialized c"
  "ctl_revision (cacheResumeStateLocked e sid c) = ctl_revision c" "ctl_activeRevision (cacheResumeStateLocked e sid c) = ctl_activeRevision c"
  "ctl_activeSessionID (cacheResumeStateLocked e sid c) = ctl_activeSessionID c"
  by (simp_all add: cacheResumeStateLocked_def storeResumeState_def split: sum.split)

lemma good_cong:
  "good c \<Longrightarrow> ctl_configured d = ctl_configured c \<Longrightarrow> ctl_active d = ctl_active c \<Longrightarrow> ctl_initialized d = ctl_initialized c
   \<Longrightarrow> ctl_activeSessionID d = ctl_activeSessionID c \<or> ctl_activeSessionID d = []
     \<or> ctl_initialized c \<and> ctl_activeSessionID d = session_ID (dc_Session (ctl_active c))
   \<Longrightarrow> Q (ctl_Manager d) \<Longrightarrow> good d"
  by (auto simp: good_def ctl_inv_def)

lemma ctl_change_cong:
  "ctl_configured d = ctl_configured c \<Longrightarrow> ctl_active d = ctl_active c \<Longrightarrow> ctl_initialized d = ctl_initialized c
   \<Longrightarrow> ctl_revision d = ctl_revision c \<Longrightarrow> ctl_activeRevision d = ctl_activeRevision c \<Longrightarrow> ctl_change c err d"
  by (simp add: ctl_change_def)

lemma ctl_change_left:
  "ctl_change c' err d \<Longrightarrow> ctl_configured c' = ctl_configured c \<Longrightarrow> ctl_active c' = ctl_active c \<Longrightarrow> ctl_initialized c' = ctl_initialized c
   \<Longrightarrow> ctl_revision c' = ctl_revision c \<Longrightarrow> ctl_activeRevision c' = ctl_activeRevision c \<Longrightarrow> ctl_change c err d"
  by (simp add: ctl_change_def)

lemma candidate_keeps:
  assumes "good c" "ctl_initialized c"
  shows "config_ok (relax (sessionConfigCandidate (ctl_active c) (ctl_configured c)))"
  using assms by (simp add: good_def ctl_inv_def relax_candidate_ok)

lemma ApplyConfig_keeps:
  assumes g: "good c" and r: "ApplyConfig e mode c = ((snap, err), d)"
  shows "good d \<and> ctl_change c err d"
proof (cases "mode = ApplyModeRestartSession \<and> ctl_initialized c")
  case True
  let ?cand = "sessionConfigCandidate (ctl_active c) (ctl_configured c)"
  define c1 where "c1 = cacheResumeStateLocked e (ctl_activeSessionID c) c"
  have ok: "config_ok (relax ?cand)" "config_ok (relax (ctl_active c))" "Q (ctl_Manager c)"
    using candidate_keeps [OF g] g True by (auto simp: good_def ctl_inv_def)
  show ?thesis
  proof (cases "ctl_activeSessionID c = []")
    case none: True
    then show ?thesis using r True g ok(1)
      by (auto simp: ApplyConfig_def Let_def setActiveConfig_def good_def ctl_inv_def ctl_change_def)
  next
    case False
    let ?s1 = "with_resume (resumeStateSnapshot c1) (CoreConfig ?cand)" and ?s2 = "with_resume (resumeStateSnapshot c1) (CoreConfig (ctl_active c))"
    have g1: "good c1" by (rule good_cong [OF g]) (simp_all add: c1_def ok(3))
    have Q1: "Q (ctl_Manager c1)" using ok(3) by (simp add: c1_def)
    obtain sid x m where s: "mo_Start (ce_ops e) ?s1 (ctl_Manager c1) = ((sid, x), m)" by (metis prod.collapse)
    obtain sid' x' m' where s': "mo_Start (ce_ops e) ?s2 m = ((sid', x'), m')" by (metis prod.collapse)
    have ok12: "start_ok ?s1" "start_ok ?s2" using with_resume_ok ok by blast+
    have Q: "Q m" "Q m'" using Start_Q [OF ok12(1) Q1 s] Start_Q [OF ok12(2) _ s'] by blast+
    show ?thesis
    proof (cases x)
      case None
      then have d: "d = setActiveConfig ?cand sid (c1\<lparr>ctl_Manager := m, ctl_resumeState := ctl_resumeState c1\<rparr>)" "err = None"
        using r True False s by (simp_all add: ApplyConfig_def Let_def c1_def [symmetric])
      have i1: "ctl_initialized c1" "core_part ?cand = core_part (ctl_active c1)" "dc_Routing ?cand = dc_Routing (ctl_configured c1)"
        using True by (simp_all add: c1_def)
      have "good d" "ctl_change c1 None d" unfolding d
        by (rule start_change [OF g1 i1(1) ok(1) i1(2,3) ok12(1) _ s [unfolded None] Q1], simp)+
      then show ?thesis using ctl_change_left [of c1 None d c] d(2) by (simp add: c1_def)
    next
      case (Some y)
      have d: "d = c1\<lparr>ctl_Manager := m', ctl_activeSessionID := (if x' = None then sid' else [])\<rparr>" "err \<noteq> None"
        using r True False s s' Some by (auto simp: ApplyConfig_def Let_def c1_def [symmetric] setActiveSessionID_def split: option.splits)
      have "x' = None \<Longrightarrow> sid' = session_ID (dc_Session (ctl_active c))" using Start_id [OF ok12(2)] s' by fastforce
      then have "good d" by (intro good_cong [OF g]) (use d(1) Q True in \<open>auto simp: c1_def\<close>)
      moreover have "ctl_change c err d" by (rule ctl_change_cong) (simp_all add: d(1) c1_def)
      ultimately show ?thesis by simp
    qed
  qed
next
  case False
  then show ?thesis using r g by (auto simp: ApplyConfig_def ctl_change_refl split: if_splits)
qed

lemma StartSession_keeps:
  assumes g: "good c" and r: "StartSession e options c = ((sid, err), d)"
  shows "good d \<and> ctl_change c err d"
proof (cases "d = c")
  case True
  then show ?thesis using g by (simp add: ctl_change_refl)
next
  case False
  let ?cand = "sessionConfigCandidate (ctl_active c) (ctl_configured c)"
  have Q: "Q (ctl_Manager c)" using g by (simp add: good_def)
  have i: "ctl_initialized c" using r False by (cases "ctl_initialized c") (auto simp: StartSession_def)
  obtain state where sel: "selectResumeState options (CoreConfig ?cand) c = Inr state"
    using r False by (cases "selectResumeState options (CoreConfig ?cand) c") (auto simp: StartSession_def Let_def split: if_splits)
  let ?s = "(CoreConfig ?cand)\<lparr>cfg_ResumeState := state\<rparr>"
  obtain sid' x m where st: "mo_Start (ce_ops e) ?s (ctl_Manager c) = ((sid', x), m)" by (metis prod.collapse)
  have ok: "config_ok (relax ?cand)" using candidate_keeps [OF g i] .
  then have s: "start_ok ?s" using selectResumeState_ok [OF sel] unfolding start_ok_def by force
  show ?thesis
  proof (cases x)
    case None
    define y where "y = (if opt_Resume options = ResumePolicyProvided then cloneResumeState (opt_ResumeState options) else ctl_resumeState c)"
    have d: "d = setActiveConfig ?cand sid' (c\<lparr>ctl_Manager := m, ctl_resumeState := y\<rparr>)" "err = None"
      using r i sel st None False by (auto simp: StartSession_def Let_def storeResumeState_def y_def split: if_splits)
    show ?thesis unfolding d using start_change [OF g i ok _ _ s _ st [unfolded None] Q] by simp
  next
    case (Some z)
    then have d: "d = c\<lparr>ctl_Manager := m\<rparr>" using r i sel st False by (auto simp: StartSession_def Let_def split: if_splits)
    have "good d" by (rule good_cong [OF g]) (use d Start_Q [OF s Q st] in simp_all)
    then show ?thesis by (simp add: d ctl_change_refl)
  qed
qed

lemma Stop_keeps:
  assumes g: "good c" and r: "controller_Stop e sid c = (err, d)"
  shows "good d \<and> ctl_change c err d"
proof -
  have Q: "Q (ctl_Manager c)" using g by (simp add: good_def)
  obtain x m where s: "mo_Stop (ce_ops e) sid (ctl_Manager c) = (x, m)" by fastforce
  have d: "ctl_Manager d = m" "ctl_configured d = ctl_configured c" "ctl_active d = ctl_active c" "ctl_initialized d = ctl_initialized c"
    "ctl_revision d = ctl_revision c" "ctl_activeRevision d = ctl_activeRevision c"
    "ctl_activeSessionID d = ctl_activeSessionID c \<or> ctl_activeSessionID d = []"
    using r s by (auto simp: controller_Stop_def Let_def setActiveSessionID_def split: option.splits if_splits)
  show ?thesis using good_cong [OF g, of d] ctl_change_cong [of d c] d Stop_Q [OF Q s] by auto
qed

lemma SetRoutingMode_keeps:
  assumes g: "good c" and r: "controller_SetRoutingMode e sid mode c = Some (err, d)"
  shows "good d \<and> ctl_change c err d"
proof -
  have Q: "Q (ctl_Manager c)" using g by (simp add: good_def)
  show ?thesis using r g Mode_Q [OF Q] set_mode_ok [of _ mode]
    by (auto simp: controller_SetRoutingMode_def good_def ctl_inv_def ctl_change_def split: if_splits option.splits)
qed

lemmas set_keeps = setConfigLocked_keeps

lemma PatchConfig_keeps:
  assumes "good c" "PatchConfig e patch c = Some ((snap, err), d)"
  shows "good d \<and> ctl_change c err d"
  using assms set_keeps by (auto simp: PatchConfig_def Let_def ctl_change_refl split: if_splits sum.splits)

lemma ReloadConfig_keeps:
  assumes "good c" "ReloadConfig e c = Some ((snap, err), d)"
  shows "good d \<and> ctl_change c err d"
  using assms set_keeps by (auto simp: ReloadConfig_def ctl_change_refl split: if_splits sum.splits)

lemma SetInitialResumeState_keeps:
  assumes "good c"
  shows "good (SetInitialResumeState state c) \<and> ctl_change c err (SetInitialResumeState state c)"
  using assms by (simp add: SetInitialResumeState_def good_def ctl_inv_def ctl_change_def)

end

section \<open>Runs\<close>

text \<open>
  An operation carries what it runs in. Between operations the manager may change by itself, as when a session fails.
  \<open>logging\<close> records in the manager's state every configuration it is asked to start.
\<close>

definition logging :: "'m ctl_env \<Rightarrow> ('m \<times> Config list) ctl_env" where
  "logging e = (let ops = ce_ops e in
     \<lparr> ce_ops = \<lparr>
         mo_Start = (\<lambda>config (m, log). let (r, m') = mo_Start ops config m in (r, (m', log @ [config]))),
         mo_Stop = (\<lambda>sid (m, log). let (err, m') = mo_Stop ops sid m in (err, (m', log))),
         mo_SetRoutingMode = (\<lambda>sid mode (m, log). map_option (\<lambda>(err, m'). (err, (m', log))) (mo_SetRoutingMode ops sid mode m)),
         mo_ResumeState = (\<lambda>sid (m, log). mo_ResumeState ops sid m) \<rparr>,
       ce_ord = ce_ord e, ce_prefixErr = ce_prefixErr e, ce_codec = ce_codec e, ce_readFile = ce_readFile e, ce_yaml = ce_yaml e \<rparr>)"

datatype 'm controller_op =
    CtInitialize "'m ctl_env" daemonConfig
  | CtSetConfig "'m ctl_env" daemonConfig
  | CtPatchConfig "'m ctl_env" bytes
  | CtReloadConfig "'m ctl_env"
  | CtApplyConfig "'m ctl_env" string
  | CtStartSession "'m ctl_env" SessionStartOptions
  | CtStop "'m ctl_env" SessionID
  | CtSetRoutingMode "'m ctl_env" SessionID RoutingMode
  | CtInitialResumeState "ResumeState option"
  | CtManager "'m \<Rightarrow> 'm"

fun op_env :: "'m controller_op \<Rightarrow> 'm ctl_env option" where
  "op_env (CtInitialize e _) = Some e" | "op_env (CtSetConfig e _) = Some e" | "op_env (CtPatchConfig e _) = Some e"
| "op_env (CtReloadConfig e) = Some e" | "op_env (CtApplyConfig e _) = Some e" | "op_env (CtStartSession e _) = Some e"
| "op_env (CtStop e _) = Some e" | "op_env (CtSetRoutingMode e _ _) = Some e" | "op_env _ = None"

text \<open>The error an operation returns and the state after it; an operation that has not returned is None.\<close>

fun controller_call :: "'m controller_op \<Rightarrow> ('m \<times> Config list) controller \<Rightarrow> (gerror option \<times> ('m \<times> Config list) controller) option" where
  "controller_call (CtInitialize e config) c = Some (Initialize (logging e) config c)"
| "controller_call (CtSetConfig e config) c = map_option (\<lambda>((_, err), d). (err, d)) (SetConfig (logging e) config c)"
| "controller_call (CtPatchConfig e patch) c = map_option (\<lambda>((_, err), d). (err, d)) (PatchConfig (logging e) patch c)"
| "controller_call (CtReloadConfig e) c = map_option (\<lambda>((_, err), d). (err, d)) (ReloadConfig (logging e) c)"
| "controller_call (CtApplyConfig e mode) c = (case ApplyConfig (logging e) mode c of ((_, err), d) \<Rightarrow> Some (err, d))"
| "controller_call (CtStartSession e options) c = (case StartSession (logging e) options c of ((_, err), d) \<Rightarrow> Some (err, d))"
| "controller_call (CtStop e sid) c = Some (controller_Stop (logging e) sid c)"
| "controller_call (CtSetRoutingMode e sid mode) c = controller_SetRoutingMode (logging e) sid mode c"
| "controller_call (CtInitialResumeState state) c = Some (None, SetInitialResumeState state c)"
| "controller_call (CtManager f) c = Some (None, c\<lparr>ctl_Manager := (f (fst (ctl_Manager c)), snd (ctl_Manager c))\<rparr>)"

definition controller_step :: "('m \<times> Config list) controller \<Rightarrow> 'm controller_op \<Rightarrow> ('m \<times> Config list) controller" where
  "controller_step c op = (case controller_call op c of None \<Rightarrow> c | Some (_, d) \<Rightarrow> d)"

text \<open>What the operations of a run need of the manager and the order of maps.\<close>

definition starts_as_asked :: "'m ctl_env \<Rightarrow> bool" where
  "starts_as_asked e \<longleftrightarrow> ranges (ce_ord e) \<and>
     (\<forall>config m sid m'. cfg_SessionID config \<noteq> [] \<longrightarrow> mo_Start (ce_ops e) config m = ((sid, None), m') \<longrightarrow> sid = cfg_SessionID config)"

definition op_ok :: "'m controller_op \<Rightarrow> bool" where
  "op_ok op \<longleftrightarrow> (\<forall>e. op_env op = Some e \<longrightarrow> starts_as_asked e)"

definition log_ok :: "'m \<times> Config list \<Rightarrow> bool" where
  "log_ok m \<longleftrightarrow> list_all start_ok (snd m)"

lemma start_ok_id: "start_ok config \<Longrightarrow> cfg_SessionID config \<noteq> []"
  by (auto simp: start_ok_def config_ok_def relax_def)

lemma logging_manager:
  assumes "starts_as_asked e"
  shows "core_manager (logging e) log_ok"
proof (unfold_locales, goal_cases)
  case 1
  show ?case using assms by (simp add: starts_as_asked_def logging_def Let_def)
next
  case (2 config m sid m')
  then show ?case using assms start_ok_id [of config]
    by (cases m) (auto simp: starts_as_asked_def logging_def Let_def split: prod.splits)
next
  case (3 config m r m')
  then show ?case by (cases m) (auto simp: log_ok_def logging_def Let_def split: prod.splits)
next
  case (4 m sid err m')
  then show ?case by (cases m) (auto simp: log_ok_def logging_def Let_def split: prod.splits)
next
  case (5 m sid mode err m')
  then show ?case by (cases m) (auto simp: log_ok_def logging_def Let_def)
qed

definition controller_ok :: "('m \<times> Config list) controller \<Rightarrow> bool" where
  "controller_ok c \<longleftrightarrow> ctl_inv c \<and> log_ok (ctl_Manager c)"

lemma controller_call_keeps:
  assumes ok: "op_ok op" and i: "controller_ok c" and r: "controller_call op c = Some (err, d)"
  shows "controller_ok d \<and> ctl_change c err d"
proof (cases "op_env op")
  case (Some e)
  then have m: "core_manager (logging e) log_ok" using ok logging_manager by (auto simp: op_ok_def)
  note G = core_manager.good_def [OF m]
  have g: "core_manager.good log_ok c" using i by (simp add: G controller_ok_def)
  have "core_manager.good log_ok d \<and> ctl_change c err d"
    using r Some core_manager.Initialize_keeps [OF m g] core_manager.set_keeps [OF m g] core_manager.PatchConfig_keeps [OF m g]
      core_manager.ReloadConfig_keeps [OF m g] core_manager.ApplyConfig_keeps [OF m g] core_manager.StartSession_keeps [OF m g]
      core_manager.Stop_keeps [OF m g] core_manager.SetRoutingMode_keeps [OF m g]
    by (cases op) (fastforce simp: SetConfig_def split: prod.splits)+
  then show ?thesis by (simp add: G controller_ok_def)
next
  case None
  then show ?thesis using r i
    by (cases op) (auto simp: controller_ok_def ctl_inv_def log_ok_def SetInitialResumeState_def ctl_change_def)
qed

lemma controller_step_keeps:
  assumes "op_ok op" "controller_ok c"
  shows "controller_ok (controller_step c op)"
    and "ctl_initialized c \<Longrightarrow> ctl_initialized (controller_step c op)
      \<and> core_part (ctl_active (controller_step c op)) = core_part (ctl_active c)"
  using controller_call_keeps [OF assms] assms(2)
  by (auto simp: controller_step_def ctl_change_def split: option.split)

lemma controller_run:
  "list_all op_ok ops \<Longrightarrow> controller_ok c \<Longrightarrow> controller_ok (foldl controller_step c ops)
     \<and> (ctl_initialized c \<longrightarrow> ctl_initialized (foldl controller_step c ops)
        \<and> core_part (ctl_active (foldl controller_step c ops)) = core_part (ctl_active c))"
proof (induction ops arbitrary: c)
  case (Cons op ops)
  then show ?case using controller_step_keeps [of op c] Cons.IH [of "controller_step c op"] by auto
qed simp

lemma controller_New_ok: "controller_ok (controller_New (m, []) path)"
  by (simp add: controller_ok_def controller_New_def ctl_inv_def log_ok_def)

section \<open>The manager of the program\<close>

text \<open>The calls of the session manager, as the controller makes them: the arguments are those of
  \<open>manager_Start\<close> and \<open>manager_Stop\<close>.\<close>

definition manager_env ::
  "((string \<rightharpoonup> string) \<Rightarrow> string list) \<Rightarrow> closing_plan \<Rightarrow> gerror option \<Rightarrow> (nat \<Rightarrow> nat \<Rightarrow> session_op list) \<Rightarrow> dependencies \<Rightarrow> closing_plan
   \<Rightarrow> (Manager \<times> sessionCoordinator) ctl_env \<Rightarrow> (Manager \<times> sessionCoordinator) ctl_env" where
  "manager_env ord p x f deps p' e = e\<lparr>ce_ord := ord, ce_ops := \<lparr>
     mo_Start = manager_Start ord (planned ord p) x (\<lambda>i k. run_all (map (session_step ord) (f i k))) deps (planned ord p'),
     mo_Stop = (\<lambda>sid st. case manager_Stop (planned ord p) sid (snd st) of (err, c) \<Rightarrow> (err, fst st, c)),
     mo_SetRoutingMode = manager_SetRoutingMode,
     mo_ResumeState = manager_ResumeState \<rparr>\<rparr>"

lemma manager_Start_id:
  assumes "manager_Start ord cl x y deps cl' config st = ((sid, None), st')" "cfg_SessionID config \<noteq> []"
  shows "sid = cfg_SessionID config"
  using assms by (auto simp: manager_Start_def Let_def split: prod.splits option.splits sum.splits)

lemma manager_env_starts: "ranges ord \<Longrightarrow> starts_as_asked (manager_env ord p x f deps p' e)"
  using manager_Start_id by (simp add: starts_as_asked_def manager_env_def)

lemma one_session_SetRoutingMode:
  assumes "one_session b st" "manager_SetRoutingMode sid mode st = Some (err, st')"
  shows "one_session b st'"
  using assms one_session_put [OF assms(1)] SetRoutingMode_guar
  by (auto simp: manager_SetRoutingMode_def split: sum.splits)

interpretation program: core_manager "manager_env by_key (p\<lparr>cp_late := None\<rparr>) x f deps p' e" "one_session True" for p x f deps p' e
proof (unfold_locales, goal_cases)
  case 1
  show ?case by (simp add: manager_env_def ranges_by_key)
next
  case (2 config m sid m')
  then show ?case using manager_Start_id start_ok_id [of config] by (simp add: manager_env_def)
next
  case (3 config m r m')
  then show ?case using one_session_step [of True m "MgStart (p\<lparr>cp_late := None\<rparr>) x f deps p' config" by_key]
    by (simp add: manager_env_def)
next
  case (4 m sid err m')
  then show ?case using one_session_step [of True m "MgStop (p\<lparr>cp_late := None\<rparr>) sid" by_key]
    by (auto simp: manager_env_def split: prod.splits)
next
  case (5 m sid mode err m')
  then show ?case using one_session_SetRoutingMode by (simp add: manager_env_def)
qed

section \<open>Properties\<close>

text \<open>C40. The changes between two configurations are exact: their paths are those of the fields whose values differ, in
  order and without repetition; there are none only between equal configurations; one that needs a restart of the core is listed
  exactly when the configuration a session may be started with differs from the configured one, so that the path-based
  rule and the field-by-field candidate agree; and a live change is listed exactly when the routing modes differ.\<close>

theorem config_changes_exact:
  "map ch_Path (Changes a b) = sort (differing (config_leaves a) (config_leaves b))
   \<and> distinct (map ch_Path (Changes a b))
   \<and> (Changes a b = [] \<longleftrightarrow> a = b)
   \<and> (filter (\<lambda>ch. ch_Requires ch = ApplyRequirementCoreRestart) (Changes a b) = [] \<longleftrightarrow> sessionConfigCandidate a b = b)
   \<and> (filter (\<lambda>ch. ch_Requires ch = ApplyRequirementLive) (Changes a b) = [] \<longleftrightarrow> routing_Mode (dc_Routing a) = routing_Mode (dc_Routing b))"
proof (intro conjI)
  show "map ch_Path (Changes a b) = sort (differing (config_leaves a) (config_leaves b))"
    by (simp add: Changes_map)
  show "distinct (map ch_Path (Changes a b))" by (simp add: Changes_map differing_distinct)
  have "Changes a b = [] \<longleftrightarrow> map ch_Path (Changes a b) = []" by simp
  also have "\<dots> \<longleftrightarrow> (\<forall>q \<in> set (differing (config_leaves a) (config_leaves b)). \<not> True)" by (simp add: Changes_map sort_Nil)
  also have "\<dots> \<longleftrightarrow> a = b" by (simp only: differing_iff [OF config_paths]) (simp add: comp_def config_leaves_inj)
  finally show "Changes a b = [] \<longleftrightarrow> a = b" .
qed (simp_all add: filter_empty_conv Changes_requires core_leaves_eq live_leaves_eq candidate_eq)

text \<open>C39. A run of the controller. Whatever a manager answers, as long as a session it starts has the identity it was asked for,
  after any sequence of initialisation, changes of the configuration, reloading, applying, starting, stopping and routing: the routing mode is
  never pending; once initialised the configured settings are valid, the active ones are valid up to the server (valid when the automatic start is off or a server is named), and the running session
  is the one the active settings name; the core settings in force are those it was initialised with; and every session was started from a
  configuration that is valid up to the server, with no resume state but one for the same server, port and user. That the active settings, and those a session is started from, are valid without this
  reservation is not true (\<open>candidate_without_server\<close>). An operation that fails changes neither configuration, and a configuration that changes has the next revision.\<close>

theorem controller_runs:
  assumes "list_all op_ok (ops @ ops')" "op_ok op"
    and c: "c = foldl controller_step (controller_New (m, []) path) ops"
    and d: "d = foldl controller_step c ops'"
  shows "routing_Mode (dc_Routing (ctl_configured d)) = routing_Mode (dc_Routing (ctl_active d))
    \<and> (ctl_initialized d \<longrightarrow> config_ok (ctl_configured d) \<and> config_ok (relax (ctl_active d))
        \<and> (\<not> session_AutoStart (dc_Session (ctl_active d)) \<or> at_Server (dc_ATrust (ctl_active d)) \<noteq> [] \<longrightarrow> config_ok (ctl_active d))
        \<and> (ctl_activeSessionID d = [] \<or> ctl_activeSessionID d = session_ID (dc_Session (ctl_active d))))
    \<and> (ctl_initialized c \<longrightarrow> ctl_initialized d \<and> core_part (ctl_active d) = core_part (ctl_active c))
    \<and> list_all start_ok (snd (ctl_Manager d))
    \<and> (\<forall>err d'. controller_call op d = Some (err, d') \<longrightarrow> ctl_change d err d')"
proof -
  have "controller_ok c"
    using controller_run [OF _ controller_New_ok, of ops m path] assms(1) by (simp add: c)
  then have R: "controller_ok d" "ctl_initialized c \<longrightarrow> ctl_initialized d \<and> core_part (ctl_active d) = core_part (ctl_active c)"
    using controller_run [of ops' c] assms(1) by (simp_all add: d)
  have "\<forall>err d'. controller_call op d = Some (err, d') \<longrightarrow> ctl_change d err d'"
    using controller_call_keeps [OF assms(2) R(1)] by blast
  with R show ?thesis using relaxed_ok [of "ctl_active d"] by (auto simp: controller_ok_def ctl_inv_def log_ok_def)
qed

definition demo_daemon :: daemonConfig where
  "demo_daemon = Default\<lparr>dc_Session := \<lparr> session_ID = ''campus'', session_AutoStart = False, session_AutoReconnect = True \<rparr>\<rparr>"

definition demo_env :: "(Manager \<times> sessionCoordinator) ctl_env" where
  "demo_env = manager_env by_key quiet_plan None (\<lambda>_ _. []) demo_deps quiet_plan
     \<lparr> ce_ops = undefined, ce_ord = by_key, ce_prefixErr = (\<lambda>_. Opaque []),
       ce_codec = \<lparr> jc_object = (\<lambda>_. []), jc_values = (\<lambda>_. []), jc_config = (\<lambda>_. Inl (Opaque [])), jc_typeErr = Opaque [] \<rparr>,
       ce_readFile = (\<lambda>_. Inl (Opaque [])), ce_yaml = (\<lambda>_ _. Inl (Opaque [])) \<rparr>"

lemma demo_daemon_ok: "config_ok demo_daemon"
  by (simp add: demo_daemon_def Default_def config_ok_def Version_def lengths_ok_def long_fields_def name_fields_def maxValueLength_def
      maxNameLength_def check_fields_def guards_None auth_types_def mode_Valid_def outboundType_Valid_def Second_def hosts_ok_def hosts_of_def
      tun_ok_def Let_def)

lemma demo_env_ok: "starts_as_asked demo_env" "validate (logging demo_env) demo_daemon = None"
proof -
  show "starts_as_asked demo_env" unfolding demo_env_def by (rule manager_env_starts [OF ranges_by_key])
  show "validate (logging demo_env) demo_daemon = None" using demo_daemon_ok
    by (simp add: demo_env_def validate_def logging_def Let_def manager_env_def Validate_None [OF ranges_by_key])
qed

text \<open>The candidate of two valid configurations need not be valid: the automatic start is kept from the active one, while the
  server it asks for comes from the configured one.\<close>

lemma candidate_without_server:
  "config_ok (demo_daemon\<lparr>dc_Session := \<lparr> session_ID = ''campus'', session_AutoStart = True, session_AutoReconnect = True \<rparr>,
      dc_ATrust := (dc_ATrust demo_daemon)\<lparr>at_Server := ''vpn''\<rparr>\<rparr>) \<and> config_ok demo_daemon
   \<and> \<not> config_ok (sessionConfigCandidate (demo_daemon\<lparr>dc_Session := \<lparr> session_ID = ''campus'', session_AutoStart = True, session_AutoReconnect = True \<rparr>,
      dc_ATrust := (dc_ATrust demo_daemon)\<lparr>at_Server := ''vpn''\<rparr>\<rparr>) demo_daemon)"
proof (intro conjI demo_daemon_ok)
  show "config_ok (demo_daemon\<lparr>dc_Session := \<lparr> session_ID = ''campus'', session_AutoStart = True, session_AutoReconnect = True \<rparr>,
      dc_ATrust := (dc_ATrust demo_daemon)\<lparr>at_Server := ''vpn''\<rparr>\<rparr>)"
    using demo_daemon_ok by (simp add: demo_daemon_def Default_def config_ok_def lengths_ok_def long_fields_def name_fields_def
        maxNameLength_def check_fields_def guards_None Let_def)
qed (simp add: sessionConfigCandidate_def demo_daemon_def Default_def config_ok_def check_fields_def guards_None Let_def)

theorem controller_runs_witness:
  "let c = foldl controller_step (controller_New ((New [] (\<lambda>_. demo_out) (\<lambda>_. demo_rt) 0,
          \<lparr> co_active = None, co_sessions = (\<lambda>_. demo_session), co_count = 0 \<rparr>), []) []) [CtInitialize demo_env demo_daemon];
       d = foldl controller_step c [CtSetConfig demo_env (set_mode RoutingModeGlobal demo_daemon), CtStop demo_env ''other'', CtApplyConfig demo_env ''restart'']
   in ctl_initialized c \<and> ctl_initialized d \<and> config_ok (ctl_configured d) \<and> core_part (ctl_active d) = core_part demo_daemon
    \<and> (\<forall>err d'. controller_call (CtReloadConfig demo_env) d = Some (err, d') \<longrightarrow> ctl_change d err d')"
proof -
  define c where "c = foldl controller_step (controller_New ((New [] (\<lambda>_. demo_out) (\<lambda>_. demo_rt) 0,
          \<lparr> co_active = None, co_sessions = (\<lambda>_. demo_session), co_count = 0 \<rparr>), []) []) [CtInitialize demo_env demo_daemon]"
  define d where "d = foldl controller_step c
    [CtSetConfig demo_env (set_mode RoutingModeGlobal demo_daemon), CtStop demo_env ''other'', CtApplyConfig demo_env ''restart'']"
  have i: "ctl_initialized c" "ctl_active c = demo_daemon"
    using demo_env_ok(2) by (simp_all add: c_def controller_step_def Initialize_def controller_New_def Let_def) (simp_all add: demo_daemon_def)
  show ?thesis
    using controller_runs [OF _ _ c_def d_def, of "CtReloadConfig demo_env"] i demo_env_ok(1)
    unfolding Let_def c_def [symmetric] d_def [symmetric] by (simp add: op_ok_def)
qed

end
