(* ===== verification/TcpTunnel.thy ===== *)
theory TcpTunnel
  imports L3Frame Resources
begin

text \<open>
  The TCP tunnel, \<^verbatim>\<open>src/client/atrust/tcptunnel.go\<close>: a connection to one destination over a TLS connection to a
  gateway node. The handshake, the frames of the data stream in both directions, the choice of the resource and
  the request that opens the tunnel.

  The reader is the list of the bytes the node still sends before it closes the connection. The context, the
  deadlines, the dialer and the hash functions are arguments.
\<close>

section \<open>The handshake\<close>

definition text_of :: "bytes \<Rightarrow> string" where
  "text_of bs = map (\<lambda>b. char_of (unat b)) bs"

definition HEX02 :: "u8 \<Rightarrow> string" where
  "HEX02 b = ToUpper (hex02 b)"

text \<open>A length of two bytes and as many bytes.\<close>

definition read_counted :: "bytes \<Rightarrow> (bytes \<times> bytes) result" where
  "read_counted r = rbind (ReadFull 2 r) (\<lambda>(lengthBytes, r1). ReadFull (be16 (lengthBytes ! 0) (lengthBytes ! 1)) r1)"

lemma read_counted_Inr:
  "read_counted r = Inr (x, r') \<longleftrightarrow> (\<exists>a b. r = a # b # x @ r' \<and> length x = be16 a b)"
proof -
  have "length y = 2 \<longleftrightarrow> (\<exists>a b. y = [a, b])" for y :: bytes by (auto simp: length_Suc_conv numeral_2_eq_2)
  then show ?thesis by (fastforce simp: read_counted_def rbind_Inr ReadFull_Inr)
qed

definition readTCPProtocolResponse :: "bytes \<Rightarrow> (string \<times> bytes) result" where
  "readTCPProtocolResponse r = rbind (read_counted r) (\<lambda>(data, r1). Inr (text_of data, r1))"

definition validateTCPProtocolResponse :: "string \<Rightarrow> gerror option" where
  "validateTCPProtocolResponse response =
     (if Contains response ''OK'' then None
      else if Contains response ''invalid SID''
      then Some (errorf ''tcp tunnel authentication failed: invalid SID'' (Sentinel ErrSessionInvalid))
      else Some (Opaque (''tcp tunnel setup failed: '' @ response)))"

definition readTCPConnectStatus :: "bytes \<Rightarrow> (u8 \<times> bytes) result" where
  "readTCPConnectStatus r =
     rbind (ReadFull 4 r) (\<lambda>(header, r1).
       if header ! 0 \<noteq> 0x05
       then Inl (Opaque (''unexpected tcp tunnel connect status: '' @ HEX02 (header ! 0) @ '' '' @ HEX02 (header ! 1)))
       else if header ! 1 \<noteq> 0x00 then Inr (header ! 1, r1)
       else rbind (if header ! 3 = 0x01 then Inr (4, r1)
                   else if header ! 3 = 0x03 then rbind (ReadFull 1 r1) (\<lambda>(len, r2). Inr (unat (len ! 0), r2))
                   else if header ! 3 = 0x04 then Inr (16, r1)
                   else Inl (Opaque (''unexpected tcp tunnel address type: 0x'' @ HEX02 (header ! 3)))) (\<lambda>(addressLength, r2).
            rbind (ReadFull (addressLength + 2) r2) (\<lambda>(_, r3). Inr (header ! 1, r3))))"

definition connect_error :: "u8 \<Rightarrow> gerror option" where
  "connect_error status =
     (if status = 0 then None
      else Some (if status = 1 then Opaque ''tcp tunnel server failure''
        else if status = 2 then Opaque ''tcp tunnel connection not allowed''
        else if status = 3 then Sentinel ErrNetworkUnreachable
        else if status = 4 then Sentinel ErrHostUnreachable
        else if status = 5 then Sentinel ErrConnectionRefused
        else if status = 6 then Opaque ''tcp tunnel TTL expired''
        else if status = 7 then Opaque ''tcp tunnel command not supported''
        else if status = 8 then Opaque ''tcp tunnel address type not supported''
        else Opaque (''tcp tunnel connect failed with status 0x'' @ HEX02 status)))"

text \<open>The loop that waits for the answer to the request, and the connect status after it. The result is the error, if any,
  and what is left to read.\<close>

function wait_response :: "bytes \<Rightarrow> bytes result" where
  "wait_response r =
     (case ReadFull 2 r of
        Inl e \<Rightarrow> Inl (errorf ''failed to read tcp tunnel response'' e)
      | Inr (header, r1) \<Rightarrow>
          if header ! 0 = 0x05 \<and> header ! 1 = 0x81 then wait_response r1
          else if header ! 0 \<noteq> 0x53 \<or> header ! 1 \<noteq> 0x00
          then Inl (Opaque (''unexpected tcp tunnel response: '' @ HEX02 (header ! 0) @ '' '' @ HEX02 (header ! 1)))
          else (case readTCPProtocolResponse r1 of
                  Inl e \<Rightarrow> Inl (errorf ''failed to read tcp tunnel protocol response'' e)
                | Inr (response, r2) \<Rightarrow> (case validateTCPProtocolResponse response of Some e \<Rightarrow> Inl e | None \<Rightarrow> Inr r2)))"
  by pat_completeness auto

termination
  by (relation "measure length") (auto simp: ReadFull_Inr)

declare wait_response.simps [simp del]

definition waitForTCPConnect :: "bytes \<Rightarrow> bytes result" where
  "waitForTCPConnect r =
     rbind (wait_response r) (\<lambda>r1.
       case readTCPConnectStatus r1 of
         Inl e \<Rightarrow> Inl (errorf ''failed to read tcp tunnel connect status'' e)
       | Inr (status, r2) \<Rightarrow> (case connect_error status of Some e \<Rightarrow> Inl e | None \<Rightarrow> Inr r2))"

section \<open>The data stream\<close>

text \<open>\<open>tt_health\<close> is what the connection reported to the client's health.\<close>

record tcpTunnelConn =
  tt_reader :: bytes
  tt_readBuf :: bytes
  tt_closed :: bool
  tt_health :: "gerror list"

definition report :: "gerror \<Rightarrow> gerror list" where
  "report err = (if errors_Is err ErrSessionInvalid then [err] else [])"

function tcp_read_loop :: "nat \<Rightarrow> tcpTunnelConn \<Rightarrow> bytes result \<times> tcpTunnelConn" where
  "tcp_read_loop n c =
     (case ReadFull 2 (tt_reader c) of
        Inl e \<Rightarrow> (Inl e, c\<lparr>tt_reader := []\<rparr>)
      | Inr (header, r) \<Rightarrow>
          if header ! 0 = 0x01 \<and> header ! 1 = 0x00 then
            (case read_counted r of
               Inl e \<Rightarrow> (Inl e, c\<lparr>tt_reader := []\<rparr>)
             | Inr (data, r1) \<Rightarrow>
                 (Inr (take n data), c\<lparr>tt_reader := r1, tt_readBuf := (if n < length data then drop n data else tt_readBuf c)\<rparr>))
          else if header ! 0 = 0x01 \<and> header ! 1 = 0x01 then
            (case ReadFull 2 r of
               Inl e \<Rightarrow> (Inl e, c\<lparr>tt_reader := []\<rparr>)
             | Inr (header2, r1) \<Rightarrow>
                 if header2 ! 0 = 0x30 \<and> header2 ! 1 = 0x30
                 then (Inl (Opaque ''connection closed by server''), c\<lparr>tt_reader := r1, tt_closed := True\<rparr>)
                 else tcp_read_loop n (c\<lparr>tt_reader := r1\<rparr>))
          else if header ! 0 = 0x53 \<and> header ! 1 = 0x00 then
            (case read_counted r of
               Inl e \<Rightarrow> (Inl e, c\<lparr>tt_reader := []\<rparr>)
             | Inr (data, r1) \<Rightarrow>
                 (case validateTCPProtocolResponse (text_of data) of
                    Some err \<Rightarrow> (Inl err, c\<lparr>tt_reader := r1, tt_closed := True, tt_health := tt_health c @ report err\<rparr>)
                  | None \<Rightarrow> tcp_read_loop n (c\<lparr>tt_reader := r1\<rparr>)))
          else tcp_read_loop n (c\<lparr>tt_reader := r\<rparr>))"
  by pat_completeness auto

termination
  by (relation "measure (\<lambda>(n, c). length (tt_reader c))") (auto simp: ReadFull_Inr read_counted_Inr)

declare tcp_read_loop.simps [simp del]

definition tcp_Read :: "nat \<Rightarrow> tcpTunnelConn \<Rightarrow> bytes result \<times> tcpTunnelConn" where
  "tcp_Read n c =
     (if tt_readBuf c \<noteq> [] then (Inr (take n (tt_readBuf c)), c\<lparr>tt_readBuf := drop n (tt_readBuf c)\<rparr>)
      else tcp_read_loop n c)"

text \<open>What \<^verbatim>\<open>Write\<close> and \<^verbatim>\<open>Close\<close> hand to the TLS connection.\<close>

definition tcp_Write :: "bytes \<Rightarrow> bytes result" where
  "tcp_Write b = (if length b > 0xFFFF then Inl (Opaque ''data too large'') else Inr ([0x01, 0x00] @ PutUint16 (length b) @ b))"

definition tcp_Close :: "tcpTunnelConn \<Rightarrow> bytes \<times> tcpTunnelConn" where
  "tcp_Close c = ([0x01, 0x01, 0x00, 0x00], c\<lparr>tt_closed := True\<rparr>)"

section \<open>Reading what was written\<close>

text \<open>What a node sends after the handshake: data, accepted protocol responses, notices that do not close the connection,
  and headers the reader does not know.\<close>

datatype segment = Payload bytes | Accepted bytes | Notice u8 u8 | Unknown u8 u8

fun wire :: "segment \<Rightarrow> bytes" where
  "wire (Payload b) = [0x01, 0x00] @ PutUint16 (length b) @ b"
| "wire (Accepted m) = [0x53, 0x00] @ PutUint16 (length m) @ m"
| "wire (Notice a b) = [0x01, 0x01, a, b]"
| "wire (Unknown a b) = [a, b]"

fun seg_ok :: "segment \<Rightarrow> bool" where
  "seg_ok (Payload b) = (length b \<le> 0xFFFF)"
| "seg_ok (Accepted m) = (length m \<le> 0xFFFF \<and> Contains (text_of m) ''OK'')"
| "seg_ok (Notice a b) = (\<not> (a = 0x30 \<and> b = 0x30))"
| "seg_ok (Unknown a b) = ((a, b) \<noteq> (0x01, 0x00) \<and> (a, b) \<noteq> (0x01, 0x01) \<and> (a, b) \<noteq> (0x53, 0x00))"

fun carried :: "segment \<Rightarrow> bytes" where
  "carried (Payload b) = b" | "carried _ = []"

definition wires :: "segment list \<Rightarrow> bytes" where
  "wires segs = concat (map wire segs)"

definition data_of :: "segment list \<Rightarrow> bytes" where
  "data_of segs = concat (map carried segs)"

lemma segs_simps [simp]:
  "wires [] = []" "wires (s # ss) = wire s @ wires ss" "data_of [] = []" "data_of (s # ss) = carried s @ data_of ss"
  by (simp_all add: wires_def data_of_def)

lemma read_counted_Put [simp]: "length b \<le> 0xFFFF \<Longrightarrow> read_counted (PutUint16 (length b) @ b @ r) = Inr (b, r)"
  by (simp add: read_counted_Inr PutUint16_def)

lemma accepted_None: "Contains m ''OK'' \<Longrightarrow> validateTCPProtocolResponse m = None"
  by (simp add: validateTCPProtocolResponse_def)

lemma read_loop_payload:
  assumes "tt_reader c = wire (Payload b) @ r" "length b \<le> 0xFFFF" "tt_readBuf c = []"
  shows "tcp_read_loop n c = (Inr (take n b), c\<lparr>tt_reader := r, tt_readBuf := drop n b\<rparr>)"
  by (subst tcp_read_loop.simps) (use assms in simp)

lemma read_loop_skip:
  assumes "tt_reader c = wire s @ r" "seg_ok s" "\<forall>b. s \<noteq> Payload b"
  shows "tcp_read_loop n c = tcp_read_loop n (c\<lparr>tt_reader := r\<rparr>)"
  by (subst tcp_read_loop.simps) (use assms in \<open>cases s; force simp: accepted_None\<close>)

lemma read_loop_end: "tt_reader c = [] \<Longrightarrow> tcp_read_loop n c = (Inl (Sentinel IoEOF), c)"
  by (subst tcp_read_loop.simps) (simp add: ReadFull_def)

text \<open>One call of \<^verbatim>\<open>Read\<close>: it returns the next bytes of the stream, or the end of it.\<close>

definition backlog :: "bytes \<Rightarrow> segment list \<Rightarrow> nat" where
  "backlog buf segs = length buf + (\<Sum>s \<leftarrow> segs. length (carried s) + 1)"

lemma read_loop_stream:
  assumes "list_all seg_ok segs" "tt_reader c = wires segs" "tt_readBuf c = []"
  shows "(\<exists>out segs' d. tcp_read_loop n c = (Inr out, d) \<and> list_all seg_ok segs' \<and> tt_reader d = wires segs'
            \<and> out @ tt_readBuf d @ data_of segs' = data_of segs \<and> backlog (tt_readBuf d) segs' < backlog [] segs)
       \<or> fst (tcp_read_loop n c) = Inl (Sentinel IoEOF) \<and> data_of segs = []"
  using assms
proof (induction segs arbitrary: c)
  case Nil
  then show ?case by (simp add: read_loop_end)
next
  case (Cons s ss)
  show ?case
  proof (cases "\<exists>b. s = Payload b")
    case True
    then obtain b where s: "s = Payload b" by blast
    then have "tcp_read_loop n c = (Inr (take n b), c\<lparr>tt_reader := wires ss, tt_readBuf := drop n b\<rparr>)"
      using read_loop_payload [of c b "wires ss" n] Cons.prems by simp
    then show ?thesis using s Cons.prems by (auto simp: backlog_def intro!: exI [of _ ss])
  next
    case False
    then have e: "tcp_read_loop n c = tcp_read_loop n (c\<lparr>tt_reader := wires ss\<rparr>)" "carried s = []"
      using read_loop_skip [of c s "wires ss" n] Cons.prems by (simp, cases s, auto)
    have "list_all seg_ok ss" using Cons.prems(1) by simp
    from Cons.IH [OF this, of "c\<lparr>tt_reader := wires ss\<rparr>"] Cons.prems(3) e show ?thesis
      by (fastforce simp: backlog_def)
  qed
qed

lemma tcp_Read_stream:
  assumes "list_all seg_ok segs" "tt_reader c = wires segs" "0 < n"
  shows "(\<exists>out segs' d. tcp_Read n c = (Inr out, d) \<and> list_all seg_ok segs' \<and> tt_reader d = wires segs'
            \<and> out @ tt_readBuf d @ data_of segs' = tt_readBuf c @ data_of segs
            \<and> backlog (tt_readBuf d) segs' < backlog (tt_readBuf c) segs)
       \<or> fst (tcp_Read n c) = Inl (Sentinel IoEOF) \<and> tt_readBuf c @ data_of segs = []"
proof (cases "tt_readBuf c = []")
  case True
  then show ?thesis using read_loop_stream [OF assms(1,2) True, of n] by (simp add: tcp_Read_def)
next
  case False
  then have "tcp_Read n c = (Inr (take n (tt_readBuf c)), c\<lparr>tt_readBuf := drop n (tt_readBuf c)\<rparr>)" by (simp add: tcp_Read_def)
  moreover have "backlog (drop n (tt_readBuf c)) segs < backlog (tt_readBuf c) segs" using False assms(3) by (cases "tt_readBuf c") (auto simp: backlog_def)
  ultimately show ?thesis using assms(1,2) by (auto intro!: exI [of _ segs])
qed

text \<open>Reading with a sequence of buffers until an error.\<close>

fun drain :: "nat list \<Rightarrow> tcpTunnelConn \<Rightarrow> bytes \<times> gerror option" where
  "drain [] c = ([], None)"
| "drain (n # ns) c =
     (case tcp_Read n c of
        (Inl e, _) \<Rightarrow> ([], Some e)
      | (Inr out, d) \<Rightarrow> (case drain ns d of (outs, e) \<Rightarrow> (out @ outs, e)))"

lemma drain_stream:
  assumes "list_all seg_ok segs" "tt_reader c = wires segs" "list_all (\<lambda>n. 0 < n) ns"
  shows "(\<exists>rest. fst (drain ns c) @ rest = tt_readBuf c @ data_of segs \<and> (snd (drain ns c) \<noteq> None \<longrightarrow> rest = [] \<and> snd (drain ns c) = Some (Sentinel IoEOF)))
    \<and> (backlog (tt_readBuf c) segs < length ns \<longrightarrow> snd (drain ns c) \<noteq> None)"
  using assms
proof (induction ns arbitrary: c segs)
  case (Cons n ns)
  have n: "0 < n" using Cons.prems(3) by simp
  from tcp_Read_stream [OF Cons.prems(1,2) n] show ?case
  proof (elim disjE exE conjE)
    fix out segs' d
    assume r: "tcp_Read n c = (Inr out, d)" "list_all seg_ok segs'" "tt_reader d = wires segs'"
      "out @ tt_readBuf d @ data_of segs' = tt_readBuf c @ data_of segs" "backlog (tt_readBuf d) segs' < backlog (tt_readBuf c) segs"
    from Cons.IH [OF r(2,3)] Cons.prems(3) obtain rest where
      "fst (drain ns d) @ rest = tt_readBuf d @ data_of segs'" "snd (drain ns d) \<noteq> None \<longrightarrow> rest = [] \<and> snd (drain ns d) = Some (Sentinel IoEOF)"
      "backlog (tt_readBuf d) segs' < length ns \<longrightarrow> snd (drain ns d) \<noteq> None" by auto
    with r(1,4,5) show ?thesis by (auto simp: case_prod_unfold intro!: exI [of _ rest])
  next
    assume "fst (tcp_Read n c) = Inl (Sentinel IoEOF)" "tt_readBuf c @ data_of segs = []"
    then show ?thesis by (auto split: prod.split sum.split)
  qed
qed simp

section \<open>What the handshake accepts\<close>

definition bound_address :: "u8 \<Rightarrow> bytes \<Rightarrow> bool" where
  "bound_address t a \<longleftrightarrow> t = 0x01 \<and> length a = 4 \<or> t = 0x04 \<and> length a = 16 \<or> t = 0x03 \<and> a \<noteq> [] \<and> length (tl a) = unat (hd a)"

lemma bound_address_ReadFull:
  "(if t = 0x01 then Inr (4, r) else if t = 0x03 then rbind (ReadFull 1 r) (\<lambda>(len, r2). Inr (unat (len ! 0), r2))
    else if t = 0x04 then Inr (16, r) else Inl e) = Inr (n, r2)
   \<Longrightarrow> \<exists>h. r = h @ r2 \<and> (\<forall>a. length a = n \<longrightarrow> bound_address t (h @ a))"
  by (auto simp: rbind_Inr ReadFull_Inr bound_address_def length_Suc_conv split: if_splits)

lemma connect_status_ok:
  "readTCPConnectStatus r = Inr (0, rest) \<longleftrightarrow>
     (\<exists>x t a p. r = [0x05, 0x00, x, t] @ a @ p @ rest \<and> bound_address t a \<and> length p = 2)" (is "?L \<longleftrightarrow> ?R")
proof
  assume ?L
  then obtain header r1 where h: "ReadFull 4 r = Inr (header, r1)" "header ! 0 = 0x05" "header ! 1 = 0x00" and
    b: "rbind (if header ! 3 = 0x01 then Inr (4, r1) else if header ! 3 = 0x03 then rbind (ReadFull 1 r1) (\<lambda>(len, r2). Inr (unat (len ! 0), r2))
          else if header ! 3 = 0x04 then Inr (16, r1)
          else Inl (Opaque (''unexpected tcp tunnel address type: 0x'' @ HEX02 (header ! 3)))) (\<lambda>(addressLength, r2).
            rbind (ReadFull (addressLength + 2) r2) (\<lambda>(_, r3). Inr (header ! 1, r3))) = Inr (0, rest)"
    by (auto simp: readTCPConnectStatus_def rbind_Inr split: if_splits)
  from h(1) obtain x t where hd: "header = [0x05, 0x00, x, t]"
    using h(2,3) by (auto simp: ReadFull_Inr numeral_eq_Suc length_Suc_conv)
  from b obtain n r2 y where n: "ReadFull (n + 2) r2 = Inr (y, rest)" and
    s: "(if header ! 3 = 0x01 then Inr (4, r1) else if header ! 3 = 0x03 then rbind (ReadFull 1 r1) (\<lambda>(len, r2). Inr (unat (len ! 0), r2))
          else if header ! 3 = 0x04 then Inr (16, r1)
          else Inl (Opaque (''unexpected tcp tunnel address type: 0x'' @ HEX02 (header ! 3)))) = Inr (n, r2)"
    by (auto simp: rbind_Inr)
  from bound_address_ReadFull [OF s] obtain k where k: "r1 = k @ r2" "\<And>a. length a = n \<Longrightarrow> bound_address t (k @ a)" by (auto simp: hd)
  have "r = [0x05, 0x00, x, t] @ (k @ take n y) @ drop n y @ rest" "length (drop n y) = 2" "length (take n y) = n"
    using h(1) k(1) n by (auto simp: ReadFull_Inr hd)
  then show ?R using k(2) by metis
next
  assume ?R
  then obtain x t a p where r: "r = [0x05, 0x00, x, t] @ a @ p @ rest" "bound_address t a" "length p = 2" by blast
  have h: "ReadFull 4 r = Inr ([0x05, 0x00, x, t], a @ p @ rest)" using r(1) by (simp add: ReadFull_Inr)
  have q: "ReadFull (length q + 2) (q @ p @ rest) = Inr (q @ p, rest)" for q using r(3) by (simp add: ReadFull_Inr)
  have one: "ReadFull 1 (n # s) = Inr ([n], s)" for n s by (simp add: ReadFull_Inr)
  from r(2) consider "t = 0x01" "length a = 4" | "t = 0x04" "length a = 16" | n b where "t = 0x03" "a = n # b" "length b = unat n"
    by (cases a) (auto simp: bound_address_def)
  then show ?L
    unfolding readTCPConnectStatus_def h using q [of a] q [of "tl a"] one by cases (simp_all del: ReadFull_append)
qed

lemma PutUint16_be16: "PutUint16 (be16 a b) = [a, b]"
proof -
  have "be16 a b div 256 = unat a" using unsigned_less [of b, where ?'a = nat] by (simp add: be16_def)
  moreover have "(word_of_nat (be16 a b) :: u8) = b"
    using unsigned_less [of b, where ?'a = nat] by (simp add: word_unat_eq_iff unat_u8) (simp add: be16_def)
  ultimately show ?thesis by (simp add: PutUint16_def)
qed

lemma wait_response_ok:
  "wait_response r = Inr rest \<longleftrightarrow> (\<exists>k m. r = concat (replicate k [0x05, 0x81]) @ wire (Accepted m) @ rest \<and> seg_ok (Accepted m))"
  (is "?L r \<longleftrightarrow> ?R r")
proof
  show "?L r \<Longrightarrow> ?R r"
  proof (induction r rule: wait_response.induct)
    case (1 r)
    from "1.prems" obtain a b r1 where r1: "r = a # b # r1"
      by (auto simp: wait_response.simps [of r] ReadFull_Inr length_Suc_conv numeral_2_eq_2 split: sum.splits)
    show ?case
    proof (cases "a = 0x05 \<and> b = 0x81")
      case True
      then have "?L r1" using "1.prems" r1 wait_response.simps [of r] by simp
      then obtain k m where "r1 = concat (replicate k [0x05, 0x81]) @ wire (Accepted m) @ rest" "seg_ok (Accepted m)"
        using "1.IH" [of "([a, b], r1)" "[a, b]" r1] True r1 by auto
      then show ?thesis using r1 True by (auto intro!: exI [of _ "Suc k"] exI [of _ m])
    next
      case False
      note P = "1.prems" [unfolded r1, unfolded wait_response.simps [of "a # b # r1"]]
      have ab: "a = 0x53" "b = 0x00" using P False by (auto split: if_splits)
      then obtain m where m: "read_counted r1 = Inr (m, rest)" "validateTCPProtocolResponse (text_of m) = None"
        using P by (auto simp: readTCPProtocolResponse_def rbind_def split: sum.splits option.splits)
      then obtain x y where xy: "r1 = x # y # m @ rest" "length m = be16 x y" by (auto simp: read_counted_Inr)
      then have "length m \<le> 0xFFFF" "[x, y] = PutUint16 (length m)"
        using be16_lt [of x y] PutUint16_be16 [of x y] by simp_all
      moreover have "Contains (text_of m) ''OK''" using m(2) by (auto simp: validateTCPProtocolResponse_def split: if_splits)
      ultimately show ?thesis using r1 ab xy by (auto intro!: exI [of _ 0] exI [of _ m])
    qed
  qed
next
  assume "?R r"
  then obtain k m where "r = concat (replicate k [0x05, 0x81]) @ wire (Accepted m) @ rest" "seg_ok (Accepted m)" by blast
  then show "?L r"
  proof (induction k arbitrary: r)
    case 0
    then show ?case by (subst wait_response.simps) (simp add: readTCPProtocolResponse_def accepted_None)
  next
    case (Suc k)
    then show ?case by (subst wait_response.simps) simp
  qed
qed

text \<open>The answer of a node that accepts a request: greetings, an accepted response, and the status with the bound address.\<close>

definition handshake :: "bytes \<Rightarrow> bool" where
  "handshake h \<longleftrightarrow> (\<exists>k m x t a p. h = concat (replicate k [0x05, 0x81]) @ wire (Accepted m) @ [0x05, 0x00, x, t] @ a @ p
     \<and> seg_ok (Accepted m) \<and> bound_address t a \<and> length p = 2)"

lemma handshake_exact: "waitForTCPConnect r = Inr rest \<longleftrightarrow> (\<exists>h. handshake h \<and> r = h @ rest)"
proof -
  have "(case readTCPConnectStatus r1 of Inl e \<Rightarrow> Inl (errorf ''failed to read tcp tunnel connect status'' e)
      | Inr (status, r2) \<Rightarrow> (case connect_error status of Some e \<Rightarrow> Inl e | None \<Rightarrow> Inr r2)) = Inr rest
      \<longleftrightarrow> readTCPConnectStatus r1 = Inr (0, rest)" for r1
    by (cases "readTCPConnectStatus r1") (auto simp: connect_error_def split: if_split_asm)
  then have "waitForTCPConnect r = Inr rest \<longleftrightarrow> (\<exists>r1. wait_response r = Inr r1 \<and> readTCPConnectStatus r1 = Inr (0, rest))"
    by (simp add: waitForTCPConnect_def rbind_Inr)
  also have "\<dots> \<longleftrightarrow> (\<exists>h. handshake h \<and> r = h @ rest)"
    unfolding wait_response_ok connect_status_ok handshake_def by (auto simp del: wire.simps seg_ok.simps) (metis append.assoc append_Cons append_Nil)+
  finally show ?thesis .
qed

end
