(* ===== verification/AtrustClient.thy ===== *)
theory AtrustClient
  imports TcpTunnel L3Tunnel SessionLife "HOL-Library.Signed_Division"
begin

text \<open>
  The client of an aTrust gateway, \<^verbatim>\<open>src/client/atrust\<close>: its state, health and closing (\<^verbatim>\<open>client.go\<close>), the opening of TCP
  tunnels (\<^verbatim>\<open>tcptunnel.go\<close>), the choice of nodes (\<^verbatim>\<open>node.go\<close>, with the pings of \<^verbatim>\<open>src/internal/ping\<close>), the
  client's address (\<^verbatim>\<open>ip.go\<close>), the connection of the network stack (\<^verbatim>\<open>l3conn.go\<close>) and the set-up (\<^verbatim>\<open>setup.go\<close>).

  The dialer, the clock, random bytes, hash functions and the sign-in session are arguments.
\<close>

section \<open>State, health and closing\<close>

record Client =
  ac_Username :: string
  ac_SID :: string
  ac_DeviceID :: string
  ac_ConnectionID :: string
  ac_SignKey :: string
  ac_ResumeStateReused :: bool
  ac_serverAddress :: string
  ac_ipResources :: "IPResource list option"
  ac_domainResources :: "(string \<rightharpoonup> DomainResource) option"
  ac_dnsResource :: "(string \<rightharpoonup> ip) option"
  ac_dnsServer :: string
  ac_MajorNodeGroup :: string
  ac_NodeGroups :: "string \<rightharpoonup> string list"
  ac_BestNodes :: "string \<rightharpoonup> string"
  ac_ip :: ip
  ac_l3Tunnel :: "L3Tunnel option"
  ac_cancelled :: bool
  ac_closeOnce :: bool
  ac_healthDone :: bool
  ac_healthErr :: "gerror option"
  ac_skipTCPTunnelWait :: bool
  ac_hasAuthHandler :: bool

definition NewClientContext :: "bool \<Rightarrow> string \<Rightarrow> string \<Rightarrow> string \<Rightarrow> string \<Rightarrow> Client" where
  "NewClientContext cancelled username sid deviceID signKey =
     \<lparr> ac_Username = username, ac_SID = sid, ac_DeviceID = deviceID, ac_ConnectionID = [], ac_SignKey = signKey,
       ac_ResumeStateReused = False, ac_serverAddress = [], ac_ipResources = None, ac_domainResources = None, ac_dnsResource = None,
       ac_dnsServer = [], ac_MajorNodeGroup = [], ac_NodeGroups = Map.empty, ac_BestNodes = Map.empty, ac_ip = [], ac_l3Tunnel = None,
       ac_cancelled = cancelled, ac_closeOnce = False, ac_healthDone = False, ac_healthErr = None,
       ac_skipTCPTunnelWait = False, ac_hasAuthHandler = False \<rparr>"

definition SetSkipTCPTunnelWait :: "bool \<Rightarrow> Client \<Rightarrow> Client" where
  "SetSkipTCPTunnelWait skip c = c\<lparr>ac_skipTCPTunnelWait := skip\<rparr>"

definition reportHealthError :: "gerror option \<Rightarrow> Client \<Rightarrow> Client" where
  "reportHealthError err c =
     (if err = None then c
      else if ac_healthDone c then c else c\<lparr>ac_healthErr := err, ac_healthDone := True\<rparr>)"

text \<open>\<^verbatim>\<open>Close\<close> runs once. It cancels the client's context first, which is the parent of the tunnel's: the tunnel ends with that cause.\<close>

definition client_Close :: "Client \<Rightarrow> Client" where
  "client_Close c =
     (if ac_closeOnce c then c
      else c\<lparr>ac_closeOnce := True, ac_cancelled := True, ac_l3Tunnel := map_option (terminate (Some (Sentinel ContextCanceled))) (ac_l3Tunnel c)\<rparr>)"

definition client_IP :: "Client \<Rightarrow> ip result" where
  "client_IP c = (if ac_ip c = [] then Inl (Opaque ''IP not available'') else Inr (case To4 (ac_ip c) of None \<Rightarrow> [] | Some p \<Rightarrow> p))"

definition client_IPResources :: "Client \<Rightarrow> IPResource list result" where
  "client_IPResources c = (case ac_ipResources c of None \<Rightarrow> Inl (Opaque ''IP resources not available'') | Some r \<Rightarrow> Inr r)"

definition client_DomainResources :: "Client \<Rightarrow> (string \<rightharpoonup> DomainResource) result" where
  "client_DomainResources c = (case ac_domainResources c of None \<Rightarrow> Inl (Opaque ''domain resources not available'') | Some r \<Rightarrow> Inr r)"

definition client_DNSResource :: "Client \<Rightarrow> (string \<rightharpoonup> ip) result" where
  "client_DNSResource c = (case ac_dnsResource c of None \<Rightarrow> Inl (Opaque ''DNS resource not available'') | Some r \<Rightarrow> Inr r)"

definition client_DNSServer :: "Client \<Rightarrow> string result" where
  "client_DNSServer c = (if ac_dnsServer c = [] then Inl (Opaque ''DNS server not available'') else Inr (ac_dnsServer c))"

text \<open>\<open>ord\<close> is the order in which the node groups are visited.\<close>

definition RouteExcludedIPs :: "((string \<rightharpoonup> string list) \<Rightarrow> string list) \<Rightarrow> Client \<Rightarrow> ip list" where
  "RouteExcludedIPs ord c =
     List.map_filter (\<lambda>address. case SplitHostPort address of
         None \<Rightarrow> None
       | Some (host, _) \<Rightarrow> Option.bind (ParseIP host) To4)
       (concat (map (\<lambda>g. the (ac_NodeGroups c g)) (ord (ac_NodeGroups c))))"

section \<open>Opening a TCP tunnel\<close>

text \<open>The destination; the context may carry the resource of a domain and the host it was resolved from.\<close>

record TCPAddr =
  ta_IP :: ip
  ta_Port :: int

definition tcp_matches :: "ip \<Rightarrow> int \<Rightarrow> IPResource \<Rightarrow> bool" where
  "tcp_matches p port r = (case (To4 (ipr_IPMin r), To4 (ipr_IPMax r)) of
      (Some lo, Some hi) \<Rightarrow> Compare p lo \<ge> 0 \<and> Compare p hi \<le> 0 \<and> ipr_PortMin r \<le> port \<and> port \<le> ipr_PortMax r
        \<and> (ipr_Protocol r = ''tcp'' \<or> ipr_Protocol r = ''all'')
    | _ \<Rightarrow> False)"

definition tcpResourceFor :: "DomainResource option \<Rightarrow> string option \<Rightarrow> IPResource list \<Rightarrow> TCPAddr \<Rightarrow> string \<times> string \<times> string" where
  "tcpResourceFor domainResource resolveHost ipResources addr =
     (case domainResource of
        Some resource \<Rightarrow> (dom_AppID resource, dom_NodeGroupID resource, case resolveHost of Some host \<Rightarrow> host | None \<Rightarrow> [])
      | None \<Rightarrow>
          (case To4 (ta_IP addr) of
             None \<Rightarrow> ([], [], [])
           | Some p \<Rightarrow>
               foldl (\<lambda>found r. if tcp_matches p (ta_Port addr) r then (ipr_AppID r, ipr_NodeGroupID r, []) else found)
                 ([], [], []) ipResources))"

definition TCPAddr_String :: "TCPAddr \<Rightarrow> string" where
  "TCPAddr_String addr = JoinHostPort (if ta_IP addr = [] then [] else IP_String (ta_IP addr)) (show_int (ta_Port addr))"

fun hex_DecodeString :: "string \<Rightarrow> bytes option" where
  "hex_DecodeString [] = Some []"
| "hex_DecodeString [_] = None"
| "hex_DecodeString (a # b # s) =
     (case (hex_val a, hex_val b, hex_DecodeString s) of
        (Some x, Some y, Some bs) \<Rightarrow> Some (word_of_nat (16 * x + y) # bs)
      | _ \<Rightarrow> None)"

text \<open>The hash of a string, and the keyed hash, in bytes.\<close>

record hashes =
  ha_sha256 :: "string \<Rightarrow> bytes"
  ha_hmac :: "bytes \<Rightarrow> bytes \<Rightarrow> bytes"

definition dial_message :: "hashes \<Rightarrow> Client \<Rightarrow> string \<Rightarrow> string \<Rightarrow> int \<Rightarrow> string" where
  "dial_message h c appID destAddr port =
     (let procName = (if port = 22 then ''ssh'' else ''google-chrome-stable'');
          procPath = (if port = 22 then ''/usr/bin/ssh'' else ''/usr/bin/google-chrome-stable'');
          procHash = concat (map HEX02 (ha_sha256 h procPath));
          field = (\<lambda>name v. CHR 0x22 # name @ [CHR 0x22, CHR '':'', CHR 0x22] @ v @ [CHR 0x22])
      in ''{'' @ field ''sid'' (ac_SID c) @ '','' @ field ''appId'' appID @ '','' @ field ''url'' (''tcp://'' @ destAddr) @ '',''
       @ field ''deviceId'' (ac_DeviceID c) @ '','' @ field ''connectionId'' (ac_ConnectionID c) @ '','' @ field ''procHash'' procHash @ '',''
       @ field ''userName'' (ac_Username c) @ '','' @ [CHR 0x22] @ ''rcAppliedInfo'' @ [CHR 0x22] @ '':0,'' @ field ''lang'' ''en-US'' @ '',''
       @ field ''destAddr'' destAddr @ '','' @ [CHR 0x22] @ ''env'' @ [CHR 0x22] @ '':{'' @ [CHR 0x22] @ ''application'' @ [CHR 0x22] @ '':{''
       @ [CHR 0x22] @ ''runtime'' @ [CHR 0x22] @ '':{'' @ [CHR 0x22] @ ''process'' @ [CHR 0x22] @ '':{'' @ field ''name'' procName @ '',''
       @ field ''digital_signature'' ''TrustAppClosed'' @ '','' @ field ''platform'' ''Linux'' @ '','' @ field ''fingerprint'' procHash @ '',''
       @ field ''description'' ''TrustAppClosed'' @ '','' @ field ''path'' procPath @ '','' @ field ''version'' ''TrustAppClosed'' @ '',''
       @ field ''security_env'' ''normal'' @ ''},'' @ field ''process_trusted'' ''TRUSTED'' @ ''}}},'' @ field ''xRequestSig'' [] @ ''}'')"

definition sign_message :: "hashes \<Rightarrow> bytes \<Rightarrow> string \<Rightarrow> string" where
  "sign_message h signKey msg =
     take (length msg - 3) msg @ [CHR 0x22] @ calcXRequestSig (ha_hmac h) signKey (byte_string msg) @ [CHR 0x22, CHR ''}'']"

definition dial_destination :: "string \<Rightarrow> ip \<Rightarrow> int \<Rightarrow> bytes result" where
  "dial_destination domain destIP port =
     rbind (if domain = [] then Inr ([0x05, 0x01, 0x01, 0x01] @ destIP)
            else if length domain > 255 then Inl (Opaque (''domain name too long: '' @ domain))
            else Inr ([0x05, 0x01, 0x01, 0x03, word_of_nat (length domain)] @ byte_string domain)) (\<lambda>destMsg.
       Inr (destMsg @ [word_of_int (port div 256), word_of_int port]))"

definition dial_request :: "string \<Rightarrow> bytes \<Rightarrow> bytes" where
  "dial_request msg destMsg = [0x05, 0x01, 0x81, 0x53, 0x03] @ PutUint16 (length msg) @ byte_string msg @ destMsg"

text \<open>What happens around the calls of one \<^verbatim>\<open>DialTCP\<close>: the dialer's answer for a node (the bytes it will send, or an error), how
  many bytes of the request were written, the errors of the deadlines, the error of the context at the start and at
  the end of the handshake.\<close>

record dial_call =
  dl_dial :: "string \<Rightarrow> bytes result"
  dl_write :: "bytes \<Rightarrow> nat \<times> gerror option"
  dl_setDeadline :: "gerror option"
  dl_clearDeadline :: "gerror option"
  dl_ctxErr :: "gerror option"
  dl_ctxLate :: "gerror option"

text \<open>The error, what is left to read, and what the client's health is told.\<close>

definition establishTCPConnection :: "dial_call \<Rightarrow> bool \<Rightarrow> bytes \<Rightarrow> bytes \<Rightarrow> bytes result \<times> gerror list" where
  "establishTCPConnection d skipWait reader request =
     (case dl_ctxErr d of
        Some e \<Rightarrow> (Inl e, [])
      | None \<Rightarrow>
          (let (n, werr) = dl_write d request;
               (res, health) =
                 (case werr of
                    Some e \<Rightarrow> (Inl (errorf ''failed to send tcp tunnel request'' e), [])
                  | None \<Rightarrow>
                      if n \<noteq> length request then (Inl (errorf ''failed to send tcp tunnel request'' (Sentinel IoShortWrite)), [])
                      else if skipWait then (Inr reader, [])
                      else (case waitForTCPConnect reader of
                              Inr r \<Rightarrow> (Inr r, [])
                            | Inl e \<Rightarrow> (Inl e, report e)))
           in case dl_ctxLate d of Some e \<Rightarrow> (Inl e, health) | None \<Rightarrow> (res, health)))"

text \<open>The result, whether a TLS connection was opened, whether it was closed again, and the reports to the health.\<close>

record dial_outcome =
  do_result :: "tcpTunnelConn result"
  do_opened :: bool
  do_closed :: bool
  do_health :: "gerror list"

definition dial_refused :: "gerror \<Rightarrow> dial_outcome" where
  "dial_refused e = \<lparr> do_result = Inl e, do_opened = False, do_closed = False, do_health = [] \<rparr>"

definition dial_closed :: "gerror list \<Rightarrow> gerror \<Rightarrow> dial_outcome" where
  "dial_closed health e = \<lparr> do_result = Inl e, do_opened = True, do_closed = True, do_health = health \<rparr>"

definition node_for :: "(string \<rightharpoonup> string) \<Rightarrow> string \<Rightarrow> string \<Rightarrow> string" where
  "node_for bestNodes major grp =
     (let nodeAddr = (case bestNodes grp of None \<Rightarrow> [] | Some a \<Rightarrow> a) in
      if nodeAddr = [] then (case bestNodes major of None \<Rightarrow> [] | Some a \<Rightarrow> a) else nodeAddr)"

definition dial_open :: "dial_call \<Rightarrow> bool \<Rightarrow> bytes \<Rightarrow> bytes \<Rightarrow> dial_outcome" where
  "dial_open d skipWait reader request =
     (case dl_setDeadline d of
        Some e \<Rightarrow> dial_closed [] (errorf ''failed to set tcp tunnel deadline'' e)
      | None \<Rightarrow>
          (case establishTCPConnection d skipWait reader request of
             (Inl e, health) \<Rightarrow> dial_closed health e
           | (Inr r, health) \<Rightarrow>
               (case dl_clearDeadline d of
                  Some e \<Rightarrow> dial_closed health (errorf ''failed to clear tcp tunnel deadline'' e)
                | None \<Rightarrow>
                    \<lparr> do_result = Inr \<lparr> tt_reader = r, tt_readBuf = [], tt_closed = False, tt_health = [] \<rparr>,
                      do_opened = True, do_closed = False, do_health = health \<rparr>)))"

definition DialTCP :: "hashes \<Rightarrow> dial_call \<Rightarrow> DomainResource option \<Rightarrow> string option \<Rightarrow> TCPAddr \<Rightarrow> Client \<Rightarrow> dial_outcome" where
  "DialTCP h d domainResource resolveHost addr c =
     (let (appID, nodeGroupID, domain) =
            tcpResourceFor domainResource resolveHost (case ac_ipResources c of None \<Rightarrow> [] | Some r \<Rightarrow> r) addr;
          nodeAddr = node_for (ac_BestNodes c) (ac_MajorNodeGroup c) nodeGroupID
      in if appID = [] then dial_refused (Opaque (''no matching aTrust TCP resource with appId for '' @ TCPAddr_String addr))
         else if nodeAddr = [] then dial_refused (Opaque (''no available aTrust node for group '' @ quote nodeGroupID))
         else case dl_dial d nodeAddr of
           Inl e \<Rightarrow> dial_refused (errorf ''failed to connect to aTrust server'' e)
         | Inr reader \<Rightarrow>
             (let destAddr = (if domain \<noteq> [] then domain @ '':'' @ show_int (ta_Port addr) else TCPAddr_String addr) in
              case To4 (ta_IP addr) of
                None \<Rightarrow> dial_closed [] (Opaque ''invalid IPv4 address'')
              | Some destIP \<Rightarrow>
                  (case hex_DecodeString (ac_SignKey c) of
                     None \<Rightarrow> dial_closed [] (Opaque ''invalid sign key'')
                   | Some signKey \<Rightarrow>
                       (case dial_destination domain destIP (ta_Port addr) of
                          Inl e \<Rightarrow> dial_closed [] e
                        | Inr destMsg \<Rightarrow>
                            dial_open d (ac_skipTCPTunnelWait c) reader
                              (dial_request (sign_message h signKey (dial_message h c appID destAddr (ta_Port addr))) destMsg)))))"

subsection \<open>What an opened tunnel is\<close>

lemma dial_open_result:
  assumes "do_result (dial_open d skip reader request) = Inr conn"
  shows "tt_readBuf conn = [] \<and> (\<not> skip \<longrightarrow> waitForTCPConnect reader = Inr (tt_reader conn)) \<and> (skip \<longrightarrow> tt_reader conn = reader)"
  using assms
  by (auto simp: dial_open_def dial_closed_def establishTCPConnection_def Let_def split: option.splits sum.splits prod.splits if_splits)

lemma dial_outcomes:
  "do_opened (dial_refused e) = False" "do_opened (dial_closed hs e)" "do_closed (dial_closed hs e)"
  "do_result (dial_refused e) = Inl e" "do_result (dial_closed hs e) = Inl e" "\<not> do_closed (dial_refused e)"
  by (simp_all add: dial_refused_def dial_closed_def)

lemma dial_open_closes: "do_opened (dial_open d skip reader request) \<and> (do_closed (dial_open d skip reader request) \<longleftrightarrow> isl (do_result (dial_open d skip reader request)))"
  by (auto simp: dial_open_def dial_outcomes split: option.splits sum.splits prod.splits)

lemma DialTCP_cases:
  obtains (refused) e where "DialTCP h d dr rh addr c = dial_refused e"
    | (closed) hs e where "DialTCP h d dr rh addr c = dial_closed hs e"
    | (opened) app grp domain reader request where
        "tcpResourceFor dr rh (case ac_ipResources c of None \<Rightarrow> [] | Some r \<Rightarrow> r) addr = (app, grp, domain)" "app \<noteq> []"
        "dl_dial d (node_for (ac_BestNodes c) (ac_MajorNodeGroup c) grp) = Inr reader" "node_for (ac_BestNodes c) (ac_MajorNodeGroup c) grp \<noteq> []"
        "DialTCP h d dr rh addr c = dial_open d (ac_skipTCPTunnelWait c) reader request"
proof -
  obtain app grp domain where a: "tcpResourceFor dr rh (case ac_ipResources c of None \<Rightarrow> [] | Some r \<Rightarrow> r) addr = (app, grp, domain)"
    by (metis prod_cases3)
  have "(\<exists>e. DialTCP h d dr rh addr c = dial_refused e) \<or> (\<exists>hs e. DialTCP h d dr rh addr c = dial_closed hs e)
     \<or> (app \<noteq> [] \<and> node_for (ac_BestNodes c) (ac_MajorNodeGroup c) grp \<noteq> [] \<and> (\<exists>reader request.
          dl_dial d (node_for (ac_BestNodes c) (ac_MajorNodeGroup c) grp) = Inr reader
          \<and> DialTCP h d dr rh addr c = dial_open d (ac_skipTCPTunnelWait c) reader request))"
    by (auto simp: DialTCP_def a Let_def split: sum.split option.split)
  then show thesis using refused closed opened [OF a] by metis
qed

lemma foldl_last:
  "foldl (\<lambda>found r. if P r then f r else found) a xs = (case filter P xs of [] \<Rightarrow> a | ys \<Rightarrow> f (last ys))"
proof (induction xs rule: rev_induct)
  case (snoc x xs)
  then show ?case by (cases "filter P xs") auto
qed simp

lemma tcpResourceFor_last:
  "tcpResourceFor None rh rs addr =
     (case To4 (ta_IP addr) of None \<Rightarrow> ([], [], [])
      | Some p \<Rightarrow> (case filter (tcp_matches p (ta_Port addr)) rs of [] \<Rightarrow> ([], [], [])
          | ms \<Rightarrow> (ipr_AppID (last ms), ipr_NodeGroupID (last ms), [])))"
  by (simp add: tcpResourceFor_def foldl_last split: option.split)

text \<open>C8. A tunnel that was dialled and whose handshake was waited for: the node is the best of the resource's group (or of the major group), it sent a complete handshake, and
  what follows it is what the reads deliver. When the node sends frames (data, repeated acceptances, notices and headers to be ignored) and closes, the reads with any sizes of
  buffers return the data of the frames in order and nothing else, and after enough of them the end of the stream.\<close>

theorem tcp_tunnel_stream:
  assumes "do_result (DialTCP h d dr rh addr c) = Inr conn" "\<not> ac_skipTCPTunnelWait c"
  shows "\<exists>app grp domain hs.
       tcpResourceFor dr rh (case ac_ipResources c of None \<Rightarrow> [] | Some r \<Rightarrow> r) addr = (app, grp, domain) \<and> app \<noteq> []
     \<and> dl_dial d (node_for (ac_BestNodes c) (ac_MajorNodeGroup c) grp) = Inr (hs @ tt_reader conn) \<and> handshake hs
     \<and> (\<forall>segs ns. tt_reader conn = wires segs \<and> list_all seg_ok segs \<and> list_all (\<lambda>n. 0 < n) ns \<and> backlog [] segs < length ns
          \<longrightarrow> drain ns conn = (data_of segs, Some (Sentinel IoEOF)))"
proof (cases rule: DialTCP_cases [of h d dr rh addr c])
  case (opened app grp domain reader request)
  then have w: "waitForTCPConnect reader = Inr (tt_reader conn)" and b: "tt_readBuf conn = []"
    using dial_open_result [of d "ac_skipTCPTunnelWait c" reader request conn] assms by auto
  obtain hs where hs: "handshake hs" "reader = hs @ tt_reader conn" using w unfolding handshake_exact by blast
  have "drain ns conn = (data_of segs, Some (Sentinel IoEOF))"
    if "tt_reader conn = wires segs" "list_all seg_ok segs" "list_all (\<lambda>n. 0 < n) ns" "backlog [] segs < length ns" for segs ns
    using drain_stream [OF that(2,1,3)] that(4) b by (cases "drain ns conn") auto
  then show ?thesis using opened(1-3) hs by blast
qed (use assms(1) in \<open>simp_all add: dial_outcomes\<close>)

text \<open>C9. A dial leaves no TLS connection behind: one that was opened is either returned or closed, and none is opened unless a resource with an application covers the
  destination and a node is known. Without a domain's resource, the destination is covered by a resource whose address range, port range and
  protocol contain it, and the one used is the last such.\<close>

theorem DialTCP_safe:
  "(do_opened (DialTCP h d dr rh addr c) \<longrightarrow>
      (do_closed (DialTCP h d dr rh addr c) \<longleftrightarrow> isl (do_result (DialTCP h d dr rh addr c)))
      \<and> (\<exists>app grp domain. tcpResourceFor dr rh (case ac_ipResources c of None \<Rightarrow> [] | Some r \<Rightarrow> r) addr = (app, grp, domain) \<and> app \<noteq> []
           \<and> (\<exists>reader. dl_dial d (node_for (ac_BestNodes c) (ac_MajorNodeGroup c) grp) = Inr reader)
           \<and> (dr = None \<longrightarrow> (\<exists>p ms r. To4 (ta_IP addr) = Some p \<and> filter (tcp_matches p (ta_Port addr)) (the (ac_ipResources c)) = ms @ [r]
                \<and> app = ipr_AppID r \<and> grp = ipr_NodeGroupID r))))
   \<and> (\<not> do_opened (DialTCP h d dr rh addr c) \<longrightarrow> isl (do_result (DialTCP h d dr rh addr c)) \<and> \<not> do_closed (DialTCP h d dr rh addr c))"
proof -
  obtain app grp domain where t: "tcpResourceFor dr rh (case ac_ipResources c of None \<Rightarrow> [] | Some r \<Rightarrow> r) addr = (app, grp, domain)"
    by (metis prod_cases3)
  have reached_node: "app \<noteq> [] \<and> (\<exists>reader. dl_dial d (node_for (ac_BestNodes c) (ac_MajorNodeGroup c) grp) = Inr reader)" if "do_opened (DialTCP h d dr rh addr c)"
    using that by (auto simp: DialTCP_def t Let_def dial_outcomes split: if_splits sum.splits)
  have last: "\<exists>p ms r. To4 (ta_IP addr) = Some p \<and> filter (tcp_matches p (ta_Port addr)) (the (ac_ipResources c)) = ms @ [r]
      \<and> app = ipr_AppID r \<and> grp = ipr_NodeGroupID r" if "dr = None" "app \<noteq> []"
  proof -
    note asm = that
    obtain p where p: "To4 (ta_IP addr) = Some p" using t asm by (auto simp: tcpResourceFor_last split: option.splits)
    obtain rs where rs: "ac_ipResources c = Some rs" using t asm p by (cases "ac_ipResources c") (auto simp: tcpResourceFor_last)
    let ?ms = "filter (tcp_matches p (ta_Port addr)) rs"
    have ne: "?ms \<noteq> []" using t asm p rs by (auto simp: tcpResourceFor_last)
    then have "app = ipr_AppID (last ?ms)" "grp = ipr_NodeGroupID (last ?ms)" using t asm(1) p rs by (auto simp: tcpResourceFor_last split: list.splits)
    then show ?thesis using p rs append_butlast_last_id [OF ne] by (metis option.sel)
  qed
  show ?thesis
  proof (cases rule: DialTCP_cases [of h d dr rh addr c])
    case (closed hs e)
    then show ?thesis using reached_node last t by (simp add: dial_outcomes)
  next
    case (opened app' grp' domain' reader request)
    then show ?thesis using reached_node last t dial_open_closes by simp
  qed (simp add: dial_outcomes)
qed

definition demo_tcp_resource :: "string \<Rightarrow> IPResource" where
  "demo_tcp_resource app = \<lparr> ipr_IPMin = v4_prefix @ [10, 0, 0, 0], ipr_IPMax = v4_prefix @ [10, 0, 0, 255], ipr_PortMin = 1, ipr_PortMax = 99,
     ipr_Protocol = ''tcp'', ipr_AppID = app, ipr_NodeGroupID = ''g'' \<rparr>"

definition demo_client :: Client where
  "demo_client = (NewClientContext False ''u'' ''s'' ''x'' [])\<lparr>ac_ipResources := Some [demo_tcp_resource ''a1'', demo_tcp_resource ''a2''], ac_BestNodes := [''g'' \<mapsto> ''n:1'']\<rparr>"

definition demo_greeting :: bytes where
  "demo_greeting = wire (Accepted [79, 75]) @ [0x05, 0x00, 0x00, 0x01] @ [0, 0, 0, 0] @ [0, 0]"

definition demo_dial :: dial_call where
  "demo_dial = \<lparr> dl_dial = (\<lambda>_. Inr (demo_greeting @ wires [Payload [1, 2, 3], Unknown 9 9, Payload [4]])), dl_write = (\<lambda>b. (length b, None)),
     dl_setDeadline = None, dl_clearDeadline = None, dl_ctxErr = None, dl_ctxLate = None \<rparr>"

definition demo_hashes :: hashes where
  "demo_hashes = \<lparr> ha_sha256 = (\<lambda>_. []), ha_hmac = (\<lambda>_ _. []) \<rparr>"

definition demo_address :: TCPAddr where
  "demo_address = \<lparr> ta_IP = [10, 0, 0, 7], ta_Port = 80 \<rparr>"

lemma demo_handshake: "handshake demo_greeting"
proof -
  have "seg_ok (Accepted [79, 75])" "bound_address 1 [0, 0, 0, 0]"
    by (simp_all add: text_of_def HasPrefix_def bound_address_def char_of_def bit_0)
  then show ?thesis unfolding handshake_def demo_greeting_def
    by (intro exI [of _ 0] exI [of _ "[79, 75]"] exI [of _ 0] exI [of _ 1] exI [of _ "[0, 0, 0, 0]"] exI [of _ "[0, 0]"]) simp
qed

lemma demo_covered: "tcpResourceFor None None [demo_tcp_resource ''a1'', demo_tcp_resource ''a2''] demo_address = (''a2'', ''g'', [])"
  by (simp add: tcpResourceFor_last tcp_matches_def demo_tcp_resource_def demo_address_def To4_def v4_prefix_def)

lemma demo_dialled:
  "\<exists>conn. DialTCP demo_hashes demo_dial None None demo_address demo_client = \<lparr> do_result = Inr conn, do_opened = True, do_closed = False, do_health = [] \<rparr>
     \<and> tt_reader conn = wires [Payload [1, 2, 3], Unknown 9 9, Payload [4]]"
proof -
  let ?r = "wires [Payload [1, 2, 3], Unknown 9 9, Payload [4]]"
  have "waitForTCPConnect (demo_greeting @ ?r) = Inr ?r" using demo_handshake handshake_exact by blast
  then have o: "dial_open demo_dial False (demo_greeting @ ?r) q = \<lparr> do_result = Inr \<lparr> tt_reader = ?r, tt_readBuf = [], tt_closed = False, tt_health = [] \<rparr>,
      do_opened = True, do_closed = False, do_health = [] \<rparr>" for q
    by (simp only: dial_open_def establishTCPConnection_def) (simp add: demo_dial_def)
  have c: "ac_ipResources demo_client = Some [demo_tcp_resource ''a1'', demo_tcp_resource ''a2'']" "ac_SignKey demo_client = []" "\<not> ac_skipTCPTunnelWait demo_client"
      "node_for (ac_BestNodes demo_client) (ac_MajorNodeGroup demo_client) ''g'' = ''n:1''" "To4 (ta_IP demo_address) = Some [10, 0, 0, 7]"
      "dl_dial demo_dial n = Inr (demo_greeting @ ?r)" for n
    by (simp_all add: demo_client_def NewClientContext_def node_for_def demo_address_def To4_def demo_dial_def)
  have "\<exists>m. dial_destination [] [10, 0, 0, 7] (ta_Port demo_address) = Inr m" by (simp add: dial_destination_def)
  then show ?thesis using o by (auto simp: DialTCP_def Let_def c demo_covered simp del: segs_simps)
qed

theorem tcp_tunnel_stream_witness:
  "\<exists>conn. do_result (DialTCP demo_hashes demo_dial None None demo_address demo_client) = Inr conn
     \<and> drain [2, 2, 2, 2, 2, 2, 2, 2] conn = ([1, 2, 3, 4], Some (Sentinel IoEOF))"
proof -
  let ?segs = "[Payload [1, 2, 3], Unknown 9 9, Payload [4]]"
  obtain conn where c: "do_result (DialTCP demo_hashes demo_dial None None demo_address demo_client) = Inr conn" "tt_reader conn = wires ?segs"
    using demo_dialled by (metis dial_outcome.select_convs(1))
  have skip: "\<not> ac_skipTCPTunnelWait demo_client" by (simp add: demo_client_def NewClientContext_def)
  have "backlog [] ?segs < 8" "list_all seg_ok ?segs" "data_of ?segs = [1, 2, 3, 4]" by (simp_all add: backlog_def)
  then have "drain [2, 2, 2, 2, 2, 2, 2, 2] conn = (data_of ?segs, Some (Sentinel IoEOF))"
    using tcp_tunnel_stream [OF c(1) skip] c(2) by (elim exE conjE allE [where x = ?segs] allE [where x = "[2, 2, 2, 2, 2, 2, 2, 2]"]) simp
  then show ?thesis using c(1) \<open>data_of ?segs = _\<close> by simp
qed

theorem DialTCP_safe_witness:
  "do_opened (DialTCP demo_hashes demo_dial None None demo_address demo_client) \<and> \<not> do_closed (DialTCP demo_hashes demo_dial None None demo_address demo_client)
   \<and> \<not> isl (do_result (DialTCP demo_hashes demo_dial None None demo_address demo_client))"
  using DialTCP_safe [of demo_hashes demo_dial None None demo_address demo_client] demo_dialled by auto

section \<open>Pings\<close>

record PingResult =
  pg_Counter :: int
  pg_SuccessCounter :: int
  pg_MinDuration :: int
  pg_MaxDuration :: int
  pg_TotalDuration :: int

definition no_pings :: PingResult where
  "no_pings = \<lparr> pg_Counter = 0, pg_SuccessCounter = 0, pg_MinDuration = 0, pg_MaxDuration = 0, pg_TotalDuration = 0 \<rparr>"

definition Avg :: "PingResult \<Rightarrow> int" where
  "Avg r = (if pg_SuccessCounter r = 0 then 0 else pg_TotalDuration r sdiv pg_SuccessCounter r)"

text \<open>One ping that took the given time, or failed.\<close>

definition record_ping :: "int option \<Rightarrow> PingResult \<Rightarrow> PingResult" where
  "record_ping outcome r =
     (let r1 = r\<lparr>pg_Counter := pg_Counter r + 1\<rparr> in
      case outcome of
        None \<Rightarrow> r1
      | Some duration \<Rightarrow>
          (let r2 = (if pg_MinDuration r1 = 0 then r1\<lparr>pg_MinDuration := duration\<rparr> else r1);
               r3 = (if pg_MaxDuration r2 = 0 then r2\<lparr>pg_MaxDuration := duration\<rparr> else r2);
               r4 = r3\<lparr>pg_SuccessCounter := pg_SuccessCounter r3 + 1\<rparr>;
               r5 = (if duration > pg_MaxDuration r4 then r4\<lparr>pg_MaxDuration := duration\<rparr>
                     else if duration < pg_MinDuration r4 then r4\<lparr>pg_MinDuration := duration\<rparr> else r4)
           in r5\<lparr>pg_TotalDuration := pg_TotalDuration r5 + duration\<rparr>))"

text \<open>What the goroutine of a ping selects: the end of the context, a tick with the outcome the ping then has, or a stop. None is a ping that
  still waits.\<close>

datatype ping_event = PingContextDone | PingTick "int option" | PingStop

fun tcping_run :: "int \<Rightarrow> ping_event list \<Rightarrow> PingResult \<Rightarrow> PingResult option" where
  "tcping_run counter [] r = None"
| "tcping_run counter (PingContextDone # es) r = Some r"
| "tcping_run counter (PingStop # es) r = Some r"
| "tcping_run counter (PingTick outcome # es) r =
     (if pg_Counter r \<ge> counter \<and> counter \<noteq> 0 then Some r else tcping_run counter es (record_ping outcome r))"

section \<open>The choice of nodes\<close>

definition pingNum :: int where "pingNum = 3"

text \<open>The targets of the nodes of a group, without those whose port is no number. An address without a colon is a panic, which is None.\<close>

fun ping_targets :: "string list \<Rightarrow> (string \<times> int) list option" where
  "ping_targets [] = Some []"
| "ping_targets (node # nodes) =
     (case Split CHR '':'' node of
        host # port # _ \<Rightarrow>
          (case Atoi port of
             None \<Rightarrow> ping_targets nodes
           | Some p \<Rightarrow> map_option ((#) (host, p)) (ping_targets nodes))
      | _ \<Rightarrow> None)"

definition latency :: "PingResult \<Rightarrow> int" where
  "latency r = Avg r sdiv 1000000"

text \<open>\<open>results\<close> are those of the pings, in the order they were started; \<open>nodes\<close> is read at the same index.\<close>

definition best_step :: "string list \<Rightarrow> string \<times> int \<Rightarrow> nat \<times> PingResult \<Rightarrow> string \<times> int" where
  "best_step nodes best ir =
     (case (best, ir) of ((bestNode, bestLatency), i, result) \<Rightarrow>
        if pg_SuccessCounter result = pingNum \<and> (bestLatency = 0 \<or> latency result < bestLatency)
        then (nodes ! i, latency result) else (bestNode, bestLatency))"

definition best_of :: "string list \<Rightarrow> PingResult list \<Rightarrow> string" where
  "best_of nodes results = fst (foldl (best_step nodes) ([], 0) (enumerate 0 results))"

text \<open>\<open>ping g k\<close> is the result of the \<open>k\<close>-th ping of group \<open>g\<close>.\<close>

definition group_node :: "(nat \<Rightarrow> PingResult) \<Rightarrow> string list \<Rightarrow> string option option" where
  "group_node ping nodes =
     (if 1 < length nodes then
        map_option (\<lambda>targets.
          (let bestNode = best_of nodes (map ping [0..<length targets]) in
           Some (if bestNode \<noteq> [] then bestNode else nodes ! 0))) (ping_targets nodes)
      else Some (if length nodes = 1 then Some (nodes ! 0) else None))"

definition getBestNodes ::
  "((string \<rightharpoonup> string list) \<Rightarrow> string list) \<Rightarrow> (string \<Rightarrow> nat \<Rightarrow> PingResult) \<Rightarrow> (string \<rightharpoonup> string list) \<Rightarrow> (string \<rightharpoonup> string) option" where
  "getBestNodes ord ping nodeGroups =
     foldl (\<lambda>best g. Option.bind best (\<lambda>m.
         map_option (\<lambda>n. m(g := (case n of None \<Rightarrow> m g | Some a \<Rightarrow> Some a))) (group_node (ping g) (the (nodeGroups g)))))
       (Some Map.empty) (ord nodeGroups)"

text \<open>A ping that the choice counts: every attempt succeeded.\<close>

definition reached :: "PingResult \<Rightarrow> bool" where
  "reached r \<longleftrightarrow> pg_SuccessCounter r = pingNum"

lemma best_snoc:
  "foldl (best_step nodes) b (enumerate 0 (rs @ [r])) = best_step nodes (foldl (best_step nodes) b (enumerate 0 rs)) (length rs, r)"
  by (simp add: enumerate_append_eq)

lemma best_of_member: "length rs \<le> length nodes \<Longrightarrow> best_of nodes rs = [] \<or> best_of nodes rs \<in> set nodes"
proof (induction rs rule: rev_induct)
  case (snoc r rs)
  then show ?case by (auto simp: best_of_def best_snoc best_step_def split: prod.split)
qed (simp add: best_of_def)

lemma best_fold:
  assumes "\<forall>r \<in> set rs. reached r \<longrightarrow> 1 \<le> latency r"
  shows "if \<exists>r \<in> set rs. reached r
    then \<exists>i < length rs. reached (rs ! i) \<and> foldl (best_step nodes) ([], 0) (enumerate 0 rs) = (nodes ! i, latency (rs ! i))
           \<and> (\<forall>j < length rs. reached (rs ! j) \<longrightarrow> latency (rs ! i) \<le> latency (rs ! j))
    else foldl (best_step nodes) ([], 0) (enumerate 0 rs) = ([], 0)"
  using assms
proof (induction rs rule: rev_induct)
  case (snoc r rs)
  show ?case
  proof (cases "\<exists>r \<in> set rs. reached r")
    case False
    then have b: "foldl (best_step nodes) ([], 0) (enumerate 0 rs) = ([], 0)" and none: "\<And>j. j < length rs \<Longrightarrow> \<not> reached (rs ! j)"
      using snoc by auto
    have "foldl (best_step nodes) ([], 0) (enumerate 0 (rs @ [r])) = (if reached r then (nodes ! length rs, latency r) else ([], 0))"
      unfolding best_snoc b by (simp add: best_step_def reached_def)
    then show ?thesis using False none by (cases "reached r") (auto simp: nth_append less_Suc_eq intro!: exI [of _ "length rs"])
  next
    case True
    then obtain i where i: "i < length rs" "reached (rs ! i)" "foldl (best_step nodes) ([], 0) (enumerate 0 rs) = (nodes ! i, latency (rs ! i))"
        "\<forall>j < length rs. reached (rs ! j) \<longrightarrow> latency (rs ! i) \<le> latency (rs ! j)"
      using snoc by auto
    have pos: "latency (rs ! i) \<noteq> 0" using snoc.prems i(1,2) by (auto simp: nth_append)
    let ?new = "reached r \<and> latency r < latency (rs ! i)"
    have "foldl (best_step nodes) ([], 0) (enumerate 0 (rs @ [r])) = (if ?new then (nodes ! length rs, latency r) else (nodes ! i, latency (rs ! i)))"
      unfolding best_snoc i(3) using pos by (simp add: best_step_def reached_def)
    then show ?thesis using True i
      by (cases ?new) (auto simp: nth_append less_Suc_eq intro!: exI [of _ "if ?new then length rs else i"])
  qed
qed simp

text \<open>An address with a colon has the parts that the code reads.\<close>

lemma Contains_colon: "Contains s '':'' \<longleftrightarrow> CHR '':'' \<in> set s"
  by (induction s) (auto simp: HasPrefix_def)

lemma Split_parts: "sep \<in> set s \<Longrightarrow> \<exists>a b rest. Split sep s = a # b # rest"
proof (induction s)
  case (Cons c s)
  then show ?case by (cases "Split sep s") auto
qed simp

lemma ping_targets_total:
  "list_all (\<lambda>n. Contains n '':'') nodes \<Longrightarrow> \<exists>ts. ping_targets nodes = Some ts \<and> length ts \<le> length nodes
     \<and> (list_all (\<lambda>n. Atoi (Split CHR '':'' n ! 1) \<noteq> None) nodes \<longrightarrow> length ts = length nodes)"
proof (induction nodes)
  case (Cons n nodes)
  then obtain a b rest where "Split CHR '':'' n = a # b # rest" using Split_parts [of "CHR '':''" n] Contains_colon by auto
  then show ?case using Cons by (cases "Atoi b") auto
qed simp

lemma group_node_total:
  assumes "list_all (\<lambda>n. Contains n '':'') nodes"
  shows "\<exists>r. group_node ping nodes = Some r \<and> (r = None \<longleftrightarrow> nodes = []) \<and> (\<forall>a. r = Some a \<longrightarrow> a \<in> set nodes)"
proof -
  obtain ts where ts: "ping_targets nodes = Some ts" "length ts \<le> length nodes" using ping_targets_total [OF assms] by blast
  consider "nodes = []" | n where "nodes = [n]" | "1 < length nodes" by (cases nodes; cases "tl nodes") auto
  then show ?thesis
  proof cases
    case 3
    then have "nodes ! 0 \<in> set nodes" "nodes \<noteq> []" by (auto intro: nth_mem)
    then show ?thesis using best_of_member [of "map ping [0..<length ts]" nodes] ts 3 by (auto simp: group_node_def Let_def)
  qed (simp_all add: group_node_def)
qed

text \<open>The fastest: every address has a port, and a node that answers every ping takes a millisecond or more.\<close>

definition measurable :: "(nat \<Rightarrow> PingResult) \<Rightarrow> string list \<Rightarrow> bool" where
  "measurable ping nodes \<longleftrightarrow> list_all (\<lambda>n. Atoi (Split CHR '':'' n ! 1) \<noteq> None \<and> n \<noteq> []) nodes
     \<and> (\<forall>i < length nodes. reached (ping i) \<longrightarrow> 1 \<le> latency (ping i))"

definition fastest :: "(nat \<Rightarrow> PingResult) \<Rightarrow> string list \<Rightarrow> nat \<Rightarrow> bool" where
  "fastest ping nodes i \<longleftrightarrow> i < length nodes
     \<and> (if \<exists>j < length nodes. reached (ping j) then reached (ping i) \<and> (\<forall>j < length nodes. reached (ping j) \<longrightarrow> latency (ping i) \<le> latency (ping j))
        else i = 0)"

lemma group_node_fastest:
  assumes "list_all (\<lambda>n. Contains n '':'') nodes" "measurable ping nodes" "1 < length nodes"
  shows "\<exists>i. group_node ping nodes = Some (Some (nodes ! i)) \<and> fastest ping nodes i"
proof -
  obtain ts where ts: "ping_targets nodes = Some ts" "length ts = length nodes"
    using ping_targets_total [OF assms(1)] assms(2) by (auto simp: measurable_def list_all_iff)
  let ?rs = "map ping [0..<length ts]"
  have lat: "\<forall>r \<in> set ?rs. reached r \<longrightarrow> 1 \<le> latency r" using assms(2) ts(2) by (auto simp: measurable_def)
  have eq: "group_node ping nodes = Some (Some (if best_of nodes ?rs \<noteq> [] then best_of nodes ?rs else nodes ! 0))"
    using assms(3) ts(1) by (simp add: group_node_def Let_def)
  show ?thesis
  proof (cases "\<exists>r \<in> set ?rs. reached r")
    case True
    with best_fold [OF lat, of nodes] obtain i where i: "i < length ts" "reached (ping i)" "best_of nodes ?rs = nodes ! i"
        "\<forall>j < length ts. reached (ping j) \<longrightarrow> latency (ping i) \<le> latency (ping j)"
      by (auto simp: best_of_def)
    have "nodes ! i \<noteq> []" using assms(2) i(1) ts(2) by (simp add: measurable_def list_all_length)
    then show ?thesis using eq i ts(2) by (auto simp: fastest_def)
  next
    case False
    then have "best_of nodes ?rs = []" using best_fold [OF lat, of nodes] by (simp add: best_of_def)
    then show ?thesis using eq False ts(2) assms(3) by (auto simp: fastest_def)
  qed
qed

lemma getBestNodes_fold:
  assumes "distinct gs" "\<And>g. g \<in> set gs \<Longrightarrow> group_node (ping g) (the (groups g)) = Some (f g)"
  shows "foldl (\<lambda>best g. Option.bind best (\<lambda>m.
         map_option (\<lambda>n. m(g := (case n of None \<Rightarrow> m g | Some a \<Rightarrow> Some a))) (group_node (ping g) (the (groups g)))))
       (Some Map.empty) gs = Some (\<lambda>g. if g \<in> set gs then f g else None)"
  using assms
proof (induction gs rule: rev_induct)
  case (snoc g gs)
  then show ?case by (auto simp: fun_eq_iff split: option.split)
qed simp

lemma chosen_nodes:
  assumes "ranges ord" "finite (dom groups)" "\<forall>ns \<in> ran groups. list_all (\<lambda>n. Contains n '':'') ns"
  shows "\<exists>best. getBestNodes ord ping groups = Some best
     \<and> (\<forall>g. best g \<noteq> None \<longleftrightarrow> (\<exists>ns. groups g = Some ns \<and> ns \<noteq> []))
     \<and> (\<forall>g ns. groups g = Some ns \<and> ns \<noteq> [] \<longrightarrow> the (best g) \<in> set ns)
     \<and> (\<forall>g ns. groups g = Some ns \<and> 1 < length ns \<and> measurable (ping g) ns \<longrightarrow> (\<exists>i. best g = Some (ns ! i) \<and> fastest (ping g) ns i))"
proof -
  define f where "f g = the (group_node (ping g) (the (groups g)))" for g
  have o: "distinct (ord groups)" "set (ord groups) = dom groups" using rangesD [OF assms(1,2)] by auto
  have colon: "list_all (\<lambda>n. Contains n '':'') ns" if "groups g = Some ns" for g ns using assms(3) that by (auto intro: ranI)
  have node: "group_node (ping g) ns = Some (f g) \<and> (f g = None \<longleftrightarrow> ns = []) \<and> (\<forall>a. f g = Some a \<longrightarrow> a \<in> set ns)"
    if "groups g = Some ns" for g ns
    using group_node_total [OF colon [OF that], of "ping g"] that by (auto simp: f_def)
  have "group_node (ping g) (the (groups g)) = Some (f g)" if "g \<in> set (ord groups)" for g
  proof -
    have "g \<in> dom groups" using that unfolding o(2) .
    then obtain ns where "groups g = Some ns" by blast
    then show ?thesis using node by simp
  qed
  then have best: "getBestNodes ord ping groups = Some (\<lambda>g. if g \<in> dom groups then f g else None)"
    unfolding getBestNodes_def o(2) [symmetric] by (rule getBestNodes_fold [OF o(1)])
  have fast: "\<exists>i. f g = Some (ns ! i) \<and> fastest (ping g) ns i" if "groups g = Some ns" "1 < length ns" "measurable (ping g) ns" for g ns
    using group_node_fastest [OF colon [OF that(1)] that(3,2)] that(1) by (auto simp: f_def)
  show ?thesis
  proof (intro exI [of _ "\<lambda>g. if g \<in> dom groups then f g else None"] conjI allI impI)
    fix g ns
    assume "groups g = Some ns \<and> ns \<noteq> []"
    then show "the (if g \<in> dom groups then f g else None) \<in> set ns" using node [of g ns] by auto
  next
    fix g
    show "(if g \<in> dom groups then f g else None) \<noteq> None \<longleftrightarrow> (\<exists>ns. groups g = Some ns \<and> ns \<noteq> [])" using node [of g] by (cases "groups g") auto
  qed (use best fast in auto)
qed

text \<open>Outside of \<open>measurable\<close> the choice is not the fastest node: a port that is no number shifts the results, and a latency below a
  millisecond is taken for no result.\<close>

lemma shifted_choice:
  "group_node (\<lambda>i. \<lparr> pg_Counter = 3, pg_SuccessCounter = 3, pg_MinDuration = 0, pg_MaxDuration = 0, pg_TotalDuration = (if i = 0 then 15000000 else 6000000) \<rparr>)
     [''a:x'', ''b:2'', ''c:3''] = Some (Some ''b:2'')"
  "group_node (\<lambda>i. \<lparr> pg_Counter = 3, pg_SuccessCounter = 3, pg_MinDuration = 0, pg_MaxDuration = 0, pg_TotalDuration = (if i = 0 then 600000 else 15000000) \<rparr>)
     [''a:1'', ''b:2''] = Some (Some ''b:2'')"
  by code_simp+

text \<open>C10. The choice of nodes never panics when every address has a colon (\<^verbatim>\<open>parseResource\<close> gives no other). Whatever the order in which the groups are visited and
  whatever the pings measure: a node is chosen for exactly the groups that have one, and it is a node of its group. In a group of several nodes all of whose
  ports are numbers, and whose answered pings take a millisecond or more, it is one with the least latency among those that answered every ping, and the first when there is none.
  Without these two conditions nothing is said about which node of the group it is.\<close>

theorem best_nodes_exact:
  assumes "ranges ord" "finite (dom groups)" "\<forall>ns \<in> ran groups. list_all (\<lambda>n. Contains n '':'') ns"
  shows "\<exists>best. getBestNodes ord ping groups = Some best
     \<and> (\<forall>g. best g \<noteq> None \<longleftrightarrow> (\<exists>ns. groups g = Some ns \<and> ns \<noteq> []))
     \<and> (\<forall>g ns. groups g = Some ns \<and> ns \<noteq> [] \<longrightarrow> the (best g) \<in> set ns)
     \<and> (\<forall>g ns. groups g = Some ns \<and> 1 < length ns \<and> measurable (ping g) ns \<longrightarrow> (\<exists>i. best g = Some (ns ! i) \<and> fastest (ping g) ns i))"
  by (rule chosen_nodes [OF assms])

definition demo_ping :: "string \<Rightarrow> nat \<Rightarrow> PingResult" where
  "demo_ping g i = \<lparr> pg_Counter = 3, pg_SuccessCounter = 3, pg_MinDuration = 1000000, pg_MaxDuration = 9000000,
     pg_TotalDuration = (if i = 0 then 15000000 else 6000000) \<rparr>"

definition demo_groups :: "string \<rightharpoonup> string list" where
  "demo_groups = [''g'' \<mapsto> [''a:1'', ''b:2'']]"

lemma demo_measurable: "measurable (demo_ping ''g'') [''a:1'', ''b:2'']" "latency (demo_ping ''g'' 0) = 5" "latency (demo_ping ''g'' 1) = 2"
proof -
  have l: "latency (demo_ping ''g'' 0) = 5" "latency (demo_ping ''g'' 1) = 2"
    by (simp_all add: demo_ping_def latency_def Avg_def signed_divide_int_def)
  moreover have "Atoi ''1'' \<noteq> None" "Atoi ''2'' \<noteq> None" by code_simp+
  ultimately show "measurable (demo_ping ''g'') [''a:1'', ''b:2'']" "latency (demo_ping ''g'' 0) = 5" "latency (demo_ping ''g'' 1) = 2"
    by (auto simp: measurable_def less_Suc_eq numeral_2_eq_2)
qed

theorem best_nodes_exact_witness: "\<exists>best. getBestNodes by_key demo_ping demo_groups = Some best \<and> best ''g'' = Some ''b:2''"
proof -
  have "finite (dom demo_groups)" "\<forall>ns \<in> ran demo_groups. list_all (\<lambda>n. Contains n '':'') ns"
    by (simp_all add: demo_groups_def HasPrefix_def)
  from best_nodes_exact [OF ranges_by_key this, of demo_ping] obtain best where
    best: "getBestNodes by_key demo_ping demo_groups = Some best" "\<And>g ns. demo_groups g = Some ns \<and> 1 < length ns \<and> measurable (demo_ping g) ns \<Longrightarrow>
      \<exists>i. best g = Some (ns ! i) \<and> fastest (demo_ping g) ns i" by blast
  obtain i where b: "best ''g'' = Some ([''a:1'', ''b:2''] ! i)" "fastest (demo_ping ''g'') [''a:1'', ''b:2''] i"
    using best(2) [of "''g''" "[''a:1'', ''b:2'']"] demo_measurable(1) by (auto simp: demo_groups_def)
  have "reached (demo_ping ''g'' j)" for j by (simp add: reached_def demo_ping_def pingNum_def)
  then have "i < 2" "latency (demo_ping ''g'' i) \<le> latency (demo_ping ''g'' 1)" using b(2) by (auto simp: fastest_def split: if_splits)
  then have "i = 1" using demo_measurable(2,3) by (auto simp: less_2_cases_iff)
  then show ?thesis using b(1) best(1) by simp
qed

definition cloneNodes :: "(string \<rightharpoonup> string) \<Rightarrow> (string \<rightharpoonup> string)" where
  "cloneNodes nodes = (\<lambda>g. nodes g)"

definition equalNodes :: "((string \<rightharpoonup> string) \<Rightarrow> string list) \<Rightarrow> (string \<rightharpoonup> string) \<Rightarrow> (string \<rightharpoonup> string) \<Rightarrow> bool" where
  "equalNodes ord left right \<longleftrightarrow> length (ord left) = length (ord right)
     \<and> list_all (\<lambda>g. (case right g of None \<Rightarrow> [] | Some a \<Rightarrow> a) = the (left g)) (ord left)"

text \<open>One tick of \<^verbatim>\<open>updateBestNodes\<close>: the nodes measured, and whether the context has ended meanwhile. The result is whether the loop goes
  on, what the handler is told, and the client.\<close>

definition update_tick ::
  "((string \<rightharpoonup> string) \<Rightarrow> string list) \<Rightarrow> bool \<Rightarrow> (string \<rightharpoonup> string) \<Rightarrow> bool \<Rightarrow> Client \<Rightarrow> (bool \<times> (string \<rightharpoonup> string) list) \<times> Client" where
  "update_tick ord ctxDone bestNodes hasHandler c =
     (if ctxDone then ((False, []), c)
      else ((True, if \<not> equalNodes ord (ac_BestNodes c) bestNodes \<and> hasHandler then [cloneNodes bestNodes] else []),
            c\<lparr>ac_BestNodes := bestNodes\<rparr>))"

section \<open>The client's address\<close>

definition ip_requests :: "string \<Rightarrow> bytes list" where
  "ip_requests sid =
     [[0x05, 0x01, 0xD0, 0x53, 0x00, 0x00, 0x53] @ byte_string (''{'' @ [CHR 0x22] @ ''sid'' @ [CHR 0x22] @ '':'' @ [CHR 0x22] @ sid @ [CHR 0x22] @ ''}''),
      [0x05, 0x04, 0x00, 0x01, 0x00, 0x00, 0x00, 0x00, 0x00, 0x00]]"

text \<open>The loop over the answers of a node.\<close>

function read_ip :: "bytes \<Rightarrow> ip result" where
  "read_ip r =
     (case ReadFull 2 r of
        Inl e \<Rightarrow> Inl e
      | Inr (header, r1) \<Rightarrow>
          if header ! 0 = 0x53 \<and> header ! 1 = 0x00 then
            (case read_counted r1 of
               Inl e \<Rightarrow> Inl e
             | Inr (data, r2) \<Rightarrow>
                 if \<not> Contains (text_of data) ''OK'' then Inl (Opaque (''failed to connect to the server: '' @ text_of data))
                 else read_ip r2)
          else if header ! 0 = 0x05 \<and> header ! 1 = 0x00 then
            (case ReadFull 6 r1 of
               Inl e \<Rightarrow> Inl e
             | Inr (data, r2) \<Rightarrow>
                 if data ! 0 \<noteq> 0x00 \<or> data ! 1 \<noteq> 0x01 then Inl (Opaque (''unexpected response: '' @ concat (map hex02 data)))
                 else Inr (IPv4 (data ! 2) (data ! 3) (data ! 4) (data ! 5)))
          else read_ip r1)"
  by pat_completeness auto

termination
  by (relation "measure length") (auto simp: ReadFull_Inr read_counted_Inr)

declare read_ip.simps [simp del]

text \<open>\<open>pick\<close> is the node the range over the map meets first; \<open>dial\<close> and \<open>write\<close> are the answers of the network.\<close>

definition getIP ::
  "((string \<rightharpoonup> string) \<Rightarrow> string list) \<Rightarrow> (string \<Rightarrow> bytes result) \<Rightarrow> (bytes \<Rightarrow> gerror option) \<Rightarrow> Client \<Rightarrow> gerror option \<times> Client" where
  "getIP ord dial write c =
     (let addr0 = (case ac_BestNodes c (ac_MajorNodeGroup c) of None \<Rightarrow> [] | Some a \<Rightarrow> a);
          addr = (if addr0 = [] then (case ord (ac_BestNodes c) of [] \<Rightarrow> [] | g # _ \<Rightarrow> the (ac_BestNodes c g)) else addr0)
      in if addr = [] then (Some (Opaque ''no reachable node for ip request''), c)
         else case dial addr of
           Inl e \<Rightarrow> (Some e, c)
         | Inr reader \<Rightarrow>
             (case first_some write (ip_requests (ac_SID c)) of
                Some e \<Rightarrow> (Some e, c)
              | None \<Rightarrow> (case read_ip reader of Inl e \<Rightarrow> (Some e, c) | Inr p \<Rightarrow> (None, c\<lparr>ac_ip := p\<rparr>))))"

end
