(* ===== verification/Auth.thy ===== *)
theory Auth
  imports TcpTunnel SessionRuntime "HOL-Library.AList"
begin

text \<open>
  The sign-in at a gateway, \<^verbatim>\<open>src/client/atrust/auth\<close>: the requests of \<^verbatim>\<open>request.go\<close>, the login methods (\<^verbatim>\<open>psw.go\<close>, \<^verbatim>\<open>cas.go\<close>,
  \<^verbatim>\<open>https_oauth2.go\<close>, \<^verbatim>\<open>sms_check_code.go\<close>), the steps that follow them (\<^verbatim>\<open>auth.go\<close>, \<^verbatim>\<open>custom_sms.go\<close>) and the trusted devices (\<^verbatim>\<open>device.go\<close>).

  The record \<open>web\<close> is what lies outside the package: the HTTP client with its cookie jar, the user who answers challenges, random numbers, the clock, RSA,
  and the decoders of URLs and JSON documents. They act on a state of their own, \<open>as_world\<close>, so that nothing is assumed about how they depend on earlier calls.
  \<open>as_trace\<close> is a history variable: the requests sent and the challenges put to the user, in order.
\<close>

section \<open>Requests and answers\<close>

datatype request_body = NoBody | JSONBody json | FormBody string

text \<open>\<open>rq_follow\<close> is whether the client follows redirects.\<close>

record Request =
  rq_method :: string
  rq_url :: string
  rq_headers :: "(string \<times> string) list"
  rq_body :: request_body
  rq_follow :: bool

text \<open>The body is the bytes that arrive and the error they end with, if any. The client never returns a response without a body.\<close>

record Response =
  rs_status :: int
  rs_location :: string
  rs_body :: "bytes \<times> gerror option"

record URL =
  url_Scheme :: string
  url_Host :: string
  url_Path :: string
  url_Query :: "string \<rightharpoonup> string"

definition Query_Get :: "URL \<Rightarrow> string \<Rightarrow> string" where
  "Query_Get u k = (case url_Query u k of None \<Rightarrow> [] | Some v \<Rightarrow> v)"

definition maxAuthResponseBodySize :: nat where
  "maxAuthResponseBodySize = 4 * 2 ^ 20"

text \<open>\<^verbatim>\<open>io.ReadAll\<close> of an \<^verbatim>\<open>io.LimitReader\<close>.\<close>

definition read_limited :: "nat \<Rightarrow> bytes \<times> gerror option \<Rightarrow> bytes result" where
  "read_limited n body =
     (if n \<le> length (fst body) then Inr (take n (fst body))
      else case snd body of Some e \<Rightarrow> Inl e | None \<Rightarrow> Inr (fst body))"

definition readAuthResponse :: "Response option \<Rightarrow> bytes result" where
  "readAuthResponse response =
     (case response of
        None \<Rightarrow> Inl (Opaque ''read authentication response: response body is unavailable'')
      | Some resp \<Rightarrow>
          (case read_limited (maxAuthResponseBodySize + 1) (rs_body resp) of
             Inl e \<Rightarrow> Inl (errorf ''read authentication response'' e)
           | Inr body \<Rightarrow>
               if length body > maxAuthResponseBodySize
               then Inl (Opaque (''authentication response exceeds '' @ show_nat maxAuthResponseBodySize @ '' bytes''))
               else Inr body))"

subsection \<open>url.Values\<close>

type_synonym Values = "(string \<times> string list) list"

definition Values_Set :: "string \<Rightarrow> string \<Rightarrow> Values \<Rightarrow> Values" where
  "Values_Set k v m = AList.update k [v] m"

definition unreserved :: "char \<Rightarrow> bool" where
  "unreserved c = (let n = (of_char c :: nat) in
      (48 \<le> n \<and> n \<le> 57) \<or> (65 \<le> n \<and> n \<le> 90) \<or> (97 \<le> n \<and> n \<le> 122) \<or> c \<in> {CHR ''-'', CHR ''_'', CHR ''.'', CHR ''~''})"

definition QueryEscape :: "string \<Rightarrow> string" where
  "QueryEscape s = concat (map (\<lambda>c. if unreserved c then [c] else if c = CHR '' '' then ''+'' else CHR ''%'' # HEX02 (of_char c)) s)"

fun join_with :: "string \<Rightarrow> string list \<Rightarrow> string" where
  "join_with sep [] = []"
| "join_with sep [x] = x"
| "join_with sep (x # y # zs) = x @ sep @ join_with sep (y # zs)"

definition Values_Encode :: "Values \<Rightarrow> string" where
  "Values_Encode m = join_with ''&''
     (concat (map (\<lambda>(k, vs). map (\<lambda>v. QueryEscape k @ ''='' @ QueryEscape v) vs) (sort_key fst m)))"

definition sharedParams :: Values where
  "sharedParams = [(''clientType'', [''SDPClient'']), (''platform'', [''Linux'']), (''lang'', [''en-US''])]"

definition WithSharedParams :: "Values \<Rightarrow> Values" where
  "WithSharedParams extra = foldl (\<lambda>m (k, vs). foldl (\<lambda>m v. Values_Set k v m) m vs) sharedParams extra"

section \<open>The documents\<close>

record Cookie =
  ck_Host :: string
  ck_Scheme :: string
  ck_Name :: string
  ck_Value :: string

record ClientAuthData =
  ad_Cookies :: "Cookie list"
  ad_DeviceID :: string

record AuthInfo =
  ai_LoginDomain :: string
  ai_AuthType :: string
  ai_AuthName :: string
  ai_LoginURL :: string

record LoginOptions =
  lo_DeviceID :: string
  lo_Cookies :: "Cookie list"

record LoginResult =
  lr_Username :: string
  lr_SID :: string
  lr_Cookies :: "Cookie list"
  lr_Reused :: bool

datatype smsMode = smsModeUnknown | smsWithoutAuthID | smsWithAuthID

record authServiceInfo =
  sv_AuthID :: string
  sv_AuthType :: string

record authStepData =
  sd_NextService :: string
  sd_NextServiceList :: "authServiceInfo list"

record authStep =
  st_Service :: string
  st_AuthID :: string
  st_SMSMode :: smsMode

record authConfigReply =
  cf_AuthServerInfoList :: "AuthInfo list"
  cf_IsLogin :: int
  cf_CSRF :: string
  cf_SecurityCSRF :: string
  cf_PubKey :: string
  cf_PubKeyExp :: string
  cf_AntiReplayRand :: string

text \<open>The answers of the other requests: a code, a message and the data of each.\<close>

record 'd reply =
  re_Code :: int
  re_Message :: string
  re_Data :: 'd

record QueryDeviceResult =
  qd_SelfID :: string
  qd_DeviceTrusted :: bool

text \<open>\<open>wb_EncryptPKCS1v15\<close> takes modulus and exponent as the gateway writes them. \<open>wb_phone\<close> decodes the raw phone number and the masked one; \<open>wb_ticket\<close> decodes a ticket and whether a captcha is wanted.\<close>

record 'w web =
  wb_ctxErr :: "'w \<Rightarrow> gerror option"
  wb_newRequest :: "string \<Rightarrow> string \<Rightarrow> gerror option"
  wb_do :: "Request \<Rightarrow> 'w \<Rightarrow> Response result \<times> 'w"
  wb_handle :: "AuthChallenge \<Rightarrow> 'w \<Rightarrow> AuthResponse result \<times> 'w"
  wb_Intn :: "nat \<Rightarrow> 'w \<Rightarrow> nat \<times> 'w"
  wb_UnixMilli :: "'w \<Rightarrow> int \<times> 'w"
  wb_EncryptPKCS1v15 :: "string \<Rightarrow> string \<Rightarrow> bytes \<Rightarrow> 'w \<Rightarrow> bytes result \<times> 'w"
  wb_SetCookies :: "string \<Rightarrow> string \<Rightarrow> string \<Rightarrow> string \<Rightarrow> 'w \<Rightarrow> 'w"
  wb_Cookies :: "string \<Rightarrow> 'w \<Rightarrow> (string \<times> string) list"
  wb_Parse :: "string \<Rightarrow> URL result"
  wb_authConfig :: "bytes \<Rightarrow> authConfigReply result"
  wb_code :: "bytes \<Rightarrow> int result"
  wb_status :: "bytes \<Rightarrow> unit reply result"
  wb_step :: "bytes \<Rightarrow> authStepData reply result"
  wb_tips :: "bytes \<Rightarrow> string reply result"
  wb_phone :: "bytes \<Rightarrow> (string \<times> string) reply result"
  wb_strings :: "string \<Rightarrow> string list result"
  wb_string :: "string \<Rightarrow> string result"
  wb_ticket :: "bytes \<Rightarrow> (string \<times> int) reply result"
  wb_sent :: "bytes \<Rightarrow> (string \<times> string \<times> int) reply result"
  wb_username :: "bytes \<Rightarrow> (int \<times> string) result"
  wb_device :: "bytes \<Rightarrow> QueryDeviceResult reply result"
  wb_portal :: "string \<Rightarrow> string result"

section \<open>The session\<close>

datatype auth_event = Sent Request | Asked AuthChallenge

record 'w AuthSession =
  as_deviceID :: string
  as_baseHost :: string
  as_baseURL :: string
  as_rid :: string
  as_env :: string
  as_csrfToken :: string
  as_pubKey :: string
  as_pubKeyExp :: string
  as_antiReplayRand :: string
  as_ticket :: string
  as_hasHandler :: bool
  as_trace :: "auth_event list"
  as_world :: 'w

definition NewSession :: "string \<Rightarrow> 'w \<Rightarrow> 'w AuthSession" where
  "NewSession server w =
     \<lparr> as_deviceID = [], as_baseHost = server, as_baseURL = ''https://'' @ server, as_rid = EncodeToString (byte_string server),
       as_env = [], as_csrfToken = [], as_pubKey = [], as_pubKeyExp = [], as_antiReplayRand = [], as_ticket = [],
       as_hasHandler = False, as_trace = [], as_world = w \<rparr>"

definition SetAuthHandler :: "bool \<Rightarrow> 'w AuthSession \<Rightarrow> 'w AuthSession" where
  "SetAuthHandler handler s = s\<lparr>as_hasHandler := handler\<rparr>"

subsection \<open>Actions of the session\<close>

text \<open>An action returns a value or an error, and the session.\<close>

type_synonym ('w, 'a) act = "'w AuthSession \<Rightarrow> 'a result \<times> 'w AuthSession"

definition aret :: "'a \<Rightarrow> ('w, 'a) act" where "aret x s = (Inr x, s)"

definition araise :: "gerror \<Rightarrow> ('w, 'a) act" where "araise e s = (Inl e, s)"

definition alift :: "'a result \<Rightarrow> ('w, 'a) act" where "alift r s = (r, s)"

definition aget :: "('w AuthSession \<Rightarrow> 'a) \<Rightarrow> ('w, 'a) act" where "aget f s = (Inr (f s), s)"

definition aput :: "('w AuthSession \<Rightarrow> 'w AuthSession) \<Rightarrow> ('w, unit) act" where "aput f s = (Inr (), f s)"

definition abind :: "('w, 'a) act \<Rightarrow> ('a \<Rightarrow> ('w, 'b) act) \<Rightarrow> ('w, 'b) act" where
  "abind m f s = (case m s of (Inl e, t) \<Rightarrow> (Inl e, t) | (Inr x, t) \<Rightarrow> f x t)"

text \<open>A call whose error is only logged, and one whose error is wrapped.\<close>

definition atry :: "('w, 'a) act \<Rightarrow> ('w, unit) act" where "atry m s = (Inr (), snd (m s))"

definition awrap :: "string \<Rightarrow> ('w, 'a) act \<Rightarrow> ('w, 'a) act" where
  "awrap prefix m s = (case m s of (Inl e, t) \<Rightarrow> (Inl (errorf prefix e), t) | (Inr x, t) \<Rightarrow> (Inr x, t))"

text \<open>The error of the context, and a value taken from the outside.\<close>

definition ctx_Err :: "'w web \<Rightarrow> ('w, unit) act" where
  "ctx_Err web s = (case wb_ctxErr web (as_world s) of Some e \<Rightarrow> (Inl e, s) | None \<Rightarrow> (Inr (), s))"

definition outside :: "('w \<Rightarrow> 'a result \<times> 'w) \<Rightarrow> ('w, 'a) act" where
  "outside f s = (case f (as_world s) of (r, w) \<Rightarrow> (r, s\<lparr>as_world := w\<rparr>))"

fun rand_digits :: "'w web \<Rightarrow> nat \<Rightarrow> 'w \<Rightarrow> string \<times> 'w" where
  "rand_digits web 0 w = ([], w)"
| "rand_digits web (Suc n) w =
     (case wb_Intn web 16 w of (i, w1) \<Rightarrow> case rand_digits web n w1 of (ds, w2) \<Rightarrow> (''0123456789abcdef'' ! i # ds, w2))"

definition randSdpId :: "'w web \<Rightarrow> nat \<Rightarrow> ('w, string) act" where
  "randSdpId web n = outside (\<lambda>w. case rand_digits web n w of (ds, w') \<Rightarrow> (Inr ds, w'))"

definition http_Do :: "'w web \<Rightarrow> Request \<Rightarrow> ('w, Response) act" where
  "http_Do web rq s = (case wb_do web rq (as_world s) of (r, w) \<Rightarrow> (r, s\<lparr>as_world := w, as_trace := as_trace s @ [Sent rq]\<rparr>))"

definition newRequest :: "'w web \<Rightarrow> string \<Rightarrow> string \<Rightarrow> ('w, unit) act" where
  "newRequest web meth target =
     (case wb_newRequest web meth target of Some e \<Rightarrow> araise (errorf ''create authentication HTTP request'' e) | None \<Rightarrow> aret ())"

subsection \<open>Challenges\<close>

definition ask_user :: "'w web \<Rightarrow> AuthChallenge \<Rightarrow> ('w, AuthResponse) act" where
  "ask_user web ch s =
     (case wb_handle web ch (as_world s) of (r, w) \<Rightarrow> (r, s\<lparr>as_world := w, as_trace := as_trace s @ [Asked ch]\<rparr>))"

definition handleChallenge :: "'w web \<Rightarrow> AuthChallenge \<Rightarrow> ('w, AuthResponse) act" where
  "handleChallenge web challenge =
     (case challenge_Validate challenge of
        Some e \<Rightarrow> araise e
      | None \<Rightarrow>
          abind (aget as_hasHandler) (\<lambda>handler.
            if \<not> handler then araise (WrapError ErrorCodeAuthHandlerUnavailable ''authentication handler is unavailable'' False None)
            else abind (ask_user web challenge) (\<lambda>response.
              case response_Validate response challenge of Some e \<Rightarrow> araise e | None \<Rightarrow> aret response)))"

definition challenge :: "AuthChallengeKind \<Rightarrow> string \<Rightarrow> string \<Rightarrow> bytes \<Rightarrow> bool \<Rightarrow> string \<Rightarrow> AuthChallenge" where
  "challenge kind prompt url img skip i =
     \<lparr> challenge_ID = i, challenge_Kind = kind, challenge_Prompt = prompt, challenge_URL = url, challenge_Image = img,
       challenge_AllowSkip = skip, challenge_Choices = [] \<rparr>"

section \<open>The exchange of a request\<close>

definition UserAgent :: string where
  "UserAgent = ''Mozilla/5.0 (X11; Linux x86_64) AppleWebKit/537.36 (KHTML, like Gecko) aTrustTray/2.4.10.50 Chrome/83.0.4103.94 Electron/9.0.2 Safari/537.36 aTrustTray-Linux-Plat-Ubuntu-x64 SPCClientType''"

definition json_type :: "(string \<times> string) list" where
  "json_type = [(''Content-Type'', ''application/json;charset=utf-8'')]"

text \<open>The headers of a request: those given, the token of the session, more given ones and a random trace number.\<close>

definition auth_headers :: "'w web \<Rightarrow> (string \<times> string) list \<Rightarrow> ('w AuthSession \<Rightarrow> (string \<times> string) list) \<Rightarrow> ('w, (string \<times> string) list) act" where
  "auth_headers web leading between =
     abind (randSdpId web 8) (\<lambda>t. aget (\<lambda>s. (''User-Agent'', UserAgent) # leading @ [(''x-csrf-token'', as_csrfToken s)] @ between s
       @ [(''x-sdp-traceid'', t)]))"

text \<open>The URL of a path of the gateway.\<close>

definition gateway_url :: "string \<Rightarrow> Values \<Rightarrow> 'w AuthSession \<Rightarrow> string" where
  "gateway_url path params s = as_baseURL s @ path @ ''?'' @ Values_Encode params"

definition exchange ::
  "'w web \<Rightarrow> string \<Rightarrow> string \<Rightarrow> Values \<Rightarrow> (string \<times> string) list \<Rightarrow> ('w AuthSession \<Rightarrow> (string \<times> string) list) \<Rightarrow> request_body
   \<Rightarrow> ('w, bytes) act" where
  "exchange web meth path params leading between body =
     abind (aget (gateway_url path params)) (\<lambda>target.
     abind (newRequest web meth target) (\<lambda>_.
     abind (auth_headers web leading between) (\<lambda>headers.
     abind (http_Do web \<lparr> rq_method = meth, rq_url = target, rq_headers = headers, rq_body = body, rq_follow = True \<rparr>) (\<lambda>resp.
     alift (readAuthResponse (Some resp))))))"

definition failed_with :: "string \<Rightarrow> 'd reply \<Rightarrow> gerror" where
  "failed_with name re = Opaque (name @ '' failed with code '' @ show_int (re_Code re) @ '': '' @ re_Message re)"

section \<open>Requests\<close>

definition authConfig :: "'w web \<Rightarrow> bool \<Rightarrow> bool \<Rightarrow> ('w, int \<times> AuthInfo list) act" where
  "authConfig web md needTicket =
     (let p0 = WithSharedParams [];
          p1 = (if md then Values_Set ''mod'' ''1'' p0 else p0);
          params = (if needTicket then Values_Set ''needTicket'' ''1'' p1 else p1)
      in abind (exchange web ''GET'' ''/passport/v1/public/authConfig'' params [] (\<lambda>s. [(''x-sdp-rid'', as_rid s)]) NoBody) (\<lambda>body.
         abind (alift (wb_authConfig web body)) (\<lambda>re.
         abind (aput (\<lambda>s. s\<lparr>as_csrfToken := (if cf_CSRF re = [] then cf_SecurityCSRF re else cf_CSRF re), as_pubKey := cf_PubKey re,
                           as_pubKeyExp := cf_PubKeyExp re, as_antiReplayRand := cf_AntiReplayRand re\<rparr>)) (\<lambda>_.
         aret (cf_IsLogin re, cf_AuthServerInfoList re)))))"

definition GetAuthInfoList :: "'w web \<Rightarrow> ('w, AuthInfo list) act" where
  "GetAuthInfoList web = abind (authConfig web False True) (\<lambda>(_, list). aret list)"

definition env_payload :: "string \<Rightarrow> string \<Rightarrow> json" where
  "env_payload ticket deviceID =
     JObj [(''ticket'', JStr ticket), (''deviceId'', JStr deviceID),
           (''env'', JObj [(''endpoint'', JObj [(''device_id'', JStr deviceID), (''device'', JObj [(''type'', JStr ''browser'')])])])]"

definition reportEnv :: "'w web \<Rightarrow> ('w, unit) act" where
  "reportEnv web =
     abind (aget (\<lambda>s. (as_ticket s, as_deviceID s))) (\<lambda>(ticket, deviceID).
       if ticket = [] then araise (Opaque ''ticket is empty'')
       else abind (exchange web ''POST'' ''/controller/v1/public/reportEnv'' (WithSharedParams []) json_type (\<lambda>_. [])
                     (JSONBody (env_payload ticket deviceID))) (\<lambda>body.
            abind (alift (wb_code web body)) (\<lambda>code.
            if code \<noteq> 0 then araise (Opaque (''reportEnv failed with code '' @ show_int code)) else aret ())))"

text \<open>The service the gateway wants next.\<close>

definition authStepFromData :: "authStepData \<Rightarrow> authStep" where
  "authStepFromData data =
     (let selected = (case (if sd_NextService data = [] then None
                            else find (\<lambda>service. sv_AuthType service = sd_NextService data) (sd_NextServiceList data)) of
                        Some service \<Rightarrow> Some service
                      | None \<Rightarrow> (case sd_NextServiceList data of [] \<Rightarrow> None | service # _ \<Rightarrow> Some service));
          authID = (case selected of None \<Rightarrow> [] | Some service \<Rightarrow> sv_AuthID service);
          service1 = (if sd_NextService data = [] then (case selected of None \<Rightarrow> [] | Some service \<Rightarrow> sv_AuthType service)
                      else sd_NextService data);
          service2 = (if service1 = [] \<and> authID \<noteq> [] then ''auth/sms'' else service1)
      in \<lparr> st_Service = service2, st_AuthID = authID,
           st_SMSMode = (if service2 = ''auth/sms'' then (if authID = [] then smsWithoutAuthID else smsWithAuthID) else smsModeUnknown) \<rparr>)"

definition authCheck :: "'w web \<Rightarrow> ('w, authStep) act" where
  "authCheck web =
     abind (exchange web ''GET'' ''/passport/v1/auth/authCheck'' (WithSharedParams []) [] (\<lambda>_. []) NoBody) (\<lambda>body.
     abind (alift (wb_step web body)) (\<lambda>ac.
     if re_Code ac \<noteq> 0 then araise (failed_with ''authCheck'' ac) else aret (authStepFromData (re_Data ac))))"

definition parsePhoneNumbers :: "'w web \<Rightarrow> string \<Rightarrow> string list result" where
  "parsePhoneNumbers web raw0 =
     (let raw = TrimSpace raw0 in
      if raw = [] \<or> raw = ''null'' then Inr []
      else if raw ! 0 = CHR ''['' then (case wb_strings web raw of Inl e \<Rightarrow> Inl (errorf ''parse phoneNumber list'' e) | Inr l \<Rightarrow> Inr l)
      else case wb_string web raw of
             Inl e \<Rightarrow> Inl (errorf ''parse phoneNumber'' e)
           | Inr phoneNumber \<Rightarrow> Inr (if phoneNumber = [] then [] else [phoneNumber]))"

definition phoneNumber :: "'w web \<Rightarrow> string \<Rightarrow> ('w, string list) act" where
  "phoneNumber web authID =
     (let params = (if authID \<noteq> [] then Values_Set ''authId'' authID (WithSharedParams []) else WithSharedParams [])
      in abind (exchange web ''GET'' ''/passport/v1/public/phoneNumber'' params [] (\<lambda>_. []) NoBody) (\<lambda>body.
         abind (alift (wb_phone web body)) (\<lambda>re.
         if re_Code re \<noteq> 0 then araise (failed_with ''phoneNumber'' re)
         else abind (alift (parsePhoneNumbers web (fst (re_Data re)))) (\<lambda>phoneNumbers.
           aret (if phoneNumbers = [] \<and> snd (re_Data re) \<noteq> [] then [snd (re_Data re)] else phoneNumbers)))))"

definition sms_params :: "authStep \<Rightarrow> Values \<Rightarrow> Values result" where
  "sms_params step params =
     (case st_SMSMode step of
        smsWithAuthID \<Rightarrow>
          if st_AuthID step = [] then Inl (Opaque ''SMS authentication requires authId'')
          else Inr (Values_Set ''authId'' (st_AuthID step) (Values_Set ''taskId'' [] (Values_Set ''isPrevEffect'' ''0'' params)))
      | smsWithoutAuthID \<Rightarrow> Inr params
      | smsModeUnknown \<Rightarrow> Inl (Opaque ''unknown SMS authentication mode''))"

definition authSms :: "'w web \<Rightarrow> authStep \<Rightarrow> ('w, unit) act" where
  "authSms web step =
     abind (alift (sms_params step (WithSharedParams [(''action'', [''sendsms''])]))) (\<lambda>params.
     abind (exchange web ''GET'' ''/passport/v1/auth/sms'' params [] (\<lambda>_. []) NoBody) (\<lambda>body.
     abind (alift (wb_tips web body)) (\<lambda>re.
     if re_Code re \<noteq> 0 \<and> re_Code re \<noteq> 75500401 then araise (failed_with ''authSms'' re) else aret ())))"

definition skip_string :: "bool \<Rightarrow> string" where
  "skip_string skip = (if skip then ''1'' else ''0'')"

definition check_body :: "authStep \<Rightarrow> string \<Rightarrow> bool \<Rightarrow> ((string \<times> string) list \<times> request_body) result" where
  "check_body step code skip =
     (case st_SMSMode step of
        smsWithoutAuthID \<Rightarrow>
          Inr ([(''Content-Type'', ''application/x-www-form-urlencoded'')],
               FormBody (Values_Encode [(''code'', [code]), (''skipSecondaryAuth'', [skip_string skip])]))
      | smsWithAuthID \<Rightarrow>
          if st_AuthID step = [] then Inl (Opaque ''SMS authentication requires authId'')
          else Inr (json_type, JSONBody (JObj [(''isPrevEffect'', JBool False), (''code'', JStr code),
                 (''skipSecondaryAuth'', JStr (skip_string skip)), (''taskId'', JStr []), (''authId'', JStr (st_AuthID step))]))
      | smsModeUnknown \<Rightarrow> Inl (Opaque ''unknown SMS authentication mode''))"

definition secondarySMSCheckCodeImpl :: "'w web \<Rightarrow> authStep \<Rightarrow> string \<Rightarrow> bool \<Rightarrow> ('w, authStep) act" where
  "secondarySMSCheckCodeImpl web step code skip =
     abind (alift (check_body step code skip)) (\<lambda>(headers, payload).
     abind (exchange web ''POST'' ''/passport/v1/auth/sms'' (WithSharedParams [(''action'', [''checkcode''])]) headers (\<lambda>_. []) payload) (\<lambda>body.
     abind (alift (wb_step web body)) (\<lambda>re.
     if re_Code re \<noteq> 0 then araise (failed_with ''smsCheckCode'' re) else aret (authStepFromData (re_Data re)))))"

definition ask_code :: "'w web \<Rightarrow> ('w, AuthResponse) act" where
  "ask_code web =
     abind (randSdpId web 16) (\<lambda>i. handleChallenge web (challenge AuthChallengeSecondarySMS ''Enter SMS verification code: '' [] [] True i))"

definition smsCheckCode :: "'w web \<Rightarrow> authStep \<Rightarrow> ('w, authStep) act" where
  "smsCheckCode web step =
     abind (ask_code web) (\<lambda>response. secondarySMSCheckCodeImpl web step (response_Value response) (response_Skip response))"

definition onlineInfo :: "'w web \<Rightarrow> ('w, string) act" where
  "onlineInfo web =
     abind (exchange web ''GET'' ''/passport/v1/user/onlineInfo'' (WithSharedParams []) [] (\<lambda>_. []) NoBody) (\<lambda>body.
     abind (alift (wb_username web body)) (\<lambda>(code, username).
     if code \<noteq> 0 then araise (Opaque (''onlineInfo failed with code '' @ show_int code)) else aret username))"

definition ClientResourceContext :: "'w web \<Rightarrow> ('w, bytes) act" where
  "ClientResourceContext web =
     exchange web ''POST'' ''/controller/v1/user/clientResource'' (WithSharedParams []) json_type (\<lambda>_. [])
       (JSONBody (JObj [(''resourceType'', JObj [(''sdpPolicy'', JObj []), (''appList'', JObj []), (''favoriteAppList'', JObj []),
          (''featureCenter'', JObj []), (''uemSpace'', JObj [(''params'', JObj [(''action'', JStr ''login'')])])])]))"

text \<open>The captcha: the request has no token and no trace number.\<close>

definition checkCode :: "'w web \<Rightarrow> ('w, bytes) act" where
  "checkCode web =
     abind (outside (\<lambda>w. case wb_UnixMilli web w of (t, w') \<Rightarrow> (Inr t, w'))) (\<lambda>now.
     abind (aget (gateway_url ''/passport/v1/public/checkCode'' (WithSharedParams [(''rnd'', [show_int now])]))) (\<lambda>target.
     abind (newRequest web ''GET'' target) (\<lambda>_.
     abind (http_Do web \<lparr> rq_method = ''GET'', rq_url = target,
         rq_headers = [(''User-Agent'', UserAgent), (''Accept'', ''image/webp,image/apng,image/*,*/*;q=0.8'')], rq_body = NoBody, rq_follow = True \<rparr>) (\<lambda>resp.
     abind (alift (read_limited (MaxAuthChallengeImageSize + 1) (rs_body resp))) (\<lambda>body.
     if length body > MaxAuthChallengeImageSize
     then araise (Opaque (''check code image exceeds '' @ show_nat MaxAuthChallengeImageSize @ '' bytes''))
     else aret body)))))"

definition parsePortalTicketFromRedirect :: "'w web \<Rightarrow> string \<Rightarrow> string \<Rightarrow> string result" where
  "parsePortalTicketFromRedirect web redirectLocation baseHost =
     rbind (wb_Parse web redirectLocation) (\<lambda>u.
       if url_Scheme u \<noteq> ''https'' then Inl (Opaque ''invalid redirect url: scheme not https'')
       else if url_Host u \<noteq> baseHost then Inl (Opaque ''invalid redirect url: host not match'')
       else if url_Path u \<noteq> ''/portal/shortcut.html'' then Inl (Opaque ''invalid redirect url: path not match'')
       else if Query_Get u ''data'' = [] then Inl (Opaque ''invalid redirect url: data not found'')
       else rbind (wb_portal web (Query_Get u ''data'')) (\<lambda>ticket.
         if ticket = [] then Inl (Opaque ''invalid portal data: ticket not found'') else Inr ticket))"

section \<open>Login methods\<close>

definition maxAttempts :: nat where "maxAttempts = 5"

definition maxAuthSteps :: nat where "maxAuthSteps = 8"

text \<open>The loop over the captchas: \<open>n\<close> attempts are left, and the last answer was \<open>enable\<close>.\<close>

definition captcha_verdict :: "int \<Rightarrow> ('w, unit) act" where
  "captcha_verdict enable =
     (if enable \<noteq> 0 then araise (Opaque (''captcha verification failed after '' @ show_nat maxAttempts @ '' attempts'')) else aret ())"

primrec graph_loop :: "'w web \<Rightarrow> (string \<Rightarrow> ('w, int) act) \<Rightarrow> nat \<Rightarrow> int \<Rightarrow> ('w, unit) act" where
  "graph_loop web process 0 enable = captcha_verdict enable"
| "graph_loop web process (Suc n) enable =
     (if enable \<noteq> 1 then captcha_verdict enable
      else abind (ctx_Err web) (\<lambda>_.
           abind (checkCode web) (\<lambda>imgData.
           abind (authConfig web False True) (\<lambda>_.
           abind (awrap ''get graph check code'' (abind (randSdpId web 16) (\<lambda>i.
             handleChallenge web (challenge AuthChallengeGraphClick ''Enter graph check code JSON: '' [] imgData False i)))) (\<lambda>response.
           abind (process (response_Value response)) (\<lambda>enable'.
           if enable' = 0 then aret () else graph_loop web process n enable'))))))"

definition withGraphCheckCode :: "'w web \<Rightarrow> (string \<Rightarrow> ('w, int) act) \<Rightarrow> ('w, unit) act" where
  "withGraphCheckCode web process =
     abind (ctx_Err web) (\<lambda>_. abind (process []) (\<lambda>enable. graph_loop web process maxAttempts enable))"

definition env_header :: "'w AuthSession \<Rightarrow> (string \<times> string) list" where
  "env_header s = [(''x-sdp-env'', as_env s)]"

definition graph_field :: "string \<Rightarrow> (string \<times> json) list" where
  "graph_field graphCheckCode = (if graphCheckCode \<noteq> [] then [(''graphCheckCode'', JStr graphCheckCode)] else [])"

text \<open>The answer's code is only logged.\<close>

definition take_ticket :: "'w web \<Rightarrow> bytes \<Rightarrow> ('w, int) act" where
  "take_ticket web body =
     abind (alift (wb_ticket web body)) (\<lambda>re.
     abind (aput (\<lambda>s. s\<lparr>as_ticket := fst (re_Data re)\<rparr>)) (\<lambda>_. aret (snd (re_Data re))))"

definition pswImpl :: "'w web \<Rightarrow> string \<Rightarrow> string \<Rightarrow> string \<Rightarrow> string \<Rightarrow> ('w, int) act" where
  "pswImpl web username password loginDomain graphCheckCode =
     abind (aget (\<lambda>s. (as_pubKey s, as_pubKeyExp s, as_antiReplayRand s))) (\<lambda>(pubKey, pubKeyExp, antiReplayRand).
     abind (outside (wb_EncryptPKCS1v15 web pubKey pubKeyExp (byte_string (password @ ''_'' @ antiReplayRand)))) (\<lambda>cipherBytes.
     abind (exchange web ''POST'' ''/passport/v1/auth/psw'' (WithSharedParams []) json_type env_header
       (JSONBody (JObj ([(''username'', JStr (username @ ''@'' @ loginDomain)), (''password'', JStr (concat (map hex02 cipherBytes))),
                         (''rememberPwd'', JStr ''0'')] @ graph_field graphCheckCode)))) (take_ticket web)))"

definition loginAuthPsw :: "'w web \<Rightarrow> string \<Rightarrow> string \<Rightarrow> string \<Rightarrow> ('w, unit) act" where
  "loginAuthPsw web username password loginDomain = withGraphCheckCode web (pswImpl web username password loginDomain)"

definition casCallbackFromTicket :: "string \<Rightarrow> string \<Rightarrow> 'w AuthSession \<Rightarrow> string" where
  "casCallbackFromTicket loginDomain ticket s =
     as_baseURL s @ ''/passport/v1/auth/cas?'' @ Values_Encode [(''sfDomain'', [loginDomain]), (''ticket'', [ticket])]"

definition validate_callback :: "string \<Rightarrow> string \<Rightarrow> URL \<Rightarrow> string \<Rightarrow> gerror option" where
  "validate_callback path key u baseHost =
     (if url_Scheme u \<noteq> ''https'' then Some (Opaque ''invalid callback url: scheme not https'')
      else if url_Host u \<noteq> baseHost then Some (Opaque ''invalid callback url: host not match'')
      else if url_Path u \<noteq> path then Some (Opaque ''invalid callback url: path not match'')
      else if Query_Get u key = [] then Some (Opaque (''invalid callback url: '' @ key @ '' not found''))
      else None)"

definition validateCASCallbackURL :: "URL \<Rightarrow> string \<Rightarrow> gerror option" where
  "validateCASCallbackURL = validate_callback ''/passport/v1/auth/cas'' ''ticket''"

definition validateHTTPSOauth2CallbackURL :: "URL \<Rightarrow> string \<Rightarrow> gerror option" where
  "validateHTTPSOauth2CallbackURL = validate_callback ''/passport/v1/auth/httpsOauth2'' ''code''"

definition ask_callback :: "'w web \<Rightarrow> AuthChallengeKind \<Rightarrow> string \<Rightarrow> (URL \<Rightarrow> string \<Rightarrow> gerror option) \<Rightarrow> string \<Rightarrow> ('w, string) act" where
  "ask_callback web kind prompt validate loginURL =
     abind (randSdpId web 16) (\<lambda>i.
     abind (handleChallenge web (challenge kind prompt loginURL [] False i)) (\<lambda>response.
     abind (alift (wb_Parse web (response_Value response))) (\<lambda>u.
     abind (aget as_baseHost) (\<lambda>baseHost.
     case validate u baseHost of Some e \<Rightarrow> araise e | None \<Rightarrow> aret (response_Value response)))))"

definition interactiveCas :: "'w web \<Rightarrow> string \<Rightarrow> ('w, string) act" where
  "interactiveCas web = ask_callback web AuthChallengeCASCallback ''Enter CAS callback URL: '' validateCASCallbackURL"

definition interactiveHttpsOauth2 :: "'w web \<Rightarrow> string \<Rightarrow> ('w, string) act" where
  "interactiveHttpsOauth2 web = ask_callback web AuthChallengeOAuthCallback ''Enter OAuth2 callback URL: '' validateHTTPSOauth2CallbackURL"

text \<open>Both callbacks are requested without following the redirect, which carries the ticket.\<close>

definition request_callback :: "'w web \<Rightarrow> string \<Rightarrow> ('w, unit) act" where
  "request_callback web callback =
     abind (newRequest web ''GET'' callback) (\<lambda>_.
     abind (auth_headers web [] (\<lambda>_. [])) (\<lambda>headers.
     abind (http_Do web \<lparr> rq_method = ''GET'', rq_url = callback, rq_headers = headers, rq_body = NoBody, rq_follow = False \<rparr>) (\<lambda>resp.
     if rs_status resp \<noteq> 302 then araise (Opaque (''invalid status code: '' @ show_int (rs_status resp)))
     else abind (aget as_baseHost) (\<lambda>baseHost.
          abind (alift (parsePortalTicketFromRedirect web (rs_location resp) baseHost)) (\<lambda>ticket.
          abind (alift (readAuthResponse (Some resp))) (\<lambda>_. aput (\<lambda>s. s\<lparr>as_ticket := ticket\<rparr>)))))))"

definition cas :: "'w web \<Rightarrow> string \<Rightarrow> ('w, unit) act" where
  "cas = request_callback"

definition httpsOauth2 :: "'w web \<Rightarrow> string \<Rightarrow> ('w, unit) act" where
  "httpsOauth2 = request_callback"

definition loginAuthCas :: "'w web \<Rightarrow> string \<Rightarrow> string \<Rightarrow> string \<Rightarrow> ('w, unit) act" where
  "loginAuthCas web loginURL loginDomain ticket =
     abind (if ticket = [] then interactiveCas web loginURL else aget (casCallbackFromTicket loginDomain ticket)) (\<lambda>callback.
     abind (cas web callback) (\<lambda>_.
     abind (authConfig web True False) (\<lambda>_. aret ())))"

definition httpsOauth2CallbackFromCode :: "string \<Rightarrow> string \<Rightarrow> 'w AuthSession \<Rightarrow> string" where
  "httpsOauth2CallbackFromCode loginDomain code s =
     as_baseURL s @ ''/passport/v1/auth/httpsOauth2?'' @ Values_Encode [(''sfDomain'', [loginDomain]), (''code'', [code]), (''state'', [''null''])]"

definition loginAuthHttpsOauth2 :: "'w web \<Rightarrow> string \<Rightarrow> string \<Rightarrow> string \<Rightarrow> string \<Rightarrow> ('w, unit) act" where
  "loginAuthHttpsOauth2 web loginURL loginDomain code callback0 =
     abind (if callback0 = [] \<and> code \<noteq> [] then aget (httpsOauth2CallbackFromCode loginDomain code) else aret callback0) (\<lambda>callback1.
     abind (if callback1 = [] then interactiveHttpsOauth2 web loginURL else aret callback1) (\<lambda>callback.
     abind (httpsOauth2 web callback) (\<lambda>_.
     abind (authConfig web True False) (\<lambda>_. aret ()))))"

definition sendSms :: "'w web \<Rightarrow> string \<Rightarrow> string \<Rightarrow> string \<Rightarrow> ('w, int) act" where
  "sendSms web phone loginDomain graphCheckCode =
     abind (exchange web ''POST'' ''/passport/v1/public/sendSms'' (WithSharedParams []) json_type env_header
       (JSONBody (JObj [(''phone'', JStr (phone @ ''@'' @ loginDomain)), (''graphCheckCode'', JStr graphCheckCode)]))) (\<lambda>body.
     abind (alift (wb_sent web body)) (\<lambda>re. aret (snd (snd (re_Data re)))))"

definition smsCheckCodeImpl :: "'w web \<Rightarrow> string \<Rightarrow> string \<Rightarrow> string \<Rightarrow> string \<Rightarrow> ('w, int) act" where
  "smsCheckCodeImpl web code phone loginDomain graphCheckCode =
     abind (exchange web ''POST'' ''/passport/v1/auth/smsCheckCode'' (WithSharedParams []) json_type env_header
       (JSONBody (JObj ([(''code'', JStr code), (''phone'', JStr (phone @ ''@'' @ loginDomain))] @ graph_field graphCheckCode)))) (take_ticket web)"

definition loginAuthSmsCheckCode :: "'w web \<Rightarrow> string \<Rightarrow> string \<Rightarrow> ('w, unit) act" where
  "loginAuthSmsCheckCode web phone loginDomain =
     abind (withGraphCheckCode web (sendSms web phone loginDomain)) (\<lambda>_.
     abind (abind (randSdpId web 16) (\<lambda>i.
       handleChallenge web (challenge AuthChallengeSMS ''Enter SMS verification code: '' [] [] False i))) (\<lambda>response.
     withGraphCheckCode web (smsCheckCodeImpl web (response_Value response) phone loginDomain)))"

text \<open>The structs that implement \<^verbatim>\<open>LoginMethod\<close>. The file of the captcha is a field nothing reads.\<close>

datatype LoginMethod =
    PasswordLogin (lm_Username: string) (lm_Password: string) (lm_Domain: string) (lm_GraphCodeFile: string)
  | CASLogin (lm_Domain: string) (lm_Ticket: string)
  | HTTPSOauth2Login (lm_Domain: string) (lm_Code: string) (lm_Callback: string)
  | SMSLogin (lm_Phone: string) (lm_Domain: string) (lm_GraphCodeFile: string)

fun method_AuthType :: "LoginMethod \<Rightarrow> string" where
  "method_AuthType (PasswordLogin _ _ _ _) = ''auth/psw''"
| "method_AuthType (CASLogin _ _) = ''auth/cas''"
| "method_AuthType (HTTPSOauth2Login _ _ _) = ''auth/httpsOauth2''"
| "method_AuthType (SMSLogin _ _ _) = ''auth/smsCheckCode''"

fun method_login :: "'w web \<Rightarrow> LoginMethod \<Rightarrow> AuthInfo \<Rightarrow> ('w, unit) act" where
  "method_login web (PasswordLogin username password domain _) info = loginAuthPsw web username password domain"
| "method_login web (CASLogin domain ticket) info = loginAuthCas web (ai_LoginURL info) domain ticket"
| "method_login web (HTTPSOauth2Login domain code callback) info = loginAuthHttpsOauth2 web (ai_LoginURL info) domain code callback"
| "method_login web (SMSLogin phone domain _) info = loginAuthSmsCheckCode web phone domain"

section \<open>The steps after the login\<close>

definition completeSMS :: "'w web \<Rightarrow> authStep \<Rightarrow> ('w, authStep) act" where
  "completeSMS web step =
     abind (case st_SMSMode step of
              smsWithAuthID \<Rightarrow> abind (authConfig web True True) (\<lambda>_. aret ())
            | smsWithoutAuthID \<Rightarrow> aret ()
            | smsModeUnknown \<Rightarrow> araise (Opaque ''unknown SMS authentication mode'')) (\<lambda>_.
     abind (atry (phoneNumber web (st_AuthID step))) (\<lambda>_.
     abind (authSms web step) (\<lambda>_.
     abind (if st_SMSMode step = smsWithoutAuthID then abind (authConfig web True True) (\<lambda>_. aret ()) else aret ()) (\<lambda>_.
     smsCheckCode web step))))"

text \<open>The requests of \<^verbatim>\<open>custom_sms.go\<close> return the error of a request that cannot be made as it is.\<close>

definition custom_exchange :: "'w web \<Rightarrow> string \<Rightarrow> json \<Rightarrow> ('w, bytes) act" where
  "custom_exchange web action payload =
     abind (aget (gateway_url ''/passport/v1/auth/customSms'' (WithSharedParams [(''action'', [action])]))) (\<lambda>target.
     abind (case wb_newRequest web ''POST'' target of Some e \<Rightarrow> araise e | None \<Rightarrow> aret ()) (\<lambda>_.
     abind (auth_headers web json_type (\<lambda>_. [])) (\<lambda>headers.
     abind (http_Do web \<lparr> rq_method = ''POST'', rq_url = target, rq_headers = headers, rq_body = JSONBody payload, rq_follow = True \<rparr>) (\<lambda>resp.
     alift (readAuthResponse (Some resp))))))"

definition sendCustomSMS :: "'w web \<Rightarrow> ('w, unit) act" where
  "sendCustomSMS web =
     abind (custom_exchange web ''sendcustomsms'' (JObj [(''isPrevEffect'', JStr ''0''), (''taskId'', JStr [])])) (\<lambda>body.
     abind (alift (wb_tips web body)) (\<lambda>result.
     if re_Code result \<noteq> 0 then araise (failed_with ''sendCustomSMS'' result) else aret ()))"

definition customSMSCheckCode :: "'w web \<Rightarrow> string \<Rightarrow> bool \<Rightarrow> ('w, authStep) act" where
  "customSMSCheckCode web code skip =
     abind (custom_exchange web ''checkcustomcode'' (JObj [(''isPrevEffect'', JBool False), (''customCode'', JStr code),
       (''skipSecondaryAuth'', JStr (skip_string skip)), (''taskId'', JStr [])])) (\<lambda>body.
     abind (alift (wb_step web body)) (\<lambda>result.
     if re_Code result \<noteq> 0 then araise (failed_with ''customSMSCheckCode'' result) else aret (authStepFromData (re_Data result))))"

definition completeCustomSMS :: "'w web \<Rightarrow> ('w, authStep) act" where
  "completeCustomSMS web =
     abind (sendCustomSMS web) (\<lambda>_.
     abind (ask_code web) (\<lambda>response. customSMSCheckCode web (response_Value response) (response_Skip response)))"

definition auth_service :: "'w web \<Rightarrow> authStep \<Rightarrow> ('w, authStep) act" where
  "auth_service web step =
     (if st_Service step = ''auth/authCheck'' then authCheck web
      else if st_Service step = ''auth/sms'' then completeSMS web step
      else if st_Service step = ''auth/customSms'' then completeCustomSMS web
      else araise (Opaque (''unsupported next authentication service: '' @ st_Service step)))"

primrec auth_steps :: "'w web \<Rightarrow> nat \<Rightarrow> authStep \<Rightarrow> ('w, unit) act" where
  "auth_steps web 0 step = araise (Opaque (''authentication chain exceeded '' @ show_nat maxAuthSteps @ '' steps''))"
| "auth_steps web (Suc n) step =
     abind (ctx_Err web) (\<lambda>_.
       if st_Service step = [] then aret () else abind (auth_service web step) (\<lambda>step'. auth_steps web n step'))"

definition continueAuth :: "'w web \<Rightarrow> authStep \<Rightarrow> ('w, unit) act" where
  "continueAuth web step = auth_steps web maxAuthSteps step"

section \<open>The login\<close>

definition given_sid :: "string \<Rightarrow> Cookie list \<Rightarrow> string" where
  "given_sid baseHost cookies =
     foldl (\<lambda>sid c. if ck_Host c = baseHost \<and> ck_Scheme c = ''https'' \<and> ck_Name c = ''sid'' then ck_Value c else sid) [] cookies"

definition load_cookies :: "'w web \<Rightarrow> Cookie list \<Rightarrow> 'w \<Rightarrow> 'w" where
  "load_cookies web cookies w = foldl (\<lambda>w c. wb_SetCookies web (ck_Host c) (ck_Scheme c) (ck_Name c) (ck_Value c) w) w cookies"

definition device_env :: "string \<Rightarrow> string" where
  "device_env deviceID = EncodeToString (byte_string (''{'' @ [CHR 0x22] @ ''deviceId'' @ [CHR 0x22] @ '':'' @ [CHR 0x22] @ deviceID @ [CHR 0x22] @ ''}''))"

definition jar_result :: "'w web \<Rightarrow> string \<Rightarrow> string \<Rightarrow> 'w AuthSession \<Rightarrow> LoginResult" where
  "jar_result web sid username s =
     (let cookies = wb_Cookies web (as_baseHost s) (as_world s) in
      \<lparr> lr_Username = username, lr_SID = foldl (\<lambda>sid c. if fst c = ''sid'' then snd c else sid) sid cookies,
        lr_Cookies = map (\<lambda>c. \<lparr> ck_Host = as_baseHost s, ck_Scheme = ''https'', ck_Name = fst c, ck_Value = snd c \<rparr>) cookies,
        lr_Reused = False \<rparr>)"

definition sign_in :: "'w web \<Rightarrow> LoginMethod \<Rightarrow> AuthInfo \<Rightarrow> string \<Rightarrow> ('w, LoginResult) act" where
  "sign_in web m info sid =
     abind (method_login web m info) (\<lambda>_.
     abind (reportEnv web) (\<lambda>_.
     abind (continueAuth web \<lparr> st_Service = ''auth/authCheck'', st_AuthID = [], st_SMSMode = smsModeUnknown \<rparr>) (\<lambda>_.
     abind (onlineInfo web) (\<lambda>username. aget (jar_result web sid username)))))"

text \<open>What follows the gateway's configuration: the old session is still valid, or the method is looked up and used.\<close>

definition login_with :: "'w web \<Rightarrow> LoginMethod option \<Rightarrow> Cookie list \<Rightarrow> string \<Rightarrow> int \<times> AuthInfo list \<Rightarrow> ('w, LoginResult) act" where
  "login_with web meth cookies sid config =
     (if fst config = 1 then
        abind (onlineInfo web) (\<lambda>username.
        aret \<lparr> lr_Username = username, lr_SID = sid, lr_Cookies = cookies, lr_Reused = True \<rparr>)
      else case meth of
        None \<Rightarrow> araise (Opaque ''login method is nil, but user is not logged in'')
      | Some m \<Rightarrow>
          (case find (\<lambda>info. ai_AuthType info = method_AuthType m \<and> ai_LoginDomain info = lm_Domain m) (snd config) of
             None \<Rightarrow> araise (Opaque (''auth type/login domain combination not found: auth type: '' @ method_AuthType m
                       @ '', login domain: '' @ lm_Domain m))
           | Some info \<Rightarrow> sign_in web m info sid))"

definition LoginContext :: "'w web \<Rightarrow> LoginMethod option \<Rightarrow> LoginOptions \<Rightarrow> ('w, LoginResult) act" where
  "LoginContext web meth opts =
     abind (ctx_Err web) (\<lambda>_.
     abind (aget (\<lambda>s. given_sid (as_baseHost s) (lo_Cookies opts))) (\<lambda>sid.
     abind (aput (\<lambda>s. s\<lparr>as_world := load_cookies web (lo_Cookies opts) (as_world s), as_deviceID := lo_DeviceID opts,
                        as_env := device_env (lo_DeviceID opts)\<rparr>)) (\<lambda>_.
     abind (authConfig web False True) (\<lambda>config. login_with web meth (lo_Cookies opts) sid config))))"

section \<open>Trusted devices\<close>

definition QueryDevice :: "'w web \<Rightarrow> ('w, QueryDeviceResult) act" where
  "QueryDevice web =
     abind (exchange web ''GET'' ''/passport/v1/security/queryDevice'' (WithSharedParams [(''status'', [''trust''])]) json_type (\<lambda>_. []) NoBody) (\<lambda>body.
     abind (alift (wb_device web body)) (\<lambda>re.
     if re_Code re \<noteq> 0 then araise (failed_with ''queryDevice'' re) else aret (re_Data re)))"

definition change_trust :: "'w web \<Rightarrow> string \<Rightarrow> string list \<Rightarrow> ('w, unit) act" where
  "change_trust web name idList =
     abind (exchange web ''POST'' (''/passport/v1/security/'' @ name) (WithSharedParams []) json_type (\<lambda>_. [])
       (JSONBody (JObj [(''idList'', JArr (map JStr idList))]))) (\<lambda>body.
     abind (alift (wb_status web body)) (\<lambda>re.
     if re_Code re \<noteq> 0 then araise (failed_with name re) else aret ()))"

definition TrustDevice :: "'w web \<Rightarrow> string list \<Rightarrow> ('w, unit) act" where
  "TrustDevice web = change_trust web ''trustDevice''"

definition UntrustDevice :: "'w web \<Rightarrow> string list \<Rightarrow> ('w, unit) act" where
  "UntrustDevice web = change_trust web ''untrustDevice''"

section \<open>What the actions do\<close>

subsection \<open>Requests go to the gateway, and there are few of them\<close>

fun is_sent :: "auth_event \<Rightarrow> bool" where
  "is_sent (Sent _) = True"
| "is_sent (Asked _) = False"

definition sent_count :: "auth_event list \<Rightarrow> nat" where
  "sent_count es = length (filter is_sent es)"

definition asked_count :: "auth_event list \<Rightarrow> nat" where
  "asked_count es = length (filter (\<lambda>e. \<not> is_sent e) es)"

lemma counts [simp]:
  "sent_count [] = 0" "asked_count [] = 0"
  "sent_count (Sent rq # es) = Suc (sent_count es)" "sent_count (Asked ch # es) = sent_count es"
  "asked_count (Sent rq # es) = asked_count es" "asked_count (Asked ch # es) = Suc (asked_count es)"
  "sent_count (xs @ ys) = sent_count xs + sent_count ys" "asked_count (xs @ ys) = asked_count xs + asked_count ys"
  by (simp_all add: sent_count_def asked_count_def)

text \<open>A request of the gateway: its URL begins with the base URL, or it is one that the URL parser places on the gateway's host. A challenge is one that its
  validation accepts.\<close>

definition local_url :: "'w web \<Rightarrow> string \<Rightarrow> string \<Rightarrow> string \<Rightarrow> bool" where
  "local_url web host base target \<longleftrightarrow> HasPrefix target (base @ ''/'')
     \<or> (\<exists>u. wb_Parse web target = Inr u \<and> url_Scheme u = ''https'' \<and> url_Host u = host)"

definition local_event :: "'w web \<Rightarrow> string \<Rightarrow> string \<Rightarrow> auth_event \<Rightarrow> bool" where
  "local_event web host base e =
     (case e of
        Sent rq \<Rightarrow> local_url web host base (rq_url rq)
      | Asked ch \<Rightarrow> challenge_Validate ch = None)"

text \<open>
  \<open>did web host base n k s t\<close>: the session of the gateway \<open>host\<close> went from \<open>s\<close> to \<open>t\<close> with at most \<open>n\<close> requests and \<open>k\<close> challenges, all of them local.
  \<open>does web host base n k Q m\<close>: so does the action \<open>m\<close> from every session of the gateway, and a value it returns satisfies \<open>Q\<close>.
\<close>

definition did :: "'w web \<Rightarrow> string \<Rightarrow> string \<Rightarrow> nat \<Rightarrow> nat \<Rightarrow> 'w AuthSession \<Rightarrow> 'w AuthSession \<Rightarrow> bool" where
  "did web host base n k s t \<longleftrightarrow> as_baseHost t = host \<and> as_baseURL t = base
     \<and> (\<exists>es. as_trace t = as_trace s @ es \<and> list_all (local_event web host base) es \<and> sent_count es \<le> n \<and> asked_count es \<le> k)"

definition does :: "'w web \<Rightarrow> string \<Rightarrow> string \<Rightarrow> nat \<Rightarrow> nat \<Rightarrow> ('a \<Rightarrow> bool) \<Rightarrow> ('w, 'a) act \<Rightarrow> bool" where
  "does web host base n k Q m \<longleftrightarrow> (\<forall>s. as_baseHost s = host \<longrightarrow> as_baseURL s = base \<longrightarrow>
     did web host base n k s (snd (m s)) \<and> (\<forall>x. fst (m s) = Inr x \<longrightarrow> Q x))"

lemma did_still: "as_baseHost t = host \<Longrightarrow> as_baseURL t = base \<Longrightarrow> as_trace t = as_trace s \<Longrightarrow> did web host base n k s t"
  by (simp add: did_def)

lemma did_mono: "did web host base n k s t \<Longrightarrow> n \<le> n' \<Longrightarrow> k \<le> k' \<Longrightarrow> did web host base n' k' s t"
  unfolding did_def by (meson order_trans)

lemma did_trans:
  assumes "did web host base n k s t" "did web host base n' k' t u"
  shows "did web host base (n + n') (k + k') s u"
proof -
  obtain es es' where "as_trace t = as_trace s @ es" "list_all (local_event web host base) es" "sent_count es \<le> n" "asked_count es \<le> k"
      "as_trace u = as_trace t @ es'" "list_all (local_event web host base) es'" "sent_count es' \<le> n'" "asked_count es' \<le> k'"
    using assms unfolding did_def by auto
  then show ?thesis using assms(2) unfolding did_def by (intro conjI exI [of _ "es @ es'"]) auto
qed

lemma doesI:
  assumes "\<And>s. as_baseHost s = host \<Longrightarrow> as_baseURL s = base \<Longrightarrow> did web host base n k s (snd (m s))"
    and "\<And>s x. as_baseHost s = host \<Longrightarrow> as_baseURL s = base \<Longrightarrow> fst (m s) = Inr x \<Longrightarrow> Q x"
  shows "does web host base n k Q m"
  using assms unfolding does_def by blast

lemma doesD:
  assumes "does web host base n k Q m" "as_baseHost s = host" "as_baseURL s = base" "m s = (r, t)"
  shows "did web host base n k s t" "r = Inr x \<Longrightarrow> Q x"
  using assms unfolding does_def by (metis snd_conv, metis fst_conv)

named_theorems does_intros

lemma does_still:
  assumes "\<And>s. as_baseHost (snd (m s)) = as_baseHost s \<and> as_baseURL (snd (m s)) = as_baseURL s \<and> as_trace (snd (m s)) = as_trace s"
    and "\<And>s x. as_baseHost s = host \<Longrightarrow> as_baseURL s = base \<Longrightarrow> fst (m s) = Inr x \<Longrightarrow> Q x"
  shows "does web host base 0 0 Q m"
  using assms by (auto intro!: doesI did_still)

lemma does_weaken:
  assumes "does web host base n k Q m" "n \<le> n'" "k \<le> k'" "\<And>x. Q x \<Longrightarrow> R x"
  shows "does web host base n' k' R m"
  by (rule doesI) (use assms in \<open>auto simp: does_def intro: did_mono\<close>)

lemma does_le: "does web host base n k Q m \<Longrightarrow> n \<le> n' \<Longrightarrow> k \<le> k' \<Longrightarrow> does web host base n' k' Q m"
  by (rule does_weaken)

lemma does_ret [does_intros]: "Q x \<Longrightarrow> does web host base 0 0 Q (aret x)"
  by (rule does_still) (auto simp: aret_def)

lemma does_raise [does_intros]: "does web host base 0 0 Q (araise e)"
  by (rule does_still) (auto simp: araise_def)

lemma does_lift [does_intros]: "does web host base 0 0 (\<lambda>x. r = Inr x) (alift r)"
  by (rule does_still) (auto simp: alift_def)

lemma does_put:
  assumes "\<And>s. as_baseHost (f s) = as_baseHost s \<and> as_baseURL (f s) = as_baseURL s \<and> as_trace (f s) = as_trace s"
  shows "does web host base 0 0 (\<lambda>_. True) (aput f)"
  using assms by (intro does_still) (auto simp: aput_def)

lemma does_get: "does web host base 0 0 (\<lambda>x. \<exists>s. as_baseHost s = host \<and> as_baseURL s = base \<and> x = f s) (aget f)"
  by (rule does_still) (auto simp: aget_def)

lemma does_ctx [does_intros]: "does web host base 0 0 (\<lambda>_. True) (ctx_Err web')"
  by (rule does_still) (auto simp: ctx_Err_def split: option.split)

lemma does_outside [does_intros]: "does web host base 0 0 (\<lambda>_. True) (outside f)"
  by (rule does_still) (auto simp: outside_def split: prod.split)

lemma abind_cases:
  obtains (raised) e t where "m s = (Inl e, t)" "abind m f s = (Inl e, t)"
    | (returned) x t where "m s = (Inr x, t)" "abind m f s = f x t"
proof (cases "m s")
  case (Pair r t)
  then show thesis using raised returned by (cases r) (simp_all add: abind_def)
qed

lemma does_bind:
  assumes "does web host base n k Q m" "\<And>x. Q x \<Longrightarrow> does web host base n' k' R (f x)"
  shows "does web host base (n + n') (k + k') R (abind m f)"
proof -
  have step: "did web host base (n + n') (k + k') s (snd (abind m f s)) \<and> (\<forall>x. fst (abind m f s) = Inr x \<longrightarrow> R x)"
    if s: "as_baseHost s = host" "as_baseURL s = base" for s
  proof (cases rule: abind_cases [of m s f])
    case (raised e t)
    then show ?thesis using doesD(1) [OF assms(1) s raised(1)] by (auto intro: did_mono)
  next
    case (returned x t)
    have d: "did web host base n k s t" and Q: "Q x" using doesD [OF assms(1) s returned(1)] by auto
    then have t: "as_baseHost t = host" "as_baseURL t = base" by (simp_all add: did_def)
    obtain r u where u: "f x t = (r, u)" by fastforce
    show ?thesis using doesD [OF assms(2) [OF Q] t u] did_trans [OF d] returned(2) u by simp
  qed
  then show ?thesis by (intro doesI) blast+
qed

lemma does_bind_any:
  assumes "does web host base n k (\<lambda>_. True) m" "\<And>x. does web host base n' k' R (f x)"
  shows "does web host base (n + n') (k + k') R (abind m f)"
  using does_bind [OF assms(1)] assms(2) by blast

lemma does_if [does_intros]:
  assumes "c \<Longrightarrow> does web host base n k Q a" "\<not> c \<Longrightarrow> does web host base n' k' Q b"
  shows "does web host base (max n n') (max k k') Q (if c then a else b)"
  using assms by (auto intro: does_weaken)

lemma does_option [does_intros]:
  assumes "v = None \<Longrightarrow> does web host base n k Q a" "\<And>x. v = Some x \<Longrightarrow> does web host base n' k' Q (b x)"
  shows "does web host base (max n n') (max k k') Q (case v of None \<Rightarrow> a | Some x \<Rightarrow> b x)"
  using assms by (auto split: option.split intro: does_weaken)

lemma does_pair [does_intros]: "(\<And>x y. p = (x, y) \<Longrightarrow> does web host base n k Q (f x y)) \<Longrightarrow> does web host base n k Q (case p of (x, y) \<Rightarrow> f x y)"
  by (cases p) simp

lemma does_try [does_intros]: "does web host base n k Q m \<Longrightarrow> does web host base n k (\<lambda>_. True) (atry m)"
  by (auto simp: does_def atry_def)

lemma awrap_results: "snd (awrap p m s) = snd (m s)" "fst (awrap p m s) = Inr x \<longleftrightarrow> fst (m s) = Inr x"
  by (cases "m s"; cases "fst (m s)"; simp add: awrap_def)+

lemma does_wrap [does_intros]: "does web host base n k Q m \<Longrightarrow> does web host base n k Q (awrap p m)"
  by (simp add: does_def awrap_results)

lemma does_any: "does web host base n k Q m \<Longrightarrow> does web host base n k (\<lambda>_. True) m"
  by (rule does_weaken) auto

lemma does_Do:
  assumes "local_event web host base (Sent rq)"
  shows "does web host base 1 0 (\<lambda>_. True) (http_Do web' rq)"
  using assms by (auto simp: http_Do_def did_def split: prod.split intro!: doesI)

lemma does_newRequest [does_intros]: "does web host base 0 0 (\<lambda>_. True) (newRequest web' meth target)"
  unfolding newRequest_def by (cases "wb_newRequest web' meth target") (simp_all add: does_ret does_raise)

lemma does_randSdpId [does_intros]: "does web host base 0 0 (\<lambda>_. True) (randSdpId web' n)"
  unfolding randSdpId_def by (rule does_outside)

lemma does_headers [does_intros]: "does web host base 0 0 (\<lambda>_. True) (auth_headers web' leading between)"
  unfolding auth_headers_def by (rule does_weaken, rule does_bind_any, rule does_randSdpId, rule does_any, rule does_get) simp_all

lemma gateway_url_local:
  assumes "HasPrefix path ''/''" "as_baseURL s = base"
  shows "HasPrefix (gateway_url path params s) (base @ ''/'')"
proof -
  obtain p where "path = CHR ''/'' # p" using assms(1) by (cases path) (auto simp: HasPrefix_def)
  then show ?thesis using assms(2) by (simp add: gateway_url_def HasPrefix_def)
qed

text \<open>The requests of the gateway's own paths.\<close>

lemma does_target:
  assumes "HasPrefix path ''/''" "\<And>target. HasPrefix target (base @ ''/'') \<Longrightarrow> does web host base n k Q (f target)"
  shows "does web host base n k Q (abind (aget (gateway_url path params)) f)"
proof -
  have "does web host base (0 + n) (0 + k) Q (abind (aget (gateway_url path params)) f)"
    by (rule does_bind, rule does_get) (use assms gateway_url_local in blast)
  then show ?thesis by simp
qed

lemma does_request:
  assumes "HasPrefix (rq_url rq) (base @ ''/'')"
  shows "does web host base 1 0 (\<lambda>_. True) (http_Do web' rq)"
  using assms by (intro does_Do) (simp add: local_event_def local_url_def)

lemma does_exchange:
  assumes "HasPrefix path ''/''"
  shows "does web host base 1 0 (\<lambda>_. True) (exchange web' meth path params leading between body)"
  unfolding exchange_def
  by (rule does_target [OF assms], rule does_le, (rule does_bind_any does_newRequest does_headers does_any [OF does_lift] does_request | simp)+)

lemma does_custom_exchange [does_intros]: "does web host base 1 0 (\<lambda>_. True) (custom_exchange web' action payload)"
  unfolding custom_exchange_def
  by (rule does_target, simp add: HasPrefix_def, rule does_le,
      (rule does_bind_any does_option does_ret does_raise does_headers does_any [OF does_lift] does_request | simp)+)

lemma does_checkCode [does_intros]: "does web host base 1 0 (\<lambda>b. length b \<le> MaxAuthChallengeImageSize) (checkCode web')"
  unfolding checkCode_def
  by (rule does_le, rule does_bind_any, rule does_outside, rule does_target, simp add: HasPrefix_def,
      (rule does_bind_any does_newRequest does_any [OF does_lift] does_if does_ret does_raise does_request | simp)+)

lemma does_handleChallenge [does_intros]:
  "does web host base 0 1 (\<lambda>r. response_Validate r ch = None) (handleChallenge web' ch)"
proof -
  have "does web host base 0 1 (\<lambda>_. True) (ask_user web' ch)" if "challenge_Validate ch = None"
    using that by (auto simp: ask_user_def did_def local_event_def split: prod.split intro!: doesI)
  then show ?thesis
    unfolding handleChallenge_def
    by - (rule does_le, (rule does_bind_any does_any [OF does_get] does_option does_if does_ret does_raise | simp)+)
qed

lemmas does_structure = does_bind_any does_if does_option does_pair does_ret does_raise does_any [OF does_lift] does_any [OF does_get]

text \<open>Each request of the package is one request, and a challenge of the second factor is one question.\<close>

lemma does_authConfig: "does web host base 1 0 (\<lambda>_. True) (authConfig web' md needTicket)"
  unfolding authConfig_def Let_def
  by (rule does_le, (rule does_structure does_exchange does_put | simp add: HasPrefix_def)+)

lemma does_authCheck: "does web host base 1 0 (\<lambda>_. True) (authCheck web')"
  unfolding authCheck_def by (rule does_le, (rule does_structure does_exchange | simp add: HasPrefix_def)+)

lemma does_reportEnv: "does web host base 1 0 (\<lambda>_. True) (reportEnv web')"
  unfolding reportEnv_def by (rule does_le, (rule does_structure does_exchange | simp add: HasPrefix_def)+)

lemma does_phoneNumber: "does web host base 1 0 (\<lambda>_. True) (phoneNumber web' authID)"
  unfolding phoneNumber_def Let_def by (rule does_le, (rule does_structure does_exchange | simp add: HasPrefix_def)+)

lemma does_authSms: "does web host base 1 0 (\<lambda>_. True) (authSms web' step)"
  unfolding authSms_def by (rule does_le, (rule does_structure does_exchange | simp add: HasPrefix_def)+)

lemma does_onlineInfo: "does web host base 1 0 (\<lambda>_. True) (onlineInfo web')"
  unfolding onlineInfo_def by (rule does_le, (rule does_structure does_exchange | simp add: HasPrefix_def)+)

lemma does_secondary: "does web host base 1 0 (\<lambda>_. True) (secondarySMSCheckCodeImpl web' step code skip)"
  unfolding secondarySMSCheckCodeImpl_def by (rule does_le, (rule does_structure does_exchange | simp add: HasPrefix_def)+)

lemma does_ask_code: "does web host base 0 1 (\<lambda>_. True) (ask_code web')"
  unfolding ask_code_def by (rule does_le, (rule does_structure does_randSdpId does_any [OF does_handleChallenge] | simp)+)

lemma does_sendSms: "does web host base 1 0 (\<lambda>_. True) (sendSms web' phone loginDomain code)"
  unfolding sendSms_def by (rule does_le, (rule does_structure does_exchange | simp add: HasPrefix_def)+)

lemma does_take_ticket: "does web host base 0 0 (\<lambda>_. True) (take_ticket web' body)"
  unfolding take_ticket_def by (rule does_le, (rule does_structure does_put | simp)+)

lemma does_psw: "does web host base 1 0 (\<lambda>_. True) (pswImpl web' username password loginDomain code)"
  unfolding pswImpl_def by (rule does_le, (rule does_structure does_exchange does_outside does_take_ticket | simp add: HasPrefix_def)+)

lemma does_smsCheckCodeImpl: "does web host base 1 0 (\<lambda>_. True) (smsCheckCodeImpl web' code phone loginDomain graph)"
  unfolding smsCheckCodeImpl_def by (rule does_le, (rule does_structure does_exchange does_take_ticket | simp add: HasPrefix_def)+)

lemma does_smsCheckCode: "does web host base 1 1 (\<lambda>_. True) (smsCheckCode web' step)"
  unfolding smsCheckCode_def by (rule does_le, (rule does_structure does_ask_code does_secondary | simp)+)

lemma does_completeCustomSMS: "does web host base 2 1 (\<lambda>_. True) (completeCustomSMS web')"
  unfolding completeCustomSMS_def sendCustomSMS_def customSMSCheckCode_def
  by (rule does_le, (rule does_structure does_ask_code does_custom_exchange | simp)+)

lemma does_completeSMS: "does web host base 4 1 (\<lambda>_. True) (completeSMS web' step)"
  unfolding completeSMS_def
  by (cases "st_SMSMode step"; simp;
      rule does_le, (rule does_structure does_authConfig does_try [OF does_phoneNumber] does_authSms does_smsCheckCode | simp)+)

lemma does_service: "does web host base 4 1 (\<lambda>_. True) (auth_service web' step)"
  unfolding auth_service_def
  by (rule does_le, (rule does_structure does_authCheck does_completeSMS does_completeCustomSMS | simp)+)

text \<open>The loops: each captcha is a picture, a configuration and an answer; each step of the chain is one service.\<close>

lemma does_captcha_verdict: "does web host base 0 0 (\<lambda>_. True) (captcha_verdict enable)"
  unfolding captcha_verdict_def by (rule does_le, (rule does_structure | simp)+)

lemma does_graph_loop:
  assumes "\<And>c. does web host base 1 0 (\<lambda>_. True) (process c)"
  shows "does web host base (3 * n) n (\<lambda>_. True) (graph_loop web' process n enable)"
proof (induction n arbitrary: enable)
  case (Suc n)
  show ?case unfolding graph_loop.simps
    by (rule does_le, (rule does_structure does_captcha_verdict does_ctx does_any [OF does_checkCode] does_authConfig does_wrap does_randSdpId
        does_any [OF does_handleChallenge] assms Suc.IH | simp)+)
qed (simp add: does_captcha_verdict)

lemma does_withGraphCheckCode:
  assumes "\<And>c. does web host base 1 0 (\<lambda>_. True) (process c)"
  shows "does web host base 16 5 (\<lambda>_. True) (withGraphCheckCode web' process)"
  unfolding withGraphCheckCode_def
  by (rule does_le, (rule does_structure does_ctx assms does_graph_loop | simp add: maxAttempts_def)+)

lemma does_auth_steps: "does web host base (4 * n) n (\<lambda>_. True) (auth_steps web' n step)"
proof (induction n arbitrary: step)
  case 0
  show ?case by (simp add: does_raise)
next
  case (Suc n)
  show ?case unfolding auth_steps.simps by (rule does_le, (rule does_structure does_ctx does_service Suc.IH | simp)+)
qed

text \<open>Callbacks: one that the user gives is parsed and compared with the gateway before it is requested.\<close>

lemma validate_callback_None:
  "validate_callback path key u h = None \<Longrightarrow> url_Scheme u = ''https'' \<and> url_Host u = h \<and> url_Path u = path \<and> Query_Get u key \<noteq> []"
  by (simp add: validate_callback_def split: if_splits)

lemma does_ask_callback:
  assumes "\<And>u h. validate u h = None \<Longrightarrow> url_Scheme u = ''https'' \<and> url_Host u = h"
  shows "does web host base 0 1 (local_url web host base) (ask_callback web kind prompt validate loginURL)"
proof -
  have last: "does web host base 0 0 (local_url web host base)
      (case validate u h of Some e \<Rightarrow> araise e | None \<Rightarrow> aret v)" if "wb_Parse web v = Inr u" "h = host" for u h v
    using that assms by (cases "validate u h") (auto simp: local_url_def intro!: does_ret does_raise)
  have parsed: "does web host base (0 + (0 + 0)) (0 + (0 + 0)) (local_url web host base)
      (abind (alift (wb_Parse web v)) (\<lambda>u. abind (aget as_baseHost) (\<lambda>h. case validate u h of Some e \<Rightarrow> araise e | None \<Rightarrow> aret v)))" for v
    by (rule does_bind [OF does_lift], rule does_bind [OF does_get], rule last) auto
  show ?thesis unfolding ask_callback_def
    by (rule does_le, (rule does_bind_any does_randSdpId does_any [OF does_handleChallenge] parsed | simp)+)
qed

lemma does_request_callback:
  assumes "local_url web host base callback"
  shows "does web host base 1 0 (\<lambda>_. True) (request_callback web callback)"
  unfolding request_callback_def
  by (rule does_le, (rule does_structure does_newRequest does_headers does_Do does_put | simp add: local_event_def assms)+)

lemma own_callback_local: "local_url web host (as_baseURL s) (casCallbackFromTicket d t s)" "local_url web host (as_baseURL s) (httpsOauth2CallbackFromCode d c s)"
  by (simp_all add: local_url_def casCallbackFromTicket_def httpsOauth2CallbackFromCode_def HasPrefix_def)

lemma does_loginAuthCas: "does web host base 2 1 (\<lambda>_. True) (loginAuthCas web loginURL loginDomain ticket)"
proof -
  have cb: "does web host base (max 0 0) (max 1 0) (local_url web host base)
      (if ticket = [] then interactiveCas web loginURL else aget (casCallbackFromTicket loginDomain ticket))"
    unfolding interactiveCas_def
    by (intro does_if does_ask_callback does_weaken [OF does_get])
      (auto simp: validateCASCallbackURL_def own_callback_local dest: validate_callback_None)
  show ?thesis unfolding loginAuthCas_def cas_def
    by (rule does_le, rule does_bind [OF cb], (rule does_structure does_request_callback does_authConfig | simp)+)
qed

lemma does_loginAuthHttpsOauth2: "does web host base 2 1 (\<lambda>_. True) (loginAuthHttpsOauth2 web loginURL loginDomain code [])"
proof -
  have first: "does web host base (max 0 0) (max 0 0) (\<lambda>cb. cb = [] \<or> local_url web host base cb)
      (if [] = ([] :: string) \<and> code \<noteq> [] then aget (httpsOauth2CallbackFromCode loginDomain code) else aret [])"
    by (intro does_if does_ret does_weaken [OF does_get]) (auto simp: own_callback_local)
  have cb: "does web host base (max 0 0) (max 1 0) (local_url web host base) (if c = [] then interactiveHttpsOauth2 web loginURL else aret c)"
    if "c = [] \<or> local_url web host base c" for c
    unfolding interactiveHttpsOauth2_def using that
    by (intro does_if does_ask_callback does_ret) (auto simp: validateHTTPSOauth2CallbackURL_def dest: validate_callback_None)
  show ?thesis unfolding loginAuthHttpsOauth2_def httpsOauth2_def
    by (rule does_le, rule does_bind [OF first], rule does_bind [OF cb], assumption,
        (rule does_structure does_request_callback does_authConfig | simp)+)
qed

text \<open>The login methods that the set-up builds leave the callback empty.\<close>

definition no_callback :: "LoginMethod \<Rightarrow> bool" where
  "no_callback m = (case m of HTTPSOauth2Login _ _ callback \<Rightarrow> callback = [] | _ \<Rightarrow> True)"

lemma does_loginAuthSms: "does web host base 32 11 (\<lambda>_. True) (loginAuthSmsCheckCode web' phone loginDomain)"
  unfolding loginAuthSmsCheckCode_def
  by (rule does_le, (rule does_structure does_withGraphCheckCode does_sendSms does_smsCheckCodeImpl does_randSdpId
      does_any [OF does_handleChallenge] | simp)+)

lemma does_method_login:
  assumes "no_callback m"
  shows "does web host base 32 11 (\<lambda>_. True) (method_login web m info)"
proof (cases m)
  case (PasswordLogin u p d g)
  show ?thesis unfolding PasswordLogin method_login.simps loginAuthPsw_def
    by (rule does_le, rule does_withGraphCheckCode, rule does_psw) simp_all
next
  case (CASLogin d ticket)
  show ?thesis unfolding CASLogin method_login.simps by (rule does_le, rule does_loginAuthCas) simp_all
next
  case (HTTPSOauth2Login d code cb)
  have "cb = []" using assms HTTPSOauth2Login by (simp add: no_callback_def)
  show ?thesis unfolding HTTPSOauth2Login method_login.simps \<open>cb = []\<close> by (rule does_le, rule does_loginAuthHttpsOauth2) simp_all
qed (simp add: does_loginAuthSms)

text \<open>The chain starts with \<^verbatim>\<open>authCheck\<close>, which asks nothing.\<close>

lemma does_continueAuth:
  assumes "st_Service step = ''auth/authCheck''"
  shows "does web host base 29 7 (\<lambda>_. True) (continueAuth web' step)"
proof -
  have eight: "maxAuthSteps = Suc 7" by (simp add: maxAuthSteps_def)
  have "auth_service web' step = authCheck web'" by (simp add: auth_service_def assms)
  then show ?thesis unfolding continueAuth_def eight auth_steps.simps
    by - (rule does_le, (rule does_structure does_ctx does_authCheck does_auth_steps | simp)+)
qed

lemma does_sign_in:
  assumes "no_callback m"
  shows "does web host base 63 18 (\<lambda>_. True) (sign_in web m info sid)"
  unfolding sign_in_def
  by (rule does_le, (rule does_structure does_method_login [OF assms] does_reportEnv does_continueAuth does_onlineInfo | simp)+)

lemma does_LoginContext:
  assumes "\<And>m. meth = Some m \<Longrightarrow> no_callback m"
  shows "does web host base 64 18 (\<lambda>_. True) (LoginContext web meth opts)"
  unfolding LoginContext_def login_with_def
  by (rule does_le, (rule does_structure does_ctx does_put does_authConfig does_onlineInfo does_sign_in assms | simp)+)

subsection \<open>A finished sign-in\<close>

lemma abind_Inr: "abind m f s = (Inr y, u) \<longleftrightarrow> (\<exists>x t. m s = (Inr x, t) \<and> f x t = (Inr y, u))"
  by (cases rule: abind_cases [of m s f]) auto

lemma act_Inr:
  "aret x s = (Inr y, t) \<longleftrightarrow> x = y \<and> t = s" "araise e s = (Inr y, t) \<longleftrightarrow> False" "aget f s = (Inr y, t) \<longleftrightarrow> y = f s \<and> t = s"
  "alift r s = (Inr y, t) \<longleftrightarrow> r = Inr y \<and> t = s" "aput g s = (Inr z, t) \<longleftrightarrow> t = g s"
  by (auto simp: aret_def araise_def aget_def alift_def aput_def)

lemma ctx_Err_Inr: "ctx_Err web s = (Inr x, t) \<Longrightarrow> t = s"
  by (auto simp: ctx_Err_def split: option.splits)

lemma http_Do_trace: "http_Do web rq s = (r, t) \<Longrightarrow> as_trace t = as_trace s @ [Sent rq]"
  by (auto simp: http_Do_def split: prod.splits)

text \<open>A request that was answered leaves exactly itself in the trace.\<close>

lemma exchange_trace:
  assumes "exchange web meth path params leading between body s = (Inr b, t)"
  shows "\<exists>rq. as_trace t = as_trace s @ [Sent rq] \<and> rq_method rq = meth \<and> rq_body rq = body \<and> rq_url rq = gateway_url path params s"
proof -
  obtain u v hs where "newRequest web meth (gateway_url path params s) s = (Inr (), u)" "auth_headers web leading between u = (Inr hs, v)"
      and t: "as_trace t = as_trace v @ [Sent \<lparr> rq_method = meth, rq_url = gateway_url path params s, rq_headers = hs, rq_body = body, rq_follow = True \<rparr>]"
    using assms by (auto simp: exchange_def abind_Inr act_Inr dest!: http_Do_trace)
  then have "as_trace v = as_trace s"
    by (auto simp: newRequest_def auth_headers_def abind_Inr act_Inr randSdpId_def outside_def split: option.splits prod.splits)
  with t show ?thesis by auto
qed

lemma reportEnv_trace:
  assumes "reportEnv web s = (Inr (), t)"
  shows "as_ticket s \<noteq> [] \<and> (\<exists>rq. as_trace t = as_trace s @ [Sent rq] \<and> rq_method rq = ''POST''
     \<and> rq_body rq = JSONBody (env_payload (as_ticket s) (as_deviceID s))
     \<and> rq_url rq = gateway_url ''/controller/v1/public/reportEnv'' (WithSharedParams []) s)"
  using assms by (auto simp: reportEnv_def abind_Inr act_Inr split: if_splits dest!: exchange_trace)

lemma authCheck_trace:
  assumes "authCheck web s = (Inr step, t)"
  shows "\<exists>rq. as_trace t = as_trace s @ [Sent rq] \<and> rq_url rq = gateway_url ''/passport/v1/auth/authCheck'' (WithSharedParams []) s"
  using assms by (auto simp: authCheck_def abind_Inr act_Inr split: if_splits dest!: exchange_trace)

lemma onlineInfo_trace:
  assumes "onlineInfo web s = (Inr name, t)"
  shows "\<exists>rq. as_trace t = as_trace s @ [Sent rq] \<and> rq_url rq = gateway_url ''/passport/v1/user/onlineInfo'' (WithSharedParams []) s"
  using assms by (auto simp: onlineInfo_def abind_Inr act_Inr split: if_splits prod.splits dest!: exchange_trace)

lemma does_trace:
  assumes "does web host base n k Q m" "m s = (r, t)" "as_baseHost s = host" "as_baseURL s = base"
  shows "\<exists>es. as_trace t = as_trace s @ es \<and> as_baseURL t = base \<and> as_baseHost t = host"
  using doesD(1) [OF assms(1,3,4,2)] by (auto simp: did_def)

text \<open>\<open>visits base path rq\<close>: the request is one of this path of the gateway.\<close>

definition visits :: "string \<Rightarrow> string \<Rightarrow> Request \<Rightarrow> bool" where
  "visits base path rq \<longleftrightarrow> rq_url rq = base @ path @ ''?'' @ Values_Encode (WithSharedParams [])"

text \<open>
  The end of a sign-in that was not a reuse: the environment is reported with a ticket, the gateway is asked for the next step, and after the steps it named the user's name
  is fetched.
\<close>

definition finished_sign_in :: "string \<Rightarrow> auth_event list \<Rightarrow> bool" where
  "finished_sign_in base es \<longleftrightarrow> (\<exists>before reported ticket device checked steps online.
     es = before @ [Sent reported, Sent checked] @ steps @ [Sent online] \<and> ticket \<noteq> []
     \<and> visits base ''/controller/v1/public/reportEnv'' reported \<and> rq_body reported = JSONBody (env_payload ticket device)
     \<and> visits base ''/passport/v1/auth/authCheck'' checked \<and> visits base ''/passport/v1/user/onlineInfo'' online)"

lemma continueAuth_trace:
  assumes "continueAuth web step s = (Inr (), t)" "st_Service step = ''auth/authCheck''" "as_baseHost s = host" "as_baseURL s = base"
  shows "\<exists>checked steps. as_trace t = as_trace s @ [Sent checked] @ steps \<and> visits base ''/passport/v1/auth/authCheck'' checked
     \<and> as_baseURL t = base \<and> as_baseHost t = host"
proof -
  have eight: "maxAuthSteps = Suc 7" by (simp add: maxAuthSteps_def)
  obtain s1 step' s2 where c: "ctx_Err web s = (Inr (), s1)" "authCheck web s1 = (Inr step', s2)" "auth_steps web 7 step' s2 = (Inr (), t)"
    using assms(1,2) unfolding continueAuth_def eight auth_steps.simps by (auto simp: abind_Inr auth_service_def)
  have "s1 = s" using c(1) by (auto simp: ctx_Err_def split: option.splits)
  then obtain rq where rq: "as_trace s2 = as_trace s @ [Sent rq]" "visits base ''/passport/v1/auth/authCheck'' rq"
    using authCheck_trace [OF c(2)] assms(4) by (auto simp: visits_def gateway_url_def)
  have b: "as_baseURL s2 = base" "as_baseHost s2 = host"
    using does_trace [OF does_authCheck c(2)] \<open>s1 = s\<close> assms(3,4) by auto
  show ?thesis using does_trace [OF does_auth_steps c(3) b(2,1)] rq by auto
qed

lemma sign_in_trace:
  assumes "sign_in web m info sid s = (Inr r, t)" "no_callback m" "as_baseHost s = host" "as_baseURL s = base"
  shows "\<exists>es. as_trace t = as_trace s @ es \<and> finished_sign_in base es \<and> \<not> lr_Reused r"
proof -
  let ?step = "\<lparr> st_Service = ''auth/authCheck'', st_AuthID = [], st_SMSMode = smsModeUnknown \<rparr>"
  obtain s1 s2 s3 name where c: "method_login web m info s = (Inr (), s1)" "reportEnv web s1 = (Inr (), s2)"
      "continueAuth web ?step s2 = (Inr (), s3)" "onlineInfo web s3 = (Inr name, t)" "r = jar_result web sid name t"
    using assms(1) by (auto simp: sign_in_def abind_Inr act_Inr)
  obtain es1 where 1: "as_trace s1 = as_trace s @ es1" "as_baseURL s1 = base" "as_baseHost s1 = host"
    using does_trace [OF does_method_login [OF assms(2)] c(1) assms(3,4)] by blast
  obtain rep where 2: "as_trace s2 = as_trace s1 @ [Sent rep]" "as_ticket s1 \<noteq> []" "rq_body rep = JSONBody (env_payload (as_ticket s1) (as_deviceID s1))"
      "visits base ''/controller/v1/public/reportEnv'' rep"
    using reportEnv_trace [OF c(2)] 1(2) by (auto simp: visits_def gateway_url_def)
  have b2: "as_baseHost s2 = host" "as_baseURL s2 = base" using does_trace [OF does_reportEnv c(2) 1(3,2)] by auto
  obtain checked steps where 3: "as_trace s3 = as_trace s2 @ [Sent checked] @ steps" "visits base ''/passport/v1/auth/authCheck'' checked"
      "as_baseURL s3 = base"
    using continueAuth_trace [OF c(3) _ b2] by auto
  obtain online where 4: "as_trace t = as_trace s3 @ [Sent online]" "visits base ''/passport/v1/user/onlineInfo'' online"
    using onlineInfo_trace [OF c(4)] 3(3) by (auto simp: visits_def gateway_url_def)
  have "as_trace t = as_trace s @ (es1 @ [Sent rep, Sent checked] @ steps @ [Sent online])" using 1(1) 2(1) 3(1) 4(1) by simp
  moreover have "finished_sign_in base (es1 @ [Sent rep, Sent checked] @ steps @ [Sent online])"
    unfolding finished_sign_in_def using 2(2-4) 3(2) 4(2) by blast
  ultimately show ?thesis using c(5) by (auto simp: jar_result_def Let_def)
qed

lemma onlineInfo_counts: "onlineInfo web s = (r, t) \<Longrightarrow> \<exists>es. as_trace t = as_trace s @ es \<and> sent_count es \<le> 1 \<and> asked_count es = 0"
  using doesD(1) [OF does_onlineInfo refl refl] by (fastforce simp: did_def)

lemma LoginContext_result:
  assumes "LoginContext web meth opts s = (Inr r, t)" "\<And>m. meth = Some m \<Longrightarrow> no_callback m"
  shows "\<exists>es. as_trace t = as_trace s @ es \<and> (if lr_Reused r then sent_count es \<le> 2 \<and> asked_count es = 0 else finished_sign_in (as_baseURL s) es)"
proof -
  define s1 where "s1 = s\<lparr>as_world := load_cookies web (lo_Cookies opts) (as_world s), as_deviceID := lo_DeviceID opts, as_env := device_env (lo_DeviceID opts)\<rparr>"
  have s1: "as_trace s1 = as_trace s" "as_baseURL s1 = as_baseURL s" "as_baseHost s1 = as_baseHost s" by (simp_all add: s1_def)
  obtain config s2 where c: "authConfig web False True s1 = (Inr config, s2)"
    and rest: "login_with web meth (lo_Cookies opts) (given_sid (as_baseHost s) (lo_Cookies opts)) config s2 = (Inr r, t)"
    using assms(1) by (auto simp: LoginContext_def abind_Inr act_Inr s1_def dest!: ctx_Err_Inr)
  obtain es2 where 2: "as_trace s2 = as_trace s @ es2" "sent_count es2 \<le> 1" "asked_count es2 = 0" "as_baseURL s2 = as_baseURL s" "as_baseHost s2 = as_baseHost s"
    using doesD(1) [OF does_authConfig s1(3,2) c] s1(1) by (auto simp: did_def)
  show ?thesis
  proof (cases "fst config = 1")
    case True
    then obtain name where o: "onlineInfo web s2 = (Inr name, t)" "lr_Reused r" using rest by (auto simp: login_with_def abind_Inr act_Inr)
    then show ?thesis using onlineInfo_counts [OF o(1)] 2(1-3) by auto
  next
    case False
    then obtain m info where m: "meth = Some m" "sign_in web m info (given_sid (as_baseHost s) (lo_Cookies opts)) s2 = (Inr r, t)"
      using rest by (auto simp: login_with_def act_Inr split: option.splits)
    obtain es where es: "as_trace t = as_trace s2 @ es" "finished_sign_in (as_baseURL s) es" "\<not> lr_Reused r"
      using sign_in_trace [OF m(2) assms(2) [OF m(1)] 2(5,4)] by blast
    then have "finished_sign_in (as_baseURL s) (es2 @ es)" unfolding finished_sign_in_def by (metis append.assoc)
    then show ?thesis using es 2(1) by auto
  qed
qed

text \<open>C6. A login, with any answers of the gateway and of the user: every request goes to the gateway (its URL begins with the gateway's base URL, or the URL parser finds
  its scheme to be https and its host to be the gateway's) and every challenge is valid; at most 64 requests are sent and 18 challenges asked, so the loops over captchas and
  authentication steps end. A login that succeeds without reusing the old session has reported the environment with a non-empty ticket, then
  asked for the next step, and ended by fetching the user name; one that reuses it has asked the user nothing.\<close>

theorem sign_in_safe:
  assumes "\<And>m. meth = Some m \<Longrightarrow> no_callback m"
    and "LoginContext web meth opts (SetAuthHandler handler (NewSession server w)) = (r, t)"
  shows "list_all (local_event web server (''https://'' @ server)) (as_trace t) \<and> sent_count (as_trace t) \<le> 64 \<and> asked_count (as_trace t) \<le> 18
     \<and> (\<forall>res. r = Inr res \<longrightarrow> (if lr_Reused res then sent_count (as_trace t) \<le> 2 \<and> asked_count (as_trace t) = 0
          else finished_sign_in (''https://'' @ server) (as_trace t)))"
proof -
  let ?s = "SetAuthHandler handler (NewSession server w)"
  have s: "as_baseHost ?s = server" "as_baseURL ?s = ''https://'' @ server" "as_trace ?s = []"
    by (simp_all add: SetAuthHandler_def NewSession_def)
  have d: "did web server (''https://'' @ server) 64 18 ?s t" by (rule doesD(1) [OF does_LoginContext s(1,2) assms(2)]) (rule assms(1))
  have "if lr_Reused res then sent_count (as_trace t) \<le> 2 \<and> asked_count (as_trace t) = 0 else finished_sign_in (''https://'' @ server) (as_trace t)"
    if "r = Inr res" for res
    using LoginContext_result [OF _ assms(1)] assms(2) that s by fastforce
  then show ?thesis using d s(3) by (auto simp: did_def)
qed

text \<open>A gateway that asks for one captcha and then for a code, and a user who answers.\<close>

definition demo_web :: "nat web" where
  "demo_web =
     \<lparr> wb_ctxErr = (\<lambda>_. None), wb_newRequest = (\<lambda>_ _. None),
       wb_do = (\<lambda>rq w. (Inr \<lparr> rs_status = 200, rs_location = [], rs_body = ([word_of_nat w], None) \<rparr>, Suc w)),
       wb_handle = (\<lambda>ch w. (Inr \<lparr> response_ChallengeID = challenge_ID ch, response_Value = ''7'', response_Skip = False, response_ChoiceID = [] \<rparr>, w)),
       wb_Intn = (\<lambda>_ w. (3, w)), wb_UnixMilli = (\<lambda>w. (0, w)), wb_EncryptPKCS1v15 = (\<lambda>_ _ m w. (Inr m, w)),
       wb_SetCookies = (\<lambda>_ _ _ _ w. w), wb_Cookies = (\<lambda>_ _. [(''sid'', ''S'')]), wb_Parse = (\<lambda>_. Inl (Opaque ''no URL'')),
       wb_authConfig = (\<lambda>_. Inr \<lparr> cf_AuthServerInfoList = [\<lparr> ai_LoginDomain = ''d'', ai_AuthType = ''auth/psw'', ai_AuthName = [], ai_LoginURL = [] \<rparr>],
         cf_IsLogin = 0, cf_CSRF = ''t'', cf_SecurityCSRF = [], cf_PubKey = [], cf_PubKeyExp = [], cf_AntiReplayRand = [] \<rparr>),
       wb_code = (\<lambda>_. Inr 0), wb_status = (\<lambda>_. Inr \<lparr> re_Code = 0, re_Message = [], re_Data = () \<rparr>),
       wb_step = (\<lambda>b. Inr \<lparr> re_Code = 0, re_Message = [],
         re_Data = \<lparr> sd_NextService = (if b = [6] then ''auth/sms'' else []), sd_NextServiceList = [] \<rparr> \<rparr>),
       wb_tips = (\<lambda>_. Inr \<lparr> re_Code = 75500401, re_Message = [], re_Data = [] \<rparr>), wb_phone = (\<lambda>_. Inl (Opaque ''no phone'')),
       wb_strings = (\<lambda>_. Inr []), wb_string = (\<lambda>_. Inr []),
       wb_ticket = (\<lambda>b. Inr \<lparr> re_Code = 0, re_Message = [], re_Data = (''T'', if b = [1] then 1 else 0) \<rparr>),
       wb_sent = (\<lambda>_. Inr \<lparr> re_Code = 0, re_Message = [], re_Data = ([], [], 0) \<rparr>), wb_username = (\<lambda>_. Inr (0, ''u'')),
       wb_device = (\<lambda>_. Inr \<lparr> re_Code = 0, re_Message = [], re_Data = \<lparr> qd_SelfID = [], qd_DeviceTrusted = True \<rparr> \<rparr>), wb_portal = (\<lambda>_. Inr ''T'') \<rparr>"

lemma demo_fields:
  "wb_ctxErr demo_web w = None" "wb_newRequest demo_web meth target = None"
  "wb_do demo_web rq w = (Inr \<lparr> rs_status = 200, rs_location = [], rs_body = ([word_of_nat w], None) \<rparr>, Suc w)"
  "wb_handle demo_web ch w = (Inr \<lparr> response_ChallengeID = challenge_ID ch, response_Value = ''7'', response_Skip = False, response_ChoiceID = [] \<rparr>, w)"
  "wb_UnixMilli demo_web w = (0, w)" "wb_EncryptPKCS1v15 demo_web a b m w = (Inr m, w)"
  "wb_Cookies demo_web h w = [(''sid'', ''S'')]" "wb_Intn demo_web n w = (3, w)"
  "wb_authConfig demo_web b' = Inr \<lparr> cf_AuthServerInfoList = [\<lparr> ai_LoginDomain = ''d'', ai_AuthType = ''auth/psw'', ai_AuthName = [], ai_LoginURL = [] \<rparr>],
         cf_IsLogin = 0, cf_CSRF = ''t'', cf_SecurityCSRF = [], cf_PubKey = [], cf_PubKeyExp = [], cf_AntiReplayRand = [] \<rparr>"
  "wb_code demo_web b' = Inr 0" "wb_phone demo_web b' = Inl (Opaque ''no phone'')" "wb_username demo_web b' = Inr (0, ''u'')"
  "wb_step demo_web b' = Inr \<lparr> re_Code = 0, re_Message = [], re_Data = \<lparr> sd_NextService = (if b' = [6] then ''auth/sms'' else []), sd_NextServiceList = [] \<rparr> \<rparr>"
  "wb_tips demo_web b' = Inr \<lparr> re_Code = 75500401, re_Message = [], re_Data = [] \<rparr>"
  "wb_ticket demo_web b' = Inr \<lparr> re_Code = 0, re_Message = [], re_Data = (''T'', if b' = [1] then 1 else 0) \<rparr>"
  by (simp_all add: demo_web_def)

lemma demo_digits: "rand_digits demo_web n w = (replicate n CHR ''3'', w)"
  by (induction n) (simp_all add: demo_fields)

lemma demo_rand: "randSdpId demo_web n s = (Inr (replicate n CHR ''3''), s)"
  by (simp add: randSdpId_def outside_def demo_digits)

lemma demo_headers: "auth_headers demo_web leading between s =
  (Inr ((''User-Agent'', UserAgent) # leading @ [(''x-csrf-token'', as_csrfToken s)] @ between s @ [(''x-sdp-traceid'', replicate 8 CHR ''3'')]), s)"
  by (simp add: auth_headers_def abind_def demo_rand aget_def)

definition demo_request :: "string \<Rightarrow> string \<Rightarrow> Values \<Rightarrow> string \<Rightarrow> (string \<times> string) list \<Rightarrow> request_body \<Rightarrow> Request" where
  "demo_request meth path params base headers body =
     \<lparr> rq_method = meth, rq_url = base @ path @ ''?'' @ Values_Encode params,
       rq_headers = (''User-Agent'', UserAgent) # headers @ [(''x-sdp-traceid'', replicate 8 CHR ''3'')], rq_body = body, rq_follow = True \<rparr>"

lemma demo_exchange:
  "exchange demo_web meth path params leading between body s = (Inr [word_of_nat (as_world s)],
     s\<lparr>as_world := Suc (as_world s), as_trace := as_trace s
        @ [Sent (demo_request meth path params (as_baseURL s) (leading @ (''x-csrf-token'', as_csrfToken s) # between s) body)]\<rparr>)"
  by (simp add: exchange_def abind_def aget_def newRequest_def demo_headers http_Do_def alift_def aret_def readAuthResponse_def
      read_limited_def maxAuthResponseBodySize_def demo_fields demo_request_def gateway_url_def)

definition demo_login :: "LoginResult result \<times> nat AuthSession" where
  "demo_login = LoginContext demo_web (Some (PasswordLogin ''u'' ''p'' ''d'' [])) \<lparr> lo_DeviceID = ''x'', lo_Cookies = [] \<rparr>
     (SetAuthHandler True (NewSession ''g'' 0))"

lemma demo_checkCode:
  "\<exists>rq. \<forall>s. checkCode demo_web s = (Inr [word_of_nat (as_world s)], s\<lparr>as_world := Suc (as_world s), as_trace := as_trace s @ [Sent (rq (as_baseURL s))]\<rparr>)"
  by (rule exI [of _ "\<lambda>base. \<lparr> rq_method = ''GET'', rq_url = base @ ''/passport/v1/public/checkCode'' @ ''?'' @ Values_Encode (WithSharedParams [(''rnd'', [show_int 0])]),
         rq_headers = [(''User-Agent'', UserAgent), (''Accept'', ''image/webp,image/apng,image/*,*/*;q=0.8'')], rq_body = NoBody, rq_follow = True \<rparr>"])
    (simp add: gateway_url_def checkCode_def abind_def outside_def aget_def newRequest_def http_Do_def alift_def aret_def read_limited_def MaxAuthChallengeImageSize_def demo_fields)

lemma demo_challenge:
  "kind_Valid kind \<Longrightarrow> kind \<noteq> AuthChallengeSelectAuthenticationMethod \<Longrightarrow> length img \<le> 1 \<Longrightarrow> i \<noteq> [] \<Longrightarrow> as_hasHandler s \<Longrightarrow>
   handleChallenge demo_web (challenge kind prompt url img skip i) s = (Inr \<lparr> response_ChallengeID = i, response_Value = ''7'', response_Skip = False, response_ChoiceID = [] \<rparr>,
     s\<lparr>as_trace := as_trace s @ [Asked (challenge kind prompt url img skip i)]\<rparr>)"
  by (simp add: handleChallenge_def challenge_Validate_def response_Validate_def challenge_def abind_def aget_def ask_user_def demo_fields MaxAuthChallengeImageSize_def aret_def)

lemma demo_login_result: "fst demo_login = Inr \<lparr> lr_Username = ''u'', lr_SID = ''S'',
    lr_Cookies = [\<lparr> ck_Host = ''g'', ck_Scheme = ''https'', ck_Name = ''sid'', ck_Value = ''S'' \<rparr>], lr_Reused = False \<rparr>"
proof -
  have k: "kind_Valid AuthChallengeGraphClick" "kind_Valid AuthChallengeSecondarySMS" by (simp_all add: kind_Valid_def)
  obtain rq where rq: "\<And>s. checkCode demo_web s = (Inr [word_of_nat (as_world s)], s\<lparr>as_world := Suc (as_world s), as_trace := as_trace s @ [Sent (rq (as_baseURL s))]\<rparr>)"
    using demo_checkCode by blast
  have n: "maxAttempts = Suc (Suc (Suc (Suc (Suc 0))))" "maxAuthSteps = Suc (Suc (Suc (Suc (Suc (Suc (Suc (Suc 0)))))))" by (simp_all add: maxAttempts_def maxAuthSteps_def)
  show ?thesis
    by (simp add: demo_login_def LoginContext_def abind_def ctx_Err_def demo_fields aget_def aput_def authConfig_def demo_exchange alift_def aret_def araise_def
     login_with_def sign_in_def loginAuthPsw_def withGraphCheckCode_def pswImpl_def outside_def take_ticket_def SetAuthHandler_def NewSession_def
     load_cookies_def given_sid_def captcha_verdict_def rq n k demo_rand demo_challenge awrap_def reportEnv_def continueAuth_def auth_service_def
     authCheck_def authStepFromData_def completeSMS_def atry_def phoneNumber_def authSms_def sms_params_def smsCheckCode_def ask_code_def
     secondarySMSCheckCodeImpl_def check_body_def onlineInfo_def jar_result_def
     Let_def)
qed
text \<open>The theorem on this login, which takes twelve requests and two questions.\<close>

theorem sign_in_safe_witness:
  "(\<exists>res. fst demo_login = Inr res \<and> \<not> lr_Reused res) \<and> finished_sign_in ''https://g'' (as_trace (snd demo_login))
   \<and> list_all (local_event demo_web ''g'' ''https://g'') (as_trace (snd demo_login))"
proof -
  have r: "LoginContext demo_web (Some (PasswordLogin ''u'' ''p'' ''d'' [])) \<lparr> lo_DeviceID = ''x'', lo_Cookies = [] \<rparr>
      (SetAuthHandler True (NewSession ''g'' 0)) = (fst demo_login, snd demo_login)"
    by (simp add: demo_login_def)
  show ?thesis using sign_in_safe [OF _ r] demo_login_result by (auto simp: no_callback_def)
qed

end
