(* ===== verification/ClientSetup.thy ===== *)
theory ClientSetup
  imports AtrustClient Auth
begin

text \<open>
  The set-up of a client, \<^verbatim>\<open>src/client/atrust/setup.go\<close>, with the parts of \<^verbatim>\<open>client.go\<close> it calls; the layer-3 tunnel it creates (\<^verbatim>\<open>NewL3Tunnel\<close>
  of \<^verbatim>\<open>l3tunnel.go\<close>), the forwarding of packets from node connections and the connection the network stack reads and writes packets through (\<^verbatim>\<open>l3conn.go\<close>). The set-up composes the sign-in of \<open>Auth\<close>, the resources of \<open>Resources\<close>
  and the nodes of \<open>AtrustClient\<close>, and is the function that a session's runtime is given (\<open>d_setup\<close> of its dependencies).
\<close>

section \<open>Configuration and login method\<close>

record SetupConfig =
  sc_ServerAddress :: string
  sc_ServerPort :: int
  sc_Username :: string
  sc_Password :: string
  sc_Phone :: string
  sc_LoginDomain :: string
  sc_AuthType :: string
  sc_GraphCodeFile :: string
  sc_CASTicket :: string
  sc_OAuth2Code :: string
  sc_UpdateBestNodesInterval :: int
  sc_BindInterface :: string
  sc_AutoDetectInterface :: bool
  sc_StageHandler :: bool
  sc_NodeSelectionHandler :: bool

definition buildLoginMethod :: "SetupConfig \<Rightarrow> LoginMethod option result" where
  "buildLoginMethod config =
     (if sc_AuthType config = ''auth/psw'' then
        Inr (Some (PasswordLogin (sc_Username config) (sc_Password config) (sc_LoginDomain config) (sc_GraphCodeFile config)))
      else if sc_AuthType config = ''auth/cas'' then Inr (Some (CASLogin (sc_LoginDomain config) (sc_CASTicket config)))
      else if sc_AuthType config = ''auth/httpsOauth2'' then Inr (Some (HTTPSOauth2Login (sc_LoginDomain config) (sc_OAuth2Code config) []))
      else if sc_AuthType config = ''auth/smsCheckCode'' then Inr (Some (SMSLogin (sc_Phone config) (sc_LoginDomain config) (sc_GraphCodeFile config)))
      else if sc_AuthType config = [] then Inr None
      else Inl (Opaque (''unsupported auth type: '' @ sc_AuthType config)))"

text \<open>The callbacks of a configuration: a handler that is nil is not called.\<close>

definition notify :: "SetupConfig \<Rightarrow> SetupStage \<Rightarrow> setup_call list" where
  "notify config stage = (if sc_StageHandler config then [NotifyStage stage] else [])"

definition notifyNodeSelection :: "SetupConfig \<Rightarrow> (string \<rightharpoonup> string) \<Rightarrow> setup_call list" where
  "notifyNodeSelection config nodes = (if sc_NodeSelectionHandler config then [NotifyNodes nodes] else [])"

text \<open>The random bytes are an argument.\<close>

definition randHex :: "nat \<Rightarrow> bytes \<Rightarrow> string" where
  "randHex n b = ToUpper (take n (concat (map hex02 (take ((n + 1) div 2) b))))"

definition buildConnectionID :: "(bytes \<Rightarrow> bytes) \<Rightarrow> int \<Rightarrow> string \<Rightarrow> string" where
  "buildConnectionID md5 now deviceID = concat (map HEX02 (md5 (byte_string deviceID))) @ ''-'' @ show_int now"

definition server_host :: "string \<Rightarrow> int \<Rightarrow> string" where
  "server_host address port = (if port \<noteq> 443 then address @ '':'' @ show_int port else address)"

section \<open>Sign-in and resources\<close>

text \<open>What the set-up depends on: the outside of the sign-in and whether the user can be asked, JSON, random bytes, MD5 and the clock, the context's error at the start and before the nodes are chosen,
  the orders in which the two maps of nodes are visited, the pings, and the network's answers to the request for an address.\<close>

record 'w setup_env =
  se_web :: "'w web"
  se_world :: 'w
  se_authHandler :: bool
  se_unmarshal :: "bytes \<Rightarrow> ClientAuthData result"
  se_marshal :: "ClientAuthData \<Rightarrow> bytes option"
  se_resource :: "bytes \<Rightarrow> ClientResource result"
  se_deviceBytes :: bytes
  se_keyBytes :: bytes
  se_md5 :: "bytes \<Rightarrow> bytes"
  se_UnixMicro :: int
  se_ctxStart :: "gerror option"
  se_ctxNodes :: "gerror option"
  se_groupOrder :: "(string \<rightharpoonup> string list) \<Rightarrow> string list"
  se_nodeOrder :: "(string \<rightharpoonup> string) \<Rightarrow> string list"
  se_ping :: "string \<Rightarrow> nat \<Rightarrow> PingResult"
  se_dial :: "string \<Rightarrow> bytes result"
  se_write :: "bytes \<Rightarrow> gerror option"

definition connection_id :: "'w setup_env \<Rightarrow> string \<Rightarrow> string" where
  "connection_id env deviceID = buildConnectionID (se_md5 env) (se_UnixMicro env) deviceID"

text \<open>The login is skipped when a session, a device and the resources are given.\<close>

definition skip_login :: "'w setup_env \<Rightarrow> Client \<Rightarrow> Client" where
  "skip_login env c =
     c\<lparr>ac_ResumeStateReused := True, ac_ConnectionID := connection_id env (ac_DeviceID c),
       ac_SignKey := (if ac_SignKey c = [] then randHex 64 (se_keyBytes env) else ac_SignKey c)\<rparr>"

definition new_identity :: "'w setup_env \<Rightarrow> string \<Rightarrow> Client \<Rightarrow> Client" where
  "new_identity env deviceID c =
     c\<lparr>ac_DeviceID := deviceID, ac_ConnectionID := connection_id env deviceID, ac_SignKey := randHex 64 (se_keyBytes env)\<rparr>"

definition signed_in :: "LoginResult \<Rightarrow> Client \<Rightarrow> Client" where
  "signed_in r c = c\<lparr>ac_Username := lr_Username r, ac_SID := lr_SID r, ac_ResumeStateReused := lr_Reused r\<rparr>"

text \<open>The calls made, then the data of the sign-in and of the resources, and the client.\<close>

definition authenticateAndFetchResources ::
  "'w setup_env \<Rightarrow> SetupConfig \<Rightarrow> bytes option \<Rightarrow> bytes option \<Rightarrow> Client
   \<Rightarrow> setup_call list \<times> (bytes option \<times> bytes) result \<times> Client" where
  "authenticateAndFetchResources env config authData resourceData c =
     (case (if ac_SID c \<noteq> [] \<and> ac_DeviceID c \<noteq> [] then resourceData else None) of
        Some data \<Rightarrow> (notify config SetupStageFetchingResources, Inr (authData, data), skip_login env c)
      | None \<Rightarrow>
          (case (case authData of None \<Rightarrow> Inr \<lparr> ad_Cookies = [], ad_DeviceID = [] \<rparr> | Some d \<Rightarrow> se_unmarshal env d) of
             Inl e \<Rightarrow> ([], Inl e, c)
           | Inr given \<Rightarrow>
               (let deviceID = (if ad_DeviceID given = [] then ToLower (randHex 32 (se_deviceBytes env)) else ad_DeviceID given);
                    c1 = new_identity env deviceID c
                in case buildLoginMethod config of
                     Inl e \<Rightarrow> ([], Inl e, c1)
                   | Inr loginMethod \<Rightarrow>
                       (let session = SetAuthHandler (ac_hasAuthHandler c)
                              (NewSession (server_host (sc_ServerAddress config) (sc_ServerPort config)) (se_world env))
                        in case LoginContext (se_web env) loginMethod \<lparr> lo_DeviceID = deviceID, lo_Cookies = ad_Cookies given \<rparr> session of
                             (Inl e, _) \<Rightarrow> ([], Inl e, c1)
                           | (Inr r, session1) \<Rightarrow>
                               (case fst (ClientResourceContext (se_web env) session1) of
                                  Inl e \<Rightarrow> (notify config SetupStageFetchingResources, Inl e, signed_in r c1)
                                | Inr data \<Rightarrow>
                                    (notify config SetupStageFetchingResources,
                                     Inr (se_marshal env \<lparr> ad_Cookies = lr_Cookies r, ad_DeviceID = deviceID \<rparr>, data), signed_in r c1))))))"

text \<open>\<^verbatim>\<open>parseResource\<close> on the client: a document that does not decode changes nothing.\<close>

definition client_parseResource :: "'w setup_env \<Rightarrow> bytes \<Rightarrow> Client \<Rightarrow> gerror option \<times> Client" where
  "client_parseResource env data c =
     (case se_resource env data of
        Inl e \<Rightarrow> (Some e, c)
      | Inr doc \<Rightarrow>
          (let p = parseResource (ac_serverAddress c)
                 \<lparr> pr_ipResources = [], pr_domainResources = Map.empty, pr_dnsResource = Map.empty, pr_dnsServer = ac_dnsServer c,
                   pr_MajorNodeGroup = ac_MajorNodeGroup c, pr_NodeGroups = ac_NodeGroups c \<rparr> doc
           in (None, c\<lparr>ac_ipResources := Some (pr_ipResources p), ac_domainResources := Some (pr_domainResources p),
                 ac_dnsResource := Some (pr_dnsResource p), ac_dnsServer := pr_dnsServer p,
                 ac_MajorNodeGroup := pr_MajorNodeGroup p, ac_NodeGroups := pr_NodeGroups p\<rparr>)))"

section \<open>Nodes, address and tunnel\<close>

text \<open>None is a panic of the choice of nodes. That the dialer then leaves out the address it was given is part of the dialer.\<close>

definition selectNodesAndAcquireIP :: "'w setup_env \<Rightarrow> Client \<Rightarrow> (gerror option \<times> Client) option" where
  "selectNodesAndAcquireIP env c =
     (case se_ctxNodes env of
        Some e \<Rightarrow> Some (Some e, c)
      | None \<Rightarrow>
          map_option (\<lambda>best. getIP (se_nodeOrder env) (se_dial env) (se_write env) (c\<lparr>ac_BestNodes := best\<rparr>))
            (getBestNodes (se_groupOrder env) (se_ping env) (ac_NodeGroups c)))"

text \<open>The tunnel starts under the client's context: it has ended already when the client's has.\<close>

definition NewL3Tunnel :: "Client \<Rightarrow> L3Tunnel result" where
  "NewL3Tunnel c =
     (case client_IPResources c of
        Inl e \<Rightarrow> Inl (errorf ''failed to get IP resources'' e)
      | Inr _ \<Rightarrow>
          (case client_IP c of
             Inl e \<Rightarrow> Inl (Opaque (''failed to get client IP: '' @ error_string e))
           | Inr _ \<Rightarrow>
               Inr \<lparr> lt_conns = Map.empty, lt_shut = {}, lt_made = 0,
                     lt_cause = (if ac_cancelled c then Some (Sentinel ContextCanceled) else None),
                     lt_bestNodes = ac_BestNodes c, lt_majorNodeGroup = ac_MajorNodeGroup c \<rparr>))"

definition establishL3Tunnel :: "Client \<Rightarrow> gerror option \<times> Client" where
  "establishL3Tunnel c =
     (case NewL3Tunnel c of
        Inl e \<Rightarrow> (Some (errorf ''failed to create L3 tunnel'' e), c)
      | Inr tunnel \<Rightarrow> (None, c\<lparr>ac_l3Tunnel := Some tunnel\<rparr>))"

section \<open>The set-up\<close>

definition configureUnderlay :: "SetupConfig \<Rightarrow> Client \<Rightarrow> Client" where
  "configureUnderlay config c = c\<lparr>ac_serverAddress := sc_ServerAddress config\<rparr>"

text \<open>The part after the resources were fetched.\<close>

definition setup_tunnel :: "'w setup_env \<Rightarrow> SetupConfig \<Rightarrow> bytes option \<Rightarrow> bytes \<Rightarrow> Client
   \<Rightarrow> (setup_call list \<times> bytes option result \<times> Client) option" where
  "setup_tunnel env config authData resourceData c =
     (case client_parseResource env resourceData c of
        (Some e, c1) \<Rightarrow> Some ([], Inl e, c1)
      | (None, c1) \<Rightarrow>
          map_option (\<lambda>(err, c2).
            (case err of
               Some e \<Rightarrow> (notify config SetupStageSelectingNodes, Inl e, c2)
             | None \<Rightarrow>
                 (let calls = notify config SetupStageSelectingNodes @ notifyNodeSelection config (cloneNodes (ac_BestNodes c2))
                        @ notify config SetupStageEstablishingTunnel
                  in case establishL3Tunnel c2 of
                       (Some e, c3) \<Rightarrow> (calls, Inl e, c3)
                     | (None, c3) \<Rightarrow> (calls, Inr authData, c3))))
            (selectNodesAndAcquireIP env c1))"

text \<open>Starting the goroutine that measures the nodes again changes nothing yet; \<open>update_tick\<close> is one round of it.\<close>

definition SetupContext :: "'w setup_env \<Rightarrow> SetupConfig \<Rightarrow> bytes option \<Rightarrow> bytes option \<Rightarrow> Client
   \<Rightarrow> (setup_call list \<times> bytes option result \<times> Client) option" where
  "SetupContext env config authData resourceData c =
     (case se_ctxStart env of
        Some e \<Rightarrow> Some ([], Inl e, c)
      | None \<Rightarrow>
          (let calls = notify config SetupStageDiscoveringAuth @ notify config SetupStageAuthenticating in
           case authenticateAndFetchResources env config authData resourceData (configureUnderlay config c) of
             (more_calls, Inl e, c1) \<Rightarrow> Some (calls @ more_calls, Inl e, c1)
           | (more_calls, Inr (authData1, resourceData1), c1) \<Rightarrow>
               map_option (\<lambda>(rest, r). (calls @ more_calls @ rest, r)) (setup_tunnel env config authData1 resourceData1 c1)))"

text \<open>The dependency \<^verbatim>\<open>setup\<close> of a session's runtime: a new client of the configuration is set up.\<close>

definition runtime_config :: "RuntimeConfig \<Rightarrow> SetupConfig" where
  "runtime_config rc =
     \<lparr> sc_ServerAddress = rc_ServerAddress rc, sc_ServerPort = rc_ServerPort rc, sc_Username = rc_Username rc, sc_Password = rc_Password rc,
       sc_Phone = rc_Phone rc, sc_LoginDomain = rc_LoginDomain rc, sc_AuthType = rc_AuthType rc, sc_GraphCodeFile = rc_GraphCodeFile rc,
       sc_CASTicket = rc_CASTicket rc, sc_OAuth2Code = rc_OAuth2Code rc, sc_UpdateBestNodesInterval = rc_UpdateBestNodesInterval rc,
       sc_BindInterface = rc_BindInterface rc, sc_AutoDetectInterface = rc_AutoDetectInterface rc, sc_StageHandler = True,
       sc_NodeSelectionHandler = (rc_NodeSelectionHandler rc \<noteq> NoHandler) \<rparr>"

definition runtime_client :: "bool \<Rightarrow> RuntimeConfig \<Rightarrow> Client" where
  "runtime_client handler rc =
     (SetSkipTCPTunnelWait (rc_SkipTCPTunnelWait rc) (NewClientContext False (rc_Username rc) (rc_SID rc) (rc_DeviceID rc) (rc_SignKey rc)))
       \<lparr>ac_hasAuthHandler := handler\<rparr>"

definition client_setup :: "'w setup_env \<Rightarrow> RuntimeConfig \<Rightarrow> bytes option \<Rightarrow> bytes option \<Rightarrow> setup_call list \<times> setup_result result" where
  "client_setup env rc clientData resourceData =
     (case the (SetupContext env (runtime_config rc) clientData resourceData (runtime_client (se_authHandler env) rc)) of
        (calls, Inl e, _) \<Rightarrow> (calls, Inl e)
      | (calls, Inr data, c) \<Rightarrow>
          (calls, Inr \<lparr> su_data = (case data of None \<Rightarrow> [] | Some d \<Rightarrow> d), su_username = ac_Username c, su_reused = ac_ResumeStateReused c \<rparr>))"

section \<open>The connection of the network stack\<close>

text \<open>\<^verbatim>\<open>L3Conn\<close>: a read takes the next packet of the tunnel or ends with the tunnel, whichever the select finds; None while it waits. \<open>packets\<close> is
  the tunnel's channel.\<close>

definition l3_Read :: "bool \<Rightarrow> nat \<Rightarrow> bytes list \<Rightarrow> L3Tunnel \<Rightarrow> (bytes result \<times> bytes list) option" where
  "l3_Read preferData n packets t =
     (case (packets, lt_cause t) of
        ([], None) \<Rightarrow> None
      | ([], Some e) \<Rightarrow> Some (Inl e, [])
      | (p # ps, None) \<Rightarrow> Some (Inr (take n p), ps)
      | (p # ps, Some e) \<Rightarrow> if preferData then Some (Inr (take n p), ps) else Some (Inl e, p # ps))"

definition l3_Write :: "IPResource list \<Rightarrow> l3_env \<Rightarrow> l3_env \<Rightarrow> bytes \<Rightarrow> L3Tunnel \<Rightarrow> (nat result \<times> L3Tunnel) option" where
  "l3_Write ipResources e1 e2 packet t =
     (case lt_cause t of
        Some e \<Rightarrow> Some (Inl e, t)
      | None \<Rightarrow> map_option (\<lambda>((err, t1), _). (case err of Some e \<Rightarrow> Inl e | None \<Rightarrow> Inr (length packet), t1))
          (processIPV4 ipResources e1 e2 packet t))"

definition l3_Close :: "L3Tunnel \<Rightarrow> L3Tunnel" where
  "l3_Close t = terminate (Some (Sentinel IoEOF)) t"

definition client_NewL3Conn :: "Client \<Rightarrow> L3Tunnel result" where
  "client_NewL3Conn c = (case ac_l3Tunnel c of None \<Rightarrow> Inl (Opaque ''L3 tunnel not initialized'') | Some t \<Rightarrow> Inr t)"

text \<open>One round of \<^verbatim>\<open>forwardFromConn\<close>, which copies the packets of the node connection \<open>k\<close> to the channel, of 4096 packets; the flag says whether the loop goes on. None while it waits.\<close>

definition forward_step :: "string \<Rightarrow> nat \<Rightarrow> bytes list \<Rightarrow> l3TunnelConn \<Rightarrow> L3Tunnel \<Rightarrow> (bool \<times> bytes list \<times> l3TunnelConn \<times> L3Tunnel) option" where
  "forward_step grp k packets conn t =
     (case ReadPacket conn of
        None \<Rightarrow> None
      | Some (Inl _, conn1) \<Rightarrow> Some (False, packets, conn1, snd (evictConn grp k t))
      | Some (Inr pkt, conn1) \<Rightarrow>
          if length packets < 4096 then Some (True, packets @ [pkt], conn1, t)
          else if lt_cause t \<noteq> None then Some (False, packets, conn1, t)
          else None)"

section \<open>Commands without a session\<close>

text \<open>\<^verbatim>\<open>GetAuthInfoList\<close> and \<^verbatim>\<open>SetTrusted\<close> of \<^verbatim>\<open>client.go\<close>: each makes a session of its own. What the login of \<^verbatim>\<open>SetTrusted\<close> returns is ignored.\<close>

definition client_GetAuthInfoList :: "'w setup_env \<Rightarrow> string \<Rightarrow> int \<Rightarrow> AuthInfo list result" where
  "client_GetAuthInfoList env address port = fst (GetAuthInfoList (se_web env) (NewSession (server_host address port) (se_world env)))"

definition set_trusted :: "'w web \<Rightarrow> LoginOptions \<Rightarrow> bool \<Rightarrow> ('w, unit) act" where
  "set_trusted web opts trusted =
     abind (atry (LoginContext web None opts)) (\<lambda>_.
     abind (QueryDevice web) (\<lambda>result.
     if trusted then (if qd_DeviceTrusted result then aret () else TrustDevice web [qd_SelfID result])
     else if \<not> qd_DeviceTrusted result then aret () else UntrustDevice web [qd_SelfID result]))"

definition SetTrusted :: "'w setup_env \<Rightarrow> string \<Rightarrow> int \<Rightarrow> bytes option \<Rightarrow> bool \<Rightarrow> gerror option \<times> 'w AuthSession" where
  "SetTrusted env address port authData trusted =
     (let s = NewSession (server_host address port) (se_world env) in
      case (case authData of None \<Rightarrow> Inr \<lparr> ad_Cookies = [], ad_DeviceID = [] \<rparr> | Some d \<Rightarrow> se_unmarshal env d) of
        Inl e \<Rightarrow> (Some e, s)
      | Inr given \<Rightarrow>
          (let deviceID = (if ad_DeviceID given = [] then ToLower (randHex 32 (se_deviceBytes env)) else ad_DeviceID given) in
           case set_trusted (se_web env) \<lparr> lo_DeviceID = deviceID, lo_Cookies = ad_Cookies given \<rparr> trusted s of
             (Inl e, s1) \<Rightarrow> (Some e, s1)
           | (Inr _, s1) \<Rightarrow> (None, s1)))"

section \<open>What a set-up does\<close>

lemma stages_append [simp]: "stages_of (xs @ ys) = stages_of xs @ stages_of ys"
  by (induction xs rule: stages_of.induct) simp_all

lemma stages_notify [simp]:
  "sc_StageHandler config \<Longrightarrow> stages_of (notify config st) = [st]" "stages_of (notifyNodeSelection config nodes) = []"
  by (simp_all add: notify_def notifyNodeSelection_def)

lemma auth_stages:
  assumes "authenticateAndFetchResources env config ad rd c = (calls, r, c1)"
  shows "(r = Inl e \<longrightarrow> calls = [] \<or> calls = notify config SetupStageFetchingResources) \<and> (r = Inr x \<longrightarrow> calls = notify config SetupStageFetchingResources)"
  using assms unfolding authenticateAndFetchResources_def Let_def by (auto split: option.splits sum.splits prod.splits if_splits)

text \<open>The nodes that the resources name: finitely many groups, and addresses with a colon.\<close>

lemma node_address_colon: "Contains (node_address server a) '':''"
  unfolding node_address_def Let_def by (simp add: Contains_colon)

lemma node_groups_fold:
  assumes "finite (dom m)" "\<forall>ns \<in> ran m. list_all (\<lambda>n. Contains n '':'') ns"
  shows "finite (dom (foldl (\<lambda>m g. m(ng_ID g \<mapsto> map (node_address server) (ng_AddressInfo g))) m gs))
    \<and> (\<forall>ns \<in> ran (foldl (\<lambda>m g. m(ng_ID g \<mapsto> map (node_address server) (ng_AddressInfo g))) m gs). list_all (\<lambda>n. Contains n '':'') ns)"
  using assms
proof (induction gs arbitrary: m)
  case (Cons g gs)
  have "ns \<in> ran m \<or> ns = map (node_address server) (ng_AddressInfo g)" if "ns \<in> ran (m(ng_ID g \<mapsto> map (node_address server) (ng_AddressInfo g)))" for ns
    using that by (auto simp: ran_def split: if_splits)
  then have "\<forall>ns \<in> ran (m(ng_ID g \<mapsto> map (node_address server) (ng_AddressInfo g))). list_all (\<lambda>n. Contains n '':'') ns"
    using Cons.prems(2) node_address_colon by (fastforce simp: list_all_iff)
  moreover have "finite (dom (m(ng_ID g \<mapsto> map (node_address server) (ng_AddressInfo g))))" using Cons.prems(1) by simp
  ultimately show ?case unfolding foldl_Cons by (intro Cons.IH)
qed simp

lemma parsed_client:
  assumes "client_parseResource env data c = (None, c1)"
  shows "finite (dom (ac_NodeGroups c1)) \<and> (\<forall>ns \<in> ran (ac_NodeGroups c1). list_all (\<lambda>n. Contains n '':'') ns) \<and> ac_ipResources c1 \<noteq> None"
proof -
  obtain doc where d: "se_resource env data = Inr doc" using assms by (auto simp: client_parseResource_def split: sum.splits)
  have "ac_NodeGroups c1 = foldl (\<lambda>m g. m(ng_ID g \<mapsto> map (node_address (ac_serverAddress c)) (ng_AddressInfo g))) Map.empty (cr_NodeGroupList doc)"
    using assms by (auto simp: client_parseResource_def d parseResource_def Let_def)
  moreover have "ac_ipResources c1 \<noteq> None" using assms by (auto simp: client_parseResource_def d Let_def)
  ultimately show ?thesis using node_groups_fold [of Map.empty] by simp
qed

lemma IPv4_To4: "To4 (IPv4 a b c d) \<noteq> None"
  by (simp add: IPv4_def To4_def v4_prefix_def)

lemma read_ip_v4: "read_ip r = Inr p \<Longrightarrow> To4 p \<noteq> None"
proof (induction "length r" arbitrary: r rule: less_induct)
  case less
  note eq = less.prems [unfolded read_ip.simps [of r]]
  obtain header r1 where h: "ReadFull 2 r = Inr (header, r1)" using eq by (cases "ReadFull 2 r") auto
  then have r1: "length r1 < length r" by (auto simp: ReadFull_Inr)
  note eq1 = eq [unfolded h, simplified]
  consider "header ! 0 = 0x53 \<and> header ! 1 = 0" | "\<not> (header ! 0 = 0x53 \<and> header ! 1 = 0)" "header ! 0 = 5 \<and> header ! 1 = 0"
    | "\<not> (header ! 0 = 0x53 \<and> header ! 1 = 0)" "\<not> (header ! 0 = 5 \<and> header ! 1 = 0)" by blast
  then show ?case
  proof cases
    case 1
    then obtain data r2 where c: "read_counted r1 = Inr (data, r2)" "read_ip r2 = Inr p"
      using eq1 by (auto split: sum.splits prod.splits if_splits)
    have "length r2 < length r" using c(1) r1 by (auto simp: read_counted_Inr)
    then show ?thesis using less.hyps c(2) by blast
  next
    case 2
    then show ?thesis using eq1 by (auto simp: IPv4_To4 split: sum.splits prod.splits if_splits)
  next
    case 3
    then show ?thesis using eq1 less.hyps [OF r1] by (auto split: if_splits)
  qed
qed

text \<open>A client that has its nodes and its address.\<close>

definition placed :: "Client \<Rightarrow> bool" where
  "placed c \<longleftrightarrow> To4 (ac_ip c) \<noteq> None \<and> ac_ipResources c \<noteq> None
     \<and> (\<forall>g. ac_BestNodes c g \<noteq> None \<longleftrightarrow> (\<exists>ns. ac_NodeGroups c g = Some ns \<and> ns \<noteq> []))
     \<and> (\<forall>g a. ac_BestNodes c g = Some a \<longrightarrow> a \<in> set (the (ac_NodeGroups c g)))"

lemma getBestNodes_some:
  assumes "ranges ord" "finite (dom groups)" "\<forall>ns \<in> ran groups. list_all (\<lambda>n. Contains n '':'') ns"
  shows "\<exists>best. getBestNodes ord ping groups = Some best \<and> (\<forall>g. best g \<noteq> None \<longleftrightarrow> (\<exists>ns. groups g = Some ns \<and> ns \<noteq> []))
     \<and> (\<forall>g a. best g = Some a \<longrightarrow> a \<in> set (the (groups g)))"
proof -
  obtain best where best: "getBestNodes ord ping groups = Some best" "\<And>g. best g \<noteq> None \<longleftrightarrow> (\<exists>ns. groups g = Some ns \<and> ns \<noteq> [])"
      "\<And>g ns. groups g = Some ns \<and> ns \<noteq> [] \<Longrightarrow> the (best g) \<in> set ns"
    using chosen_nodes [OF assms, of ping] by blast
  have "a \<in> set (the (groups g))" if "best g = Some a" for g a using best(2) [of g] best(3) [of g] that by auto
  then show ?thesis using best(1,2) by blast
qed

lemma getIP_client:
  assumes "getIP ord dial write c = (err, c1)"
  shows "(err = None \<longrightarrow> To4 (ac_ip c1) \<noteq> None) \<and> (\<exists>p. c1 = c\<lparr>ac_ip := p\<rparr>)"
proof -
  have same: "\<exists>p. c = c\<lparr>ac_ip := p\<rparr>" by (rule exI [of _ "ac_ip c"]) simp
  show ?thesis
  proof (cases err)
    case None
    then obtain p r where "read_ip r = Inr p" "c1 = c\<lparr>ac_ip := p\<rparr>" using assms unfolding getIP_def Let_def by (auto split: if_splits sum.splits option.splits)
    then show ?thesis using read_ip_v4 by auto
  next
    case (Some e)
    then have "c1 = c" using assms unfolding getIP_def Let_def by (auto split: if_splits sum.splits option.splits)
    then show ?thesis using Some same by simp
  qed
qed

lemma selected:
  assumes "ranges (se_groupOrder env)" "finite (dom (ac_NodeGroups c))" "\<forall>ns \<in> ran (ac_NodeGroups c). list_all (\<lambda>n. Contains n '':'') ns"
    and "ac_ipResources c \<noteq> None"
  shows "\<exists>err c1. selectNodesAndAcquireIP env c = Some (err, c1) \<and> (err = None \<longrightarrow> placed c1)"
proof (cases "se_ctxNodes env")
  case None
  obtain best where b: "getBestNodes (se_groupOrder env) (se_ping env) (ac_NodeGroups c) = Some best"
      "\<forall>g. best g \<noteq> None \<longleftrightarrow> (\<exists>ns. ac_NodeGroups c g = Some ns \<and> ns \<noteq> [])" "\<forall>g a. best g = Some a \<longrightarrow> a \<in> set (the (ac_NodeGroups c g))"
    using getBestNodes_some [OF assms(1-3), of "se_ping env"] by blast
  obtain err c1 where g: "getIP (se_nodeOrder env) (se_dial env) (se_write env) (c\<lparr>ac_BestNodes := best\<rparr>) = (err, c1)" by fastforce
  have "placed c1" if "err = None"
  proof -
    note ok = that
    obtain p where "c1 = c\<lparr>ac_BestNodes := best, ac_ip := p\<rparr>" "To4 (ac_ip c1) \<noteq> None" using getIP_client [OF g] ok by auto
    then show ?thesis using b(2,3) assms(4) unfolding placed_def by simp
  qed
  then show ?thesis using b(1) g by (auto simp: selectNodesAndAcquireIP_def None)
qed (simp add: selectNodesAndAcquireIP_def)

lemma placed_tunnel:
  assumes "placed c"
  shows "\<exists>t. establishL3Tunnel c = (None, c\<lparr>ac_l3Tunnel := Some t\<rparr>) \<and> lt_inv t"
proof -
  have "ac_ip c \<noteq> []" using assms by (auto simp: placed_def To4_def)
  then show ?thesis using assms
    by (auto simp: establishL3Tunnel_def NewL3Tunnel_def client_IPResources_def client_IP_def placed_def lt_inv_def ran_def)
qed

text \<open>A set-up that has come to its tunnel.\<close>

definition ready_client :: "Client \<Rightarrow> bool" where
  "ready_client c \<longleftrightarrow> placed c \<and> (\<exists>t. ac_l3Tunnel c = Some t \<and> lt_inv t)"

lemma setup_tunnel_stages:
  assumes "ranges (se_groupOrder env)" "sc_StageHandler config"
  shows "\<exists>calls r c1. setup_tunnel env config ad rd c = Some (calls, r, c1)
     \<and> (if isl r then \<exists>n. stages_of calls = take n [SetupStageSelectingNodes, SetupStageEstablishingTunnel]
        else stages_of calls = [SetupStageSelectingNodes, SetupStageEstablishingTunnel] \<and> ready_client c1)"
proof (cases "client_parseResource env rd c")
  case (Pair perr c1)
  show ?thesis
  proof (cases perr)
    case (Some e)
    then show ?thesis by (auto simp: setup_tunnel_def Pair intro!: exI [of _ 0])
  next
    case None
    have p: "finite (dom (ac_NodeGroups c1))" "\<forall>ns \<in> ran (ac_NodeGroups c1). list_all (\<lambda>n. Contains n '':'') ns" "ac_ipResources c1 \<noteq> None"
      using parsed_client Pair None by blast+
    obtain err c2 where s: "selectNodesAndAcquireIP env c1 = Some (err, c2)" "err = None \<longrightarrow> placed c2" using selected [OF assms(1) p] by blast
    show ?thesis
    proof (cases err)
      case (Some e)
      then show ?thesis using s(1) assms(2) None by (auto simp: setup_tunnel_def Pair intro!: exI [of _ 1])
    next
      case err: None
      then obtain t where t: "establishL3Tunnel c2 = (None, c2\<lparr>ac_l3Tunnel := Some t\<rparr>)" "lt_inv t" using placed_tunnel s(2) by blast
      have "ready_client (c2\<lparr>ac_l3Tunnel := Some t\<rparr>)" using s(2) err t(2) by (simp add: ready_client_def placed_def)
      then show ?thesis using s(1) assms(2) None err t(1) by (simp add: setup_tunnel_def Pair Let_def)
    qed
  qed
qed

lemma setup_stages_split:
  "setup_stages = [SetupStageDiscoveringAuth, SetupStageAuthenticating, SetupStageFetchingResources] @ [SetupStageSelectingNodes, SetupStageEstablishingTunnel]"
  by (simp add: setup_stages_def)

lemma SetupContext_stages:
  assumes "ranges (se_groupOrder env)" "sc_StageHandler config"
  shows "\<exists>calls r c1. SetupContext env config ad rd c = Some (calls, r, c1)
     \<and> (if isl r then \<exists>n. stages_of calls = take n setup_stages else stages_of calls = setup_stages \<and> ready_client c1)"
proof (cases "se_ctxStart env")
  case (Some e)
  then show ?thesis by (auto simp: SetupContext_def intro!: exI [of _ 0])
next
  case None
  obtain calls r c1 where a: "authenticateAndFetchResources env config ad rd (configureUnderlay config c) = (calls, r, c1)" by (metis prod_cases3)
  show ?thesis
  proof (cases r)
    case (Inl e)
    then consider "stages_of calls = []" | "stages_of calls = [SetupStageFetchingResources]" using auth_stages [OF a, of e] assms(2) by fastforce
    then have "\<exists>n. [SetupStageDiscoveringAuth, SetupStageAuthenticating] @ stages_of calls = take n setup_stages"
      by cases (auto simp: setup_stages_split intro: exI [of _ 2] exI [of _ 3])
    then show ?thesis using assms(2) by (simp add: SetupContext_def None a Inl Let_def)
  next
    case (Inr x)
    obtain ad1 rd1 where x: "x = (ad1, rd1)" by fastforce
    obtain calls2 r2 c2 where s: "setup_tunnel env config ad1 rd1 c1 = Some (calls2, r2, c2)"
        "if isl r2 then \<exists>n. stages_of calls2 = take n [SetupStageSelectingNodes, SetupStageEstablishingTunnel]
         else stages_of calls2 = [SetupStageSelectingNodes, SetupStageEstablishingTunnel] \<and> ready_client c2"
      using setup_tunnel_stages [OF assms] by blast
    have c: "stages_of calls = [SetupStageFetchingResources]" using auth_stages [OF a, of _ x] Inr assms(2) by simp
    have "take (3 + n) setup_stages = [SetupStageDiscoveringAuth, SetupStageAuthenticating, SetupStageFetchingResources]
        @ take n [SetupStageSelectingNodes, SetupStageEstablishingTunnel]" for n
      unfolding setup_stages_split take_append by simp
    then have "if isl r2 then \<exists>n. [SetupStageDiscoveringAuth, SetupStageAuthenticating, SetupStageFetchingResources] @ stages_of calls2 = take n setup_stages
        else [SetupStageDiscoveringAuth, SetupStageAuthenticating, SetupStageFetchingResources] @ stages_of calls2 = setup_stages \<and> ready_client c2"
      using s(2) setup_stages_split by metis
    then show ?thesis using s(1) c assms(2) by (cases "isl r2") (simp_all add: SetupContext_def None a Inr x Let_def)
  qed
qed

lemma built_methods: "buildLoginMethod config = Inr (Some m) \<Longrightarrow> no_callback m"
  by (auto simp: buildLoginMethod_def no_callback_def split: if_splits)

text \<open>C7. The set-up of the client a session's runtime creates. It never panics, whatever the gateway, the user and the network do; it announces its stages in order, each once,
  stopping where it fails; when it succeeds it has announced all five, and the client has an IPv4 address, its resources, a node of its own for exactly the groups that
  have nodes, and a layer-3 tunnel without connections to lose. So it satisfies what the session's theorems ask of their set-up, and the login methods it builds leave
  the callback to be asked and checked.\<close>

theorem setup_in_stages:
  assumes "ranges (se_groupOrder env)"
  shows "(\<exists>calls r c1. SetupContext env (runtime_config rc) clientData resourceData c = Some (calls, r, c1)
       \<and> (if isl r then \<exists>n. stages_of calls = take n setup_stages else stages_of calls = setup_stages \<and> ready_client c1))
     \<and> stages_ordered (deps\<lparr>d_setup := client_setup env\<rparr>)
     \<and> (\<forall>config m. buildLoginMethod config = Inr (Some m) \<longrightarrow> no_callback m)"
proof -
  have handler: "sc_StageHandler (runtime_config rc)" for rc by (simp add: runtime_config_def)
  have "\<exists>n. stages_of (fst (client_setup env rc d1 d2)) = take n setup_stages" for rc d1 d2
  proof -
    obtain calls r c1 where s: "SetupContext env (runtime_config rc) d1 d2 (runtime_client (se_authHandler env) rc) = Some (calls, r, c1)"
        "if isl r then \<exists>n. stages_of calls = take n setup_stages else stages_of calls = setup_stages \<and> ready_client c1"
      using SetupContext_stages [OF assms handler] by blast
    have "\<exists>n. stages_of calls = take n setup_stages" using s(2) by (cases "isl r") (auto intro: exI [of _ 5] simp: setup_stages_def)
    moreover have "fst (client_setup env rc d1 d2) = calls" by (simp add: client_setup_def s(1) split: sum.split)
    ultimately show ?thesis by simp
  qed
  then show ?thesis using SetupContext_stages [OF assms handler] built_methods by (auto simp: stages_ordered_def)
qed

text \<open>A client that is given a session, a device and resources with one node, which assigns the address 10.0.0.9.\<close>

definition demo_env :: "nat setup_env" where
  "demo_env = \<lparr> se_web = demo_web, se_world = 0, se_authHandler = True, se_unmarshal = (\<lambda>_. Inl (Opaque ''no data'')), se_marshal = (\<lambda>_. None),
     se_resource = (\<lambda>_. Inr \<lparr> cr_AppInfo = [], cr_MajorNodeGroup = ''g'', cr_NodeGroupList = [\<lparr> ng_AddressInfo = [''n:1''], ng_ID = ''g'' \<rparr>],
       cr_DNSOption_FirstDNS = [], cr_DNSOptionV2_FirstDNS = [] \<rparr>),
     se_deviceBytes = [], se_keyBytes = [], se_md5 = (\<lambda>_. []), se_UnixMicro = 0, se_ctxStart = None, se_ctxNodes = None, se_groupOrder = by_key,
     se_nodeOrder = by_key, se_ping = demo_ping, se_dial = (\<lambda>_. Inr [5, 0, 0, 1, 10, 0, 0, 9]), se_write = (\<lambda>_. None) \<rparr>"

definition demo_rc :: RuntimeConfig where
  "demo_rc = demo_config\<lparr>rc_SID := ''s'', rc_DeviceID := ''d''\<rparr>"

lemma demo_read_ip: "read_ip [5, 0, 0, 1, 10, 0, 0, 9] = Inr (IPv4 10 0 0 9)"
  by (simp add: read_ip.simps [of "[5, 0, 0, 1, 10, 0, 0, 9]"] ReadFull_def)

lemma demo_setup: "\<exists>calls c1. SetupContext demo_env (runtime_config demo_rc) None (Some []) (runtime_client True demo_rc) = Some (calls, Inr None, c1)"
proof -
  let ?groups = "[''g'' \<mapsto> [''n:1'']] :: string \<rightharpoonup> string list"
  have best: "getBestNodes by_key demo_ping ?groups = Some [''g'' \<mapsto> ''n:1'']"
    by (simp add: getBestNodes_def by_key_def group_node_def fun_eq_iff)
  obtain c where a: "authenticateAndFetchResources demo_env (runtime_config demo_rc) None (Some []) (configureUnderlay (runtime_config demo_rc) (runtime_client True demo_rc))
      = (notify (runtime_config demo_rc) SetupStageFetchingResources, Inr (None, []), c)"
    by (simp add: authenticateAndFetchResources_def configureUnderlay_def runtime_client_def SetSkipTCPTunnelWait_def NewClientContext_def demo_rc_def)
  obtain c1 where p: "client_parseResource demo_env [] c = (None, c1)" "ac_NodeGroups c1 = ?groups" "ac_MajorNodeGroup c1 = ''g''" "ac_ipResources c1 \<noteq> None"
    by (simp add: client_parseResource_def demo_env_def parseResource_def add_apps_def node_address_def HasPrefix_def Let_def)
  have s: "selectNodesAndAcquireIP demo_env c1 = Some (None, c1\<lparr>ac_BestNodes := [''g'' \<mapsto> ''n:1''], ac_ip := IPv4 10 0 0 9\<rparr>)"
    using best p by (simp add: selectNodesAndAcquireIP_def demo_env_def getIP_def ip_requests_def demo_read_ip)
  have "placed (c1\<lparr>ac_BestNodes := [''g'' \<mapsto> ''n:1''], ac_ip := IPv4 10 0 0 9\<rparr>)" using p IPv4_To4 by (simp add: placed_def)
  from placed_tunnel [OF this] show ?thesis using p(1) s a by (auto simp: SetupContext_def demo_env_def setup_tunnel_def Let_def)
qed

theorem setup_in_stages_witness:
  "\<exists>calls c1. SetupContext demo_env (runtime_config demo_rc) None (Some []) (runtime_client True demo_rc) = Some (calls, Inr None, c1)
     \<and> stages_of calls = setup_stages \<and> ready_client c1 \<and> stages_ordered (demo_deps\<lparr>d_setup := client_setup demo_env\<rparr>)"
proof -
  have o: "ranges (se_groupOrder demo_env)" using ranges_by_key by (simp add: demo_env_def)
  obtain calls c1 where s: "SetupContext demo_env (runtime_config demo_rc) None (Some []) (runtime_client True demo_rc) = Some (calls, Inr None, c1)"
    using demo_setup by blast
  show ?thesis using setup_in_stages [OF o, where clientData = None and rc = demo_rc and resourceData = "Some []" and c = "runtime_client True demo_rc" and deps = demo_deps] s
    by simp
qed

end
