(* ===== verification/TunUDP.thy ===== *)
theory TunUDP
  imports Resolver
begin

text \<open>
  UDP over the TUN device, \<^verbatim>\<open>src/internal/networkruntime/tun_udp.go\<close>: an association per local source, a flow per destination of an association, and the
  service's set of flows with its limit.

  Flows are pointers: numbers in the order they are made. The four parts of a flow's \<^verbatim>\<open>Close\<close>, each under a mutex of its own, are steps, so that other
  goroutines can come between them; \<open>fl_phase\<close> says how far it has come. So are putting a new flow into its association and into the
  service's set. Dialling, the packets and their errors, and the current time are arguments.
\<close>

section \<open>State\<close>

datatype flow_phase = FlowOpen | FlowDetached | FlowUnregistered | FlowClosed

text \<open>\<open>fl_closes\<close> counts the calls that close the remote connection.\<close>

record tunUDPFlow =
  fl_association :: nat
  fl_destination :: "ip \<times> nat"
  fl_address :: string
  fl_lastActive :: int
  fl_uploaded :: nat
  fl_downloaded :: nat
  fl_phase :: flow_phase
  fl_closes :: nat

record udpFlows =
  ud_heap :: "nat \<Rightarrow> tunUDPFlow"
  ud_made :: nat
  ud_flows :: "nat \<Rightarrow> (string \<rightharpoonup> nat)"
  ud_set :: "nat set"
  ud_maxFlows :: nat
  ud_timeout :: int
  ud_fakeIPs :: "fakeIPStore option"

definition put_flow :: "nat \<Rightarrow> tunUDPFlow \<Rightarrow> udpFlows \<Rightarrow> udpFlows" where
  "put_flow r f s = s\<lparr>ud_heap := (ud_heap s)(r := f)\<rparr>"

definition flow_touch :: "int \<Rightarrow> nat \<Rightarrow> udpFlows \<Rightarrow> udpFlows" where
  "flow_touch now r s = put_flow r ((ud_heap s r)\<lparr>fl_lastActive := now\<rparr>) s"

section \<open>Closing a flow\<close>

text \<open>Only the first call runs; the association forgets the flow if it still has it.\<close>

definition flow_detach :: "nat \<Rightarrow> udpFlows \<Rightarrow> udpFlows" where
  "flow_detach r s =
     (let f = ud_heap s r; a = fl_association f; k = fl_address f in
      if r < ud_made s \<and> fl_phase f = FlowOpen then
        put_flow r (f\<lparr>fl_phase := FlowDetached\<rparr>)
          (if ud_flows s a k = Some r then s\<lparr>ud_flows := (ud_flows s)(a := (ud_flows s a)(k := None))\<rparr> else s)
      else s)"

definition unregisterUDPFlow :: "nat \<Rightarrow> udpFlows \<Rightarrow> udpFlows" where
  "unregisterUDPFlow r s =
     (if r < ud_made s \<and> fl_phase (ud_heap s r) = FlowDetached
      then put_flow r ((ud_heap s r)\<lparr>fl_phase := FlowUnregistered\<rparr>) (s\<lparr>ud_set := ud_set s - {r}\<rparr>) else s)"

definition flow_close_remote :: "nat \<Rightarrow> udpFlows \<Rightarrow> udpFlows" where
  "flow_close_remote r s =
     (if r < ud_made s \<and> fl_phase (ud_heap s r) = FlowUnregistered
      then put_flow r ((ud_heap s r)\<lparr>fl_phase := FlowClosed, fl_closes := fl_closes (ud_heap s r) + 1\<rparr>) s else s)"

text \<open>A call that is not interrupted, or that waits for the one under way.\<close>

definition flow_Close :: "nat \<Rightarrow> udpFlows \<Rightarrow> udpFlows" where
  "flow_Close r s = flow_close_remote r (unregisterUDPFlow r (flow_detach r s))"

section \<open>New flows and the limit\<close>

definition new_flow :: "nat \<Rightarrow> ip \<times> nat \<Rightarrow> string \<Rightarrow> int \<Rightarrow> flow_phase \<Rightarrow> tunUDPFlow" where
  "new_flow a destination key now phase =
     \<lparr> fl_association = a, fl_destination = destination, fl_address = key, fl_lastActive = now, fl_uploaded = 0, fl_downloaded = 0,
       fl_phase = phase, fl_closes = 0 \<rparr>"

text \<open>After the dial: another flow may have been put under the key meanwhile, and then the new one is closed again. The result is the flow to use.\<close>

definition flow_insert :: "nat \<Rightarrow> ip \<times> nat \<Rightarrow> string \<Rightarrow> int \<Rightarrow> udpFlows \<Rightarrow> nat \<times> udpFlows" where
  "flow_insert a destination key now s =
     (let r = ud_made s; s1 = s\<lparr>ud_made := Suc r\<rparr> in
      case ud_flows s a key of
        Some existing \<Rightarrow> (existing, put_flow r (new_flow a destination key now FlowDetached) s1)
      | None \<Rightarrow>
          (r, (put_flow r (new_flow a destination key now FlowOpen) s1)\<lparr>ud_flows := (ud_flows s)(a := (ud_flows s a)(key \<mapsto> r))\<rparr>))"

text \<open>\<^verbatim>\<open>registerUDPFlow\<close> then looks for the flow that was idle longest, in the order \<open>ord\<close> in which it visits the set.\<close>

fun oldest_flow :: "(nat \<Rightarrow> int) \<Rightarrow> nat \<Rightarrow> nat option \<Rightarrow> nat list \<Rightarrow> nat option" where
  "oldest_flow active r oldest [] = oldest"
| "oldest_flow active r oldest (candidate # rest) =
     oldest_flow active r
       (if candidate \<noteq> r \<and> (case oldest of None \<Rightarrow> True | Some old \<Rightarrow> active candidate < active old) then Some candidate else oldest) rest"

definition flow_victim :: "(nat set \<Rightarrow> nat list) \<Rightarrow> nat \<Rightarrow> udpFlows \<Rightarrow> nat option" where
  "flow_victim ord r s =
     (if card (ud_set s) > ud_maxFlows s
      then oldest_flow (\<lambda>c. fl_lastActive (ud_heap s c)) r None (ord (ud_set s)) else None)"

text \<open>Under the mutex of the set: the flow goes in, and the victim to be closed is chosen.\<close>

definition registerUDPFlow :: "(nat set \<Rightarrow> nat list) \<Rightarrow> nat \<Rightarrow> udpFlows \<Rightarrow> nat option \<times> udpFlows" where
  "registerUDPFlow ord r s = (let s1 = s\<lparr>ud_set := insert r (ud_set s)\<rparr> in (flow_victim ord r s1, s1))"

text \<open>A new flow with the closing that follows: the loser of a race, or the victim of the limit.\<close>

definition flow_add :: "(nat set \<Rightarrow> nat list) \<Rightarrow> nat \<Rightarrow> ip \<times> nat \<Rightarrow> string \<Rightarrow> int \<Rightarrow> udpFlows \<Rightarrow> nat \<times> udpFlows" where
  "flow_add ord a destination key now s =
     (let (r, s1) = flow_insert a destination key now s in
      if r \<noteq> ud_made s then (r, flow_Close (ud_made s) s1)
      else (r, case registerUDPFlow ord r s1 of (None, s2) \<Rightarrow> s2 | (Some v, s2) \<Rightarrow> flow_Close v s2))"

section \<open>The loop of an association\<close>

text \<open>
  What happens around one packet of an association: the error of reading it, its destination, the error of the DNS handler, of the
  dial, the count and error of the write.  \<open>closed\<close> is \<^verbatim>\<open>isExpectedTUNCloseError\<close> of an error.
\<close>

record udp_packet =
  up_readErr :: "gerror option"
  up_destination :: "ip \<times> nat"
  up_dnsErr :: "gerror option"
  up_dialErr :: "gerror option"
  up_write :: "nat \<times> gerror option"
  up_now :: int

definition unexpected :: "(gerror \<Rightarrow> bool) \<Rightarrow> gerror option \<Rightarrow> gerror option" where
  "unexpected closed err = (case err of None \<Rightarrow> None | Some e \<Rightarrow> if closed e then None else Some e)"

text \<open>\<^verbatim>\<open>flow\<close>: the flow of the address the destination is routed to, or a dialled one.\<close>

definition association_flow :: "(nat set \<Rightarrow> nat list) \<Rightarrow> nat \<Rightarrow> udp_packet \<Rightarrow> udpFlows \<Rightarrow> nat result \<times> udpFlows" where
  "association_flow ord a p s =
     (case routeDestination (up_now p) (ud_fakeIPs s) (fst (up_destination p)) (snd (up_destination p)) of
        ((key, display), fakeIPs) \<Rightarrow>
          (let s1 = s\<lparr>ud_fakeIPs := fakeIPs\<rparr> in
           case ud_flows s1 a key of
             Some r \<Rightarrow> (Inr r, s1)
           | None \<Rightarrow>
               (case up_dialErr p of
                  Some e \<Rightarrow> (Inl e, s1)
                | None \<Rightarrow> (case flow_add ord a (up_destination p) key (up_now p) s1 of (r, s2) \<Rightarrow> (Inr r, s2)))))"

text \<open>One round: whether the loop goes on, or what it returns.\<close>

definition packet_round :: "(gerror \<Rightarrow> bool) \<Rightarrow> bool \<Rightarrow> (nat set \<Rightarrow> nat list) \<Rightarrow> nat \<Rightarrow> udp_packet \<Rightarrow> udpFlows \<Rightarrow> gerror option option \<times> udpFlows" where
  "packet_round closed dnsHijack ord a p s =
     (case up_readErr p of
        Some e \<Rightarrow> (Some (unexpected closed (Some e)), s)
      | None \<Rightarrow>
          if dnsHijack \<and> snd (up_destination p) = 53 then
            (case unexpected closed (up_dnsErr p) of Some e \<Rightarrow> (Some (Some e), s) | None \<Rightarrow> (None, s))
          else
            (case association_flow ord a p s of
               (Inl e, s1) \<Rightarrow> (Some (Some e), s1)
             | (Inr r, s1) \<Rightarrow>
                 (let f = ud_heap s1 r;
                      s2 = flow_touch (up_now p) r (put_flow r (f\<lparr>fl_uploaded := fl_uploaded f + fst (up_write p)\<rparr>) s1)
                  in case snd (up_write p) of
                       None \<Rightarrow> (None, s2)
                     | Some e \<Rightarrow>
                         (case unexpected closed (Some e) of None \<Rightarrow> (None, flow_Close r s2) | Some e' \<Rightarrow> (Some (Some e'), flow_Close r s2)))))"

text \<open>\<^verbatim>\<open>Close\<close> of an association: every flow it has, in the order \<open>ord\<close>.\<close>

definition flows_of :: "((string \<rightharpoonup> nat) \<Rightarrow> string list) \<Rightarrow> nat \<Rightarrow> udpFlows \<Rightarrow> nat list" where
  "flows_of ord a s = map (\<lambda>k. the (ud_flows s a k)) (ord (ud_flows s a))"

definition association_Close :: "((string \<rightharpoonup> nat) \<Rightarrow> string list) \<Rightarrow> nat \<Rightarrow> udpFlows \<Rightarrow> udpFlows" where
  "association_Close ord a s = foldl (\<lambda>s r. flow_Close r s) s (flows_of ord a s)"

text \<open>One tick of \<^verbatim>\<open>cleanupIdle\<close>.\<close>

definition cleanup_tick :: "((string \<rightharpoonup> nat) \<Rightarrow> string list) \<Rightarrow> int \<Rightarrow> nat \<Rightarrow> udpFlows \<Rightarrow> udpFlows" where
  "cleanup_tick ord now a s =
     foldl (\<lambda>s' r. if now - fl_lastActive (ud_heap s' r) \<ge> ud_timeout s' then flow_Close r s' else s') s
       (flows_of ord a s)"

definition cleanup_interval :: "int \<Rightarrow> int" where
  "cleanup_interval timeout = max (timeout div 2) 1000000000"

text \<open>One round of \<^verbatim>\<open>readResponses\<close>: the bytes read and the errors of the write to the device and of the read. The flag is whether it goes on; the packet
  goes to the destination of the flow.\<close>

definition response_round :: "nat \<Rightarrow> nat \<Rightarrow> gerror option \<Rightarrow> gerror option \<Rightarrow> int \<Rightarrow> udpFlows \<Rightarrow> bool \<times> udpFlows" where
  "response_round r count writeErr readErr now s =
     (let f = ud_heap s r;
          s1 = (if 0 < count then flow_touch now r (put_flow r (f\<lparr>fl_downloaded := fl_downloaded f + count\<rparr>) s) else s)
      in if (0 < count \<and> writeErr \<noteq> None) \<or> readErr \<noteq> None then (False, flow_Close r s1) else (True, s1))"

section \<open>The invariant under every interleaving\<close>

definition udp_inv :: "udpFlows \<Rightarrow> bool" where
  "udp_inv s \<longleftrightarrow>
     (\<forall>a k r. ud_flows s a k = Some r \<longrightarrow>
        r < ud_made s \<and> fl_association (ud_heap s r) = a \<and> fl_address (ud_heap s r) = k \<and> fl_phase (ud_heap s r) = FlowOpen)
   \<and> (\<forall>r < ud_made s. fl_phase (ud_heap s r) = FlowOpen \<longrightarrow>
        ud_flows s (fl_association (ud_heap s r)) (fl_address (ud_heap s r)) = Some r)
   \<and> (\<forall>r \<in> ud_set s. r < ud_made s)
   \<and> (\<forall>r < ud_made s. fl_closes (ud_heap s r) = (if fl_phase (ud_heap s r) = FlowClosed then 1 else 0))"

text \<open>What any goroutine can do next.\<close>

datatype udp_op =
    OpInsert nat "ip \<times> nat" string int
  | OpRegister nat
  | OpDetach nat
  | OpUnregister nat
  | OpCloseRemote nat
  | OpTouch int nat
  | OpCount nat nat nat
  | OpRoute int "ip \<times> nat"

definition flow_count :: "nat \<Rightarrow> nat \<Rightarrow> nat \<Rightarrow> udpFlows \<Rightarrow> udpFlows" where
  "flow_count up down r s =
     put_flow r ((ud_heap s r)\<lparr>fl_uploaded := fl_uploaded (ud_heap s r) + up, fl_downloaded := fl_downloaded (ud_heap s r) + down\<rparr>) s"

primrec udp_step :: "udpFlows \<Rightarrow> udp_op \<Rightarrow> udpFlows" where
  "udp_step s (OpInsert a destination key now) = snd (flow_insert a destination key now s)"
| "udp_step s (OpRegister r) = (if r < ud_made s then snd (registerUDPFlow (\<lambda>_. []) r s) else s)"
| "udp_step s (OpDetach r) = flow_detach r s"
| "udp_step s (OpUnregister r) = unregisterUDPFlow r s"
| "udp_step s (OpCloseRemote r) = flow_close_remote r s"
| "udp_step s (OpTouch now r) = flow_touch now r s"
| "udp_step s (OpCount up down r) = flow_count up down r s"
| "udp_step s (OpRoute now d) = s\<lparr>ud_fakeIPs := snd (routeDestination now (ud_fakeIPs s) (fst d) (snd d))\<rparr>"

definition udp_initial :: "udpFlows \<Rightarrow> bool" where
  "udp_initial s \<longleftrightarrow> ud_made s = 0 \<and> ud_flows s = (\<lambda>_. Map.empty) \<and> ud_set s = {}"

lemma udp_inv_mapped: "udp_inv s \<Longrightarrow> ud_flows s a k = Some r \<Longrightarrow>
    r < ud_made s \<and> fl_association (ud_heap s r) = a \<and> fl_address (ud_heap s r) = k \<and> fl_phase (ud_heap s r) = FlowOpen"
  by (simp add: udp_inv_def)

lemma udp_inv_open: "udp_inv s \<Longrightarrow> r < ud_made s \<Longrightarrow> fl_phase (ud_heap s r) = FlowOpen \<Longrightarrow>
    ud_flows s (fl_association (ud_heap s r)) (fl_address (ud_heap s r)) = Some r"
  by (simp add: udp_inv_def)

lemma udp_inv_insert: "udp_inv s \<Longrightarrow> udp_inv (snd (flow_insert a d k now s))"
  unfolding udp_inv_def flow_insert_def put_flow_def new_flow_def Let_def
  by (auto split: option.splits if_splits simp: less_Suc_eq)

lemma udp_inv_register: "udp_inv s \<Longrightarrow> r < ud_made s \<Longrightarrow> udp_inv (snd (registerUDPFlow ord r s))"
  by (auto simp: udp_inv_def registerUDPFlow_def Let_def)

lemma flow_detach_open:
  assumes "udp_inv s" "r < ud_made s" "fl_phase (ud_heap s r) = FlowOpen"
  shows "flow_detach r s = s\<lparr>ud_heap := (ud_heap s)(r := (ud_heap s r)\<lparr>fl_phase := FlowDetached\<rparr>),
     ud_flows := (ud_flows s)(fl_association (ud_heap s r) := (ud_flows s (fl_association (ud_heap s r)))(fl_address (ud_heap s r) := None))\<rparr>"
  using assms(2,3) udp_inv_open [OF assms] by (simp add: flow_detach_def put_flow_def Let_def)

lemma udp_inv_detach:
  assumes i: "udp_inv s"
  shows "udp_inv (flow_detach r s)"
proof (cases "r < ud_made s \<and> fl_phase (ud_heap s r) = FlowOpen")
  case True
  note e = flow_detach_open [OF i conjunct1 [OF True] conjunct2 [OF True]]
  let ?f = "ud_heap s r"
  have u: "ud_flows s a k = Some r' \<Longrightarrow> r' = r \<longleftrightarrow> a = fl_association ?f \<and> k = fl_address ?f" for a k r'
    using udp_inv_mapped [OF i, of a k r'] udp_inv_open [OF i conjunct1 [OF True] conjunct2 [OF True]] by (metis option.inject)
  show ?thesis unfolding udp_inv_def
  proof (intro conjI)
    show "\<forall>a k r'. ud_flows (flow_detach r s) a k = Some r' \<longrightarrow> r' < ud_made (flow_detach r s) \<and> fl_association (ud_heap (flow_detach r s) r') = a
        \<and> fl_address (ud_heap (flow_detach r s) r') = k \<and> fl_phase (ud_heap (flow_detach r s) r') = FlowOpen"
    proof (intro allI impI)
      fix a k r' assume "ud_flows (flow_detach r s) a k = Some r'"
      then have q: "ud_flows s a k = Some r'" "\<not> (a = fl_association ?f \<and> k = fl_address ?f)" by (auto simp: e split: if_splits)
      then have "r' \<noteq> r" using u by simp
      then show "r' < ud_made (flow_detach r s) \<and> fl_association (ud_heap (flow_detach r s) r') = a
          \<and> fl_address (ud_heap (flow_detach r s) r') = k \<and> fl_phase (ud_heap (flow_detach r s) r') = FlowOpen"
        using udp_inv_mapped [OF i q(1)] by (simp add: e)
    qed
    show "\<forall>r' < ud_made (flow_detach r s). fl_phase (ud_heap (flow_detach r s) r') = FlowOpen \<longrightarrow>
        ud_flows (flow_detach r s) (fl_association (ud_heap (flow_detach r s) r')) (fl_address (ud_heap (flow_detach r s) r')) = Some r'"
    proof (intro allI impI)
      fix r' assume p: "r' < ud_made (flow_detach r s)" "fl_phase (ud_heap (flow_detach r s) r') = FlowOpen"
      then have q: "r' \<noteq> r" "r' < ud_made s" "fl_phase (ud_heap s r') = FlowOpen" by (auto simp: e split: if_splits)
      have "ud_flows s (fl_association (ud_heap s r')) (fl_address (ud_heap s r')) = Some r'" using udp_inv_open [OF i] q by simp
      with u [OF this] q show "ud_flows (flow_detach r s) (fl_association (ud_heap (flow_detach r s) r')) (fl_address (ud_heap (flow_detach r s) r')) = Some r'"
        by (auto simp: e)
    qed
  qed (use i True in \<open>auto simp: udp_inv_def e\<close>)
next
  case False
  then show ?thesis using i by (auto simp: flow_detach_def Let_def)
qed

lemma udp_inv_unregister: "udp_inv s \<Longrightarrow> udp_inv (unregisterUDPFlow r s)"
  unfolding udp_inv_def unregisterUDPFlow_def put_flow_def by (auto split: if_splits)

lemma udp_inv_close_remote: "udp_inv s \<Longrightarrow> udp_inv (flow_close_remote r s)"
  unfolding udp_inv_def flow_close_remote_def put_flow_def by (auto split: if_splits)

lemma udp_inv_touch: "udp_inv s \<Longrightarrow> udp_inv (flow_touch now r s)"
  unfolding udp_inv_def flow_touch_def put_flow_def by auto

lemma udp_inv_count: "udp_inv s \<Longrightarrow> udp_inv (flow_count up down r s)"
  unfolding udp_inv_def flow_count_def put_flow_def by auto

lemma udp_inv_route: "udp_inv s \<Longrightarrow> udp_inv (s\<lparr>ud_fakeIPs := f\<rparr>)"
  by (simp add: udp_inv_def)

lemmas udp_inv_steps = udp_inv_insert udp_inv_register udp_inv_detach udp_inv_unregister udp_inv_close_remote udp_inv_touch udp_inv_count udp_inv_route

lemma udp_step_inv: "udp_inv s \<Longrightarrow> udp_inv (udp_step s x)"
  by (cases x) (simp_all add: udp_inv_steps)

interpretation udp: step_system udp_initial udp_step udp_inv
  by unfold_locales (simp_all add: udp_step_inv, simp add: udp_initial_def udp_inv_def)

section \<open>One goroutine at a time\<close>

definition open_flows :: "udpFlows \<Rightarrow> nat set" where
  "open_flows s = {r. r < ud_made s \<and> fl_phase (ud_heap s r) = FlowOpen}"

text \<open>No call to \<^verbatim>\<open>Close\<close> is under way, except perhaps that of the flow \<open>x\<close>.\<close>

definition settled_except :: "nat \<Rightarrow> udpFlows \<Rightarrow> bool" where
  "settled_except x s \<longleftrightarrow> udp_inv s \<and> ud_set s = open_flows s \<and> fl_phase (ud_heap s x) \<noteq> FlowUnregistered
     \<and> (\<forall>r < ud_made s. r \<noteq> x \<longrightarrow> fl_phase (ud_heap s r) = FlowOpen \<or> fl_phase (ud_heap s r) = FlowClosed)"

definition flows_settled :: "udpFlows \<Rightarrow> bool" where
  "flows_settled s \<longleftrightarrow> udp_inv s \<and> ud_set s = open_flows s
     \<and> (\<forall>r < ud_made s. fl_phase (ud_heap s r) = FlowOpen \<or> fl_phase (ud_heap s r) = FlowClosed)"

definition udp_quiet :: "udpFlows \<Rightarrow> bool" where
  "udp_quiet s \<longleftrightarrow> flows_settled s \<and> card (ud_set s) \<le> ud_maxFlows s"

lemmas flow_close_defs = flow_Close_def flow_detach_def unregisterUDPFlow_def flow_close_remote_def put_flow_def

lemma flow_Close_frame [simp]:
  "ud_made (flow_Close r s) = ud_made s" "ud_maxFlows (flow_Close r s) = ud_maxFlows s"
  "ud_timeout (flow_Close r s) = ud_timeout s" "ud_fakeIPs (flow_Close r s) = ud_fakeIPs s"
  "fl_lastActive (ud_heap (flow_Close r s) r') = fl_lastActive (ud_heap s r')"
  "fl_association (ud_heap (flow_Close r s) r') = fl_association (ud_heap s r')"
  "fl_address (ud_heap (flow_Close r s) r') = fl_address (ud_heap s r')"
  by (simp_all add: flow_close_defs Let_def)

lemma flow_Close_other: "r' \<noteq> r \<Longrightarrow> ud_heap (flow_Close r s) r' = ud_heap s r'"
  by (simp add: flow_close_defs Let_def)

lemma flow_Close_self: "r < ud_made s \<Longrightarrow> fl_phase (ud_heap (flow_Close r s) r) = FlowClosed"
  by (cases "fl_phase (ud_heap s r)") (simp_all add: flow_close_defs Let_def)

lemma flow_Close_set: "r < ud_made s \<Longrightarrow> fl_phase (ud_heap s r) \<in> {FlowOpen, FlowDetached} \<Longrightarrow> ud_set (flow_Close r s) = ud_set s - {r}"
  by (auto simp: flow_close_defs Let_def)

lemma flow_Close_closed: "fl_phase (ud_heap s r) = FlowClosed \<Longrightarrow> flow_Close r s = s"
  by (simp add: flow_close_defs Let_def)

lemma udp_inv_Close: "udp_inv s \<Longrightarrow> udp_inv (flow_Close r s)"
  by (simp add: flow_Close_def udp_inv_steps)

lemma open_flows_Close: "r < ud_made s \<Longrightarrow> open_flows (flow_Close r s) = open_flows s - {r}"
  using flow_Close_self [of r s] flow_Close_other [of _ r s] by (auto simp: open_flows_def) (metis flow_phase.distinct(5))+

lemma settled_Close:
  assumes "settled_except r s" "r < ud_made s"
  shows "flows_settled (flow_Close r s)"
proof -
  have "ud_set (flow_Close r s) = ud_set s - {r}"
  proof (cases "fl_phase (ud_heap s r) = FlowClosed")
    case True
    then have "r \<notin> ud_set s" using assms by (simp add: settled_except_def open_flows_def)
    then show ?thesis by (simp add: flow_Close_closed True)
  next
    case False
    then have "fl_phase (ud_heap s r) \<in> {FlowOpen, FlowDetached}" using assms
      by (cases "fl_phase (ud_heap s r)") (auto simp: settled_except_def)
    then show ?thesis using flow_Close_set assms(2) by blast
  qed
  then have u: "ud_set (flow_Close r s) = open_flows (flow_Close r s)"
    using assms by (simp add: open_flows_Close settled_except_def)
  have "fl_phase (ud_heap (flow_Close r s) r') = FlowOpen \<or> fl_phase (ud_heap (flow_Close r s) r') = FlowClosed" if "r' < ud_made s" for r'
    using that assms flow_Close_self [OF assms(2)] flow_Close_other [of r' r s] by (cases "r' = r") (auto simp: settled_except_def)
  then show ?thesis using u udp_inv_Close assms(1) by (simp add: flows_settled_def settled_except_def)
qed

lemma settled_any: "flows_settled s \<Longrightarrow> r < ud_made s \<Longrightarrow> settled_except r s"
  by (auto simp: flows_settled_def settled_except_def)

lemma settled_finite: "flows_settled s \<Longrightarrow> finite (ud_set s)"
  by (rule finite_subset [of _ "{..<ud_made s}"]) (auto simp: flows_settled_def open_flows_def)

lemma quiet_Close: "udp_quiet s \<Longrightarrow> r < ud_made s \<Longrightarrow> udp_quiet (flow_Close r s)"
  using settled_Close [OF settled_any, of s r] settled_finite [of s] card_Diff_subset [of "{r}"]
  by (auto simp: udp_quiet_def flows_settled_def open_flows_Close intro: order_trans [OF card_Diff1_le])

lemma quiet_count: "udp_quiet s \<Longrightarrow> r < ud_made s \<Longrightarrow> udp_quiet (flow_touch now r (flow_count up down r s))"
  using udp_inv_touch [OF udp_inv_count, of s now r up down r]
  by (auto simp: udp_quiet_def flows_settled_def open_flows_def flow_touch_def flow_count_def put_flow_def)

lemma quiet_route: "udp_quiet (s\<lparr>ud_fakeIPs := f\<rparr>) = udp_quiet s"
  by (simp add: udp_quiet_def flows_settled_def open_flows_def udp_inv_def)

section \<open>Closing many flows\<close>

lemma close_all:
  assumes "udp_quiet s" "\<forall>r \<in> set rs. r < ud_made s"
  shows "udp_quiet (foldl (\<lambda>s r. if C (fl_lastActive (ud_heap s r)) (ud_timeout s) then flow_Close r s else s) s rs)
     \<and> open_flows (foldl (\<lambda>s r. if C (fl_lastActive (ud_heap s r)) (ud_timeout s) then flow_Close r s else s) s rs)
         = open_flows s - {r \<in> set rs. C (fl_lastActive (ud_heap s r)) (ud_timeout s)}"
  using assms
proof (induction rs arbitrary: s)
  case (Cons r rs)
  show ?case
  proof (cases "C (fl_lastActive (ud_heap s r)) (ud_timeout s)")
    case True
    have "udp_quiet (flow_Close r s)" using Cons.prems quiet_Close by simp
    then show ?thesis using Cons.IH [of "flow_Close r s"] Cons.prems True by (auto simp: open_flows_Close)
  next
    case False
    then show ?thesis using Cons.IH [of s] Cons.prems by auto
  qed
qed simp

lemma flows_of_set:
  assumes "ranges ord" "udp_inv s"
  shows "set (flows_of ord a s) = {r \<in> open_flows s. fl_association (ud_heap s r) = a}"
proof -
  have "dom (ud_flows s a) \<subseteq> (\<lambda>r. fl_address (ud_heap s r)) ` {..<ud_made s}"
    using udp_inv_mapped [OF assms(2), of a] by (force simp: image_iff)
  then have f: "finite (dom (ud_flows s a))" by (rule finite_subset) simp
  have "set (flows_of ord a s) = ran (ud_flows s a)"
    using rangesD [OF assms(1) f] by (force simp: flows_of_def ran_def image_iff)
  also have "\<dots> = {r \<in> open_flows s. fl_association (ud_heap s r) = a}"
  proof (intro set_eqI iffI)
    fix r assume "r \<in> ran (ud_flows s a)"
    then obtain k where "ud_flows s a k = Some r" by (auto simp: ran_def)
    from udp_inv_mapped [OF assms(2) this] show "r \<in> {r \<in> open_flows s. fl_association (ud_heap s r) = a}"
      by (simp add: open_flows_def)
  next
    fix r assume "r \<in> {r \<in> open_flows s. fl_association (ud_heap s r) = a}"
    then have "ud_flows s a (fl_address (ud_heap s r)) = Some r" using udp_inv_open [OF assms(2), of r] by (auto simp: open_flows_def)
    then show "r \<in> ran (ud_flows s a)" by (rule ranI)
  qed
  finally show ?thesis .
qed

lemma association_Close_exact:
  assumes "ranges ord" "udp_quiet s"
  shows "udp_quiet (association_Close ord a s)
     \<and> open_flows (association_Close ord a s) = {r \<in> open_flows s. fl_association (ud_heap s r) \<noteq> a}"
proof -
  have i: "udp_inv s" using assms(2) by (simp add: udp_quiet_def flows_settled_def)
  have "\<forall>r \<in> set (flows_of ord a s). r < ud_made s" by (auto simp: flows_of_set [OF assms(1) i] open_flows_def)
  note c = close_all [OF assms(2) this, of "\<lambda>_ _. True"]
  have "open_flows s - {r \<in> set (flows_of ord a s). True} = {r \<in> open_flows s. fl_association (ud_heap s r) \<noteq> a}"
    unfolding flows_of_set [OF assms(1) i] by blast
  with c show ?thesis by (simp add: association_Close_def)
qed

lemma cleanup_tick_exact:
  assumes "ranges ord" "udp_quiet s"
  shows "udp_quiet (cleanup_tick ord now a s)
     \<and> open_flows (cleanup_tick ord now a s) =
         {r \<in> open_flows s. fl_association (ud_heap s r) \<noteq> a \<or> now - fl_lastActive (ud_heap s r) < ud_timeout s}"
proof -
  have i: "udp_inv s" using assms(2) by (simp add: udp_quiet_def flows_settled_def)
  have "\<forall>r \<in> set (flows_of ord a s). r < ud_made s" by (auto simp: flows_of_set [OF assms(1) i] open_flows_def)
  note c = close_all [OF assms(2) this, of "\<lambda>l t. now - l \<ge> t"]
  have "open_flows s - {r \<in> set (flows_of ord a s). now - fl_lastActive (ud_heap s r) \<ge> ud_timeout s}
      = {r \<in> open_flows s. fl_association (ud_heap s r) \<noteq> a \<or> now - fl_lastActive (ud_heap s r) < ud_timeout s}"
    unfolding flows_of_set [OF assms(1) i] not_le [symmetric] by blast
  with c show ?thesis by (simp add: cleanup_tick_def)
qed

section \<open>The limit\<close>

lemma oldest_flow_Some:
  "\<exists>v. oldest_flow active r (Some y) xs = Some v \<and> (v = y \<or> v \<in> set xs \<and> v \<noteq> r) \<and> active v \<le> active y
     \<and> (\<forall>c \<in> set xs. c \<noteq> r \<longrightarrow> active v \<le> active c)"
proof (induction xs arbitrary: y)
  case (Cons c xs)
  show ?case
  proof (cases "c \<noteq> r \<and> active c < active y")
    case True
    then show ?thesis using Cons.IH [of c] by fastforce
  next
    case False
    then show ?thesis using Cons.IH [of y] by fastforce
  qed
qed simp

lemma oldest_flow_None:
  "\<exists>c \<in> set xs. c \<noteq> r \<Longrightarrow>
   \<exists>v. oldest_flow active r None xs = Some v \<and> v \<in> set xs \<and> v \<noteq> r \<and> (\<forall>c \<in> set xs. c \<noteq> r \<longrightarrow> active v \<le> active c)"
proof (induction xs)
  case (Cons c xs)
  show ?case
  proof (cases "c = r")
    case True
    then show ?thesis using Cons by auto
  next
    case False
    then show ?thesis using oldest_flow_Some [of active r c xs] by auto
  qed
qed simp

text \<open>A flow that is new and registered, before a victim is closed.\<close>

lemma insert_settled:
  fixes d :: "ip \<times> nat" and now :: int
  assumes "flows_settled s" "ud_flows s a key = None"
  defines "s2 \<equiv> (snd (flow_insert a d key now s))\<lparr>ud_set := insert (ud_made s) (ud_set s)\<rparr>"
  shows "flows_settled s2 \<and> open_flows s2 = insert (ud_made s) (open_flows s) \<and> ud_made s \<notin> open_flows s"
proof -
  have i: "udp_inv (snd (flow_insert a d key now s))" using assms(1) udp_inv_insert by (simp add: flows_settled_def)
  then have "udp_inv s2"
    using udp_inv_register [OF i, of "ud_made s"] assms(2)
    by (simp add: s2_def registerUDPFlow_def Let_def flow_insert_def put_flow_def)
  then show ?thesis using assms(1,2)
    by (auto simp: s2_def flows_settled_def open_flows_def flow_insert_def put_flow_def new_flow_def Let_def less_Suc_eq)
qed

lemma flow_add_quiet:
  assumes v: "visits_all ord" and q: "udp_quiet s" "1 \<le> ud_maxFlows s" and n: "ud_flows s a key = None"
    and e: "flow_add ord a d key now s = (r, s')"
  shows "udp_quiet s' \<and> r = ud_made s \<and> r \<in> open_flows s' \<and> ud_heap s' r = new_flow a d key now FlowOpen \<and>
    (open_flows s' = insert r (open_flows s) \<or>
     (\<exists>old \<in> open_flows s. open_flows s' = insert r (open_flows s - {old}) \<and> card (open_flows s) = ud_maxFlows s
        \<and> (\<forall>c \<in> open_flows s. fl_lastActive (ud_heap s old) \<le> fl_lastActive (ud_heap s c))))"
proof -
  define s2 where "s2 = (snd (flow_insert a d key now s))\<lparr>ud_set := insert (ud_made s) (ud_set s)\<rparr>"
  have st: "flows_settled s" and c: "card (open_flows s) \<le> ud_maxFlows s" and u: "ud_set s = open_flows s"
    using q by (auto simp: udp_quiet_def flows_settled_def)
  have s2: "flows_settled s2" "open_flows s2 = insert (ud_made s) (open_flows s)" "ud_made s \<notin> open_flows s"
    using insert_settled [OF st n, of d now] by (simp_all add: s2_def)
  have fin: "finite (open_flows s)" using settled_finite [OF st] u by simp
  have u2: "ud_set s2 = open_flows s2" using s2(1) by (simp add: flows_settled_def)
  have h: "ud_heap s2 (ud_made s) = new_flow a d key now FlowOpen" "ud_made s2 = Suc (ud_made s)" "ud_maxFlows s2 = ud_maxFlows s"
    "\<And>x. x \<noteq> ud_made s \<Longrightarrow> ud_heap s2 x = ud_heap s x"
    using n by (simp_all add: s2_def flow_insert_def put_flow_def Let_def)
  have cc: "card (open_flows s2) = Suc (card (open_flows s))" using s2(2,3) fin by simp
  have reg: "registerUDPFlow ord (ud_made s) (snd (flow_insert a d key now s)) = (flow_victim ord (ud_made s) s2, s2)"
    using n by (simp add: registerUDPFlow_def s2_def flow_insert_def put_flow_def Let_def)
  have fi: "fst (flow_insert a d key now s) = ud_made s" using n by (simp add: flow_insert_def Let_def)
  have e': "r = ud_made s" "s' = (case flow_victim ord (ud_made s) s2 of None \<Rightarrow> s2 | Some w \<Rightarrow> flow_Close w s2)"
    using e fi reg by (auto simp: flow_add_def Let_def split: prod.splits option.splits)
  show ?thesis
  proof (cases "card (open_flows s) < ud_maxFlows s")
    case True
    then have "flow_victim ord (ud_made s) s2 = None" using cc u2 h(3) by (simp add: flow_victim_def)
    then show ?thesis using e' s2 True cc u2 h by (auto simp: udp_quiet_def)
  next
    case False
    then have full: "card (open_flows s) = ud_maxFlows s" using c by simp
    then have "open_flows s \<noteq> {}" using q(2) by auto
    then obtain x where "x \<in> open_flows s" by blast
    moreover have o: "set (ord (ud_set s2)) = insert (ud_made s) (open_flows s)"
      using v fin s2(2) u2 by (simp add: visits_allD)
    ultimately have "\<exists>x \<in> set (ord (ud_set s2)). x \<noteq> ud_made s" using s2(3) by (metis insertCI)
    from oldest_flow_None [OF this, of "\<lambda>c. fl_lastActive (ud_heap s2 c)"] obtain w where
      w: "oldest_flow (\<lambda>c. fl_lastActive (ud_heap s2 c)) (ud_made s) None (ord (ud_set s2)) = Some w" "w \<in> open_flows s"
        "w \<noteq> ud_made s" "\<forall>c \<in> open_flows s. fl_lastActive (ud_heap s2 w) \<le> fl_lastActive (ud_heap s2 c)"
      using o s2(3) by (metis insertCI insertE)
    then have vic: "flow_victim ord (ud_made s) s2 = Some w" using full cc u2 h(3) by (simp add: flow_victim_def)
    have wm: "w < ud_made s2" using w(2) h(2) by (simp add: open_flows_def)
    have of: "open_flows (flow_Close w s2) = insert (ud_made s) (open_flows s - {w})"
      using open_flows_Close [OF wm] s2(2) w(3) by auto
    have "flows_settled (flow_Close w s2)" using settled_Close [OF settled_any [OF s2(1) wm] wm] .
    moreover have "card (open_flows (flow_Close w s2)) = card (open_flows s)" unfolding of
      using card_Suc_Diff1 [OF fin w(2)] fin s2(3) by (metis card_insert_disjoint finite_Diff Diff_iff)
    ultimately have "udp_quiet (flow_Close w s2)" using full h(3) by (simp add: udp_quiet_def flows_settled_def)
    moreover have "ud_heap (flow_Close w s2) (ud_made s) = new_flow a d key now FlowOpen" using flow_Close_other w(3) h(1) by simp
    moreover have "\<forall>c \<in> open_flows s. fl_lastActive (ud_heap s w) \<le> fl_lastActive (ud_heap s c)"
      using w(2,4) h(4) s2(3) by (metis)
    ultimately show ?thesis using e' vic of full w(2) by auto
  qed
qed

section \<open>The rounds of the loops\<close>

definition flow_key :: "udp_packet \<Rightarrow> udpFlows \<Rightarrow> string" where
  "flow_key p s = fst (fst (routeDestination (up_now p) (ud_fakeIPs s) (fst (up_destination p)) (snd (up_destination p))))"

lemma association_flow_quiet:
  assumes v: "visits_all ord" and q: "udp_quiet s" "1 \<le> ud_maxFlows s" and e: "association_flow ord a p s = (res, s')"
  shows "udp_quiet s' \<and> ud_maxFlows s' = ud_maxFlows s \<and>
    (case res of
       Inl err \<Rightarrow> up_dialErr p = Some err \<and> open_flows s' = open_flows s
     | Inr r \<Rightarrow> r \<in> open_flows s' \<and> fl_association (ud_heap s' r) = a \<and> fl_address (ud_heap s' r) = flow_key p s
         \<and> (r \<in> open_flows s \<longrightarrow> open_flows s' = open_flows s)
         \<and> (r \<notin> open_flows s \<longrightarrow> fl_destination (ud_heap s' r) = up_destination p \<and> card (open_flows s - open_flows s') \<le> 1
             \<and> (\<forall>old \<in> open_flows s - open_flows s'. \<forall>c \<in> open_flows s. fl_lastActive (ud_heap s old) \<le> fl_lastActive (ud_heap s c))))"
proof -
  define k where "k = flow_key p s"
  define s1 where "s1 = s\<lparr>ud_fakeIPs := snd (routeDestination (up_now p) (ud_fakeIPs s) (fst (up_destination p)) (snd (up_destination p)))\<rparr>"
  have q1: "udp_quiet s1" using q(1) quiet_route by (simp add: s1_def)
  have i1: "udp_inv s1" using q1 by (simp add: udp_quiet_def flows_settled_def)
  have s1: "open_flows s1 = open_flows s" "ud_maxFlows s1 = ud_maxFlows s" "ud_heap s1 = ud_heap s" "ud_made s1 = ud_made s"
    by (simp_all add: s1_def open_flows_def)
  have e1: "association_flow ord a p s =
      (case ud_flows s1 a k of Some r \<Rightarrow> (Inr r, s1)
       | None \<Rightarrow> (case up_dialErr p of Some e \<Rightarrow> (Inl e, s1)
          | None \<Rightarrow> (case flow_add ord a (up_destination p) k (up_now p) s1 of (r, s2) \<Rightarrow> (Inr r, s2))))"
    unfolding association_flow_def Let_def k_def flow_key_def s1_def
    by (cases "routeDestination (up_now p) (ud_fakeIPs s) (fst (up_destination p)) (snd (up_destination p))")
      (auto split: option.splits)
  show ?thesis
  proof (cases "ud_flows s1 a k")
    case (Some r)
    then have "res = Inr r" "s' = s1" using e e1 by simp_all
    moreover have "r \<in> open_flows s1 \<and> fl_association (ud_heap s1 r) = a \<and> fl_address (ud_heap s1 r) = k"
      using udp_inv_mapped [OF i1 Some] by (simp add: open_flows_def)
    ultimately show ?thesis using q1 s1 by (simp add: k_def)
  next
    case None
    show ?thesis
    proof (cases "up_dialErr p")
      case (Some err)
      then show ?thesis using e e1 None q1 s1 by auto
    next
      case dial: None
      obtain r s2 where a: "flow_add ord a (up_destination p) k (up_now p) s1 = (r, s2)" by fastforce
      have r: "res = Inr r" "s' = s2" using e e1 None dial a by simp_all
      have mx: "ud_maxFlows s2 = ud_maxFlows s1" using a
        by (auto simp: flow_add_def flow_insert_def registerUDPFlow_def put_flow_def Let_def split: option.splits prod.splits if_splits)
      from flow_add_quiet [OF v q1 _ None a] q(2) s1(2) have f: "udp_quiet s2" "r = ud_made s1" "r \<in> open_flows s2"
        "ud_heap s2 r = new_flow a (up_destination p) k (up_now p) FlowOpen"
        and o: "open_flows s2 = insert r (open_flows s1) \<or>
          (\<exists>old \<in> open_flows s1. open_flows s2 = insert r (open_flows s1 - {old}) \<and> card (open_flows s1) = ud_maxFlows s1
            \<and> (\<forall>c \<in> open_flows s1. fl_lastActive (ud_heap s1 old) \<le> fl_lastActive (ud_heap s1 c)))" by auto
      have n: "r \<notin> open_flows s" using f(2) s1 by (simp add: open_flows_def)
      have "card (open_flows s - open_flows s2) \<le> 1
          \<and> (\<forall>old \<in> open_flows s - open_flows s2. \<forall>c \<in> open_flows s. fl_lastActive (ud_heap s old) \<le> fl_lastActive (ud_heap s c))"
        using o
      proof
        assume "open_flows s2 = insert r (open_flows s1)"
        then have "open_flows s - open_flows s2 = {}" using s1(1) by auto
        then show ?thesis by (metis card.empty empty_iff zero_le_one)
      next
        assume "\<exists>old \<in> open_flows s1. open_flows s2 = insert r (open_flows s1 - {old}) \<and> card (open_flows s1) = ud_maxFlows s1
            \<and> (\<forall>c \<in> open_flows s1. fl_lastActive (ud_heap s1 old) \<le> fl_lastActive (ud_heap s1 c))"
        then obtain old where "open_flows s2 = insert r (open_flows s - {old})" "old \<in> open_flows s"
            and l: "\<forall>c \<in> open_flows s. fl_lastActive (ud_heap s old) \<le> fl_lastActive (ud_heap s c)" using s1 by auto
        then have d: "open_flows s - open_flows s2 = {old}" using n by auto
        show ?thesis unfolding d using l by simp
      qed
      then show ?thesis using f n r mx s1(2) by (simp add: new_flow_def k_def)
    qed
  qed
qed

lemma packet_round_quiet:
  assumes v: "visits_all ord" and q: "udp_quiet s" "1 \<le> ud_maxFlows s"
  shows "udp_quiet (snd (packet_round closed hijack ord a p s))"
proof -
  obtain res s1 where f: "association_flow ord a p s = (res, s1)" by fastforce
  note r = association_flow_quiet [OF v q f]
  show ?thesis
  proof (cases res)
    case (Inr x)
    define s2 where "s2 = flow_touch (up_now p) x (flow_count (fst (up_write p)) 0 x s1)"
    have m: "x < ud_made s1" using r Inr by (simp add: open_flows_def)
    then have "udp_quiet s2" using quiet_count r by (simp add: s2_def)
    moreover have "ud_made s2 = ud_made s1" by (simp add: s2_def flow_touch_def flow_count_def put_flow_def)
    ultimately have "udp_quiet s2" "udp_quiet (flow_Close x s2)" using m quiet_Close by simp_all
    moreover have "put_flow x ((ud_heap s1 x)\<lparr>fl_uploaded := fl_uploaded (ud_heap s1 x) + fst (up_write p)\<rparr>) s1
        = flow_count (fst (up_write p)) 0 x s1" by (simp add: flow_count_def)
    ultimately show ?thesis using q f Inr by (simp add: packet_round_def Let_def s2_def split: option.splits)
  qed (use r q f in \<open>simp add: packet_round_def split: option.splits\<close>)
qed

lemma response_round_quiet:
  assumes q: "udp_quiet s" "r < ud_made s"
  shows "udp_quiet (snd (response_round r n we re now s))"
proof -
  define s1 where "s1 = (if 0 < n then flow_touch now r (flow_count 0 n r s) else s)"
  have "udp_quiet s1" using q quiet_count by (simp add: s1_def)
  moreover have "r < ud_made s1" using q by (simp add: s1_def flow_touch_def flow_count_def put_flow_def)
  ultimately have "udp_quiet s1" "udp_quiet (flow_Close r s1)" using quiet_Close by simp_all
  moreover have "put_flow r ((ud_heap s r)\<lparr>fl_downloaded := fl_downloaded (ud_heap s r) + n\<rparr>) s = flow_count 0 n r s"
    by (simp add: flow_count_def)
  ultimately show ?thesis by (cases "0 < n") (simp_all add: response_round_def Let_def s1_def)
qed

lemma response_round_open:
  assumes "r < ud_made s"
  shows "open_flows (snd (response_round r n we re now s)) = (if 0 < n \<and> we \<noteq> None \<or> re \<noteq> None then open_flows s - {r} else open_flows s)"
proof -
  define s1 where "s1 = (if 0 < n then flow_touch now r (put_flow r ((ud_heap s r)\<lparr>fl_downloaded := fl_downloaded (ud_heap s r) + n\<rparr>) s) else s)"
  have s1: "r < ud_made s1" "open_flows s1 = open_flows s" using assms by (auto simp: s1_def flow_touch_def put_flow_def open_flows_def)
  have "snd (response_round r n we re now s) = (if 0 < n \<and> we \<noteq> None \<or> re \<noteq> None then flow_Close r s1 else s1)"
    by (simp add: response_round_def s1_def Let_def del: not_None_eq)
  then show ?thesis using open_flows_Close [OF s1(1)] s1(2) by (simp del: not_None_eq)
qed

section \<open>The flow table\<close>

text \<open>C22. The UDP flows of the TUN device. Whatever the goroutines do and however their steps interleave, the association's table names
  exactly the open flows, each under its own address, and no flow's connection is closed twice. The rest is about handlers that run one after the other, from a state in which none is
  under way; between concurrent ones the limit can be exceeded (\<open>udp_limit_overshoot\<close>). Then a
  packet and an answer keep at most the configured number of flows; a packet goes out on an open flow of its own association for the address its
  destination is routed to; opening it keeps every other flow, or exactly one is closed for it, and that one was idle longest; an answer whose reading or delivery fails closes exactly its own flow, and another none;
  closing an association closes exactly its flows, and a tick of the clean-up exactly those of the association that were idle for the time-out.\<close>

theorem udp_flow_table:
  assumes "visits_all vord" "ranges ord" "udp_quiet s" "1 \<le> ud_maxFlows s" "udp_initial s0"
    and "association_flow vord a p s = (Inr r, s')" "x < ud_made s"
  shows "udp_inv (foldl udp_step s0 xs)
   \<and> udp_quiet (snd (packet_round closed hijack vord a p s))
   \<and> udp_quiet (snd (response_round x n we re now s))
   \<and> open_flows (snd (response_round x n we re now s)) = (if 0 < n \<and> we \<noteq> None \<or> re \<noteq> None then open_flows s - {x} else open_flows s)
   \<and> r \<in> open_flows s' \<and> fl_association (ud_heap s' r) = a \<and> fl_address (ud_heap s' r) = flow_key p s
   \<and> card (open_flows s - open_flows s') \<le> 1
   \<and> (\<forall>old \<in> open_flows s - open_flows s'. \<forall>c \<in> open_flows s. fl_lastActive (ud_heap s old) \<le> fl_lastActive (ud_heap s c))
   \<and> udp_quiet (association_Close ord a s)
   \<and> open_flows (association_Close ord a s) = {f \<in> open_flows s. fl_association (ud_heap s f) \<noteq> a}
   \<and> udp_quiet (cleanup_tick ord now a s)
   \<and> open_flows (cleanup_tick ord now a s) =
       {f \<in> open_flows s. fl_association (ud_heap s f) \<noteq> a \<or> now - fl_lastActive (ud_heap s f) < ud_timeout s}"
proof -
  note f = association_flow_quiet [OF assms(1,3,4,6)]
  have "card (open_flows s - open_flows s') \<le> 1
      \<and> (\<forall>old \<in> open_flows s - open_flows s'. \<forall>c \<in> open_flows s. fl_lastActive (ud_heap s old) \<le> fl_lastActive (ud_heap s c))"
    using f by (cases "r \<in> open_flows s") simp_all
  then show ?thesis
    using f udp.run_inv [OF assms(5), of xs] packet_round_quiet [OF assms(1,3,4), of closed hijack a p]
      response_round_quiet [OF assms(3,7), of n we re now] response_round_open [OF assms(7), of n we re now] association_Close_exact [OF assms(2,3), of a] cleanup_tick_exact [OF assms(2,3), of now a]
    by simp
qed

definition demo_udp :: udpFlows where
  "demo_udp = \<lparr> ud_heap = (\<lambda>_. new_flow 0 ([], 0) [] 0 FlowClosed), ud_made = 0, ud_flows = (\<lambda>_. Map.empty), ud_set = {}, ud_maxFlows = 1,
     ud_timeout = 60000000000, ud_fakeIPs = None \<rparr>"

definition demo_udp_packet :: "nat \<Rightarrow> int \<Rightarrow> udp_packet" where
  "demo_udp_packet port now = \<lparr> up_readErr = None, up_destination = ([10, 0, 0, 1], port), up_dnsErr = None, up_dialErr = None, up_write = (5, None),
     up_now = now \<rparr>"

definition demo_udp_one :: udpFlows where
  "demo_udp_one = snd (packet_round (\<lambda>_. False) True sorted_list_of_set 0 (demo_udp_packet 7 1) demo_udp)"

lemma demo_udp_quiet: "udp_quiet demo_udp"
  by (simp add: udp_quiet_def flows_settled_def udp_inv_def open_flows_def demo_udp_def)

theorem udp_flow_table_witness:
  "\<exists>s'. association_flow sorted_list_of_set 0 (demo_udp_packet 9 2) demo_udp_one = (Inr 1, s')
     \<and> open_flows demo_udp_one = {0} \<and> open_flows s' = {1} \<and> open_flows (association_Close by_key 0 demo_udp_one) = {}"
proof -
  have k: "routeDestination now None a n = ((JoinHostPort (IP_String a) (show_nat n), JoinHostPort (IP_String a) (show_nat n)), None)" for now a n
    by (simp add: routeDestination_def Let_def)
  have ne: "JoinHostPort (IP_String [10, 0, 0, 1]) (show_nat 7) \<noteq> JoinHostPort (IP_String [10, 0, 0, 1]) (show_nat 9)" by code_simp
  define K where "K = JoinHostPort (IP_String [10, 0, 0, 1])"
  have q: "udp_quiet demo_udp_one" unfolding demo_udp_one_def
    by (rule packet_round_quiet [OF visits_sorted demo_udp_quiet]) (simp add: demo_udp_def)
  have one: "demo_udp_one = demo_udp\<lparr>ud_heap := (ud_heap demo_udp)(0 := (new_flow 0 ([10, 0, 0, 1], 7) (K (show_nat 7)) 1 FlowOpen)\<lparr>fl_uploaded := 5\<rparr>),
      ud_made := 1, ud_flows := (\<lambda>_. Map.empty)(0 := [K (show_nat 7) \<mapsto> 0]), ud_set := {0}\<rparr>"
    unfolding demo_udp_one_def packet_round_def association_flow_def
    by (simp add: demo_udp_packet_def demo_udp_def k flow_add_def flow_insert_def registerUDPFlow_def flow_victim_def put_flow_def
        flow_touch_def new_flow_def K_def Let_def)
  have m: "1 \<le> ud_maxFlows demo_udp_one" "0 < ud_made demo_udp_one" "ud_maxFlows demo_udp_one = 1" "fl_association (ud_heap demo_udp_one 0) = 0"
    unfolding one by (simp_all add: demo_udp_def new_flow_def)
  obtain s' where s': "association_flow sorted_list_of_set 0 (demo_udp_packet 9 2) demo_udp_one = (Inr 1, s')"
    using ne unfolding association_flow_def one K_def
    by (auto simp: demo_udp_packet_def demo_udp_def k flow_add_def flow_insert_def Let_def split: prod.splits)
  note t = udp_flow_table [OF visits_sorted ranges_by_key q m(1) _ s' m(2), of demo_udp]
  have o: "open_flows demo_udp_one = {0}" unfolding one by (auto simp: open_flows_def demo_udp_def new_flow_def)
  have i: "udp_initial demo_udp" by (simp add: udp_initial_def demo_udp_def)
  have "open_flows (association_Close by_key 0 demo_udp_one) = {f \<in> open_flows demo_udp_one. fl_association (ud_heap demo_udp_one f) \<noteq> 0}"
    using t [OF i, of "[]" "\<lambda>_. False" True 0 None None 0] by (elim conjE)
  also have "\<dots> = {}" unfolding o using m(4) by blast
  finally have c: "open_flows (association_Close by_key 0 demo_udp_one) = {}" .
  have mx: "ud_maxFlows s' = 1" "udp_quiet s'" "1 \<in> open_flows s'"
    using association_flow_quiet [OF visits_sorted q m(1) s'] m(3) by simp_all
  then have "card (open_flows s') \<le> 1" "finite (open_flows s')"
    using settled_finite by (auto simp: udp_quiet_def flows_settled_def)
  then have "open_flows s' = {1}" using mx(3) by (metis card_le_Suc0_iff_eq One_nat_def singleton_iff subsetI subset_antisym empty_subsetI insert_subset)
  then show ?thesis using s' o c by blast
qed

text \<open>The limit does not hold between concurrent handlers: two flows that are registered before either victim is closed choose the same victim.\<close>

lemma udp_limit_overshoot:
  fixes d1 d2 d3 :: "ip \<times> nat"
  defines "one \<equiv> demo_udp\<lparr>ud_heap := (ud_heap demo_udp)(0 := new_flow 0 d1 ''a'' 1 FlowOpen), ud_made := 1,
      ud_flows := (\<lambda>_. Map.empty)(0 := [''a'' \<mapsto> 0]), ud_set := {0}\<rparr>"
  shows "snd (flow_add sorted_list_of_set 0 d1 ''a'' 1 demo_udp) = one
   \<and> (\<exists>s2 s3. registerUDPFlow sorted_list_of_set 1 (snd (flow_insert 1 d2 ''b'' 2 one)) = (Some 0, s2)
     \<and> registerUDPFlow sorted_list_of_set 2 (snd (flow_insert 2 d3 ''c'' 3 s2)) = (Some 0, s3)
     \<and> ud_maxFlows (flow_Close 0 (flow_Close 0 s3)) = 1 \<and> ud_set (flow_Close 0 (flow_Close 0 s3)) = {1, 2})"
proof -
  have 1: "snd (flow_add sorted_list_of_set 0 d1 ''a'' 1 demo_udp) = one"
    by (simp add: one_def demo_udp_def flow_add_def flow_insert_def registerUDPFlow_def flow_victim_def put_flow_def Let_def)
  obtain s2 where s2: "registerUDPFlow sorted_list_of_set 1 (snd (flow_insert 1 d2 ''b'' 2 one)) = (Some 0, s2)"
      "ud_made s2 = 2" "ud_maxFlows s2 = 1" "ud_set s2 = {0, 1}" "ud_flows s2 2 ''c'' = None"
      "ud_heap s2 0 = new_flow 0 d1 ''a'' 1 FlowOpen" "ud_heap s2 1 = new_flow 1 d2 ''b'' 2 FlowOpen"
    by (simp add: one_def demo_udp_def flow_insert_def registerUDPFlow_def flow_victim_def put_flow_def new_flow_def Let_def insert_commute)
  obtain s3 where s3: "registerUDPFlow sorted_list_of_set 2 (snd (flow_insert 2 d3 ''c'' 3 s2)) = (Some 0, s3)"
      "ud_maxFlows s3 = 1" "ud_set s3 = {0, 1, 2}" "fl_phase (ud_heap s3 0) = FlowOpen" "0 < ud_made s3"
    using s2(2-7) by (simp add: flow_insert_def registerUDPFlow_def flow_victim_def put_flow_def new_flow_def Let_def insert_commute)
  have "ud_set (flow_Close 0 (flow_Close 0 s3)) = {1, 2}"
    using flow_Close_set [of 0 s3] flow_Close_self [of 0 s3] s3(3-5) by (simp add: flow_Close_closed)
  then show ?thesis using 1 s2(1) s3(1,2) by auto
qed

end
