(* ===== verification/SystemDns.thy ===== *)
theory SystemDns
  imports CoreError
begin

text \<open>
  The system's DNS settings on macOS, \<^verbatim>\<open>src/internal/systemdns/controller_darwin.go\<close>: the servers of every network service of an
  interface are replaced by the TUN device's, and put back afterwards; a snapshot in a file lets the next process put them back when this
  one has died.

  \<open>sysdns\<close> is what outlives the process: the servers of each service, the snapshot file and the lock. Every call to the
  operating system is counted, and \<open>se_fail\<close> says which of them fail and how; a failing command may have taken effect all the same
  (\<open>se_late\<close>). \<open>sd_past\<close> is a history variable: what the servers and the file were after each call, which is where the process may die.
  What \<^verbatim>\<open>networksetup\<close> prints and the JSON coding are parameters.
\<close>

section \<open>What the commands print\<close>

text \<open>\<open>regexp_space\<close> is \<^verbatim>\<open>\s\<close>. The line is trimmed, so something follows the spaces after the number.\<close>

definition regexp_space :: "char \<Rightarrow> bool" where
  "regexp_space c \<longleftrightarrow> c \<in> {CHR 0x09, CHR 0x0A, CHR 0x0C, CHR 0x0D, CHR '' ''}"

definition servicePattern :: "string \<Rightarrow> string option" where
  "servicePattern line =
     (case line of
        [] \<Rightarrow> None
      | c # rest \<Rightarrow>
          if c \<noteq> CHR ''('' then None
          else case (takeWhile is_digit rest, dropWhile is_digit rest) of
              (_ # _, close # space # name) \<Rightarrow>
                if close = CHR '')'' \<and> regexp_space space \<and> dropWhile regexp_space name \<noteq> [] then Some (dropWhile regexp_space name) else None
            | _ \<Rightarrow> None)"

text \<open>The first \<^verbatim>\<open>Device:\<close> that something follows; spaces in front of the name belong to it only when there is nothing else.\<close>

fun devicePattern :: "string \<Rightarrow> string option" where
  "devicePattern [] = None"
| "devicePattern (c # rest) =
     (let name = takeWhile (\<lambda>d. d \<noteq> CHR '','' \<and> d \<noteq> CHR '')'') (drop 6 rest) in
      if HasPrefix (c # rest) ''Device:'' \<and> name \<noteq> []
      then Some (if dropWhile regexp_space name = [] then [last name] else dropWhile regexp_space name)
      else devicePattern rest)"

fun services_loop :: "string \<Rightarrow> string \<Rightarrow> string list \<Rightarrow> string list" where
  "services_loop interfaceName service [] = []"
| "services_loop interfaceName service (rawLine # lines) =
     (let line = TrimSpace rawLine in
      case servicePattern line of
        Some m \<Rightarrow> services_loop interfaceName (TrimSpace m) lines
      | None \<Rightarrow>
          if service = [] then services_loop interfaceName service lines
          else case devicePattern line of
              None \<Rightarrow> services_loop interfaceName service lines
            | Some m \<Rightarrow> (if TrimSpace m = interfaceName then [service] else []) @ services_loop interfaceName [] lines)"

definition networkServicesForInterface :: "string \<Rightarrow> string \<Rightarrow> string list" where
  "networkServicesForInterface output interfaceName = services_loop interfaceName [] (Split (CHR 0x0A) output)"

definition parseDNSServers :: "string \<Rightarrow> string list" where
  "parseDNSServers output =
     (if Contains output ''There aren't any DNS Servers set on'' then []
      else filter (\<lambda>server. server \<noteq> []) (map TrimSpace (Split (CHR 0x0A) output)))"

section \<open>State\<close>

type_synonym dnsSnapshot = "string \<times> string list"

record sysdns =
  sd_servers :: "string \<Rightarrow> string list"
  sd_file :: "string option"
  sd_lock :: "nat option"
  sd_calls :: nat
  sd_past :: "((string \<Rightarrow> string list) \<times> string option) list"

record darwinController =
  dc_id :: nat
  dc_interfaceName :: string
  dc_snapshots :: "dnsSnapshot list"
  dc_locked :: bool

record sysenv =
  se_fail :: "nat \<Rightarrow> gerror option"
  se_late :: "nat \<Rightarrow> bool"
  se_listing :: "nat \<Rightarrow> string"
  se_shown :: "string \<Rightarrow> string list \<Rightarrow> string"
  se_encode :: "dnsSnapshot list \<Rightarrow> string result"
  se_decode :: "string \<Rightarrow> dnsSnapshot list result"

definition newPlatformController :: "nat \<Rightarrow> string \<Rightarrow> darwinController" where
  "newPlatformController self interfaceName = \<lparr> dc_id = self, dc_interfaceName = interfaceName, dc_snapshots = [], dc_locked = False \<rparr>"

text \<open>The end of a call.\<close>

definition called :: "sysdns \<Rightarrow> sysdns" where
  "called s = s\<lparr>sd_calls := Suc (sd_calls s), sd_past := (sd_servers s, sd_file s) # sd_past s\<rparr>"

text \<open>Calls that change nothing here, with what their errors are wrapped in.\<close>

fun attempts :: "sysenv \<Rightarrow> string list \<Rightarrow> sysdns \<Rightarrow> gerror option \<times> sysdns" where
  "attempts env [] s = (None, s)"
| "attempts env (what # rest) s =
     (case se_fail env (sd_calls s) of Some e \<Rightarrow> (Some (errorf what e), called s) | None \<Rightarrow> attempts env rest (called s))"

text \<open>\<^verbatim>\<open>networksetup -setdnsservers\<close>: the argument \<^verbatim>\<open>Empty\<close> removes all servers.\<close>

definition setdnsservers :: "sysenv \<Rightarrow> string \<Rightarrow> string list \<Rightarrow> sysdns \<Rightarrow> gerror option \<times> sysdns" where
  "setdnsservers env service args s =
     (let e = se_fail env (sd_calls s) in
      (e, called (if e = None \<or> se_late env (sd_calls s)
                  then s\<lparr>sd_servers := (sd_servers s)(service := if args = [''Empty''] then [] else args)\<rparr> else s)))"

section \<open>Snapshots\<close>

definition restore_one :: "sysenv \<Rightarrow> dnsSnapshot \<Rightarrow> sysdns \<Rightarrow> gerror option \<times> sysdns" where
  "restore_one env snapshot s =
     setdnsservers env (fst snapshot) (if snd snapshot = [] then [''Empty''] else snd snapshot) s"

fun restore_loop :: "sysenv \<Rightarrow> dnsSnapshot list \<Rightarrow> sysdns \<Rightarrow> gerror option list \<times> sysdns" where
  "restore_loop env [] s = ([], s)"
| "restore_loop env (snapshot # rest) s =
     (case restore_one env snapshot s of (e, s1) \<Rightarrow> case restore_loop env rest s1 of (es, s2) \<Rightarrow> (e # es, s2))"

definition restoreSnapshotsContext :: "sysenv \<Rightarrow> dnsSnapshot list \<Rightarrow> sysdns \<Rightarrow> gerror option \<times> sysdns" where
  "restoreSnapshotsContext env snapshots s = (case restore_loop env (rev snapshots) s of (es, s1) \<Rightarrow> (errors_Join es, s1))"

text \<open>\<^verbatim>\<open>os.Remove\<close> of the snapshot file, where a missing file counts as removed.\<close>

definition remove_file :: "sysenv \<Rightarrow> sysdns \<Rightarrow> gerror option \<times> sysdns" where
  "remove_file env s =
     (if sd_file s = None then (None, called s)
      else case se_fail env (sd_calls s) of Some e \<Rightarrow> (Some e, called s) | None \<Rightarrow> (None, called (s\<lparr>sd_file := None\<rparr>)))"

definition recoverStaleSnapshot :: "sysenv \<Rightarrow> sysdns \<Rightarrow> gerror option \<times> sysdns" where
  "recoverStaleSnapshot env s =
     (case sd_file s of
        None \<Rightarrow> (None, called s)
      | Some data \<Rightarrow>
          (case se_fail env (sd_calls s) of
             Some e \<Rightarrow> (Some (errorf ''read stale system DNS snapshot'' e), called s)
           | None \<Rightarrow>
               (case se_decode env data of
                  Inl e \<Rightarrow> (Some (errorf ''decode stale system DNS snapshot'' e), called s)
                | Inr snapshots \<Rightarrow>
                    (case restoreSnapshotsContext env snapshots (called s) of
                       (Some e, s1) \<Rightarrow> (Some (errorf ''restore stale system DNS snapshot'' e), s1)
                     | (None, s1) \<Rightarrow>
                         (case remove_file env s1 of
                            (Some e, s2) \<Rightarrow> (Some (errorf ''remove stale system DNS snapshot'' e), s2)
                          | (None, s2) \<Rightarrow> (None, s2))))))"

text \<open>The file is written under another name and then renamed; only the renaming changes it.\<close>

definition writeSnapshot :: "sysenv \<Rightarrow> dnsSnapshot list \<Rightarrow> sysdns \<Rightarrow> gerror option \<times> sysdns" where
  "writeSnapshot env snapshots s =
     (case se_encode env snapshots of
        Inl e \<Rightarrow> (Some (errorf ''encode system DNS snapshot'' e), s)
      | Inr data \<Rightarrow>
          (case attempts env [''create system DNS state directory'', ''create system DNS snapshot'', ''write system DNS snapshot'',
                  ''sync system DNS snapshot'', ''close system DNS snapshot''] s of
             (Some e, s1) \<Rightarrow> (Some e, s1)
           | (None, s1) \<Rightarrow>
               (case se_fail env (sd_calls s1) of
                  Some e \<Rightarrow> (Some (errorf ''install system DNS snapshot'' e), called s1)
                | None \<Rightarrow> (None, called (s1\<lparr>sd_file := Some data\<rparr>)))))"

section \<open>The lock\<close>

definition acquireLock :: "sysenv \<Rightarrow> darwinController \<Rightarrow> sysdns \<Rightarrow> gerror option \<times> darwinController \<times> sysdns" where
  "acquireLock env c s =
     (case attempts env [''create system DNS state directory'', ''open system DNS lock''] s of
        (Some e, s1) \<Rightarrow> (Some e, c, s1)
      | (None, s1) \<Rightarrow>
          (case se_fail env (sd_calls s1) of
             Some e \<Rightarrow> (Some (errorf ''another system DNS controller is active'' e), c, called s1)
           | None \<Rightarrow>
               if sd_lock s1 \<noteq> None
               then (Some (errorf ''another system DNS controller is active'' (Opaque ''resource temporarily unavailable'')), c, called s1)
               else (None, c\<lparr>dc_locked := True\<rparr>, called (s1\<lparr>sd_lock := Some (dc_id c)\<rparr>))))"

definition releaseLock :: "darwinController \<times> sysdns \<Rightarrow> darwinController \<times> sysdns" where
  "releaseLock cs = (case cs of (c, s) \<Rightarrow> if dc_locked c then (c\<lparr>dc_locked := False\<rparr>, s\<lparr>sd_lock := None\<rparr>) else (c, s))"

section \<open>Apply and restore\<close>

definition readServers :: "sysenv \<Rightarrow> string \<Rightarrow> sysdns \<Rightarrow> string list result \<times> sysdns" where
  "readServers env service s =
     (case se_fail env (sd_calls s) of
        Some e \<Rightarrow> (Inl e, called s)
      | None \<Rightarrow> (Inr (parseDNSServers (se_shown env service (sd_servers s service))), called s))"

fun read_snapshots :: "sysenv \<Rightarrow> string list \<Rightarrow> sysdns \<Rightarrow> dnsSnapshot list result \<times> sysdns" where
  "read_snapshots env [] s = (Inr [], s)"
| "read_snapshots env (service # rest) s =
     (case readServers env service s of
        (Inl e, s1) \<Rightarrow> (Inl e, s1)
      | (Inr servers, s1) \<Rightarrow>
          (case read_snapshots env rest s1 of (Inl e, s2) \<Rightarrow> (Inl e, s2) | (Inr ss, s2) \<Rightarrow> (Inr ((service, servers) # ss), s2)))"

text \<open>The loop that sets the new server; it stops at the first error, and then everything is put back.\<close>

fun apply_loop :: "sysenv \<Rightarrow> string \<Rightarrow> dnsSnapshot list \<Rightarrow> sysdns \<Rightarrow> gerror option \<times> sysdns" where
  "apply_loop env dnsServer [] s = (None, s)"
| "apply_loop env dnsServer (snapshot # rest) s =
     (case setdnsservers env (fst snapshot) [dnsServer] s of
        (Some e, s1) \<Rightarrow> (Some e, s1)
      | (None, s1) \<Rightarrow> apply_loop env dnsServer rest s1)"

definition apply_snapshots ::
  "sysenv \<Rightarrow> string \<Rightarrow> dnsSnapshot list \<Rightarrow> darwinController \<Rightarrow> sysdns \<Rightarrow> gerror option \<times> darwinController \<times> sysdns" where
  "apply_snapshots env dnsServer snapshots c s =
     (case writeSnapshot env snapshots s of
        (Some e, s1) \<Rightarrow> (Some e, releaseLock (c, s1))
      | (None, s1) \<Rightarrow>
          (case apply_loop env dnsServer snapshots s1 of
             (None, s2) \<Rightarrow> (None, c\<lparr>dc_snapshots := snapshots\<rparr>, s2)
           | (Some applyErr, s2) \<Rightarrow>
               (case restoreSnapshotsContext env snapshots s2 of
                  (restoreErr, s3) \<Rightarrow>
                    (let s4 = (if restoreErr = None then snd (remove_file env s3) else s3)
                     in (errors_Join [Some applyErr, restoreErr], releaseLock (c, s4))))))"

definition Apply :: "sysenv \<Rightarrow> string \<Rightarrow> darwinController \<Rightarrow> sysdns \<Rightarrow> gerror option \<times> darwinController \<times> sysdns" where
  "Apply env dnsServer c s =
     (if dc_snapshots c \<noteq> [] then (None, c, s)
      else if dc_interfaceName c = [] then (Some (Opaque ''system DNS control requires an outbound interface''), c, s)
      else if dnsServer = [] then (Some (Opaque ''system DNS server is empty''), c, s)
      else case acquireLock env c s of
          (Some e, c1, s1) \<Rightarrow> (Some e, c1, s1)
        | (None, c1, s1) \<Rightarrow>
            (case recoverStaleSnapshot env s1 of
               (Some e, s2) \<Rightarrow> (Some e, releaseLock (c1, s2))
             | (None, s2) \<Rightarrow>
                 (case se_fail env (sd_calls s2) of
                    Some e \<Rightarrow> (Some e, releaseLock (c1, called s2))
                  | None \<Rightarrow>
                      (let services = networkServicesForInterface (se_listing env (sd_calls s2)) (dc_interfaceName c1) in
                       if services = []
                       then (Some (Opaque (''find macOS network service for interface '' @ quote (dc_interfaceName c1))), releaseLock (c1, called s2))
                       else case read_snapshots env services (called s2) of
                           (Inl e, s3) \<Rightarrow> (Some e, releaseLock (c1, s3))
                         | (Inr snapshots, s3) \<Rightarrow> apply_snapshots env dnsServer snapshots c1 s3))))"

definition Restore :: "sysenv \<Rightarrow> darwinController \<Rightarrow> sysdns \<Rightarrow> gerror option \<times> darwinController \<times> sysdns" where
  "Restore env c s =
     (if dc_snapshots c = [] then (None, c, s)
      else case restoreSnapshotsContext env (dc_snapshots c) s of
          (Some e, s1) \<Rightarrow> (Some e, c, s1)
        | (None, s1) \<Rightarrow> (case remove_file env s1 of (err, s2) \<Rightarrow> (err, releaseLock (c\<lparr>dc_snapshots := []\<rparr>, s2))))"

section \<open>What can be put back\<close>

text \<open>The snapshots hold the servers \<open>orig\<close>, and every other service still has them.\<close>

definition snapshot_covers :: "(string \<Rightarrow> string list) \<Rightarrow> dnsSnapshot list \<Rightarrow> (string \<Rightarrow> string list) \<Rightarrow> bool" where
  "snapshot_covers orig snaps cur \<longleftrightarrow> (\<forall>v. v \<notin> fst ` set snaps \<longrightarrow> cur v = orig v) \<and> (\<forall>x \<in> set snaps. snd x = orig (fst x))"

text \<open>Nothing is changed and there is no file, or the file has what was changed.\<close>

definition kept :: "sysenv \<Rightarrow> (string \<Rightarrow> string list) \<Rightarrow> (string \<Rightarrow> string list) \<times> string option \<Rightarrow> bool" where
  "kept env orig x \<longleftrightarrow> (case snd x of None \<Rightarrow> fst x = orig | Some d \<Rightarrow> (\<exists>snaps. se_decode env d = Inr snaps \<and> snapshot_covers orig snaps (fst x)))"

definition safe :: "sysenv \<Rightarrow> (string \<Rightarrow> string list) \<Rightarrow> sysdns \<Rightarrow> bool" where
  "safe env orig s \<longleftrightarrow> kept env orig (sd_servers s, sd_file s) \<and> (\<forall>x \<in> set (sd_past s). kept env orig x)"

definition armed :: "sysenv \<Rightarrow> (string \<Rightarrow> string list) \<Rightarrow> dnsSnapshot list \<Rightarrow> sysdns \<Rightarrow> bool" where
  "armed env orig snaps s \<longleftrightarrow>
     safe env orig s \<and> (\<exists>d. sd_file s = Some d \<and> se_decode env d = Inr snaps) \<and> snapshot_covers orig snaps (sd_servers s)"

text \<open>What the code relies on: the JSON coding, and that the output of \<^verbatim>\<open>-getdnsservers\<close> lists the servers.\<close>

definition sysenv_laws :: "sysenv \<Rightarrow> (string \<Rightarrow> string list) \<Rightarrow> bool" where
  "sysenv_laws env orig \<longleftrightarrow> (\<forall>snaps d. se_encode env snaps = Inr d \<longrightarrow> se_decode env d = Inr snaps)
     \<and> (\<forall>v. parseDNSServers (se_shown env v (orig v)) = orig v)"

lemma called_fields [simp]:
  "sd_servers (called s) = sd_servers s" "sd_file (called s) = sd_file s" "sd_lock (called s) = sd_lock s"
  "sd_past (called s) = (sd_servers s, sd_file s) # sd_past s"
  by (simp_all add: called_def)

lemma safe_called [simp]: "safe env orig (called s) = safe env orig s"
  by (auto simp: safe_def)

lemma armed_called [simp]: "armed env orig snaps (called s) = armed env orig snaps s"
  by (simp add: armed_def)

lemma armed_servers:
  assumes "armed env orig snaps s" "snapshot_covers orig snaps cur"
  shows "armed env orig snaps (s\<lparr>sd_servers := cur\<rparr>)"
  using assms by (auto simp: armed_def safe_def kept_def)

lemma armed_set:
  assumes "armed env orig snaps s" "v \<in> fst ` set snaps"
  shows "armed env orig snaps (snd (setdnsservers env v args s)) \<and> sd_lock (snd (setdnsservers env v args s)) = sd_lock s"
  using assms armed_servers [of env orig snaps s] by (auto simp: setdnsservers_def Let_def armed_def snapshot_covers_def)

lemma setdnsservers_None:
  "fst (setdnsservers env v args s) = None \<Longrightarrow>
   sd_servers (snd (setdnsservers env v args s)) = (sd_servers s)(v := if args = [''Empty''] then [] else args)"
  by (simp add: setdnsservers_def Let_def)

lemma restore_loop_armed:
  assumes "armed env orig snaps s" "set xs \<subseteq> set snaps" "\<And>v. orig v \<noteq> [''Empty'']"
  shows "armed env orig snaps (snd (restore_loop env xs s)) \<and> sd_lock (snd (restore_loop env xs s)) = sd_lock s
     \<and> ((\<forall>e \<in> set (fst (restore_loop env xs s)). e = None) \<longrightarrow>
          (\<forall>v. sd_servers (snd (restore_loop env xs s)) v = (if v \<in> fst ` set xs then orig v else sd_servers s v)))"
  using assms(1,2)
proof (induction xs arbitrary: s)
  case (Cons x xs)
  obtain e s1 where o: "restore_one env x s = (e, s1)" by fastforce
  have x: "fst x \<in> fst ` set snaps" "snd x = orig (fst x)" using Cons.prems by (auto simp: armed_def snapshot_covers_def)
  have s1: "armed env orig snaps s1" "sd_lock s1 = sd_lock s"
    using armed_set [OF Cons.prems(1) x(1), of "if snd x = [] then [''Empty''] else snd x"] o by (simp_all add: restore_one_def)
  have n: "e = None \<Longrightarrow> sd_servers s1 = (sd_servers s)(fst x := orig (fst x))"
    using setdnsservers_None [of env "fst x" "if snd x = [] then [''Empty''] else snd x" s] o x(2) assms(3) [of "fst x"]
    by (auto simp: restore_one_def split: if_splits)
  obtain es s2 where r: "restore_loop env xs s1 = (es, s2)" by fastforce
  from Cons.IH [OF s1(1)] Cons.prems(2) r s1(2) n show ?case by (auto simp: o)
qed simp

lemma errors_Join_None': "errors_Join es = None \<Longrightarrow> \<forall>e \<in> set es. e = None"
  by (simp add: errors_Join_None)

lemma restore_armed:
  assumes "armed env orig snaps s" "\<And>v. orig v \<noteq> [''Empty'']" "restoreSnapshotsContext env snaps s = (e, s1)"
  shows "armed env orig snaps s1 \<and> sd_lock s1 = sd_lock s \<and> (e = None \<longrightarrow> sd_servers s1 = orig)"
proof -
  obtain es where r: "restore_loop env (rev snaps) s = (es, s1)" "e = errors_Join es"
    using assms(3) by (auto simp: restoreSnapshotsContext_def split: prod.splits)
  note l = restore_loop_armed [OF assms(1) _ assms(2), of "rev snaps"]
  have "sd_servers s1 = orig" if "e = None"
  proof
    fix v show "sd_servers s1 v = orig v"
      using l r errors_Join_None' [of es] that assms(1) by (auto simp: armed_def snapshot_covers_def)
  qed
  then show ?thesis using l r by simp
qed

lemma safe_removed: "safe env orig s \<Longrightarrow> sd_servers s = orig \<Longrightarrow> safe env orig (s\<lparr>sd_file := None\<rparr>)"
  by (simp add: safe_def kept_def [of env orig "(_, None)"])

lemma remove_safe:
  assumes "safe env orig s" "sd_servers s = orig" "remove_file env s = (e, s1)"
  shows "safe env orig s1 \<and> sd_lock s1 = sd_lock s \<and> sd_servers s1 = orig \<and> (e = None \<longrightarrow> sd_file s1 = None)"
  using assms safe_removed [OF assms(1,2)] by (cases "se_fail env (sd_calls s)") (auto simp: remove_file_def split: if_splits)

lemma recover_safe:
  assumes s: "safe env orig s" and o: "\<And>v. orig v \<noteq> [''Empty'']" and e: "recoverStaleSnapshot env s = (e, s1)"
  shows "safe env orig s1 \<and> sd_lock s1 = sd_lock s \<and> (e = None \<longrightarrow> sd_servers s1 = orig \<and> sd_file s1 = None)"
proof (cases "sd_file s")
  case None
  then show ?thesis using s e by (auto simp: recoverStaleSnapshot_def safe_def kept_def)
next
  case (Some d)
  then obtain snaps where d: "se_decode env d = Inr snaps" "snapshot_covers orig snaps (sd_servers s)"
    using s by (auto simp: safe_def kept_def)
  show ?thesis
  proof (cases "se_fail env (sd_calls s)")
    case f: None
    have a: "armed env orig snaps (called s)" using s Some d by (simp add: armed_def)
    obtain e1 t where r: "restoreSnapshotsContext env snaps (called s) = (e1, t)" by fastforce
    note t = restore_armed [OF a o r]
    show ?thesis
    proof (cases e1)
      case n: None
      obtain e2 t2 where m: "remove_file env t = (e2, t2)" by fastforce
      have "safe env orig t" "sd_servers t = orig" using t n by (simp_all add: armed_def)
      from remove_safe [OF this m] show ?thesis using e Some f d(1) r n m t
        by (auto simp: recoverStaleSnapshot_def split: option.splits)
    next
      case (Some e')
      then show ?thesis using e \<open>sd_file s = Some d\<close> f d(1) r t by (auto simp: recoverStaleSnapshot_def armed_def)
    qed
  qed (use s e Some in \<open>auto simp: recoverStaleSnapshot_def\<close>)
qed

lemma attempts_safe:
  "attempts env ws s = (e, s1) \<Longrightarrow> safe env orig s \<Longrightarrow>
   safe env orig s1 \<and> sd_lock s1 = sd_lock s \<and> sd_servers s1 = sd_servers s \<and> sd_file s1 = sd_file s"
  by (induction ws arbitrary: s) (auto split: option.splits)

lemma write_armed:
  assumes s: "safe env orig s" "sd_servers s = orig" and l: "sysenv_laws env orig" and c: "snapshot_covers orig snaps orig"
    and e: "writeSnapshot env snaps s = (e, s1)"
  shows "safe env orig s1 \<and> sd_lock s1 = sd_lock s \<and> (e = None \<longrightarrow> armed env orig snaps s1)"
proof (cases "se_encode env snaps")
  case (Inr d)
  have d: "se_decode env d = Inr snaps" using l Inr by (simp add: sysenv_laws_def)
  obtain e1 t where a: "attempts env [''create system DNS state directory'', ''create system DNS snapshot'', ''write system DNS snapshot'',
      ''sync system DNS snapshot'', ''close system DNS snapshot''] s = (e1, t)" by fastforce
  note t = attempts_safe [OF a s(1)]
  have k: "safe env orig (t\<lparr>sd_file := Some d\<rparr>)"
    using t d c s(2) by (simp add: safe_def kept_def [of env orig "(_, Some d)"])
  have "sd_servers (t\<lparr>sd_file := Some d\<rparr>) = orig" using t s(2) by simp
  then have "armed env orig snaps (t\<lparr>sd_file := Some d\<rparr>)" using k d c by (simp add: armed_def)
  then show ?thesis using e Inr a t k by (auto simp: writeSnapshot_def split: option.splits)
qed (use e s in \<open>auto simp: writeSnapshot_def\<close>)

lemma apply_loop_armed:
  assumes "armed env orig snaps s" "set xs \<subseteq> set snaps" "dnsServer \<noteq> ''Empty''" "apply_loop env dnsServer xs s = (e, s1)"
  shows "armed env orig snaps s1 \<and> sd_lock s1 = sd_lock s
    \<and> (e = None \<longrightarrow> (\<forall>v. sd_servers s1 v = (if v \<in> fst ` set xs then [dnsServer] else sd_servers s v)))"
  using assms(1,2,4)
proof (induction xs arbitrary: s)
  case (Cons x xs)
  obtain e' t where o: "setdnsservers env (fst x) [dnsServer] s = (e', t)" by fastforce
  have t: "armed env orig snaps t" "sd_lock t = sd_lock s" using armed_set [OF Cons.prems(1), of "fst x" "[dnsServer]"] Cons.prems(2) o by auto
  show ?case
  proof (cases e')
    case None
    have "sd_servers t = (sd_servers s)(fst x := [dnsServer])"
      using setdnsservers_None [of env "fst x" "[dnsServer]" s] o None assms(3) by simp
    then show ?thesis using Cons.IH [OF t(1)] Cons.prems o None t(2) by auto
  qed (use Cons.prems o t in auto)
qed simp

lemma read_snapshots_covers:
  "read_snapshots env services s = (r, s1) \<Longrightarrow> safe env orig s \<Longrightarrow> sysenv_laws env orig \<Longrightarrow> sd_servers s = orig \<Longrightarrow>
   safe env orig s1 \<and> sd_lock s1 = sd_lock s \<and> sd_servers s1 = orig
   \<and> (\<forall>snaps. r = Inr snaps \<longrightarrow> snapshot_covers orig snaps orig \<and> map fst snaps = services)"
proof (induction services arbitrary: s r s1)
  case (Cons v vs)
  show ?case
  proof (cases "se_fail env (sd_calls s)")
    case None
    obtain r1 t where r: "read_snapshots env vs (called s) = (r1, t)" by fastforce
    have "readServers env v s = (Inr (orig v), called s)" using None Cons.prems by (simp add: readServers_def sysenv_laws_def)
    then show ?thesis using Cons.IH [OF r] Cons.prems r by (cases r1) (auto simp: snapshot_covers_def)
  qed (use Cons.prems in \<open>auto simp: readServers_def\<close>)
qed (auto simp: snapshot_covers_def)

text \<open>The state of a controller: free, or the holder of the lock with snapshots that the file has.\<close>

definition dns_controller_ok :: "sysenv \<Rightarrow> (string \<Rightarrow> string list) \<Rightarrow> darwinController \<Rightarrow> sysdns \<Rightarrow> bool" where
  "dns_controller_ok env orig c s \<longleftrightarrow> safe env orig s \<and> (dc_locked c \<longleftrightarrow> dc_snapshots c \<noteq> [])
     \<and> (dc_snapshots c \<noteq> [] \<longrightarrow> sd_lock s = Some (dc_id c) \<and> armed env orig (dc_snapshots c) s)"

lemma released_ok: "safe env orig s \<Longrightarrow> dc_locked c \<Longrightarrow> dc_snapshots c = [] \<Longrightarrow> releaseLock (c, s) = (c', s') \<Longrightarrow>
    dns_controller_ok env orig c' s' \<and> dc_snapshots c' = [] \<and> sd_lock s' = None \<and> sd_servers s' = sd_servers s \<and> sd_file s' = sd_file s"
  by (auto simp: releaseLock_def dns_controller_ok_def safe_def)

text \<open>The last part of \<^verbatim>\<open>Apply\<close>.\<close>

lemma apply_snapshots_ok:
  assumes s: "safe env orig s" "sd_servers s = orig" and l: "sysenv_laws env orig" and c: "snapshot_covers orig snaps orig" "snaps \<noteq> []"
    and o: "\<And>v. orig v \<noteq> [''Empty'']" and d: "dnsServer \<noteq> ''Empty''"
    and k: "dc_locked c" "dc_snapshots c = []" "sd_lock s = Some (dc_id c)"
    and e: "apply_snapshots env dnsServer snaps c s = (e, c', s')"
  shows "dns_controller_ok env orig c' s' \<and> (if e = None then dc_snapshots c' = snaps \<and>
       sd_servers s' = (\<lambda>v. if v \<in> fst ` set snaps then [dnsServer] else orig v) else dc_snapshots c' = [] \<and> sd_lock s' = None)"
proof -
  obtain e1 s1 where w: "writeSnapshot env snaps s = (e1, s1)" by fastforce
  note w1 = write_armed [OF s l c(1) w]
  show ?thesis
  proof (cases e1)
    case (Some x)
    then show ?thesis using e w w1 released_ok [OF _ k(1,2), of env orig s1] by (auto simp: apply_snapshots_def)
  next
    case None
    obtain e2 s2 where a: "apply_loop env dnsServer snaps s1 = (e2, s2)" by fastforce
    have s1: "armed env orig snaps s1" "sd_lock s1 = Some (dc_id c)" using w1 None k(3) by simp_all
    note a1 = apply_loop_armed [OF s1(1) order_refl d a]
    show ?thesis
    proof (cases e2)
      case n: None
      have "sd_servers s2 = (\<lambda>v. if v \<in> fst ` set snaps then [dnsServer] else orig v)"
        using a1 n s1(1) by (auto simp: armed_def snapshot_covers_def)
      then show ?thesis using e w None a n a1 s1(2) k(1) c(2) by (auto simp: apply_snapshots_def dns_controller_ok_def armed_def)
    next
      case (Some x)
      obtain e3 s3 where r: "restoreSnapshotsContext env snaps s2 = (e3, s3)" by fastforce
      have r1: "armed env orig snaps s3 \<and> sd_lock s3 = sd_lock s2 \<and> (e3 = None \<longrightarrow> sd_servers s3 = orig)"
        using restore_armed [where orig = orig, OF _ o r] a1 by blast
      define s4 where "s4 = (if e3 = None then snd (remove_file env s3) else s3)"
      have "safe env orig s4" using r1 remove_safe [of env orig s3] by (cases "remove_file env s3") (auto simp: s4_def armed_def)
      moreover have "e = errors_Join [Some x, e3]" "(c', s') = releaseLock (c, s4)"
        using e w None a Some r by (auto simp: apply_snapshots_def Let_def s4_def)
      moreover have "e \<noteq> None" using calculation(2) by (simp add: errors_Join_None)
      ultimately show ?thesis using released_ok [OF _ k(1,2), of env orig s4 c' s'] by auto
    qed
  qed
qed

lemma acquire_cases:
  assumes "acquireLock env c s = (e, c1, s1)" "safe env orig s"
  shows "safe env orig s1 \<and> sd_servers s1 = sd_servers s
    \<and> (if e = None then sd_lock s = None \<and> c1 = c\<lparr>dc_locked := True\<rparr> \<and> sd_lock s1 = Some (dc_id c) else c1 = c \<and> sd_lock s1 = sd_lock s)"
proof -
  obtain e1 t where a: "attempts env [''create system DNS state directory'', ''open system DNS lock''] s = (e1, t)" by fastforce
  have "safe env orig (t\<lparr>sd_lock := Some (dc_id c)\<rparr>) = safe env orig t" by (simp add: safe_def)
  then show ?thesis using assms(1) attempts_safe [OF a assms(2)] a by (auto simp: acquireLock_def split: option.splits if_splits)
qed

lemma Apply_ok:
  assumes s: "dns_controller_ok env orig c s" and l: "sysenv_laws env orig" and o: "\<And>v. orig v \<noteq> [''Empty'']" and d: "dnsServer \<noteq> ''Empty''"
    and e: "Apply env dnsServer c s = (e, c', s')"
  shows "dns_controller_ok env orig c' s' \<and> (e \<noteq> None \<longrightarrow> dc_snapshots c' = [])
    \<and> (e = None \<and> dc_snapshots c = [] \<longrightarrow> dc_snapshots c' \<noteq> []
        \<and> sd_servers s' = (\<lambda>v. if v \<in> fst ` set (dc_snapshots c') then [dnsServer] else orig v))"
proof (cases "dc_snapshots c \<noteq> [] \<or> dc_interfaceName c = [] \<or> dnsServer = []")
  case True
  then show ?thesis using e s by (auto simp: Apply_def split: if_splits)
next
  case False
  have sf: "safe env orig s" "\<not> dc_locked c" using s False by (auto simp: dns_controller_ok_def)
  obtain e1 c1 s1 where a: "acquireLock env c s = (e1, c1, s1)" using prod_cases3 by blast
  note a1 = acquire_cases [OF a sf(1)]
  show ?thesis
  proof (cases e1)
    case (Some x)
    then show ?thesis using e a a1 False sf(2) by (auto simp: Apply_def dns_controller_ok_def)
  next
    case None
    then have c1: "c1 = c\<lparr>dc_locked := True\<rparr>" "dc_locked c1" "dc_snapshots c1 = []" "sd_lock s1 = Some (dc_id c1)" "safe env orig s1"
      using a1 False by simp_all
    obtain e2 s2 where r: "recoverStaleSnapshot env s1 = (e2, s2)" by fastforce
    have r1: "safe env orig s2 \<and> sd_lock s2 = sd_lock s1 \<and> (e2 = None \<longrightarrow> sd_servers s2 = orig \<and> sd_file s2 = None)"
      using recover_safe [where orig = orig, OF c1(5) o r] .
    have rel: "dns_controller_ok env orig c'' s'' \<and> dc_snapshots c'' = []" if "safe env orig t" "releaseLock (c1, t) = (c'', s'')" for t c'' s''
      using released_ok [OF that(1) c1(2,3) that(2)] by simp
    show ?thesis
    proof (cases "e2 = None \<and> se_fail env (sd_calls s2) = None
        \<and> networkServicesForInterface (se_listing env (sd_calls s2)) (dc_interfaceName c1) \<noteq> []")
      case False
      then obtain t where "e \<noteq> None" "safe env orig t" "releaseLock (c1, t) = (c', s')"
        using e a None r r1 \<open>\<not> (dc_snapshots c \<noteq> [] \<or> dc_interfaceName c = [] \<or> dnsServer = [])\<close>
        by (fastforce simp: Apply_def Let_def split: option.splits if_splits)
      then show ?thesis using rel by blast
    next
      case True
      obtain q s3 where rs: "read_snapshots env (networkServicesForInterface (se_listing env (sd_calls s2)) (dc_interfaceName c1)) (called s2) = (q, s3)"
        by fastforce
      have q: "safe env orig s3 \<and> sd_lock s3 = sd_lock s2 \<and> sd_servers s3 = orig \<and> (\<forall>snaps. q = Inr snaps \<longrightarrow> snapshot_covers orig snaps orig \<and> snaps \<noteq> [])"
        using read_snapshots_covers [OF rs _ l] r1 True by auto
      have ap: "(e, c', s') = (case q of Inl x \<Rightarrow> (Some x, releaseLock (c1, s3)) | Inr snaps \<Rightarrow> apply_snapshots env dnsServer snaps c1 s3)"
        using e a None r True rs \<open>\<not> (dc_snapshots c \<noteq> [] \<or> dc_interfaceName c = [] \<or> dnsServer = [])\<close>
        by (auto simp: Apply_def Let_def split: sum.splits)
      show ?thesis
      proof (cases q)
        case (Inl x)
        then have "releaseLock (c1, s3) = (c', s')" "e = Some x" using ap by simp_all
        then show ?thesis using rel [OF _ \<open>releaseLock (c1, s3) = (c', s')\<close>] q by simp
      next
        case (Inr snaps)
        then have "apply_snapshots env dnsServer snaps c1 s3 = (e, c', s')" using ap by simp
        from apply_snapshots_ok [where orig = orig, OF _ _ l _ _ o d c1(2,3) _ this] q Inr r1 c1(4) show ?thesis by (auto split: if_splits)
      qed
    qed
  qed
qed

lemma Restore_ok:
  assumes s: "dns_controller_ok env orig c s" and o: "\<And>v. orig v \<noteq> [''Empty'']" and e: "Restore env c s = (e, c', s')"
  shows "dns_controller_ok env orig c' s'
    \<and> (dc_snapshots c \<noteq> [] \<longrightarrow> dc_snapshots c' = [] \<longrightarrow> sd_servers s' = orig \<and> sd_lock s' = None)
    \<and> (dc_snapshots c \<noteq> [] \<longrightarrow> e = None \<longrightarrow> dc_snapshots c' = [] \<and> sd_file s' = None)"
proof (cases "dc_snapshots c = []")
  case False
  obtain e1 s1 where r: "restoreSnapshotsContext env (dc_snapshots c) s = (e1, s1)" by fastforce
  have a: "armed env orig (dc_snapshots c) s" "dc_locked c" "sd_lock s = Some (dc_id c)" using s False by (simp_all add: dns_controller_ok_def)
  have r1: "armed env orig (dc_snapshots c) s1 \<and> sd_lock s1 = sd_lock s \<and> (e1 = None \<longrightarrow> sd_servers s1 = orig)"
    using restore_armed [where orig = orig, OF a(1) o r] .
  show ?thesis
  proof (cases e1)
    case None
    obtain e2 s2 where m: "remove_file env s1 = (e2, s2)" by fastforce
    have m1: "safe env orig s2 \<and> sd_servers s2 = orig \<and> (e2 = None \<longrightarrow> sd_file s2 = None)"
      using remove_safe [OF _ _ m] r1 None by (auto simp: armed_def)
    have "e = e2" "releaseLock (c\<lparr>dc_snapshots := []\<rparr>, s2) = (c', s')" using e False r None m by (auto simp: Restore_def)
    then show ?thesis using released_ok [of env orig s2 "c\<lparr>dc_snapshots := []\<rparr>" c' s'] m1 a(2) by auto
  next
    case (Some x)
    then show ?thesis using e False r r1 a by (auto simp: Restore_def dns_controller_ok_def armed_def)
  qed
qed (use e s in \<open>auto simp: Restore_def\<close>)

section \<open>Processes that die\<close>

text \<open>
  \<open>DnsDie k\<close>: the process dies; what it leaves is what was there \<open>k\<close> calls before the end of its last operation. The operating system
  frees the lock, and another process starts with a controller of its own.
\<close>

datatype dns_op = DnsApply | DnsRestore | DnsDie nat nat string

definition left_behind :: "nat \<Rightarrow> sysdns \<Rightarrow> sysdns" where
  "left_behind k s =
     (let (servers, file) = (if k < length (sd_past s) then sd_past s ! k else (sd_servers s, sd_file s))
      in s\<lparr>sd_servers := servers, sd_file := file, sd_lock := None\<rparr>)"

primrec dns_step :: "sysenv \<Rightarrow> string \<Rightarrow> darwinController \<times> sysdns \<Rightarrow> dns_op \<Rightarrow> darwinController \<times> sysdns" where
  "dns_step env dnsServer cs DnsApply = snd (Apply env dnsServer (fst cs) (snd cs))"
| "dns_step env dnsServer cs DnsRestore = snd (Restore env (fst cs) (snd cs))"
| "dns_step env dnsServer cs (DnsDie k self interface) = (newPlatformController self interface, left_behind k (snd cs))"

definition dns_start :: "(string \<Rightarrow> string list) \<Rightarrow> darwinController \<times> sysdns \<Rightarrow> bool" where
  "dns_start orig cs \<longleftrightarrow> dc_snapshots (fst cs) = [] \<and> \<not> dc_locked (fst cs) \<and> sd_file (snd cs) = None \<and> sd_servers (snd cs) = orig \<and> sd_past (snd cs) = []"

lemma left_behind_safe: "safe env orig s \<Longrightarrow> safe env orig (left_behind k s)"
  by (cases "sd_past s ! k") (auto simp: left_behind_def safe_def dest: nth_mem)

lemma dns_system:
  assumes "sysenv_laws env orig" "\<And>v. orig v \<noteq> [''Empty'']" "dnsServer \<noteq> ''Empty''"
  shows "step_system (dns_start orig) (dns_step env dnsServer) (\<lambda>cs. dns_controller_ok env orig (fst cs) (snd cs))"
proof
  fix cs assume "dns_start orig cs"
  then show "dns_controller_ok env orig (fst cs) (snd cs)" by (simp add: dns_start_def dns_controller_ok_def safe_def kept_def)
next
  fix cs x assume i: "dns_controller_ok env orig (fst cs) (snd cs)"
  show "dns_controller_ok env orig (fst (dns_step env dnsServer cs x)) (snd (dns_step env dnsServer cs x))"
  proof (cases x)
    case DnsApply
    then show ?thesis using Apply_ok [where orig = orig, OF i assms(1,2,3)] by (cases "Apply env dnsServer (fst cs) (snd cs)") auto
  next
    case DnsRestore
    then show ?thesis using Restore_ok [where orig = orig, OF i assms(2)] by (cases "Restore env (fst cs) (snd cs)") auto
  next
    case (DnsDie k self interface)
    then show ?thesis using i left_behind_safe by (auto simp: dns_controller_ok_def newPlatformController_def)
  qed
qed

text \<open>C20. The system's DNS settings always come back. Let processes apply and restore in any order, with any call to the operating system failing and any process
  dying between two calls: after every call the settings are the original ones and there is no snapshot file, or the file holds the
  original servers of every service that was changed. Hence a later application that succeeds changes exactly the services of the interface,
  starting from the original settings even when the process before it had died; a restore that succeeds leaves the original settings with
  no file and a free lock; an application that fails leaves no lock behind; and the recovery that every application starts with, when it
  succeeds, has brought all settings back.\<close>

theorem system_dns_restored:
  assumes "sysenv_laws env orig" "\<forall>v. orig v \<noteq> [''Empty'']" "dnsServer \<noteq> ''Empty''" "dns_start orig cs"
    and ran: "foldl (dns_step env dnsServer) cs ops = (c, s)"
    and applied: "Apply env dnsServer c s = (e, c1, s1)"
    and restored: "Restore env c1 s1 = (e2, c2, s2)"
    and recovered: "recoverStaleSnapshot env s = (e3, s3)"
  shows "(\<forall>x \<in> set (sd_past s1). kept env orig x)
   \<and> (e = None \<and> dc_snapshots c = [] \<longrightarrow>
        dc_snapshots c1 \<noteq> [] \<and> sd_lock s1 = Some (dc_id c1) \<and>
        sd_servers s1 = (\<lambda>v. if v \<in> fst ` set (dc_snapshots c1) then [dnsServer] else orig v))
   \<and> (e \<noteq> None \<longrightarrow> \<not> dc_locked c1)
   \<and> (dc_snapshots c1 \<noteq> [] \<and> e2 = None \<longrightarrow> sd_servers s2 = orig \<and> sd_file s2 = None \<and> sd_lock s2 = None)
   \<and> (e3 = None \<longrightarrow> sd_servers s3 = orig \<and> sd_file s3 = None)"
proof -
  have o: "\<And>v. orig v \<noteq> [''Empty'']" using assms(2) by simp
  have i: "dns_controller_ok env orig c s"
    using step_system.run_inv [OF dns_system [where orig = orig, OF assms(1) o assms(3)] assms(4), of ops] ran by simp
  have a: "dns_controller_ok env orig c1 s1" "e \<noteq> None \<longrightarrow> dc_snapshots c1 = []"
    "e = None \<and> dc_snapshots c = [] \<longrightarrow> dc_snapshots c1 \<noteq> []
        \<and> sd_servers s1 = (\<lambda>v. if v \<in> fst ` set (dc_snapshots c1) then [dnsServer] else orig v)"
    using Apply_ok [where orig = orig, OF i assms(1) o assms(3) applied] by auto
  have r: "dc_snapshots c1 \<noteq> [] \<longrightarrow> dc_snapshots c2 = [] \<longrightarrow> sd_servers s2 = orig \<and> sd_lock s2 = None"
    "dc_snapshots c1 \<noteq> [] \<longrightarrow> e2 = None \<longrightarrow> dc_snapshots c2 = [] \<and> sd_file s2 = None"
    using Restore_ok [where orig = orig, OF a(1) o restored] by auto
  have "safe env orig s" using i by (simp add: dns_controller_ok_def)
  from recover_safe [where orig = orig, OF this o recovered] have v: "e3 = None \<longrightarrow> sd_servers s3 = orig \<and> sd_file s3 = None" by simp
  show ?thesis
  proof (intro conjI)
    show "\<forall>x \<in> set (sd_past s1). kept env orig x" using a(1) by (simp add: dns_controller_ok_def safe_def)
    show "e \<noteq> None \<longrightarrow> \<not> dc_locked c1" using a(1,2) by (auto simp: dns_controller_ok_def)
    show "e = None \<and> dc_snapshots c = [] \<longrightarrow>
        dc_snapshots c1 \<noteq> [] \<and> sd_lock s1 = Some (dc_id c1) \<and>
        sd_servers s1 = (\<lambda>v. if v \<in> fst ` set (dc_snapshots c1) then [dnsServer] else orig v)"
      using a(1,3) by (simp add: dns_controller_ok_def)
  qed (use r v in auto)
qed

definition demo_snaps :: "dnsSnapshot list" where
  "demo_snaps = [(''Wi-Fi'', [''10.10.0.21''])]"

definition demo_dns_env :: sysenv where
  "demo_dns_env = \<lparr> se_fail = (\<lambda>_. None), se_late = (\<lambda>_. False),
     se_listing = (\<lambda>_. ''(1) Wi-Fi'' @ [CHR 0x0A] @ ''(Hardware Port: Wi-Fi, Device: en0)'' @ [CHR 0x0A]),
     se_shown = (\<lambda>v l. if l = [] then ''There aren't any DNS Servers set on '' @ v else concat (map (\<lambda>x. x @ [CHR 0x0A]) l)),
     se_encode = (\<lambda>snaps. if snaps = demo_snaps then Inr ''snapshot'' else Inl (Opaque ''other'')),
     se_decode = (\<lambda>d. if d = ''snapshot'' then Inr demo_snaps else Inl (Opaque ''other'')) \<rparr>"

definition demo_servers :: "string \<Rightarrow> string list" where
  "demo_servers v = (if v = ''Wi-Fi'' then [''10.10.0.21''] else [])"

definition demo_sysdns :: sysdns where
  "demo_sysdns = \<lparr> sd_servers = demo_servers, sd_file = None, sd_lock = None, sd_calls = 0, sd_past = [] \<rparr>"

lemma demo_contains: "Contains (''There aren't any DNS Servers set on '' @ v) ''There aren't any DNS Servers set on''"
  by (simp add: HasPrefix_def)

lemma demo_dns_laws: "sysenv_laws demo_dns_env demo_servers"
proof -
  have "parseDNSServers (''10.10.0.21'' @ [CHR 0x0A]) = [''10.10.0.21'']" by code_simp
  moreover have "parseDNSServers (''There aren't any DNS Servers set on '' @ v) = []" for v
    using demo_contains [of v] by (simp add: parseDNSServers_def)
  ultimately show ?thesis by (auto simp: sysenv_laws_def demo_dns_env_def demo_servers_def)
qed

text \<open>A process applies and dies; the next one applies, and restores.\<close>

definition demo_died :: "darwinController \<times> sysdns" where
  "demo_died = foldl (dns_step demo_dns_env ''172.19.0.2'') (newPlatformController 1 ''en0'', demo_sysdns) [DnsApply, DnsDie 0 2 ''en0'']"

lemma demo_services: "networkServicesForInterface (se_listing demo_dns_env n) ''en0'' = [''Wi-Fi'']"
proof -
  have "networkServicesForInterface (''(1) Wi-Fi'' @ [CHR 0x0A] @ ''(Hardware Port: Wi-Fi, Device: en0)'' @ [CHR 0x0A]) ''en0'' = [''Wi-Fi'']" by code_simp
  then show ?thesis by (simp add: demo_dns_env_def)
qed

lemma demo_dns_steps: "se_fail demo_dns_env n = None" "se_encode demo_dns_env [(''Wi-Fi'', [''10.10.0.21''])] = Inr ''snapshot''"
  "se_decode demo_dns_env ''snapshot'' = Inr [(''Wi-Fi'', [''10.10.0.21''])]"
  "parseDNSServers (se_shown demo_dns_env ''Wi-Fi'' [''10.10.0.21'']) = [''10.10.0.21'']"
  using demo_dns_laws by (simp_all add: demo_dns_env_def sysenv_laws_def demo_servers_def demo_snaps_def split: if_splits)

lemmas demo_dns_run = Apply_def acquireLock_def recoverStaleSnapshot_def writeSnapshot_def apply_snapshots_def readServers_def remove_file_def
  restoreSnapshotsContext_def restore_one_def setdnsservers_def called_def newPlatformController_def errors_Join_def List.map_filter_def left_behind_def Let_def

theorem system_dns_restored_witness:
  "\<exists>c1 s1 c2 s2. sd_servers (snd demo_died) ''Wi-Fi'' = [''172.19.0.2''] \<and> dc_snapshots (fst demo_died) = []
     \<and> Apply demo_dns_env ''172.19.0.2'' (fst demo_died) (snd demo_died) = (None, c1, s1) \<and> dc_snapshots c1 = demo_snaps
     \<and> Restore demo_dns_env c1 s1 = (None, c2, s2) \<and> sd_servers s2 = demo_servers \<and> sd_file s2 = None"
proof -
  obtain c s where d: "demo_died = (c, s)" by fastforce
  have l: "sd_servers s = demo_servers(''Wi-Fi'' := [''172.19.0.2''])" "sd_file s = Some ''snapshot''" "sd_lock s = None"
    "c = newPlatformController 2 ''en0''"
    using d by (auto simp: demo_died_def demo_dns_run demo_dns_steps demo_services demo_sysdns_def demo_servers_def)
  obtain e1 c1 s1 where a: "Apply demo_dns_env ''172.19.0.2'' c s = (e1, c1, s1)" using prod_cases3 by blast
  have a1: "e1 = None" "dc_snapshots c1 = demo_snaps"
    using a by (auto simp: demo_dns_run demo_dns_steps demo_services l demo_servers_def demo_snaps_def split: if_splits)
  obtain e2 c2 s2 where r: "Restore demo_dns_env c1 s1 = (e2, c2, s2)" using prod_cases3 by blast
  have r1: "e2 = None" using r a1 by (auto simp: Restore_def demo_dns_run demo_dns_steps demo_snaps_def split: if_splits)
  obtain e3 s3 where v: "recoverStaleSnapshot demo_dns_env s = (e3, s3)" by fastforce
  have st: "dns_start demo_servers (newPlatformController 1 ''en0'', demo_sysdns)" by (simp add: dns_start_def newPlatformController_def demo_sysdns_def)
  have f: "foldl (dns_step demo_dns_env ''172.19.0.2'') (newPlatformController 1 ''en0'', demo_sysdns) [DnsApply, DnsDie 0 2 ''en0''] = (c, s)"
    using d by (simp only: demo_died_def)
  have "sd_servers s2 = demo_servers \<and> sd_file s2 = None"
    using system_dns_restored [OF demo_dns_laws _ _ st f a r v] a1 r1 by (simp add: demo_servers_def demo_snaps_def)
  moreover have "sd_servers s ''Wi-Fi'' = [''172.19.0.2'']" "dc_snapshots c = []" using l by (simp_all add: newPlatformController_def)
  ultimately show ?thesis unfolding d fst_conv snd_conv using a a1 r r1 by blast
qed

section \<open>The controller's interface\<close>

text \<open>\<^verbatim>\<open>systemdns.Controller\<close>, and what its clients rely on: after an application that fails and a restore that succeeds the controller holds no snapshots (\<open>held\<close>).
  The settings themselves are what \<open>changed\<close> speaks of: a successful application of a controller that holds none makes it hold some, and a restore that gives them
  up has put the settings back. An application that fails may leave settings changed.\<close>

record 'd sysDNS =
  sy_Apply :: "string \<Rightarrow> 'd \<Rightarrow> gerror option \<times> 'd"
  sy_Restore :: "'d \<Rightarrow> gerror option \<times> 'd"

locale dns_controller =
  fixes ops :: "'d sysDNS" and server :: string and ok :: "'d \<Rightarrow> bool" and held :: "'d \<Rightarrow> bool"
  assumes apply_ok: "ok d \<Longrightarrow> ok (snd (sy_Apply ops server d))"
    and apply_err: "ok d \<Longrightarrow> sy_Apply ops server d = (Some e, d') \<Longrightarrow> \<not> held d'"
    and restore_ok: "ok d \<Longrightarrow> ok (snd (sy_Restore ops d))"
    and restore_done: "ok d \<Longrightarrow> sy_Restore ops d = (None, d') \<Longrightarrow> \<not> held d'"

locale dns_settings = dns_controller +
  fixes changed :: "'d \<Rightarrow> bool"
  assumes apply_held: "ok d \<Longrightarrow> \<not> held d \<Longrightarrow> sy_Apply ops server d = (None, d') \<Longrightarrow> held d'"
    and restore_idle: "ok d \<Longrightarrow> \<not> held d \<Longrightarrow> snd (sy_Restore ops d) = d"
    and restore_settings: "ok d \<Longrightarrow> held d \<Longrightarrow> sy_Restore ops d = (e, d') \<Longrightarrow> \<not> held d' \<Longrightarrow> \<not> changed d'"

definition darwinDNS :: "sysenv \<Rightarrow> (darwinController \<times> sysdns) sysDNS" where
  "darwinDNS env = \<lparr> sy_Apply = (\<lambda>dnsServer d. Apply env dnsServer (fst d) (snd d)), sy_Restore = (\<lambda>d. Restore env (fst d) (snd d)) \<rparr>"

definition darwin_ok :: "sysenv \<Rightarrow> (string \<Rightarrow> string list) \<Rightarrow> string \<Rightarrow> darwinController \<times> sysdns \<Rightarrow> bool" where
  "darwin_ok env orig dnsServer d \<longleftrightarrow>
     sysenv_laws env orig \<and> (\<forall>v. orig v \<noteq> [''Empty'']) \<and> dnsServer \<noteq> ''Empty'' \<and> dns_controller_ok env orig (fst d) (snd d)"

definition darwin_held :: "darwinController \<times> sysdns \<Rightarrow> bool" where
  "darwin_held d \<longleftrightarrow> dc_snapshots (fst d) \<noteq> []"

lemma darwin_controller: "dns_controller (darwinDNS env) dnsServer (darwin_ok env orig dnsServer) darwin_held"
proof
  fix d assume k: "darwin_ok env orig dnsServer d"
  then have o: "\<And>v. orig v \<noteq> [''Empty'']" and c: "dns_controller_ok env orig (fst d) (snd d)" by (simp_all add: darwin_ok_def)
  note a = Apply_ok [where orig = orig, OF c _ o] and r = Restore_ok [where orig = orig, OF c o]
  show "darwin_ok env orig dnsServer (snd (sy_Apply (darwinDNS env) dnsServer d))"
    using a [of dnsServer] k by (cases "Apply env dnsServer (fst d) (snd d)") (auto simp: darwinDNS_def darwin_ok_def)
  show "darwin_ok env orig dnsServer (snd (sy_Restore (darwinDNS env) d))"
    using r k by (cases "Restore env (fst d) (snd d)") (auto simp: darwinDNS_def darwin_ok_def)
  show "\<not> darwin_held d'" if "sy_Apply (darwinDNS env) dnsServer d = (Some e, d')" for e d'
    using a [of dnsServer "Some e" "fst d'" "snd d'"] k that by (auto simp: darwinDNS_def darwin_ok_def darwin_held_def)
  show "\<not> darwin_held d'" if "sy_Restore (darwinDNS env) d = (None, d')" for d'
    using r [of None "fst d'" "snd d'"] that by (cases "dc_snapshots (fst d) = []") (auto simp: darwinDNS_def darwin_held_def Restore_def)
qed

interpretation darwin: dns_controller "darwinDNS env" dnsServer "darwin_ok env orig dnsServer" darwin_held for env dnsServer orig
  by (rule darwin_controller)

interpretation darwin_set: dns_settings "darwinDNS env" dnsServer "darwin_ok env orig dnsServer" darwin_held "\<lambda>d. sd_servers (snd d) \<noteq> orig"
  for env dnsServer orig
proof
  fix d assume k: "darwin_ok env orig dnsServer d"
  then have o: "\<And>v. orig v \<noteq> [''Empty'']" and c: "dns_controller_ok env orig (fst d) (snd d)" by (simp_all add: darwin_ok_def)
  note a = Apply_ok [where orig = orig, OF c _ o] and r = Restore_ok [where orig = orig, OF c o]
  show "darwin_held d'" if "\<not> darwin_held d" "sy_Apply (darwinDNS env) dnsServer d = (None, d')" for d'
    using a [of dnsServer None "fst d'" "snd d'"] k that by (auto simp: darwinDNS_def darwin_ok_def darwin_held_def)
  show "snd (sy_Restore (darwinDNS env) d) = d" if "\<not> darwin_held d"
    using that by (simp add: darwinDNS_def darwin_held_def Restore_def)
  show "\<not> sd_servers (snd d') \<noteq> orig" if "darwin_held d" "sy_Restore (darwinDNS env) d = (e, d')" "\<not> darwin_held d'" for e d'
    using r [of e "fst d'" "snd d'"] that by (auto simp: darwinDNS_def darwin_held_def)
qed

end
