(* ===== verification/TunService.thy ===== *)
theory TunService
  imports TunUDP SystemDns L3Frame
begin

text \<open>
  The TUN service, \<^verbatim>\<open>src/internal/networkruntime/tun.go\<close>, with the DNS handlers of \<^verbatim>\<open>tun_dns.go\<close> and the monitored
  device of \<^verbatim>\<open>tun_health.go\<close>: its configuration, its start and close as two goroutines, the change of routes and its connections.

  The start and the close of a service run concurrently, so each is a program counter in the state and a function that makes its next step:
  what happens up to and including the next use of the mutex or of a shared object is one step. What the device, the stack and the monitors return is an argument;
  \<open>tun_world\<close> records which of them exist and which are closed, and whether one was closed or used that was not open.
\<close>

section \<open>Configuration\<close>

record TunServiceConfig =
  tc_Name :: string
  tc_Address :: string
  tc_MTU :: nat
  tc_AutoRoute :: bool
  tc_RouteAll :: bool
  tc_StrictRoute :: bool
  tc_Stack :: string
  tc_UDPTimeout :: int
  tc_UDPMaxFlows :: int
  tc_DNSHijack :: bool
  tc_FakeIP :: bool
  tc_FakeIPRange :: string
  tc_ControlServerHost :: string
  tc_RouteAddresses :: "(ip \<times> nat) list"
  tc_OutboundInterface :: string
  tc_SystemDNS :: bool

definition tun_defaults :: "TunServiceConfig \<Rightarrow> TunServiceConfig" where
  "tun_defaults c = c\<lparr>tc_Name := if tc_Name c = [] then ''ZJU-Portal'' else tc_Name c,
     tc_Address := if tc_Address c = [] then ''172.19.0.1/30'' else tc_Address c,
     tc_MTU := if tc_MTU c = 0 then 1400 else tc_MTU c,
     tc_Stack := if tc_Stack c = [] then ''auto'' else tc_Stack c,
     tc_UDPTimeout := if tc_UDPTimeout c \<le> 0 then 60000000000 else tc_UDPTimeout c,
     tc_UDPMaxFlows := if tc_UDPMaxFlows c \<le> 0 then 512 else tc_UDPMaxFlows c\<rparr>"

definition tun_fake_defaults :: "TunServiceConfig \<Rightarrow> TunServiceConfig" where
  "tun_fake_defaults c = c\<lparr>tc_DNSHijack := True, tc_FakeIPRange := if tc_FakeIPRange c = [] then defaultTUNFakeIPRange else tc_FakeIPRange c\<rparr>"

text \<open>\<^verbatim>\<open>Addr.Next\<close> of an IPv4 address.\<close>

definition addr_Next :: "ip \<Rightarrow> ip option" where
  "addr_Next a = (if addrToUint32 a = 0xFFFFFFFF then None else Some (uint32ToAddr (addrToUint32 a + 1)))"

definition tunDNSServerAddress :: "ip \<times> nat \<Rightarrow> ip result" where
  "tunDNSServerAddress prefix =
     (if length (fst prefix) \<noteq> 4 then Inl (Opaque ''TUN DNS hijack requires an IPv4 TUN address'')
      else
        let base = fst (Masked prefix);
            candidate = (case addr_Next base of
                None \<Rightarrow> None
              | Some c \<Rightarrow> if c = fst prefix then addr_Next c else Some c)
        in case candidate of
             None \<Rightarrow> Inl (Opaque (''TUN address '' @ prefix_string prefix @ '' has no peer address for system DNS''))
           | Some c \<Rightarrow>
               if \<not> prefix_contains prefix c
               then Inl (Opaque (''TUN address '' @ prefix_string prefix @ '' has no peer address for system DNS''))
               else Inr c)"

section \<open>State\<close>

text \<open>The part of \<^verbatim>\<open>tun.Options\<close> that the service sets from its configuration.\<close>

record tunOptions =
  to_Name :: string
  to_MTU :: nat
  to_Inet4Address :: "(ip \<times> nat) list"
  to_AutoRoute :: bool
  to_StrictRoute :: bool
  to_Inet4RouteAddress :: "(ip \<times> nat) list"
  to_IPRoute2TableIndex :: nat
  to_EXP_DisableDNSHijack :: bool
  to_DNSServers :: "ip list"

definition no_options :: tunOptions where
  "no_options = \<lparr> to_Name = [], to_MTU = 0, to_Inet4Address = [], to_AutoRoute = False, to_StrictRoute = False, to_Inet4RouteAddress = [],
     to_IPRoute2TableIndex = 0, to_EXP_DisableDNSHijack = False, to_DNSServers = [] \<rparr>"

datatype tun_object = TObject_None | TObject_Open | TObject_Closed

record tun_world =
  tw_device :: tun_object
  tw_stack :: tun_object
  tw_network :: tun_object
  tw_interface :: tun_object
  tw_routes :: "(ip \<times> nat) list"
  tw_misused :: bool
  tw_restoreFailed :: bool
  tw_applyFailed :: bool

text \<open>What is still to be done by a goroutine that cleans up: \<open>CloseMonitors\<close> has the monitors that \<^verbatim>\<open>closeMonitors\<close> took out of the service.\<close>

datatype cleanup_action = RestoreDNS | CloseStack | CloseDevice | TakeMonitors | CloseMonitors bool bool

datatype start_pc =
    StartIdle
  | StartDevice tunOptions
  | StartNewStack
  | StartStack
  | StartDNS
  | StartInstall
  | StartCleanup "cleanup_action list" gerror
  | StartReturned "gerror option"

datatype close_pc = CloseIdle | CloseStarted | CloseCleanup "cleanup_action list" "gerror option list" | CloseDone

record 'd tunService =
  ts_config :: TunServiceConfig
  ts_device :: bool
  ts_stack :: bool
  ts_routeOptions :: tunOptions
  ts_network :: bool
  ts_interface :: bool
  ts_addr :: "string option"
  ts_closed :: bool
  ts_closeErr :: "gerror option"
  ts_closeDone :: bool
  ts_runErr :: "gerror option"
  ts_done :: bool
  ts_fakeIPs :: "fakeIPStore option"
  ts_systemDNS :: bool
  ts_dnsServer :: string
  ts_start :: start_pc
  ts_close :: close_pc
  ts_dns :: 'd
  ts_world :: tun_world

definition empty_world :: tun_world where
  "empty_world = \<lparr> tw_device = TObject_None, tw_stack = TObject_None, tw_network = TObject_None, tw_interface = TObject_None, tw_routes = [],
     tw_misused = False, tw_restoreFailed = False, tw_applyFailed = False \<rparr>"

text \<open>\<open>platform\<close>: whether the platform has a controller for the system's DNS.\<close>

definition newTUNService :: "bool \<Rightarrow> 'd \<Rightarrow> TunServiceConfig \<Rightarrow> 'd tunService result" where
  "newTUNService platform dns c0 =
     (let c1 = tun_defaults c0 in
      if tc_FakeIP c1 \<and> \<not> tc_AutoRoute c1 then Inl (Opaque ''TUN fake IP requires auto route'')
      else
        let c2 = (if tc_FakeIP c1 then tun_fake_defaults c1 else c1) in
        case ParsePrefix (tc_Address c2) of
          None \<Rightarrow> Inl (Opaque (''parse TUN address '' @ quote (tc_Address c2)))
        | Some prefix \<Rightarrow>
            if tc_DNSHijack c2 \<and> \<not> tc_AutoRoute c2 then Inl (Opaque ''TUN DNS hijack requires auto route'')
            else rbind (if tc_DNSHijack c2 then rbind (tunDNSServerAddress prefix) (\<lambda>a. Inr (IP_String a)) else Inr []) (\<lambda>dnsServer.
              let c3 = (if tc_DNSHijack c2 \<and> \<not> tc_SystemDNS c2 then c2\<lparr>tc_SystemDNS := platform\<rparr> else c2) in
              rbind (if tc_FakeIP c3 then rbind (newFakeIPStore (tc_FakeIPRange c3)) (\<lambda>fs. Inr (Some fs)) else Inr None) (\<lambda>fakeIPs.
                Inr \<lparr> ts_config = c3, ts_device = False, ts_stack = False, ts_routeOptions = no_options, ts_network = False, ts_interface = False,
                      ts_addr = None, ts_closed = False, ts_closeErr = None, ts_closeDone = False, ts_runErr = None, ts_done = False,
                      ts_fakeIPs = fakeIPs, ts_systemDNS = tc_SystemDNS c3, ts_dnsServer = dnsServer, ts_start = StartIdle, ts_close = CloseIdle,
                      ts_dns = dns, ts_world = empty_world \<rparr>)))"

section \<open>Routes\<close>

definition routeAddressesFor :: "'d tunService \<Rightarrow> (ip \<times> nat) list \<Rightarrow> (ip \<times> nat) list" where
  "routeAddressesFor s addresses =
     (if addresses = [] \<or> \<not> tc_DNSHijack (ts_config s) then addresses
      else case ParseAddr (ts_dnsServer s) of
          None \<Rightarrow> addresses
        | Some dnsAddress \<Rightarrow>
            if list_ex (\<lambda>route. prefix_contains route dnsAddress) addresses then addresses
            else addresses @ [(dnsAddress, 8 * length dnsAddress)])"

definition tun_options :: "(string \<Rightarrow> string) \<Rightarrow> 'd tunService \<Rightarrow> ip \<times> nat \<Rightarrow> tunOptions result" where
  "tun_options interfaceName s prefix =
     (let c = ts_config s;
          options = \<lparr> to_Name = interfaceName (tc_Name c), to_MTU = tc_MTU c, to_Inet4Address = [prefix], to_AutoRoute = tc_AutoRoute c,
            to_StrictRoute = tc_StrictRoute c, to_Inet4RouteAddress = routeAddressesFor s (tc_RouteAddresses c), to_IPRoute2TableIndex = 1898,
            to_EXP_DisableDNSHijack = (\<not> tc_DNSHijack c), to_DNSServers = [] \<rparr>
      in if tc_DNSHijack c then
           (case ParseAddr (ts_dnsServer s) of
              None \<Rightarrow> Inl (Opaque (''parse TUN DNS server '' @ quote (ts_dnsServer s)))
            | Some a \<Rightarrow> Inr (options\<lparr>to_DNSServers := [a]\<rparr>))
         else Inr options)"

definition signal_done :: "'d tunService \<Rightarrow> 'd tunService" where
  "signal_done s = s\<lparr>ts_done := True\<rparr>"

text \<open>\<^verbatim>\<open>Close\<close>: the first call starts the goroutine.\<close>

definition request_close :: "'d tunService \<Rightarrow> 'd tunService" where
  "request_close s = (if ts_close s = CloseIdle then s\<lparr>ts_close := CloseStarted\<rparr> else s)"

definition handleDeviceError :: "(gerror \<Rightarrow> bool) \<Rightarrow> gerror \<Rightarrow> 'd tunService \<Rightarrow> 'd tunService" where
  "handleDeviceError expected err s =
     (if ts_closed s \<or> expected err \<or> ts_runErr s \<noteq> None then s
      else request_close (signal_done (s\<lparr>ts_runErr := Some err\<rparr>)))"

text \<open>Every call of the monitored device passes its error on.\<close>

definition monitored_report :: "(gerror \<Rightarrow> bool) \<Rightarrow> gerror option \<Rightarrow> 'd tunService \<Rightarrow> 'd tunService" where
  "monitored_report expected err s = (case err of None \<Rightarrow> s | Some e \<Rightarrow> handleDeviceError expected e s)"

definition use_device :: "tun_world \<Rightarrow> tun_world" where
  "use_device w = w\<lparr>tw_misused := (tw_misused w \<or> tw_device w \<noteq> TObject_Open)\<rparr>"

text \<open>
  \<^verbatim>\<open>UpdateRouteAddresses\<close> up to its last use of the mutex; a device that cannot even take the old routes back is an error of the device,
  which the second component says. \<open>broken\<close> is what a failed change leaves.
\<close>

definition update_routes ::
  "(ip \<times> nat) list \<Rightarrow> gerror option \<Rightarrow> gerror option \<Rightarrow> (ip \<times> nat) list \<Rightarrow> 'd tunService \<Rightarrow> gerror option \<times> gerror option \<times> 'd tunService" where
  "update_routes addresses err rollbackErr broken s =
     (if ts_closed s \<or> \<not> ts_device s then (Some (WrapError ErrorCodeTUNUnavailable ''update TUN resource routes'' False None), None, s)
      else
        let newOptions = (ts_routeOptions s)\<lparr>to_Inet4RouteAddress := routeAddressesFor s addresses\<rparr>;
            w = use_device (ts_world s)
        in case err of
             None \<Rightarrow>
               (None, None, s\<lparr>ts_routeOptions := newOptions, ts_config := (ts_config s)\<lparr>tc_RouteAddresses := addresses\<rparr>,
                  ts_world := w\<lparr>tw_routes := to_Inet4RouteAddress newOptions\<rparr>\<rparr>)
           | Some e \<Rightarrow>
               (case rollbackErr of
                  Some e2 \<Rightarrow>
                    (let combined = the (errors_Join [Some e, Some (errorf ''restore previous TUN routes'' e2)]) in
                     (Some (WrapError ErrorCodeTUNUnavailable ''update TUN resource routes'' False (Some combined)), Some combined,
                      s\<lparr>ts_world := w\<lparr>tw_routes := broken\<rparr>\<rparr>))
                | None \<Rightarrow>
                    (Some (WrapError ErrorCodeRouteSetupFailed ''update TUN resource routes'' True (Some e)), None,
                     s\<lparr>ts_world := w\<lparr>tw_routes := to_Inet4RouteAddress (ts_routeOptions s)\<rparr>\<rparr>)))"

definition UpdateRouteAddresses ::
  "(gerror \<Rightarrow> bool) \<Rightarrow> (ip \<times> nat) list \<Rightarrow> gerror option \<Rightarrow> gerror option \<Rightarrow> (ip \<times> nat) list \<Rightarrow> 'd tunService \<Rightarrow> gerror option \<times> 'd tunService" where
  "UpdateRouteAddresses expected addresses err rollbackErr broken s =
     (case update_routes addresses err rollbackErr broken s of
        (result, deviceErr, s1) \<Rightarrow> (result, case deviceErr of None \<Rightarrow> s1 | Some e \<Rightarrow> handleDeviceError expected e s1))"

definition tunStackName :: "string \<Rightarrow> string \<Rightarrow> string" where
  "tunStackName automatic configured = (if configured = [] \<or> configured = ''auto'' then automatic else configured)"

section \<open>Starting\<close>

text \<open>The error of the \<open>i\<close>-th call of a step.\<close>

definition outcome :: "gerror option list \<Rightarrow> nat \<Rightarrow> gerror option" where
  "outcome es i = (if i < length es then es ! i else None)"

text \<open>What a failed call of \<^verbatim>\<open>createDevice\<close> returns, and the monitors that exist by then and are closed again.\<close>

definition device_failure :: "gerror option list \<Rightarrow> (gerror \<times> bool \<times> bool) option" where
  "device_failure es =
     (case (outcome es 0, outcome es 1, outcome es 2, outcome es 3, outcome es 4, outcome es 5) of
        (Some e, _) \<Rightarrow> Some (errorf ''initialize TUN interface finder'' e, False, False)
      | (None, Some e, _) \<Rightarrow> Some (errorf ''create TUN network monitor'' e, False, False)
      | (None, None, Some e, _) \<Rightarrow> Some (errorf ''start TUN network monitor'' e, True, False)
      | (None, None, None, Some e, _) \<Rightarrow> Some (errorf ''create TUN interface monitor'' e, True, False)
      | (None, None, None, None, Some e, _) \<Rightarrow> Some (errorf ''start TUN interface monitor'' e, True, True)
      | (None, None, None, None, None, Some e) \<Rightarrow> Some (e, True, True)
      | _ \<Rightarrow> None)"

definition createDevice :: "gerror option list \<Rightarrow> tunOptions \<Rightarrow> 'd tunService \<Rightarrow> gerror option \<times> 'd tunService" where
  "createDevice es options s =
     (let w = ts_world s in
      case device_failure es of
        Some (e, network, interface) \<Rightarrow>
          (Some e, s\<lparr>ts_world := w\<lparr>tw_network := if network then TObject_Closed else tw_network w,
             tw_interface := if interface then TObject_Closed else tw_interface w\<rparr>\<rparr>)
      | None \<Rightarrow>
          (None, s\<lparr>ts_routeOptions := options, ts_network := True, ts_interface := True,
             ts_world := w\<lparr>tw_network := TObject_Open, tw_interface := TObject_Open, tw_device := TObject_Open\<rparr>\<rparr>))"

text \<open>The beginning of \<^verbatim>\<open>start\<close>, up to the new device. The address was parsed before, when the service was made.\<close>

definition start_device :: "(string \<Rightarrow> string) \<Rightarrow> gerror option \<Rightarrow> gerror option list \<Rightarrow> 'd tunService \<Rightarrow> 'd tunService" where
  "start_device interfaceName ctxErr es s =
     (case ctxErr of
        Some e \<Rightarrow> s\<lparr>ts_start := StartReturned (Some e)\<rparr>
      | None \<Rightarrow>
          (let prefix = (case ParsePrefix (tc_Address (ts_config s)) of None \<Rightarrow> ([], 0) | Some p \<Rightarrow> p) in
           case tun_options interfaceName s prefix of
             Inl e \<Rightarrow> s\<lparr>ts_start := StartReturned (Some e)\<rparr>
           | Inr options \<Rightarrow>
               (case createDevice es options s of
                  (Some e, s1) \<Rightarrow> s1\<lparr>ts_start := StartReturned (Some (errorf ''create TUN device'' e))\<rparr>
                | (None, s1) \<Rightarrow> s1\<lparr>ts_start := StartDevice options\<rparr>)))"

definition start_fail :: "cleanup_action list \<Rightarrow> gerror \<Rightarrow> 'd tunService \<Rightarrow> 'd tunService" where
  "start_fail todo err s = s\<lparr>ts_start := StartCleanup todo err\<rparr>"

text \<open>The last part: a service that was closed meanwhile takes everything down again.\<close>

definition tun_start_install :: "(string \<Rightarrow> string) \<Rightarrow> 'd tunService \<Rightarrow> 'd tunService" where
  "tun_start_install interfaceName s =
     (if ts_closed s
      then start_fail ((if ts_systemDNS s then [RestoreDNS] else []) @ [CloseStack, CloseDevice, TakeMonitors]) (Sentinel ContextCanceled) s
      else s\<lparr>ts_device := True, ts_stack := True,
             ts_addr := Some (interfaceName (tc_Name (ts_config s)) @ '' '' @
               (case ParsePrefix (tc_Address (ts_config s)) of None \<Rightarrow> ''invalid Prefix'' | Some p \<Rightarrow> prefix_string p)),
             ts_start := StartReturned None\<rparr>)"

definition start_dns :: "'d sysDNS \<Rightarrow> 'd tunService \<Rightarrow> 'd tunService" where
  "start_dns ops s =
     (if \<not> ts_systemDNS s then s\<lparr>ts_start := StartInstall\<rparr>
      else case sy_Apply ops (ts_dnsServer s) (ts_dns s) of
          (None, d) \<Rightarrow> s\<lparr>ts_dns := d, ts_start := StartInstall\<rparr>
        | (Some e, d) \<Rightarrow> start_fail [CloseStack, CloseDevice, TakeMonitors] (errorf ''configure system DNS'' e)
            (s\<lparr>ts_dns := d, ts_world := (ts_world s)\<lparr>tw_applyFailed := True\<rparr>\<rparr>))"

section \<open>Closing\<close>

text \<open>Closing an object, where closing one that is not open would be a mistake.\<close>

definition close_object :: "tun_object \<Rightarrow> tun_world \<Rightarrow> tun_world" where
  "close_object x w = w\<lparr>tw_misused := (tw_misused w \<or> x \<noteq> TObject_Open)\<rparr>"

definition close_monitors :: "bool \<Rightarrow> bool \<Rightarrow> tun_world \<Rightarrow> tun_world" where
  "close_monitors interface network w =
     (let w1 = (if interface then (close_object (tw_interface w) w)\<lparr>tw_interface := TObject_Closed\<rparr> else w)
      in if network then (close_object (tw_network w1) w1)\<lparr>tw_network := TObject_Closed\<rparr> else w1)"

text \<open>One action of a clean-up: what it leads to, the error it gives and the new state. \<open>err\<close> is what the object's \<^verbatim>\<open>Close\<close> returns.\<close>

fun cleanup_step :: "'d sysDNS \<Rightarrow> gerror option \<Rightarrow> cleanup_action \<Rightarrow> 'd tunService \<Rightarrow> cleanup_action list \<times> gerror option \<times> 'd tunService" where
  "cleanup_step ops err RestoreDNS s =
     (case sy_Restore ops (ts_dns s) of
        (e, d) \<Rightarrow> ([], e, s\<lparr>ts_dns := d, ts_world := (ts_world s)\<lparr>tw_restoreFailed := (tw_restoreFailed (ts_world s) \<or> e \<noteq> None)\<rparr>\<rparr>))"
| "cleanup_step ops err CloseStack s =
     ([], err, s\<lparr>ts_world := (close_object (tw_stack (ts_world s)) (ts_world s))\<lparr>tw_stack := TObject_Closed\<rparr>\<rparr>)"
| "cleanup_step ops err CloseDevice s =
     ([], err, s\<lparr>ts_world := (close_object (tw_device (ts_world s)) (ts_world s))\<lparr>tw_device := TObject_Closed\<rparr>\<rparr>)"
| "cleanup_step ops err TakeMonitors s =
     ([CloseMonitors (ts_interface s) (ts_network s)], None, s\<lparr>ts_interface := False, ts_network := False\<rparr>)"
| "cleanup_step ops err (CloseMonitors interface network) s =
     ([], if interface \<or> network then err else None, s\<lparr>ts_world := close_monitors interface network (ts_world s)\<rparr>)"

text \<open>The next step of the goroutine that starts; \<open>es\<close> are the errors of its calls.\<close>

definition start_step :: "'d sysDNS \<Rightarrow> (string \<Rightarrow> string) \<Rightarrow> gerror option list \<Rightarrow> 'd tunService \<Rightarrow> 'd tunService" where
  "start_step ops interfaceName es s =
     (case ts_start s of
        StartIdle \<Rightarrow> start_device interfaceName (outcome es 6) es s
      | StartDevice options \<Rightarrow>
          (case outcome es 0 of
             Some e \<Rightarrow> start_fail [CloseDevice, TakeMonitors] (errorf ''start TUN device'' e) s
           | None \<Rightarrow> s\<lparr>ts_routeOptions := if to_Name (ts_routeOptions s) = [] then options else ts_routeOptions s,
                        ts_world := (ts_world s)\<lparr>tw_routes := to_Inet4RouteAddress options\<rparr>, ts_start := StartNewStack\<rparr>)
      | StartNewStack \<Rightarrow>
          (case outcome es 0 of
             Some e \<Rightarrow> start_fail [CloseDevice, TakeMonitors] (errorf ''create TUN stack'' e) s
           | None \<Rightarrow> s\<lparr>ts_world := (ts_world s)\<lparr>tw_stack := TObject_Open\<rparr>, ts_start := StartStack\<rparr>)
      | StartStack \<Rightarrow>
          (case outcome es 0 of
             Some e \<Rightarrow> start_fail [CloseStack, CloseDevice, TakeMonitors] (errorf ''start TUN stack'' e) s
           | None \<Rightarrow> s\<lparr>ts_start := StartDNS\<rparr>)
      | StartDNS \<Rightarrow> start_dns ops s
      | StartInstall \<Rightarrow> tun_start_install interfaceName s
      | StartCleanup [] e \<Rightarrow> s\<lparr>ts_start := StartReturned (Some e)\<rparr>
      | StartCleanup (x # todo) e \<Rightarrow>
          (case cleanup_step ops (outcome es 0) x s of (now, _, s1) \<Rightarrow> s1\<lparr>ts_start := StartCleanup (now @ todo) e\<rparr>)
      | StartReturned r \<Rightarrow> s)"

text \<open>The next step of the goroutine that closes.\<close>

definition tun_close_begin :: "'d tunService \<Rightarrow> 'd tunService" where
  "tun_close_begin s = s\<lparr>ts_closed := True, ts_addr := None,
     ts_close := CloseCleanup ((if ts_systemDNS s then [RestoreDNS] else []) @ (if ts_stack s then [CloseStack] else [])
        @ (if ts_device s then [CloseDevice] else []) @ [TakeMonitors]) []\<rparr>"

definition close_step :: "'d sysDNS \<Rightarrow> gerror option \<Rightarrow> 'd tunService \<Rightarrow> 'd tunService" where
  "close_step ops err s =
     (case ts_close s of
        CloseIdle \<Rightarrow> s
      | CloseStarted \<Rightarrow> tun_close_begin s
      | CloseCleanup [] errs \<Rightarrow> (signal_done (s\<lparr>ts_closeErr := errors_Join errs\<rparr>))\<lparr>ts_closeDone := True, ts_close := CloseDone\<rparr>
      | CloseCleanup (x # todo) errs \<Rightarrow>
          (case cleanup_step ops err x s of (now, e, s1) \<Rightarrow> s1\<lparr>ts_close := CloseCleanup (now @ todo) (errs @ [e])\<rparr>)
      | CloseDone \<Rightarrow> s)"

text \<open>\<^verbatim>\<open>Close\<close> returns when the goroutine has ended, or with the error of its context.\<close>

definition service_Close :: "gerror option \<Rightarrow> 'd tunService \<Rightarrow> gerror option option \<times> 'd tunService" where
  "service_Close ctxErr s =
     (let s1 = request_close s in
      (if ts_closeDone s1 then Some (ts_closeErr s1) else case ctxErr of Some e \<Rightarrow> Some (Some e) | None \<Rightarrow> None, s1))"

section \<open>Everything that can happen\<close>

datatype tun_op =
    TunStart "gerror option list"
  | TunCloseRequest
  | TunClose "gerror option"
  | TunDeviceError gerror
  | TunUpdate "(ip \<times> nat) list" "gerror option" "gerror option" "(ip \<times> nat) list"

primrec tun_step :: "'d sysDNS \<Rightarrow> (string \<Rightarrow> string) \<Rightarrow> (gerror \<Rightarrow> bool) \<Rightarrow> 'd tunService \<Rightarrow> tun_op \<Rightarrow> 'd tunService" where
  "tun_step ops interfaceName expected s (TunStart es) = start_step ops interfaceName es s"
| "tun_step ops interfaceName expected s TunCloseRequest = request_close s"
| "tun_step ops interfaceName expected s (TunClose err) = close_step ops err s"
| "tun_step ops interfaceName expected s (TunDeviceError e) = handleDeviceError expected e s"
| "tun_step ops interfaceName expected s (TunUpdate addresses err rollbackErr broken) = snd (snd (update_routes addresses err rollbackErr broken s))"

section \<open>Who closes what\<close>

fun is_starting :: "start_pc \<Rightarrow> bool" where
  "is_starting (StartDevice _) = True" | "is_starting StartNewStack = True" | "is_starting StartStack = True" | "is_starting StartDNS = True"
| "is_starting StartInstall = True" | "is_starting _ = False"

fun has_stack :: "start_pc \<Rightarrow> bool" where
  "has_stack StartStack = True" | "has_stack StartDNS = True" | "has_stack StartInstall = True" | "has_stack _ = False"

fun start_todo :: "start_pc \<Rightarrow> cleanup_action list" where
  "start_todo (StartCleanup l _) = l" | "start_todo _ = []"

fun close_todo :: "close_pc \<Rightarrow> cleanup_action list" where
  "close_todo (CloseCleanup l _) = l" | "close_todo _ = []"

fun close_begun :: "close_pc \<Rightarrow> bool" where
  "close_begun (CloseCleanup _ _) = True" | "close_begun CloseDone = True" | "close_begun _ = False"

fun takes_network :: "cleanup_action \<Rightarrow> bool" where
  "takes_network (CloseMonitors _ n) = n" | "takes_network _ = False"

fun takes_interface :: "cleanup_action \<Rightarrow> bool" where
  "takes_interface (CloseMonitors i _) = i" | "takes_interface _ = False"

definition todo :: "'d tunService \<Rightarrow> cleanup_action list" where
  "todo s = start_todo (ts_start s) @ close_todo (ts_close s)"

definition pending :: "(cleanup_action \<Rightarrow> bool) \<Rightarrow> 'd tunService \<Rightarrow> nat" where
  "pending P s = length (filter P (todo s))"

text \<open>The goroutines and the service that hold an object; an open object has exactly one of them, and it will close it.\<close>

definition device_owners :: "'d tunService \<Rightarrow> nat" where
  "device_owners s = of_bool (is_starting (ts_start s)) + pending ((=) CloseDevice) s + of_bool (ts_device s \<and> \<not> close_begun (ts_close s))"

definition stack_owners :: "'d tunService \<Rightarrow> nat" where
  "stack_owners s = of_bool (has_stack (ts_start s)) + pending ((=) CloseStack) s + of_bool (ts_device s \<and> \<not> close_begun (ts_close s))"

definition network_owners :: "'d tunService \<Rightarrow> nat" where
  "network_owners s = pending takes_network s + of_bool (ts_network s)"

definition interface_owners :: "'d tunService \<Rightarrow> nat" where
  "interface_owners s = pending takes_interface s + of_bool (ts_interface s)"

definition objects_inv :: "'d tunService \<Rightarrow> bool" where
  "objects_inv s \<longleftrightarrow>
     device_owners s = of_bool (tw_device (ts_world s) = TObject_Open)
   \<and> stack_owners s = of_bool (tw_stack (ts_world s) = TObject_Open)
   \<and> network_owners s = of_bool (tw_network (ts_world s) = TObject_Open)
   \<and> interface_owners s = of_bool (tw_interface (ts_world s) = TObject_Open)
   \<and> \<not> tw_misused (ts_world s)
   \<and> (ts_start s = StartIdle \<longrightarrow> tw_device (ts_world s) = TObject_None \<and> tw_network (ts_world s) = TObject_None \<and> tw_interface (ts_world s) = TObject_None)
   \<and> (\<not> has_stack (ts_start s) \<and> (ts_start s = StartIdle \<or> is_starting (ts_start s)) \<longrightarrow> tw_stack (ts_world s) = TObject_None)"

text \<open>Installed monitors and applied settings have someone who takes them down.\<close>

definition will_close :: "'d tunService \<Rightarrow> bool" where
  "will_close s \<longleftrightarrow> ts_start s = StartReturned None \<and> ts_device s \<and> \<not> close_begun (ts_close s)"

definition flags_inv :: "'d tunService \<Rightarrow> bool" where
  "flags_inv s \<longleftrightarrow>
     (ts_network s \<or> ts_interface s \<longrightarrow> is_starting (ts_start s) \<or> TakeMonitors \<in> set (todo s) \<or> will_close s)
   \<and> (ts_device s \<longleftrightarrow> ts_stack s) \<and> (ts_device s \<longrightarrow> ts_start s = StartReturned None) \<and> (ts_start s = StartReturned None \<longrightarrow> ts_device s)
   \<and> (ts_closed s \<longleftrightarrow> close_begun (ts_close s)) \<and> (ts_closed s \<longrightarrow> ts_addr s = None)
   \<and> (ts_addr s \<noteq> None \<longrightarrow> ts_device s)
   \<and> (ts_closeDone s \<longleftrightarrow> ts_close s = CloseDone) \<and> (ts_closeDone s \<longrightarrow> ts_done s)
   \<and> (ts_runErr s \<noteq> None \<longrightarrow> ts_done s \<and> ts_close s \<noteq> CloseIdle)"

definition dns_inv :: "('d \<Rightarrow> bool) \<Rightarrow> ('d \<Rightarrow> bool) \<Rightarrow> string \<Rightarrow> 'd tunService \<Rightarrow> bool" where
  "dns_inv ok held server s \<longleftrightarrow> ok (ts_dns s) \<and> ts_dnsServer s = server
   \<and> (held (ts_dns s) \<longrightarrow> tw_restoreFailed (ts_world s) \<or>
        (ts_systemDNS s \<and> (ts_start s = StartInstall \<or> RestoreDNS \<in> set (todo s) \<or> will_close s)))"

lemmas tun_owner_defs = device_owners_def stack_owners_def network_owners_def interface_owners_def pending_def todo_def

lemmas tun_start_defs = start_step_def start_device_def createDevice_def start_fail_def tun_start_install_def start_dns_def

lemma cleanup_frame:
  "cleanup_step ops err x s = (now, e, s1) \<Longrightarrow>
   ts_start s1 = ts_start s \<and> ts_close s1 = ts_close s \<and> ts_device s1 = ts_device s \<and> ts_stack s1 = ts_stack s \<and> ts_closed s1 = ts_closed s
   \<and> ts_addr s1 = ts_addr s \<and> ts_closeDone s1 = ts_closeDone s \<and> ts_done s1 = ts_done s \<and> ts_runErr s1 = ts_runErr s \<and> ts_systemDNS s1 = ts_systemDNS s
   \<and> ts_dnsServer s1 = ts_dnsServer s \<and> ts_config s1 = ts_config s"
  by (cases x) (auto split: prod.splits)

text \<open>One action, taken by whichever goroutine has it.\<close>

lemma cleanup_objects:
  assumes "objects_inv s" "cleanup_step ops err x s = (now, e, s1)"
    and "todo s = pre @ x # post" "todo s2 = pre @ now @ post" "ts_start s2 = StartIdle \<longleftrightarrow> ts_start s = StartIdle"
    and "is_starting (ts_start s2) = is_starting (ts_start s)" "has_stack (ts_start s2) = has_stack (ts_start s)"
    and "close_begun (ts_close s2) = close_begun (ts_close s)" "ts_device s2 = ts_device s"
    and "ts_world s2 = ts_world s1" "ts_network s2 = ts_network s1" "ts_interface s2 = ts_interface s1"
  shows "objects_inv s2"
proof -
  have p: "pending P s2 + of_bool (P x) = pending P s + length (filter P now)" for P
    using assms(3,4) by (simp add: pending_def)
  have d: "device_owners s2 + of_bool (x = CloseDevice) = device_owners s + length (filter ((=) CloseDevice) now)"
    using p [of "(=) CloseDevice"] assms(6,8,9) by (simp add: device_owners_def eq_commute [of CloseDevice])
  have k: "stack_owners s2 + of_bool (x = CloseStack) = stack_owners s + length (filter ((=) CloseStack) now)"
    using p [of "(=) CloseStack"] assms(7,8,9) by (simp add: stack_owners_def eq_commute [of CloseStack])
  have n: "network_owners s2 + of_bool (takes_network x) + of_bool (ts_network s) = network_owners s + length (filter takes_network now) + of_bool (ts_network s1)"
    using p [of takes_network] assms(11) by (simp add: network_owners_def)
  have i: "interface_owners s2 + of_bool (takes_interface x) + of_bool (ts_interface s) = interface_owners s + length (filter takes_interface now) + of_bool (ts_interface s1)"
    using p [of takes_interface] assms(12) by (simp add: interface_owners_def)
  show ?thesis
  proof (cases x)
    case RestoreDNS
    obtain e' d' where r: "sy_Restore ops (ts_dns s) = (e', d')" by fastforce
    have q: "now = []" "ts_network s1 = ts_network s" "ts_interface s1 = ts_interface s" "tw_device (ts_world s1) = tw_device (ts_world s)"
      "tw_stack (ts_world s1) = tw_stack (ts_world s)" "tw_network (ts_world s1) = tw_network (ts_world s)"
      "tw_interface (ts_world s1) = tw_interface (ts_world s)" "tw_misused (ts_world s1) = tw_misused (ts_world s)"
      using assms(2) RestoreDNS r by auto
    have "device_owners s2 = device_owners s" "stack_owners s2 = stack_owners s" "network_owners s2 = network_owners s" "interface_owners s2 = interface_owners s"
      using d k n i RestoreDNS q(1-3) by simp_all
    then show ?thesis using assms(1,5-7) q(4-8) unfolding objects_inv_def assms(10) by simp
  next
    case CloseStack
    have q: "now = []" "s1 = s\<lparr>ts_world := (close_object (tw_stack (ts_world s)) (ts_world s))\<lparr>tw_stack := TObject_Closed\<rparr>\<rparr>"
      using assms(2) CloseStack by simp_all
    have w: "device_owners s2 = device_owners s" "Suc (stack_owners s2) = stack_owners s" "network_owners s2 = network_owners s"
      "interface_owners s2 = interface_owners s" using d k n i CloseStack q by simp_all
    then have o: "tw_stack (ts_world s) = TObject_Open" "stack_owners s2 = 0" using assms(1) by (auto simp: objects_inv_def of_bool_def split: if_splits)
    show ?thesis using assms(1,5-7) w(1,3,4) o CloseStack unfolding objects_inv_def assms(10) q(2)
      by (auto simp: close_object_def)
  next
    case CloseDevice
    have q: "now = []" "s1 = s\<lparr>ts_world := (close_object (tw_device (ts_world s)) (ts_world s))\<lparr>tw_device := TObject_Closed\<rparr>\<rparr>"
      using assms(2) CloseDevice by simp_all
    have w: "Suc (device_owners s2) = device_owners s" "stack_owners s2 = stack_owners s" "network_owners s2 = network_owners s"
      "interface_owners s2 = interface_owners s" using d k n i CloseDevice q by simp_all
    then have o: "tw_device (ts_world s) = TObject_Open" "device_owners s2 = 0" using assms(1) by (auto simp: objects_inv_def of_bool_def split: if_splits)
    show ?thesis using assms(1,5-7) w(2,3,4) o unfolding objects_inv_def assms(10) q(2) by (simp add: close_object_def)
  next
    case TakeMonitors
    have q: "now = [CloseMonitors (ts_interface s) (ts_network s)]" "ts_world s1 = ts_world s" "\<not> ts_network s1" "\<not> ts_interface s1"
      using assms(2) TakeMonitors by auto
    have "device_owners s2 = device_owners s" "stack_owners s2 = stack_owners s" "network_owners s2 = network_owners s" "interface_owners s2 = interface_owners s"
      using d k n i TakeMonitors q by (simp_all split: if_splits)
    then show ?thesis using assms(1,5-7) q(2) unfolding objects_inv_def assms(10) by simp
  next
    case (CloseMonitors a b)
    have q: "now = []" "s1 = s\<lparr>ts_world := close_monitors a b (ts_world s)\<rparr>" using assms(2) CloseMonitors by simp_all
    have w: "device_owners s2 = device_owners s" "stack_owners s2 = stack_owners s" "network_owners s2 + of_bool b = network_owners s"
      "interface_owners s2 + of_bool a = interface_owners s" using d k n i CloseMonitors q by simp_all
    have o: "b \<Longrightarrow> tw_network (ts_world s) = TObject_Open" "a \<Longrightarrow> tw_interface (ts_world s) = TObject_Open"
      using w(3,4) assms(1) by (auto simp: objects_inv_def of_bool_def split: if_splits)
    have v: "tw_device (ts_world s2) = tw_device (ts_world s)" "tw_stack (ts_world s2) = tw_stack (ts_world s)"
      "tw_network (ts_world s2) = (if b then TObject_Closed else tw_network (ts_world s))"
      "tw_interface (ts_world s2) = (if a then TObject_Closed else tw_interface (ts_world s))"
      "tw_misused (ts_world s2) = tw_misused (ts_world s)"
      unfolding assms(10) q(2) using o by (simp_all add: close_monitors_def close_object_def Let_def)
    show ?thesis using assms(1,5-7) w o v unfolding objects_inv_def by (cases a; cases b) simp_all
  qed
qed

section \<open>The steps keep the invariant\<close>

text \<open>A step of the start that is no clean-up.\<close>

lemma objects_start_device:
  assumes i: "objects_inv s" and p: "ts_start s = StartIdle"
  shows "objects_inv (start_device interfaceName ctxErr es s)"
proof -
  have z: "device_owners s = 0" "stack_owners s = 0" "network_owners s = 0" "interface_owners s = 0" "tw_stack (ts_world s) = TObject_None"
    "tw_device (ts_world s) = TObject_None" "tw_network (ts_world s) = TObject_None" "tw_interface (ts_world s) = TObject_None" "\<not> tw_misused (ts_world s)"
    using i p by (simp_all add: objects_inv_def)
  then have n: "todo s = close_todo (ts_close s)" "\<not> (ts_device s \<and> \<not> close_begun (ts_close s))" "\<not> ts_network s" "\<not> ts_interface s"
    "filter ((=) CloseDevice) (close_todo (ts_close s)) = []" "filter ((=) CloseStack) (close_todo (ts_close s)) = []"
    "filter takes_network (close_todo (ts_close s)) = []" "filter takes_interface (close_todo (ts_close s)) = []"
    using p by (auto simp: tun_owner_defs split: if_splits)
  have r: "objects_inv (s\<lparr>ts_world := w, ts_start := StartReturned x\<rparr>)"
    if "tw_device w = TObject_None" "tw_stack w = TObject_None" "tw_network w \<noteq> TObject_Open" "tw_interface w \<noteq> TObject_Open" "\<not> tw_misused w" for x w
    using n that by (simp add: objects_inv_def tun_owner_defs)
  have r0: "objects_inv (s\<lparr>ts_start := StartReturned x\<rparr>)" for x using r [of "ts_world s" x] z by simp
  show ?thesis
  proof (cases "\<exists>e. start_device interfaceName ctxErr es s = s\<lparr>ts_start := StartReturned e\<rparr>")
    case True
    then show ?thesis using r0 by auto
  next
    case False
    then obtain options where o: "start_device interfaceName ctxErr es s =
        (case createDevice es options s of
           (Some e, s1) \<Rightarrow> s1\<lparr>ts_start := StartReturned (Some (errorf ''create TUN device'' e))\<rparr>
         | (None, s1) \<Rightarrow> s1\<lparr>ts_start := StartDevice options\<rparr>)"
      by (auto simp: start_device_def Let_def split: option.splits sum.splits)
    show ?thesis
    proof (cases "device_failure es")
      case None
      then show ?thesis unfolding o using n z by (simp add: createDevice_def Let_def objects_inv_def tun_owner_defs)
    next
      case (Some f)
      obtain e a b where "f = (e, a, b)" using prod_cases3 by blast
      then show ?thesis unfolding o using Some r z by (simp add: createDevice_def Let_def)
    qed
  qed
qed

lemma objects_start:
  assumes i: "objects_inv s" and f: "flags_inv s"
  shows "objects_inv (start_step ops interfaceName es s)"
proof (cases "ts_start s")
  case StartIdle
  then show ?thesis using objects_start_device [OF i StartIdle] by (simp add: start_step_def)
next
  case (StartDevice options)
  then show ?thesis using i by (cases "outcome es 0") (simp_all add: start_step_def start_fail_def objects_inv_def tun_owner_defs)
next
  case StartNewStack
  then show ?thesis using i by (cases "outcome es 0") (simp_all add: start_step_def start_fail_def objects_inv_def tun_owner_defs)
next
  case StartStack
  then show ?thesis using i by (cases "outcome es 0") (simp_all add: start_step_def start_fail_def objects_inv_def tun_owner_defs)
next
  case StartDNS
  obtain e d where a: "sy_Apply ops (ts_dnsServer s) (ts_dns s) = (e, d)" by fastforce
  show ?thesis using i StartDNS a by (cases e; cases "ts_systemDNS s") (simp_all add: start_step_def start_dns_def start_fail_def objects_inv_def tun_owner_defs)
next
  case StartInstall
  have "\<not> ts_device s" "ts_closed s = close_begun (ts_close s)" using f StartInstall by (auto simp: flags_inv_def)
  then show ?thesis using i StartInstall
    by (cases "ts_closed s"; cases "ts_systemDNS s") (simp_all add: start_step_def tun_start_install_def start_fail_def objects_inv_def tun_owner_defs)
next
  case (StartCleanup l e)
  show ?thesis
  proof (cases l)
    case Nil
    then show ?thesis using i StartCleanup by (simp add: start_step_def objects_inv_def tun_owner_defs)
  next
    case (Cons x l')
    obtain now e' s1 where c: "cleanup_step ops (outcome es 0) x s = (now, e', s1)" using prod_cases3 by blast
    let ?s2 = "s1\<lparr>ts_start := StartCleanup (now @ l') e\<rparr>"
    have "start_step ops interfaceName es s = ?s2" using StartCleanup Cons c by (simp add: start_step_def)
    moreover have "objects_inv ?s2"
      by (rule cleanup_objects [OF i c, where pre = "[]" and post = "l' @ close_todo (ts_close s)"])
        (use cleanup_frame [OF c] StartCleanup Cons in \<open>simp_all add: todo_def\<close>)
    ultimately show ?thesis by simp
  qed
next
  case (StartReturned r)
  then show ?thesis using i by (simp add: start_step_def)
qed

lemma objects_close:
  assumes i: "objects_inv s" and f: "flags_inv s"
  shows "objects_inv (close_step ops err s)"
proof (cases "ts_close s")
  case CloseStarted
  have "ts_device s = ts_stack s" using f by (auto simp: flags_inv_def)
  then show ?thesis using i CloseStarted
    by (cases "ts_device s"; cases "ts_systemDNS s") (simp_all add: close_step_def tun_close_begin_def objects_inv_def tun_owner_defs)
next
  case (CloseCleanup l errs)
  show ?thesis
  proof (cases l)
    case Nil
    then show ?thesis using i CloseCleanup by (simp add: close_step_def signal_done_def objects_inv_def tun_owner_defs)
  next
    case (Cons x l')
    obtain now e' s1 where c: "cleanup_step ops err x s = (now, e', s1)" using prod_cases3 by blast
    let ?s2 = "s1\<lparr>ts_close := CloseCleanup (now @ l') (errs @ [e'])\<rparr>"
    have "close_step ops err s = ?s2" using CloseCleanup Cons c by (simp add: close_step_def)
    moreover have "objects_inv ?s2"
      by (rule cleanup_objects [OF i c, where pre = "start_todo (ts_start s)" and post = l'])
        (use cleanup_frame [OF c] CloseCleanup Cons in \<open>simp_all add: todo_def\<close>)
    ultimately show ?thesis by simp
  qed
qed (use i in \<open>simp_all add: close_step_def\<close>)

lemma start_device_cases:
  obtains (fails) w e where "start_device interfaceName ctxErr es s = s\<lparr>ts_world := w, ts_start := StartReturned (Some e)\<rparr>"
      "tw_restoreFailed w = tw_restoreFailed (ts_world s)" "tw_applyFailed w = tw_applyFailed (ts_world s)"
  | (device) w options where "start_device interfaceName ctxErr es s =
      s\<lparr>ts_routeOptions := options, ts_network := True, ts_interface := True, ts_world := w, ts_start := StartDevice options\<rparr>"
      "tw_restoreFailed w = tw_restoreFailed (ts_world s)" "tw_applyFailed w = tw_applyFailed (ts_world s)"
proof (cases ctxErr)
  case (Some e)
  then show ?thesis using fails [where w = "ts_world s" and e = e] by (simp add: start_device_def)
next
  case None
  let ?prefix = "case ParsePrefix (tc_Address (ts_config s)) of None \<Rightarrow> ([], 0) | Some p \<Rightarrow> p"
  show ?thesis
  proof (cases "tun_options interfaceName s ?prefix")
    case (Inl e)
    then show ?thesis using None fails [where w = "ts_world s" and e = e] by (simp add: start_device_def Let_def)
  next
    case (Inr options)
    then show ?thesis using None device fails by (cases "device_failure es") (auto simp: start_device_def Let_def createDevice_def)
  qed
qed

lemma cleanup_monitors:
  "cleanup_step ops err x s = (now, e, s1) \<Longrightarrow>
   (ts_network s1 \<or> ts_interface s1 \<longrightarrow> (ts_network s \<or> ts_interface s) \<and> x \<noteq> TakeMonitors) \<and> TakeMonitors \<notin> set now \<and> RestoreDNS \<notin> set now"
  by (cases x) (auto split: prod.splits)

text \<open>A clean-up of either goroutine keeps what it does not take down.\<close>

lemma flags_cleanup:
  assumes f: "flags_inv s" and c: "cleanup_step ops err x s = (now, e, s1)"
    and s2: "ts_start s2 = StartReturned None \<longleftrightarrow> ts_start s = StartReturned None" "is_starting (ts_start s2) = is_starting (ts_start s)"
      "set (todo s) \<subseteq> insert x (set (todo s2))"
      "close_begun (ts_close s2) = close_begun (ts_close s)" "ts_close s2 = CloseDone \<longleftrightarrow> ts_close s = CloseDone"
      "ts_close s2 = CloseIdle \<longleftrightarrow> ts_close s = CloseIdle"
      "ts_network s2 = ts_network s1" "ts_interface s2 = ts_interface s1" "ts_device s2 = ts_device s" "ts_stack s2 = ts_stack s"
      "ts_closed s2 = ts_closed s" "ts_addr s2 = ts_addr s" "ts_closeDone s2 = ts_closeDone s" "ts_done s2 = ts_done s" "ts_runErr s2 = ts_runErr s"
  shows "flags_inv s2"
proof -
  have m: "ts_network s2 \<or> ts_interface s2 \<Longrightarrow> (ts_network s \<or> ts_interface s) \<and> x \<noteq> TakeMonitors" using cleanup_monitors [OF c] s2(7,8) by auto
  have "ts_network s2 \<or> ts_interface s2 \<longrightarrow> is_starting (ts_start s2) \<or> TakeMonitors \<in> set (todo s2) \<or> will_close s2"
  proof
    assume "ts_network s2 \<or> ts_interface s2"
    from m [OF this] have "is_starting (ts_start s) \<or> TakeMonitors \<in> set (todo s) \<or> will_close s" "x \<noteq> TakeMonitors"
      using f by (auto simp: flags_inv_def)
    then show "is_starting (ts_start s2) \<or> TakeMonitors \<in> set (todo s2) \<or> will_close s2"
      using s2(1-4,9) by (auto simp: will_close_def)
  qed
  moreover have "(ts_device s \<longleftrightarrow> ts_stack s) \<and> (ts_device s \<longrightarrow> ts_start s = StartReturned None) \<and> (ts_start s = StartReturned None \<longrightarrow> ts_device s)
   \<and> (ts_closed s \<longleftrightarrow> close_begun (ts_close s)) \<and> (ts_closed s \<longrightarrow> ts_addr s = None) \<and> (ts_addr s \<noteq> None \<longrightarrow> ts_device s)
   \<and> (ts_closeDone s \<longleftrightarrow> ts_close s = CloseDone) \<and> (ts_closeDone s \<longrightarrow> ts_done s)
   \<and> (ts_runErr s \<noteq> None \<longrightarrow> ts_done s \<and> ts_close s \<noteq> CloseIdle)" using f unfolding flags_inv_def by (elim conjE) (intro conjI)
  ultimately show ?thesis unfolding flags_inv_def s2(1,4,5,6,9-15) by (elim conjE) (intro conjI)
qed

lemma flags_start:
  assumes f: "flags_inv s"
  shows "flags_inv (start_step ops interfaceName es s)"
proof (cases "ts_start s")
  case StartIdle
  have e: "start_step ops interfaceName es s = start_device interfaceName (outcome es 6) es s" using StartIdle by (simp add: start_step_def)
  show ?thesis unfolding e
    by (rule start_device_cases [of interfaceName "outcome es 6" es s]) (use f StartIdle in \<open>auto simp: flags_inv_def will_close_def todo_def\<close>)
next
  case (StartDevice options)
  then show ?thesis using f by (cases "outcome es 0") (auto simp: start_step_def start_fail_def flags_inv_def will_close_def todo_def)
next
  case StartNewStack
  then show ?thesis using f by (cases "outcome es 0") (auto simp: start_step_def start_fail_def flags_inv_def will_close_def todo_def)
next
  case StartStack
  then show ?thesis using f by (cases "outcome es 0") (auto simp: start_step_def start_fail_def flags_inv_def will_close_def todo_def)
next
  case StartDNS
  obtain e d where a: "sy_Apply ops (ts_dnsServer s) (ts_dns s) = (e, d)" by fastforce
  show ?thesis using f StartDNS a by (cases e; cases "ts_systemDNS s") (auto simp: start_step_def start_dns_def start_fail_def flags_inv_def will_close_def todo_def)
next
  case StartInstall
  then show ?thesis using f by (cases "ts_closed s") (auto simp: start_step_def tun_start_install_def start_fail_def flags_inv_def will_close_def todo_def)
next
  case (StartCleanup l e)
  show ?thesis
  proof (cases l)
    case Nil
    then show ?thesis using f StartCleanup by (auto simp: start_step_def flags_inv_def will_close_def todo_def)
  next
    case (Cons x l')
    obtain now e' s1 where c: "cleanup_step ops (outcome es 0) x s = (now, e', s1)" using prod_cases3 by blast
    have "start_step ops interfaceName es s = s1\<lparr>ts_start := StartCleanup (now @ l') e\<rparr>" using StartCleanup Cons c by (simp add: start_step_def)
    moreover have "flags_inv (s1\<lparr>ts_start := StartCleanup (now @ l') e\<rparr>)"
      by (rule flags_cleanup [OF f c]) (use cleanup_frame [OF c] StartCleanup Cons in \<open>auto simp: todo_def\<close>)
    ultimately show ?thesis by simp
  qed
next
  case (StartReturned r)
  then show ?thesis using f by (simp add: start_step_def)
qed

lemma flags_close:
  assumes f: "flags_inv s"
  shows "flags_inv (close_step ops err s)"
proof (cases "ts_close s")
  case CloseStarted
  then show ?thesis using f by (auto simp: close_step_def tun_close_begin_def flags_inv_def will_close_def todo_def)
next
  case (CloseCleanup l errs)
  show ?thesis
  proof (cases l)
    case Nil
    then show ?thesis using f CloseCleanup by (auto simp: close_step_def signal_done_def flags_inv_def will_close_def todo_def)
  next
    case (Cons x l')
    obtain now e' s1 where c: "cleanup_step ops err x s = (now, e', s1)" using prod_cases3 by blast
    have "close_step ops err s = s1\<lparr>ts_close := CloseCleanup (now @ l') (errs @ [e'])\<rparr>" using CloseCleanup Cons c by (simp add: close_step_def)
    moreover have "flags_inv (s1\<lparr>ts_close := CloseCleanup (now @ l') (errs @ [e'])\<rparr>)"
      by (rule flags_cleanup [OF f c]) (use cleanup_frame [OF c] CloseCleanup Cons in \<open>auto simp: todo_def\<close>)
    ultimately show ?thesis by simp
  qed
qed (use f in \<open>simp_all add: close_step_def\<close>)

lemma close_monitors_failed [simp]: "tw_restoreFailed (close_monitors a b w) = tw_restoreFailed w" "tw_applyFailed (close_monitors a b w) = tw_applyFailed w"
  by (cases a; cases b) (simp_all add: close_monitors_def close_object_def Let_def)

lemma cleanup_apply: "cleanup_step ops err x s = (now, e, s1) \<Longrightarrow> tw_applyFailed (ts_world s1) = tw_applyFailed (ts_world s)"
  by (cases x) (auto simp: close_object_def split: prod.splits)

lemma cleanup_dns:
  "cleanup_step ops err x s = (now, e, s1) \<Longrightarrow> x \<noteq> RestoreDNS \<Longrightarrow>
   ts_dns s1 = ts_dns s \<and> tw_restoreFailed (ts_world s1) = tw_restoreFailed (ts_world s)"
  by (cases x) (auto simp: close_object_def)

text \<open>The other operations.\<close>

lemma objects_request: "objects_inv s \<Longrightarrow> objects_inv (request_close s)"
  by (cases "ts_close s") (simp_all add: request_close_def objects_inv_def tun_owner_defs)

lemma flags_transfer:
  assumes f: "flags_inv s"
    and e: "ts_start t = ts_start s" "todo t = todo s" "will_close t = will_close s" "ts_network t = ts_network s" "ts_interface t = ts_interface s"
      "ts_device t = ts_device s" "ts_stack t = ts_stack s" "ts_closed t = ts_closed s" "ts_addr t = ts_addr s" "ts_closeDone t = ts_closeDone s"
      "close_begun (ts_close t) = close_begun (ts_close s)" "ts_close t = CloseDone \<longleftrightarrow> ts_close s = CloseDone"
    and d: "ts_done s \<longrightarrow> ts_done t" "ts_runErr t \<noteq> None \<longrightarrow> ts_done t \<and> ts_close t \<noteq> CloseIdle"
  shows "flags_inv t"
  using f d unfolding flags_inv_def e by (elim conjE) (intro conjI; blast)

lemma flags_runErr: "flags_inv s \<Longrightarrow> ts_runErr s \<noteq> None \<longrightarrow> ts_done s \<and> ts_close s \<noteq> CloseIdle"
  by (simp add: flags_inv_def)

lemma flags_request:
  assumes f: "flags_inv s"
  shows "flags_inv (request_close s)"
  by (rule flags_transfer [OF f]) (use flags_runErr [OF f] in \<open>auto simp: request_close_def will_close_def todo_def\<close>)

lemma dns_request: "dns_inv ok held server s \<Longrightarrow> dns_inv ok held server (request_close s)"
  by (cases "ts_close s") (simp_all add: request_close_def dns_inv_def will_close_def todo_def)

lemma device_error_keeps:
  "objects_inv s \<Longrightarrow> objects_inv (handleDeviceError expected e s)"
  "flags_inv s \<Longrightarrow> flags_inv (handleDeviceError expected e s)"
  "dns_inv ok held server s \<Longrightarrow> dns_inv ok held server (handleDeviceError expected e s)"
proof -
  let ?s = "signal_done (s\<lparr>ts_runErr := Some e\<rparr>)"
  have h: "handleDeviceError expected e s = s \<or> handleDeviceError expected e s = request_close ?s" by (simp add: handleDeviceError_def)
  have o: "objects_inv ?s = objects_inv s" by (simp add: signal_done_def objects_inv_def tun_owner_defs)
  have d: "dns_inv ok held server ?s = dns_inv ok held server s" by (simp add: signal_done_def dns_inv_def will_close_def todo_def)
  have f: "flags_inv s \<Longrightarrow> flags_inv (request_close ?s)"
    by (erule flags_transfer) (auto simp: request_close_def signal_done_def will_close_def todo_def)
  show "objects_inv s \<Longrightarrow> objects_inv (handleDeviceError expected e s)" using h objects_request [of ?s] o by metis
  show "dns_inv ok held server s \<Longrightarrow> dns_inv ok held server (handleDeviceError expected e s)" using h dns_request [of ok held server ?s] d by metis
  show "flags_inv s \<Longrightarrow> flags_inv (handleDeviceError expected e s)" using h f by metis
qed

text \<open>The routes are changed only while the device is open.\<close>

lemma update_cases:
  obtains "snd (snd (update_routes addresses err rollbackErr broken s)) = s"
  | c o' r where "\<not> ts_closed s" "ts_device s" "snd (snd (update_routes addresses err rollbackErr broken s)) =
      s\<lparr>ts_config := c, ts_routeOptions := o', ts_world := (use_device (ts_world s))\<lparr>tw_routes := r\<rparr>\<rparr>"
proof (cases "ts_closed s \<or> \<not> ts_device s")
  case True
  then show ?thesis using that(1) by (simp add: update_routes_def)
next
  case False
  show ?thesis
    by (rule that(2) [where c = "case err of None \<Rightarrow> (ts_config s)\<lparr>tc_RouteAddresses := addresses\<rparr> | Some _ \<Rightarrow> ts_config s"
        and o' = "case err of None \<Rightarrow> (ts_routeOptions s)\<lparr>to_Inet4RouteAddress := routeAddressesFor s addresses\<rparr> | Some _ \<Rightarrow> ts_routeOptions s"
        and r = "case err of None \<Rightarrow> routeAddressesFor s addresses
          | Some _ \<Rightarrow> (case rollbackErr of Some _ \<Rightarrow> broken | None \<Rightarrow> to_Inet4RouteAddress (ts_routeOptions s))"])
      (use False in \<open>auto simp: update_routes_def Let_def split: option.splits\<close>)
qed

lemma update_keeps:
  fixes addresses broken :: "(ip \<times> nat) list" and err rollbackErr :: "gerror option"
  assumes "objects_inv s" "flags_inv s" "dns_inv ok held server s"
  defines "s' \<equiv> snd (snd (update_routes addresses err rollbackErr broken s))"
  shows "objects_inv s' \<and> flags_inv s' \<and> dns_inv ok held server s'"
proof (rule update_cases [of addresses err rollbackErr broken s])
  assume "snd (snd (update_routes addresses err rollbackErr broken s)) = s"
  then show ?thesis using assms by (simp add: s'_def)
next
  fix c o' r assume u: "\<not> ts_closed s" "ts_device s" "snd (snd (update_routes addresses err rollbackErr broken s)) =
      s\<lparr>ts_config := c, ts_routeOptions := o', ts_world := (use_device (ts_world s))\<lparr>tw_routes := r\<rparr>\<rparr>"
  have "\<not> close_begun (ts_close s)" using assms(2) u(1) by (simp add: flags_inv_def)
  then have "0 < device_owners s" using u(2) by (simp add: device_owners_def)
  then have o: "tw_device (ts_world s) = TObject_Open" using assms(1) by (cases "tw_device (ts_world s)") (simp_all add: objects_inv_def)
  have e: "s' = s\<lparr>ts_config := c, ts_routeOptions := o', ts_world := (use_device (ts_world s))\<lparr>tw_routes := r\<rparr>\<rparr>" using u(3) by (simp add: s'_def)
  have "objects_inv s'" using assms(1) o unfolding e by (simp add: objects_inv_def tun_owner_defs use_device_def)
  moreover have "flags_inv s'" unfolding e
    by (rule flags_transfer [OF assms(2)]) (use flags_runErr [OF assms(2)] in \<open>simp_all add: will_close_def todo_def\<close>)
  moreover have "dns_inv ok held server s'" using assms(3) unfolding e by (simp add: dns_inv_def will_close_def todo_def use_device_def)
  ultimately show ?thesis by blast
qed

section \<open>The system's DNS\<close>

definition tun_inv :: "('d \<Rightarrow> bool) \<Rightarrow> ('d \<Rightarrow> bool) \<Rightarrow> string \<Rightarrow> 'd tunService \<Rightarrow> bool" where
  "tun_inv ok held server s \<longleftrightarrow> objects_inv s \<and> flags_inv s \<and> dns_inv ok held server s"

context dns_controller
begin

lemma dns_cleanup:
  assumes i: "dns_inv ok held server s" and c: "cleanup_step ops err x s = (now, e, s1)"
    and s2: "ts_dns s2 = ts_dns s1" "ts_world s2 = ts_world s1" "ts_dnsServer s2 = ts_dnsServer s" "ts_systemDNS s2 = ts_systemDNS s"
      "ts_start s2 = StartInstall \<longleftrightarrow> ts_start s = StartInstall" "set (todo s) \<subseteq> insert x (set (todo s2))" "will_close s2 = will_close s"
  shows "dns_inv ok held server s2"
proof (cases "x = RestoreDNS")
  case True
  obtain e' d where r: "sy_Restore ops (ts_dns s) = (e', d)" by fastforce
  have k: "ok d" using restore_ok [of "ts_dns s"] i r by (simp add: dns_inv_def)
  have "held d \<Longrightarrow> e' \<noteq> None" using restore_done [of "ts_dns s" d] i r by (auto simp: dns_inv_def)
  moreover have "ts_dns s1 = d" "tw_restoreFailed (ts_world s1) \<longleftrightarrow> tw_restoreFailed (ts_world s) \<or> e' \<noteq> None" using c True r by auto
  ultimately show ?thesis using i k s2(1-3) by (auto simp: dns_inv_def)
next
  case False
  show ?thesis using i cleanup_dns [OF c False] s2 False by (auto simp: dns_inv_def)
qed

lemma dns_start_step:
  assumes i: "dns_inv ok held server s" and f: "flags_inv s"
  shows "dns_inv ok held server (start_step ops interfaceName es s)"
proof (cases "ts_start s")
  case StartIdle
  have e: "start_step ops interfaceName es s = start_device interfaceName (outcome es 6) es s" using StartIdle by (simp add: start_step_def)
  show ?thesis unfolding e
    by (rule start_device_cases [of interfaceName "outcome es 6" es s]) (use i StartIdle in \<open>auto simp: dns_inv_def will_close_def todo_def\<close>)
next
  case (StartDevice options)
  then show ?thesis using i by (cases "outcome es 0") (auto simp: start_step_def start_fail_def dns_inv_def will_close_def todo_def)
next
  case StartNewStack
  then show ?thesis using i by (cases "outcome es 0") (auto simp: start_step_def start_fail_def dns_inv_def will_close_def todo_def)
next
  case StartStack
  then show ?thesis using i by (cases "outcome es 0") (auto simp: start_step_def start_fail_def dns_inv_def will_close_def todo_def)
next
  case StartDNS
  show ?thesis
  proof (cases "ts_systemDNS s")
    case True
    obtain e d where a: "sy_Apply ops server (ts_dns s) = (e, d)" by fastforce
    have k: "ok d" "e \<noteq> None \<Longrightarrow> \<not> held d" using apply_ok [of "ts_dns s"] apply_err [of "ts_dns s" _ d] i a by (auto simp: dns_inv_def)
    then show ?thesis using i StartDNS True a by (cases e) (auto simp: start_step_def start_dns_def start_fail_def dns_inv_def will_close_def todo_def)
  next
    case False
    then show ?thesis using i StartDNS by (auto simp: start_step_def start_dns_def dns_inv_def will_close_def todo_def)
  qed
next
  case StartInstall
  then show ?thesis using i f by (cases "ts_closed s") (auto simp: start_step_def tun_start_install_def start_fail_def dns_inv_def flags_inv_def will_close_def todo_def)
next
  case (StartCleanup l e)
  show ?thesis
  proof (cases l)
    case Nil
    then show ?thesis using i StartCleanup by (auto simp: start_step_def dns_inv_def will_close_def todo_def)
  next
    case (Cons x l')
    obtain now e' s1 where c: "cleanup_step ops (outcome es 0) x s = (now, e', s1)" using prod_cases3 by blast
    have "start_step ops interfaceName es s = s1\<lparr>ts_start := StartCleanup (now @ l') e\<rparr>" using StartCleanup Cons c by (simp add: start_step_def)
    moreover have "dns_inv ok held server (s1\<lparr>ts_start := StartCleanup (now @ l') e\<rparr>)"
      by (rule dns_cleanup [OF i c]) (use cleanup_frame [OF c] StartCleanup Cons in \<open>auto simp: todo_def will_close_def\<close>)
    ultimately show ?thesis by simp
  qed
next
  case (StartReturned r)
  then show ?thesis using i by (simp add: start_step_def)
qed

lemma dns_close_step:
  assumes i: "dns_inv ok held server s"
  shows "dns_inv ok held server (close_step ops err s)"
proof (cases "ts_close s")
  case CloseStarted
  then show ?thesis using i by (auto simp: close_step_def tun_close_begin_def dns_inv_def will_close_def todo_def)
next
  case (CloseCleanup l errs)
  show ?thesis
  proof (cases l)
    case Nil
    then show ?thesis using i CloseCleanup by (auto simp: close_step_def signal_done_def dns_inv_def will_close_def todo_def)
  next
    case (Cons x l')
    obtain now e' s1 where c: "cleanup_step ops err x s = (now, e', s1)" using prod_cases3 by blast
    have "close_step ops err s = s1\<lparr>ts_close := CloseCleanup (now @ l') (errs @ [e'])\<rparr>" using CloseCleanup Cons c by (simp add: close_step_def)
    moreover have "dns_inv ok held server (s1\<lparr>ts_close := CloseCleanup (now @ l') (errs @ [e'])\<rparr>)"
      by (rule dns_cleanup [OF i c]) (use cleanup_frame [OF c] CloseCleanup Cons in \<open>auto simp: todo_def will_close_def\<close>)
    ultimately show ?thesis by simp
  qed
qed (use i in \<open>simp_all add: close_step_def\<close>)

lemma tun_step_inv: "tun_inv ok held server s \<Longrightarrow> tun_inv ok held server (tun_step ops interfaceName expected s x)"
  using update_keeps [of s ok held server]
  by (cases x) (simp_all add: tun_inv_def objects_start flags_start dns_start_step objects_close flags_close dns_close_step
      objects_request flags_request dns_request device_error_keeps)

lemma tun_run_inv: "tun_inv ok held server s \<Longrightarrow> tun_inv ok held server (foldl (tun_step ops interfaceName expected) s xs)"
  by (induction xs arbitrary: s) (simp_all add: tun_step_inv)

text \<open>What is left when both goroutines have ended.\<close>

lemma tun_ended:
  assumes "tun_inv ok held server s" "ts_start s = StartReturned r" "ts_close s = CloseDone \<or> (r \<noteq> None \<and> ts_close s = CloseIdle)"
  shows "tw_device (ts_world s) \<noteq> TObject_Open \<and> tw_stack (ts_world s) \<noteq> TObject_Open \<and> tw_network (ts_world s) \<noteq> TObject_Open
    \<and> tw_interface (ts_world s) \<noteq> TObject_Open \<and> (held (ts_dns s) \<longrightarrow> tw_restoreFailed (ts_world s))"
proof -
  have td: "todo s = []" using assms(2,3) by (auto simp: todo_def)
  have w: "\<not> will_close s" "ts_device s \<Longrightarrow> close_begun (ts_close s)" using assms by (auto simp: will_close_def tun_inv_def flags_inv_def)
  then have m: "\<not> ts_network s" "\<not> ts_interface s" using assms(1,2) td by (auto simp: tun_inv_def flags_inv_def)
  have z: "device_owners s = 0" "stack_owners s = 0" "network_owners s = 0" "interface_owners s = 0"
    using td w m assms(2) by (auto simp: device_owners_def stack_owners_def network_owners_def interface_owners_def pending_def)
  then show ?thesis using assms(1,2) td w(1) by (auto simp: tun_inv_def objects_inv_def dns_inv_def)
qed

end

text \<open>The settings themselves: they differ from the original ones only while the controller holds snapshots, or after an application that failed, which makes
  the start fail.\<close>

fun before_dns :: "start_pc \<Rightarrow> bool" where
  "before_dns StartInstall = False" | "before_dns (StartCleanup _ _) = False" | "before_dns (StartReturned _) = False" | "before_dns _ = True"

fun start_failed :: "start_pc \<Rightarrow> bool" where
  "start_failed (StartCleanup _ _) = True" | "start_failed (StartReturned r) = (r \<noteq> None)" | "start_failed _ = False"

definition settings_inv :: "('d \<Rightarrow> bool) \<Rightarrow> ('d \<Rightarrow> bool) \<Rightarrow> 'd tunService \<Rightarrow> bool" where
  "settings_inv held changed s \<longleftrightarrow> (changed (ts_dns s) \<longrightarrow> held (ts_dns s) \<or> tw_applyFailed (ts_world s))
     \<and> (before_dns (ts_start s) \<longrightarrow> \<not> held (ts_dns s)) \<and> (tw_applyFailed (ts_world s) \<longrightarrow> start_failed (ts_start s))"

lemma settings_inv_same:
  "settings_inv held changed s \<Longrightarrow> ts_dns t = ts_dns s \<Longrightarrow> tw_applyFailed (ts_world t) = tw_applyFailed (ts_world s) \<Longrightarrow>
   (before_dns (ts_start t) \<Longrightarrow> before_dns (ts_start s)) \<Longrightarrow> (start_failed (ts_start s) \<Longrightarrow> start_failed (ts_start t)) \<Longrightarrow> settings_inv held changed t"
  by (auto simp: settings_inv_def)

context dns_settings
begin

lemma settings_cleanup:
  assumes i: "dns_inv ok held server s" "settings_inv held changed s" and c: "cleanup_step ops err x s = (now, e, s1)"
    and t: "ts_dns t = ts_dns s1" "ts_world t = ts_world s1" "before_dns (ts_start t) = before_dns (ts_start s)" "start_failed (ts_start t) = start_failed (ts_start s)"
  shows "settings_inv held changed t"
proof (cases "x = RestoreDNS")
  case True
  obtain e' d where r: "sy_Restore ops (ts_dns s) = (e', d)" by fastforce
  have k: "ok (ts_dns s)" using i(1) by (simp add: dns_inv_def)
  have d: "ts_dns s1 = d" "tw_applyFailed (ts_world s1) = tw_applyFailed (ts_world s)" using c True r by auto
  show ?thesis
  proof (cases "held (ts_dns s)")
    case True
    then have "changed d \<longrightarrow> held d" using restore_settings [OF k True r] by blast
    then show ?thesis using i(2) d t True by (simp add: settings_inv_def)
  next
    case False
    then have "d = ts_dns s" using restore_idle [OF k False] r by simp
    then show ?thesis using i(2) d t by (simp add: settings_inv_def)
  qed
next
  case False
  show ?thesis by (rule settings_inv_same [OF i(2)]) (use cleanup_dns [OF c False] cleanup_apply [OF c] t in simp_all)
qed

lemma settings_start:
  assumes i: "dns_inv ok held server s" "settings_inv held changed s"
  shows "settings_inv held changed (start_step ops interfaceName es s)"
proof (cases "ts_start s")
  case StartIdle
  have e: "start_step ops interfaceName es s = start_device interfaceName (outcome es 6) es s" using StartIdle by (simp add: start_step_def)
  show ?thesis unfolding e
    by (rule start_device_cases [of interfaceName "outcome es 6" es s]) (use i(2) StartIdle in \<open>auto simp: settings_inv_def\<close>)
next
  case StartDNS
  have k: "ok (ts_dns s)" "ts_dnsServer s = server" "\<not> held (ts_dns s)" using i StartDNS by (simp_all add: dns_inv_def settings_inv_def)
  show ?thesis
  proof (cases "ts_systemDNS s")
    case True
    obtain e d where a: "sy_Apply ops server (ts_dns s) = (e, d)" by fastforce
    show ?thesis
    proof (cases e)
      case None
      have "held d" using apply_held [OF k(1,3)] a None by simp
      then show ?thesis using StartDNS True a k(2) None i(2) by (simp add: start_step_def start_dns_def settings_inv_def)
    next
      case (Some x)
      then show ?thesis using StartDNS True a k(2) by (simp add: start_step_def start_dns_def start_fail_def settings_inv_def)
    qed
  next
    case False
    then show ?thesis using i(2) StartDNS by (auto simp: start_step_def start_dns_def settings_inv_def)
  qed
next
  case (StartCleanup l e)
  show ?thesis
  proof (cases l)
    case Nil
    then show ?thesis using i(2) StartCleanup by (simp add: start_step_def settings_inv_def)
  next
    case (Cons x l')
    obtain now e' s1 where c: "cleanup_step ops (outcome es 0) x s = (now, e', s1)" using prod_cases3 by blast
    have "settings_inv held changed (s1\<lparr>ts_start := StartCleanup (now @ l') e\<rparr>)"
      by (rule settings_cleanup [OF i c]) (use StartCleanup in simp_all)
    then show ?thesis using StartCleanup Cons c by (simp add: start_step_def)
  qed
next
  case StartInstall
  then show ?thesis using i(2) by (auto simp: start_step_def tun_start_install_def start_fail_def settings_inv_def)
qed (use i(2) in \<open>auto simp: start_step_def start_fail_def settings_inv_def split: option.split\<close>)

lemma settings_close:
  assumes i: "dns_inv ok held server s" "settings_inv held changed s"
  shows "settings_inv held changed (close_step ops err s)"
proof (cases "ts_close s")
  case (CloseCleanup l errs)
  show ?thesis
  proof (cases l)
    case Nil
    then show ?thesis using i(2) CloseCleanup by (simp add: close_step_def signal_done_def settings_inv_def)
  next
    case (Cons x l')
    obtain now e' s1 where c: "cleanup_step ops err x s = (now, e', s1)" using prod_cases3 by blast
    have "settings_inv held changed (s1\<lparr>ts_close := CloseCleanup (now @ l') (errs @ [e'])\<rparr>)"
      by (rule settings_cleanup [OF i c]) (use cleanup_frame [OF c] in simp_all)
    then show ?thesis using CloseCleanup Cons c by (simp add: close_step_def)
  qed
qed (use i(2) in \<open>simp_all add: close_step_def tun_close_begin_def settings_inv_def\<close>)

lemma settings_step:
  assumes "tun_inv ok held server s" "settings_inv held changed s"
  shows "settings_inv held changed (tun_step ops interfaceName expected s x)"
proof -
  have i: "dns_inv ok held server s" using assms(1) by (simp add: tun_inv_def)
  show ?thesis
  proof (cases x)
    case (TunUpdate addresses err rollbackErr broken)
    show ?thesis unfolding TunUpdate tun_step.simps
      by (rule update_cases [of addresses err rollbackErr broken s]) (use assms(2) in \<open>simp_all add: settings_inv_def use_device_def\<close>)
  qed (use assms(2) settings_start [OF i assms(2)] settings_close [OF i assms(2)] in
      \<open>simp_all add: settings_inv_def request_close_def handleDeviceError_def signal_done_def\<close>)
qed

lemma settings_run:
  "tun_inv ok held server s \<Longrightarrow> settings_inv held changed s \<Longrightarrow> settings_inv held changed (foldl (tun_step ops interfaceName expected) s xs)"
  by (induction xs arbitrary: s) (simp_all add: tun_step_inv settings_step)

end

section \<open>Both goroutines end\<close>

fun cleanup_weight :: "cleanup_action list \<Rightarrow> nat" where
  "cleanup_weight [] = 0"
| "cleanup_weight (x # l) = (if x = TakeMonitors then 2 else 1) + cleanup_weight l"

fun close_rank :: "close_pc \<Rightarrow> nat" where
  "close_rank CloseIdle = 8" | "close_rank CloseStarted = 7" | "close_rank (CloseCleanup l _) = Suc (cleanup_weight l)" | "close_rank CloseDone = 0"

fun start_rank :: "start_pc \<Rightarrow> nat" where
  "start_rank StartIdle = 12" | "start_rank (StartDevice _) = 11" | "start_rank StartNewStack = 10" | "start_rank StartStack = 9"
| "start_rank StartDNS = 8" | "start_rank StartInstall = 7" | "start_rank (StartCleanup l _) = Suc (cleanup_weight l)" | "start_rank (StartReturned _) = 0"

fun is_start_op :: "tun_op \<Rightarrow> bool" where
  "is_start_op (TunStart _) = True" | "is_start_op _ = False"

fun is_close_op :: "tun_op \<Rightarrow> bool" where
  "is_close_op (TunClose _) = True" | "is_close_op _ = False"

lemma cleanup_weight_append: "cleanup_weight (l @ l') = cleanup_weight l + cleanup_weight l'"
  by (induction l) auto

lemma cleanup_lighter: "cleanup_step ops err x s = (now, e, s1) \<Longrightarrow> cleanup_weight (now @ l) < cleanup_weight (x # l)"
  by (cases x) (auto simp: cleanup_weight_append split: prod.splits)

lemma close_step_rank: "ts_close s \<noteq> CloseIdle \<Longrightarrow> close_rank (ts_close (close_step ops err s)) \<le> close_rank (ts_close s) - 1 \<and> ts_close (close_step ops err s) \<noteq> CloseIdle"
proof (cases "ts_close s")
  case (CloseCleanup l errs)
  show ?thesis
  proof (cases l)
    case (Cons x l')
    obtain now e s1 where c: "cleanup_step ops err x s = (now, e, s1)" using prod_cases3 by blast
    then show ?thesis using CloseCleanup Cons cleanup_lighter [OF c, of l'] by (simp add: close_step_def)
  qed (use CloseCleanup in \<open>simp add: close_step_def\<close>)
qed (auto simp: close_step_def tun_close_begin_def)

lemma start_step_rank: "start_rank (ts_start (start_step ops interfaceName es s)) \<le> start_rank (ts_start s) - 1"
proof (cases "ts_start s")
  case StartIdle
  then show ?thesis by (simp add: start_step_def) (rule start_device_cases [of interfaceName "outcome es 6" es s], simp_all)
next
  case StartDNS
  obtain e d where "sy_Apply ops (ts_dnsServer s) (ts_dns s) = (e, d)" by fastforce
  then show ?thesis using StartDNS by (cases e) (simp_all add: start_step_def start_dns_def start_fail_def)
next
  case (StartCleanup l e)
  show ?thesis
  proof (cases l)
    case (Cons x l')
    obtain now e' s1 where c: "cleanup_step ops (outcome es 0) x s = (now, e', s1)" using prod_cases3 by blast
    then show ?thesis using StartCleanup Cons cleanup_lighter [OF c, of l'] by (simp add: start_step_def)
  qed (use StartCleanup in \<open>simp add: start_step_def\<close>)
qed (auto simp: start_step_def start_fail_def tun_start_install_def split: option.splits)

lemma start_step_close: "ts_close (start_step ops interfaceName es s) = ts_close s"
proof (cases "ts_start s")
  case StartIdle
  then show ?thesis by (simp add: start_step_def) (rule start_device_cases [of interfaceName "outcome es 6" es s], simp_all)
next
  case (StartCleanup l errs)
  then show ?thesis using cleanup_frame [of ops "outcome es 0" _ s] by (cases l) (auto simp: start_step_def split: prod.splits)
qed (auto simp: start_step_def start_fail_def start_dns_def tun_start_install_def split: option.splits prod.splits)

text \<open>No other step sets a goroutine back.\<close>

lemma other_ranks:
  "\<not> is_close_op x \<Longrightarrow> ts_close s \<noteq> CloseIdle \<Longrightarrow> ts_close (tun_step ops interfaceName expected s x) = ts_close s"
  "\<not> is_start_op x \<Longrightarrow> ts_start (tun_step ops interfaceName expected s x) = ts_start s"
proof -
  have u: "ts_close (snd (snd (update_routes a b c d s))) = ts_close s" "ts_start (snd (snd (update_routes a b c d s))) = ts_start s" for a b c d
    by (rule update_cases [of a b c d s]; simp)+
  have c: "ts_start (close_step ops err s) = ts_start s" for err
  proof (cases "ts_close s")
    case (CloseCleanup l errs)
    then show ?thesis using cleanup_frame [of ops err _ s] by (cases l) (auto simp: close_step_def signal_done_def split: prod.splits)
  qed (simp_all add: close_step_def tun_close_begin_def)
  have h: "ts_close s \<noteq> CloseIdle \<Longrightarrow> ts_close (handleDeviceError expected e s) = ts_close s" "ts_start (handleDeviceError expected e s) = ts_start s" for e
    by (simp_all add: handleDeviceError_def request_close_def signal_done_def)
  show "\<not> is_close_op x \<Longrightarrow> ts_close s \<noteq> CloseIdle \<Longrightarrow> ts_close (tun_step ops interfaceName expected s x) = ts_close s"
    using u h by (cases x) (simp_all add: request_close_def start_step_close)
  show "\<not> is_start_op x \<Longrightarrow> ts_start (tun_step ops interfaceName expected s x) = ts_start s"
    using u c h by (cases x) (simp_all add: request_close_def)
qed

lemma close_run_rank:
  "ts_close s \<noteq> CloseIdle \<Longrightarrow>
   close_rank (ts_close (foldl (tun_step ops interfaceName expected) s xs)) \<le> close_rank (ts_close s) - length (filter is_close_op xs)"
proof (induction xs arbitrary: s)
  case (Cons x xs)
  let ?t = "tun_step ops interfaceName expected s x"
  have "ts_close ?t \<noteq> CloseIdle \<and> close_rank (ts_close ?t) \<le> close_rank (ts_close s) - (if is_close_op x then 1 else 0)"
    using Cons.prems close_step_rank [of s ops] other_ranks(1) [of x s ops interfaceName expected] by (cases x) auto
  then show ?case using Cons.IH [of ?t] by auto
qed simp

lemma start_run_rank:
  "start_rank (ts_start (foldl (tun_step ops interfaceName expected) s xs)) \<le> start_rank (ts_start s) - length (filter is_start_op xs)"
proof (induction xs arbitrary: s)
  case (Cons x xs)
  let ?t = "tun_step ops interfaceName expected s x"
  have "start_rank (ts_start ?t) \<le> start_rank (ts_start s) - (if is_start_op x then 1 else 0)"
    using start_step_rank [of ops interfaceName _ s] other_ranks(2) [of x ops interfaceName expected s] by (cases x) auto
  then show ?case using Cons.IH [of ?t] by auto
qed simp

lemma close_rank_0: "close_rank p = 0 \<longleftrightarrow> p = CloseDone"
  by (cases p) auto

lemma start_rank_0: "start_rank p = 0 \<longleftrightarrow> (\<exists>r. p = StartReturned r)"
  by (cases p) auto

lemma close_ends:
  assumes "ts_close s = CloseIdle" "7 \<le> length (filter is_close_op xs)"
  shows "ts_close (foldl (tun_step ops interfaceName expected) (request_close s) xs) = CloseDone"
proof -
  have "ts_close (request_close s) = CloseStarted" using assms(1) by (simp add: request_close_def)
  then have "close_rank (ts_close (foldl (tun_step ops interfaceName expected) (request_close s) xs)) = 0"
    using close_run_rank [of "request_close s" ops interfaceName expected xs] assms(2) by simp
  then show ?thesis by (simp add: close_rank_0)
qed

lemma start_ends:
  assumes "ts_start s = StartIdle" "12 \<le> length (filter is_start_op xs)"
  shows "\<exists>r. ts_start (foldl (tun_step ops interfaceName expected) s xs) = StartReturned r"
  using start_run_rank [of ops interfaceName expected s xs] assms by (simp add: start_rank_0 [symmetric])

section \<open>The life of a service\<close>

lemma newTUNService_fields:
  assumes "newTUNService platform d c = Inr s"
  shows "ts_start s = StartIdle \<and> ts_close s = CloseIdle \<and> \<not> ts_device s \<and> \<not> ts_stack s \<and> \<not> ts_network s \<and> \<not> ts_interface s \<and> ts_addr s = None
    \<and> \<not> ts_closed s \<and> \<not> ts_closeDone s \<and> ts_runErr s = None \<and> ts_dns s = d \<and> ts_world s = empty_world"
  using assms unfolding newTUNService_def Let_def rbind_def by (auto split: if_splits option.splits sum.splits)

lemma newTUNService_inv:
  assumes "newTUNService platform d c = Inr s" "ok d" "\<not> held d"
  shows "tun_inv ok held (ts_dnsServer s) s"
proof -
  note f = newTUNService_fields [OF assms(1)]
  have "objects_inv s" using f by (simp add: objects_inv_def tun_owner_defs empty_world_def)
  moreover have "flags_inv s" using f by (simp add: flags_inv_def)
  moreover have "dns_inv ok held (ts_dnsServer s) s" using f assms(2,3) by (simp add: dns_inv_def)
  ultimately show ?thesis by (simp add: tun_inv_def)
qed

text \<open>C19. The TUN service and the system's DNS. For every interleaving of the start, the close, device errors and route changes, with any of the calls
  failing: nothing is closed twice and no route is changed on a closed device. Once the start has returned and the close has ended, or the start has failed and no close was asked for, the device,
  the stack and both monitors are closed, and the DNS servers of all services of the system are the original ones, unless a call that restores them reported an error or the start failed because the
  system's DNS could not be changed; in these two cases settings may stay changed, but, as at every moment, either they are the original ones or the snapshot file holds what is needed to bring them back.
  An error of the device signals the end and begins the close; a closed service has no address. Both goroutines end: the start after at most twelve steps of its own,
  the close after at most seven.\<close>

theorem tun_service_lifecycle:
  assumes new: "newTUNService platform d0 c0 = Inr s0" and d0: "darwin_ok env orig (ts_dnsServer s0) d0" "\<not> darwin_held d0" "sd_servers (snd d0) = orig"
    and s: "s = foldl (tun_step (darwinDNS env) interfaceName expected) s0 xs"
  shows "\<not> tw_misused (ts_world s)
   \<and> (\<forall>r. ts_start s = StartReturned r \<and> (ts_close s = CloseDone \<or> (r \<noteq> None \<and> ts_close s = CloseIdle)) \<longrightarrow>
        tw_device (ts_world s) \<noteq> TObject_Open \<and> tw_stack (ts_world s) \<noteq> TObject_Open \<and> tw_network (ts_world s) \<noteq> TObject_Open
        \<and> tw_interface (ts_world s) \<noteq> TObject_Open
        \<and> (sd_servers (snd (ts_dns s)) = orig \<or> tw_restoreFailed (ts_world s) \<or> r \<noteq> None \<and> tw_applyFailed (ts_world s)))
   \<and> (ts_runErr s \<noteq> None \<longrightarrow> ts_done s \<and> ts_close s \<noteq> CloseIdle)
   \<and> (ts_closed s \<longrightarrow> ts_addr s = None)
   \<and> kept env orig (sd_servers (snd (ts_dns s)), sd_file (snd (ts_dns s)))
   \<and> (12 \<le> length (filter is_start_op xs) \<longrightarrow> (\<exists>r. ts_start s = StartReturned r))
   \<and> (ts_close s = CloseIdle \<and> 7 \<le> length (filter is_close_op ys) \<longrightarrow>
        ts_close (foldl (tun_step (darwinDNS env) interfaceName expected) (request_close s) ys) = CloseDone)"
proof -
  note i0 = newTUNService_inv [where ok = "darwin_ok env orig (ts_dnsServer s0)" and held = darwin_held, OF new d0(1,2)]
  have i: "tun_inv (darwin_ok env orig (ts_dnsServer s0)) darwin_held (ts_dnsServer s0) s" using darwin.tun_run_inv [OF i0] by (simp add: s)
  have "settings_inv darwin_held (\<lambda>d. sd_servers (snd d) \<noteq> orig) s0"
    using newTUNService_fields [OF new] d0(2,3) by (simp add: settings_inv_def empty_world_def)
  then have c: "settings_inv darwin_held (\<lambda>d. sd_servers (snd d) \<noteq> orig) s" using darwin_set.settings_run [OF i0] by (simp add: s)
  have "darwin_ok env orig (ts_dnsServer s0) (ts_dns s)" using i by (simp add: tun_inv_def dns_inv_def)
  then have k: "kept env orig (sd_servers (snd (ts_dns s)), sd_file (snd (ts_dns s)))" by (simp add: darwin_ok_def dns_controller_ok_def safe_def)
  have st: "12 \<le> length (filter is_start_op xs) \<Longrightarrow> \<exists>r. ts_start s = StartReturned r"
    using start_ends [of s0 xs] newTUNService_fields [OF new] by (simp add: s)
  have f: "(ts_runErr s \<noteq> None \<longrightarrow> ts_done s \<and> ts_close s \<noteq> CloseIdle) \<and> (ts_closed s \<longrightarrow> ts_addr s = None) \<and> \<not> tw_misused (ts_world s)"
    using i by (simp add: tun_inv_def flags_inv_def objects_inv_def)
  have e: "tw_device (ts_world s) \<noteq> TObject_Open \<and> tw_stack (ts_world s) \<noteq> TObject_Open \<and> tw_network (ts_world s) \<noteq> TObject_Open
        \<and> tw_interface (ts_world s) \<noteq> TObject_Open
        \<and> (sd_servers (snd (ts_dns s)) = orig \<or> tw_restoreFailed (ts_world s) \<or> r \<noteq> None \<and> tw_applyFailed (ts_world s))"
    if "ts_start s = StartReturned r" "ts_close s = CloseDone \<or> (r \<noteq> None \<and> ts_close s = CloseIdle)" for r
    using darwin.tun_ended [OF i that] c that(1) by (auto simp: settings_inv_def)
  show ?thesis using f k st e close_ends [of s ys "darwinDNS env" interfaceName expected] by blast
qed

definition demo_tun_config :: TunServiceConfig where
  "demo_tun_config = \<lparr> tc_Name = [], tc_Address = [], tc_MTU = 0, tc_AutoRoute = True, tc_RouteAll = False, tc_StrictRoute = False, tc_Stack = [],
     tc_UDPTimeout = 0, tc_UDPMaxFlows = 0, tc_DNSHijack = True, tc_FakeIP = False, tc_FakeIPRange = [], tc_ControlServerHost = [],
     tc_RouteAddresses = [([10, 0, 0, 0], 8)], tc_OutboundInterface = ''en0'', tc_SystemDNS = False \<rparr>"

definition demo_dns_state :: "darwinController \<times> sysdns" where
  "demo_dns_state = (newPlatformController 1 ''en0'', demo_sysdns)"

lemma demo_tun_new: "\<exists>s. newTUNService True demo_dns_state demo_tun_config = Inr s \<and> ts_dnsServer s = ''172.19.0.2''"
proof -
  have p: "ParsePrefix ''172.19.0.1/30'' = Some ([172, 19, 0, 1], 30)" by code_simp
  have m: "Masked ([172, 19, 0, 1], 30) = ([172, 19, 0, 0], 30)" "prefix_contains ([172, 19, 0, 1], 30) [172, 19, 0, 2]" by code_simp+
  have "addr_Next [172, 19, 0, 0] = Some [172, 19, 0, 1]" "addr_Next [172, 19, 0, 1] = Some [172, 19, 0, 2]"
    by (simp_all add: addr_Next_def addrToUint32_def uint32ToAddr_def ip4_val_alt Let_def)
  then have a: "tunDNSServerAddress ([172, 19, 0, 1], 30) = Inr [172, 19, 0, 2]" using m by (simp add: tunDNSServerAddress_def Let_def)
  have i: "IP_String [172, 19, 0, 2] = ''172.19.0.2''" by code_simp
  show ?thesis by (simp add: newTUNService_def tun_defaults_def demo_tun_config_def p a i rbind_def)
qed

theorem tun_service_lifecycle_witness:
  "\<exists>s0 s. newTUNService True demo_dns_state demo_tun_config = Inr s0
     \<and> s = foldl (tun_step (darwinDNS demo_dns_env) (\<lambda>n. n) (\<lambda>_. False)) s0 (replicate 12 (TunStart []) @ TunCloseRequest # replicate 7 (TunClose None))
     \<and> (\<exists>r. ts_start s = StartReturned r) \<and> ts_close s = CloseDone \<and> \<not> tw_misused (ts_world s)
     \<and> tw_device (ts_world s) \<noteq> TObject_Open \<and> tw_stack (ts_world s) \<noteq> TObject_Open
     \<and> (sd_servers (snd (ts_dns s)) = demo_servers \<or> tw_restoreFailed (ts_world s) \<or> tw_applyFailed (ts_world s))"
proof -
  obtain s0 where n: "newTUNService True demo_dns_state demo_tun_config = Inr s0" "ts_dnsServer s0 = ''172.19.0.2''" using demo_tun_new by blast
  have d: "darwin_ok demo_dns_env demo_servers (ts_dnsServer s0) demo_dns_state" "\<not> darwin_held demo_dns_state" "sd_servers (snd demo_dns_state) = demo_servers"
    using demo_dns_laws n(2) by (simp_all add: darwin_ok_def darwin_held_def demo_dns_state_def newPlatformController_def dns_controller_ok_def safe_def
        kept_def demo_sysdns_def demo_servers_def)
  let ?step = "tun_step (darwinDNS demo_dns_env) (\<lambda>n. n) (\<lambda>_. False)"
  define s1 where "s1 = foldl ?step s0 (replicate 12 (TunStart []))"
  define s where "s = foldl ?step s0 (replicate 12 (TunStart []) @ TunCloseRequest # replicate 7 (TunClose None))"
  have c1: "ts_close (foldl ?step t (replicate k (TunStart []))) = CloseIdle" if "ts_close t = CloseIdle" for k t using that
  proof (induction k arbitrary: t)
    case (Suc k)
    show ?case using Suc by (simp add: start_step_close)
  qed simp
  have i: "ts_close s1 = CloseIdle" using c1 newTUNService_fields [OF n(1)] by (simp add: s1_def)
  have "s = foldl ?step (request_close s1) (replicate 7 (TunClose None))" by (simp add: s_def s1_def)
  moreover have "ts_close (foldl ?step (request_close s1) (replicate 7 (TunClose None))) = CloseDone"
    using tun_service_lifecycle [OF n(1) d s1_def] i by (simp add: filter_replicate)
  ultimately have e: "ts_close s = CloseDone" by simp
  have q: "12 \<le> length (filter is_start_op (replicate 12 (TunStart []) @ TunCloseRequest # replicate 7 (TunClose None)))" by (simp add: filter_replicate)
  note l = tun_service_lifecycle [OF n(1) d s_def]
  obtain r where r: "ts_start s = StartReturned r" using l q by blast
  have "\<not> tw_misused (ts_world s) \<and> tw_device (ts_world s) \<noteq> TObject_Open \<and> tw_stack (ts_world s) \<noteq> TObject_Open
      \<and> (sd_servers (snd (ts_dns s)) = demo_servers \<or> tw_restoreFailed (ts_world s) \<or> tw_applyFailed (ts_world s))" using l r e by blast
  then show ?thesis using n(1) r e s_def by blast
qed

end
