(* ===== verification/TunHandlers.thy ===== *)
theory TunHandlers
  imports TunService
begin

text \<open>
  What the TUN service does with connections: hijacked DNS over UDP and TCP, and relayed TCP connections, from \<^verbatim>\<open>src/internal/networkruntime/tun_dns.go\<close> and
  \<^verbatim>\<open>tun.go\<close>. The coding of DNS messages, the resolver, the dial and the copying are arguments.
\<close>

section \<open>DNS\<close>

record 's tunResolver =
  tr_resolve :: "string \<Rightarrow> 's \<Rightarrow> ip result \<times> 's"
  tr_matcher :: "(string \<Rightarrow> bool) option"
  tr_static :: "(string \<Rightarrow> ip option) option"

text \<open>A request is whether its operation is a query, and its questions; a reply is its code and answers.\<close>

definition dns_handler :: "'s tunResolver option \<Rightarrow> 's Handler" where
  "dns_handler resolver = \<lparr> h_static = Option.bind resolver tr_static, h_resolve = map_option tr_resolve resolver, h_fakeIPv4 = None, h_TTL = 0 \<rparr>"

text \<open>With fake addresses: the resolver is wrapped in one that assigns them, which has no static records of its own.\<close>

definition fake_dns_handler ::
  "((string \<rightharpoonup> nat) \<Rightarrow> string list) \<Rightarrow> int \<Rightarrow> TunServiceConfig \<Rightarrow> 's tunResolver option \<Rightarrow> ('s \<times> fakeIPStore) Handler" where
  "fake_dns_handler ord now c resolver =
     (case resolver of
        None \<Rightarrow> \<lparr> h_static = None, h_resolve = None,
                 h_fakeIPv4 = Some (\<lambda>host st. case Assign ord now host (snd st) of (x, fs) \<Rightarrow> (x, (fst st, fs))), h_TTL = 0 \<rparr>
      | Some r \<Rightarrow> \<lparr> h_static = None,
                   h_resolve = Some (tun_Resolve ord now \<lparr> tf_resolve = tr_resolve r, tf_matcher = tr_matcher r,
                     tf_controlServerHost = normalizeDomain (tc_ControlServerHost c), tf_routeAll = tc_RouteAll c, tf_routes = tc_RouteAddresses c \<rparr>),
                   h_fakeIPv4 = None, h_TTL = 0 \<rparr>)"

definition handleDNSPayload ::
  "((string \<rightharpoonup> nat) \<Rightarrow> string list) \<Rightarrow> int \<Rightarrow> TunServiceConfig \<Rightarrow> 's tunResolver option \<Rightarrow> (bytes \<Rightarrow> (bool \<times> question list) result) \<Rightarrow>
   (bytes \<Rightarrow> rcode \<times> answer list \<Rightarrow> bytes result) \<Rightarrow> bytes \<Rightarrow> 's \<times> fakeIPStore option \<Rightarrow> bytes result \<times> 's \<times> fakeIPStore option" where
  "handleDNSPayload ord now c resolver unpack pack payload st =
     (case unpack payload of
        Inl e \<Rightarrow> (Inl (errorf ''unpack TUN DNS query'' e), st)
      | Inr (query, questions) \<Rightarrow>
          (case snd st of
             None \<Rightarrow> (case Handle (dns_handler resolver) query questions (fst st) of (reply, s) \<Rightarrow> (pack payload reply, s, None))
           | Some fs \<Rightarrow>
               (case Handle (fake_dns_handler ord now c resolver) query questions (fst st, fs) of
                  (reply, s, fs') \<Rightarrow> (pack payload reply, s, Some fs'))))"

text \<open>The answer to a packet goes back as coming from the packet's destination.\<close>

definition handleUDPDNS :: "('t \<Rightarrow> bytes result \<times> 't) \<Rightarrow> (bytes \<Rightarrow> gerror option) \<Rightarrow> 't \<Rightarrow> gerror option \<times> bytes option \<times> 't" where
  "handleUDPDNS payload WritePacket st =
     (case payload st of
        (Inl e, st') \<Rightarrow> (Some e, None, st')
      | (Inr response, st') \<Rightarrow> (WritePacket response, Some response, st'))"

text \<open>
  The loop over a connection: \<open>r\<close> is what can still be read, \<open>writeErr k\<close> the error of the \<open>k\<close>-th write. The result is the error, what was written and the state.
\<close>

function handleTCPDNS ::
  "(gerror \<Rightarrow> bool) \<Rightarrow> (bytes \<Rightarrow> 't \<Rightarrow> bytes result \<times> 't) \<Rightarrow> (nat \<Rightarrow> gerror option) \<Rightarrow> nat \<Rightarrow> bytes \<Rightarrow> 't \<Rightarrow> gerror option \<times> bytes \<times> 't" where
  "handleTCPDNS expected payload writeErr k r st =
     (case ReadFull 2 r of
        Inl e \<Rightarrow> (if expected e then None else Some e, [], st)
      | Inr (header, r1) \<Rightarrow>
          (let n = be16 (header ! 0) (header ! 1) in
           if n = 0 then handleTCPDNS expected payload writeErr k r1 st
           else case ReadFull n r1 of
               Inl e \<Rightarrow> (Some e, [], st)
             | Inr (request, r2) \<Rightarrow>
                 (case payload request st of
                    (Inl e, st') \<Rightarrow> (Some e, [], st')
                  | (Inr response, st') \<Rightarrow>
                      if length response > 65535 then (Some (Opaque ''TUN DNS response is too large''), [], st')
                      else case writeErr k of
                          Some e \<Rightarrow> (Some e, [], st')
                        | None \<Rightarrow>
                            (case writeErr (k + 1) of
                               Some e \<Rightarrow> (Some e, PutUint16 (length response), st')
                             | None \<Rightarrow>
                                 (case handleTCPDNS expected payload writeErr (k + 2) r2 st' of
                                    (e, out, st'') \<Rightarrow> (e, put_packet response @ out, st''))))))"
  by pat_completeness auto

termination
  by (relation "measure (\<lambda>(_, _, _, _, r, _). length r)") (auto simp: ReadFull_Inr)

declare handleTCPDNS.simps [simp del]

section \<open>Connections\<close>

text \<open>\<^verbatim>\<open>relayTUN\<close> returns with the first of the two copies that ends, \<open>first\<close>.\<close>

definition relayTUN :: "(gerror \<Rightarrow> bool) \<Rightarrow> gerror option \<Rightarrow> gerror option" where
  "relayTUN expected first = (case first of None \<Rightarrow> None | Some e \<Rightarrow> if expected e then None else Some e)"

record tun_connection =
  tcn_err :: "gerror option"
  tcn_dialled :: "(string \<times> string) option"
  tcn_inboundClosed :: bool
  tcn_remoteClosed :: bool

text \<open>\<open>dnsErr\<close> is what the handler of DNS over TCP returns, \<open>dial\<close> the dial's error for an address.\<close>

definition NewConnection ::
  "(gerror \<Rightarrow> bool) \<Rightarrow> TunServiceConfig \<Rightarrow> int \<Rightarrow> fakeIPStore option \<Rightarrow> ip \<times> nat \<Rightarrow> gerror option \<Rightarrow> (string \<Rightarrow> gerror option) \<Rightarrow> gerror option \<Rightarrow>
   tun_connection \<times> fakeIPStore option" where
  "NewConnection expected c now fakeIPs destination dnsErr dial first =
     (if tc_DNSHijack c \<and> snd destination = 53
      then (\<lparr> tcn_err = dnsErr, tcn_dialled = None, tcn_inboundClosed = True, tcn_remoteClosed = False \<rparr>, fakeIPs)
      else case routeDestination now fakeIPs (fst destination) (snd destination) of
          (route, fakeIPs') \<Rightarrow>
            (case dial (fst route) of
               Some e \<Rightarrow> (\<lparr> tcn_err = Some e, tcn_dialled = None, tcn_inboundClosed = True, tcn_remoteClosed = False \<rparr>, fakeIPs')
             | None \<Rightarrow> (\<lparr> tcn_err = relayTUN expected first, tcn_dialled = Some route, tcn_inboundClosed = True, tcn_remoteClosed = True \<rparr>, fakeIPs')))"

section \<open>Properties\<close>

text \<open>The answers to a list of requests, one after the other.\<close>

fun answer_all :: "(bytes \<Rightarrow> 't \<Rightarrow> bytes result \<times> 't) \<Rightarrow> bytes list \<Rightarrow> 't \<Rightarrow> (bytes list \<times> 't) option" where
  "answer_all payload [] st = Some ([], st)"
| "answer_all payload (q # qs) st =
     (case payload q st of
        (Inl _, _) \<Rightarrow> None
      | (Inr a, st') \<Rightarrow> if length a > 65535 then None else map_option (\<lambda>(as, t). (a # as, t)) (answer_all payload qs st'))"

lemma tcp_dns_stream:
  assumes "\<forall>q \<in> set qs. q \<noteq> [] \<and> length q < 65536" "answer_all payload qs st = Some (as, st')"
  shows "handleTCPDNS expected payload (\<lambda>_. None) k (concat (map put_packet qs)) st =
     (if expected (Sentinel IoEOF) then None else Some (Sentinel IoEOF), concat (map put_packet as), st')"
  using assms
proof (induction qs arbitrary: st as k)
  case Nil
  then show ?case by (simp add: handleTCPDNS.simps [of _ _ _ _ "[]"] ReadFull_def)
next
  case (Cons q qs)
  obtain a t as' where a: "payload q st = (Inr a, t)" "length a \<le> 65535" "answer_all payload qs t = Some (as', st')" "as = a # as'"
    using Cons.prems(2) by (auto split: prod.splits sum.splits if_splits)
  have h: "ReadFull 2 (concat (map put_packet (q # qs))) = Inr (PutUint16 (length q), q @ concat (map put_packet qs))"
    by (simp add: put_packet_def)
  have n: "be16 (PutUint16 (length q) ! 0) (PutUint16 (length q) ! 1) = length q" using Cons.prems(1) by (simp add: PutUint16_def)
  have q: "length q \<noteq> 0" using Cons.prems(1) by simp
  show ?case unfolding handleTCPDNS.simps [of _ _ _ _ "concat (map put_packet (q # qs))"] h
    using Cons.IH [of t as' "k + 2"] Cons.prems(1) a n q by (simp add: Let_def)
qed

lemma addr_Next_neq: "length a = 4 \<Longrightarrow> addr_Next a = Some b \<Longrightarrow> b \<noteq> a \<and> length b = 4"
  using addrToUint32_inverse [of a] by (auto simp: addr_Next_def split: if_splits) (metis add_cancel_right_right uint32ToAddr_inj zero_neq_one)

text \<open>The server put into the system's settings is another address of the device's own network.\<close>

lemma tunDNSServerAddress_peer:
  assumes "tunDNSServerAddress prefix = Inr d"
  shows "length d = 4 \<and> d \<noteq> fst prefix \<and> prefix_contains prefix d \<and> d \<noteq> fst (Masked prefix)"
proof -
  have l: "length (fst prefix) = 4" using assms by (auto simp: tunDNSServerAddress_def split: if_splits)
  have b: "length (fst (Masked prefix)) = 4" using l by (cases prefix) (simp add: Masked_def mask_ip_def)
  obtain c where c: "addr_Next (fst (Masked prefix)) = Some c" "d = c \<and> c \<noteq> fst prefix \<or> c = fst prefix \<and> addr_Next c = Some d" "prefix_contains prefix d"
    using assms by (auto simp: tunDNSServerAddress_def Let_def split: if_splits option.splits)
  note n = addr_Next_neq [OF b c(1)]
  show ?thesis
  proof (cases "c = fst prefix")
    case True
    then have d: "addr_Next c = Some d" using c(2) by blast
    have "d \<noteq> fst (Masked prefix)"
    proof
      assume e: "d = fst (Masked prefix)"
      have "addrToUint32 (fst (Masked prefix)) + 1 + 1 = addrToUint32 (fst (Masked prefix))"
      proof -
        have "c = uint32ToAddr (addrToUint32 (fst (Masked prefix)) + 1)" using c(1) by (auto simp: addr_Next_def split: if_splits)
        moreover have "d = uint32ToAddr (addrToUint32 c + 1)" using d by (auto simp: addr_Next_def split: if_splits)
        ultimately show ?thesis using e addrToUint32_inverse [OF b] addrToUint32_inverse [of c] n by (metis uint32ToAddr_inj)
      qed
      then show False by simp
    qed
    then show ?thesis using addr_Next_neq [OF _ d] n True c(3) by auto
  next
    case False
    then show ?thesis using n c by auto
  qed
qed

text \<open>Routing includes the server that hijacked queries are sent to.\<close>

lemma routes_reach_dns:
  assumes "tc_DNSHijack (ts_config s)" "ParseAddr (ts_dnsServer s) = Some a" "addresses \<noteq> []"
  shows "set addresses \<subseteq> set (routeAddressesFor s addresses) \<and> (\<exists>p \<in> set (routeAddressesFor s addresses). prefix_contains p a)"
  using assms by (auto simp: routeAddressesFor_def list_ex_iff prefix_contains_def)

text \<open>A change of the routes takes effect, or the old ones are put back, or the service ends.\<close>

lemma UpdateRouteAddresses_outcome:
  assumes "\<not> ts_closed s" "ts_device s" "UpdateRouteAddresses expected addresses err rollbackErr broken s = (result, s')"
  shows "(err = None \<longrightarrow> result = None \<and> tw_routes (ts_world s') = routeAddressesFor s addresses
        \<and> to_Inet4RouteAddress (ts_routeOptions s') = routeAddressesFor s addresses \<and> tc_RouteAddresses (ts_config s') = addresses)
    \<and> (err \<noteq> None \<and> rollbackErr = None \<longrightarrow> result = Some (WrapError ErrorCodeRouteSetupFailed ''update TUN resource routes'' True err)
        \<and> tw_routes (ts_world s') = to_Inet4RouteAddress (ts_routeOptions s) \<and> ts_routeOptions s' = ts_routeOptions s \<and> ts_config s' = ts_config s)
    \<and> (err \<noteq> None \<and> rollbackErr \<noteq> None \<and> (\<forall>e. \<not> expected e) \<longrightarrow> ts_runErr s' \<noteq> None \<and> (ts_runErr s = None \<longrightarrow> ts_done s' \<and> ts_close s' \<noteq> CloseIdle))"
proof (cases err)
  case None
  then show ?thesis using assms by (auto simp: UpdateRouteAddresses_def update_routes_def Let_def)
next
  case (Some e)
  show ?thesis
  proof (cases rollbackErr)
    case None
    then show ?thesis using assms Some by (auto simp: UpdateRouteAddresses_def update_routes_def Let_def)
  next
    case (Some e2)
    then show ?thesis using assms \<open>err = Some e\<close>
      by (cases "ts_close s = CloseIdle") (auto simp: UpdateRouteAddresses_def update_routes_def handleDeviceError_def request_close_def signal_done_def Let_def)
  qed
qed

text \<open>
  What a query for a name is to lead to, from the code's cases: an answer of the resolver's own, or a fake address
  that stands for the name itself, or for the address that was resolved.
\<close>

datatype tun_target = OwnAnswer | FakeName | FakeAddress ip

definition tun_target :: "TunServiceConfig \<Rightarrow> 's tunResolver \<Rightarrow> string \<Rightarrow> 's \<Rightarrow> tun_target" where
  "tun_target c r host s =
     (let control = normalizeDomain (tc_ControlServerHost c) in
      if control \<noteq> [] \<and> normalizeDomain host = control then OwnAnswer
      else if (case tr_matcher r of None \<Rightarrow> False | Some f \<Rightarrow> f host) then FakeName
      else case fst (tr_resolve r host s) of
          Inl _ \<Rightarrow> OwnAnswer
        | Inr address \<Rightarrow>
            if length address \<noteq> 4 \<and> length address \<noteq> 16 then OwnAnswer
            else if list_ex (\<lambda>p. prefix_contains p (Unmap address)) (tc_RouteAddresses c) then FakeName
            else if tc_RouteAll c \<and> length (Unmap address) = 4 then FakeAddress (Unmap address)
            else OwnAnswer)"

definition fake_resolved :: "tun_target \<Rightarrow> ip" where
  "fake_resolved t = (case t of FakeAddress a \<Rightarrow> a | _ \<Rightarrow> [])"

text \<open>Where traffic to the fake address then goes.\<close>

definition target_host :: "tun_target \<Rightarrow> string \<Rightarrow> string" where
  "target_host t host = (case t of FakeAddress a \<Rightarrow> IP_String a | _ \<Rightarrow> normalizeDomain host)"

lemma Unmap_idem [simp]: "length (Unmap a) = 4 \<Longrightarrow> Unmap (Unmap a) = Unmap a"
  by simp

lemma tun_Resolve_target:
  assumes "t = tun_target c r host s"
  shows "tun_Resolve ord now \<lparr> tf_resolve = tr_resolve r, tf_matcher = tr_matcher r, tf_controlServerHost = normalizeDomain (tc_ControlServerHost c),
      tf_routeAll = tc_RouteAll c, tf_routes = tc_RouteAddresses c \<rparr> host (s, fs) =
    (let s' = (if t = FakeName \<and> (case tr_matcher r of None \<Rightarrow> False | Some f \<Rightarrow> f host) then s else snd (tr_resolve r host s))
     in if t = OwnAnswer then (fst (tr_resolve r host s), (s', fs))
        else (fst (assign ord now host (fake_resolved t) fs), (s', snd (assign ord now host (fake_resolved t) fs))))"
  unfolding assms
  by (auto simp: tun_Resolve_def tun_target_def fake_resolved_def Assign_def AssignResolved_def AddrFromSlice_def Let_def case_prod_unfold
      split: sum.split option.split prod.split)

text \<open>
  An assignment stands while it has been used within the time after which the store may give its address to another name, whatever else is asked for or looked
  up, unless the same name is given another resolved address.
\<close>

definition stands :: "string \<Rightarrow> ip \<Rightarrow> ip \<Rightarrow> int \<Rightarrow> fakeIPStore \<Rightarrow> bool" where
  "stands d res a t s \<longleftrightarrow> (\<exists>r. fs_ipToDomain s a = Some r \<and> fe_domain (fs_heap s r) = d \<and> fe_resolved (fs_heap s r) = res \<and> t \<le> fe_lastUsed (fs_heap s r))"

definition op_time :: "fs_op \<Rightarrow> int" where
  "op_time x = (case x of OpAssign t _ \<Rightarrow> t | OpAssignResolved t _ _ \<Rightarrow> t | OpLookup t _ \<Rightarrow> t)"

definition in_use :: "int \<Rightarrow> string \<Rightarrow> ip \<Rightarrow> fs_op \<Rightarrow> bool" where
  "in_use t d res x \<longleftrightarrow> t \<le> op_time x \<and> op_time x < t + fakeIPReuseAfter
     \<and> (case x of OpAssign _ d' \<Rightarrow> normalizeDomain d' = d \<longrightarrow> res = [] | OpAssignResolved _ d' a \<Rightarrow> normalizeDomain d' = d \<longrightarrow> Unmap a = res | OpLookup _ _ \<Rightarrow> True)"

lemma stands_touch: "stands d res a t s \<Longrightarrow> (\<And>e. fe_domain (f e) = fe_domain e) \<Longrightarrow>
    (fe_domain (fs_heap s r) = d \<Longrightarrow> fe_resolved (f (fs_heap s r)) = res) \<Longrightarrow> t \<le> fe_lastUsed (f (fs_heap s r)) \<Longrightarrow> stands d res a t (touch r f s)"
  by (auto simp: stands_def touch_def)

lemma stands_assign:
  assumes ord: "ranges ord" and inv: "fs_inv s" and st: "stands d res a t s" and now: "t \<le> now" "now < t + fakeIPReuseAfter"
    and name: "normalizeDomain d0 = d \<longrightarrow> res' = res"
  shows "stands d res a t (snd (assign ord now d0 res' s))"
proof -
  obtain r where r: "fs_ipToDomain s a = Some r" "fe_domain (fs_heap s r) = d" "fe_resolved (fs_heap s r) = res" "t \<le> fe_lastUsed (fs_heap s r)"
    using st by (auto simp: stands_def)
  have rc: "r < fs_count s" "a = fe_address (fs_heap s r)" using fs_invD(8) [OF inv, of a r] r(1) by simp_all
  show ?thesis
  proof (cases "fs_domainToIP s (normalizeDomain d0)")
    case (Some q)
    then have "fe_domain (fs_heap s q) = normalizeDomain d0" using fs_invD(9) [OF inv, of "normalizeDomain d0" q] by simp
    then show ?thesis using Some st now name by (simp add: assign_def Let_def stands_touch)
  next
    case None
    show ?thesis
    proof (cases "fs_next s > fs_last s")
      case True
      show ?thesis
      proof (cases "oldestReusable ord now s")
        case (Some q)
        have "fe_lastUsed (fs_heap s q) \<le> now - fakeIPReuseAfter" using oldestReusable_Some [OF ord inv Some] by blast
        then have "q \<noteq> r" using r(4) now(2) by auto
        then show ?thesis using Some None True r by (simp add: assign_def touch_def stands_def Let_def)
      qed (use None True st in \<open>simp add: assign_def Let_def\<close>)
    next
      case False
      have "a \<noteq> uint32ToAddr (fs_next s)"
        using fs_addresses(1) [OF inv rc(1)] rc fs_invD(2) [OF inv] ip4_val_uint32 [of "fs_next s"] by force
      then show ?thesis using None False r rc by (simp add: assign_def stands_def Let_def)
    qed
  qed
qed

lemma stands_step:
  assumes "ranges ord" "fs_inv s" "stands d res a t s" "in_use t d res x"
  shows "stands d res a t (fs_step ord s x)"
proof (cases x)
  case (OpAssign now d')
  then show ?thesis using stands_assign [OF assms(1-3), of now d' "[]"] assms(4) by (simp add: fs_step_def Assign_def in_use_def op_time_def)
next
  case (OpAssignResolved now d' a')
  then show ?thesis using stands_assign [OF assms(1-3), of now d' "Unmap a'"] assms(3,4)
    by (simp add: fs_step_def AssignResolved_def in_use_def op_time_def Let_def)
next
  case (OpLookup now b)
  show ?thesis
  proof (cases "b = [] \<or> fs_ipToDomain s (Unmap b) = None")
    case True
    then show ?thesis using assms(3) by (auto simp: fs_step_def LookupDestination_def OpLookup)
  next
    case False
    then obtain q where q: "fs_ipToDomain s (Unmap b) = Some q" by blast
    obtain r where r: "fs_ipToDomain s a = Some r" "fe_domain (fs_heap s r) = d" "fe_resolved (fs_heap s r) = res"
      using assms(3) by (auto simp: stands_def)
    have "fe_resolved (fs_heap s q) = res" if "fe_domain (fs_heap s q) = d"
    proof -
      have "fs_domainToIP s d = Some q" "fs_domainToIP s d = Some r" 
        using that q r fs_invD(8) [OF assms(2), of "Unmap b" q] fs_invD(8) [OF assms(2), of a r] fs_invD(9) [OF assms(2), of d q]
          fs_invD(9) [OF assms(2), of d r] by simp_all
      then show ?thesis using r by simp
    qed
    then show ?thesis using False q assms(3,4) by (simp add: fs_step_def LookupDestination_def OpLookup stands_touch in_use_def op_time_def)
  qed
qed

lemma stands_run:
  "ranges ord \<Longrightarrow> fs_inv s \<Longrightarrow> stands d res a t s \<Longrightarrow> list_all (in_use t d res) ops \<Longrightarrow>
     fs_inv (foldl (fs_step ord) s ops) \<and> stands d res a t (foldl (fs_step ord) s ops)"
  by (induction ops arbitrary: s) (simp_all add: fs_step_inv stands_step)

lemma stands_route:
  assumes "fs_inv s" "stands (normalizeDomain host) (fake_resolved t) a now s" "t \<noteq> OwnAnswer" "\<And>x. t = FakeAddress x \<Longrightarrow> x \<noteq> []"
  shows "fst (routeDestination later (Some s) a port) = (JoinHostPort (target_host t host) (show_nat port), JoinHostPort (normalizeDomain host) (show_nat port))"
proof -
  obtain r where r: "fs_ipToDomain s a = Some r" "fe_domain (fs_heap s r) = normalizeDomain host" "fe_resolved (fs_heap s r) = fake_resolved t"
    using assms(2) by (auto simp: stands_def)
  show ?thesis using lookup_entry [OF assms(1) r(1)] r assms(3,4)
    by (cases t) (auto simp: routeDestination_def LookupDestination_def target_host_def fake_resolved_def Let_def)
qed

text \<open>C21. Hijacked DNS and the traffic that follows it, with fake addresses on. A hijacked query with one A question is answered by the resolver's own answer, and no fake address is
  handed out, for the control server and for names that are neither of the VPN, nor resolved into a routed network, nor, when everything is
  routed, resolved to an IPv4 address. Otherwise, unless the range is exhausted, which is answered with an error, it is answered with one fake address, whatever coding the messages have. For
  half an hour after the query, whatever other queries and lookups there are (only a query that gives the same name another resolved address excepted), a UDP packet or a TCP connection to
  that address that is not itself DNS goes, with its own port, to the name that was asked for, or, for a name that is only faked because everything is routed, to the address it was resolved to: the
  packet on an open flow to it, when no other packet is being handled at the same moment, the connection dialled to it. DNS over TCP answers every request of the stream in turn.\<close>

theorem tun_dns_traffic:
  assumes ord: "ranges ord" "visits_all vord" and fs: "fs_inv fs"
    and q: "unpack payload = Inr (True, [\<lparr> q_name = name, q_type = TypeA, q_class = ClassINET \<rparr>])"
    and host: "host = NormalizeDomain name" and target: "t = tun_target c r host s"
    and h: "handleDNSPayload ord now c (Some r) unpack pack payload (s, Some fs) = (response, s', Some fs')"
    and ops: "fs2 = foldl (fs_step ord) fs' ops" "list_all (in_use now (normalizeDomain host) (fake_resolved t)) ops"
    and u: "udp_quiet us" "1 \<le> ud_maxFlows us" "ud_fakeIPs us = Some fs2"
    and f: "association_flow vord a p us = (Inr x, us')"
    and tcp: "NewConnection expected c later (Some fs2) destination dnsErr (\<lambda>_. None) first = (tcn, st)" "snd destination \<noteq> 53"
    and stream: "\<forall>m \<in> set qs. m \<noteq> [] \<and> length m < 65536" "answer_all pay qs d = Some (as, d')"
  shows "(case (t, fst (assign ord now host (fake_resolved t) fs)) of
       (OwnAnswer, _) \<Rightarrow> fs' = fs \<and> (response, s') = (let (reply, s1) = Handle (dns_handler (Some (r\<lparr>tr_static := None\<rparr>))) True
            [\<lparr> q_name = name, q_type = TypeA, q_class = ClassINET \<rparr>] s in (pack payload reply, s1))
     | (_, Inl e) \<Rightarrow> fs' = fs \<and> response = pack payload (errorRCode e, [])
     | (_, Inr address) \<Rightarrow>
         response = pack payload (RcodeSuccess, [\<lparr> an_name = name, an_type = TypeA, an_ttl = 60, an_addr = address \<rparr>])
       \<and> (fst (up_destination p) = address \<longrightarrow> x \<in> open_flows us' \<and> fl_association (ud_heap us' x) = a
            \<and> fl_address (ud_heap us' x) = JoinHostPort (target_host t host) (show_nat (snd (up_destination p))))
       \<and> (fst destination = address \<longrightarrow> map_option fst (tcn_dialled tcn) = Some (JoinHostPort (target_host t host) (show_nat (snd destination)))))
   \<and> tcn_inboundClosed tcn \<and> tcn_remoteClosed tcn
   \<and> fst (snd (handleTCPDNS expected pay (\<lambda>_. None) 0 (concat (map put_packet qs)) d)) = concat (map put_packet as)"
proof -
  let ?q = "\<lparr> q_name = name, q_type = TypeA, q_class = ClassINET \<rparr>"
  have R: "handler_resolve (fake_dns_handler ord now c (Some r)) host (s, fs) =
      (case tun_Resolve ord now \<lparr> tf_resolve = tr_resolve r, tf_matcher = tr_matcher r, tf_controlServerHost = normalizeDomain (tc_ControlServerHost c),
         tf_routeAll = tc_RouteAll c, tf_routes = tc_RouteAddresses c \<rparr> host (s, fs) of
             (Inl e, s') \<Rightarrow> (Inl e, s')
           | (Inr a, s') \<Rightarrow>
               (case AddrFromSlice a of
                  None \<Rightarrow> (Inl (DNSError False (''lookup '' @ host @ '': invalid address'')), s')
                | Some p \<Rightarrow> (Inr p, s')))"
    by (simp add: handler_resolve_def fake_dns_handler_def)
  have H: "(response, s', Some fs') = (case Handle (fake_dns_handler ord now c (Some r)) True [?q] (s, fs) of (reply, s, fs') \<Rightarrow> (pack payload reply, s, Some fs'))"
    using h q by (simp add: handleDNSPayload_def)
  have D: "tcn = \<lparr> tcn_err = relayTUN expected first, tcn_dialled = Some (fst (routeDestination later (Some fs2) (fst destination) (snd destination))),
      tcn_inboundClosed = True, tcn_remoteClosed = True \<rparr>"
    using tcp by (auto simp: NewConnection_def split: prod.splits)
  have S: "fst (snd (handleTCPDNS expected pay (\<lambda>_. None) 0 (concat (map put_packet qs)) d)) = concat (map put_packet as)"
    using tcp_dns_stream [OF stream] by simp
  have F: "x \<in> open_flows us' \<and> fl_association (ud_heap us' x) = a \<and> fl_address (ud_heap us' x) = flow_key p us"
    using association_flow_quiet [OF ord(2) u(1,2) f] by simp
  note T = tun_Resolve_target [OF target, of ord now fs]
  define w where "w = assign ord now host (fake_resolved t) fs"
  show ?thesis
  proof (cases "t = OwnAnswer")
    case True
    have "fs' = fs \<and> (response, s') = (let (reply, s1) = Handle (dns_handler (Some (r\<lparr>tr_static := None\<rparr>))) True [?q] s in (pack payload reply, s1))"
      using H R T True host
      by (auto simp: Handle_def dns_handler_def resolveIPv4_def resolveStatic_def handler_resolve_def fake_dns_handler_def AddrFromSlice_def ttl_def
          Let_def case_prod_unfold split: sum.splits if_splits)
    then show ?thesis using True D S by simp
  next
    case False
    show ?thesis
    proof (cases "fst w")
      case (Inl e)
      have "snd w = fs" using assign_cases [OF ord(1) fs, of now host "fake_resolved t"] Inl by (simp add: w_def)
      then have "fs' = fs \<and> response = pack payload (errorRCode e, [])"
        using H R T False host Inl by (auto simp: Handle_def resolveIPv4_def resolveStatic_def fake_dns_handler_def w_def Let_def)
      then show ?thesis using False Inl D S by (cases t) (simp_all add: w_def)
    next
      case (Inr address)
      have inv: "fs_inv (snd w)" and st: "stands (normalizeDomain host) (fake_resolved t) address now (snd w)"
        using assign_cases [OF ord(1) fs, of now host "fake_resolved t"] Inr by (auto simp: w_def stands_def)
      have l: "length address = 4"
        using st fs_invD(8) [OF inv, of address] fs_invD(7) [OF inv] by (auto simp: stands_def)
      have resp: "response = pack payload (RcodeSuccess, [\<lparr> an_name = name, an_type = TypeA, an_ttl = 60, an_addr = address \<rparr>])" "fs' = snd w"
        using H R T False host Inr l
        by (auto simp: Handle_def resolveIPv4_def resolveStatic_def fake_dns_handler_def AddrFromSlice_def ttl_def DefaultTTL_def w_def Let_def)
      have "y \<noteq> []" if "t = FakeAddress y" for y using that unfolding target by (auto simp: tun_target_def Let_def split: if_splits sum.splits)
      then have route: "fst (routeDestination n (Some fs2) address k) = (JoinHostPort (target_host t host) (show_nat k), JoinHostPort (normalizeDomain host) (show_nat k))" for n k
        using stands_route [of fs2 host t address now n k] stands_run [OF ord(1) inv st, of ops] ops False resp(2) by simp
      show ?thesis using False Inr resp(1) D S F route u(3) by (cases t) (auto simp: w_def flow_key_def)
    qed
  qed
qed

definition demo_tun_resolver_of :: "unit tunResolver" where
  "demo_tun_resolver_of = \<lparr> tr_resolve = (\<lambda>_ s. (Inl (Sentinel IoEOF), s)), tr_matcher = Some (\<lambda>h. HasSuffix h ''.zju.edu.cn''), tr_static = None \<rparr>"

definition demo_dns_unpack :: "bytes \<Rightarrow> (bool \<times> question list) result" where
  "demo_dns_unpack _ = Inr (True, [\<lparr> q_name = ''www.zju.edu.cn.'', q_type = TypeA, q_class = ClassINET \<rparr>])"

theorem tun_dns_traffic_witness:
  "\<exists>address fs' us' x tcn st.
     handleDNSPayload by_key 0 demo_tun_config (Some demo_tun_resolver_of) demo_dns_unpack (\<lambda>_ _. Inr [1]) [0] ((), Some demo_store) = (Inr [1], (), Some fs')
     \<and> (let fs2 = foldl (fs_step by_key) fs' [OpAssign 5 ''other.zju.edu.cn'', OpLookup 6 address] in
        association_flow sorted_list_of_set 0 ((demo_udp_packet 443 1)\<lparr>up_destination := (address, 443)\<rparr>) (demo_udp\<lparr>ud_fakeIPs := Some fs2\<rparr>) = (Inr x, us')
     \<and> fl_address (ud_heap us' x) = ''www.zju.edu.cn:443''
     \<and> NewConnection (\<lambda>_. True) demo_tun_config 2 (Some fs2) (address, 80) None (\<lambda>_. None) None = (tcn, st)
     \<and> map_option fst (tcn_dialled tcn) = Some ''www.zju.edu.cn:80'')"
proof -
  have inv: "fs_inv demo_store" using newFakeIPStore_inv [OF demo_store_new] by simp
  have n: "NormalizeDomain ''www.zju.edu.cn.'' = ''www.zju.edu.cn''" "normalizeDomain ''www.zju.edu.cn'' = ''www.zju.edu.cn''" "normalizeDomain [] = []"
    "HasSuffix ''www.zju.edu.cn'' ''.zju.edu.cn''" by code_simp+
  have j: "JoinHostPort ''www.zju.edu.cn'' (show_nat 443) = ''www.zju.edu.cn:443''" "JoinHostPort ''www.zju.edu.cn'' (show_nat 80) = ''www.zju.edu.cn:80''" by code_simp+
  have t: "tun_target demo_tun_config demo_tun_resolver_of ''www.zju.edu.cn'' () = FakeName"
    using n by (simp add: tun_target_def demo_tun_resolver_of_def demo_tun_config_def)
  obtain address fs1 where A: "assign by_key 0 ''www.zju.edu.cn'' [] demo_store = (Inr address, fs1)"
    using n(2) by (simp add: assign_def demo_store_def Let_def)
  obtain response f where h: "handleDNSPayload by_key 0 demo_tun_config (Some demo_tun_resolver_of) demo_dns_unpack (\<lambda>_ _. Inr [1]) [0] ((), Some demo_store)
      = (response, (), f)" using prod_cases3 by (metis (full_types) unit.exhaust)
  obtain fs' where f: "f = Some fs'" using h by (auto simp: handleDNSPayload_def demo_dns_unpack_def split: prod.splits)
  let ?ops = "[OpAssign 5 ''other.zju.edu.cn'', OpLookup 6 address]"
  define fs2 where "fs2 = foldl (fs_step by_key) fs' ?ops"
  let ?us = "demo_udp\<lparr>ud_fakeIPs := Some fs2\<rparr>" and ?p = "(demo_udp_packet 443 1)\<lparr>up_destination := (address, 443)\<rparr>"
  have q: "udp_quiet ?us" using demo_udp_quiet quiet_route by simp
  have m: "1 \<le> ud_maxFlows ?us" by (simp add: demo_udp_def)
  obtain res us' where a: "association_flow sorted_list_of_set 0 ?p ?us = (res, us')" by fastforce
  obtain x where x: "res = Inr x" using association_flow_quiet [OF visits_sorted q m a]
    by (cases res) (simp_all add: demo_udp_packet_def)
  obtain tcn st where c: "NewConnection (\<lambda>_. True) demo_tun_config 2 (Some fs2) (address, 80) None (\<lambda>_. None) None = (tcn, st)" by fastforce
  have u: "demo_dns_unpack [0] = Inr (True, [\<lparr> q_name = ''www.zju.edu.cn.'', q_type = TypeA, q_class = ClassINET \<rparr>])" by (simp add: demo_dns_unpack_def)
  have o: "list_all (in_use 0 (normalizeDomain (NormalizeDomain ''www.zju.edu.cn.''))
      (fake_resolved (tun_target demo_tun_config demo_tun_resolver_of (NormalizeDomain ''www.zju.edu.cn.'') ()))) ?ops"
    using n(1) t by (simp add: in_use_def op_time_def fake_resolved_def fakeIPReuseAfter_def)
  note T = tun_dns_traffic [OF ranges_by_key visits_sorted inv u refl refl h [unfolded f] fs2_def o q m _ a [unfolded x] c, of "[]" "\<lambda>_ _. (Inr [], ())" "()" "[]" "()"]
  have "response = Inr [1] \<and> fl_address (ud_heap us' x) = ''www.zju.edu.cn:443'' \<and> map_option fst (tcn_dialled tcn) = Some ''www.zju.edu.cn:80''"
    using T A n j t by (simp add: fake_resolved_def target_host_def)
  then show ?thesis using h f a x c unfolding Let_def fs2_def by blast
qed

end
