(* ===== verification/ControlService.thy ===== *)
theory ControlService
  imports Controller "HOL-Library.Sublist"
begin

text \<open>
  The control service, \<^verbatim>\<open>src/control/v1\<close>: the methods a client can call, the JSON-lines server in front of them, and the distribution of events to
  subscribers with the questions that are still open.

  What the service controls is a parameter: the operations of the manager and of the controller on a state of their own. JSON decoding and encoding are
  a parameter too.
\<close>

section \<open>Methods\<close>

definition ProtocolVersion :: int where "ProtocolVersion = 2"

text \<open>What a decoded request asks for.\<close>

datatype control_call =
    CallHello int
  | CallStart SessionStartOptions
  | CallRespond AuthResponse
  | CallStop SessionID
  | CallStatus SessionID
  | CallResources SessionID
  | CallRefresh SessionID
  | CallServices SessionID
  | CallTraffic SessionID
  | CallConnections SessionID
  | CallCloseConnection SessionID string
  | CallTransports SessionID
  | CallRoutingGet SessionID
  | CallRoutingSet SessionID RoutingMode
  | CallResumeState SessionID
  | CallConfigGet
  | CallConfigSet daemonConfig
  | CallConfigPatch bytes
  | CallConfigApply string
  | CallConfigReload

datatype control_result =
    HelloResult string int "string list"
  | StartResult SessionID u64 bool
  | EmptyResult
  | StopResult bool
  | StatusResult SessionStatus
  | ResourcesResult CoreResources
  | ServicesResult "ServiceStatus list"
  | TrafficResult TrafficStats
  | ConnectionsResult "ConnectionInfo list"
  | CloseResult bool
  | TransportsResult "TransportConnectionInfo list"
  | RoutingResult RoutingMode
  | ResumeResult ResumeState
  | ConfigResult Snapshot

record 'm config_ops =
  co_Snapshot :: "'m \<Rightarrow> Snapshot"
  co_Set :: "daemonConfig \<Rightarrow> 'm \<Rightarrow> Snapshot result \<times> 'm"
  co_Patch :: "bytes \<Rightarrow> 'm \<Rightarrow> Snapshot result \<times> 'm"
  co_Apply :: "string \<Rightarrow> 'm \<Rightarrow> Snapshot result \<times> 'm"
  co_Reload :: "'m \<Rightarrow> Snapshot result \<times> 'm"

text \<open>\<^verbatim>\<open>core.Manager\<close>, and the two interfaces that only a controller has.\<close>

record 'm control_manager =
  cm_StartSession :: "(SessionStartOptions \<Rightarrow> 'm \<Rightarrow> SessionID result \<times> 'm) option"
  cm_Config :: "'m config_ops option"
  cm_RespondAuth :: "AuthResponse \<Rightarrow> 'm \<Rightarrow> gerror option \<times> 'm"
  cm_Stop :: "SessionID \<Rightarrow> 'm \<Rightarrow> gerror option \<times> 'm"
  cm_Status :: "SessionID \<Rightarrow> 'm \<Rightarrow> SessionStatus"
  cm_Resources :: "SessionID \<Rightarrow> 'm \<Rightarrow> CoreResources result"
  cm_RefreshResources :: "SessionID \<Rightarrow> 'm \<Rightarrow> CoreResources result \<times> 'm"
  cm_Services :: "SessionID \<Rightarrow> 'm \<Rightarrow> ServiceStatus list result"
  cm_TrafficStats :: "SessionID \<Rightarrow> 'm \<Rightarrow> TrafficStats result"
  cm_Connections :: "SessionID \<Rightarrow> 'm \<Rightarrow> ConnectionInfo list result"
  cm_CloseConnection :: "SessionID \<Rightarrow> string \<Rightarrow> 'm \<Rightarrow> gerror option \<times> 'm"
  cm_TransportConnections :: "SessionID \<Rightarrow> 'm \<Rightarrow> TransportConnectionInfo list result"
  cm_RoutingMode :: "SessionID \<Rightarrow> 'm \<Rightarrow> RoutingMode result"
  cm_SetRoutingMode :: "SessionID \<Rightarrow> RoutingMode \<Rightarrow> 'm \<Rightarrow> gerror option \<times> 'm"
  cm_ResumeState :: "SessionID \<Rightarrow> 'm \<Rightarrow> ResumeState result"

text \<open>What \<^verbatim>\<open>json.Unmarshal\<close> makes of the text, for each type of parameters.\<close>

record param_codec =
  pc_hello :: "string \<Rightarrow> int result"
  pc_start :: "string \<Rightarrow> SessionStartOptions result"
  pc_auth :: "string \<Rightarrow> AuthResponse result"
  pc_session :: "string \<Rightarrow> SessionID result"
  pc_close :: "string \<Rightarrow> (SessionID \<times> string) result"
  pc_routing :: "string \<Rightarrow> (SessionID \<times> RoutingMode) result"
  pc_config :: "string \<Rightarrow> daemonConfig result"
  pc_patch :: "string \<Rightarrow> bytes result"
  pc_apply :: "string \<Rightarrow> string result"

definition decodeParams :: "(string \<Rightarrow> 'a result) \<Rightarrow> string \<Rightarrow> 'a result" where
  "decodeParams decode raw =
     (case decode (if raw = [] then ''{}'' else raw) of
        Inl e \<Rightarrow> Inl (WrapError ErrorCodeInvalidRequest ''decode request params'' False (Some e))
      | Inr x \<Rightarrow> Inr x)"

definition no_session_control :: gerror where
  "no_session_control = WrapError ErrorCodeMethodNotFound ''configured session control is unavailable'' False None"

definition no_config_control :: gerror where
  "no_config_control = WrapError ErrorCodeMethodNotFound ''configuration control is unavailable'' False None"

text \<open>The first half of \<^verbatim>\<open>Call\<close>: which method, is it available, and its parameters.\<close>

definition session_params_call :: "param_codec \<Rightarrow> string \<Rightarrow> (SessionID \<Rightarrow> control_call) \<Rightarrow> control_call result" where
  "session_params_call codec raw f = rbind (decodeParams (pc_session codec) raw) (\<lambda>sid. Inr (f sid))"

definition config_call :: "'m control_manager \<Rightarrow> control_call result \<Rightarrow> control_call result" where
  "config_call ops r = (if cm_Config ops = None then Inl no_config_control else r)"

definition decode_call :: "'m control_manager \<Rightarrow> param_codec \<Rightarrow> string \<Rightarrow> string \<Rightarrow> control_call result" where
  "decode_call ops codec method raw =
     (if method = ''hello'' then rbind (decodeParams (pc_hello codec) raw) (\<lambda>v. Inr (CallHello v))
      else if method = ''session.start'' then
        (if cm_StartSession ops = None then Inl no_session_control else rbind (decodeParams (pc_start codec) raw) (\<lambda>o'. Inr (CallStart o')))
      else if method = ''auth.respond'' then rbind (decodeParams (pc_auth codec) raw) (\<lambda>r. Inr (CallRespond r))
      else if method = ''session.stop'' then session_params_call codec raw CallStop
      else if method = ''session.status'' then session_params_call codec raw CallStatus
      else if method = ''resources.get'' then session_params_call codec raw CallResources
      else if method = ''resources.refresh'' then session_params_call codec raw CallRefresh
      else if method = ''services.get'' then session_params_call codec raw CallServices
      else if method = ''traffic.get'' then session_params_call codec raw CallTraffic
      else if method = ''connections.list'' then session_params_call codec raw CallConnections
      else if method = ''connection.close'' then rbind (decodeParams (pc_close codec) raw) (\<lambda>(sid, c). Inr (CallCloseConnection sid c))
      else if method = ''transport_connections.list'' then session_params_call codec raw CallTransports
      else if method = ''routing.mode.get'' then session_params_call codec raw CallRoutingGet
      else if method = ''routing.mode.set'' then rbind (decodeParams (pc_routing codec) raw) (\<lambda>(sid, mode). Inr (CallRoutingSet sid mode))
      else if method = ''resume_state.get'' then session_params_call codec raw CallResumeState
      else if method = ''config.get'' then config_call ops (Inr CallConfigGet)
      else if method = ''config.set'' then config_call ops (rbind (decodeParams (pc_config codec) raw) (\<lambda>c. Inr (CallConfigSet c)))
      else if method = ''config.patch'' then
        config_call ops (rbind (decodeParams (pc_patch codec) raw) (\<lambda>p.
          if p = [] then Inl (WrapError ErrorCodeInvalidRequest ''config patch is required'' False None) else Inr (CallConfigPatch p)))
      else if method = ''config.apply'' then config_call ops (rbind (decodeParams (pc_apply codec) raw) (\<lambda>mode. Inr (CallConfigApply mode)))
      else if method = ''config.reload'' then config_call ops (Inr CallConfigReload)
      else Inl (WrapError ErrorCodeMethodNotFound (''method '' @ quote method @ '' is not supported'') False None))"

definition acked :: "control_result \<Rightarrow> gerror option \<times> 'm \<Rightarrow> control_result result \<times> 'm" where
  "acked r x = (case x of (Some e, m) \<Rightarrow> (Inl e, m) | (None, m) \<Rightarrow> (Inr r, m))"

definition wrapped :: "('a \<Rightarrow> control_result) \<Rightarrow> 'a result \<times> 'm \<Rightarrow> control_result result \<times> 'm" where
  "wrapped f x = (case x of (Inl e, m) \<Rightarrow> (Inl e, m) | (Inr a, m) \<Rightarrow> (Inr (f a), m))"

text \<open>The second half: the call itself.\<close>

fun dispatch :: "'m control_manager \<Rightarrow> string \<Rightarrow> string list \<Rightarrow> control_call \<Rightarrow> 'm \<Rightarrow> control_result result \<times> 'm" where
  "dispatch ops version capabilities (CallHello v) m =
     (if v \<noteq> ProtocolVersion
      then (Inl (WrapError ErrorCodeProtocolUnsupported (''protocol version '' @ show_int v @ '' is unsupported'') False None), m)
      else (Inr (HelloResult version ProtocolVersion capabilities), m))"
| "dispatch ops version capabilities (CallStart options) m =
     (case cm_StartSession ops of
        None \<Rightarrow> (Inl no_session_control, m)
      | Some start \<Rightarrow>
          (case start options m of
             (Inl e, m') \<Rightarrow> (Inl e, m')
           | (Inr sid, m') \<Rightarrow>
               (case cm_ResumeState ops sid m' of
                  Inr state \<Rightarrow> (Inr (StartResult sid (rs_Revision state) (rs_Reused state)), m')
                | Inl _ \<Rightarrow> (Inr (StartResult sid 0 False), m'))))"
| "dispatch ops version capabilities (CallRespond response) m = acked EmptyResult (cm_RespondAuth ops response m)"
| "dispatch ops version capabilities (CallStop sid) m = acked (StopResult True) (cm_Stop ops sid m)"
| "dispatch ops version capabilities (CallStatus sid) m =
     (let status = cm_Status ops sid m in
      if status_ID status = [] then (Inl (WrapError ErrorCodeSessionNotFound ''session not found'' False None), m)
      else (Inr (StatusResult status), m))"
| "dispatch ops version capabilities (CallResources sid) m = wrapped ResourcesResult (cm_Resources ops sid m, m)"
| "dispatch ops version capabilities (CallRefresh sid) m = wrapped ResourcesResult (cm_RefreshResources ops sid m)"
| "dispatch ops version capabilities (CallServices sid) m = wrapped ServicesResult (cm_Services ops sid m, m)"
| "dispatch ops version capabilities (CallTraffic sid) m = wrapped TrafficResult (cm_TrafficStats ops sid m, m)"
| "dispatch ops version capabilities (CallConnections sid) m = wrapped ConnectionsResult (cm_Connections ops sid m, m)"
| "dispatch ops version capabilities (CallCloseConnection sid c) m = acked (CloseResult True) (cm_CloseConnection ops sid c m)"
| "dispatch ops version capabilities (CallTransports sid) m = wrapped TransportsResult (cm_TransportConnections ops sid m, m)"
| "dispatch ops version capabilities (CallRoutingGet sid) m = wrapped RoutingResult (cm_RoutingMode ops sid m, m)"
| "dispatch ops version capabilities (CallRoutingSet sid mode) m = acked (RoutingResult mode) (cm_SetRoutingMode ops sid mode m)"
| "dispatch ops version capabilities (CallResumeState sid) m = wrapped ResumeResult (cm_ResumeState ops sid m, m)"
| "dispatch ops version capabilities CallConfigGet m =
     (case cm_Config ops of None \<Rightarrow> (Inl no_config_control, m) | Some c \<Rightarrow> (Inr (ConfigResult (co_Snapshot c m)), m))"
| "dispatch ops version capabilities (CallConfigSet config) m =
     (case cm_Config ops of None \<Rightarrow> (Inl no_config_control, m) | Some c \<Rightarrow> wrapped ConfigResult (co_Set c config m))"
| "dispatch ops version capabilities (CallConfigPatch patch) m =
     (case cm_Config ops of None \<Rightarrow> (Inl no_config_control, m) | Some c \<Rightarrow> wrapped ConfigResult (co_Patch c patch m))"
| "dispatch ops version capabilities (CallConfigApply mode) m =
     (case cm_Config ops of None \<Rightarrow> (Inl no_config_control, m) | Some c \<Rightarrow> wrapped ConfigResult (co_Apply c mode m))"
| "dispatch ops version capabilities CallConfigReload m =
     (case cm_Config ops of None \<Rightarrow> (Inl no_config_control, m) | Some c \<Rightarrow> wrapped ConfigResult (co_Reload c m))"

definition Call :: "'m control_manager \<Rightarrow> param_codec \<Rightarrow> string \<Rightarrow> string list \<Rightarrow> string \<Rightarrow> string \<Rightarrow> 'm \<Rightarrow> control_result result \<times> 'm" where
  "Call ops codec version capabilities method raw m =
     (case decode_call ops codec method raw of
        Inl e \<Rightarrow> (Inl e, m)
      | Inr c \<Rightarrow> dispatch ops version capabilities c m)"

definition control_error :: "gerror \<Rightarrow> gerror" where
  "control_error err = (case errors_As_core err of Some c \<Rightarrow> c | None \<Rightarrow> WrapError ErrorCodeUnknown (error_string err) False (Some err))"

section \<open>JSON lines\<close>

record JsonlRequest =
  req_ID :: string
  req_Method :: string
  req_Params :: string

record JsonlResponse =
  res_ID :: string
  res_Result :: "control_result option"
  res_Error :: "gerror option"

definition normalizeID :: "string \<Rightarrow> string" where
  "normalizeID i = (if i = [] then ''null'' else i)"

text \<open>One line of input gives one response; the request is what JSON decoding makes of the line.\<close>

definition handleLine ::
  "'m control_manager \<Rightarrow> param_codec \<Rightarrow> string \<Rightarrow> string list \<Rightarrow> (string \<Rightarrow> JsonlRequest result) \<Rightarrow> string \<Rightarrow> 'm \<Rightarrow> JsonlResponse \<times> 'm" where
  "handleLine ops codec version capabilities unmarshal line m =
     (case unmarshal line of
        Inl e \<Rightarrow>
          (\<lparr> res_ID = ''null'', res_Result = None,
             res_Error = Some (WrapError ErrorCodeInvalidRequest ''decode JSONL request'' False (Some e)) \<rparr>, m)
      | Inr request \<Rightarrow>
          if req_ID request = [] \<or> req_Method request = [] then
            (\<lparr> res_ID = normalizeID (req_ID request), res_Result = None,
               res_Error = Some (WrapError ErrorCodeInvalidRequest ''request ID and method are required'' False None) \<rparr>, m)
          else
            (case Call ops codec version capabilities (req_Method request) (req_Params request) m of
               (Inl e, m') \<Rightarrow> (\<lparr> res_ID = req_ID request, res_Result = None, res_Error = Some (control_error e) \<rparr>, m')
             | (Inr r, m') \<Rightarrow> (\<lparr> res_ID = req_ID request, res_Result = Some r, res_Error = None \<rparr>, m')))"

text \<open>The requests run concurrently; \<open>order\<close> is the order in which their calls take effect and their responses are written.\<close>

fun handle_lines ::
  "'m control_manager \<Rightarrow> param_codec \<Rightarrow> string \<Rightarrow> string list \<Rightarrow> (string \<Rightarrow> JsonlRequest result) \<Rightarrow> string list \<Rightarrow> 'm \<Rightarrow> JsonlResponse list \<times> 'm" where
  "handle_lines ops codec version capabilities unmarshal [] m = ([], m)"
| "handle_lines ops codec version capabilities unmarshal (line # order) m =
     (case handleLine ops codec version capabilities unmarshal line m of
        (r, m1) \<Rightarrow> case handle_lines ops codec version capabilities unmarshal order m1 of (rs, m2) \<Rightarrow> (r # rs, m2))"

text \<open>\<^verbatim>\<open>Serve\<close> after the last line: what it returns.\<close>

definition serve_end :: "bool \<Rightarrow> gerror option \<Rightarrow> gerror option \<Rightarrow> gerror option \<Rightarrow> gerror option" where
  "serve_end ownService scanErr ctxErr closeErr =
     errors_Join [if ctxErr \<noteq> None then None else scanErr, if ownService then closeErr else None]"

section \<open>Events\<close>

definition serviceEventBuffer :: nat where "serviceEventBuffer = 128"

text \<open>
  A channel of a subscriber, numbered like the subscriber: what is buffered, what was taken, and as history variables the questions that were open
  when it was made and how many events had been sent by then.
\<close>

record event_chan =
  ec_buffer :: "Event list"
  ec_taken :: "Event list"
  ec_closed :: bool
  ec_open :: "Event list"
  ec_from :: nat

record control_service =
  sv_nextEventID :: nat
  sv_chans :: "nat \<Rightarrow> event_chan"
  sv_subscribers :: "nat set"
  sv_pendingAuth :: "string \<rightharpoonup> Event"
  sv_eventDone :: bool
  sv_events :: "Event list"
  sv_panicked :: bool

definition NewService :: control_service where
  "NewService = \<lparr> sv_nextEventID = 0,
     sv_chans = (\<lambda>_. \<lparr> ec_buffer = [], ec_taken = [], ec_closed = False, ec_open = [], ec_from = 0 \<rparr>),
     sv_subscribers = {}, sv_pendingAuth = Map.empty, sv_eventDone = False, sv_events = [], sv_panicked = False \<rparr>"

definition clearPendingAuthForSession :: "SessionID \<Rightarrow> (string \<rightharpoonup> Event) \<Rightarrow> (string \<rightharpoonup> Event)" where
  "clearPendingAuthForSession sid pending = (\<lambda>i. case pending i of None \<Rightarrow> None | Some e \<Rightarrow> if ev_SessionID e = sid then None else Some e)"

definition auth_id :: "Event \<Rightarrow> string" where
  "auth_id e = (case ev_Auth e of None \<Rightarrow> [] | Some a \<Rightarrow> challenge_ID a)"

definition updatePendingAuth :: "Event \<Rightarrow> (string \<rightharpoonup> Event) \<Rightarrow> (string \<rightharpoonup> Event)" where
  "updatePendingAuth e pending =
     (case ev_Type e of
        EventTypeAuthRequired \<Rightarrow> if auth_id e \<noteq> [] then pending(auth_id e \<mapsto> e) else pending
      | EventTypeAuthBrowserRequired \<Rightarrow> if auth_id e \<noteq> [] then pending(auth_id e \<mapsto> e) else pending
      | EventTypeAuthCompleted \<Rightarrow>
          if auth_id e \<noteq> [] then pending(auth_id e := None) else clearPendingAuthForSession (ev_SessionID e) pending
      | EventTypeSessionError \<Rightarrow> clearPendingAuthForSession (ev_SessionID e) pending
      | EventTypeShutdownCompleted \<Rightarrow> clearPendingAuthForSession (ev_SessionID e) pending
      | EventTypeSessionStateChanged \<Rightarrow>
          if ev_State e \<in> {SessionStateFailed, SessionStateStopping, SessionStateStopped}
          then clearPendingAuthForSession (ev_SessionID e) pending else pending
      | _ \<Rightarrow> pending)"

definition close_chan :: "nat \<Rightarrow> control_service \<Rightarrow> control_service" where
  "close_chan i s =
     s\<lparr>sv_chans := (sv_chans s)(i := (sv_chans s i)\<lparr>ec_closed := True\<rparr>), sv_subscribers := sv_subscribers s - {i},
       sv_panicked := (sv_panicked s \<or> ec_closed (sv_chans s i))\<rparr>"

text \<open>The questions still open are put into the new channel, in the order \<open>ord\<close>; more than its buffer holds would block under the mutex, which is None.\<close>

definition Subscribe :: "((string \<rightharpoonup> Event) \<Rightarrow> string list) \<Rightarrow> control_service \<Rightarrow> (nat \<times> control_service) option" where
  "Subscribe ord s =
     (let i = Suc (sv_nextEventID s);
          questions = map (\<lambda>k. the (sv_pendingAuth s k)) (ord (sv_pendingAuth s))
      in if length questions > serviceEventBuffer then None
         else Some (i, s\<lparr>sv_nextEventID := i, sv_subscribers := insert i (sv_subscribers s),
            sv_chans := (sv_chans s)(i := \<lparr> ec_buffer = questions, ec_taken = [], ec_closed = False, ec_open = questions, ec_from = length (sv_events s) \<rparr>)\<rparr>))"

text \<open>An event goes to every subscriber that has room; one that has not is closed.\<close>

definition send_event :: "Event \<Rightarrow> control_service \<Rightarrow> nat \<Rightarrow> control_service" where
  "send_event e s i =
     (if length (ec_buffer (sv_chans s i)) < serviceEventBuffer
      then s\<lparr>sv_chans := (sv_chans s)(i := (sv_chans s i)\<lparr>ec_buffer := ec_buffer (sv_chans s i) @ [e]\<rparr>),
             sv_panicked := (sv_panicked s \<or> ec_closed (sv_chans s i))\<rparr>
      else close_chan i s)"

definition broadcast :: "(nat set \<Rightarrow> nat list) \<Rightarrow> Event \<Rightarrow> control_service \<Rightarrow> control_service" where
  "broadcast ord e s =
     foldl (send_event e) (s\<lparr>sv_pendingAuth := updatePendingAuth e (sv_pendingAuth s), sv_events := sv_events s @ [e]\<rparr>) (ord (sv_subscribers s))"

definition removeSubscriber :: "nat \<Rightarrow> control_service \<Rightarrow> control_service" where
  "removeSubscriber i s = (if i \<in> sv_subscribers s then close_chan i s else s)"

definition closeSubscribers :: "(nat set \<Rightarrow> nat list) \<Rightarrow> control_service \<Rightarrow> control_service" where
  "closeSubscribers ord s = foldl (\<lambda>s i. close_chan i s) s (ord (sv_subscribers s))"

text \<open>The end of \<^verbatim>\<open>forwardEvents\<close>: what the manager still has is sent, and everyone is closed.\<close>

definition forward_end :: "(nat set \<Rightarrow> nat list) \<Rightarrow> Event list \<Rightarrow> control_service \<Rightarrow> control_service" where
  "forward_end ord rest s = (closeSubscribers ord (foldl (\<lambda>s e. broadcast ord e s) s rest))\<lparr>sv_eventDone := True\<rparr>"

text \<open>
  \<^verbatim>\<open>Close\<close> runs once: the manager is closed, and the forwarding of events ends with what the manager still had; later calls return the first answer.
\<close>

definition control_Close ::
  "('m \<Rightarrow> gerror option \<times> 'm) \<Rightarrow> ('m \<Rightarrow> Event list) \<Rightarrow> (nat set \<Rightarrow> nat list) \<Rightarrow> gerror option option \<Rightarrow> control_service \<times> 'm
     \<Rightarrow> gerror option \<times> gerror option option \<times> control_service \<times> 'm" where
  "control_Close close rest ord once sm =
     (case once of
        Some e \<Rightarrow> (e, once, sm)
      | None \<Rightarrow> (case close (snd sm) of
           (e, m') \<Rightarrow> (e, Some e, if sv_eventDone (fst sm) then fst sm else forward_end ord (rest m') (fst sm), m')))"

text \<open>A reader takes the next event.\<close>

definition take_event :: "nat \<Rightarrow> control_service \<Rightarrow> control_service" where
  "take_event i s =
     (case ec_buffer (sv_chans s i) of
        [] \<Rightarrow> s
      | e # rest \<Rightarrow> s\<lparr>sv_chans := (sv_chans s)(i := (sv_chans s i)\<lparr>ec_buffer := rest, ec_taken := ec_taken (sv_chans s i) @ [e]\<rparr>)\<rparr>)"

section \<open>The questions that are open\<close>

definition asks :: "Event \<Rightarrow> string \<Rightarrow> bool" where
  "asks e k \<longleftrightarrow> ev_Type e \<in> {EventTypeAuthRequired, EventTypeAuthBrowserRequired} \<and> auth_id e = k \<and> k \<noteq> []"

definition ends_session :: "Event \<Rightarrow> bool" where
  "ends_session e \<longleftrightarrow>
     ev_Type e \<in> {EventTypeSessionError, EventTypeShutdownCompleted}
     \<or> ev_Type e = EventTypeAuthCompleted \<and> auth_id e = []
     \<or> ev_Type e = EventTypeSessionStateChanged \<and> ev_State e \<in> {SessionStateFailed, SessionStateStopping, SessionStateStopped}"

definition settles :: "Event \<Rightarrow> string \<Rightarrow> SessionID \<Rightarrow> bool" where
  "settles e k sid \<longleftrightarrow> ev_Type e = EventTypeAuthCompleted \<and> auth_id e = k \<and> k \<noteq> [] \<or> ends_session e \<and> ev_SessionID e = sid"

text \<open>Question \<open>k\<close> is open after the events: \<open>e\<close> asked it last, and nothing since has settled it.\<close>

definition open_question :: "Event list \<Rightarrow> string \<Rightarrow> Event \<Rightarrow> bool" where
  "open_question es k e \<longleftrightarrow>
     (\<exists>pre post. es = pre @ e # post \<and> asks e k \<and> (\<forall>e' \<in> set post. \<not> asks e' k \<and> \<not> settles e' k (ev_SessionID e)))"

lemma open_question_Nil [simp]: "\<not> open_question [] k e"
  by (simp add: open_question_def)

lemma open_question_snoc:
  "open_question (es @ [x]) k e \<longleftrightarrow> (x = e \<and> asks x k) \<or> (open_question es k e \<and> \<not> asks x k \<and> \<not> settles x k (ev_SessionID e))"
proof
  assume "open_question (es @ [x]) k e"
  then obtain pre post where *: "es @ [x] = pre @ e # post" "asks e k" "\<forall>e' \<in> set post. \<not> asks e' k \<and> \<not> settles e' k (ev_SessionID e)"
    unfolding open_question_def by blast
  show "(x = e \<and> asks x k) \<or> (open_question es k e \<and> \<not> asks x k \<and> \<not> settles x k (ev_SessionID e))"
  proof (cases post rule: rev_cases)
    case Nil
    then show ?thesis using * by simp
  next
    case (snoc post' y)
    then have "es = pre @ e # post'" "y = x" using *(1) by simp_all
    moreover have "open_question es k e" unfolding open_question_def using * snoc calculation by (intro exI [of _ pre] exI [of _ post']) simp
    ultimately show ?thesis using * snoc by simp
  qed
next
  assume "(x = e \<and> asks x k) \<or> (open_question es k e \<and> \<not> asks x k \<and> \<not> settles x k (ev_SessionID e))"
  then show "open_question (es @ [x]) k e"
  proof (elim disjE conjE)
    assume "x = e" "asks x k"
    then show ?thesis unfolding open_question_def by (intro exI [of _ es] exI [of _ "[]"]) simp
  next
    assume "open_question es k e" and new: "\<not> asks x k" "\<not> settles x k (ev_SessionID e)"
    then obtain pre post where *: "es = pre @ e # post" "asks e k" "\<forall>e' \<in> set post. \<not> asks e' k \<and> \<not> settles e' k (ev_SessionID e)"
      unfolding open_question_def by blast
    then show ?thesis unfolding open_question_def using new by (intro exI [of _ pre] exI [of _ "post @ [x]"]) simp
  qed
qed

lemma updatePendingAuth_Some:
  "updatePendingAuth x pending k = Some e \<longleftrightarrow>
     (x = e \<and> asks x k) \<or> (pending k = Some e \<and> \<not> asks x k \<and> \<not> settles x k (ev_SessionID e))"
  if "k = [] \<Longrightarrow> pending k = None"
  using that
  by (cases "ev_Type x")
     (auto simp: updatePendingAuth_def clearPendingAuthForSession_def asks_def settles_def ends_session_def split: option.splits if_splits)

lemma updatePendingAuth_dom: "finite (dom pending) \<Longrightarrow> finite (dom (updatePendingAuth x pending))"
proof -
  assume fin: "finite (dom pending)"
  have "dom (updatePendingAuth x pending) \<subseteq> insert (auth_id x) (dom pending)"
    by (auto simp: updatePendingAuth_def clearPendingAuthForSession_def split: EventType.splits option.splits if_splits)
  then show ?thesis using fin finite_subset by blast
qed

section \<open>Every subscriber sees the events without a gap\<close>

text \<open>What a subscription has to see: the questions open when it was made, then every event since.\<close>

definition owed :: "Event list \<Rightarrow> event_chan \<Rightarrow> Event list" where
  "owed es c = ec_open c @ drop (ec_from c) es"

definition chan_ok :: "Event list \<Rightarrow> bool \<Rightarrow> event_chan \<Rightarrow> bool" where
  "chan_ok es live c \<longleftrightarrow>
     ec_from c \<le> length es \<and> length (ec_buffer c) \<le> serviceEventBuffer \<and> ec_closed c = (\<not> live)
     \<and> (if live then ec_taken c @ ec_buffer c = owed es c else prefix (ec_taken c @ ec_buffer c) (owed es c))"

definition chans_ok :: "control_service \<Rightarrow> bool" where
  "chans_ok s \<longleftrightarrow>
     sv_subscribers s \<subseteq> {1..sv_nextEventID s} \<and> \<not> sv_panicked s
     \<and> (\<forall>i \<in> {1..sv_nextEventID s}. chan_ok (sv_events s) (i \<in> sv_subscribers s) (sv_chans s i))"

definition pending_ok :: "control_service \<Rightarrow> bool" where
  "pending_ok s \<longleftrightarrow>
     finite (dom (sv_pendingAuth s)) \<and> (\<forall>k e. sv_pendingAuth s k = Some e \<longleftrightarrow> open_question (sv_events s) k e)"

definition done_ok :: "control_service \<Rightarrow> bool" where
  "done_ok s \<longleftrightarrow> (sv_eventDone s \<longrightarrow> (\<forall>i \<in> sv_subscribers s. ec_from (sv_chans s i) = length (sv_events s)))"

lemma chans_okD:
  assumes "chans_ok s"
  shows "finite (sv_subscribers s)" "i \<in> sv_subscribers s \<Longrightarrow> 1 \<le> i \<and> i \<le> sv_nextEventID s"
    "i \<in> sv_subscribers s \<Longrightarrow> chan_ok (sv_events s) True (sv_chans s i)" "\<not> sv_panicked s"
proof -
  have sub: "sv_subscribers s \<subseteq> {1..sv_nextEventID s}" and ok: "\<forall>i \<in> {1..sv_nextEventID s}. chan_ok (sv_events s) (i \<in> sv_subscribers s) (sv_chans s i)"
    and "\<not> sv_panicked s" using assms by (simp_all add: chans_ok_def)
  then show "finite (sv_subscribers s)" "\<not> sv_panicked s" by (auto intro: finite_subset)
  assume i: "i \<in> sv_subscribers s"
  then have "i \<in> {1..sv_nextEventID s}" using sub by blast
  then show "1 \<le> i \<and> i \<le> sv_nextEventID s" "chan_ok (sv_events s) True (sv_chans s i)" using bspec [OF ok] i by fastforce+
qed

lemma owed_snoc: "ec_from c \<le> length es \<Longrightarrow> owed (es @ [e]) c = owed es c @ [e]"
  by (simp add: owed_def)

lemma owed_buffer [simp]: "owed es (c\<lparr>ec_buffer := b\<rparr>) = owed es c" "owed es (c\<lparr>ec_closed := d\<rparr>) = owed es c" "owed es (c\<lparr>ec_taken := t\<rparr>) = owed es c"
  by (simp_all add: owed_def)

lemma chan_ok_closed: "chan_ok es True c \<Longrightarrow> chan_ok es False (c\<lparr>ec_closed := True\<rparr>)"
  by (simp add: chan_ok_def)

lemma chan_ok_behind: "chan_ok es False c \<Longrightarrow> chan_ok (es @ [e]) False c"
  by (auto simp: chan_ok_def owed_snoc)

lemma chan_ok_taken:
  "chan_ok es live c \<Longrightarrow> ec_buffer c = e # rest \<Longrightarrow> chan_ok es live (c\<lparr>ec_buffer := rest, ec_taken := ec_taken c @ [e]\<rparr>)"
  by (cases live) (simp_all add: chan_ok_def)

subsection \<open>Closing and taking\<close>

lemma close_chan_ok: "chans_ok s \<Longrightarrow> i \<in> sv_subscribers s \<Longrightarrow> chans_ok (close_chan i s)"
proof -
  assume ok: "chans_ok s" and i: "i \<in> sv_subscribers s"
  have c: "chan_ok (sv_events s) True (sv_chans s i)" using ok i by (rule chans_okD)
  then have "\<not> ec_closed (sv_chans s i)" "chan_ok (sv_events s) False ((sv_chans s i)\<lparr>ec_closed := True\<rparr>)"
    by (simp add: chan_ok_def) (rule chan_ok_closed [OF c])
  then show ?thesis using ok by (auto simp: chans_ok_def close_chan_def)
qed

lemma close_chan_fields [simp]:
  "sv_events (close_chan i s) = sv_events s" "sv_pendingAuth (close_chan i s) = sv_pendingAuth s"
  "sv_eventDone (close_chan i s) = sv_eventDone s" "sv_nextEventID (close_chan i s) = sv_nextEventID s"
  "sv_subscribers (close_chan i s) = sv_subscribers s - {i}"
  by (simp_all add: close_chan_def)

lemma close_chan_done: "done_ok s \<Longrightarrow> done_ok (close_chan i s)"
  by (auto simp: done_ok_def close_chan_def)

lemma close_all_ok:
  "chans_ok s \<Longrightarrow> distinct is \<Longrightarrow> set is \<subseteq> sv_subscribers s \<Longrightarrow>
     chans_ok (foldl (\<lambda>s i. close_chan i s) s is)
     \<and> sv_subscribers (foldl (\<lambda>s i. close_chan i s) s is) = sv_subscribers s - set is
     \<and> sv_events (foldl (\<lambda>s i. close_chan i s) s is) = sv_events s
     \<and> sv_pendingAuth (foldl (\<lambda>s i. close_chan i s) s is) = sv_pendingAuth s"
proof (induction "is" arbitrary: s)
  case (Cons i "is")
  have "chans_ok (close_chan i s)" using Cons.prems by (intro close_chan_ok) auto
  moreover have "set is \<subseteq> sv_subscribers (close_chan i s)" using Cons.prems by auto
  ultimately show ?case using Cons.IH [of "close_chan i s"] Cons.prems by (auto simp del: foldl_Nil)
qed simp

lemma take_event_ok: "chans_ok s \<Longrightarrow> chans_ok (take_event i s)"
  unfolding chans_ok_def take_event_def using chan_ok_taken by (auto split: list.splits)

lemma take_event_fields [simp]:
  "sv_events (take_event i s) = sv_events s" "sv_pendingAuth (take_event i s) = sv_pendingAuth s"
  "sv_eventDone (take_event i s) = sv_eventDone s" "sv_subscribers (take_event i s) = sv_subscribers s"
  "ec_from (sv_chans (take_event i s) j) = ec_from (sv_chans s j)"
  by (simp_all add: take_event_def split: list.splits)

subsection \<open>Subscribing\<close>

lemma Subscribe_ok: "chans_ok s \<Longrightarrow> Subscribe ord s = Some (i, s') \<Longrightarrow> chans_ok s'"
  by (auto simp: chans_ok_def Subscribe_def Let_def chan_ok_def owed_def split: if_splits)

lemma Subscribe_fields:
  assumes "Subscribe ord s = Some (i, s')"
  shows "sv_events s' = sv_events s" "sv_pendingAuth s' = sv_pendingAuth s" "sv_eventDone s' = sv_eventDone s"
    "sv_subscribers s' = insert i (sv_subscribers s)" "ec_from (sv_chans s' i) = length (sv_events s)"
    "j \<noteq> i \<Longrightarrow> sv_chans s' j = sv_chans s j"
  using assms by (auto simp: Subscribe_def Let_def split: if_splits)

subsection \<open>Sending\<close>

text \<open>During a broadcast of \<open>e\<close>, the subscribers in \<open>todo\<close> have not had it yet.\<close>

definition sending :: "Event list \<Rightarrow> Event \<Rightarrow> nat set \<Rightarrow> control_service \<Rightarrow> bool" where
  "sending es e todo s \<longleftrightarrow>
     sv_subscribers s \<subseteq> {1..sv_nextEventID s} \<and> \<not> sv_panicked s \<and> todo \<subseteq> sv_subscribers s
     \<and> (\<forall>i \<in> {1..sv_nextEventID s}. chan_ok (if i \<in> todo then es else es @ [e]) (i \<in> sv_subscribers s) (sv_chans s i))"

lemma chan_ok_sent:
  "chan_ok es True c \<Longrightarrow> length (ec_buffer c) < serviceEventBuffer \<Longrightarrow> chan_ok (es @ [e]) True (c\<lparr>ec_buffer := ec_buffer c @ [e]\<rparr>)"
  by (simp add: chan_ok_def owed_snoc flip: append_assoc)

lemma send_event_sending:
  assumes "sending es e (insert i todo) s" and "i \<notin> todo"
  shows "sending es e todo (send_event e s i)"
proof -
  have i: "i \<in> sv_subscribers s" "1 \<le> i" "i \<le> sv_nextEventID s" using assms(1) by (auto simp: sending_def)
  have "chan_ok (if i \<in> insert i todo then es else es @ [e]) (i \<in> sv_subscribers s) (sv_chans s i)"
    using assms(1) i unfolding sending_def by (meson atLeastAtMost_iff)
  then have c: "chan_ok es True (sv_chans s i)" using i by simp
  show ?thesis
  proof (cases "length (ec_buffer (sv_chans s i)) < serviceEventBuffer")
    case True
    show ?thesis using assms i c chan_ok_sent [OF c True, of e] True by (auto simp: sending_def send_event_def chan_ok_def)
  next
    case False
    have "chan_ok (es @ [e]) False ((sv_chans s i)\<lparr>ec_closed := True\<rparr>)" by (intro chan_ok_behind chan_ok_closed c)
    then show ?thesis using assms i c False by (auto simp: sending_def send_event_def close_chan_def chan_ok_def)
  qed
qed

lemma send_event_fields [simp]:
  "sv_events (send_event e s i) = sv_events s" "sv_pendingAuth (send_event e s i) = sv_pendingAuth s"
  "sv_eventDone (send_event e s i) = sv_eventDone s"
  by (simp_all add: send_event_def)

lemma send_event_all:
  "sending es e (set is) s \<Longrightarrow> distinct is \<Longrightarrow> sending es e {} (foldl (send_event e) s is)"
  by (induction "is" arbitrary: s) (auto intro: send_event_sending)

lemma send_event_all_fields [simp]:
  "sv_events (foldl (send_event e) s is) = sv_events s" "sv_pendingAuth (foldl (send_event e) s is) = sv_pendingAuth s"
  "sv_eventDone (foldl (send_event e) s is) = sv_eventDone s"
  by (induction "is" arbitrary: s) simp_all

lemma sending_start:
  "chans_ok s \<Longrightarrow> sending (sv_events s) e (sv_subscribers s) (s\<lparr>sv_pendingAuth := p, sv_events := sv_events s @ [e]\<rparr>)"
  using chan_ok_behind by (auto simp: chans_ok_def sending_def)

lemma broadcast_ok:
  assumes "visits_all ord" and "chans_ok s"
  shows "chans_ok (broadcast ord e s)"
proof -
  let ?s = "s\<lparr>sv_pendingAuth := updatePendingAuth e (sv_pendingAuth s), sv_events := sv_events s @ [e]\<rparr>"
  have "sending (sv_events s) e (set (ord (sv_subscribers s))) ?s"
    using sending_start [OF assms(2)] visits_allD(1) [OF assms(1) chans_okD(1) [OF assms(2)]] by simp
  then have "sending (sv_events s) e {} (broadcast ord e s)"
    unfolding broadcast_def using visits_allD(2) [OF assms(1) chans_okD(1) [OF assms(2)]] by (rule send_event_all)
  then show ?thesis by (simp add: sending_def chans_ok_def broadcast_def)
qed

lemma broadcast_pending: "pending_ok s \<Longrightarrow> pending_ok (broadcast ord e s)"
proof -
  assume ok: "pending_ok s"
  then have "sv_pendingAuth s [] = None" by (cases "sv_pendingAuth s []") (auto simp: pending_ok_def open_question_def asks_def)
  then show ?thesis
    using ok updatePendingAuth_dom by (auto simp: pending_ok_def broadcast_def open_question_snoc updatePendingAuth_Some)
qed

lemma broadcast_fields [simp]: "sv_eventDone (broadcast ord e s) = sv_eventDone s" "sv_events (broadcast ord e s) = sv_events s @ [e]"
  by (simp_all add: broadcast_def)

subsection \<open>Every run\<close>

definition service_ok :: "control_service \<Rightarrow> bool" where
  "service_ok s \<longleftrightarrow> chans_ok s \<and> pending_ok s \<and> done_ok s"

lemma broadcasts_ok:
  "visits_all ord \<Longrightarrow> chans_ok s \<Longrightarrow> pending_ok s \<Longrightarrow>
     chans_ok (foldl (\<lambda>s e. broadcast ord e s) s es) \<and> pending_ok (foldl (\<lambda>s e. broadcast ord e s) s es)"
  by (induction es arbitrary: s) (auto intro: broadcast_ok broadcast_pending)

lemma done_mark_ok [simp]: "chans_ok (s\<lparr>sv_eventDone := d\<rparr>) = chans_ok s"
  by (simp add: chans_ok_def)

lemma forward_end_ok:
  assumes "visits_all ord" and "service_ok s"
  shows "service_ok (forward_end ord rest s)" and "sv_subscribers (forward_end ord rest s) = {}"
proof -
  let ?t = "foldl (\<lambda>s e. broadcast ord e s) s rest"
  have t: "chans_ok ?t" "pending_ok ?t" using broadcasts_ok [of ord s rest] assms by (simp_all add: service_ok_def)
  note v = visits_allD [OF assms(1) chans_okD(1) [OF t(1)]]
  note c = close_all_ok [OF t(1) v(2)]
  show "service_ok (forward_end ord rest s)"
    using c v(1) t(2)
    by (simp add: service_ok_def forward_end_def closeSubscribers_def pending_ok_def done_ok_def done_mark_ok)
  show "sv_subscribers (forward_end ord rest s) = {}"
    using c v(1) by (simp add: forward_end_def closeSubscribers_def)
qed

lemma control_Close_once:
  assumes "visits_all ord" "service_ok (fst sm)" and c: "control_Close close rest ord None sm = (e, once, sm')"
  shows "service_ok (fst sm') \<and> (sv_eventDone (fst sm) \<or> sv_subscribers (fst sm') = {}) \<and> sv_eventDone (fst sm')
    \<and> control_Close close rest ord once sm' = (e, once, sm')"
  using assms(2) forward_end_ok [OF assms(1,2)] c
  by (auto simp: control_Close_def split: prod.splits if_splits) (simp add: forward_end_def)

text \<open>
  A run of the service: \<^verbatim>\<open>forwardEvents\<close> ends once and sends nothing afterwards; a subscription that would block for ever is not a step of a run.
\<close>

datatype service_op = OpSubscribe | OpBroadcast Event | OpTake nat | OpRemove nat | OpEnd "Event list"

fun service_step :: "((string \<rightharpoonup> Event) \<Rightarrow> string list) \<Rightarrow> (nat set \<Rightarrow> nat list) \<Rightarrow> control_service \<Rightarrow> service_op \<Rightarrow> control_service" where
  "service_step kord ord s OpSubscribe = (case Subscribe kord s of None \<Rightarrow> s | Some (_, s') \<Rightarrow> s')"
| "service_step kord ord s (OpBroadcast e) = (if sv_eventDone s then s else broadcast ord e s)"
| "service_step kord ord s (OpTake i) = take_event i s"
| "service_step kord ord s (OpRemove i) = removeSubscriber i s"
| "service_step kord ord s (OpEnd rest) = (if sv_eventDone s then s else forward_end ord rest s)"

definition run_service :: "((string \<rightharpoonup> Event) \<Rightarrow> string list) \<Rightarrow> (nat set \<Rightarrow> nat list) \<Rightarrow> service_op list \<Rightarrow> control_service" where
  "run_service kord ord xs = foldl (service_step kord ord) NewService xs"

lemma service_step_ok:
  assumes "visits_all ord" and ok: "service_ok s"
  shows "service_ok (service_step kord ord s x)"
proof (cases x)
  case OpSubscribe
  show ?thesis
  proof (cases "Subscribe kord s")
    case (Some p)
    then obtain i s' where s': "Subscribe kord s = Some (i, s')" by (cases p) simp
    note f = Subscribe_fields [OF s']
    have "done_ok s'" unfolding done_ok_def f(1,3,4) using ok f(5) f(6) by (auto simp: service_ok_def done_ok_def) (metis f(6))
    moreover have "pending_ok s'" using ok by (simp add: service_ok_def pending_ok_def f(1,2))
    ultimately show ?thesis using OpSubscribe s' Subscribe_ok [OF _ s'] ok by (simp add: service_ok_def)
  qed (simp add: OpSubscribe ok)
next
  case (OpBroadcast e)
  then show ?thesis using assms broadcast_ok broadcast_pending by (auto simp: service_ok_def done_ok_def)
next
  case (OpTake i)
  then show ?thesis using ok take_event_ok by (simp add: service_ok_def pending_ok_def done_ok_def)
next
  case (OpRemove i)
  then show ?thesis using ok close_chan_ok close_chan_done by (simp add: service_ok_def pending_ok_def removeSubscriber_def)
next
  case (OpEnd rest)
  then show ?thesis using assms forward_end_ok(1) by simp
qed

lemma NewService_ok: "service_ok NewService"
  by (simp add: service_ok_def NewService_def chans_ok_def pending_ok_def done_ok_def)

subsection \<open>The questions a subscription starts with\<close>

definition history_kept :: "control_service \<Rightarrow> control_service \<Rightarrow> bool" where
  "history_kept s s' \<longleftrightarrow>
     sv_nextEventID s' = sv_nextEventID s \<and> prefix (sv_events s) (sv_events s')
     \<and> (\<forall>i. ec_open (sv_chans s' i) = ec_open (sv_chans s i) \<and> ec_from (sv_chans s' i) = ec_from (sv_chans s i))"

named_theorems history

lemma history_refl [history]: "history_kept s s"
  by (simp add: history_kept_def)

lemma history_trans: "history_kept s t \<Longrightarrow> history_kept t u \<Longrightarrow> history_kept s u"
  by (auto simp: history_kept_def)

lemma history_foldl: "(\<And>s x. history_kept s (f s x)) \<Longrightarrow> history_kept s (foldl f s xs)"
proof (induction xs arbitrary: s)
  case (Cons x xs)
  show ?case using history_trans [OF Cons.prems Cons.IH [OF Cons.prems]] by simp
qed (simp add: history_refl)

lemma history_close [history]: "history_kept s (close_chan i s)"
  by (simp add: history_kept_def close_chan_def)

lemma history_take [history]: "history_kept s (take_event i s)"
  by (simp add: history_kept_def take_event_def split: list.splits)

lemma history_remove [history]: "history_kept s (removeSubscriber i s)"
  by (simp add: removeSubscriber_def history)

lemma history_send [history]: "history_kept s (send_event e s i)"
  by (simp add: send_event_def history) (simp add: history_kept_def)

lemma history_broadcast [history]: "history_kept s (broadcast ord e s)"
  unfolding broadcast_def
  by (rule history_trans [OF _ history_foldl [where f = "send_event e", OF history_send]]) (simp add: history_kept_def)

lemma history_end [history]: "history_kept s (forward_end ord rest s)"
proof -
  have "history_kept s (foldl (\<lambda>s e. broadcast ord e s) s rest)" by (rule history_foldl) (rule history_broadcast)
  then have "history_kept s (closeSubscribers ord (foldl (\<lambda>s e. broadcast ord e s) s rest))"
    unfolding closeSubscribers_def by (rule history_trans) (rule history_foldl, rule history_close)
  then show ?thesis by (simp add: history_kept_def forward_end_def)
qed

definition asked_ok :: "control_service \<Rightarrow> bool" where
  "asked_ok s \<longleftrightarrow>
     (\<forall>i \<in> {1..sv_nextEventID s}. ec_from (sv_chans s i) \<le> length (sv_events s)
        \<and> set (ec_open (sv_chans s i)) = {e. \<exists>k. open_question (take (ec_from (sv_chans s i)) (sv_events s)) k e})"

lemma asked_kept: "asked_ok s \<Longrightarrow> history_kept s s' \<Longrightarrow> asked_ok s'"
  by (auto simp: asked_ok_def history_kept_def prefix_def)

lemma asked_Subscribe:
  assumes "ranges kord" "pending_ok s" "asked_ok s" and s': "Subscribe kord s = Some (i, s')"
  shows "asked_ok s'"
proof -
  have k: "set (kord (sv_pendingAuth s)) = dom (sv_pendingAuth s)" using assms(1,2) rangesD by (auto simp: pending_ok_def)
  have q: "set (map (\<lambda>k. the (sv_pendingAuth s k)) (kord (sv_pendingAuth s))) = {e. \<exists>k. open_question (sv_events s) k e}"
    using assms(2) unfolding set_map k by (force simp: pending_ok_def)
  have i: "i = Suc (sv_nextEventID s)" "sv_nextEventID s' = i"
    "sv_chans s' i = \<lparr> ec_buffer = map (\<lambda>k. the (sv_pendingAuth s k)) (kord (sv_pendingAuth s)), ec_taken = [], ec_closed = False,
       ec_open = map (\<lambda>k. the (sv_pendingAuth s k)) (kord (sv_pendingAuth s)), ec_from = length (sv_events s) \<rparr>"
    using s' by (auto simp: Subscribe_def Let_def split: if_splits)
  show ?thesis unfolding asked_ok_def Subscribe_fields(1) [OF s']
  proof
    fix j assume j: "j \<in> {1..sv_nextEventID s'}"
    show "ec_from (sv_chans s' j) \<le> length (sv_events s)
      \<and> set (ec_open (sv_chans s' j)) = {e. \<exists>k. open_question (take (ec_from (sv_chans s' j)) (sv_events s)) k e}"
    proof (cases "j = i")
      case True
      then show ?thesis using q by (simp add: i(3))
    next
      case False
      then have "j \<in> {1..sv_nextEventID s}" using j i(1,2) by auto
      then show ?thesis using assms(3) Subscribe_fields(6) [OF s' False] by (auto simp: asked_ok_def)
    qed
  qed
qed

lemma asked_step:
  assumes "ranges kord" "service_ok s" "asked_ok s"
  shows "asked_ok (service_step kord ord s x)"
proof (cases x)
  case OpSubscribe
  then show ?thesis using assms asked_Subscribe [OF assms(1) _ assms(3)] by (auto simp: service_ok_def split: option.splits)
next
  case (OpRemove i)
  then show ?thesis using asked_kept [OF assms(3) history_remove] by simp
qed (use asked_kept [OF assms(3)] assms(3) in \<open>auto simp: history\<close>)

lemma NewService_asked: "asked_ok NewService"
  by (simp add: asked_ok_def NewService_def)

interpretation control_run: step_system "\<lambda>s. s = NewService" "service_step kord ord"
  "\<lambda>s. visits_all ord \<longrightarrow> ranges kord \<longrightarrow> service_ok s \<and> asked_ok s" for kord ord
  by unfold_locales (simp_all add: NewService_ok NewService_asked service_step_ok asked_step)

text \<open>C32. In every run of the control service, whatever the interleaving of subscriptions, events, readers and cancellations: nothing is sent on or closed
  twice on a closed channel (both panic in Go); the questions kept as pending are exactly those some event asked and no later event asked again or
  settled; every subscription starts with exactly the questions that were open when it was made; what a subscriber that is still registered has read,
  with what is buffered for it, is these questions followed by every event since, without a gap; one that was closed, because it was too slow, was
  cancelled or the service ended, has a prefix of that; no channel holds more than its buffer; and one that is still registered after the service
  ended was made after the last event.
\<close>

theorem control_events_gapless:
  assumes "visits_all ord" "ranges kord" and "s = run_service kord ord xs" and "1 \<le> i" "i \<le> sv_nextEventID s" and "c = sv_chans s i"
  shows "\<not> sv_panicked s
    \<and> (\<forall>k e. sv_pendingAuth s k = Some e \<longleftrightarrow> open_question (sv_events s) k e)
    \<and> set (ec_open c) = {e. \<exists>k. open_question (take (ec_from c) (sv_events s)) k e}
    \<and> length (ec_buffer c) \<le> serviceEventBuffer
    \<and> (i \<in> sv_subscribers s \<longrightarrow> \<not> ec_closed c \<and> ec_taken c @ ec_buffer c = ec_open c @ drop (ec_from c) (sv_events s)
         \<and> (sv_eventDone s \<longrightarrow> ec_from c = length (sv_events s)))
    \<and> (i \<notin> sv_subscribers s \<longrightarrow> ec_closed c \<and> prefix (ec_taken c @ ec_buffer c) (ec_open c @ drop (ec_from c) (sv_events s)))"
proof -
  have ok: "service_ok s" "asked_ok s" using control_run.run_inv [of NewService ord kord xs] assms by (simp_all add: run_service_def)
  have c: "chan_ok (sv_events s) (i \<in> sv_subscribers s) c" using ok(1) assms(4-6) by (simp add: service_ok_def chans_ok_def)
  have "sv_eventDone s \<Longrightarrow> i \<in> sv_subscribers s \<Longrightarrow> ec_from c = length (sv_events s)"
    using ok(1) assms(6) by (simp add: service_ok_def done_ok_def)
  moreover have "set (ec_open c) = {e. \<exists>k. open_question (take (ec_from c) (sv_events s)) k e}" using ok(2) assms(4-6) by (simp add: asked_ok_def)
  moreover have "\<not> sv_panicked s" "\<forall>k e. sv_pendingAuth s k = Some e \<longleftrightarrow> open_question (sv_events s) k e"
    using ok(1) by (simp_all add: service_ok_def chans_ok_def pending_ok_def)
  ultimately show ?thesis using c unfolding chan_ok_def owed_def by (cases "i \<in> sv_subscribers s") simp_all
qed

definition demo_ask :: Event where
  "demo_ask = (event_of ''s'' EventTypeAuthRequired 1)\<lparr>ev_Auth := Some demo_choice\<rparr>"

definition demo_service :: control_service where
  "demo_service = run_service by_key sorted_list_of_set
     [OpBroadcast demo_ask, OpSubscribe, OpBroadcast (event_of ''s'' EventTypeLog 2), OpTake 1, OpRemove 1, OpEnd []]"

theorem control_events_gapless_witness:
  "ec_closed (sv_chans demo_service 1) \<and> ec_taken (sv_chans demo_service 1) = [demo_ask]
   \<and> prefix (ec_taken (sv_chans demo_service 1) @ ec_buffer (sv_chans demo_service 1))
       (ec_open (sv_chans demo_service 1) @ drop (ec_from (sv_chans demo_service 1)) (sv_events demo_service))"
proof -
  have "sv_nextEventID demo_service = 1 \<and> sv_subscribers demo_service = {} \<and> ec_taken (sv_chans demo_service 1) = [demo_ask]"
    by (simp add: demo_service_def run_service_def NewService_def broadcast_def Subscribe_def take_event_def removeSubscriber_def close_chan_def send_event_def
        forward_end_def closeSubscribers_def updatePendingAuth_def demo_ask_def demo_choice_def auth_id_def event_of_def by_key_def serviceEventBuffer_def Let_def)
  then show ?thesis
    using control_events_gapless [OF visits_sorted ranges_by_key demo_service_def, of 1 "sv_chans demo_service 1"] by simp
qed

text \<open>The questions that are open do not fit the buffer: the subscription blocks with the mutex held.\<close>

lemma Subscribe_blocks: "length (kord (sv_pendingAuth s)) > 128 \<Longrightarrow> Subscribe kord s = None"
  by (simp add: Subscribe_def serviceEventBuffer_def)

section \<open>Calls\<close>

text \<open>Every line gets one response with the line's own identifier, with a result or an error and not both.\<close>

definition answers :: "(string \<Rightarrow> JsonlRequest result) \<Rightarrow> string \<Rightarrow> JsonlResponse \<Rightarrow> bool" where
  "answers unmarshal line r \<longleftrightarrow>
     (res_Result r = None) \<noteq> (res_Error r = None)
     \<and> res_ID r = (case unmarshal line of Inl _ \<Rightarrow> ''null'' | Inr q \<Rightarrow> normalizeID (req_ID q))"

lemma handleLine_answers: "answers unmarshal line (fst (handleLine ops codec version capabilities unmarshal line m))"
  by (auto simp: answers_def handleLine_def normalizeID_def split: sum.splits prod.splits)

lemma handle_lines_answer:
  "list_all2 (answers unmarshal) order (fst (handle_lines ops codec version capabilities unmarshal order m))"
proof (induction order arbitrary: m)
  case (Cons line order)
  show ?case using handleLine_answers [of unmarshal line ops codec version capabilities m] Cons.IH
    by (simp split: prod.splits) (metis fst_conv)
qed simp

text \<open>The methods that take a session only.\<close>

lemma decode_session_calls:
  "decode_call ops codec ''session.stop'' raw = session_params_call codec raw CallStop"
  "decode_call ops codec ''session.status'' raw = session_params_call codec raw CallStatus"
  "decode_call ops codec ''resources.get'' raw = session_params_call codec raw CallResources"
  "decode_call ops codec ''resources.refresh'' raw = session_params_call codec raw CallRefresh"
  "decode_call ops codec ''services.get'' raw = session_params_call codec raw CallServices"
  "decode_call ops codec ''traffic.get'' raw = session_params_call codec raw CallTraffic"
  "decode_call ops codec ''connections.list'' raw = session_params_call codec raw CallConnections"
  "decode_call ops codec ''transport_connections.list'' raw = session_params_call codec raw CallTransports"
  "decode_call ops codec ''routing.mode.get'' raw = session_params_call codec raw CallRoutingGet"
  "decode_call ops codec ''resume_state.get'' raw = session_params_call codec raw CallResumeState"
  by (simp_all add: decode_call_def)

text \<open>A request that does not decode changes nothing, and neither does a question.\<close>

definition reading :: "control_call \<Rightarrow> bool" where
  "reading c \<longleftrightarrow>
     (case c of CallHello _ \<Rightarrow> True | CallStatus _ \<Rightarrow> True | CallResources _ \<Rightarrow> True | CallServices _ \<Rightarrow> True | CallTraffic _ \<Rightarrow> True
      | CallConnections _ \<Rightarrow> True | CallTransports _ \<Rightarrow> True | CallRoutingGet _ \<Rightarrow> True | CallResumeState _ \<Rightarrow> True | CallConfigGet \<Rightarrow> True | _ \<Rightarrow> False)"

lemma Call_reading:
  "(case decode_call ops codec method raw of Inl _ \<Rightarrow> True | Inr c \<Rightarrow> reading c) \<Longrightarrow> snd (Call ops codec version capabilities method raw m) = m"
  by (auto simp: Call_def reading_def wrapped_def Let_def split: sum.splits control_call.splits option.splits)
end
