(* ===== verification/RestServer.thy ===== *)
theory RestServer
  imports ControlService Auth
begin

text \<open>
  The REST server of the control service, \<^verbatim>\<open>src/control/rest/server.go\<close>: who may ask, from where, which handler a path goes to, what each handler
  calls, and the status it answers with.

  The manager's operations are a parameter, as in the control service, here for each of the two contexts a handler can pass on. JSON and \<^verbatim>\<open>url.Parse\<close> are
  parameters; the path matching of \<^verbatim>\<open>http.ServeMux\<close> and \<^verbatim>\<open>url.PathUnescape\<close> are written out.
\<close>

section \<open>Requests and replies\<close>

record http_request =
  hr_Method :: string
  hr_RequestURI :: string
  hr_EscapedPath :: string
  hr_Path :: string
  hr_Host :: string
  hr_Authorization :: string
  hr_Origin :: string
  hr_AccessToken :: string
  hr_Body :: string
  hr_Flusher :: bool

text \<open>What is written: a JSON envelope with a result or an error, the plain replies of the HTTP library, or the stream of events.\<close>

record responseEnvelope =
  re_Result :: "control_result option"
  re_Error :: "gerror option"

datatype rest_reply =
    RestJSON (rest_status: int) (rest_allow: "string list") (rest_noStore: bool) (rest_body: responseEnvelope)
  | RestNotFound
  | RestBadRequest
  | RestRedirect string
  | RestStream

datatype call_context = RequestContext | LifecycleContext

text \<open>What is left of a body and whether reading past it fails, as it does for one that is too long.\<close>

type_synonym body_stream = "string \<times> bool"

definition maxRequestBodySize :: nat where "maxRequestBodySize = 4 * 1024 * 1024"

definition MaxBytesReader :: "string \<Rightarrow> body_stream" where
  "MaxBytesReader body = (take maxRequestBodySize body, length body > maxRequestBodySize)"

record body_decoder =
  bd_start :: "body_stream \<Rightarrow> (SessionStartOptions \<times> body_stream) result"
  bd_auth :: "body_stream \<Rightarrow> (AuthResponse \<times> body_stream) result"
  bd_routing :: "body_stream \<Rightarrow> ((SessionID \<times> RoutingMode) \<times> body_stream) result"
  bd_config :: "body_stream \<Rightarrow> (daemonConfig \<times> body_stream) result"
  bd_patch :: "body_stream \<Rightarrow> (bytes \<times> body_stream) result"
  bd_apply :: "body_stream \<Rightarrow> (string \<times> body_stream) result"
  bd_extra :: "body_stream \<Rightarrow> gerror option"

record param_encoder =
  en_hello :: "int \<Rightarrow> string"
  en_start :: "SessionStartOptions \<Rightarrow> string"
  en_auth :: "AuthResponse \<Rightarrow> string"
  en_session :: "SessionID \<Rightarrow> string"
  en_close :: "SessionID \<times> string \<Rightarrow> string"
  en_routing :: "SessionID \<times> RoutingMode \<Rightarrow> string"
  en_config :: "daemonConfig \<Rightarrow> string"
  en_patch :: "bytes \<Rightarrow> string"
  en_apply :: "string \<Rightarrow> string"

record 'm rest_server =
  sr_ops :: "call_context \<Rightarrow> 'm control_manager"
  sr_codec :: param_codec
  sr_version :: string
  sr_capabilities :: "string list"
  sr_token :: string
  sr_encode :: param_encoder
  sr_decode :: body_decoder
  sr_Parse :: "string \<Rightarrow> URL result"

section \<open>Answers\<close>

definition writeError :: "int \<Rightarrow> gerror \<Rightarrow> rest_reply" where
  "writeError status e = RestJSON status [] False \<lparr> re_Result = None, re_Error = Some e \<rparr>"

definition methodNotAllowed :: "string list \<Rightarrow> rest_reply" where
  "methodNotAllowed methods =
     RestJSON 405 methods False \<lparr> re_Result = None, re_Error = Some (WrapError ErrorCodeMethodNotFound ''HTTP method is not supported'' False None) \<rparr>"

fun statusForError :: "ErrorCode \<Rightarrow> int" where
  "statusForError ErrorCodeInvalidRequest = 400"
| "statusForError ErrorCodeAuthResponseInvalid = 400"
| "statusForError ErrorCodeAuthChallengeInvalid = 400"
| "statusForError ErrorCodeConfigInvalid = 400"
| "statusForError ErrorCodeSessionNotFound = 404"
| "statusForError ErrorCodeAuthChallengeNotFound = 404"
| "statusForError ErrorCodeConnectionNotFound = 404"
| "statusForError ErrorCodeSessionNotReady = 409"
| "statusForError ErrorCodeSessionAlreadyRunning = 409"
| "statusForError ErrorCodeSessionStartFailed = 409"
| "statusForError ErrorCodeSessionCloseFailed = 409"
| "statusForError ErrorCodeRestartRequired = 409"
| "statusForError ErrorCodeAddressInUse = 409"
| "statusForError ErrorCodePermissionDenied = 403"
| "statusForError ErrorCodeTUNUnavailable = 503"
| "statusForError ErrorCodeInterfaceUnavailable = 503"
| "statusForError ErrorCodeRouteSetupFailed = 503"
| "statusForError ErrorCodeDNSStartFailed = 503"
| "statusForError ErrorCodeOutboundUnavailable = 503"
| "statusForError ErrorCodeMethodNotFound = 404"
| "statusForError ErrorCodeConfigUnavailable = 404"
| "statusForError ErrorCodeProtocolUnsupported = 426"
| "statusForError _ = 500"

definition callContext :: "'m rest_server \<Rightarrow> call_context \<Rightarrow> string \<Rightarrow> string \<Rightarrow> 'm \<Rightarrow> rest_reply \<times> 'm" where
  "callContext server ctx method params m =
     (case Call (sr_ops server ctx) (sr_codec server) (sr_version server) (sr_capabilities server) method params m of
        (Inl e, m') \<Rightarrow> (writeError (statusForError (cerr_code (control_error e))) (control_error e), m')
      | (Inr r, m') \<Rightarrow> (RestJSON 200 [] False \<lparr> re_Result = Some r, re_Error = None \<rparr>, m'))"

definition rest_call :: "'m rest_server \<Rightarrow> string \<Rightarrow> string \<Rightarrow> 'm \<Rightarrow> rest_reply \<times> 'm" where
  "rest_call server method params m = callContext server RequestContext method params m"

definition decodeBody :: "'m rest_server \<Rightarrow> (body_stream \<Rightarrow> ('a \<times> body_stream) result) \<Rightarrow> http_request \<Rightarrow> 'a result" where
  "decodeBody server decode request =
     (let wrap = (\<lambda>e. WrapError ErrorCodeInvalidRequest ''decode request body'' False (Some e))
      in case decode (MaxBytesReader (hr_Body request)) of
           Inl e \<Rightarrow> Inl (wrap e)
         | Inr (x, rest) \<Rightarrow>
             (case bd_extra (sr_decode server) rest of
                None \<Rightarrow> Inl (wrap (Opaque ''request body contains multiple JSON values''))
              | Some e \<Rightarrow> if errors_Is e IoEOF then Inr x else Inl (wrap e)))"

text \<open>A handler that reads a body answers 400 when that fails.\<close>

definition with_body ::
  "'m rest_server \<Rightarrow> (body_stream \<Rightarrow> ('a \<times> body_stream) result) \<Rightarrow> http_request \<Rightarrow> ('a \<Rightarrow> 'm \<Rightarrow> rest_reply \<times> 'm) \<Rightarrow> 'm \<Rightarrow> rest_reply \<times> 'm" where
  "with_body server decode request k m =
     (case decodeBody server decode request of Inl e \<Rightarrow> (writeError 400 e, m) | Inr x \<Rightarrow> k x m)"

section \<open>Handlers\<close>

definition handleConfig :: "'m rest_server \<Rightarrow> http_request \<Rightarrow> 'm \<Rightarrow> rest_reply \<times> 'm" where
  "handleConfig server request m =
     (if hr_Method request = ''GET'' then rest_call server ''config.get'' [] m
      else if hr_Method request = ''PUT'' then
        with_body server (bd_config (sr_decode server)) request (\<lambda>c.
          callContext server LifecycleContext ''config.set'' (en_config (sr_encode server) c)) m
      else if hr_Method request = ''PATCH'' then
        with_body server (bd_patch (sr_decode server)) request (\<lambda>p.
          callContext server LifecycleContext ''config.patch'' (en_patch (sr_encode server) p)) m
      else (methodNotAllowed [''GET'', ''PUT'', ''PATCH''], m))"

definition handleConfigApply :: "'m rest_server \<Rightarrow> http_request \<Rightarrow> 'm \<Rightarrow> rest_reply \<times> 'm" where
  "handleConfigApply server request m =
     (if hr_Method request \<noteq> ''POST'' then (methodNotAllowed [''POST''], m)
      else with_body server (bd_apply (sr_decode server)) request (\<lambda>p.
             callContext server LifecycleContext ''config.apply'' (en_apply (sr_encode server) p)) m)"

definition handleConfigReload :: "'m rest_server \<Rightarrow> http_request \<Rightarrow> 'm \<Rightarrow> rest_reply \<times> 'm" where
  "handleConfigReload server request m =
     (if hr_Method request \<noteq> ''POST'' then (methodNotAllowed [''POST''], m)
      else callContext server LifecycleContext ''config.reload'' [] m)"

definition handleHello :: "'m rest_server \<Rightarrow> http_request \<Rightarrow> 'm \<Rightarrow> rest_reply \<times> 'm" where
  "handleHello server request m =
     (if hr_Method request \<noteq> ''GET'' then (methodNotAllowed [''GET''], m)
      else rest_call server ''hello'' (en_hello (sr_encode server) ProtocolVersion) m)"

definition handleSessions :: "'m rest_server \<Rightarrow> http_request \<Rightarrow> 'm \<Rightarrow> rest_reply \<times> 'm" where
  "handleSessions server request m =
     (if hr_Method request \<noteq> ''POST'' then (methodNotAllowed [''POST''], m)
      else with_body server (bd_start (sr_decode server)) request (\<lambda>p.
             callContext server LifecycleContext ''session.start'' (en_start (sr_encode server) p)) m)"

definition handleAuthResponse :: "'m rest_server \<Rightarrow> http_request \<Rightarrow> 'm \<Rightarrow> rest_reply \<times> 'm" where
  "handleAuthResponse server request m =
     (if hr_Method request \<noteq> ''POST'' then (methodNotAllowed [''POST''], m)
      else with_body server (bd_auth (sr_decode server)) request (\<lambda>r.
             rest_call server ''auth.respond'' (en_auth (sr_encode server) r)) m)"

text \<open>The subscription and what is written to the stream are below.\<close>

definition handleEvents :: "http_request \<Rightarrow> 'm \<Rightarrow> rest_reply \<times> 'm" where
  "handleEvents request m =
     (if hr_Method request \<noteq> ''GET'' then (methodNotAllowed [''GET''], m)
      else if \<not> hr_Flusher request then (writeError 500 (WrapError ErrorCodeUnknown ''streaming is unsupported'' False None), m)
      else (RestStream, m))"

subsection \<open>Paths\<close>

fun PathUnescape :: "string \<Rightarrow> string result" where
  "PathUnescape [] = Inr []"
| "PathUnescape (c # s) =
     (if c \<noteq> CHR ''%'' then rbind (PathUnescape s) (\<lambda>t. Inr (c # t))
      else case s of
             h # l # rest \<Rightarrow>
               (case (hex_val h, hex_val l) of
                  (Some x, Some y) \<Rightarrow> rbind (PathUnescape rest) (\<lambda>t. Inr (char_of (16 * x + y) # t))
                | _ \<Rightarrow> Inl (Opaque (''invalid URL escape '' @ quote [c, h, l])))
           | _ \<Rightarrow> Inl (Opaque (''invalid URL escape '' @ quote (c # s))))"

definition TrimPrefix :: "string \<Rightarrow> string \<Rightarrow> string" where
  "TrimPrefix s p = (if HasPrefix s p then drop (length p) s else s)"

definition APIBasePath :: string where "APIBasePath = ''/api/v1''"

definition session_parts :: "http_request \<Rightarrow> string list" where
  "session_parts request = Split CHR ''/'' (TrimPrefix (hr_Path request) (APIBasePath @ ''/sessions/''))"

definition no_store :: "rest_reply \<times> 'm \<Rightarrow> rest_reply \<times> 'm" where
  "no_store r = (case r of (RestJSON status allow _ body, m) \<Rightarrow> (RestJSON status allow True body, m) | _ \<Rightarrow> r)"

definition handleSession :: "'m rest_server \<Rightarrow> http_request \<Rightarrow> 'm \<Rightarrow> rest_reply \<times> 'm" where
  "handleSession server request m =
     (let parts = session_parts request; method = hr_Method request
      in if parts ! 0 = [] then (RestNotFound, m)
         else case PathUnescape (parts ! 0) of
           Inl e \<Rightarrow> (writeError 400 (WrapError ErrorCodeInvalidRequest ''invalid session ID'' False (Some e)), m)
         | Inr sessionID \<Rightarrow>
             (let params = en_session (sr_encode server) sessionID
              in if length parts = 1 then
                   (if method = ''GET'' then rest_call server ''session.status'' params m
                    else if method = ''DELETE'' then rest_call server ''session.stop'' params m
                    else (methodNotAllowed [''GET'', ''DELETE''], m))
                 else if length parts = 3 \<and> parts ! 1 = ''connections'' then
                   (if method \<noteq> ''DELETE'' then (methodNotAllowed [''DELETE''], m)
                    else case PathUnescape (parts ! 2) of
                      Inl e \<Rightarrow> (writeError 400 (WrapError ErrorCodeInvalidRequest ''invalid connection ID'' False (Some e)), m)
                    | Inr connectionID \<Rightarrow> rest_call server ''connection.close'' (en_close (sr_encode server) (sessionID, connectionID)) m)
                 else if length parts = 3 \<and> parts ! 1 = ''resources'' \<and> parts ! 2 = ''refresh'' then
                   (if method \<noteq> ''POST'' then (methodNotAllowed [''POST''], m) else rest_call server ''resources.refresh'' params m)
                 else if length parts = 2 \<and> parts ! 1 = ''routing'' then
                   (if method = ''GET'' then rest_call server ''routing.mode.get'' params m
                    else if method = ''PUT'' then
                      with_body server (bd_routing (sr_decode server)) request (\<lambda>(_, mode).
                        rest_call server ''routing.mode.set'' (en_routing (sr_encode server) (sessionID, mode))) m
                    else (methodNotAllowed [''GET'', ''PUT''], m))
                 else if length parts \<noteq> 2 \<or> method \<noteq> ''GET'' then
                   (if length parts = 2 then (methodNotAllowed [''GET''], m) else (RestNotFound, m))
                 else if parts ! 1 = ''resources'' then rest_call server ''resources.get'' params m
                 else if parts ! 1 = ''services'' then rest_call server ''services.get'' params m
                 else if parts ! 1 = ''traffic'' then rest_call server ''traffic.get'' params m
                 else if parts ! 1 = ''connections'' then rest_call server ''connections.list'' params m
                 else if parts ! 1 = ''transport-connections'' then rest_call server ''transport_connections.list'' params m
                 else if parts ! 1 = ''resume-state'' then no_store (rest_call server ''resume_state.get'' params m)
                 else (RestNotFound, m)))"

section \<open>Which handler\<close>

datatype rest_route =
  RouteHello | RouteSessions | RouteSession | RouteAuth | RouteEvents | RouteConfig | RouteConfigApply | RouteConfigReload

definition route_of :: "string list \<Rightarrow> rest_route option" where
  "route_of segs =
     (if segs = [''api'', ''v1'', ''hello''] then Some RouteHello
      else if segs = [''api'', ''v1'', ''sessions''] then Some RouteSessions
      else if take 3 segs = [''api'', ''v1'', ''sessions''] then Some RouteSession
      else if segs = [''api'', ''v1'', ''auth'', ''responses''] then Some RouteAuth
      else if segs = [''api'', ''v1'', ''events''] then Some RouteEvents
      else if segs = [''api'', ''v1'', ''config''] then Some RouteConfig
      else if segs = [''api'', ''v1'', ''config'', ''apply''] then Some RouteConfigApply
      else if segs = [''api'', ''v1'', ''config'', ''reload''] then Some RouteConfigReload
      else None)"

text \<open>The segments of a path are matched unescaped, one that does not unescape as it is.\<close>

definition path_segments :: "string \<Rightarrow> string list" where
  "path_segments path = map (\<lambda>s. case PathUnescape s of Inl _ \<Rightarrow> s | Inr t \<Rightarrow> t) (Split CHR ''/'' (drop 1 path))"

fun clean_segments :: "string list \<Rightarrow> string list \<Rightarrow> string list" where
  "clean_segments acc [] = rev acc"
| "clean_segments acc (s # segs) =
     (if s = [] \<or> s = ''.'' then clean_segments acc segs
      else if s = ''..'' then clean_segments (tl acc) segs
      else clean_segments (s # acc) segs)"

definition cleanPath :: "string \<Rightarrow> string" where
  "cleanPath p =
     (if p = [] then ''/''
      else let q = (if hd p = CHR ''/'' then p else CHR ''/'' # p); np = ''/'' @ join_with ''/'' (clean_segments [] (Split CHR ''/'' q))
           in if last q = CHR ''/'' \<and> np \<noteq> ''/'' then np @ ''/'' else np)"

definition serve_route :: "'m rest_server \<Rightarrow> http_request \<Rightarrow> rest_route \<Rightarrow> 'm \<Rightarrow> rest_reply \<times> 'm" where
  "serve_route server request route =
     (case route of
        RouteHello \<Rightarrow> handleHello server request
      | RouteSessions \<Rightarrow> handleSessions server request
      | RouteSession \<Rightarrow> handleSession server request
      | RouteAuth \<Rightarrow> handleAuthResponse server request
      | RouteEvents \<Rightarrow> handleEvents request
      | RouteConfig \<Rightarrow> handleConfig server request
      | RouteConfigApply \<Rightarrow> handleConfigApply server request
      | RouteConfigReload \<Rightarrow> handleConfigReload server request)"

text \<open>
  \<^verbatim>\<open>http.ServeMux\<close>: a path that is not clean is redirected, except for CONNECT. Both \<^verbatim>\<open>/sessions\<close> and \<^verbatim>\<open>/sessions/\<close> are registered, so that the redirection
  to a trailing slash does not arise.
\<close>

definition mux_ServeHTTP :: "'m rest_server \<Rightarrow> http_request \<Rightarrow> 'm \<Rightarrow> rest_reply \<times> 'm" where
  "mux_ServeHTTP server request m =
     (let escaped = hr_EscapedPath request; path = (if hr_Method request = ''CONNECT'' then escaped else cleanPath escaped)
      in if hr_RequestURI request = ''*'' then (RestBadRequest, m)
         else if path \<noteq> escaped then (RestRedirect path, m)
         else case route_of (path_segments path) of
                None \<Rightarrow> (RestNotFound, m)
              | Some route \<Rightarrow> serve_route server request route m)"

section \<open>Who may ask\<close>

definition ConstantTimeCompare :: "string \<Rightarrow> string \<Rightarrow> bool" where
  "ConstantTimeCompare a b \<longleftrightarrow> length a = length b \<and> list_all (\<lambda>(x, y). x = y) (zip a b)"

definition authorized :: "'m rest_server \<Rightarrow> http_request \<Rightarrow> bool" where
  "authorized server request \<longleftrightarrow>
     (if sr_token server = [] then True
      else let provided = TrimPrefix (hr_Authorization request) ''Bearer ''
           in if length provided = length (sr_token server) \<and> ConstantTimeCompare provided (sr_token server) then True
              else if hr_Path request = APIBasePath @ ''/events'' then
                length (hr_AccessToken request) = length (sr_token server) \<and> ConstantTimeCompare (hr_AccessToken request) (sr_token server)
              else False)"

definition sameOrigin :: "'m rest_server \<Rightarrow> http_request \<Rightarrow> bool" where
  "sameOrigin server request \<longleftrightarrow>
     (if hr_Origin request = [] then True
      else case sr_Parse server (hr_Origin request) of
             Inl _ \<Rightarrow> False
           | Inr u \<Rightarrow> url_Host u = hr_Host request \<and> url_Scheme u \<in> {''http'', ''https''})"

definition rest_ServeHTTP :: "'m rest_server \<Rightarrow> http_request \<Rightarrow> 'm \<Rightarrow> rest_reply \<times> 'm" where
  "rest_ServeHTTP server request m =
     (if \<not> authorized server request then
        (writeError 401 (WrapError ErrorCodeInvalidRequest ''unauthorized control request'' False None), m)
      else if \<not> sameOrigin server request then
        (writeError 403 (WrapError ErrorCodeInvalidRequest ''cross-origin control request is forbidden'' False None), m)
      else mux_ServeHTTP server request m)"

section \<open>The stream of events\<close>

datatype stream_input = StreamDone | StreamTick | StreamClosed | StreamEvent Event

fun EventType_String :: "EventType \<Rightarrow> string" where
  "EventType_String EventTypeSessionStateChanged = ''session.state_changed''"
| "EventType_String EventTypeAuthRequired = ''auth.required''"
| "EventType_String EventTypeAuthBrowserRequired = ''auth.browser_required''"
| "EventType_String EventTypeAuthCompleted = ''auth.completed''"
| "EventType_String EventTypeResourcesUpdated = ''resources.updated''"
| "EventType_String EventTypeNodeSelected = ''node.selected''"
| "EventType_String EventTypeServiceStarted = ''service.started''"
| "EventType_String EventTypeServiceStopped = ''service.stopped''"
| "EventType_String EventTypeSessionError = ''session.error''"
| "EventType_String EventTypeReconnectScheduled = ''session.reconnect_scheduled''"
| "EventType_String EventTypeReconnectFailed = ''session.reconnect_failed''"
| "EventType_String EventTypeReconnected = ''session.reconnected''"
| "EventType_String EventTypeRoutingModeChanged = ''routing.mode_changed''"
| "EventType_String EventTypeShutdownCompleted = ''shutdown.completed''"
| "EventType_String EventTypeResumeStateUpdated = ''session.resume_state_updated''"
| "EventType_String EventTypeResumeStateInvalidated = ''session.resume_state_invalidated''"
| "EventType_String EventTypeLog = ''log''"
| "EventType_String (EventTypeOther s) = s"

definition newline :: char where "newline = char_of (10 :: nat)"

definition blank_line :: string where "blank_line = [newline, newline]"

text \<open>What the loop of \<^verbatim>\<open>handleEvents\<close> writes, for the sequence of cases its select takes.\<close>

fun stream_loop :: "(Event \<Rightarrow> string result) \<Rightarrow> stream_input list \<Rightarrow> string" where
  "stream_loop marshal [] = []"
| "stream_loop marshal (StreamDone # xs) = []"
| "stream_loop marshal (StreamClosed # xs) = []"
| "stream_loop marshal (StreamTick # xs) = '': keepalive'' @ blank_line @ stream_loop marshal xs"
| "stream_loop marshal (StreamEvent e # xs) =
     (case marshal e of
        Inl _ \<Rightarrow> []
      | Inr data \<Rightarrow> ''event: '' @ EventType_String (ev_Type e) @ [newline] @ ''data: '' @ data @ blank_line @ stream_loop marshal xs)"

definition event_stream :: "(Event \<Rightarrow> string result) \<Rightarrow> stream_input list \<Rightarrow> string" where
  "event_stream marshal xs = '': connected'' @ blank_line @ stream_loop marshal xs"

section \<open>What a request can do\<close>

definition changing_methods :: "string set" where
  "changing_methods = {''POST'', ''PUT'', ''PATCH'', ''DELETE''}"

definition reading_methods :: "string set" where
  "reading_methods = {''hello'', ''session.status'', ''resources.get'', ''services.get'', ''traffic.get'', ''connections.list'',
     ''transport_connections.list'', ''routing.mode.get'', ''resume_state.get'', ''config.get''}"

lemma callContext_reading: "method \<in> reading_methods \<Longrightarrow> snd (callContext server ctx method params m) = m"
proof -
  assume "method \<in> reading_methods"
  then have "case decode_call (sr_ops server ctx) (sr_codec server) method params of Inl _ \<Rightarrow> True | Inr c \<Rightarrow> reading c"
    unfolding reading_methods_def
    by (elim insertE; simp add: decode_session_calls session_params_call_def rbind_def reading_def split: sum.splits)
       (simp_all add: decode_call_def config_call_def rbind_def split: sum.splits)
  from Call_reading [OF this] show ?thesis by (simp add: callContext_def split: prod.splits sum.splits) (metis snd_conv)
qed

lemma rest_call_reading [simp]: "method \<in> reading_methods \<Longrightarrow> snd (rest_call server method params m) = m"
  by (simp add: rest_call_def callContext_reading)

lemma no_store_snd [simp]: "snd (no_store r) = snd r"
  by (simp add: no_store_def split: prod.splits rest_reply.splits)

lemma handleSession_safe: "hr_Method request \<notin> changing_methods \<Longrightarrow> snd (handleSession server request m) = m"
  by (simp add: handleSession_def Let_def changing_methods_def split: sum.splits) (simp add: reading_methods_def)

lemma serve_route_safe: "hr_Method request \<notin> changing_methods \<Longrightarrow> snd (serve_route server request route m) = m"
  using handleSession_safe [of request server m]
  by (cases route)
     (simp_all add: serve_route_def handleConfig_def handleConfigApply_def handleConfigReload_def handleHello_def handleSessions_def handleAuthResponse_def
        handleEvents_def changing_methods_def reading_methods_def)

lemma mux_safe: "snd (mux_ServeHTTP server request m) \<noteq> m \<Longrightarrow> hr_Method request \<in> changing_methods"
  using serve_route_safe [of request server] by (auto simp: mux_ServeHTTP_def Let_def split: if_splits option.splits)

lemma ConstantTimeCompare_eq [simp]: "ConstantTimeCompare a b \<longleftrightarrow> a = b"
  by (auto simp: ConstantTimeCompare_def list_all_iff list_eq_iff_zip_eq)

lemma authorized_iff:
  "authorized server request \<longleftrightarrow>
     sr_token server = [] \<or> TrimPrefix (hr_Authorization request) ''Bearer '' = sr_token server
     \<or> hr_Path request = ''/api/v1/events'' \<and> hr_AccessToken request = sr_token server"
  by (auto simp: authorized_def APIBasePath_def Let_def)

section \<open>Which session a request is about\<close>

fun call_session :: "control_call \<Rightarrow> SessionID option" where
  "call_session (CallStop sid) = Some sid"
| "call_session (CallStatus sid) = Some sid"
| "call_session (CallResources sid) = Some sid"
| "call_session (CallRefresh sid) = Some sid"
| "call_session (CallServices sid) = Some sid"
| "call_session (CallTraffic sid) = Some sid"
| "call_session (CallConnections sid) = Some sid"
| "call_session (CallCloseConnection sid _) = Some sid"
| "call_session (CallTransports sid) = Some sid"
| "call_session (CallRoutingGet sid) = Some sid"
| "call_session (CallRoutingSet sid _) = Some sid"
| "call_session (CallResumeState sid) = Some sid"
| "call_session _ = None"

text \<open>What is relied on of \<^verbatim>\<open>encoding/json\<close>: parameters that were encoded decode to themselves.\<close>

definition json_law :: "'m rest_server \<Rightarrow> bool" where
  "json_law server \<longleftrightarrow>
     (\<forall>x. decodeParams (pc_session (sr_codec server)) (en_session (sr_encode server) x) = Inr x)
     \<and> (\<forall>x. decodeParams (pc_close (sr_codec server)) (en_close (sr_encode server) x) = Inr x)
     \<and> (\<forall>x. decodeParams (pc_routing (sr_codec server)) (en_routing (sr_encode server) x) = Inr x)"

text \<open>The answer to a call.\<close>

definition answer_of :: "control_result result \<times> 'm \<Rightarrow> rest_reply \<times> 'm" where
  "answer_of r =
     (case r of
        (Inl e, m) \<Rightarrow> (writeError (statusForError (cerr_code (control_error e))) (control_error e), m)
      | (Inr x, m) \<Rightarrow> (RestJSON 200 [] False \<lparr> re_Result = Some x, re_Error = None \<rparr>, m))"

lemma answer_of_snd [simp]: "snd (answer_of r) = snd r"
  by (simp add: answer_of_def split: prod.splits sum.splits)

definition answers_call :: "'m rest_server \<Rightarrow> control_call \<Rightarrow> 'm \<Rightarrow> rest_reply \<times> 'm" where
  "answers_call server c m = answer_of (dispatch (sr_ops server RequestContext) (sr_version server) (sr_capabilities server) c m)"

lemma rest_call_answers:
  "decode_call (sr_ops server RequestContext) (sr_codec server) method params = Inr c \<Longrightarrow> rest_call server method params m = answers_call server c m"
  by (simp add: rest_call_def callContext_def Call_def answers_call_def answer_of_def)

lemma session_calls:
  assumes "json_law server"
  shows "rest_call server ''session.status'' (en_session (sr_encode server) sid) = answers_call server (CallStatus sid)"
    "rest_call server ''session.stop'' (en_session (sr_encode server) sid) = answers_call server (CallStop sid)"
    "rest_call server ''resources.get'' (en_session (sr_encode server) sid) = answers_call server (CallResources sid)"
    "rest_call server ''resources.refresh'' (en_session (sr_encode server) sid) = answers_call server (CallRefresh sid)"
    "rest_call server ''services.get'' (en_session (sr_encode server) sid) = answers_call server (CallServices sid)"
    "rest_call server ''traffic.get'' (en_session (sr_encode server) sid) = answers_call server (CallTraffic sid)"
    "rest_call server ''connections.list'' (en_session (sr_encode server) sid) = answers_call server (CallConnections sid)"
    "rest_call server ''transport_connections.list'' (en_session (sr_encode server) sid) = answers_call server (CallTransports sid)"
    "rest_call server ''routing.mode.get'' (en_session (sr_encode server) sid) = answers_call server (CallRoutingGet sid)"
    "rest_call server ''resume_state.get'' (en_session (sr_encode server) sid) = answers_call server (CallResumeState sid)"
    "rest_call server ''connection.close'' (en_close (sr_encode server) (sid, cid)) = answers_call server (CallCloseConnection sid cid)"
    "rest_call server ''routing.mode.set'' (en_routing (sr_encode server) (sid, mode)) = answers_call server (CallRoutingSet sid mode)"
  using assms by (simp_all add: fun_eq_iff json_law_def decode_call_def session_params_call_def rbind_def rest_call_answers)

definition scoped :: "'m rest_server \<Rightarrow> SessionID \<Rightarrow> 'm \<Rightarrow> 'm \<Rightarrow> bool" where
  "scoped server sid m m' \<longleftrightarrow> m' = m \<or> (\<exists>c. call_session c = Some sid \<and> m' = snd (answers_call server c m))"

lemma scoped_same [simp]: "scoped server sid m m"
  by (simp add: scoped_def)

lemma scoped_call [simp]: "call_session c = Some sid \<Longrightarrow> scoped server sid m (snd (answers_call server c m))"
  by (auto simp: scoped_def)

lemma handleSession_scope:
  assumes "json_law server" "PathUnescape (session_parts request ! 0) = Inr sid"
  shows "scoped server sid m (snd (handleSession server request m))"
  using assms(2) by (simp add: handleSession_def Let_def session_calls [OF assms(1)] with_body_def split: sum.splits prod.splits)

subsection \<open>Paths of plain segments\<close>

definition plain :: "string \<Rightarrow> bool" where
  "plain s \<longleftrightarrow> s \<noteq> [] \<and> s \<noteq> ''.'' \<and> s \<noteq> ''..'' \<and> CHR ''/'' \<notin> set s \<and> CHR ''%'' \<notin> set s"

definition path_of :: "string list \<Rightarrow> string" where
  "path_of segs = ''/'' @ join_with ''/'' segs"

lemma Split_none: "sep \<notin> set s \<Longrightarrow> Split sep s = [s]"
  by (induction s) auto

lemma Split_cut: "sep \<notin> set s \<Longrightarrow> Split sep (s @ sep # t) = s # Split sep t"
  by (induction s) auto

lemma Split_join: "segs \<noteq> [] \<Longrightarrow> \<forall>s \<in> set segs. CHR ''/'' \<notin> set s \<Longrightarrow> Split CHR ''/'' (join_with ''/'' segs) = segs"
  by (induction "''/''" segs rule: join_with.induct) (simp_all add: Split_none Split_cut)

lemma PathUnescape_plain: "CHR ''%'' \<notin> set s \<Longrightarrow> PathUnescape s = Inr s"
  by (induction s) (auto simp: rbind_def)

lemma clean_plain: "\<forall>s \<in> set segs. plain s \<Longrightarrow> clean_segments acc segs = rev acc @ segs"
  by (induction segs arbitrary: acc) (auto simp: plain_def)

lemma last_join: "segs \<noteq> [] \<Longrightarrow> last segs \<noteq> [] \<Longrightarrow> last (join_with ''/'' segs) = last (last segs) \<and> join_with ''/'' segs \<noteq> []"
  by (induction "''/''" segs rule: join_with.induct) auto

lemma path_of_clean: "segs \<noteq> [] \<Longrightarrow> \<forall>s \<in> set segs. plain s \<Longrightarrow> cleanPath (path_of segs) = path_of segs"
proof -
  assume ne: "segs \<noteq> []" and ok: "\<forall>s \<in> set segs. plain s"
  have l: "plain (last segs)" using ok last_in_set [OF ne] by blast
  then have "last (last segs) \<noteq> CHR ''/''" by (metis last_in_set plain_def)
  then have "last (path_of segs) \<noteq> CHR ''/''" using last_join [OF ne] l by (simp add: path_of_def plain_def)
  moreover have "Split CHR ''/'' (path_of segs) = [] # segs" using Split_join [OF ne] ok by (simp add: path_of_def plain_def)
  ultimately show ?thesis using clean_plain [OF ok, of "[]"] by (simp add: cleanPath_def path_of_def Let_def)
qed

lemma path_of_segments: "segs \<noteq> [] \<Longrightarrow> \<forall>s \<in> set segs. plain s \<Longrightarrow> path_segments (path_of segs) = segs"
proof -
  assume ne: "segs \<noteq> []" and ok: "\<forall>s \<in> set segs. plain s"
  have "map (\<lambda>s. case PathUnescape s of Inl _ \<Rightarrow> s | Inr t \<Rightarrow> t) segs = segs"
    using ok by (intro map_idI) (simp add: PathUnescape_plain plain_def)
  then show ?thesis using Split_join [OF ne] ok by (simp add: path_segments_def path_of_def plain_def)
qed

subsection \<open>The documented operations on a session\<close>

text \<open>Method, path below the session, and the call.\<close>

definition session_api :: "SessionID \<Rightarrow> string \<Rightarrow> (string \<times> string list \<times> control_call) list" where
  "session_api sid cid =
     [(''GET'', [], CallStatus sid), (''DELETE'', [], CallStop sid),
      (''GET'', [''resources''], CallResources sid), (''POST'', [''resources'', ''refresh''], CallRefresh sid),
      (''GET'', [''services''], CallServices sid), (''GET'', [''traffic''], CallTraffic sid),
      (''GET'', [''connections''], CallConnections sid), (''DELETE'', [''connections'', cid], CallCloseConnection sid cid),
      (''GET'', [''transport-connections''], CallTransports sid), (''GET'', [''routing''], CallRoutingGet sid)]"

definition session_url :: "SessionID \<Rightarrow> string list \<Rightarrow> string" where
  "session_url sid rest = path_of ([''api'', ''v1'', ''sessions'', sid] @ rest)"

lemma session_url_parts:
  assumes "plain sid" "\<forall>s \<in> set rest. plain s" "hr_Path request = session_url sid rest"
  shows "session_parts request = sid # rest"
proof -
  have "hr_Path request = ''/api/v1/sessions/'' @ join_with ''/'' (sid # rest)" by (simp add: assms(3) session_url_def path_of_def)
  then have "TrimPrefix (hr_Path request) ''/api/v1/sessions/'' = join_with ''/'' (sid # rest)" by (simp add: TrimPrefix_def HasPrefix_def)
  then show ?thesis using Split_join [of "sid # rest"] assms(1,2) by (simp add: session_parts_def APIBasePath_def plain_def)
qed

lemma session_url_route:
  assumes "plain sid" "\<forall>s \<in> set rest. plain s" "hr_EscapedPath request = session_url sid rest" "hr_RequestURI request \<noteq> ''*''"
    "authorized server request" "sameOrigin server request"
  shows "rest_ServeHTTP server request = handleSession server request"
proof -
  have ok: "\<forall>s \<in> set ([''api'', ''v1'', ''sessions'', sid] @ rest). plain s" using assms(1,2) by (simp add: plain_def)
  have "cleanPath (hr_EscapedPath request) = hr_EscapedPath request" "path_segments (hr_EscapedPath request) = [''api'', ''v1'', ''sessions'', sid] @ rest"
    using path_of_clean [OF _ ok] path_of_segments [OF _ ok] by (simp_all add: assms(3) session_url_def)
  then show ?thesis using assms(4-6)
    by (simp add: fun_eq_iff rest_ServeHTTP_def mux_ServeHTTP_def Let_def route_of_def serve_route_def)
qed

lemma handleSession_api:
  assumes "json_law server" "plain sid" "plain cid" "(method, rest, c) \<in> set (session_api sid cid)"
    "hr_Method request = method" "session_parts request = sid # rest"
  shows "handleSession server request m = answers_call server c m"
proof -
  have u: "PathUnescape sid = Inr sid" "PathUnescape cid = Inr cid" "sid \<noteq> []" using assms(2,3) by (simp_all add: PathUnescape_plain plain_def)
  show ?thesis using assms(4) unfolding session_api_def set_simps insert_iff prod.inject empty_iff
    by (elim disjE conjE FalseE) (simp_all add: handleSession_def Let_def assms(5,6) u session_calls [OF assms(1)])
qed

lemma handleSession_routing:
  assumes "json_law server" "plain sid" "hr_Method request = ''PUT''" "session_parts request = [sid, ''routing'']"
    "decodeBody server (bd_routing (sr_decode server)) request = Inr (other, mode)"
  shows "handleSession server request m = answers_call server (CallRoutingSet sid mode) m"
  using assms(2-5) by (simp add: handleSession_def Let_def PathUnescape_plain plain_def with_body_def session_calls [OF assms(1)])

lemma session_api_plain: "plain cid \<Longrightarrow> (method, rest, c) \<in> set (session_api sid cid) \<Longrightarrow> \<forall>s \<in> set rest. plain s"
  by (auto simp: session_api_def plain_def)

section \<open>Properties\<close>

text \<open>A manager that records which sessions were stopped, with an encoding that can be decoded.\<close>

definition refuse :: "'a result" where "refuse = Inl (Opaque ''none'')"

definition demo_manager :: "string list control_manager" where
  "demo_manager =
     \<lparr> cm_StartSession = None, cm_Config = None, cm_RespondAuth = (\<lambda>_ m. (None, m)), cm_Stop = (\<lambda>sid m. (None, m @ [sid])),
           cm_Status = (\<lambda>sid m. \<lparr> status_ID = sid, status_State = SessionStateReady, status_LastError = None \<rparr>),
           cm_Resources = (\<lambda>_ _. refuse), cm_RefreshResources = (\<lambda>_ m. (refuse, m)), cm_Services = (\<lambda>_ _. refuse), cm_TrafficStats = (\<lambda>_ _. refuse),
           cm_Connections = (\<lambda>_ _. refuse), cm_CloseConnection = (\<lambda>_ _ m. (None, m)), cm_TransportConnections = (\<lambda>_ _. refuse),
           cm_RoutingMode = (\<lambda>_ _. refuse), cm_SetRoutingMode = (\<lambda>_ _ m. (None, m)), cm_ResumeState = (\<lambda>_ _. refuse) \<rparr>"

definition demo_pair :: "string \<times> string \<Rightarrow> string" where
  "demo_pair p = map (\<lambda>_. CHR ''x'') (fst p) @ CHR ''|'' # fst p @ snd p"

definition demo_unpair :: "string \<Rightarrow> string \<times> string" where
  "demo_unpair s = (let n = length (takeWhile (\<lambda>c. c \<noteq> CHR ''|'') s); t = drop (Suc n) s in (take n t, drop n t))"

lemma demo_unpair_pair [simp]: "demo_unpair (demo_pair p) = p" "demo_pair p \<noteq> []"
proof -
  have "takeWhile (\<lambda>c. c \<noteq> CHR ''|'') (demo_pair p) = map (\<lambda>_. CHR ''x'') (fst p)"
    unfolding demo_pair_def by (subst takeWhile_append2) auto
  then show "demo_unpair (demo_pair p) = p" by (simp add: demo_unpair_def demo_pair_def Let_def)
  show "demo_pair p \<noteq> []" by (simp add: demo_pair_def)
qed

fun demo_mode :: "RoutingMode \<Rightarrow> string" where
  "demo_mode RoutingModeGlobal = ''g''"
| "demo_mode RoutingModeRule = ''r''"
| "demo_mode RoutingModeDirect = ''d''"
| "demo_mode (RoutingModeOther s) = CHR ''o'' # s"

definition demo_unmode :: "string \<Rightarrow> RoutingMode" where
  "demo_unmode s = (if s = ''g'' then RoutingModeGlobal else if s = ''r'' then RoutingModeRule else if s = ''d'' then RoutingModeDirect else RoutingModeOther (tl s))"

lemma demo_unmode_mode [simp]: "demo_unmode (demo_mode mode) = mode"
  by (cases mode) (simp_all add: demo_unmode_def)

definition demo_rest :: "string \<Rightarrow> string list rest_server" where
  "demo_rest token =
     \<lparr> sr_ops = (\<lambda>_. demo_manager),
           sr_codec = \<lparr> pc_hello = (\<lambda>_. refuse), pc_start = (\<lambda>_. refuse), pc_auth = (\<lambda>_. refuse), pc_session = (\<lambda>s. Inr (tl s)),
             pc_close = (\<lambda>s. Inr (demo_unpair s)), pc_routing = (\<lambda>s. Inr (apsnd demo_unmode (demo_unpair s))), pc_config = (\<lambda>_. refuse),
             pc_patch = (\<lambda>_. refuse), pc_apply = (\<lambda>_. refuse) \<rparr>,
           sr_version = ''v1'', sr_capabilities = [], sr_token = token,
           sr_encode = \<lparr> en_hello = (\<lambda>_. []), en_start = (\<lambda>_. []), en_auth = (\<lambda>_. []), en_session = (\<lambda>s. CHR ''s'' # s), en_close = demo_pair,
             en_routing = (\<lambda>(sid, mode). demo_pair (sid, demo_mode mode)), en_config = (\<lambda>_. []), en_patch = (\<lambda>_. []), en_apply = (\<lambda>_. []) \<rparr>,
           sr_decode = \<lparr> bd_start = (\<lambda>_. refuse), bd_auth = (\<lambda>_. refuse), bd_routing = (\<lambda>_. refuse), bd_config = (\<lambda>_. refuse), bd_patch = (\<lambda>_. refuse),
             bd_apply = (\<lambda>_. refuse), bd_extra = (\<lambda>_. None) \<rparr>,
           sr_Parse = (\<lambda>_. refuse) \<rparr>"

lemma demo_rest_law: "json_law (demo_rest token)"
  by (simp add: json_law_def demo_rest_def decodeParams_def Let_def split: prod.splits)

definition demo_stop :: "string \<Rightarrow> http_request" where
  "demo_stop credentials =
     \<lparr> hr_Method = ''DELETE'', hr_RequestURI = ''/api/v1/sessions/work'', hr_EscapedPath = ''/api/v1/sessions/work'', hr_Path = ''/api/v1/sessions/work'',
       hr_Host = ''localhost'', hr_Authorization = credentials, hr_Origin = [], hr_AccessToken = ''secret'', hr_Body = [], hr_Flusher = True \<rparr>"

lemma demo_stop_path: "session_url ''work'' [] = ''/api/v1/sessions/work''"
  by (simp add: session_url_def path_of_def)

lemma demo_authorized: "authorized (demo_rest ''secret'') (demo_stop ''Bearer secret'')" "sameOrigin (demo_rest ''secret'') (demo_stop ''Bearer secret'')"
  by (simp_all add: authorized_iff sameOrigin_def demo_rest_def demo_stop_def TrimPrefix_def HasPrefix_def Let_def)

text \<open>C33. What the REST server lets through. A request without the token, in the header or, for the events only, in the query, is answered 401. One whose Origin header, when it has one, does not
  parse, has a scheme other than http and https, or names a host other than the one the request was sent to is answered 403. Neither reaches the manager. The scheme of the origin is not compared
  with that of the server, although \<^verbatim>\<open>docs/control-api.md\<close> asks for that: an origin of the same host with the other of the two schemes is let through. The manager can only be changed by a request that passes
  both tests and whose HTTP method is POST, PUT, PATCH or DELETE, so that following a link or loading an image changes nothing; and a request to a path below a session only
  makes calls about the session the path names, whatever its body says.
\<close>

theorem rest_guarded:
  assumes r: "rest_ServeHTTP server request m = (reply, m')"
  shows "(authorized server request \<longleftrightarrow>
       sr_token server = [] \<or> TrimPrefix (hr_Authorization request) ''Bearer '' = sr_token server
       \<or> hr_Path request = ''/api/v1/events'' \<and> hr_AccessToken request = sr_token server)
    \<and> (sameOrigin server request \<longleftrightarrow> hr_Origin request = []
         \<or> (\<exists>u. sr_Parse server (hr_Origin request) = Inr u \<and> url_Host u = hr_Host request \<and> (url_Scheme u = ''http'' \<or> url_Scheme u = ''https'')))
    \<and> (\<not> authorized server request \<longrightarrow> m' = m \<and> rest_status reply = 401 \<and> re_Result (rest_body reply) = None)
    \<and> (authorized server request \<and> \<not> sameOrigin server request \<longrightarrow> m' = m \<and> rest_status reply = 403 \<and> re_Result (rest_body reply) = None)
    \<and> (m' \<noteq> m \<longrightarrow> authorized server request \<and> sameOrigin server request \<and> hr_Method request \<in> {''POST'', ''PUT'', ''PATCH'', ''DELETE''})
    \<and> (json_law server \<and> route_of (path_segments (hr_EscapedPath request)) = Some RouteSession
         \<and> PathUnescape (session_parts request ! 0) = Inr sid \<longrightarrow>
       m' = m \<or> (\<exists>c. call_session c = Some sid
         \<and> m' = snd (dispatch (sr_ops server RequestContext) (sr_version server) (sr_capabilities server) c m)))"
proof (intro conjI impI)
  show "authorized server request \<longleftrightarrow>
       sr_token server = [] \<or> TrimPrefix (hr_Authorization request) ''Bearer '' = sr_token server
       \<or> hr_Path request = ''/api/v1/events'' \<and> hr_AccessToken request = sr_token server"
    by (rule authorized_iff)
next
  show "sameOrigin server request \<longleftrightarrow> hr_Origin request = []
      \<or> (\<exists>u. sr_Parse server (hr_Origin request) = Inr u \<and> url_Host u = hr_Host request \<and> (url_Scheme u = ''http'' \<or> url_Scheme u = ''https''))"
    by (auto simp: sameOrigin_def split: sum.split)
next
  assume "m' \<noteq> m"
  then have "authorized server request" "sameOrigin server request" "snd (mux_ServeHTTP server request m) \<noteq> m"
    using r by (auto simp: rest_ServeHTTP_def split: if_splits)
  then show "authorized server request" "sameOrigin server request" "hr_Method request \<in> {''POST'', ''PUT'', ''PATCH'', ''DELETE''}"
    using mux_safe [of server request m] by (simp_all add: changing_methods_def)
next
  assume a: "json_law server \<and> route_of (path_segments (hr_EscapedPath request)) = Some RouteSession \<and> PathUnescape (session_parts request ! 0) = Inr sid"
  then have "m' = m \<or> m' = snd (handleSession server request m)"
    using r by (auto simp: rest_ServeHTTP_def mux_ServeHTTP_def Let_def serve_route_def split: if_splits)
  then have "scoped server sid m m'" using handleSession_scope a by auto
  then show "m' = m \<or> (\<exists>c. call_session c = Some sid
      \<and> m' = snd (dispatch (sr_ops server RequestContext) (sr_version server) (sr_capabilities server) c m))"
    by (simp add: scoped_def answers_call_def)
qed (use r in \<open>auto simp: rest_ServeHTTP_def writeError_def split: if_splits\<close>)

theorem rest_guarded_witness:
  "snd (rest_ServeHTTP (demo_rest ''secret'') (demo_stop ''Bearer wrong'') []) = []
   \<and> rest_status (fst (rest_ServeHTTP (demo_rest ''secret'') (demo_stop ''Bearer wrong'') [])) = 401"
proof -
  have "\<not> authorized (demo_rest ''secret'') (demo_stop ''Bearer wrong'')"
    by (simp add: authorized_iff demo_rest_def demo_stop_def TrimPrefix_def HasPrefix_def Let_def)
  then show ?thesis using rest_guarded [OF prod.collapse [symmetric], of "demo_rest ''secret''" "demo_stop ''Bearer wrong''" "[]"] by simp
qed

text \<open>C34. The documented operations on a session: a request that is authorised and passes the test of its origin, with the method and the path of an operation, where the session
  and connection identifiers are plain (not empty, not a dot segment, without slash and percent sign), gets exactly the answer of that operation on
  that session; changing the routing mode takes the mode from the body and the session from the path; and the resume state is not to be stored.
\<close>

theorem rest_session_operations:
  assumes "json_law server" "plain sid" "plain cid" "authorized server request" "sameOrigin server request" "hr_RequestURI request \<noteq> ''*''"
    and path: "hr_Path request = session_url sid rest" "hr_EscapedPath request = session_url sid rest"
  shows "((hr_Method request, rest, c) \<in> set (session_api sid cid) \<longrightarrow>
       rest_ServeHTTP server request m = answer_of (dispatch (sr_ops server RequestContext) (sr_version server) (sr_capabilities server) c m))
    \<and> (hr_Method request = ''PUT'' \<and> rest = [''routing''] \<and> decodeBody server (bd_routing (sr_decode server)) request = Inr (other, mode) \<longrightarrow>
       rest_ServeHTTP server request m
         = answer_of (dispatch (sr_ops server RequestContext) (sr_version server) (sr_capabilities server) (CallRoutingSet sid mode) m))
    \<and> (hr_Method request = ''GET'' \<and> rest = [''resume-state''] \<longrightarrow>
       rest_ServeHTTP server request m
         = no_store (answer_of (dispatch (sr_ops server RequestContext) (sr_version server) (sr_capabilities server) (CallResumeState sid) m)))"
proof (intro conjI impI)
  assume c: "(hr_Method request, rest, c) \<in> set (session_api sid cid)"
  note rest = session_api_plain [OF assms(3) c]
  show "rest_ServeHTTP server request m = answer_of (dispatch (sr_ops server RequestContext) (sr_version server) (sr_capabilities server) c m)"
    using handleSession_api [OF assms(1-3) c refl session_url_parts [OF assms(2) rest path(1)]]
    by (simp add: session_url_route [OF assms(2) rest path(2) assms(6,4,5)] answers_call_def)
next
  assume a: "hr_Method request = ''PUT'' \<and> rest = [''routing''] \<and> decodeBody server (bd_routing (sr_decode server)) request = Inr (other, mode)"
  then have rest: "\<forall>s \<in> set rest. plain s" by (simp add: plain_def)
  show "rest_ServeHTTP server request m
      = answer_of (dispatch (sr_ops server RequestContext) (sr_version server) (sr_capabilities server) (CallRoutingSet sid mode) m)"
    using handleSession_routing [OF assms(1,2)] a session_url_parts [OF assms(2) rest path(1)]
    by (simp add: session_url_route [OF assms(2) rest path(2) assms(6,4,5)] answers_call_def)
next
  assume a: "hr_Method request = ''GET'' \<and> rest = [''resume-state'']"
  then have rest: "\<forall>s \<in> set rest. plain s" by (simp add: plain_def)
  have p: "session_parts request = [sid, ''resume-state'']" using a session_url_parts [OF assms(2) rest path(1)] by simp
  have "handleSession server request m = no_store (answers_call server (CallResumeState sid) m)"
    using a assms(2) by (simp add: handleSession_def Let_def p PathUnescape_plain plain_def session_calls [OF assms(1)])
  then show "rest_ServeHTTP server request m
      = no_store (answer_of (dispatch (sr_ops server RequestContext) (sr_version server) (sr_capabilities server) (CallResumeState sid) m))"
    by (simp add: session_url_route [OF assms(2) rest path(2) assms(6,4,5)] answers_call_def)
qed

theorem rest_session_operations_witness:
  "rest_ServeHTTP (demo_rest ''secret'') (demo_stop ''Bearer secret'') []
     = (RestJSON 200 [] False \<lparr> re_Result = Some (StopResult True), re_Error = None \<rparr>, [''work''])"
proof -
  have p: "hr_Path (demo_stop ''Bearer secret'') = session_url ''work'' []" "hr_EscapedPath (demo_stop ''Bearer secret'') = session_url ''work'' []"
    unfolding demo_stop_path by (simp_all add: demo_stop_def)
  have u: "hr_RequestURI (demo_stop ''Bearer secret'') \<noteq> ''*''" "plain ''work''" by (simp_all add: demo_stop_def plain_def)
  have "(hr_Method (demo_stop ''Bearer secret''), [], CallStop ''work'') \<in> set (session_api ''work'' ''work'')" by (simp add: demo_stop_def session_api_def)
  then have "rest_ServeHTTP (demo_rest ''secret'') (demo_stop ''Bearer secret'') []
      = answer_of (dispatch (sr_ops (demo_rest ''secret'') RequestContext) (sr_version (demo_rest ''secret'')) (sr_capabilities (demo_rest ''secret'')) (CallStop ''work'') [])"
    using rest_session_operations [OF demo_rest_law u(2,2) demo_authorized u(1) p] by blast
  then show ?thesis by (simp add: demo_rest_def demo_manager_def acked_def answer_of_def Let_def)
qed

text \<open>An identifier with a percent sign, escaped as it should be, is unescaped twice and refused.\<close>

lemma escaped_percent_refused:
  "hr_Path request = ''/api/v1/sessions/50%'' \<Longrightarrow> \<exists>e. handleSession server request m = (writeError 400 e, m)"
  by (simp add: handleSession_def session_parts_def APIBasePath_def TrimPrefix_def HasPrefix_def Let_def) blast

end
