(* ===== verification/Underlay.thy ===== *)
theory Underlay
  imports GoNet CoreError
begin

text \<open>
  The dialer of the connections to the gateway, \<^verbatim>\<open>src/internal/underlay/dialer.go\<close>: on which interface a socket is bound, how the interface is detected,
  and how it is chosen again when a dial fails, so that these connections do not run through the tunnel they carry.

  The operating system is a parameter that acts on a world of its own: its interfaces, the default one (found by a library), binding, dialling (with the
  name resolution that a bound dialer does on the same interface) and the TLS handshake. Dials are run one after the other, with any change of the network
  between them; the dial of a nil \<^verbatim>\<open>*Dialer\<close>, which is never bound, is not represented.
\<close>

section \<open>Interfaces\<close>

text \<open>The addresses are None when they cannot be read; an address that is neither a network nor an IP is None in the list.\<close>

record net_iface =
  ni_Name :: string
  ni_Up :: bool
  ni_Loopback :: bool
  ni_Addrs :: "ip option list option"

record ('w, 'c) underlay_env =
  ue_findDefault :: "'w \<Rightarrow> string \<times> 'w"
  ue_byName :: "'w \<Rightarrow> string \<Rightarrow> net_iface option"
  ue_interfaces :: "'w \<Rightarrow> net_iface list option"
  ue_localAddr :: "'w \<Rightarrow> string \<Rightarrow> ip option"
  ue_bind :: "'w \<Rightarrow> string \<Rightarrow> gerror option"
  ue_dial :: "string \<Rightarrow> string \<Rightarrow> string \<Rightarrow> 'w \<Rightarrow> 'c result \<times> 'w"
  ue_handshake :: "string \<Rightarrow> 'c \<Rightarrow> 'w \<Rightarrow> gerror option \<times> 'w"
  ue_close :: "'c \<Rightarrow> 'w \<Rightarrow> 'w"

definition IP_Equal :: "ip \<Rightarrow> ip \<Rightarrow> bool" where
  "IP_Equal a b \<longleftrightarrow>
     (if length a = length b then a = b
      else if length a = 4 \<and> length b = 16 then b = v4_prefix @ a
      else if length a = 16 \<and> length b = 4 then a = v4_prefix @ b
      else False)"

definition carries :: "net_iface \<Rightarrow> ip \<Rightarrow> bool" where
  "carries iface p \<longleftrightarrow>
     (case ni_Addrs iface of None \<Rightarrow> False | Some addrs \<Rightarrow> list_ex (\<lambda>a. case a of None \<Rightarrow> False | Some q \<Rightarrow> IP_Equal q p) addrs)"

definition usableInterface :: "('w, 'c) underlay_env \<Rightarrow> 'w \<Rightarrow> string \<Rightarrow> ip list \<Rightarrow> bool" where
  "usableInterface env w name excluded \<longleftrightarrow>
     (if name = [] then False
      else case ue_byName env w name of
             None \<Rightarrow> False
           | Some iface \<Rightarrow>
               if \<not> ni_Up iface \<or> ni_Loopback iface then False
               else if excluded = [] then True
               else if ni_Addrs iface = None then False
               else \<not> list_ex (carries iface) excluded)"

text \<open>The first interface that has the local address of a connection to the server.\<close>

fun find_by_address :: "('w, 'c) underlay_env \<Rightarrow> 'w \<Rightarrow> ip \<Rightarrow> net_iface list \<Rightarrow> string" where
  "find_by_address env w p [] = []"
| "find_by_address env w p (iface # rest) =
     (if carries iface p then (if usableInterface env w (ni_Name iface) [] then ni_Name iface else []) else find_by_address env w p rest)"

definition detectInterface :: "('w, 'c) underlay_env \<Rightarrow> string \<Rightarrow> 'w \<Rightarrow> string \<times> 'w" where
  "detectInterface env server w =
     (case ue_findDefault env w of
        (name, w1) \<Rightarrow>
          if usableInterface env w1 name [] then (name, w1)
          else let (host, port) = (case SplitHostPort server of None \<Rightarrow> (server, ''443'') | Some hp \<Rightarrow> hp)
               in case ue_localAddr env w1 (JoinHostPort host port) of
                    None \<Rightarrow> ([], w1)
                  | Some p \<Rightarrow> (case ue_interfaces env w1 of None \<Rightarrow> ([], w1) | Some ifaces \<Rightarrow> (find_by_address env w1 p ifaces, w1)))"

section \<open>The dialer\<close>

text \<open>With the world, and as history the dials that were made and the interfaces that were chosen, each with the world at that time.\<close>

record 'w Dialer =
  un_interfaceName :: string
  un_autoDetect :: bool
  un_excludedIPs :: "ip list"
  un_requireBound :: bool
  un_world :: 'w
  un_dials :: "(string \<times> string) list"
  un_chosen :: "(string \<times> 'w) list"

record underlay_Options =
  uo_InterfaceName :: string
  uo_AutoDetect :: bool

definition blank_Dialer :: "'w \<Rightarrow> 'w Dialer" where
  "blank_Dialer w = \<lparr> un_interfaceName = [], un_autoDetect = False, un_excludedIPs = [], un_requireBound = False, un_world = w, un_dials = [], un_chosen = [] \<rparr>"

definition underlay_New :: "('w, 'c) underlay_env \<Rightarrow> string \<Rightarrow> underlay_Options option \<Rightarrow> 'w \<Rightarrow> 'w Dialer" where
  "underlay_New env server options w =
     (let option = (case options of None \<Rightarrow> \<lparr> uo_InterfaceName = [], uo_AutoDetect = True \<rparr> | Some o' \<Rightarrow> o')
      in if uo_InterfaceName option \<noteq> [] then (blank_Dialer w)\<lparr>un_interfaceName := uo_InterfaceName option\<rparr>
         else if \<not> uo_AutoDetect option then blank_Dialer w
         else case detectInterface env server w of (name, w1) \<Rightarrow> (blank_Dialer w1)\<lparr>un_interfaceName := name, un_autoDetect := True\<rparr>)"

definition InterfaceName :: "'w Dialer option \<Rightarrow> string" where
  "InterfaceName d = (case d of None \<Rightarrow> [] | Some s \<Rightarrow> un_interfaceName s)"

definition ExcludeIP :: "ip \<Rightarrow> 'w Dialer \<Rightarrow> 'w Dialer" where
  "ExcludeIP p s = (if p = [] then s else s\<lparr>un_excludedIPs := un_excludedIPs s @ [p], un_requireBound := True\<rparr>)"

definition isLoopbackDestination :: "string \<Rightarrow> bool" where
  "isLoopbackDestination address \<longleftrightarrow>
     (let host = TrimSuffix (case SplitHostPort address of None \<Rightarrow> address | Some (h, _) \<Rightarrow> h) ''.''
      in if EqualFold host ''localhost'' then True else case ParseIP host of None \<Rightarrow> False | Some p \<Rightarrow> IsLoopback p)"

definition dialContextOnInterface :: "('w, 'c) underlay_env \<Rightarrow> string \<Rightarrow> string \<Rightarrow> string \<Rightarrow> 'w Dialer \<Rightarrow> 'c result \<times> 'w Dialer" where
  "dialContextOnInterface env network address name s =
     (case (if name = [] then None else ue_bind env (un_world s) name) of
        Some e \<Rightarrow> (Inl (errorf (''bind underlay interface '' @ quote name) e), s)
      | None \<Rightarrow> (case ue_dial env name network address (un_world s) of
           (r, w) \<Rightarrow> (r, s\<lparr>un_world := w, un_dials := un_dials s @ [(name, address)]\<rparr>)))"

definition refreshInterface :: "('w, 'c) underlay_env \<Rightarrow> string \<Rightarrow> 'w Dialer \<Rightarrow> string \<times> 'w Dialer" where
  "refreshInterface env previous s =
     (if \<not> un_autoDetect s then ([], s)
      else case ue_findDefault env (un_world s) of
             (name, w) \<Rightarrow>
               if \<not> usableInterface env w name (un_excludedIPs s) then ([], s\<lparr>un_world := w\<rparr>)
               else (name, s\<lparr>un_world := w, un_interfaceName := (if name \<noteq> previous then name else un_interfaceName s),
                             un_chosen := un_chosen s @ [(name, w)]\<rparr>))"

text \<open>The first dial, and a second one when it fails and another interface has become the default.\<close>

definition dial_and_retry :: "('w, 'c) underlay_env \<Rightarrow> string \<Rightarrow> string \<Rightarrow> string \<Rightarrow> 'w Dialer \<Rightarrow> 'c result \<times> 'w Dialer" where
  "dial_and_retry env network address name s =
     (case dialContextOnInterface env network address name s of
        (Inr c, s1) \<Rightarrow> (Inr c, s1)
      | (Inl e, s1) \<Rightarrow>
          (case refreshInterface env name s1 of
             (refreshed, s2) \<Rightarrow>
               if refreshed = [] \<or> refreshed = name then (Inl e, s2)
               else case dialContextOnInterface env network address refreshed s2 of
                      (Inl e', s3) \<Rightarrow> (Inl (errorf (''dial underlay via '' @ quote refreshed @ '' failed after '' @ quote name @ '' failed'') e'), s3)
                    | (Inr c, s3) \<Rightarrow> (Inr c, s3)))"

definition underlay_DialContext :: "('w, 'c) underlay_env \<Rightarrow> string \<Rightarrow> string \<Rightarrow> 'w Dialer \<Rightarrow> 'c result \<times> 'w Dialer" where
  "underlay_DialContext env network address s =
     (if isLoopbackDestination address then dialContextOnInterface env network address [] s
      else if un_autoDetect s \<and> un_requireBound s \<and> un_interfaceName s = [] then
        (case refreshInterface env [] s of
           (name, s1) \<Rightarrow> if name = [] then (Inl (Opaque ''no usable underlay interface''), s1) else dial_and_retry env network address name s1)
      else dial_and_retry env network address (un_interfaceName s) s)"

text \<open>A TLS connection; the raw one is closed when the handshake fails. The server name is that of the configuration or the host of the address.\<close>

definition DialTLSContext :: "('w, 'c) underlay_env \<Rightarrow> string \<Rightarrow> string \<Rightarrow> string \<Rightarrow> 'w Dialer \<Rightarrow> 'c result \<times> 'w Dialer" where
  "DialTLSContext env network address serverName s =
     (case underlay_DialContext env network address s of
        (Inl e, s1) \<Rightarrow> (Inl e, s1)
      | (Inr c, s1) \<Rightarrow>
          (let name = (if serverName = [] then (case SplitHostPort address of None \<Rightarrow> [] | Some (host, _) \<Rightarrow> host) else serverName)
           in case ue_handshake env name c (un_world s1) of
                (Some e, w) \<Rightarrow> (Inl e, s1\<lparr>un_world := ue_close env c w\<rparr>)
              | (None, w) \<Rightarrow> (Inr c, s1\<lparr>un_world := w\<rparr>)))"

section \<open>Which interfaces are used\<close>

datatype 'w underlay_op = OpExclude ip | OpDial string string | OpDialTLS string string string | OpNetwork 'w

fun underlay_step :: "('w, 'c) underlay_env \<Rightarrow> 'w Dialer \<Rightarrow> 'w underlay_op \<Rightarrow> 'w Dialer" where
  "underlay_step env s (OpExclude p) = ExcludeIP p s"
| "underlay_step env s (OpDial network address) = snd (underlay_DialContext env network address s)"
| "underlay_step env s (OpDialTLS network address name) = snd (DialTLSContext env network address name s)"
| "underlay_step env s (OpNetwork w) = s\<lparr>un_world := w\<rparr>"

text \<open>\<open>first\<close> is the interface the dialer had, \<open>p\<close> an address that was excluded.\<close>

definition dial_bound :: "string \<Rightarrow> ('w Dialer) \<Rightarrow> string \<times> string \<Rightarrow> bool" where
  "dial_bound first s d \<longleftrightarrow> isLoopbackDestination (snd d) \<or> fst d \<noteq> [] \<and> (fst d = first \<or> fst d \<in> fst ` set (un_chosen s))"

definition choice_ok :: "('w, 'c) underlay_env \<Rightarrow> ip \<Rightarrow> string \<times> 'w \<Rightarrow> bool" where
  "choice_ok env p c \<longleftrightarrow>
     (\<exists>iface. ue_byName env (snd c) (fst c) = Some iface \<and> ni_Up iface \<and> \<not> ni_Loopback iface \<and> ni_Addrs iface \<noteq> None \<and> \<not> carries iface p)"

definition bound_ok :: "('w, 'c) underlay_env \<Rightarrow> string \<Rightarrow> ip \<Rightarrow> 'w Dialer \<Rightarrow> bool" where
  "bound_ok env first p s \<longleftrightarrow>
     un_autoDetect s \<and> un_requireBound s \<and> p \<in> set (un_excludedIPs s)
     \<and> (un_interfaceName s = first \<or> un_interfaceName s \<in> fst ` set (un_chosen s))
     \<and> (\<forall>d \<in> set (un_dials s). dial_bound first s d) \<and> (\<forall>c \<in> set (un_chosen s). choice_ok env p c \<and> fst c \<noteq> [])"

lemma usable_choice: "usableInterface env w name excluded \<Longrightarrow> p \<in> set excluded \<Longrightarrow> choice_ok env p (name, w) \<and> name \<noteq> []"
  by (auto simp: usableInterface_def choice_ok_def list_ex_iff split: if_splits option.splits)

lemma dial_bound_mono: "dial_bound first s d \<Longrightarrow> set (un_chosen s) \<subseteq> set (un_chosen s') \<Longrightarrow> dial_bound first s' d"
  by (auto simp: dial_bound_def)

lemma world_bound [simp]: "bound_ok env first p (s\<lparr>un_world := w\<rparr>) = bound_ok env first p s"
  by (simp add: bound_ok_def dial_bound_def)

lemma refresh_bound:
  assumes "bound_ok env first p s" and r: "refreshInterface env previous s = (name, s')"
  shows "bound_ok env first p s' \<and> (name \<noteq> [] \<longrightarrow> name \<in> fst ` set (un_chosen s'))"
proof (cases "name = []")
  case True
  then have "\<exists>w. s' = s\<lparr>un_world := w\<rparr>" using r assms(1) usable_choice
    by (auto simp: refreshInterface_def bound_ok_def usableInterface_def split: if_splits prod.splits)
  then show ?thesis using True assms(1) by auto
next
  case False
  then obtain w where u: "usableInterface env w name (un_excludedIPs s)"
    and s': "s' = s\<lparr>un_world := w, un_interfaceName := (if name \<noteq> previous then name else un_interfaceName s), un_chosen := un_chosen s @ [(name, w)]\<rparr>"
    using r by (auto simp: refreshInterface_def split: if_splits prod.splits)
  have c: "choice_ok env p (name, w)" using usable_choice [OF u] assms(1) by (simp add: bound_ok_def)
  have "un_dials s' = un_dials s" "set (un_chosen s) \<subseteq> set (un_chosen s')" by (auto simp: s')
  then have d: "\<forall>d \<in> set (un_dials s'). dial_bound first s' d" using assms(1) dial_bound_mono unfolding bound_ok_def by metis
  have "un_interfaceName s = first \<or> un_interfaceName s \<in> fst ` set (un_chosen s)" using assms(1) by (simp add: bound_ok_def)
  then have n: "un_interfaceName s' = first \<or> un_interfaceName s' \<in> fst ` set (un_chosen s')" by (auto simp: s')
  show ?thesis using assms(1) c d n False unfolding bound_ok_def by (simp add: s')
qed

lemma dial_on_bound:
  assumes "bound_ok env first p s" "isLoopbackDestination address \<or> name \<noteq> [] \<and> (name = first \<or> name \<in> fst ` set (un_chosen s))"
    and r: "dialContextOnInterface env network address name s = (res, s')"
  shows "bound_ok env first p s' \<and> un_chosen s' = un_chosen s"
proof -
  have "s' = s \<or> (\<exists>w. s' = s\<lparr>un_world := w, un_dials := un_dials s @ [(name, address)]\<rparr>)"
    using r by (auto simp: dialContextOnInterface_def split: option.splits prod.splits if_splits)
  then show ?thesis
  proof (elim disjE exE)
    fix w assume s': "s' = s\<lparr>un_world := w, un_dials := un_dials s @ [(name, address)]\<rparr>"
    have "dial_bound first s' d = dial_bound first s d" for d by (simp add: dial_bound_def s')
    moreover have "dial_bound first s (name, address)" using assms(2) by (simp add: dial_bound_def)
    ultimately show ?thesis using assms(1) by (simp add: bound_ok_def s')
  qed (simp add: assms(1))
qed

lemma retry_bound:
  assumes "bound_ok env first p s" "name \<noteq> []" "name = first \<or> name \<in> fst ` set (un_chosen s)"
    and r: "dial_and_retry env network address name s = (res, s')"
  shows "bound_ok env first p s'"
proof -
  obtain r1 s1 where d1: "dialContextOnInterface env network address name s = (r1, s1)" by fastforce
  have b1: "bound_ok env first p s1" using dial_on_bound [OF assms(1) _ d1] assms(2,3) by simp
  obtain n s2 where d2: "refreshInterface env name s1 = (n, s2)" by fastforce
  have b2: "bound_ok env first p s2 \<and> (n \<noteq> [] \<longrightarrow> n \<in> fst ` set (un_chosen s2))" using b1 d2 by (rule refresh_bound)
  obtain r3 s3 where d3: "dialContextOnInterface env network address n s2 = (r3, s3)" by fastforce
  have "n \<noteq> [] \<Longrightarrow> bound_ok env first p s3" using dial_on_bound [OF _ _ d3, of first p] b2 by simp
  then show ?thesis using r b1 b2 d1 d2 d3 by (auto simp: dial_and_retry_def split: sum.splits if_splits)
qed

lemma dial_keeps_bound:
  assumes "bound_ok env first p s" and r: "underlay_DialContext env network address s = (res, s')"
  shows "bound_ok env first p s'"
proof (cases "isLoopbackDestination address")
  case True
  then have "dialContextOnInterface env network address [] s = (res, s')" using r by (simp add: underlay_DialContext_def)
  then show ?thesis using dial_on_bound [OF assms(1)] True by blast
next
  case False
  show ?thesis
  proof (cases "un_interfaceName s = []")
    case True
    obtain n s1 where d: "refreshInterface env [] s = (n, s1)" by fastforce
    have b: "bound_ok env first p s1 \<and> (n \<noteq> [] \<longrightarrow> n \<in> fst ` set (un_chosen s1))" using assms(1) d by (rule refresh_bound)
    have m: "un_autoDetect s" "un_requireBound s" using assms(1) by (simp_all add: bound_ok_def)
    show ?thesis
    proof (cases "n = []")
      case none: True
      then show ?thesis using False True r d b m by (simp add: underlay_DialContext_def)
    next
      case some: False
      then have "dial_and_retry env network address n s1 = (res, s')" using False True r d m by (simp add: underlay_DialContext_def)
      then show ?thesis using retry_bound [OF _ some] b some by blast
    qed
  next
    case ne: False
    then show ?thesis using False r retry_bound [OF assms(1) ne, of network address res s'] assms(1)
      by (simp add: underlay_DialContext_def bound_ok_def)
  qed
qed

lemma step_bound: "bound_ok env first p s \<Longrightarrow> bound_ok env first p (underlay_step env s x)"
proof (cases x)
  case (OpExclude q)
  then show "bound_ok env first p s \<Longrightarrow> ?thesis" by (auto simp: ExcludeIP_def bound_ok_def dial_bound_def)
next
  case (OpDial network address)
  then show "bound_ok env first p s \<Longrightarrow> ?thesis" using dial_keeps_bound [OF _ prod.collapse [symmetric]] by simp
next
  case (OpDialTLS network address name)
  then show "bound_ok env first p s \<Longrightarrow> ?thesis" using dial_keeps_bound [OF _ prod.collapse [symmetric], of env first p s network address]
    by (auto simp: DialTLSContext_def Let_def split: prod.splits sum.splits option.splits)
qed simp

lemma run_bound: "bound_ok env first p s \<Longrightarrow> bound_ok env first p (foldl (underlay_step env) s xs)"
  by (induction xs arbitrary: s) (simp_all add: step_bound)

section \<open>A given interface\<close>

definition pinned :: "string \<Rightarrow> 'w Dialer \<Rightarrow> bool" where
  "pinned name s \<longleftrightarrow> \<not> un_autoDetect s \<and> un_interfaceName s = name \<and> (\<forall>d \<in> set (un_dials s). isLoopbackDestination (snd d) \<or> fst d = name)"

lemma pinned_world [simp]: "pinned name (s\<lparr>un_world := w\<rparr>) = pinned name s"
  by (simp add: pinned_def)

lemma refresh_pinned: "pinned name s \<Longrightarrow> refreshInterface env previous s = ([], s)"
  by (simp add: pinned_def refreshInterface_def)

lemma dial_on_pinned:
  "pinned name s \<Longrightarrow> isLoopbackDestination address \<or> i = name \<Longrightarrow> pinned name (snd (dialContextOnInterface env network address i s))"
  by (auto simp: dialContextOnInterface_def pinned_def split: option.splits prod.splits if_splits)

lemma dial_pinned: "pinned name s \<Longrightarrow> pinned name (snd (underlay_DialContext env network address s))"
proof -
  assume p: "pinned name s"
  then have "\<not> un_autoDetect s" "un_interfaceName s = name" by (simp_all add: pinned_def)
  moreover have "pinned name (snd (dial_and_retry env network address name s))"
    using dial_on_pinned [OF p, of address name env network] by (auto simp: dial_and_retry_def refresh_pinned split: prod.splits sum.splits)
  ultimately show ?thesis using dial_on_pinned [OF p, of address "[]" env network] by (simp add: underlay_DialContext_def)
qed

lemma step_pinned: "pinned name s \<Longrightarrow> pinned name (underlay_step env s x)"
proof (cases x)
  case (OpDialTLS network address serverName)
  then show "pinned name s \<Longrightarrow> ?thesis" using dial_pinned [of name s env network address]
    by (auto simp: DialTLSContext_def Let_def split: prod.splits sum.splits option.splits)
qed (simp_all add: dial_pinned ExcludeIP_def, simp add: pinned_def)

lemma run_pinned: "pinned name s \<Longrightarrow> pinned name (foldl (underlay_step env) s xs)"
  by (induction xs arbitrary: s) (simp_all add: step_pinned)

text \<open>Connections to the gateway stay off the tunnel. Once the tunnel's own address is excluded from a dialer that detects its interface, every
  connection it makes, whatever the network does meanwhile and to whichever destination that is not the machine itself, is bound to an interface: to the
  one it had, or to one that was the default, up, not a loopback and did not carry the excluded address when it was chosen; a dialer that was given an
  interface uses no other one, before and after; and a destination on the machine itself is never bound.
\<close>

theorem underlay_avoids_tunnel:
  assumes "p \<noteq> []"
  shows "(un_autoDetect s \<and> un_dials s = [] \<and> un_chosen s = [] \<and> s' = foldl (underlay_step env) (ExcludeIP p s) xs \<longrightarrow>
       (\<forall>(i, address) \<in> set (un_dials s'). isLoopbackDestination address
          \<or> i \<noteq> [] \<and> (i = un_interfaceName s \<or> i \<in> fst ` set (un_chosen s')))
       \<and> (\<forall>(i, w) \<in> set (un_chosen s'). \<exists>iface. ue_byName env w i = Some iface \<and> ni_Up iface \<and> \<not> ni_Loopback iface \<and> \<not> carries iface p))
    \<and> (name \<noteq> [] \<longrightarrow> (\<forall>(i, address) \<in> set (un_dials (foldl (underlay_step env) (underlay_New env server (Some \<lparr> uo_InterfaceName = name, uo_AutoDetect = auto \<rparr>) w0) xs)).
          isLoopbackDestination address \<or> i = name))
    \<and> (isLoopbackDestination local \<longrightarrow> underlay_DialContext env network local s =
         (case ue_dial env [] network local (un_world s) of (r, w) \<Rightarrow> (r, s\<lparr>un_world := w, un_dials := un_dials s @ [([], local)]\<rparr>)))"
proof (intro conjI impI)
  assume a: "un_autoDetect s \<and> un_dials s = [] \<and> un_chosen s = [] \<and> s' = foldl (underlay_step env) (ExcludeIP p s) xs"
  then have "bound_ok env (un_interfaceName s) p (ExcludeIP p s)" using assms by (simp add: ExcludeIP_def bound_ok_def)
  then have b: "bound_ok env (un_interfaceName s) p s'" using a run_bound by simp
  show "\<forall>(i, address) \<in> set (un_dials s'). isLoopbackDestination address \<or> i \<noteq> [] \<and> (i = un_interfaceName s \<or> i \<in> fst ` set (un_chosen s'))"
    using b by (simp add: bound_ok_def dial_bound_def case_prod_beta)
  show "\<forall>(i, w) \<in> set (un_chosen s'). \<exists>iface. ue_byName env w i = Some iface \<and> ni_Up iface \<and> \<not> ni_Loopback iface \<and> \<not> carries iface p"
    using b by (auto simp: bound_ok_def choice_ok_def case_prod_beta)
next
  assume "name \<noteq> []"
  then have "pinned name (underlay_New env server (Some \<lparr> uo_InterfaceName = name, uo_AutoDetect = auto \<rparr>) w0)"
    by (simp add: underlay_New_def blank_Dialer_def pinned_def)
  from run_pinned [OF this, of env xs]
  show "\<forall>(i, address) \<in> set (un_dials (foldl (underlay_step env) (underlay_New env server (Some \<lparr> uo_InterfaceName = name, uo_AutoDetect = auto \<rparr>) w0) xs)).
      isLoopbackDestination address \<or> i = name"
    by (simp add: pinned_def case_prod_beta)
next
  assume "isLoopbackDestination local"
  then show "underlay_DialContext env network local s =
      (case ue_dial env [] network local (un_world s) of (r, w) \<Rightarrow> (r, s\<lparr>un_world := w, un_dials := un_dials s @ [([], local)]\<rparr>))"
    by (simp add: underlay_DialContext_def dialContextOnInterface_def)
qed

text \<open>The cable is unplugged, so that the wireless interface is the default: the second dial uses it.\<close>

definition demo_iface :: "string \<Rightarrow> net_iface" where
  "demo_iface name = \<lparr> ni_Name = name, ni_Up = True, ni_Loopback = False, ni_Addrs = Some [Some [192, 0, 2, 7]] \<rparr>"

definition demo_underlay :: "(bool, string) underlay_env" where
  "demo_underlay = \<lparr> ue_findDefault = (\<lambda>w. (if w then ''eth0'' else ''wlan0'', w)), ue_byName = (\<lambda>w name. Some (demo_iface name)), ue_interfaces = (\<lambda>_. None),
     ue_localAddr = (\<lambda>_ _. None), ue_bind = (\<lambda>_ _. None),
     ue_dial = (\<lambda>name network address w. (if name = ''eth0'' \<and> \<not> w then Inl (Opaque ''network is unreachable'') else Inr name, w)),
     ue_handshake = (\<lambda>_ _ w. (None, w)), ue_close = (\<lambda>_ w. w) \<rparr>"

definition demo_dialer :: "bool Dialer" where
  "demo_dialer = (blank_Dialer True)\<lparr>un_interfaceName := ''eth0'', un_autoDetect := True\<rparr>"

lemma demo_not_loopback: "\<not> isLoopbackDestination ''gateway:443''"
  by code_simp

theorem underlay_avoids_tunnel_witness:
  "un_dials (foldl (underlay_step demo_underlay) (ExcludeIP [10, 0, 0, 9] demo_dialer) [OpNetwork False, OpDial ''tcp'' ''gateway:443''])
     = [(''eth0'', ''gateway:443''), (''wlan0'', ''gateway:443'')]
   \<and> (\<forall>(i, w) \<in> set (un_chosen (foldl (underlay_step demo_underlay) (ExcludeIP [10, 0, 0, 9] demo_dialer) [OpNetwork False, OpDial ''tcp'' ''gateway:443''])).
        \<exists>iface. ue_byName demo_underlay w i = Some iface \<and> \<not> carries iface [10, 0, 0, 9])"
proof -
  have d: "un_autoDetect demo_dialer \<and> un_dials demo_dialer = [] \<and> un_chosen demo_dialer = []" by (simp add: demo_dialer_def blank_Dialer_def)
  have "un_dials (foldl (underlay_step demo_underlay) (ExcludeIP [10, 0, 0, 9] demo_dialer) [OpNetwork False, OpDial ''tcp'' ''gateway:443''])
     = [(''eth0'', ''gateway:443''), (''wlan0'', ''gateway:443'')]"
    by (simp add: underlay_DialContext_def demo_not_loopback dial_and_retry_def dialContextOnInterface_def refreshInterface_def usableInterface_def
        demo_underlay_def demo_dialer_def blank_Dialer_def ExcludeIP_def demo_iface_def carries_def IP_Equal_def)
  then show ?thesis
    using d underlay_avoids_tunnel [of "[10, 0, 0, 9]" demo_dialer _ demo_underlay "[OpNetwork False, OpDial ''tcp'' ''gateway:443'']"] by (fastforce simp: case_prod_beta)
qed

end
