(* ===== verification/ResumeStore.thy ===== *)
theory ResumeStore
  imports CoreEvents
begin

text \<open>
  The file that keeps the resume state, \<^verbatim>\<open>src/internal/resumestate\<close> (with the metadata of Unix), and its writer in \<^verbatim>\<open>src/main.go\<close>.

  The disk has what processes see and what a crash can bring back: the contents of a file that was not synchronised are not determined after a crash, and a
  renaming whose directory was not synchronised may be undone. Every system call can fail, as the faults say.
\<close>

section \<open>The disk\<close>

record disk_file =
  df_data :: string
  df_synced :: bool
  df_mode :: nat
  df_uid :: int
  df_gid :: int

record disk =
  dk_files :: "string \<rightharpoonup> disk_file"
  dk_old :: "string \<Rightarrow> disk_file option set"

text \<open>What can be read from a path after a crash.\<close>

definition entry_contents :: "disk_file option \<Rightarrow> string option set" where
  "entry_contents e = (case e of None \<Rightarrow> {None} | Some f \<Rightarrow> if df_synced f then {Some (df_data f)} else range Some)"

definition crash_contents :: "disk \<Rightarrow> string \<Rightarrow> string option set" where
  "crash_contents d path = (\<Union>e \<in> insert (dk_files d path) (dk_old d path). entry_contents e)"

section \<open>Metadata\<close>

record fileMetadata =
  fm_mode :: nat
  fm_uid :: int
  fm_gid :: int

record fileOwner =
  fo_uid :: int
  fo_gid :: int

definition no_owner :: fileOwner where "no_owner = \<lparr> fo_uid = -1, fo_gid = -1 \<rparr>"

definition selectOwner :: "int \<Rightarrow> string \<Rightarrow> string \<Rightarrow> fileOwner \<Rightarrow> fileOwner \<Rightarrow> fileOwner" where
  "selectOwner euid sudoUID sudoGID existingOwner directoryOwner =
     (let fallback = (if fo_uid existingOwner \<ge> 0 \<and> fo_gid existingOwner \<ge> 0 then existingOwner else directoryOwner)
      in if euid = 0 then
           (case (Atoi sudoUID, Atoi sudoGID) of
              (Some uid, Some gid) \<Rightarrow> if uid \<ge> 0 \<and> gid \<ge> 0 then \<lparr> fo_uid = uid, fo_gid = gid \<rparr> else fallback
            | _ \<Rightarrow> fallback)
         else fallback)"

text \<open>The process, the directory and the faults of the calls of one \<^verbatim>\<open>Save\<close>; a write that fails has written some of the data.\<close>

record save_env =
  se_windows :: bool
  se_euid :: int
  se_egid :: int
  se_sudoUID :: string
  se_sudoGID :: string
  se_directory :: "fileOwner result"
  se_mkdir :: "gerror option"
  se_stat :: "gerror option"
  se_create :: "gerror option"
  se_write :: "(nat \<times> gerror) option"
  se_chown :: "gerror option"
  se_chmod :: "gerror option"
  se_sync :: "gerror option"
  se_closeFile :: "gerror option"
  se_rename :: "gerror option"
  se_remove :: "gerror option"
  se_openDir :: "gerror option"
  se_syncDir :: "gerror option"

definition perm :: "nat \<Rightarrow> nat" where "perm mode = mode mod 512"

definition inspectFile :: "save_env \<Rightarrow> string \<Rightarrow> disk \<Rightarrow> fileMetadata result" where
  "inspectFile env path d =
     (if se_windows env then Inr \<lparr> fm_mode = 384, fm_uid = -1, fm_gid = -1 \<rparr>
      else case (case se_stat env of
                   Some e \<Rightarrow> Inl (errorf ''stat resume state'' e)
                 | None \<Rightarrow> (case dk_files d path of
                      None \<Rightarrow> Inr (384, no_owner)
                    | Some f \<Rightarrow> Inr (perm (df_mode f), \<lparr> fo_uid = df_uid f, fo_gid = df_gid f \<rparr>))) of
             Inl e \<Rightarrow> Inl e
           | Inr (mode, existing) \<Rightarrow>
               (case se_directory env of
                  Inl e \<Rightarrow> Inl (errorf ''stat resume state directory'' e)
                | Inr directory \<Rightarrow>
                    (let owner = selectOwner (se_euid env) (se_sudoUID env) (se_sudoGID env) existing directory
                     in Inr \<lparr> fm_mode = mode, fm_uid = fo_uid owner, fm_gid = fo_gid owner \<rparr>)))"

section \<open>Saving\<close>

text \<open>A step: its error if it fails, what it does, and what it has done when it fails. A sequence stops at the first error; it yields the disks in between.\<close>

type_synonym disk_step = "gerror option \<times> (disk \<Rightarrow> disk) \<times> (disk \<Rightarrow> disk)"

fun run_steps :: "disk_step list \<Rightarrow> disk \<Rightarrow> gerror option \<times> disk list" where
  "run_steps [] d = (None, [])"
| "run_steps ((fault, does, partly) # steps) d =
     (case fault of
        Some e \<Rightarrow> (Some e, [partly d])
      | None \<Rightarrow> (case run_steps steps (does d) of (r, ds) \<Rightarrow> (r, does d # ds)))"

definition CreateTemp :: "save_env \<Rightarrow> string \<Rightarrow> disk \<Rightarrow> disk" where
  "CreateTemp env tmp d =
     d\<lparr>dk_files := (dk_files d)(tmp \<mapsto> \<lparr> df_data = [], df_synced = False, df_mode = 384, df_uid = se_euid env, df_gid = se_egid env \<rparr>)\<rparr>"

definition on_file :: "string \<Rightarrow> (disk_file \<Rightarrow> disk_file) \<Rightarrow> disk \<Rightarrow> disk" where
  "on_file tmp f d = d\<lparr>dk_files := (dk_files d)(tmp := map_option f (dk_files d tmp))\<rparr>"

definition write_step :: "save_env \<Rightarrow> string \<Rightarrow> string \<Rightarrow> disk_step" where
  "write_step env tmp data =
     (map_option snd (se_write env),
      on_file tmp (\<lambda>f. f\<lparr>df_data := df_data f @ data, df_synced := False\<rparr>),
      on_file tmp (\<lambda>f. f\<lparr>df_data := df_data f @ take (case se_write env of None \<Rightarrow> 0 | Some (n, _) \<Rightarrow> n) data, df_synced := False\<rparr>))"

definition applyFileMetadata :: "save_env \<Rightarrow> string \<Rightarrow> fileMetadata \<Rightarrow> disk_step list" where
  "applyFileMetadata env tmp metadata =
     (if se_windows env then []
      else (if se_euid env = 0 \<and> fm_uid metadata \<ge> 0 \<and> fm_gid metadata \<ge> 0
            then [(map_option (errorf ''set resume state owner'') (se_chown env), on_file tmp (\<lambda>f. f\<lparr>df_uid := fm_uid metadata, df_gid := fm_gid metadata\<rparr>), id)]
            else [])
           @ [(map_option (errorf ''set resume state permissions'') (se_chmod env), on_file tmp (\<lambda>f. f\<lparr>df_mode := fm_mode metadata\<rparr>), id)])"

text \<open>Renaming replaces the entry of the path; until the directory is synchronised the old one can come back.\<close>

definition Rename :: "string \<Rightarrow> string \<Rightarrow> disk \<Rightarrow> disk" where
  "Rename tmp path d =
     d\<lparr>dk_files := (dk_files d)(path := dk_files d tmp, tmp := None), dk_old := (dk_old d)(path := insert (dk_files d path) (dk_old d path))\<rparr>"

definition SyncDirectory :: "disk \<Rightarrow> disk" where
  "SyncDirectory d = d\<lparr>dk_old := (\<lambda>_. {})\<rparr>"

definition Remove :: "save_env \<Rightarrow> string \<Rightarrow> disk \<Rightarrow> disk" where
  "Remove env tmp d = (if se_remove env = None then d\<lparr>dk_files := (dk_files d)(tmp := None)\<rparr> else d)"

definition temp_steps :: "save_env \<Rightarrow> string \<Rightarrow> string \<Rightarrow> string \<Rightarrow> fileMetadata \<Rightarrow> disk_step list" where
  "temp_steps env path tmp data metadata =
     write_step env tmp data # applyFileMetadata env tmp metadata
     @ [(se_sync env, on_file tmp (\<lambda>f. f\<lparr>df_synced := True\<rparr>), id), (se_closeFile env, id, id), (se_rename env, Rename tmp path, id)]"

text \<open>From the creation of the temporary file on; it is removed unless it was renamed.\<close>

definition save_file :: "save_env \<Rightarrow> string \<Rightarrow> string \<Rightarrow> string \<Rightarrow> fileMetadata \<Rightarrow> disk \<Rightarrow> gerror option \<times> disk list" where
  "save_file env path tmp data metadata d =
     (let d1 = CreateTemp env tmp d
      in case run_steps (temp_steps env path tmp data metadata) d1 of
           (Some e, ds) \<Rightarrow> (Some e, d # d1 # ds @ [Remove env tmp (last ds)])
         | (None, ds) \<Rightarrow>
             if se_windows env then (None, d # d1 # ds)
             else if se_openDir env \<noteq> None then (se_openDir env, d # d1 # ds)
             else if se_syncDir env \<noteq> None then (se_syncDir env, d # d1 # ds)
             else (None, d # d1 # ds @ [SyncDirectory (last ds)]))"

text \<open>The result and the disks from the first to the last; \<open>tmp\<close> is the name \<^verbatim>\<open>os.CreateTemp\<close> found.\<close>

definition resume_Save :: "save_env \<Rightarrow> (ResumeState \<Rightarrow> string result) \<Rightarrow> string \<Rightarrow> string \<Rightarrow> ResumeState \<Rightarrow> disk \<Rightarrow> gerror option \<times> disk list" where
  "resume_Save env marshal path tmp state d =
     (case marshal state of
        Inl e \<Rightarrow> (Some e, [d])
      | Inr data \<Rightarrow>
          (if se_mkdir env \<noteq> None then (se_mkdir env, [d])
           else case inspectFile env path d of
             Inl e \<Rightarrow> (Some e, [d])
           | Inr metadata \<Rightarrow>
               if se_create env \<noteq> None then (se_create env, [d]) else save_file env path tmp data metadata d))"

definition resume_Load :: "gerror option \<Rightarrow> (string \<Rightarrow> ResumeState result) \<Rightarrow> string \<Rightarrow> disk \<Rightarrow> ResumeState option result" where
  "resume_Load fault unmarshal path d =
     (case fault of
        Some e \<Rightarrow> Inl (errorf ''read resume state'' e)
      | None \<Rightarrow>
          (case dk_files d path of
             None \<Rightarrow> Inr None
           | Some f \<Rightarrow> (case unmarshal (df_data f) of Inl e \<Rightarrow> Inl (errorf ''decode resume state'' e) | Inr state \<Rightarrow> Inr (Some state))))"

text \<open>\<^verbatim>\<open>persistResumeStateEvents\<close>: each update that can be read is saved, and errors are only logged.\<close>

fun persistResumeStateEvents ::
  "(nat \<Rightarrow> save_env) \<Rightarrow> (nat \<Rightarrow> string) \<Rightarrow> (ResumeState \<Rightarrow> string result) \<Rightarrow> (nat \<Rightarrow> SessionID \<Rightarrow> ResumeState result) \<Rightarrow> string \<Rightarrow> nat \<Rightarrow> Event list \<Rightarrow> disk \<Rightarrow> disk list" where
  "persistResumeStateEvents env tmp marshal provider path n [] d = [d]"
| "persistResumeStateEvents env tmp marshal provider path n (e # events) d =
     (if ev_Type e \<noteq> EventTypeResumeStateUpdated then persistResumeStateEvents env tmp marshal provider path (Suc n) events d
      else case provider n (ev_SessionID e) of
             Inl _ \<Rightarrow> persistResumeStateEvents env tmp marshal provider path (Suc n) events d
           | Inr state \<Rightarrow>
               (let ds = snd (resume_Save (env n) marshal path (tmp n) state d)
                in ds @ persistResumeStateEvents env tmp marshal provider path (Suc n) events (last ds)))"

section \<open>Saving is atomic\<close>

lemma crash_elsewhere [simp]:
  assumes "tmp \<noteq> path"
  shows "crash_contents (on_file tmp f d) path = crash_contents d path" "crash_contents (CreateTemp env tmp d) path = crash_contents d path"
    "crash_contents (Remove env tmp d) path = crash_contents d path"
  using assms by (simp_all add: crash_contents_def on_file_def CreateTemp_def Remove_def)

lemma crash_Rename: "tmp \<noteq> path \<Longrightarrow> crash_contents (Rename tmp path d) path = entry_contents (dk_files d tmp) \<union> crash_contents d path"
  by (simp add: crash_contents_def Rename_def)

lemma files_Rename: "tmp \<noteq> path \<Longrightarrow> dk_files (Rename tmp path d) path = dk_files d tmp" "dk_files (Rename tmp path d) tmp = None"
  by (simp_all add: Rename_def)

lemma crash_SyncDirectory: "crash_contents (SyncDirectory d) path = entry_contents (dk_files d path)" "dk_files (SyncDirectory d) = dk_files d"
  by (simp_all add: crash_contents_def SyncDirectory_def)

lemma files_elsewhere [simp]:
  assumes "tmp \<noteq> path"
  shows "dk_files (on_file tmp f d) path = dk_files d path" "dk_files (CreateTemp env tmp d) path = dk_files d path"
    "dk_files (Remove env tmp d) path = dk_files d path"
  using assms by (simp_all add: on_file_def CreateTemp_def Remove_def)

lemma files_there [simp]:
  "dk_files (on_file tmp f d) tmp = map_option f (dk_files d tmp)"
  "dk_files (CreateTemp env tmp d) tmp = Some \<lparr> df_data = [], df_synced = False, df_mode = 384, df_uid = se_euid env, df_gid = se_egid env \<rparr>"
  by (simp_all add: on_file_def CreateTemp_def)

text \<open>The new file is complete and synchronised when it takes the place of the old one, with the permissions and the owner it should have.\<close>

definition new_file :: "save_env \<Rightarrow> string \<Rightarrow> fileMetadata \<Rightarrow> disk_file \<Rightarrow> bool" where
  "new_file env data metadata f \<longleftrightarrow>
     df_data f = data \<and> df_synced f \<and> (\<not> se_windows env \<longrightarrow> df_mode f = fm_mode metadata)
     \<and> (\<not> se_windows env \<and> se_euid env = 0 \<and> fm_uid metadata \<ge> 0 \<and> fm_gid metadata \<ge> 0 \<longrightarrow> df_uid f = fm_uid metadata \<and> df_gid f = fm_gid metadata)"

lemma temp_steps_run:
  assumes "tmp \<noteq> path" and r: "run_steps (temp_steps env path tmp data metadata) (CreateTemp env tmp d) = (r, ds)"
  shows "ds \<noteq> []" "\<forall>d' \<in> set ds. crash_contents d' path \<subseteq> insert (Some data) (crash_contents d path)"
    "r \<noteq> None \<Longrightarrow> dk_files (last ds) path = dk_files d path"
    "r = None \<Longrightarrow> dk_files (last ds) tmp = None \<and> (\<exists>f. dk_files (last ds) path = Some f \<and> new_file env data metadata f)"
  using r assms(1)
  by (auto simp: temp_steps_def applyFileMetadata_def write_step_def crash_Rename entry_contents_def new_file_def files_Rename
      split: option.splits if_splits prod.splits)

lemma inspect_mode:
  "inspectFile env path d = Inr metadata \<Longrightarrow> \<not> se_windows env \<Longrightarrow>
     fm_mode metadata = (case dk_files d path of None \<Rightarrow> 384 | Some f \<Rightarrow> perm (df_mode f))"
  by (auto simp: inspectFile_def Let_def split: option.splits sum.splits)

text \<open>What a save promises of its result and its disks.\<close>

definition saved :: "save_env \<Rightarrow> string \<Rightarrow> string \<Rightarrow> string \<Rightarrow> disk \<Rightarrow> gerror option \<Rightarrow> disk list \<Rightarrow> bool" where
  "saved env path tmp data d err ds \<longleftrightarrow>
     ds \<noteq> [] \<and> (\<forall>d' \<in> set ds. crash_contents d' path \<subseteq> insert (Some data) (crash_contents d path))
     \<and> (err = None \<longrightarrow> (\<exists>f. dk_files (last ds) path = Some f \<and> df_data f = data
          \<and> (\<not> se_windows env \<longrightarrow> crash_contents (last ds) path = {Some data} \<and> df_mode f = (case dk_files d path of None \<Rightarrow> 384 | Some f \<Rightarrow> perm (df_mode f)))))
     \<and> (err \<noteq> None \<and> se_remove env = None \<and> dk_files d tmp = None \<longrightarrow> dk_files (last ds) tmp = None)
     \<and> (err \<noteq> None \<and> se_openDir env = None \<and> se_syncDir env = None \<longrightarrow> dk_files (last ds) path = dk_files d path)"

lemma save_file_saved:
  assumes "tmp \<noteq> path" "inspectFile env path d = Inr metadata" and r: "save_file env path tmp data metadata d = (err, ds)"
  shows "saved env path tmp data d err ds"
proof -
  obtain r1 ts where ts: "run_steps (temp_steps env path tmp data metadata) (CreateTemp env tmp d) = (r1, ts)" by fastforce
  note t = temp_steps_run [OF assms(1) ts]
  have l: "crash_contents (last ts) path \<subseteq> insert (Some data) (crash_contents d path)" using t(1,2) last_in_set by blast
  have y: "crash_contents (SyncDirectory (last ts)) path \<subseteq> crash_contents (last ts) path"
    unfolding crash_SyncDirectory by (auto simp: crash_contents_def)
  show ?thesis
  proof (cases r1)
    case (Some e)
    then have "err = Some e" "ds = d # CreateTemp env tmp d # ts @ [Remove env tmp (last ts)]" using r ts by (simp_all add: save_file_def Let_def)
    then show ?thesis using t Some l assms(1) by (auto simp: saved_def) (simp add: Remove_def)
  next
    case None
    obtain f where f: "dk_files (last ts) path = Some f" "new_file env data metadata f" "dk_files (last ts) tmp = None" using t(4) None by blast
    note m = inspect_mode [OF assms(2)]
    consider "err = None" "ds = d # CreateTemp env tmp d # ts" "se_windows env"
      | "err \<noteq> None" "ds = d # CreateTemp env tmp d # ts" "se_openDir env \<noteq> None \<or> se_syncDir env \<noteq> None"
      | "err = None" "ds = d # CreateTemp env tmp d # ts @ [SyncDirectory (last ts)]"
      using r ts None by (auto simp: save_file_def Let_def simp del: not_None_eq split: if_splits)
    then show ?thesis
    proof cases
      case 3
      then show ?thesis using t(1,2) f l y m assms(1) by (auto simp: saved_def crash_SyncDirectory entry_contents_def new_file_def)
    qed (use t(1,2) f l assms(1) in \<open>auto simp: saved_def new_file_def\<close>)
  qed
qed

lemma saved_same: "err \<noteq> None \<Longrightarrow> saved env path tmp data d err [d]"
  by (auto simp: saved_def)

lemma saved_disks: "saved env path tmp data d err ds \<Longrightarrow> crash_contents d path \<subseteq> C \<Longrightarrow> Some data \<in> C \<Longrightarrow> ds \<noteq> [] \<and> (\<forall>d' \<in> set ds. crash_contents d' path \<subseteq> C)"
proof -
  assume s: "saved env path tmp data d err ds" and C: "crash_contents d path \<subseteq> C" "Some data \<in> C"
  have "ds \<noteq> []" and "\<forall>d' \<in> set ds. crash_contents d' path \<subseteq> insert (Some data) (crash_contents d path)" using s by (simp_all add: saved_def)
  moreover have "insert (Some data) (crash_contents d path) \<subseteq> C" using C by simp
  ultimately show ?thesis by (meson subset_trans)
qed

lemma Save_saved:
  assumes "tmp \<noteq> path" "marshal state = Inr data" and r: "resume_Save env marshal path tmp state d = (err, ds)"
  shows "saved env path tmp data d err ds"
proof -
  have "err \<noteq> None \<and> ds = [d] \<or> (\<exists>metadata. inspectFile env path d = Inr metadata \<and> save_file env path tmp data metadata d = (err, ds))"
    using r assms(2) by (auto simp: resume_Save_def simp del: not_None_eq split: sum.splits if_splits)
  then show ?thesis using save_file_saved [OF assms(1)] saved_same by blast
qed

text \<open>Whatever is saved, the file always holds one of the states that were in it or were saved.\<close>

lemma persist_complete:
  assumes "\<And>n. tmp n \<noteq> path" and "\<And>n sid state data. provider n sid = Inr state \<Longrightarrow> marshal state = Inr data \<Longrightarrow> Some data \<in> C"
  shows "crash_contents d path \<subseteq> C \<Longrightarrow>
    \<forall>d' \<in> set (persistResumeStateEvents env tmp marshal provider path n events d). crash_contents d' path \<subseteq> C"
proof (induction events arbitrary: n d)
  case (Cons e events)
  show ?case
  proof (cases "ev_Type e = EventTypeResumeStateUpdated \<and> (\<exists>state. provider n (ev_SessionID e) = Inr state)")
    case True
    then obtain state where st: "ev_Type e = EventTypeResumeStateUpdated" "provider n (ev_SessionID e) = Inr state" by blast
    obtain err ds where r: "resume_Save (env n) marshal path (tmp n) state d = (err, ds)" by fastforce
    have ds: "ds \<noteq> [] \<and> (\<forall>d' \<in> set ds. crash_contents d' path \<subseteq> C)"
    proof (cases "marshal state")
      case (Inr data)
      then have "saved (env n) path (tmp n) data d err ds" using Save_saved [OF assms(1)] r by blast
      moreover have "Some data \<in> C" using assms(2) st Inr by blast
      ultimately show ?thesis using Cons.prems by (intro saved_disks)
    next
      case (Inl e')
      then have "ds = [d]" using r by (simp add: resume_Save_def)
      then show ?thesis using Cons.prems by simp
    qed
    then have "crash_contents (last ds) path \<subseteq> C" using last_in_set by blast
    then show ?thesis using Cons.IH [of "last ds" "Suc n"] ds st r by (auto simp: Let_def)
  next
    case False
    then have "persistResumeStateEvents env tmp marshal provider path n (e # events) d = persistResumeStateEvents env tmp marshal provider path (Suc n) events d"
      by (auto split: sum.splits)
    then show ?thesis using Cons.IH [OF Cons.prems] by simp
  qed
qed simp

text \<open>Saving the resume state is atomic. At every moment of a save, on a disk where the file holds \<open>old\<close> (or nothing), whichever system call fails,
  what a crash leaves in the file is the old content or the new one, complete; a save that reports success has made the new one durable, with the
  permissions of the file it replaces or for the owner only, and loading it gives the state back; one that fails leaves no temporary file, and the file as
  it was unless only the synchronisation of the directory failed. And through any sequence of updates the file always holds a complete state.
\<close>

theorem resume_store_atomic:
  assumes "tmp \<noteq> path" "dk_files d tmp = None" "crash_contents d path = {old}" "marshal state = Inr data" "unmarshal data = Inr state"
    and r: "resume_Save env marshal path tmp state d = (err, ds)" and "\<And>n. temps n \<noteq> path"
  shows "(\<forall>d' \<in> set ds. crash_contents d' path \<subseteq> {old, Some data})
    \<and> (err = None \<longrightarrow> resume_Load None unmarshal path (last ds) = Inr (Some state)
         \<and> (\<not> se_windows env \<longrightarrow> crash_contents (last ds) path = {Some data}
              \<and> map_option df_mode (dk_files (last ds) path) = Some (case dk_files d path of None \<Rightarrow> 384 | Some f \<Rightarrow> perm (df_mode f))))
    \<and> (err \<noteq> None \<and> se_remove env = None \<longrightarrow> dk_files (last ds) tmp = None)
    \<and> (err \<noteq> None \<and> se_openDir env = None \<and> se_syncDir env = None \<longrightarrow> dk_files (last ds) path = dk_files d path)
    \<and> (\<forall>d' \<in> set (persistResumeStateEvents envs temps marshal provider path 0 events d).
         crash_contents d' path \<subseteq> {old} \<union> {Some x |x n sid st. provider n sid = Inr st \<and> marshal st = Inr x})"
proof -
  have s: "saved env path tmp data d err ds" using assms(1,4) r by (rule Save_saved)
  have l: "err = None \<longrightarrow> resume_Load None unmarshal path (last ds) = Inr (Some state)
      \<and> (\<not> se_windows env \<longrightarrow> crash_contents (last ds) path = {Some data}
           \<and> map_option df_mode (dk_files (last ds) path) = Some (case dk_files d path of None \<Rightarrow> 384 | Some f \<Rightarrow> perm (df_mode f)))"
    using s assms(5) by (auto simp: saved_def resume_Load_def)
  have "crash_contents d path \<subseteq> {old} \<union> {Some x |x n sid st. provider n sid = Inr st \<and> marshal st = Inr x}" by (simp add: assms(3))
  then have "\<forall>d' \<in> set (persistResumeStateEvents envs temps marshal provider path 0 events d).
      crash_contents d' path \<subseteq> {old} \<union> {Some x |x n sid st. provider n sid = Inr st \<and> marshal st = Inr x}"
    by (intro persist_complete [OF assms(7)]) auto
  moreover have "\<forall>d' \<in> set ds. crash_contents d' path \<subseteq> {old, Some data}" using s assms(3) by (auto simp: saved_def)
  ultimately show ?thesis using s l assms(2) unfolding saved_def by blast
qed

text \<open>A write that fails half way.\<close>

definition demo_save :: save_env where
  "demo_save = \<lparr> se_windows = False, se_euid = 1000, se_egid = 1000, se_sudoUID = [], se_sudoGID = [], se_directory = Inr \<lparr> fo_uid = 1000, fo_gid = 1000 \<rparr>,
     se_mkdir = None, se_stat = None, se_create = None, se_write = Some (2, Opaque ''no space left on device''), se_chown = None, se_chmod = None,
     se_sync = None, se_closeFile = None, se_rename = None, se_remove = None, se_openDir = None, se_syncDir = None \<rparr>"

definition demo_disk :: disk where
  "demo_disk = \<lparr> dk_files = [''state'' \<mapsto> \<lparr> df_data = ''old'', df_synced = True, df_mode = 416, df_uid = 1000, df_gid = 1000 \<rparr>], dk_old = (\<lambda>_. {}) \<rparr>"

definition demo_state :: ResumeState where
  "demo_state = \<lparr> rs_Format = [], rs_Version = 1, rs_Revision = 1, rs_Scope = \<lparr> scope_ServerAddress = ''vpn'', scope_ServerPort = 443, scope_Username = ''u'' \<rparr>, rs_UpdatedAt = 0, rs_Data = ''x'', rs_Reused = False \<rparr>"

theorem resume_store_atomic_witness:
  "fst (resume_Save demo_save (\<lambda>_. Inr ''new'') ''state'' ''tmp'' demo_state demo_disk) = Some (Opaque ''no space left on device'')
   \<and> dk_files (last (snd (resume_Save demo_save (\<lambda>_. Inr ''new'') ''state'' ''tmp'' demo_state demo_disk))) ''state'' = dk_files demo_disk ''state''
   \<and> (\<forall>d' \<in> set (snd (resume_Save demo_save (\<lambda>_. Inr ''new'') ''state'' ''tmp'' demo_state demo_disk)).
        crash_contents d' ''state'' \<subseteq> {Some ''old'', Some ''new''})"
proof -
  have e: "fst (resume_Save demo_save (\<lambda>_. Inr ''new'') ''state'' ''tmp'' demo_state demo_disk) = Some (Opaque ''no space left on device'')"
    by (simp add: resume_Save_def save_file_def Let_def demo_save_def demo_disk_def inspectFile_def selectOwner_def temp_steps_def write_step_def)
  have "crash_contents demo_disk ''state'' = {Some ''old''}" "dk_files demo_disk ''tmp'' = None"
    by (simp_all add: crash_contents_def entry_contents_def demo_disk_def)
  from resume_store_atomic [of "''tmp''" "''state''" demo_disk "Some ''old''" "\<lambda>_. Inr ''new''" demo_state "''new''" "\<lambda>_. Inr demo_state" demo_save,
      OF _ this(2,1) _ _ prod.collapse [symmetric], of "\<lambda>_. ''tmp''"]
  show ?thesis using e by (simp add: demo_save_def)
qed

end
