(* ===== verification/Spec2Isabelle.thy ===== *)
theory Spec2Isabelle
  imports L3Tunnel Dial Manager NetRuntime Controller ClientSetup TunHandlers RestServer Underlay ResumeStore
begin

text \<open>
  A verification of zju-portal-core, the core of a client for aTrust VPN gateways.

  \<^bold>\<open>The program.\<close> A daemon reads a configuration, signs in at a gateway, fetches the resources the gateway
  publishes, opens tunnels to its nodes and offers the resources to local programs through SOCKS5, HTTP,
  DNS and TUN services. The packages, from the outside in: \<^verbatim>\<open>daemonconfig\<close> holds the configuration and
  \<^verbatim>\<open>daemonruntime\<close> the controller that changes it and starts sessions; \<^verbatim>\<open>manager\<close> keeps the one active session
  and answers its queries; \<^verbatim>\<open>internal/atrustruntime\<close> is a session: it starts a runtime, watches it,
  reconnects, refreshes resources and closes; \<^verbatim>\<open>internal/networkruntime\<close> runs the services over a VPN backend that
  a reconnection replaces, counts traffic and answers DNS with fake addresses; \<^verbatim>\<open>dial\<close> and \<^verbatim>\<open>resolve\<close> choose
  the outbound of a connection and resolve names; \<^verbatim>\<open>client/atrust\<close> speaks the gateway's protocols;
  \<^verbatim>\<open>core\<close> has the records, errors and states all of them share.

  \<^bold>\<open>Theories and sources\<close> (paths under \<^verbatim>\<open>src/\<close>):

  \<^item> \<open>Prelude\<close>: Go's fixed-width integers, strings, numerals and map iteration, and the two generic interfaces:
    \<open>step_system\<close> (operations with an invariant; every state a run reaches satisfies it) and \<open>bounded_chan\<close> (a buffered
    channel whose producers never block). \<open>GoNet\<close>: the parts of \<^verbatim>\<open>net\<close> and \<^verbatim>\<open>net/netip\<close> the sources use.
  \<^item> \<open>CoreError\<close>, \<open>CoreTypes\<close>, \<open>CoreEvents\<close>: package \<^verbatim>\<open>core\<close>. Error chains with \<^verbatim>\<open>errors.Is\<close> and \<^verbatim>\<open>errors.As\<close>, the session
    state table, authentication challenges, events, statistics and configuration records.
  \<^item> \<open>Zctcpip\<close>: \<^verbatim>\<open>internal/zctcpip\<close>, the accessors of IPv4, TCP and UDP headers.
  \<^item> \<open>L3Frame\<close>, \<open>Conntrack\<close>, \<open>L3Tunnel\<close>: \<^verbatim>\<open>client/atrust/l3tunnel*.go\<close>. The wire format of the tunnel, the table of tracked
    flows with their authentication, and node connections, routing of packets and the table of connections.
  \<^item> \<open>TcpTunnel\<close>: the handshake and the data stream of \<^verbatim>\<open>client/atrust/tcptunnel.go\<close>. \<open>AtrustClient\<close>: the client's state
    (\<^verbatim>\<open>client.go\<close>), the dialling of TCP tunnels, the choice of nodes with the pings (\<^verbatim>\<open>node.go\<close>, \<^verbatim>\<open>internal/ping\<close>), the client's address (\<^verbatim>\<open>ip.go\<close>).
    \<open>Auth\<close>: the sign-in, \<^verbatim>\<open>client/atrust/auth\<close>. \<open>ClientSetup\<close>: \<^verbatim>\<open>setup.go\<close> and \<^verbatim>\<open>l3conn.go\<close>, which put them together.
  \<^item> \<open>Resources\<close>: \<^verbatim>\<open>client/client.go\<close>, \<^verbatim>\<open>client/atrust/parse.go\<close>. \<open>Dial\<close>: package \<^verbatim>\<open>dial\<close>. \<open>FakeIP\<close>, \<open>Resolver\<close>: the fake
    address store, package \<^verbatim>\<open>resolve\<close>, \<^verbatim>\<open>internal/dnsmessage\<close> and the TUN resolver.
  \<^item> \<open>Tracker\<close>, \<open>Routes\<close>, \<open>NetRuntime\<close>: \<^verbatim>\<open>tracker.go\<close>, \<^verbatim>\<open>routes.go\<close>, and \<^verbatim>\<open>runtime.go\<close>, \<^verbatim>\<open>inbound.go\<close>, \<^verbatim>\<open>errors.go\<close> of
    \<^verbatim>\<open>internal/networkruntime\<close>.
  \<^item> \<open>TunUDP\<close>, \<open>TunService\<close>, \<open>TunHandlers\<close>: the TUN service, \<^verbatim>\<open>tun_udp.go\<close>, \<^verbatim>\<open>tun.go\<close>, \<^verbatim>\<open>tun_dns.go\<close> and \<^verbatim>\<open>tun_health.go\<close> of the same package: UDP flows and their
    limit, start and close of the service, hijacked DNS and relayed connections. \<open>SystemDns\<close>: \<^verbatim>\<open>internal/systemdns\<close>, whose interface is the
    locale \<open>dns_controller\<close>, proved of the macOS controller and used by the service.
  \<^item> \<open>SessionRuntime\<close>: \<^verbatim>\<open>runtime.go\<close>, \<^verbatim>\<open>resume.go\<close>, \<^verbatim>\<open>resources.go\<close>, \<^verbatim>\<open>network.go\<close> of \<^verbatim>\<open>internal/atrustruntime\<close>; \<open>Session\<close>: its
    \<^verbatim>\<open>session.go\<close>, \<^verbatim>\<open>routing.go\<close>, \<^verbatim>\<open>stats.go\<close>. \<open>SessionRuns\<close> has what every handler guarantees to the others and the
    runs; \<open>SessionLife\<close> who holds which runtime at every moment.
  \<^item> \<open>Manager\<close>: package \<^verbatim>\<open>manager\<close>. \<open>DaemonConfig\<close>: package \<^verbatim>\<open>daemonconfig\<close>. \<open>Controller\<close>: package \<^verbatim>\<open>daemonruntime\<close>.

  \<^bold>\<open>How code is modelled.\<close> A struct is a record and an operation a function on it that returns the new state. An error
  is a value (\<open>gerror\<close>; a fallible result is \<open>gerror + 'a\<close>). A panic, a call that blocks and a read that never
  returns are None. Structs shared by pointer live in a heap inside the record of their owner (tracked flows,
  fake addresses, runtimes, backends, connections); the maps hold references, so aliasing is explicit. A Go map
  is a partial function; a loop over it takes the order of visits as an argument and its theorems hold for every
  order. Integers whose overflow can matter are words. Time is nanoseconds, given to the operation.

  \<^bold>\<open>Concurrency.\<close> Parts of the code that a mutex makes atomic are single steps, and a run is any sequence of them
  (connection table, tunnel table, fake addresses, UDP flows, trackers, broker, network runtime, controller). The start and the close of the TUN
  service are two program counters that step in any order. A session handler
  gives up its mutex several times: it takes what the other goroutines do at each of these points as an argument
  \<open>y\<close>, and its theorems hold for every such argument that keeps the guarantee \<open>guar\<close>. An operation of a run carries the lists of
  operations that interrupt it, so nested interference of any depth is covered.

  The sign-in is a sequence of actions on its session (\<open>abind\<close>); the gateway, the user and random numbers act on an unknown state of their own,
  and a history variable records the requests and questions.

  \<^bold>\<open>Code outside \<^verbatim>\<open>src/\<close>\<close> is a parameter: dialers, TLS, the VPN client and the network stack, the go-cache and
  netaddr packages, HTTP with its cookies, URL parsing, JSON and YAML coding, RSA and hash functions. Where a theorem needs something of them it is a named
  predicate (\<open>cache_laws\<close>, \<open>ipset_laws\<close>), with a concrete instance in the witness.

  \<^bold>\<open>What is shown.\<close> Frames: the reader decodes what the builders write, makes progress, and which malformed data frames are misread.
  Connection table: its indexes stay consistent, it stays within its bound and never drops a pending flow, waiting for
  authentication ends. Tunnel: no packet causes a panic or leaks a connection; routing is the first match of a numeric
  specification; the watchdog closes after 75 seconds. TCP tunnel: a dialled tunnel delivers what the node frames, a dial leaks no
  connection and serves covered destinations only. Sign-in: requests go to the gateway only, loops are bounded, and a login that succeeds has followed
  the gateway's steps. Set-up: it announces its stages in order, which is what the session's theorems ask of it, and leaves a client with nodes,
  address and tunnel. Names: fake addresses are one to one with names and read
  back, DNS answers are well formed, permanent records win. Outbounds: each mode's choice, and that the VPN carries published resources only.
  Sessions: runs follow the state table, a failing start leaks nothing, closing ends in stopped with everything closed, reconnection is paced.
  Manager: every session but the active one is stopped; a challenge is answered at most once. Network runtime: the
  trackers account for every byte, the routes cover a reference set exactly, every backend is current or closed.
  TUN: however its goroutines interleave, the service closes what it opened exactly once and both of them end; UDP flows stay within their limit; traffic to a
  hijacked answer reaches the name; the system's DNS settings can be brought back after any failure or crash.
  Daemon: the changes listed between configurations are exact, and a run of the controller keeps the configurations valid,
  leaves core settings alone and gives a session a resume state of its own scope only.

  \<^bold>\<open>Bounds and fuel.\<close> Loops over data are structural recursions. The eviction loop of the connection table is bounded by the table's size,
  which each round shrinks. The reconnection loop runs for a given number of rounds; its theorem says what every round
  does and that the loop ends when the session's context does. The start of the TUN service has at most twelve steps and its close seven. Buffers have the sizes of the source (32 session events, 128 manager events).

  \<^bold>\<open>Not modelled.\<close> The TUN device itself, its stack and its monitors, which a third-party package provides; the SOCKS, HTTP and DNS
  listeners of \<^verbatim>\<open>service\<close>; the control transports of \<^verbatim>\<open>control\<close>, which only forward to the controller; \<^verbatim>\<open>main.go\<close>, logging, files,
  sockets bound to interfaces (\<^verbatim>\<open>internal/underlay\<close>) and the gVisor stack.
\<close>

end
